(* ===== verification/Cemp_Prelude.thy ===== *)
theory Cemp_Prelude
  imports Main "HOL-Library.Word"
begin

text \<open>
  Shared vocabulary of the development.

  Effects. A method of the TypeScript code that reads or writes persistent state is a
  \<open>prog\<close>: a function from the state to a result and the state left behind. A result is
  \<open>Inl e\<close> for a rejected promise or a thrown error and \<open>Inr a\<close> for a returned value. The
  state is returned in both cases, because a method that throws half way through keeps the
  writes it has already made; only \<open>atomically\<close> (the adapter's \<open>transaction\<close>) rolls back.

  Reasoning. \<open>wp m Q E s\<close> says that from \<open>s\<close> the program \<open>m\<close> either returns with \<open>Q\<close>
  or throws with \<open>E\<close>; \<open>keeps I m\<close> says that \<open>m\<close> keeps the state invariant \<open>I\<close> whatever
  its outcome. Both come with one rule per combinator, collected in \<open>wp_rules\<close> and
  \<open>keeps_rules\<close>.
\<close>

named_theorems prog_defs "definitions of the program combinators"
named_theorems wp_rules "weakest-precondition equations of the combinators"
named_theorems keeps_rules "introduction rules for state invariants of programs"

type_synonym byte = "8 word"
type_synonym bytes = "byte list"

section \<open>Programs\<close>

type_synonym ('s, 'e, 'a) prog = "'s \<Rightarrow> ('e + 'a) \<times> 's"

definition ret :: "'a \<Rightarrow> ('s, 'e, 'a) prog" where
  [prog_defs]: "ret x = (\<lambda>s. (Inr x, s))"

definition throw :: "'e \<Rightarrow> ('s, 'e, 'a) prog" where
  [prog_defs]: "throw e = (\<lambda>s. (Inl e, s))"

definition asks :: "('s \<Rightarrow> 'a) \<Rightarrow> ('s, 'e, 'a) prog" where
  [prog_defs]: "asks f = (\<lambda>s. (Inr (f s), s))"

definition modify :: "('s \<Rightarrow> 's) \<Rightarrow> ('s, 'e, unit) prog" where
  [prog_defs]: "modify f = (\<lambda>s. (Inr (), f s))"

definition andthen :: "('s, 'e, 'a) prog \<Rightarrow> ('a \<Rightarrow> ('s, 'e, 'b) prog) \<Rightarrow> ('s, 'e, 'b) prog" where
  [prog_defs]: "andthen m f = (\<lambda>s. case m s of
       (Inl e, s') \<Rightarrow> (Inl e, s')
     | (Inr x, s') \<Rightarrow> f x s')"

text \<open>\<open>try { m } catch (e) { h(e) }\<close>: the handler starts in the state the body left.\<close>

definition catching :: "('s, 'e, 'a) prog \<Rightarrow> ('e \<Rightarrow> ('s, 'f, 'a) prog) \<Rightarrow> ('s, 'f, 'a) prog" where
  [prog_defs]: "catching m h = (\<lambda>s. case m s of
       (Inl e, s') \<Rightarrow> h e s'
     | (Inr x, s') \<Rightarrow> (Inr x, s'))"

text \<open>\<open>try { m } finally { f }\<close>: an error of the finaliser replaces the outcome of the body.\<close>

definition finally_do :: "('s, 'e, 'a) prog \<Rightarrow> ('s, 'e, unit) prog \<Rightarrow> ('s, 'e, 'a) prog" where
  [prog_defs]: "finally_do m f = (\<lambda>s. case m s of (r, s') \<Rightarrow>
     (case f s' of (Inl e, s'') \<Rightarrow> (Inl e, s'') | (Inr _, s'') \<Rightarrow> (r, s'')))"

text \<open>A transaction: any throw restores the state at its beginning.\<close>

definition atomically :: "('s, 'e, 'a) prog \<Rightarrow> ('s, 'e, 'a) prog" where
  [prog_defs]: "atomically m = (\<lambda>s. case m s of
       (Inl e, _) \<Rightarrow> (Inl e, s)
     | (Inr x, s') \<Rightarrow> (Inr x, s'))"

definition when_do :: "bool \<Rightarrow> ('s, 'e, unit) prog \<Rightarrow> ('s, 'e, unit) prog" where
  [prog_defs]: "when_do b m = (if b then m else ret ())"

fun for_each :: "('a \<Rightarrow> ('s, 'e, unit) prog) \<Rightarrow> 'a list \<Rightarrow> ('s, 'e, unit) prog" where
  "for_each f [] = ret ()"
| "for_each f (x # xs) = andthen (f x) (\<lambda>_. for_each f xs)"

fun map_prog :: "('a \<Rightarrow> ('s, 'e, 'b) prog) \<Rightarrow> 'a list \<Rightarrow> ('s, 'e, 'b list) prog" where
  "map_prog f [] = ret []"
| "map_prog f (x # xs) =
     andthen (f x) (\<lambda>y. andthen (map_prog f xs) (\<lambda>ys. ret (y # ys)))"

subsection \<open>Weakest preconditions\<close>

definition wp ::
  "('s, 'e, 'a) prog \<Rightarrow> ('a \<Rightarrow> 's \<Rightarrow> bool) \<Rightarrow> ('e \<Rightarrow> 's \<Rightarrow> bool) \<Rightarrow> 's \<Rightarrow> bool" where
  "wp m Q E s \<longleftrightarrow> (case m s of (Inl e, s') \<Rightarrow> E e s' | (Inr a, s') \<Rightarrow> Q a s')"

lemma wp_ret [wp_rules]: "wp (ret x) Q E s = Q x s"
  by (simp add: wp_def ret_def)

lemma wp_throw [wp_rules]: "wp (throw e) Q E s = E e s"
  by (simp add: wp_def throw_def)

lemma wp_asks [wp_rules]: "wp (asks f) Q E s = Q (f s) s"
  by (simp add: wp_def asks_def)

lemma wp_modify [wp_rules]: "wp (modify f) Q E s = Q () (f s)"
  by (simp add: wp_def modify_def)

lemma wp_andthen [wp_rules]:
  "wp (andthen m f) Q E s = wp m (\<lambda>a s'. wp (f a) Q E s') E s"
  by (simp add: wp_def andthen_def split: prod.splits sum.splits)

lemma wp_catching [wp_rules]:
  "wp (catching m h) Q E s = wp m Q (\<lambda>e s'. wp (h e) Q E s') s"
  by (simp add: wp_def catching_def split: prod.splits sum.splits)

lemma wp_finally [wp_rules]:
  "wp (finally_do m f) Q E s =
     wp m (\<lambda>a s'. wp f (\<lambda>_. Q a) E s') (\<lambda>e s'. wp f (\<lambda>_. E e) E s') s"
  by (simp add: wp_def finally_do_def split: prod.splits sum.splits)

lemma wp_atomically [wp_rules]:
  "wp (atomically m) Q E s = wp m Q (\<lambda>e _. E e s) s"
  by (simp add: wp_def atomically_def split: prod.splits sum.splits)

lemma wp_when [wp_rules]:
  "wp (when_do b m) Q E s = (if b then wp m Q E s else Q () s)"
  by (simp add: when_do_def wp_ret)

lemma wp_if [wp_rules]:
  "wp (if b then m else n) Q E s = (if b then wp m Q E s else wp n Q E s)"
  by simp

lemma wp_option [wp_rules]:
  "wp (case x of None \<Rightarrow> m | Some y \<Rightarrow> f y) Q E s =
     (case x of None \<Rightarrow> wp m Q E s | Some y \<Rightarrow> wp (f y) Q E s)"
  by (simp split: option.splits)

lemma wp_mono:
  assumes "wp m Q E s" and "\<And>a s'. Q a s' \<Longrightarrow> Q' a s'" and "\<And>e s'. E e s' \<Longrightarrow> E' e s'"
  shows "wp m Q' E' s"
  using assms by (auto simp: wp_def split: prod.splits sum.splits)

lemma wp_conj:
  "wp m Q E s \<Longrightarrow> wp m Q' E' s \<Longrightarrow> wp m (\<lambda>a t. Q a t \<and> Q' a t) (\<lambda>e t. E e t \<and> E' e t) s"
  by (simp add: wp_def split: prod.splits sum.splits)

lemma andthen_ret [simp]: "andthen (ret x) f = f x"
  by (simp add: andthen_def ret_def)

lemma wp_eqI: "wp m (\<lambda>a s'. r = Inr a \<and> t = s') (\<lambda>e s'. r = Inl e \<and> t = s') s \<Longrightarrow> m s = (r, t)"
  by (auto simp: wp_def split: prod.splits sum.splits)

lemma wp_result: "wp m Q E s \<Longrightarrow> m s = (Inr a, t) \<Longrightarrow> Q a t"
  by (simp add: wp_def)

lemma wp_error: "wp m Q E s \<Longrightarrow> m s = (Inl e, t) \<Longrightarrow> E e t"
  by (simp add: wp_def)

lemma wp_for_each:
  assumes step: "\<And>x s. x \<in> set xs \<Longrightarrow> I s \<Longrightarrow> wp (f x) (\<lambda>_. I) E s" and "I s"
  shows "wp (for_each f xs) (\<lambda>_. I) E s"
  using assms
proof (induction xs arbitrary: s)
  case Nil
  then show ?case by (simp add: wp_ret)
next
  case (Cons x xs)
  have "wp (f x) (\<lambda>_. I) E s" using Cons.prems by simp
  then have "wp (f x) (\<lambda>_ s'. wp (for_each f xs) (\<lambda>_. I) E s') E s"
    by (rule wp_mono) (use Cons in auto)
  then show ?case by (simp add: wp_andthen)
qed

subsection \<open>State invariants\<close>

definition keeps :: "('s \<Rightarrow> bool) \<Rightarrow> ('s, 'e, 'a) prog \<Rightarrow> bool" where
  "keeps I m \<longleftrightarrow> (\<forall>s. I s \<longrightarrow> I (snd (m s)))"

lemma keepsD: "keeps I m \<Longrightarrow> I s \<Longrightarrow> I (snd (m s))"
  by (simp add: keeps_def)

lemma keeps_wp: "keeps I m \<longleftrightarrow> (\<forall>s. I s \<longrightarrow> wp m (\<lambda>_. I) (\<lambda>_. I) s)"
  by (auto simp: keeps_def wp_def split: prod.splits sum.splits) (metis sndI sum.exhaust surj_pair)+

lemma keepsI: "(\<And>s. I s \<Longrightarrow> wp m (\<lambda>_. I) (\<lambda>_. I) s) \<Longrightarrow> keeps I m"
  by (simp add: keeps_wp)

lemma keeps_ret [keeps_rules]: "keeps I (ret x)"
  by (simp add: keeps_def ret_def)

lemma keeps_throw [keeps_rules]: "keeps I (throw e)"
  by (simp add: keeps_def throw_def)

lemma keeps_asks [keeps_rules]: "keeps I (asks f)"
  by (simp add: keeps_def asks_def)

lemma keeps_andthen [keeps_rules]:
  "keeps I m \<Longrightarrow> (\<And>a. keeps I (f a)) \<Longrightarrow> keeps I (andthen m f)"
  by (auto simp: keeps_def andthen_def split: prod.splits sum.splits)

lemma keeps_catching [keeps_rules]:
  "keeps I m \<Longrightarrow> (\<And>e. keeps I (h e)) \<Longrightarrow> keeps I (catching m h)"
  by (auto simp: keeps_def catching_def split: prod.splits sum.splits)

lemma keeps_finally [keeps_rules]: "keeps I m \<Longrightarrow> keeps I f \<Longrightarrow> keeps I (finally_do m f)"
  by (auto simp: keeps_def finally_do_def split: prod.splits sum.splits)

lemma keeps_atomically [keeps_rules]: "keeps I m \<Longrightarrow> keeps I (atomically m)"
  by (auto simp: keeps_def atomically_def split: prod.splits sum.splits)

lemma keeps_when [keeps_rules]: "(b \<Longrightarrow> keeps I m) \<Longrightarrow> keeps I (when_do b m)"
  by (simp add: when_do_def keeps_ret)

lemma keeps_if [keeps_rules]:
  "(b \<Longrightarrow> keeps I m) \<Longrightarrow> (\<not> b \<Longrightarrow> keeps I n) \<Longrightarrow> keeps I (if b then m else n)"
  by simp

lemma keeps_option [keeps_rules]:
  "keeps I m \<Longrightarrow> (\<And>y. keeps I (f y)) \<Longrightarrow> keeps I (case x of None \<Rightarrow> m | Some y \<Rightarrow> f y)"
  by (simp split: option.splits)

lemma keeps_for_each [keeps_rules]: "(\<And>x. keeps I (f x)) \<Longrightarrow> keeps I (for_each f xs)"
  by (induction xs) (auto intro: keeps_rules)

lemma keeps_map_prog [keeps_rules]: "(\<And>x. keeps I (f x)) \<Longrightarrow> keeps I (map_prog f xs)"
  by (induction xs) (auto intro!: keeps_rules)

text \<open>The same at one state: a program whose first step needs more than the invariant.\<close>

definition stays :: "('s \<Rightarrow> bool) \<Rightarrow> ('s, 'e, 'a) prog \<Rightarrow> 's \<Rightarrow> bool" where
  "stays I m s \<longleftrightarrow> wp m (\<lambda>_. I) (\<lambda>_. I) s"

lemma stays_keeps: "keeps I m \<Longrightarrow> I s \<Longrightarrow> stays I m s"
  by (simp add: stays_def keeps_wp)

lemma stays_andthen: "stays I m s \<Longrightarrow> (\<And>a. keeps I (f a)) \<Longrightarrow> stays I (andthen m f) s"
  by (auto simp: stays_def wp_andthen keeps_wp intro: wp_mono)

lemma stays_catching: "stays I m s \<Longrightarrow> (\<And>e. keeps I (h e)) \<Longrightarrow> stays I (catching m h) s"
  by (auto simp: stays_def wp_catching keeps_wp intro: wp_mono)

lemma stays_result: "stays I m s \<Longrightarrow> I (snd (m s))"
  by (auto simp: stays_def wp_def split: prod.splits sum.splits)

section \<open>Lists\<close>

text \<open>\<open>chunks n xs\<close>: successive slices of \<open>n\<close> elements, the last one shorter.\<close>

function chunks :: "nat \<Rightarrow> 'a list \<Rightarrow> 'a list list" where
  "chunks n xs = (if xs = [] \<or> n = 0 then [] else take n xs # chunks n (drop n xs))"
  by pat_completeness auto
termination
  by (relation "measure (\<lambda>(n, xs). length xs)") auto

declare chunks.simps [simp del]

lemma concat_chunks: "0 < n \<Longrightarrow> concat (chunks n xs) = xs"
proof (induction n xs rule: chunks.induct)
  case (1 n xs)
  then show ?case by (subst chunks.simps) auto
qed

lemma find_None_filter: "List.find P xs = None \<longleftrightarrow> filter P xs = []"
  by (induction xs) auto

end
