(* ===== verification/Cemp_Bytes.thy ===== *)
theory Cemp_Bytes
  imports Cemp_Prelude
begin

text \<open>
  Byte-array and hex helpers: \<open>bytesEqual\<close>, \<open>bytesToHex\<close> and \<open>hexToBytes\<close> of
  \<open>cemp-core/src/codec/codecs.ts\<close>, the lenient decoders of \<open>cemp-lora/src/transport.ts\<close> and
  \<open>cemp-sync/src/workers.ts\<close>, and \<open>compareBytes\<close> of \<open>cemp-core/src/identity.ts\<close>.

  A JavaScript string is a \<open>string\<close> here. The regular expressions of the source only accept
  ASCII, and a string with a character outside the tested class is rejected by the code and by
  the model alike.
\<close>

section \<open>Strings of the language\<close>

definition starts_with :: "string \<Rightarrow> string \<Rightarrow> bool" where
  "starts_with s p = (take (length p) s = p)"

fun join_with :: "string \<Rightarrow> string list \<Rightarrow> string" where
  "join_with sep [] = []"
| "join_with sep [x] = x"
| "join_with sep (x # y # xs) = x @ sep @ join_with sep (y # xs)"

text \<open>\<open>s.padStart(n, c)\<close>\<close>

definition pad_start :: "nat \<Rightarrow> char \<Rightarrow> string \<Rightarrow> string" where
  "pad_start n c s = replicate (n - length s) c @ s"

text \<open>The digits of \<open>Number.prototype.toString(16)\<close>, and the value \<open>parseInt(_, 16)\<close> gives them.\<close>

definition hex_digits :: string where
  "hex_digits = ''0123456789abcdef''"

definition upper_hex_digits :: string where
  "upper_hex_digits = ''0123456789ABCDEF''"

fun index_of :: "'a \<Rightarrow> 'a list \<Rightarrow> nat option" where
  "index_of c [] = None"
| "index_of c (x # xs) = (if x = c then Some 0 else map_option Suc (index_of c xs))"

definition hex_value :: "char \<Rightarrow> nat option" where
  "hex_value c = (case index_of c hex_digits of Some v \<Rightarrow> Some v
     | None \<Rightarrow> index_of c upper_hex_digits)"

text \<open>The character classes \<open>[0-9a-f]\<close> and \<open>[0-9a-fA-F]\<close>.\<close>

definition is_lower_hex :: "char \<Rightarrow> bool" where
  "is_lower_hex c = (c \<in> set hex_digits)"

definition is_hex :: "char \<Rightarrow> bool" where
  "is_hex c = (c \<in> set hex_digits \<or> c \<in> set upper_hex_digits)"

text \<open>\<open>b.toString(16)\<close> for a byte: one digit below 16, two from there on.\<close>

definition byte_to_string16 :: "byte \<Rightarrow> string" where
  "byte_to_string16 b = (let n = unat b in
     if n < 16 then [hex_digits ! n] else [hex_digits ! (n div 16), hex_digits ! (n mod 16)])"

text \<open>\<open>parseInt(s, 16)\<close> on two characters of the class \<open>[0-9a-fA-F]\<close>, stored in a byte.\<close>

definition hex_pair :: "char \<Rightarrow> char \<Rightarrow> byte" where
  "hex_pair c d = word_of_nat (16 * the (hex_value c) + the (hex_value d))"

fun hex_pairs :: "string \<Rightarrow> bytes" where
  "hex_pairs (c # d # s) = hex_pair c d # hex_pairs s"
| "hex_pairs _ = []"

section \<open>The source's helpers\<close>

definition bytes_equal :: "bytes \<Rightarrow> bytes \<Rightarrow> bool" where
  "bytes_equal a b =
     (if length a \<noteq> length b then False
      else list_all (\<lambda>i. a ! i = b ! i) [0..<length a])"

definition bytes_to_hex :: "bytes \<Rightarrow> string" where
  "bytes_to_hex bs = join_with [] (map (\<lambda>b. pad_start 2 (CHR ''0'') (byte_to_string16 b)) bs)"

datatype hex_error = InvalidLowercaseHex nat

definition hex_to_bytes :: "string \<Rightarrow> hex_error + bytes" where
  "hex_to_bytes hex =
     (if length hex mod 2 \<noteq> 0 \<or> \<not> list_all is_lower_hex hex
      then Inl (InvalidLowercaseHex (length hex))
      else Inr (hex_pairs hex))"

text \<open>The decoder of the LoRa transport: no empty input, either case, \<open>null\<close> on a violation.\<close>

definition lora_hex_to_bytes :: "string \<Rightarrow> bytes option" where
  "lora_hex_to_bytes hex =
     (if length hex = 0 \<or> length hex mod 2 \<noteq> 0 \<or> \<not> list_all is_hex hex then None
      else Some (hex_pairs hex))"

text \<open>The decoder of the sync workers: an optional \<open>0x\<close>, either case, throws otherwise.\<close>

definition worker_hex_to_bytes :: "string \<Rightarrow> nat + bytes" where
  "worker_hex_to_bytes hex =
     (let bare = (if starts_with hex ''0x'' then drop 2 hex else hex) in
      if length bare mod 2 \<noteq> 0 \<or> \<not> list_all is_hex bare then Inl (length bare)
      else Inr (hex_pairs bare))"

text \<open>\<open>compareBytes\<close>: the first difference decides, then the length.\<close>

fun compare_loop :: "bytes \<Rightarrow> bytes \<Rightarrow> int option" where
  "compare_loop (x # xs) (y # ys) =
     (let diff = int (unat x) - int (unat y) in
      if diff \<noteq> 0 then Some diff else compare_loop xs ys)"
| "compare_loop _ _ = None"

definition compare_bytes :: "bytes \<Rightarrow> bytes \<Rightarrow> int" where
  "compare_bytes a b = (case compare_loop a b of
       Some diff \<Rightarrow> diff
     | None \<Rightarrow> int (length a) - int (length b))"

section \<open>Lemmas\<close>

lemma bytes_equal_iff [simp]: "bytes_equal a b \<longleftrightarrow> a = b"
  by (auto simp: bytes_equal_def list_all_iff intro: nth_equalityI)

lemma join_with_nil [simp]: "join_with [] xs = concat xs"
  by (induction "[] :: string" xs rule: join_with.induct) auto

lemma filter_join_with:
  "filter (\<lambda>x. x \<noteq> c) (join_with [c] gs) = concat (map (filter (\<lambda>x. x \<noteq> c)) gs)"
  by (induction "[c]" gs rule: join_with.induct) auto

lemma length_hex_digits [simp]: "length hex_digits = 16"
  by (simp add: hex_digits_def)

lemma hex_value_digit: "n < 16 \<Longrightarrow> hex_value (hex_digits ! n) = Some n"
proof -
  have "list_all (\<lambda>n. hex_value (hex_digits ! n) = Some n) [0..<16]" by code_simp
  then show "n < 16 \<Longrightarrow> ?thesis" by (simp add: list_all_iff)
qed

lemma hex_digit_lower: "n < 16 \<Longrightarrow> is_lower_hex (hex_digits ! n)"
  by (simp add: is_lower_hex_def)

lemma lower_hexE:
  assumes "is_lower_hex c"
  obtains n where "n < 16" "c = hex_digits ! n"
  using assms by (auto simp: is_lower_hex_def in_set_conv_nth)

lemma lower_hex_is_hex: "is_lower_hex c \<Longrightarrow> is_hex c"
  by (simp add: is_lower_hex_def is_hex_def)

lemma byte_hex_eq:
  "pad_start 2 (CHR ''0'') (byte_to_string16 b)
     = [hex_digits ! (unat b div 16), hex_digits ! (unat b mod 16)]"
  by (auto simp: pad_start_def byte_to_string16_def Let_def hex_digits_def)

lemma byte_lt: "unat (b :: byte) < 256"
proof -
  have "unat b < 2 ^ LENGTH(8)" by (rule unsigned_less)
  then show ?thesis by simp
qed

lemma hex_pair_byte:
  "hex_pair (hex_digits ! (unat b div 16)) (hex_digits ! (unat b mod 16)) = b"
proof -
  have "unat b div 16 < 16" using byte_lt [of b] by (simp add: less_mult_imp_div_less)
  then show ?thesis
    by (simp add: hex_pair_def hex_value_digit mult.commute [of 16])
qed

lemma bytes_to_hex_Nil [simp]: "bytes_to_hex [] = []"
  by (simp add: bytes_to_hex_def)

lemma bytes_to_hex_Cons [simp]:
  "bytes_to_hex (b # bs) =
     hex_digits ! (unat b div 16) # hex_digits ! (unat b mod 16) # bytes_to_hex bs"
  by (simp add: bytes_to_hex_def byte_hex_eq)

lemma length_bytes_to_hex [simp]: "length (bytes_to_hex bs) = 2 * length bs"
  by (induction bs) auto

lemma bytes_to_hex_lower: "list_all is_lower_hex (bytes_to_hex bs)"
proof (induction bs)
  case (Cons b bs)
  then show ?case using byte_lt [of b] by (simp add: hex_digit_lower less_mult_imp_div_less)
qed simp

lemma hex_pairs_bytes_to_hex [simp]: "hex_pairs (bytes_to_hex bs) = bs"
  by (induction bs) (simp_all add: hex_pair_byte)

lemma bytes_to_hex_hex_pairs:
  "list_all is_lower_hex s \<Longrightarrow> length s mod 2 = 0 \<Longrightarrow> bytes_to_hex (hex_pairs s) = s"
proof (induction s rule: hex_pairs.induct)
  case (1 c d s)
  from 1 obtain m n where mn: "m < 16" "c = hex_digits ! m" "n < 16" "d = hex_digits ! n"
    by (auto elim!: lower_hexE)
  have "unat (word_of_nat (16 * m + n) :: byte) = 16 * m + n"
    using mn by (simp only: unsigned_of_nat take_bit_eq_mod) simp
  with mn have "unat (hex_pair c d) = 16 * m + n"
    by (simp only: hex_pair_def hex_value_digit option.sel)
  moreover have "bytes_to_hex (hex_pairs s) = s" using 1 by auto
  ultimately show ?case using mn by simp
qed auto

lemma length_hex_pairs: "length (hex_pairs s) = length s div 2"
  by (induction s rule: hex_pairs.induct) auto

lemma hex_to_bytes_iff: "hex_to_bytes s = Inr bs \<longleftrightarrow> s = bytes_to_hex bs"
  using bytes_to_hex_lower bytes_to_hex_hex_pairs by (auto simp: hex_to_bytes_def)

lemma bytes_to_hex_inject [simp]: "bytes_to_hex a = bytes_to_hex b \<longleftrightarrow> a = b"
  by (metis hex_pairs_bytes_to_hex)

lemma lora_hex_roundtrip: "bs \<noteq> [] \<Longrightarrow> lora_hex_to_bytes (bytes_to_hex bs) = Some bs"
  using bytes_to_hex_lower [of bs]
  by (simp add: lora_hex_to_bytes_def list_all_iff lower_hex_is_hex)

lemma lora_hex_length:
  "lora_hex_to_bytes s = Some bs \<Longrightarrow> bs \<noteq> [] \<and> 2 * length bs = length s"
  using length_hex_pairs [of s] by (auto simp: lora_hex_to_bytes_def split: if_splits)

lemma compare_loop_None: "compare_loop a b = None \<Longrightarrow> length a = length b \<Longrightarrow> a = b"
  by (induction a b rule: compare_loop.induct)
     (auto simp: Let_def word_uint_eq_iff split: if_splits)

lemma compare_loop_refl: "compare_loop a a = None"
  by (induction a) auto

lemma compare_loop_sym: "compare_loop b a = map_option uminus (compare_loop a b)"
  by (induction a b rule: compare_loop.induct) (auto simp: Let_def)

lemma compare_bytes_antisym: "compare_bytes b a = - compare_bytes a b"
  by (cases "compare_loop a b") (simp_all add: compare_bytes_def compare_loop_sym [of b a])

lemma compare_loop_nonzero: "compare_loop a b = Some d \<Longrightarrow> d \<noteq> 0"
  by (induction a b rule: compare_loop.induct) (auto simp: Let_def split: if_splits)

lemma compare_bytes_eq_0 [simp]: "compare_bytes a b = 0 \<longleftrightarrow> a = b"
  using compare_loop_None compare_loop_nonzero
  by (auto simp: compare_bytes_def compare_loop_refl split: option.splits)

section \<open>Properties\<close>

text \<open>
  The strict hex decoder is exactly the inverse of the hex encoder: it returns a byte
  string \<open>bs\<close> for one input only, the lowercase encoding of \<open>bs\<close>, and rejects everything else.
\<close>

theorem hex_decoder_inverse:
  "hex_to_bytes (bytes_to_hex bs) = Inr bs \<and> (hex_to_bytes s = Inr bs) = (s = bytes_to_hex bs)"
  by (simp add: hex_to_bytes_iff)

end
