(* ===== verification/Cemp_Codec.thy ===== *)
theory Cemp_Codec
  imports Cemp_Bytes
begin

text \<open>
  The wire structures and the strict codec pairs of \<open>cemp-core/src/codec/codecs.ts\<close>.

  The Molecule combinators (\<open>mol.table\<close>, \<open>mol.option\<close>, \<open>mol.dynItemVec\<close>, \<open>Codec.from\<close>,
  \<open>\<dots>\<close>) belong to \<open>@ckb-ccc/core\<close> and are parameters: a codec the library built is an
  argument of type \<open>'v mol_codec\<close>. What the repository adds around the library is modelled:
  the range guard on integers, the header guard of dynamic vectors, the conversion of any
  byte-like input, and \<open>strictPair\<close>, which every exported encoder and decoder goes through. The
  declared structures are records with the fields in schema order.
\<close>

section \<open>Wire structures\<close>

record algorithm_id_v1 =
  family :: int
  parameter :: int

record cemp_profile_v1 =
  pf_protocol_version :: int
  pf_sig_algorithm :: algorithm_id_v1
  pf_kem_algorithm :: algorithm_id_v1
  pf_ml_dsa_public_key :: bytes
  pf_ml_kem_public_key :: bytes
  pf_lock_script_hash :: bytes
  pf_supported_protocol_versions :: "int list"
  pf_supported_attachments :: int
  pf_handle :: "bytes option"
  pf_icon_hash :: "bytes option"
  pf_key_created_at :: int
  pf_rotation_sequence :: int
  pf_previous_profile_id :: "bytes option"
  pf_revoked :: int

record cemp_envelope_header_v1 =
  hd_protocol_version :: int
  hd_network :: int
  hd_content_type :: int
  hd_message_id :: bytes
  hd_conversation_id :: bytes
  hd_sender_profile_id :: bytes
  hd_created_at_client :: int
  hd_reply_to_message_id :: "bytes option"
  hd_expiry_hint :: int

record cemp_envelope_v1 =
  env_header :: cemp_envelope_header_v1
  env_kem_ciphertext :: bytes
  env_nonce :: bytes
  env_encrypted_payload :: bytes

record out_point_v1 =
  op_tx_hash :: bytes
  op_index :: int

record receipt_entry_v1 =
  rc_message_id :: bytes
  rc_status :: int

record attachment_manifest_v1 =
  am_attachment_id :: bytes
  am_ckbfs_root :: out_point_v1
  am_chunk_outpoints :: "out_point_v1 list"
  am_encrypted_size :: int
  am_plaintext_size :: int
  am_mime_type :: bytes
  am_width :: int
  am_height :: int
  am_thumbnail :: "bytes option"
  am_content_hash :: bytes
  am_cipher_hash :: bytes
  am_encryption_nonce :: bytes
  am_encryption_algorithm :: algorithm_id_v1
  am_reclaim_group_id :: bytes

record cemp_payload_v1 =
  pl_message_id :: bytes
  pl_body_type :: int
  pl_recipient_profile_id :: bytes
  pl_text :: "bytes option"
  pl_attachment_manifests :: "attachment_manifest_v1 list"
  pl_reply_to_message_id :: "bytes option"
  pl_reply_to_outpoint :: "out_point_v1 option"
  pl_receipts :: "receipt_entry_v1 list"
  pl_receipt_request :: int
  pl_client_timestamp :: int
  pl_sender_device_id :: bytes
  pl_padding :: bytes

record reclaim_group_v1 =
  rg_reclaim_group_id :: bytes
  rg_reason :: int
  rg_created_at :: int
  rg_outpoints :: "out_point_v1 list"

section \<open>Codecs and guards\<close>

text \<open>A library codec: both directions may throw, with the message of the library's error.\<close>

record 'v mol_codec =
  enc :: "'v \<Rightarrow> string + bytes"
  dec :: "bytes \<Rightarrow> string + 'v"

datatype codec_failure =
    EncodeFailed string
  | NotByteLike hex_error
  | DecodeFailed string
  | ReencodeFailed string
  | NonCanonical

record cemp_codec_error =
  ce_structure :: string
  ce_detail :: codec_failure

text \<open>CCC's \<open>BytesLike\<close>: a hex string, a whole buffer, a view into one, or an array of numbers.\<close>

datatype bytes_like =
    HexString string
  | Buffer bytes
  | View bytes nat nat
  | Numbers "int list"

fun to_plain_bytes :: "bytes_like \<Rightarrow> hex_error + bytes" where
  "to_plain_bytes (HexString s) = hex_to_bytes (if starts_with s ''0x'' then drop 2 s else s)"
| "to_plain_bytes (Buffer b) = Inr b"
| "to_plain_bytes (View buffer offset len) = Inr (take len (drop offset buffer))"
| "to_plain_bytes (Numbers ns) = Inr (map word_of_int ns)"

text \<open>\<open>number | bigint\<close>: an integral number, a number that is not integral, or a bigint.\<close>

datatype js_uint = JsInt int | JsNonInteger | JsBigInt int

definition guard_uint_range :: "string \<Rightarrow> int \<Rightarrow> js_uint \<Rightarrow> string + js_uint" where
  "guard_uint_range label mx value =
     (case value of
        JsNonInteger \<Rightarrow> Inl (label @ '': integer out of range'')
      | JsInt v \<Rightarrow> if v < 0 \<or> v > mx then Inl (label @ '': integer out of range'') else Inr value
      | JsBigInt v \<Rightarrow> if v < 0 \<or> v > mx then Inl (label @ '': integer out of range'') else Inr value)"

text \<open>The three guarded primitives; \<open>map_in\<close> is the library's \<open>Codec.mapIn\<close>.\<close>

definition uint32_mol ::
  "((js_uint \<Rightarrow> string + js_uint) \<Rightarrow> js_uint mol_codec \<Rightarrow> js_uint mol_codec)
     \<Rightarrow> js_uint mol_codec \<Rightarrow> js_uint mol_codec" where
  "uint32_mol map_in uint32 = map_in (guard_uint_range ''Uint32'' 0xffffffff) uint32"

definition uint64_mol ::
  "((js_uint \<Rightarrow> string + js_uint) \<Rightarrow> js_uint mol_codec \<Rightarrow> js_uint mol_codec)
     \<Rightarrow> js_uint mol_codec \<Rightarrow> js_uint mol_codec" where
  "uint64_mol map_in uint64 = map_in (guard_uint_range ''Uint64'' 0xffffffffffffffff) uint64"

definition byte_mol ::
  "((js_uint \<Rightarrow> string + js_uint) \<Rightarrow> js_uint mol_codec \<Rightarrow> js_uint mol_codec)
     \<Rightarrow> js_uint mol_codec \<Rightarrow> js_uint mol_codec" where
  "byte_mol map_in uint8 = map_in (guard_uint_range ''byte'' 0xff) uint8"

text \<open>\<open>fixedBytes(n)\<close>; \<open>codec_from\<close> is the library's \<open>Codec.from\<close> with a byte length.\<close>

definition fixed_bytes ::
  "(nat \<Rightarrow> bytes mol_codec \<Rightarrow> bytes mol_codec) \<Rightarrow> nat \<Rightarrow> bytes mol_codec" where
  "fixed_bytes codec_from n = codec_from n \<lparr>enc = Inr, dec = Inr\<rparr>"

datatype vec_header_error =
    TooShort nat
  | InvalidSize nat nat
  | InvalidFirstOffset nat nat
  | ItemsOverflow nat nat
  | InnerError string

text \<open>
  \<open>guardedDynItemVec\<close>: the header is checked before the library's \<open>dynItemVec\<close> decoder sees
  the buffer. \<open>u32\<close> is the library's \<open>mol.Uint32.decode\<close>.
\<close>

definition guarded_dyn_item_vec_decode ::
  "(bytes \<Rightarrow> nat) \<Rightarrow> 'v list mol_codec \<Rightarrow> bytes \<Rightarrow> vec_header_error + 'v list" where
  "guarded_dyn_item_vec_decode u32 inner value =
     (let run = (case dec inner value of Inl e \<Rightarrow> Inl (InnerError e) | Inr v \<Rightarrow> Inr v) in
      if length value < 4 then Inl (TooShort (length value))
      else
        (let declared_total = u32 (take 4 value) in
         if declared_total \<noteq> length value then Inl (InvalidSize declared_total (length value))
         else if declared_total > 4 then
           (let first_offset = u32 (take 4 (drop 4 value)) in
            if first_offset < 8 \<or> first_offset > declared_total \<or> (first_offset - 4) mod 4 \<noteq> 0
            then Inl (InvalidFirstOffset first_offset declared_total)
            else
              (let item_count = (first_offset - 4) div 4 in
               if 4 + item_count * 4 > declared_total
               then Inl (ItemsOverflow item_count declared_total)
               else run))
         else run))"

section \<open>Strict pairs\<close>

definition strict_encode :: "string \<Rightarrow> 'v mol_codec \<Rightarrow> 'v \<Rightarrow> cemp_codec_error + bytes" where
  "strict_encode structure codec value = (case enc codec value of
       Inl e \<Rightarrow> Inl \<lparr>ce_structure = structure, ce_detail = EncodeFailed e\<rparr>
     | Inr b \<Rightarrow> Inr b)"

definition strict_decode :: "string \<Rightarrow> 'v mol_codec \<Rightarrow> bytes_like \<Rightarrow> cemp_codec_error + 'v" where
  "strict_decode structure codec data =
     (let fail = (\<lambda>d. Inl \<lparr>ce_structure = structure, ce_detail = d\<rparr>) in
      case to_plain_bytes data of
        Inl e \<Rightarrow> fail (NotByteLike e)
      | Inr bytes \<Rightarrow>
          (case dec codec bytes of
             Inl e \<Rightarrow> fail (DecodeFailed e)
           | Inr decoded \<Rightarrow>
               (case enc codec decoded of
                  Inl e \<Rightarrow> fail (ReencodeFailed e)
                | Inr canonical \<Rightarrow>
                    if \<not> bytes_equal canonical bytes then fail NonCanonical else Inr decoded)))"

definition encode_cemp_profile_v1 :: "cemp_profile_v1 mol_codec \<Rightarrow> cemp_profile_v1 \<Rightarrow> _" where
  "encode_cemp_profile_v1 = strict_encode ''CempProfileV1''"

definition decode_cemp_profile_v1 :: "cemp_profile_v1 mol_codec \<Rightarrow> bytes_like \<Rightarrow> _" where
  "decode_cemp_profile_v1 = strict_decode ''CempProfileV1''"

definition decode_cemp_envelope_header_v1 ::
  "cemp_envelope_header_v1 mol_codec \<Rightarrow> bytes_like \<Rightarrow> _" where
  "decode_cemp_envelope_header_v1 = strict_decode ''CempEnvelopeHeaderV1''"

definition encode_cemp_envelope_header_v1 ::
  "cemp_envelope_header_v1 mol_codec \<Rightarrow> cemp_envelope_header_v1 \<Rightarrow> _" where
  "encode_cemp_envelope_header_v1 = strict_encode ''CempEnvelopeHeaderV1''"

definition encode_cemp_envelope_v1 :: "cemp_envelope_v1 mol_codec \<Rightarrow> cemp_envelope_v1 \<Rightarrow> _" where
  "encode_cemp_envelope_v1 = strict_encode ''CempEnvelopeV1''"

definition decode_cemp_envelope_v1 :: "cemp_envelope_v1 mol_codec \<Rightarrow> bytes_like \<Rightarrow> _" where
  "decode_cemp_envelope_v1 = strict_decode ''CempEnvelopeV1''"

definition encode_cemp_payload_v1 :: "cemp_payload_v1 mol_codec \<Rightarrow> cemp_payload_v1 \<Rightarrow> _" where
  "encode_cemp_payload_v1 = strict_encode ''CempPayloadV1''"

definition decode_cemp_payload_v1 :: "cemp_payload_v1 mol_codec \<Rightarrow> bytes_like \<Rightarrow> _" where
  "decode_cemp_payload_v1 = strict_decode ''CempPayloadV1''"

definition encode_attachment_manifest_v1 ::
  "attachment_manifest_v1 mol_codec \<Rightarrow> attachment_manifest_v1 \<Rightarrow> _" where
  "encode_attachment_manifest_v1 = strict_encode ''AttachmentManifestV1''"

definition decode_attachment_manifest_v1 ::
  "attachment_manifest_v1 mol_codec \<Rightarrow> bytes_like \<Rightarrow> _" where
  "decode_attachment_manifest_v1 = strict_decode ''AttachmentManifestV1''"

definition encode_reclaim_group_v1 :: "reclaim_group_v1 mol_codec \<Rightarrow> reclaim_group_v1 \<Rightarrow> _" where
  "encode_reclaim_group_v1 = strict_encode ''ReclaimGroupV1''"

definition decode_reclaim_group_v1 :: "reclaim_group_v1 mol_codec \<Rightarrow> bytes_like \<Rightarrow> _" where
  "decode_reclaim_group_v1 = strict_decode ''ReclaimGroupV1''"

section \<open>Lemmas\<close>

lemma strict_decode_iff:
  "strict_decode structure c d = Inr v \<longleftrightarrow>
     (\<exists>b. to_plain_bytes d = Inr b \<and> dec c b = Inr v \<and> enc c v = Inr b)"
  by (auto simp: strict_decode_def Let_def split: sum.splits)

lemma strict_decode_buffer:
  "strict_decode structure c (Buffer b) = Inr v \<longleftrightarrow> dec c b = Inr v \<and> enc c v = Inr b"
  by (simp add: strict_decode_iff)

lemma guarded_decode_iff:
  "guarded_dyn_item_vec_decode u32 inner b = Inr v \<longleftrightarrow>
     dec inner b = Inr v \<and> 4 \<le> length b \<and> u32 (take 4 b) = length b \<and>
     (length b = 4 \<or>
      (let o1 = u32 (take 4 (drop 4 b)) in 8 \<le> o1 \<and> o1 \<le> length b \<and> (o1 - 4) mod 4 = 0))"
proof -
  have fit: "4 + (n - 4) div 4 * 4 \<le> m" if "8 \<le> n" "n \<le> m" for n m :: nat
    using that by presburger
  show ?thesis
    by (auto simp: guarded_dyn_item_vec_decode_def Let_def not_less fit
        split: sum.splits if_splits dest: fit)
qed

section \<open>Properties\<close>

text \<open>
  Strict decoding accepts an input exactly when it is the canonical encoding of the value it
  returns: the library decoder yields the value and re-encoding it gives back the same bytes,
  whatever the library's codec is.
\<close>

theorem strict_decode_accepts_canonical_only:
  "(strict_decode structure codec data = Inr v) =
     (\<exists>b. to_plain_bytes data = Inr b \<and> dec codec b = Inr v
        \<and> strict_encode structure codec v = Inr b)"
  by (auto simp: strict_decode_iff strict_encode_def split: sum.splits)

text \<open>
  No malleability on the wire: two byte strings that strictly decode to the same envelope
  are the same byte string.
\<close>

theorem envelope_encoding_unique:
  assumes "decode_cemp_envelope_v1 codec (Buffer a) = Inr e"
    and "decode_cemp_envelope_v1 codec (Buffer b) = Inr e"
  shows "a = b"
  using assms by (simp add: decode_cemp_envelope_v1_def strict_decode_buffer)

text \<open>
  The header guard of dynamic vectors: whenever a buffer gets as far as the library decoder
  and is decoded, its declared size is its real size, and the number of items its first offset
  announces fits in the buffer (four bytes of offset table each), so no allocation exceeds the
  input.
\<close>

theorem dyn_vec_header_bounds_items:
  assumes "guarded_dyn_item_vec_decode u32 inner b = Inr v"
  shows "dec inner b = Inr v \<and> u32 (take 4 b) = length b
    \<and> (length b = 4 \<or> 4 + 4 * ((u32 (take 4 (drop 4 b)) - 4) div 4) \<le> length b)"
proof -
  have "4 + 4 * ((n - 4) div 4) \<le> m" if "8 \<le> n" "n \<le> m" for n m :: nat
    using that by presburger
  with assms show ?thesis by (auto simp: guarded_decode_iff Let_def)
qed

text \<open>A little-endian reader and two inputs, for the witnesses.\<close>

fun le_value :: "bytes \<Rightarrow> nat" where
  "le_value [] = 0"
| "le_value (b # bs) = unat b + 256 * le_value bs"

theorem dyn_vec_header_witness:
  "guarded_dyn_item_vec_decode le_value \<lparr>enc = (\<lambda>_. Inr []), dec = (\<lambda>b. Inr [length b])\<rparr>
     [9, 0, 0, 0, 8, 0, 0, 0, 5] = Inr [9] \<and>
   4 + 4 * ((le_value (take 4 (drop 4 [9, 0, 0, 0, 8, 0, 0, 0, 5])) - 4) div 4)
     \<le> length ([9, 0, 0, 0, 8, 0, 0, 0, 5] :: bytes)"
proof -
  have "guarded_dyn_item_vec_decode le_value \<lparr>enc = (\<lambda>_. Inr []), dec = (\<lambda>b. Inr [length b])\<rparr>
     [9, 0, 0, 0, 8, 0, 0, 0, 5] = Inr [9]"
    by (simp add: guarded_decode_iff)
  from this dyn_vec_header_bounds_items [OF this] show ?thesis by simp
qed

definition witness_envelope :: cemp_envelope_v1 where
  "witness_envelope =
     \<lparr>env_header = \<lparr>hd_protocol_version = 1, hd_network = 1, hd_content_type = 1,
        hd_message_id = replicate 16 1, hd_conversation_id = replicate 32 2,
        hd_sender_profile_id = replicate 32 3, hd_created_at_client = 0,
        hd_reply_to_message_id = None, hd_expiry_hint = 0\<rparr>,
      env_kem_ciphertext = replicate 1088 4, env_nonce = replicate 12 5,
      env_encrypted_payload = replicate 16 6\<rparr>"

theorem envelope_encoding_unique_witness:
  "decode_cemp_envelope_v1 \<lparr>enc = (\<lambda>_. Inr [7]), dec = (\<lambda>_. Inr witness_envelope)\<rparr> (Buffer [7])
     = Inr witness_envelope
   \<and> ([7] :: bytes) = [7]"
proof -
  let ?c = "\<lparr>enc = (\<lambda>_. Inr [7]), dec = (\<lambda>_. Inr witness_envelope)\<rparr> :: cemp_envelope_v1 mol_codec"
  have d: "decode_cemp_envelope_v1 ?c (Buffer [7]) = Inr witness_envelope"
    by (simp add: decode_cemp_envelope_v1_def strict_decode_buffer)
  from d envelope_encoding_unique [OF d d] show ?thesis by simp
qed

text \<open>
  The integer guard lets exactly the values of the width through, unchanged; a negative, an
  oversized or a non-integral value is an error, never a silently wrapped one.
\<close>

theorem uint_guard_exact:
  "(guard_uint_range label mx v = Inr w) =
     (w = v \<and> (\<exists>n. 0 \<le> n \<and> n \<le> mx \<and> (v = JsInt n \<or> v = JsBigInt n)))"
  by (cases v) (auto simp: guard_uint_range_def)

end
