(* ===== verification/Cemp_Validate.thy ===== *)
theory Cemp_Validate
  imports Cemp_Codec
begin

text \<open>
  The malformed-input pipeline of \<open>cemp-core/src/codec/validate.ts\<close>: size gate, strict decode,
  field checks, semantic cross-checks. A result is \<open>Ok\<close> or \<open>Fail r\<close>; the reason strings of the
  source are the constructors of \<open>reason\<close>, carrying the values they interpolate.

  The Molecule codec a pipeline decodes with is an argument (see \<open>Cemp_Codec\<close>).
\<close>

section \<open>Limits and identifiers\<close>

definition cemp_protocol_version :: int where
  "cemp_protocol_version = 1"

definition content_type_text :: int where
  "content_type_text = 0x01"

definition content_types :: "int list" where
  "content_types = [0x01, 0x02, 0x03]"

record v1_limits =
  max_text_bytes :: nat
  max_payload_bytes :: nat
  max_envelope_bytes :: nat
  max_handle_bytes :: nat
  max_profile_bytes :: nat
  max_padding_bytes :: nat
  max_attachment_manifests :: nat
  max_receipts :: nat
  max_protocol_versions :: nat
  gcm_tag_bytes :: nat

definition V1_LIMITS :: v1_limits where
  "V1_LIMITS =
     \<lparr>max_text_bytes = 16384, max_payload_bytes = 65536, max_envelope_bytes = 82000,
      max_handle_bytes = 64, max_profile_bytes = 4096, max_padding_bytes = 255,
      max_attachment_manifests = 4, max_receipts = 64, max_protocol_versions = 8,
      gcm_tag_bytes = 16\<rparr>"

definition network_ckb_testnet :: int where
  "network_ckb_testnet = 0x01"

definition network_reserved_mainnet :: int where
  "network_reserved_mainnet = 0x00"

definition ml_dsa_65_id :: algorithm_id_v1 where
  "ml_dsa_65_id = \<lparr>family = 0x01, parameter = 61\<rparr>"

definition ml_kem_768_id :: algorithm_id_v1 where
  "ml_kem_768_id = \<lparr>family = 0x02, parameter = 3\<rparr>"

definition algorithm_equals :: "algorithm_id_v1 \<Rightarrow> algorithm_id_v1 \<Rightarrow> bool" where
  "algorithm_equals a known = (family a = family known \<and> parameter a = parameter known)"

definition is_known_content_type :: "int \<Rightarrow> bool" where
  "is_known_content_type t = (t \<in> set content_types)"

section \<open>Results\<close>

datatype reason =
    Rejected cemp_codec_error
  | UnknownProtocolVersion int
  | UnknownSigAlgorithm algorithm_id_v1
  | UnknownKemAlgorithm algorithm_id_v1
  | TooManyProtocolVersions nat
  | ProtocolVersionMissing
  | HandleTooLong nat
  | UnknownRevokedValue int
  | BadAttachmentsMask int
  | ProfileTooLarge nat
  | MainnetReserved
  | UnknownNetwork int
  | UnknownContentType int
  | KemCiphertextLength nat
  | NonceLength nat
  | PayloadShorterThanTag nat
  | EnvelopeTooLarge nat
  | UnknownBodyType int
  | BadReceiptRequest int
  | UnknownReceiptStatus int
  | TextTooLong nat
  | PayloadTooLarge nat
  | PaddingTooLong nat
  | TooManyReceipts nat
  | TooManyManifests nat
  | TextMissing
  | MessageIdMismatch
  | BodyTypeMismatch int int
  | OwnProfileIdLength nat
  | RecipientMismatch

datatype validation = Ok | Fail reason

text \<open>\<open>tryDecode\<close>: the decoded value or the rejection that names the structure.\<close>

definition try_decode :: "(bytes_like \<Rightarrow> cemp_codec_error + 'v) \<Rightarrow> bytes \<Rightarrow> reason + 'v" where
  "try_decode decode data = (case decode (Buffer data) of
       Inl e \<Rightarrow> Inl (Rejected e)
     | Inr v \<Rightarrow> Inr v)"

section \<open>Profiles\<close>

definition validate_profile_fields :: "cemp_profile_v1 \<Rightarrow> validation" where
  "validate_profile_fields profile =
     (if pf_protocol_version profile \<noteq> cemp_protocol_version
      then Fail (UnknownProtocolVersion (pf_protocol_version profile))
      else if \<not> algorithm_equals (pf_sig_algorithm profile) ml_dsa_65_id
      then Fail (UnknownSigAlgorithm (pf_sig_algorithm profile))
      else if \<not> algorithm_equals (pf_kem_algorithm profile) ml_kem_768_id
      then Fail (UnknownKemAlgorithm (pf_kem_algorithm profile))
      else if length (pf_supported_protocol_versions profile) > max_protocol_versions V1_LIMITS
      then Fail (TooManyProtocolVersions (length (pf_supported_protocol_versions profile)))
      else if cemp_protocol_version \<notin> set (pf_supported_protocol_versions profile)
      then Fail ProtocolVersionMissing
      else if (case pf_handle profile of None \<Rightarrow> False
          | Some h \<Rightarrow> length h > max_handle_bytes V1_LIMITS)
      then Fail (HandleTooLong (case pf_handle profile of None \<Rightarrow> 0 | Some h \<Rightarrow> length h))
      else if pf_revoked profile \<noteq> 0x00 \<and> pf_revoked profile \<noteq> 0x01
      then Fail (UnknownRevokedValue (pf_revoked profile))
      else if pf_supported_attachments profile > 0x03
      then Fail (BadAttachmentsMask (pf_supported_attachments profile))
      else Ok)"

definition validate_profile :: "cemp_profile_v1 mol_codec \<Rightarrow> bytes \<Rightarrow> validation" where
  "validate_profile codec data =
     (if length data > max_profile_bytes V1_LIMITS then Fail (ProfileTooLarge (length data))
      else case try_decode (decode_cemp_profile_v1 codec) data of
          Inl r \<Rightarrow> Fail r
        | Inr value \<Rightarrow> validate_profile_fields value)"

section \<open>Envelopes\<close>

definition validate_envelope_fields :: "cemp_envelope_v1 \<Rightarrow> validation" where
  "validate_envelope_fields envelope =
     (let header = env_header envelope in
      if hd_protocol_version header \<noteq> cemp_protocol_version
      then Fail (UnknownProtocolVersion (hd_protocol_version header))
      else if hd_network header \<noteq> network_ckb_testnet
      then (if hd_network header = network_reserved_mainnet then Fail MainnetReserved
            else Fail (UnknownNetwork (hd_network header)))
      else if \<not> is_known_content_type (hd_content_type header)
      then Fail (UnknownContentType (hd_content_type header))
      else if length (env_kem_ciphertext envelope) \<noteq> 1088
      then Fail (KemCiphertextLength (length (env_kem_ciphertext envelope)))
      else if length (env_nonce envelope) \<noteq> 12
      then Fail (NonceLength (length (env_nonce envelope)))
      else if length (env_encrypted_payload envelope) < gcm_tag_bytes V1_LIMITS
      then Fail (PayloadShorterThanTag (length (env_encrypted_payload envelope)))
      else Ok)"

definition validate_envelope :: "cemp_envelope_v1 mol_codec \<Rightarrow> bytes \<Rightarrow> validation" where
  "validate_envelope codec data =
     (if length data > max_envelope_bytes V1_LIMITS then Fail (EnvelopeTooLarge (length data))
      else case try_decode (decode_cemp_envelope_v1 codec) data of
          Inl r \<Rightarrow> Fail r
        | Inr value \<Rightarrow> validate_envelope_fields value)"

section \<open>Payloads\<close>

text \<open>The loop over the receipts: the first unknown status, if any.\<close>

fun first_bad_receipt :: "receipt_entry_v1 list \<Rightarrow> int option" where
  "first_bad_receipt [] = None"
| "first_bad_receipt (r # rs) = (if rc_status r > 0x06 then Some (rc_status r) else first_bad_receipt rs)"

definition validate_payload_fields :: "cemp_payload_v1 \<Rightarrow> nat option \<Rightarrow> validation" where
  "validate_payload_fields payload total_bytes =
     (if pl_body_type payload \<notin> set content_types then Fail (UnknownBodyType (pl_body_type payload))
      else if pl_receipt_request payload > 0x03
      then Fail (BadReceiptRequest (pl_receipt_request payload))
      else case first_bad_receipt (pl_receipts payload) of
        Some status \<Rightarrow> Fail (UnknownReceiptStatus status)
      | None \<Rightarrow>
          if (case pl_text payload of None \<Rightarrow> False | Some t \<Rightarrow> length t > max_text_bytes V1_LIMITS)
          then Fail (TextTooLong (case pl_text payload of None \<Rightarrow> 0 | Some t \<Rightarrow> length t))
          else if (case total_bytes of None \<Rightarrow> False | Some n \<Rightarrow> n > max_payload_bytes V1_LIMITS)
          then Fail (PayloadTooLarge (case total_bytes of None \<Rightarrow> 0 | Some n \<Rightarrow> n))
          else if length (pl_padding payload) > max_padding_bytes V1_LIMITS
          then Fail (PaddingTooLong (length (pl_padding payload)))
          else if length (pl_receipts payload) > max_receipts V1_LIMITS
          then Fail (TooManyReceipts (length (pl_receipts payload)))
          else if length (pl_attachment_manifests payload) > max_attachment_manifests V1_LIMITS
          then Fail (TooManyManifests (length (pl_attachment_manifests payload)))
          else if pl_body_type payload = content_type_text \<and> pl_text payload = None
          then Fail TextMissing
          else Ok)"

definition validate_payload :: "cemp_payload_v1 mol_codec \<Rightarrow> bytes \<Rightarrow> validation" where
  "validate_payload codec bytes = (case try_decode (decode_cemp_payload_v1 codec) bytes of
       Inl r \<Rightarrow> Fail r
     | Inr value \<Rightarrow> validate_payload_fields value (Some (length bytes)))"

definition validate_semantic_consistency ::
  "cemp_envelope_header_v1 \<Rightarrow> cemp_payload_v1 \<Rightarrow> bytes \<Rightarrow> validation" where
  "validate_semantic_consistency header payload own_profile_id =
     (if \<not> bytes_equal (pl_message_id payload) (hd_message_id header) then Fail MessageIdMismatch
      else if pl_body_type payload \<noteq> hd_content_type header
      then Fail (BodyTypeMismatch (pl_body_type payload) (hd_content_type header))
      else if length own_profile_id \<noteq> 32 then Fail (OwnProfileIdLength (length own_profile_id))
      else if \<not> bytes_equal (pl_recipient_profile_id payload) own_profile_id
      then Fail RecipientMismatch
      else Ok)"

text \<open>The sample envelope of the codec theory, on the reserved mainnet network.\<close>

definition mainnet_witness_envelope :: cemp_envelope_v1 where
  "mainnet_witness_envelope =
     witness_envelope\<lparr>env_header := (env_header witness_envelope)\<lparr>hd_network := 0\<rparr>\<rparr>"

section \<open>Lemmas\<close>

lemmas limit_defs = V1_LIMITS_def cemp_protocol_version_def network_ckb_testnet_def
  network_reserved_mainnet_def content_types_def content_type_text_def

lemma algorithm_equals_iff [simp]: "algorithm_equals a b \<longleftrightarrow> a = b"
  by (cases a; cases b) (simp add: algorithm_equals_def)

lemma try_decode_iff:
  "try_decode (strict_decode name codec) data = Inr v \<longleftrightarrow>
     dec codec data = Inr v \<and> enc codec v = Inr data"
  using strict_decode_buffer [of name codec data v]
  by (auto simp: try_decode_def split: sum.splits)

lemmas decode_defs = decode_cemp_profile_v1_def decode_cemp_envelope_v1_def
  decode_cemp_payload_v1_def

lemma first_bad_receipt_None:
  "first_bad_receipt rs = None \<longleftrightarrow> (\<forall>r \<in> set rs. rc_status r \<le> 6)"
  by (induction rs) auto

text \<open>What the field checks of an envelope amount to.\<close>

lemma envelope_fields_ok:
  "validate_envelope_fields e = Ok \<longleftrightarrow>
     hd_protocol_version (env_header e) = 1 \<and> hd_network (env_header e) = 1
     \<and> hd_content_type (env_header e) \<in> {1, 2, 3}
     \<and> length (env_kem_ciphertext e) = 1088 \<and> length (env_nonce e) = 12
     \<and> 16 \<le> length (env_encrypted_payload e)"
  by (auto simp: validate_envelope_fields_def Let_def limit_defs is_known_content_type_def not_less)

lemma payload_fields_ok:
  "validate_payload_fields p (Some n) = Ok \<longleftrightarrow>
     pl_body_type p \<in> {1, 2, 3} \<and> pl_receipt_request p \<le> 3
     \<and> (\<forall>r \<in> set (pl_receipts p). rc_status r \<le> 6)
     \<and> (case pl_text p of None \<Rightarrow> pl_body_type p \<noteq> 1 | Some t \<Rightarrow> length t \<le> 16384)
     \<and> n \<le> 65536 \<and> length (pl_padding p) \<le> 255 \<and> length (pl_receipts p) \<le> 64
     \<and> length (pl_attachment_manifests p) \<le> 4"
  by (auto simp: validate_payload_fields_def limit_defs not_less first_bad_receipt_None [symmetric]
      split: option.splits)

section \<open>Properties\<close>

text \<open>
  C37. The key-free envelope gate, end to end: an input is accepted exactly when it is at most
  82,000 bytes, is the canonical encoding of an envelope of protocol version 1 on the testnet
  with a known content type, the fixed ciphertext and nonce sizes, and at least a GCM tag of
  encrypted payload.
\<close>

theorem envelope_gate_exact:
  "(validate_envelope codec data = Ok) =
     (length data \<le> 82000 \<and>
      (\<exists>e. dec codec data = Inr e \<and> enc codec e = Inr data \<and>
         hd_protocol_version (env_header e) = 1 \<and> hd_network (env_header e) = 1 \<and>
         hd_content_type (env_header e) \<in> {1, 2, 3} \<and>
         length (env_kem_ciphertext e) = 1088 \<and> length (env_nonce e) = 12 \<and>
         16 \<le> length (env_encrypted_payload e)))"
proof -
  have "(validate_envelope codec data = Ok) = (length data \<le> 82000 \<and>
      (\<exists>e. try_decode (decode_cemp_envelope_v1 codec) data = Inr e \<and> validate_envelope_fields e = Ok))"
    by (simp add: validate_envelope_def limit_defs not_less split: sum.splits)
  then show ?thesis
    by (simp add: decode_defs try_decode_iff envelope_fields_ok conj_assoc)
qed

text \<open>
  Mainnet stays off: whatever the codec, no accepted envelope carries the reserved mainnet
  network byte, and one that decodes with it is answered with the dedicated reason when its
  version is known.
\<close>

theorem mainnet_envelopes_rejected:
  assumes "length data \<le> 82000" and "dec codec data = Inr e" and "enc codec e = Inr data"
    and "hd_protocol_version (env_header e) = 1" and "hd_network (env_header e) = 0"
  shows "validate_envelope codec data = Fail MainnetReserved"
  using assms try_decode_iff [of "''CempEnvelopeV1''" codec data e]
  by (simp add: validate_envelope_def validate_envelope_fields_def limit_defs decode_defs)

theorem mainnet_envelopes_rejected_witness:
  "validate_envelope \<lparr>enc = (\<lambda>_. Inr [7]), dec = (\<lambda>_. Inr mainnet_witness_envelope)\<rparr> [7] =
     Fail MainnetReserved"
  by (rule mainnet_envelopes_rejected [where e = mainnet_witness_envelope])
    (simp_all add: mainnet_witness_envelope_def witness_envelope_def)

text \<open>
  Limits come before parsing: the verdict on an oversized profile or envelope does not
  depend on the decoder, so an oversized input is never handed to the Molecule library.
\<close>

theorem oversized_input_never_decoded:
  assumes "length data > 82000"
  shows "validate_envelope codec data = Fail (EnvelopeTooLarge (length data))
    \<and> validate_profile pcodec data = Fail (ProfileTooLarge (length data))"
  using assms by (simp add: validate_envelope_def validate_profile_def limit_defs)

theorem oversized_input_witness:
  "validate_envelope \<lparr>enc = (\<lambda>_. Inr []), dec = (\<lambda>_. Inr witness_envelope)\<rparr> (replicate 82001 0)
     = Fail (EnvelopeTooLarge 82001)"
  using oversized_input_never_decoded
    [of "replicate 82001 0" "\<lparr>enc = (\<lambda>_. Inr []), dec = (\<lambda>_. Inr witness_envelope)\<rparr>"]
  by simp

text \<open>
  The decrypted payload: accepted exactly when it is a canonical encoding within every limit
  of the specification, with known discriminants, and with the text present in a text message.
\<close>

theorem payload_gate_exact:
  "(validate_payload codec data = Ok) =
     (length data \<le> 65536 \<and>
      (\<exists>p. dec codec data = Inr p \<and> enc codec p = Inr data \<and>
         pl_body_type p \<in> {1, 2, 3} \<and> pl_receipt_request p \<le> 3 \<and>
         filter (\<lambda>r. rc_status r > 6) (pl_receipts p) = [] \<and>
         (case pl_text p of None \<Rightarrow> pl_body_type p \<noteq> 1 | Some t \<Rightarrow> length t \<le> 16384) \<and>
         length (pl_padding p) \<le> 255 \<and> length (pl_receipts p) \<le> 64 \<and>
         length (pl_attachment_manifests p) \<le> 4))"
proof -
  have "(validate_payload codec data = Ok) = (\<exists>p. try_decode (decode_cemp_payload_v1 codec) data = Inr p
      \<and> validate_payload_fields p (Some (length data)) = Ok)"
    by (simp add: validate_payload_def split: sum.splits)
  then show ?thesis
    by (auto simp: decode_defs try_decode_iff payload_fields_ok filter_empty_conv not_less)
qed

text \<open>
  A message is only attributed to us when header and payload agree: the cross-check accepts
  exactly when the message ids and the content types are equal and the payload names our own
  32-byte profile id.
\<close>

theorem semantic_check_exact:
  "(validate_semantic_consistency header payload own = Ok) =
     (pl_message_id payload = hd_message_id header \<and>
      pl_body_type payload = hd_content_type header \<and>
      length own = 32 \<and> pl_recipient_profile_id payload = own)"
  by (simp add: validate_semantic_consistency_def)

end
