(* ===== verification/Cemp_Identity.thy ===== *)
theory Cemp_Identity
  imports Cemp_Bytes
begin

text \<open>
  Conversation ids, route tags (\<open>cemp-core/src/identity.ts\<close>) and profile fingerprints
  (\<open>cemp-core/src/fingerprint.ts\<close>).

  BLAKE2b comes from \<open>@noble/hashes\<close>; it is the parameter \<open>blake2b dkLen personal data\<close> of the
  definitions, and \<open>personal\<close> is \<open>[]\<close> where the code passes none. \<open>TextEncoder.encode\<close> on the
  ASCII domain strings is the list of their character codes.
\<close>

type_synonym blake2b = "nat \<Rightarrow> bytes \<Rightarrow> bytes \<Rightarrow> bytes"

definition text_encode :: "string \<Rightarrow> bytes" where
  "text_encode s = map (\<lambda>c. word_of_nat (of_char c)) s"

section \<open>Identity derivation\<close>

definition ckb_hash :: "blake2b \<Rightarrow> bytes \<Rightarrow> bytes" where
  "ckb_hash blake2b data = blake2b 32 [] data"

definition concat_bytes :: "bytes list \<Rightarrow> bytes" where
  "concat_bytes parts = fold (\<lambda>part out. out @ part) parts []"

definition route_tag_domain :: string where
  "route_tag_domain = ''CEMP-ROUTE-V1''"

definition conversation_id_domain :: string where
  "conversation_id_domain = ''CEMP-CONVERSATION-V1''"

definition conversation_preimage :: "bytes \<Rightarrow> bytes \<Rightarrow> bytes" where
  "conversation_preimage a b =
     (case (if compare_bytes a b \<le> 0 then (a, b) else (b, a)) of (first, second) \<Rightarrow>
        concat_bytes [text_encode conversation_id_domain, first, second])"

definition derive_conversation_id :: "blake2b \<Rightarrow> bytes \<Rightarrow> bytes \<Rightarrow> bytes" where
  "derive_conversation_id blake2b a b = ckb_hash blake2b (conversation_preimage a b)"

text \<open>\<open>setBigUint64(0, n, true)\<close>: the low 64 bits, least significant byte first.\<close>

definition u64_le :: "int \<Rightarrow> bytes" where
  "u64_le n = map (\<lambda>i. word_of_int (n div 2 ^ (8 * i))) [0..<8]"

definition route_tag_preimage :: "bytes \<Rightarrow> int \<Rightarrow> bytes" where
  "route_tag_preimage profile_id epoch =
     concat_bytes [text_encode route_tag_domain, profile_id, u64_le epoch]"

definition derive_route_tag :: "blake2b \<Rightarrow> bytes \<Rightarrow> int \<Rightarrow> bytes" where
  "derive_route_tag blake2b profile_id epoch = ckb_hash blake2b (route_tag_preimage profile_id epoch)"

section \<open>Fingerprints\<close>

definition fingerprint_personal :: string where
  "fingerprint_personal = ''cemp-fingerprint''"

definition fingerprint_length :: nat where
  "fingerprint_length = 16"

record fingerprint_input =
  fp_profile_id :: bytes
  fp_ml_dsa_public_key :: bytes
  fp_ml_kem_public_key :: bytes

datatype fingerprint_error = ProfileIdLength nat | MalformedFingerprint

definition fingerprint_bytes ::
  "blake2b \<Rightarrow> fingerprint_input \<Rightarrow> fingerprint_error + bytes" where
  "fingerprint_bytes blake2b input =
     (if length (fp_profile_id input) \<noteq> 32 then Inl (ProfileIdLength (length (fp_profile_id input)))
      else Inr (blake2b fingerprint_length (text_encode fingerprint_personal)
        (fp_profile_id input @ fp_ml_dsa_public_key input @ fp_ml_kem_public_key input)))"

text \<open>\<open>toUpperCase\<close> on ASCII.\<close>

definition to_upper_char :: "char \<Rightarrow> char" where
  "to_upper_char c =
     (if 97 \<le> (of_char c :: nat) \<and> (of_char c :: nat) \<le> 122 then char_of ((of_char c :: nat) - 32)
      else c)"

definition to_upper :: "string \<Rightarrow> string" where
  "to_upper = map to_upper_char"

definition format_fingerprint ::
  "blake2b \<Rightarrow> fingerprint_input \<Rightarrow> fingerprint_error + string" where
  "format_fingerprint blake2b input = (case fingerprint_bytes blake2b input of
       Inl e \<Rightarrow> Inl e
     | Inr bs \<Rightarrow> Inr (to_upper (join_with ''-'' (chunks 4 (bytes_to_hex bs)))))"

definition parse_fingerprint :: "string \<Rightarrow> fingerprint_error + string" where
  "parse_fingerprint text =
     (let compact = filter (\<lambda>c. c \<noteq> CHR ''-'') text in
      if length compact \<noteq> fingerprint_length * 2 \<or> \<not> list_all is_hex compact
      then Inl MalformedFingerprint
      else Inr (join_with ''-'' (map to_upper (chunks 4 compact))))"

definition fingerprints_equal :: "string \<Rightarrow> string \<Rightarrow> bool" where
  "fingerprints_equal a b = (case (parse_fingerprint a, parse_fingerprint b) of
       (Inr x, Inr y) \<Rightarrow> x = y
     | _ \<Rightarrow> False)"

section \<open>Lemmas\<close>

lemma concat_bytes_eq [simp]: "concat_bytes ps = concat ps"
proof -
  have "fold (\<lambda>part out. out @ part) ps acc = acc @ concat ps" for acc
    by (induction ps arbitrary: acc) auto
  then show ?thesis by (simp add: concat_bytes_def)
qed

lemma conversation_preimage_sym: "conversation_preimage a b = conversation_preimage b a"
proof (cases "compare_bytes a b = 0")
  case True
  then have "a = b" by simp
  then show ?thesis by simp
next
  case False
  have "compare_bytes b a = - compare_bytes a b" by (rule compare_bytes_antisym)
  with False show ?thesis by (simp add: conversation_preimage_def)
qed

lemma conversation_preimage_inject:
  assumes "length a = 32" "length b = 32" "length c = 32" "length d = 32"
    and "conversation_preimage a b = conversation_preimage c d"
  shows "{a, b} = {c, d}"
  using assms by (auto simp: conversation_preimage_def split: if_splits)

lemma length_u64_le [simp]: "length (u64_le n) = 8"
  by (simp add: u64_le_def)

lemma word8_digit_eq: "word_of_int x = (word_of_int y :: byte) \<longleftrightarrow> x mod 256 = y mod 256"
  by (simp add: word_of_int_eq_iff take_bit_eq_mod)

lemma digits_256_step:
  assumes "m mod 256 = n mod (256::int)" "m div 256 mod K = n div 256 mod K" "0 < K"
  shows "m mod (256 * K) = n mod (256 * K)"
  using assms by (simp add: zmod_zmult2_eq)

lemma u64_le_eq_iff: "u64_le m = u64_le n \<longleftrightarrow> m mod 2 ^ 64 = n mod 2 ^ 64"
proof
  assume "u64_le m = u64_le n"
  then have d: "\<forall>i < 8. m div 2 ^ (8 * i) mod 256 = n div 2 ^ (8 * i) mod 256"
    by (auto simp: u64_le_def word8_digit_eq)
  have step: "m div 2 ^ (8 * i) mod (256 ^ k) = n div 2 ^ (8 * i) mod (256 ^ k)"
    if "i + k \<le> 8" for i k
    using that
  proof (induction k arbitrary: i)
    case (Suc k)
    have e: "x div 2 ^ (8 * i) div 256 = x div 2 ^ (8 * Suc i)" for x :: int
      by (simp add: zdiv_zmult2_eq [symmetric] power_add mult.commute)
    have "m div 2 ^ (8 * Suc i) mod 256 ^ k = n div 2 ^ (8 * Suc i) mod 256 ^ k"
      using Suc.IH [of "Suc i"] Suc.prems by simp
    then show ?case
      using digits_256_step [of "m div 2 ^ (8 * i)" "n div 2 ^ (8 * i)" "256 ^ k"] d Suc.prems e
      by simp
  qed simp
  show "m mod 2 ^ 64 = n mod 2 ^ 64"
    using step [of 0 8] by simp
next
  assume "m mod 2 ^ 64 = n mod 2 ^ 64"
  then have t: "take_bit 64 m = take_bit 64 n" by (simp add: take_bit_eq_mod)
  have "m div 2 ^ (8 * i) mod 256 = n div 2 ^ (8 * i) mod 256" if "i < 8" for i
  proof -
    have "8 \<le> 64 - 8 * i" using that by arith
    then have "take_bit 8 (drop_bit (8 * i) (take_bit 64 x)) = take_bit 8 (drop_bit (8 * i) x)"
      for x :: int
      by (simp add: drop_bit_take_bit min_def)
    from this [of m] this [of n] t show ?thesis
      by (simp add: take_bit_eq_mod drop_bit_eq_div)
  qed
  then show "u64_le m = u64_le n" by (simp add: u64_le_def word8_digit_eq)
qed

lemma route_tag_preimage_inject:
  assumes "length p = length q" and "route_tag_preimage p m = route_tag_preimage q n"
  shows "p = q \<and> m mod 2 ^ 64 = n mod 2 ^ 64"
  using assms by (simp add: route_tag_preimage_def u64_le_eq_iff)

subsection \<open>Fingerprint text\<close>

lemma upper_hex_cases:
  assumes "is_hex c"
  shows "is_hex (to_upper_char c)" "to_upper_char c \<noteq> CHR ''-''"
    "to_upper_char (to_upper_char c) = to_upper_char c" "c \<noteq> CHR ''-''"
proof -
  have "list_all (\<lambda>c. is_hex (to_upper_char c) \<and> to_upper_char c \<noteq> CHR ''-''
      \<and> to_upper_char (to_upper_char c) = to_upper_char c \<and> c \<noteq> CHR ''-'')
    (hex_digits @ upper_hex_digits)"
    by code_simp
  with assms show "is_hex (to_upper_char c)" "to_upper_char c \<noteq> CHR ''-''"
    "to_upper_char (to_upper_char c) = to_upper_char c" "c \<noteq> CHR ''-''"
    by (auto simp: is_hex_def list_all_iff)
qed

lemma length_to_upper [simp]: "length (to_upper s) = length s"
  by (simp add: to_upper_def)

lemma chunks_map: "chunks n (map f xs) = map (map f) (chunks n xs)"
proof (induction n xs rule: chunks.induct)
  case (1 n xs)
  then show ?case by (subst (1 2) chunks.simps) (auto simp: take_map drop_map)
qed

lemma to_upper_join: "to_upper (join_with ''-'' gs) = join_with ''-'' (map to_upper gs)"
  by (induction "''-''" gs rule: join_with.induct) (auto simp: to_upper_def to_upper_char_def)

lemma set_chunks: "g \<in> set (chunks n xs) \<Longrightarrow> set g \<subseteq> set xs"
proof (induction n xs rule: chunks.induct)
  case (1 n xs)
  then show ?case
    by (subst (asm) (2) chunks.simps) (auto split: if_splits dest: in_set_takeD in_set_dropD)
qed

lemma join_upper_compact:
  assumes "list_all is_hex s"
  shows "filter (\<lambda>c. c \<noteq> CHR ''-'') (join_with ''-'' (map to_upper (chunks 4 s))) = to_upper s"
proof -
  have "filter (\<lambda>c. c \<noteq> CHR ''-'') g = g" if "g \<in> set (map to_upper (chunks 4 s))" for g
    using that assms upper_hex_cases set_chunks
    by (fastforce simp: to_upper_def list_all_iff filter_id_conv)
  then have "map (filter (\<lambda>c. c \<noteq> CHR ''-'')) (map to_upper (chunks 4 s))
      = map to_upper (chunks 4 s)"
    by (intro map_idI) auto
  then show ?thesis
    by (simp only: filter_join_with)
       (simp add: to_upper_def map_concat [symmetric] concat_chunks)
qed

lemma chunks_upper_twice:
  assumes "length s = (n::nat)" and "list_all is_hex s"
  shows "map to_upper (chunks 4 (to_upper s)) = map to_upper (chunks 4 s)"
  using assms(2) upper_hex_cases(3) set_chunks
  by (fastforce simp: to_upper_def chunks_map list_all_iff)

lemma parse_canonical:
  assumes "list_all is_hex s" and "length s = 32"
  shows "parse_fingerprint (join_with ''-'' (map to_upper (chunks 4 s)))
    = Inr (join_with ''-'' (map to_upper (chunks 4 s)))"
proof -
  have "map to_upper (chunks 4 (to_upper s)) = map to_upper (chunks 4 s)"
    using assms by (intro chunks_upper_twice)
  moreover have "list_all is_hex (to_upper s)"
    using assms(1) upper_hex_cases(1) by (auto simp: to_upper_def list_all_iff)
  ultimately show ?thesis
    using assms
    by (simp add: parse_fingerprint_def join_upper_compact [OF assms(1)] Let_def
        fingerprint_length_def)
qed

section \<open>Properties\<close>

text \<open>
  A conversation id does not depend on which participant computes it, and for 32-byte
  profile ids the hashed bytes determine the unordered pair of participants: two different
  conversations are never derived from the same preimage.
\<close>

theorem conversation_id_symmetric_and_unambiguous:
  assumes "length a = 32" "length b = 32" "length c = 32" "length d = 32"
  shows "derive_conversation_id h a b = derive_conversation_id h b a \<and>
    (conversation_preimage a b = conversation_preimage c d) = ({a, b} = {c, d})"
proof -
  have "conversation_preimage a b = conversation_preimage c d" if "{a, b} = {c, d}"
    using that conversation_preimage_sym [of a b] by (auto simp: doubleton_eq_iff)
  then show ?thesis
    using conversation_preimage_inject [OF assms] conversation_preimage_sym [of a b]
    by (auto simp: derive_conversation_id_def)
qed

theorem conversation_id_witness:
  "derive_conversation_id (\<lambda>n _ d. take n d) (replicate 32 1) (replicate 32 2)
     = derive_conversation_id (\<lambda>n _ d. take n d) (replicate 32 2) (replicate 32 1) \<and>
   conversation_preimage (replicate 32 1) (replicate 32 2)
     \<noteq> conversation_preimage (replicate 32 1) (replicate 32 3)"
  using conversation_id_symmetric_and_unambiguous
    [of "replicate 32 1" "replicate 32 2" "replicate 32 1" "replicate 32 3" "\<lambda>n _ d. take n d"]
  by (simp add: doubleton_eq_iff)

text \<open>
  Route tags of the same recipient in different epochs, and of different recipients in any
  epoch, are hashed from different bytes: the preimage of a route tag determines the profile id
  and the 64-bit epoch number.
\<close>

theorem route_tag_preimage_unambiguous:
  assumes "length p = length q"
  shows "(route_tag_preimage p m = route_tag_preimage q n) = (p = q \<and> m mod 2 ^ 64 = n mod 2 ^ 64)"
  using route_tag_preimage_inject [OF assms] by (auto simp: route_tag_preimage_def u64_le_eq_iff)

theorem route_tag_preimage_witness:
  "route_tag_preimage (replicate 32 7) 5 \<noteq> route_tag_preimage (replicate 32 7) 6"
  using route_tag_preimage_unambiguous [of "replicate 32 7" "replicate 32 7" 5 6] by simp

text \<open>
  A displayed fingerprint is a fixed point of the parser, so the text one user reads out is
  accepted by the other and compares equal; this needs only that BLAKE2b returns as many bytes
  as it is asked for.
\<close>

theorem displayed_fingerprint_parses:
  assumes dk: "\<And>n p x. length (h n p x) = n" and "length (fp_profile_id input) = 32"
  shows "\<exists>t. format_fingerprint h input = Inr t \<and> parse_fingerprint t = Inr t
    \<and> fingerprints_equal t t"
proof -
  define bs where "bs = h fingerprint_length (text_encode fingerprint_personal)
    (fp_profile_id input @ fp_ml_dsa_public_key input @ fp_ml_kem_public_key input)"
  have len: "length (bytes_to_hex bs) = 32"
    using dk by (simp add: bs_def fingerprint_length_def)
  have hex: "list_all is_hex (bytes_to_hex bs)"
    using bytes_to_hex_lower [of bs] by (auto simp: list_all_iff lower_hex_is_hex)
  have "format_fingerprint h input
      = Inr (join_with ''-'' (map to_upper (chunks 4 (bytes_to_hex bs))))"
    using assms(2) by (simp add: format_fingerprint_def fingerprint_bytes_def bs_def to_upper_join)
  then show ?thesis
    using parse_canonical [OF hex len] by (simp add: fingerprints_equal_def)
qed

theorem displayed_fingerprint_witness:
  "\<exists>t. format_fingerprint (\<lambda>n _ _. replicate n 171)
        \<lparr>fp_profile_id = replicate 32 1, fp_ml_dsa_public_key = [2], fp_ml_kem_public_key = [3]\<rparr>
      = Inr t \<and> parse_fingerprint t = Inr t \<and> fingerprints_equal t t"
  by (rule displayed_fingerprint_parses) simp_all

text \<open>
  What the parser accepts it maps to one canonical form: parsing its output changes
  nothing, and two texts compare equal exactly when both parse and their hex digits agree up to
  case and dashes.
\<close>

theorem fingerprint_parser_canonical:
  "(parse_fingerprint t = Inr u) =
     (let compact = filter (\<lambda>c. c \<noteq> CHR ''-'') t in
      length compact = 32 \<and> list_all is_hex compact \<and> parse_fingerprint u = Inr u
      \<and> filter (\<lambda>c. c \<noteq> CHR ''-'') u = to_upper compact)"
proof -
  define s where "s = filter (\<lambda>c. c \<noteq> CHR ''-'') t"
  have parse: "parse_fingerprint x = (let s = filter (\<lambda>c. c \<noteq> CHR ''-'') x in
      if length s = 32 \<and> list_all is_hex s
      then Inr (join_with ''-'' (map to_upper (chunks 4 s))) else Inl MalformedFingerprint)" for x
    by (simp add: parse_fingerprint_def Let_def fingerprint_length_def)
  show ?thesis
  proof
    assume "parse_fingerprint t = Inr u"
    then have s: "length s = 32" "list_all is_hex s"
      and u: "u = join_with ''-'' (map to_upper (chunks 4 s))"
      by (auto simp: parse Let_def s_def split: if_splits)
    then show "let compact = filter (\<lambda>c. c \<noteq> CHR ''-'') t in
        length compact = 32 \<and> list_all is_hex compact \<and> parse_fingerprint u = Inr u
        \<and> filter (\<lambda>c. c \<noteq> CHR ''-'') u = to_upper compact"
      using parse_canonical join_upper_compact unfolding s_def by (simp add: Let_def)
  next
    assume "let compact = filter (\<lambda>c. c \<noteq> CHR ''-'') t in
        length compact = 32 \<and> list_all is_hex compact \<and> parse_fingerprint u = Inr u
        \<and> filter (\<lambda>c. c \<noteq> CHR ''-'') u = to_upper compact"
    then have s: "length s = 32" "list_all is_hex s"
      and u: "parse_fingerprint u = Inr u" "filter (\<lambda>c. c \<noteq> CHR ''-'') u = to_upper s"
      by (simp_all add: s_def Let_def)
    have "u = join_with ''-'' (map to_upper (chunks 4 (to_upper s)))"
      using u by (auto simp: parse Let_def split: if_splits)
    also have "map to_upper (chunks 4 (to_upper s)) = map to_upper (chunks 4 s)"
      using s by (rule chunks_upper_twice)
    finally show "parse_fingerprint t = Inr u"
      using s by (simp add: parse Let_def s_def [symmetric])
  qed
qed

end
