(* ===== verification/Cemp_Envelope.thy ===== *)
theory Cemp_Envelope
  imports Cemp_Validate Cemp_Identity
begin

text \<open>
  packages/cemp-crypto: aead.ts, hkdf.ts, envelope.ts and attachment-key.ts.

  ML-KEM-768, HKDF-SHA-256 and AES-256-GCM come from the noble libraries; they are the fields of a
  \<open>crypto_suite\<close>, and \<open>key_pair\<close> and \<open>aead_ok\<close> state their documented behaviour: decapsulation inverts
  encapsulation for a matching key pair, decryption inverts encryption, and the sizes of FIPS 203
  and GCM. A call that throws is \<open>None\<close>. The random bytes that a call draws when the caller does not
  supply them are arguments. The wiping of key buffers has no effect on the values returned and
  is left out.
\<close>

section \<open>The libraries\<close>

record crypto_suite =
  cy_encapsulate :: "bytes \<Rightarrow> bytes \<Rightarrow> (bytes \<times> bytes) option"
  cy_decapsulate :: "bytes \<Rightarrow> bytes \<Rightarrow> bytes option"
  cy_gcm_encrypt :: "bytes \<Rightarrow> bytes \<Rightarrow> bytes \<Rightarrow> bytes \<Rightarrow> bytes"
  cy_gcm_decrypt :: "bytes \<Rightarrow> bytes \<Rightarrow> bytes \<Rightarrow> bytes \<Rightarrow> bytes option"
  cy_hkdf :: "bytes \<Rightarrow> bytes option \<Rightarrow> bytes \<Rightarrow> nat \<Rightarrow> bytes"

record wire_codecs =
  wc_envelope :: "cemp_envelope_v1 mol_codec"
  wc_header :: "cemp_envelope_header_v1 mol_codec"
  wc_payload :: "cemp_payload_v1 mol_codec"
  wc_manifest :: "attachment_manifest_v1 mol_codec"

datatype crypto_error =
    BadLength string nat nat
  | PayloadNotCanonical cemp_codec_error
  | PayloadMessageId
  | PayloadBodyType
  | EncapsulationFailed
  | DecapsulationFailed
  | CiphertextTooShort nat
  | AuthenticationFailed
  | InvalidEnvelope reason
  | PreDecryptRejected reason
  | WireError cemp_codec_error

text \<open>Sequencing of steps that may throw.\<close>

definition sum_bind :: "'e + 'a \<Rightarrow> ('a \<Rightarrow> 'e + 'b) \<Rightarrow> 'e + 'b" where
  "sum_bind r f = (case r of Inl e \<Rightarrow> Inl e | Inr x \<Rightarrow> f x)"

definition or_error :: "'e \<Rightarrow> 'a option \<Rightarrow> 'e + 'a" where
  "or_error e r = (case r of None \<Rightarrow> Inl e | Some x \<Rightarrow> Inr x)"

definition map_error :: "('e \<Rightarrow> 'f) \<Rightarrow> 'e + 'a \<Rightarrow> 'f + 'a" where
  "map_error h r = (case r of Inl e \<Rightarrow> Inl (h e) | Inr x \<Rightarrow> Inr x)"

definition require_length :: "string \<Rightarrow> bytes \<Rightarrow> nat \<Rightarrow> crypto_error + unit" where
  "require_length label v n = (if length v \<noteq> n then Inl (BadLength label (length v) n) else Inr ())"

section \<open>aead.ts\<close>

definition check_key_and_nonce :: "bytes \<Rightarrow> bytes \<Rightarrow> crypto_error + unit" where
  "check_key_and_nonce key nonce =
     (if length key \<noteq> 32 then Inl (BadLength ''aes256Gcm: key'' (length key) 32)
      else if length nonce \<noteq> 12 then Inl (BadLength ''aes256Gcm: nonce'' (length nonce) 12)
      else Inr ())"

definition aes256_gcm_encrypt :: "crypto_suite \<Rightarrow> bytes \<Rightarrow> bytes \<Rightarrow> bytes \<Rightarrow> bytes \<Rightarrow> crypto_error + bytes" where
  "aes256_gcm_encrypt S key nonce plaintext aad =
     sum_bind (check_key_and_nonce key nonce) (\<lambda>_. Inr (cy_gcm_encrypt S key nonce aad plaintext))"

definition aes256_gcm_decrypt :: "crypto_suite \<Rightarrow> bytes \<Rightarrow> bytes \<Rightarrow> bytes \<Rightarrow> bytes \<Rightarrow> crypto_error + bytes" where
  "aes256_gcm_decrypt S key nonce ciphertext aad =
     sum_bind (check_key_and_nonce key nonce) (\<lambda>_.
       if length ciphertext < 16 then Inl (CiphertextTooShort (length ciphertext))
       else or_error AuthenticationFailed (cy_gcm_decrypt S key nonce aad ciphertext))"

section \<open>hkdf.ts\<close>

definition message_key_domain :: string where
  "message_key_domain = ''CEMP-MESSAGE-KEY-V1''"

definition attachment_key_domain :: string where
  "attachment_key_domain = ''CEMP-ATTACHMENT-KEY-V1''"

definition hkdf_sha256 :: "crypto_suite \<Rightarrow> bytes \<Rightarrow> bytes option \<Rightarrow> bytes \<Rightarrow> nat \<Rightarrow> bytes" where
  "hkdf_sha256 S ikm salt info n = cy_hkdf S ikm salt info n"

definition derive_sub_seed :: "crypto_suite \<Rightarrow> bytes \<Rightarrow> string \<Rightarrow> nat \<Rightarrow> bytes" where
  "derive_sub_seed S seed domain n = hkdf_sha256 S seed None (text_encode domain) n"

definition derive_message_key ::
  "crypto_suite \<Rightarrow> bytes \<Rightarrow> bytes \<Rightarrow> bytes \<Rightarrow> bytes \<Rightarrow> string \<Rightarrow> bytes" where
  "derive_message_key S secret nonce sender recipient domain =
     hkdf_sha256 S secret (Some nonce) (concat_bytes [text_encode domain, sender, recipient]) 32"

section \<open>envelope.ts\<close>

record encrypt_params =
  ep_payload :: bytes
  ep_kem_public_key :: bytes
  ep_header :: cemp_envelope_header_v1
  ep_nonce :: "bytes option"
  ep_kem_message :: "bytes option"

record encrypt_result =
  er_envelope :: bytes
  er_kem_ciphertext :: bytes
  er_nonce :: bytes
  er_attachment_key :: bytes

definition check_payload ::
  "cemp_payload_v1 \<Rightarrow> cemp_envelope_header_v1 \<Rightarrow> crypto_error + unit" where
  "check_payload payload header =
     (if \<not> bytes_equal (pl_message_id payload) (hd_message_id header) then Inl PayloadMessageId
      else if pl_body_type payload \<noteq> hd_content_type header then Inl PayloadBodyType
      else Inr ())"

definition encrypt_envelope ::
  "crypto_suite \<Rightarrow> wire_codecs \<Rightarrow> bytes \<Rightarrow> bytes \<Rightarrow> encrypt_params \<Rightarrow> crypto_error + encrypt_result" where
  "encrypt_envelope S W drawn_nonce drawn_message p =
     (let header = ep_header p; nonce = (case ep_nonce p of None \<Rightarrow> drawn_nonce | Some n \<Rightarrow> n) in
      sum_bind (require_length ''recipientKemPublicKey'' (ep_kem_public_key p) 1184) (\<lambda>_.
      sum_bind (require_length ''nonce'' nonce 12) (\<lambda>_.
      sum_bind (case ep_kem_message p of None \<Rightarrow> Inr () | Some m \<Rightarrow> require_length ''kemMessage'' m 32) (\<lambda>_.
      sum_bind (map_error PayloadNotCanonical
        (decode_cemp_payload_v1 (wc_payload W) (Buffer (ep_payload p)))) (\<lambda>payload.
      sum_bind (check_payload payload header) (\<lambda>_.
      sum_bind (or_error EncapsulationFailed (cy_encapsulate S (ep_kem_public_key p)
        (case ep_kem_message p of None \<Rightarrow> drawn_message | Some m \<Rightarrow> m))) (\<lambda>(ct, secret).
      sum_bind (require_length ''internal kemCiphertext'' ct 1088) (\<lambda>_.
      let key = derive_message_key S secret nonce (hd_sender_profile_id header)
            (pl_recipient_profile_id payload) message_key_domain in
      sum_bind (map_error WireError (encode_cemp_envelope_header_v1 (wc_header W) header)) (\<lambda>aad.
      sum_bind (aes256_gcm_encrypt S key nonce (ep_payload p) aad) (\<lambda>sealed.
      let attachment_key = derive_message_key S secret nonce (hd_sender_profile_id header)
            (pl_recipient_profile_id payload) attachment_key_domain in
      sum_bind (map_error WireError (encode_cemp_envelope_v1 (wc_envelope W)
        \<lparr>env_header = header, env_kem_ciphertext = ct, env_nonce = nonce,
         env_encrypted_payload = sealed\<rparr>)) (\<lambda>envelope.
      case validate_envelope (wc_envelope W) envelope of
        Fail r \<Rightarrow> Inl (InvalidEnvelope r)
      | Ok \<Rightarrow> Inr \<lparr>er_envelope = envelope, er_kem_ciphertext = ct, er_nonce = nonce,
                er_attachment_key = attachment_key\<rparr>)))))))))))"

record decrypt_params =
  dp_envelope :: bytes
  dp_kem_secret_key :: bytes
  dp_own_profile_id :: bytes

record decrypt_result =
  dr_header :: cemp_envelope_header_v1
  dr_payload :: bytes
  dr_attachment_key :: bytes

definition decrypt_envelope ::
  "crypto_suite \<Rightarrow> wire_codecs \<Rightarrow> decrypt_params \<Rightarrow> crypto_error + decrypt_result" where
  "decrypt_envelope S W p = (case validate_envelope (wc_envelope W) (dp_envelope p) of
       Fail r \<Rightarrow> Inl (PreDecryptRejected r)
     | Ok \<Rightarrow>
         sum_bind (map_error WireError
           (decode_cemp_envelope_v1 (wc_envelope W) (Buffer (dp_envelope p)))) (\<lambda>envelope.
         let header = env_header envelope; nonce = env_nonce envelope in
         sum_bind (require_length ''recipientKemSecretKey'' (dp_kem_secret_key p) 2400) (\<lambda>_.
         sum_bind (require_length ''ownProfileId'' (dp_own_profile_id p) 32) (\<lambda>_.
         sum_bind (or_error DecapsulationFailed
           (cy_decapsulate S (env_kem_ciphertext envelope) (dp_kem_secret_key p))) (\<lambda>secret.
         let key = derive_message_key S secret nonce (hd_sender_profile_id header)
               (dp_own_profile_id p) message_key_domain in
         sum_bind (map_error WireError (encode_cemp_envelope_header_v1 (wc_header W) header)) (\<lambda>aad.
         sum_bind (aes256_gcm_decrypt S key nonce (env_encrypted_payload envelope) aad) (\<lambda>payload.
         Inr \<lparr>dr_header = header, dr_payload = payload,
           dr_attachment_key = derive_message_key S secret nonce (hd_sender_profile_id header)
             (dp_own_profile_id p) attachment_key_domain\<rparr>)))))))"

section \<open>attachment-key.ts\<close>

record send_key_params =
  sk_kem_public_key :: bytes
  sk_kem_message :: bytes
  sk_nonce :: bytes
  sk_sender :: bytes
  sk_recipient :: bytes

definition derive_send_attachment_key :: "crypto_suite \<Rightarrow> send_key_params \<Rightarrow> crypto_error + bytes" where
  "derive_send_attachment_key S p =
     sum_bind (require_length ''recipientKemPublicKey'' (sk_kem_public_key p) 1184) (\<lambda>_.
     sum_bind (require_length ''kemMessage'' (sk_kem_message p) 32) (\<lambda>_.
     sum_bind (require_length ''nonce'' (sk_nonce p) 12) (\<lambda>_.
     sum_bind (require_length ''senderProfileId'' (sk_sender p) 32) (\<lambda>_.
     sum_bind (require_length ''recipientProfileId'' (sk_recipient p) 32) (\<lambda>_.
     sum_bind (or_error EncapsulationFailed
       (cy_encapsulate S (sk_kem_public_key p) (sk_kem_message p))) (\<lambda>(_, secret).
     Inr (derive_message_key S secret (sk_nonce p) (sk_sender p) (sk_recipient p) attachment_key_domain)))))))"

section \<open>Lemmas\<close>

lemma sum_bind_Inr [simp]: "sum_bind r f = Inr y \<longleftrightarrow> (\<exists>x. r = Inr x \<and> f x = Inr y)"
  by (cases r) (auto simp: sum_bind_def)

lemma or_error_Inr [simp]: "or_error e r = Inr x \<longleftrightarrow> r = Some x"
  by (cases r) (auto simp: or_error_def)

lemma map_error_Inr [simp]: "map_error h r = Inr x \<longleftrightarrow> r = Inr x"
  by (cases r) (auto simp: map_error_def)

lemma require_length_Inr [simp]: "require_length l v n = Inr u \<longleftrightarrow> length v = n"
  by (simp add: require_length_def)

lemma check_key_Inr [simp]: "check_key_and_nonce k n = Inr u \<longleftrightarrow> length k = 32 \<and> length n = 12"
  by (simp add: check_key_and_nonce_def)

lemma check_payload_Inr [simp]: "check_payload p h = Inr u \<longleftrightarrow>
    bytes_equal (pl_message_id p) (hd_message_id h) \<and> pl_body_type p = hd_content_type h"
  by (simp add: check_payload_def)

text \<open>What is assumed of the primitives: \<open>pk\<close> and \<open>sk\<close> are a key pair, and encryption and
  encapsulation are inverted by their counterparts.\<close>

definition key_pair :: "crypto_suite \<Rightarrow> bytes \<Rightarrow> bytes \<Rightarrow> bool" where
  "key_pair S pk sk \<longleftrightarrow> length pk = 1184 \<and> length sk = 2400 \<and>
     (\<forall>m ct secret. cy_encapsulate S pk m = Some (ct, secret) \<longrightarrow> cy_decapsulate S ct sk = Some secret)"

definition aead_ok :: "crypto_suite \<Rightarrow> bool" where
  "aead_ok S \<longleftrightarrow> (\<forall>k n a p. cy_gcm_decrypt S k n a (cy_gcm_encrypt S k n a p) = Some p
     \<and> length (cy_gcm_encrypt S k n a p) = length p + 16)"

text \<open>Decoding inverts encoding (the library's codec on the values it can encode).\<close>

definition decodes :: "'v mol_codec \<Rightarrow> bool" where
  "decodes c \<longleftrightarrow> (\<forall>v b. enc c v = Inr b \<longrightarrow> dec c b = Inr v)"

lemma strict_encode_Inr [simp]: "strict_encode n c v = Inr b \<longleftrightarrow> enc c v = Inr b"
  by (auto simp: strict_encode_def split: sum.splits)

lemma strict_decode_encoded:
  "decodes c \<Longrightarrow> enc c v = Inr b \<Longrightarrow> strict_decode n c (Buffer b) = Inr v"
  by (simp add: strict_decode_def decodes_def)

lemma bytes_equal_refl [simp]: "bytes_equal b b"
  by (simp add: bytes_equal_def list_all_iff)

text \<open>Everything a successful encryption has checked and computed.\<close>

lemma encrypt_envelope_inv:
  assumes "encrypt_envelope S W dn dm p = Inr r"
  obtains payload ct secret aad sealed where
    "decode_cemp_payload_v1 (wc_payload W) (Buffer (ep_payload p)) = Inr payload"
    "er_nonce r = (case ep_nonce p of None \<Rightarrow> dn | Some n \<Rightarrow> n)" "length (er_nonce r) = 12"
    "cy_encapsulate S (ep_kem_public_key p) (case ep_kem_message p of None \<Rightarrow> dm | Some m \<Rightarrow> m) = Some (ct, secret)"
    "enc (wc_header W) (ep_header p) = Inr aad"
    "aes256_gcm_encrypt S (derive_message_key S secret (er_nonce r) (hd_sender_profile_id (ep_header p))
        (pl_recipient_profile_id payload) message_key_domain) (er_nonce r) (ep_payload p) aad = Inr sealed"
    "enc (wc_envelope W) \<lparr>env_header = ep_header p, env_kem_ciphertext = ct, env_nonce = er_nonce r,
        env_encrypted_payload = sealed\<rparr> = Inr (er_envelope r)"
    "validate_envelope (wc_envelope W) (er_envelope r) = Ok"
    "er_attachment_key r = derive_message_key S secret (er_nonce r) (hd_sender_profile_id (ep_header p))
        (pl_recipient_profile_id payload) attachment_key_domain"
proof -
  from assms obtain payload ct secret aad sealed envelope where
    "decode_cemp_payload_v1 (wc_payload W) (Buffer (ep_payload p)) = Inr payload"
    "cy_encapsulate S (ep_kem_public_key p) (case ep_kem_message p of None \<Rightarrow> dm | Some m \<Rightarrow> m) = Some (ct, secret)"
    "length (case ep_nonce p of None \<Rightarrow> dn | Some n \<Rightarrow> n) = 12"
    "enc (wc_header W) (ep_header p) = Inr aad"
    "aes256_gcm_encrypt S (derive_message_key S secret (case ep_nonce p of None \<Rightarrow> dn | Some n \<Rightarrow> n)
        (hd_sender_profile_id (ep_header p))
        (pl_recipient_profile_id payload) message_key_domain) (case ep_nonce p of None \<Rightarrow> dn | Some n \<Rightarrow> n)
        (ep_payload p) aad = Inr sealed"
    "enc (wc_envelope W) \<lparr>env_header = ep_header p, env_kem_ciphertext = ct,
        env_nonce = (case ep_nonce p of None \<Rightarrow> dn | Some n \<Rightarrow> n), env_encrypted_payload = sealed\<rparr> = Inr envelope"
    "(case validate_envelope (wc_envelope W) envelope of
        Fail x \<Rightarrow> Inl (InvalidEnvelope x)
      | Ok \<Rightarrow> Inr \<lparr>er_envelope = envelope, er_kem_ciphertext = ct,
          er_nonce = (case ep_nonce p of None \<Rightarrow> dn | Some n \<Rightarrow> n),
          er_attachment_key = derive_message_key S secret (case ep_nonce p of None \<Rightarrow> dn | Some n \<Rightarrow> n)
            (hd_sender_profile_id (ep_header p)) (pl_recipient_profile_id payload) attachment_key_domain\<rparr>) = Inr r"
    unfolding encrypt_envelope_def Let_def encode_cemp_envelope_header_v1_def encode_cemp_envelope_v1_def
    by (simp only: sum_bind_Inr require_length_Inr map_error_Inr or_error_Inr strict_encode_Inr split_paired_Ex prod.case)
      blast
  then show ?thesis by (intro that) (auto split: validation.splits)
qed

lemma envelope_opens:
  assumes keys: "key_pair S (ep_kem_public_key p) sk" and aead: "aead_ok S"
    and codec: "decodes (wc_envelope W)"
    and sealed: "encrypt_envelope S W dn dm p = Inr r"
    and payload: "decode_cemp_payload_v1 (wc_payload W) (Buffer (ep_payload p)) = Inr payload"
    and own: "length (pl_recipient_profile_id payload) = 32"
  shows "decrypt_envelope S W \<lparr>dp_envelope = er_envelope r, dp_kem_secret_key = sk,
       dp_own_profile_id = pl_recipient_profile_id payload\<rparr>
     = Inr \<lparr>dr_header = ep_header p, dr_payload = ep_payload p, dr_attachment_key = er_attachment_key r\<rparr>"
proof (rule encrypt_envelope_inv [OF sealed])
  fix payload' :: cemp_payload_v1 and ct secret aad c
  let ?h = "ep_header p"
  let ?key = "derive_message_key S secret (er_nonce r) (hd_sender_profile_id ?h)
        (pl_recipient_profile_id payload') message_key_domain"
  let ?e = "\<lparr>env_header = ?h, env_kem_ciphertext = ct, env_nonce = er_nonce r, env_encrypted_payload = c\<rparr>"
  assume *: "decode_cemp_payload_v1 (wc_payload W) (Buffer (ep_payload p)) = Inr payload'"
    "cy_encapsulate S (ep_kem_public_key p) (case ep_kem_message p of None \<Rightarrow> dm | Some m \<Rightarrow> m) = Some (ct, secret)"
    "enc (wc_header W) ?h = Inr aad" "aes256_gcm_encrypt S ?key (er_nonce r) (ep_payload p) aad = Inr c"
    "enc (wc_envelope W) ?e = Inr (er_envelope r)" "validate_envelope (wc_envelope W) (er_envelope r) = Ok"
    and k: "er_attachment_key r = derive_message_key S secret (er_nonce r) (hd_sender_profile_id ?h)
        (pl_recipient_profile_id payload') attachment_key_domain"
  have p: "payload' = payload" using *(1) payload by simp
  have d: "decode_cemp_envelope_v1 (wc_envelope W) (Buffer (er_envelope r)) = Inr ?e"
    unfolding decode_cemp_envelope_v1_def by (rule strict_decode_encoded [OF codec *(5)])
  have s: "cy_decapsulate S ct sk = Some secret" "length sk = 2400"
    using keys *(2) by (auto simp: key_pair_def)
  have c: "c = cy_gcm_encrypt S ?key (er_nonce r) aad (ep_payload p)" "length ?key = 32" "length (er_nonce r) = 12"
    using *(4) by (auto simp: aes256_gcm_encrypt_def)
  have "aes256_gcm_decrypt S ?key (er_nonce r) c aad = Inr (ep_payload p)"
    using aead c by (simp add: aes256_gcm_decrypt_def aead_ok_def sum_bind_def check_key_and_nonce_def or_error_def)
  with *(3,6) d s own k show ?thesis
    unfolding decrypt_envelope_def Let_def encode_cemp_envelope_header_v1_def p
    by (simp add: sum_bind_def map_error_def or_error_def require_length_def strict_encode_def)
qed

section \<open>Properties\<close>

text \<open>
  C20. What a sender seals, the recipient opens: for any header, payload and randomness, if
  encryption for a public key succeeds, then decryption with the matching secret key and the
  recipient id written in the payload returns exactly that header, that payload and the sender's
  attachment key.
\<close>

theorem envelope_round_trip:
  assumes keys: "key_pair S (ep_kem_public_key p) sk" and aead: "aead_ok S"
    and codec: "decodes (wc_envelope W)"
    and sealed: "encrypt_envelope S W dn dm p = Inr r"
    and payload: "decode_cemp_payload_v1 (wc_payload W) (Buffer (ep_payload p)) = Inr payload"
    and own: "length (pl_recipient_profile_id payload) = 32"
  shows "decrypt_envelope S W \<lparr>dp_envelope = er_envelope r, dp_kem_secret_key = sk,
       dp_own_profile_id = pl_recipient_profile_id payload\<rparr>
     = Inr \<lparr>dr_header = ep_header p, dr_payload = ep_payload p, dr_attachment_key = er_attachment_key r\<rparr>"
  by (rule envelope_opens [OF assms])

text \<open>
  The two ways of deriving an attachment key agree: the key the sender derives before anything
  is sealed is the key of the envelope later sealed with the same encapsulation and nonce, without
  any assumption on the primitives.
\<close>

theorem attachment_keys_agree:
  assumes "encrypt_envelope S W dn dm p = Inr r"
    and "decode_cemp_payload_v1 (wc_payload W) (Buffer (ep_payload p)) = Inr payload"
    and "ep_nonce p = Some n" and "ep_kem_message p = Some m"
    and "length (hd_sender_profile_id (ep_header p)) = 32" and "length (pl_recipient_profile_id payload) = 32"
  shows "derive_send_attachment_key S \<lparr>sk_kem_public_key = ep_kem_public_key p, sk_kem_message = m,
       sk_nonce = n, sk_sender = hd_sender_profile_id (ep_header p),
       sk_recipient = pl_recipient_profile_id payload\<rparr> = Inr (er_attachment_key r)"
proof (rule encrypt_envelope_inv [OF assms(1)])
  fix payload' :: cemp_payload_v1 and ct secret
  assume "decode_cemp_payload_v1 (wc_payload W) (Buffer (ep_payload p)) = Inr payload'"
    "er_nonce r = (case ep_nonce p of None \<Rightarrow> dn | Some n \<Rightarrow> n)" "length (er_nonce r) = 12"
    "cy_encapsulate S (ep_kem_public_key p) (case ep_kem_message p of None \<Rightarrow> dm | Some m \<Rightarrow> m) = Some (ct, secret)"
    "er_attachment_key r = derive_message_key S secret (er_nonce r) (hd_sender_profile_id (ep_header p))
        (pl_recipient_profile_id payload') attachment_key_domain"
  moreover have "length (ep_kem_public_key p) = 1184" "length m = 32"
    using assms(1,4) unfolding encrypt_envelope_def Let_def
    by (simp_all only: sum_bind_Inr require_length_Inr option.case) blast+
  ultimately show ?thesis
    using assms by (simp add: derive_send_attachment_key_def sum_bind_def require_length_def or_error_def)
qed

subsection \<open>A sample suite\<close>

text \<open>A codec that knows one value, and primitives that satisfy the laws.\<close>

definition one_value :: "'v \<Rightarrow> bytes \<Rightarrow> 'v mol_codec" where
  "one_value v b = \<lparr>enc = (\<lambda>x. if x = v then Inr b else Inl ''other''),
     dec = (\<lambda>c. if c = b then Inr v else Inl ''malformed'')\<rparr>"

lemma one_value_decodes [simp]: "decodes (one_value v b)"
  unfolding decodes_def one_value_def by (auto split: if_splits)

lemma one_value_strict [simp]: "strict_decode n (one_value v b) (Buffer b) = Inr v"
  by (rule strict_decode_encoded [OF one_value_decodes]) (simp add: one_value_def)

definition sample_suite :: crypto_suite where
  "sample_suite = \<lparr>
     cy_encapsulate = (\<lambda>pk m. if length m = 32 then Some (m @ replicate 1056 0, m) else None),
     cy_decapsulate = (\<lambda>ct sk. Some (take 32 ct)),
     cy_gcm_encrypt = (\<lambda>k n a p. p @ replicate 16 0),
     cy_gcm_decrypt = (\<lambda>k n a c. Some (take (length c - 16) c)),
     cy_hkdf = (\<lambda>ikm salt info n. take n (ikm @ info @ replicate n 0))\<rparr>"

lemma sample_suite_ok: "aead_ok sample_suite"
  "length pk = 1184 \<Longrightarrow> length sk = 2400 \<Longrightarrow> key_pair sample_suite pk sk"
  by (auto simp: aead_ok_def key_pair_def sample_suite_def split: if_splits)

definition sample_header :: cemp_envelope_header_v1 where
  "sample_header = \<lparr>hd_protocol_version = 1, hd_network = 1, hd_content_type = 1,
     hd_message_id = [1], hd_conversation_id = [2], hd_sender_profile_id = replicate 32 3,
     hd_created_at_client = 0, hd_reply_to_message_id = None, hd_expiry_hint = 0\<rparr>"

definition sample_payload :: cemp_payload_v1 where
  "sample_payload = \<lparr>pl_message_id = [1], pl_body_type = 1, pl_recipient_profile_id = replicate 32 4,
     pl_text = Some [104, 105], pl_attachment_manifests = [], pl_reply_to_message_id = None,
     pl_reply_to_outpoint = None, pl_receipts = [], pl_receipt_request = 0, pl_client_timestamp = 0,
     pl_sender_device_id = [], pl_padding = []\<rparr>"

definition sample_codecs :: wire_codecs where
  "sample_codecs = \<lparr>wc_envelope = one_value \<lparr>env_header = sample_header,
       env_kem_ciphertext = replicate 32 7 @ replicate 1056 0, env_nonce = replicate 12 9,
       env_encrypted_payload = [5] @ replicate 16 0\<rparr> [6],
     wc_header = one_value sample_header [8], wc_payload = one_value sample_payload [5],
     wc_manifest = \<lparr>enc = (\<lambda>_. Inl ''unused''), dec = (\<lambda>_. Inl ''unused'')\<rparr>\<rparr>"

definition sample_encrypt :: encrypt_params where
  "sample_encrypt = \<lparr>ep_payload = [5], ep_kem_public_key = replicate 1184 0, ep_header = sample_header,
     ep_nonce = Some (replicate 12 9), ep_kem_message = Some (replicate 32 7)\<rparr>"

lemma sample_payload_decodes:
  "decode_cemp_payload_v1 (wc_payload sample_codecs) (Buffer (ep_payload sample_encrypt)) = Inr sample_payload"
  by (simp add: sample_codecs_def sample_encrypt_def decode_cemp_payload_v1_def)

lemma one_value_sel [simp]: "enc (one_value v b) v = Inr b"
  by (simp add: one_value_def)

lemma sample_encrypted: "\<exists>r. encrypt_envelope sample_suite sample_codecs [] [] sample_encrypt = Inr r"
proof -
  have p: "decode_cemp_payload_v1 (wc_payload sample_codecs) (Buffer [5]) = Inr sample_payload"
    using sample_payload_decodes by (simp add: sample_encrypt_def)
  have v: "validate_envelope (wc_envelope sample_codecs) [6] = Ok"
    by (simp add: validate_envelope_def try_decode_def decode_cemp_envelope_v1_def sample_codecs_def
        validate_envelope_fields_def sample_header_def Let_def V1_LIMITS_def cemp_protocol_version_def
        network_ckb_testnet_def is_known_content_type_def content_types_def)
  show ?thesis
    unfolding encrypt_envelope_def Let_def sample_encrypt_def encrypt_params.simps option.case p
    by (simp add: sum_bind_def require_length_def map_error_def check_payload_def or_error_def
        sample_suite_def aes256_gcm_encrypt_def check_key_and_nonce_def derive_message_key_def
        hkdf_sha256_def encode_cemp_envelope_header_v1_def encode_cemp_envelope_v1_def strict_encode_def
        v [unfolded sample_codecs_def, simplified] sample_codecs_def)
      (simp add: sample_header_def sample_payload_def)
qed

theorem envelope_round_trip_witness:
  "\<exists>r. encrypt_envelope sample_suite sample_codecs [] [] sample_encrypt = Inr r \<and>
     decrypt_envelope sample_suite sample_codecs \<lparr>dp_envelope = er_envelope r,
       dp_kem_secret_key = replicate 2400 0, dp_own_profile_id = replicate 32 4\<rparr>
     = Inr \<lparr>dr_header = sample_header, dr_payload = [5], dr_attachment_key = er_attachment_key r\<rparr>"
proof -
  obtain r where r: "encrypt_envelope sample_suite sample_codecs [] [] sample_encrypt = Inr r"
    using sample_encrypted by blast
  have "key_pair sample_suite (ep_kem_public_key sample_encrypt) (replicate 2400 0)"
    "decodes (wc_envelope sample_codecs)" "length (pl_recipient_profile_id sample_payload) = 32"
    by (simp_all add: sample_suite_ok sample_encrypt_def sample_codecs_def sample_payload_def)
  from envelope_round_trip [OF this(1) sample_suite_ok(1) this(2) r sample_payload_decodes this(3)] r
  show ?thesis by (auto simp: sample_encrypt_def sample_payload_def)
qed

theorem attachment_keys_agree_witness:
  "\<exists>r. encrypt_envelope sample_suite sample_codecs [] [] sample_encrypt = Inr r \<and>
     derive_send_attachment_key sample_suite \<lparr>sk_kem_public_key = replicate 1184 0,
       sk_kem_message = replicate 32 7, sk_nonce = replicate 12 9, sk_sender = replicate 32 3,
       sk_recipient = replicate 32 4\<rparr> = Inr (er_attachment_key r)"
proof -
  obtain r where r: "encrypt_envelope sample_suite sample_codecs [] [] sample_encrypt = Inr r"
    using sample_encrypted by blast
  from attachment_keys_agree [OF r sample_payload_decodes, of "replicate 12 9" "replicate 32 7"] r
  show ?thesis by (auto simp: sample_encrypt_def sample_payload_def sample_header_def)
qed

end
