(* ===== verification/Cemp_Utf8.thy ===== *)
theory Cemp_Utf8
  imports Cemp_Bytes
begin

text \<open>
  \<open>TextEncoder.encode\<close> and \<open>TextDecoder.decode\<close> of the platform, as the WHATWG encoding standard
  specifies them and the code uses them (UTF-8, replacement of errors, a leading byte order mark
  dropped). A JavaScript string is the list of its code points, in which an unpaired surrogate is
  a code point of its own.
\<close>

type_synonym code_points = "nat list"

text \<open>The code points of a literal of the code.\<close>

definition points :: "string \<Rightarrow> code_points" where
  "points t = map of_char t"

section \<open>Encoding\<close>

definition surrogate :: "nat \<Rightarrow> bool" where
  "surrogate c \<longleftrightarrow> 0xD800 \<le> c \<and> c \<le> 0xDFFF"

definition utf8_char :: "nat \<Rightarrow> nat list" where
  "utf8_char c =
     (if c < 0x80 then [c]
      else if c < 0x800 then [0xC0 + c div 64, 0x80 + c mod 64]
      else if surrogate c then [0xEF, 0xBF, 0xBD]
      else if c < 0x10000 then [0xE0 + c div 4096, 0x80 + c div 64 mod 64, 0x80 + c mod 64]
      else [0xF0 + c div 262144, 0x80 + c div 4096 mod 64, 0x80 + c div 64 mod 64, 0x80 + c mod 64])"

definition utf8_encode :: "code_points \<Rightarrow> bytes" where
  "utf8_encode t = map word_of_nat (concat (map utf8_char t))"

section \<open>Decoding\<close>

text \<open>A partly read sequence: the code point so far, the bytes still needed, and the bounds of the
  next byte.\<close>

record pending =
  up_point :: nat
  up_needed :: nat
  up_lower :: nat
  up_upper :: nat

definition replacement :: nat where
  "replacement = 0xFFFD"

definition utf8_start :: "nat \<Rightarrow> code_points \<times> pending option" where
  "utf8_start b =
     (if b < 0x80 then ([b], None)
      else if 0xC2 \<le> b \<and> b \<le> 0xDF
      then ([], Some \<lparr>up_point = b - 0xC0, up_needed = 1, up_lower = 0x80, up_upper = 0xBF\<rparr>)
      else if 0xE0 \<le> b \<and> b \<le> 0xEF
      then ([], Some \<lparr>up_point = b - 0xE0, up_needed = 2, up_lower = (if b = 0xE0 then 0xA0 else 0x80),
             up_upper = (if b = 0xED then 0x9F else 0xBF)\<rparr>)
      else if 0xF0 \<le> b \<and> b \<le> 0xF4
      then ([], Some \<lparr>up_point = b - 0xF0, up_needed = 3, up_lower = (if b = 0xF0 then 0x90 else 0x80),
             up_upper = (if b = 0xF4 then 0x8F else 0xBF)\<rparr>)
      else ([replacement], None))"

definition utf8_step :: "pending option \<Rightarrow> nat \<Rightarrow> code_points \<times> pending option" where
  "utf8_step st b = (case st of
       None \<Rightarrow> utf8_start b
     | Some p \<Rightarrow>
         if b < up_lower p \<or> up_upper p < b
         then (case utf8_start b of (out, st') \<Rightarrow> (replacement # out, st'))
         else (let point = 64 * up_point p + (b - 0x80) in
           if up_needed p = 1 then ([point], None)
           else ([], Some \<lparr>up_point = point, up_needed = up_needed p - 1, up_lower = 0x80, up_upper = 0xBF\<rparr>)))"

fun utf8_run :: "pending option \<Rightarrow> nat list \<Rightarrow> code_points" where
  "utf8_run st [] = (case st of None \<Rightarrow> [] | Some _ \<Rightarrow> [replacement])"
| "utf8_run st (b # bs) = (case utf8_step st b of (out, st') \<Rightarrow> out @ utf8_run st' bs)"

definition drop_bom :: "code_points \<Rightarrow> code_points" where
  "drop_bom t = (case t of c # cs \<Rightarrow> if c = 0xFEFF then cs else t | [] \<Rightarrow> [])"

definition utf8_decode :: "bytes \<Rightarrow> code_points" where
  "utf8_decode bs = drop_bom (utf8_run None (map unat bs))"

section \<open>Blanks and letters\<close>

text \<open>\<open>trim\<close> and \<open>toLowerCase\<close>, the latter on what it maps into ASCII letters: the capital letters
  and the Kelvin sign. The other characters are left as they are.\<close>

definition js_space :: "nat \<Rightarrow> bool" where
  "js_space c \<longleftrightarrow> c \<in> set [9, 10, 11, 12, 13, 32, 0xA0, 0x1680, 0x2028, 0x2029, 0x202F, 0x205F, 0x3000, 0xFEFF]
     \<or> (0x2000 \<le> c \<and> c \<le> 0x200A)"

definition js_trim :: "code_points \<Rightarrow> code_points" where
  "js_trim t = rev (dropWhile js_space (rev (dropWhile js_space t)))"

definition js_lower :: "code_points \<Rightarrow> code_points" where
  "js_lower t = map (\<lambda>c. if 65 \<le> c \<and> c \<le> 90 then c + 32 else if c = 0x212A then 107 else c) t"

section \<open>Lemmas\<close>

definition scalar :: "nat \<Rightarrow> bool" where
  "scalar c \<longleftrightarrow> c < 0x110000 \<and> \<not> surrogate c"

lemma points_inject [simp]: "points a = points b \<longleftrightarrow> a = b"
  by (simp add: points_def inj_map_eq_map [OF inj_of_char])

lemma char_code: "(of_char c :: nat) < 256"
  by simp

lemma points_scalar: "c \<in> set (points t) \<Longrightarrow> scalar c"
proof -
  assume "c \<in> set (points t)"
  then have "c < 256" by (auto simp: points_def char_code)
  then show ?thesis by (simp add: scalar_def surrogate_def)
qed

lemma utf8_char_bytes: "c < 0x110000 \<Longrightarrow> b \<in> set (utf8_char c) \<Longrightarrow> b < 256"
  by (auto simp: utf8_char_def split: if_splits)

lemma unat_bytes: "\<forall>b \<in> set bs. b < 256 \<Longrightarrow> map (unat \<circ> (word_of_nat :: nat \<Rightarrow> byte)) bs = bs"
  by (induction bs) (auto simp: unat_of_nat)

lemma run_two:
  assumes "0x80 \<le> c" "c < 0x800"
  shows "utf8_run None (utf8_char c @ bs) = c # utf8_run None bs"
proof -
  define h l where "h = c div 64" and "l = c mod 64"
  have c: "c = 64 * h + l" by (simp add: h_def l_def)
  have bound: "2 \<le> h" "h \<le> 0x1F" "l < 64" using assms by (auto simp: h_def l_def)
  have char: "utf8_char c = [0xC0 + h, 0x80 + l]"
    using assms by (simp add: utf8_char_def h_def l_def)
  have start: "utf8_start (0xC0 + h) = ([], Some \<lparr>up_point = h, up_needed = 1, up_lower = 0x80, up_upper = 0xBF\<rparr>)"
    using bound by (simp add: utf8_start_def)
  show ?thesis
    unfolding char using bound by (simp add: utf8_step_def start c)
qed

lemma run_three:
  assumes "0x800 \<le> c" "c < 0x10000" "\<not> surrogate c"
  shows "utf8_run None (utf8_char c @ bs) = c # utf8_run None bs"
proof -
  define h m l where "h = c div 4096" and "m = c div 64 mod 64" and "l = c mod 64"
  have c: "c = 64 * (64 * h + m) + l"
    unfolding h_def m_def l_def by (simp add: div_mult2_eq [of c 64 64, simplified])
  have bound: "h \<le> 15" "m < 64" "l < 64" using assms by (auto simp: h_def m_def l_def)
  have low: "h = 0 \<Longrightarrow> 0x20 \<le> m" using assms(1) bound c by simp
  have mid: "h = 13 \<Longrightarrow> m \<le> 0x1F" using assms(3) bound c by (auto simp: surrogate_def)
  have char: "utf8_char c = [0xE0 + h, 0x80 + m, 0x80 + l]"
    using assms by (simp add: utf8_char_def h_def m_def l_def)
  have start: "utf8_start (0xE0 + h) = ([], Some \<lparr>up_point = h, up_needed = 2,
      up_lower = (if h = 0 then 0xA0 else 0x80), up_upper = (if h = 13 then 0x9F else 0xBF)\<rparr>)"
    using bound by (simp add: utf8_start_def)
  show ?thesis
    unfolding char using bound low mid by (auto simp: utf8_step_def start c)
qed

lemma run_four:
  assumes "0x10000 \<le> c" "c < 0x110000"
  shows "utf8_run None (utf8_char c @ bs) = c # utf8_run None bs"
proof -
  define h m n l where "h = c div 262144" and "m = c div 4096 mod 64" and "n = c div 64 mod 64" and "l = c mod 64"
  have c: "c = 64 * (64 * (64 * h + m) + n) + l"
    unfolding h_def m_def n_def l_def
    by (simp add: div_mult2_eq [of c 64 64, simplified] div_mult2_eq [of c 64 4096, simplified]
        div_mult2_eq [of "c div 64" 64 64, simplified])
  have bound: "h \<le> 4" "m < 64" "n < 64" "l < 64" using assms by (auto simp: h_def m_def n_def l_def)
  have low: "h = 0 \<Longrightarrow> 0x10 \<le> m" using assms(1) bound c by simp
  have high: "h = 4 \<Longrightarrow> m \<le> 0x0F" using assms(2) bound c by simp
  have char: "utf8_char c = [0xF0 + h, 0x80 + m, 0x80 + n, 0x80 + l]"
    using assms by (simp add: utf8_char_def h_def m_def n_def l_def surrogate_def)
  have start: "utf8_start (0xF0 + h) = ([], Some \<lparr>up_point = h, up_needed = 3,
      up_lower = (if h = 0 then 0x90 else 0x80), up_upper = (if h = 4 then 0x8F else 0xBF)\<rparr>)"
    using bound by (simp add: utf8_start_def)
  show ?thesis
    unfolding char using bound low high by (auto simp: utf8_step_def start c)
qed

lemma run_char: "scalar c \<Longrightarrow> utf8_run None (utf8_char c @ bs) = c # utf8_run None bs"
  using run_two [of c bs] run_three [of c bs] run_four [of c bs]
  by (cases "c < 0x80") (auto simp: scalar_def utf8_char_def utf8_step_def utf8_start_def)

lemma utf8_run_encode:
  assumes "\<forall>c \<in> set t. scalar c"
  shows "utf8_run None (map unat (utf8_encode t)) = t"
proof -
  have "map unat (utf8_encode t) = concat (map utf8_char t)"
    unfolding utf8_encode_def map_map using assms utf8_char_bytes
    by (intro unat_bytes) (auto simp: scalar_def)
  moreover have "utf8_run None (concat (map utf8_char t)) = t"
    using assms by (induction t) (auto simp: run_char)
  ultimately show ?thesis by simp
qed

lemma utf8_decode_encode: "\<forall>c \<in> set t. scalar c \<Longrightarrow> utf8_decode (utf8_encode t) = drop_bom t"
  by (simp add: utf8_decode_def utf8_run_encode)

lemma utf8_encode_nil [simp]: "utf8_encode t = [] \<longleftrightarrow> t = []"
  by (cases t) (auto simp: utf8_encode_def utf8_char_def)

lemma drop_bom_plain: "t = [] \<or> hd t \<noteq> 0xFEFF \<Longrightarrow> drop_bom t = t"
  by (cases t) (auto simp: drop_bom_def)

end
