(* ===== verification/Cemp_States.thy ===== *)
theory Cemp_States
  imports Cemp_Prelude
begin

text \<open>
  The message state machine of \<open>packages/cemp-database/src/message-states.ts\<close> (the same two
  state lists appear in \<open>packages/cemp-core/src/states.ts\<close>). The two string unions have no
  member in common, so their union \<open>MessageState\<close> is one datatype; the constructors are
  the source's strings in camel case. The transition tables are functions into lists, in the
  source's order.
\<close>

section \<open>States and directions\<close>

datatype mstate =
    Draft | Queued | Encrypting | BuildingTransaction | AwaitingSignature | Submitting
  | Pending | Committed | AvailableOnChain | DownloadedByRecipient | Acknowledged
  | ReclaimQueued | ReclaimPending | Reclaimed | Expired | Failed
  | Discovered | Downloading | Decrypting | Received | Displayed | ResponseQueued
  | ResponseSent | AwaitingRemoteReclaim | RemoteReclaimed | Invalid

datatype direction = Outgoing | Incoming

definition outgoing_message_states :: "mstate list" where
  "outgoing_message_states =
     [Draft, Queued, Encrypting, BuildingTransaction, AwaitingSignature, Submitting, Pending,
      Committed, AvailableOnChain, DownloadedByRecipient, Acknowledged, ReclaimQueued,
      ReclaimPending, Reclaimed, Expired, Failed]"

definition incoming_message_states :: "mstate list" where
  "incoming_message_states =
     [Discovered, Downloading, Decrypting, Received, Displayed, ResponseQueued, ResponseSent,
      AwaitingRemoteReclaim, RemoteReclaimed, Invalid]"

definition terminal_message_states :: "mstate list" where
  "terminal_message_states = [Reclaimed, Expired, RemoteReclaimed, Invalid]"

definition outgoing_in_flight :: "mstate list" where
  "outgoing_in_flight =
     [Draft, Queued, Encrypting, BuildingTransaction, AwaitingSignature, Submitting, Pending]"

section \<open>Transition tables\<close>

fun outgoing_transitions :: "mstate \<Rightarrow> mstate list" where
  "outgoing_transitions Draft = [Queued, Failed]"
| "outgoing_transitions Queued = [Encrypting, Failed, Expired]"
| "outgoing_transitions Encrypting = [BuildingTransaction, Failed]"
| "outgoing_transitions BuildingTransaction = [AwaitingSignature, Failed]"
| "outgoing_transitions AwaitingSignature = [Submitting, Failed]"
| "outgoing_transitions Submitting = [Pending, Failed]"
| "outgoing_transitions Pending = [Committed, Failed, Expired]"
| "outgoing_transitions Committed = [AvailableOnChain, Failed]"
| "outgoing_transitions AvailableOnChain = [DownloadedByRecipient, Failed]"
| "outgoing_transitions DownloadedByRecipient = [Acknowledged, Failed]"
| "outgoing_transitions Acknowledged = [ReclaimQueued, Failed]"
| "outgoing_transitions ReclaimQueued = [ReclaimPending, Failed]"
| "outgoing_transitions ReclaimPending = [Reclaimed, ReclaimQueued, Failed]"
| "outgoing_transitions Reclaimed = []"
| "outgoing_transitions Expired = []"
| "outgoing_transitions Failed = [Queued]"
| "outgoing_transitions _ = []"

fun incoming_transitions :: "mstate \<Rightarrow> mstate list" where
  "incoming_transitions Discovered = [Downloading, Invalid]"
| "incoming_transitions Downloading = [Decrypting, Invalid]"
| "incoming_transitions Decrypting = [Received, Invalid]"
| "incoming_transitions Received = [Displayed, Invalid]"
| "incoming_transitions Displayed = [ResponseQueued, Invalid]"
| "incoming_transitions ResponseQueued = [ResponseSent, Invalid]"
| "incoming_transitions ResponseSent = [AwaitingRemoteReclaim, Invalid]"
| "incoming_transitions AwaitingRemoteReclaim = [RemoteReclaimed, Invalid]"
| "incoming_transitions RemoteReclaimed = []"
| "incoming_transitions Invalid = []"
| "incoming_transitions _ = []"

definition is_outgoing_state :: "mstate \<Rightarrow> bool" where
  "is_outgoing_state s = List.member outgoing_message_states s"

definition is_incoming_state :: "mstate \<Rightarrow> bool" where
  "is_incoming_state s = List.member incoming_message_states s"

fun initial_message_state :: "direction \<Rightarrow> mstate" where
  "initial_message_state Outgoing = Draft"
| "initial_message_state Incoming = Discovered"

fun can_transition_message :: "direction \<Rightarrow> mstate \<Rightarrow> mstate \<Rightarrow> bool" where
  "can_transition_message Outgoing from to =
     (is_outgoing_state from \<and> is_outgoing_state to \<and> to \<in> set (outgoing_transitions from))"
| "can_transition_message Incoming from to =
     (is_incoming_state from \<and> is_incoming_state to \<and> to \<in> set (incoming_transitions from))"

section \<open>The step relation\<close>

text \<open>The states of a direction, and one legal step.\<close>

fun of_direction :: "direction \<Rightarrow> mstate \<Rightarrow> bool" where
  "of_direction Outgoing s = is_outgoing_state s"
| "of_direction Incoming s = is_incoming_state s"

inductive msg_step :: "direction \<Rightarrow> mstate \<Rightarrow> mstate \<Rightarrow> bool" for d where
  "can_transition_message d s t \<Longrightarrow> msg_step d s t"

inductive_simps msg_step_iff: "msg_step d s t"

inductive msg_reachable :: "direction \<Rightarrow> mstate \<Rightarrow> bool" for d where
  start: "msg_reachable d (initial_message_state d)"
| step: "msg_reachable d s \<Longrightarrow> msg_step d s t \<Longrightarrow> msg_reachable d t"

lemmas state_defs = is_outgoing_state_def is_incoming_state_def outgoing_message_states_def
  incoming_message_states_def terminal_message_states_def

lemma mstate_partition: "is_incoming_state s = (\<not> is_outgoing_state s)"
  by (cases s) (simp_all add: state_defs)

lemma of_direction_iff: "of_direction d s = (case d of Outgoing \<Rightarrow> is_outgoing_state s
    | Incoming \<Rightarrow> \<not> is_outgoing_state s)"
  by (cases d) (simp_all add: mstate_partition)

lemma initial_of_direction: "of_direction d (initial_message_state d)"
  by (cases d) (simp_all add: state_defs)

lemma can_transition_of_direction:
  "can_transition_message d s t \<Longrightarrow> of_direction d s \<and> of_direction d t"
  by (cases d) simp_all

lemma can_transition_irrefl: "\<not> can_transition_message d s s"
  by (cases d; cases s) simp_all

lemma reachable_of_direction: "msg_reachable d s \<Longrightarrow> of_direction d s"
  by (induction rule: msg_reachable.induct)
     (auto simp: initial_of_direction msg_step_iff dest: can_transition_of_direction)

text \<open>A rank that every edge increases, but for the two documented retry edges.\<close>

fun rank :: "mstate \<Rightarrow> nat" where
  "rank Draft = 0" | "rank Queued = 1" | "rank Encrypting = 2" | "rank BuildingTransaction = 3"
| "rank AwaitingSignature = 4" | "rank Submitting = 5" | "rank Pending = 6"
| "rank Committed = 7" | "rank AvailableOnChain = 8" | "rank DownloadedByRecipient = 9"
| "rank Acknowledged = 10" | "rank ReclaimQueued = 11" | "rank ReclaimPending = 12"
| "rank Reclaimed = 13" | "rank Expired = 14" | "rank Failed = 15"
| "rank Discovered = 0" | "rank Downloading = 1" | "rank Decrypting = 2" | "rank Received = 3"
| "rank Displayed = 4" | "rank ResponseQueued = 5" | "rank ResponseSent = 6"
| "rank AwaitingRemoteReclaim = 7" | "rank RemoteReclaimed = 8" | "rank Invalid = 9"

lemma reachable_step:
  "msg_reachable d s \<Longrightarrow> can_transition_message d s t \<Longrightarrow> msg_reachable d t"
  by (auto intro: msg_reachable.step msg_step.intros)

text \<open>The chain of forward edges from the initial state reaches every other state.\<close>

lemma outgoing_chain:
  "msg_reachable Outgoing Draft" "msg_reachable Outgoing Queued"
  "msg_reachable Outgoing Encrypting" "msg_reachable Outgoing BuildingTransaction"
  "msg_reachable Outgoing AwaitingSignature" "msg_reachable Outgoing Submitting"
  "msg_reachable Outgoing Pending" "msg_reachable Outgoing Committed"
  "msg_reachable Outgoing AvailableOnChain" "msg_reachable Outgoing DownloadedByRecipient"
  "msg_reachable Outgoing Acknowledged" "msg_reachable Outgoing ReclaimQueued"
  "msg_reachable Outgoing ReclaimPending" "msg_reachable Outgoing Reclaimed"
  "msg_reachable Outgoing Expired" "msg_reachable Outgoing Failed"
proof -
  have e: "msg_reachable Outgoing s \<Longrightarrow> can_transition_message Outgoing s t \<Longrightarrow>
      msg_reachable Outgoing t" for s t
    by (rule reachable_step)
  show 0: "msg_reachable Outgoing Draft"
    using msg_reachable.start [of Outgoing] by simp
  show 1: "msg_reachable Outgoing Queued" by (rule e [OF 0]) (simp add: state_defs)
  show 2: "msg_reachable Outgoing Encrypting" by (rule e [OF 1]) (simp add: state_defs)
  show 3: "msg_reachable Outgoing BuildingTransaction" by (rule e [OF 2]) (simp add: state_defs)
  show 4: "msg_reachable Outgoing AwaitingSignature" by (rule e [OF 3]) (simp add: state_defs)
  show 5: "msg_reachable Outgoing Submitting" by (rule e [OF 4]) (simp add: state_defs)
  show 6: "msg_reachable Outgoing Pending" by (rule e [OF 5]) (simp add: state_defs)
  show 7: "msg_reachable Outgoing Committed" by (rule e [OF 6]) (simp add: state_defs)
  show 8: "msg_reachable Outgoing AvailableOnChain" by (rule e [OF 7]) (simp add: state_defs)
  show 9: "msg_reachable Outgoing DownloadedByRecipient" by (rule e [OF 8]) (simp add: state_defs)
  show 10: "msg_reachable Outgoing Acknowledged" by (rule e [OF 9]) (simp add: state_defs)
  show 11: "msg_reachable Outgoing ReclaimQueued" by (rule e [OF 10]) (simp add: state_defs)
  show 12: "msg_reachable Outgoing ReclaimPending" by (rule e [OF 11]) (simp add: state_defs)
  show "msg_reachable Outgoing Reclaimed" by (rule e [OF 12]) (simp add: state_defs)
  show "msg_reachable Outgoing Expired" by (rule e [OF 1]) (simp add: state_defs)
  show "msg_reachable Outgoing Failed" by (rule e [OF 0]) (simp add: state_defs)
qed

lemma incoming_chain:
  "msg_reachable Incoming Discovered" "msg_reachable Incoming Downloading"
  "msg_reachable Incoming Decrypting" "msg_reachable Incoming Received"
  "msg_reachable Incoming Displayed" "msg_reachable Incoming ResponseQueued"
  "msg_reachable Incoming ResponseSent" "msg_reachable Incoming AwaitingRemoteReclaim"
  "msg_reachable Incoming RemoteReclaimed" "msg_reachable Incoming Invalid"
proof -
  have e: "msg_reachable Incoming s \<Longrightarrow> can_transition_message Incoming s t \<Longrightarrow>
      msg_reachable Incoming t" for s t
    by (rule reachable_step)
  show 0: "msg_reachable Incoming Discovered"
    using msg_reachable.start [of Incoming] by simp
  show 1: "msg_reachable Incoming Downloading" by (rule e [OF 0]) (simp add: state_defs)
  show 2: "msg_reachable Incoming Decrypting" by (rule e [OF 1]) (simp add: state_defs)
  show 3: "msg_reachable Incoming Received" by (rule e [OF 2]) (simp add: state_defs)
  show 4: "msg_reachable Incoming Displayed" by (rule e [OF 3]) (simp add: state_defs)
  show 5: "msg_reachable Incoming ResponseQueued" by (rule e [OF 4]) (simp add: state_defs)
  show 6: "msg_reachable Incoming ResponseSent" by (rule e [OF 5]) (simp add: state_defs)
  show 7: "msg_reachable Incoming AwaitingRemoteReclaim" by (rule e [OF 6]) (simp add: state_defs)
  show "msg_reachable Incoming RemoteReclaimed" by (rule e [OF 7]) (simp add: state_defs)
  show "msg_reachable Incoming Invalid" by (rule e [OF 0]) (simp add: state_defs)
qed

section \<open>Properties\<close>

lemma reachable_iff: "msg_reachable d s \<longleftrightarrow> of_direction d s"
proof
  show "msg_reachable d s \<Longrightarrow> of_direction d s" by (rule reachable_of_direction)
  show "of_direction d s \<Longrightarrow> msg_reachable d s"
    by (cases d; cases s) (simp_all add: outgoing_chain incoming_chain state_defs)
qed

lemma dead_end_iff:
  "of_direction d s \<Longrightarrow>
     (\<forall>t. \<not> can_transition_message d s t) \<longleftrightarrow> s \<in> set terminal_message_states"
  by (cases d; cases s) (auto simp: state_defs)

text \<open>
  The message state machine has no unreachable state and no hidden dead end: from the
  initial state of a direction exactly the states of that direction can be reached, and the
  states without an outgoing edge are exactly the declared terminal states.
\<close>

theorem state_machine_complete:
  "{s. msg_reachable d s} = {s. of_direction d s} \<and>
   {s. of_direction d s \<and> (\<forall>t. \<not> can_transition_message d s t)}
     = {s. of_direction d s \<and> s \<in> set terminal_message_states}"
  using reachable_iff dead_end_iff by blast

lemma incoming_step_rank: "can_transition_message Incoming s t \<Longrightarrow> rank s < rank t"
  by (cases s) auto

lemma outgoing_step_rank:
  "can_transition_message Outgoing s t \<Longrightarrow>
     rank s < rank t \<or> (s, t) = (ReclaimPending, ReclaimQueued) \<or> (s, t) = (Failed, Queued)"
  by (cases s) auto

text \<open>
  A message never moves backwards except along the two retry edges the code documents:
  every legal transition strictly increases the lifecycle rank, or it is the reclaim requeue
  (reclaim pending to reclaim queued) or the user retry (failed to queued) of an outgoing
  message.
\<close>

theorem only_retry_edges_go_back:
  assumes "can_transition_message d s t"
  shows "rank s < rank t
    \<or> d = Outgoing \<and> (s, t) \<in> {(ReclaimPending, ReclaimQueued), (Failed, Queued)}"
  using assms incoming_step_rank outgoing_step_rank by (cases d) auto

theorem only_retry_edges_go_back_witness:
  "can_transition_message Outgoing Failed Queued \<and> \<not> rank Failed < rank Queued
    \<and> (Failed, Queued) \<in> {(ReclaimPending, ReclaimQueued), (Failed, Queued)}"
proof -
  have "can_transition_message Outgoing Failed Queued"
    by (simp add: state_defs)
  from this only_retry_edges_go_back [OF this] show ?thesis by simp
qed

text \<open>
  The retry edge is not limited to failures before the commit: the table lets a message that
  was already committed fail and be queued again, although the comment at the head of the
  file says that such a failure is not requeued.
\<close>

lemma committed_message_can_be_requeued:
  "can_transition_message Outgoing Committed Failed \<and>
   can_transition_message Outgoing Failed Queued"
  by (simp add: state_defs)

end
