(* ===== verification/Cemp_Db.thy ===== *)
theory Cemp_Db
  imports Complex_Main Cemp_Prelude Cemp_States
begin

text \<open>
  The local database of packages/cemp-database (schema version 9 of migrate.ts) as one state.

  A table is the list of its rows in rowid order; a row is a record with the columns of the
  table. Rowids are allocated as SQLite does for an INTEGER PRIMARY KEY without AUTOINCREMENT:
  one more than the largest id in the table. Amounts that the schema keeps as decimal text are
  the integers they denote. \<open>db_fk\<close> says whether the connection enforces foreign keys (the Node
  adapter switches them on, the SQLCipher adapter does not), and \<open>db_clock\<close> is the value that
  \<open>Date.now()\<close> returns during one operation. The record is extensible, so that the layers above
  add their own environment and still run the repository operations unchanged.
\<close>

section \<open>Errors\<close>

text \<open>
  \<open>Db code\<close> is a DatabaseError, \<open>SqlError\<close> the raw error of the driver, \<open>CkbError context
  message\<close> a CempCkbError, \<open>Abandoned inputs_spent_elsewhere\<close> a JournaledAbandonedError and
  \<open>OtherError message\<close> any other thrown error.
\<close>

datatype db_error_code =
  NotFound | IllegalStateTransition | MigrationError | ConstraintViolation | AdapterError

datatype failure =
    Db db_error_code
  | SqlError
  | CkbError string string
  | Abandoned bool
  | OtherError string

section \<open>Rows\<close>

record message =
  m_id :: nat
  m_conversation_id :: nat
  m_direction :: direction
  m_state :: mstate
  m_body :: "string option"
  m_logical_id :: string
  m_envelope_id :: "string option"
  m_created_at :: int
  m_updated_at :: int

record chain_ref =
  cr_message_id :: nat
  cr_tx_hash :: "string option"
  cr_outpoint_index :: "nat option"
  cr_reply_tx_hash :: "string option"
  cr_reply_outpoint_index :: "nat option"

record receipt_row =
  rr_id :: nat
  rr_message_id :: nat
  rr_type :: nat
  rr_tx_hash :: "string option"
  rr_state :: string
  rr_created_at :: int

record conversation =
  cv_id :: nat
  cv_contact_id :: nat
  cv_created_at :: int
  cv_last_activity :: int

record contact =
  ct_id :: nat
  ct_display_name :: string
  ct_notes :: string
  ct_avatar :: "bytes option"
  ct_profile_id :: "string option"
  ct_type_id :: "string option"
  ct_ml_dsa_key :: "bytes option"
  ct_ml_kem_key :: "bytes option"
  ct_fingerprint :: "string option"
  ct_trust_verdict :: "string option"
  ct_blocked :: bool
  ct_created_at :: int
  ct_updated_at :: int

record attachment =
  at_id :: nat
  at_message_id :: nat
  at_kind :: string
  at_byte_length :: nat
  at_state :: string
  at_manifest :: "bytes option"
  at_key :: "bytes option"
  at_remote_downloaded :: bool
  at_created_at :: int

record attachment_chunk =
  ck_id :: nat
  ck_attachment_id :: nat
  ck_index :: nat
  ck_tx_hash :: "string option"
  ck_outpoint_index :: "nat option"
  ck_state :: string

record outgoing_tx =
  tx_id :: nat
  tx_hash :: string
  tx_purpose :: string
  tx_state :: string
  tx_fee :: "int option"
  tx_submitted_at :: "int option"
  tx_committed_at :: "int option"
  tx_block_hash :: "string option"
  tx_capacity :: "int option"
  tx_hex :: "string option"

datatype watch_status = Watching | Spent

record watched_outpoint =
  wo_id :: nat
  wo_tx_hash :: string
  wo_index :: nat
  wo_purpose :: string
  wo_status :: watch_status
  wo_spent_by :: "string option"
  wo_reclaim_group :: "nat option"
  wo_created_at :: int
  wo_spent_at :: "int option"

record worker_lease =
  wl_resource :: string
  wl_owner :: string
  wl_acquired_at :: int
  wl_expires_at :: int

record wallet_balance =
  wb_wallet_id :: nat
  wb_total :: int
  wb_available :: int
  wb_reserved :: int
  wb_reclaimable :: int
  wb_pending :: int
  wb_updated_at :: int

datatype profile_state = ProfileActive | ProfileRotated | ProfileRevoked

record stored_profile =
  sp_id :: nat
  sp_account_id :: nat
  sp_profile_id :: string
  sp_type_id :: "string option"
  sp_tx_hash :: "string option"
  sp_outpoint_index :: "nat option"
  sp_state :: profile_state
  sp_previous :: "string option"
  sp_created_at :: int
  sp_updated_at :: int

record security_event =
  se_id :: nat
  se_kind :: string
  se_detail :: string
  se_created_at :: int

section \<open>The database\<close>

record db =
  db_fk :: bool
  db_clock :: int
  db_contacts :: "contact list"
  db_conversations :: "conversation list"
  db_messages :: "message list"
  db_chain_refs :: "chain_ref list"
  db_receipts :: "receipt_row list"
  db_attachments :: "attachment list"
  db_chunks :: "attachment_chunk list"
  db_txs :: "outgoing_tx list"
  db_reclaim_groups :: "nat list"
  db_watches :: "watched_outpoint list"
  db_leases :: "worker_lease list"
  db_wallets :: "(nat \<times> string) list"
  db_balances :: "wallet_balance list"
  db_cursors :: "string \<rightharpoonup> string \<times> int"
  db_buckets :: "string \<rightharpoonup> rat \<times> int"
  db_settings :: "string \<rightharpoonup> string"
  db_accounts :: "nat list"
  db_profiles :: "stored_profile list"
  db_security_events :: "security_event list"

definition empty_db :: db where
  "empty_db = \<lparr>db_fk = True, db_clock = 0, db_contacts = [], db_conversations = [],
     db_messages = [], db_chain_refs = [], db_receipts = [], db_attachments = [], db_chunks = [],
     db_txs = [], db_reclaim_groups = [], db_watches = [], db_leases = [], db_wallets = [],
     db_balances = [], db_cursors = Map.empty, db_buckets = Map.empty, db_settings = Map.empty,
     db_accounts = [], db_profiles = [], db_security_events = []\<rparr>"

section \<open>Statements\<close>

text \<open>\<open>Date.now()\<close>.\<close>

definition now :: "('x db_scheme, failure, int) prog" where
  "now = asks db_clock"

text \<open>The rowid of the next inserted row.\<close>

definition next_id :: "('r \<Rightarrow> nat) \<Rightarrow> 'r list \<Rightarrow> nat" where
  "next_id idf rows = Suc (fold max (map idf rows) 0)"

text \<open>\<open>UPDATE \<dots> WHERE\<close>: the table afterwards, and the number of changed rows.\<close>

definition update_where :: "('r \<Rightarrow> bool) \<Rightarrow> ('r \<Rightarrow> 'r) \<Rightarrow> 'r list \<Rightarrow> 'r list" where
  "update_where p f rows = map (\<lambda>r. if p r then f r else r) rows"

definition changes :: "('r \<Rightarrow> bool) \<Rightarrow> 'r list \<Rightarrow> nat" where
  "changes p rows = length (filter p rows)"

text \<open>\<open>INSERT \<dots> ON CONFLICT DO NOTHING\<close> and \<open>\<dots> DO UPDATE\<close>, where \<open>p\<close> recognises the
  conflicting row.\<close>

definition insert_or_ignore :: "('r \<Rightarrow> bool) \<Rightarrow> 'r \<Rightarrow> 'r list \<Rightarrow> 'r list" where
  "insert_or_ignore p r rows = (if list_ex p rows then rows else rows @ [r])"

definition upsert :: "('r \<Rightarrow> bool) \<Rightarrow> ('r \<Rightarrow> 'r) \<Rightarrow> 'r \<Rightarrow> 'r list \<Rightarrow> 'r list" where
  "upsert p f r rows = (if list_ex p rows then update_where p f rows else rows @ [r])"

text \<open>A foreign key of an inserted row, checked when the connection enforces them.\<close>

definition references :: "('x db_scheme \<Rightarrow> bool) \<Rightarrow> ('x db_scheme, failure, unit) prog" where
  "references ok = andthen (asks (\<lambda>s. db_fk s \<and> \<not> ok s)) (\<lambda>bad. when_do bad (throw SqlError))"

text \<open>A row that the code reads back and insists on, with the error thrown otherwise.\<close>

definition demand :: "failure \<Rightarrow> ('s \<Rightarrow> 'r option) \<Rightarrow> ('s, failure, 'r) prog" where
  "demand e f = andthen (asks f) (\<lambda>r. case r of None \<Rightarrow> throw e | Some x \<Rightarrow> ret x)"

text \<open>\<open>a LIKE 'prefix%'\<close>: SQLite compares ASCII letters without case.\<close>

definition ascii_lower :: "char \<Rightarrow> char" where
  "ascii_lower c = (let n = of_char c :: nat in if 65 \<le> n \<and> n \<le> 90 then char_of (n + 32) else c)"

definition like_prefix :: "string \<Rightarrow> string \<Rightarrow> bool" where
  "like_prefix prefix t \<longleftrightarrow>
     map ascii_lower (take (length prefix) t) = map ascii_lower prefix"

section \<open>Lemmas\<close>

lemma wp_now [wp_rules]: "wp now Q E s = Q (db_clock s) s"
  by (simp add: now_def wp_asks)

lemma wp_references [wp_rules]:
  "wp (references ok) Q E s = (if db_fk s \<and> \<not> ok s then E SqlError s else Q () s)"
  by (simp add: references_def wp_rules)

lemma wp_demand [wp_rules]:
  "wp (demand e f) Q E s = (case f s of None \<Rightarrow> E e s | Some x \<Rightarrow> Q x s)"
  by (simp add: demand_def wp_rules split: option.splits)

lemma keeps_now [keeps_rules]: "keeps I now"
  by (simp add: now_def keeps_rules)

lemma keeps_references [keeps_rules]: "keeps I (references ok)"
  by (auto simp: references_def intro!: keeps_rules)

lemma keeps_demand [keeps_rules]: "keeps I (demand e f)"
  by (auto simp: demand_def intro!: keeps_rules)

lemma keeps_modify [keeps_rules]: "(\<And>s. I s \<Longrightarrow> I (f s)) \<Longrightarrow> keeps I (modify f)"
  by (simp add: keeps_def modify_def)

subsection \<open>Tables with a key\<close>

lemma map_update_where:
  "(\<And>r. p r \<Longrightarrow> k (f r) = k r) \<Longrightarrow> map k (update_where p f rows) = map k rows"
  by (auto simp: update_where_def)

lemma length_update_where [simp]: "length (update_where p f rows) = length rows"
  by (simp add: update_where_def)

lemma set_update_where: "set (update_where p f rows) = (\<lambda>r. if p r then f r else r) ` set rows"
  by (simp add: update_where_def)

lemma update_where_id: "(\<And>r. r \<in> set rows \<Longrightarrow> p r \<Longrightarrow> f r = r) \<Longrightarrow> update_where p f rows = rows"
  by (induction rows) (auto simp: update_where_def)

lemma update_where_none [simp]: "\<not> list_ex p rows \<Longrightarrow> update_where p f rows = rows"
  by (induction rows) (auto simp: update_where_def)

lemma changes_zero [simp]: "changes p rows = 0 \<longleftrightarrow> \<not> list_ex p rows"
  by (auto simp: changes_def filter_empty_conv list_ex_iff)

lemma changes_unique: "distinct (map k rows) \<Longrightarrow> changes (\<lambda>r. k r = x \<and> q r) rows \<le> 1"
proof (induction rows)
  case (Cons a rows)
  then have "filter (\<lambda>r. k r = k a \<and> q r) rows = []"
    by (auto simp: filter_empty_conv image_iff)
  with Cons show ?case by (auto simp: changes_def)
qed (simp add: changes_def)

lemma fold_max_le: "x \<le> fold max xs (x :: nat) \<and> (\<forall>y \<in> set xs. y \<le> fold max xs x)"
  by (induction xs arbitrary: x) (force simp: max_def)+

lemma next_id_greater: "r \<in> set rows \<Longrightarrow> idf r < next_id idf rows"
  using fold_max_le [of 0 "map idf rows"] by (auto simp: next_id_def less_Suc_eq_le)

lemma next_id_fresh: "next_id idf rows \<notin> idf ` set rows"
proof
  assume "next_id idf rows \<in> idf ` set rows"
  then obtain r where "r \<in> set rows" and "idf r = next_id idf rows" by auto
  then show False using next_id_greater [of r rows idf] by simp
qed

lemma next_id_pos [simp]: "0 < next_id idf rows"
  by (simp add: next_id_def)

text \<open>A table is well formed when its ids are in rowid order, and its key, if it has one, is
  unique.\<close>

definition table_ok :: "('r \<Rightarrow> nat) \<Rightarrow> ('r \<Rightarrow> 'k) \<Rightarrow> 'r list \<Rightarrow> bool" where
  "table_ok idf k rows \<longleftrightarrow> sorted_wrt (<) (map idf rows) \<and> distinct (map k rows)"

lemma table_ok_empty [simp]: "table_ok idf k []"
  by (simp add: table_ok_def)

lemma table_ok_append:
  assumes "table_ok idf k rows" and "idf r = next_id idf rows" and "\<not> list_ex (\<lambda>x. k x = k r) rows"
  shows "table_ok idf k (rows @ [r])"
  using assms next_id_greater [of _ rows idf]
  by (auto simp: table_ok_def sorted_wrt_append list_ex_iff)

lemma table_ok_update_where:
  "table_ok idf k rows \<Longrightarrow> (\<And>r. p r \<Longrightarrow> idf (f r) = idf r) \<Longrightarrow> (\<And>r. p r \<Longrightarrow> k (f r) = k r) \<Longrightarrow>
     table_ok idf k (update_where p f rows)"
  by (simp add: table_ok_def map_update_where)

lemma table_ok_filter: "table_ok idf k rows \<Longrightarrow> table_ok idf k (filter p rows)"
  by (simp add: table_ok_def sorted_wrt_map sorted_wrt_filter distinct_map_filter)

lemma table_ok_ids: "table_ok idf k rows \<Longrightarrow> distinct (map idf rows)"
  by (simp add: table_ok_def strict_sorted_iff)

lemma find_key:
  "distinct (map k rows) \<Longrightarrow> List.find (\<lambda>r. k r = x) rows = Some r \<longleftrightarrow> r \<in> set rows \<and> k r = x"
  by (induction rows) auto

lemma find_some_mem: "List.find p rows = Some r \<Longrightarrow> r \<in> set rows \<and> p r"
  by (induction rows) (auto split: if_splits)

lemma find_update_where:
  "(\<And>r. q (f r) = q r) \<Longrightarrow>
     List.find q (update_where p f rows) = map_option (\<lambda>r. if p r then f r else r) (List.find q rows)"
  by (induction rows) (auto simp: update_where_def)

lemma find_append: "List.find p (xs @ ys) =
    (case List.find p xs of Some x \<Rightarrow> Some x | None \<Rightarrow> List.find p ys)"
  by (induction xs) auto

lemma find_None_list_ex: "List.find p rows = None \<longleftrightarrow> \<not> list_ex p rows"
  by (induction rows) auto

lemma find_insert_or_ignore:
  assumes "p r"
  shows "List.find p (insert_or_ignore p r rows) =
     (case List.find p rows of Some x \<Rightarrow> Some x | None \<Rightarrow> Some r)"
  using assms find_None_list_ex [of p rows]
  by (auto simp: insert_or_ignore_def find_append split: option.splits)

end
