(* ===== verification/Cemp_Messages.thy ===== *)
theory Cemp_Messages
  imports Cemp_Db
begin

text \<open>
  packages/cemp-database/src/repositories/messages.ts and conversations.ts: the message table
  with the state machine in front of it, and the conversation list.

  The two invariants are \<open>messages_ok\<close> (rowid order, one row per logical message id) and
  \<open>history_kept\<close>, a relation between an earlier and a later database: no message is lost, its
  identity and text never change, and its state only moves along legal transitions. Every
  operation keeps both, and the layers above inherit them through the rules of \<open>keeps\<close>.
\<close>

section \<open>Messages\<close>

definition find_message :: "nat \<Rightarrow> 'x db_scheme \<Rightarrow> message option" where
  "find_message i s = List.find (\<lambda>m. m_id m = i) (db_messages s)"

definition find_by_logical_id :: "string \<Rightarrow> 'x db_scheme \<Rightarrow> message option" where
  "find_by_logical_id logical s = List.find (\<lambda>m. m_logical_id m = logical) (db_messages s)"

definition get_message :: "nat \<Rightarrow> ('x db_scheme, failure, message option) prog" where
  "get_message i = asks (find_message i)"

definition get_by_logical_id :: "string \<Rightarrow> ('x db_scheme, failure, message option) prog" where
  "get_by_logical_id logical = asks (find_by_logical_id logical)"

definition get_by_envelope_message_id ::
  "string \<Rightarrow> ('x db_scheme, failure, message option) prog" where
  "get_by_envelope_message_id h =
     asks (\<lambda>s. List.find (\<lambda>m. m_envelope_id m = Some h) (db_messages s))"

text \<open>\<open>UPDATE conversations SET last_activity_at_ms = MAX(\<dots>) WHERE id = ?\<close>\<close>

definition bump_conversation :: "nat \<Rightarrow> int \<Rightarrow> 'x db_scheme \<Rightarrow> 'x db_scheme" where
  "bump_conversation i tm s = s\<lparr>db_conversations := update_where (\<lambda>c. cv_id c = i)
     (\<lambda>c. c\<lparr>cv_last_activity := max (cv_last_activity c) tm\<rparr>) (db_conversations s)\<rparr>"

record message_input =
  mi_conversation_id :: nat
  mi_direction :: direction
  mi_body :: "string option"
  mi_logical_id :: string
  mi_state :: "mstate option"
  mi_created_at :: "int option"

definition new_message :: "message_input \<Rightarrow> int \<Rightarrow> message list \<Rightarrow> message" where
  "new_message inp t rows =
     \<lparr>m_id = next_id m_id rows, m_conversation_id = mi_conversation_id inp,
      m_direction = mi_direction inp,
      m_state = (case mi_state inp of None \<Rightarrow> initial_message_state (mi_direction inp) | Some st \<Rightarrow> st),
      m_body = mi_body inp, m_logical_id = mi_logical_id inp, m_envelope_id = None,
      m_created_at = (case mi_created_at inp of None \<Rightarrow> t | Some c \<Rightarrow> c), m_updated_at = t\<rparr>"

definition insert_message :: "message_input \<Rightarrow> ('x db_scheme, failure, message) prog" where
  "insert_message inp =
     andthen now (\<lambda>t.
     andthen (asks (\<lambda>s. list_ex (\<lambda>m. m_logical_id m = mi_logical_id inp) (db_messages s))) (\<lambda>dup.
     andthen (when_do (\<not> dup)
       (andthen (references (\<lambda>s. list_ex (\<lambda>c. cv_id c = mi_conversation_id inp) (db_conversations s)))
         (\<lambda>_. andthen (modify (\<lambda>s. s\<lparr>db_messages := db_messages s @ [new_message inp t (db_messages s)]\<rparr>))
         (\<lambda>_. modify (bump_conversation (mi_conversation_id inp)
                (case mi_created_at inp of None \<Rightarrow> t | Some c \<Rightarrow> c)))))) (\<lambda>_.
     demand (Db AdapterError) (find_by_logical_id (mi_logical_id inp)))))"

text \<open>\<open>logical_message_id NOT LIKE 'response:%'\<close>\<close>

definition shown :: "message \<Rightarrow> bool" where
  "shown m \<longleftrightarrow> \<not> like_prefix ''response:'' (m_logical_id m)"

definition list_by_conversation ::
  "nat \<Rightarrow> nat option \<Rightarrow> nat \<Rightarrow> ('x db_scheme, failure, message list) prog" where
  "list_by_conversation conv before limit = asks (\<lambda>s. take limit (rev (filter
     (\<lambda>m. m_conversation_id m = conv \<and> (case before of None \<Rightarrow> True | Some b \<Rightarrow> m_id m < b) \<and> shown m)
     (db_messages s))))"

definition list_by_state :: "mstate list \<Rightarrow> nat \<Rightarrow> ('x db_scheme, failure, message list) prog" where
  "list_by_state states limit = (if states = [] then ret []
     else asks (\<lambda>s. take limit (filter (\<lambda>m. m_state m \<in> set states) (db_messages s))))"

definition unread :: "nat \<Rightarrow> message \<Rightarrow> bool" where
  "unread conv m \<longleftrightarrow> m_conversation_id m = conv \<and> m_direction m = Incoming \<and> m_state m = Received"

definition count_unread :: "nat \<Rightarrow> ('x db_scheme, failure, nat) prog" where
  "count_unread conv = asks (\<lambda>s. changes (unread conv) (db_messages s))"

definition set_state :: "nat \<Rightarrow> mstate \<Rightarrow> int \<Rightarrow> 'x db_scheme \<Rightarrow> 'x db_scheme" where
  "set_state i st t s = s\<lparr>db_messages := update_where (\<lambda>m. m_id m = i)
     (\<lambda>m. m\<lparr>m_state := st, m_updated_at := t\<rparr>) (db_messages s)\<rparr>"

definition transition_state :: "nat \<Rightarrow> mstate \<Rightarrow> ('x db_scheme, failure, message) prog" where
  "transition_state i st = atomically
     (andthen (demand (Db NotFound) (find_message i)) (\<lambda>current.
      if m_state current = st then ret current
      else if \<not> can_transition_message (m_direction current) (m_state current) st
      then throw (Db IllegalStateTransition)
      else andthen now (\<lambda>t. andthen (modify (set_state i st t)) (\<lambda>_.
           demand (Db AdapterError) (find_message i)))))"

definition set_chain_ref ::
  "nat \<Rightarrow> string option \<Rightarrow> nat option \<Rightarrow> string option \<Rightarrow> nat option
     \<Rightarrow> ('x db_scheme, failure, unit) prog" where
  "set_chain_ref i h n rh rn =
     (let row = \<lparr>cr_message_id = i, cr_tx_hash = h, cr_outpoint_index = n,
                 cr_reply_tx_hash = rh, cr_reply_outpoint_index = rn\<rparr> in
      andthen (references (\<lambda>s. list_ex (\<lambda>m. m_id m = i) (db_messages s))) (\<lambda>_.
      modify (\<lambda>s. s\<lparr>db_chain_refs :=
        upsert (\<lambda>r. cr_message_id r = i) (\<lambda>_. row) row (db_chain_refs s)\<rparr>)))"

definition find_chain_ref :: "nat \<Rightarrow> 'x db_scheme \<Rightarrow> chain_ref option" where
  "find_chain_ref i s = List.find (\<lambda>r. cr_message_id r = i) (db_chain_refs s)"

definition get_chain_ref :: "nat \<Rightarrow> ('x db_scheme, failure, chain_ref option) prog" where
  "get_chain_ref i = asks (find_chain_ref i)"

definition add_receipt ::
  "nat \<Rightarrow> nat \<Rightarrow> string option \<Rightarrow> string \<Rightarrow> ('x db_scheme, failure, nat) prog" where
  "add_receipt i kind h st = andthen now (\<lambda>t.
     andthen (references (\<lambda>s. list_ex (\<lambda>m. m_id m = i) (db_messages s))) (\<lambda>_.
     andthen (asks (\<lambda>s. next_id rr_id (db_receipts s))) (\<lambda>new.
     andthen (modify (\<lambda>s. s\<lparr>db_receipts := db_receipts s @ [\<lparr>rr_id = new, rr_message_id = i,
       rr_type = kind, rr_tx_hash = h, rr_state = st, rr_created_at = t\<rparr>]\<rparr>)) (\<lambda>_. ret new))))"

definition set_envelope_message_id :: "nat \<Rightarrow> string \<Rightarrow> ('x db_scheme, failure, unit) prog" where
  "set_envelope_message_id i h = andthen now (\<lambda>t.
     andthen (asks (\<lambda>s. changes (\<lambda>m. m_id m = i) (db_messages s))) (\<lambda>n.
     andthen (modify (\<lambda>s. s\<lparr>db_messages := update_where (\<lambda>m. m_id m = i)
       (\<lambda>m. m\<lparr>m_envelope_id := Some h, m_updated_at := t\<rparr>) (db_messages s)\<rparr>)) (\<lambda>_.
     when_do (n = 0) (throw (Db NotFound)))))"

section \<open>Conversations\<close>

definition find_conversation_of :: "nat \<Rightarrow> 'x db_scheme \<Rightarrow> conversation option" where
  "find_conversation_of contact s = List.find (\<lambda>c. cv_contact_id c = contact) (db_conversations s)"

definition get_conversation :: "nat \<Rightarrow> ('x db_scheme, failure, conversation option) prog" where
  "get_conversation i = asks (\<lambda>s. List.find (\<lambda>c. cv_id c = i) (db_conversations s))"

definition insert_conversation :: "nat \<Rightarrow> int \<Rightarrow> ('x db_scheme, failure, conversation) prog" where
  "insert_conversation contact t =
     andthen (asks (\<lambda>s. list_ex (\<lambda>c. cv_contact_id c = contact) (db_conversations s))) (\<lambda>dup.
     if dup then throw SqlError else
     andthen (references (\<lambda>s. list_ex (\<lambda>c. ct_id c = contact) (db_contacts s))) (\<lambda>_.
     andthen (asks (\<lambda>s. \<lparr>cv_id = next_id cv_id (db_conversations s), cv_contact_id = contact,
       cv_created_at = t, cv_last_activity = t\<rparr>)) (\<lambda>c.
     andthen (modify (\<lambda>s. s\<lparr>db_conversations := db_conversations s @ [c]\<rparr>)) (\<lambda>_. ret c))))"

definition get_or_create_for_contact :: "nat \<Rightarrow> ('x db_scheme, failure, conversation) prog" where
  "get_or_create_for_contact contact =
     andthen (asks (find_conversation_of contact)) (\<lambda>existing. case existing of
       Some c \<Rightarrow> ret c
     | None \<Rightarrow> andthen now (\<lambda>t. catching (insert_conversation contact t)
         (\<lambda>_. demand (Db ConstraintViolation) (find_conversation_of contact))))"

definition touch_conversation :: "nat \<Rightarrow> int \<Rightarrow> ('x db_scheme, failure, unit) prog" where
  "touch_conversation i tm =
     andthen (asks (\<lambda>s. changes (\<lambda>c. cv_id c = i) (db_conversations s))) (\<lambda>n.
     andthen (modify (bump_conversation i tm)) (\<lambda>_. when_do (n = 0) (throw (Db NotFound))))"

record conversation_list_item =
  ci_conversation :: conversation
  ci_display_name :: string
  ci_last_body :: "string option"
  ci_last_state :: "mstate option"
  ci_last_direction :: "direction option"
  ci_unread :: nat

definition last_shown :: "nat \<Rightarrow> message list \<Rightarrow> message option" where
  "last_shown conv rows =
     List.find (\<lambda>m. m_conversation_id m = conv \<and> shown m) (rev rows)"

definition preview :: "message list \<Rightarrow> conversation \<Rightarrow> contact \<Rightarrow> conversation_list_item" where
  "preview rows c ct = (let m = last_shown (cv_id c) rows in
     \<lparr>ci_conversation = c, ci_display_name = ct_display_name ct,
      ci_last_body = Option.bind m m_body, ci_last_state = map_option m_state m,
      ci_last_direction = map_option m_direction m,
      ci_unread = changes (unread (cv_id c)) rows\<rparr>)"

text \<open>The join with the contacts, newest activity first (equal times in rowid order).\<close>

definition list_with_preview :: "('x db_scheme, failure, conversation_list_item list) prog" where
  "list_with_preview = asks (\<lambda>s.
     sort_key (\<lambda>i. - cv_last_activity (ci_conversation i))
       (concat (map (\<lambda>c. map (preview (db_messages s) c)
          (filter (\<lambda>ct. ct_id ct = cv_contact_id c) (db_contacts s))) (db_conversations s))))"

section \<open>Invariants\<close>

definition evolves :: "message \<Rightarrow> message \<Rightarrow> bool" where
  "evolves m m' \<longleftrightarrow> m_id m' = m_id m \<and> m_conversation_id m' = m_conversation_id m \<and>
     m_direction m' = m_direction m \<and> m_body m' = m_body m \<and> m_logical_id m' = m_logical_id m \<and>
     m_created_at m' = m_created_at m \<and>
     (can_transition_message (m_direction m))\<^sup>*\<^sup>* (m_state m) (m_state m')"

definition messages_ok :: "message list \<Rightarrow> bool" where
  "messages_ok rows \<longleftrightarrow> table_ok m_id m_logical_id rows"

definition history_kept :: "message list \<Rightarrow> message list \<Rightarrow> bool" where
  "history_kept old new \<longleftrightarrow> messages_ok new \<and> (\<forall>m \<in> set old. \<exists>m' \<in> set new. evolves m m')"

lemma evolves_refl [simp]: "evolves m m"
  by (simp add: evolves_def)

lemma evolves_trans: "evolves a b \<Longrightarrow> evolves b c \<Longrightarrow> evolves a c"
  by (auto simp: evolves_def intro: rtranclp_trans)

lemma history_kept_refl [simp]: "history_kept rows rows \<longleftrightarrow> messages_ok rows"
  by (auto simp: history_kept_def intro: evolves_refl)

lemma history_kept_trans: "history_kept a b \<Longrightarrow> history_kept b c \<Longrightarrow> history_kept a c"
  using evolves_trans by (fastforce simp: history_kept_def)

lemma messages_ok_unique_id:
  "messages_ok rows \<Longrightarrow> List.find (\<lambda>m. m_id m = i) rows = Some m \<longleftrightarrow> m \<in> set rows \<and> m_id m = i"
  by (simp add: messages_ok_def table_ok_ids find_key)

lemma messages_ok_unique_logical:
  "messages_ok rows \<Longrightarrow>
     List.find (\<lambda>m. m_logical_id m = l) rows = Some m \<longleftrightarrow> m \<in> set rows \<and> m_logical_id m = l"
  by (simp add: messages_ok_def table_ok_def find_key)

lemma history_kept_append:
  "history_kept old rows \<Longrightarrow> \<not> list_ex (\<lambda>m. m_logical_id m = mi_logical_id inp) rows \<Longrightarrow>
     history_kept old (rows @ [new_message inp t rows])"
  by (auto simp: history_kept_def messages_ok_def new_message_def intro!: table_ok_append)

lemma history_kept_update:
  assumes "history_kept old rows" and "\<And>m. m \<in> set rows \<Longrightarrow> p m \<Longrightarrow> evolves m (f m)"
    and "\<And>m. m_id (f m) = m_id m" and "\<And>m. m_logical_id (f m) = m_logical_id m"
  shows "history_kept old (update_where p f rows)"
proof -
  have "messages_ok rows" using assms(1) by (simp add: history_kept_def)
  then have "messages_ok (update_where p f rows)"
    unfolding messages_ok_def by (rule table_ok_update_where) (simp_all add: assms(3,4))
  moreover have "\<exists>m' \<in> set (update_where p f rows). evolves m m'" if "m \<in> set rows" for m
    using that assms(2) [OF that] by (cases "p m") (auto simp: set_update_where image_iff intro: evolves_refl)
  ultimately have "history_kept rows (update_where p f rows)"
    by (simp add: history_kept_def)
  with assms(1) show ?thesis by (rule history_kept_trans)
qed

text \<open>The state a legal transition writes.\<close>

lemma history_kept_set_state:
  assumes "history_kept old (db_messages s)" and "find_message i s = Some m"
    and "can_transition_message (m_direction m) (m_state m) st"
  shows "history_kept old (db_messages (set_state i st t s))"
proof -
  have ok: "messages_ok (db_messages s)" using assms(1) by (simp add: history_kept_def)
  have "evolves m' (m'\<lparr>m_state := st, m_updated_at := t\<rparr>)"
    if "m' \<in> set (db_messages s)" "m_id m' = i" for m'
  proof -
    have "find_message i s = Some m'" using that ok by (simp add: find_message_def messages_ok_unique_id)
    then have "m' = m" using assms(2) by simp
    with assms(3) show ?thesis by (simp add: evolves_def r_into_rtranclp)
  qed
  with assms(1) show ?thesis by (auto simp: set_state_def intro!: history_kept_update)
qed

subsection \<open>Every operation keeps the history\<close>

abbreviation keeps_history :: "('x db_scheme, failure, 'a) prog \<Rightarrow> bool" where
  "keeps_history m \<equiv> (\<forall>old. keeps (\<lambda>s. history_kept old (db_messages s)) m)"

lemma db_messages_bump [simp]: "db_messages (bump_conversation i t s) = db_messages s"
  by (simp add: bump_conversation_def)

lemma wp_insert_message:
  "wp (insert_message inp) Q E s =
     (case find_by_logical_id (mi_logical_id inp) s of
        Some m \<Rightarrow> Q m s
      | None \<Rightarrow>
          if db_fk s \<and> \<not> list_ex (\<lambda>c. cv_id c = mi_conversation_id inp) (db_conversations s)
          then E SqlError s
          else let m = new_message inp (db_clock s) (db_messages s) in
            Q m (bump_conversation (mi_conversation_id inp)
              (case mi_created_at inp of None \<Rightarrow> db_clock s | Some c \<Rightarrow> c)
              (s\<lparr>db_messages := db_messages s @ [m]\<rparr>)))"
  by (auto simp: insert_message_def wp_rules find_by_logical_id_def find_append new_message_def
      find_None_list_ex [symmetric] Let_def split: option.splits)

lemma find_message_set_state [simp]:
  "find_message i (set_state i st t s)
     = map_option (\<lambda>m. m\<lparr>m_state := st, m_updated_at := t\<rparr>) (find_message i s)"
  by (auto simp: find_message_def set_state_def find_update_where dest: find_some_mem
      split: option.splits intro!: option.map_cong0)

lemma wp_transition_state:
  "wp (transition_state i st) Q E s =
     (case find_message i s of
        None \<Rightarrow> E (Db NotFound) s
      | Some m \<Rightarrow>
          if m_state m = st then Q m s
          else if can_transition_message (m_direction m) (m_state m) st
          then Q (m\<lparr>m_state := st, m_updated_at := db_clock s\<rparr>) (set_state i st (db_clock s) s)
          else E (Db IllegalStateTransition) s)"
  by (auto simp: transition_state_def wp_rules split: option.splits)

lemma insert_keeps_history: "keeps_history (insert_message inp)"
  by (auto intro!: keepsI history_kept_append simp: wp_insert_message Let_def find_by_logical_id_def
      find_None_list_ex split: option.splits)

lemma transition_keeps_history: "keeps_history (transition_state i st)"
  by (auto intro!: keepsI intro: history_kept_set_state simp: wp_transition_state split: option.splits)

lemma set_chain_ref_keeps_history: "keeps_history (set_chain_ref i h n rh rn)"
  by (auto simp: set_chain_ref_def Let_def intro!: keeps_rules)

lemma add_receipt_keeps_history: "keeps_history (add_receipt i kind h st)"
  by (auto simp: add_receipt_def intro!: keeps_rules)

lemma set_envelope_keeps_history: "keeps_history (set_envelope_message_id i h)"
  by (auto simp: set_envelope_message_id_def evolves_def intro!: keeps_rules history_kept_update)

lemma read_keeps_history:
  "keeps_history (get_message i)" "keeps_history (get_by_logical_id l)"
  "keeps_history (get_by_envelope_message_id h)" "keeps_history (list_by_conversation c b n)"
  "keeps_history (list_by_state ss n)" "keeps_history (count_unread c)"
  "keeps_history (get_chain_ref i)" "keeps_history (get_conversation i)"
  "keeps_history list_with_preview"
  by (simp_all add: get_message_def get_by_logical_id_def get_by_envelope_message_id_def
      list_by_conversation_def list_by_state_def count_unread_def get_chain_ref_def
      get_conversation_def list_with_preview_def keeps_asks keeps_ret)

lemma conversation_keeps_history:
  "keeps_history (get_or_create_for_contact c)" "keeps_history (touch_conversation i tm)"
  by (auto simp: get_or_create_for_contact_def insert_conversation_def touch_conversation_def
      intro!: keeps_rules)

lemmas keeps_history_rules = insert_keeps_history transition_keeps_history
  set_chain_ref_keeps_history add_receipt_keeps_history set_envelope_keeps_history
  read_keeps_history conversation_keeps_history

section \<open>Sequences of repository calls\<close>

datatype message_op =
    InsertMessage message_input
  | TransitionState nat mstate
  | SetChainRef nat "string option" "nat option" "string option" "nat option"
  | AddReceipt nat nat "string option" string
  | SetEnvelopeId nat string
  | GetOrCreateConversation nat
  | TouchConversation nat int
  | ClockTo int

fun run_op :: "message_op \<Rightarrow> db \<Rightarrow> db" where
  "run_op (InsertMessage inp) s = snd (insert_message inp s)"
| "run_op (TransitionState i st) s = snd (transition_state i st s)"
| "run_op (SetChainRef i h n rh rn) s = snd (set_chain_ref i h n rh rn s)"
| "run_op (AddReceipt i k h st) s = snd (add_receipt i k h st s)"
| "run_op (SetEnvelopeId i h) s = snd (set_envelope_message_id i h s)"
| "run_op (GetOrCreateConversation c) s = snd (get_or_create_for_contact c s)"
| "run_op (TouchConversation c t) s = snd (touch_conversation c t s)"
| "run_op (ClockTo t) s = s\<lparr>db_clock := t\<rparr>"

definition run_ops :: "message_op list \<Rightarrow> db \<Rightarrow> db" where
  "run_ops ops s = fold run_op ops s"

lemma run_op_history: "history_kept old (db_messages s) \<Longrightarrow> history_kept old (db_messages (run_op op s))"
  using keeps_history_rules [THEN spec [of _ old], THEN keepsD, of s] by (cases op) auto

lemma run_ops_history:
  "history_kept old (db_messages s) \<Longrightarrow> history_kept old (db_messages (run_ops ops s))"
  unfolding run_ops_def by (induction ops arbitrary: s) (auto simp: run_op_history)

lemma messages_ok_empty [simp]: "messages_ok (db_messages empty_db)"
  by (simp add: messages_ok_def empty_db_def)

lemma run_ops_ok: "messages_ok (db_messages (run_ops ops empty_db))"
  using run_ops_history [of "[]" empty_db ops] by (simp add: history_kept_def)

subsection \<open>Pages\<close>

definition conversation_rows :: "nat \<Rightarrow> message list \<Rightarrow> message list" where
  "conversation_rows conv rows = rev (filter (\<lambda>m. m_conversation_id m = conv \<and> shown m) rows)"

lemma list_by_conversation_rows:
  "list_by_conversation conv before limit s = (Inr (take limit
     (filter (\<lambda>m. case before of None \<Rightarrow> True | Some b \<Rightarrow> m_id m < b)
       (conversation_rows conv (db_messages s)))), s)"
  by (auto simp: list_by_conversation_def asks_def conversation_rows_def rev_filter [symmetric]
      conj_commute conj_left_commute)

lemma filter_below_nth:
  assumes "sorted_wrt (\<lambda>a b. idf b < idf a) xs" and "0 < n" and "n \<le> length xs"
  shows "filter (\<lambda>x. idf x < (idf (xs ! (n - 1)) :: nat)) xs = drop n xs"
proof -
  let ?p = "\<lambda>x. idf x < idf (xs ! (n - 1))"
  have lt: "idf (xs ! j) < idf (xs ! i)" if "i < j" "j < length xs" for i j
    using assms(1) that by (simp add: sorted_wrt_iff_nth_less)
  have "\<not> ?p (xs ! i)" if "i < n" for i
  proof (cases "i = n - 1")
    case False
    then have "i < n - 1" "n - 1 < length xs" using that assms(2,3) by auto
    from lt [OF this] show ?thesis by simp
  qed simp
  then have "filter ?p (take n xs) = []"
    by (auto simp: filter_empty_conv in_set_conv_nth)
  moreover have "filter ?p (drop n xs) = drop n xs"
    using lt [of "n - 1"] assms(2) by (auto simp: filter_id_conv in_set_conv_nth)
  ultimately show ?thesis
    by (metis append_Nil append_take_drop_id filter_append)
qed

lemma conversation_rows_sorted:
  "messages_ok rows \<Longrightarrow> sorted_wrt (\<lambda>a b. m_id b < m_id a) (filter p (conversation_rows conv rows))"
  by (simp add: conversation_rows_def messages_ok_def table_ok_def sorted_wrt_rev sorted_wrt_map
      sorted_wrt_filter)

section \<open>Properties\<close>

text \<open>
  C31. Chat history survives: whatever sequence of repository calls follows, with whatever errors
  and clock, every message that was stored is still there with its id, conversation, direction,
  text and idempotency key, and its state is reachable from the old one by legal transitions;
  and no two rows ever share an id or a logical message id.
\<close>

theorem message_history_survives:
  "history_kept (db_messages (run_ops before empty_db))
     (db_messages (run_ops (before @ after) empty_db))"
proof -
  have "history_kept (db_messages (run_ops before empty_db)) (db_messages (run_ops before empty_db))"
    using run_ops_ok by simp
  from run_ops_history [OF this, of after] show ?thesis by (simp add: run_ops_def)
qed

text \<open>
  Inserting is idempotent on the logical message id: once an insert has returned a row, any
  further insert with that id, whatever its other fields, returns the same row and writes
  nothing.
\<close>

theorem insert_message_idempotent:
  assumes "insert_message inp s = (Inr m, s')" and "mi_logical_id again = mi_logical_id inp"
  shows "insert_message again s' = (Inr m, s')"
proof -
  let ?found = "\<lambda>m s. find_by_logical_id (mi_logical_id inp) s = Some m"
  have "wp (insert_message inp) ?found (\<lambda>_ _. True) s"
    by (auto simp: wp_insert_message find_by_logical_id_def find_append new_message_def Let_def
        split: option.splits)
  from wp_result [OF this assms(1)] show ?thesis
    by (intro wp_eqI) (simp add: wp_insert_message assms(2))
qed

theorem insert_message_idempotent_witness:
  "let inp = \<lparr>mi_conversation_id = 1, mi_direction = Outgoing, mi_body = Some ''hi'',
              mi_logical_id = ''a'', mi_state = None, mi_created_at = None\<rparr>;
       again = inp\<lparr>mi_body := Some ''other'', mi_state := Some Failed\<rparr>;
       s = empty_db\<lparr>db_fk := False\<rparr>; s' = snd (insert_message inp s)
   in insert_message again s' = (Inr (hd (db_messages s')), s') \<and> length (db_messages s') = 1"
proof -
  let ?inp = "\<lparr>mi_conversation_id = 1, mi_direction = Outgoing, mi_body = Some ''hi'',
              mi_logical_id = ''a'', mi_state = None, mi_created_at = None\<rparr>"
  let ?s = "empty_db\<lparr>db_fk := False\<rparr>"
  let ?s' = "snd (insert_message ?inp ?s)"
  have run: "insert_message ?inp ?s = (Inr (hd (db_messages ?s')), ?s') \<and> length (db_messages ?s') = 1"
    by (simp add: insert_message_def prog_defs now_def references_def demand_def empty_db_def
        find_by_logical_id_def bump_conversation_def update_where_def new_message_def)
  from insert_message_idempotent [OF conjunct1 [OF run], of "?inp\<lparr>mi_body := Some ''other'', mi_state := Some Failed\<rparr>"]
    conjunct2 [OF run] show ?thesis by (simp add: Let_def)
qed

text \<open>
  Paging backwards through a conversation misses nothing and repeats nothing: a full page
  followed by the page before its last message is the page of the combined size.
\<close>

theorem pages_join:
  assumes ok: "messages_ok (db_messages s)"
    and page: "list_by_conversation conv before n s = (Inr ms, s)" "length ms = n" "0 < n"
    and rest: "list_by_conversation conv (Some (m_id (last ms))) k s = (Inr ms', s)"
  shows "list_by_conversation conv before (n + k) s = (Inr (ms @ ms'), s)"
proof -
  define xs where "xs = filter (\<lambda>m. case before of None \<Rightarrow> True | Some b \<Rightarrow> m_id m < b)
    (conversation_rows conv (db_messages s))"
  have ms: "ms = take n xs" and le: "n \<le> length xs"
    using page by (auto simp: list_by_conversation_rows xs_def)
  have last: "last ms = xs ! (n - 1)"
    using ms le page(3) last_conv_nth [of "take n xs"] by (cases xs) (auto simp: min_def)
  have sorted: "sorted_wrt (\<lambda>a b. m_id b < m_id a) xs"
    unfolding xs_def by (rule conversation_rows_sorted [OF ok])
  have "xs ! (n - 1) \<in> set xs" using le page(3) by simp
  then have "filter (\<lambda>m. m_id m < m_id (last ms)) (conversation_rows conv (db_messages s))
      = filter (\<lambda>m. m_id m < m_id (last ms)) xs"
    by (auto simp: xs_def last filter_filter intro!: filter_cong split: option.splits)
  then have "ms' = take k (drop n xs)"
    using rest filter_below_nth [OF sorted page(3) le] by (simp add: list_by_conversation_rows last)
  then show ?thesis
    by (simp add: list_by_conversation_rows ms take_add flip: xs_def)
qed

definition sample_message :: "nat \<Rightarrow> message" where
  "sample_message i = \<lparr>m_id = i, m_conversation_id = 1, m_direction = Incoming, m_state = Received,
     m_body = None, m_logical_id = replicate i CHR ''x'', m_envelope_id = None,
     m_created_at = 0, m_updated_at = 0\<rparr>"

theorem pages_join_witness:
  "let s = empty_db\<lparr>db_messages := map sample_message [1, 2, 3]\<rparr> in
   list_by_conversation 1 None (1 + 2) s = (Inr ([sample_message 3] @ map sample_message [2, 1]), s)"
  unfolding Let_def
  by (rule pages_join)
    (simp_all add: messages_ok_def table_ok_def sample_message_def list_by_conversation_def asks_def
      shown_def like_prefix_def ascii_lower_def numeral_2_eq_2 numeral_3_eq_3)

end
