(* ===== verification/Cemp_Journal.thy ===== *)
theory Cemp_Journal
  imports Cemp_Messages
begin

text \<open>
  packages/cemp-database/src/repositories/outgoing-transactions.ts and watched-outpoints.ts: the
  journal of broadcast transactions and the outpoints whose spending is watched.

  The journal is keyed by the transaction hash. Its two guarantees are that recording a
  transaction again changes nothing, and that of several callers who compare-and-swap the same
  state transition exactly one sees a changed row.
\<close>

section \<open>Outgoing transactions\<close>

record tx_input =
  ti_hash :: string
  ti_purpose :: string
  ti_state :: string
  ti_fee :: "int option"
  ti_submitted_at :: "int option"
  ti_capacity :: "int option"
  ti_hex :: "string option"

definition find_tx :: "string \<Rightarrow> 'x db_scheme \<Rightarrow> outgoing_tx option" where
  "find_tx h s = List.find (\<lambda>r. tx_hash r = h) (db_txs s)"

definition new_tx :: "tx_input \<Rightarrow> outgoing_tx list \<Rightarrow> outgoing_tx" where
  "new_tx inp rows = \<lparr>tx_id = next_id tx_id rows, tx_hash = ti_hash inp, tx_purpose = ti_purpose inp,
     tx_state = ti_state inp, tx_fee = ti_fee inp, tx_submitted_at = ti_submitted_at inp,
     tx_committed_at = None, tx_block_hash = None, tx_capacity = ti_capacity inp, tx_hex = ti_hex inp\<rparr>"

definition record_tx :: "tx_input \<Rightarrow> ('x db_scheme, failure, outgoing_tx) prog" where
  "record_tx inp =
     andthen (modify (\<lambda>s. s\<lparr>db_txs :=
       insert_or_ignore (\<lambda>r. tx_hash r = ti_hash inp) (new_tx inp (db_txs s)) (db_txs s)\<rparr>)) (\<lambda>_.
     demand (Db AdapterError) (find_tx (ti_hash inp)))"

definition get_tx :: "string \<Rightarrow> ('x db_scheme, failure, outgoing_tx option) prog" where
  "get_tx h = asks (find_tx h)"

definition latest_tx :: "(outgoing_tx \<Rightarrow> bool) \<Rightarrow> 'x db_scheme \<Rightarrow> outgoing_tx option" where
  "latest_tx p s = List.find p (rev (db_txs s))"

definition find_latest_by_purpose :: "string \<Rightarrow> ('x db_scheme, failure, outgoing_tx option) prog" where
  "find_latest_by_purpose purpose = asks (latest_tx (\<lambda>r. tx_purpose r = purpose))"

definition find_latest_by_purpose_prefix ::
  "string \<Rightarrow> ('x db_scheme, failure, outgoing_tx option) prog" where
  "find_latest_by_purpose_prefix prefix = asks (latest_tx (\<lambda>r. like_prefix prefix (tx_purpose r)))"

text \<open>The \<open>SET\<close> clause that both transitions share; \<open>COALESCE\<close> keeps the old value.\<close>

definition tx_patch :: "string \<Rightarrow> int option \<Rightarrow> string option \<Rightarrow> outgoing_tx \<Rightarrow> outgoing_tx" where
  "tx_patch st committed block r = r\<lparr>tx_state := st,
     tx_committed_at := (case committed of None \<Rightarrow> tx_committed_at r | Some t \<Rightarrow> Some t),
     tx_block_hash := (case block of None \<Rightarrow> tx_block_hash r | Some b \<Rightarrow> Some b)\<rparr>"

definition update_txs ::
  "(outgoing_tx \<Rightarrow> bool) \<Rightarrow> (outgoing_tx \<Rightarrow> outgoing_tx) \<Rightarrow> ('x db_scheme, failure, nat) prog" where
  "update_txs p f = andthen (asks (\<lambda>s. changes p (db_txs s))) (\<lambda>n.
     andthen (modify (\<lambda>s. s\<lparr>db_txs := update_where p f (db_txs s)\<rparr>)) (\<lambda>_. ret n))"

definition mark_tx_state ::
  "string \<Rightarrow> string \<Rightarrow> int option \<Rightarrow> string option \<Rightarrow> ('x db_scheme, failure, unit) prog" where
  "mark_tx_state h st committed block =
     andthen (update_txs (\<lambda>r. tx_hash r = h) (tx_patch st committed block)) (\<lambda>n.
     when_do (n = 0) (throw (Db NotFound)))"

definition mark_tx_state_if ::
  "string \<Rightarrow> string \<Rightarrow> string \<Rightarrow> int option \<Rightarrow> string option \<Rightarrow> ('x db_scheme, failure, nat) prog" where
  "mark_tx_state_if h expected st committed block =
     update_txs (\<lambda>r. tx_hash r = h \<and> tx_state r = expected) (tx_patch st committed block)"

definition list_txs_by_state :: "string \<Rightarrow> nat \<Rightarrow> ('x db_scheme, failure, outgoing_tx list) prog" where
  "list_txs_by_state st limit = asks (\<lambda>s. take limit (filter (\<lambda>r. tx_state r = st) (db_txs s)))"

section \<open>Watched outpoints\<close>

definition watch_of :: "string \<Rightarrow> nat \<Rightarrow> watched_outpoint \<Rightarrow> bool" where
  "watch_of h n r \<longleftrightarrow> wo_tx_hash r = h \<and> wo_index r = n"

definition find_watch :: "string \<Rightarrow> nat \<Rightarrow> 'x db_scheme \<Rightarrow> watched_outpoint option" where
  "find_watch h n s = List.find (watch_of h n) (db_watches s)"

definition new_watch ::
  "string \<Rightarrow> nat \<Rightarrow> string \<Rightarrow> nat option \<Rightarrow> int \<Rightarrow> watched_outpoint list \<Rightarrow> watched_outpoint" where
  "new_watch h n purpose grp t rows =
     \<lparr>wo_id = next_id wo_id rows, wo_tx_hash = h, wo_index = n, wo_purpose = purpose,
      wo_status = Watching, wo_spent_by = None, wo_reclaim_group = grp, wo_created_at = t,
      wo_spent_at = None\<rparr>"

definition register_watch ::
  "string \<Rightarrow> nat \<Rightarrow> string \<Rightarrow> nat option \<Rightarrow> ('x db_scheme, failure, watched_outpoint) prog" where
  "register_watch h n purpose grp = andthen now (\<lambda>t.
     andthen (asks (\<lambda>s. list_ex (watch_of h n) (db_watches s))) (\<lambda>dup.
     andthen (when_do (\<not> dup)
       (andthen (references (\<lambda>s. case grp of None \<Rightarrow> True | Some g \<Rightarrow> g \<in> set (db_reclaim_groups s)))
       (\<lambda>_. modify (\<lambda>s. s\<lparr>db_watches := db_watches s @ [new_watch h n purpose grp t (db_watches s)]\<rparr>))))
     (\<lambda>_. demand (Db AdapterError) (find_watch h n))))"

definition mark_spent :: "string \<Rightarrow> nat \<Rightarrow> string \<Rightarrow> ('x db_scheme, failure, watched_outpoint) prog" where
  "mark_spent h n by_hash = atomically
     (andthen (demand (Db NotFound) (find_watch h n)) (\<lambda>current.
      if wo_status current = Spent
      then (if wo_spent_by current = Some by_hash then ret current else throw (Db ConstraintViolation))
      else andthen now (\<lambda>t.
        andthen (modify (\<lambda>s. s\<lparr>db_watches := update_where (watch_of h n)
          (\<lambda>r. r\<lparr>wo_status := Spent, wo_spent_by := Some by_hash, wo_spent_at := Some t\<rparr>)
          (db_watches s)\<rparr>)) (\<lambda>_.
        demand (Db AdapterError) (find_watch h n)))))"

definition list_active :: "('x db_scheme, failure, watched_outpoint list) prog" where
  "list_active = asks (\<lambda>s. filter (\<lambda>r. wo_status r = Watching) (db_watches s))"

definition list_by_reclaim_group :: "nat \<Rightarrow> ('x db_scheme, failure, watched_outpoint list) prog" where
  "list_by_reclaim_group g = asks (\<lambda>s. filter (\<lambda>r. wo_reclaim_group r = Some g) (db_watches s))"

definition prune_spent :: "('x db_scheme, failure, nat) prog" where
  "prune_spent = andthen (asks (\<lambda>s. changes (\<lambda>r. wo_status r = Spent) (db_watches s))) (\<lambda>n.
     andthen (modify (\<lambda>s. s\<lparr>db_watches := filter (\<lambda>r. wo_status r \<noteq> Spent) (db_watches s)\<rparr>)) (\<lambda>_. ret n))"

section \<open>Lemmas\<close>

abbreviation journal_ok :: "'x db_scheme \<Rightarrow> bool" where
  "journal_ok s \<equiv> table_ok tx_id tx_hash (db_txs s)"

abbreviation watches_ok :: "'x db_scheme \<Rightarrow> bool" where
  "watches_ok s \<equiv> table_ok wo_id (\<lambda>r. (wo_tx_hash r, wo_index r)) (db_watches s)"

lemma tx_patch_simps [simp]:
  "tx_id (tx_patch st c b r) = tx_id r" "tx_hash (tx_patch st c b r) = tx_hash r"
  "tx_state (tx_patch st c b r) = st" "tx_purpose (tx_patch st c b r) = tx_purpose r"
  "tx_capacity (tx_patch st c b r) = tx_capacity r" "tx_fee (tx_patch st c b r) = tx_fee r"
  "tx_hex (tx_patch st c b r) = tx_hex r"
  by (simp_all add: tx_patch_def)

lemma wp_update_txs [wp_rules]:
  "wp (update_txs p f) Q E s =
     Q (changes p (db_txs s)) (s\<lparr>db_txs := update_where p f (db_txs s)\<rparr>)"
  by (simp add: update_txs_def wp_rules)

lemma keeps_update_txs:
  "(\<And>s. I s \<Longrightarrow> I (s\<lparr>db_txs := update_where p f (db_txs s)\<rparr>)) \<Longrightarrow> keeps I (update_txs p f)"
  by (auto simp: update_txs_def intro!: keeps_rules)

lemma wp_record_tx [wp_rules]:
  "wp (record_tx inp) Q E s = (case find_tx (ti_hash inp) s of
       Some r \<Rightarrow> Q r s
     | None \<Rightarrow> (let r = new_tx inp (db_txs s) in Q r (s\<lparr>db_txs := db_txs s @ [r]\<rparr>)))"
proof (cases "find_tx (ti_hash inp) s")
  case None
  then have "\<not> list_ex (\<lambda>r. tx_hash r = ti_hash inp) (db_txs s)"
    by (simp add: find_tx_def find_None_list_ex)
  with None show ?thesis
    by (simp add: record_tx_def wp_rules find_tx_def insert_or_ignore_def find_append new_tx_def Let_def)
next
  case (Some r)
  then have "list_ex (\<lambda>r. tx_hash r = ti_hash inp) (db_txs s)"
    using find_None_list_ex [of "\<lambda>r. tx_hash r = ti_hash inp" "db_txs s"] by (auto simp: find_tx_def)
  with Some show ?thesis
    by (simp add: record_tx_def wp_rules find_tx_def insert_or_ignore_def)
qed

lemma record_keeps_journal: "keeps journal_ok (record_tx inp)"
  by (auto intro!: keepsI table_ok_append simp: wp_record_tx Let_def find_tx_def find_None_list_ex
      new_tx_def split: option.splits)

lemma mark_keeps_journal:
  "keeps journal_ok (mark_tx_state h st c b)" "keeps journal_ok (mark_tx_state_if h e st c b)"
  by (auto simp: mark_tx_state_def mark_tx_state_if_def intro!: keeps_rules keeps_update_txs
      table_ok_update_where)

text \<open>The journal and the watches never touch the messages.\<close>

lemma journal_keeps_history:
  "keeps_history (record_tx inp)" "keeps_history (mark_tx_state h st c b)"
  "keeps_history (mark_tx_state_if h e st c b)" "keeps_history (get_tx h)"
  "keeps_history (find_latest_by_purpose p)" "keeps_history (find_latest_by_purpose_prefix p)"
  "keeps_history (list_txs_by_state st n)"
  by (auto simp: record_tx_def mark_tx_state_def mark_tx_state_if_def get_tx_def
      find_latest_by_purpose_def find_latest_by_purpose_prefix_def list_txs_by_state_def
      intro!: keeps_rules keeps_update_txs)

lemma watch_keeps_history:
  "keeps_history (register_watch h n p g)" "keeps_history (mark_spent h n b)"
  "keeps_history list_active" "keeps_history prune_spent" "keeps_history (list_by_reclaim_group k)"
  by (auto simp: register_watch_def mark_spent_def list_active_def prune_spent_def
      list_by_reclaim_group_def intro!: keeps_rules)

lemma find_latest_mem: "latest_tx p s = Some r \<Longrightarrow> r \<in> set (db_txs s) \<and> p r"
  by (auto simp: latest_tx_def dest: find_some_mem)

subsection \<open>What is journaled stays journaled\<close>

definition tx_evolves :: "outgoing_tx \<Rightarrow> outgoing_tx \<Rightarrow> bool" where
  "tx_evolves r r' \<longleftrightarrow> tx_id r' = tx_id r \<and> tx_hash r' = tx_hash r \<and> tx_purpose r' = tx_purpose r \<and>
     tx_fee r' = tx_fee r \<and> tx_submitted_at r' = tx_submitted_at r \<and>
     tx_capacity r' = tx_capacity r \<and> tx_hex r' = tx_hex r"

definition journal_kept :: "outgoing_tx list \<Rightarrow> outgoing_tx list \<Rightarrow> bool" where
  "journal_kept old new \<longleftrightarrow> table_ok tx_id tx_hash new \<and>
     (\<forall>r \<in> set old. \<exists>r' \<in> set new. tx_evolves r r')"

lemma tx_evolves_refl [simp]: "tx_evolves r r"
  by (simp add: tx_evolves_def)

lemma tx_evolves_trans: "tx_evolves a b \<Longrightarrow> tx_evolves b c \<Longrightarrow> tx_evolves a c"
  by (simp add: tx_evolves_def)

lemma tx_evolves_patch [simp]: "tx_evolves r (tx_patch st c b r')= tx_evolves r r'"
  by (simp add: tx_evolves_def tx_patch_def)

lemma journal_kept_refl [simp]: "journal_kept rows rows \<longleftrightarrow> table_ok tx_id tx_hash rows"
  by (auto simp: journal_kept_def intro: tx_evolves_refl)

lemma journal_kept_append:
  "journal_kept old rows \<Longrightarrow> \<not> list_ex (\<lambda>r. tx_hash r = ti_hash inp) rows \<Longrightarrow>
     journal_kept old (rows @ [new_tx inp rows])"
  by (auto simp: journal_kept_def new_tx_def intro!: table_ok_append)

lemma journal_kept_patch:
  assumes "journal_kept old rows"
  shows "journal_kept old (update_where p (tx_patch st c b) rows)"
proof -
  have "\<exists>r' \<in> set (update_where p (tx_patch st c b) rows). tx_evolves r r'"
    if "r \<in> set old" for r
  proof -
    have "\<exists>r' \<in> set rows. tx_evolves r r'"
      using that assms unfolding journal_kept_def by blast
    then obtain r' where r': "r' \<in> set rows" "tx_evolves r r'" by blast
    then have "tx_evolves r (if p r' then tx_patch st c b r' else r')" by simp
    with r'(1) show ?thesis unfolding set_update_where by blast
  qed
  with assms show ?thesis
    by (simp add: journal_kept_def table_ok_update_where)
qed

abbreviation keeps_journal :: "('x db_scheme, failure, 'a) prog \<Rightarrow> bool" where
  "keeps_journal m \<equiv> (\<forall>old. keeps (\<lambda>s. journal_kept old (db_txs s)) m)"

lemma record_tx_keeps_journal: "keeps_journal (record_tx inp)"
  by (auto intro!: keepsI journal_kept_append simp: wp_record_tx Let_def find_tx_def
      find_None_list_ex split: option.splits)

lemma mark_tx_keeps_journal:
  "keeps_journal (mark_tx_state h st c b)" "keeps_journal (mark_tx_state_if h e st c b)"
  by (auto simp: mark_tx_state_def mark_tx_state_if_def intro!: keeps_rules keeps_update_txs
      journal_kept_patch)

lemma find_tx_journal:
  "table_ok tx_id tx_hash (db_txs s) \<Longrightarrow>
     find_tx h s = Some r \<longleftrightarrow> r \<in> set (db_txs s) \<and> tx_hash r = h"
  by (simp add: find_tx_def table_ok_def find_key)

lemma changes_one:
  "distinct (map k rows) \<Longrightarrow> r \<in> set rows \<Longrightarrow> k r = x \<Longrightarrow> q r \<Longrightarrow>
     changes (\<lambda>r. k r = x \<and> q r) rows = 1"
  using changes_unique [of k rows x q] changes_zero [of "\<lambda>r. k r = x \<and> q r" rows]
  by (auto simp: list_ex_iff le_Suc_eq)

lemma find_tx_patched:
  "find_tx h (s\<lparr>db_txs := update_where p (tx_patch st c b) (db_txs s)\<rparr>)
     = map_option (\<lambda>r. if p r then tx_patch st c b r else r) (find_tx h s)"
  by (simp add: find_tx_def find_update_where)

lemma losers:
  assumes "table_ok tx_id tx_hash (db_txs s)" and "find_tx h s = Some r" and "tx_state r \<noteq> e"
  shows "map_prog (\<lambda>c. mark_tx_state_if h e st (Some c) None) cs s = (Inr (replicate (length cs) 0), s)"
proof (induction cs)
  case (Cons c cs)
  have "tx_state r' \<noteq> e" if "r' \<in> set (db_txs s)" "tx_hash r' = h" for r'
  proof -
    have "find_tx h s = Some r'" using that assms(1) by (simp add: find_tx_journal)
    with assms(2,3) show ?thesis by simp
  qed
  then have none: "\<not> list_ex (\<lambda>r. tx_hash r = h \<and> tx_state r = e) (db_txs s)"
    by (auto simp: list_ex_iff)
  have "mark_tx_state_if h e st (Some c) None s = (Inr 0, s)"
    using none changes_zero [of "\<lambda>r. tx_hash r = h \<and> tx_state r = e" "db_txs s"]
    by (intro wp_eqI) (simp add: mark_tx_state_if_def wp_rules)
  with Cons show ?case by (simp add: prog_defs)
qed (simp add: prog_defs)

section \<open>Properties\<close>

text \<open>
  C28. Exactly one caller wins a commit: when several callers compare-and-swap a journaled
  transaction from the same state, the first sees one changed row and its commit time is the one
  recorded, and every other caller sees none.
\<close>

theorem one_commit_winner:
  assumes ok: "table_ok tx_id tx_hash (db_txs s)" and r: "find_tx h s = Some r" "tx_state r = e"
    and st: "st \<noteq> e"
  shows "\<exists>s' r'. map_prog (\<lambda>c. mark_tx_state_if h e st (Some c) None) (c # cs) s
      = (Inr (1 # replicate (length cs) 0), s')
    \<and> find_tx h s' = Some r' \<and> tx_state r' = st \<and> tx_committed_at r' = Some c"
proof -
  let ?p = "\<lambda>r. tx_hash r = h \<and> tx_state r = e"
  let ?s = "s\<lparr>db_txs := update_where ?p (tx_patch st (Some c) None) (db_txs s)\<rparr>"
  have mem: "r \<in> set (db_txs s)" "tx_hash r = h" using ok r(1) by (simp_all add: find_tx_journal)
  have "changes ?p (db_txs s) = 1"
    using ok mem r(2) by (intro changes_one) (auto simp: table_ok_def)
  then have win: "mark_tx_state_if h e st (Some c) None s = (Inr 1, ?s)"
    by (intro wp_eqI) (simp add: mark_tx_state_if_def wp_rules)
  have found: "find_tx h ?s = Some (tx_patch st (Some c) None r)"
    using r mem(2) by (simp add: find_tx_patched)
  have "table_ok tx_id tx_hash (db_txs ?s)"
    using ok by (simp add: table_ok_update_where)
  from losers [OF this found] st
  have "map_prog (\<lambda>c. mark_tx_state_if h e st (Some c) None) cs ?s
      = (Inr (replicate (length cs) 0), ?s)" by simp
  with win have "map_prog (\<lambda>c. mark_tx_state_if h e st (Some c) None) (c # cs) s
      = (Inr (1 # replicate (length cs) 0), ?s)"
    by (simp add: andthen_def ret_def)
  then show ?thesis using found by (simp add: tx_patch_def)
qed

definition sample_tx :: tx_input where
  "sample_tx = \<lparr>ti_hash = ''0x1'', ti_purpose = ''reclaim:7'', ti_state = ''submitted'',
     ti_fee = Some 10, ti_submitted_at = Some 5, ti_capacity = Some 100, ti_hex = Some ''{}''\<rparr>"

theorem one_commit_winner_witness:
  "fst (map_prog (\<lambda>c. mark_tx_state_if ''0x1'' ''submitted'' ''committed'' (Some c) None) [8, 9, 9]
     (empty_db\<lparr>db_txs := [new_tx sample_tx []]\<rparr>)) = Inr [1, 0, 0]"
proof -
  let ?s = "empty_db\<lparr>db_txs := [new_tx sample_tx []]\<rparr>"
  have "table_ok tx_id tx_hash (db_txs ?s)" by (simp add: table_ok_def)
  moreover have "find_tx ''0x1'' ?s = Some (new_tx sample_tx [])"
    by (simp add: find_tx_def new_tx_def sample_tx_def)
  moreover have "tx_state (new_tx sample_tx []) = ''submitted''"
    by (simp add: new_tx_def sample_tx_def)
  ultimately obtain s' where
    "map_prog (\<lambda>c. mark_tx_state_if ''0x1'' ''submitted'' ''committed'' (Some c) None) (8 # [9, 9]) ?s
      = (Inr (1 # replicate (length [9 :: int, 9]) 0), s')"
    using one_commit_winner [of ?s "''0x1''" "new_tx sample_tx []" "''submitted''" "''committed''" 8 "[9, 9]"]
    by auto
  then show ?thesis by (simp add: numeral_2_eq_2)
qed

text \<open>
  The first recorded spender of a watched outpoint is final: marking it again with the same
  transaction is a no-op, with another one an error that changes nothing, and registering the
  outpoint again does not revive the watch.
\<close>

theorem spender_is_final:
  assumes "mark_spent h n a s = (Inr w, s')"
  shows "wo_status w = Spent \<and> wo_spent_by w = Some a
    \<and> mark_spent h n a s' = (Inr w, s')
    \<and> (b \<noteq> a \<longrightarrow> mark_spent h n b s' = (Inl (Db ConstraintViolation), s'))
    \<and> register_watch h n purpose grp s' = (Inr w, s')"
proof -
  let ?post = "\<lambda>w s. find_watch h n s = Some w \<and> wo_status w = Spent \<and> wo_spent_by w = Some a"
  have found: "find_watch h n (s\<lparr>db_watches := update_where (watch_of h n)
      (\<lambda>r. r\<lparr>wo_status := Spent, wo_spent_by := Some a, wo_spent_at := Some t\<rparr>) (db_watches s)\<rparr>)
    = map_option (\<lambda>r. r\<lparr>wo_status := Spent, wo_spent_by := Some a, wo_spent_at := Some t\<rparr>) (find_watch h n s)"
    for t
    by (auto simp: find_watch_def find_update_where watch_of_def dest: find_some_mem
        split: option.splits intro!: option.map_cong0)
  have "wp (mark_spent h n a) ?post (\<lambda>_ _. True) s"
    by (auto simp: mark_spent_def wp_rules found split: option.splits)
  from wp_result [OF this assms] have post: "?post w s'" .
  then have "list_ex (watch_of h n) (db_watches s')"
    using find_None_list_ex [of "watch_of h n" "db_watches s'"] by (auto simp: find_watch_def)
  then have "register_watch h n purpose grp s' = (Inr w, s')"
    using post by (intro wp_eqI) (simp add: register_watch_def wp_rules)
  moreover have "mark_spent h n a s' = (Inr w, s')"
    using post by (intro wp_eqI) (simp add: mark_spent_def wp_rules)
  moreover have "b \<noteq> a \<longrightarrow> mark_spent h n b s' = (Inl (Db ConstraintViolation), s')"
    using post by (auto intro!: wp_eqI simp: mark_spent_def wp_rules)
  ultimately show ?thesis using post by simp
qed

theorem spender_is_final_witness:
  "let s = empty_db\<lparr>db_watches := [new_watch ''0xa'' 0 ''p'' None 1 []]\<rparr>;
       s' = snd (mark_spent ''0xa'' 0 ''0xb'' s)
   in fst (mark_spent ''0xa'' 0 ''0xc'' s') = Inl (Db ConstraintViolation)"
proof -
  let ?s = "empty_db\<lparr>db_watches := [new_watch ''0xa'' 0 ''p'' None 1 []]\<rparr>"
  obtain w where "mark_spent ''0xa'' 0 ''0xb'' ?s = (Inr w, snd (mark_spent ''0xa'' 0 ''0xb'' ?s))"
    by (simp add: mark_spent_def prog_defs demand_def now_def find_watch_def watch_of_def
        new_watch_def update_where_def)
  from spender_is_final [OF this, of "''0xc''"] show ?thesis by (simp add: Let_def)
qed

end
