(* ===== verification/Cemp_Text.thy ===== *)
theory Cemp_Text
  imports Cemp_Bytes
begin

text \<open>
  Text that the program writes and reads back: decimal numbers, comma-separated lists of ids, and
  the substring tests it applies to error messages.

  \<open>Number(text)\<close> is modelled on decimal digit strings; the other spellings JavaScript accepts
  (blanks, hexadecimal, exponents, fractions) are never written by the code that is read back
  here, and are malformed in the model.
\<close>

section \<open>Decimal numbers\<close>

definition digit_char :: "nat \<Rightarrow> char" where
  "digit_char d = char_of (48 + d)"

definition digit_value :: "char \<Rightarrow> nat option" where
  "digit_value c = (let n = of_char c :: nat in if 48 \<le> n \<and> n \<le> 57 then Some (n - 48) else None)"

fun decimal :: "nat \<Rightarrow> string" where
  "decimal n = (if n < 10 then [digit_char n] else decimal (n div 10) @ [digit_char (n mod 10)])"

declare decimal.simps [simp del]

fun parse_digits :: "nat \<Rightarrow> string \<Rightarrow> nat option" where
  "parse_digits acc [] = Some acc"
| "parse_digits acc (c # cs) = (case digit_value c of
     None \<Rightarrow> None | Some d \<Rightarrow> parse_digits (10 * acc + d) cs)"

definition parse_decimal :: "string \<Rightarrow> nat option" where
  "parse_decimal t = (if t = [] then None else parse_digits 0 t)"

lemma digit_value_char [simp]: "d < 10 \<Longrightarrow> digit_value (digit_char d) = Some d"
  by (simp add: digit_value_def digit_char_def)

lemma digit_char_plain: "d < 10 \<Longrightarrow> CHR '','' \<noteq> digit_char d"
proof
  assume d: "d < 10" and "CHR '','' = digit_char d"
  then have "digit_value CHR '','' = Some d" by simp
  then show False by (simp add: digit_value_def)
qed

lemma parse_digits_append:
  "parse_digits acc (xs @ ys) = Option.bind (parse_digits acc xs) (\<lambda>a. parse_digits a ys)"
  by (induction xs arbitrary: acc) (auto split: option.splits)

lemma parse_digits_decimal: "parse_digits 0 (decimal n) = Some n"
proof (induction n rule: decimal.induct)
  case (1 n)
  show ?case
  proof (cases "n < 10")
    case True
    then show ?thesis by (simp add: decimal.simps [of n])
  next
    case False
    with 1 show ?thesis by (simp add: decimal.simps [of n] parse_digits_append)
  qed
qed

lemma decimal_nonempty [simp]: "decimal n \<noteq> []"
  by (simp add: decimal.simps)

lemma parse_decimal_decimal [simp]: "parse_decimal (decimal n) = Some n"
  by (simp add: parse_decimal_def parse_digits_decimal)

lemma decimal_plain: "CHR '','' \<notin> set (decimal n)"
proof (induction n rule: decimal.induct)
  case (1 n)
  then show ?case
    by (cases "n < 10") (simp_all add: decimal.simps [of n] digit_char_plain)
qed

lemma decimal_inject [simp]: "decimal m = decimal n \<longleftrightarrow> m = n"
  by (metis parse_decimal_decimal option.inject)

section \<open>Splitting at a character\<close>

fun split_on :: "char \<Rightarrow> string \<Rightarrow> string list" where
  "split_on c [] = [[]]"
| "split_on c (x # xs) = (if x = c then [] # split_on c xs
     else (case split_on c xs of [] \<Rightarrow> [[x]] | w # ws \<Rightarrow> (x # w) # ws))"

lemma split_on_plain: "c \<notin> set w \<Longrightarrow> split_on c w = [w]"
  by (induction w) auto

lemma split_on_append: "c \<notin> set w \<Longrightarrow> split_on c (w @ c # rest) = w # split_on c rest"
  by (induction w) (auto split: list.splits)

lemma split_join:
  "ws \<noteq> [] \<Longrightarrow> \<forall>w \<in> set ws. c \<notin> set w \<Longrightarrow> split_on c (join_with [c] ws) = ws"
  by (induction "[c]" ws rule: join_with.induct) (auto simp: split_on_plain split_on_append)

section \<open>Substrings\<close>

fun contains :: "string \<Rightarrow> string \<Rightarrow> bool" where
  "contains sub [] \<longleftrightarrow> sub = []"
| "contains sub (c # cs) \<longleftrightarrow> take (length sub) (c # cs) = sub \<or> contains sub cs"

definition drop_prefix :: "string \<Rightarrow> string \<Rightarrow> string option" where
  "drop_prefix p t = (if starts_with t p then Some (drop (length p) t) else None)"

lemma drop_prefix_append [simp]: "drop_prefix p (p @ t) = Some t"
  by (simp add: drop_prefix_def starts_with_def)

end
