(* ===== verification/Cemp_Monitor.thy ===== *)
theory Cemp_Monitor
  imports Cemp_Journal Cemp_Text
begin

text \<open>
  packages/cemp-ckb/src/monitor.ts over an arbitrary chain client.

  A \<open>world\<close> is a database together with the environment \<open>'w\<close> of the device: the network, the
  node, the wallet. A call of the chain client is a function of the environment that yields its
  result, the environment left behind and the milliseconds it took; nothing is assumed about the
  results, so every theorem holds for a hostile or failing node. Such a call cannot touch the
  database, and a repository operation cannot touch the environment.

  The polling loop is bounded by fuel: a round sleeps at least one millisecond of a deadline that
  does not move, so \<open>Suc (nat timeout)\<close> rounds are enough (\<open>waiting_ends\<close>).
\<close>

section \<open>The environment\<close>

record 'w world = db +
  env :: 'w

type_synonym ('w, 'a) env_call = "'w \<Rightarrow> (failure + 'a) \<times> 'w \<times> nat"

definition on_env :: "('w, 'a) env_call \<Rightarrow> ('w world, failure, 'a) prog" where
  "on_env f = (\<lambda>s. case f (env s) of (r, w, elapsed) \<Rightarrow>
     (r, s\<lparr>db_clock := db_clock s + int elapsed, env := w\<rparr>))"

datatype tx_status =
    TxSent | TxPending | TxProposed
  | TxCommitted string string
  | TxRejected "string option"
  | TxUnknown

fun status_name :: "tx_status \<Rightarrow> string" where
  "status_name TxSent = ''sent''"
| "status_name TxPending = ''pending''"
| "status_name TxProposed = ''proposed''"
| "status_name (TxCommitted _ _) = ''committed''"
| "status_name (TxRejected _) = ''rejected''"
| "status_name TxUnknown = ''unknown''"

record cell =
  cell_tx_hash :: string
  cell_index :: nat
  cell_capacity :: int

datatype cell_status = LiveCell cell | DeadCell | UnknownCell

text \<open>The chain client and the transaction pool of the signer, as far as the pipelines use them.
  \<open>'tx\<close> is the wire transaction; \<open>parse_tx\<close> and \<open>stringify_tx\<close> are JSON on it.\<close>

record ('w, 'tx) chain_client =
  cl_get_transaction :: "string \<Rightarrow> ('w, tx_status) env_call"
  cl_get_live_cell :: "string \<Rightarrow> nat \<Rightarrow> ('w, cell_status) env_call"
  cl_send_transaction :: "'tx \<Rightarrow> ('w, string) env_call"
  cl_track_spend :: "'tx \<Rightarrow> ('w, unit) env_call"
  cl_parse_tx :: "string \<Rightarrow> failure + 'tx"
  cl_stringify_tx :: "'tx \<Rightarrow> string"

definition lift_result :: "failure + 'a \<Rightarrow> ('s, failure, 'a) prog" where
  "lift_result r = (case r of Inl e \<Rightarrow> throw e | Inr x \<Rightarrow> ret x)"

text \<open>\<open>setTimeout\<close>: the timer fires no earlier than asked.\<close>

definition sleep :: "int \<Rightarrow> ('w world, failure, unit) prog" where
  "sleep ms = modify (\<lambda>s. s\<lparr>db_clock := db_clock s + max 0 ms\<rparr>)"

section \<open>Waiting for a commit\<close>

record commit_result =
  co_tx_hash :: string
  co_block_hash :: string
  co_block_number :: string

definition timed_out_message :: "int \<Rightarrow> tx_status \<Rightarrow> string" where
  "timed_out_message timeout st = ''timed out after '' @ decimal (nat ((timeout + 500) div 1000))
     @ ''s waiting for commit (last status: '' @ status_name st @ '')''"

definition rejected_message :: "string option \<Rightarrow> string" where
  "rejected_message reason = ''transaction was rejected''
     @ (case reason of None \<Rightarrow> [] | Some r \<Rightarrow> '': '' @ r)"

text \<open>One poll: a result, an error, or \<open>None\<close> to sleep and poll again.\<close>

definition poll_commit ::
  "('w, 'tx) chain_client \<Rightarrow> string \<Rightarrow> int \<Rightarrow> int \<Rightarrow> int \<Rightarrow> ('w world, failure, commit_result option) prog" where
  "poll_commit client h timeout interval deadline =
     andthen (on_env (cl_get_transaction client h)) (\<lambda>status. case status of
       TxCommitted block number \<Rightarrow>
         ret (Some \<lparr>co_tx_hash = h, co_block_hash = block, co_block_number = number\<rparr>)
     | TxRejected reason \<Rightarrow> throw (CkbError ''monitor'' (rejected_message reason))
     | _ \<Rightarrow> andthen now (\<lambda>t.
         let remaining = deadline - t in
         if remaining \<le> 0 then throw (CkbError ''monitor'' (timed_out_message timeout status))
         else andthen (sleep (min interval remaining)) (\<lambda>_. ret None)))"

fun wait_loop ::
  "nat \<Rightarrow> ('w, 'tx) chain_client \<Rightarrow> string \<Rightarrow> int \<Rightarrow> int \<Rightarrow> int \<Rightarrow>
     ('w world, failure, commit_result option) prog" where
  "wait_loop 0 client h timeout interval deadline = ret None"
| "wait_loop (Suc fuel) client h timeout interval deadline =
     andthen (poll_commit client h timeout interval deadline) (\<lambda>r. case r of
       Some c \<Rightarrow> ret (Some c)
     | None \<Rightarrow> wait_loop fuel client h timeout interval deadline)"

definition default_timeout_ms :: int where
  "default_timeout_ms = 180000"

definition default_poll_ms :: int where
  "default_poll_ms = 4000"

text \<open>The pipelines pass a deadline at most, so the interval is always the default one. The error
  for exhausted fuel is never raised.\<close>

definition out_of_fuel :: failure where
  "out_of_fuel = OtherError ''out of fuel''"

definition wait_for_commit ::
  "('w, 'tx) chain_client \<Rightarrow> string \<Rightarrow> int option \<Rightarrow> ('w world, failure, commit_result) prog" where
  "wait_for_commit client h timeout_opt =
     (let timeout = (case timeout_opt of None \<Rightarrow> default_timeout_ms | Some t \<Rightarrow> t) in
      andthen now (\<lambda>start.
      andthen (wait_loop (Suc (nat timeout)) client h timeout default_poll_ms (start + timeout)) (\<lambda>r.
      case r of Some c \<Rightarrow> ret c | None \<Rightarrow> throw out_of_fuel)))"

section \<open>Resuming a journaled broadcast\<close>

text \<open>\<open>e.message\<close>. The texts of database errors contain none of the words tested for, and are
  not modelled.\<close>

fun error_message :: "failure \<Rightarrow> string" where
  "error_message (CkbError ctx detail) = ctx @ '': '' @ detail"
| "error_message (OtherError m) = m"
| "error_message (Abandoned _) = ''journaled tx was abandoned''"
| "error_message (Db _) = ''database''"
| "error_message SqlError = ''sql''"

text \<open>\<open>/double.?spend/i\<close> on lower-cased text, where \<open>.\<close> does not match a line terminator.\<close>

fun matches_double_spend :: "string \<Rightarrow> bool" where
  "matches_double_spend [] \<longleftrightarrow> False"
| "matches_double_spend (c # cs) \<longleftrightarrow>
     take 11 (c # cs) = ''doublespend''
     \<or> (take 6 (c # cs) = ''double'' \<and> take 5 (drop 7 (c # cs)) = ''spend''
        \<and> (c # cs) ! 6 \<notin> {CHR 0x0A, CHR 0x0D})
     \<or> matches_double_spend cs"

text \<open>\<open>/double.?spend|already|spent|dead|resolve/i\<close>\<close>

definition spent_elsewhere :: "string \<Rightarrow> bool" where
  "spent_elsewhere m = (let t = map ascii_lower m in
     matches_double_spend t \<or> contains ''already'' t \<or> contains ''spent'' t
     \<or> contains ''dead'' t \<or> contains ''resolve'' t)"

datatype resume_outcome = ResumedCommitted | Rebroadcast

definition resume_journaled_broadcast ::
  "('w, 'tx) chain_client \<Rightarrow> string \<Rightarrow> string option \<Rightarrow> int option \<Rightarrow>
     ('w world, failure, resume_outcome) prog" where
  "resume_journaled_broadcast client h hex timeout =
     andthen (on_env (cl_get_transaction client h)) (\<lambda>status.
     case status of
       TxCommitted _ _ \<Rightarrow> ret ResumedCommitted
     | TxRejected _ \<Rightarrow> throw (Abandoned False)
     | TxPending \<Rightarrow> andthen (wait_for_commit client h timeout) (\<lambda>_. ret ResumedCommitted)
     | TxProposed \<Rightarrow> andthen (wait_for_commit client h timeout) (\<lambda>_. ret ResumedCommitted)
     | _ \<Rightarrow> (case hex of
         None \<Rightarrow> throw (Abandoned False)
       | Some json \<Rightarrow>
           andthen (lift_result (cl_parse_tx client json)) (\<lambda>wire.
           andthen (catching (on_env (cl_send_transaction client wire)) (\<lambda>e.
             if spent_elsewhere (error_message e) then throw (Abandoned True) else throw e)) (\<lambda>accepted.
           if accepted \<noteq> h
           then throw (CkbError ''monitor''
             ''rebroadcast returned a tx hash different from the journaled transaction'')
           else andthen (wait_for_commit client h timeout) (\<lambda>_. ret Rebroadcast)))))"

section \<open>Lemmas\<close>

lemma wp_on_env: "wp (on_env f) Q E s = (case f (env s) of
    (Inl e, w, n) \<Rightarrow> E e (s\<lparr>db_clock := db_clock s + int n, env := w\<rparr>)
  | (Inr x, w, n) \<Rightarrow> Q x (s\<lparr>db_clock := db_clock s + int n, env := w\<rparr>))"
  by (simp add: wp_def on_env_def split: prod.splits sum.splits)

lemma wp_on_env_all:
  "(\<And>w n x. Q x (s\<lparr>db_clock := db_clock s + int n, env := w\<rparr>)) \<Longrightarrow>
   (\<And>w n e. E e (s\<lparr>db_clock := db_clock s + int n, env := w\<rparr>)) \<Longrightarrow> wp (on_env f) Q E s"
  by (simp add: wp_on_env split: prod.splits sum.splits)

lemma wp_lift_result [wp_rules]:
  "wp (lift_result r) Q E s = (case r of Inl e \<Rightarrow> E e s | Inr x \<Rightarrow> Q x s)"
  by (simp add: lift_result_def wp_rules split: sum.splits)

lemma wp_sleep [wp_rules]: "wp (sleep ms) Q E s = Q () (s\<lparr>db_clock := db_clock s + max 0 ms\<rparr>)"
  by (simp add: sleep_def wp_rules)

text \<open>What does not depend on the clock and the environment is kept by every call of the
  client, and so by the monitor.\<close>

definition env_free :: "('w world \<Rightarrow> bool) \<Rightarrow> bool" where
  "env_free I \<longleftrightarrow> (\<forall>s t w. I s \<longrightarrow> I (s\<lparr>db_clock := t, env := w\<rparr>))"

lemma env_free_clock: "env_free I \<Longrightarrow> I s \<Longrightarrow> I (s\<lparr>db_clock := t\<rparr>)"
proof -
  assume "env_free I" "I s"
  then have "I (s\<lparr>db_clock := t, env := env s\<rparr>)" unfolding env_free_def by blast
  then show ?thesis by simp
qed

lemma keeps_on_env [keeps_rules]: "env_free I \<Longrightarrow> keeps I (on_env f)"
  by (auto simp: keeps_def on_env_def env_free_def split: prod.splits)

lemma keeps_sleep [keeps_rules]: "env_free I \<Longrightarrow> keeps I (sleep ms)"
  by (simp add: keeps_def sleep_def modify_def env_free_clock)

lemma keeps_lift_result [keeps_rules]: "keeps I (lift_result r)"
  by (auto simp: lift_result_def intro: keeps_rules split: sum.splits)

lemma keeps_poll: "env_free I \<Longrightarrow> keeps I (poll_commit client h timeout interval deadline)"
  by (auto simp: poll_commit_def Let_def split: tx_status.splits intro!: keeps_rules)

lemma keeps_wait_loop: "env_free I \<Longrightarrow> keeps I (wait_loop n client h timeout interval deadline)"
  by (induction n) (auto simp: keeps_poll split: option.splits intro!: keeps_rules)

lemma keeps_wait [keeps_rules]: "env_free I \<Longrightarrow> keeps I (wait_for_commit client h timeout)"
  by (auto simp: wait_for_commit_def Let_def simp del: wait_loop.simps
      intro!: keeps_rules keeps_wait_loop)

lemma keeps_resume [keeps_rules]:
  "env_free I \<Longrightarrow> keeps I (resume_journaled_broadcast client h hex timeout)"
  by (auto simp: resume_journaled_broadcast_def split: tx_status.splits intro!: keeps_rules)

subsection \<open>The loop\<close>

lemma poll_again:
  "wp (poll_commit client h timeout interval deadline)
     (\<lambda>r s'. r = None \<longrightarrow> db_clock s < deadline \<and> db_clock s + min interval 1 \<le> db_clock s')
     (\<lambda>_ _. True) s" if "0 < interval"
  unfolding poll_commit_def using that
  by (auto simp: wp_rules Let_def intro!: wp_on_env_all split: tx_status.splits)

lemma wait_loop_fuel:
  fixes s :: "'a world"
  assumes "0 < interval" and "nat (deadline - db_clock s) < fuel"
  shows "wp (wait_loop fuel client h timeout interval deadline) (\<lambda>r _. r \<noteq> None) (\<lambda>_ _. True) s"
  using assms(2)
proof (induction fuel arbitrary: s)
  case (Suc fuel)
  show ?case
    unfolding wait_loop.simps wp_andthen
  proof (rule wp_mono [OF poll_again [OF assms(1)]])
    fix r :: "commit_result option" and s' :: "'a world"
    assume r: "r = None \<longrightarrow> db_clock s < deadline \<and> db_clock s + min interval 1 \<le> db_clock s'"
    show "wp (case r of None \<Rightarrow> wait_loop fuel client h timeout interval deadline | Some c \<Rightarrow> ret (Some c))
        (\<lambda>r _. r \<noteq> None) (\<lambda>_ _. True) s'"
    proof (cases r)
      case None
      then have "nat (deadline - db_clock s') < fuel"
        using r Suc.prems assms(1) by (auto simp: min_def split: if_splits)
      with None Suc.IH show ?thesis by simp
    qed (simp add: wp_rules)
  qed simp
qed simp

subsection \<open>Giving up\<close>

text \<open>The errors of the client and of JSON are not the abandonment error itself.\<close>

definition plain_client :: "('w, 'tx) chain_client \<Rightarrow> bool" where
  "plain_client client \<longleftrightarrow>
     (\<forall>h w b. fst (cl_get_transaction client h w) \<noteq> Inl (Abandoned b)) \<and>
     (\<forall>t w b. fst (cl_send_transaction client t w) \<noteq> Inl (Abandoned b)) \<and>
     (\<forall>t b. cl_parse_tx client t \<noteq> Inl (Abandoned b))"

abbreviation not_abandoned :: "failure \<Rightarrow> bool" where
  "not_abandoned e \<equiv> (\<forall>b. e \<noteq> Abandoned b)"

lemma get_not_abandoned:
  assumes "plain_client client"
  shows "wp (on_env (cl_get_transaction client h)) (\<lambda>_ _. True) (\<lambda>e _. not_abandoned e) s"
proof (cases "cl_get_transaction client h (env s)")
  case (fields r w n)
  then have "\<And>e b. r = Inl e \<Longrightarrow> e \<noteq> Abandoned b"
    using assms by (metis plain_client_def fst_conv)
  with fields show ?thesis by (auto simp: wp_on_env split: sum.splits)
qed

lemma wait_loop_not_abandoned:
  assumes "plain_client client"
  shows "wp (wait_loop n client h timeout interval deadline) (\<lambda>_ _. True) (\<lambda>e _. not_abandoned e) s"
proof (induction n arbitrary: s)
  case (Suc n)
  have "wp (poll_commit client h timeout interval deadline) (\<lambda>_ _. True) (\<lambda>e _. not_abandoned e) s"
    unfolding poll_commit_def wp_andthen
    by (rule wp_mono [OF get_not_abandoned [OF assms]])
      (auto simp: wp_rules Let_def split: tx_status.splits)
  then show ?case
    unfolding wait_loop.simps wp_andthen
    by (rule wp_mono) (auto simp: wp_rules Suc split: option.splits)
qed (simp add: wp_rules)

lemma wait_not_abandoned:
  assumes "plain_client client"
  shows "wp (wait_for_commit client h timeout) (\<lambda>_ _. True) (\<lambda>e _. not_abandoned e) s"
  unfolding wait_for_commit_def Let_def wp_andthen wp_now
  by (rule wp_mono [OF wait_loop_not_abandoned [OF assms]])
    (auto simp: wp_rules out_of_fuel_def split: option.splits)

text \<open>The condition, read off the answers of the client.\<close>

definition given_up :: "('w, 'tx) chain_client \<Rightarrow> string \<Rightarrow> string option \<Rightarrow> 'w \<Rightarrow> bool" where
  "given_up client h hex w = (case cl_get_transaction client h w of
       (Inr status, w', _) \<Rightarrow>
         (\<exists>reason. status = TxRejected reason) \<or>
         status \<in> {TxSent, TxUnknown} \<and> (case hex of None \<Rightarrow> True | Some json \<Rightarrow>
           (\<exists>wire e. cl_parse_tx client json = Inr wire \<and>
              fst (cl_send_transaction client wire w') = Inl e \<and> spent_elsewhere (error_message e)))
     | (Inl _, _) \<Rightarrow> False)"

lemma resume_abandons:
  assumes "plain_client client"
  shows "wp (resume_journaled_broadcast client h hex timeout) (\<lambda>_ _. \<not> given_up client h hex (env s))
    (\<lambda>e _. (\<exists>b. e = Abandoned b) \<longleftrightarrow> given_up client h hex (env s)) s"
proof (cases "cl_get_transaction client h (env s)")
  case (fields r w n)
  have g: "\<And>e b. r = Inl e \<Longrightarrow> e \<noteq> Abandoned b"
    using assms fields by (metis plain_client_def fst_conv)
  have p: "\<And>t b. cl_parse_tx client t \<noteq> Inl (Abandoned b)"
    using assms by (simp add: plain_client_def)
  have t: "\<And>t w b. fst (cl_send_transaction client t w) \<noteq> Inl (Abandoned b)"
    using assms by (simp add: plain_client_def)
  note wait = wp_mono [OF wait_not_abandoned [OF assms]]
  show ?thesis
  proof (cases r)
    case (Inl e)
    then show ?thesis using fields g
      by (auto simp: resume_journaled_broadcast_def wp_andthen wp_on_env given_up_def)
  next
    case (Inr status)
    show ?thesis
    proof (cases "status \<in> {TxSent, TxUnknown}")
      case False
      then show ?thesis using fields Inr
        by (auto simp: resume_journaled_broadcast_def wp_rules wp_on_env given_up_def
            split: tx_status.splits intro!: wait)
    next
      case True
      show ?thesis
      proof (cases hex)
        case None
        then show ?thesis using fields Inr True
          by (auto simp: resume_journaled_broadcast_def wp_rules wp_on_env given_up_def)
      next
        case (Some json)
        show ?thesis
        proof (cases "cl_parse_tx client json")
          case (Inl e)
          then show ?thesis using fields Inr True Some p
            by (auto simp: resume_journaled_broadcast_def wp_rules wp_on_env given_up_def)
        next
          case wire: (Inr wire)
          obtain r2 w2 n2 where sent: "cl_send_transaction client wire w = (r2, w2, n2)"
            by (cases "cl_send_transaction client wire w")
          then have "\<And>b. r2 \<noteq> Inl (Abandoned b)" using t by (metis fst_conv)
          then show ?thesis using fields Inr True Some wire sent
            by (cases r2) (auto simp: resume_journaled_broadcast_def wp_rules wp_on_env given_up_def
                intro!: wait)
        qed
      qed
    qed
  qed
qed

section \<open>Properties\<close>

text \<open>
  C38. Waiting for a commit always ends: whatever the node answers and however long its answers
  take, the polling loop stops within the fuel of one round per millisecond of the timeout, with a
  commit or with an error, so it never falls out of the loop undecided.
\<close>

theorem waiting_ends:
  "fst (wait_loop (Suc (nat timeout)) client h timeout default_poll_ms (db_clock s + timeout) s) \<noteq> Inr None"
proof -
  have "wp (wait_loop (Suc (nat timeout)) client h timeout default_poll_ms (db_clock s + timeout))
      (\<lambda>r _. r \<noteq> None) (\<lambda>_ _. True) s"
    by (rule wait_loop_fuel) (simp_all add: default_poll_ms_def)
  then show ?thesis
    by (auto simp: wp_def split: prod.splits sum.splits)
qed

text \<open>
  When a journaled broadcast is given up, exactly: the node rejected the transaction, or it
  does not know it and there are no signed bytes, or sending them again failed with a message
  that contains one of the words of the double-spend pattern. One of these words is \<open>already\<close>,
  so a node that answers that the transaction is already in its pool makes the caller abandon a
  transaction that may still be committed.
\<close>

theorem abandoned_exactly_when:
  assumes "plain_client client"
  shows "(\<exists>b s'. resume_journaled_broadcast client h hex timeout s = (Inl (Abandoned b), s'))
    = given_up client h hex (env s)"
  using resume_abandons [OF assms, of h hex timeout s]
  by (cases "resume_journaled_broadcast client h hex timeout s")
    (auto simp: wp_def split: sum.splits)

definition pool_client :: "(unit, unit) chain_client" where
  "pool_client = \<lparr>cl_get_transaction = (\<lambda>_ w. (Inr TxUnknown, w, 1)),
     cl_get_live_cell = (\<lambda>_ _ w. (Inr UnknownCell, w, 1)),
     cl_send_transaction = (\<lambda>_ w. (Inl (OtherError ''Transaction already exists in transaction_pool''), w, 1)),
     cl_track_spend = (\<lambda>_ w. (Inr (), w, 0)),
     cl_parse_tx = (\<lambda>_. Inr ()), cl_stringify_tx = (\<lambda>_. [])\<rparr>"

theorem abandoned_exactly_when_witness:
  "\<exists>b s'. resume_journaled_broadcast pool_client ''0x1'' (Some ''{}'') None (db.extend empty_db \<lparr>env = ()\<rparr>)
     = (Inl (Abandoned b), s')"
proof -
  have "plain_client pool_client" by (simp add: plain_client_def pool_client_def)
  moreover have "given_up pool_client ''0x1'' (Some ''{}'') ()"
    by (simp add: given_up_def pool_client_def spent_elsewhere_def ascii_lower_def Let_def)
  ultimately show ?thesis by (subst abandoned_exactly_when) simp_all
qed

end
