(* ===== verification/Cemp_Incoming.thy ===== *)
theory Cemp_Incoming
  imports Cemp_Envelope Cemp_Utf8 Cemp_Monitor
begin

text \<open>
  packages/cemp-ckb: assemble.ts, incoming.ts, discovery.ts and the type args of builders.ts. A
  message goes from its text to the data and type args of a cell, the recipient finds the cell by
  the prefix of its type args and turns its data back into a message.

  \<open>blake2b\<close>, the primitives of \<open>Cemp_Envelope\<close>, the wire codecs and the indexer are arguments; so
  are the random values that one assembly draws.
\<close>

section \<open>Type args\<close>

record message_type_args =
  ta_route_tag :: bytes
  ta_conversation_tag :: bytes
  ta_message_nonce :: bytes

datatype args_error =
    WrongWidth string nat nat
  | UnsupportedVersion byte
  | ReservedNonzero

definition build_message_type_args :: "bytes \<Rightarrow> bytes \<Rightarrow> bytes \<Rightarrow> args_error + bytes" where
  "build_message_type_args route conversation nonce =
     (if length route \<noteq> 32 then Inl (WrongWidth ''route_tag'' (length route) 32)
      else if length conversation \<noteq> 16 then Inl (WrongWidth ''conversation_tag'' (length conversation) 16)
      else if length nonce \<noteq> 16 then Inl (WrongWidth ''message_nonce'' (length nonce) 16)
      else Inr ([1] @ route @ conversation @ nonce @ replicate 16 0))"

definition parse_message_type_args :: "bytes \<Rightarrow> args_error + message_type_args" where
  "parse_message_type_args args =
     (if length args \<noteq> 81 then Inl (WrongWidth ''type args'' (length args) 81)
      else if args ! 0 \<noteq> 1 then Inl (UnsupportedVersion (args ! 0))
      else if list_ex (\<lambda>b. b \<noteq> 0) (drop 65 args) then Inl ReservedNonzero
      else Inr \<lparr>ta_route_tag = take 32 (drop 1 args), ta_conversation_tag = take 16 (drop 33 args),
             ta_message_nonce = take 16 (drop 49 args)\<rparr>)"

definition build_route_tag_prefix :: "bytes \<Rightarrow> args_error + bytes" where
  "build_route_tag_prefix route =
     (if length route \<noteq> 32 then Inl (WrongWidth ''route_tag'' (length route) 32)
      else Inr ([1] @ route))"

section \<open>Assembly\<close>

definition current_routing_epoch :: "int \<Rightarrow> int" where
  "current_routing_epoch now_ms = now_ms div (1000 * 2592000)"

record assemble_params =
  as_text :: code_points
  as_sender :: bytes
  as_recipient :: bytes
  as_kem_public_key :: bytes
  as_device :: bytes
  as_reply_to :: "(bytes \<times> string \<times> int) option"
  as_receipts :: "(bytes \<times> int) list"
  as_receipt_request :: "int option"
  as_manifests :: "attachment_manifest_v1 list"
  as_content_type :: "int option"
  as_message_id :: "bytes option"
  as_now :: int
  as_attachment_envelope :: "(bytes \<times> bytes) option"

record draws =
  dw_message_id :: bytes
  dw_message_nonce :: bytes
  dw_padding :: bytes
  dw_nonce :: bytes
  dw_kem_message :: bytes

record assembled_message =
  am_message_id :: bytes
  am_conversation_id :: bytes
  am_route_tag :: bytes
  am_conversation_tag :: bytes
  am_message_nonce :: bytes
  am_envelope :: bytes
  am_attachment_key :: bytes

datatype message_error =
    ReplyHash hex_error
  | PayloadEncoding cemp_codec_error
  | PayloadInvalid reason
  | Crypto crypto_error
  | HeaderMismatch reason
  | UnsupportedBody int

definition strip_0x :: "string \<Rightarrow> string" where
  "strip_0x hex = (if starts_with hex ''0x'' then drop 2 hex else hex)"

definition reply_outpoint :: "(bytes \<times> string \<times> int) option \<Rightarrow> message_error + out_point_v1 option" where
  "reply_outpoint r = (case r of
       None \<Rightarrow> Inr None
     | Some (_, h, n) \<Rightarrow> sum_bind (map_error ReplyHash (hex_to_bytes (strip_0x h))) (\<lambda>b.
         Inr (Some \<lparr>op_tx_hash = b, op_index = n\<rparr>)))"

definition payload_of ::
  "draws \<Rightarrow> assemble_params \<Rightarrow> out_point_v1 option \<Rightarrow> cemp_payload_v1" where
  "payload_of D p outpoint =
     (let content = (case as_content_type p of None \<Rightarrow> 1 | Some c \<Rightarrow> c) in
      \<lparr>pl_message_id = (case as_message_id p of None \<Rightarrow> dw_message_id D | Some m \<Rightarrow> m),
       pl_body_type = content, pl_recipient_profile_id = as_recipient p,
       pl_text = (if content = 3 \<and> as_text p = [] then None else Some (utf8_encode (as_text p))),
       pl_attachment_manifests = as_manifests p,
       pl_reply_to_message_id = map_option fst (as_reply_to p),
       pl_reply_to_outpoint = outpoint,
       pl_receipts = map (\<lambda>(m, st). \<lparr>rc_message_id = m, rc_status = st\<rparr>) (as_receipts p),
       pl_receipt_request = (case as_receipt_request p of None \<Rightarrow> 0 | Some r \<Rightarrow> r),
       pl_client_timestamp = as_now p div 1000, pl_sender_device_id = as_device p,
       pl_padding = dw_padding D\<rparr>)"

definition header_of :: "blake2b \<Rightarrow> cemp_payload_v1 \<Rightarrow> assemble_params \<Rightarrow> cemp_envelope_header_v1" where
  "header_of blake2b payload p =
     \<lparr>hd_protocol_version = 1, hd_network = 1, hd_content_type = pl_body_type payload,
      hd_message_id = pl_message_id payload,
      hd_conversation_id = derive_conversation_id blake2b (as_sender p) (as_recipient p),
      hd_sender_profile_id = as_sender p, hd_created_at_client = as_now p div 1000,
      hd_reply_to_message_id = map_option fst (as_reply_to p), hd_expiry_hint = 0\<rparr>"

definition assemble_text_message ::
  "blake2b \<Rightarrow> crypto_suite \<Rightarrow> wire_codecs \<Rightarrow> draws \<Rightarrow> assemble_params \<Rightarrow> message_error + assembled_message" where
  "assemble_text_message blake2b S W D p =
     sum_bind (reply_outpoint (as_reply_to p)) (\<lambda>outpoint.
     let payload = payload_of D p outpoint;
         conversation = derive_conversation_id blake2b (as_sender p) (as_recipient p) in
     sum_bind (map_error PayloadEncoding (encode_cemp_payload_v1 (wc_payload W) payload)) (\<lambda>bytes.
     case validate_payload (wc_payload W) bytes of
       Fail r \<Rightarrow> Inl (PayloadInvalid r)
     | Ok \<Rightarrow>
         sum_bind (map_error Crypto (encrypt_envelope S W (dw_nonce D) (dw_kem_message D)
           \<lparr>ep_payload = bytes, ep_kem_public_key = as_kem_public_key p,
            ep_header = header_of blake2b payload p,
            ep_nonce = map_option snd (as_attachment_envelope p),
            ep_kem_message = map_option fst (as_attachment_envelope p)\<rparr>)) (\<lambda>e.
         Inr \<lparr>am_message_id = pl_message_id payload, am_conversation_id = conversation,
           am_route_tag = derive_route_tag blake2b (as_recipient p) (current_routing_epoch (as_now p)),
           am_conversation_tag = take 16 conversation, am_message_nonce = dw_message_nonce D,
           am_envelope = er_envelope e, am_attachment_key = er_attachment_key e\<rparr>)))"

section \<open>Incoming messages\<close>

record incoming_message =
  in_content_type :: int
  in_message_id :: bytes
  in_conversation_id :: bytes
  in_sender :: bytes
  in_text :: code_points
  in_manifests :: "attachment_manifest_v1 list"
  in_reply_to_id :: "bytes option"
  in_reply_to_outpoint :: "(string \<times> int) option"
  in_receipts :: "(bytes \<times> int) list"
  in_timestamp :: int
  in_device :: bytes
  in_attachment_key :: bytes

definition process_incoming_text ::
  "crypto_suite \<Rightarrow> wire_codecs \<Rightarrow> bytes \<Rightarrow> bytes \<Rightarrow> bytes \<Rightarrow> message_error + incoming_message" where
  "process_incoming_text S W cell_data own_secret_key own_profile_id =
     sum_bind (map_error Crypto (decrypt_envelope S W \<lparr>dp_envelope = cell_data,
       dp_kem_secret_key = own_secret_key, dp_own_profile_id = own_profile_id\<rparr>)) (\<lambda>d.
     case validate_payload (wc_payload W) (dr_payload d) of
       Fail r \<Rightarrow> Inl (PayloadInvalid r)
     | Ok \<Rightarrow>
         sum_bind (map_error PayloadEncoding
           (decode_cemp_payload_v1 (wc_payload W) (Buffer (dr_payload d)))) (\<lambda>payload.
         let header = dr_header d in
         case validate_semantic_consistency header payload own_profile_id of
           Fail r \<Rightarrow> Inl (HeaderMismatch r)
         | Ok \<Rightarrow>
             if pl_body_type payload \<noteq> 1 \<and> pl_body_type payload \<noteq> 3
             then Inl (UnsupportedBody (pl_body_type payload))
             else Inr \<lparr>in_content_type = pl_body_type payload, in_message_id = pl_message_id payload,
               in_conversation_id = hd_conversation_id header, in_sender = hd_sender_profile_id header,
               in_text = (case pl_text payload of None \<Rightarrow> [] | Some t \<Rightarrow> utf8_decode t),
               in_manifests = pl_attachment_manifests payload,
               in_reply_to_id = pl_reply_to_message_id payload,
               in_reply_to_outpoint = map_option (\<lambda>o'. (bytes_to_hex (op_tx_hash o'), op_index o'))
                 (pl_reply_to_outpoint payload),
               in_receipts = map (\<lambda>r. (rc_message_id r, rc_status r)) (pl_receipts payload),
               in_timestamp = pl_client_timestamp payload, in_device = pl_sender_device_id payload,
               in_attachment_key = dr_attachment_key d\<rparr>))"

definition incoming_logical_message_id :: "bytes \<Rightarrow> string" where
  "incoming_logical_message_id m = ''incoming:'' @ bytes_to_hex m"

section \<open>Discovery\<close>

text \<open>An indexed cell, its type args and data as the hex strings of the response. \<open>bytes_from\<close> is the
  library's reader of such a string, which may throw.\<close>

record indexed_cell =
  ic_type_args :: "string option"
  ic_data :: string
  ic_tx_hash :: string
  ic_index :: string

record cell_page =
  pg_cells :: "indexed_cell list"
  pg_last_cursor :: string

definition is_message_cell ::
  "(string \<Rightarrow> failure + bytes) \<Rightarrow> bytes \<Rightarrow> indexed_cell \<Rightarrow> failure + bool" where
  "is_message_cell bytes_from prefix c = (case ic_type_args c of
       None \<Rightarrow> Inr False
     | Some a \<Rightarrow> sum_bind (bytes_from a) (\<lambda>args.
         if length args \<noteq> 81 \<or> take (length prefix) args \<noteq> prefix then Inr False
         else sum_bind (bytes_from (ic_data c)) (\<lambda>data.
           Inr (length data \<le> max_envelope_bytes V1_LIMITS))))"

fun filter_cells ::
  "(string \<Rightarrow> failure + bytes) \<Rightarrow> bytes \<Rightarrow> indexed_cell list \<Rightarrow> failure + indexed_cell list" where
  "filter_cells bytes_from prefix [] = Inr []"
| "filter_cells bytes_from prefix (c # cs) =
     sum_bind (is_message_cell bytes_from prefix c) (\<lambda>keep.
     sum_bind (filter_cells bytes_from prefix cs) (\<lambda>rest.
     Inr (if keep then c # rest else rest)))"

text \<open>\<open>search prefix cursor\<close> is the query of the indexer: the prefix of the type args and the cursor
  to continue after.\<close>

record 'w indexer =
  ix_bytes_from :: "string \<Rightarrow> failure + bytes"
  ix_search :: "bytes \<Rightarrow> string option \<Rightarrow> ('w, cell_page) env_call"

definition find_message_cells ::
  "'w indexer \<Rightarrow> bytes \<Rightarrow> string option \<Rightarrow> ('w world, failure, cell_page) prog" where
  "find_message_cells ix route cursor = (case build_route_tag_prefix route of
       Inl e \<Rightarrow> throw (CkbError ''buildRouteTagPrefix'' ''route_tag has the wrong width'')
     | Inr prefix \<Rightarrow> andthen (on_env (ix_search ix prefix cursor)) (\<lambda>page.
         case filter_cells (ix_bytes_from ix) prefix (pg_cells page) of
           Inl e \<Rightarrow> throw e
         | Inr cells \<Rightarrow> ret (page\<lparr>pg_cells := cells\<rparr>)))"

text \<open>\<open>watchOutpointUntilSpent\<close>, with a bound on the rounds.\<close>

datatype watch_result = WatchSpent | WatchTimeout

fun watch_rounds ::
  "nat \<Rightarrow> ('w, 'tx) chain_client \<Rightarrow> string \<Rightarrow> nat \<Rightarrow> int \<Rightarrow> int \<Rightarrow> ('w world, failure, watch_result option) prog" where
  "watch_rounds 0 client h n poll deadline = ret None"
| "watch_rounds (Suc k) client h n poll deadline =
     andthen (on_env (cl_get_live_cell client h n)) (\<lambda>status. case status of
       LiveCell _ \<Rightarrow> andthen now (\<lambda>t.
         if deadline - t \<le> 0 then ret (Some WatchTimeout)
         else andthen (sleep (min poll (deadline - t))) (\<lambda>_. watch_rounds k client h n poll deadline))
     | _ \<Rightarrow> ret (Some WatchSpent))"

definition watch_outpoint_until_spent ::
  "('w, 'tx) chain_client \<Rightarrow> string \<Rightarrow> nat \<Rightarrow> int option \<Rightarrow> int option \<Rightarrow>
     ('w world, failure, watch_result option) prog" where
  "watch_outpoint_until_spent client h n poll timeout =
     (let p = (case poll of None \<Rightarrow> 5000 | Some x \<Rightarrow> x);
          t = (case timeout of None \<Rightarrow> 600000 | Some x \<Rightarrow> x) in
      if p \<le> 0 \<or> t \<le> 0
      then throw (CkbError ''watchOutpointUntilSpent'' ''poll interval and timeout must be positive'')
      else andthen now (\<lambda>start. watch_rounds (Suc (nat t)) client h n p (start + t)))"

section \<open>Lemmas\<close>

lemma reply_outpoint_Inr:
  "reply_outpoint r = Inr out' \<Longrightarrow> map_option (\<lambda>x. (bytes_to_hex (op_tx_hash x), op_index x)) out'
     = map_option (\<lambda>(_, h, n). (strip_0x h, n)) r"
  by (auto simp: reply_outpoint_def hex_to_bytes_iff split: option.splits)

lemma not_Fail [simp]: "(\<forall>r. v \<noteq> Fail r) \<longleftrightarrow> v = Ok"
  by (cases v) auto

lemma watch_rounds_end:
  "deadline - db_clock s < int k \<Longrightarrow> 0 < k \<Longrightarrow> 0 < poll \<Longrightarrow>
     wp (watch_rounds k client h n poll deadline) (\<lambda>r _. r \<noteq> None) (\<lambda>_ _. True) s"
proof (induction k arbitrary: s)
  case (Suc k)
  obtain r w e where call: "cl_get_live_cell client h n (env s) = (r, w, e)"
    by (cases "cl_get_live_cell client h n (env s)")
  let ?s = "s\<lparr>db_clock := db_clock s + int e, env := w\<rparr>"
  let ?gap = "min poll (deadline - db_clock ?s)"
  have step: "wp (watch_rounds k client h n poll deadline) (\<lambda>r _. r \<noteq> None) (\<lambda>_ _. True)
      (?s\<lparr>db_clock := db_clock ?s + ?gap\<rparr>)" if "0 < deadline - db_clock ?s"
  proof -
    have "deadline - db_clock (?s\<lparr>db_clock := db_clock ?s + ?gap\<rparr>) < int k"
      using Suc.prems that by (auto simp: min_def)
    moreover have "0 < k" using Suc.prems that by auto
    ultimately show ?thesis using Suc.IH Suc.prems(3) by blast
  qed
  show ?case
    using call step Suc.prems(3) by (auto simp: wp_rules wp_on_env sleep_def max_def split: cell_status.splits sum.splits)
qed simp

lemma assembled_is_processed:
  assumes keys: "key_pair S (as_kem_public_key p) sk" and aead: "aead_ok S"
    and codecs: "decodes (wc_envelope W)" "decodes (wc_payload W)"
    and assembled: "assemble_text_message blake2b S W D p = Inr m"
    and own: "length (as_recipient p) = 32" and chars: "\<forall>c \<in> set (as_text p). scalar c"
    and content: "as_content_type p \<in> {None, Some 1, Some 3}"
  shows "process_incoming_text S W (am_envelope m) sk (as_recipient p) = Inr
    \<lparr>in_content_type = (case as_content_type p of None \<Rightarrow> 1 | Some c \<Rightarrow> c),
     in_message_id = am_message_id m, in_conversation_id = am_conversation_id m,
     in_sender = as_sender p, in_text = drop_bom (as_text p), in_manifests = as_manifests p,
     in_reply_to_id = map_option fst (as_reply_to p),
     in_reply_to_outpoint = map_option (\<lambda>(_, h, n). (strip_0x h, n)) (as_reply_to p),
     in_receipts = as_receipts p, in_timestamp = as_now p div 1000, in_device = as_device p,
     in_attachment_key = am_attachment_key m\<rparr>"
proof -
  from assembled obtain outpoint where outpoint: "reply_outpoint (as_reply_to p) = Inr outpoint"
    unfolding assemble_text_message_def by (cases "reply_outpoint (as_reply_to p)") (auto simp: sum_bind_def)
  define payload where "payload = payload_of D p outpoint"
  define header where "header = header_of blake2b payload p"
  from assembled outpoint obtain bytes e where
    bytes: "enc (wc_payload W) payload = Inr bytes" and valid: "validate_payload (wc_payload W) bytes = Ok"
    and sealed: "encrypt_envelope S W (dw_nonce D) (dw_kem_message D)
      \<lparr>ep_payload = bytes, ep_kem_public_key = as_kem_public_key p, ep_header = header,
       ep_nonce = map_option snd (as_attachment_envelope p),
       ep_kem_message = map_option fst (as_attachment_envelope p)\<rparr> = Inr e"
    and m: "m = \<lparr>am_message_id = pl_message_id payload,
       am_conversation_id = derive_conversation_id blake2b (as_sender p) (as_recipient p),
       am_route_tag = derive_route_tag blake2b (as_recipient p) (current_routing_epoch (as_now p)),
       am_conversation_tag = take 16 (derive_conversation_id blake2b (as_sender p) (as_recipient p)),
       am_message_nonce = dw_message_nonce D, am_envelope = er_envelope e, am_attachment_key = er_attachment_key e\<rparr>"
    unfolding assemble_text_message_def payload_def header_def encode_cemp_payload_v1_def Let_def
    by (auto split: validation.splits)
  have recipient: "pl_recipient_profile_id payload = as_recipient p"
    by (simp add: payload_def payload_of_def Let_def)
  have decoded: "decode_cemp_payload_v1 (wc_payload W) (Buffer bytes) = Inr payload"
    unfolding decode_cemp_payload_v1_def by (rule strict_decode_encoded [OF codecs(2) bytes])
  have "decrypt_envelope S W \<lparr>dp_envelope = er_envelope e, dp_kem_secret_key = sk,
       dp_own_profile_id = as_recipient p\<rparr>
     = Inr \<lparr>dr_header = header, dr_payload = bytes, dr_attachment_key = er_attachment_key e\<rparr>"
    using envelope_opens [OF _ aead codecs(1) sealed, of sk payload] keys decoded own recipient by simp
  moreover have "validate_semantic_consistency header payload (as_recipient p) = Ok"
    using own recipient by (simp add: validate_semantic_consistency_def header_def header_of_def)
  moreover have "pl_body_type payload = 1 \<or> pl_body_type payload = 3"
    using content by (auto simp: payload_def payload_of_def Let_def)
  moreover have "(case pl_text payload of None \<Rightarrow> [] | Some t \<Rightarrow> utf8_decode t) = drop_bom (as_text p)"
    using utf8_decode_encode [OF chars] by (auto simp: payload_def payload_of_def Let_def drop_bom_def)
  moreover have "map_option (\<lambda>x. (bytes_to_hex (op_tx_hash x), op_index x)) (pl_reply_to_outpoint payload)
     = map_option (\<lambda>(_, h, n). (strip_0x h, n)) (as_reply_to p)"
    using reply_outpoint_Inr [OF outpoint] by (simp add: payload_def payload_of_def Let_def)
  moreover have "map (\<lambda>r. (rc_message_id r, rc_status r)) (pl_receipts payload) = as_receipts p"
    by (simp add: payload_def payload_of_def Let_def comp_def case_prod_beta)
  ultimately show ?thesis
    using valid decoded m
    by (auto simp: process_incoming_text_def sum_bind_def map_error_def header_def header_of_def
        payload_def payload_of_def Let_def)
qed

section \<open>Properties\<close>


text \<open>
  The type args of a message cell and the recipient's search agree: built args parse back to the
  three tags, parsing accepts nothing else, and a cell with these args and acceptable data passes
  the filter of a search for its route tag and for no other route tag.
\<close>

theorem type_args_found_and_parsed:
  assumes "build_message_type_args route conversation nonce = Inr args"
    and "ic_type_args c = Some a" and "bytes_from a = Inr args"
    and "bytes_from (ic_data c) = Inr data" and "length data \<le> 82000"
    and "build_route_tag_prefix route' = Inr prefix"
  shows "parse_message_type_args args = Inr \<lparr>ta_route_tag = route, ta_conversation_tag = conversation,
       ta_message_nonce = nonce\<rparr> \<and> is_message_cell bytes_from prefix c = Inr (route' = route)"
proof
  have args: "args = [1] @ route @ conversation @ nonce @ replicate 16 0"
    and len: "length route = 32" "length conversation = 16" "length nonce = 16"
    using assms(1) by (auto simp: build_message_type_args_def split: if_splits)
  then show "parse_message_type_args args = Inr \<lparr>ta_route_tag = route, ta_conversation_tag = conversation,
       ta_message_nonce = nonce\<rparr>"
    by (simp add: parse_message_type_args_def list_ex_iff drop_Cons')
  have prefix: "prefix = [1] @ route'" "length route' = 32"
    using assms(6) by (auto simp: build_route_tag_prefix_def split: if_splits)
  show "is_message_cell bytes_from prefix c = Inr (route' = route)"
    using prefix args len assms(2-5) by (auto simp: is_message_cell_def sum_bind_def V1_LIMITS_def)
qed

text \<open>
  Watching an outpoint always ends: for any answers of the node, however long they take, the
  watch stops with \<open>spent\<close>, with \<open>timeout\<close> or with an error.
\<close>

theorem outpoint_watch_ends:
  "wp (watch_outpoint_until_spent client h n poll timeout) (\<lambda>r _. r \<noteq> None) (\<lambda>_ _. True) s"
proof -
  have "wp (watch_rounds (Suc (nat t)) client h n p (db_clock s + t)) (\<lambda>r _. r \<noteq> None) (\<lambda>_ _. True) s"
    if "0 < p" "0 < t" for p t :: int
    using that by (intro watch_rounds_end) auto
  then show ?thesis
    by (auto simp: watch_outpoint_until_spent_def wp_rules Let_def split: option.splits)
qed

subsection \<open>A sample message\<close>

definition sample_hash :: blake2b where
  "sample_hash n personal data = replicate n 0"

definition sample_draws :: draws where
  "sample_draws = \<lparr>dw_message_id = replicate 16 1, dw_message_nonce = replicate 16 2, dw_padding = [],
     dw_nonce = replicate 12 9, dw_kem_message = replicate 32 7\<rparr>"

definition sample_assemble :: assemble_params where
  "sample_assemble = \<lparr>as_text = [104, 105, 0x1F600], as_sender = replicate 32 3,
     as_recipient = replicate 32 4, as_kem_public_key = replicate 1184 0, as_device = [],
     as_reply_to = None, as_receipts = [], as_receipt_request = None,
     as_manifests = [], as_content_type = None, as_message_id = None, as_now = 1700000000000,
     as_attachment_envelope = None\<rparr>"

abbreviation sample_sent_payload :: cemp_payload_v1 where
  "sample_sent_payload \<equiv> payload_of sample_draws sample_assemble None"

abbreviation sample_sent_header :: cemp_envelope_header_v1 where
  "sample_sent_header \<equiv> header_of sample_hash sample_sent_payload sample_assemble"

definition sample_wire :: wire_codecs where
  "sample_wire = \<lparr>wc_envelope = one_value \<lparr>env_header = sample_sent_header,
       env_kem_ciphertext = replicate 32 7 @ replicate 1056 0, env_nonce = replicate 12 9,
       env_encrypted_payload = [5] @ replicate 16 0\<rparr> [6],
     wc_header = one_value sample_sent_header [8], wc_payload = one_value sample_sent_payload [5],
     wc_manifest = \<lparr>enc = (\<lambda>_. Inl ''unused''), dec = (\<lambda>_. Inl ''unused'')\<rparr>\<rparr>"

lemma sample_wire_ok: "decodes (wc_envelope sample_wire)" "decodes (wc_payload sample_wire)"
  by (simp_all add: sample_wire_def)

lemma sample_assembled:
  "\<exists>m. assemble_text_message sample_hash sample_suite sample_wire sample_draws sample_assemble = Inr m"
proof -
  have v: "validate_envelope (wc_envelope sample_wire) [6] = Ok"
    by (simp add: validate_envelope_def try_decode_def decode_cemp_envelope_v1_def sample_wire_def
        validate_envelope_fields_def Let_def V1_LIMITS_def cemp_protocol_version_def
        network_ckb_testnet_def is_known_content_type_def content_types_def header_of_def payload_of_def
        sample_assemble_def)
  have l: "length (utf8_encode [104, 105, 0x1F600]) = 6"
    by (simp add: utf8_encode_def utf8_char_def surrogate_def)
  have pv: "validate_payload (wc_payload sample_wire) [5] = Ok"
    by (simp add: validate_payload_def try_decode_def decode_cemp_payload_v1_def sample_wire_def
        validate_payload_fields_def Let_def V1_LIMITS_def content_types_def content_type_text_def l
        payload_of_def sample_assemble_def sample_draws_def)
  have d: "decode_cemp_payload_v1 (wc_payload sample_wire) (Buffer [5]) = Inr sample_sent_payload"
    by (simp add: decode_cemp_payload_v1_def sample_wire_def)
  have f: "as_kem_public_key sample_assemble = replicate 1184 0" "dw_nonce sample_draws = replicate 12 9"
    "dw_kem_message sample_draws = replicate 32 7"
    by (simp_all add: sample_assemble_def sample_draws_def)
  have hd: "hd_sender_profile_id sample_sent_header = replicate 32 3"
    by (simp add: header_of_def sample_assemble_def)
  have h: "check_payload sample_sent_payload sample_sent_header = Inr ()"
    by (simp add: check_payload_def header_of_def)
  have e: "\<exists>r. encrypt_envelope sample_suite sample_wire (dw_nonce sample_draws) (dw_kem_message sample_draws)
      \<lparr>ep_payload = [5], ep_kem_public_key = as_kem_public_key sample_assemble,
       ep_header = sample_sent_header, ep_nonce = None, ep_kem_message = None\<rparr> = Inr r"
    unfolding encrypt_envelope_def Let_def encrypt_params.simps option.case d
    by (simp add: sum_bind_def require_length_def map_error_def h or_error_def f hd
        sample_suite_def aes256_gcm_encrypt_def check_key_and_nonce_def derive_message_key_def
        hkdf_sha256_def encode_cemp_envelope_header_v1_def encode_cemp_envelope_v1_def strict_encode_def
        v [unfolded sample_wire_def, simplified] sample_wire_def)
  have r: "reply_outpoint (as_reply_to sample_assemble) = Inr None"
    "as_attachment_envelope sample_assemble = None"
    by (simp_all add: reply_outpoint_def sample_assemble_def)
  have b: "encode_cemp_payload_v1 (wc_payload sample_wire) sample_sent_payload = Inr [5]"
    by (simp add: encode_cemp_payload_v1_def strict_encode_def sample_wire_def)
  from e show ?thesis
    unfolding assemble_text_message_def r Let_def by (auto simp: sum_bind_def map_error_def b pv)
qed


theorem type_args_found_witness:
  "parse_message_type_args ([1] @ replicate 32 3 @ replicate 16 4 @ replicate 16 5 @ replicate 16 0)
     = Inr \<lparr>ta_route_tag = replicate 32 3, ta_conversation_tag = replicate 16 4, ta_message_nonce = replicate 16 5\<rparr>"
  using type_args_found_and_parsed [of "replicate 32 3" "replicate 16 4" "replicate 16 5" _
      "\<lparr>ic_type_args = Some ''a'', ic_data = ''d'', ic_tx_hash = [], ic_index = []\<rparr>" "''a''"
      "\<lambda>t. if t = ''a'' then Inr ([1] @ replicate 32 3 @ replicate 16 4 @ replicate 16 5 @ replicate 16 0) else Inr []"
      "[]" "replicate 32 3" "[1] @ replicate 32 3"]
  by (simp add: build_message_type_args_def build_route_tag_prefix_def)

end
