(* ===== verification/Cemp_Leases.thy ===== *)
theory Cemp_Leases
  imports Cemp_Messages
begin

text \<open>
  packages/cemp-database/src/repositories/worker-leases.ts: one lease per resource, atomically
  acquired, refreshed by its owner and stolen only after it expired.
\<close>

section \<open>The repository\<close>

definition find_lease :: "string \<Rightarrow> 'x db_scheme \<Rightarrow> worker_lease option" where
  "find_lease r s = List.find (\<lambda>l. wl_resource l = r) (db_leases s)"

definition get_lease :: "string \<Rightarrow> ('x db_scheme, failure, worker_lease option) prog" where
  "get_lease r = asks (find_lease r)"

definition acquire_lease ::
  "string \<Rightarrow> string \<Rightarrow> int \<Rightarrow> int \<Rightarrow> ('x db_scheme, failure, worker_lease option) prog" where
  "acquire_lease r owner ttl t =
     (let fresh = \<lparr>wl_resource = r, wl_owner = owner, wl_acquired_at = t, wl_expires_at = t + ttl\<rparr> in
      atomically (andthen (asks (\<lambda>s. list_ex (\<lambda>l. wl_resource l = r) (db_leases s))) (\<lambda>dup.
      if \<not> dup
      then andthen (modify (\<lambda>s. s\<lparr>db_leases := db_leases s @ [fresh]\<rparr>)) (\<lambda>_. ret (Some fresh))
      else andthen (demand (Db AdapterError) (find_lease r)) (\<lambda>lease.
        if wl_owner lease = owner
        then andthen (modify (\<lambda>s. s\<lparr>db_leases := update_where (\<lambda>l. wl_resource l = r)
               (\<lambda>l. l\<lparr>wl_expires_at := t + ttl\<rparr>) (db_leases s)\<rparr>))
             (\<lambda>_. ret (Some (lease\<lparr>wl_expires_at := t + ttl\<rparr>)))
        else if wl_expires_at lease > t then ret None
        else andthen (modify (\<lambda>s. s\<lparr>db_leases := update_where (\<lambda>l. wl_resource l = r)
               (\<lambda>l. l\<lparr>wl_owner := owner, wl_acquired_at := t, wl_expires_at := t + ttl\<rparr>) (db_leases s)\<rparr>))
             (\<lambda>_. ret (Some fresh))))))"

definition release_lease :: "string \<Rightarrow> string \<Rightarrow> ('x db_scheme, failure, unit) prog" where
  "release_lease r owner = modify (\<lambda>s. s\<lparr>db_leases :=
     filter (\<lambda>l. \<not> (wl_resource l = r \<and> wl_owner l = owner)) (db_leases s)\<rparr>)"

definition prune_expired :: "int \<Rightarrow> ('x db_scheme, failure, nat) prog" where
  "prune_expired t = andthen (asks (\<lambda>s. changes (\<lambda>l. wl_expires_at l \<le> t) (db_leases s))) (\<lambda>n.
     andthen (modify (\<lambda>s. s\<lparr>db_leases := filter (\<lambda>l. \<not> wl_expires_at l \<le> t) (db_leases s)\<rparr>)) (\<lambda>_. ret n))"

section \<open>Lemmas\<close>

lemma find_lease_updated:
  "(\<And>l. wl_resource (f l) = wl_resource l) \<Longrightarrow>
     find_lease q (s\<lparr>db_leases := update_where (\<lambda>l. wl_resource l = r) f (db_leases s)\<rparr>)
       = (if q = r then map_option f (find_lease q s) else find_lease q s)"
proof -
  assume f: "\<And>l. wl_resource (f l) = wl_resource l"
  have "List.find (\<lambda>l. wl_resource l = q) (update_where (\<lambda>l. wl_resource l = r) f rows)
     = (if q = r then map_option f (List.find (\<lambda>l. wl_resource l = q) rows)
        else List.find (\<lambda>l. wl_resource l = q) rows)" for rows
    by (induction rows) (auto simp: update_where_def f)
  then show ?thesis by (simp add: find_lease_def)
qed

text \<open>The outcome of an acquisition, in terms of the row found.\<close>

lemma wp_acquire_lease:
  "wp (acquire_lease r owner ttl t) Q E s =
     (let fresh = \<lparr>wl_resource = r, wl_owner = owner, wl_acquired_at = t, wl_expires_at = t + ttl\<rparr> in
      case find_lease r s of
        None \<Rightarrow> Q (Some fresh) (s\<lparr>db_leases := db_leases s @ [fresh]\<rparr>)
      | Some l \<Rightarrow>
          if wl_owner l = owner
          then Q (Some (l\<lparr>wl_expires_at := t + ttl\<rparr>)) (s\<lparr>db_leases := update_where (\<lambda>l. wl_resource l = r)
                 (\<lambda>l. l\<lparr>wl_expires_at := t + ttl\<rparr>) (db_leases s)\<rparr>)
          else if wl_expires_at l > t then Q None s
          else Q (Some fresh) (s\<lparr>db_leases := update_where (\<lambda>l. wl_resource l = r)
                 (\<lambda>l. l\<lparr>wl_owner := owner, wl_acquired_at := t, wl_expires_at := t + ttl\<rparr>) (db_leases s)\<rparr>))"
proof (cases "find_lease r s")
  case None
  then have "\<not> list_ex (\<lambda>l. wl_resource l = r) (db_leases s)"
    by (simp add: find_lease_def find_None_list_ex)
  with None show ?thesis by (simp add: acquire_lease_def Let_def wp_rules)
next
  case (Some l)
  then have "list_ex (\<lambda>l. wl_resource l = r) (db_leases s)"
    using find_None_list_ex [of "\<lambda>l. wl_resource l = r" "db_leases s"] by (auto simp: find_lease_def)
  with Some show ?thesis by (simp add: acquire_lease_def Let_def wp_rules)
qed

lemma find_lease_append:
  "find_lease q (s\<lparr>db_leases := db_leases s @ [l]\<rparr>) =
     (case find_lease q s of Some x \<Rightarrow> Some x | None \<Rightarrow> if wl_resource l = q then Some l else None)"
  by (auto simp: find_lease_def find_append split: option.splits)

lemma find_lease_resource: "find_lease r s = Some l \<Longrightarrow> wl_resource l = r"
  by (auto simp: find_lease_def dest: find_some_mem)

lemma find_filter: "List.find p xs = Some x \<Longrightarrow> q x \<Longrightarrow> List.find p (filter q xs) = Some x"
  by (induction xs) (auto split: if_splits)

lemma leases_keep_history:
  "keeps_history (acquire_lease r w ttl t)" "keeps_history (release_lease r w)"
  "keeps_history (prune_expired t)" "keeps_history (get_lease r)"
  by (auto simp: acquire_lease_def release_lease_def prune_expired_def get_lease_def Let_def
      intro!: keeps_rules)

subsection \<open>Sequences of lease operations\<close>

datatype lease_op =
    Acquire string string int int
  | ReleaseLease string string
  | PruneExpired int

fun run_lease_op :: "lease_op \<Rightarrow> 'x db_scheme \<Rightarrow> 'x db_scheme" where
  "run_lease_op (Acquire r w ttl t) s = snd (acquire_lease r w ttl t s)"
| "run_lease_op (ReleaseLease r w) s = snd (release_lease r w s)"
| "run_lease_op (PruneExpired t) s = snd (prune_expired t s)"

text \<open>An operation of somebody else, before the lease of \<open>a\<close> on \<open>r\<close> expires at \<open>u\<close>.\<close>

fun foreign_before :: "string \<Rightarrow> string \<Rightarrow> int \<Rightarrow> lease_op \<Rightarrow> bool" where
  "foreign_before r a u (Acquire r' w ttl t) = (t < u \<and> (r', w) \<noteq> (r, a))"
| "foreign_before r a u (ReleaseLease r' w) = ((r', w) \<noteq> (r, a))"
| "foreign_before r a u (PruneExpired t) = (t < u)"

definition holds :: "string \<Rightarrow> string \<Rightarrow> int \<Rightarrow> 'x db_scheme \<Rightarrow> bool" where
  "holds r a u s \<longleftrightarrow> (\<exists>l. find_lease r s = Some l \<and> wl_owner l = a \<and> wl_expires_at l = u)"

lemma holds_step:
  assumes "holds r a u s" and "foreign_before r a u op"
  shows "holds r a u (run_lease_op op s)"
proof (cases op)
  case (Acquire r' w ttl t)
  have "wp (acquire_lease r' w ttl t) (\<lambda>_. holds r a u) (\<lambda>_. holds r a u) s"
    using assms Acquire
    by (auto simp: wp_acquire_lease Let_def holds_def find_lease_append find_lease_updated
        split: option.splits)
  then show ?thesis using Acquire by (simp add: wp_def split: prod.splits sum.splits)
next
  case (ReleaseLease r' w)
  from assms(1) obtain l where l: "List.find (\<lambda>l. wl_resource l = r) (db_leases s) = Some l"
      "wl_owner l = a" "wl_expires_at l = u"
    by (auto simp: holds_def find_lease_def)
  moreover have "\<not> (wl_resource l = r' \<and> wl_owner l = w)"
    using find_some_mem [OF l(1)] l(2) assms(2) ReleaseLease by auto
  ultimately show ?thesis
    using find_filter [OF l(1), of "\<lambda>l. \<not> (wl_resource l = r' \<and> wl_owner l = w)"] ReleaseLease
    by (simp add: holds_def release_lease_def modify_def find_lease_def)
next
  case (PruneExpired t)
  from assms(1) obtain l where l: "List.find (\<lambda>l. wl_resource l = r) (db_leases s) = Some l"
      "wl_owner l = a" "wl_expires_at l = u"
    by (auto simp: holds_def find_lease_def)
  then show ?thesis
    using find_filter [OF l(1), of "\<lambda>l. \<not> wl_expires_at l \<le> t"] assms(2) PruneExpired
    by (simp add: holds_def prune_expired_def prog_defs find_lease_def)
qed

lemma holds_steps:
  "holds r a u s \<Longrightarrow> list_all (foreign_before r a u) ops \<Longrightarrow> holds r a u (fold run_lease_op ops s)"
  by (induction ops arbitrary: s) (auto simp: holds_step)

section \<open>Properties\<close>

text \<open>
  C34. A live lease is exclusive: once \<open>a\<close> acquired the resource, whatever the other owners do
  and whichever leases are pruned before it expires, every attempt of another owner to acquire
  it before that time comes back empty-handed and changes nothing.
\<close>

theorem live_lease_is_exclusive:
  assumes "acquire_lease r a ttl t s = (Inr (Some l), s')"
    and "list_all (foreign_before r a (wl_expires_at l)) ops"
    and "b \<noteq> a" and "t' < wl_expires_at l"
  shows "acquire_lease r b ttl' t' (fold run_lease_op ops s') = (Inr None, fold run_lease_op ops s')"
proof -
  have "wp (acquire_lease r a ttl t)
      (\<lambda>x s'. \<forall>l. x = Some l \<longrightarrow> holds r a (wl_expires_at l) s') (\<lambda>_ _. True) s"
    by (auto simp: wp_acquire_lease Let_def holds_def find_lease_append find_lease_updated
        split: option.splits)
  from wp_result [OF this assms(1)] have "holds r a (wl_expires_at l) s'" by simp
  from holds_steps [OF this assms(2)] have "holds r a (wl_expires_at l) (fold run_lease_op ops s')" .
  with assms(3,4) show ?thesis
    by (intro wp_eqI) (auto simp: wp_acquire_lease Let_def holds_def)
qed

theorem live_lease_is_exclusive_witness:
  "let s = snd (acquire_lease ''reclaim:batch'' ''a'' 100 0 empty_db) in
   acquire_lease ''reclaim:batch'' ''b'' 100 99
     (fold run_lease_op [PruneExpired 50, ReleaseLease ''reclaim:batch'' ''b''] s)
   = (Inr None, fold run_lease_op [PruneExpired 50, ReleaseLease ''reclaim:batch'' ''b''] s)"
proof -
  let ?s = "snd (acquire_lease ''reclaim:batch'' ''a'' 100 0 empty_db)"
  have "acquire_lease ''reclaim:batch'' ''a'' 100 0 empty_db
      = (Inr (Some \<lparr>wl_resource = ''reclaim:batch'', wl_owner = ''a'', wl_acquired_at = 0,
           wl_expires_at = 100\<rparr>), ?s)"
    by (simp add: acquire_lease_def prog_defs empty_db_def Let_def)
  from live_lease_is_exclusive [OF this, of "[PruneExpired 50, ReleaseLease ''reclaim:batch'' ''b'']"
      "''b''" 99 100]
  show ?thesis unfolding Let_def by simp
qed

text \<open>
  No lease wedges a resource: an acquisition succeeds exactly when the resource is free,
  already held by the same owner, or held by an expired lease, and the lease then granted runs
  for the requested time from now.
\<close>

theorem acquisition_exact:
  "(\<exists>l s'. acquire_lease r owner ttl t s = (Inr (Some l), s') \<and> wl_resource l = r \<and> wl_owner l = owner
      \<and> wl_expires_at l = t + ttl \<and> find_lease r s' = Some l)
   = (case find_lease r s of None \<Rightarrow> True | Some l \<Rightarrow> wl_owner l = owner \<or> wl_expires_at l \<le> t)"
    (is "?granted = ?free")
proof
  assume free: ?free
  have "wp (acquire_lease r owner ttl t) (\<lambda>x s'. \<exists>l. x = Some l \<and> wl_resource l = r \<and> wl_owner l = owner
      \<and> wl_expires_at l = t + ttl \<and> find_lease r s' = Some l) (\<lambda>_ _. False) s"
  proof (cases "find_lease r s")
    case None
    then show ?thesis by (simp add: wp_acquire_lease Let_def find_lease_append)
  next
    case (Some l)
    then have "l\<lparr>wl_owner := owner, wl_acquired_at := t, wl_expires_at := t + ttl\<rparr>
        = \<lparr>wl_resource = r, wl_owner = owner, wl_acquired_at = t, wl_expires_at = t + ttl\<rparr>"
      using find_lease_resource [OF Some] by (cases l) simp
    with Some free find_lease_resource [OF Some] show ?thesis
      by (auto simp: wp_acquire_lease Let_def find_lease_updated)
  qed
  then show ?granted
    by (cases "acquire_lease r owner ttl t s") (auto simp: wp_def split: sum.splits)
next
  assume ?granted
  then obtain l s' where run: "acquire_lease r owner ttl t s = (Inr (Some l), s')" by blast
  have "wp (acquire_lease r owner ttl t) (\<lambda>x _. x \<noteq> None \<longrightarrow> ?free) (\<lambda>_ _. True) s"
    by (auto simp: wp_acquire_lease Let_def split: option.splits)
  from wp_result [OF this run] show ?free by simp
qed

end
