(* ===== verification/Cemp_RateLimit.thy ===== *)
theory Cemp_RateLimit
  imports Cemp_Messages
begin

text \<open>
  The key-value tables of packages/cemp-database/src/repositories (sync-cursors.ts,
  rate-limits.ts, local-settings.ts) and the token-bucket limiter of
  packages/cemp-ckb/src/rate-limit.ts on top of one of them.

  The locale \<open>kv_store\<close> is the contract of such a table: reading returns what was last written
  under the key and writing one key leaves the others alone. The limiter takes the two operations
  of its store as arguments, as its constructor does; its bound is proved once for every store
  that keeps the contract. Token levels are doubles in the code and rationals here, so rounding
  is not modelled.
\<close>

section \<open>Key-value tables\<close>

definition get_cursor :: "string \<Rightarrow> ('x db_scheme, failure, string option) prog" where
  "get_cursor w = asks (\<lambda>s. map_option fst (db_cursors s w))"

definition set_cursor :: "string \<Rightarrow> string \<Rightarrow> ('x db_scheme, failure, unit) prog" where
  "set_cursor w c = andthen now (\<lambda>t. modify (\<lambda>s. s\<lparr>db_cursors := (db_cursors s)(w \<mapsto> (c, t))\<rparr>))"

definition delete_cursor :: "string \<Rightarrow> ('x db_scheme, failure, unit) prog" where
  "delete_cursor w = modify (\<lambda>s. s\<lparr>db_cursors := (db_cursors s)(w := None)\<rparr>)"

definition get_bucket :: "string \<Rightarrow> ('x db_scheme, failure, (rat \<times> int) option) prog" where
  "get_bucket b = asks (\<lambda>s. db_buckets s b)"

definition set_bucket :: "string \<Rightarrow> rat \<times> int \<Rightarrow> ('x db_scheme, failure, unit) prog" where
  "set_bucket b st = modify (\<lambda>s. s\<lparr>db_buckets := (db_buckets s)(b \<mapsto> st)\<rparr>)"

definition delete_bucket :: "string \<Rightarrow> ('x db_scheme, failure, unit) prog" where
  "delete_bucket b = modify (\<lambda>s. s\<lparr>db_buckets := (db_buckets s)(b := None)\<rparr>)"

definition get_setting :: "string \<Rightarrow> ('x db_scheme, failure, string option) prog" where
  "get_setting k = asks (\<lambda>s. db_settings s k)"

definition set_setting :: "string \<Rightarrow> string \<Rightarrow> ('x db_scheme, failure, unit) prog" where
  "set_setting k v = modify (\<lambda>s. s\<lparr>db_settings := (db_settings s)(k \<mapsto> v)\<rparr>)"

section \<open>The limiter\<close>

record rate_config =
  per_contact_per_hour :: rat
  global_per_hour :: rat

definition default_rate_limits :: rate_config where
  "default_rate_limits = \<lparr>per_contact_per_hour = 60, global_per_hour = 600\<rparr>"

definition hour_ms :: int where
  "hour_ms = 3600000"

fun scope_name :: "direction \<Rightarrow> string" where
  "scope_name Outgoing = ''outgoing''"
| "scope_name Incoming = ''incoming''"

definition bucket_key :: "direction \<Rightarrow> string \<Rightarrow> string" where
  "bucket_key scope x = scope_name scope @ '':'' @ x"

definition refill ::
  "(string \<Rightarrow> ('s, 'e, (rat \<times> int) option) prog) \<Rightarrow> (string \<Rightarrow> rat \<times> int \<Rightarrow> ('s, 'e, unit) prog)
     \<Rightarrow> string \<Rightarrow> rat \<Rightarrow> int \<Rightarrow> ('s, 'e, rat) prog" where
  "refill gt st bucket per_hour t = andthen (gt bucket) (\<lambda>existing. case existing of
       None \<Rightarrow> andthen (st bucket (per_hour, t)) (\<lambda>_. ret per_hour)
     | Some (tokens, updated) \<Rightarrow>
         (let elapsed = max 0 (t - updated) in
          ret (min per_hour (tokens + of_int elapsed / of_int hour_ms * per_hour))))"

definition consume ::
  "(string \<Rightarrow> ('s, 'e, (rat \<times> int) option) prog) \<Rightarrow> (string \<Rightarrow> rat \<times> int \<Rightarrow> ('s, 'e, unit) prog)
     \<Rightarrow> rate_config \<Rightarrow> direction \<Rightarrow> string option \<Rightarrow> int \<Rightarrow> ('s, 'e, bool) prog" where
  "consume gt st cfg scope profile t =
     andthen (refill gt st (bucket_key scope ''global'') (global_per_hour cfg) t) (\<lambda>global.
     case profile of
       None \<Rightarrow>
         if global < 1 then ret False
         else andthen (st (bucket_key scope ''global'') (global - 1, t)) (\<lambda>_. ret True)
     | Some p \<Rightarrow>
         andthen (refill gt st (bucket_key scope p) (per_contact_per_hour cfg) t) (\<lambda>contact.
         if contact < 1 \<or> global < 1 then ret False
         else andthen (st (bucket_key scope p) (contact - 1, t)) (\<lambda>_.
              andthen (st (bucket_key scope ''global'') (global - 1, t)) (\<lambda>_. ret True))))"

definition rate_available ::
  "(string \<Rightarrow> ('s, 'e, (rat \<times> int) option) prog) \<Rightarrow> (string \<Rightarrow> rat \<times> int \<Rightarrow> ('s, 'e, unit) prog)
     \<Rightarrow> rate_config \<Rightarrow> direction \<Rightarrow> string \<Rightarrow> int \<Rightarrow> ('s, 'e, int) prog" where
  "rate_available gt st cfg scope p t =
     andthen (refill gt st (bucket_key scope p) (per_contact_per_hour cfg) t) (\<lambda>x. ret \<lfloor>x\<rfloor>)"

text \<open>A sequence of calls at the given times, and how many messages were granted against a
  bucket.\<close>

definition consume_all ::
  "(string \<Rightarrow> ('s, 'e, (rat \<times> int) option) prog) \<Rightarrow> (string \<Rightarrow> rat \<times> int \<Rightarrow> ('s, 'e, unit) prog)
     \<Rightarrow> rate_config \<Rightarrow> direction \<Rightarrow> (int \<times> string option) list \<Rightarrow> ('s, 'e, bool list) prog" where
  "consume_all gt st cfg scope calls = map_prog (\<lambda>(t, p). consume gt st cfg scope p t) calls"

definition charged :: "direction \<Rightarrow> string \<Rightarrow> string option \<Rightarrow> bool" where
  "charged scope b p \<longleftrightarrow> b = bucket_key scope ''global'' \<or> map_option (bucket_key scope) p = Some b"

definition granted :: "direction \<Rightarrow> string \<Rightarrow> (int \<times> string option) list \<Rightarrow> bool list \<Rightarrow> nat" where
  "granted scope b calls oks =
     length (filter (\<lambda>((t, p), ok). ok \<and> charged scope b p) (zip calls oks))"

definition bucket_rate :: "rate_config \<Rightarrow> direction \<Rightarrow> string \<Rightarrow> rat" where
  "bucket_rate cfg scope b =
     (if b = bucket_key scope ''global'' then global_per_hour cfg else per_contact_per_hour cfg)"

section \<open>The store contract\<close>

text \<open>The level a refill at time \<open>t\<close> finds in a bucket.\<close>

definition level :: "rat \<Rightarrow> (rat \<times> int) option \<Rightarrow> int \<Rightarrow> rat" where
  "level r v t = (case v of None \<Rightarrow> r
     | Some (k, u) \<Rightarrow> min r (k + of_int (max 0 (t - u)) / of_int hour_ms * r))"

lemma level_le: "level r v t \<le> r"
  by (auto simp: level_def split: option.splits)

lemma level_now [simp]: "level r (Some (k, t)) t = min r k"
  by (simp add: level_def)

lemma level_none [simp]: "level r None t = r"
  by (simp add: level_def)

lemma level_spend [simp]: "min r (level r v t - 1) = level r v t - 1"
  using level_le [of r v t] by simp

lemma bucket_key_inject [simp]: "bucket_key scope x = bucket_key scope y \<longleftrightarrow> x = y"
  by (simp add: bucket_key_def)

lemma level_grows:
  assumes "0 \<le> r" and "t \<le> t'"
  shows "level r v t' \<le> level r v t + r * (of_int (t' - t) / of_int hour_ms)"
proof (cases v)
  case None
  then show ?thesis using assms by (simp add: level_def hour_ms_def)
next
  case (Some ku)
  obtain k u where ku: "ku = (k, u)" by (cases ku)
  have "max 0 (t' - u) \<le> max 0 (t - u) + (t' - t)" using assms(2) by simp
  then have "(of_int (max 0 (t' - u)) :: rat) \<le> of_int (max 0 (t - u)) + of_int (t' - t)"
    by (metis of_int_add of_int_le_iff)
  then have "of_int (max 0 (t' - u)) / of_int hour_ms * r
      \<le> (of_int (max 0 (t - u)) + of_int (t' - t)) / of_int hour_ms * r"
    using assms(1) by (intro mult_right_mono divide_right_mono) (simp_all add: hour_ms_def)
  also have "\<dots> = of_int (max 0 (t - u)) / of_int hour_ms * r + r * (of_int (t' - t) / of_int hour_ms)"
    by (simp add: add_divide_distrib diff_divide_distrib algebra_simps)
  finally have step: "of_int (max 0 (t' - u)) / of_int hour_ms * r \<le> \<dots>" .
  have "0 \<le> r * (of_int (t' - t) / of_int hour_ms)"
    using assms by (simp add: hour_ms_def)
  with step show ?thesis
    unfolding level_def Some ku by simp
qed

locale kv_store =
  fixes view :: "'s \<Rightarrow> string \<Rightarrow> 'v option"
    and get :: "string \<Rightarrow> ('s, 'e, 'v option) prog"
    and put :: "string \<Rightarrow> 'v \<Rightarrow> ('s, 'e, unit) prog"
  assumes get_view: "get k s = (Inr (view s k), s)"
    and put_view: "\<exists>s'. put k v s = (Inr (), s') \<and> view s' = (view s)(k \<mapsto> v)"
begin

lemma read_after_write: "andthen (put k v) (\<lambda>_. get j) s = (Inr (if j = k then Some v else view s j),
    snd (put k v s))"
  using put_view [of k v s] by (auto simp: andthen_def get_view)

end

locale limiter_store = kv_store view get put
  for view :: "'s \<Rightarrow> string \<Rightarrow> (rat \<times> int) option"
    and get :: "string \<Rightarrow> ('s, 'e, (rat \<times> int) option) prog"
    and put :: "string \<Rightarrow> rat \<times> int \<Rightarrow> ('s, 'e, unit) prog"
begin

lemma wp_get: "wp (get k) Q E s = Q (view s k) s"
  by (simp add: wp_def get_view)

lemma wp_put: "(\<And>s'. view s' = (view s)(k \<mapsto> v) \<Longrightarrow> Q () s') \<Longrightarrow> wp (put k v) Q E s"
  using put_view [of k v s] by (auto simp: wp_def)

lemma wp_refill:
  assumes "\<And>s'. (\<And>c. c \<noteq> b \<Longrightarrow> view s' c = view s c) \<Longrightarrow>
    level r (view s' b) t = level r (view s b) t \<Longrightarrow> Q (level r (view s b) t) s'"
  shows "wp (refill get put b r t) Q E s"
proof (cases "view s b")
  case None
  then show ?thesis using assms by (simp add: refill_def wp_rules wp_get) (rule wp_put, simp)
next
  case (Some ku)
  then show ?thesis using assms [of s]
    by (cases ku) (simp add: refill_def wp_rules wp_get level_def Let_def)
qed

text \<open>One call changes the level of the buckets it charges by the granted message, and of no
  other bucket.\<close>

lemma consume_levels:
  assumes "profile \<noteq> Some ''global''"
  shows "wp (consume get put cfg scope profile t) (\<lambda>ok s'. \<forall>b.
      level (bucket_rate cfg scope b) (view s' b) t
        = level (bucket_rate cfg scope b) (view s b) t - (if ok \<and> charged scope b profile then 1 else 0)
      \<and> (ok \<and> charged scope b profile \<longrightarrow> 1 \<le> level (bucket_rate cfg scope b) (view s b) t))
    (\<lambda>_ _. False) s"
  using assms
  by (auto simp: consume_def wp_rules bucket_rate_def charged_def split: option.splits
      intro!: wp_refill wp_put) (metis+)

lemma consume_all_bound:
  assumes "consume_all get put cfg scope calls s = (Inr oks, s')"
    and "list_all (\<lambda>(t, p). t0 \<le> t \<and> t \<le> tn \<and> p \<noteq> Some ''global'') calls"
    and "sorted (map fst calls)" and "t0 \<le> tn" and "0 \<le> bucket_rate cfg scope b"
  shows "of_nat (granted scope b calls oks) \<le> max 0 (level (bucket_rate cfg scope b) (view s b) t0
    + bucket_rate cfg scope b * (of_int (tn - t0) / of_int hour_ms))"
  using assms(1-4)
proof (induction calls arbitrary: s oks t0)
  case Nil
  then show ?case by (simp add: consume_all_def prog_defs granted_def)
next
  case (Cons call calls)
  obtain t p where call: "call = (t, p)" by (cases call)
  let ?r = "bucket_rate cfg scope b"
  obtain ok s1 where first: "consume get put cfg scope p t s = (Inr ok, s1)"
    and lv: "level ?r (view s1 b) t = level ?r (view s b) t - (if ok \<and> charged scope b p then 1 else 0)"
      "ok \<and> charged scope b p \<longrightarrow> 1 \<le> level ?r (view s b) t"
    using consume_levels [of p cfg scope t s] Cons.prems(2) call
    by (cases "consume get put cfg scope p t s") (auto simp: wp_def split: sum.splits)
  obtain oks' where rest: "consume_all get put cfg scope calls s1 = (Inr oks', s')" "oks = ok # oks'"
    using Cons.prems(1) first call
    by (auto simp: consume_all_def prog_defs split: prod.splits sum.splits)
  have t: "t0 \<le> t" "t \<le> tn" "list_all (\<lambda>(t', p). t \<le> t' \<and> t' \<le> tn \<and> p \<noteq> Some ''global'') calls"
    using Cons.prems(2,3) call by (auto simp: list_all_iff)
  have IH: "of_nat (granted scope b calls oks')
      \<le> max 0 (level ?r (view s1 b) t + ?r * (of_int (tn - t) / of_int hour_ms))"
    using Cons.IH [OF rest(1) t(3)] Cons.prems(3) t(2) by simp
  have "?r * (of_int (tn - t0) / of_int hour_ms)
      = ?r * (of_int (t - t0) / of_int hour_ms) + ?r * (of_int (tn - t) / of_int hour_ms)"
    by (simp add: diff_divide_distrib algebra_simps)
  moreover have "level ?r (view s b) t \<le> level ?r (view s b) t0 + ?r * (of_int (t - t0) / of_int hour_ms)"
    using level_grows assms(5) t(1) by blast
  moreover have "0 \<le> ?r * (of_int (tn - t) / of_int hour_ms)"
    using assms(5) t(2) by (simp add: hour_ms_def)
  moreover have "(of_nat (granted scope b (call # calls) oks) :: rat)
      = (if ok \<and> charged scope b p then 1 else 0) + of_nat (granted scope b calls oks')"
    using call rest(2) by (simp add: granted_def)
  ultimately show ?case
    using IH lv by (auto simp: max_def split: if_splits)
qed

end

section \<open>The tables keep the contract\<close>

interpretation cursors: kv_store "\<lambda>s k. map_option fst (db_cursors s k)" get_cursor set_cursor
  by unfold_locales (auto simp: get_cursor_def set_cursor_def now_def prog_defs fun_eq_iff)

interpretation settings: kv_store db_settings get_setting set_setting
  by unfold_locales (auto simp: get_setting_def set_setting_def prog_defs)

interpretation buckets: limiter_store db_buckets get_bucket set_bucket
  by unfold_locales (auto simp: get_bucket_def set_bucket_def prog_defs)

lemma sorted_range:
  fixes f :: "'a \<Rightarrow> 'b :: linorder"
  shows "sorted (map f xs) \<Longrightarrow> x \<in> set xs \<Longrightarrow> f (hd xs) \<le> f x \<and> f x \<le> f (last xs)"
  by (induction xs) auto

section \<open>Properties\<close>

text \<open>
  C36. The rate limit holds over any window: in a sequence of calls with a clock that does not run
  backwards, whatever the persisted bucket state was, the messages granted against a bucket, the
  one of a contact or the global one, are at most its hourly rate once (the burst) and its rate
  times the length of the window.
\<close>

theorem rate_limit_bound:
  assumes "consume_all get_bucket set_bucket cfg scope calls s = (Inr oks, s')"
    and "sorted (map fst calls)" and "calls \<noteq> []" and "\<forall>p \<in> set (map snd calls). p \<noteq> Some ''global''"
    and "0 \<le> bucket_rate cfg scope b"
  shows "of_nat (granted scope b calls oks) \<le> bucket_rate cfg scope b
    + bucket_rate cfg scope b * (of_int (fst (last calls) - fst (hd calls)) / of_int hour_ms)"
proof -
  let ?r = "bucket_rate cfg scope b" and ?t0 = "fst (hd calls)" and ?tn = "fst (last calls)"
  have range: "?t0 \<le> fst c \<and> fst c \<le> ?tn" if "c \<in> set calls" for c
    by (rule sorted_range [OF assms(2) that])
  have "?t0 \<le> t \<and> t \<le> ?tn \<and> p \<noteq> Some ''global''" if "(t, p) \<in> set calls" for t p
  proof -
    have "p \<in> set (map snd calls)" using that by (force simp: image_iff)
    with assms(4) have "p \<noteq> Some ''global''" by blast
    then show ?thesis using range [OF that] by simp
  qed
  then have all: "list_all (\<lambda>(t, p). ?t0 \<le> t \<and> t \<le> ?tn \<and> p \<noteq> Some ''global'') calls"
    by (auto simp: list_all_iff)
  have le: "?t0 \<le> ?tn" using range [of "hd calls"] assms(3) by simp
  have "of_nat (granted scope b calls oks)
      \<le> max 0 (level ?r (db_buckets s b) ?t0 + ?r * (of_int (?tn - ?t0) / of_int hour_ms))"
    by (rule buckets.consume_all_bound [OF assms(1) all assms(2) le assms(5)])
  moreover have "0 \<le> ?r * (of_int (?tn - ?t0) / of_int hour_ms)"
    using assms(5) le by (simp add: hour_ms_def)
  ultimately show ?thesis
    using level_le [of ?r "db_buckets s b" ?t0] assms(5) by linarith
qed

definition sample_calls :: "(int \<times> string option) list" where
  "sample_calls = [(0, Some ''ab''), (1000, Some ''ab''), (2000, Some ''ab'')]"

theorem rate_limit_bound_witness:
  "let cfg = \<lparr>per_contact_per_hour = 2, global_per_hour = 10\<rparr>;
       run = consume_all get_bucket set_bucket cfg Outgoing sample_calls empty_db
   in fst run = Inr [True, True, False] \<and>
      rat_of_nat (granted Outgoing ''outgoing:ab'' sample_calls [True, True, False])
        \<le> 2 + 2 * (of_int (2000 - 0) / of_int hour_ms)"
proof -
  let ?cfg = "\<lparr>per_contact_per_hour = 2, global_per_hour = 10\<rparr> :: rate_config"
  let ?run = "consume_all get_bucket set_bucket ?cfg Outgoing sample_calls empty_db"
  have run: "fst ?run = Inr [True, True, False]"
    by (simp add: consume_all_def sample_calls_def consume_def refill_def get_bucket_def
        set_bucket_def bucket_key_def prog_defs empty_db_def hour_ms_def Let_def)
  then have "?run = (Inr [True, True, False], snd ?run)" by (metis prod.collapse)
  from rate_limit_bound [OF this, of "''outgoing:ab''"] run show ?thesis
    by (simp add: sample_calls_def bucket_rate_def bucket_key_def Let_def)
qed

end
