(* ===== verification/Cemp_Sync.thy ===== *)
theory Cemp_Sync
  imports Cemp_Leases Cemp_RateLimit Cemp_Text
begin

text \<open>
  packages/cemp-sync: the retry policy (retry.ts), the endpoint rotation (endpoints.ts) and the
  engine that runs the background workers under leases (engine.ts).

  Numbers of the retry policy are doubles in the code and rationals here. The scheduler is the
  reference scheduler of engine.ts, which records intent; its two maps are part of the state, next
  to the database. The body of a worker is an arbitrary program.
\<close>

section \<open>Backoff\<close>

record backoff =
  bo_base :: rat
  bo_multiplier :: rat
  bo_cap :: rat
  bo_jitter :: rat

definition default_backoff :: backoff where
  "default_backoff = \<lparr>bo_base = 30000, bo_multiplier = 2, bo_cap = 30 * 60000, bo_jitter = 1/4\<rparr>"

text \<open>\<open>Math.round\<close>: the nearest integer, and upwards from the middle.\<close>

definition js_round :: "rat \<Rightarrow> int" where
  "js_round x = \<lfloor>x + 1/2\<rfloor>"

definition nominal_delay :: "backoff \<Rightarrow> nat \<Rightarrow> rat" where
  "nominal_delay b attempt = min (bo_cap b) (bo_base b * bo_multiplier b ^ attempt)"

definition jittered :: "backoff \<Rightarrow> nat \<Rightarrow> rat \<Rightarrow> int" where
  "jittered b attempt r =
     (let nominal = nominal_delay b attempt; spread = nominal * bo_jitter b
      in js_round (nominal - spread + 2 * spread * r))"

text \<open>\<open>draw\<close> is the random source, uniform in \<open>[0, 1)\<close>.\<close>

definition backoff_delay :: "backoff \<Rightarrow> ('s, failure, rat) prog \<Rightarrow> int \<Rightarrow> ('s, failure, int) prog" where
  "backoff_delay b draw attempt =
     (if attempt < 0 then throw (OtherError ''backoff: attempt is not a non-negative integer'')
      else andthen draw (\<lambda>r. ret (jittered b (nat attempt) r)))"

section \<open>Endpoint rotation\<close>

text \<open>\<open>parse\<close> reads the number in the field \<open>index\<close> of a JSON object and fails on everything else;
  \<open>render\<close> writes such an object. The index is a rational because JSON numbers need not be
  integers.\<close>

record rotator =
  ro_index :: rat
  ro_failures :: nat
  ro_loaded :: bool

definition new_rotator :: rotator where
  "new_rotator = \<lparr>ro_index = 0, ro_failures = 0, ro_loaded = False\<rparr>"

definition cursor_name :: string where
  "cursor_name = ''endpoint-rotation''"

definition load_rotator ::
  "(string \<Rightarrow> rat option) \<Rightarrow> 'e list \<Rightarrow> rotator \<Rightarrow> ('x db_scheme, failure, rotator) prog" where
  "load_rotator parse endpoints r =
     (if ro_loaded r then ret r
      else andthen (get_cursor cursor_name) (\<lambda>raw.
        ret (case Option.bind raw parse of
            None \<Rightarrow> r\<lparr>ro_loaded := True\<rparr>
          | Some i \<Rightarrow> if 0 \<le> i \<and> i < of_nat (length endpoints) then r\<lparr>ro_index := i, ro_loaded := True\<rparr>
              else r\<lparr>ro_loaded := True\<rparr>)))"

text \<open>\<open>endpoints[index]\<close>: undefined unless the index is a whole number in range.\<close>

definition element_at :: "'e list \<Rightarrow> rat \<Rightarrow> 'e option" where
  "element_at xs i = (if i = of_int \<lfloor>i\<rfloor> \<and> 0 \<le> i \<and> i < of_nat (length xs) then Some (xs ! nat \<lfloor>i\<rfloor>) else None)"

definition current_endpoint ::
  "(string \<Rightarrow> rat option) \<Rightarrow> 'e list \<Rightarrow> rotator \<Rightarrow> ('x db_scheme, failure, 'e option \<times> rotator) prog" where
  "current_endpoint parse endpoints r =
     andthen (load_rotator parse endpoints r) (\<lambda>r. ret (element_at endpoints (ro_index r), r))"

definition report_success ::
  "(string \<Rightarrow> rat option) \<Rightarrow> 'e list \<Rightarrow> rotator \<Rightarrow> ('x db_scheme, failure, rotator) prog" where
  "report_success parse endpoints r =
     andthen (load_rotator parse endpoints r) (\<lambda>r. ret (r\<lparr>ro_failures := 0\<rparr>))"

text \<open>\<open>(index + 1) % n\<close> on a number that need not be whole.\<close>

definition next_index :: "rat \<Rightarrow> nat \<Rightarrow> rat" where
  "next_index i n = i + 1 - of_nat n * of_int \<lfloor>(i + 1) / of_nat n\<rfloor>"

definition report_failure ::
  "(string \<Rightarrow> rat option) \<Rightarrow> (rat \<Rightarrow> string) \<Rightarrow> nat \<Rightarrow> 'e list \<Rightarrow> rotator \<Rightarrow>
     ('x db_scheme, failure, bool \<times> rotator) prog" where
  "report_failure parse render threshold endpoints r0 =
     andthen (load_rotator parse endpoints r0) (\<lambda>r.
     let failures = ro_failures r + 1 in
     if failures < threshold \<or> length endpoints = 1 then ret (False, r\<lparr>ro_failures := failures\<rparr>)
     else let i = next_index (ro_index r) (length endpoints) in
       andthen (set_cursor cursor_name (render i)) (\<lambda>_. ret (True, r\<lparr>ro_index := i, ro_failures := 0\<rparr>)))"

section \<open>The engine\<close>

record engine_state = db +
  es_periodic :: "string \<rightharpoonup> int \<times> bool"
  es_one_shots :: "string \<rightharpoonup> int"

record 'x worker_spec =
  ws_id :: string
  ws_interval :: int
  ws_network :: bool
  ws_run :: "('x engine_state_scheme, failure, unit) prog"

datatype worker_run_result = WorkerSuccess | WorkerRetry | SkippedLease | UnknownWorker

record 'x sync_deps =
  sd_workers :: "'x worker_spec list"
  sd_backoff :: backoff
  sd_draw :: "('x engine_state_scheme, failure, rat) prog"
  sd_engine_id :: string

definition schedule_periodic :: "'x worker_spec \<Rightarrow> ('x engine_state_scheme, failure, unit) prog" where
  "schedule_periodic w = modify (\<lambda>s. s\<lparr>es_periodic := (es_periodic s)(ws_id w \<mapsto> (ws_interval w, ws_network w))\<rparr>)"

definition schedule_one_shot :: "string \<Rightarrow> int \<Rightarrow> ('x engine_state_scheme, failure, unit) prog" where
  "schedule_one_shot i delay = modify (\<lambda>s. s\<lparr>es_one_shots := (es_one_shots s)(i \<mapsto> delay)\<rparr>)"

definition cancel_worker :: "string \<Rightarrow> ('x engine_state_scheme, failure, unit) prog" where
  "cancel_worker i = modify (\<lambda>s. s\<lparr>es_periodic := (es_periodic s)(i := None),
     es_one_shots := (es_one_shots s)(i := None)\<rparr>)"

text \<open>\<open>new Map(workers.map(w => [w.id, w]))\<close>: the last worker with an id, at the place of the first.\<close>

definition find_worker :: "'x worker_spec list \<Rightarrow> string \<Rightarrow> 'x worker_spec option" where
  "find_worker ws i = List.find (\<lambda>w. ws_id w = i) (rev ws)"

definition worker_ids :: "'x worker_spec list \<Rightarrow> string list" where
  "worker_ids ws = rev (remdups (rev (map ws_id ws)))"

definition start_engine :: "'x sync_deps \<Rightarrow> ('x engine_state_scheme, failure, unit) prog" where
  "start_engine d = for_each (\<lambda>i. case find_worker (sd_workers d) i of
     None \<Rightarrow> ret () | Some w \<Rightarrow> schedule_periodic w) (worker_ids (sd_workers d))"

definition worker_lease_ttl :: int where
  "worker_lease_ttl = 10 * 60000"

definition retry_key :: "string \<Rightarrow> string" where
  "retry_key i = ''retry:'' @ i"

definition lease_key :: "string \<Rightarrow> string" where
  "lease_key i = ''worker:'' @ i"

definition retry_attempt :: "string \<Rightarrow> ('x db_scheme, failure, nat) prog" where
  "retry_attempt i = andthen (get_cursor (retry_key i)) (\<lambda>raw.
     ret (case Option.bind raw parse_decimal of None \<Rightarrow> 0 | Some n \<Rightarrow> n))"

definition run_worker :: "'x sync_deps \<Rightarrow> string \<Rightarrow> ('x engine_state_scheme, failure, worker_run_result) prog" where
  "run_worker d i = (case find_worker (sd_workers d) i of
     None \<Rightarrow> ret UnknownWorker
   | Some w \<Rightarrow>
       andthen now (\<lambda>t.
       andthen (acquire_lease (lease_key i) (sd_engine_id d) worker_lease_ttl t) (\<lambda>lease. case lease of
         None \<Rightarrow> ret SkippedLease
       | Some _ \<Rightarrow> finally_do
           (catching
             (andthen (ws_run w) (\<lambda>_.
              andthen (delete_cursor (retry_key i)) (\<lambda>_.
              andthen (cancel_worker (i @ '':retry'')) (\<lambda>_. ret WorkerSuccess))))
             (\<lambda>_. andthen (retry_attempt i) (\<lambda>attempt.
                  andthen (set_cursor (retry_key i) (decimal (attempt + 1))) (\<lambda>_.
                  andthen (backoff_delay (sd_backoff d) (sd_draw d) (int attempt)) (\<lambda>delay.
                  andthen (schedule_one_shot (i @ '':retry'') delay) (\<lambda>_. ret WorkerRetry))))))
           (release_lease (lease_key i) (sd_engine_id d)))))"

definition run_all_now :: "'x sync_deps \<Rightarrow> ('x engine_state_scheme, failure, (string \<times> worker_run_result) list) prog" where
  "run_all_now d = map_prog (\<lambda>i. andthen (run_worker d i) (\<lambda>r. ret (i, r))) (worker_ids (sd_workers d))"

section \<open>Lemmas\<close>

subsection \<open>Rotation\<close>

definition at_endpoint :: "nat \<Rightarrow> nat \<Rightarrow> rotator" where
  "at_endpoint k f = \<lparr>ro_index = of_nat k, ro_failures = f, ro_loaded = True\<rparr>"

lemma next_index_nat: "0 < n \<Longrightarrow> next_index (of_nat k) n = of_nat (Suc k mod n)"
proof -
  assume "0 < n"
  have "\<lfloor>(of_nat k + 1) / of_nat n :: rat\<rfloor> = int (Suc k div n)"
    using floor_divide_of_nat_eq [of "Suc k" n, where 'a = rat] by (simp add: add.commute)
  moreover have "of_nat k + 1 = (of_nat (Suc k div n * n + Suc k mod n) :: rat)" by simp
  ultimately show ?thesis
    unfolding next_index_def by (simp only: of_nat_add of_nat_mult of_int_of_nat_eq) (simp add: mult.commute)
qed

lemma element_at_nat: "k < length xs \<Longrightarrow> element_at xs (of_nat k) = Some (xs ! k)"
  by (simp add: element_at_def)

lemma failure_step:
  assumes "k < length endpoints" and "length endpoints \<noteq> 1" and "0 < threshold" and "f < threshold"
  shows "report_failure parse render threshold endpoints (at_endpoint k f) s =
    (if Suc f < threshold then (Inr (False, at_endpoint k (Suc f)), s)
     else (Inr (True, at_endpoint (Suc k mod length endpoints) 0),
        s\<lparr>db_cursors := (db_cursors s)(cursor_name \<mapsto>
          (render (of_nat (Suc k mod length endpoints)), db_clock s))\<rparr>))"
proof -
  have "0 < length endpoints" using assms(1) by linarith
  from next_index_nat [OF this, of k] show ?thesis
    using assms by (auto simp: report_failure_def load_rotator_def at_endpoint_def set_cursor_def
        now_def Let_def prog_defs)
qed

text \<open>A run of consecutive failures.\<close>

fun fail_times ::
  "(string \<Rightarrow> rat option) \<Rightarrow> (rat \<Rightarrow> string) \<Rightarrow> nat \<Rightarrow> 'e list \<Rightarrow> nat \<Rightarrow> rotator \<Rightarrow>
     ('x db_scheme, failure, rotator) prog" where
  "fail_times parse render threshold endpoints 0 r = ret r"
| "fail_times parse render threshold endpoints (Suc m) r =
     andthen (report_failure parse render threshold endpoints r) (\<lambda>(_, r').
       fail_times parse render threshold endpoints m r')"

definition persisted :: "(rat \<Rightarrow> string) \<Rightarrow> nat \<Rightarrow> 'x db_scheme \<Rightarrow> bool" where
  "persisted render k s \<longleftrightarrow> map_option fst (db_cursors s cursor_name) = Some (render (of_nat k))"

lemma fail_times_result:
  assumes "length endpoints \<noteq> 1" and "0 < threshold"
  shows "k < length endpoints \<Longrightarrow> f < threshold \<Longrightarrow>
    \<exists>t. fail_times parse render threshold endpoints m (at_endpoint k f) s
       = (Inr (at_endpoint ((k + (f + m) div threshold) mod length endpoints) ((f + m) mod threshold)), t)
     \<and> ((f + m) div threshold = 0 \<longrightarrow> t = s)
     \<and> ((f + m) div threshold \<noteq> 0 \<longrightarrow> persisted render ((k + (f + m) div threshold) mod length endpoints) t)"
proof (induction m arbitrary: k f s)
  case (Suc m)
  let ?k = "Suc k mod length endpoints"
  show ?case
  proof (cases "Suc f < threshold")
    case True
    then show ?thesis
      using Suc.IH [of k "Suc f" s] Suc.prems failure_step [OF Suc.prems(1) assms Suc.prems(2), of parse render s]
      by (simp add: prog_defs)
  next
    case False
    let ?s = "s\<lparr>db_cursors := (db_cursors s)(cursor_name \<mapsto> (render (of_nat ?k), db_clock s))\<rparr>"
    have k: "?k < length endpoints" using Suc.prems(1) by (intro mod_less_divisor) linarith
    have sum: "f + Suc m = threshold + m" using False Suc.prems(2) by simp
    obtain t where t: "fail_times parse render threshold endpoints m (at_endpoint ?k 0) ?s
       = (Inr (at_endpoint ((?k + m div threshold) mod length endpoints) (m mod threshold)), t)"
      "m div threshold = 0 \<longrightarrow> t = ?s"
      "m div threshold \<noteq> 0 \<longrightarrow> persisted render ((?k + m div threshold) mod length endpoints) t"
      using Suc.IH [OF k assms(2), of ?s] by auto
    have "persisted render ((?k + m div threshold) mod length endpoints) t"
      using t(2,3) k by (cases "m div threshold = 0") (simp_all add: persisted_def)
    then show ?thesis
      using t(1) False failure_step [OF Suc.prems(1) assms Suc.prems(2), of parse render s] assms(2)
      unfolding sum by (simp add: prog_defs mod_simps)
  qed
qed (simp add: ret_def persisted_def)

lemma restart_endpoint:
  assumes "persisted render k t" and "k < length endpoints" and "parse (render (of_nat k)) = Some (of_nat k)"
  shows "fst (current_endpoint parse endpoints new_rotator t) = Inr (Some (endpoints ! k), at_endpoint k 0)"
proof -
  have "Option.bind (map_option fst (db_cursors t cursor_name)) parse = Some (of_nat k)"
    using assms(1,3) by (auto simp: persisted_def)
  then show ?thesis
    using assms(2) by (simp add: current_endpoint_def load_rotator_def new_rotator_def get_cursor_def
        at_endpoint_def element_at_nat prog_defs)
qed

subsection \<open>The lease around a run\<close>

definition free_of :: "string \<Rightarrow> string \<Rightarrow> 'x db_scheme \<Rightarrow> bool" where
  "free_of r owner s \<longleftrightarrow> (\<forall>l. find_lease r s = Some l \<longrightarrow> wl_owner l \<noteq> owner)"

lemma release_frees: "free_of r owner (snd (release_lease r owner s))"
  by (auto simp: free_of_def release_lease_def find_lease_def modify_def dest!: find_some_mem)

lemma wp_release: "wp (release_lease r owner) (\<lambda>_. free_of r owner) (\<lambda>_ _. False) s"
  using release_frees [of r owner s] by (simp add: wp_def release_lease_def modify_def)

lemma wp_finally_release:
  "wp (finally_do m (release_lease r owner)) (\<lambda>_. free_of r owner) (\<lambda>_. free_of r owner) s"
proof -
  have "wp m (\<lambda>_ s'. wp (release_lease r owner) (\<lambda>_. free_of r owner) (\<lambda>_. free_of r owner) s')
      (\<lambda>_ s'. wp (release_lease r owner) (\<lambda>_. free_of r owner) (\<lambda>_. free_of r owner) s') s"
    by (simp add: wp_def [of m] wp_mono [OF wp_release] split: prod.splits sum.splits)
  then show ?thesis by (simp add: wp_finally)
qed

lemma run_worker_free:
  assumes "find_worker (sd_workers d) i = Some w"
  shows "wp (run_worker d i) (\<lambda>_. free_of (lease_key i) (sd_engine_id d))
    (\<lambda>_. free_of (lease_key i) (sd_engine_id d)) s"
  unfolding run_worker_def assms option.case wp_andthen wp_now wp_acquire_lease Let_def
  by (auto simp: wp_ret free_of_def [of _ _ s] split: option.splits intro: wp_finally_release)

subsection \<open>A worker that keeps failing\<close>

text \<open>The body of the worker fails and leaves cursors and leases alone; the random source yields a
  value in \<open>[0, 1)\<close> and changes nothing the engine sees.\<close>

definition always_fails :: "('x engine_state_scheme, failure, unit) prog \<Rightarrow> bool" where
  "always_fails m \<longleftrightarrow> (\<forall>s. \<exists>e s'. m s = (Inl e, s') \<and> db_cursors s' = db_cursors s \<and> db_leases s' = db_leases s)"

definition proper_draw :: "('x engine_state_scheme, failure, rat) prog \<Rightarrow> bool" where
  "proper_draw m \<longleftrightarrow> (\<forall>s. \<exists>r s'. m s = (Inr r, s') \<and> 0 \<le> r \<and> r < 1 \<and> db_cursors s' = db_cursors s \<and>
     db_leases s' = db_leases s)"

definition attempts :: "string \<Rightarrow> 'x db_scheme \<Rightarrow> nat" where
  "attempts i s = (case Option.bind (map_option fst (db_cursors s (retry_key i))) parse_decimal of
     None \<Rightarrow> 0 | Some n \<Rightarrow> n)"

lemma retry_attempt_run: "retry_attempt i s = (Inr (attempts i s), s)"
  by (simp add: retry_attempt_def attempts_def get_cursor_def prog_defs)

text \<open>The delays that the policy can choose for an attempt.\<close>

definition possible_delay :: "backoff \<Rightarrow> nat \<Rightarrow> int \<Rightarrow> bool" where
  "possible_delay b attempt ms \<longleftrightarrow> (\<exists>r. 0 \<le> r \<and> r < 1 \<and> ms = jittered b attempt r)"

lemma wp_failed_run:
  assumes w: "find_worker (sd_workers d) i = Some w" and fails: "always_fails (ws_run w)"
    and draw: "proper_draw (sd_draw d)" and free: "find_lease (lease_key i) s = None"
  shows "\<exists>t ms. run_worker d i s = (Inr WorkerRetry, t) \<and> find_lease (lease_key i) t = None
    \<and> attempts i t = Suc (attempts i s) \<and> es_one_shots t (i @ '':retry'') = Some ms
    \<and> possible_delay (sd_backoff d) (attempts i s) ms"
proof -
  let ?l = "\<lparr>wl_resource = lease_key i, wl_owner = sd_engine_id d, wl_acquired_at = db_clock s,
    wl_expires_at = db_clock s + worker_lease_ttl\<rparr>"
  let ?s = "s\<lparr>db_leases := db_leases s @ [?l]\<rparr>"
  have acquire: "acquire_lease (lease_key i) (sd_engine_id d) worker_lease_ttl (db_clock s) s = (Inr (Some ?l), ?s)"
    using free by (intro wp_eqI) (simp add: wp_acquire_lease Let_def)
  obtain e s1 where run: "ws_run w ?s = (Inl e, s1)" "db_cursors s1 = db_cursors s"
    "db_leases s1 = db_leases s @ [?l]"
    using fails [unfolded always_fails_def, rule_format, of ?s] by auto
  let ?s2 = "s1\<lparr>db_cursors := (db_cursors s1)(retry_key i \<mapsto> (decimal (attempts i s + 1), db_clock s1))\<rparr>"
  obtain r s3 where pick: "sd_draw d ?s2 = (Inr r, s3)" "0 \<le> r" "r < 1" "db_cursors s3 = db_cursors ?s2"
    "db_leases s3 = db_leases ?s2"
    using draw [unfolded proper_draw_def, rule_format, of ?s2] by blast
  have "attempts i s1 = attempts i s" using run(2) by (simp add: attempts_def)
  then have result: "run_worker d i s = (Inr WorkerRetry, snd (release_lease (lease_key i) (sd_engine_id d)
      (s3\<lparr>es_one_shots := (es_one_shots s3)(i @ '':retry'' \<mapsto> jittered (sd_backoff d) (attempts i s) r)\<rparr>)))"
    using run pick acquire
    by (simp add: run_worker_def w now_def asks_def andthen_def finally_do_def catching_def
        retry_attempt_run set_cursor_def modify_def backoff_delay_def ret_def schedule_one_shot_def
        release_lease_def)
  have "find_lease (lease_key i) (snd (release_lease (lease_key i) (sd_engine_id d)
      (s3\<lparr>es_one_shots := (es_one_shots s3)(i @ '':retry'' \<mapsto> jittered (sd_backoff d) (attempts i s) r)\<rparr>))) = None"
    using free run(3) pick(5)
    by (auto simp: release_lease_def modify_def find_lease_def find_None_list_ex list_ex_iff)
  then show ?thesis
    using result pick run(2)
    by (auto simp: release_lease_def modify_def attempts_def possible_delay_def)
qed

lemma js_round_close: "\<bar>of_int (js_round x) - x\<bar> \<le> 1/2"
proof -
  have "of_int (js_round x) \<le> x + 1/2" "x + 1/2 < of_int (js_round x) + 1"
    unfolding js_round_def by linarith+
  then show ?thesis unfolding abs_le_iff by linarith
qed

lemma default_delay_bounds:
  assumes "possible_delay default_backoff attempt ms"
  shows "\<bar>of_int ms - nominal_delay default_backoff attempt\<bar> \<le> nominal_delay default_backoff attempt / 4 + 1/2"
proof -
  let ?n = "nominal_delay default_backoff attempt"
  obtain r where r: "0 \<le> r" "r < 1" "ms = js_round (?n - ?n / 4 + 2 * (?n / 4) * r)"
    using assms by (auto simp: possible_delay_def jittered_def Let_def default_backoff_def)
  have n: "0 \<le> ?n" by (simp add: nominal_delay_def default_backoff_def)
  let ?x = "?n - ?n / 4 + 2 * (?n / 4) * r"
  have "0 \<le> ?n * r" "?n * r \<le> ?n" using n r(1,2) by (auto simp: mult_left_le)
  moreover have "?x = ?n - ?n / 4 + (?n * r) / 2" by simp
  ultimately have x: "\<bar>?x - ?n\<bar> \<le> ?n / 4" unfolding abs_le_iff by linarith
  have "\<bar>of_int ms - ?x\<bar> \<le> 1/2"
    unfolding r(3) by (rule js_round_close)
  with x show ?thesis by linarith
qed

section \<open>Properties\<close>

text \<open>
  Every endpoint gets its turn and the choice survives a restart: from the endpoint \<open>k\<close>, any
  number of consecutive failures ends at the endpoint that lies one step further for every full
  streak of \<open>threshold\<close> failures, and after a rotation a fresh instance over the same database starts at
  that endpoint.
\<close>

theorem rotation_reaches_every_endpoint:
  assumes "k < length endpoints" and "1 < length endpoints" and "0 < threshold"
    and "\<And>j. parse (render (of_nat j)) = Some (of_nat j)"
  shows "\<exists>t. fail_times parse render threshold endpoints m (at_endpoint k 0) s
      = (Inr (at_endpoint ((k + m div threshold) mod length endpoints) (m mod threshold)), t)
    \<and> (threshold \<le> m \<longrightarrow> fst (current_endpoint parse endpoints new_rotator t)
        = Inr (Some (endpoints ! ((k + m div threshold) mod length endpoints)),
               at_endpoint ((k + m div threshold) mod length endpoints) 0))"
proof -
  let ?k = "(k + m div threshold) mod length endpoints"
  obtain t where t: "fail_times parse render threshold endpoints m (at_endpoint k 0) s
      = (Inr (at_endpoint ?k (m mod threshold)), t)"
    "m div threshold \<noteq> 0 \<longrightarrow> persisted render ?k t"
    using fail_times_result [OF _ assms(3,1,3), of parse render m s] assms(2) by auto
  have "fst (current_endpoint parse endpoints new_rotator t) = Inr (Some (endpoints ! ?k), at_endpoint ?k 0)"
    if "threshold \<le> m"
  proof -
    have "m div threshold \<noteq> 0" using that assms(3) by (simp add: div_eq_0_iff)
    with t(2) have "persisted render ?k t" by simp
    moreover have "?k < length endpoints" using assms(2) by (intro mod_less_divisor) linarith
    ultimately show ?thesis using assms(4) by (rule restart_endpoint)
  qed
  with t(1) show ?thesis by blast
qed

text \<open>
  A worker never keeps its lease: after a run with any outcome, a rejected body, a failing
  database or a failing random source included, the engine does not hold the lease of the worker.
\<close>

theorem worker_lease_released:
  assumes "find_worker (sd_workers d) i = Some w"
  shows "free_of (lease_key i) (sd_engine_id d) (snd (run_worker d i s))"
  using run_worker_free [OF assms, of s] by (auto simp: wp_def split: prod.splits sum.splits)

text \<open>
  A failing worker is always tried again: however often its body fails, every run counts one
  more attempt in the database and schedules the next try, after a delay that doubles up to the cap
  and is spread by at most a quarter (and the rounding).
\<close>

theorem failing_worker_is_retried:
  assumes "find_worker (sd_workers d) i = Some w" and "always_fails (ws_run w)" and "proper_draw (sd_draw d)"
    and "sd_backoff d = default_backoff" and "find_lease (lease_key i) s = None"
  shows "let t = ((\<lambda>s. snd (run_worker d i s)) ^^ n) s; u = snd (run_worker d i t) in
    attempts i t = attempts i s + n \<and> fst (run_worker d i t) = Inr WorkerRetry \<and>
    (\<exists>ms. es_one_shots u (i @ '':retry'') = Some ms \<and>
       \<bar>of_int ms - nominal_delay default_backoff (attempts i s + n)\<bar>
         \<le> nominal_delay default_backoff (attempts i s + n) / 4 + 1/2)"
proof -
  let ?t = "((\<lambda>s. snd (run_worker d i s)) ^^ n) s"
  have t: "find_lease (lease_key i) ?t = None \<and> attempts i ?t = attempts i s + n"
  proof (induction n)
    case (Suc n)
    then show ?case
      using wp_failed_run [OF assms(1-3), of "((\<lambda>s. snd (run_worker d i s)) ^^ n) s"] by auto
  qed (use assms(5) in simp)
  then show ?thesis
    using wp_failed_run [OF assms(1-3), of ?t] default_delay_bounds assms(4) by (auto simp: Let_def)
qed

text \<open>
  The lease of a run lasts ten minutes and is not extended: an engine that asks while the run is
  younger than that is refused, and one that asks later is granted the lease although the run may still
  be going on.
\<close>

theorem lease_covers_ten_minutes:
  assumes "acquire_lease (lease_key i) a worker_lease_ttl t s = (Inr (Some l), s')" and "a \<noteq> b"
  shows "fst (acquire_lease (lease_key i) b worker_lease_ttl t' s') =
    Inr (if t' < t + 600000 then None
         else Some \<lparr>wl_resource = lease_key i, wl_owner = b, wl_acquired_at = t', wl_expires_at = t' + 600000\<rparr>)"
proof -
  have "wp (acquire_lease (lease_key i) a worker_lease_ttl t)
      (\<lambda>_ s'. \<forall>l. find_lease (lease_key i) s' = Some l \<longrightarrow> wl_owner l = a \<longrightarrow> wl_expires_at l = t + 600000) (\<lambda>_ _. True) s"
    by (auto simp: wp_acquire_lease Let_def find_lease_append find_lease_updated worker_lease_ttl_def
        split: option.splits)
  moreover have "wp (acquire_lease (lease_key i) a worker_lease_ttl t)
      (\<lambda>r s'. r \<noteq> None \<longrightarrow> (\<exists>l. find_lease (lease_key i) s' = Some l \<and> wl_owner l = a)) (\<lambda>_ _. True) s"
    by (auto simp: wp_acquire_lease Let_def find_lease_append find_lease_updated split: option.splits)
  ultimately obtain m where m: "find_lease (lease_key i) s' = Some m" "wl_owner m = a" "wl_expires_at m = t + 600000"
    using assms(1) by (fastforce dest: wp_result)
  have "wp (acquire_lease (lease_key i) b worker_lease_ttl t') (\<lambda>r _. r = (if t' < t + 600000 then None
      else Some \<lparr>wl_resource = lease_key i, wl_owner = b, wl_acquired_at = t', wl_expires_at = t' + 600000\<rparr>))
     (\<lambda>_ _. False) s'"
    using m assms(2) by (simp add: wp_acquire_lease Let_def worker_lease_ttl_def)
  then show ?thesis by (auto simp: wp_def split: prod.splits sum.splits)
qed

subsection \<open>A sample engine\<close>

definition sample_state :: engine_state where
  "sample_state = db.extend empty_db (engine_state.fields Map.empty Map.empty)"

text \<open>A worker that always fails, and a random source that always yields one half.\<close>

definition sample_sync :: "unit sync_deps" where
  "sample_sync = \<lparr>sd_workers = [\<lparr>ws_id = ''lora'', ws_interval = 30000, ws_network = True,
       ws_run = throw (OtherError ''gateway down'')\<rparr>],
     sd_backoff = default_backoff, sd_draw = ret (1/2), sd_engine_id = ''e1''\<rparr>"

lemma sample_worker: "\<exists>w. find_worker (sd_workers sample_sync) ''lora'' = Some w \<and> always_fails (ws_run w)"
  by (simp add: find_worker_def sample_sync_def always_fails_def throw_def)

theorem failing_worker_is_retried_witness:
  "let t = ((\<lambda>s. snd (run_worker sample_sync ''lora'' s)) ^^ 7) sample_state in
   attempts ''lora'' t = 7 \<and> fst (run_worker sample_sync ''lora'' t) = Inr WorkerRetry"
proof -
  obtain w where "find_worker (sd_workers sample_sync) ''lora'' = Some w" "always_fails (ws_run w)"
    using sample_worker by blast
  moreover have "proper_draw (sd_draw sample_sync)"
    by (auto simp: proper_draw_def sample_sync_def ret_def intro: exI [of _ "1/2"])
  moreover have "find_lease (lease_key ''lora'') sample_state = None" "attempts ''lora'' sample_state = 0"
    by (simp_all add: find_lease_def attempts_def sample_state_def empty_db_def db.defs)
  ultimately show ?thesis
    using failing_worker_is_retried [of sample_sync "''lora''" w sample_state 7]
    by (simp add: Let_def sample_sync_def)
qed

theorem worker_lease_released_witness:
  "free_of (lease_key ''lora'') ''e1'' (snd (run_worker sample_sync ''lora'' sample_state))"
proof -
  obtain w where "find_worker (sd_workers sample_sync) ''lora'' = Some w" using sample_worker by blast
  from worker_lease_released [OF this, of sample_state] show ?thesis by (simp add: sample_sync_def)
qed

theorem lease_covers_ten_minutes_witness:
  "fst (acquire_lease (lease_key ''lora'') ''e2'' worker_lease_ttl 599999
      (snd (acquire_lease (lease_key ''lora'') ''e1'' worker_lease_ttl 0 empty_db))) = Inr None"
proof -
  obtain l s' where run: "acquire_lease (lease_key ''lora'') ''e1'' worker_lease_ttl 0 empty_db = (Inr (Some l), s')"
    by (simp add: acquire_lease_def prog_defs empty_db_def Let_def)
  from lease_covers_ten_minutes [OF run, of "''e2''" 599999] run show ?thesis by simp
qed

text \<open>For the sample, an index is written as a string of strokes.\<close>

theorem rotation_reaches_every_endpoint_witness:
  "\<exists>t. fail_times (\<lambda>c. Some (of_nat (length c))) (\<lambda>i. replicate (nat \<lfloor>i\<rfloor>) CHR ''1'') 3 [''a'', ''b'', ''c''] 7
      (at_endpoint 2 0) empty_db = (Inr (at_endpoint 1 1), t)
    \<and> fst (current_endpoint (\<lambda>c. Some (of_nat (length c))) [''a'', ''b'', ''c''] new_rotator t)
      = Inr (Some ''b'', at_endpoint 1 0)"
  using rotation_reaches_every_endpoint [of 2 "[''a'', ''b'', ''c'']" 3 "\<lambda>c. Some (of_nat (length c))"
      "\<lambda>i. replicate (nat \<lfloor>i\<rfloor>) CHR ''1''" 7 empty_db] by simp

text \<open>A cursor with a fractional index is taken over, and no endpoint is at that place.\<close>

lemma fractional_cursor_loses_endpoint:
  assumes "parse raw = Some (3/2)" and "1 < length endpoints"
  shows "fst (current_endpoint parse endpoints new_rotator (s\<lparr>db_cursors := [cursor_name \<mapsto> (raw, 0)]\<rparr>))
     = Inr (None, \<lparr>ro_index = 3/2, ro_failures = 0, ro_loaded = True\<rparr>)"
proof -
  have "(3/2 :: rat) < of_nat (length endpoints)"
    using assms(2) of_nat_mono [of 2 "length endpoints", where 'a = rat] by simp
  moreover have "\<lfloor>3/2 :: rat\<rfloor> = 1" by (rule floor_unique) simp_all
  ultimately show ?thesis
    using assms(1) by (simp add: current_endpoint_def load_rotator_def new_rotator_def get_cursor_def
        element_at_def prog_defs)
qed

end
