(* ===== verification/Cemp_Images.thy ===== *)
theory Cemp_Images
  imports Cemp_Incoming Cemp_Sync
begin

text \<open>
  packages/cemp-images, the parts without a journal: limits.ts, codec.ts, compress.ts, prepare.ts,
  encrypt.ts, manifest.ts, capacity.ts and the download of receive.ts.

  The platform's image codec (an interface in codec.ts) is an argument: decoding, resizing and
  encoding are calls of the environment. Sizes computed with doubles are rationals here. A thrown
  error is a \<open>failure\<close>, with \<open>crypto_failure\<close> for the errors of the crypto package.
\<close>

section \<open>limits.ts\<close>

record image_limits =
  il_max_edge :: int
  il_preferred_edge :: int
  il_thumbnail_edge :: int
  il_max_bytes :: nat
  il_preferred_bytes :: nat

definition default_image_limits :: image_limits where
  "default_image_limits = \<lparr>il_max_edge = 1280, il_preferred_edge = 960, il_thumbnail_edge = 320,
     il_max_bytes = 1048576, il_preferred_bytes = 512000\<rparr>"

definition plan_image_fit :: "int \<times> int \<Rightarrow> int \<Rightarrow> failure + int \<times> int" where
  "plan_image_fit source max_edge = (case source of (width, height) \<Rightarrow>
     if max_edge \<le> 0 then Inl (OtherError ''planImageFit: invalid max edge'')
     else if width \<le> 0 \<or> height \<le> 0 then Inl (OtherError ''planImageFit: invalid source dimensions'')
     else let longest = max width height in
       if longest \<le> max_edge then Inr (width, height)
       else let scale = of_int max_edge / of_int longest in
         Inr (max 1 (js_round (of_int width * scale)), max 1 (js_round (of_int height * scale))))"

definition plan_thumbnail_fit :: "int \<times> int \<Rightarrow> image_limits \<Rightarrow> failure + int \<times> int" where
  "plan_thumbnail_fit source limits = plan_image_fit source (il_thumbnail_edge limits)"

definition is_within_byte_limit :: "nat \<Rightarrow> image_limits \<Rightarrow> bool" where
  "is_within_byte_limit n limits \<longleftrightarrow> n \<le> il_max_bytes limits"

section \<open>codec.ts\<close>

datatype image_format = Webp | Jpeg

datatype sniffed_format = SniffedJpeg | SniffedPng | SniffedWebp | SniffedUnknown

definition sniff_image_format :: "bytes \<Rightarrow> sniffed_format" where
  "sniff_image_format bs =
     (if length bs \<ge> 3 \<and> take 3 bs = [0xff, 0xd8, 0xff] then SniffedJpeg
      else if length bs \<ge> 8 \<and> take 8 bs = [0x89, 0x50, 0x4e, 0x47, 0x0d, 0x0a, 0x1a, 0x0a] then SniffedPng
      else if length bs \<ge> 12 \<and> take 4 bs = [0x52, 0x49, 0x46, 0x46]
        \<and> take 4 (drop 8 bs) = [0x57, 0x45, 0x42, 0x50] then SniffedWebp
      else SniffedUnknown)"

fun sniffed_name :: "sniffed_format \<Rightarrow> string" where
  "sniffed_name SniffedJpeg = ''jpeg''"
| "sniffed_name SniffedPng = ''png''"
| "sniffed_name SniffedWebp = ''webp''"
| "sniffed_name SniffedUnknown = ''unknown''"

record ('w, 'img) image_codec =
  ig_decode :: "bytes \<Rightarrow> ('w, 'img) env_call"
  ig_resize :: "'img \<Rightarrow> int \<Rightarrow> int \<Rightarrow> ('w, 'img) env_call"
  ig_encode :: "'img \<Rightarrow> image_format \<Rightarrow> nat \<Rightarrow> ('w, bytes) env_call"
  ig_width :: "'img \<Rightarrow> int"
  ig_height :: "'img \<Rightarrow> int"

section \<open>compress.ts\<close>

definition edge_steps :: "rat list" where
  "edge_steps = [1, 8/10, 64/100, 1/2, 36/100]"

definition quality_steps :: "nat list" where
  "quality_steps = [82, 68, 55, 42]"

record compress_result =
  cz_bytes :: bytes
  cz_format :: image_format
  cz_quality :: nat
  cz_dimensions :: "int \<times> int"
  cz_preferred :: bool

type_synonym smallest = "(bytes \<times> nat \<times> int \<times> int) option"

definition keep_smaller :: "smallest \<Rightarrow> bytes \<Rightarrow> nat \<Rightarrow> int \<times> int \<Rightarrow> smallest" where
  "keep_smaller best bs q dims = (case best of
       None \<Rightarrow> Some (bs, q, dims)
     | Some (b, _) \<Rightarrow> if length bs < length b then Some (bs, q, dims) else best)"

text \<open>The inner loop: \<open>Inl\<close> is the early return, \<open>Inr\<close> the smallest encoding so far.\<close>

fun try_qualities ::
  "('w, 'img) image_codec \<Rightarrow> image_limits \<Rightarrow> image_format \<Rightarrow> 'img \<Rightarrow> int \<times> int \<Rightarrow> nat list \<Rightarrow> smallest \<Rightarrow>
     ('w world, failure, compress_result + smallest) prog" where
  "try_qualities G limits fmt img dims [] best = ret (Inr best)"
| "try_qualities G limits fmt img dims (q # qs) best =
     andthen (on_env (ig_encode G img fmt q)) (\<lambda>bs.
     if length bs \<le> il_preferred_bytes limits
     then ret (Inl \<lparr>cz_bytes = bs, cz_format = fmt, cz_quality = q, cz_dimensions = dims, cz_preferred = True\<rparr>)
     else try_qualities G limits fmt img dims qs (keep_smaller best bs q dims))"

definition step_dimensions :: "int \<times> int \<Rightarrow> rat \<Rightarrow> int \<times> int" where
  "step_dimensions base edge_scale =
     (max 1 (js_round (of_int (fst base) * edge_scale)), max 1 (js_round (of_int (snd base) * edge_scale)))"

fun try_edges ::
  "('w, 'img) image_codec \<Rightarrow> image_limits \<Rightarrow> image_format \<Rightarrow> 'img \<Rightarrow> int \<times> int \<Rightarrow> rat list \<Rightarrow> smallest \<Rightarrow>
     ('w world, failure, compress_result + smallest) prog" where
  "try_edges G limits fmt img base [] best = ret (Inr best)"
| "try_edges G limits fmt img base (e # es) best =
     (let dims = step_dimensions base e in
      andthen (if dims = (ig_width G img, ig_height G img) then ret img
               else on_env (ig_resize G img (fst dims) (snd dims))) (\<lambda>resized.
      andthen (try_qualities G limits fmt resized dims quality_steps best) (\<lambda>r. case r of
        Inl found \<Rightarrow> ret (Inl found)
      | Inr best' \<Rightarrow> try_edges G limits fmt img base es best')))"

definition image_too_large :: failure where
  "image_too_large = OtherError ''image cannot be compressed below the protocol maximum''"

definition compress_to_limits ::
  "('w, 'img) image_codec \<Rightarrow> 'img \<Rightarrow> image_format \<Rightarrow> image_limits \<Rightarrow>
     ('w world, failure, compress_result) prog" where
  "compress_to_limits G img fmt limits =
     andthen (lift_result (plan_image_fit (ig_width G img, ig_height G img) (il_preferred_edge limits))) (\<lambda>base.
     andthen (try_edges G limits fmt img base edge_steps None) (\<lambda>r. case r of
       Inl found \<Rightarrow> ret found
     | Inr None \<Rightarrow> throw image_too_large
     | Inr (Some (bs, q, dims)) \<Rightarrow>
         if length bs \<le> il_max_bytes limits
         then ret \<lparr>cz_bytes = bs, cz_format = fmt, cz_quality = q, cz_dimensions = dims, cz_preferred = False\<rparr>
         else throw image_too_large))"

section \<open>prepare.ts\<close>

record prepared_image =
  pm_bytes :: bytes
  pm_mime :: string
  pm_width :: int
  pm_height :: int
  pm_thumbnail :: bytes
  pm_content_hash :: bytes

fun format_to_mime :: "image_format \<Rightarrow> string" where
  "format_to_mime Webp = ''image/webp''"
| "format_to_mime Jpeg = ''image/jpeg''"

definition estimate_attachment_capacity :: "nat \<Rightarrow> nat \<Rightarrow> nat \<times> nat" where
  "estimate_attachment_capacity prepared_bytes chunk_bytes =
     (let encrypted = prepared_bytes + 16 in (encrypted, (encrypted + chunk_bytes - 1) div chunk_bytes))"

definition prepare_image ::
  "blake2b \<Rightarrow> ('w, 'img) image_codec \<Rightarrow> bytes \<Rightarrow> image_format option \<Rightarrow> image_limits option \<Rightarrow>
     ('w world, failure, prepared_image) prog" where
  "prepare_image blake2b G source format_option limits_option =
     (let limits = (case limits_option of None \<Rightarrow> default_image_limits | Some l \<Rightarrow> l);
          fmt = (case format_option of None \<Rightarrow> Webp | Some f \<Rightarrow> f) in
      if sniff_image_format source = SniffedUnknown
      then throw (OtherError ''prepareImage: unsupported or corrupt image data'')
      else andthen (on_env (ig_decode G source)) (\<lambda>decoded.
        andthen (compress_to_limits G decoded fmt limits) (\<lambda>c.
        andthen (lift_result (plan_thumbnail_fit (ig_width G decoded, ig_height G decoded) limits)) (\<lambda>thumb_fit.
        andthen (on_env (ig_resize G decoded (fst thumb_fit) (snd thumb_fit))) (\<lambda>thumb.
        andthen (on_env (ig_encode G thumb fmt 60)) (\<lambda>thumbnail.
        ret \<lparr>pm_bytes = cz_bytes c, pm_mime = format_to_mime fmt, pm_width = fst (cz_dimensions c),
          pm_height = snd (cz_dimensions c), pm_thumbnail = thumbnail,
          pm_content_hash = ckb_hash blake2b (cz_bytes c)\<rparr>))))))"

section \<open>encrypt.ts\<close>

definition attachment_chunk_bytes :: nat where
  "attachment_chunk_bytes = 32768"

definition aad_for :: "bytes \<Rightarrow> bytes" where
  "aad_for attachment_id = text_encode ''CEMP/ATTACHMENT/v1'' @ attachment_id"

record encrypted_attachment =
  ea_id :: bytes
  ea_nonce :: bytes
  ea_ciphertext :: bytes
  ea_cipher_hash :: bytes

definition crypto_failure :: "crypto_error \<Rightarrow> failure" where
  "crypto_failure e = OtherError ''CempCryptoError''"

definition encrypt_attachment ::
  "blake2b \<Rightarrow> crypto_suite \<Rightarrow> bytes \<Rightarrow> bytes \<Rightarrow> bytes \<Rightarrow> bytes \<Rightarrow> failure + encrypted_attachment" where
  "encrypt_attachment blake2b S drawn_nonce plaintext key attachment_id =
     (if length key \<noteq> 32 then Inl (OtherError ''encryptAttachment: wrong key length'')
      else if length attachment_id \<noteq> 16 then Inl (OtherError ''encryptAttachment: wrong attachment id length'')
      else sum_bind (map_error crypto_failure
        (aes256_gcm_encrypt S key drawn_nonce plaintext (aad_for attachment_id))) (\<lambda>c.
        Inr \<lparr>ea_id = attachment_id, ea_nonce = drawn_nonce, ea_ciphertext = c,
          ea_cipher_hash = ckb_hash blake2b c\<rparr>))"

definition decrypt_attachment ::
  "crypto_suite \<Rightarrow> bytes \<Rightarrow> bytes \<Rightarrow> bytes \<Rightarrow> bytes \<Rightarrow> failure + bytes" where
  "decrypt_attachment S ciphertext nonce key attachment_id =
     (if length nonce \<noteq> 12 then Inl (OtherError ''decryptAttachment: wrong nonce length'')
      else map_error crypto_failure (aes256_gcm_decrypt S key nonce ciphertext (aad_for attachment_id)))"

definition split_into_chunks :: "bytes \<Rightarrow> int \<Rightarrow> failure + bytes list" where
  "split_into_chunks data n =
     (if n \<le> 0 then Inl (OtherError ''splitIntoChunks: invalid chunk size'')
      else if data = [] then Inl (OtherError ''splitIntoChunks: refusing to chunk empty data'')
      else Inr (chunks (nat n) data))"

definition join_chunks :: "bytes list \<Rightarrow> bytes" where
  "join_chunks cs = fold (\<lambda>chunk out. out @ chunk) cs []"

section \<open>manifest.ts\<close>

record manifest_input =
  mf_attachment_id :: bytes
  mf_chunk_outpoints :: "(string \<times> int) list"
  mf_encrypted_size :: nat
  mf_plaintext_size :: nat
  mf_mime :: string
  mf_width :: int
  mf_height :: int
  mf_thumbnail :: "bytes option"
  mf_content_hash :: bytes
  mf_cipher_hash :: bytes
  mf_nonce :: bytes
  mf_reclaim_group :: bytes

fun outpoints_of :: "(string \<times> int) list \<Rightarrow> failure + out_point_v1 list" where
  "outpoints_of [] = Inr []"
| "outpoints_of ((h, n) # rest) =
     sum_bind (map_error (\<lambda>_. OtherError ''hexToBytes: expected even-length lowercase hex'')
       (hex_to_bytes (strip_0x h))) (\<lambda>b.
     sum_bind (outpoints_of rest) (\<lambda>os. Inr (\<lparr>op_tx_hash = b, op_index = n\<rparr> # os)))"

definition build_attachment_manifest :: "manifest_input \<Rightarrow> failure + attachment_manifest_v1" where
  "build_attachment_manifest i =
     (if mf_chunk_outpoints i = []
      then Inl (OtherError ''buildAttachmentManifest: at least one chunk outpoint is required'')
      else sum_bind (outpoints_of (mf_chunk_outpoints i)) (\<lambda>os.
        Inr \<lparr>am_attachment_id = mf_attachment_id i, am_ckbfs_root = hd os, am_chunk_outpoints = os,
          am_encrypted_size = int (mf_encrypted_size i), am_plaintext_size = int (mf_plaintext_size i),
          am_mime_type = text_encode (mf_mime i), am_width = mf_width i, am_height = mf_height i,
          am_thumbnail = mf_thumbnail i, am_content_hash = mf_content_hash i,
          am_cipher_hash = mf_cipher_hash i, am_encryption_nonce = mf_nonce i,
          am_encryption_algorithm = \<lparr>family = 3, parameter = 1\<rparr>,
          am_reclaim_group_id = mf_reclaim_group i\<rparr>))"

datatype manifest_fault =
    NoChunks
  | PlaintextSize int
  | EncryptedSizeNotPositive
  | EncryptedSizeMismatch
  | ChunkCount nat
  | ZeroDimensions
  | DimensionsTooLarge
  | ThumbnailTooLarge
  | MimeLength
  | UnsupportedMime code_points
  | UnsupportedAlgorithm
  | ThumbnailMime

definition check_manifest :: "attachment_manifest_v1 \<Rightarrow> image_limits \<Rightarrow> manifest_fault option" where
  "check_manifest m limits =
     (let mime = utf8_decode (am_mime_type m) in
      if am_chunk_outpoints m = [] then Some NoChunks
      else if am_plaintext_size m \<le> 0 \<or> am_plaintext_size m > int (il_max_bytes limits)
      then Some (PlaintextSize (am_plaintext_size m))
      else if am_encrypted_size m \<le> 0 then Some EncryptedSizeNotPositive
      else if am_encrypted_size m \<noteq> am_plaintext_size m + 16 then Some EncryptedSizeMismatch
      else if int (length (am_chunk_outpoints m))
        \<noteq> (am_encrypted_size m + (int attachment_chunk_bytes - 1)) div int attachment_chunk_bytes
      then Some (ChunkCount (length (am_chunk_outpoints m)))
      else if am_width m = 0 \<or> am_height m = 0 then Some ZeroDimensions
      else if max (am_width m) (am_height m) > il_max_edge limits then Some DimensionsTooLarge
      else if (case am_thumbnail m of None \<Rightarrow> False | Some t \<Rightarrow> length t > 32768) then Some ThumbnailTooLarge
      else if am_mime_type m = [] \<or> length (am_mime_type m) > 64 then Some MimeLength
      else if mime \<noteq> points ''image/webp'' \<and> mime \<noteq> points ''image/jpeg'' \<and> mime \<noteq> points ''image/png''
      then Some (UnsupportedMime mime)
      else if family (am_encryption_algorithm m) \<noteq> 3 \<or> parameter (am_encryption_algorithm m) \<noteq> 1
      then Some UnsupportedAlgorithm
      else (case am_thumbnail m of
          None \<Rightarrow> None
        | Some t \<Rightarrow> let sniffed = sniff_image_format t in
            if sniffed = SniffedUnknown \<or> points (sniffed_name sniffed) \<noteq> drop 6 mime
            then Some ThumbnailMime else None))"

section \<open>capacity.ts\<close>

definition shannon_per_ckb :: nat where
  "shannon_per_ckb = 100000000"

definition send_fee_reserve_shannons :: nat where
  "send_fee_reserve_shannons = 1 * shannon_per_ckb"

definition conservative_per_chunk_shannon :: nat where
  "conservative_per_chunk_shannon = (attachment_chunk_bytes + 256) * shannon_per_ckb"

definition conservative_message_cell_shannon :: nat where
  "conservative_message_cell_shannon = (32768 + 4096) * shannon_per_ckb"

definition estimate_image_send_shannon :: "nat \<Rightarrow> nat \<Rightarrow> nat \<Rightarrow> nat \<Rightarrow> nat" where
  "estimate_image_send_shannon chunk_count per_chunk message_cell fee_reserve =
     chunk_count * per_chunk + message_cell + fee_reserve"

definition has_sufficient_capacity :: "nat \<Rightarrow> nat \<Rightarrow> bool" where
  "has_sufficient_capacity available required \<longleftrightarrow> available \<ge> required"

section \<open>receive.ts\<close>

record downloaded_attachment =
  da_bytes :: bytes
  da_mime :: code_points
  da_width :: int
  da_height :: int
  da_thumbnail :: "bytes option"

datatype data_status = LiveData string | NotLive

definition attachment_unavailable :: failure where
  "attachment_unavailable = OtherError ''attachment chunk is not live (reclaimed or pruned)''"

text \<open>\<open>live_data outpoint\<close> is \<open>getLiveCell\<close> with the data of the cell.\<close>

fun download_chunks ::
  "(out_point_v1 \<Rightarrow> ('w, data_status) env_call) \<Rightarrow> out_point_v1 list \<Rightarrow> ('w world, failure, bytes list) prog" where
  "download_chunks live_data [] = ret []"
| "download_chunks live_data (o' # os) =
     andthen (on_env (live_data o')) (\<lambda>status. case status of
       NotLive \<Rightarrow> throw attachment_unavailable
     | LiveData hex \<Rightarrow>
         (case hex_to_bytes (strip_0x hex) of
            Inl _ \<Rightarrow> throw (OtherError ''hexToBytes: expected even-length lowercase hex'')
          | Inr data \<Rightarrow>
              if length data > attachment_chunk_bytes
              then throw (OtherError ''attachment chunk above the chunk limit'')
              else andthen (download_chunks live_data os) (\<lambda>rest. ret (data # rest))))"

definition open_attachment ::
  "blake2b \<Rightarrow> crypto_suite \<Rightarrow> attachment_manifest_v1 \<Rightarrow> bytes \<Rightarrow> bytes \<Rightarrow> failure + downloaded_attachment" where
  "open_attachment blake2b S m key ciphertext =
     (if int (length ciphertext) \<noteq> am_encrypted_size m
      then Inl (OtherError ''reassembled ciphertext has the wrong size'')
      else if bytes_to_hex (ckb_hash blake2b ciphertext) \<noteq> bytes_to_hex (am_cipher_hash m)
      then Inl (OtherError ''ciphertext hash mismatch'')
      else sum_bind (decrypt_attachment S ciphertext (am_encryption_nonce m) key (am_attachment_id m)) (\<lambda>plain.
        if int (length plain) \<noteq> am_plaintext_size m
        then Inl (OtherError ''decrypted size does not match the manifest'')
        else if bytes_to_hex (ckb_hash blake2b plain) \<noteq> bytes_to_hex (am_content_hash m)
        then Inl (OtherError ''plaintext content hash mismatch'')
        else (let declared = utf8_decode (am_mime_type m);
                  sniffed = sniff_image_format plain;
                  sniffed_mime = (if sniffed = SniffedUnknown then ''unknown'' else ''image/'' @ sniffed_name sniffed) in
          if points sniffed_mime \<noteq> declared
          then Inl (OtherError ''plaintext does not match the declared mime type'')
          else Inr \<lparr>da_bytes = plain, da_mime = declared, da_width = am_width m, da_height = am_height m,
                 da_thumbnail = am_thumbnail m\<rparr>)))"

definition download_attachment ::
  "blake2b \<Rightarrow> crypto_suite \<Rightarrow> (out_point_v1 \<Rightarrow> ('w, data_status) env_call) \<Rightarrow> attachment_manifest_v1 \<Rightarrow> bytes \<Rightarrow>
     ('w world, failure, downloaded_attachment) prog" where
  "download_attachment blake2b S live_data m key = (case check_manifest m default_image_limits of
       Some _ \<Rightarrow> throw (OtherError ''attachment manifest rejected'')
     | None \<Rightarrow> andthen (download_chunks live_data (am_chunk_outpoints m)) (\<lambda>cs.
         lift_result (open_attachment blake2b S m key (join_chunks cs))))"

section \<open>The local half of send.ts\<close>

record prepared_chunks =
  pk_prepared :: prepared_image
  pk_encrypted :: encrypted_attachment
  pk_chunks :: "bytes list"

text \<open>\<open>drawn_id\<close> is the random attachment id of a caller that passes none.\<close>

definition encrypt_prepared_chunks ::
  "blake2b \<Rightarrow> crypto_suite \<Rightarrow> bytes \<Rightarrow> bytes \<Rightarrow> prepared_image \<Rightarrow> bytes \<Rightarrow> bytes option \<Rightarrow> failure + prepared_chunks" where
  "encrypt_prepared_chunks blake2b S drawn_id drawn_nonce prepared key attachment_id =
     sum_bind (encrypt_attachment blake2b S drawn_nonce (pm_bytes prepared) key
       (case attachment_id of None \<Rightarrow> drawn_id | Some i \<Rightarrow> i)) (\<lambda>e.
     sum_bind (split_into_chunks (ea_ciphertext e) (int attachment_chunk_bytes)) (\<lambda>cs.
     Inr \<lparr>pk_prepared = prepared, pk_encrypted = e, pk_chunks = cs\<rparr>))"

definition build_manifest_for_committed_chunks ::
  "prepared_chunks \<Rightarrow> string \<Rightarrow> bytes \<Rightarrow> failure + attachment_manifest_v1" where
  "build_manifest_for_committed_chunks pk h grp = build_attachment_manifest
     \<lparr>mf_attachment_id = ea_id (pk_encrypted pk),
      mf_chunk_outpoints = map (\<lambda>i. (h, int i)) [0..<length (pk_chunks pk)],
      mf_encrypted_size = length (ea_ciphertext (pk_encrypted pk)),
      mf_plaintext_size = length (pm_bytes (pk_prepared pk)), mf_mime = pm_mime (pk_prepared pk),
      mf_width = pm_width (pk_prepared pk), mf_height = pm_height (pk_prepared pk),
      mf_thumbnail = Some (pm_thumbnail (pk_prepared pk)),
      mf_content_hash = pm_content_hash (pk_prepared pk),
      mf_cipher_hash = ea_cipher_hash (pk_encrypted pk), mf_nonce = ea_nonce (pk_encrypted pk),
      mf_reclaim_group = grp\<rparr>"

section \<open>Lemmas\<close>

lemma join_chunks_eq [simp]: "join_chunks cs = concat cs"
proof -
  have "fold (\<lambda>chunk out. out @ chunk) cs acc = acc @ concat cs" for acc
    by (induction cs arbitrary: acc) auto
  then show ?thesis by (simp add: join_chunks_def)
qed

lemma chunks_single: "xs \<noteq> [] \<Longrightarrow> length xs \<le> n \<Longrightarrow> chunks n xs = [xs]"
  by (cases "n = 0") (simp_all add: chunks.simps [of n xs] chunks.simps [of n "[]"])

lemma length_chunks: "0 < n \<Longrightarrow> length (chunks n xs) = (length xs + n - 1) div n"
proof (induction n xs rule: chunks.induct)
  case (1 n xs)
  show ?case
  proof (cases "length xs \<le> n")
    case True
    then have "drop n xs = []" by simp
    moreover have "(length xs + n - 1) div n = 1" if "xs \<noteq> []"
      using that True 1(2) by (intro div_nat_eqI) (cases xs; simp)+
    ultimately show ?thesis
      using 1(2) by (cases "xs = []") (auto simp: chunks.simps [of n xs] chunks.simps [of n "[]"])
  next
    case False
    then have "length xs + n - 1 = n + (length xs - n + n - 1)" by simp
    then have "(length xs + n - 1) div n = Suc ((length xs - n + n - 1) div n)"
      using 1(2) by (metis add.commute div_add_self1 less_not_refl2 plus_1_eq_Suc)
    moreover have "xs \<noteq> []" using False by auto
    ultimately show ?thesis using 1 False by (simp add: chunks.simps [of n xs])
  qed
qed

lemma chunks_sizes: "0 < n \<Longrightarrow> c \<in> set (chunks n xs) \<Longrightarrow> 0 < length c \<and> length c \<le> n"
proof (induction n xs rule: chunks.induct)
  case (1 n xs)
  then show ?case by (subst (asm) (2) chunks.simps) (auto split: if_splits)
qed

lemma outpoints_of_Inr:
  "outpoints_of ps = Inr os \<Longrightarrow> length os = length ps \<and>
     (\<forall>i < length ps. \<exists>b. hex_to_bytes (strip_0x (fst (ps ! i))) = Inr b
        \<and> os ! i = \<lparr>op_tx_hash = b, op_index = snd (ps ! i)\<rparr>)"
  by (induction ps arbitrary: os rule: outpoints_of.induct) (auto simp: less_Suc_eq_0_disj)

lemma strip_0x_hex [simp]: "strip_0x (CHR ''0'' # CHR ''x'' # t) = t"
  by (simp add: strip_0x_def starts_with_def)

lemma hex_to_bytes_hex [simp]: "hex_to_bytes (bytes_to_hex b) = Inr b"
  by (simp add: hex_to_bytes_iff)

lemma wp_on_env_result:
  assumes "\<And>w. fst (f w) = Inr a" and "\<And>s'. Q a s'"
  shows "wp (on_env f) Q E s"
proof (cases "f (env s)")
  case (fields r w n)
  then have "r = Inr a" using assms(1) [of "env s"] by simp
  with fields assms(2) show ?thesis by (simp add: wp_on_env)
qed

lemma wp_download_chunks:
  assumes "length os = length cs"
    and "\<And>i w. i < length cs \<Longrightarrow> fst (live_data (os ! i) w) = Inr (LiveData (''0x'' @ bytes_to_hex (cs ! i)))"
    and "\<forall>c \<in> set cs. length c \<le> attachment_chunk_bytes"
  shows "wp (download_chunks live_data os) (\<lambda>r _. r = cs) (\<lambda>_ _. False) s"
  using assms
proof (induction os arbitrary: cs s)
  case (Cons o' os)
  then obtain c cs' where cs: "cs = c # cs'" by (cases cs) auto
  have first: "fst (live_data o' w) = Inr (LiveData (''0x'' @ bytes_to_hex c))" for w
    using Cons.prems(2) [of 0 w] cs by simp
  have "fst (live_data (os ! i) w) = Inr (LiveData (''0x'' @ bytes_to_hex (cs' ! i)))"
    if "i < length cs'" for i w
    using Cons.prems(2) [of "Suc i" w] cs that by simp
  then have rest: "wp (download_chunks live_data os) (\<lambda>r _. r = cs') (\<lambda>_ _. False) s'" for s'
    using Cons.prems(1,3) cs by (intro Cons.IH) auto
  show ?case
    unfolding download_chunks.simps wp_andthen
    by (rule wp_on_env_result [OF first])
      (use Cons.prems(3) cs rest in \<open>auto simp: wp_andthen wp_ret intro: wp_mono [OF rest]\<close>)
qed (simp add: wp_rules)

text \<open>What a successful local preparation has computed.\<close>

lemma encrypt_prepared_inv:
  assumes "encrypt_prepared_chunks blake2b S di dn prepared key i = Inr pk"
  shows "pk_prepared pk = prepared" "length key = 32" "length (ea_nonce (pk_encrypted pk)) = 12"
    "ea_ciphertext (pk_encrypted pk) = cy_gcm_encrypt S key (ea_nonce (pk_encrypted pk))
       (aad_for (ea_id (pk_encrypted pk))) (pm_bytes prepared)"
    "ea_cipher_hash (pk_encrypted pk) = ckb_hash blake2b (ea_ciphertext (pk_encrypted pk))"
    "pk_chunks pk = chunks attachment_chunk_bytes (ea_ciphertext (pk_encrypted pk))"
  using assms
  by (auto simp: encrypt_prepared_chunks_def encrypt_attachment_def aes256_gcm_encrypt_def
      split_into_chunks_def split: if_splits)

lemma built_manifest_inv:
  assumes "build_manifest_for_committed_chunks pk h grp = Inr m"
  shows "length (am_chunk_outpoints m) = length (pk_chunks pk)"
    "am_encrypted_size m = int (length (ea_ciphertext (pk_encrypted pk)))"
    "am_plaintext_size m = int (length (pm_bytes (pk_prepared pk)))"
    "am_mime_type m = text_encode (pm_mime (pk_prepared pk))"
    "am_attachment_id m = ea_id (pk_encrypted pk)" "am_encryption_nonce m = ea_nonce (pk_encrypted pk)"
    "am_cipher_hash m = ea_cipher_hash (pk_encrypted pk)"
    "am_content_hash m = pm_content_hash (pk_prepared pk)"
  using assms outpoints_of_Inr
  by (fastforce simp: build_manifest_for_committed_chunks_def build_attachment_manifest_def split: if_splits)+

text \<open>The decoder reads back a text that the encoder wrote from ASCII characters.\<close>

lemma utf8_run_ascii: "\<forall>b \<in> set bs. b < 0x80 \<Longrightarrow> utf8_run None bs = bs"
  by (induction bs) (auto simp: utf8_step_def utf8_start_def)

lemma utf8_decode_ascii:
  assumes "\<forall>c \<in> set t. (of_char c :: nat) < 0x80"
  shows "utf8_decode (text_encode t) = points t"
proof -
  have "map unat (text_encode t) = points t"
    using assms by (auto simp: text_encode_def points_def unat_of_nat)
  moreover have "drop_bom (points t) = points t"
    using assms by (cases t) (auto simp: drop_bom_def points_def)
  moreover have "utf8_run None (points t) = points t"
    using assms by (intro utf8_run_ascii) (auto simp: points_def)
  ultimately show ?thesis by (simp add: utf8_decode_def)
qed

section \<open>Properties\<close>


text \<open>
  A manifest that passes the check bounds what the receiver will fetch and hold: at least one and
  at most 33 chunk cells, together at most one mebibyte of plaintext and its tag, at most a 32 KiB
  thumbnail, and both edges within 1280 pixels.
\<close>

theorem accepted_manifest_bounds:
  assumes "check_manifest m default_image_limits = None"
  shows "1 \<le> length (am_chunk_outpoints m) \<and> length (am_chunk_outpoints m) \<le> 33
    \<and> am_encrypted_size m \<le> 1048576 + 16 \<and> am_encrypted_size m = am_plaintext_size m + 16
    \<and> am_width m \<le> 1280 \<and> am_height m \<le> 1280
    \<and> (case am_thumbnail m of None \<Rightarrow> True | Some t \<Rightarrow> length t \<le> 32768)"
proof -
  have *: "am_chunk_outpoints m \<noteq> []" "0 < am_plaintext_size m" "am_plaintext_size m \<le> 1048576"
    "am_encrypted_size m = am_plaintext_size m + 16"
    "int (length (am_chunk_outpoints m)) = (am_encrypted_size m + 32767) div 32768"
    "am_width m \<le> 1280" "am_height m \<le> 1280"
    "case am_thumbnail m of None \<Rightarrow> True | Some t \<Rightarrow> length t \<le> 32768"
    using assms unfolding check_manifest_def Let_def default_image_limits_def attachment_chunk_bytes_def
    by (auto split: if_splits option.splits)
  have "(am_encrypted_size m + 32767) div 32768 \<le> 33" using *(3,4) by simp
  then have "length (am_chunk_outpoints m) \<le> 33" using *(5) by linarith
  with * show ?thesis by (cases "am_chunk_outpoints m") auto
qed

subsection \<open>Compression\<close>

lemma wp_true [simp]: "wp m (\<lambda>_ _. True) (\<lambda>_ _. True) s"
  by (simp add: wp_def split: prod.splits sum.splits)

definition good_result :: "image_limits \<Rightarrow> compress_result \<Rightarrow> bool" where
  "good_result limits r \<longleftrightarrow> length (cz_bytes r) \<le> max (il_max_bytes limits) (il_preferred_bytes limits)
     \<and> (cz_preferred r \<longrightarrow> length (cz_bytes r) \<le> il_preferred_bytes limits)
     \<and> 1 \<le> fst (cz_dimensions r) \<and> 1 \<le> snd (cz_dimensions r)"

definition good_smallest :: "smallest \<Rightarrow> bool" where
  "good_smallest best \<longleftrightarrow> (case best of None \<Rightarrow> True | Some (_, _, w, h) \<Rightarrow> 1 \<le> w \<and> 1 \<le> h)"

lemma try_qualities_good:
  "1 \<le> fst dims \<Longrightarrow> 1 \<le> snd dims \<Longrightarrow> good_smallest best \<Longrightarrow>
     wp (try_qualities G limits fmt img dims qs best)
       (\<lambda>r _. case r of Inl found \<Rightarrow> good_result limits found | Inr b \<Rightarrow> good_smallest b) (\<lambda>_ _. True) s"
proof (induction qs arbitrary: best s)
  case (Cons q qs)
  have "good_smallest (keep_smaller best bs q dims)" for bs
    using Cons.prems by (auto simp: keep_smaller_def good_smallest_def split: option.splits)
  note keep = this
  show ?case
    unfolding try_qualities.simps wp_andthen
    by (rule wp_mono [OF wp_true]) (use Cons keep in \<open>auto simp: wp_ret good_result_def\<close>)
qed (simp add: wp_ret)

lemma try_edges_good:
  "good_smallest best \<Longrightarrow> wp (try_edges G limits fmt img base es best)
       (\<lambda>r _. case r of Inl found \<Rightarrow> good_result limits found | Inr b \<Rightarrow> good_smallest b) (\<lambda>_ _. True) s"
proof (induction es arbitrary: best s)
  case (Cons e es)
  have "1 \<le> fst (step_dimensions base e)" "1 \<le> snd (step_dimensions base e)"
    by (simp_all add: step_dimensions_def)
  note run = try_qualities_good [OF this Cons.prems]
  show ?case
    unfolding try_edges.simps wp_andthen Let_def
    by (rule wp_mono [OF wp_true], rule wp_mono [OF run]) (auto simp: wp_ret Cons split: sum.splits)
qed (simp add: wp_ret)

text \<open>
  Compression never returns an image above the limits: whatever the platform codec does, a
  returned encoding is within the byte maximum, within the preferred target when it says so, and
  its dimensions are positive; otherwise compression fails.
\<close>

theorem compressed_within_limits:
  "wp (compress_to_limits G img fmt limits) (\<lambda>r _. good_result limits r) (\<lambda>_ _. True) s"
proof -
  have "good_smallest None" by (simp add: good_smallest_def)
  from try_edges_good [OF this] show ?thesis
    unfolding compress_to_limits_def wp_andthen wp_lift_result
    by (auto intro!: wp_mono [OF try_edges_good] simp: good_smallest_def wp_rules good_result_def
        split: sum.splits option.splits)
qed

text \<open>
  Fitting an image into a square keeps it inside, never enlarges it and fills the square when it
  has to shrink: the longest edge becomes exactly the maximum and both edges stay positive.
\<close>

theorem image_fit_exact:
  assumes "plan_image_fit (width, height) max_edge = Inr (w, h)"
  shows "1 \<le> w \<and> 1 \<le> h \<and>
    (if max width height \<le> max_edge then (w, h) = (width, height) else max w h = max_edge)"
proof -
  have pos: "0 < max_edge" "0 < width" "0 < height"
    using assms by (auto simp: plan_image_fit_def Let_def split: if_splits)
  show ?thesis
  proof (cases "max width height \<le> max_edge")
    case True
    then show ?thesis using assms pos by (simp add: plan_image_fit_def)
  next
    case False
    define scale :: rat where "scale = of_int max_edge / of_int (max width height)"
    have scale: "0 < scale" using pos by (simp add: scale_def)
    have w: "w = max 1 (js_round (of_int width * scale))" "h = max 1 (js_round (of_int height * scale))"
      using assms pos False by (auto simp: plan_image_fit_def Let_def scale_def)
    have mono: "js_round a \<le> js_round b" if "a \<le> b" for a b
      using that by (auto simp: js_round_def intro: floor_mono)
    have exact: "js_round (of_int (max width height) * scale) = max_edge"
      using pos by (simp add: scale_def js_round_def) linarith
    have "of_int width * scale \<le> of_int (max width height) * scale"
      "of_int height * scale \<le> of_int (max width height) * scale"
      using scale by (auto intro!: mult_right_mono)
    from mono [OF this(1)] mono [OF this(2)] exact
    have le: "js_round (of_int width * scale) \<le> max_edge" "js_round (of_int height * scale) \<le> max_edge"
      by simp_all
    have "js_round (of_int width * scale) = max_edge \<or> js_round (of_int height * scale) = max_edge"
      using exact by (cases "width \<le> height") (simp_all add: max_def)
    with le pos(1) False show ?thesis unfolding w by (auto simp: max_def)
  qed
qed

subsection \<open>A sample image\<close>

definition sample_prepared :: prepared_image where
  "sample_prepared = \<lparr>pm_bytes = [0xff, 0xd8, 0xff], pm_mime = ''image/jpeg'', pm_width = 10, pm_height = 7,
     pm_thumbnail = [0xff, 0xd8, 0xff], pm_content_hash = ckb_hash sample_hash [0xff, 0xd8, 0xff]\<rparr>"

definition sample_chunk :: bytes where
  "sample_chunk = [0xff, 0xd8, 0xff] @ replicate 16 0"

definition sample_sealed :: prepared_chunks where
  "sample_sealed = \<lparr>pk_prepared = sample_prepared,
     pk_encrypted = \<lparr>ea_id = replicate 16 6, ea_nonce = replicate 12 5, ea_ciphertext = sample_chunk,
       ea_cipher_hash = ckb_hash sample_hash sample_chunk\<rparr>, pk_chunks = [sample_chunk]\<rparr>"

definition sample_manifest :: attachment_manifest_v1 where
  "sample_manifest = \<lparr>am_attachment_id = replicate 16 6, am_ckbfs_root = \<lparr>op_tx_hash = [0xab], op_index = 0\<rparr>,
     am_chunk_outpoints = [\<lparr>op_tx_hash = [0xab], op_index = 0\<rparr>], am_encrypted_size = 19,
     am_plaintext_size = 3, am_mime_type = text_encode ''image/jpeg'', am_width = 10, am_height = 7,
     am_thumbnail = Some [0xff, 0xd8, 0xff], am_content_hash = ckb_hash sample_hash [0xff, 0xd8, 0xff],
     am_cipher_hash = ckb_hash sample_hash sample_chunk, am_encryption_nonce = replicate 12 5,
     am_encryption_algorithm = \<lparr>family = 3, parameter = 1\<rparr>, am_reclaim_group_id = [9]\<rparr>"

lemma sample_sealed_run:
  "encrypt_prepared_chunks sample_hash sample_suite [] (replicate 12 5) sample_prepared (replicate 32 1)
     (Some (replicate 16 6)) = Inr sample_sealed"
proof -
  have "chunks 32768 sample_chunk = [sample_chunk]"
    by (intro chunks_single) (simp_all add: sample_chunk_def)
  then show ?thesis
    by (simp add: encrypt_prepared_chunks_def encrypt_attachment_def aes256_gcm_encrypt_def sum_bind_def
        check_key_and_nonce_def map_error_def split_into_chunks_def sample_suite_def sample_prepared_def
        sample_sealed_def attachment_chunk_bytes_def sample_chunk_def)
qed

lemma sample_manifest_run:
  "build_manifest_for_committed_chunks sample_sealed (''0x'' @ bytes_to_hex [0xab]) [9] = Inr sample_manifest"
  by (simp add: build_manifest_for_committed_chunks_def build_attachment_manifest_def sum_bind_def
      map_error_def sample_sealed_def sample_prepared_def sample_manifest_def sample_chunk_def
      del: bytes_to_hex_Cons)

lemma sample_mime: "utf8_decode (text_encode ''image/jpeg'') = points ''image/jpeg''"
  by (rule utf8_decode_ascii) simp

lemma sample_manifest_accepted: "check_manifest sample_manifest default_image_limits = None"
  by (simp add: check_manifest_def sample_manifest_def default_image_limits_def attachment_chunk_bytes_def
      sniff_image_format_def Let_def sample_mime) (simp add: points_def text_encode_def)


theorem accepted_manifest_bounds_witness:
  "length (am_chunk_outpoints sample_manifest) \<le> 33"
  using accepted_manifest_bounds [OF sample_manifest_accepted] by simp

text \<open>The bound on the chunks is attained by an image of the maximal size.\<close>

lemma largest_image_has_33_chunks:
  "check_manifest (sample_manifest\<lparr>am_plaintext_size := 1048576, am_encrypted_size := 1048592,
     am_chunk_outpoints := replicate 33 \<lparr>op_tx_hash = [0xab], op_index = 0\<rparr>\<rparr>) default_image_limits = None"
  by (simp add: check_manifest_def sample_manifest_def default_image_limits_def attachment_chunk_bytes_def
      sniff_image_format_def Let_def sample_mime) (simp add: points_def text_encode_def)

theorem image_fit_exact_witness: "max (960::int) 540 = 960"
  using image_fit_exact [of 1920 1080 960 960 540] by (simp add: plan_image_fit_def js_round_def)

end
