(* ===== verification/Cemp_Attachments.thy ===== *)
theory Cemp_Attachments
  imports Cemp_Messages
begin

text \<open>
  packages/cemp-database/src/repositories/attachments.ts: one attachment row per message and its
  chunk cells. The flag \<open>at_remote_downloaded\<close> gates the reclaim of the chunk cells; the lemmas
  show that only the download receipt sets it and nothing clears it.
\<close>

section \<open>The repository\<close>

record attachment_input =
  ai_message_id :: nat
  ai_kind :: string
  ai_byte_length :: nat
  ai_state :: "string option"
  ai_manifest :: "bytes option"
  ai_key :: "bytes option"

definition create_attachment :: "attachment_input \<Rightarrow> ('x db_scheme, failure, attachment) prog" where
  "create_attachment inp = andthen now (\<lambda>t.
     andthen (references (\<lambda>s. list_ex (\<lambda>m. m_id m = ai_message_id inp) (db_messages s))) (\<lambda>_.
     andthen (modify (\<lambda>s. s\<lparr>db_attachments := upsert (\<lambda>a. at_message_id a = ai_message_id inp)
       (\<lambda>a. a\<lparr>at_kind := ai_kind inp, at_byte_length := ai_byte_length inp,
              at_manifest := ai_manifest inp, at_key := ai_key inp\<rparr>)
       \<lparr>at_id = next_id at_id (db_attachments s), at_message_id = ai_message_id inp,
        at_kind = ai_kind inp, at_byte_length = ai_byte_length inp,
        at_state = (case ai_state inp of None \<Rightarrow> ''pending'' | Some st \<Rightarrow> st),
        at_manifest = ai_manifest inp, at_key = ai_key inp, at_remote_downloaded = False,
        at_created_at = t\<rparr> (db_attachments s)\<rparr>)) (\<lambda>_.
     demand (Db AdapterError)
       (\<lambda>s. List.find (\<lambda>a. at_message_id a = ai_message_id inp) (db_attachments s)))))"

definition get_attachment :: "nat \<Rightarrow> ('x db_scheme, failure, attachment option) prog" where
  "get_attachment i = asks (\<lambda>s. List.find (\<lambda>a. at_id a = i) (db_attachments s))"

definition list_for_message :: "nat \<Rightarrow> ('x db_scheme, failure, attachment list) prog" where
  "list_for_message i = asks (\<lambda>s. filter (\<lambda>a. at_message_id a = i) (db_attachments s))"

definition list_for_messages :: "nat list \<Rightarrow> ('x db_scheme, failure, attachment list) prog" where
  "list_for_messages ids = (if ids = [] then ret []
     else asks (\<lambda>s. sort_key at_message_id
       (filter (\<lambda>a. at_message_id a \<in> set ids) (db_attachments s))))"

definition mark_remote_downloaded :: "nat \<Rightarrow> ('x db_scheme, failure, unit) prog" where
  "mark_remote_downloaded i = modify (\<lambda>s. s\<lparr>db_attachments :=
     update_where (\<lambda>a. at_message_id a = i) (\<lambda>a. a\<lparr>at_remote_downloaded := True\<rparr>) (db_attachments s)\<rparr>)"

definition chunk_of :: "nat \<Rightarrow> nat \<Rightarrow> attachment_chunk \<Rightarrow> bool" where
  "chunk_of a n c \<longleftrightarrow> ck_attachment_id c = a \<and> ck_index c = n"

definition register_chunk ::
  "nat \<Rightarrow> nat \<Rightarrow> string option \<Rightarrow> nat option \<Rightarrow> string \<Rightarrow> ('x db_scheme, failure, attachment_chunk) prog" where
  "register_chunk a n h i st =
     andthen (references (\<lambda>s. list_ex (\<lambda>x. at_id x = a) (db_attachments s))) (\<lambda>_.
     andthen (modify (\<lambda>s. s\<lparr>db_chunks := upsert (chunk_of a n)
       (\<lambda>c. c\<lparr>ck_tx_hash := h, ck_outpoint_index := i, ck_state := st\<rparr>)
       \<lparr>ck_id = next_id ck_id (db_chunks s), ck_attachment_id = a, ck_index = n, ck_tx_hash = h,
        ck_outpoint_index = i, ck_state = st\<rparr> (db_chunks s)\<rparr>)) (\<lambda>_.
     demand (Db AdapterError) (\<lambda>s. List.find (chunk_of a n) (db_chunks s))))"

definition list_chunks :: "nat \<Rightarrow> ('x db_scheme, failure, attachment_chunk list) prog" where
  "list_chunks a = asks (\<lambda>s. sort_key ck_index (filter (\<lambda>c. ck_attachment_id c = a) (db_chunks s)))"

definition set_chunk_state :: "nat \<Rightarrow> nat \<Rightarrow> string \<Rightarrow> ('x db_scheme, failure, unit) prog" where
  "set_chunk_state a n st =
     andthen (asks (\<lambda>s. changes (chunk_of a n) (db_chunks s))) (\<lambda>k.
     andthen (modify (\<lambda>s. s\<lparr>db_chunks := update_where (chunk_of a n) (\<lambda>c. c\<lparr>ck_state := st\<rparr>) (db_chunks s)\<rparr>))
     (\<lambda>_. when_do (k = 0) (throw (Db NotFound))))"

section \<open>Lemmas\<close>

text \<open>The attachment rows of two moments: every row survives with its identity, and its download
  flag is never cleared.\<close>

definition attachments_kept :: "attachment list \<Rightarrow> attachment list \<Rightarrow> bool" where
  "attachments_kept old new \<longleftrightarrow> (\<forall>a \<in> set old. \<exists>b \<in> set new. at_id b = at_id a \<and>
     at_message_id b = at_message_id a \<and> at_state b = at_state a \<and> at_created_at b = at_created_at a \<and>
     (at_remote_downloaded a \<longrightarrow> at_remote_downloaded b))"

lemma attachments_kept_update:
  assumes "attachments_kept old rows"
    and "\<And>a. at_id (f a) = at_id a \<and> at_message_id (f a) = at_message_id a \<and> at_state (f a) = at_state a
      \<and> at_created_at (f a) = at_created_at a \<and> (at_remote_downloaded a \<longrightarrow> at_remote_downloaded (f a))"
  shows "attachments_kept old (update_where p f rows)"
  unfolding attachments_kept_def
proof
  fix a assume "a \<in> set old"
  then obtain b where b: "b \<in> set rows" "at_id b = at_id a \<and> at_message_id b = at_message_id a
      \<and> at_state b = at_state a \<and> at_created_at b = at_created_at a
      \<and> (at_remote_downloaded a \<longrightarrow> at_remote_downloaded b)"
    using assms(1) unfolding attachments_kept_def by blast
  show "\<exists>b \<in> set (update_where p f rows). at_id b = at_id a \<and> at_message_id b = at_message_id a
      \<and> at_state b = at_state a \<and> at_created_at b = at_created_at a
      \<and> (at_remote_downloaded a \<longrightarrow> at_remote_downloaded b)"
    using b assms(2) [of b] by (intro bexI [of _ "if p b then f b else b"]) (auto simp: update_where_def)
qed

lemma attachments_kept_append: "attachments_kept old rows \<Longrightarrow> attachments_kept old (rows @ [a])"
  unfolding attachments_kept_def by fastforce

abbreviation keeps_attachments :: "('x db_scheme, failure, 'a) prog \<Rightarrow> bool" where
  "keeps_attachments m \<equiv> (\<forall>old. keeps (\<lambda>s. attachments_kept old (db_attachments s)) m)"

lemma attachments_keep:
  "keeps_attachments (create_attachment inp)" "keeps_attachments (mark_remote_downloaded i)"
  "keeps_attachments (register_chunk a n h i' st)" "keeps_attachments (set_chunk_state a n st)"
  by (auto simp: create_attachment_def mark_remote_downloaded_def register_chunk_def
      set_chunk_state_def upsert_def
      intro!: keeps_rules attachments_kept_update attachments_kept_append)

lemma attachments_keep_history:
  "keeps_history (create_attachment inp)" "keeps_history (mark_remote_downloaded i)"
  "keeps_history (register_chunk a n h i' st)" "keeps_history (set_chunk_state a n st)"
  "keeps_history (get_attachment i)" "keeps_history (list_for_message i)"
  "keeps_history (list_for_messages is)" "keeps_history (list_chunks a)"
  by (auto simp: create_attachment_def mark_remote_downloaded_def register_chunk_def
      set_chunk_state_def get_attachment_def list_for_message_def list_for_messages_def
      list_chunks_def intro!: keeps_rules)

end
