(* ===== verification/Cemp_Balances.thy ===== *)
theory Cemp_Balances
  imports Cemp_Messages
begin

text \<open>
  packages/cemp-database/src/repositories/balances.ts: the capacity ledger of a wallet.

  The locale \<open>capacity_ledger\<close> is the contract that the response lifecycle relies on: three
  moves between categories that either move the whole amount or change nothing, and a write-off
  that never drives a category negative. What a message cell costs over its whole life follows
  from it, and the repository is its interpretation.
\<close>

section \<open>The repository\<close>

datatype category = Available | Reserved | Reclaimable | PendingCat

definition find_balance :: "nat \<Rightarrow> 'x db_scheme \<Rightarrow> wallet_balance option" where
  "find_balance w s = List.find (\<lambda>b. wb_wallet_id b = w) (db_balances s)"

definition get_balance :: "nat \<Rightarrow> ('x db_scheme, failure, wallet_balance) prog" where
  "get_balance w = demand (Db NotFound) (find_balance w)"

definition update_balance ::
  "nat \<Rightarrow> (wallet_balance \<Rightarrow> wallet_balance) \<Rightarrow> ('x db_scheme, failure, unit) prog" where
  "update_balance w f = modify (\<lambda>s. s\<lparr>db_balances :=
     update_where (\<lambda>b. wb_wallet_id b = w) f (db_balances s)\<rparr>)"

definition ensure_wallet :: "string \<Rightarrow> ('x db_scheme, failure, nat) prog" where
  "ensure_wallet name = andthen (asks (\<lambda>s. List.find (\<lambda>r. snd r = name) (db_wallets s))) (\<lambda>existing.
     case existing of
       Some r \<Rightarrow> ret (fst r)
     | None \<Rightarrow>
         andthen (asks (\<lambda>s. next_id fst (db_wallets s))) (\<lambda>w.
         andthen (modify (\<lambda>s. s\<lparr>db_wallets := db_wallets s @ [(w, name)]\<rparr>)) (\<lambda>_.
         andthen now (\<lambda>t.
         andthen (asks (\<lambda>s. list_ex (\<lambda>b. wb_wallet_id b = w) (db_balances s))) (\<lambda>dup.
         if dup then throw SqlError else
         andthen (modify (\<lambda>s. s\<lparr>db_balances := db_balances s @
           [\<lparr>wb_wallet_id = w, wb_total = 0, wb_available = 0, wb_reserved = 0, wb_reclaimable = 0,
             wb_pending = 0, wb_updated_at = t\<rparr>]\<rparr>)) (\<lambda>_. ret w))))))"

text \<open>The reconciliation of the protocol categories with the reserved amount seen on chain:
  the new reserved and reclaimable amounts.\<close>

definition reconcile :: "int \<Rightarrow> int \<Rightarrow> int \<Rightarrow> int \<times> int" where
  "reconcile chain_reserved reserved reclaimable =
     (if reserved + reclaimable > chain_reserved
      then (let reclaimable' = (if reclaimable > chain_reserved then chain_reserved else reclaimable)
            in (chain_reserved - reclaimable', reclaimable'))
      else if reserved + reclaimable < chain_reserved
      then (chain_reserved - reclaimable, reclaimable)
      else (reserved, reclaimable))"

definition set_chain_balances ::
  "nat \<Rightarrow> int \<Rightarrow> int \<Rightarrow> int option \<Rightarrow> ('x db_scheme, failure, unit) prog" where
  "set_chain_balances w tot avail chain = (case chain of
       None \<Rightarrow> andthen now (\<lambda>t. update_balance w (\<lambda>b. b\<lparr>wb_total := tot,
         wb_available := avail, wb_updated_at := t\<rparr>))
     | Some chain_reserved \<Rightarrow> atomically (andthen (get_balance w) (\<lambda>balance.
         let (reserved, reclaimable) =
           reconcile chain_reserved (wb_reserved balance) (wb_reclaimable balance) in
         andthen now (\<lambda>t. update_balance w (\<lambda>b. b\<lparr>wb_total := tot, wb_available := avail,
           wb_reserved := reserved, wb_reclaimable := reclaimable, wb_updated_at := t\<rparr>)))))"

fun column :: "category \<Rightarrow> wallet_balance \<Rightarrow> int" where
  "column Available b = wb_available b"
| "column Reserved b = wb_reserved b"
| "column Reclaimable b = wb_reclaimable b"
| "column PendingCat b = wb_pending b"

fun set_column :: "category \<Rightarrow> int \<Rightarrow> wallet_balance \<Rightarrow> wallet_balance" where
  "set_column Available x b = b\<lparr>wb_available := x\<rparr>"
| "set_column Reserved x b = b\<lparr>wb_reserved := x\<rparr>"
| "set_column Reclaimable x b = b\<lparr>wb_reclaimable := x\<rparr>"
| "set_column PendingCat x b = b\<lparr>wb_pending := x\<rparr>"

definition move_capacity ::
  "nat \<Rightarrow> category \<Rightarrow> category \<Rightarrow> int \<Rightarrow> ('x db_scheme, failure, unit) prog" where
  "move_capacity w source target amount =
     (if amount \<le> 0 then throw (Db ConstraintViolation)
      else atomically (andthen (get_balance w) (\<lambda>balance.
        if column source balance < amount then throw (Db ConstraintViolation)
        else andthen now (\<lambda>t. update_balance w (\<lambda>b.
          (set_column target (column target balance + amount)
            (set_column source (column source balance - amount) b))\<lparr>wb_updated_at := t\<rparr>)))))"

definition reserve_capacity :: "nat \<Rightarrow> int \<Rightarrow> ('x db_scheme, failure, unit) prog" where
  "reserve_capacity w amount = move_capacity w Available Reserved amount"

definition mark_reclaimable :: "nat \<Rightarrow> int \<Rightarrow> ('x db_scheme, failure, unit) prog" where
  "mark_reclaimable w amount = move_capacity w Reserved Reclaimable amount"

definition release_reclaimed :: "nat \<Rightarrow> int \<Rightarrow> ('x db_scheme, failure, unit) prog" where
  "release_reclaimed w amount = move_capacity w Reclaimable Available amount"

text \<open>\<open>CAST(x AS INTEGER)\<close> of decimal text: SQLite integers have 64 bits and the cast
  saturates.\<close>

definition sql_integer :: "int \<Rightarrow> int" where
  "sql_integer x = max (- (2 ^ 63)) (min x (2 ^ 63 - 1))"

definition record_fee_burn :: "nat \<Rightarrow> int \<Rightarrow> ('x db_scheme, failure, unit) prog" where
  "record_fee_burn w amount =
     (if amount \<le> 0 then ret ()
      else andthen now (\<lambda>t. update_balance w (\<lambda>b. b\<lparr>wb_updated_at := t,
        wb_reclaimable := max 0 (sql_integer (wb_reclaimable b) - sql_integer amount)\<rparr>)))"

section \<open>The ledger contract\<close>

locale capacity_ledger =
  fixes funds :: "'s \<Rightarrow> (category \<Rightarrow> int) option"
    and move :: "category \<Rightarrow> category \<Rightarrow> int \<Rightarrow> ('s, 'e, unit) prog"
    and burn :: "int \<Rightarrow> ('s, 'e, unit) prog"
  assumes move_all: "funds s = Some f \<Longrightarrow> c \<noteq> d \<Longrightarrow> 0 < a \<Longrightarrow> a \<le> f c \<Longrightarrow>
      \<exists>s'. move c d a s = (Inr (), s') \<and> funds s' = Some (f(c := f c - a, d := f d + a))"
    and move_nothing: "funds s = Some f \<Longrightarrow> a \<le> 0 \<or> f c < a \<Longrightarrow> \<exists>e. move c d a s = (Inl e, s)"
    and burn_some: "funds s = Some f \<Longrightarrow> 0 < a \<Longrightarrow> a < 2 ^ 63 \<Longrightarrow> 0 \<le> f Reclaimable \<Longrightarrow>
      f Reclaimable < 2 ^ 63 \<Longrightarrow>
      \<exists>s'. burn a s = (Inr (), s') \<and> funds s' = Some (f(Reclaimable := max 0 (f Reclaimable - a)))"
begin

text \<open>No move makes a category negative or creates capacity.\<close>

lemma move_outcome:
  assumes "funds s = Some f" and "c \<noteq> d"
  shows "(\<exists>s'. move c d a s = (Inr (), s') \<and> 0 < a \<and> a \<le> f c \<and>
            funds s' = Some (f(c := f c - a, d := f d + a)))
    \<or> (\<exists>e. move c d a s = (Inl e, s))"
  using move_all [OF assms, of a] move_nothing [OF assms(1), of a c d]
  by (cases "0 < a \<and> a \<le> f c") (auto simp: not_le not_less)

text \<open>The whole life of a message cell: its capacity is reserved when it commits, becomes
  reclaimable with the receipt, and all of it but the fee comes back with the reclaim.\<close>

lemma cell_life:
  assumes s: "funds s = Some f" and a: "0 < a" "a \<le> f Available" and fee: "0 < fee" "fee < a"
    and nonneg: "0 \<le> f Reserved" "f Reclaimable = 0" and bound: "a < 2 ^ 63"
  shows "\<exists>s'. andthen (move Available Reserved a) (\<lambda>_. andthen (move Reserved Reclaimable a) (\<lambda>_.
      andthen (move Reclaimable Available (a - fee)) (\<lambda>_. burn fee))) s = (Inr (), s')
    \<and> funds s' = Some (f(Available := f Available - fee))"
proof -
  obtain s1 where s1: "move Available Reserved a s = (Inr (), s1)"
      "funds s1 = Some (f(Available := f Available - a, Reserved := f Reserved + a))"
    using move_all [OF s _ a, of Reserved] by auto
  obtain s2 where s2: "move Reserved Reclaimable a s1 = (Inr (), s2)"
      "funds s2 = Some (f(Available := f Available - a, Reclaimable := a))"
    using move_all [OF s1(2), of Reserved Reclaimable a] a nonneg by (auto simp: fun_upd_twist)
  obtain s3 where s3: "move Reclaimable Available (a - fee) s2 = (Inr (), s3)"
      "funds s3 = Some (f(Available := f Available - fee, Reclaimable := fee))"
    using move_all [OF s2(2), of Reclaimable Available "a - fee"] fee by (auto simp: fun_upd_twist)
  obtain s4 where s4: "burn fee s3 = (Inr (), s4)"
      "funds s4 = Some (f(Available := f Available - fee, Reclaimable := 0))"
    using burn_some [OF s3(2), of fee] fee bound by auto
  have "f(Available := f Available - fee, Reclaimable := 0) = f(Available := f Available - fee)"
    using nonneg(2) by (auto simp: fun_eq_iff)
  with s1(1) s2(1) s3(1) s4 show ?thesis by (simp add: andthen_def)
qed

end

section \<open>The repository keeps the contract\<close>

definition wallet_funds :: "nat \<Rightarrow> 'x db_scheme \<Rightarrow> (category \<Rightarrow> int) option" where
  "wallet_funds w s = map_option (\<lambda>b c. column c b) (find_balance w s)"

lemma column_set_column [simp]: "column c (set_column d x b) = (if c = d then x else column c b)"
  by (cases c; cases d) simp_all

lemma wallet_id_set_column [simp]: "wb_wallet_id (set_column c x b) = wb_wallet_id b"
  by (cases c) simp_all

lemma column_updated_at [simp]: "column c (b\<lparr>wb_updated_at := t\<rparr>) = column c b"
  by (cases c) simp_all

lemma find_balance_update:
  assumes "\<And>b. wb_wallet_id (f b) = wb_wallet_id b"
  shows "find_balance v (s\<lparr>db_balances := update_where (\<lambda>b. wb_wallet_id b = w) f (db_balances s)\<rparr>)
     = (if v = w then map_option f (find_balance v s) else find_balance v s)"
proof -
  have "List.find (\<lambda>b. wb_wallet_id b = v) (update_where (\<lambda>b. wb_wallet_id b = w) f rows)
     = (if v = w then map_option f (List.find (\<lambda>b. wb_wallet_id b = v) rows)
        else List.find (\<lambda>b. wb_wallet_id b = v) rows)" for rows
    by (induction rows) (auto simp: update_where_def assms)
  then show ?thesis by (simp add: find_balance_def)
qed

lemma wp_update_balance [wp_rules]:
  "wp (update_balance w f) Q E s = Q () (s\<lparr>db_balances :=
     update_where (\<lambda>b. wb_wallet_id b = w) f (db_balances s)\<rparr>)"
  by (simp add: update_balance_def wp_rules)

lemma move_capacity_moves:
  assumes "wallet_funds w s = Some f" and "c \<noteq> d" and "0 < a" and "a \<le> f c"
  shows "\<exists>s'. move_capacity w c d a s = (Inr (), s') \<and>
     wallet_funds w s' = Some (f(c := f c - a, d := f d + a))"
proof -
  obtain b where b: "find_balance w s = Some b" "f = (\<lambda>c. column c b)"
    using assms(1) by (auto simp: wallet_funds_def)
  have "wp (move_capacity w c d a)
      (\<lambda>_ s'. wallet_funds w s' = Some (f(c := f c - a, d := f d + a))) (\<lambda>_ _. False) s"
    using assms b by (auto simp: move_capacity_def get_balance_def wp_rules wallet_funds_def
        find_balance_update fun_eq_iff)
  then show ?thesis
    by (cases "move_capacity w c d a s") (auto simp: wp_def split: sum.splits)
qed

lemma wp_move_capacity:
  assumes "wallet_funds w s = Some f" and "c \<noteq> d" and "0 < a" and "a \<le> f c"
    and "\<And>s'. wallet_funds w s' = Some (f(c := f c - a, d := f d + a)) \<Longrightarrow>
      (\<And>i. find_message i s' = find_message i s) \<Longrightarrow> Q () s'"
  shows "wp (move_capacity w c d a) Q E s"
proof -
  obtain b where b: "find_balance w s = Some b" "f = (\<lambda>c. column c b)"
    using assms(1) by (auto simp: wallet_funds_def)
  show ?thesis
    using assms(2-5) b by (auto simp: move_capacity_def get_balance_def wp_rules wallet_funds_def
        find_balance_update find_message_def fun_eq_iff)
qed

lemma move_capacity_refuses:
  assumes "wallet_funds w s = Some f" and "a \<le> 0 \<or> f c < a"
  shows "\<exists>e. move_capacity w c d a s = (Inl e, s)"
proof -
  obtain b where "find_balance w s = Some b" "f = (\<lambda>c. column c b)"
    using assms(1) by (auto simp: wallet_funds_def)
  then have "wp (move_capacity w c d a) (\<lambda>_ _. False) (\<lambda>_ s'. s' = s) s"
    using assms(2) by (auto simp: move_capacity_def get_balance_def wp_rules)
  then show ?thesis
    by (cases "move_capacity w c d a s") (auto simp: wp_def split: sum.splits)
qed

lemma record_fee_burn_burns:
  assumes "wallet_funds w s = Some f" and "0 < a" and "a < 2 ^ 63" and "0 \<le> f Reclaimable"
    and "f Reclaimable < 2 ^ 63"
  shows "\<exists>s'. record_fee_burn w a s = (Inr (), s') \<and>
     wallet_funds w s' = Some (f(Reclaimable := max 0 (f Reclaimable - a)))"
proof -
  obtain b where b: "find_balance w s = Some b" "f = (\<lambda>c. column c b)"
    using assms(1) by (auto simp: wallet_funds_def)
  have "column c (b\<lparr>wb_updated_at := t, wb_reclaimable := x\<rparr>)
      = (if c = Reclaimable then x else column c b)" for c t x
    by (cases c) simp_all
  then have "wp (record_fee_burn w a)
      (\<lambda>_ s'. wallet_funds w s' = Some (f(Reclaimable := max 0 (f Reclaimable - a)))) (\<lambda>_ _. False) s"
    using assms b by (auto simp: record_fee_burn_def wp_rules wallet_funds_def find_balance_update
        fun_eq_iff sql_integer_def)
  then show ?thesis
    by (cases "record_fee_burn w a s") (auto simp: wp_def split: sum.splits)
qed

interpretation ledger: capacity_ledger "wallet_funds w" "move_capacity w" "record_fee_burn w"
  for w :: nat
  by unfold_locales (fact move_capacity_moves move_capacity_refuses record_fee_burn_burns)+

lemma balances_keep_history:
  "keeps_history (reserve_capacity w a)" "keeps_history (mark_reclaimable w a)"
  "keeps_history (release_reclaimed w a)" "keeps_history (record_fee_burn w a)"
  "keeps_history (set_chain_balances w x y c)" "keeps_history (ensure_wallet n)"
  by (auto simp: reserve_capacity_def mark_reclaimable_def release_reclaimed_def move_capacity_def
      record_fee_burn_def set_chain_balances_def ensure_wallet_def get_balance_def
      update_balance_def Let_def split: option.splits prod.splits intro!: keeps_rules)

section \<open>Sequences of ledger operations\<close>

text \<open>Amounts read from the chain are capacities, hence natural numbers; amounts handed to the
  moves are arbitrary.\<close>

datatype balance_op =
    EnsureWallet string
  | ChainBalances nat nat nat "nat option"
  | Reserve nat int
  | MarkReclaimable nat int
  | Release nat int
  | FeeBurn nat int

fun run_balance_op :: "balance_op \<Rightarrow> db \<Rightarrow> db" where
  "run_balance_op (EnsureWallet n) s = snd (ensure_wallet n s)"
| "run_balance_op (ChainBalances w t a c) s =
     snd (set_chain_balances w (int t) (int a) (map_option int c) s)"
| "run_balance_op (Reserve w a) s = snd (reserve_capacity w a s)"
| "run_balance_op (MarkReclaimable w a) s = snd (mark_reclaimable w a s)"
| "run_balance_op (Release w a) s = snd (release_reclaimed w a s)"
| "run_balance_op (FeeBurn w a) s = snd (record_fee_burn w a s)"

definition balance_nonneg :: "wallet_balance \<Rightarrow> bool" where
  "balance_nonneg b \<longleftrightarrow> (\<forall>c. 0 \<le> column c b)"

lemma balance_nonneg_columns: "balance_nonneg b \<longleftrightarrow> 0 \<le> wb_available b \<and> 0 \<le> wb_reserved b
    \<and> 0 \<le> wb_reclaimable b \<and> 0 \<le> wb_pending b"
  unfolding balance_nonneg_def by (metis category.exhaust column.simps)

abbreviation all_nonneg :: "'x db_scheme \<Rightarrow> bool" where
  "all_nonneg s \<equiv> list_all balance_nonneg (db_balances s)"

lemma all_nonneg_update:
  "list_all balance_nonneg rows \<Longrightarrow>
     (\<And>b. b \<in> set rows \<Longrightarrow> p b \<Longrightarrow> balance_nonneg b \<Longrightarrow> balance_nonneg (f b)) \<Longrightarrow>
     list_all balance_nonneg (update_where p f rows)"
  by (auto simp: list_all_iff update_where_def)

lemma find_balance_nonneg: "all_nonneg s \<Longrightarrow> find_balance w s = Some b \<Longrightarrow> balance_nonneg b"
  by (auto simp: find_balance_def list_all_iff dest: find_some_mem)

lemma move_nonneg: "keeps all_nonneg (move_capacity w c d a)"
proof (rule keepsI)
  fix s :: "'x db_scheme"
  assume s: "all_nonneg s"
  show "wp (move_capacity w c d a) (\<lambda>_. all_nonneg) (\<lambda>_. all_nonneg) s"
    using s find_balance_nonneg [OF s, of w]
    by (auto simp: move_capacity_def get_balance_def wp_rules balance_nonneg_def not_less
        intro!: all_nonneg_update split: option.splits)
qed

lemma reconcile_exact:
  "0 \<le> c \<Longrightarrow> 0 \<le> r \<Longrightarrow> 0 \<le> k \<Longrightarrow> reconcile c r k = (c - min k c, min k c)"
  by (auto simp: reconcile_def Let_def min_def)

lemma chain_nonneg:
  assumes "0 \<le> a" and "\<And>x. c = Some x \<Longrightarrow> 0 \<le> x"
  shows "keeps all_nonneg (set_chain_balances w t a c)"
proof (rule keepsI)
  fix s :: "'x db_scheme"
  assume s: "all_nonneg s"
  show "wp (set_chain_balances w t a c) (\<lambda>_. all_nonneg) (\<lambda>_. all_nonneg) s"
  proof (cases c)
    case None
    then show ?thesis
      using s assms by (auto simp: set_chain_balances_def wp_rules balance_nonneg_columns
          intro!: all_nonneg_update)
  next
    case (Some x)
    have "reconcile x (wb_reserved b) (wb_reclaimable b)
        = (x - min (wb_reclaimable b) x, min (wb_reclaimable b) x)" and "0 \<le> wb_reclaimable b"
      if "find_balance w s = Some b" for b
      using find_balance_nonneg [OF s that] assms(2) [OF Some]
      by (simp_all add: balance_nonneg_columns reconcile_exact)
    with Some show ?thesis
      using s assms by (auto simp: set_chain_balances_def get_balance_def wp_rules
          balance_nonneg_columns intro!: all_nonneg_update split: option.splits)
  qed
qed

lemma burn_nonneg: "keeps all_nonneg (record_fee_burn w a)"
  by (auto simp: record_fee_burn_def wp_rules balance_nonneg_columns
      intro!: keepsI all_nonneg_update)

lemma ensure_nonneg: "keeps all_nonneg (ensure_wallet n)"
  by (auto simp: ensure_wallet_def wp_rules balance_nonneg_columns intro!: keepsI split: option.splits)

lemma run_balance_op_nonneg: "all_nonneg s \<Longrightarrow> all_nonneg (run_balance_op op s)"
  using move_nonneg [THEN keepsD, of s] burn_nonneg [THEN keepsD, of s]
    ensure_nonneg [THEN keepsD, of s]
  by (cases op) (auto simp: reserve_capacity_def mark_reclaimable_def release_reclaimed_def
      intro!: keepsD [OF chain_nonneg])

lemma run_balance_ops_nonneg: "all_nonneg s \<Longrightarrow> all_nonneg (fold run_balance_op ops s)"
  by (induction ops arbitrary: s) (auto simp: run_balance_op_nonneg)

section \<open>Properties\<close>

text \<open>
  C33. No balance category of any wallet is ever negative, whatever sequence of ledger operations
  runs on a new database and whichever of them fail.
\<close>

theorem balances_never_negative:
  "list_all (\<lambda>b. 0 \<le> wb_available b \<and> 0 \<le> wb_reserved b \<and> 0 \<le> wb_reclaimable b \<and> 0 \<le> wb_pending b)
     (db_balances (fold run_balance_op ops empty_db))"
proof -
  have "all_nonneg (fold run_balance_op ops empty_db)"
    by (rule run_balance_ops_nonneg) (simp add: empty_db_def)
  then show ?thesis by (simp add: list_all_iff balance_nonneg_columns)
qed

text \<open>
  Over its whole life a message cell costs exactly the reclaim fee: when its capacity is
  reserved at commit, made reclaimable by the receipt, released net of the fee and the fee
  written off, every step succeeds and the wallet is left with its categories unchanged except
  for the fee missing from the available amount.
\<close>

theorem message_cell_costs_the_fee:
  assumes "wallet_funds w s = Some f" and "0 < fee" and "fee < a" and "a \<le> f Available"
    and "a < 2 ^ 63" and "0 \<le> f Reserved" and "f Reclaimable = 0"
  shows "\<exists>s'. andthen (reserve_capacity w a) (\<lambda>_. andthen (mark_reclaimable w a) (\<lambda>_.
      andthen (release_reclaimed w (a - fee)) (\<lambda>_. record_fee_burn w fee))) s = (Inr (), s')
    \<and> wallet_funds w s' = Some (f(Available := f Available - fee))"
  unfolding reserve_capacity_def mark_reclaimable_def release_reclaimed_def
  using assms by (intro ledger.cell_life) auto

definition sample_wallet :: db where
  "sample_wallet = empty_db\<lparr>db_balances := [\<lparr>wb_wallet_id = 1, wb_total = 900, wb_available = 500,
     wb_reserved = 30, wb_reclaimable = 0, wb_pending = 0, wb_updated_at = 0\<rparr>]\<rparr>"

lemma sample_funds: "wallet_funds 1 sample_wallet
    = Some (\<lambda>c. column c \<lparr>wb_wallet_id = 1, wb_total = 900, wb_available = 500,
       wb_reserved = 30, wb_reclaimable = 0, wb_pending = 0, wb_updated_at = 0\<rparr>)"
  by (simp add: wallet_funds_def find_balance_def sample_wallet_def)

theorem message_cell_costs_the_fee_witness:
  "\<exists>s' g. andthen (reserve_capacity 1 200) (\<lambda>_. andthen (mark_reclaimable 1 200) (\<lambda>_.
      andthen (release_reclaimed 1 (200 - 3)) (\<lambda>_. record_fee_burn 1 3))) sample_wallet = (Inr (), s')
    \<and> wallet_funds 1 s' = Some g \<and> g Available = 497 \<and> g Reserved = 30 \<and> g Reclaimable = 0"
  using message_cell_costs_the_fee [OF sample_funds, of 3 200] by force

text \<open>
  Reconciling with the chain makes reserved and reclaimable add up to the reserved capacity
  seen there: the reclaimable part is kept as far as the chain still holds it, and the rest is
  reserved.
\<close>

theorem chain_reconciliation_exact:
  assumes "wallet_funds w s = Some f" and "0 \<le> f Reserved" and "0 \<le> f Reclaimable" and "0 \<le> c"
  shows "\<exists>s'. set_chain_balances w t a (Some c) s = (Inr (), s') \<and> wallet_funds w s' =
     Some (f(Available := a, Reserved := c - min (f Reclaimable) c, Reclaimable := min (f Reclaimable) c))"
proof -
  obtain b where b: "find_balance w s = Some b" "f = (\<lambda>c. column c b)"
    using assms(1) by (auto simp: wallet_funds_def)
  have upd: "column d (b\<lparr>wb_total := t, wb_available := a, wb_reserved := r, wb_reclaimable := k\<rparr>) = (case d of Available \<Rightarrow> a | Reserved \<Rightarrow> r | Reclaimable \<Rightarrow> k
      | PendingCat \<Rightarrow> wb_pending b)" for d r k u
    by (cases d) simp_all
  have "wp (set_chain_balances w t a (Some c)) (\<lambda>_ s'. wallet_funds w s' = Some (f(Available := a,
      Reserved := c - min (f Reclaimable) c, Reclaimable := min (f Reclaimable) c))) (\<lambda>_ _. False) s"
    using assms b by (auto simp: set_chain_balances_def get_balance_def wp_rules wallet_funds_def
        find_balance_update reconcile_exact upd fun_eq_iff split: category.splits)
  then show ?thesis
    by (cases "set_chain_balances w t a (Some c) s") (auto simp: wp_def split: sum.splits)
qed

theorem chain_reconciliation_witness:
  "\<exists>s' g. set_chain_balances 1 800 480 (Some 20) sample_wallet = (Inr (), s')
    \<and> wallet_funds 1 s' = Some g \<and> g Reserved = 20 \<and> g Reclaimable = 0"
  using chain_reconciliation_exact [OF sample_funds, of 20 800 480] by force

end
