(* ===== verification/Cemp_Store.thy ===== *)
theory Cemp_Store
  imports Cemp_Attachments Cemp_Balances Cemp_Journal Cemp_Text
begin

text \<open>
  packages/cemp-database/src/repositories/publication-store.ts: the store that the publication
  and reclaim pipelines write through. The argument \<open>lc\<close> is the optional lifecycle
  configuration, of which only the wallet id matters; without it the lifecycle operations throw.
\<close>

section \<open>The store\<close>

definition require_lifecycle :: "nat option \<Rightarrow> ('x db_scheme, failure, nat) prog" where
  "require_lifecycle lc = (case lc of None \<Rightarrow> throw (Db AdapterError) | Some w \<Rightarrow> ret w)"

definition store_mark_remote_downloaded :: "nat option \<Rightarrow> nat \<Rightarrow> ('x db_scheme, failure, unit) prog" where
  "store_mark_remote_downloaded lc i =
     andthen (require_lifecycle lc) (\<lambda>_. mark_remote_downloaded i)"

definition transition_message :: "nat \<Rightarrow> mstate \<Rightarrow> ('x db_scheme, failure, unit) prog" where
  "transition_message i st = andthen (transition_state i st) (\<lambda>_. ret ())"

definition get_message_state :: "nat \<Rightarrow> ('x db_scheme, failure, mstate option) prog" where
  "get_message_state i = andthen (get_message i) (\<lambda>m. ret (map_option m_state m))"

definition set_message_chain_ref :: "nat \<Rightarrow> string \<Rightarrow> nat \<Rightarrow> ('x db_scheme, failure, unit) prog" where
  "set_message_chain_ref i h n = set_chain_ref i (Some h) (Some n) None None"

definition record_outgoing_tx :: "tx_input \<Rightarrow> ('x db_scheme, failure, unit) prog" where
  "record_outgoing_tx inp = andthen (record_tx inp) (\<lambda>_. ret ())"

definition mark_outgoing_tx_state ::
  "string \<Rightarrow> string \<Rightarrow> int option \<Rightarrow> ('x db_scheme, failure, unit) prog" where
  "mark_outgoing_tx_state h st committed = mark_tx_state h st committed None"

definition find_outgoing_tx_by_purpose ::
  "string \<Rightarrow> ('x db_scheme, failure, outgoing_tx option) prog" where
  "find_outgoing_tx_by_purpose purpose = find_latest_by_purpose purpose"

definition find_outgoing_by_envelope_id ::
  "string \<Rightarrow> ('x db_scheme, failure, (nat \<times> mstate) option) prog" where
  "find_outgoing_by_envelope_id h = andthen (get_by_envelope_message_id h) (\<lambda>m.
     ret (map_option (\<lambda>m. (m_id m, m_state m)) m))"

record lifecycle_message =
  lm_row_id :: nat
  lm_state :: mstate
  lm_chain_ref :: "(string \<times> nat) option"

definition chain_ref_pair :: "chain_ref option \<Rightarrow> (string \<times> nat) option" where
  "chain_ref_pair r = (case r of None \<Rightarrow> None | Some r \<Rightarrow>
     (case (cr_tx_hash r, cr_outpoint_index r) of (Some h, Some n) \<Rightarrow> Some (h, n) | _ \<Rightarrow> None))"

definition list_outgoing_by_state :: "mstate \<Rightarrow> ('x db_scheme, failure, lifecycle_message list) prog" where
  "list_outgoing_by_state st = andthen (list_by_state [st] 500) (\<lambda>ms.
     map_prog (\<lambda>m. andthen (get_chain_ref (m_id m)) (\<lambda>r.
       ret \<lparr>lm_row_id = m_id m, lm_state = m_state m, lm_chain_ref = chain_ref_pair r\<rparr>)) ms)"

definition find_latest_by_prefix :: "string \<Rightarrow> ('x db_scheme, failure, outgoing_tx option) prog" where
  "find_latest_by_prefix prefix = find_latest_by_purpose_prefix prefix"

definition mark_outgoing_tx_state_if ::
  "string \<Rightarrow> string \<Rightarrow> string \<Rightarrow> int option \<Rightarrow> ('x db_scheme, failure, nat) prog" where
  "mark_outgoing_tx_state_if h expected st committed = mark_tx_state_if h expected st committed None"

definition store_reserve_capacity :: "nat option \<Rightarrow> int \<Rightarrow> ('x db_scheme, failure, unit) prog" where
  "store_reserve_capacity lc a = andthen (require_lifecycle lc) (\<lambda>w. reserve_capacity w a)"

definition store_mark_reclaimable :: "nat option \<Rightarrow> int \<Rightarrow> ('x db_scheme, failure, unit) prog" where
  "store_mark_reclaimable lc a = andthen (require_lifecycle lc) (\<lambda>w. mark_reclaimable w a)"

text \<open>The logical id of a message and the capacity of the latest transaction journaled for it.\<close>

definition get_message_journal_info ::
  "nat \<Rightarrow> ('x db_scheme, failure, (string \<times> int option) option) prog" where
  "get_message_journal_info i = andthen (get_message i) (\<lambda>m. case m of
       None \<Rightarrow> ret None
     | Some m \<Rightarrow> andthen (find_latest_by_purpose (''message:'' @ m_logical_id m)) (\<lambda>j.
         ret (Some (m_logical_id m, Option.bind j tx_capacity))))"

definition store_register_watch ::
  "nat option \<Rightarrow> string \<Rightarrow> nat \<Rightarrow> string \<Rightarrow> ('x db_scheme, failure, unit) prog" where
  "store_register_watch lc h n purpose = andthen (require_lifecycle lc) (\<lambda>_.
     andthen (register_watch h n purpose None) (\<lambda>_. ret ()))"

definition list_active_watches ::
  "nat option \<Rightarrow> ('x db_scheme, failure, (string \<times> nat \<times> string) list) prog" where
  "list_active_watches lc = andthen (require_lifecycle lc) (\<lambda>_.
     andthen list_active (\<lambda>ws. ret (map (\<lambda>w. (wo_tx_hash w, wo_index w, wo_purpose w)) ws)))"

definition mark_watch_spent ::
  "nat option \<Rightarrow> string \<Rightarrow> nat \<Rightarrow> string \<Rightarrow> ('x db_scheme, failure, unit) prog" where
  "mark_watch_spent lc h n by_hash = andthen (require_lifecycle lc) (\<lambda>_.
     andthen (mark_spent h n by_hash) (\<lambda>_. ret ()))"

definition prune_spent_watches :: "nat option \<Rightarrow> ('x db_scheme, failure, nat) prog" where
  "prune_spent_watches lc = andthen (require_lifecycle lc) (\<lambda>_. prune_spent)"

definition store_release_reclaimed :: "nat option \<Rightarrow> int \<Rightarrow> ('x db_scheme, failure, unit) prog" where
  "store_release_reclaimed lc a = andthen (require_lifecycle lc) (\<lambda>w. release_reclaimed w a)"

definition store_record_fee_burn :: "nat option \<Rightarrow> int \<Rightarrow> ('x db_scheme, failure, unit) prog" where
  "store_record_fee_burn lc a = andthen (require_lifecycle lc) (\<lambda>w. record_fee_burn w a)"

section \<open>Lemmas\<close>

lemmas store_defs = store_mark_remote_downloaded_def transition_message_def get_message_state_def
  set_message_chain_ref_def record_outgoing_tx_def mark_outgoing_tx_state_def
  find_outgoing_tx_by_purpose_def find_outgoing_by_envelope_id_def list_outgoing_by_state_def
  find_latest_by_prefix_def mark_outgoing_tx_state_if_def store_reserve_capacity_def
  store_mark_reclaimable_def get_message_journal_info_def store_register_watch_def
  list_active_watches_def mark_watch_spent_def prune_spent_watches_def store_release_reclaimed_def
  store_record_fee_burn_def

lemma keeps_require [keeps_rules]: "keeps I (require_lifecycle lc)"
  by (auto simp: require_lifecycle_def intro: keeps_rules split: option.splits)

lemma wp_require [wp_rules]: "wp (require_lifecycle lc) Q E s
    = (case lc of None \<Rightarrow> E (Db AdapterError) s | Some w \<Rightarrow> Q w s)"
  by (simp add: require_lifecycle_def wp_rules split: option.splits)

lemmas repo_keeps_history = keeps_history_rules [THEN spec] journal_keeps_history [THEN spec]
  watch_keeps_history [THEN spec] balances_keep_history [THEN spec] attachments_keep_history [THEN spec]

lemma store_keeps_history:
  "keeps_history (store_mark_remote_downloaded lc i)" "keeps_history (transition_message i st)"
  "keeps_history (get_message_state i)" "keeps_history (set_message_chain_ref i h n)"
  "keeps_history (record_outgoing_tx inp)" "keeps_history (mark_outgoing_tx_state h x c)"
  "keeps_history (find_outgoing_tx_by_purpose p)" "keeps_history (find_outgoing_by_envelope_id h)"
  "keeps_history (list_outgoing_by_state st)" "keeps_history (find_latest_by_prefix p)"
  "keeps_history (mark_outgoing_tx_state_if h e x c)" "keeps_history (store_reserve_capacity lc a)"
  "keeps_history (store_mark_reclaimable lc a)" "keeps_history (get_message_journal_info i)"
  "keeps_history (store_register_watch lc h n p)" "keeps_history (list_active_watches lc)"
  "keeps_history (mark_watch_spent lc h n b)" "keeps_history (prune_spent_watches lc)"
  "keeps_history (store_release_reclaimed lc a)" "keeps_history (store_record_fee_burn lc a)"
  by (auto simp: store_defs intro!: keeps_rules repo_keeps_history)

end
