(* ===== verification/Cemp_Broadcast.thy ===== *)
theory Cemp_Broadcast
  imports Cemp_Monitor Cemp_Store
begin

text \<open>
  The rule that both pipelines follow (rule 6 of the repository): a transaction is in the journal
  before it is sent.

  The environment is instrumented by an arbitrary function \<open>sent\<close> that says which transactions
  have been handed to the network so far. \<open>all_journaled\<close> says that the journal has a row with the
  hash of each of them; it holds after every prefix of a run, because the operations keep it
  whatever their outcome. The journal row has the hash of the transaction and not necessarily its
  very bytes: a transaction hash of the chain does not cover the witnesses, so building the same
  transaction again finds the row that is already there.
\<close>

section \<open>The invariant\<close>

definition journal_keys :: "outgoing_tx list \<Rightarrow> (nat \<times> string \<times> string option) list" where
  "journal_keys rows = map (\<lambda>r. (tx_id r, tx_hash r, tx_hex r)) rows"

definition all_journaled ::
  "('w, 'tx) chain_client \<Rightarrow> ('tx \<Rightarrow> string) \<Rightarrow> ('w \<Rightarrow> 'tx set) \<Rightarrow> 'w world \<Rightarrow> bool" where
  "all_journaled client txhash sent s \<longleftrightarrow>
     (\<forall>(_, h, hex) \<in> set (journal_keys (db_txs s)). \<forall>j tx. hex = Some j \<longrightarrow> cl_parse_tx client j = Inr tx
        \<longrightarrow> txhash tx = h) \<and>
     (\<forall>tx \<in> sent (env s). txhash tx \<in> (fst \<circ> snd) ` set (journal_keys (db_txs s)))"

text \<open>What the instrumentation has to satisfy: only sending adds to the log, and it adds at most
  the transaction sent; and JSON reads back what it wrote.\<close>

definition logs_sends :: "('w, 'tx) chain_client \<Rightarrow> ('w \<Rightarrow> 'tx set) \<Rightarrow> bool" where
  "logs_sends client sent \<longleftrightarrow>
     (\<forall>h w. sent (fst (snd (cl_get_transaction client h w))) = sent w) \<and>
     (\<forall>h n w. sent (fst (snd (cl_get_live_cell client h n w))) = sent w) \<and>
     (\<forall>tx w. sent (fst (snd (cl_track_spend client tx w))) = sent w) \<and>
     (\<forall>tx w. sent (fst (snd (cl_send_transaction client tx w))) \<subseteq> insert tx (sent w)) \<and>
     (\<forall>tx. cl_parse_tx client (cl_stringify_tx client tx) = Inr tx)"

definition silent :: "('w \<Rightarrow> 'tx set) \<Rightarrow> ('w, 'a) env_call \<Rightarrow> bool" where
  "silent sent f \<longleftrightarrow> (\<forall>w. sent (fst (snd (f w))) = sent w)"

section \<open>Operations that leave it alone\<close>

lemma env_free_history [simp]: "env_free (\<lambda>s. history_kept old (db_messages s))"
  by (simp add: env_free_def)

abbreviation keeps_journal_env :: "('w world, failure, 'a) prog \<Rightarrow> bool" where
  "keeps_journal_env m \<equiv> (\<forall>k w. keeps (\<lambda>s. journal_keys (db_txs s) = k \<and> env s = w) m)"

lemma journal_keys_patch [simp]:
  "journal_keys (update_where p (tx_patch st c b) rows) = journal_keys rows"
  by (simp add: journal_keys_def map_update_where)

lemma store_keeps_journal_env:
  "keeps_journal_env (store_mark_remote_downloaded lc i)" "keeps_journal_env (transition_message i st)"
  "keeps_journal_env (get_message_state i)" "keeps_journal_env (set_message_chain_ref i h n)"
  "keeps_journal_env (mark_outgoing_tx_state h x c)" "keeps_journal_env (set_envelope_message_id i h)"
  "keeps_journal_env (find_outgoing_tx_by_purpose p)" "keeps_journal_env (find_outgoing_by_envelope_id h)"
  "keeps_journal_env (list_outgoing_by_state st)" "keeps_journal_env (find_latest_by_prefix p)"
  "keeps_journal_env (mark_outgoing_tx_state_if h e x c)" "keeps_journal_env (store_reserve_capacity lc a)"
  "keeps_journal_env (store_mark_reclaimable lc a)" "keeps_journal_env (get_message_journal_info i)"
  "keeps_journal_env (store_register_watch lc h n p)" "keeps_journal_env (list_active_watches lc)"
  "keeps_journal_env (mark_watch_spent lc h n b)" "keeps_journal_env (prune_spent_watches lc)"
  "keeps_journal_env (store_release_reclaimed lc a)" "keeps_journal_env (store_record_fee_burn lc a)"
  by (auto simp: store_defs mark_remote_downloaded_def transition_state_def set_state_def
      get_message_def set_chain_ref_def set_envelope_message_id_def mark_tx_state_def mark_tx_state_if_def
      find_latest_by_purpose_def find_latest_by_purpose_prefix_def get_by_envelope_message_id_def
      list_by_state_def get_chain_ref_def reserve_capacity_def mark_reclaimable_def
      release_reclaimed_def record_fee_burn_def move_capacity_def get_balance_def update_balance_def
      register_watch_def list_active_def mark_spent_def prune_spent_def Let_def
      intro!: keeps_rules keeps_update_txs)

lemma keeps_all_journaled:
  assumes "keeps_journal_env m"
  shows "keeps (all_journaled client txhash sent) m"
proof -
  have "journal_keys (db_txs (snd (m s))) = journal_keys (db_txs s) \<and> env (snd (m s)) = env s" for s
    using assms by (simp add: keeps_def)
  then show ?thesis by (simp add: keeps_def all_journaled_def)
qed

lemmas store_keeps_all_journaled [keeps_rules] =
  store_keeps_journal_env [THEN keeps_all_journaled]

lemma keeps_silent [keeps_rules]: "silent sent f \<Longrightarrow> keeps (all_journaled client txhash sent) (on_env f)"
  by (auto simp: keeps_def on_env_def all_journaled_def silent_def split: prod.splits) (metis fst_conv snd_conv)+

lemma keeps_sleep_journaled [keeps_rules]: "keeps (all_journaled client txhash sent) (sleep ms)"
  by (simp add: keeps_def sleep_def modify_def all_journaled_def)

lemma silent_calls:
  assumes "logs_sends client sent"
  shows "silent sent (cl_get_transaction client h)" "silent sent (cl_get_live_cell client h n)"
    "silent sent (cl_track_spend client tx)"
  using assms by (simp_all add: logs_sends_def silent_def)

section \<open>Sending\<close>

lemma keeps_send:
  assumes "logs_sends client sent" and "all_journaled client txhash sent s"
    and "txhash tx \<in> (fst \<circ> snd) ` set (journal_keys (db_txs s))"
  shows "wp (on_env (cl_send_transaction client tx)) (\<lambda>_. all_journaled client txhash sent)
    (\<lambda>_. all_journaled client txhash sent) s"
proof (cases "cl_send_transaction client tx (env s)")
  case (fields r w n)
  then have "sent w \<subseteq> insert tx (sent (env s))"
    using assms(1) by (metis logs_sends_def fst_conv snd_conv)
  then have "all_journaled client txhash sent (s\<lparr>db_clock := db_clock s + int n, env := w\<rparr>)"
    using assms(2,3) by (auto simp: all_journaled_def)
  with fields show ?thesis by (simp add: wp_on_env split: sum.splits)
qed

text \<open>Recording a transaction makes its hash known, and keeps the invariant when the recorded
  bytes are those of a transaction with that hash.\<close>

lemma wp_record_journals:
  assumes "all_journaled client txhash sent s"
    and "\<And>j tx. ti_hex inp = Some j \<Longrightarrow> cl_parse_tx client j = Inr tx \<Longrightarrow> txhash tx = ti_hash inp"
  shows "wp (record_outgoing_tx inp) (\<lambda>_ s'. all_journaled client txhash sent s' \<and>
      ti_hash inp \<in> (fst \<circ> snd) ` set (journal_keys (db_txs s'))) (\<lambda>_ _. False) s"
proof -
  have new: "journal_keys (rows @ [new_tx inp rows])
      = journal_keys rows @ [(next_id tx_id rows, ti_hash inp, ti_hex inp)]" for rows
    by (simp add: journal_keys_def new_tx_def)
  have "ti_hash inp \<in> (fst \<circ> snd) ` set (journal_keys (db_txs s))" if "find_tx (ti_hash inp) s = Some r" for r
    using find_some_mem [OF that [unfolded find_tx_def]] by (force simp: journal_keys_def image_iff)
  then show ?thesis
    using assms by (auto simp: record_outgoing_tx_def wp_rules Let_def all_journaled_def new
        split: option.splits)
qed

section \<open>The monitor\<close>

lemma keeps_wait_loop_journaled:
  assumes "logs_sends client sent"
  shows "keeps (all_journaled client txhash sent) (wait_loop n client h timeout interval deadline)"
proof (induction n)
  case (Suc n)
  have "keeps (all_journaled client txhash sent) (poll_commit client h timeout interval deadline)"
    unfolding poll_commit_def using silent_calls [OF assms]
    by (auto simp: Let_def split: tx_status.splits intro!: keeps_rules)
  with Suc show ?case
    by (auto split: option.splits intro!: keeps_rules)
qed (simp add: keeps_rules)

lemma keeps_wait_journaled [keeps_rules]:
  "logs_sends client sent \<Longrightarrow> keeps (all_journaled client txhash sent) (wait_for_commit client h timeout)"
  unfolding wait_for_commit_def Let_def
  by (auto simp del: wait_loop.simps split: option.splits intro!: keeps_rules keeps_wait_loop_journaled)

lemma all_journaled_mono:
  "all_journaled client txhash sent s \<Longrightarrow> sent w = sent (env s) \<Longrightarrow>
     all_journaled client txhash sent (s\<lparr>db_clock := t, env := w\<rparr>)"
  by (simp add: all_journaled_def)

text \<open>Rebroadcasting sends only what a journal row holds.\<close>

lemma keeps_resume_journaled:
  assumes log: "logs_sends client sent" and s: "all_journaled client txhash sent s"
    and row: "\<And>j. hex = Some j \<Longrightarrow> \<exists>i. (i, h, Some j) \<in> set (journal_keys (db_txs s))"
  shows "wp (resume_journaled_broadcast client h hex timeout) (\<lambda>_. all_journaled client txhash sent)
    (\<lambda>_. all_journaled client txhash sent) s"
proof (cases "cl_get_transaction client h (env s)")
  case (fields r w n)
  let ?s = "s\<lparr>db_clock := db_clock s + int n, env := w\<rparr>"
  have same: "sent w = sent (env s)" using log fields by (metis logs_sends_def fst_conv snd_conv)
  have s1: "all_journaled client txhash sent ?s" by (rule all_journaled_mono [OF s same])
  have wait: "wp (wait_for_commit client h timeout) (\<lambda>_. all_journaled client txhash sent)
      (\<lambda>_. all_journaled client txhash sent) t" if "all_journaled client txhash sent t" for t
    using keeps_wait_journaled [OF log] that by (simp add: keeps_wp)
  have send: "wp (on_env (cl_send_transaction client wire)) (\<lambda>_. all_journaled client txhash sent)
      (\<lambda>_. all_journaled client txhash sent) ?s"
    if hex: "hex = Some json" and wire: "cl_parse_tx client json = Inr wire" for json wire
  proof -
    obtain i where i: "(i, h, Some json) \<in> set (journal_keys (db_txs s))" using row [OF hex] by blast
    then have "txhash wire = h" using s wire by (fastforce simp: all_journaled_def)
    then have "txhash wire \<in> (fst \<circ> snd) ` set (journal_keys (db_txs ?s))" using i by force
    with log s1 show ?thesis by (rule keeps_send)
  qed
  show ?thesis
  proof (cases r)
    case (Inl e)
    with fields s1 show ?thesis
      by (simp add: resume_journaled_broadcast_def wp_andthen wp_on_env)
  next
    case (Inr status)
    have step: "wp (case hex of None \<Rightarrow> throw (Abandoned False)
       | Some json \<Rightarrow>
           andthen (lift_result (cl_parse_tx client json)) (\<lambda>wire.
           andthen (catching (on_env (cl_send_transaction client wire)) (\<lambda>e.
             if spent_elsewhere (error_message e) then throw (Abandoned True) else throw e)) (\<lambda>accepted.
           if accepted \<noteq> h
           then throw (CkbError ''monitor''
             ''rebroadcast returned a tx hash different from the journaled transaction'')
           else andthen (wait_for_commit client h timeout) (\<lambda>_. ret Rebroadcast))))
       (\<lambda>_. all_journaled client txhash sent) (\<lambda>_. all_journaled client txhash sent) ?s"
      using s1 by (auto simp: wp_rules split: option.splits sum.splits
          intro!: wp_mono [OF send] wait)
    show ?thesis
      using fields Inr s1 step wait
      by (auto simp: resume_journaled_broadcast_def wp_rules wp_on_env split: tx_status.splits)
  qed
qed

text \<open>The two steps every pipeline is built from: journal and send, and resume a journaled row.\<close>

lemma keeps_record_send:
  assumes log: "logs_sends client sent" and hash: "ti_hash inp = txhash tx"
    and hex: "ti_hex inp = Some (cl_stringify_tx client tx)"
    and rest: "\<And>a. keeps (all_journaled client txhash sent) (f a)"
  shows "keeps (all_journaled client txhash sent) (andthen (record_outgoing_tx inp)
    (\<lambda>_. andthen (on_env (cl_send_transaction client tx)) f))"
proof (rule keepsI)
  let ?I = "all_journaled client txhash sent"
  have parse: "cl_parse_tx client (cl_stringify_tx client tx) = Inr tx" using log by (simp add: logs_sends_def)
  fix s assume s: "?I s"
  show "wp (andthen (record_outgoing_tx inp) (\<lambda>_. andthen (on_env (cl_send_transaction client tx)) f))
    (\<lambda>_. ?I) (\<lambda>_. ?I) s"
    unfolding wp_andthen [of "record_outgoing_tx inp"]
  proof (rule wp_mono [OF wp_record_journals [OF s]])
    fix a s' assume "?I s' \<and> ti_hash inp \<in> (fst \<circ> snd) ` set (journal_keys (db_txs s'))"
    then have "stays ?I (on_env (cl_send_transaction client tx)) s'"
      unfolding stays_def by (intro keeps_send [OF log]) (auto simp: hash)
    from stays_andthen [OF this rest]
    show "wp (andthen (on_env (cl_send_transaction client tx)) f) (\<lambda>_. ?I) (\<lambda>_. ?I) s'"
      by (simp add: stays_def)
  qed (auto simp: hash hex parse)
qed

lemma stays_resume:
  assumes "logs_sends client sent" and "all_journaled client txhash sent s" and "j \<in> set (db_txs s)"
    and "\<And>a. keeps (all_journaled client txhash sent) (f a)"
  shows "stays (all_journaled client txhash sent)
    (andthen (resume_journaled_broadcast client (tx_hash j) (tx_hex j) timeout) f) s"
proof -
  have "(tx_id j, tx_hash j, tx_hex j) \<in> set (journal_keys (db_txs s))"
    using assms(3) by (simp add: journal_keys_def)
  then have "stays (all_journaled client txhash sent)
      (resume_journaled_broadcast client (tx_hash j) (tx_hex j) timeout) s"
    unfolding stays_def by (intro keeps_resume_journaled [OF assms(1,2)]) auto
  from stays_andthen [OF this assms(4)] show ?thesis .
qed

end
