(* ===== verification/Cemp_Publisher.thy ===== *)
theory Cemp_Publisher
  imports Cemp_Broadcast
begin

text \<open>
  packages/cemp-ckb/src/publisher.ts: publishing one queued message, or resuming its journaled
  transaction.

  Resolving and checking the recipient profile, sealing the envelope, building and signing the
  transaction are arguments of the model: they read the environment and return a value or fail.
  The mutable flag \<open>broadcast\<close> of the code is the boolean that \<open>tagged\<close> attaches to an error: it
  says whether the failing step came after the broadcast.
\<close>

section \<open>Failures\<close>

text \<open>The user-facing text is a function of the code and left out. A failure of the pipeline is never a
  publication error itself, so the branch that passes one through is not taken.\<close>

datatype publication_code =
    ProfileNotFound | InsufficientCapacity | RejectedByNode | NetworkUnavailable | CommitTimeout
  | InternalError

record publication_error =
  pe_code :: publication_code
  pe_broadcast :: bool
  pe_cause :: failure

definition classify_message :: "string \<Rightarrow> publication_code" where
  "classify_message m =
     (if contains ''no live profile cell'' m \<or> contains ''failed validation'' m then ProfileNotFound
      else if contains ''capacity'' m \<or> contains ''Insufficient'' m then InsufficientCapacity
      else if contains ''timed out'' m then CommitTimeout
      else if contains ''fetch'' m \<or> contains ''network'' m \<or> contains ''ECONNREFUSED'' m
        \<or> contains ''timed'' m then NetworkUnavailable
      else if contains ''rejected'' m then RejectedByNode
      else InternalError)"

definition classify_publish_error :: "failure \<Rightarrow> bool \<Rightarrow> publication_error" where
  "classify_publish_error e broadcast =
     \<lparr>pe_code = classify_message (error_message e), pe_broadcast = broadcast, pe_cause = e\<rparr>"

section \<open>The pipeline\<close>

record ('w, 'i, 'a, 'b, 'tx) publisher_deps =
  pd_client :: "('w, 'tx) chain_client"
  pd_store :: "nat option"
  pd_sender_profile :: "('w, bytes) env_call"
  pd_assemble :: "'i \<Rightarrow> bytes \<Rightarrow> ('w, 'a) env_call"
  pd_message_id :: "'a \<Rightarrow> bytes"
  pd_build :: "'a \<Rightarrow> ('w, 'b) env_call"
  pd_fee :: "'b \<Rightarrow> int"
  pd_cell_capacity :: "'b \<Rightarrow> int option"
  pd_sign :: "'b \<Rightarrow> ('w, 'b) env_call"
  pd_hash :: "'b \<Rightarrow> string"
  pd_wire :: "'b \<Rightarrow> 'tx"

record 'i publish_input =
  pi_row_id :: nat
  pi_logical_id :: string
  pi_content :: 'i
  pi_timeout :: "int option"

record publish_result =
  pr_tx_hash :: string
  pr_committed :: bool
  pr_resumed :: bool

definition outgoing_publish_path :: "mstate list" where
  "outgoing_publish_path = [Draft, Queued, Encrypting, BuildingTransaction, AwaitingSignature,
     Submitting, Pending, Committed, AvailableOnChain]"

definition walk_to_state :: "nat \<Rightarrow> mstate \<Rightarrow> ('x db_scheme, failure, unit) prog" where
  "walk_to_state i target = andthen (get_message_state i) (\<lambda>current.
     let origin = Option.bind current (\<lambda>st. index_of st outgoing_publish_path) in
     case index_of target outgoing_publish_path of
       None \<Rightarrow> ret ()
     | Some goal \<Rightarrow>
         (case origin of
            None \<Rightarrow> for_each (\<lambda>k. transition_message i (outgoing_publish_path ! k)) [1..<Suc goal]
          | Some k0 \<Rightarrow>
              if k0 \<ge> goal then ret ()
              else for_each (\<lambda>k. transition_message i (outgoing_publish_path ! k)) [Suc k0..<Suc goal]))"

definition publish_monitor ::
  "('w, 'i, 'a, 'b, 'tx) publisher_deps \<Rightarrow> nat \<Rightarrow> string \<Rightarrow> bool \<Rightarrow> int option \<Rightarrow> int option \<Rightarrow>
     ('w world, failure, publish_result) prog" where
  "publish_monitor d i h resumed timeout reserve =
     andthen (wait_for_commit (pd_client d) h timeout) (\<lambda>_.
     andthen now (\<lambda>t.
     andthen (mark_outgoing_tx_state h ''committed'' (Some t)) (\<lambda>_.
     andthen (set_message_chain_ref i h 0) (\<lambda>_.
     andthen (walk_to_state i AvailableOnChain) (\<lambda>_.
     andthen (case reserve of
         None \<Rightarrow> ret ()
       | Some amount \<Rightarrow> when_do (amount \<noteq> 0) (store_reserve_capacity (pd_store d) amount)) (\<lambda>_.
     ret \<lparr>pr_tx_hash = h, pr_committed = True, pr_resumed = resumed\<rparr>))))))"

text \<open>The journaled transaction to adopt: none, or the latest one unless it can never land.\<close>

definition find_resumable ::
  "('w, 'i, 'a, 'b, 'tx) publisher_deps \<Rightarrow> string \<Rightarrow> int option \<Rightarrow>
     ('w world, failure, outgoing_tx option) prog" where
  "find_resumable d purpose timeout =
     andthen (find_outgoing_tx_by_purpose purpose) (\<lambda>existing. case existing of
       None \<Rightarrow> ret None
     | Some j \<Rightarrow> catching
         (andthen (resume_journaled_broadcast (pd_client d) (tx_hash j) (tx_hex j) timeout) (\<lambda>outcome.
          andthen (case (outcome, tx_hex j) of
              (Rebroadcast, Some json) \<Rightarrow>
                andthen (lift_result (cl_parse_tx (pd_client d) json)) (\<lambda>wire.
                  on_env (cl_track_spend (pd_client d) wire))
            | _ \<Rightarrow> ret ()) (\<lambda>_. ret (Some j))))
         (\<lambda>e. case e of
            Abandoned _ \<Rightarrow> andthen (mark_outgoing_tx_state (tx_hash j) ''abandoned'' None) (\<lambda>_. ret None)
          | _ \<Rightarrow> throw e))"

definition publish_tx_input ::
  "('w, 'i, 'a, 'b, 'tx) publisher_deps \<Rightarrow> string \<Rightarrow> 'b \<Rightarrow> 'b \<Rightarrow> int \<Rightarrow> tx_input" where
  "publish_tx_input d purpose built signed_tx t =
     \<lparr>ti_hash = pd_hash d signed_tx, ti_purpose = purpose, ti_state = ''submitted'',
      ti_fee = Some (pd_fee d built), ti_submitted_at = Some t,
      ti_capacity = Some (case pd_cell_capacity d built of None \<Rightarrow> 0 | Some c \<Rightarrow> c),
      ti_hex = Some (cl_stringify_tx (pd_client d) (pd_wire d signed_tx))\<rparr>"

definition tagged :: "bool \<Rightarrow> ('s, failure, 'a) prog \<Rightarrow> ('s, bool \<times> failure, 'a) prog" where
  "tagged broadcast m = catching m (\<lambda>e. throw (broadcast, e))"

text \<open>The fresh build, up to and including the broadcast.\<close>

definition publish_send ::
  "('w, 'i, 'a, 'b, 'tx) publisher_deps \<Rightarrow> 'i publish_input \<Rightarrow> string \<Rightarrow> ('w world, failure, 'b \<times> 'b) prog" where
  "publish_send d inp purpose =
     andthen (transition_message (pi_row_id inp) Encrypting) (\<lambda>_.
     andthen (on_env (pd_sender_profile d)) (\<lambda>sender.
     andthen (on_env (pd_assemble d (pi_content inp) sender)) (\<lambda>assembled.
     andthen (transition_message (pi_row_id inp) BuildingTransaction) (\<lambda>_.
     andthen (on_env (pd_build d assembled)) (\<lambda>built.
     andthen (transition_message (pi_row_id inp) AwaitingSignature) (\<lambda>_.
     andthen (on_env (pd_sign d built)) (\<lambda>signed_tx.
     andthen (transition_message (pi_row_id inp) Submitting) (\<lambda>_.
     andthen now (\<lambda>t.
     andthen (record_outgoing_tx (publish_tx_input d purpose built signed_tx t)) (\<lambda>_.
     andthen (set_message_chain_ref (pi_row_id inp) (pd_hash d signed_tx) 0) (\<lambda>_.
     andthen (set_envelope_message_id (pi_row_id inp) (bytes_to_hex (pd_message_id d assembled))) (\<lambda>_.
     andthen (on_env (cl_send_transaction (pd_client d) (pd_wire d signed_tx))) (\<lambda>accepted.
     if accepted \<noteq> pd_hash d signed_tx
     then throw (CkbError ''publisher'' ''node returned a tx hash different from the signed transaction'')
     else ret (built, signed_tx))))))))))))))"

definition publish_body ::
  "('w, 'i, 'a, 'b, 'tx) publisher_deps \<Rightarrow> 'i publish_input \<Rightarrow>
     ('w world, bool \<times> failure, publish_result) prog" where
  "publish_body d inp =
     (let purpose = ''message:'' @ pi_logical_id inp in
      andthen (tagged False (find_resumable d purpose (pi_timeout inp))) (\<lambda>resumable. case resumable of
        Some j \<Rightarrow> tagged True
          (andthen (walk_to_state (pi_row_id inp) Pending) (\<lambda>_.
           publish_monitor d (pi_row_id inp) (tx_hash j) True (pi_timeout inp) (tx_capacity j)))
      | None \<Rightarrow>
          andthen (tagged False (publish_send d inp purpose)) (\<lambda>(built, signed_tx).
          tagged True
            (andthen (on_env (cl_track_spend (pd_client d) (pd_wire d signed_tx))) (\<lambda>_.
             andthen (transition_message (pi_row_id inp) Pending) (\<lambda>_.
             publish_monitor d (pi_row_id inp) (pd_hash d signed_tx) False (pi_timeout inp)
               (Some (case pd_cell_capacity d built of None \<Rightarrow> 0 | Some c \<Rightarrow> c))))))))"

definition publish_text ::
  "('w, 'i, 'a, 'b, 'tx) publisher_deps \<Rightarrow> 'i publish_input \<Rightarrow>
     ('w world, publication_error, publish_result) prog" where
  "publish_text d inp = catching (publish_body d inp) (\<lambda>(broadcast, e).
     andthen (when_do (\<not> broadcast)
       (catching (transition_message (pi_row_id inp) Failed) (\<lambda>_. ret ()))) (\<lambda>_.
     throw (classify_publish_error e broadcast)))"

section \<open>Lemmas\<close>

subsection \<open>The walk\<close>

abbreviation on_path :: "nat \<Rightarrow> mstate" where
  "on_path k \<equiv> outgoing_publish_path ! k"

abbreviation state_of :: "nat \<Rightarrow> 'x db_scheme \<Rightarrow> (direction \<times> mstate) option" where
  "state_of i s \<equiv> map_option (\<lambda>m. (m_direction m, m_state m)) (find_message i s)"

lemma path_cases: "P 0 \<Longrightarrow> P 1 \<Longrightarrow> P 2 \<Longrightarrow> P 3 \<Longrightarrow> P 4 \<Longrightarrow> P 5 \<Longrightarrow> P 6 \<Longrightarrow> P 7 \<Longrightarrow> P 8 \<Longrightarrow> k < 9 \<Longrightarrow> P (k::nat)"
  by (simp add: numeral_eq_Suc less_Suc_eq) blast

lemma path_step: "Suc k < 9 \<Longrightarrow> can_transition_message Outgoing (on_path k) (on_path (Suc k)) \<and> on_path k \<noteq> on_path (Suc k)"
  by (auto simp: outgoing_publish_path_def state_defs numeral_eq_Suc less_Suc_eq)

lemma index_of_path: "k < 9 \<Longrightarrow> index_of (on_path k) outgoing_publish_path = Some k"
  by (auto simp: outgoing_publish_path_def numeral_eq_Suc less_Suc_eq)

lemma index_of_pathD: "index_of st outgoing_publish_path = Some k \<Longrightarrow> k < 9 \<and> st = on_path k"
  by (cases st) (auto simp: outgoing_publish_path_def)

lemma wp_transition_message:
  "wp (transition_message i st) Q E s = wp (transition_state i st) (\<lambda>_. Q ()) E s"
  by (simp add: transition_message_def wp_rules)

text \<open>Walking forward along the path from a state on it.\<close>

lemma walk_forward:
  assumes "k \<le> goal" and "goal < 9" and "state_of i s = Some (Outgoing, on_path k)"
  shows "wp (for_each (\<lambda>k. transition_message i (on_path k)) [Suc k..<Suc goal])
     (\<lambda>_ s'. state_of i s' = Some (Outgoing, on_path goal)) (\<lambda>_ _. False) s"
  using assms
proof (induction "goal - k" arbitrary: k s)
  case (Suc n)
  then have k: "Suc k \<le> goal" "Suc k < 9" by auto
  obtain m where m: "find_message i s = Some m" "m_direction m = Outgoing" "m_state m = on_path k"
    using Suc.prems(3) by auto
  have "state_of i (set_state i (on_path (Suc k)) t s) = Some (Outgoing, on_path (Suc k))" for t
    using m by simp
  from Suc.hyps(1) [OF _ k(1) Suc.prems(2) this] Suc.hyps(2)
  have "wp (for_each (\<lambda>k. transition_message i (on_path k)) [Suc (Suc k)..<Suc goal])
     (\<lambda>_ s'. state_of i s' = Some (Outgoing, on_path goal)) (\<lambda>_ _. False) (set_state i (on_path (Suc k)) t s)" for t
    by (simp add: Suc_diff_le)
  then show ?case
    using m path_step [OF k(2)] k(1)
    by (simp add: upt_conv_Cons wp_andthen wp_transition_message wp_transition_state del: upt_Suc)
qed (simp add: wp_ret)

lemma for_each_from_queued:
  assumes "state_of i s = Some (Outgoing, st)" and "index_of st outgoing_publish_path = None"
    and "0 < goal" and "goal < 9"
  shows "if st = Failed
     then wp (for_each (\<lambda>k. transition_message i (on_path k)) [1..<Suc goal])
       (\<lambda>_ s'. state_of i s' = Some (Outgoing, on_path goal)) (\<lambda>_ _. False) s
     else for_each (\<lambda>k. transition_message i (on_path k)) [1..<Suc goal] s = (Inl (Db IllegalStateTransition), s)"
proof -
  obtain m where m: "find_message i s = Some m" "m_direction m = Outgoing" "m_state m = st"
    using assms(1) by auto
  have split: "[1..<Suc goal] = 1 # [Suc 1..<Suc goal]" using assms(3) by (simp add: upt_conv_Cons)
  have on1: "on_path 1 = Queued" by (simp add: outgoing_publish_path_def)
  show ?thesis
  proof (cases "st = Failed")
    case True
    have "state_of i (set_state i Queued t s) = Some (Outgoing, on_path 1)" for t
      using m on1 by simp
    from walk_forward [OF _ assms(4) this] assms(3) True m on1 show ?thesis
      unfolding split by (simp add: wp_andthen wp_transition_message wp_transition_state state_defs)
  next
    case False
    have "st \<noteq> Queued" "\<not> can_transition_message Outgoing st Queued"
      using assms(2) False by (cases st; simp add: outgoing_publish_path_def)+
    then have "wp (for_each (\<lambda>k. transition_message i (on_path k)) [1..<Suc goal])
        (\<lambda>_ _. False) (\<lambda>e s'. e = Db IllegalStateTransition \<and> s' = s) s"
      using m on1 unfolding split
      by (auto simp: wp_andthen wp_transition_message wp_transition_state simp del: upt_Suc)
    then show ?thesis
      using False by (auto simp: wp_def split: prod.splits sum.splits)
  qed
qed

lemma wp_walk:
  assumes "state_of i s = Some (Outgoing, st)" and "0 < goal" and "goal < 9"
  shows "wp (walk_to_state i (on_path goal))
     (\<lambda>_ s'. state_of i s' = Some (Outgoing, on_path (case index_of st outgoing_publish_path of
          Some k \<Rightarrow> max k goal | None \<Rightarrow> goal)))
     (\<lambda>e s'. e = Db IllegalStateTransition \<and> s' = s \<and> st \<noteq> Failed \<and> index_of st outgoing_publish_path = None) s"
proof -
  have state: "wp (get_message_state i) Q E s = Q (Some st) s" for Q and E :: "failure \<Rightarrow> 'a db_scheme \<Rightarrow> bool"
    using assms(1) by (auto simp: get_message_state_def get_message_def wp_rules)
  show ?thesis
  proof (cases "index_of st outgoing_publish_path")
    case None
    from for_each_from_queued [OF assms(1) None assms(2,3)] None show ?thesis
      unfolding walk_to_state_def wp_andthen state
      by (auto simp: index_of_path [OF assms(3)] wp_def simp del: upt_Suc split: if_splits sum.splits)
  next
    case (Some k)
    have k: "k < 9" "st = on_path k" using index_of_pathD [OF Some] by auto
    show ?thesis
    proof (cases "k < goal")
      case True
      from walk_forward [of k goal i s] k assms True
      have "wp (for_each (\<lambda>k. transition_message i (on_path k)) [Suc k..<Suc goal])
         (\<lambda>_ s'. state_of i s' = Some (Outgoing, on_path goal)) (\<lambda>_ _. False) s" by simp
      then show ?thesis
        unfolding walk_to_state_def wp_andthen state using Some True
        by (auto simp: index_of_path [OF assms(3)] max_def simp del: upt_Suc elim: wp_mono)
    next
      case False
      then show ?thesis
        unfolding walk_to_state_def wp_andthen state using Some k assms(1)
        by (auto simp: index_of_path [OF assms(3)] max_def wp_ret simp del: upt_Suc)
    qed
  qed
qed

text \<open>Whatever the direction: a run of transitions that returns ends in its last state.\<close>

lemma walked_to_last:
  "wp (for_each (\<lambda>k. transition_message i (on_path k)) ks)
     (\<lambda>_ s'. ks = [] \<or> map_option m_state (find_message i s') = Some (on_path (last ks))) (\<lambda>_ _. True) s"
proof (induction ks arbitrary: s rule: induct_list012)
  case (3 k k' ks)
  show ?case
    unfolding for_each.simps(2) [of _ k] wp_andthen wp_transition_message wp_transition_state
    using 3(2) by (auto split: option.splits)
qed (auto simp: wp_rules wp_transition_message wp_transition_state split: option.splits)

lemma wp_walk_available:
  "wp (walk_to_state i AvailableOnChain)
     (\<lambda>_ s'. map_option m_state (find_message i s') = Some AvailableOnChain) (\<lambda>_ _. True) s"
proof -
  have goal: "index_of AvailableOnChain outgoing_publish_path = Some 8" "on_path 8 = AvailableOnChain"
    by (simp_all add: outgoing_publish_path_def)
  have run: "wp (for_each (\<lambda>k. transition_message i (on_path k)) [k..<Suc 8])
      (\<lambda>_ s'. map_option m_state (find_message i s') = Some AvailableOnChain) (\<lambda>_ _. True) s" if "k \<le> 8" for k
    using walked_to_last [of i "[k..<Suc 8]" s] that goal(2) by (auto simp: wp_def split: prod.splits sum.splits)
  show ?thesis
  proof (cases "Option.bind (map_option m_state (find_message i s)) (\<lambda>st. index_of st outgoing_publish_path)")
    case None
    then show ?thesis using run [of 1]
      by (simp add: walk_to_state_def get_message_state_def get_message_def wp_rules goal del: upt_Suc)
  next
    case (Some k)
    then obtain m where m: "find_message i s = Some m" "index_of (m_state m) outgoing_publish_path = Some k"
      by (auto simp: bind_eq_Some_conv)
    then have k: "k < 9" "m_state m = on_path k" using index_of_pathD by auto
    show ?thesis
    proof (cases "k < 8")
      case True
      with Some run [of "Suc k"] show ?thesis
        by (simp add: walk_to_state_def get_message_state_def get_message_def wp_rules goal del: upt_Suc)
    next
      case False
      with k have "k = 8" by simp
      with Some m k goal(2) show ?thesis
        by (simp add: walk_to_state_def get_message_state_def get_message_def wp_rules goal del: upt_Suc)
    qed
  qed
qed

subsection \<open>What a run that returns has done\<close>

definition published :: "nat \<Rightarrow> string \<Rightarrow> 'x db_scheme \<Rightarrow> bool" where
  "published i h s \<longleftrightarrow> map_option m_state (find_message i s) = Some AvailableOnChain \<and>
     chain_ref_pair (find_chain_ref i s) = Some (h, 0) \<and>
     map_option tx_state (find_tx h s) = Some ''committed''"

lemma wp_keeps_conj: "wp m Q E s \<Longrightarrow> keeps I m \<Longrightarrow> I s \<Longrightarrow> wp m (\<lambda>a s'. Q a s' \<and> I s') E s"
  by (auto simp: keeps_def wp_def split: prod.splits sum.splits)

lemma find_chain_ref_upsert:
  "find_chain_ref i (s\<lparr>db_chain_refs := upsert (\<lambda>r. cr_message_id r = i) (\<lambda>_. row) row (db_chain_refs s)\<rparr>)
     = Some row" if "cr_message_id row = i"
proof -
  have "List.find (\<lambda>r. cr_message_id r = i) (update_where (\<lambda>r. cr_message_id r = i) (\<lambda>_. row) rows) = Some row"
    if "list_ex (\<lambda>r. cr_message_id r = i) rows" for rows
    using that \<open>cr_message_id row = i\<close> by (induction rows) (auto simp: update_where_def)
  with that show ?thesis
    by (auto simp: find_chain_ref_def upsert_def find_append find_None_list_ex [THEN iffD2] split: option.splits)
qed

lemma walk_keeps_rest:
  "keeps (\<lambda>s. P (db_txs s) (db_chain_refs s) (db_balances s)) (walk_to_state i st)"
  by (auto simp: walk_to_state_def get_message_state_def get_message_def transition_message_def
      transition_state_def set_state_def Let_def split: option.splits intro!: keeps_rules)

lemma reserve_keeps_rest:
  "keeps (\<lambda>s. P (db_messages s) (db_txs s) (db_chain_refs s)) (store_reserve_capacity lc a)"
  by (auto simp: store_reserve_capacity_def reserve_capacity_def move_capacity_def get_balance_def
      update_balance_def intro!: keeps_rules)

lemma wp_mark_committed:
  "wp (mark_outgoing_tx_state h st c) (\<lambda>_ s'. map_option tx_state (find_tx h s') = Some st) (\<lambda>_ _. True) s"
proof (cases "find_tx h s")
  case None
  then have "changes (\<lambda>r. tx_hash r = h) (db_txs s) = 0"
    by (auto simp: find_tx_def find_None_list_ex changes_zero)
  then show ?thesis by (simp add: mark_outgoing_tx_state_def mark_tx_state_def wp_rules)
next
  case (Some r)
  then have "tx_hash r = h" by (auto simp: find_tx_def dest: find_some_mem)
  with Some show ?thesis
    by (simp add: mark_outgoing_tx_state_def mark_tx_state_def wp_rules find_tx_patched)
qed

lemma wp_publish_monitor:
  "wp (publish_monitor d i h resumed timeout reserve)
     (\<lambda>r s'. r = \<lparr>pr_tx_hash = h, pr_committed = True, pr_resumed = resumed\<rparr> \<and> published i h s')
     (\<lambda>_ _. True) s"
proof -
  let ?row = "\<lparr>cr_message_id = i, cr_tx_hash = Some h, cr_outpoint_index = Some 0,
    cr_reply_tx_hash = None, cr_reply_outpoint_index = None\<rparr>"
  have finish: "wp (case reserve of None \<Rightarrow> ret ()
       | Some amount \<Rightarrow> when_do (amount \<noteq> 0) (store_reserve_capacity (pd_store d) amount))
     (\<lambda>_. published i h) (\<lambda>_ _. True) t" if "published i h t" for t :: "'a world"
  proof -
    have "keeps (published i h) (store_reserve_capacity lc a)" for lc a
      using reserve_keeps_rest [of "\<lambda>ms txs refs. map_option m_state (List.find (\<lambda>m. m_id m = i) ms)
          = Some AvailableOnChain \<and> chain_ref_pair (List.find (\<lambda>r. cr_message_id r = i) refs) = Some (h, 0)
          \<and> map_option tx_state (List.find (\<lambda>r. tx_hash r = h) txs) = Some ''committed''" lc a]
      by (simp add: published_def [abs_def] find_message_def find_chain_ref_def find_tx_def)
    with that show ?thesis
      by (auto simp: keeps_wp wp_rules split: option.splits elim!: allE intro: wp_mono)
  qed
  have walk: "wp (walk_to_state i AvailableOnChain) (\<lambda>_. published i h) (\<lambda>_ _. True) t"
    if "map_option tx_state (find_tx h t) = Some ''committed''" "find_chain_ref i t = Some ?row" for t :: "'a world"
    by (rule wp_mono [OF wp_keeps_conj [OF wp_walk_available
          walk_keeps_rest [of "\<lambda>txs refs _. map_option tx_state (List.find (\<lambda>r. tx_hash r = h) txs) = Some ''committed''
            \<and> List.find (\<lambda>r. cr_message_id r = i) refs = Some ?row"]]])
      (use that in \<open>auto simp: published_def find_tx_def find_chain_ref_def chain_ref_pair_def\<close>)
  have refs: "wp (set_message_chain_ref i h 0)
      (\<lambda>_ t. map_option tx_state (find_tx h t) = Some ''committed'' \<and> find_chain_ref i t = Some ?row) (\<lambda>_ _. True) t"
    if "map_option tx_state (find_tx h t) = Some ''committed''" for t :: "'a world"
    using that by (auto simp: set_message_chain_ref_def set_chain_ref_def references_def wp_rules Let_def
        find_chain_ref_upsert find_tx_def)
  have wait: "wp (wait_for_commit (pd_client d) h timeout) (\<lambda>_ _. True) (\<lambda>_ _. True) s"
    by (simp add: wp_def split: prod.splits sum.splits)
  show ?thesis
    unfolding publish_monitor_def wp_andthen wp_ret
    by (rule wp_mono [OF wait])
      (auto simp: now_def wp_rules intro!: wp_mono [OF wp_mark_committed] wp_mono [OF refs]
        wp_mono [OF walk] wp_mono [OF finish])
qed

lemma wp_tagged: "wp (tagged b m) Q E s = wp m Q (\<lambda>e. E (b, e)) s"
  by (simp add: tagged_def wp_rules)

lemma wp_publish_text:
  "wp (publish_text d inp) (\<lambda>r s'. pr_committed r \<and> published (pi_row_id inp) (pr_tx_hash r) s') (\<lambda>_ _. True) s"
proof -
  have run: "wp (publish_monitor d i h resumed timeout reserve)
     (\<lambda>r s'. pr_committed r \<and> published i (pr_tx_hash r) s') E s" if "\<And>e s. E e s" for i h resumed timeout reserve s
      and E :: "failure \<Rightarrow> 'a world \<Rightarrow> bool"
    by (rule wp_mono [OF wp_publish_monitor]) (auto simp: that)
  have any: "wp m (\<lambda>_ _. True) E s" if "\<And>e s. E e s" for m :: "('a world, failure, 'z) prog" and E s
    using that by (simp add: wp_def split: prod.splits sum.splits)
  have fail: "wp (andthen (when_do b (catching (transition_message i Failed) (\<lambda>_. ret ()))) (\<lambda>_. throw e))
      Q (\<lambda>_ _. True) s" for b i e s and Q :: "publish_result \<Rightarrow> 'a world \<Rightarrow> bool"
    by (auto simp: wp_rules wp_transition_message wp_transition_state split: option.splits)
  show ?thesis
    unfolding publish_text_def wp_catching
  proof (rule wp_mono [where E = "\<lambda>_ _. True"])
    show "wp (publish_body d inp) (\<lambda>r s'. pr_committed r \<and> published (pi_row_id inp) (pr_tx_hash r) s')
      (\<lambda>_ _. True) s"
      unfolding publish_body_def Let_def wp_andthen wp_tagged
      by (rule wp_mono [OF any]) (auto simp: wp_andthen wp_tagged split: option.splits prod.splits
          intro!: wp_mono [OF any] run)
  qed (auto simp: fail split: prod.splits)
qed

subsection \<open>The history of messages\<close>

lemma keeps_tagged [keeps_rules]: "keeps I m \<Longrightarrow> keeps I (tagged b m)"
  by (auto simp: tagged_def intro: keeps_rules)

lemmas publish_rules = keeps_rules store_keeps_history [THEN spec] keeps_history_rules [THEN spec]

lemma walk_keeps_history: "keeps_history (walk_to_state i st)"
  by (auto simp: walk_to_state_def Let_def split: option.splits intro!: publish_rules)

lemma publish_keeps_history: "keeps (\<lambda>s. history_kept old (db_messages s)) (publish_text d inp)"
  by (auto simp: publish_text_def publish_body_def publish_send_def publish_monitor_def find_resumable_def
      Let_def split: option.splits prod.splits resume_outcome.splits failure.splits
      intro!: publish_rules walk_keeps_history [THEN spec])

subsection \<open>The journal rule\<close>

definition honest_publisher ::
  "('w, 'i, 'a, 'b, 'tx) publisher_deps \<Rightarrow> ('tx \<Rightarrow> string) \<Rightarrow> ('w \<Rightarrow> 'tx set) \<Rightarrow> bool" where
  "honest_publisher d txhash sent \<longleftrightarrow> logs_sends (pd_client d) sent \<and>
     silent sent (pd_sender_profile d) \<and> (\<forall>i p. silent sent (pd_assemble d i p)) \<and>
     (\<forall>a. silent sent (pd_build d a)) \<and> (\<forall>b. silent sent (pd_sign d b)) \<and>
     (\<forall>b. pd_hash d b = txhash (pd_wire d b))"

lemma walk_keeps_journaled [keeps_rules]: "keeps (all_journaled client txhash sent) (walk_to_state i st)"
  by (auto simp: walk_to_state_def Let_def split: option.splits intro!: keeps_rules)

lemma monitor_keeps_journaled:
  "logs_sends (pd_client d) sent \<Longrightarrow> keeps (all_journaled (pd_client d) txhash sent)
     (publish_monitor d i h resumed timeout reserve)"
  by (auto simp: publish_monitor_def split: option.splits intro!: keeps_rules)

text \<open>Linking the message to the transaction does not lose the journal row just written.\<close>

lemma wp_keeps_journal_row:
  assumes "keeps_journal_env m" and "all_journaled client txhash sent s"
    and "h \<in> (fst \<circ> snd) ` set (journal_keys (db_txs s))"
  shows "wp m (\<lambda>_ s'. all_journaled client txhash sent s' \<and> h \<in> (fst \<circ> snd) ` set (journal_keys (db_txs s')))
    (\<lambda>_. all_journaled client txhash sent) s"
proof -
  have "journal_keys (db_txs (snd (m s))) = journal_keys (db_txs s)"
    using assms(1) by (simp add: keeps_def)
  moreover have "all_journaled client txhash sent (snd (m s))"
    using keeps_all_journaled [OF assms(1)] assms(2) by (rule keepsD)
  ultimately show ?thesis using assms(3) by (auto simp: wp_def split: prod.splits sum.splits)
qed

lemma publish_send_journaled:
  assumes d: "honest_publisher d txhash sent"
  shows "keeps (all_journaled (pd_client d) txhash sent) (publish_send d inp purpose)"
proof -
  let ?I = "all_journaled (pd_client d) txhash sent"
  have log: "logs_sends (pd_client d) sent" and hash: "\<And>b. pd_hash d b = txhash (pd_wire d b)"
    and quiet: "silent sent (pd_sender_profile d)" "\<And>i p. silent sent (pd_assemble d i p)"
      "\<And>a. silent sent (pd_build d a)" "\<And>b. silent sent (pd_sign d b)"
    using d by (auto simp: honest_publisher_def)
  have parse: "\<And>tx. cl_parse_tx (pd_client d) (cl_stringify_tx (pd_client d) tx) = Inr tx"
    using log by (simp add: logs_sends_def)
  have send: "keeps ?I (andthen (record_outgoing_tx (publish_tx_input d purpose b b' t)) (\<lambda>_.
      andthen (set_message_chain_ref i (pd_hash d b') 0) (\<lambda>_.
      andthen (set_envelope_message_id i mid) (\<lambda>_.
      andthen (on_env (cl_send_transaction (pd_client d) (pd_wire d b'))) f))))"
    if "\<And>a. keeps ?I (f a)" for b b' t i mid f
  proof (rule keepsI)
    fix s assume s: "?I s"
    let ?J = "\<lambda>s. ?I s \<and> pd_hash d b' \<in> (fst \<circ> snd) ` set (journal_keys (db_txs s))"
    have f: "wp (on_env (cl_send_transaction (pd_client d) (pd_wire d b')))
        (\<lambda>a. wp (f a) (\<lambda>_. ?I) (\<lambda>_. ?I)) (\<lambda>_. ?I) s'" if "?J s'" for s'
    proof -
      have "stays ?I (on_env (cl_send_transaction (pd_client d) (pd_wire d b'))) s'"
        unfolding stays_def using that by (intro keeps_send [OF log]) (auto simp: hash)
      from stays_andthen [OF this \<open>\<And>a. keeps ?I (f a)\<close>] show ?thesis by (simp add: stays_def wp_andthen)
    qed
    have env: "wp (set_envelope_message_id i mid) (\<lambda>_. ?J) (\<lambda>_. ?I) s'" if "?J s'" for s'
      using that by (intro wp_keeps_journal_row store_keeps_journal_env) auto
    have ref: "wp (set_message_chain_ref i (pd_hash d b') 0) (\<lambda>_. ?J) (\<lambda>_. ?I) s'" if "?J s'" for s'
      using that by (intro wp_keeps_journal_row store_keeps_journal_env) auto
    have rec_tx: "wp (record_outgoing_tx (publish_tx_input d purpose b b' t)) (\<lambda>_. ?J) (\<lambda>_ _. False) s"
      by (rule wp_mono [OF wp_record_journals [OF s]]) (auto simp: publish_tx_input_def hash parse)
    show "wp (andthen (record_outgoing_tx (publish_tx_input d purpose b b' t)) (\<lambda>_.
      andthen (set_message_chain_ref i (pd_hash d b') 0) (\<lambda>_.
      andthen (set_envelope_message_id i mid) (\<lambda>_.
      andthen (on_env (cl_send_transaction (pd_client d) (pd_wire d b'))) f)))) (\<lambda>_. ?I) (\<lambda>_. ?I) s"
      unfolding wp_andthen
      by (rule wp_mono [OF rec_tx], rule wp_mono [OF ref], assumption, rule wp_mono [OF env], assumption,
          rule f, assumption) simp_all
  qed
  show ?thesis
    unfolding publish_send_def using quiet by (auto intro!: send keeps_rules)
qed

lemma find_resumable_journaled:
  assumes d: "honest_publisher d txhash sent"
  shows "keeps (all_journaled (pd_client d) txhash sent) (find_resumable d purpose timeout)"
proof (rule keepsI)
  let ?I = "all_journaled (pd_client d) txhash sent"
  have log: "logs_sends (pd_client d) sent" using d by (simp add: honest_publisher_def)
  fix s assume s: "?I s"
  have resume: "stays ?I (catching
         (andthen (resume_journaled_broadcast (pd_client d) (tx_hash j) (tx_hex j) timeout) f) g) s"
    if "j \<in> set (db_txs s)" "\<And>a. keeps ?I (f a)" "\<And>e. keeps ?I (g e)"
    for j f and g :: "failure \<Rightarrow> ('a world, failure, outgoing_tx option) prog"
  proof -
    show ?thesis using that by (intro stays_catching stays_resume [OF log s])
  qed
  show "wp (find_resumable d purpose timeout) (\<lambda>_. ?I) (\<lambda>_. ?I) s"
  proof (cases "latest_tx (\<lambda>r. tx_purpose r = purpose) s")
    case None
    with s show ?thesis
      by (simp add: find_resumable_def find_outgoing_tx_by_purpose_def find_latest_by_purpose_def wp_rules)
  next
    case (Some j)
    have "j \<in> set (db_txs s)" using find_latest_mem [OF Some] by simp
    have "wp (catching
         (andthen (resume_journaled_broadcast (pd_client d) (tx_hash j) (tx_hex j) timeout) (\<lambda>outcome.
          andthen (case (outcome, tx_hex j) of
              (Rebroadcast, Some json) \<Rightarrow>
                andthen (lift_result (cl_parse_tx (pd_client d) json)) (\<lambda>wire.
                  on_env (cl_track_spend (pd_client d) wire))
            | _ \<Rightarrow> ret ()) (\<lambda>_. ret (Some j))))
         (\<lambda>e. case e of
            Abandoned _ \<Rightarrow> andthen (mark_outgoing_tx_state (tx_hash j) ''abandoned'' None) (\<lambda>_. ret None)
          | _ \<Rightarrow> throw e)) (\<lambda>_. ?I) (\<lambda>_. ?I) s"
      unfolding stays_def [symmetric] using silent_calls(3) [OF log]
      by (intro resume \<open>j \<in> set (db_txs s)\<close>)
        (auto split: resume_outcome.splits failure.splits option.splits intro!: keeps_rules)
    with Some show ?thesis
      by (simp add: find_resumable_def find_outgoing_tx_by_purpose_def find_latest_by_purpose_def
          wp_andthen wp_asks)
  qed
qed

lemma publish_text_journaled:
  assumes "honest_publisher d txhash sent"
  shows "keeps (all_journaled (pd_client d) txhash sent) (publish_text d inp)"
proof -
  have log: "logs_sends (pd_client d) sent" using assms by (simp add: honest_publisher_def)
  show ?thesis
    unfolding publish_text_def publish_body_def Let_def
    using silent_calls(3) [OF log] log
    by (auto split: prod.splits option.splits intro!: find_resumable_journaled [OF assms]
        publish_send_journaled [OF assms] monitor_keeps_journaled keeps_rules keeps_tagged)
qed

subsection \<open>A committed transaction is adopted\<close>

definition reports_committed :: "('w, 'tx) chain_client \<Rightarrow> string \<Rightarrow> bool" where
  "reports_committed client h \<longleftrightarrow>
     (\<forall>w. \<exists>b n w' e. cl_get_transaction client h w = (Inr (TxCommitted b n), w', e))"

definition nothing_new :: "('w \<Rightarrow> 'tx set) \<Rightarrow> 'w world \<Rightarrow> 'w world \<Rightarrow> bool" where
  "nothing_new sent s t \<longleftrightarrow> journal_keys (db_txs t) = journal_keys (db_txs s) \<and> sent (env t) = sent (env s)"

lemma store_keeps_nothing_new:
  assumes "keeps_journal_env m"
  shows "keeps (nothing_new sent s) m"
proof -
  have "journal_keys (db_txs (snd (m t))) = journal_keys (db_txs t) \<and> env (snd (m t)) = env t" for t
    using assms by (simp add: keeps_def)
  then show ?thesis by (simp add: keeps_def nothing_new_def)
qed

lemmas nothing_new_rules = keeps_rules store_keeps_journal_env [THEN store_keeps_nothing_new]

lemma wp_committed_call:
  assumes "logs_sends client sent" and "reports_committed client h" and "nothing_new sent s t"
    and "\<And>b n t'. nothing_new sent s t' \<Longrightarrow> Q (TxCommitted b n) t'"
  shows "wp (on_env (cl_get_transaction client h)) Q E t"
proof -
  obtain b n w' e where call: "cl_get_transaction client h (env t) = (Inr (TxCommitted b n), w', e)"
    using assms(2) unfolding reports_committed_def by blast
  then have "sent w' = sent (env t)" using assms(1) by (metis logs_sends_def fst_conv snd_conv)
  then have "nothing_new sent s (t\<lparr>db_clock := db_clock t + int e, env := w'\<rparr>)"
    using assms(3) by (simp add: nothing_new_def)
  with assms(4) call show ?thesis by (simp add: wp_on_env)
qed

lemma wp_wait_committed:
  assumes "logs_sends client sent" and "reports_committed client h" and "nothing_new sent s t"
    and "\<And>c t'. nothing_new sent s t' \<Longrightarrow> Q c t'"
  shows "wp (wait_for_commit client h timeout) Q E t"
  unfolding wait_for_commit_def Let_def wait_loop.simps(2) poll_commit_def
  by (auto simp: wp_andthen now_def wp_asks wp_ret intro!: wp_committed_call [OF assms(1-3)] assms(4))

lemma walk_keeps_nothing_new: "keeps (nothing_new sent s) (walk_to_state i st)"
  by (auto simp: walk_to_state_def Let_def split: option.splits intro!: nothing_new_rules)

lemma monitor_adopts:
  assumes "logs_sends (pd_client d) sent" and "reports_committed (pd_client d) h" and "nothing_new sent s t"
  shows "wp (publish_monitor d i h resumed timeout reserve) (\<lambda>_. nothing_new sent s) (\<lambda>_. nothing_new sent s) t"
proof -
  have rest: "keeps (nothing_new sent s) (andthen now (\<lambda>t.
     andthen (mark_outgoing_tx_state h ''committed'' (Some t)) (\<lambda>_.
     andthen (set_message_chain_ref i h 0) (\<lambda>_.
     andthen (walk_to_state i AvailableOnChain) (\<lambda>_.
     andthen (case reserve of
         None \<Rightarrow> ret ()
       | Some amount \<Rightarrow> when_do (amount \<noteq> 0) (store_reserve_capacity (pd_store d) amount)) (\<lambda>_.
     ret \<lparr>pr_tx_hash = h, pr_committed = True, pr_resumed = resumed\<rparr>))))))"
    by (auto simp: now_def split: option.splits intro!: nothing_new_rules walk_keeps_nothing_new)
  show ?thesis
    unfolding publish_monitor_def wp_andthen [of "wait_for_commit (pd_client d) h timeout"]
    using rest by (intro wp_wait_committed [OF assms]) (simp add: keeps_wp)
qed

lemma find_resumable_adopts:
  assumes "logs_sends (pd_client d) sent" and "reports_committed (pd_client d) (tx_hash j)"
    and "latest_tx (\<lambda>r. tx_purpose r = purpose) s = Some j"
  shows "wp (find_resumable d purpose timeout) (\<lambda>r t. r = Some j \<and> nothing_new sent s t) (\<lambda>_ _. False) s"
proof -
  have s: "nothing_new sent s s" by (simp add: nothing_new_def)
  have "wp (resume_journaled_broadcast (pd_client d) (tx_hash j) (tx_hex j) timeout)
     (\<lambda>r t. r = ResumedCommitted \<and> nothing_new sent s t) (\<lambda>_ _. False) s"
    unfolding resume_journaled_broadcast_def wp_andthen
    by (rule wp_committed_call [OF assms(1,2) s]) (simp add: wp_ret)
  then show ?thesis
    unfolding find_resumable_def find_outgoing_tx_by_purpose_def find_latest_by_purpose_def wp_andthen wp_asks
    using assms(3) by (simp add: wp_catching wp_andthen) (erule wp_mono; simp add: wp_ret)
qed

lemma publish_adopts:
  assumes "logs_sends (pd_client d) sent" and "reports_committed (pd_client d) (tx_hash j)"
    and "latest_tx (\<lambda>r. tx_purpose r = ''message:'' @ pi_logical_id inp) s = Some j"
  shows "wp (publish_body d inp) (\<lambda>r t. pr_resumed r \<and> pr_tx_hash r = tx_hash j \<and> nothing_new sent s t)
     (\<lambda>e t. fst e \<and> nothing_new sent s t) s"
proof -
  have go: "wp (walk_to_state (pi_row_id inp) Pending) (\<lambda>_ t.
      wp (publish_monitor d (pi_row_id inp) (tx_hash j) True (pi_timeout inp) (tx_capacity j))
       (\<lambda>r t. pr_resumed r \<and> pr_tx_hash r = tx_hash j \<and> nothing_new sent s t) (\<lambda>_. nothing_new sent s) t)
      (\<lambda>_. nothing_new sent s) t" if t: "nothing_new sent s t" for t
  proof (rule wp_mono [where Q = "\<lambda>_. nothing_new sent s" and E = "\<lambda>_. nothing_new sent s"])
    show "wp (walk_to_state (pi_row_id inp) Pending) (\<lambda>_. nothing_new sent s) (\<lambda>_. nothing_new sent s) t"
      using walk_keeps_nothing_new t unfolding keeps_wp by blast
  next
    fix t assume t: "nothing_new sent s t"
    show "wp (publish_monitor d (pi_row_id inp) (tx_hash j) True (pi_timeout inp) (tx_capacity j))
       (\<lambda>r t. pr_resumed r \<and> pr_tx_hash r = tx_hash j \<and> nothing_new sent s t) (\<lambda>_. nothing_new sent s) t"
      by (rule wp_mono [OF wp_conj [OF monitor_adopts [OF assms(1,2) t] wp_publish_monitor]]) simp_all
  qed
  show ?thesis
    unfolding publish_body_def Let_def wp_andthen wp_tagged
  proof (rule wp_mono [OF find_resumable_adopts [OF assms]])
    fix r t assume "r = Some j \<and> nothing_new sent s t"
    then have r: "r = Some j" and t: "nothing_new sent s t" by auto
    show "wp (case r of
         None \<Rightarrow> andthen (tagged False (publish_send d inp (''message:'' @ pi_logical_id inp)))
           (\<lambda>(built, signed_tx). tagged True
             (andthen (on_env (cl_track_spend (pd_client d) (pd_wire d signed_tx))) (\<lambda>_.
              andthen (transition_message (pi_row_id inp) Pending) (\<lambda>_.
              publish_monitor d (pi_row_id inp) (pd_hash d signed_tx) False (pi_timeout inp)
                (Some (case pd_cell_capacity d built of None \<Rightarrow> 0 | Some c \<Rightarrow> c))))))
       | Some j \<Rightarrow> tagged True
          (andthen (walk_to_state (pi_row_id inp) Pending) (\<lambda>_.
           publish_monitor d (pi_row_id inp) (tx_hash j) True (pi_timeout inp) (tx_capacity j))))
       (\<lambda>r t. pr_resumed r \<and> pr_tx_hash r = tx_hash j \<and> nothing_new sent s t)
       (\<lambda>e t. fst e \<and> nothing_new sent s t) t"
      using go [OF t] unfolding r by (simp add: wp_tagged wp_andthen)
  qed simp
qed

subsection \<open>What a resumed publication reserves\<close>

abbreviation reserved_in :: "nat \<Rightarrow> 'x db_scheme \<Rightarrow> int option" where
  "reserved_in w s \<equiv> map_option wb_reserved (find_balance w s)"

lemma wp_reserve:
  "wp (store_reserve_capacity (Some w) c) (\<lambda>_ t. reserved_in w t = map_option (\<lambda>x. x + c) (reserved_in w s))
     (\<lambda>_ _. True) s"
  by (auto simp: store_reserve_capacity_def reserve_capacity_def move_capacity_def get_balance_def wp_rules
      require_lifecycle_def find_balance_update split: option.splits)

lemma monitor_reserves:
  assumes "pd_store d = Some w" and "c \<noteq> 0" and "db_balances s = bs"
  shows "wp (publish_monitor d i h resumed timeout (Some c))
     (\<lambda>_ t. reserved_in w t = map_option (\<lambda>x. x + c) (map_option wb_reserved (List.find (\<lambda>b. wb_wallet_id b = w) bs)))
     (\<lambda>_ _. True) s"
proof -
  have same: "wp m (\<lambda>_ t. db_balances t = bs) (\<lambda>_ _. True) t" if "keeps (\<lambda>t. db_balances t = bs) m" "db_balances t = bs"
    for m :: "('a world, failure, 'z) prog" and t
    using that by (auto simp: keeps_wp intro: wp_mono)
  have steps: "keeps (\<lambda>t. db_balances t = bs) (wait_for_commit (pd_client d) h timeout)"
    "keeps (\<lambda>t::'a world. db_balances t = bs) (mark_outgoing_tx_state h x z)"
    "keeps (\<lambda>t::'a world. db_balances t = bs) (set_message_chain_ref i h 0)"
    "keeps (\<lambda>t::'a world. db_balances t = bs) (walk_to_state i st)" for x z st
    using walk_keeps_rest [of "\<lambda>_ _ b. b = bs"]
    by (auto simp: env_free_def mark_outgoing_tx_state_def mark_tx_state_def set_message_chain_ref_def
        set_chain_ref_def references_def Let_def intro!: keeps_rules keeps_update_txs)
  have res: "wp (store_reserve_capacity (Some w) c)
     (\<lambda>_ t. reserved_in w t = map_option (\<lambda>x. x + c) (map_option wb_reserved (List.find (\<lambda>b. wb_wallet_id b = w) bs)))
     (\<lambda>_ _. True) t" if "db_balances t = bs" for t :: "'a world"
    using wp_reserve [of w c t] that by (simp add: find_balance_def)
  show ?thesis
    unfolding publish_monitor_def wp_andthen wp_ret assms(1) now_def wp_asks option.case
    by (rule wp_mono [OF same [OF steps(1) assms(3)]], rule wp_mono [OF same [OF steps(2)]], assumption,
        rule wp_mono [OF same [OF steps(3)]], assumption, rule wp_mono [OF same [OF steps(4)]], assumption)
      (use assms(2) in \<open>auto simp: wp_when intro: wp_mono [OF res]\<close>)
qed

lemma find_resumable_keeps_balances:
  "wp (find_resumable d purpose timeout)
     (\<lambda>r t. (r = None \<or> r = latest_tx (\<lambda>r. tx_purpose r = purpose) s) \<and> db_balances t = db_balances s)
     (\<lambda>_ _. True) s"
proof -
  have "keeps (\<lambda>t. db_balances t = db_balances s) (find_resumable d purpose timeout)"
    by (auto simp: find_resumable_def find_outgoing_tx_by_purpose_def find_latest_by_purpose_def env_free_def
        mark_outgoing_tx_state_def mark_tx_state_def split: option.splits resume_outcome.splits failure.splits
        intro!: keeps_rules keeps_update_txs)
  moreover have "wp (find_resumable d purpose timeout)
     (\<lambda>r t. r = None \<or> r = latest_tx (\<lambda>r. tx_purpose r = purpose) s) (\<lambda>_ _. True) s"
    by (cases "latest_tx (\<lambda>r. tx_purpose r = purpose) s")
      (auto simp: find_resumable_def find_outgoing_tx_by_purpose_def find_latest_by_purpose_def
        wp_def prog_defs split: prod.splits sum.splits failure.splits)
  ultimately show ?thesis by (auto intro: wp_mono [OF wp_keeps_conj])
qed

section \<open>Properties\<close>

text \<open>
  C7. A publication that returns has done everything: the journaled transaction is marked
  committed, the message is linked to its first output and is available on chain.
\<close>

theorem publication_complete:
  assumes "publish_text d inp s = (Inr r, t)"
  shows "pr_committed r \<and> published (pi_row_id inp) (pr_tx_hash r) t"
  using wp_publish_text assms by (rule wp_result)

text \<open>
  The publisher journals before it sends (rule 6): if every transaction sent so far has a journal
  row, the same holds after a publication with any outcome.
\<close>

theorem publisher_journals_before_sending:
  assumes "honest_publisher d txhash sent" and "all_journaled (pd_client d) txhash sent s"
  shows "all_journaled (pd_client d) txhash sent (snd (publish_text d inp s))"
  using publish_text_journaled [OF assms(1)] assms(2) by (rule keepsD)


text \<open>
  Driving a message to a state of the outgoing path goes step by step along legal transitions:
  from a state on the path it ends at the target, or where it was if that is further along; from
  \<open>failed\<close> it re-enters at \<open>queued\<close> and ends at the target; from every other state it changes
  nothing and throws. The last case includes the states after \<open>available_on_chain\<close>, which are past
  the target and where the comment of the code promises a no-op.
\<close>

theorem walk_exact:
  assumes "state_of i s = Some (Outgoing, st)" and "0 < goal" and "goal < 9"
  shows "case index_of st outgoing_publish_path of
       Some k \<Rightarrow> (\<exists>t. walk_to_state i (on_path goal) s = (Inr (), t) \<and>
          state_of i t = Some (Outgoing, on_path (max k goal)))
     | None \<Rightarrow> if st = Failed
         then \<exists>t. walk_to_state i (on_path goal) s = (Inr (), t) \<and> state_of i t = Some (Outgoing, on_path goal)
         else walk_to_state i (on_path goal) s = (Inl (Db IllegalStateTransition), s)"
proof -
  have ok: "\<exists>t. m s = (Inr (), t) \<and> Q t" if "wp m (\<lambda>_. Q) (\<lambda>_ _. False) s" for m :: "('a db_scheme, failure, unit) prog" and Q
    using that by (auto simp: wp_def split: prod.splits sum.splits)
  show ?thesis
  proof (cases "index_of st outgoing_publish_path")
    case (Some k)
    from wp_walk [OF assms] Some show ?thesis by (auto intro!: ok)
  next
    case None
    from wp_walk [OF assms] for_each_from_queued [OF assms(1) None assms(2,3)] None assms(1)
    show ?thesis
      by (auto simp: walk_to_state_def get_message_state_def get_message_def index_of_path [OF assms(3)]
          prog_defs simp del: upt_Suc intro!: ok)
  qed
qed

lemma publish_body_reserves:
  assumes "latest_tx (\<lambda>r. tx_purpose r = ''message:'' @ pi_logical_id inp) s = Some j"
    and "tx_capacity j = Some c" and "c \<noteq> 0" and "pd_store d = Some w"
  shows "wp (publish_body d inp)
     (\<lambda>r t. pr_resumed r \<longrightarrow> reserved_in w t = map_option (\<lambda>x. x + c) (reserved_in w s)) (\<lambda>_ _. True) s"
proof -
  let ?Q = "\<lambda>r (t :: 'a world). pr_resumed r \<longrightarrow> reserved_in w t = map_option (\<lambda>x. x + c) (reserved_in w s)"
  have any: "wp m (\<lambda>_ _. True) (\<lambda>_ _. True) t" for m :: "('a world, 'y, 'z) prog" and t
    by (simp add: wp_def split: prod.splits sum.splits)
  have walk: "wp (walk_to_state i Pending) (\<lambda>_ t. db_balances t = db_balances s) (\<lambda>_ _. True) t"
    if "db_balances t = db_balances s" for i and t :: "'a world"
    using walk_keeps_rest [of "\<lambda>_ _ b. b = db_balances s" i Pending] that by (auto simp: keeps_wp intro: wp_mono)
  have monitor: "wp (publish_monitor d i h True timeout (Some c)) ?Q (\<lambda>_ _. True) t"
    if "db_balances t = db_balances s" for i h timeout t
    by (rule wp_mono [OF monitor_reserves [OF assms(4,3) that]]) (simp_all add: find_balance_def)
  have fresh: "wp (publish_monitor d i h False timeout reserve) ?Q (\<lambda>_ _. True) t" for i h timeout reserve t
    by (rule wp_mono [OF wp_publish_monitor]) simp_all
  show ?thesis
    unfolding publish_body_def Let_def wp_andthen wp_tagged
  proof (rule wp_mono [OF find_resumable_keeps_balances])
    fix r and t :: "'a world" assume r: "(r = None \<or> r = latest_tx (\<lambda>r. tx_purpose r = ''message:'' @ pi_logical_id inp) s)
      \<and> db_balances t = db_balances s"
    show "wp (case r of
         None \<Rightarrow> andthen (tagged False (publish_send d inp (''message:'' @ pi_logical_id inp)))
           (\<lambda>(built, signed_tx). tagged True
             (andthen (on_env (cl_track_spend (pd_client d) (pd_wire d signed_tx))) (\<lambda>_.
              andthen (transition_message (pi_row_id inp) Pending) (\<lambda>_.
              publish_monitor d (pi_row_id inp) (pd_hash d signed_tx) False (pi_timeout inp)
                (Some (case pd_cell_capacity d built of None \<Rightarrow> 0 | Some c \<Rightarrow> c))))))
       | Some j \<Rightarrow> tagged True
          (andthen (walk_to_state (pi_row_id inp) Pending) (\<lambda>_.
           publish_monitor d (pi_row_id inp) (tx_hash j) True (pi_timeout inp) (tx_capacity j))))
       ?Q (\<lambda>_ _. True) t"
    proof (cases r)
      case None
      show ?thesis
        unfolding None option.case wp_andthen wp_tagged
        by (rule wp_mono [OF any]) (auto simp: wp_andthen wp_tagged split: prod.splits
            intro!: wp_mono [OF any] fresh)
    next
      case (Some j')
      with r assms(1) have "r = Some j" and t: "db_balances t = db_balances s" by auto
      then show ?thesis
        using assms(2) by (auto simp: wp_andthen wp_tagged intro!: wp_mono [OF walk [OF t]] monitor)
    qed
  qed simp
qed

text \<open>
  Every publication that resumes a journaled transaction reserves the capacity of its cell once
  more, whatever it did before: nothing records that the capacity of a transaction has been reserved.
\<close>

theorem resume_reserves_again:
  assumes "publish_text d inp s = (Inr r, t)" and "pr_resumed r"
    and "latest_tx (\<lambda>r. tx_purpose r = ''message:'' @ pi_logical_id inp) s = Some j"
    and "tx_capacity j = Some c" and "c \<noteq> 0" and "pd_store d = Some w"
  shows "reserved_in w t = map_option (\<lambda>x. x + c) (reserved_in w s)"
proof -
  have "wp (publish_text d inp)
     (\<lambda>r t. pr_resumed r \<longrightarrow> reserved_in w t = map_option (\<lambda>x. x + c) (reserved_in w s)) (\<lambda>_ _. True) s"
    unfolding publish_text_def wp_catching
    by (rule wp_mono [OF publish_body_reserves [OF assms(3-6)]])
      (auto simp: wp_rules wp_transition_message wp_transition_state split: prod.splits option.splits)
  from wp_result [OF this assms(1)] assms(2) show ?thesis by simp
qed

section \<open>A sample run\<close>

text \<open>A message that has been published, with 61 reserved for its cell, is published again.\<close>

definition sample_publisher_client :: "(string list, string) chain_client" where
  "sample_publisher_client = \<lparr>cl_get_transaction = (\<lambda>_ w. (Inr (TxCommitted ''b'' ''1''), w, 1)),
     cl_get_live_cell = (\<lambda>_ _ w. (Inr UnknownCell, w, 1)),
     cl_send_transaction = (\<lambda>tx w. (Inr tx, tx # w, 1)),
     cl_track_spend = (\<lambda>_ w. (Inr (), w, 0)),
     cl_parse_tx = (\<lambda>t. Inr t), cl_stringify_tx = (\<lambda>t. t)\<rparr>"

definition sample_publisher :: "(string list, string, string, string, string) publisher_deps" where
  "sample_publisher = \<lparr>pd_client = sample_publisher_client, pd_store = Some 1,
     pd_sender_profile = (\<lambda>w. (Inr [], w, 0)), pd_assemble = (\<lambda>c _ w. (Inr c, w, 0)),
     pd_message_id = (\<lambda>_. []), pd_build = (\<lambda>a w. (Inr ''0xab'', w, 0)), pd_fee = (\<lambda>_. 1),
     pd_cell_capacity = (\<lambda>_. Some 61), pd_sign = (\<lambda>b w. (Inr b, w, 0)),
     pd_hash = (\<lambda>b. b), pd_wire = (\<lambda>b. b)\<rparr>"

definition sample_input :: "string publish_input" where
  "sample_input = \<lparr>pi_row_id = 1, pi_logical_id = ''a'', pi_content = ''hi'', pi_timeout = None\<rparr>"

definition sample_row :: "mstate \<Rightarrow> message" where
  "sample_row st = \<lparr>m_id = 1, m_conversation_id = 1, m_direction = Outgoing, m_state = st,
     m_body = Some ''hi'', m_logical_id = ''a'', m_envelope_id = None, m_created_at = 0, m_updated_at = 0\<rparr>"

definition journaled_sample :: outgoing_tx where
  "journaled_sample = \<lparr>tx_id = 1, tx_hash = ''0xab'', tx_purpose = ''message:a'', tx_state = ''committed'',
     tx_fee = Some 1, tx_submitted_at = Some 0, tx_committed_at = Some 1, tx_block_hash = None,
     tx_capacity = Some 61, tx_hex = Some ''0xab''\<rparr>"

definition reserved_sample :: wallet_balance where
  "reserved_sample = \<lparr>wb_wallet_id = 1, wb_total = 1000, wb_available = 939, wb_reserved = 61,
     wb_reclaimable = 0, wb_pending = 0, wb_updated_at = 0\<rparr>"

definition published_world :: "string list world" where
  "published_world = db.extend (empty_db\<lparr>db_messages := [sample_row AvailableOnChain],
     db_txs := [journaled_sample], db_balances := [reserved_sample]\<rparr>) \<lparr>env = [''0xab'']\<rparr>"

lemmas sample_defs = sample_publisher_def sample_publisher_client_def sample_input_def sample_row_def
  journaled_sample_def reserved_sample_def published_world_def empty_db_def db.defs

lemma sample_latest:
  "latest_tx (\<lambda>r. tx_purpose r = ''message:'' @ pi_logical_id sample_input) published_world = Some journaled_sample"
  by (simp add: latest_tx_def sample_defs)

lemma sample_run:
  "\<exists>t. publish_text sample_publisher sample_input published_world
     = (Inr \<lparr>pr_tx_hash = ''0xab'', pr_committed = True, pr_resumed = True\<rparr>, t)"
  by (simp add: publish_text_def publish_body_def find_resumable_def find_outgoing_tx_by_purpose_def
      find_latest_by_purpose_def latest_tx_def resume_journaled_broadcast_def on_env_def tagged_def
      walk_to_state_def get_message_state_def get_message_def find_message_def outgoing_publish_path_def
      publish_monitor_def wait_for_commit_def poll_commit_def mark_outgoing_tx_state_def mark_tx_state_def
      update_txs_def set_message_chain_ref_def set_chain_ref_def references_def store_reserve_capacity_def
      require_lifecycle_def reserve_capacity_def move_capacity_def get_balance_def find_balance_def
      demand_def update_balance_def changes_def now_def prog_defs sample_defs Let_def)

theorem publication_complete_witness:
  "\<exists>r t. publish_text sample_publisher sample_input published_world = (Inr r, t) \<and> pr_committed r
     \<and> published 1 ''0xab'' t"
proof -
  obtain t where t: "publish_text sample_publisher sample_input published_world
     = (Inr \<lparr>pr_tx_hash = ''0xab'', pr_committed = True, pr_resumed = True\<rparr>, t)"
    using sample_run by blast
  from t publication_complete [OF t] show ?thesis by (auto simp: sample_input_def)
qed

theorem resume_reserves_again_witness:
  "reserved_in 1 published_world = Some 61 \<and> m_state (hd (db_messages published_world)) = AvailableOnChain
   \<and> reserved_in 1 (snd (publish_text sample_publisher sample_input published_world)) = Some 122"
proof -
  obtain t where t: "publish_text sample_publisher sample_input published_world
     = (Inr \<lparr>pr_tx_hash = ''0xab'', pr_committed = True, pr_resumed = True\<rparr>, t)"
    using sample_run by blast
  have "reserved_in 1 t = map_option (\<lambda>x. x + 61) (reserved_in 1 published_world)"
    by (rule resume_reserves_again [OF t _ sample_latest]) (simp_all add: sample_defs)
  then show ?thesis using t by (simp add: find_balance_def sample_defs)
qed

text \<open>The environment of the sample is its own log.\<close>

lemma sample_honest: "honest_publisher sample_publisher (\<lambda>tx. tx) set"
  by (auto simp: honest_publisher_def logs_sends_def silent_def sample_defs)

theorem publisher_journals_witness:
  "all_journaled sample_publisher_client (\<lambda>tx. tx) set
     (snd (publish_text sample_publisher sample_input published_world))"
proof -
  have "all_journaled (pd_client sample_publisher) (\<lambda>tx. tx) set published_world"
    by (auto simp: all_journaled_def journal_keys_def sample_defs)
  from publisher_journals_before_sending [OF sample_honest this] show ?thesis
    by (simp add: sample_publisher_def)
qed


theorem walk_exact_witness:
  "walk_to_state 1 Pending (empty_db\<lparr>db_messages := [sample_row DownloadedByRecipient]\<rparr>)
     = (Inl (Db IllegalStateTransition), empty_db\<lparr>db_messages := [sample_row DownloadedByRecipient]\<rparr>)"
  using walk_exact [of 1 "empty_db\<lparr>db_messages := [sample_row DownloadedByRecipient]\<rparr>" DownloadedByRecipient 6]
  by (simp add: find_message_def sample_row_def outgoing_publish_path_def)

end
