(* ===== verification/Cemp_Lifecycle.thy ===== *)
theory Cemp_Lifecycle
  imports Cemp_Broadcast
begin

text \<open>
  packages/cemp-ckb/src/lifecycle.ts: receipts, batch reclaim and the responder's watches, over
  the store of \<open>Cemp_Store\<close> and an arbitrary chain client.

  The transaction builder and the signer are arguments: they read the environment and return a
  transaction with its fee, or fail. A loop that transitions several messages is \<open>for_each\<close>, so
  an error in the middle leaves the earlier writes in place, as it does in the code.
\<close>

record ('w, 'b, 'tx) lifecycle_deps =
  ld_client :: "('w, 'tx) chain_client"
  ld_store :: "nat option"
  ld_build_reclaim :: "(string \<times> nat) list \<Rightarrow> cell list \<Rightarrow> ('w, 'b \<times> int) env_call"
  ld_sign :: "'b \<Rightarrow> ('w, 'b) env_call"
  ld_hash :: "'b \<Rightarrow> string"
  ld_wire :: "'b \<Rightarrow> 'tx"

record reclaim_batch_result =
  rb_tx_hash :: string
  rb_row_ids :: "nat list"
  rb_released :: int
  rb_resumed :: bool
  rb_abandoned :: bool

section \<open>Purposes\<close>

definition reclaim_purpose :: "nat list \<Rightarrow> string" where
  "reclaim_purpose ids = ''reclaim:'' @ join_with '','' (map decimal ids)"

fun parse_ids :: "string list \<Rightarrow> failure + nat list" where
  "parse_ids [] = Inr []"
| "parse_ids (w # ws) = (case parse_decimal w of
     Some (Suc i) \<Rightarrow> (case parse_ids ws of Inl e \<Rightarrow> Inl e | Inr is \<Rightarrow> Inr (Suc i # is))
   | _ \<Rightarrow> Inl (CkbError ''lifecycle'' ''malformed reclaim purpose''))"

definition parse_reclaim_purpose :: "string \<Rightarrow> failure + nat list" where
  "parse_reclaim_purpose purpose =
     (let body = (case drop_prefix ''reclaim:'' purpose of None \<Rightarrow> [] | Some b \<Rightarrow> b) in
      if body = [] then Inr [] else parse_ids (split_on CHR '','' body))"

definition watch_purpose :: "nat \<Rightarrow> string" where
  "watch_purpose i = ''response:'' @ decimal i"

definition parse_watch_purpose :: "string \<Rightarrow> nat option" where
  "parse_watch_purpose purpose = (case drop_prefix ''response:'' purpose of
       None \<Rightarrow> None
     | Some b \<Rightarrow> (case parse_decimal b of Some (Suc i) \<Rightarrow> Some (Suc i) | _ \<Rightarrow> None))"

section \<open>Receipts\<close>

definition ackable_states :: "mstate list" where
  "ackable_states = [AvailableOnChain, DownloadedByRecipient, Acknowledged]"

definition process_receipt ::
  "nat option \<Rightarrow> nat \<times> bytes \<Rightarrow> ('x db_scheme, failure, nat list) prog" where
  "process_receipt lc r = (case r of (status, mid) \<Rightarrow>
     if status = 5 then
       andthen (find_outgoing_by_envelope_id (bytes_to_hex mid)) (\<lambda>target. case target of
         None \<Rightarrow> ret []
       | Some (i, _) \<Rightarrow> andthen (store_mark_remote_downloaded lc i) (\<lambda>_. ret []))
     else if status \<noteq> 1 then ret []
     else andthen (find_outgoing_by_envelope_id (bytes_to_hex mid)) (\<lambda>found. case found of
         None \<Rightarrow> ret []
       | Some (i, st) \<Rightarrow>
           if st \<notin> set ackable_states then ret []
           else andthen (when_do (st = AvailableOnChain) (transition_message i DownloadedByRecipient))
             (\<lambda>_. andthen (when_do (st \<noteq> Acknowledged) (transition_message i Acknowledged))
             (\<lambda>_. andthen (transition_message i ReclaimQueued)
             (\<lambda>_. andthen (get_message_journal_info i)
             (\<lambda>j. andthen (case Option.bind j snd of
                 None \<Rightarrow> ret ()
               | Some capacity \<Rightarrow> store_mark_reclaimable lc capacity)
             (\<lambda>_. ret [i])))))))"

definition process_acknowledgements ::
  "nat option \<Rightarrow> (nat \<times> bytes) list \<Rightarrow> ('x db_scheme, failure, nat list) prog" where
  "process_acknowledgements lc receipts =
     andthen (map_prog (process_receipt lc) receipts) (\<lambda>acked. ret (concat acked))"

definition reserve_committed_capacity :: "nat option \<Rightarrow> nat \<Rightarrow> ('x db_scheme, failure, unit) prog" where
  "reserve_committed_capacity lc i = andthen (get_message_journal_info i) (\<lambda>j.
     case Option.bind j snd of
       None \<Rightarrow> ret ()
     | Some capacity \<Rightarrow> when_do (capacity \<noteq> 0) (store_reserve_capacity lc capacity))"

section \<open>Batch reclaim\<close>

text \<open>The resume of a journaled batch.\<close>

definition resume_reclaim ::
  "('w, 'b, 'tx) lifecycle_deps \<Rightarrow> int option \<Rightarrow> outgoing_tx \<Rightarrow>
     ('w world, failure, reclaim_batch_result) prog" where
  "resume_reclaim d timeout j =
     andthen (lift_result (parse_reclaim_purpose (tx_purpose j))) (\<lambda>ids.
     andthen (catching
       (andthen (resume_journaled_broadcast (ld_client d) (tx_hash j) (tx_hex j) timeout) (\<lambda>outcome.
        andthen (case (outcome, tx_hex j) of
            (Rebroadcast, Some json) \<Rightarrow>
              andthen (lift_result (cl_parse_tx (ld_client d) json)) (\<lambda>wire.
                on_env (cl_track_spend (ld_client d) wire))
          | _ \<Rightarrow> ret ()) (\<lambda>_. ret False)))
       (\<lambda>e. case e of
          Abandoned _ \<Rightarrow>
            andthen (mark_outgoing_tx_state (tx_hash j) ''abandoned'' None) (\<lambda>_.
            andthen (for_each (\<lambda>i. transition_message i ReclaimQueued) ids) (\<lambda>_. ret True))
        | _ \<Rightarrow> throw e)) (\<lambda>abandoned.
     if abandoned
     then ret \<lparr>rb_tx_hash = tx_hash j, rb_row_ids = [], rb_released = 0, rb_resumed = False,
            rb_abandoned = True\<rparr>
     else andthen now (\<lambda>t.
       andthen (mark_outgoing_tx_state_if (tx_hash j) ''submitted'' ''committed'' (Some t)) (\<lambda>won.
       if won = 0
       then ret \<lparr>rb_tx_hash = tx_hash j, rb_row_ids = ids, rb_released = 0, rb_resumed = True,
              rb_abandoned = False\<rparr>
       else
         (let fee = (case tx_fee j of None \<Rightarrow> 0 | Some f \<Rightarrow> f);
              capacity = (case tx_capacity j of None \<Rightarrow> 0 | Some c \<Rightarrow> c);
              released = (if capacity > fee then capacity - fee else 0) in
          andthen (for_each (\<lambda>i. transition_message i Reclaimed) ids) (\<lambda>_.
          andthen (when_do (released \<noteq> 0) (store_release_reclaimed (ld_store d) released)) (\<lambda>_.
          andthen (when_do (fee > 0) (store_record_fee_burn (ld_store d) fee)) (\<lambda>_.
          ret \<lparr>rb_tx_hash = tx_hash j, rb_row_ids = ids, rb_released = released, rb_resumed = True,
            rb_abandoned = False\<rparr>))))))))"

text \<open>The messages whose cells are still live, with their cells; a cell that is explicitly dead
  was spent by an earlier reclaim, and \<open>unknown\<close> changes nothing.\<close>

fun resolve_cells ::
  "('w, 'tx) chain_client \<Rightarrow> lifecycle_message list \<Rightarrow>
     ('w world, failure, (lifecycle_message \<times> cell) list) prog" where
  "resolve_cells client [] = ret []"
| "resolve_cells client (m # ms) = (case lm_chain_ref m of
     None \<Rightarrow> resolve_cells client ms
   | Some (h, n) \<Rightarrow>
       andthen (on_env (cl_get_live_cell client h n)) (\<lambda>status.
       andthen (case status of
           LiveCell c \<Rightarrow> ret [(m, c)]
         | DeadCell \<Rightarrow> andthen (transition_message (lm_row_id m) ReclaimPending) (\<lambda>_.
             andthen (transition_message (lm_row_id m) Reclaimed) (\<lambda>_. ret []))
         | UnknownCell \<Rightarrow> ret []) (\<lambda>here.
       andthen (resolve_cells client ms) (\<lambda>rest. ret (here @ rest)))))"

definition reclaim_one :: "nat option \<Rightarrow> string \<Rightarrow> lifecycle_message \<Rightarrow> ('x db_scheme, failure, unit) prog" where
  "reclaim_one lc h m =
     andthen (transition_message (lm_row_id m) Reclaimed) (\<lambda>_.
     case lm_chain_ref m of
       None \<Rightarrow> ret ()
     | Some (rh, rn) \<Rightarrow> andthen (list_active_watches lc) (\<lambda>ws.
         when_do (list_ex (\<lambda>(wh, wn, _). wh = rh \<and> wn = rn) ws) (mark_watch_spent lc rh rn h)))"

definition settle_reclaim ::
  "nat option \<Rightarrow> string \<Rightarrow> lifecycle_message list \<Rightarrow> int \<Rightarrow> int \<Rightarrow> int \<Rightarrow>
     ('x db_scheme, failure, reclaim_batch_result) prog" where
  "settle_reclaim lc h covered total_released fee t =
     (let ids = map lm_row_id covered in
      andthen (mark_outgoing_tx_state_if h ''submitted'' ''committed'' (Some t)) (\<lambda>won.
      if won = 0
      then ret \<lparr>rb_tx_hash = h, rb_row_ids = ids, rb_released = 0, rb_resumed = False, rb_abandoned = False\<rparr>
      else
        (let net = total_released - fee in
         andthen (for_each (reclaim_one lc h) covered) (\<lambda>_.
         andthen (when_do (net > 0) (store_release_reclaimed lc net)) (\<lambda>_.
         andthen (when_do (fee > 0) (store_record_fee_burn lc fee)) (\<lambda>_.
         andthen (prune_spent_watches lc) (\<lambda>_.
         ret \<lparr>rb_tx_hash = h, rb_row_ids = ids, rb_released = (if net > 0 then net else 0),
           rb_resumed = False, rb_abandoned = False\<rparr>)))))))"

definition reclaim_tx_input ::
  "('w, 'b, 'tx) lifecycle_deps \<Rightarrow> 'b \<Rightarrow> nat list \<Rightarrow> int \<Rightarrow> int \<Rightarrow> int \<Rightarrow> tx_input" where
  "reclaim_tx_input d signed_tx ids fee total_released t =
     \<lparr>ti_hash = ld_hash d signed_tx, ti_purpose = reclaim_purpose ids, ti_state = ''submitted'',
      ti_fee = Some fee, ti_submitted_at = Some t, ti_capacity = Some total_released,
      ti_hex = Some (cl_stringify_tx (ld_client d) (ld_wire d signed_tx))\<rparr>"

definition fresh_reclaim ::
  "('w, 'b, 'tx) lifecycle_deps \<Rightarrow> int option \<Rightarrow> ('w world, failure, reclaim_batch_result option) prog" where
  "fresh_reclaim d timeout =
     andthen (list_outgoing_by_state ReclaimQueued) (\<lambda>queued.
     andthen (list_outgoing_by_state ReclaimPending) (\<lambda>pending.
     let candidates = filter (\<lambda>m. lm_chain_ref m \<noteq> None) (queued @ pending) in
     if candidates = [] then ret None
     else andthen (resolve_cells (ld_client d) candidates) (\<lambda>resolved.
       let covered = map fst resolved; cells = map snd resolved;
           total_released = sum_list (map cell_capacity cells);
           ids = map lm_row_id covered in
       if covered = [] then ret None
       else andthen (for_each (\<lambda>m. transition_message (lm_row_id m) ReclaimPending) covered) (\<lambda>_.
         andthen (on_env (ld_build_reclaim d (map (the \<circ> lm_chain_ref) covered) cells)) (\<lambda>(built, fee).
         andthen (on_env (ld_sign d built)) (\<lambda>signed_tx.
         andthen now (\<lambda>t.
         andthen (record_outgoing_tx (reclaim_tx_input d signed_tx ids fee total_released t)) (\<lambda>_.
         andthen (on_env (cl_send_transaction (ld_client d) (ld_wire d signed_tx))) (\<lambda>accepted.
         if accepted \<noteq> ld_hash d signed_tx
         then throw (CkbError ''lifecycle'' ''node returned a tx hash different from the signed reclaim'')
         else andthen (on_env (cl_track_spend (ld_client d) (ld_wire d signed_tx))) (\<lambda>_.
           andthen (wait_for_commit (ld_client d) (ld_hash d signed_tx) timeout) (\<lambda>_.
           andthen now (\<lambda>t'.
           andthen (settle_reclaim (ld_store d) (ld_hash d signed_tx) covered total_released fee t')
             (\<lambda>r. ret (Some r))))))))))))))"

definition execute_reclaim_batch ::
  "('w, 'b, 'tx) lifecycle_deps \<Rightarrow> int option \<Rightarrow> ('w world, failure, reclaim_batch_result option) prog" where
  "execute_reclaim_batch d timeout =
     andthen (find_latest_by_prefix ''reclaim:'') (\<lambda>journaled. case journaled of
       None \<Rightarrow> fresh_reclaim d timeout
     | Some j \<Rightarrow>
         if tx_state j = ''submitted'' then andthen (resume_reclaim d timeout j) (\<lambda>r. ret (Some r))
         else fresh_reclaim d timeout)"

section \<open>The responder's watches\<close>

definition finalize_response_sent ::
  "nat option \<Rightarrow> nat \<Rightarrow> string \<Rightarrow> nat \<Rightarrow> ('x db_scheme, failure, unit) prog" where
  "finalize_response_sent lc i h n =
     andthen (transition_message i AwaitingRemoteReclaim) (\<lambda>_.
     store_register_watch lc h n (watch_purpose i))"

definition poll_watch ::
  "('w, 'b, 'tx) lifecycle_deps \<Rightarrow> string \<times> nat \<times> string \<Rightarrow> ('w world, failure, string list) prog" where
  "poll_watch d w = (case w of (h, n, purpose) \<Rightarrow>
     andthen (on_env (cl_get_live_cell (ld_client d) h n)) (\<lambda>status. case status of
       LiveCell _ \<Rightarrow> ret []
     | UnknownCell \<Rightarrow> ret []
     | DeadCell \<Rightarrow>
         andthen (mark_watch_spent (ld_store d) h n ''unknown-spender'') (\<lambda>_.
         andthen (case parse_watch_purpose purpose of
             None \<Rightarrow> ret ()
           | Some i \<Rightarrow> transition_message i RemoteReclaimed) (\<lambda>_. ret [purpose]))))"

definition poll_watches_once ::
  "('w, 'b, 'tx) lifecycle_deps \<Rightarrow> ('w world, failure, string list) prog" where
  "poll_watches_once d =
     andthen (list_active_watches (ld_store d)) (\<lambda>watches.
     andthen (map_prog (poll_watch d) watches) (\<lambda>spent.
     andthen (when_do (concat spent \<noteq> []) (andthen (prune_spent_watches (ld_store d)) (\<lambda>_. ret ()))) (\<lambda>_.
     ret (concat spent))))"

section \<open>Lemmas\<close>

subsection \<open>The history of messages\<close>

lemmas pipeline_rules = keeps_rules store_keeps_history [THEN spec]

lemma acknowledgements_keep_history:
  "keeps_history (process_acknowledgements lc rs)" "keeps_history (reserve_committed_capacity lc i)"
  "keeps_history (finalize_response_sent lc i h n)"
  by (auto simp: process_acknowledgements_def process_receipt_def reserve_committed_capacity_def
      finalize_response_sent_def split: prod.splits option.splits intro!: pipeline_rules)

lemma resolve_keeps_history: "keeps_history (resolve_cells client ms)"
proof (induction ms)
  case (Cons m ms)
  then show ?case
    by (auto split: option.splits cell_status.splits intro!: pipeline_rules)
qed (simp add: keeps_rules)

lemma settle_keeps_history: "keeps_history (settle_reclaim lc h covered amount fee t)"
  by (auto simp: settle_reclaim_def reclaim_one_def Let_def split: option.splits intro!: pipeline_rules)

lemma resume_keeps_history: "keeps_history (resume_reclaim d timeout j)"
  by (auto simp: resume_reclaim_def Let_def split: resume_outcome.splits option.splits failure.splits
      intro!: pipeline_rules)

lemma fresh_keeps_history: "keeps_history (fresh_reclaim d timeout)"
  by (auto simp: fresh_reclaim_def Let_def split: prod.splits
      intro!: pipeline_rules resolve_keeps_history [THEN spec] settle_keeps_history [THEN spec])

lemma reclaim_keeps_history: "keeps_history (execute_reclaim_batch d timeout)"
  by (auto simp: execute_reclaim_batch_def split: option.splits
      intro!: pipeline_rules resume_keeps_history [THEN spec] fresh_keeps_history [THEN spec])

lemma poll_keeps_history: "keeps_history (poll_watches_once d)"
  by (auto simp: poll_watches_once_def poll_watch_def split: prod.splits cell_status.splits option.splits
      intro!: pipeline_rules)

subsection \<open>The journal rule\<close>

text \<open>The builder and the signer send nothing, and the hash the pipeline journals is the one of
  the transaction it sends.\<close>

definition honest_deps :: "('w, 'b, 'tx) lifecycle_deps \<Rightarrow> ('tx \<Rightarrow> string) \<Rightarrow> ('w \<Rightarrow> 'tx set) \<Rightarrow> bool" where
  "honest_deps d txhash sent \<longleftrightarrow> logs_sends (ld_client d) sent \<and>
     (\<forall>outs cells. silent sent (ld_build_reclaim d outs cells)) \<and> (\<forall>b. silent sent (ld_sign d b)) \<and>
     (\<forall>b. ld_hash d b = txhash (ld_wire d b))"

lemma acknowledgements_keep_journaled:
  "keeps (all_journaled client txhash sent) (process_acknowledgements lc rs)"
  "keeps (all_journaled client txhash sent) (reserve_committed_capacity lc i)"
  "keeps (all_journaled client txhash sent) (finalize_response_sent lc i h n)"
  by (auto simp: process_acknowledgements_def process_receipt_def reserve_committed_capacity_def
      finalize_response_sent_def split: prod.splits option.splits intro!: keeps_rules)

lemma resolve_keeps_journaled:
  assumes "logs_sends client sent"
  shows "keeps (all_journaled client txhash sent) (resolve_cells client ms)"
proof (induction ms)
  case (Cons m ms)
  then show ?case
    using silent_calls [OF assms]
    by (auto split: option.splits cell_status.splits intro!: keeps_rules)
qed (simp add: keeps_rules)

lemma settle_keeps_journaled:
  "keeps (all_journaled client txhash sent) (settle_reclaim lc h covered amount fee t)"
  by (auto simp: settle_reclaim_def reclaim_one_def Let_def split: option.splits prod.splits
      intro!: keeps_rules)

lemma resume_keeps_journaled:
  assumes d: "honest_deps d txhash sent" and s: "all_journaled (ld_client d) txhash sent s"
    and j: "j \<in> set (db_txs s)"
  shows "stays (all_journaled (ld_client d) txhash sent) (resume_reclaim d timeout j) s"
proof -
  let ?I = "all_journaled (ld_client d) txhash sent"
  have log: "logs_sends (ld_client d) sent" using d by (simp add: honest_deps_def)
  show ?thesis
  proof (cases "parse_reclaim_purpose (tx_purpose j)")
    case (Inl e)
    with s show ?thesis by (simp add: resume_reclaim_def stays_def wp_rules)
  next
    case (Inr ids)
    then have ids: "lift_result (parse_reclaim_purpose (tx_purpose j)) = ret ids"
      by (simp add: lift_result_def)
    show ?thesis
      unfolding resume_reclaim_def ids andthen_ret
      by (intro stays_andthen stays_catching stays_resume [OF log s j])
        (auto simp: Let_def silent_calls(3) [OF log] split: resume_outcome.splits option.splits failure.splits
          intro!: keeps_rules)
  qed
qed

lemma fresh_keeps_journaled:
  assumes d: "honest_deps d txhash sent"
  shows "keeps (all_journaled (ld_client d) txhash sent) (fresh_reclaim d timeout)"
proof -
  let ?I = "all_journaled (ld_client d) txhash sent"
  have log: "logs_sends (ld_client d) sent" and quiet: "\<And>outs cells. silent sent (ld_build_reclaim d outs cells)"
      "\<And>b. silent sent (ld_sign d b)" and hash: "\<And>b. ld_hash d b = txhash (ld_wire d b)"
    using d by (auto simp: honest_deps_def)
  have send: "keeps ?I (andthen (record_outgoing_tx (reclaim_tx_input d b ids fee amount t))
      (\<lambda>_. andthen (on_env (cl_send_transaction (ld_client d) (ld_wire d b))) f))"
    if "\<And>a. keeps ?I (f a)" for b ids fee amount t f
    by (rule keeps_record_send [OF log _ _ that]) (simp_all add: reclaim_tx_input_def hash)
  show ?thesis
    unfolding fresh_reclaim_def Let_def
    using silent_calls [OF log] quiet log
    by (auto split: prod.splits intro!: send resolve_keeps_journaled settle_keeps_journaled keeps_rules)
qed

lemma reclaim_keeps_journaled:
  assumes "honest_deps d txhash sent"
  shows "keeps (all_journaled (ld_client d) txhash sent) (execute_reclaim_batch d timeout)"
proof (rule keepsI)
  fix s assume s: "all_journaled (ld_client d) txhash sent s"
  show "wp (execute_reclaim_batch d timeout) (\<lambda>_. all_journaled (ld_client d) txhash sent)
    (\<lambda>_. all_journaled (ld_client d) txhash sent) s"
    unfolding stays_def [symmetric] execute_reclaim_batch_def find_latest_by_prefix_def
      find_latest_by_purpose_prefix_def
    using s fresh_keeps_journaled [OF assms, of timeout]
      resume_keeps_journaled [OF assms s]
    by (auto simp: stays_def wp_rules keeps_wp split: option.splits dest!: find_latest_mem)
qed

lemma poll_keeps_journaled:
  assumes "logs_sends (ld_client d) sent"
  shows "keeps (all_journaled (ld_client d) txhash sent) (poll_watches_once d)"
  using silent_calls [OF assms]
  by (auto simp: poll_watches_once_def poll_watch_def split: prod.splits cell_status.splits option.splits
      intro!: keeps_rules)

subsection \<open>Sequences of pipeline runs\<close>

datatype lifecycle_op =
    ProcessAcks "(nat \<times> bytes) list"
  | ReserveCommitted nat
  | ReclaimBatch "int option"
  | FinalizeResponse nat string nat
  | PollWatches

fun run_lifecycle_op :: "('w, 'b, 'tx) lifecycle_deps \<Rightarrow> lifecycle_op \<Rightarrow> 'w world \<Rightarrow> 'w world" where
  "run_lifecycle_op d (ProcessAcks rs) s = snd (process_acknowledgements (ld_store d) rs s)"
| "run_lifecycle_op d (ReserveCommitted i) s = snd (reserve_committed_capacity (ld_store d) i s)"
| "run_lifecycle_op d (ReclaimBatch timeout) s = snd (execute_reclaim_batch d timeout s)"
| "run_lifecycle_op d (FinalizeResponse i h n) s = snd (finalize_response_sent (ld_store d) i h n s)"
| "run_lifecycle_op d PollWatches s = snd (poll_watches_once d s)"

lemma run_lifecycle_history:
  "history_kept old (db_messages s) \<Longrightarrow> history_kept old (db_messages (fold (run_lifecycle_op d) ops s))"
proof (induction ops arbitrary: s)
  case (Cons op ops)
  have "history_kept old (db_messages (run_lifecycle_op d op s))"
    using acknowledgements_keep_history [THEN spec, THEN keepsD, OF Cons.prems]
      reclaim_keeps_history [THEN spec, THEN keepsD, OF Cons.prems]
      poll_keeps_history [THEN spec, THEN keepsD, OF Cons.prems] by (cases op) auto
  with Cons.IH show ?case by simp
qed simp

lemma run_lifecycle_journaled:
  assumes "honest_deps d txhash sent"
  shows "all_journaled (ld_client d) txhash sent s \<Longrightarrow>
    all_journaled (ld_client d) txhash sent (fold (run_lifecycle_op d) ops s)"
proof (induction ops arbitrary: s)
  case (Cons op ops)
  have log: "logs_sends (ld_client d) sent" using assms by (simp add: honest_deps_def)
  have "all_journaled (ld_client d) txhash sent (run_lifecycle_op d op s)"
    using acknowledgements_keep_journaled [THEN keepsD, OF Cons.prems]
      reclaim_keeps_journaled [OF assms, THEN keepsD, OF Cons.prems]
      poll_keeps_journaled [OF log, THEN keepsD, OF Cons.prems] by (cases op) auto
  with Cons.IH show ?case by simp
qed simp

subsection \<open>Purposes\<close>

lemma parse_ids_decimal: "0 \<notin> set ids \<Longrightarrow> parse_ids (map decimal ids) = Inr ids"
proof (induction ids)
  case (Cons i ids)
  then show ?case by (cases i) simp_all
qed simp

lemma join_nonempty: "ws \<noteq> [] \<Longrightarrow> hd ws \<noteq> [] \<Longrightarrow> join_with sep ws \<noteq> []"
  by (induction sep ws rule: join_with.induct) auto

section \<open>Properties\<close>

text \<open>
  The batch that a resumed reclaim covers is exactly the one that was journaled: parsing the
  purpose string of any set of row ids gives back those ids in order, and the purpose of a
  response watch gives back its message.
\<close>

theorem purposes_round_trip:
  assumes "0 \<notin> set ids"
  shows "parse_reclaim_purpose (reclaim_purpose ids) = Inr ids
    \<and> parse_watch_purpose (watch_purpose (Suc i)) = Some (Suc i)
    \<and> parse_watch_purpose (reclaim_purpose ids) = None"
proof (cases "ids = []")
  case True
  then show ?thesis
    by (simp add: parse_reclaim_purpose_def reclaim_purpose_def parse_watch_purpose_def
        watch_purpose_def drop_prefix_def starts_with_def)
next
  case False
  have "join_with '','' (map decimal ids) \<noteq> []"
    using False by (intro join_nonempty) (auto simp: hd_map)
  moreover have "split_on CHR '','' (join_with '','' (map decimal ids)) = map decimal ids"
    using False decimal_plain by (intro split_join) auto
  ultimately show ?thesis
    using parse_ids_decimal [OF assms]
    by (simp add: parse_reclaim_purpose_def reclaim_purpose_def parse_watch_purpose_def
        watch_purpose_def drop_prefix_def starts_with_def)
qed

theorem purposes_round_trip_witness:
  "parse_reclaim_purpose (reclaim_purpose [7, 12, 305]) = Inr [7, 12, 305]"
  using purposes_round_trip [of "[7, 12, 305]"] by simp

text \<open>
  Reclaiming never touches the conversation: through any sequence of receipt processing,
  reclaim batches, watch polls and commit finalisations, with any answers of the node, the
  builder and the signer, every message keeps its row, identity and text, and its state moves
  only along legal transitions.
\<close>

theorem lifecycle_keeps_conversations:
  assumes "messages_ok (db_messages s)"
  shows "history_kept (db_messages s) (db_messages (fold (run_lifecycle_op d) ops s))"
  using assms by (intro run_lifecycle_history) simp

text \<open>
  Nothing is broadcast that is not journaled: if every transaction sent so far has a journal
  row and the journaled bytes belong to their hashes, the same holds after any sequence of
  pipeline runs, in particular after one that failed right after sending.
\<close>

theorem reclaim_journals_before_sending:
  assumes "honest_deps d txhash sent" and "all_journaled (ld_client d) txhash sent s"
  shows "all_journaled (ld_client d) txhash sent (fold (run_lifecycle_op d) ops s)"
  using assms by (rule run_lifecycle_journaled)

text \<open>A sample device: the environment is the log of the hashes sent, every cell is live, and
  the node loses the connection right after it took the transaction.\<close>

definition sample_client :: "(string list, string) chain_client" where
  "sample_client = \<lparr>cl_get_transaction = (\<lambda>_ w. (Inr TxUnknown, w, 1)),
     cl_get_live_cell = (\<lambda>h n w. (Inr (LiveCell \<lparr>cell_tx_hash = h, cell_index = n, cell_capacity = 100\<rparr>), w, 1)),
     cl_send_transaction = (\<lambda>tx w. (Inl (OtherError ''connection reset''), tx # w, 1)),
     cl_track_spend = (\<lambda>_ w. (Inr (), w, 0)),
     cl_parse_tx = (\<lambda>t. Inr t), cl_stringify_tx = (\<lambda>t. t)\<rparr>"

definition sample_deps :: "(string list, string, string) lifecycle_deps" where
  "sample_deps = \<lparr>ld_client = sample_client, ld_store = Some 1,
     ld_build_reclaim = (\<lambda>_ _ w. (Inr (''0xab'', 3), w, 1)), ld_sign = (\<lambda>b w. (Inr b, w, 1)),
     ld_hash = (\<lambda>b. b), ld_wire = (\<lambda>b. b)\<rparr>"

definition reclaimable_message :: message where
  "reclaimable_message = \<lparr>m_id = 1, m_conversation_id = 1, m_direction = Outgoing,
     m_state = ReclaimQueued, m_body = Some ''hi'', m_logical_id = ''a'', m_envelope_id = Some ''01'',
     m_created_at = 0, m_updated_at = 0\<rparr>"

definition sample_world :: "string list world" where
  "sample_world = db.extend (empty_db\<lparr>db_messages := [reclaimable_message],
     db_chain_refs := [\<lparr>cr_message_id = 1, cr_tx_hash = Some ''0x9'', cr_outpoint_index = Some 0,
       cr_reply_tx_hash = None, cr_reply_outpoint_index = None\<rparr>]\<rparr>) \<lparr>env = []\<rparr>"

lemma sample_reclaim:
  "env (run_lifecycle_op sample_deps (ReclaimBatch None) sample_world) = [''0xab'']"
  by (simp add: execute_reclaim_batch_def fresh_reclaim_def find_latest_by_prefix_def
      find_latest_by_purpose_prefix_def latest_tx_def list_outgoing_by_state_def list_by_state_def
      get_chain_ref_def find_chain_ref_def chain_ref_pair_def sample_deps_def sample_client_def
      sample_world_def reclaimable_message_def empty_db_def prog_defs on_env_def transition_message_def
      transition_state_def find_message_def demand_def now_def set_state_def update_where_def
      record_outgoing_tx_def record_tx_def insert_or_ignore_def find_tx_def reclaim_tx_input_def
      new_tx_def db.defs state_defs Let_def)

theorem lifecycle_keeps_conversations_witness:
  "history_kept [reclaimable_message]
     (db_messages (fold (run_lifecycle_op sample_deps) [ReclaimBatch None, PollWatches] sample_world))"
  using lifecycle_keeps_conversations [of sample_world sample_deps "[ReclaimBatch None, PollWatches]"]
  by (simp add: sample_world_def messages_ok_def table_ok_def db.defs empty_db_def)

theorem reclaim_journals_witness:
  "all_journaled sample_client (\<lambda>tx. tx) set
     (fold (run_lifecycle_op sample_deps) [ReclaimBatch None] sample_world)
   \<and> env (fold (run_lifecycle_op sample_deps) [ReclaimBatch None] sample_world) = [''0xab'']"
proof -
  have "honest_deps sample_deps (\<lambda>tx. tx) set"
    by (auto simp: honest_deps_def logs_sends_def silent_def sample_deps_def sample_client_def)
  moreover have "all_journaled (ld_client sample_deps) (\<lambda>tx. tx) set sample_world"
    by (simp add: all_journaled_def journal_keys_def sample_world_def empty_db_def db.defs)
  ultimately have "all_journaled (ld_client sample_deps) (\<lambda>tx. tx) set
      (fold (run_lifecycle_op sample_deps) [ReclaimBatch None] sample_world)"
    by (rule reclaim_journals_before_sending)
  then show ?thesis using sample_reclaim by (simp add: sample_deps_def)
qed

subsection \<open>Irreversible steps need an explicit answer\<close>

definition never_dead :: "('w, 'tx) chain_client \<Rightarrow> bool" where
  "never_dead client \<longleftrightarrow> (\<forall>h n w. fst (cl_get_live_cell client h n w) \<noteq> Inr DeadCell)"

text \<open>All tables of two worlds agree; only the clock and the environment may differ.\<close>

definition same_database :: "'w world \<Rightarrow> 'w world \<Rightarrow> bool" where
  "same_database s t \<longleftrightarrow> db.truncate (s\<lparr>db_clock := 0\<rparr>) = db.truncate (t\<lparr>db_clock := 0\<rparr>)"

lemma same_database_refl [simp]: "same_database s s"
  by (simp add: same_database_def)

lemma same_database_env [simp]: "same_database s (t\<lparr>db_clock := c, env := w\<rparr>) = same_database s t"
  by (simp add: same_database_def db.truncate_def)

lemma wp_live_cell:
  assumes "never_dead client" and "same_database s t"
    and "\<And>st t'. same_database s t' \<Longrightarrow> st \<noteq> DeadCell \<Longrightarrow> Q st t'" and "\<And>e t'. same_database s t' \<Longrightarrow> E e t'"
  shows "wp (on_env (cl_get_live_cell client h n)) Q E t"
proof (cases "cl_get_live_cell client h n (env t)")
  case (fields r w k)
  have same: "same_database s (t\<lparr>db_clock := db_clock t + int k, env := w\<rparr>)"
    using assms(2) by simp
  have "r \<noteq> Inr DeadCell" using assms(1) fields by (metis never_dead_def fst_conv)
  then show ?thesis
    using fields assms(3,4) [OF same] by (cases r) (auto simp: wp_on_env)
qed

lemma poll_watch_without_death:
  assumes "never_dead (ld_client d)" and "same_database s t"
  shows "wp (poll_watch d w) (\<lambda>r t'. r = [] \<and> same_database s t') (\<lambda>_ t'. same_database s t') t"
  unfolding poll_watch_def
  by (cases w) (auto simp: wp_andthen wp_ret intro!: wp_live_cell [OF assms] split: cell_status.splits)

lemma poll_without_death:
  assumes "never_dead (ld_client d)"
  shows "same_database s t \<Longrightarrow> wp (map_prog (poll_watch d) ws)
    (\<lambda>r t'. concat r = [] \<and> same_database s t') (\<lambda>_ t'. same_database s t') t"
proof (induction ws arbitrary: t)
  case (Cons w ws)
  show ?case
    unfolding map_prog.simps wp_andthen wp_ret
  proof (rule wp_mono [OF poll_watch_without_death [OF assms Cons.prems]])
    fix r :: "string list" and t' assume "r = [] \<and> same_database s t'"
    then show "wp (map_prog (poll_watch d) ws) (\<lambda>rs t'. concat (r # rs) = [] \<and> same_database s t')
        (\<lambda>_ t'. same_database s t') t'"
      using Cons.IH [of t'] by simp
  qed simp
qed (simp add: wp_rules)

lemma resolve_without_death:
  assumes "never_dead client"
  shows "same_database s t \<Longrightarrow> wp (resolve_cells client ms) (\<lambda>_ t'. same_database s t')
    (\<lambda>_ t'. same_database s t') t"
proof (induction ms arbitrary: t)
  case (Cons m ms)
  have one: "wp (case st of LiveCell c \<Rightarrow> ret [(m, c)] | DeadCell \<Rightarrow> x | UnknownCell \<Rightarrow> ret [])
      (\<lambda>a. wp (resolve_cells client ms) (\<lambda>a'. wp (ret (a @ a')) (\<lambda>_. same_database s) (\<lambda>_. same_database s))
        (\<lambda>_. same_database s)) (\<lambda>_. same_database s) t'"
    if "same_database s t'" "st \<noteq> DeadCell" for st t' and x :: "('a world, failure, (lifecycle_message \<times> cell) list) prog"
    using that Cons.IH [OF that(1)] by (cases st) (auto simp: wp_ret intro: wp_mono)
  show ?case
    using Cons by (cases "lm_chain_ref m")
      (auto simp: wp_andthen intro!: wp_live_cell [OF assms] one)
qed (simp add: wp_rules)

text \<open>
  An answer that is not an explicit \<open>dead\<close> never costs anything: while the node reports cells
  as live, as unknown or not at all, polling the watches reports no spent purpose and leaves the
  database as it was, and resolving the cells of a reclaim moves no message.
\<close>

theorem only_dead_is_spent:
  assumes "never_dead (ld_client d)"
  shows "(\<forall>r. fst (poll_watches_once d s) = Inr r \<longrightarrow> r = [])
    \<and> same_database s (snd (poll_watches_once d s))
    \<and> same_database s (snd (resolve_cells (ld_client d) ms s))"
proof -
  have "wp (poll_watches_once d) (\<lambda>r t. r = [] \<and> same_database s t) (\<lambda>_ t. same_database s t) s"
    unfolding poll_watches_once_def list_active_watches_def list_active_def wp_andthen
    using same_database_refl
    by (auto simp: wp_rules split: option.splits intro!: wp_mono [OF poll_without_death [OF assms]])
  then have "(\<forall>r. fst (poll_watches_once d s) = Inr r \<longrightarrow> r = []) \<and> same_database s (snd (poll_watches_once d s))"
    by (auto simp: wp_def split: prod.splits sum.splits)
  moreover have "same_database s (snd (resolve_cells (ld_client d) ms s))"
    using resolve_without_death [OF assms same_database_refl, of ms s]
    by (auto simp: wp_def split: prod.splits sum.splits)
  ultimately show ?thesis by blast
qed

theorem only_dead_is_spent_witness:
  "same_database sample_world (snd (poll_watches_once sample_deps sample_world))"
proof -
  have "never_dead (ld_client sample_deps)"
    by (simp add: never_dead_def sample_deps_def sample_client_def)
  from only_dead_is_spent [OF this] show ?thesis by blast
qed

subsection \<open>Receipts\<close>

text \<open>
  The two receipt kinds stay apart: receipts without a \<open>0x01\<close> leave every message as it is,
  and receipts without a \<open>0x05\<close> leave every attachment as it is, so an envelope receipt can never
  permit the reclaim of attachment chunks and a download receipt never releases a message cell.
\<close>

theorem receipt_kinds_are_separate:
  "db_messages (snd (process_acknowledgements lc (filter (\<lambda>r. fst r \<noteq> 1) rs) s)) = db_messages s
   \<and> db_attachments (snd (process_acknowledgements lc (filter (\<lambda>r. fst r \<noteq> 5) rs) s)) = db_attachments s"
proof -
  have "keeps (\<lambda>t. db_messages t = db_messages s) (map_prog (process_receipt lc) (filter (\<lambda>r. fst r \<noteq> 1) rs))"
  proof (induction rs)
    case (Cons r rs)
    then show ?case
      by (auto simp: process_receipt_def store_mark_remote_downloaded_def mark_remote_downloaded_def
          find_outgoing_by_envelope_id_def get_by_envelope_message_id_def split: prod.splits option.splits
          intro!: keeps_rules)
  qed (simp add: keeps_rules)
  moreover have "keeps (\<lambda>t. db_attachments t = db_attachments s)
      (map_prog (process_receipt lc) (filter (\<lambda>r. fst r \<noteq> 5) rs))"
  proof (induction rs)
    case (Cons r rs)
    then show ?case
      by (auto simp: process_receipt_def find_outgoing_by_envelope_id_def get_by_envelope_message_id_def
          transition_message_def transition_state_def set_state_def get_message_journal_info_def
          get_message_def find_latest_by_purpose_def store_mark_reclaimable_def mark_reclaimable_def
          move_capacity_def get_balance_def update_balance_def split: prod.splits option.splits
          intro!: keeps_rules)
  qed (simp add: keeps_rules)
  ultimately have "keeps (\<lambda>t. db_messages t = db_messages s)
      (process_acknowledgements lc (filter (\<lambda>r. fst r \<noteq> 1) rs))"
    and "keeps (\<lambda>t. db_attachments t = db_attachments s)
      (process_acknowledgements lc (filter (\<lambda>r. fst r \<noteq> 5) rs))"
    unfolding process_acknowledgements_def by (auto intro: keeps_andthen keeps_ret)
  from keepsD [OF this(1), of s, OF refl] keepsD [OF this(2), of s, OF refl] show ?thesis by simp
qed

lemma wallet_funds_set_state [simp]: "wallet_funds w (set_state i st t s) = wallet_funds w s"
  by (simp add: wallet_funds_def find_balance_def set_state_def)

lemma latest_tx_set_state [simp]: "latest_tx p (set_state i st t s) = latest_tx p s"
  by (simp add: latest_tx_def set_state_def)

lemma db_clock_set_state [simp]: "db_clock (set_state i st t s) = db_clock s"
  by (simp add: set_state_def)

text \<open>
  A \<open>0x01\<close> receipt that names the envelope id of a published message takes it to
  \<open>reclaim_queued\<close> and makes its reserved capacity reclaimable. Nothing else about the receipt
  matters: the operation is not told who sent it, so a receipt from any sender who knows the
  public envelope id releases the cell of a message meant for somebody else.
\<close>

theorem receipt_releases_cell:
  assumes "messages_ok (db_messages s)"
    and m: "List.find (\<lambda>m. m_envelope_id m = Some (bytes_to_hex mid)) (db_messages s) = Some m"
      "m_direction m = Outgoing" "m_state m = AvailableOnChain"
    and j: "latest_tx (\<lambda>r. tx_purpose r = ''message:'' @ m_logical_id m) s = Some j" "tx_capacity j = Some c"
    and f: "wallet_funds w s = Some f" "0 < c" "c \<le> f Reserved"
  shows "\<exists>s' m'. process_acknowledgements (Some w) [(1, mid)] s = (Inr [m_id m], s')
    \<and> find_message (m_id m) s' = Some m' \<and> m_state m' = ReclaimQueued
    \<and> wallet_funds w s' = Some (f(Reserved := f Reserved - c, Reclaimable := f Reclaimable + c))"
proof -
  have found: "find_message (m_id m) s = Some m"
    using assms(1) find_some_mem [OF m(1)] by (simp add: find_message_def messages_ok_unique_id)
  have steps: "can_transition_message Outgoing AvailableOnChain DownloadedByRecipient"
      "can_transition_message Outgoing DownloadedByRecipient Acknowledged"
      "can_transition_message Outgoing Acknowledged ReclaimQueued"
    by (simp_all add: state_defs)
  have "wp (process_acknowledgements (Some w) [(1, mid)]) (\<lambda>r s'. r = [m_id m] \<and>
      (\<exists>m'. find_message (m_id m) s' = Some m' \<and> m_state m' = ReclaimQueued) \<and>
      wallet_funds w s' = Some (f(Reserved := f Reserved - c, Reclaimable := f Reclaimable + c)))
    (\<lambda>_ _. False) s"
    using m j f found steps
    by (auto simp: process_acknowledgements_def process_receipt_def find_outgoing_by_envelope_id_def
        get_by_envelope_message_id_def ackable_states_def transition_message_def wp_rules
        wp_transition_state get_message_journal_info_def get_message_def find_latest_by_purpose_def
        store_mark_reclaimable_def mark_reclaimable_def
        simp del: can_transition_message.simps intro!: wp_move_capacity)
  then show ?thesis
    by (cases "process_acknowledgements (Some w) [(1, mid)] s") (auto simp: wp_def split: sum.splits)
qed

definition published_message :: message where
  "published_message = reclaimable_message\<lparr>m_state := AvailableOnChain\<rparr>"

theorem receipt_releases_cell_witness:
  "let s = sample_wallet\<lparr>db_messages := [published_message],
     db_txs := [new_tx (sample_tx\<lparr>ti_purpose := ''message:a'', ti_capacity := Some 25\<rparr>) []]\<rparr>
   in \<exists>s' m'. process_acknowledgements (Some 1) [(1, [1])] s = (Inr [1], s')
    \<and> find_message 1 s' = Some m' \<and> m_state m' = ReclaimQueued"
proof -
  let ?j = "new_tx (sample_tx\<lparr>ti_purpose := ''message:a'', ti_capacity := Some 25\<rparr>) []"
  let ?s = "sample_wallet\<lparr>db_messages := [published_message], db_txs := [?j]\<rparr>"
  have "messages_ok (db_messages ?s)" by (simp add: messages_ok_def table_ok_def)
  moreover have "List.find (\<lambda>m. m_envelope_id m = Some (bytes_to_hex [1])) (db_messages ?s) = Some published_message"
    by (simp add: published_message_def reclaimable_message_def bytes_to_hex_def byte_to_string16_def hex_digits_def
        pad_start_def)
  moreover have "latest_tx (\<lambda>r. tx_purpose r = ''message:'' @ m_logical_id published_message) ?s = Some ?j"
    by (simp add: latest_tx_def new_tx_def published_message_def reclaimable_message_def)
  moreover have "wallet_funds 1 ?s = wallet_funds 1 sample_wallet"
    by (simp add: wallet_funds_def find_balance_def)
  ultimately have "\<exists>s' m'. process_acknowledgements (Some 1) [(1, [1])] ?s = (Inr [m_id published_message], s')
    \<and> find_message (m_id published_message) s' = Some m' \<and> m_state m' = ReclaimQueued"
    using receipt_releases_cell [of ?s "[1]" published_message ?j 25 1] sample_funds
    by (auto simp: published_message_def reclaimable_message_def new_tx_def)
  then show ?thesis by (simp add: Let_def published_message_def reclaimable_message_def)
qed

end
