(* ===== verification/Cemp_AttachmentChain.thy ===== *)
theory Cemp_AttachmentChain
  imports Cemp_Images Cemp_Publisher Cemp_Lifecycle
begin

text \<open>
  packages/cemp-images on the chain: publishing the chunk cells (send.ts), the image message
  (send-message.ts) and the reclaim of an attachment group (reclaim.ts), over the publication store
  and an arbitrary chain client.

  The transaction builders and the signer are arguments. \<open>ac_outputs\<close> are the capacities of all
  outputs of a built transaction, the change output included.
\<close>

record ('w, 'b, 'tx) attach_deps =
  ac_client :: "('w, 'tx) chain_client"
  ac_store :: "nat option"
  ac_build_cells :: "bytes list \<Rightarrow> ('w, 'b) env_call"
  ac_build_reclaim :: "(string \<times> nat) list \<Rightarrow> cell list \<Rightarrow> ('w, 'b) env_call"
  ac_fee :: "'b \<Rightarrow> int"
  ac_outputs :: "'b \<Rightarrow> int list"
  ac_sign :: "'b \<Rightarrow> ('w, 'b) env_call"
  ac_hash :: "'b \<Rightarrow> string"
  ac_wire :: "'b \<Rightarrow> 'tx"

section \<open>Journal and resume\<close>

definition attach_tx_input ::
  "('w, 'b, 'tx) attach_deps \<Rightarrow> string \<Rightarrow> 'b \<Rightarrow> 'b \<Rightarrow> int \<Rightarrow> int \<Rightarrow> tx_input" where
  "attach_tx_input d purpose built signed_tx capacity t =
     \<lparr>ti_hash = ac_hash d signed_tx, ti_purpose = purpose, ti_state = ''submitted'',
      ti_fee = Some (ac_fee d built), ti_submitted_at = Some t, ti_capacity = Some capacity,
      ti_hex = Some (cl_stringify_tx (ac_client d) (ac_wire d signed_tx))\<rparr>"

text \<open>Resuming a journaled broadcast, with the inputs of a rebroadcast marked as spent.\<close>

definition resume_and_track ::
  "('w, 'b, 'tx) attach_deps \<Rightarrow> outgoing_tx \<Rightarrow> int option \<Rightarrow> ('w world, failure, unit) prog" where
  "resume_and_track d j timeout =
     andthen (resume_journaled_broadcast (ac_client d) (tx_hash j) (tx_hex j) timeout) (\<lambda>outcome.
     case (outcome, tx_hex j) of
       (Rebroadcast, Some json) \<Rightarrow>
         andthen (lift_result (cl_parse_tx (ac_client d) json)) (\<lambda>wire.
           on_env (cl_track_spend (ac_client d) wire))
     | _ \<Rightarrow> ret ())"

text \<open>Resume when the latest row of the purpose is still submitted; an abandoned row falls through.\<close>

definition try_resume ::
  "('w, 'b, 'tx) attach_deps \<Rightarrow> outgoing_tx option \<Rightarrow> int option \<Rightarrow>
     (outgoing_tx \<Rightarrow> ('w world, failure, 'r) prog) \<Rightarrow> ('w world, failure, 'r option) prog" where
  "try_resume d journaled timeout settle = (case journaled of
       None \<Rightarrow> ret None
     | Some j \<Rightarrow>
         if tx_state j = ''submitted''
         then catching
           (andthen (resume_and_track d j timeout) (\<lambda>_. andthen (settle j) (\<lambda>r. ret (Some r))))
           (\<lambda>e. case e of
              Abandoned _ \<Rightarrow> andthen (mark_outgoing_tx_state (tx_hash j) ''abandoned'' None) (\<lambda>_. ret None)
            | _ \<Rightarrow> throw e)
         else ret None)"

definition mark_committed_now :: "string \<Rightarrow> ('x db_scheme, failure, unit) prog" where
  "mark_committed_now h = andthen now (\<lambda>t. mark_outgoing_tx_state h ''committed'' (Some t))"

definition win_commit :: "string \<Rightarrow> ('x db_scheme, failure, nat) prog" where
  "win_commit h = andthen now (\<lambda>t. mark_outgoing_tx_state_if h ''submitted'' ''committed'' (Some t))"

section \<open>send.ts\<close>

record publish_chunks_result =
  pc_tx_hash :: string
  pc_chunk_count :: nat
  pc_resumed :: bool

definition chunks_purpose :: "bytes \<Rightarrow> string" where
  "chunks_purpose attachment_id = ''attachment-chunks:'' @ bytes_to_hex attachment_id"

definition settle_resumed_chunks ::
  "('w, 'b, 'tx) attach_deps \<Rightarrow> nat \<Rightarrow> outgoing_tx \<Rightarrow> ('w world, failure, publish_chunks_result) prog" where
  "settle_resumed_chunks d count j =
     andthen (mark_committed_now (tx_hash j)) (\<lambda>_.
     andthen (case tx_capacity j of
         None \<Rightarrow> ret ()
       | Some c \<Rightarrow> when_do (c \<noteq> 0) (store_reserve_capacity (ac_store d) c)) (\<lambda>_.
     ret \<lparr>pc_tx_hash = tx_hash j, pc_chunk_count = count, pc_resumed = True\<rparr>))"

definition fresh_chunks ::
  "('w, 'b, 'tx) attach_deps \<Rightarrow> prepared_chunks \<Rightarrow> string \<Rightarrow> int option \<Rightarrow>
     ('w world, failure, publish_chunks_result) prog" where
  "fresh_chunks d pk purpose timeout =
     andthen (on_env (ac_build_cells d (pk_chunks pk))) (\<lambda>built.
     andthen (on_env (ac_sign d built)) (\<lambda>signed_tx.
     let h = ac_hash d signed_tx; total = sum_list (ac_outputs d built) in
     andthen now (\<lambda>t.
     andthen (record_outgoing_tx (attach_tx_input d purpose built signed_tx total t)) (\<lambda>_.
     andthen (on_env (cl_send_transaction (ac_client d) (ac_wire d signed_tx))) (\<lambda>accepted.
     if accepted \<noteq> h
     then throw (OtherError ''publishAttachmentChunks: node returned a different tx hash'')
     else andthen (on_env (cl_track_spend (ac_client d) (ac_wire d signed_tx))) (\<lambda>_.
       andthen (wait_for_commit (ac_client d) h timeout) (\<lambda>_.
       andthen (mark_committed_now h) (\<lambda>_.
       andthen (when_do (total > 0) (store_reserve_capacity (ac_store d) total)) (\<lambda>_.
       ret \<lparr>pc_tx_hash = h, pc_chunk_count = length (pk_chunks pk), pc_resumed = False\<rparr>)))))))))"

definition publish_attachment_chunks ::
  "('w, 'b, 'tx) attach_deps \<Rightarrow> prepared_chunks \<Rightarrow> int option \<Rightarrow>
     ('w world, failure, publish_chunks_result) prog" where
  "publish_attachment_chunks d pk timeout =
     (let purpose = chunks_purpose (ea_id (pk_encrypted pk)) in
      andthen (find_latest_by_prefix purpose) (\<lambda>journaled.
      andthen (try_resume d journaled timeout (settle_resumed_chunks d (length (pk_chunks pk)))) (\<lambda>r.
      case r of Some done' \<Rightarrow> ret done' | None \<Rightarrow> fresh_chunks d pk purpose timeout)))"

section \<open>reclaim.ts\<close>

record group_reclaim_result =
  gr_tx_hash :: string
  gr_cell_count :: nat
  gr_released :: int
  gr_resumed :: bool

definition group_purpose :: "bytes \<Rightarrow> string" where
  "group_purpose grp = ''reclaim-attachment:'' @ bytes_to_hex grp"

definition finalize_committed_reclaim ::
  "nat option \<Rightarrow> int option \<Rightarrow> int option \<Rightarrow> ('x db_scheme, failure, int) prog" where
  "finalize_committed_reclaim lc capacity_text fee_text =
     (let capacity = (case capacity_text of None \<Rightarrow> 0 | Some c \<Rightarrow> c);
          fee = (case fee_text of None \<Rightarrow> 0 | Some f \<Rightarrow> f);
          released = (if capacity > fee then capacity - fee else 0) in
      andthen (when_do (capacity > 0) (store_mark_reclaimable lc capacity)) (\<lambda>_.
      andthen (when_do (released > 0) (store_release_reclaimed lc released)) (\<lambda>_.
      andthen (when_do (fee > 0) (store_record_fee_burn lc fee)) (\<lambda>_. ret released))))"

definition settle_group ::
  "nat option \<Rightarrow> string \<Rightarrow> nat \<Rightarrow> int option \<Rightarrow> int option \<Rightarrow> bool \<Rightarrow>
     ('x db_scheme, failure, group_reclaim_result) prog" where
  "settle_group lc h count capacity fee resumed =
     andthen (win_commit h) (\<lambda>won.
     if won = 0
     then ret \<lparr>gr_tx_hash = h, gr_cell_count = count, gr_released = 0, gr_resumed = resumed\<rparr>
     else andthen (finalize_committed_reclaim lc capacity fee) (\<lambda>released.
       ret \<lparr>gr_tx_hash = h, gr_cell_count = count, gr_released = released, gr_resumed = resumed\<rparr>))"

fun live_cells_of ::
  "('w, 'tx) chain_client \<Rightarrow> (string \<times> nat) list \<Rightarrow> ('w world, failure, ((string \<times> nat) \<times> cell) list) prog" where
  "live_cells_of client [] = ret []"
| "live_cells_of client ((h, n) # os) =
     andthen (on_env (cl_get_live_cell client h n)) (\<lambda>status.
     andthen (live_cells_of client os) (\<lambda>rest.
     ret (case status of LiveCell c \<Rightarrow> ((h, n), c) # rest | _ \<Rightarrow> rest)))"

definition fresh_group ::
  "('w, 'b, 'tx) attach_deps \<Rightarrow> string \<Rightarrow> (string \<times> nat) list \<Rightarrow> int option \<Rightarrow>
     ('w world, failure, group_reclaim_result option) prog" where
  "fresh_group d purpose outpoints timeout =
     (if outpoints = [] then ret None
      else andthen (live_cells_of (ac_client d) outpoints) (\<lambda>live.
        let cells = map snd live; total = sum_list (map cell_capacity cells) in
        if cells = [] then ret None
        else andthen (on_env (ac_build_reclaim d (map fst live) cells)) (\<lambda>built.
          andthen (on_env (ac_sign d built)) (\<lambda>signed_tx.
          let h = ac_hash d signed_tx in
          andthen now (\<lambda>t.
          andthen (record_outgoing_tx (attach_tx_input d purpose built signed_tx total t)) (\<lambda>_.
          andthen (on_env (cl_send_transaction (ac_client d) (ac_wire d signed_tx))) (\<lambda>accepted.
          if accepted \<noteq> h
          then throw (OtherError ''reclaimAttachmentGroup: node returned a different tx hash'')
          else andthen (on_env (cl_track_spend (ac_client d) (ac_wire d signed_tx))) (\<lambda>_.
            andthen (wait_for_commit (ac_client d) h timeout) (\<lambda>_.
            andthen (settle_group (ac_store d) h (length cells) (Some total) (Some (ac_fee d built)) False)
              (\<lambda>r. ret (Some r)))))))))))"

definition reclaim_attachment_group ::
  "('w, 'b, 'tx) attach_deps \<Rightarrow> bytes \<Rightarrow> (string \<times> nat) list \<Rightarrow> int option \<Rightarrow>
     ('w world, failure, group_reclaim_result option) prog" where
  "reclaim_attachment_group d grp outpoints timeout =
     andthen (find_latest_by_prefix (group_purpose grp)) (\<lambda>journaled.
     andthen (try_resume d journaled timeout (\<lambda>j. settle_group (ac_store d) (tx_hash j)
       (length outpoints) (tx_capacity j) (tx_fee j) True)) (\<lambda>r.
     case r of Some done' \<Rightarrow> ret (Some done') | None \<Rightarrow> fresh_group d (group_purpose grp) outpoints timeout))"

section \<open>send-message.ts\<close>

text \<open>What a publication carries besides its row: the content of \<open>PublishTextInput\<close>.\<close>

record message_content =
  mc_text :: code_points
  mc_recipient :: string
  mc_reply_to :: "(bytes \<times> string \<times> nat) option"
  mc_receipts :: "(bytes \<times> nat) list"
  mc_receipt_request :: "nat option"
  mc_content_type :: "nat option"
  mc_manifests :: "attachment_manifest_v1 list"
  mc_attachment_envelope :: "(bytes \<times> bytes) option"

record image_input =
  ii_row_id :: nat
  ii_logical_id :: string
  ii_recipient_hex :: string
  ii_kem_public_key :: bytes
  ii_recipient :: bytes
  ii_source :: bytes
  ii_prepared :: "prepared_image option"
  ii_caption :: "code_points option"
  ii_format :: "image_format option"
  ii_timeout :: "int option"

text \<open>The random values one image send draws, in order.\<close>

record image_draws =
  iw_kem_message :: bytes
  iw_nonce :: bytes
  iw_attachment_id :: bytes
  iw_attachment_nonce :: bytes
  iw_reclaim_group :: bytes

record publish_image_result =
  pg_chunks_tx :: string
  pg_message_tx :: string
  pg_manifest :: attachment_manifest_v1
  pg_chunk_count :: nat
  pg_plaintext_size :: nat

definition image_content ::
  "image_draws \<Rightarrow> image_input \<Rightarrow> attachment_manifest_v1 \<Rightarrow> message_content" where
  "image_content D i m = \<lparr>mc_text = (case ii_caption i of None \<Rightarrow> [] | Some c \<Rightarrow> c),
     mc_recipient = ii_recipient_hex i, mc_reply_to = None, mc_receipts = [],
     mc_receipt_request = Some 1, mc_content_type = Some 3, mc_manifests = [m],
     mc_attachment_envelope = Some (iw_kem_message D, iw_nonce D)\<rparr>"

text \<open>The failures of the first part and the publication errors of the second.\<close>

definition publish_image_message ::
  "blake2b \<Rightarrow> crypto_suite \<Rightarrow> ('w, 'img) image_codec \<Rightarrow> ('w, 'b, 'tx) attach_deps \<Rightarrow>
     ('w, message_content, 'a, 'c, 'tx) publisher_deps \<Rightarrow> bytes \<Rightarrow> image_draws \<Rightarrow> image_input \<Rightarrow>
     ('w world, failure + publication_error, publish_image_result) prog" where
  "publish_image_message blake2b S G d pd sender D i =
     andthen (catching
        (andthen (lift_result (map_error crypto_failure (derive_send_attachment_key S
          \<lparr>sk_kem_public_key = ii_kem_public_key i, sk_kem_message = iw_kem_message D, sk_nonce = iw_nonce D,
           sk_sender = sender, sk_recipient = ii_recipient i\<rparr>))) (\<lambda>key.
         andthen (case ii_prepared i of
             Some p \<Rightarrow> ret p
           | None \<Rightarrow> prepare_image blake2b G (ii_source i) (ii_format i) None) (\<lambda>prepared.
         andthen (lift_result (encrypt_prepared_chunks blake2b S (iw_attachment_id D)
           (iw_attachment_nonce D) prepared key None)) (\<lambda>pk.
         andthen (publish_attachment_chunks d pk (ii_timeout i)) (\<lambda>published.
         andthen (lift_result (build_manifest_for_committed_chunks pk (pc_tx_hash published)
           (iw_reclaim_group D))) (\<lambda>m.
         ret (pk, published, m)))))))
        (\<lambda>e. throw (Inl e))) (\<lambda>(pk, published, m).
      andthen (catching (publish_text pd \<lparr>pi_row_id = ii_row_id i, pi_logical_id = ii_logical_id i,
          pi_content = image_content D i m, pi_timeout = ii_timeout i\<rparr>) (\<lambda>e. throw (Inr e))) (\<lambda>r.
      ret \<lparr>pg_chunks_tx = pc_tx_hash published, pg_message_tx = pr_tx_hash r, pg_manifest = m,
        pg_chunk_count = pc_chunk_count published,
        pg_plaintext_size = length (pm_bytes (pk_prepared pk))\<rparr>))"

section \<open>Lemmas\<close>

lemmas attach_defs = publish_attachment_chunks_def reclaim_attachment_group_def try_resume_def
  resume_and_track_def settle_resumed_chunks_def fresh_chunks_def settle_group_def fresh_group_def
  finalize_committed_reclaim_def mark_committed_now_def win_commit_def

lemma live_cells_keep_history: "keeps_history (live_cells_of client os)"
  by (induction os) (auto intro!: pipeline_rules)

lemma attachments_keep_chat_history:
  "keeps_history (publish_attachment_chunks d pk timeout)"
  "keeps_history (reclaim_attachment_group d grp outs timeout)"
  by (auto simp: attach_defs Let_def
      split: option.splits prod.splits resume_outcome.splits failure.splits
      intro!: pipeline_rules live_cells_keep_history [THEN spec])

subsection \<open>The journal rule\<close>

definition honest_attach :: "('w, 'b, 'tx) attach_deps \<Rightarrow> ('tx \<Rightarrow> string) \<Rightarrow> ('w \<Rightarrow> 'tx set) \<Rightarrow> bool" where
  "honest_attach d txhash sent \<longleftrightarrow> logs_sends (ac_client d) sent \<and>
     (\<forall>cs. silent sent (ac_build_cells d cs)) \<and> (\<forall>os cells. silent sent (ac_build_reclaim d os cells)) \<and>
     (\<forall>b. silent sent (ac_sign d b)) \<and> (\<forall>b. ac_hash d b = txhash (ac_wire d b))"

lemma live_cells_keep_journaled:
  assumes "logs_sends client sent"
  shows "keeps (all_journaled client txhash sent) (live_cells_of client os)"
  using silent_calls [OF assms] by (induction os) (auto intro!: keeps_rules)

lemma attach_send_journaled:
  assumes d: "honest_attach d txhash sent" and rest: "\<And>a. keeps (all_journaled (ac_client d) txhash sent) (f a)"
  shows "keeps (all_journaled (ac_client d) txhash sent)
    (andthen (record_outgoing_tx (attach_tx_input d purpose b b' amount t))
      (\<lambda>_. andthen (on_env (cl_send_transaction (ac_client d) (ac_wire d b'))) f))"
  by (rule keeps_record_send [OF _ _ _ rest]) (use d in \<open>auto simp: honest_attach_def attach_tx_input_def\<close>)

lemma settle_keeps_all_journaled:
  "keeps (all_journaled client txhash sent) (settle_group lc h n c fee r)"
  "keeps (all_journaled client txhash sent) (settle_resumed_chunks d k j)"
  by (auto simp: settle_group_def win_commit_def finalize_committed_reclaim_def settle_resumed_chunks_def
      mark_committed_now_def Let_def split: option.splits intro!: keeps_rules)

lemma fresh_attach_journaled:
  assumes d: "honest_attach d txhash sent"
  shows "keeps (all_journaled (ac_client d) txhash sent) (fresh_chunks d pk purpose timeout)"
    and "keeps (all_journaled (ac_client d) txhash sent) (fresh_group d purpose outs timeout)"
proof -
  have log: "logs_sends (ac_client d) sent" and quiet: "\<And>cs. silent sent (ac_build_cells d cs)"
      "\<And>os cells. silent sent (ac_build_reclaim d os cells)" "\<And>b. silent sent (ac_sign d b)"
    using d by (auto simp: honest_attach_def)
  show "keeps (all_journaled (ac_client d) txhash sent) (fresh_chunks d pk purpose timeout)"
    unfolding fresh_chunks_def mark_committed_now_def Let_def using silent_calls [OF log] quiet log
    by (auto intro!: attach_send_journaled [OF d] keeps_rules)
  show "keeps (all_journaled (ac_client d) txhash sent) (fresh_group d purpose outs timeout)"
    unfolding fresh_group_def Let_def using silent_calls [OF log] quiet log
    by (auto intro!: attach_send_journaled [OF d] live_cells_keep_journaled settle_keeps_all_journaled keeps_rules)
qed

lemma try_resume_journaled:
  assumes log: "logs_sends (ac_client d) sent" and s: "all_journaled (ac_client d) txhash sent s"
    and j: "\<And>j. journaled = Some j \<Longrightarrow> j \<in> set (db_txs s)"
    and settle: "\<And>j. keeps (all_journaled (ac_client d) txhash sent) (settle j)"
  shows "stays (all_journaled (ac_client d) txhash sent) (try_resume d journaled timeout settle) s"
proof (cases journaled)
  case None
  with s show ?thesis by (simp add: try_resume_def stays_def wp_ret)
next
  case (Some r)
  let ?I = "all_journaled (ac_client d) txhash sent"
  have "stays ?I (resume_and_track d r timeout) s"
    unfolding resume_and_track_def using silent_calls(3) [OF log] Some
    by (intro stays_resume [OF log s] j)
      (auto split: resume_outcome.splits option.splits intro!: keeps_rules)
  then have "stays ?I (catching
       (andthen (resume_and_track d r timeout) (\<lambda>_. andthen (settle r) (\<lambda>x. ret (Some x))))
       (\<lambda>e. case e of
          Abandoned _ \<Rightarrow> andthen (mark_outgoing_tx_state (tx_hash r) ''abandoned'' None) (\<lambda>_. ret None)
        | _ \<Rightarrow> throw e)) s"
    by (intro stays_catching stays_andthen)
      (auto split: failure.splits intro!: keeps_rules settle)
  with s Some show ?thesis by (simp add: try_resume_def stays_def wp_ret)
qed

lemma attach_run_journaled:
  assumes d: "honest_attach d txhash sent"
    and settle: "\<And>j. keeps (all_journaled (ac_client d) txhash sent) (settle j)"
    and rest: "\<And>r. keeps (all_journaled (ac_client d) txhash sent) (f r)"
  shows "keeps (all_journaled (ac_client d) txhash sent)
    (andthen (find_latest_by_prefix purpose) (\<lambda>journaled.
     andthen (try_resume d journaled timeout settle) f))"
proof (rule keepsI)
  fix s assume s: "all_journaled (ac_client d) txhash sent s"
  have log: "logs_sends (ac_client d) sent" using d by (simp add: honest_attach_def)
  have "stays (all_journaled (ac_client d) txhash sent)
      (andthen (try_resume d (latest_tx (\<lambda>r. like_prefix purpose (tx_purpose r)) s) timeout settle) f) s"
    by (intro stays_andthen try_resume_journaled [OF log s] settle rest) (auto dest: find_latest_mem)
  then show "wp (andthen (find_latest_by_prefix purpose) (\<lambda>journaled.
     andthen (try_resume d journaled timeout settle) f)) (\<lambda>_. all_journaled (ac_client d) txhash sent)
     (\<lambda>_. all_journaled (ac_client d) txhash sent) s"
    by (simp add: stays_def find_latest_by_prefix_def find_latest_by_purpose_prefix_def wp_andthen wp_asks)
qed

lemma attachments_keep_journaled:
  assumes d: "honest_attach d txhash sent"
  shows "keeps (all_journaled (ac_client d) txhash sent) (publish_attachment_chunks d pk timeout)"
    and "keeps (all_journaled (ac_client d) txhash sent) (reclaim_attachment_group d grp outs timeout)"
  unfolding publish_attachment_chunks_def reclaim_attachment_group_def Let_def
  by (rule attach_run_journaled [OF d];
      auto intro!: fresh_attach_journaled [OF d] settle_keeps_all_journaled keeps_rules split: option.splits)+

subsection \<open>Settling\<close>

lemma wallet_funds_other [simp]:
  "wallet_funds w (s\<lparr>db_txs := x\<rparr>) = wallet_funds w s"
  by (simp add: wallet_funds_def find_balance_def)

abbreviation keeps_txs :: "('x db_scheme, failure, 'a) prog \<Rightarrow> bool" where
  "keeps_txs m \<equiv> (\<forall>k. keeps (\<lambda>s. db_txs s = k) m)"

lemma ledger_keeps_txs:
  "keeps_txs (store_mark_reclaimable lc a)" "keeps_txs (store_release_reclaimed lc a)"
  "keeps_txs (store_record_fee_burn lc a)"
  by (auto simp: store_defs mark_reclaimable_def release_reclaimed_def record_fee_burn_def
      move_capacity_def get_balance_def update_balance_def Let_def intro!: keeps_rules)

lemma keeps_txsD: "keeps_txs m \<Longrightarrow> m s = (r, s') \<Longrightarrow> db_txs s' = db_txs s"
  by (auto simp: keeps_def) (metis snd_conv)

text \<open>The capacity of a committed group comes back net of the fee.\<close>

lemma finalize_reclaim_moves:
  assumes f: "wallet_funds w s = Some f" and a: "0 < fee" "fee < a" "a \<le> f Reserved" "a < 2 ^ 63"
    and zero: "f Reclaimable = 0"
  shows "\<exists>s'. finalize_committed_reclaim (Some w) (Some a) (Some fee) s = (Inr (a - fee), s')
    \<and> wallet_funds w s' = Some (f(Reserved := f Reserved - a, Available := f Available + (a - fee)))
    \<and> db_txs s' = db_txs s"
proof -
  have "\<exists>s1. mark_reclaimable w a s = (Inr (), s1)
      \<and> wallet_funds w s1 = Some (f(Reserved := f Reserved - a, Reclaimable := f Reclaimable + a))"
    unfolding mark_reclaimable_def by (rule ledger.move_all [OF f]) (use a in auto)
  then obtain s1 where s1: "mark_reclaimable w a s = (Inr (), s1)"
      "wallet_funds w s1 = Some (f(Reserved := f Reserved - a, Reclaimable := a))"
    unfolding zero by auto
  obtain s2 where s2: "release_reclaimed w (a - fee) s1 = (Inr (), s2)"
      "wallet_funds w s2 = Some (f(Reserved := f Reserved - a, Reclaimable := fee,
        Available := f Available + (a - fee)))"
    unfolding release_reclaimed_def
    using ledger.move_all [OF s1(2), of Reclaimable Available "a - fee"] a by (auto simp: fun_upd_twist)
  obtain s3 where s3: "record_fee_burn w fee s2 = (Inr (), s3)"
      "wallet_funds w s3 = Some (f(Reserved := f Reserved - a, Reclaimable := 0,
        Available := f Available + (a - fee)))"
    using ledger.burn_some [OF s2(2), of fee] a by (auto simp: fun_upd_twist)
  have funds: "f(Reserved := f Reserved - a, Reclaimable := 0, Available := f Available + (a - fee))
      = f(Reserved := f Reserved - a, Available := f Available + (a - fee))"
    using zero by (auto simp: fun_eq_iff)
  have run: "store_mark_reclaimable (Some w) a s = (Inr (), s1)"
      "store_release_reclaimed (Some w) (a - fee) s1 = (Inr (), s2)"
      "store_record_fee_burn (Some w) fee s2 = (Inr (), s3)"
    using s1(1) s2(1) s3(1) by (simp_all add: store_defs require_lifecycle_def)
  have "db_txs s3 = db_txs s"
    using keeps_txsD [OF ledger_keeps_txs(1) run(1)] keeps_txsD [OF ledger_keeps_txs(2) run(2)]
      keeps_txsD [OF ledger_keeps_txs(3) run(3)] by simp
  moreover have "finalize_committed_reclaim (Some w) (Some a) (Some fee) s = (Inr (a - fee), s3)"
    using a run by (simp add: finalize_committed_reclaim_def Let_def prog_defs)
  ultimately show ?thesis using s3(2) funds by simp
qed

abbreviation commit_won :: "string \<Rightarrow> 'x db_scheme \<Rightarrow> 'x db_scheme" where
  "commit_won h s \<equiv> s\<lparr>db_txs := update_where (\<lambda>r. tx_hash r = h \<and> tx_state r = ''submitted'')
     (tx_patch ''committed'' (Some (db_clock s)) None) (db_txs s)\<rparr>"

lemma patched_away:
  "st \<noteq> e \<Longrightarrow> \<not> list_ex (\<lambda>r. tx_hash r = h \<and> tx_state r = e)
     (update_where (\<lambda>r. tx_hash r = h \<and> tx_state r = e) (tx_patch st c b) rows)"
  by (induction rows) (simp_all add: update_where_def)

lemma win_commit_once:
  assumes ok: "table_ok tx_id tx_hash (db_txs s)" and r: "find_tx h s = Some r" "tx_state r = ''submitted''"
  shows "win_commit h s = (Inr 1, commit_won h s)"
    and "db_txs t = db_txs (commit_won h s) \<Longrightarrow> win_commit h t = (Inr 0, t)"
proof -
  have mem: "r \<in> set (db_txs s)" "tx_hash r = h" using ok r(1) by (simp_all add: find_tx_journal)
  have "changes (\<lambda>r. tx_hash r = h \<and> tx_state r = ''submitted'') (db_txs s) = 1"
    using ok mem r(2) by (intro changes_one) (auto simp: table_ok_def)
  then show "win_commit h s = (Inr 1, commit_won h s)"
    by (simp add: win_commit_def mark_outgoing_tx_state_if_def mark_tx_state_if_def update_txs_def
        now_def prog_defs)
  assume t: "db_txs t = db_txs (commit_won h s)"
  have none: "\<not> list_ex (\<lambda>r. tx_hash r = h \<and> tx_state r = ''submitted'') (db_txs t)"
    using t by (simp add: patched_away)
  show "win_commit h t = (Inr 0, t)"
    using none changes_zero [of "\<lambda>r. tx_hash r = h \<and> tx_state r = ''submitted''" "db_txs t"]
    by (simp add: win_commit_def mark_outgoing_tx_state_if_def mark_tx_state_if_def update_txs_def
        now_def prog_defs)
qed

lemma group_settles:
  assumes "table_ok tx_id tx_hash (db_txs s)" and "find_tx h s = Some r" "tx_state r = ''submitted''"
    and "wallet_funds w s = Some f" and "0 < fee" "fee < a" "a \<le> f Reserved" "a < 2 ^ 63"
    and "f Reclaimable = 0"
  shows "\<exists>s'. settle_group (Some w) h n (Some a) (Some fee) resumed s
      = (Inr \<lparr>gr_tx_hash = h, gr_cell_count = n, gr_released = a - fee, gr_resumed = resumed\<rparr>, s')
    \<and> wallet_funds w s' = Some (f(Reserved := f Reserved - a, Available := f Available + (a - fee)))
    \<and> settle_group (Some w) h n' a' fee' True s'
      = (Inr \<lparr>gr_tx_hash = h, gr_cell_count = n', gr_released = 0, gr_resumed = True\<rparr>, s')"
proof -
  let ?s = "commit_won h s"
  have f: "wallet_funds w ?s = Some f" using assms(4) by simp
  obtain s' where s': "finalize_committed_reclaim (Some w) (Some a) (Some fee) ?s = (Inr (a - fee), s')"
      "wallet_funds w s' = Some (f(Reserved := f Reserved - a, Available := f Available + (a - fee)))"
      "db_txs s' = db_txs ?s"
    using finalize_reclaim_moves [OF f assms(5-9)] by auto
  have again: "win_commit h s' = (Inr 0, s')" by (rule win_commit_once(2) [OF assms(1-3) s'(3)])
  show ?thesis
    using win_commit_once(1) [OF assms(1-3)] s'(1,2) again
    by (intro exI [of _ s']) (simp add: settle_group_def prog_defs)
qed

subsection \<open>What a chunk publication reserves\<close>

lemma wp_andthen_keeps:
  assumes "keeps I m" and "I s" and "\<And>a s'. I s' \<Longrightarrow> wp (f a) Q (\<lambda>_ _. True) s'"
  shows "wp (andthen m f) Q (\<lambda>_ _. True) s"
  unfolding wp_andthen using assms by (auto simp: keeps_wp intro: wp_mono)

lemma wp_call_keeps:
  assumes "env_free I" and "I s" and "\<And>e e' k a s'. call e = (Inr a, e', k) \<Longrightarrow> I s' \<Longrightarrow> wp (f a) Q (\<lambda>_ _. True) s'"
  shows "wp (andthen (on_env call) f) Q (\<lambda>_ _. True) s"
proof (cases "call (env s)")
  case (fields r w k)
  then show ?thesis
    using assms by (cases r) (auto simp: wp_andthen wp_on_env env_free_def)
qed

lemma wp_reserve_moves:
  assumes "wallet_funds w s = Some f"
  shows "wp (store_reserve_capacity (Some w) a)
    (\<lambda>_ s'. wallet_funds w s' = Some (f(Available := f Available - a, Reserved := f Reserved + a))) (\<lambda>_ _. True) s"
proof -
  have "wp (move_capacity w Available Reserved a)
    (\<lambda>_ s'. wallet_funds w s' = Some (f(Available := f Available - a, Reserved := f Reserved + a))) (\<lambda>_ _. True) s"
    using ledger.move_outcome [OF assms, of Available Reserved a] by (auto simp: wp_def)
  then show ?thesis
    by (simp add: store_reserve_capacity_def reserve_capacity_def wp_andthen wp_require)
qed

lemma wallet_funds_keeps:
  "env_free (\<lambda>s. wallet_funds w s = x)"
  "keeps (\<lambda>s. wallet_funds w s = x) (record_outgoing_tx inp)"
  "keeps (\<lambda>s. wallet_funds w s = x) (mark_committed_now h)"
  by (auto simp: env_free_def wallet_funds_def find_balance_def record_outgoing_tx_def record_tx_def
      mark_committed_now_def mark_outgoing_tx_state_def mark_tx_state_def intro!: keeps_rules keeps_update_txs)

definition all_outputs_reserved ::
  "('w, 'b, 'tx) attach_deps \<Rightarrow> bytes list \<Rightarrow> nat \<Rightarrow> (category \<Rightarrow> int) \<Rightarrow> 'x db_scheme \<Rightarrow> bool" where
  "all_outputs_reserved d cs w f s \<longleftrightarrow> (\<exists>built e e' k amount. ac_build_cells d cs e = (Inr built, e', k) \<and>
     amount = sum_list (ac_outputs d built) \<and> wallet_funds w s = Some (if amount > 0
       then f(Available := f Available - amount, Reserved := f Reserved + amount) else f))"

lemma fresh_chunks_reserves:
  assumes "ac_store d = Some w" and f: "wallet_funds w s = Some f"
  shows "wp (fresh_chunks d pk purpose timeout) (\<lambda>_. all_outputs_reserved d (pk_chunks pk) w f) (\<lambda>_ _. True) s"
proof -
  note keep = wallet_funds_keeps [of w "Some f"]
  have reserve: "wp (andthen (when_do (sum_list (ac_outputs d built) > 0)
       (store_reserve_capacity (Some w) (sum_list (ac_outputs d built)))) (\<lambda>_. ret r))
     (\<lambda>_. all_outputs_reserved d (pk_chunks pk) w f) (\<lambda>_ _. True) t"
    if built: "ac_build_cells d (pk_chunks pk) e = (Inr built, e', k)" and t: "wallet_funds w t = Some f"
    for e built e' k t r
  proof (cases "sum_list (ac_outputs d built) > 0")
    case True
    have "wp (store_reserve_capacity (Some w) (sum_list (ac_outputs d built)))
        (\<lambda>_. all_outputs_reserved d (pk_chunks pk) w f) (\<lambda>_ _. True) t"
      by (rule wp_mono [OF wp_reserve_moves [OF t]]) (use built True in \<open>auto simp: all_outputs_reserved_def\<close>)
    with True show ?thesis by (simp add: wp_andthen wp_when wp_ret)
  next
    case False
    with built t show ?thesis by (auto simp: wp_andthen wp_when wp_ret all_outputs_reserved_def)
  qed
  show ?thesis
    unfolding fresh_chunks_def assms(1) Let_def
    by (rule wp_call_keeps [OF keep(1) f], rule wp_call_keeps [OF keep(1)], assumption,
        simp only: wp_andthen [of now] wp_now,
        rule wp_andthen_keeps [OF keep(2)], assumption,
        rule wp_call_keeps [OF keep(1)], assumption)
      (auto simp: wp_throw intro!: wp_call_keeps [OF keep(1)] wp_andthen_keeps [OF keep(3)]
        wp_andthen_keeps [OF keeps_wait [OF keep(1)]] reserve)
qed

section \<open>Properties\<close>

text \<open>
  Attachments follow the journal rule as well: if every transaction sent so far has a journal
  row, the same holds after publishing chunk cells, and after reclaiming an attachment group, with
  any outcome.
\<close>

theorem attachments_journal_before_sending:
  assumes "honest_attach d txhash sent" and "all_journaled (ac_client d) txhash sent s"
  shows "all_journaled (ac_client d) txhash sent (snd (publish_attachment_chunks d pk timeout s))
    \<and> all_journaled (ac_client d) txhash sent (snd (reclaim_attachment_group d grp outs timeout s))"
  using attachments_keep_journaled [OF assms(1), THEN keepsD, OF assms(2)] by blast

definition sample_attach :: "(string list, string, string) attach_deps" where
  "sample_attach = \<lparr>ac_client = sample_client, ac_store = Some 1,
     ac_build_cells = (\<lambda>_ w. (Inr ''0xcd'', w, 1)), ac_build_reclaim = (\<lambda>_ _ w. (Inr ''0xce'', w, 1)),
     ac_fee = (\<lambda>_. 3), ac_outputs = (\<lambda>_. [200, 100]), ac_sign = (\<lambda>b w. (Inr b, w, 1)),
     ac_hash = (\<lambda>b. b), ac_wire = (\<lambda>b. b)\<rparr>"

lemma sample_attach_honest: "honest_attach sample_attach (\<lambda>tx. tx) set"
  by (auto simp: honest_attach_def logs_sends_def silent_def sample_attach_def sample_client_def)

lemma sample_attach_sends:
  "env (snd (reclaim_attachment_group sample_attach [1] [(''0x9'', 0)] None sample_world)) = [''0xce'']"
  by (simp add: reclaim_attachment_group_def fresh_group_def try_resume_def find_latest_by_prefix_def
      find_latest_by_purpose_prefix_def latest_tx_def sample_attach_def sample_client_def
      sample_world_def empty_db_def prog_defs on_env_def now_def record_outgoing_tx_def record_tx_def
      insert_or_ignore_def find_tx_def attach_tx_input_def new_tx_def demand_def db.defs Let_def)

theorem attachments_journal_before_sending_witness:
  "''0xce'' \<in> tx_hash ` set (db_txs (snd (reclaim_attachment_group sample_attach [1] [(''0x9'', 0)] None
     sample_world)))"
proof -
  have "all_journaled (ac_client sample_attach) (\<lambda>tx. tx) set sample_world"
    by (simp add: all_journaled_def journal_keys_def sample_world_def empty_db_def db.defs)
  then have "all_journaled (ac_client sample_attach) (\<lambda>tx. tx) set
      (snd (reclaim_attachment_group sample_attach [1] [(''0x9'', 0)] None sample_world))"
    using attachments_journal_before_sending [OF sample_attach_honest] by blast
  then show ?thesis by (auto simp: all_journaled_def journal_keys_def sample_attach_sends)
qed

text \<open>
  The capacity of an attachment group is released once: the settlement that wins the commit of
  the journaled reclaim moves the group's reserved capacity to the available one, less the fee,
  and every later settlement of the same transaction, with whatever amounts, releases nothing and
  changes nothing.
\<close>

theorem group_settles_once:
  assumes "table_ok tx_id tx_hash (db_txs s)" and "find_tx h s = Some r" "tx_state r = ''submitted''"
    and "wallet_funds w s = Some f" and "0 < fee" "fee < a" "a \<le> f Reserved" "a < 2 ^ 63"
    and "f Reclaimable = 0"
  shows "\<exists>s'. settle_group (Some w) h n (Some a) (Some fee) resumed s
      = (Inr \<lparr>gr_tx_hash = h, gr_cell_count = n, gr_released = a - fee, gr_resumed = resumed\<rparr>, s')
    \<and> wallet_funds w s' = Some (f(Reserved := f Reserved - a, Available := f Available + (a - fee)))
    \<and> settle_group (Some w) h n' a' fee' True s'
      = (Inr \<lparr>gr_tx_hash = h, gr_cell_count = n', gr_released = 0, gr_resumed = True\<rparr>, s')"
  using assms by (rule group_settles)

theorem group_settles_once_witness:
  "\<exists>s' g. settle_group (Some 1) ''0x1'' 2 (Some 20) (Some 3) False
      (sample_wallet\<lparr>db_txs := [new_tx sample_tx []]\<rparr>)
      = (Inr \<lparr>gr_tx_hash = ''0x1'', gr_cell_count = 2, gr_released = 17, gr_resumed = False\<rparr>, s')
    \<and> wallet_funds 1 s' = Some g \<and> g Reserved = 10 \<and> g Available = 517"
proof -
  let ?s = "sample_wallet\<lparr>db_txs := [new_tx sample_tx []]\<rparr>"
  have "table_ok tx_id tx_hash (db_txs ?s)" "find_tx ''0x1'' ?s = Some (new_tx sample_tx [])"
      "tx_state (new_tx sample_tx []) = ''submitted''"
    by (simp_all add: table_ok_def find_tx_def new_tx_def sample_tx_def)
  from group_settles_once [OF this, of 1, unfolded wallet_funds_other, OF sample_funds, of 3 20 2 False 1 None None]
  show ?thesis by auto
qed

text \<open>
  What a chunk publication reserves: when a fresh publication returns, the wallet has moved the
  capacity of every output of the transaction that was built to the reserved category, hence the
  change output, which is no chunk cell, as well.
\<close>

theorem chunk_send_reserves_all_outputs:
  assumes "fresh_chunks d pk purpose timeout s = (Inr r, s')" and "ac_store d = Some w"
    and "wallet_funds w s = Some f"
  shows "all_outputs_reserved d (pk_chunks pk) w f s'"
  using fresh_chunks_reserves [OF assms(2,3)] assms(1) by (rule wp_result)

text \<open>The same device with a node that reports the transaction committed.\<close>

definition sample_chunk_send :: "(string list, string, string) attach_deps" where
  "sample_chunk_send = sample_attach\<lparr>ac_client := sample_client\<lparr>
     cl_get_transaction := (\<lambda>_ w. (Inr (TxCommitted ''0xb'' ''0x1''), w, 1)),
     cl_send_transaction := (\<lambda>tx w. (Inr tx, tx # w, 1))\<rparr>\<rparr>"

definition chunk_world :: "string list world" where
  "chunk_world = db.extend sample_wallet \<lparr>env = []\<rparr>"

lemma sample_chunk_run:
  "\<exists>s'. fresh_chunks sample_chunk_send sample_sealed ''attachment-chunks:06'' None chunk_world
     = (Inr \<lparr>pc_tx_hash = ''0xcd'', pc_chunk_count = 1, pc_resumed = False\<rparr>, s')"
  by (simp add: fresh_chunks_def sample_chunk_send_def sample_attach_def sample_client_def sample_sealed_def
      wait_for_commit_def poll_commit_def mark_committed_now_def mark_outgoing_tx_state_def mark_tx_state_def
      update_txs_def changes_def record_outgoing_tx_def record_tx_def insert_or_ignore_def find_tx_def
      attach_tx_input_def new_tx_def demand_def store_reserve_capacity_def require_lifecycle_def
      reserve_capacity_def move_capacity_def get_balance_def find_balance_def update_balance_def
      chunk_world_def sample_wallet_def empty_db_def db.defs now_def on_env_def prog_defs Let_def)

theorem chunk_send_reserves_all_outputs_witness:
  "\<exists>s' g. snd (fresh_chunks sample_chunk_send sample_sealed ''attachment-chunks:06'' None chunk_world) = s'
    \<and> wallet_funds 1 s' = Some g \<and> g Reserved = 30 + (200 + 100)"
proof -
  have funds: "wallet_funds 1 chunk_world = Some (\<lambda>c. column c \<lparr>wb_wallet_id = 1, wb_total = 900,
      wb_available = 500, wb_reserved = 30, wb_reclaimable = 0, wb_pending = 0, wb_updated_at = 0\<rparr>)"
    by (simp add: wallet_funds_def find_balance_def chunk_world_def sample_wallet_def db.defs)
  obtain s' where s': "fresh_chunks sample_chunk_send sample_sealed ''attachment-chunks:06'' None chunk_world
     = (Inr \<lparr>pc_tx_hash = ''0xcd'', pc_chunk_count = 1, pc_resumed = False\<rparr>, s')"
    using sample_chunk_run by blast
  from chunk_send_reserves_all_outputs [OF this _ funds]
  have "\<exists>g. wallet_funds 1 s' = Some g \<and> g Reserved = 30 + (200 + 100)"
    by (simp add: all_outputs_reserved_def sample_chunk_send_def sample_attach_def)
  then show ?thesis unfolding s' by simp
qed

end
