(* ===== verification/Cemp_Contacts.thy ===== *)
theory Cemp_Contacts
  imports Cemp_Messages Cemp_Text "HOL-Library.List_Lexorder" "HOL-Library.Char_ord"
begin

text \<open>
  packages/cemp-database/src/repositories/contacts.ts: the contact table. The reads of the code leave
  out the columns of the row they do not need; here they return the row. The unique column
  \<open>profile_id_hex\<close> admits any number of rows without a profile id.
\<close>

section \<open>Operations\<close>

record contact_input =
  nc_display_name :: string
  nc_notes :: "string option"
  nc_avatar :: "bytes option"
  nc_profile_id :: "string option"

definition find_contact :: "nat \<Rightarrow> 'x db_scheme \<Rightarrow> contact option" where
  "find_contact i s = List.find (\<lambda>c. ct_id c = i) (db_contacts s)"

definition find_contact_by_profile :: "string \<Rightarrow> 'x db_scheme \<Rightarrow> contact option" where
  "find_contact_by_profile p s = List.find (\<lambda>c. ct_profile_id c = Some p) (db_contacts s)"

text \<open>The unique constraint: no other row has the same profile id.\<close>

definition profile_id_free :: "(contact \<Rightarrow> bool) \<Rightarrow> string option \<Rightarrow> contact list \<Rightarrow> bool" where
  "profile_id_free other p rows \<longleftrightarrow> p = None \<or> \<not> list_ex (\<lambda>c. other c \<and> ct_profile_id c = p) rows"

definition new_contact :: "contact_input \<Rightarrow> int \<Rightarrow> contact list \<Rightarrow> contact" where
  "new_contact inp t rows =
     \<lparr>ct_id = next_id ct_id rows, ct_display_name = nc_display_name inp,
      ct_notes = (case nc_notes inp of None \<Rightarrow> [] | Some n \<Rightarrow> n), ct_avatar = nc_avatar inp,
      ct_profile_id = nc_profile_id inp, ct_type_id = None, ct_ml_dsa_key = None, ct_ml_kem_key = None,
      ct_fingerprint = None, ct_trust_verdict = None, ct_blocked = False, ct_created_at = t, ct_updated_at = t\<rparr>"

definition create_contact :: "contact_input \<Rightarrow> ('x db_scheme, failure, contact) prog" where
  "create_contact inp = andthen now (\<lambda>t. catching
     (andthen (asks (\<lambda>s. profile_id_free (\<lambda>_. True) (nc_profile_id inp) (db_contacts s))) (\<lambda>free.
      if \<not> free then throw SqlError else
      andthen (asks (\<lambda>s. new_contact inp t (db_contacts s))) (\<lambda>c.
      andthen (modify (\<lambda>s. s\<lparr>db_contacts := db_contacts s @ [c]\<rparr>)) (\<lambda>_. ret c))))
     (\<lambda>_. throw (Db ConstraintViolation)))"

definition get_contact :: "nat \<Rightarrow> ('x db_scheme, failure, contact option) prog" where
  "get_contact i = asks (find_contact i)"

definition get_contact_by_profile :: "string \<Rightarrow> ('x db_scheme, failure, contact option) prog" where
  "get_contact_by_profile p = asks (find_contact_by_profile p)"

text \<open>\<open>ORDER BY display_name COLLATE NOCASE\<close>, and \<open>LIKE '%q%'\<close> with the wildcards of \<open>q\<close> escaped.\<close>

definition by_name :: "contact list \<Rightarrow> contact list" where
  "by_name = sort_key (\<lambda>c. map ascii_lower (ct_display_name c))"

definition search_contacts :: "string \<Rightarrow> ('x db_scheme, failure, contact list) prog" where
  "search_contacts q = asks (\<lambda>s. by_name (filter
     (\<lambda>c. contains (map ascii_lower q) (map ascii_lower (ct_display_name c))) (db_contacts s)))"

definition list_contacts :: "('x db_scheme, failure, contact list) prog" where
  "list_contacts = asks (\<lambda>s. by_name (db_contacts s))"

record contact_patch =
  cp_display_name :: "string option"
  cp_notes :: "string option"
  cp_profile_id :: "string option option"

definition patched :: "contact_patch \<Rightarrow> int \<Rightarrow> contact \<Rightarrow> contact" where
  "patched patch t c = c\<lparr>
     ct_display_name := (case cp_display_name patch of None \<Rightarrow> ct_display_name c | Some n \<Rightarrow> n),
     ct_notes := (case cp_notes patch of None \<Rightarrow> ct_notes c | Some n \<Rightarrow> n),
     ct_profile_id := (case cp_profile_id patch of None \<Rightarrow> ct_profile_id c | Some p \<Rightarrow> p),
     ct_updated_at := t\<rparr>"

definition update_contact_row ::
  "nat \<Rightarrow> (contact \<Rightarrow> contact) \<Rightarrow> ('x db_scheme, failure, unit) prog" where
  "update_contact_row i f =
     modify (\<lambda>s. s\<lparr>db_contacts := update_where (\<lambda>c. ct_id c = i) f (db_contacts s)\<rparr>)"

definition update_contact :: "nat \<Rightarrow> contact_patch \<Rightarrow> ('x db_scheme, failure, contact) prog" where
  "update_contact i patch =
     andthen (demand (Db NotFound) (find_contact i)) (\<lambda>existing.
     andthen now (\<lambda>t.
     let c = patched patch t existing in
     andthen (catching
       (andthen (asks (\<lambda>s. profile_id_free (\<lambda>r. ct_id r \<noteq> i) (ct_profile_id c) (db_contacts s))) (\<lambda>free.
        if \<not> free then throw SqlError
        else update_contact_row i (\<lambda>r. r\<lparr>ct_display_name := ct_display_name c, ct_notes := ct_notes c,
          ct_profile_id := ct_profile_id c, ct_updated_at := t\<rparr>)))
       (\<lambda>_. throw (Db ConstraintViolation))) (\<lambda>_. ret c)))"

text \<open>An update of one contact that fails when there is none.\<close>

definition patch_contact :: "nat \<Rightarrow> (int \<Rightarrow> contact \<Rightarrow> contact) \<Rightarrow> ('x db_scheme, failure, unit) prog" where
  "patch_contact i f = andthen now (\<lambda>t.
     andthen (asks (\<lambda>s. changes (\<lambda>c. ct_id c = i) (db_contacts s))) (\<lambda>n.
     andthen (update_contact_row i (f t)) (\<lambda>_. when_do (n = 0) (throw (Db NotFound)))))"

definition set_avatar :: "nat \<Rightarrow> bytes option \<Rightarrow> ('x db_scheme, failure, unit) prog" where
  "set_avatar i a = patch_contact i (\<lambda>t c. c\<lparr>ct_avatar := a, ct_updated_at := t\<rparr>)"

text \<open>A contact with a conversation is not deleted where foreign keys are enforced.\<close>

definition remove_contact :: "nat \<Rightarrow> ('x db_scheme, failure, unit) prog" where
  "remove_contact i =
     andthen (asks (\<lambda>s. changes (\<lambda>c. ct_id c = i) (db_contacts s))) (\<lambda>n.
     andthen (references (\<lambda>s. n = 0 \<or> \<not> list_ex (\<lambda>c. cv_contact_id c = i) (db_conversations s))) (\<lambda>_.
     andthen (modify (\<lambda>s. s\<lparr>db_contacts := filter (\<lambda>c. ct_id c \<noteq> i) (db_contacts s)\<rparr>)) (\<lambda>_.
     when_do (n = 0) (throw (Db NotFound)))))"

definition set_blocked :: "nat \<Rightarrow> bool \<Rightarrow> ('x db_scheme, failure, unit) prog" where
  "set_blocked i b = patch_contact i (\<lambda>t c. c\<lparr>ct_blocked := b, ct_updated_at := t\<rparr>)"

definition is_blocked :: "nat \<Rightarrow> ('x db_scheme, failure, bool) prog" where
  "is_blocked i = andthen (demand (Db NotFound) (find_contact i)) (\<lambda>c. ret (ct_blocked c))"

definition is_blocked_by_profile :: "string \<Rightarrow> ('x db_scheme, failure, bool) prog" where
  "is_blocked_by_profile p = asks (\<lambda>s. case find_contact_by_profile p s of
     None \<Rightarrow> False | Some c \<Rightarrow> ct_blocked c)"

definition report_contact :: "nat \<Rightarrow> string \<Rightarrow> ('x db_scheme, failure, unit) prog" where
  "report_contact i reason =
     andthen (demand (Db NotFound) (find_contact i)) (\<lambda>_. andthen now (\<lambda>t.
     modify (\<lambda>s. s\<lparr>db_security_events := db_security_events s @
       [\<lparr>se_id = next_id se_id (db_security_events s), se_kind = ''contact_reported'',
         se_detail = take 256 reason, se_created_at = t\<rparr>]\<rparr>)))"

record profile_security =
  ps_type_id :: string
  ps_ml_dsa_key :: bytes
  ps_ml_kem_key :: bytes
  ps_fingerprint :: string
  ps_trust_verdict :: string

definition set_profile_security :: "nat \<Rightarrow> profile_security \<Rightarrow> ('x db_scheme, failure, unit) prog" where
  "set_profile_security i sec = patch_contact i (\<lambda>t c. c\<lparr>ct_type_id := Some (ps_type_id sec),
     ct_ml_dsa_key := Some (ps_ml_dsa_key sec), ct_ml_kem_key := Some (ps_ml_kem_key sec),
     ct_fingerprint := Some (ps_fingerprint sec), ct_trust_verdict := Some (ps_trust_verdict sec),
     ct_updated_at := t\<rparr>)"

record contact_security =
  cs_type_id :: "string option"
  cs_ml_dsa_key :: "bytes option"
  cs_ml_kem_key :: "bytes option"
  cs_fingerprint :: "string option"
  cs_trust_verdict :: "string option"

definition get_profile_security :: "nat \<Rightarrow> ('x db_scheme, failure, contact_security option) prog" where
  "get_profile_security i = asks (\<lambda>s. map_option (\<lambda>c.
     \<lparr>cs_type_id = ct_type_id c, cs_ml_dsa_key = ct_ml_dsa_key c, cs_ml_kem_key = ct_ml_kem_key c,
      cs_fingerprint = ct_fingerprint c, cs_trust_verdict = ct_trust_verdict c\<rparr>) (find_contact i s))"

section \<open>Invariants\<close>

definition contacts_ok :: "contact list \<Rightarrow> bool" where
  "contacts_ok rows \<longleftrightarrow> sorted_wrt (<) (map ct_id rows) \<and>
     (\<forall>x \<in> set rows. \<forall>y \<in> set rows. ct_profile_id x \<noteq> None \<longrightarrow> ct_profile_id x = ct_profile_id y \<longrightarrow> x = y)"

lemma contacts_ok_ids: "contacts_ok rows \<Longrightarrow> x \<in> set rows \<Longrightarrow> y \<in> set rows \<Longrightarrow> ct_id x = ct_id y \<Longrightarrow> x = y"
  by (auto simp: contacts_ok_def strict_sorted_iff distinct_map inj_on_def)

lemma find_contact_ok:
  "contacts_ok (db_contacts s) \<Longrightarrow> find_contact i s = Some c \<longleftrightarrow> c \<in> set (db_contacts s) \<and> ct_id c = i"
  by (simp add: find_contact_def contacts_ok_def strict_sorted_iff find_key)

lemma find_by_profile_ok:
  assumes "contacts_ok (db_contacts s)"
  shows "find_contact_by_profile p s = Some c \<longleftrightarrow> c \<in> set (db_contacts s) \<and> ct_profile_id c = Some p"
proof
  assume c: "c \<in> set (db_contacts s) \<and> ct_profile_id c = Some p"
  then obtain d where d: "find_contact_by_profile p s = Some d"
    by (cases "find_contact_by_profile p s") (auto simp: find_contact_by_profile_def find_None_iff)
  then have "d \<in> set (db_contacts s)" "ct_profile_id d = Some p"
    by (auto simp: find_contact_by_profile_def dest: find_some_mem)
  then have "d = c" using c assms unfolding contacts_ok_def by (metis option.distinct(1))
  with d show "find_contact_by_profile p s = Some c" by simp
qed (auto simp: find_contact_by_profile_def dest: find_some_mem)

lemma contacts_ok_append:
  assumes "contacts_ok rows" and "profile_id_free (\<lambda>_. True) (nc_profile_id inp) rows"
  shows "contacts_ok (rows @ [new_contact inp t rows])"
proof -
  let ?n = "new_contact inp t rows"
  have sorted: "sorted_wrt (<) (map ct_id (rows @ [?n]))"
    using assms(1) next_id_greater [of _ rows ct_id]
    by (auto simp: contacts_ok_def sorted_wrt_append new_contact_def)
  have old: "x = y" if "x \<in> set rows" "y \<in> set rows" "ct_profile_id x \<noteq> None" "ct_profile_id x = ct_profile_id y" for x y
    using assms(1) that unfolding contacts_ok_def by blast
  have new: "ct_profile_id ?n = None \<or> ct_profile_id x \<noteq> ct_profile_id ?n" if "x \<in> set rows" for x
    using assms(2) that by (auto simp: profile_id_free_def list_ex_iff new_contact_def)
  show ?thesis
    unfolding contacts_ok_def
  proof (intro conjI sorted ballI impI)
    fix x y assume "x \<in> set (rows @ [?n])" "y \<in> set (rows @ [?n])" "ct_profile_id x \<noteq> None"
      "ct_profile_id x = ct_profile_id y"
    then show "x = y" using old new [of x] new [of y] by (cases "x \<in> set rows"; cases "y \<in> set rows") auto
  qed
qed

lemma contacts_ok_update:
  assumes ok: "contacts_ok rows" and ids: "\<And>c. ct_id (f c) = ct_id c"
    and free: "\<And>c. c \<in> set rows \<Longrightarrow> ct_id c = i \<Longrightarrow> profile_id_free (\<lambda>r. ct_id r \<noteq> i) (ct_profile_id (f c)) rows"
  shows "contacts_ok (update_where (\<lambda>c. ct_id c = i) f rows)"
  unfolding contacts_ok_def
proof (intro conjI ballI impI)
  show "sorted_wrt (<) (map ct_id (update_where (\<lambda>c. ct_id c = i) f rows))"
    using ok ids by (simp add: map_update_where contacts_ok_def)
next
  fix x y assume x: "x \<in> set (update_where (\<lambda>c. ct_id c = i) f rows)"
    and y: "y \<in> set (update_where (\<lambda>c. ct_id c = i) f rows)"
    and some: "ct_profile_id x \<noteq> None" and eq: "ct_profile_id x = ct_profile_id y"
  obtain a where a: "a \<in> set rows" "x = (if ct_id a = i then f a else a)" using x by (auto simp: set_update_where)
  obtain b where b: "b \<in> set rows" "y = (if ct_id b = i then f b else b)" using y by (auto simp: set_update_where)
  show "x = y"
  proof (cases "ct_id a = i \<longleftrightarrow> ct_id b = i")
    case True
    then show ?thesis
      using a b some eq ok contacts_ok_ids [OF ok a(1) b(1)]
      by (auto simp: contacts_ok_def split: if_splits)
  next
    case False
    then show ?thesis
      using a b some eq free [OF a(1)] free [OF b(1)] by (auto simp: profile_id_free_def list_ex_iff split: if_splits)
  qed
qed

lemma contacts_ok_filter: "contacts_ok rows \<Longrightarrow> contacts_ok (filter p rows)"
  by (auto simp: contacts_ok_def sorted_wrt_map sorted_wrt_filter)

text \<open>An update that leaves the profile id alone needs no check.\<close>

lemma profile_id_free_self:
  "contacts_ok rows \<Longrightarrow> c \<in> set rows \<Longrightarrow> ct_id c = i \<Longrightarrow> profile_id_free (\<lambda>r. ct_id r \<noteq> i) (ct_profile_id c) rows"
  by (auto simp: profile_id_free_def contacts_ok_def list_ex_iff)

lemma contacts_ok_update_same:
  assumes "contacts_ok rows" and "\<And>c. ct_id (f c) = ct_id c" and "\<And>c. ct_profile_id (f c) = ct_profile_id c"
  shows "contacts_ok (update_where (\<lambda>c. ct_id c = i) f rows)"
  using assms profile_id_free_self [OF assms(1)] by (intro contacts_ok_update) auto

section \<open>Sequences of operations\<close>

datatype contact_op =
    CreateContact contact_input
  | UpdateContact nat contact_patch
  | SetAvatar nat "bytes option"
  | RemoveContact nat
  | SetBlocked nat bool
  | ReportContact nat string
  | SetSecurity nat profile_security

fun run_contact_op :: "contact_op \<Rightarrow> 'x db_scheme \<Rightarrow> 'x db_scheme" where
  "run_contact_op (CreateContact inp) s = snd (create_contact inp s)"
| "run_contact_op (UpdateContact i patch) s = snd (update_contact i patch s)"
| "run_contact_op (SetAvatar i a) s = snd (set_avatar i a s)"
| "run_contact_op (RemoveContact i) s = snd (remove_contact i s)"
| "run_contact_op (SetBlocked i b) s = snd (set_blocked i b s)"
| "run_contact_op (ReportContact i r) s = snd (report_contact i r s)"
| "run_contact_op (SetSecurity i sec) s = snd (set_profile_security i sec s)"

text \<open>The operations of the user that may lift the block of contact \<open>i\<close>: unblocking or removing it,
  or giving it another profile id.\<close>

fun lifts_block :: "nat \<Rightarrow> contact_op \<Rightarrow> bool" where
  "lifts_block i (SetBlocked j b) \<longleftrightarrow> i = j \<and> \<not> b"
| "lifts_block i (RemoveContact j) \<longleftrightarrow> i = j"
| "lifts_block i (UpdateContact j patch) \<longleftrightarrow> i = j \<and> cp_profile_id patch \<noteq> None"
| "lifts_block i _ \<longleftrightarrow> False"

definition block_stands :: "nat \<Rightarrow> string \<Rightarrow> 'x db_scheme \<Rightarrow> bool" where
  "block_stands i p s \<longleftrightarrow> contacts_ok (db_contacts s) \<and>
     (\<exists>c \<in> set (db_contacts s). ct_id c = i \<and> ct_profile_id c = Some p \<and> ct_blocked c)"

lemma wp_update_contact_row [wp_rules]: "wp (update_contact_row i f) Q E s
    = Q () (s\<lparr>db_contacts := update_where (\<lambda>c. ct_id c = i) f (db_contacts s)\<rparr>)"
  by (simp add: update_contact_row_def wp_rules)

lemma block_stands_update:
  assumes "block_stands i p s" and "contacts_ok (update_where (\<lambda>c. ct_id c = j) f (db_contacts s))"
    and "\<And>c. ct_id (f c) = ct_id c"
    and "\<And>c. i = j \<Longrightarrow> ct_blocked c \<Longrightarrow> ct_blocked (f c)"
    and "\<And>c. c \<in> set (db_contacts s) \<Longrightarrow> i = j \<Longrightarrow> ct_id c = i \<Longrightarrow> ct_profile_id (f c) = ct_profile_id c"
  shows "block_stands i p (s\<lparr>db_contacts := update_where (\<lambda>c. ct_id c = j) f (db_contacts s)\<rparr>)"
proof -
  obtain c where c: "c \<in> set (db_contacts s)" "ct_id c = i" "ct_profile_id c = Some p" "ct_blocked c"
    using assms(1) by (auto simp: block_stands_def)
  let ?c = "if ct_id c = j then f c else c"
  have "?c \<in> set (update_where (\<lambda>c. ct_id c = j) f (db_contacts s))"
    using c(1) unfolding set_update_where by blast
  moreover have "ct_id ?c = i \<and> ct_profile_id ?c = Some p \<and> ct_blocked ?c"
    using c assms(3-5) by auto
  ultimately show ?thesis using assms(2) unfolding block_stands_def by auto
qed

lemma patch_keeps_contacts:
  assumes "\<And>t c. ct_id (f t c) = ct_id c" and "\<And>t c. ct_profile_id (f t c) = ct_profile_id c"
  shows "keeps (\<lambda>s. contacts_ok (db_contacts s)) (patch_contact i f)"
  using assms by (auto simp: patch_contact_def update_contact_row_def intro!: keeps_rules contacts_ok_update_same)

lemma patch_keeps_block:
  assumes "\<And>t c. ct_id (f t c) = ct_id c" and "\<And>t c. ct_profile_id (f t c) = ct_profile_id c"
    and "\<And>t c. i = j \<Longrightarrow> ct_blocked c \<Longrightarrow> ct_blocked (f t c)"
  shows "keeps (block_stands i p) (patch_contact j f)"
proof -
  have "contacts_ok (db_contacts s)" if "block_stands i p s" for s :: "'a db_scheme"
    using that by (simp add: block_stands_def)
  then show ?thesis
    using assms by (auto simp: patch_contact_def update_contact_row_def
        intro!: keeps_rules block_stands_update contacts_ok_update_same)
qed

lemma create_keeps_contacts: "keeps (\<lambda>s. contacts_ok (db_contacts s)) (create_contact inp)"
  by (rule keepsI) (auto simp: create_contact_def wp_rules contacts_ok_append)

lemma create_keeps_block: "keeps (block_stands i p) (create_contact inp)"
  by (rule keepsI) (auto simp: create_contact_def wp_rules contacts_ok_append block_stands_def)

abbreviation write_back :: "contact \<Rightarrow> int \<Rightarrow> contact \<Rightarrow> contact" where
  "write_back c t r \<equiv> r\<lparr>ct_display_name := ct_display_name c, ct_notes := ct_notes c,
     ct_profile_id := ct_profile_id c, ct_updated_at := t\<rparr>"

lemma write_back_keeps_contacts:
  assumes "contacts_ok rows" and "profile_id_free (\<lambda>r. ct_id r \<noteq> i) (ct_profile_id c) rows"
  shows "contacts_ok (update_where (\<lambda>r. ct_id r = i) (write_back c t) rows)"
  using assms by (intro contacts_ok_update) auto

lemma update_keeps_contacts: "keeps (\<lambda>s. contacts_ok (db_contacts s)) (update_contact i patch)"
  by (rule keepsI) (auto simp: update_contact_def Let_def wp_rules write_back_keeps_contacts split: option.splits)

lemma write_back_keeps_block:
  assumes "block_stands i p s" and "find_contact j s = Some e" and "\<not> lifts_block i (UpdateContact j patch)"
    and "profile_id_free (\<lambda>r. ct_id r \<noteq> j) (ct_profile_id (patched patch t e)) (db_contacts s)"
  shows "block_stands i p (s\<lparr>db_contacts := update_where (\<lambda>c. ct_id c = j)
     (write_back (patched patch t e) t) (db_contacts s)\<rparr>)"
proof (rule block_stands_update)
  have ok: "contacts_ok (db_contacts s)" using assms(1) by (simp add: block_stands_def)
  then show "contacts_ok (update_where (\<lambda>c. ct_id c = j) (write_back (patched patch t e) t) (db_contacts s))"
    using assms(4) by (rule write_back_keeps_contacts)
  fix c assume c: "c \<in> set (db_contacts s)" "i = j" "ct_id c = i"
  then have "find_contact j s = Some c" using find_contact_ok [OF ok] by simp
  then have "e = c" using assms(2) by simp
  with c assms(3) show "ct_profile_id (write_back (patched patch t e) t c) = ct_profile_id c"
    by (simp add: patched_def)
qed (use assms(1) in simp_all)

lemma update_keeps_block:
  assumes "\<not> lifts_block i (UpdateContact j patch)"
  shows "keeps (block_stands i p) (update_contact j patch)"
  by (rule keepsI) (simp add: update_contact_def Let_def wp_rules write_back_keeps_block [OF _ _ assms]
      split: option.splits)

lemma remove_keeps_contacts: "keeps (\<lambda>s. contacts_ok (db_contacts s)) (remove_contact i)"
  by (auto simp: remove_contact_def intro!: keeps_rules contacts_ok_filter)

lemma remove_keeps_block: "i \<noteq> j \<Longrightarrow> keeps (block_stands i p) (remove_contact j)"
  by (auto simp: remove_contact_def block_stands_def intro!: keeps_rules contacts_ok_filter)

lemma report_keeps: "keeps (\<lambda>s. P (db_contacts s)) (report_contact i r)"
  by (auto simp: report_contact_def intro!: keeps_rules)

lemma run_contact_op_ok:
  "contacts_ok (db_contacts s) \<Longrightarrow> contacts_ok (db_contacts (run_contact_op op s))"
  by (cases op) (auto simp: set_avatar_def set_blocked_def set_profile_security_def
      intro: create_keeps_contacts [THEN keepsD] update_keeps_contacts [THEN keepsD]
        patch_keeps_contacts [THEN keepsD, rotated 2] remove_keeps_contacts [THEN keepsD]
        report_keeps [of contacts_ok, THEN keepsD])

lemma run_contact_ops_ok:
  "contacts_ok (db_contacts s) \<Longrightarrow> contacts_ok (db_contacts (fold run_contact_op ops s))"
  by (induction ops arbitrary: s) (simp_all add: run_contact_op_ok)

lemma contacts_ok_empty [simp]: "contacts_ok (db_contacts empty_db)"
  by (simp add: contacts_ok_def empty_db_def)

lemma run_contact_op_block:
  assumes "\<not> lifts_block i op" and "block_stands i p s"
  shows "block_stands i p (run_contact_op op s)"
proof (cases op)
  case (ReportContact j r)
  have "keeps (block_stands i p) (report_contact j r)"
    using report_keeps [of "\<lambda>rows. contacts_ok rows \<and> (\<exists>c \<in> set rows. ct_id c = i \<and> ct_profile_id c = Some p
      \<and> ct_blocked c)" j r] by (simp add: block_stands_def [abs_def])
  from keepsD [OF this assms(2)] ReportContact show ?thesis by simp
qed (use assms in \<open>auto simp: set_avatar_def set_blocked_def set_profile_security_def
      intro!: keepsD [where I = "block_stands i p" and s = s] create_keeps_block update_keeps_block patch_keeps_block remove_keeps_block\<close>)

section \<open>Properties\<close>

text \<open>
  No two contacts ever share a profile id: after any sequence of repository calls the rows are in
  rowid order and a profile id belongs to at most one of them.
\<close>

theorem contacts_stay_distinct:
  "contacts_ok (db_contacts (fold run_contact_op ops empty_db))"
  by (rule run_contact_ops_ok) simp

text \<open>
  A block stands until the user lifts it: while a blocked contact is not unblocked, removed or
  given another profile id, no sequence of other operations makes messages of its profile pass the
  block check of the incoming pipeline.
\<close>

theorem block_stands_until_lifted:
  assumes "s = fold run_contact_op before empty_db"
    and "find_contact i s = Some c" and "ct_profile_id c = Some p" and "ct_blocked c"
    and "list_all (\<lambda>op. \<not> lifts_block i op) ops"
  shows "is_blocked_by_profile p (fold run_contact_op ops s) = (Inr True, fold run_contact_op ops s)"
proof -
  have "block_stands i p s"
    using assms(2-4) find_some_mem run_contact_ops_ok [of empty_db before, simplified] unfolding assms(1)
    by (fastforce simp: block_stands_def find_contact_def)
  then have "block_stands i p (fold run_contact_op ops s)"
    using assms(5) by (induction ops arbitrary: s) (auto simp: run_contact_op_block)
  then obtain d where "contacts_ok (db_contacts (fold run_contact_op ops s))"
    "d \<in> set (db_contacts (fold run_contact_op ops s))" "ct_profile_id d = Some p" "ct_blocked d"
    by (auto simp: block_stands_def)
  then have "find_contact_by_profile p (fold run_contact_op ops s) = Some d"
    by (simp add: find_by_profile_ok)
  with \<open>ct_blocked d\<close> show ?thesis by (simp add: is_blocked_by_profile_def prog_defs)
qed

text \<open>A blocked contact, and an attempt to get around the block with a second contact.\<close>

definition sample_contact :: "string \<Rightarrow> contact_input" where
  "sample_contact name = \<lparr>nc_display_name = name, nc_notes = None, nc_avatar = None, nc_profile_id = Some ''ab''\<rparr>"

theorem block_stands_witness:
  "let s = fold run_contact_op [CreateContact (sample_contact ''mallory''), SetBlocked 1 True] empty_db;
       t = fold run_contact_op [CreateContact (sample_contact ''m2''), SetAvatar 1 None] s
   in is_blocked_by_profile ''ab'' t = (Inr True, t)"
proof -
  let ?s = "fold run_contact_op [CreateContact (sample_contact ''mallory''), SetBlocked 1 True] empty_db"
  obtain c where c: "find_contact 1 ?s = Some c" "ct_profile_id c = Some ''ab''" "ct_blocked c"
    by (simp add: find_contact_def create_contact_def set_blocked_def patch_contact_def update_contact_row_def
        profile_id_free_def new_contact_def sample_contact_def now_def next_id_def changes_def update_where_def
        empty_db_def prog_defs)
  have "list_all (\<lambda>op. \<not> lifts_block 1 op) [CreateContact (sample_contact ''m2''), SetAvatar 1 None]" by simp
  from block_stands_until_lifted [OF refl c this] show ?thesis unfolding Let_def .
qed

end
