(* ===== verification/Cemp_Lora.thy ===== *)
theory Cemp_Lora
  imports Cemp_Envelope Cemp_Utf8 Cemp_Monitor "HOL-Library.List_Lexorder" "HOL-Library.Char_ord"
begin

text \<open>
  packages/cemp-lora: the checksum (crc32.ts) and the polling transport (transport.ts) of the LoRa
  gateway.

  The HTTP client is an argument: a function of the environment from an URL to a response or a
  failure. A JSON body is a value of \<open>json\<close>; a number is a rational, or \<open>None\<close> when it overflows to
  an infinity, and an object is the map of its last-wins fields.
\<close>

unbundle bit_operations_syntax

section \<open>crc32.ts\<close>

definition crc_step :: "32 word \<Rightarrow> 32 word" where
  "crc_step c = (if c AND 1 \<noteq> 0 then 0xedb88320 XOR drop_bit 1 c else drop_bit 1 c)"

definition crc32_table :: "32 word list" where
  "crc32_table = map (\<lambda>n. (crc_step ^^ 8) (word_of_nat n)) [0..<256]"

definition crc_update :: "32 word \<Rightarrow> byte \<Rightarrow> 32 word" where
  "crc_update crc b = crc32_table ! unat ((crc XOR ucast b) AND 0xff) XOR drop_bit 8 crc"

definition crc32 :: "bytes \<Rightarrow> 32 word" where
  "crc32 bs = foldl crc_update 0xffffffff bs XOR 0xffffffff"

text \<open>The reference: the register of the division shifts one bit at a time.\<close>

definition crc32_bitwise :: "bytes \<Rightarrow> 32 word" where
  "crc32_bitwise bs = foldl (\<lambda>crc b. (crc_step ^^ 8) (crc XOR ucast b)) 0xffffffff bs XOR 0xffffffff"

section \<open>transport.ts\<close>

datatype json =
    JNull
  | JBool bool
  | JNum "rat option"
  | JStr string
  | JArr "json list"
  | JObj "string \<Rightarrow> json option"

record lora_object =
  lo_id :: string
  lo_cell_data :: bytes
  lo_crc :: "32 word"
  lo_received_at :: rat

record lora_page =
  lp_objects :: "json list"
  lp_cursor :: string

record lora_result =
  lr_objects :: "lora_object list"
  lr_cursor :: "string option"

record http_response =
  hr_status :: nat
  hr_body :: "json option"

record 'w lora_transport =
  lt_base_url :: string
  lt_route_tags :: "bytes list"
  lt_fetch :: "string \<Rightarrow> ('w, http_response) env_call"
  lt_max_objects :: nat

definition lora_error :: "string \<Rightarrow> failure" where
  "lora_error m = OtherError (''lora: '' @ m)"

definition new_lora_transport ::
  "string \<Rightarrow> bytes list \<Rightarrow> (string \<Rightarrow> ('w, http_response) env_call) option \<Rightarrow> nat option \<Rightarrow>
     failure + 'w lora_transport" where
  "new_lora_transport url tags fetch cap =
     (let base = rev (dropWhile (\<lambda>c. c = CHR ''/'') (rev url)) in
      if base = [] then Inl (lora_error ''baseUrl must not be empty'')
      else case fetch of
        None \<Rightarrow> Inl (lora_error ''no fetch implementation available'')
      | Some f \<Rightarrow>
          if list_ex (\<lambda>t. length t \<noteq> 32) tags then Inl (lora_error ''route tags must be 32 bytes'')
          else Inr \<lparr>lt_base_url = base, lt_route_tags = tags, lt_fetch = f,
                 lt_max_objects = (case cap of None \<Rightarrow> 64 | Some n \<Rightarrow> n)\<rparr>)"

definition parse_objects_response :: "json \<Rightarrow> failure + lora_page" where
  "parse_objects_response body = (case body of
       JObj obj \<Rightarrow> (case obj ''objects'' of
           Some (JArr objects) \<Rightarrow> (case obj ''cursor'' of
               Some (JStr cursor) \<Rightarrow> Inr \<lparr>lp_objects = objects, lp_cursor = cursor\<rparr>
             | _ \<Rightarrow> Inl (lora_error ''response has no string cursor''))
         | _ \<Rightarrow> Inl (lora_error ''response has no objects array''))
     | JArr _ \<Rightarrow> Inl (lora_error ''response has no objects array'')
     | _ \<Rightarrow> Inl (lora_error ''non-object body''))"

text \<open>A JSON number that is an integer between 0 and \<open>0xffffffff\<close>.\<close>

definition crc_number :: "rat \<Rightarrow> 32 word option" where
  "crc_number x = (if x = of_int \<lfloor>x\<rfloor> \<and> 0 \<le> x \<and> x \<le> 0xffffffff then Some (word_of_int \<lfloor>x\<rfloor>) else None)"

definition sanitize_object :: "cemp_envelope_v1 mol_codec \<Rightarrow> json \<Rightarrow> lora_object option" where
  "sanitize_object codec entry = (case entry of
       JObj obj \<Rightarrow>
         (case obj ''id'' of Some (JStr i) \<Rightarrow>
           if length i \<noteq> 32 \<or> \<not> list_all is_hex i then None else
         (case obj ''bytes_hex'' of Some (JStr hex) \<Rightarrow>
         (case lora_hex_to_bytes hex of None \<Rightarrow> None | Some cell_data \<Rightarrow>
           if length cell_data > max_envelope_bytes V1_LIMITS then None else
         (case obj ''crc32'' of Some (JNum (Some x)) \<Rightarrow>
         (case crc_number x of None \<Rightarrow> None | Some crc \<Rightarrow>
         (case obj ''received_at'' of Some (JNum (Some received)) \<Rightarrow>
           if crc32 cell_data \<noteq> crc then None
           else if validate_envelope codec cell_data \<noteq> Ok then None
           else Some \<lparr>lo_id = map ascii_lower i, lo_cell_data = cell_data, lo_crc = crc,
                  lo_received_at = received\<rparr>
         | _ \<Rightarrow> None)) | _ \<Rightarrow> None)) | _ \<Rightarrow> None) | _ \<Rightarrow> None)
     | _ \<Rightarrow> None)"

text \<open>\<open>encodeURIComponent\<close>.\<close>

definition unreserved :: "char \<Rightarrow> bool" where
  "unreserved c \<longleftrightarrow> (let n = of_char c :: nat in
     48 \<le> n \<and> n \<le> 57 \<or> 65 \<le> n \<and> n \<le> 90 \<or> 97 \<le> n \<and> n \<le> 122) \<or> c \<in> set ''-_.!~*()'' \<or> c = CHR 0x27"

definition percent_byte :: "byte \<Rightarrow> string" where
  "percent_byte b = CHR 0x25 # map (\<lambda>n. (''0123456789ABCDEF'' :: string) ! n) [unat b div 16, unat b mod 16]"

definition encode_uri_component :: "string \<Rightarrow> string" where
  "encode_uri_component t =
     concat (map (\<lambda>c. if unreserved c then [c] else concat (map percent_byte (utf8_encode [of_char c]))) t)"

definition objects_path :: "string option \<Rightarrow> bytes \<Rightarrow> string" where
  "objects_path since tag = ''/cemp/objects?route='' @ bytes_to_hex tag
     @ (case since of None \<Rightarrow> [] | Some c \<Rightarrow> ''&since='' @ encode_uri_component c)"

definition fetch_raw :: "'w lora_transport \<Rightarrow> string \<Rightarrow> ('w world, failure, http_response) prog" where
  "fetch_raw T path = catching (on_env (lt_fetch T (lt_base_url T @ path)))
     (\<lambda>e. throw (lora_error (''request to '' @ path @ '' failed: '' @ error_message e)))"

definition response_ok :: "http_response \<Rightarrow> bool" where
  "response_ok r \<longleftrightarrow> 200 \<le> hr_status r \<and> hr_status r \<le> 299"

definition fetch_json :: "'w lora_transport \<Rightarrow> string \<Rightarrow> ('w world, failure, json) prog" where
  "fetch_json T path = andthen (fetch_raw T path) (\<lambda>r.
     if \<not> response_ok r then throw (lora_error ''gateway returned an error status'')
     else case hr_body r of None \<Rightarrow> throw (lora_error ''gateway returned a non-JSON body'') | Some b \<Rightarrow> ret b)"

definition lora_health :: "'w lora_transport \<Rightarrow> ('w world, failure, bool) prog" where
  "lora_health T = catching (andthen (fetch_raw T ''/cemp/health'') (\<lambda>r. ret (response_ok r))) (\<lambda>_. ret False)"

text \<open>\<open>objects\<close> are the values of the \<open>Map\<close> in insertion order.\<close>

definition add_object ::
  "cemp_envelope_v1 mol_codec \<Rightarrow> nat \<Rightarrow> lora_object list \<Rightarrow> json \<Rightarrow> lora_object list" where
  "add_object codec cap objects entry = (case sanitize_object codec entry of
       None \<Rightarrow> objects
     | Some x \<Rightarrow>
         if list_ex (\<lambda>y. lo_id y = lo_id x) objects then objects
         else if length objects \<ge> cap then objects
         else objects @ [x])"

definition merge_cursor :: "string option \<Rightarrow> string \<Rightarrow> string option" where
  "merge_cursor cursor c =
     (if c \<noteq> [] \<and> (case cursor of None \<Rightarrow> True | Some d \<Rightarrow> c > d) then Some c else cursor)"

fun poll_tags ::
  "cemp_envelope_v1 mol_codec \<Rightarrow> 'w lora_transport \<Rightarrow> string option \<Rightarrow> bytes list \<Rightarrow>
     lora_object list \<Rightarrow> string option \<Rightarrow> ('w world, failure, lora_result) prog" where
  "poll_tags codec T since [] objects cursor = ret \<lparr>lr_objects = objects, lr_cursor = cursor\<rparr>"
| "poll_tags codec T since (tag # tags) objects cursor =
     andthen (fetch_json T (objects_path since tag)) (\<lambda>body.
     andthen (lift_result (parse_objects_response body)) (\<lambda>page.
     poll_tags codec T since tags (foldl (add_object codec (lt_max_objects T)) objects (lp_objects page))
       (merge_cursor cursor (lp_cursor page))))"

definition lora_poll ::
  "cemp_envelope_v1 mol_codec \<Rightarrow> 'w lora_transport \<Rightarrow> string option \<Rightarrow> ('w world, failure, lora_result) prog" where
  "lora_poll codec T since = poll_tags codec T since (lt_route_tags T) [] None"

section \<open>Lemmas\<close>

subsection \<open>The checksum\<close>

lemma crc_step_bits: "crc_step c = drop_bit 1 c XOR (if bit c 0 then 0xedb88320 else 0)"
proof -
  have "c AND 1 \<noteq> 0 \<longleftrightarrow> bit c 0" by (simp add: and_one_eq bit_0 odd_iff_mod_2_eq_one)
  then show ?thesis by (simp add: crc_step_def xor.commute)
qed

lemma crc_step_xor: "crc_step (a XOR b) = crc_step a XOR crc_step b"
  by (simp add: crc_step_bits bit_xor_iff drop_bit_xor ac_simps)

lemma crc_steps_xor: "(crc_step ^^ n) (a XOR b) = (crc_step ^^ n) a XOR (crc_step ^^ n) b"
  by (induction n) (simp_all add: crc_step_xor)

text \<open>Shifting out zero bits is a plain shift.\<close>

lemma crc_steps_zero: "(\<And>k. k < n \<Longrightarrow> \<not> bit c k) \<Longrightarrow> (crc_step ^^ n) c = drop_bit n c"
proof (induction n)
  case (Suc n)
  then have "(crc_step ^^ n) c = drop_bit n c" by simp
  moreover have "crc_step (drop_bit n c) = drop_bit (Suc n) c"
    using crc_step_bits [of "drop_bit n c"] Suc.prems [of n] by (simp add: bit_drop_bit_eq drop_bit_drop_bit)
  ultimately show ?case by simp
qed simp

lemma mask_split: "(x :: 32 word) = (x AND mask 8) XOR (x AND NOT (mask 8))"
  by (rule bit_word_eqI) (auto simp: bit_xor_iff bit_and_iff bit_not_iff bit_mask_iff)

lemma crc_byte: "(crc_step ^^ 8) (crc XOR ucast b) = crc_update crc b"
proof -
  let ?x = "crc XOR ucast b"
  have ff: "(0xff :: 32 word) = mask 8" by (simp add: mask_eq_exp_minus_1)
  have low: "unat (?x AND mask 8) < 256"
    using word_and_le1 [of ?x "0xff"] by (simp add: word_le_nat_alt flip: ff)
  have table: "(crc_step ^^ 8) (?x AND mask 8) = crc32_table ! unat (?x AND mask 8)"
    using low by (simp add: crc32_table_def)
  have "(crc_step ^^ 8) (?x AND NOT (mask 8)) = drop_bit 8 (?x AND NOT (mask 8))"
    by (rule crc_steps_zero) (simp add: bit_and_iff bit_not_iff bit_mask_iff)
  moreover have "drop_bit 8 (?x AND NOT (mask 8)) = drop_bit 8 crc"
    by (rule bit_word_eqI) (auto simp: bit_drop_bit_eq bit_and_iff bit_not_iff bit_xor_iff bit_ucast_iff
        bit_mask_iff dest: bit_imp_le_length)
  ultimately show ?thesis
    using table crc_steps_xor [of 8 "?x AND mask 8" "?x AND NOT (mask 8)"] mask_split [of ?x]
    by (simp add: crc_update_def ff)
qed

lemma crc_top_bit: "bit (crc_step c) 31 \<longleftrightarrow> bit c 0"
  using bit_imp_le_length [of c 32] by (auto simp: crc_step_bits bit_xor_iff bit_drop_bit_eq)

lemma xor_cancel: "a XOR c = b XOR c \<Longrightarrow> a = (b :: 32 word)"
proof -
  assume "a XOR c = b XOR c"
  then have "(a XOR c) XOR c = (b XOR c) XOR c" by simp
  then show ?thesis by (simp add: xor.assoc)
qed

lemma xor_cancel_left: "c XOR a = c XOR b \<Longrightarrow> a = (b :: 32 word)"
  using xor_cancel [of a c b] by (simp add: xor.commute)

lemma crc_step_inject: assumes eq: "crc_step a = crc_step b" shows "a = b"
proof (rule bit_word_eqI)
  fix n assume n: "n < LENGTH(32)"
  have zero: "bit a 0 = bit b 0" using crc_top_bit [of a] crc_top_bit [of b] eq by simp
  have "drop_bit 1 a = drop_bit 1 b"
    by (rule xor_cancel) (use eq zero in \<open>simp add: crc_step_bits\<close>)
  then have "bit (drop_bit 1 a) k = bit (drop_bit 1 b) k" for k by simp
  then have "bit a (Suc k) = bit b (Suc k)" for k by (simp add: bit_drop_bit_eq)
  with zero show "bit a n = bit b n" by (cases n) auto
qed

lemma crc_steps_inject: "(crc_step ^^ n) a = (crc_step ^^ n) b \<Longrightarrow> a = b"
  by (induction n) (auto dest: crc_step_inject)

lemma crc_update_inject: assumes "crc_update c x = crc_update d x" shows "c = d"
proof -
  have "c XOR ucast x = d XOR ucast x"
    by (rule crc_steps_inject [of 8]) (simp add: crc_byte assms)
  then show ?thesis by (rule xor_cancel)
qed

lemma crc_update_byte: assumes "crc_update c x = crc_update c y" shows "x = y"
proof -
  have "c XOR ucast x = c XOR ucast y"
    by (rule crc_steps_inject [of 8]) (simp add: crc_byte assms)
  then have "(ucast x :: 32 word) = ucast y" by (rule xor_cancel_left)
  then have bits: "bit (ucast x :: 32 word) n = bit (ucast y :: 32 word) n" for n by simp
  show ?thesis
  proof (rule bit_word_eqI)
    fix n assume "n < LENGTH(8)"
    with bits [of n] show "bit x n = bit y n" by (simp add: bit_ucast_iff)
  qed
qed

lemma crc_fold_inject: "foldl crc_update c bs = foldl crc_update d bs \<Longrightarrow> c = d"
  by (induction bs arbitrary: c d) (auto dest: crc_update_inject)

subsection \<open>Merging pages\<close>

definition add_unique :: "lora_object list \<Rightarrow> lora_object \<Rightarrow> lora_object list" where
  "add_unique xs x = (if list_ex (\<lambda>y. lo_id y = lo_id x) xs then xs else xs @ [x])"

text \<open>The first object with each id.\<close>

definition first_objects :: "lora_object list \<Rightarrow> lora_object list" where
  "first_objects xs = foldl add_unique [] xs"

definition greatest_cursor :: "string list \<Rightarrow> string option" where
  "greatest_cursor cs = (let xs = filter (\<lambda>c. c \<noteq> []) cs in if xs = [] then None else Some (Max (set xs)))"

lemma add_object_take:
  "add_object codec cap (take cap D) e = take cap (case sanitize_object codec e of None \<Rightarrow> D | Some x \<Rightarrow> add_unique D x)"
proof (cases "length D < cap")
  case True
  then show ?thesis by (auto simp: add_object_def add_unique_def split: option.splits)
next
  case False
  then show ?thesis by (auto simp: add_object_def add_unique_def split: option.splits)
qed

lemma add_objects_take:
  "foldl (add_object codec cap) (take cap D) es
     = take cap (foldl add_unique D (List.map_filter (sanitize_object codec) es))"
  by (induction es arbitrary: D) (auto simp: add_object_take List.map_filter_simps split: option.splits)

lemma merge_cursor_greatest: "merge_cursor (greatest_cursor cs) c = greatest_cursor (cs @ [c])"
proof (cases "c = [] \<or> filter (\<lambda>c. c \<noteq> []) cs = []")
  case True
  then have "c = [] \<or> {x \<in> set cs. x \<noteq> []} = {}" by (auto simp: filter_empty_conv)
  with True show ?thesis by (elim disjE) (simp_all add: merge_cursor_def greatest_cursor_def Let_def)
next
  case False
  define M where "M = Max (set (filter (\<lambda>c. c \<noteq> []) cs))"
  have "Max (insert c (set (filter (\<lambda>c. c \<noteq> []) cs))) = max c M"
    unfolding M_def using False by (intro Max_insert) (simp_all only: set_empty finite_set, simp)
  then have "greatest_cursor (cs @ [c]) = Some (max c M)" "greatest_cursor cs = Some M"
    using False by (simp_all add: greatest_cursor_def Let_def M_def)
  with False show ?thesis by (auto simp: merge_cursor_def max_def not_less intro: antisym)
qed

lemma first_objects_distinct: "distinct (map lo_id xs) \<Longrightarrow> distinct (map lo_id (foldl add_unique xs ys))"
proof (induction ys arbitrary: xs)
  case (Cons y ys)
  then have "distinct (map lo_id (add_unique xs y))"
    by (auto simp: add_unique_def list_ex_iff image_iff)
  with Cons.IH show ?case by simp
qed simp

lemma first_objects_subset: "set (foldl add_unique xs ys) \<subseteq> set xs \<union> set ys"
  by (induction ys arbitrary: xs) (fastforce simp: add_unique_def split: if_splits)+

text \<open>The page that the gateway served for a tag.\<close>

definition page_of :: "'w lora_transport \<Rightarrow> string option \<Rightarrow> bytes \<Rightarrow> lora_page \<Rightarrow> bool" where
  "page_of T since tag page \<longleftrightarrow> (\<exists>w w' k r body.
     lt_fetch T (lt_base_url T @ objects_path since tag) w = (Inr r, w', k) \<and> response_ok r \<and>
     hr_body r = Some body \<and> parse_objects_response body = Inr page)"

lemma wp_fetch_json:
  "wp (fetch_json T path) (\<lambda>body _. \<exists>w w' k r. lt_fetch T (lt_base_url T @ path) w = (Inr r, w', k)
     \<and> response_ok r \<and> hr_body r = Some body) (\<lambda>_ _. True) s"
  by (cases "lt_fetch T (lt_base_url T @ path) (env s)")
    (auto simp: fetch_json_def fetch_raw_def wp_rules wp_on_env split: sum.splits option.splits)

lemma poll_tags_exact:
  "wp (poll_tags codec T since tags (take (lt_max_objects T) D) (greatest_cursor cs)) (\<lambda>r _. \<exists>pages.
     list_all2 (page_of T since) tags pages \<and>
     lr_objects r = take (lt_max_objects T) (foldl add_unique D
       (List.map_filter (sanitize_object codec) (concat (map lp_objects pages)))) \<and>
     lr_cursor r = greatest_cursor (cs @ map lp_cursor pages)) (\<lambda>_ _. True) s"
proof (induction tags arbitrary: D cs s)
  case Nil
  show ?case by (simp add: wp_ret List.map_filter_simps)
next
  case (Cons tag tags)
  let ?cap = "lt_max_objects T"
  have rest: "wp (poll_tags codec T since tags (foldl (add_object codec ?cap) (take ?cap D) (lp_objects page))
       (merge_cursor (greatest_cursor cs) (lp_cursor page))) (\<lambda>r _. \<exists>pages.
       list_all2 (page_of T since) (tag # tags) pages \<and>
       lr_objects r = take ?cap (foldl add_unique D
         (List.map_filter (sanitize_object codec) (concat (map lp_objects pages)))) \<and>
       lr_cursor r = greatest_cursor (cs @ map lp_cursor pages)) (\<lambda>_ _. True) s'"
    if page: "page_of T since tag page" for page s'
    unfolding add_objects_take merge_cursor_greatest
  proof (rule wp_mono [OF Cons.IH])
    fix r s''
    assume "\<exists>pages. list_all2 (page_of T since) tags pages \<and>
       lr_objects r = take ?cap (foldl add_unique (foldl add_unique D
         (List.map_filter (sanitize_object codec) (lp_objects page)))
         (List.map_filter (sanitize_object codec) (concat (map lp_objects pages)))) \<and>
       lr_cursor r = greatest_cursor ((cs @ [lp_cursor page]) @ map lp_cursor pages)"
    then obtain pages where "list_all2 (page_of T since) tags pages"
      "lr_objects r = take ?cap (foldl add_unique (foldl add_unique D
         (List.map_filter (sanitize_object codec) (lp_objects page)))
         (List.map_filter (sanitize_object codec) (concat (map lp_objects pages))))"
      "lr_cursor r = greatest_cursor ((cs @ [lp_cursor page]) @ map lp_cursor pages)" by blast
    with page show "\<exists>pages. list_all2 (page_of T since) (tag # tags) pages \<and>
       lr_objects r = take ?cap (foldl add_unique D
         (List.map_filter (sanitize_object codec) (concat (map lp_objects pages)))) \<and>
       lr_cursor r = greatest_cursor (cs @ map lp_cursor pages)"
      by (intro exI [of _ "page # pages"]) (simp add: List.map_filter_def)
  qed simp
  show ?case
    by (simp add: wp_andthen, rule wp_mono [OF wp_fetch_json])
      (auto simp: lift_result_def wp_rules split: sum.splits intro!: rest, fastforce simp: page_of_def)
qed

lemma sanitized:
  "sanitize_object codec e = Some x \<Longrightarrow> validate_envelope codec (lo_cell_data x) = Ok
     \<and> crc32 (lo_cell_data x) = lo_crc x \<and> length (lo_cell_data x) \<le> 82000"
  by (auto simp: sanitize_object_def V1_LIMITS_def split: json.splits option.splits if_splits)

section \<open>Properties\<close>

text \<open>
  The table-driven checksum is the bitwise one: for every input, looking up one table entry per
  byte gives the CRC-32 that shifts the register by one bit at a time.
\<close>

theorem crc_table_is_bitwise: "crc32 bs = crc32_bitwise bs"
  by (simp add: crc32_def crc32_bitwise_def crc_byte)

text \<open>
  The checksum catches every damage to a single byte: two messages of which one byte differs, in
  whatever bits, have different checksums.
\<close>

theorem crc_detects_byte_error:
  assumes "x \<noteq> y"
  shows "crc32 (before @ x # after) \<noteq> crc32 (before @ y # after)"
proof
  let ?c = "foldl crc_update 0xffffffff before"
  assume "crc32 (before @ x # after) = crc32 (before @ y # after)"
  then have "foldl crc_update (crc_update ?c x) after XOR 0xffffffff
      = foldl crc_update (crc_update ?c y) after XOR 0xffffffff" by (simp add: crc32_def)
  then have "foldl crc_update (crc_update ?c x) after = foldl crc_update (crc_update ?c y) after"
    by (rule xor_cancel)
  then have "crc_update ?c x = crc_update ?c y" by (rule crc_fold_inject)
  with assms show False by (auto dest: crc_update_byte)
qed

theorem crc_detects_byte_error_witness: "crc32 ([1] @ 2 # [3]) \<noteq> crc32 ([1] @ 3 # [3])"
  by (rule crc_detects_byte_error) simp

text \<open>
  What a poll returns: one page per route tag, as the gateway served it; of the well-formed
  entries of all pages the first with each id, cut off at the cap; and the greatest cursor of all
  pages. The cursor does not depend on the cap, so the entries beyond it are behind the cursor that
  the next poll sends.
\<close>

theorem lora_poll_exact:
  assumes "lora_poll codec T since s = (Inr r, s')"
  shows "\<exists>pages. list_all2 (page_of T since) (lt_route_tags T) pages \<and>
     lr_objects r = take (lt_max_objects T) (first_objects
       (List.map_filter (sanitize_object codec) (concat (map lp_objects pages)))) \<and>
     lr_cursor r = greatest_cursor (map lp_cursor pages)"
  using wp_result [OF poll_tags_exact [of codec T since "lt_route_tags T" "[]" "[]" s]] assms
  by (simp add: lora_poll_def greatest_cursor_def first_objects_def)

text \<open>
  Nothing unchecked leaves the transport: whatever the gateway answers, the objects of a poll have
  pairwise different ids, are at most as many as the cap, and each of them is an envelope within the
  size limit that passes the envelope gate and whose checksum is right.
\<close>

theorem lora_objects_checked:
  assumes "lora_poll codec T since s = (Inr r, s')"
  shows "distinct (map lo_id (lr_objects r)) \<and> length (lr_objects r) \<le> lt_max_objects T \<and>
     (\<forall>x \<in> set (lr_objects r). validate_envelope codec (lo_cell_data x) = Ok \<and>
        crc32 (lo_cell_data x) = lo_crc x \<and> length (lo_cell_data x) \<le> 82000)"
proof -
  obtain entries where r: "lr_objects r = take (lt_max_objects T)
      (foldl add_unique [] (List.map_filter (sanitize_object codec) entries))"
    using wp_result [OF poll_tags_exact [of codec T since "lt_route_tags T" "[]" "[]" s]] assms
    by (auto simp: lora_poll_def greatest_cursor_def)
  have mem: "\<exists>e. sanitize_object codec e = Some x" if "x \<in> set (lr_objects r)" for x
  proof -
    have "x \<in> set (List.map_filter (sanitize_object codec) entries)"
      using that first_objects_subset [of "[]" "List.map_filter (sanitize_object codec) entries"]
      unfolding r by (auto dest: in_set_takeD)
    then show ?thesis by (auto simp: List.map_filter_def)
  qed
  have "validate_envelope codec (lo_cell_data x) = Ok \<and> crc32 (lo_cell_data x) = lo_crc x \<and>
      length (lo_cell_data x) \<le> 82000" if "x \<in> set (lr_objects r)" for x
    using mem [OF that] sanitized by blast
  moreover have "distinct (map lo_id (lr_objects r))"
    using first_objects_distinct [of "[]"] by (simp add: r take_map [symmetric] distinct_take)
  ultimately show ?thesis by (simp add: r)
qed

text \<open>A sample gateway: for each of two tags it serves three entries, two of them with one id, and the
  transport keeps one object.\<close>

lemma crc_number_of_int: "0 \<le> i \<Longrightarrow> i \<le> 0xffffffff \<Longrightarrow> crc_number (of_int i) = Some (word_of_int i)"
proof -
  assume "0 \<le> i" "i \<le> 0xffffffff"
  then have "(of_int 0 :: rat) \<le> of_int i" "(of_int i :: rat) \<le> of_int 0xffffffff"
    by (simp_all only: of_int_le_iff)
  then show ?thesis by (simp add: crc_number_def)
qed

lemma crc_number_uint: "crc_number (of_int (uint (c :: 32 word))) = Some c"
  using crc_number_of_int [of "uint c"] uint_lt2p [of c] by (simp del: of_int_uint add: word_of_int_uint)

definition sample_entry :: "char \<Rightarrow> json" where
  "sample_entry c = JObj [''id'' \<mapsto> JStr (replicate 32 c), ''bytes_hex'' \<mapsto> JStr ''06'',
     ''crc32'' \<mapsto> JNum (Some (of_int (uint (crc32 [6])))), ''received_at'' \<mapsto> JNum (Some 0)]"

definition sample_gateway :: "nat lora_transport" where
  "sample_gateway = \<lparr>lt_base_url = ''http://gw'', lt_route_tags = [replicate 32 1, replicate 32 2],
     lt_fetch = (\<lambda>url w. (Inr \<lparr>hr_status = 200, hr_body = Some (JObj [''objects'' \<mapsto>
       JArr [sample_entry CHR ''a'', JNull, sample_entry CHR ''A'', sample_entry CHR ''b''],
       ''cursor'' \<mapsto> JStr ''7''])\<rparr>, w, 1)), lt_max_objects = 1\<rparr>"

definition gateway_world :: "nat world" where
  "gateway_world = db.extend empty_db \<lparr>env = 0\<rparr>"

lemma sample_valid: "validate_envelope (wc_envelope sample_codecs) [6] = Ok"
  by (simp add: validate_envelope_def try_decode_def decode_cemp_envelope_v1_def sample_codecs_def
      validate_envelope_fields_def sample_header_def Let_def V1_LIMITS_def cemp_protocol_version_def
      network_ckb_testnet_def is_known_content_type_def content_types_def)

lemma sample_sanitized: "c \<in> set ''aAb'' \<Longrightarrow> sanitize_object (wc_envelope sample_codecs) (sample_entry c)
   = Some \<lparr>lo_id = replicate 32 (ascii_lower c), lo_cell_data = [6], lo_crc = crc32 [6], lo_received_at = 0\<rparr>"
proof -
  have "lora_hex_to_bytes ''06'' = Some [6]"
    by (simp add: lora_hex_to_bytes_def is_hex_def hex_pair_def hex_value_def hex_digits_def upper_hex_digits_def)
  moreover assume "c \<in> set ''aAb''"
  then have "is_hex c" by (auto simp: is_hex_def hex_digits_def upper_hex_digits_def)
  ultimately show ?thesis
    by (simp add: sanitize_object_def sample_entry_def crc_number_uint [simplified] sample_valid V1_LIMITS_def
        list_all_iff map_replicate_const)
qed

lemma sample_polled: "\<exists>s'. lora_poll (wc_envelope sample_codecs) sample_gateway None gateway_world
   = (Inr \<lparr>lr_objects = [\<lparr>lo_id = replicate 32 CHR ''a'', lo_cell_data = [6], lo_crc = crc32 [6],
       lo_received_at = 0\<rparr>], lr_cursor = Some ''7''\<rparr>, s')"
proof -
  have lower: "ascii_lower CHR ''a'' = CHR ''a''" "ascii_lower CHR ''A'' = CHR ''a''" "ascii_lower CHR ''b'' = CHR ''b''"
    by code_simp+
  have null: "sanitize_object (wc_envelope sample_codecs) JNull = None"
    by (simp add: sanitize_object_def)
  show ?thesis
    by (simp add: lora_poll_def sample_gateway_def fetch_json_def fetch_raw_def on_env_def prog_defs
        response_ok_def lift_result_def parse_objects_response_def add_object_def sample_sanitized lower
        null merge_cursor_def)
qed

theorem lora_poll_exact_witness:
  "\<exists>pages. list_all2 (page_of sample_gateway None) [replicate 32 1, replicate 32 2] pages \<and>
     greatest_cursor (map lp_cursor pages) = Some ''7''"
proof -
  obtain s' where "lora_poll (wc_envelope sample_codecs) sample_gateway None gateway_world
   = (Inr \<lparr>lr_objects = [\<lparr>lo_id = replicate 32 CHR ''a'', lo_cell_data = [6], lo_crc = crc32 [6],
       lo_received_at = 0\<rparr>], lr_cursor = Some ''7''\<rparr>, s')" using sample_polled by blast
  from lora_poll_exact [OF this] show ?thesis by (auto simp: sample_gateway_def)
qed

theorem lora_objects_checked_witness:
  "\<exists>r s'. lora_poll (wc_envelope sample_codecs) sample_gateway None gateway_world = (Inr r, s') \<and>
     length (lr_objects r) = 1 \<and> (\<forall>x \<in> set (lr_objects r). crc32 (lo_cell_data x) = lo_crc x)"
proof -
  obtain s' where run: "lora_poll (wc_envelope sample_codecs) sample_gateway None gateway_world
   = (Inr \<lparr>lr_objects = [\<lparr>lo_id = replicate 32 CHR ''a'', lo_cell_data = [6], lo_crc = crc32 [6],
       lo_received_at = 0\<rparr>], lr_cursor = Some ''7''\<rparr>, s')" using sample_polled by blast
  from run lora_objects_checked [OF run] show ?thesis by auto
qed

end
