(* ===== verification/Cemp_Wallet.thy ===== *)
theory Cemp_Wallet
  imports Cemp_Monitor
begin

text \<open>
  packages/cemp-ckb/src/wallet.ts: cell collection, balance categories and transfer history over an
  arbitrary indexer and node.

  Capacities are natural numbers: the client has parsed them as 64-bit hex quantities before they
  reach this code. The collection loop is bounded by fuel; \<open>collect_cells_complete\<close> gives the fuel
  that an indexer with finitely many pages needs.
\<close>

section \<open>Cells and transactions\<close>

record script =
  sc_code_hash :: string
  sc_hash_type :: string
  sc_args :: string

record cell_output =
  ou_capacity :: nat
  ou_lock :: script
  ou_type :: "script option"

record wallet_cell =
  wc_output :: cell_output
  wc_data :: string

record wallet_page =
  wp_cells :: "wallet_cell list"
  wp_cursor :: string

record tx_body =
  tb_inputs :: "(string \<times> nat) list"
  tb_outputs :: "cell_output list"

record indexed_tx =
  it_tx_hash :: string
  it_block_number :: string
  it_is_input :: bool

record indexed_tx_page =
  ip_transactions :: "indexed_tx list"
  ip_cursor :: string

record 'w wallet_provider =
  wr_find_cells :: "script \<Rightarrow> nat \<Rightarrow> string option \<Rightarrow> ('w, wallet_page) env_call"
  wr_find_transactions :: "script \<Rightarrow> nat \<Rightarrow> string option \<Rightarrow> ('w, indexed_tx_page) env_call"
  wr_transaction_body :: "string \<Rightarrow> ('w, tx_body option) env_call"

section \<open>Collecting cells\<close>

definition collect_page_limit :: nat where
  "collect_page_limit = 64"

fun collect_loop ::
  "nat \<Rightarrow> 'w wallet_provider \<Rightarrow> script \<Rightarrow> wallet_cell list \<Rightarrow> string option \<Rightarrow>
     ('w world, failure, wallet_cell list) prog" where
  "collect_loop 0 P lock cells cursor = throw out_of_fuel"
| "collect_loop (Suc fuel) P lock cells cursor =
     andthen (on_env (wr_find_cells P lock collect_page_limit cursor)) (\<lambda>page.
     let cells' = cells @ wp_cells page in
     if length (wp_cells page) < collect_page_limit then ret cells'
     else collect_loop fuel P lock cells' (Some (wp_cursor page)))"

definition collect_cells ::
  "nat \<Rightarrow> 'w wallet_provider \<Rightarrow> script \<Rightarrow> ('w world, failure, wallet_cell list) prog" where
  "collect_cells fuel P lock = collect_loop fuel P lock [] None"

record wallet_summary =
  bs_total :: nat
  bs_cell_count :: nat
  bs_largest_cell :: nat

definition balance_summary :: "wallet_cell list \<Rightarrow> wallet_summary" where
  "balance_summary cells =
     (let (total_cap, largest) = foldl (\<lambda>(t, l) c. let k = ou_capacity (wc_output c) in
        (t + k, if k > l then k else l)) (0, 0) cells
      in \<lparr>bs_total = total_cap, bs_cell_count = length cells, bs_largest_cell = largest\<rparr>)"

section \<open>Balance categories\<close>

record category_totals =
  bc_total :: int
  bc_available :: int
  bc_reserved :: int
  bc_reclaimable :: int
  bc_cell_count :: nat
  bc_protocol_cell_count :: nat

definition is_protocol_cell :: "string \<Rightarrow> string \<Rightarrow> wallet_cell \<Rightarrow> bool" where
  "is_protocol_cell code_hash hash_type c =
     (let ty = ou_type (wc_output c);
          message = (case ty of None \<Rightarrow> False | Some t \<Rightarrow>
            map ascii_lower (sc_code_hash t) = code_hash \<and> sc_hash_type t = hash_type);
          has_data = (wc_data c \<noteq> ''0x'' \<and> wc_data c \<noteq> [])
      in message \<or> has_data \<or> ty \<noteq> None)"

fun categorize ::
  "string \<Rightarrow> string \<Rightarrow> wallet_cell list \<Rightarrow> int \<times> int \<times> nat \<Rightarrow> int \<times> int \<times> nat" where
  "categorize code_hash hash_type [] acc = acc"
| "categorize code_hash hash_type (c # cs) (t, reserved, n) =
     (let k = int (ou_capacity (wc_output c)) in
      categorize code_hash hash_type cs
        (if is_protocol_cell code_hash hash_type c then (t + k, reserved + k, Suc n) else (t + k, reserved, n)))"

definition balance_categories ::
  "nat \<Rightarrow> 'w wallet_provider \<Rightarrow> script \<Rightarrow> string \<Rightarrow> string \<Rightarrow> ('w world, failure, category_totals) prog" where
  "balance_categories fuel P lock code_hash hash_type =
     andthen (collect_cells fuel P lock) (\<lambda>cells.
     case categorize (map ascii_lower code_hash) hash_type cells (0, 0, 0) of (t, reserved, n) \<Rightarrow>
       ret \<lparr>bc_total = t, bc_available = t - reserved, bc_reserved = reserved, bc_reclaimable = reserved,
         bc_cell_count = length cells, bc_protocol_cell_count = n\<rparr>)"

section \<open>Transfer history\<close>

datatype transfer_direction = TransferReceived | TransferSent | TransferSelf

record transfer_record =
  tr_tx_hash :: string
  tr_delta :: int
  tr_direction :: transfer_direction
  tr_block_number :: string

definition lock_equals :: "script \<Rightarrow> script \<Rightarrow> bool" where
  "lock_equals a b \<longleftrightarrow> map ascii_lower (sc_code_hash a) = map ascii_lower (sc_code_hash b) \<and>
     sc_hash_type a = sc_hash_type b \<and> map ascii_lower (sc_args a) = map ascii_lower (sc_args b)"

definition paid_to :: "script \<Rightarrow> cell_output list \<Rightarrow> int" where
  "paid_to lock os = sum_list (map (\<lambda>o'. if lock_equals (ou_lock o') lock then int (ou_capacity o') else 0) os)"

fun spent_inputs ::
  "'w wallet_provider \<Rightarrow> script \<Rightarrow> (string \<times> nat) list \<Rightarrow> int \<Rightarrow> ('w world, failure, int) prog" where
  "spent_inputs P lock [] delta = ret delta"
| "spent_inputs P lock ((h, n) # ins) delta =
     andthen (on_env (wr_transaction_body P h)) (\<lambda>source. case source of
       None \<Rightarrow> throw (CkbError ''transferHistory'' (''node does not know source transaction '' @ h))
     | Some b \<Rightarrow> spent_inputs P lock ins
         (if n < length (tb_outputs b) \<and> lock_equals (ou_lock (tb_outputs b ! n)) lock
          then delta - int (ou_capacity (tb_outputs b ! n)) else delta))"

definition lock_delta :: "'w wallet_provider \<Rightarrow> string \<Rightarrow> script \<Rightarrow> ('w world, failure, int) prog" where
  "lock_delta P h lock =
     andthen (on_env (wr_transaction_body P h)) (\<lambda>body. case body of
       None \<Rightarrow> throw (CkbError ''transferHistory'' (''node does not know transaction '' @ h))
     | Some b \<Rightarrow> spent_inputs P lock (tb_inputs b) (paid_to lock (tb_outputs b)))"

definition transfer_of :: "'w wallet_provider \<Rightarrow> script \<Rightarrow> indexed_tx \<Rightarrow> ('w world, failure, transfer_record) prog" where
  "transfer_of P lock e = andthen (lock_delta P (it_tx_hash e) lock) (\<lambda>delta.
     ret \<lparr>tr_tx_hash = it_tx_hash e, tr_delta = delta,
       tr_direction = (if delta > 0 then TransferReceived else if delta < 0 then TransferSent else TransferSelf),
       tr_block_number = it_block_number e\<rparr>)"

definition transfer_history ::
  "'w wallet_provider \<Rightarrow> script \<Rightarrow> string option \<Rightarrow> nat option \<Rightarrow>
     ('w world, failure, transfer_record list \<times> string) prog" where
  "transfer_history P lock cursor limit =
     andthen (on_env (wr_find_transactions P lock (case limit of None \<Rightarrow> 20 | Some n \<Rightarrow> n) cursor)) (\<lambda>page.
     andthen (map_prog (transfer_of P lock) (ip_transactions page)) (\<lambda>records.
     ret (records, ip_cursor page)))"

section \<open>Lemmas\<close>

text \<open>An indexer that serves a fixed list of cells in pages of the limit: the cursor says how many
  cells were served.\<close>

definition serves :: "'w wallet_provider \<Rightarrow> script \<Rightarrow> wallet_cell list \<Rightarrow> (nat \<Rightarrow> string) \<Rightarrow> bool" where
  "serves P lock cells cursor \<longleftrightarrow> (\<forall>k w. \<exists>w' e.
     wr_find_cells P lock collect_page_limit (if k = 0 then None else Some (cursor k)) w
       = (Inr \<lparr>wp_cells = take collect_page_limit (drop k cells),
            wp_cursor = cursor (min (length cells) (k + collect_page_limit))\<rparr>, w', e))"

lemma collect_loop_complete:
  assumes P: "serves P lock cells cursor"
  shows "k \<le> length cells \<Longrightarrow> length cells - k < fuel * 64 \<Longrightarrow>
    wp (collect_loop fuel P lock (take k cells) (if k = 0 then None else Some (cursor k)))
      (\<lambda>r _. r = cells) (\<lambda>_ _. False) s"
proof (induction fuel arbitrary: k s)
  case (Suc fuel k s)
  obtain w' e where call: "wr_find_cells P lock collect_page_limit (if k = 0 then None else Some (cursor k)) (env s)
       = (Inr \<lparr>wp_cells = take collect_page_limit (drop k cells),
            wp_cursor = cursor (min (length cells) (k + collect_page_limit))\<rparr>, w', e)"
    using P unfolding serves_def by blast
  let ?s = "s\<lparr>db_clock := db_clock s + int e, env := w'\<rparr>"
  show ?case
  proof (cases "length cells - k < 64")
    case True
    then have "take k cells @ take 64 (drop k cells) = cells" by (simp flip: take_add)
    with True call show ?thesis
      by (simp add: wp_andthen wp_on_env wp_ret collect_page_limit_def Let_def)
  next
    case False
    then have "wp (collect_loop fuel P lock (take (k + 64) cells) (Some (cursor (k + 64)))) (\<lambda>r _. r = cells)
        (\<lambda>_ _. False) ?s"
      using Suc.IH [of "k + 64" ?s] Suc.prems by simp
    moreover have "take k cells @ take 64 (drop k cells) = take (k + 64) cells" by (simp add: take_add)
    moreover have len: "k + 64 \<le> length cells" using False by simp
    then have page: "wr_find_cells P lock collect_page_limit (if k = 0 then None else Some (cursor k)) (env s)
       = (Inr \<lparr>wp_cells = take 64 (drop k cells), wp_cursor = cursor (k + 64)\<rparr>, w', e)"
      using call by (simp add: collect_page_limit_def min.absorb2)
    ultimately show ?thesis
      using len page by (simp add: wp_andthen wp_on_env collect_page_limit_def Let_def)
  qed
qed simp

lemma categorize_sums:
  "categorize c h cells (t, r, n) =
     (t + (\<Sum>x\<leftarrow>cells. int (ou_capacity (wc_output x))),
      r + (\<Sum>x\<leftarrow>filter (is_protocol_cell c h) cells. int (ou_capacity (wc_output x))),
      n + length (filter (is_protocol_cell c h) cells))"
  by (induction c h cells "(t, r, n)" arbitrary: t r n rule: categorize.induct) (auto simp: Let_def)

lemma sum_filter_le: "(\<Sum>x\<leftarrow>filter p xs. int (f x)) \<le> (\<Sum>x\<leftarrow>xs. int (f x))"
  by (induction xs) auto

lemma sum_filter_nonneg: "0 \<le> (\<Sum>x\<leftarrow>xs. int (f x))"
  by (induction xs) auto

lemma balance_fold:
  "foldl (\<lambda>(t, l) c. let k = f c in (t + k, if k > l then k else l)) (t, l) cells
     = (t + sum_list (map f cells), fold max (map f cells) (l :: nat))"
  by (induction cells arbitrary: t l) (auto simp: Let_def max_def)

lemma collected_categories:
  assumes "collect_cells fuel P lock s = (Inr cells, s')"
  shows "balance_categories fuel P lock c h s = (Inr
    \<lparr>bc_total = (\<Sum>x\<leftarrow>cells. int (ou_capacity (wc_output x))),
     bc_available = (\<Sum>x\<leftarrow>filter (\<lambda>x. \<not> is_protocol_cell (map ascii_lower c) h x) cells. int (ou_capacity (wc_output x))),
     bc_reserved = (\<Sum>x\<leftarrow>filter (is_protocol_cell (map ascii_lower c) h) cells. int (ou_capacity (wc_output x))),
     bc_reclaimable = (\<Sum>x\<leftarrow>filter (is_protocol_cell (map ascii_lower c) h) cells. int (ou_capacity (wc_output x))),
     bc_cell_count = length cells,
     bc_protocol_cell_count = length (filter (is_protocol_cell (map ascii_lower c) h) cells)\<rparr>, s')"
proof -
  have "(\<Sum>x\<leftarrow>cells. f x) - (\<Sum>x\<leftarrow>filter p cells. f x) = (\<Sum>x\<leftarrow>filter (\<lambda>x. \<not> p x) cells. f x)"
    for f :: "wallet_cell \<Rightarrow> int" and p by (induction cells) auto
  then show ?thesis
    using assms by (simp add: balance_categories_def andthen_def ret_def categorize_sums)
qed

subsection \<open>Transfers\<close>

text \<open>A node that knows every transaction, with the given bodies.\<close>

definition knows :: "'w wallet_provider \<Rightarrow> (string \<Rightarrow> tx_body) \<Rightarrow> bool" where
  "knows P bodies \<longleftrightarrow> (\<forall>h w. \<exists>w' e. wr_transaction_body P h w = (Inr (Some (bodies h)), w', e))"

definition spent_from :: "script \<Rightarrow> (string \<Rightarrow> tx_body) \<Rightarrow> (string \<times> nat) list \<Rightarrow> int" where
  "spent_from lock bodies ins = (\<Sum>(h, n)\<leftarrow>ins.
     let os = tb_outputs (bodies h) in
     if n < length os \<and> lock_equals (ou_lock (os ! n)) lock then int (ou_capacity (os ! n)) else 0)"

definition net_delta :: "script \<Rightarrow> (string \<Rightarrow> tx_body) \<Rightarrow> string \<Rightarrow> int" where
  "net_delta lock bodies h =
     paid_to lock (tb_outputs (bodies h)) - spent_from lock bodies (tb_inputs (bodies h))"

definition transfer_entry :: "script \<Rightarrow> (string \<Rightarrow> tx_body) \<Rightarrow> indexed_tx \<Rightarrow> transfer_record" where
  "transfer_entry lock bodies e =
     (let delta = net_delta lock bodies (it_tx_hash e) in
      \<lparr>tr_tx_hash = it_tx_hash e, tr_delta = delta,
       tr_direction = (if delta > 0 then TransferReceived else if delta < 0 then TransferSent else TransferSelf),
       tr_block_number = it_block_number e\<rparr>)"

lemma wp_transaction_body:
  assumes "knows P bodies" and "\<And>s'. Q (Some (bodies h)) s'"
  shows "wp (on_env (wr_transaction_body P h)) Q E s"
proof -
  obtain w' e where "wr_transaction_body P h (env s) = (Inr (Some (bodies h)), w', e)"
    using assms(1) unfolding knows_def by blast
  with assms(2) show ?thesis by (simp add: wp_on_env)
qed

lemma wp_spent_inputs:
  assumes P: "knows P bodies"
  shows "wp (spent_inputs P lock ins delta) (\<lambda>r _. r = delta - spent_from lock bodies ins) (\<lambda>_ _. False) s"
proof (induction ins arbitrary: delta s)
  case (Cons i ins)
  obtain h n where i: "i = (h, n)" by (cases i)
  show ?case
    unfolding i by (auto simp: wp_andthen spent_from_def Let_def intro!: wp_transaction_body [OF P]
        wp_mono [OF Cons.IH])
qed (simp add: wp_ret spent_from_def)

lemma wp_transfer_of:
  assumes P: "knows P bodies"
  shows "wp (transfer_of P lock e) (\<lambda>r _. r = transfer_entry lock bodies e) (\<lambda>_ _. False) s"
  unfolding transfer_of_def lock_delta_def wp_andthen
  by (rule wp_transaction_body [OF P])
    (auto simp: wp_ret transfer_entry_def net_delta_def Let_def intro!: wp_mono [OF wp_spent_inputs [OF P]])

lemma wp_transfers:
  assumes P: "knows P bodies"
  shows "wp (map_prog (transfer_of P lock) es) (\<lambda>rs _. rs = map (transfer_entry lock bodies) es) (\<lambda>_ _. False) s"
proof (induction es arbitrary: s)
  case (Cons e es)
  show ?case
    by (auto simp: wp_andthen wp_ret intro!: wp_mono [OF wp_transfer_of [OF P]] wp_mono [OF Cons.IH])
qed (simp add: wp_ret)

section \<open>Properties\<close>

text \<open>
  Collecting cells is complete: against an indexer that serves a list of cells in pages of the
  limit, the loop ends and returns every cell once and in order, with one more round than the
  number of full pages.
\<close>

theorem collect_cells_complete:
  assumes "serves P lock cells cursor" and "length cells < fuel * 64"
  shows "\<exists>s'. collect_cells fuel P lock s = (Inr cells, s')"
  using collect_loop_complete [OF assms(1), of 0 fuel s] assms(2)
  by (cases "collect_cells fuel P lock s") (auto simp: collect_cells_def wp_def split: sum.splits)

text \<open>
  The balance categories partition the wallet: the total is the capacity of all collected cells,
  reserved is that of the cells with a type script or data, and available is exactly the rest.
\<close>

theorem balance_categories_partition:
  assumes "collect_cells fuel P lock s = (Inr cells, s')"
  shows "\<exists>r. balance_categories fuel P lock c h s = (Inr r, s') \<and>
     bc_total r = (\<Sum>x\<leftarrow>cells. int (ou_capacity (wc_output x))) \<and>
     bc_total r = bc_available r + bc_reserved r \<and>
     bc_available r = (\<Sum>x\<leftarrow>filter (\<lambda>x. ou_type (wc_output x) = None \<and> wc_data x \<in> {''0x'', []}) cells.
       int (ou_capacity (wc_output x))) \<and>
     bc_cell_count r = length cells"
proof -
  have split: "(\<Sum>x\<leftarrow>cells. f x) = (\<Sum>x\<leftarrow>filter (\<lambda>x. \<not> p x) cells. f x) + (\<Sum>x\<leftarrow>filter p cells. f x)"
    for f :: "wallet_cell \<Rightarrow> int" and p by (induction cells) auto
  have "(\<not> is_protocol_cell d h x) = (ou_type (wc_output x) = None \<and> wc_data x \<in> {''0x'', []})" for d x
    by (auto simp: is_protocol_cell_def Let_def split: option.splits)
  then show ?thesis
    using split [of _ "is_protocol_cell (map ascii_lower c) h"]
    by (simp add: collected_categories [OF assms])
qed

text \<open>
  The transfer history lists one record per indexer entry, each with the net change of its whole
  transaction: what the outputs pay to the lock less what the inputs spend from it. The indexer
  reports a transaction once for every input and output that touches the lock, so the history
  repeats a transfer that often, each time with the full amount.
\<close>

theorem transfer_history_exact:
  assumes "knows P bodies" and "transfer_history P lock cursor limit s = (Inr (records, last_cursor), s')"
  shows "\<exists>page w w' e. wr_find_transactions P lock (case limit of None \<Rightarrow> 20 | Some n \<Rightarrow> n) cursor w = (Inr page, w', e) \<and>
     records = map (transfer_entry lock bodies) (ip_transactions page) \<and>
     length (filter (\<lambda>r. tr_tx_hash r = h \<and> tr_delta r = net_delta lock bodies h) records)
       = length (filter (\<lambda>x. it_tx_hash x = h) (ip_transactions page))"
proof -
  have count: "length (filter (\<lambda>r. tr_tx_hash r = h \<and> tr_delta r = net_delta lock bodies h)
      (map (transfer_entry lock bodies) xs)) = length (filter (\<lambda>x. it_tx_hash x = h) xs)" for xs
    by (induction xs) (auto simp: transfer_entry_def Let_def)
  obtain r w' e where call: "wr_find_transactions P lock (case limit of None \<Rightarrow> 20 | Some n \<Rightarrow> n) cursor (env s) = (r, w', e)"
    by (cases "wr_find_transactions P lock (case limit of None \<Rightarrow> 20 | Some n \<Rightarrow> n) cursor (env s)")
  have "wp (transfer_history P lock cursor limit) (\<lambda>(records, _) _. \<exists>page. r = Inr page \<and>
      records = map (transfer_entry lock bodies) (ip_transactions page)) (\<lambda>_ _. True) s"
    unfolding transfer_history_def wp_andthen wp_on_env call
    by (cases r) (auto simp: wp_ret intro!: wp_mono [OF wp_transfers [OF assms(1)]])
  from wp_result [OF this assms(2)] obtain page
    where page: "r = Inr page" "records = map (transfer_entry lock bodies) (ip_transactions page)" by auto
  show ?thesis
    by (rule exI [of _ page], rule exI [of _ "env s"], rule exI [of _ w'], rule exI [of _ e])
      (use call page count [of "ip_transactions page"] in simp)
qed

text \<open>A sample wallet of 70 plain cells, in two pages, and a payment with change, which the indexer
  reports once for the input and once for the output.\<close>

definition sample_lock :: script where
  "sample_lock = \<lparr>sc_code_hash = ''0xaa'', sc_hash_type = ''type'', sc_args = ''0x01''\<rparr>"

definition sample_cells :: "wallet_cell list" where
  "sample_cells = replicate 70 \<lparr>wc_output = \<lparr>ou_capacity = 100, ou_lock = sample_lock, ou_type = None\<rparr>, wc_data = ''0x''\<rparr>"

definition sample_body :: "string \<Rightarrow> tx_body" where
  "sample_body h = (if h = ''0xb'' then \<lparr>tb_inputs = [(''0xa'', 0)], tb_outputs =
       [\<lparr>ou_capacity = 300, ou_lock = sample_lock\<lparr>sc_args := ''0x02''\<rparr>, ou_type = None\<rparr>,
        \<lparr>ou_capacity = 690, ou_lock = sample_lock, ou_type = None\<rparr>]\<rparr>
     else \<lparr>tb_inputs = [], tb_outputs = [\<lparr>ou_capacity = 1000, ou_lock = sample_lock, ou_type = None\<rparr>]\<rparr>)"

definition cursor_of :: "nat \<Rightarrow> string" where
  "cursor_of k = replicate k CHR ''x''"

definition sample_provider :: "unit wallet_provider" where
  "sample_provider = \<lparr>
     wr_find_cells = (\<lambda>lock n cursor w. let k = (case cursor of None \<Rightarrow> 0 | Some c \<Rightarrow> length c) in
       (Inr \<lparr>wp_cells = take n (drop k sample_cells), wp_cursor = cursor_of (min 70 (k + n))\<rparr>, w, 1)),
     wr_find_transactions = (\<lambda>lock n cursor w. (Inr \<lparr>ip_transactions =
       [\<lparr>it_tx_hash = ''0xb'', it_block_number = ''0x2'', it_is_input = True\<rparr>,
        \<lparr>it_tx_hash = ''0xb'', it_block_number = ''0x2'', it_is_input = False\<rparr>], ip_cursor = []\<rparr>, w, 1)),
     wr_transaction_body = (\<lambda>h w. (Inr (Some (sample_body h)), w, 1))\<rparr>"

definition wallet_world :: "unit world" where
  "wallet_world = db.extend empty_db \<lparr>env = ()\<rparr>"

lemma sample_serves: "serves sample_provider sample_lock sample_cells cursor_of"
  by (auto simp: serves_def sample_provider_def sample_cells_def cursor_of_def)

theorem collect_cells_complete_witness:
  "\<exists>s'. collect_cells 2 sample_provider sample_lock wallet_world = (Inr sample_cells, s') \<and> length sample_cells = 70"
  using collect_cells_complete [OF sample_serves, of 2 wallet_world] by (simp add: sample_cells_def)

lemma sample_collected:
  "\<exists>s'. collect_cells 2 sample_provider sample_lock wallet_world = (Inr sample_cells, s')"
  using collect_loop_complete [OF sample_serves, of 0 2 wallet_world]
  by (cases "collect_cells 2 sample_provider sample_lock wallet_world")
    (auto simp: collect_cells_def wp_def sample_cells_def split: sum.splits)

theorem balance_categories_partition_witness:
  "\<exists>r s'. balance_categories 2 sample_provider sample_lock ''0xCC'' ''type'' wallet_world = (Inr r, s') \<and>
     bc_total r = 7000 \<and> bc_available r = 7000 \<and> bc_reserved r = 0"
proof -
  obtain s' where "collect_cells 2 sample_provider sample_lock wallet_world = (Inr sample_cells, s')"
    using sample_collected by blast
  from balance_categories_partition [OF this, of "''0xCC''" "''type''"] show ?thesis
    by (force simp: sample_cells_def sum_list_replicate)
qed

lemma sample_knows: "knows sample_provider sample_body"
  by (simp add: knows_def sample_provider_def)

lemma sample_history: "\<exists>records last_cursor s'. transfer_history sample_provider sample_lock None None wallet_world
   = (Inr (records, last_cursor), s')"
  by (simp add: transfer_history_def transfer_of_def lock_delta_def sample_provider_def sample_body_def
      on_env_def prog_defs)

theorem transfer_history_exact_witness:
  "\<exists>records last_cursor s'. transfer_history sample_provider sample_lock None None wallet_world
     = (Inr (records, last_cursor), s') \<and>
     length (filter (\<lambda>r. tr_tx_hash r = ''0xb'' \<and> tr_delta r = -310) records) = 2"
proof -
  obtain records last_cursor s' where run: "transfer_history sample_provider sample_lock None None wallet_world
     = (Inr (records, last_cursor), s')" using sample_history by blast
  have "net_delta sample_lock sample_body ''0xb'' = -310"
    by (simp add: net_delta_def sample_body_def paid_to_def spent_from_def sample_lock_def lock_equals_def
        ascii_lower_def)
  with transfer_history_exact [OF sample_knows run, of "''0xb''"]
  have "length (filter (\<lambda>r. tr_tx_hash r = ''0xb'' \<and> tr_delta r = -310) records) = 2"
    by (auto simp: sample_provider_def numeral_2_eq_2 simp del: filter.simps(2))
  with run show ?thesis by blast
qed

end
