(* ===== verification/Cemp_Workers.thy ===== *)
theory Cemp_Workers
  imports Cemp_AttachmentChain Cemp_Contacts Cemp_RateLimit Cemp_Leases Cemp_Lora Cemp_Wallet
begin

text \<open>
  packages/cemp-sync/src/workers.ts: the background workers, composed from the pipelines.

  \<open>wd_attach\<close> is the closure that reclaims one attachment group, here the pipeline of
  \<open>Cemp_AttachmentChain\<close> itself. The notifier and the lookup of the own profile are calls of the
  environment. A text is stored in the database as its UTF-8 bytes. The page loop of discovery is
  bounded by fuel.
\<close>

section \<open>Dependencies\<close>

record ('w, 'a, 'b, 'tx) worker_deps =
  wd_client :: "('w, 'tx) chain_client"
  wd_indexer :: "'w indexer"
  wd_lifecycle :: "('w, 'b, 'tx) lifecycle_deps"
  wd_publisher :: "('w, message_content, 'a, 'b, 'tx) publisher_deps"
  wd_attach :: "('w, 'b, 'tx) attach_deps"
  wd_blake2b :: blake2b
  wd_suite :: crypto_suite
  wd_codecs :: wire_codecs
  wd_rate :: rate_config
  wd_wallet_id :: nat
  wd_wallet :: "'w wallet_provider"
  wd_wallet_lock :: script
  wd_message_type :: "string \<times> string"
  wd_notify :: "nat \<Rightarrow> ('w, unit) env_call"
  wd_engine_id :: string
  wd_own_profile :: "('w, bytes option) env_call"
  wd_secret_key :: bytes
  wd_lora_base_url :: "string option"
  wd_fetch :: "(string \<Rightarrow> ('w, http_response) env_call) option"

definition outpoint_lease_ttl :: int where
  "outpoint_lease_ttl = 10 * 60000"

definition worker_bytes :: "string \<Rightarrow> failure + bytes" where
  "worker_bytes hex = map_error (\<lambda>_. OtherError ''workers: invalid hex string'') (worker_hex_to_bytes hex)"

definition stored_text :: "code_points \<Rightarrow> string" where
  "stored_text t = map (\<lambda>b. char_of (unat b)) (utf8_encode t)"

definition loaded_text :: "string \<Rightarrow> code_points" where
  "loaded_text t = utf8_decode (map (\<lambda>c. word_of_nat (of_char c)) t)"

section \<open>Incoming messages\<close>

definition incoming_advance_order :: "mstate list" where
  "incoming_advance_order = [Discovered, Downloading, Decrypting, Received]"

definition strandable :: "mstate \<Rightarrow> bool" where
  "strandable st \<longleftrightarrow> st \<in> set [Discovered, Downloading, Decrypting]"

definition queue_acknowledgement ::
  "nat \<Rightarrow> string \<Rightarrow> string \<times> nat \<Rightarrow> ('x db_scheme, failure, unit) prog" where
  "queue_acknowledgement conv original cell =
     (let logical = ''response:'' @ original in
      andthen (get_by_logical_id logical) (\<lambda>existing. case existing of
        Some _ \<Rightarrow> ret ()
      | None \<Rightarrow>
          andthen (insert_message \<lparr>mi_conversation_id = conv, mi_direction = Outgoing, mi_body = Some [],
            mi_logical_id = logical, mi_state = Some Queued, mi_created_at = None\<rparr>) (\<lambda>row.
          set_chain_ref (m_id row) None None (Some (fst cell)) (Some (snd cell)))))"

definition advance_incoming_to_received ::
  "('w, 'a, 'b, 'tx) worker_deps \<Rightarrow> nat \<Rightarrow> mstate \<Rightarrow> nat \<Rightarrow> string \<Rightarrow> (string \<times> nat) option \<Rightarrow>
     ('w world, failure, unit) prog" where
  "advance_incoming_to_received d i origin conv logical cell =
     (case index_of origin incoming_advance_order of
       None \<Rightarrow> ret ()
     | Some k \<Rightarrow>
         andthen (for_each (transition_message i) (drop (Suc k) incoming_advance_order)) (\<lambda>_.
         andthen (on_env (wd_notify d i)) (\<lambda>_.
         case cell of None \<Rightarrow> ret () | Some c \<Rightarrow> queue_acknowledgement conv logical c)))"

definition save_manifest ::
  "('w, 'a, 'b, 'tx) worker_deps \<Rightarrow> nat \<Rightarrow> bytes \<Rightarrow> attachment_manifest_v1 \<Rightarrow> ('x db_scheme, failure, unit) prog" where
  "save_manifest d i key m = (case check_manifest m default_image_limits of
       Some _ \<Rightarrow> ret ()
     | None \<Rightarrow>
         andthen (lift_result (map_error (\<lambda>_. OtherError ''encodeAttachmentManifestV1'')
           (encode_attachment_manifest_v1 (wc_manifest (wd_codecs d)) m))) (\<lambda>bytes.
         andthen (create_attachment \<lparr>ai_message_id = i, ai_kind = ''image'',
           ai_byte_length = nat (am_plaintext_size m), ai_state = None, ai_manifest = Some bytes,
           ai_key = Some key\<rparr>) (\<lambda>_. ret ())))"

definition save_manifests ::
  "('w, 'a, 'b, 'tx) worker_deps \<Rightarrow> nat \<Rightarrow> incoming_message \<Rightarrow> ('x db_scheme, failure, unit) prog" where
  "save_manifests d i m = when_do (in_manifests m \<noteq> [])
     (andthen (list_for_message i) (\<lambda>existing. when_do (existing = [])
       (for_each (save_manifest d i (in_attachment_key m)) (in_manifests m))))"

definition receipts_of :: "incoming_message \<Rightarrow> (nat \<times> bytes) list" where
  "receipts_of m = map (\<lambda>(i, st). (nat st, i)) (in_receipts m)"

definition apply_receipts ::
  "('w, 'a, 'b, 'tx) worker_deps \<Rightarrow> incoming_message \<Rightarrow> ('x db_scheme, failure, unit) prog" where
  "apply_receipts d m = andthen (process_acknowledgements (ld_store (wd_lifecycle d)) (receipts_of m)) (\<lambda>_. ret ())"

definition sender_contact :: "string \<Rightarrow> ('x db_scheme, failure, contact) prog" where
  "sender_contact sender = andthen (get_contact_by_profile sender) (\<lambda>known. case known of
       Some c \<Rightarrow> ret c
     | None \<Rightarrow> create_contact \<lparr>nc_display_name = ''unknown-'' @ take 8 sender, nc_notes = None,
         nc_avatar = None, nc_profile_id = Some sender\<rparr>)"

text \<open>The part of the ingestion that stores a content message.\<close>

definition store_content ::
  "('w, 'a, 'b, 'tx) worker_deps \<Rightarrow> incoming_message \<Rightarrow> (string \<times> nat) option \<Rightarrow>
     ('w world, failure, unit) prog" where
  "store_content d m source =
     andthen (sender_contact (bytes_to_hex (in_sender m))) (\<lambda>contact.
     andthen (get_or_create_for_contact (ct_id contact)) (\<lambda>conv.
     andthen (insert_message \<lparr>mi_conversation_id = cv_id conv, mi_direction = Incoming,
       mi_body = Some (stored_text (in_text m)), mi_logical_id = incoming_logical_message_id (in_message_id m),
       mi_state = None, mi_created_at = None\<rparr>) (\<lambda>inserted.
     andthen (save_manifests d (m_id inserted) m) (\<lambda>_.
     andthen (when_do (strandable (m_state inserted))
       (andthen (set_envelope_message_id (m_id inserted) (bytes_to_hex (in_message_id m))) (\<lambda>_.
        andthen (case source of None \<Rightarrow> ret ()
          | Some (h, n) \<Rightarrow> set_chain_ref (m_id inserted) (Some h) (Some n) None None) (\<lambda>_.
        advance_incoming_to_received d (m_id inserted) (m_state inserted) (cv_id conv)
          (m_logical_id inserted) source)))) (\<lambda>_.
     when_do (in_receipts m \<noteq> []) (apply_receipts d m))))))"

definition ingest_message ::
  "('w, 'a, 'b, 'tx) worker_deps \<Rightarrow> incoming_message \<Rightarrow> (string \<times> nat) option \<Rightarrow>
     ('w world, failure, unit) prog" where
  "ingest_message d m source =
     (let sender = bytes_to_hex (in_sender m) in
      andthen (is_blocked_by_profile sender) (\<lambda>blocked.
      if blocked then ret ()
      else if in_text m = [] \<and> in_receipts m \<noteq> [] then apply_receipts d m
      else andthen now (\<lambda>t.
        andthen (consume get_bucket set_bucket (wd_rate d) Incoming (Some sender) t) (\<lambda>ok.
        if \<not> ok then ret () else store_content d m source))))"

definition ingest_incoming_cell_data ::
  "('w, 'a, 'b, 'tx) worker_deps \<Rightarrow> bytes \<Rightarrow> string \<Rightarrow> (string \<times> nat) option \<Rightarrow>
     ('w world, failure, unit) prog" where
  "ingest_incoming_cell_data d own hex source =
     andthen (lift_result (worker_bytes hex)) (\<lambda>cell_data.
     andthen (lift_result (map_error (\<lambda>_. OtherError ''processIncomingText'')
       (process_incoming_text (wd_suite d) (wd_codecs d) cell_data (wd_secret_key d) own))) (\<lambda>m.
     ingest_message d m source))"

section \<open>Discovery\<close>

text \<open>\<open>BigInt\<close> of a hexadecimal, decimal or empty string; the sign and the white space that it also
  accepts do not occur in an index and are rejected here.\<close>

fun digits_value :: "nat \<Rightarrow> nat \<Rightarrow> string \<Rightarrow> nat option" where
  "digits_value base acc [] = Some acc"
| "digits_value base acc (c # cs) = (case hex_value c of
     Some v \<Rightarrow> if v < base then digits_value base (base * acc + v) cs else None
   | None \<Rightarrow> None)"

definition js_big_int :: "string \<Rightarrow> nat option" where
  "js_big_int t = (case drop_prefix ''0x'' t of
       Some h \<Rightarrow> if h = [] then None else digits_value 16 0 h
     | None \<Rightarrow> digits_value 10 0 t)"

definition process_discovered_cell ::
  "('w, 'a, 'b, 'tx) worker_deps \<Rightarrow> bytes \<Rightarrow> indexed_cell \<Rightarrow> ('w world, failure, unit) prog" where
  "process_discovered_cell d own c = (case js_big_int (ic_index c) of
       None \<Rightarrow> throw (OtherError ''SyntaxError'')
     | Some n \<Rightarrow> ingest_incoming_cell_data d own (ic_data c) (Some (ic_tx_hash c, n)))"

definition discover_cell ::
  "('w, 'a, 'b, 'tx) worker_deps \<Rightarrow> bytes \<Rightarrow> indexed_cell \<Rightarrow> ('w world, failure, unit) prog" where
  "discover_cell d own c =
     (let key = ''outpoint:'' @ ic_tx_hash c @ '':'' @ ic_index c in
      andthen now (\<lambda>t.
      andthen (acquire_lease key (wd_engine_id d) outpoint_lease_ttl t) (\<lambda>lease. case lease of
        None \<Rightarrow> ret ()
      | Some _ \<Rightarrow> finally_do (catching (process_discovered_cell d own c) (\<lambda>_. ret ()))
          (release_lease key (wd_engine_id d)))))"

fun scan_pages ::
  "nat \<Rightarrow> ('w, 'a, 'b, 'tx) worker_deps \<Rightarrow> bytes \<Rightarrow> bytes \<Rightarrow> string option \<Rightarrow> ('w world, failure, unit) prog" where
  "scan_pages 0 d own tag cursor = throw out_of_fuel"
| "scan_pages (Suc fuel) d own tag cursor =
     andthen (find_message_cells (wd_indexer d) tag cursor) (\<lambda>page.
     andthen (for_each (discover_cell d own) (pg_cells page)) (\<lambda>_.
     if pg_cells page = [] \<or> pg_last_cursor page = ''0x'' \<or> pg_last_cursor page = [] then ret ()
     else scan_pages fuel d own tag (Some (pg_last_cursor page))))"

definition scanned_tags :: "blake2b \<Rightarrow> bytes \<Rightarrow> int \<Rightarrow> bytes list" where
  "scanned_tags blake2b own t =
     (let epoch = current_routing_epoch t in map (derive_route_tag blake2b own) [epoch, epoch - 1])"

definition run_incoming_discovery ::
  "nat \<Rightarrow> ('w, 'a, 'b, 'tx) worker_deps \<Rightarrow> ('w world, failure, unit) prog" where
  "run_incoming_discovery fuel d =
     andthen (on_env (wd_own_profile d)) (\<lambda>own. case own of
       None \<Rightarrow> ret ()
     | Some p \<Rightarrow> andthen now (\<lambda>t.
         for_each (\<lambda>tag. scan_pages fuel d p tag None) (scanned_tags (wd_blake2b d) p t)))"

section \<open>The gateway poll\<close>

text \<open>\<open>String.trim\<close>, on the white space of the Latin-1 range.\<close>

definition is_white :: "char \<Rightarrow> bool" where
  "is_white c \<longleftrightarrow> (of_char c :: nat) \<in> set [9, 10, 11, 12, 13, 32, 160]"

definition trim :: "string \<Rightarrow> string" where
  "trim t = rev (dropWhile is_white (rev (dropWhile is_white t)))"

definition lora_enabled_key :: string where
  "lora_enabled_key = ''lora.enabled''"

definition lora_gateway_url_key :: string where
  "lora_gateway_url_key = ''lora.gateway_url''"

definition lora_cursor_name :: string where
  "lora_cursor_name = ''lora-transport-cursor''"

definition poll_gateway ::
  "('w, 'a, 'b, 'tx) worker_deps \<Rightarrow> string \<Rightarrow> ('w world, failure, unit) prog" where
  "poll_gateway d url =
     andthen (on_env (wd_own_profile d)) (\<lambda>own. case own of
       None \<Rightarrow> ret ()
     | Some p \<Rightarrow> andthen now (\<lambda>t.
         let epoch = current_routing_epoch t;
             tags = map (derive_route_tag (wd_blake2b d) p) [epoch - 1, epoch, epoch + 1] in
         andthen (lift_result (new_lora_transport url tags (wd_fetch d) None)) (\<lambda>T.
         andthen (get_cursor lora_cursor_name) (\<lambda>since.
         andthen (lora_poll (wc_envelope (wd_codecs d)) T since) (\<lambda>r.
         andthen (for_each (\<lambda>x. catching (ingest_incoming_cell_data d p (bytes_to_hex (lo_cell_data x)) None)
           (\<lambda>_. ret ())) (lr_objects r)) (\<lambda>_.
         case lr_cursor r of None \<Rightarrow> ret () | Some c \<Rightarrow> set_cursor lora_cursor_name c))))))"

definition run_lora_poll :: "('w, 'a, 'b, 'tx) worker_deps \<Rightarrow> ('w world, failure, unit) prog" where
  "run_lora_poll d =
     andthen (get_setting lora_enabled_key) (\<lambda>enabled.
     if enabled \<noteq> Some ''true'' then ret ()
     else andthen (get_setting lora_gateway_url_key) (\<lambda>setting.
       let url = (case map_option trim setting of
           Some (c # cs) \<Rightarrow> Some (c # cs)
         | _ \<Rightarrow> wd_lora_base_url d) in
       case url of
         None \<Rightarrow> ret ()
       | Some u \<Rightarrow> if u = [] then ret () else poll_gateway d u))"

section \<open>Responses\<close>

definition receipt_kinds :: "(string \<times> nat) list" where
  "receipt_kinds = [(''response:'', 1), (''ack-attachment:'', 5)]"

definition receipt_kind_of :: "string \<Rightarrow> (string \<times> nat) option" where
  "receipt_kind_of logical = List.find (\<lambda>(p, _). starts_with logical p) receipt_kinds"

definition advance_original :: "nat \<Rightarrow> mstate \<Rightarrow> ('x db_scheme, failure, unit) prog" where
  "advance_original i st = andthen (get_message i) (\<lambda>current. case current of
       None \<Rightarrow> ret ()
     | Some m \<Rightarrow>
         let order = [Received, Displayed, ResponseQueued, ResponseSent] in
         when_do (m_state m \<noteq> st \<and> (case (index_of (m_state m) order, index_of st order) of
             (Some a, Some b) \<Rightarrow> a < b | (None, Some _) \<Rightarrow> True | _ \<Rightarrow> False))
           (transition_message i st))"

definition response_content :: "message \<Rightarrow> string \<Rightarrow> bytes \<Rightarrow> string \<times> nat \<Rightarrow> nat \<Rightarrow> message_content" where
  "response_content r recipient original cell status =
     \<lparr>mc_text = (case m_body r of None \<Rightarrow> [] | Some b \<Rightarrow> loaded_text b), mc_recipient = recipient,
      mc_reply_to = Some (original, fst cell, snd cell), mc_receipts = [(original, status)],
      mc_receipt_request = None, mc_content_type = None, mc_manifests = [], mc_attachment_envelope = None\<rparr>"

text \<open>The recipient of a queued response: the profile id of the contact of its conversation.\<close>

definition response_recipient :: "message \<Rightarrow> ('x db_scheme, failure, string option) prog" where
  "response_recipient r = andthen (get_conversation (m_conversation_id r)) (\<lambda>conv. case conv of
       None \<Rightarrow> ret None
     | Some c \<Rightarrow> andthen (get_contact (cv_contact_id c)) (\<lambda>contact. ret (Option.bind contact ct_profile_id)))"

definition publish_response ::
  "('w, 'a, 'b, 'tx) worker_deps \<Rightarrow> message \<Rightarrow> message \<Rightarrow> string \<Rightarrow> string \<Rightarrow> string \<times> nat \<Rightarrow> nat \<Rightarrow>
     ('w world, failure, unit) prog" where
  "publish_response d r original envelope_id recipient cell status =
     andthen (lift_result (worker_bytes envelope_id)) (\<lambda>mid.
     andthen (catching (publish_text (wd_publisher d) \<lparr>pi_row_id = m_id r, pi_logical_id = m_logical_id r,
         pi_content = response_content r recipient mid cell status, pi_timeout = None\<rparr>)
       (\<lambda>e. throw (OtherError ''PublicationError''))) (\<lambda>_.
     if status \<noteq> 1 then ret ()
     else andthen (for_each (advance_original (m_id original)) [Displayed, ResponseQueued, ResponseSent]) (\<lambda>_.
       finalize_response_sent (ld_store (wd_lifecycle d)) (m_id original) (fst cell) (snd cell))))"

definition send_response :: "('w, 'a, 'b, 'tx) worker_deps \<Rightarrow> message \<Rightarrow> ('w world, failure, unit) prog" where
  "send_response d r =
     andthen (get_chain_ref (m_id r)) (\<lambda>ref.
     case (Option.bind ref cr_reply_tx_hash, Option.bind ref cr_reply_outpoint_index, receipt_kind_of (m_logical_id r)) of
       (Some h, Some n, Some (prefix, status)) \<Rightarrow>
         andthen (get_by_logical_id (drop (length prefix) (m_logical_id r))) (\<lambda>original.
         case original of None \<Rightarrow> ret () | Some orig \<Rightarrow>
         (case m_envelope_id orig of None \<Rightarrow> ret () | Some envelope_id \<Rightarrow>
           andthen (response_recipient r) (\<lambda>recipient. case recipient of
             None \<Rightarrow> ret ()
           | Some p \<Rightarrow> publish_response d r orig envelope_id p (h, n) status)))
     | _ \<Rightarrow> ret ())"

definition run_response_sender :: "('w, 'a, 'b, 'tx) worker_deps \<Rightarrow> ('w world, failure, unit) prog" where
  "run_response_sender d = andthen (list_by_state [Queued] 500) (\<lambda>queued.
     for_each (send_response d) (filter (\<lambda>m. m_direction m = Outgoing \<and> receipt_kind_of (m_logical_id m) \<noteq> None) queued))"

section \<open>Pending transactions\<close>

definition make_available :: "('w, 'a, 'b, 'tx) worker_deps \<Rightarrow> message \<Rightarrow> ('x db_scheme, failure, unit) prog" where
  "make_available d m =
     andthen (when_do (m_state m = Pending) (transition_message (m_id m) Committed)) (\<lambda>_.
     andthen (transition_message (m_id m) AvailableOnChain) (\<lambda>_.
     reserve_committed_capacity (ld_store (wd_lifecycle d)) (m_id m)))"

definition check_submitted :: "('w, 'a, 'b, 'tx) worker_deps \<Rightarrow> outgoing_tx \<Rightarrow> ('w world, failure, unit) prog" where
  "check_submitted d r = andthen (on_env (cl_get_transaction (wd_client d) (tx_hash r))) (\<lambda>status. case status of
       TxCommitted block number \<Rightarrow>
         if starts_with (tx_purpose r) ''reclaim:''
         then andthen (execute_reclaim_batch (wd_lifecycle d) None) (\<lambda>_. ret ())
         else andthen now (\<lambda>t.
           andthen (mark_tx_state (tx_hash r) ''committed'' (Some t) (Some block)) (\<lambda>_.
           case drop_prefix ''message:'' (tx_purpose r) of
             None \<Rightarrow> ret ()
           | Some logical \<Rightarrow> andthen (get_by_logical_id logical) (\<lambda>m. case m of
               None \<Rightarrow> ret ()
             | Some m \<Rightarrow> when_do (m_state m = Pending) (make_available d m))))
     | TxRejected _ \<Rightarrow> mark_tx_state (tx_hash r) ''rejected'' None None
     | _ \<Rightarrow> ret ())"

definition heal_outgoing :: "('w, 'a, 'b, 'tx) worker_deps \<Rightarrow> message \<Rightarrow> ('x db_scheme, failure, unit) prog" where
  "heal_outgoing d m = andthen (find_latest_by_purpose (''message:'' @ m_logical_id m)) (\<lambda>journal.
     when_do (map_option tx_state journal = Some ''committed'') (make_available d m))"

definition heal_incoming :: "('w, 'a, 'b, 'tx) worker_deps \<Rightarrow> message \<Rightarrow> ('w world, failure, unit) prog" where
  "heal_incoming d m = catching
     (andthen (get_chain_ref (m_id m)) (\<lambda>ref.
      advance_incoming_to_received d (m_id m) (m_state m) (m_conversation_id m) (m_logical_id m)
        (chain_ref_pair ref)))
     (\<lambda>_. ret ())"

definition heal_stranded_incoming :: "('w, 'a, 'b, 'tx) worker_deps \<Rightarrow> ('w world, failure, unit) prog" where
  "heal_stranded_incoming d = andthen (list_by_state [Downloading, Decrypting] 500) (\<lambda>stranded.
     for_each (heal_incoming d) (filter (\<lambda>m. m_direction m = Incoming) stranded))"

definition run_pending_transactions :: "('w, 'a, 'b, 'tx) worker_deps \<Rightarrow> ('w world, failure, unit) prog" where
  "run_pending_transactions d =
     andthen (list_txs_by_state ''submitted'' 500) (\<lambda>submitted.
     andthen (for_each (check_submitted d) submitted) (\<lambda>_.
     andthen (list_by_state [Pending, Committed] 500) (\<lambda>stranded.
     andthen (for_each (heal_outgoing d) stranded) (\<lambda>_.
     heal_stranded_incoming d))))"

section \<open>Balances and reclaim\<close>

definition run_balance_refresh :: "nat \<Rightarrow> ('w, 'a, 'b, 'tx) worker_deps \<Rightarrow> ('w world, failure, unit) prog" where
  "run_balance_refresh fuel d =
     andthen (balance_categories fuel (wd_wallet d) (wd_wallet_lock d) (fst (wd_message_type d))
       (snd (wd_message_type d))) (\<lambda>c.
     set_chain_balances (wd_wallet_id d) (bc_total c) (bc_available c) (Some (bc_reserved c)))"

definition group_outpoints :: "(string \<times> nat) option \<Rightarrow> attachment_manifest_v1 \<Rightarrow> (string \<times> nat) list" where
  "group_outpoints ref m = (case ref of None \<Rightarrow> [] | Some o' \<Rightarrow> [o'])
     @ map (\<lambda>o'. (''0x'' @ bytes_to_hex (op_tx_hash o'), nat (op_index o'))) (am_chunk_outpoints m)"

definition reclaim_group_of ::
  "('w, 'a, 'b, 'tx) worker_deps \<Rightarrow> message \<Rightarrow> ('w world, failure, unit) prog" where
  "reclaim_group_of d m =
     andthen (list_for_message (m_id m)) (\<lambda>as. case List.find (\<lambda>a. at_manifest a \<noteq> None) as of
       None \<Rightarrow> ret ()
     | Some a \<Rightarrow>
         if \<not> at_remote_downloaded a then ret ()
         else andthen (lift_result (map_error (\<lambda>_. OtherError ''decodeAttachmentManifestV1'')
             (decode_attachment_manifest_v1 (wc_manifest (wd_codecs d)) (Buffer (the (at_manifest a)))))) (\<lambda>manifest.
           andthen (find_latest_by_purpose_prefix (group_purpose (am_reclaim_group_id manifest))) (\<lambda>journaled.
           if map_option tx_state journaled = Some ''committed'' then ret ()
           else andthen (get_chain_ref (m_id m)) (\<lambda>ref.
             andthen (reclaim_attachment_group (wd_attach d) (am_reclaim_group_id manifest)
               (group_outpoints (chain_ref_pair ref) manifest) None) (\<lambda>_. ret ())))))"

definition reclaim_attachment_groups :: "('w, 'a, 'b, 'tx) worker_deps \<Rightarrow> ('w world, failure, unit) prog" where
  "reclaim_attachment_groups d = andthen (list_by_state [Reclaimed] 500) (\<lambda>reclaimed.
     for_each (\<lambda>m. catching (reclaim_group_of d m) (\<lambda>_. ret ()))
       (filter (\<lambda>m. m_direction m = Outgoing) reclaimed))"

definition run_reclaim_batch :: "('w, 'a, 'b, 'tx) worker_deps \<Rightarrow> ('w world, failure, unit) prog" where
  "run_reclaim_batch d = andthen now (\<lambda>t.
     andthen (acquire_lease ''reclaim:batch'' (wd_engine_id d) outpoint_lease_ttl t) (\<lambda>lease. case lease of
       None \<Rightarrow> ret ()
     | Some _ \<Rightarrow> finally_do
         (andthen (execute_reclaim_batch (wd_lifecycle d) None) (\<lambda>_. reclaim_attachment_groups d))
         (release_lease ''reclaim:batch'' (wd_engine_id d))))"

section \<open>The worker list\<close>

datatype worker_id =
    IncomingDiscovery | LoraPoll | ResponseSender | PendingTransactions | WatchedOutpoints
  | ReclaimBatchWorker | BalanceRefresh | ProfileRefresh | DatabaseMaintenance

fun worker_interval :: "worker_id \<Rightarrow> int" where
  "worker_interval IncomingDiscovery = 15 * 60000"
| "worker_interval LoraPoll = 30000"
| "worker_interval ResponseSender = 15 * 60000"
| "worker_interval PendingTransactions = 15 * 60000"
| "worker_interval WatchedOutpoints = 30 * 60000"
| "worker_interval ReclaimBatchWorker = 60 * 60000"
| "worker_interval BalanceRefresh = 30 * 60000"
| "worker_interval ProfileRefresh = 6 * 3600000"
| "worker_interval DatabaseMaintenance = 24 * 3600000"

definition requires_network :: "worker_id \<Rightarrow> bool" where
  "requires_network w \<longleftrightarrow> w \<noteq> DatabaseMaintenance"

fun worker_body :: "nat \<Rightarrow> ('w, 'a, 'b, 'tx) worker_deps \<Rightarrow> worker_id \<Rightarrow> ('w world, failure, unit) prog" where
  "worker_body fuel d PendingTransactions = run_pending_transactions d"
| "worker_body fuel d IncomingDiscovery = run_incoming_discovery fuel d"
| "worker_body fuel d LoraPoll = run_lora_poll d"
| "worker_body fuel d ResponseSender = run_response_sender d"
| "worker_body fuel d WatchedOutpoints = andthen (poll_watches_once (wd_lifecycle d)) (\<lambda>_. ret ())"
| "worker_body fuel d ReclaimBatchWorker = run_reclaim_batch d"
| "worker_body fuel d BalanceRefresh = run_balance_refresh fuel d"
| "worker_body fuel d ProfileRefresh = ret ()"
| "worker_body fuel d DatabaseMaintenance = andthen now (\<lambda>t. andthen (prune_expired t) (\<lambda>_. ret ()))"

definition build_worker_specs ::
  "nat \<Rightarrow> ('w, 'a, 'b, 'tx) worker_deps \<Rightarrow> (worker_id \<times> ('w world, failure, unit) prog) list" where
  "build_worker_specs fuel d = map (\<lambda>w. (w, worker_body fuel d w))
     [PendingTransactions, IncomingDiscovery, LoraPoll, ResponseSender, WatchedOutpoints,
      ReclaimBatchWorker, BalanceRefresh, ProfileRefresh, DatabaseMaintenance]"

section \<open>Invariants of the workers\<close>

text \<open>
  What the workers need of the components to keep an invariant of the state: every operation that
  writes keeps it, and so does every call of the environment.
\<close>

locale worker_contract =
  fixes I :: "'w world \<Rightarrow> bool" and d :: "('w, 'a, 'b, 'tx) worker_deps"
  assumes messages: "keeps I (insert_message inp)" "keeps I (transition_message i st)"
      "keeps I (set_envelope_message_id i h)" "keeps I (set_chain_ref i hash n rh rn)"
    and people: "keeps I (get_or_create_for_contact c)" "keeps I (create_contact new)"
    and attachments: "keeps I (create_attachment att)"
    and journal: "keeps I (mark_tx_state h x committed block)"
    and balances: "keeps I (set_chain_balances w tot avail reserved)"
    and leases: "keeps I (acquire_lease r owner ttl t)" "keeps I (release_lease r owner)" "keeps I (prune_expired t)"
    and stores: "keeps I (set_cursor k v)" "keeps I (set_bucket b tokens)"
    and lifecycle: "keeps I (process_acknowledgements (ld_store (wd_lifecycle d)) rs)"
      "keeps I (reserve_committed_capacity (ld_store (wd_lifecycle d)) i)"
      "keeps I (finalize_response_sent (ld_store (wd_lifecycle d)) i h n')"
      "keeps I (execute_reclaim_batch (wd_lifecycle d) timeout)"
      "keeps I (poll_watches_once (wd_lifecycle d))"
    and publisher: "keeps I (publish_text (wd_publisher d) content)"
    and groups: "keeps I (reclaim_attachment_group (wd_attach d) grp outs timeout)"
    and calls: "keeps I (on_env (wd_own_profile d))" "keeps I (on_env (wd_notify d i))"
      "keeps I (on_env (cl_get_transaction (wd_client d) h))" "keeps I (on_env (ix_search (wd_indexer d) bs cursor))"
      "keeps I (on_env (wr_find_cells (wd_wallet d) lock n' cursor))"
      "\<And>f. wd_fetch d = Some f \<Longrightarrow> keeps I (on_env (f url))"
begin

lemmas contract = messages people attachments journal balances leases stores lifecycle publisher groups calls

lemma consume_keeps: "keeps I (consume get_bucket set_bucket cfg scope p t)"
  by (auto simp: consume_def refill_def get_bucket_def Let_def split: option.splits
      intro!: keeps_rules contract)

lemma advance_keeps: "keeps I (advance_incoming_to_received d i origin conv logical cell)"
  by (auto simp: advance_incoming_to_received_def queue_acknowledgement_def get_by_logical_id_def Let_def
      split: option.splits intro!: keeps_rules contract)

lemma save_manifests_keep: "keeps I (save_manifests d i m)"
  by (auto simp: save_manifests_def save_manifest_def list_for_message_def split: option.splits
      intro!: keeps_rules contract)

lemma store_content_keeps: "keeps I (store_content d m source)"
  by (auto simp: store_content_def sender_contact_def get_contact_by_profile_def apply_receipts_def
      split: option.splits prod.splits intro!: keeps_rules contract advance_keeps save_manifests_keep)

lemma ingest_keeps: "keeps I (ingest_incoming_cell_data d own hex source)"
  by (auto simp: ingest_incoming_cell_data_def ingest_message_def is_blocked_by_profile_def apply_receipts_def Let_def
      intro!: keeps_rules contract consume_keeps store_content_keeps)

lemma scan_keeps: "keeps I (scan_pages fuel d own tag cursor)"
proof (induction fuel arbitrary: cursor)
  case (Suc fuel)
  then show ?case
    by (auto simp: find_message_cells_def discover_cell_def process_discovered_cell_def Let_def
        split: sum.splits option.splits intro!: keeps_rules contract ingest_keeps)
qed (simp add: keeps_rules)

lemma discovery_keeps: "keeps I (run_incoming_discovery fuel d)"
  by (auto simp: run_incoming_discovery_def split: option.splits intro!: keeps_rules contract scan_keeps)

lemma poll_tags_keeps:
  assumes "wd_fetch d = Some (lt_fetch T)"
  shows "keeps I (poll_tags codec T since tags objects cursor)"
  by (induction tags arbitrary: objects cursor)
    (auto simp: fetch_json_def fetch_raw_def split: option.splits intro!: keeps_rules contract(20-) assms)

lemma transport_keeps:
  assumes "\<And>T. wd_fetch d = Some (lt_fetch T) \<Longrightarrow> keeps I (f T)"
  shows "keeps I (andthen (lift_result (new_lora_transport url tags (wd_fetch d) None)) f)"
proof (cases "new_lora_transport url tags (wd_fetch d) None")
  case (Inl e)
  then show ?thesis by (simp add: lift_result_def keeps_def andthen_def throw_def)
next
  case (Inr T)
  then have "wd_fetch d = Some (lt_fetch T)"
    by (auto simp: new_lora_transport_def Let_def split: if_splits option.splits)
  from assms [OF this] Inr show ?thesis by (simp add: lift_result_def)
qed

lemma gateway_keeps: "keeps I (poll_gateway d url)"
proof -
  have rest: "keeps I (andthen (for_each (\<lambda>x. catching (ingest_incoming_cell_data d p (bytes_to_hex (lo_cell_data x)) None)
      (\<lambda>_. ret ())) (lr_objects r)) (\<lambda>_. case lr_cursor r of None \<Rightarrow> ret () | Some c \<Rightarrow> set_cursor lora_cursor_name c))"
    for p r by (intro keeps_andthen keeps_for_each keeps_catching keeps_option keeps_ret ingest_keeps stores)
  show ?thesis
    unfolding poll_gateway_def Let_def get_cursor_def lora_poll_def
    by (rule keeps_andthen [OF calls(1)], rule keeps_option [OF keeps_ret], rule keeps_andthen [OF keeps_now],
        rule transport_keeps, rule keeps_andthen [OF keeps_asks], rule keeps_andthen [OF poll_tags_keeps rest])
qed

lemma lora_keeps: "keeps I (run_lora_poll d)"
  unfolding run_lora_poll_def get_setting_def Let_def
  by (intro keeps_andthen keeps_if keeps_option keeps_ret keeps_asks gateway_keeps)

lemma responses_keep: "keeps I (run_response_sender d)"
  by (auto simp: run_response_sender_def list_by_state_def send_response_def get_chain_ref_def get_by_logical_id_def
      response_recipient_def get_conversation_def get_contact_def publish_response_def advance_original_def
      get_message_def Let_def split: option.splits prod.splits intro!: keeps_rules contract)

lemma make_available_keeps: "keeps I (make_available d m)"
  by (auto simp: make_available_def intro!: keeps_rules contract)

lemma pending_keeps: "keeps I (run_pending_transactions d)"
  by (auto simp: run_pending_transactions_def list_txs_by_state_def list_by_state_def check_submitted_def
      get_by_logical_id_def heal_outgoing_def find_latest_by_purpose_def heal_stranded_incoming_def
      heal_incoming_def get_chain_ref_def split: tx_status.splits option.splits
      intro!: keeps_rules contract make_available_keeps advance_keeps)

lemma collect_keeps: "keeps I (collect_loop fuel (wd_wallet d) lock cells cursor)"
  by (induction fuel arbitrary: cells cursor) (auto simp: Let_def intro!: keeps_rules contract)

lemma balances_keep: "keeps I (run_balance_refresh fuel d)"
  by (auto simp: run_balance_refresh_def balance_categories_def collect_cells_def split: prod.splits
      intro!: keeps_rules contract collect_keeps)

lemma reclaim_worker_keeps: "keeps I (run_reclaim_batch d)"
  by (auto simp: run_reclaim_batch_def reclaim_attachment_groups_def reclaim_group_of_def list_by_state_def
      list_for_message_def find_latest_by_purpose_prefix_def get_chain_ref_def split: option.splits
      intro!: keeps_rules contract)

lemma worker_keeps: "keeps I (worker_body fuel d w)"
  by (cases w) (auto intro!: keeps_rules contract discovery_keeps lora_keeps responses_keep pending_keeps
      balances_keep reclaim_worker_keeps)

end

definition run_workers :: "nat \<Rightarrow> ('w, 'a, 'b, 'tx) worker_deps \<Rightarrow> worker_id list \<Rightarrow> 'w world \<Rightarrow> 'w world" where
  "run_workers fuel d ws s = fold (\<lambda>w s. snd (worker_body fuel d w s)) ws s"

lemma run_workers_keep:
  assumes "worker_contract I d" and "I s"
  shows "I (run_workers fuel d ws s)"
  using assms(2) worker_contract.worker_keeps [OF assms(1), THEN keepsD]
  by (induction ws arbitrary: s) (auto simp: run_workers_def)

subsection \<open>The history of messages\<close>

lemma helpers_keep_history:
  "keeps_history (create_contact new)" "keeps_history (set_cursor k v)" "keeps_history (set_bucket b tokens)"
  by (auto simp: create_contact_def set_cursor_def set_bucket_def intro!: keeps_rules)

lemmas operations_keep_history = keeps_history_rules [THEN spec] repo_keeps_history store_keeps_history [THEN spec]
  leases_keep_history [THEN spec] helpers_keep_history [THEN spec] acknowledgements_keep_history [THEN spec]
  reclaim_keeps_history [THEN spec] poll_keeps_history [THEN spec] attachments_keep_chat_history [THEN spec]
  publish_keeps_history

lemma history_contract: "worker_contract (\<lambda>s. history_kept old (db_messages s)) d"
  by unfold_locales (intro operations_keep_history keeps_on_env env_free_history)+

interpretation history: worker_contract "\<lambda>s. history_kept old (db_messages s)" d
  for old and d :: "('w, 'a, 'b, 'tx) worker_deps"
  by (rule history_contract)

subsection \<open>The journal rule\<close>

text \<open>One client for all pipelines, honest pipelines, and calls that send nothing.\<close>

definition honest_workers :: "('w, 'a, 'b, 'tx) worker_deps \<Rightarrow> ('tx \<Rightarrow> string) \<Rightarrow> ('w \<Rightarrow> 'tx set) \<Rightarrow> bool" where
  "honest_workers d txhash sent \<longleftrightarrow>
     ld_client (wd_lifecycle d) = wd_client d \<and> pd_client (wd_publisher d) = wd_client d \<and>
     ac_client (wd_attach d) = wd_client d \<and> honest_deps (wd_lifecycle d) txhash sent \<and>
     honest_publisher (wd_publisher d) txhash sent \<and> honest_attach (wd_attach d) txhash sent \<and>
     silent sent (wd_own_profile d) \<and> (\<forall>i. silent sent (wd_notify d i)) \<and>
     (\<forall>bs c. silent sent (ix_search (wd_indexer d) bs c)) \<and>
     (\<forall>l n c. silent sent (wr_find_cells (wd_wallet d) l n c)) \<and>
     (\<forall>f url. wd_fetch d = Some f \<longrightarrow> silent sent (f url))"

lemma repositories_keep_journal_env:
  "keeps_journal_env (insert_message inp)" "keeps_journal_env (set_envelope_message_id i h)"
  "keeps_journal_env (set_chain_ref i hash n rh rn)" "keeps_journal_env (get_or_create_for_contact c)"
  "keeps_journal_env (create_contact new)" "keeps_journal_env (create_attachment att)"
  "keeps_journal_env (mark_tx_state h x committed block)" "keeps_journal_env (set_chain_balances w tot avail reserved)"
  "keeps_journal_env (acquire_lease r owner ttl t)" "keeps_journal_env (release_lease r owner)"
  "keeps_journal_env (prune_expired t)" "keeps_journal_env (set_cursor k v)" "keeps_journal_env (set_bucket b tokens)"
  by (auto simp: insert_message_def bump_conversation_def set_envelope_message_id_def set_chain_ref_def
      get_or_create_for_contact_def insert_conversation_def create_contact_def create_attachment_def
      mark_tx_state_def set_chain_balances_def get_balance_def update_balance_def acquire_lease_def
      release_lease_def prune_expired_def set_cursor_def set_bucket_def Let_def
      split: option.splits prod.splits intro!: keeps_rules keeps_update_txs)

lemma journaled_contract:
  assumes d: "honest_workers d txhash sent"
  shows "worker_contract (all_journaled (wd_client d) txhash sent) d"
proof -
  have log: "logs_sends (wd_client d) sent" and client: "ld_client (wd_lifecycle d) = wd_client d"
      "pd_client (wd_publisher d) = wd_client d" "ac_client (wd_attach d) = wd_client d"
    and deps: "honest_deps (wd_lifecycle d) txhash sent" "honest_publisher (wd_publisher d) txhash sent"
      "honest_attach (wd_attach d) txhash sent"
    using d by (auto simp: honest_workers_def honest_deps_def)
  have "logs_sends (ld_client (wd_lifecycle d)) sent" using log client by simp
  note pipelines = reclaim_keeps_journaled [OF deps(1), unfolded client]
    poll_keeps_journaled [OF this, unfolded client, where txhash = txhash]
    publish_text_journaled [OF deps(2), unfolded client]
    attachments_keep_journaled(2) [OF deps(3), unfolded client]
  show ?thesis
    by unfold_locales (use d silent_calls(1) [OF log] in
      \<open>auto simp: honest_workers_def intro!: repositories_keep_journal_env [THEN keeps_all_journaled]
        store_keeps_all_journaled acknowledgements_keep_journaled pipelines keeps_silent\<close>)
qed

subsection \<open>Receiving a message\<close>

abbreviation logical_ids :: "'x db_scheme \<Rightarrow> string list" where
  "logical_ids s \<equiv> map m_logical_id (db_messages s)"

abbreviation has_conversation :: "nat \<Rightarrow> 'x db_scheme \<Rightarrow> bool" where
  "has_conversation conv s \<equiv> list_ex (\<lambda>c. cv_id c = conv) (db_conversations s)"

text \<open>The row of an incoming message, with its state.\<close>

definition incoming_row :: "nat \<Rightarrow> string \<Rightarrow> string \<Rightarrow> mstate \<Rightarrow> 'x db_scheme \<Rightarrow> bool" where
  "incoming_row i logical body st s \<longleftrightarrow> (\<exists>r. find_message i s = Some r \<and> m_state r = st \<and>
     m_direction r = Incoming \<and> m_body r = Some body \<and> m_logical_id r = logical)"

text \<open>A queued acknowledgement that names the cell of the message.\<close>

definition acknowledgement_queued :: "string \<Rightarrow> string \<times> nat \<Rightarrow> 'x db_scheme \<Rightarrow> bool" where
  "acknowledgement_queued logical cell s \<longleftrightarrow> (\<exists>r ref. find_by_logical_id (''response:'' @ logical) s = Some r \<and>
     m_state r = Queued \<and> m_direction r = Outgoing \<and> find_chain_ref (m_id r) s = Some ref \<and>
     cr_reply_tx_hash ref = Some (fst cell) \<and> cr_reply_outpoint_index ref = Some (snd cell))"

text \<open>The message is being received: its row is there, no acknowledgement is, and its conversation is.\<close>

definition receiving :: "nat \<Rightarrow> string \<Rightarrow> string \<Rightarrow> nat \<Rightarrow> mstate \<Rightarrow> 'x db_scheme \<Rightarrow> bool" where
  "receiving i logical body conv st s \<longleftrightarrow> incoming_row i logical body st s \<and>
     ''response:'' @ logical \<notin> set (logical_ids s) \<and> has_conversation conv s"

definition received :: "nat \<Rightarrow> string \<Rightarrow> string \<Rightarrow> string \<times> nat \<Rightarrow> 'x db_scheme \<Rightarrow> bool" where
  "received i logical body cell s \<longleftrightarrow> incoming_row i logical body Received s \<and> acknowledgement_queued logical cell s"

lemma find_by_logical_none: "find_by_logical_id l s = None \<longleftrightarrow> l \<notin> set (logical_ids s)"
  by (auto simp: find_by_logical_id_def find_None_list_ex list_ex_iff)

lemma receiving_clock [simp]:
  "receiving i l b c st (s\<lparr>db_clock := t, env := w\<rparr>) = receiving i l b c st s"
  by (simp add: receiving_def incoming_row_def find_message_def)

lemma wp_transition_receiving:
  assumes "receiving i l b c st s" and "can_transition_message Incoming st st'" and "st \<noteq> st'"
    and "\<And>s'. receiving i l b c st' s' \<Longrightarrow> Q () s'"
  shows "wp (transition_message i st') Q E s"
proof -
  obtain r where r: "find_message i s = Some r" "m_state r = st" "m_direction r = Incoming" "m_body r = Some b"
      "m_logical_id r = l" using assms(1) by (auto simp: receiving_def incoming_row_def)
  have "logical_ids (set_state i st' t s) = logical_ids s" for t
    by (simp add: set_state_def map_update_where)
  then have "receiving i l b c st' (set_state i st' t s)" for t
    using assms(1) r by (simp add: receiving_def incoming_row_def) (simp add: set_state_def)
  with r assms(2-4) show ?thesis
    by (simp add: wp_transition_message wp_transition_state)
qed

lemma wp_advance_receiving:
  assumes "receiving i l b c st s" and "index_of st incoming_advance_order = Some k" and "st \<noteq> Received"
    and "\<And>s'. receiving i l b c Received s' \<Longrightarrow> Q () s'"
  shows "wp (for_each (transition_message i) (drop (Suc k) incoming_advance_order)) Q E s"
  using assms
  by (cases st) (auto simp: incoming_advance_order_def wp_andthen wp_ret state_defs
      intro!: wp_transition_receiving)

lemma find_upsert: "p r \<Longrightarrow> List.find p (upsert p (\<lambda>_. r) r rows) = Some r"
  by (induction rows) (auto simp: upsert_def update_where_def)

lemma incoming_row_append:
  "incoming_row i l b st s \<Longrightarrow> incoming_row i l b st (s\<lparr>db_messages := db_messages s @ rs\<rparr>)"
  by (auto simp: incoming_row_def find_message_def find_append)

lemma find_message_bump [simp]: "find_message i (bump_conversation c t s) = find_message i s"
  by (simp add: find_message_def)

lemma wp_queue_acknowledgement:
  assumes "receiving i l b c Received s" and "\<And>s'. received i l b cell s' \<Longrightarrow> Q () s'"
  shows "wp (queue_acknowledgement c l cell) Q E s"
proof -
  let ?inp = "\<lparr>mi_conversation_id = c, mi_direction = Outgoing, mi_body = Some [],
    mi_logical_id = ''response:'' @ l, mi_state = Some Queued, mi_created_at = None\<rparr>"
  let ?r = "new_message ?inp (db_clock s) (db_messages s)"
  let ?s = "bump_conversation c (db_clock s) (s\<lparr>db_messages := db_messages s @ [?r]\<rparr>)"
  have none: "find_by_logical_id (''response:'' @ l) s = None" and conv: "has_conversation c s"
    and row: "incoming_row i l b Received s"
    using assms(1) by (auto simp: receiving_def find_by_logical_none)
  have "find_by_logical_id (''response:'' @ l) ?s = Some ?r"
    using none by (auto simp: find_by_logical_id_def find_append new_message_def)
  moreover have "m_state ?r = Queued" "m_direction ?r = Outgoing" by (simp_all add: new_message_def)
  moreover have "incoming_row i l b Received ?s"
    using incoming_row_append [OF row, of "[?r]"] by (simp add: incoming_row_def)
  moreover have "list_ex (\<lambda>m. m_id m = m_id ?r) (db_messages ?s)" by simp
  ultimately have "wp (set_chain_ref (m_id ?r) None None (Some (fst cell)) (Some (snd cell))) Q E ?s"
    by (auto simp: set_chain_ref_def Let_def wp_rules received_def acknowledgement_queued_def
        find_by_logical_id_def find_chain_ref_def find_upsert incoming_row_def find_message_def intro!: assms(2))
  then show ?thesis
    using none conv by (simp add: queue_acknowledgement_def wp_andthen get_by_logical_id_def wp_asks
        wp_insert_message Let_def)
qed

text \<open>The notifier answers.\<close>

definition notifies :: "('w, 'a, 'b, 'tx) worker_deps \<Rightarrow> bool" where
  "notifies d \<longleftrightarrow> (\<forall>i w. \<exists>w' e. wd_notify d i w = (Inr (), w', e))"

lemma wp_advance_received:
  assumes "receiving i l b c st s" and "strandable st" and "notifies d"
    and "\<And>s'. received i l b cell s' \<Longrightarrow> Q () s'"
  shows "wp (advance_incoming_to_received d i st c l (Some cell)) Q E s"
proof -
  obtain k where k: "index_of st incoming_advance_order = Some k"
    using assms(2) by (auto simp: strandable_def incoming_advance_order_def)
  have st: "st \<noteq> Received" using assms(2) by (auto simp: strandable_def)
  have rest: "wp (andthen (on_env (wd_notify d i)) (\<lambda>_. queue_acknowledgement c l cell)) Q E s'"
    if s': "receiving i l b c Received s'" for s'
  proof -
    obtain w e where "wd_notify d i (env s') = (Inr (), w, e)" using assms(3) unfolding notifies_def by blast
    with s' show ?thesis
      by (auto simp: wp_andthen wp_on_env intro!: wp_queue_acknowledgement assms(4))
  qed
  show ?thesis
    unfolding advance_incoming_to_received_def k option.case wp_andthen [of "for_each _ _"]
    by (rule wp_advance_receiving [OF assms(1) k st]) (rule rest)
qed

lemma wp_set_envelope_receiving:
  assumes "receiving i l b c st s" and "\<And>s'. receiving i l b c st s' \<Longrightarrow> Q () s'"
  shows "wp (set_envelope_message_id i h) Q E s"
proof -
  let ?f = "\<lambda>m. m\<lparr>m_envelope_id := Some h, m_updated_at := db_clock s\<rparr>"
  let ?s = "s\<lparr>db_messages := update_where (\<lambda>m. m_id m = i) ?f (db_messages s)\<rparr>"
  obtain r where r: "find_message i s = Some r" "m_state r = st" "m_direction r = Incoming" "m_body r = Some b"
      "m_logical_id r = l" using assms(1) by (auto simp: receiving_def incoming_row_def)
  have "find_message i ?s = Some (if m_id r = i then ?f r else r)"
    using r(1) by (simp add: find_message_def find_update_where)
  then have "receiving i l b c st ?s"
    using assms(1) r by (auto simp: receiving_def incoming_row_def map_update_where)
  moreover have "list_ex (\<lambda>m. m_id m = i) (db_messages s)"
    using find_some_mem [OF r(1) [unfolded find_message_def]] by (auto simp: list_ex_iff)
  ultimately show ?thesis
    using assms(2) by (simp add: set_envelope_message_id_def wp_rules)
qed

lemma wp_set_chain_ref_receiving:
  assumes "receiving i l b c st s" and "\<And>s'. receiving i l b c st s' \<Longrightarrow> Q () s'"
  shows "wp (set_chain_ref i h n rh rn) Q E s"
proof -
  obtain r where "find_message i s = Some r" using assms(1) by (auto simp: receiving_def incoming_row_def)
  then have "list_ex (\<lambda>m. m_id m = i) (db_messages s)"
    using find_some_mem [of "\<lambda>m. m_id m = i" "db_messages s" r] by (auto simp: find_message_def list_ex_iff)
  moreover have "receiving i l b c st (s\<lparr>db_chain_refs := x\<rparr>)" for x
    using assms(1) by (simp add: receiving_def incoming_row_def find_message_def)
  ultimately show ?thesis
    using assms(2) by (simp add: set_chain_ref_def Let_def wp_rules)
qed

text \<open>The limiter writes buckets and nothing else.\<close>

lemma consume_keeps_rest:
  "keeps (\<lambda>s'. s'\<lparr>db_buckets := x\<rparr> = s\<lparr>db_buckets := x\<rparr>) (consume get_bucket set_bucket cfg scope p t)"
  by (auto simp: consume_def refill_def get_bucket_def set_bucket_def Let_def split: option.splits
      intro!: keeps_rules)

lemma consume_frame:
  assumes "consume get_bucket set_bucket cfg scope p t s = (r, s')"
  shows "s' = s\<lparr>db_buckets := db_buckets s'\<rparr>"
proof -
  have "s'\<lparr>db_buckets := db_buckets s'\<rparr> = s\<lparr>db_buckets := db_buckets s'\<rparr>"
    using keepsD [OF consume_keeps_rest, where s = s] assms by (metis snd_conv)
  then show ?thesis by simp
qed

lemma consume_returns: "wp (consume get_bucket set_bucket cfg scope p t) (\<lambda>_ _. True) (\<lambda>_ _. False) s"
  by (auto simp: consume_def refill_def get_bucket_def set_bucket_def wp_rules Let_def split: option.splits)

lemma find_message_new:
  "find_message (next_id m_id rows) (s\<lparr>db_messages := rows @ [r]\<rparr>)
     = (if m_id r = next_id m_id rows then Some r else None)"
  using next_id_fresh [of m_id rows]
  by (auto simp: find_message_def find_append image_iff split: option.splits dest!: find_some_mem)

lemma wp_store_new_message:
  assumes contact: "find_contact_by_profile (bytes_to_hex (in_sender m)) s = Some c"
    and conv: "find_conversation_of (ct_id c) s = Some conv"
    and fresh: "incoming_logical_message_id (in_message_id m) \<notin> set (logical_ids s)"
      "''response:'' @ incoming_logical_message_id (in_message_id m) \<notin> set (logical_ids s)"
    and plain: "in_manifests m = []" "in_receipts m = []" and notifier: "notifies d"
    and Q: "\<And>s' i. received i (incoming_logical_message_id (in_message_id m)) (stored_text (in_text m)) (h, n) s' \<Longrightarrow> Q () s'"
  shows "wp (store_content d m (Some (h, n))) Q E s"
proof -
  let ?l = "incoming_logical_message_id (in_message_id m)" and ?b = "stored_text (in_text m)"
  let ?inp = "\<lparr>mi_conversation_id = cv_id conv, mi_direction = Incoming, mi_body = Some ?b,
    mi_logical_id = ?l, mi_state = None, mi_created_at = None\<rparr>"
  let ?r = "new_message ?inp (db_clock s) (db_messages s)"
  let ?s = "bump_conversation (cv_id conv) (db_clock s) (s\<lparr>db_messages := db_messages s @ [?r]\<rparr>)"
  have has: "has_conversation (cv_id conv) s"
    using find_some_mem [OF conv [unfolded find_conversation_of_def]] by (auto simp: list_ex_iff)
  have ids: "list_ex (\<lambda>c. cv_id c = x) rows \<longleftrightarrow> x \<in> set (map cv_id rows)" for x rows
    by (induction rows) auto
  have "map cv_id (db_conversations ?s) = map cv_id (db_conversations s)"
    by (simp add: bump_conversation_def map_update_where)
  then have "has_conversation (cv_id conv) ?s"
    using has unfolding ids by (simp only:)
  moreover have "''response:'' @ ?l \<noteq> ?l" by simp
  ultimately have start: "receiving (m_id ?r) ?l ?b (cv_id conv) Discovered ?s"
    using fresh by (auto simp: receiving_def incoming_row_def new_message_def find_message_new)
  have fields: "m_state ?r = Discovered" "m_logical_id ?r = ?l" "strandable Discovered"
    by (simp_all add: new_message_def strandable_def)
  have advance: "wp (andthen (set_envelope_message_id (m_id ?r) (bytes_to_hex (in_message_id m))) (\<lambda>_.
      andthen (set_chain_ref (m_id ?r) (Some h) (Some n) None None) (\<lambda>_.
      advance_incoming_to_received d (m_id ?r) Discovered (cv_id conv) ?l (Some (h, n))))) Q E ?s"
    unfolding wp_andthen
    by (rule wp_set_envelope_receiving [OF start], rule wp_set_chain_ref_receiving, assumption,
        rule wp_advance_received, assumption, rule fields, rule notifier, rule Q)
  have none: "find_by_logical_id ?l s = None" using fresh(1) by (simp only: find_by_logical_none not_False_eq_True)
  show ?thesis
    using contact conv has none plain fields(1,3) advance
    by (simp add: store_content_def sender_contact_def get_contact_by_profile_def wp_andthen wp_asks wp_ret
        get_or_create_for_contact_def wp_insert_message Let_def save_manifests_def wp_when fields(2))
qed

text \<open>A message that is already stored and past the advance.\<close>

lemma wp_store_known_message:
  assumes "find_contact_by_profile (bytes_to_hex (in_sender m)) s = Some c"
    and "find_conversation_of (ct_id c) s = Some conv"
    and "find_by_logical_id (incoming_logical_message_id (in_message_id m)) s = Some r"
    and "\<not> strandable (m_state r)" and "in_manifests m = []" and "in_receipts m = []"
  shows "wp (store_content d m source) Q E s = Q () s"
  using assms by (simp add: store_content_def sender_contact_def get_contact_by_profile_def wp_rules
      get_or_create_for_contact_def wp_insert_message save_manifests_def)

lemma ingest_known:
  assumes "find_contact_by_profile (bytes_to_hex (in_sender m)) s = Some c" and "\<not> ct_blocked c"
    and "find_conversation_of (ct_id c) s = Some conv"
    and "find_by_logical_id (incoming_logical_message_id (in_message_id m)) s = Some r"
    and "\<not> strandable (m_state r)" and "in_manifests m = []" and "in_receipts m = []"
  shows "ingest_message d m source s = (Inr (),
     snd (consume get_bucket set_bucket (wd_rate d) Incoming (Some (bytes_to_hex (in_sender m))) (db_clock s) s))"
proof -
  let ?consume = "consume get_bucket set_bucket (wd_rate d) Incoming (Some (bytes_to_hex (in_sender m))) (db_clock s)"
  obtain ok s1 where run: "?consume s = (Inr ok, s1)"
    using consume_returns [of "wd_rate d" Incoming "Some (bytes_to_hex (in_sender m))" "db_clock s" s]
    by (auto simp: wp_def split: prod.splits sum.splits)
  obtain b where s1: "s1 = s\<lparr>db_buckets := b\<rparr>" using consume_frame [OF run] by blast
  have "wp (store_content d m source) (\<lambda>_ t. t = s1) (\<lambda>_ _. False) s1"
    by (subst wp_store_known_message [of m _ c conv r])
      (use assms in \<open>auto simp: s1 find_contact_by_profile_def find_conversation_of_def
        find_by_logical_id_def\<close>)
  then have "store_content d m source s1 = (Inr (), s1)" by (auto simp: wp_def split: prod.splits sum.splits)
  with run assms(1,2,7) show ?thesis
    by (simp add: ingest_message_def is_blocked_by_profile_def asks_def now_def andthen_def ret_def Let_def)
qed

lemma worker_bytes_hex: "worker_bytes (bytes_to_hex bs) = Inr bs"
proof -
  have "list_all is_hex (bytes_to_hex bs)"
    using bytes_to_hex_lower [of bs] by (auto simp: list_all_iff lower_hex_is_hex)
  moreover from this have "\<not> starts_with (bytes_to_hex bs) ''0x''"
  proof -
    have "\<not> is_lower_hex CHR ''x''" by (simp add: is_lower_hex_def hex_digits_def)
    then have "CHR ''x'' \<notin> set (bytes_to_hex bs)" using bytes_to_hex_lower [of bs] by (auto simp: list_all_iff)
    then show ?thesis by (cases "bytes_to_hex bs" rule: hex_pairs.cases) (auto simp: starts_with_def)
  qed
  ultimately show ?thesis by (simp add: worker_bytes_def worker_hex_to_bytes_def map_error_def)
qed

lemma new_message_received:
  assumes "find_contact_by_profile (bytes_to_hex (in_sender m)) s = Some c" and "\<not> ct_blocked c"
    and "find_conversation_of (ct_id c) s = Some conv"
    and "incoming_logical_message_id (in_message_id m) \<notin> set (logical_ids s)"
    and "''response:'' @ incoming_logical_message_id (in_message_id m) \<notin> set (logical_ids s)"
    and "in_manifests m = []" and "in_receipts m = []" and "notifies d"
    and "consume get_bucket set_bucket (wd_rate d) Incoming (Some (bytes_to_hex (in_sender m))) (db_clock s) s = (Inr True, s1)"
  shows "\<exists>s' i. ingest_message d m (Some (h, n)) s = (Inr (), s') \<and>
     received i (incoming_logical_message_id (in_message_id m)) (stored_text (in_text m)) (h, n) s'"
proof -
  obtain b where s1: "s1 = s\<lparr>db_buckets := b\<rparr>" using consume_frame [OF assms(9)] by blast
  have "wp (store_content d m (Some (h, n))) (\<lambda>_ s'. \<exists>i. received i (incoming_logical_message_id (in_message_id m))
      (stored_text (in_text m)) (h, n) s') (\<lambda>_ _. False) s1"
    by (rule wp_store_new_message [of m _ c conv])
      (use assms in \<open>auto simp: s1 find_contact_by_profile_def find_conversation_of_def\<close>)
  then have "wp (ingest_message d m (Some (h, n))) (\<lambda>_ s'. \<exists>i. received i (incoming_logical_message_id (in_message_id m))
      (stored_text (in_text m)) (h, n) s') (\<lambda>_ _. False) s"
    using assms(1,2,7,9)
    by (simp add: ingest_message_def is_blocked_by_profile_def wp_rules Let_def) (simp add: wp_def)
  then show ?thesis by (auto simp: wp_def split: prod.splits sum.splits)
qed

subsection \<open>The limiter at its last token\<close>

lemma sender_bucket_distinct: "bucket_key scope (bytes_to_hex b) \<noteq> bucket_key scope ''global''"
proof -
  have "\<not> is_lower_hex CHR ''g''" by (simp add: is_lower_hex_def hex_digits_def)
  then have "bytes_to_hex b \<noteq> ''global''"
    using bytes_to_hex_lower [of b] by (auto simp: list_all_iff)
  then show ?thesis by (simp add: bucket_key_def)
qed

lemma consume_exhausts:
  assumes bucket: "db_buckets s (bucket_key scope p) = Some (x, t)" "x < 2"
    and p: "bucket_key scope p \<noteq> bucket_key scope ''global''"
    and first: "consume get_bucket set_bucket cfg scope (Some p) t s = (Inr ok, s1)"
  shows "\<exists>s2. consume get_bucket set_bucket cfg scope (Some p) t s1 = (Inr False, s2)"
  using bucket first p
  by (cases "db_buckets s (bucket_key scope ''global'')")
    (auto simp: consume_def refill_def get_bucket_def set_bucket_def prog_defs hour_ms_def min_def Let_def
      split: if_splits)

subsection \<open>Scanning\<close>

lemma discover_cell_returns: "wp (discover_cell d own c) (\<lambda>_ _. True) (\<lambda>_ _. False) s"
proof -
  have any: "wp m (\<lambda>_ _. True) (\<lambda>_ _. True) t" for m :: "('s, failure, 'z) prog" and t
    by (simp add: wp_def split: prod.splits sum.splits)
  show ?thesis
    by (auto simp: discover_cell_def release_lease_def wp_rules wp_acquire_lease any Let_def split: option.splits)
qed

lemma discover_cells_return: "wp (for_each (discover_cell d own) cs) (\<lambda>_ _. True) (\<lambda>_ _. False) s"
  by (rule wp_for_each) (simp_all add: discover_cell_returns)

text \<open>An indexer that always has another page.\<close>

definition endless :: "'w indexer \<Rightarrow> bool" where
  "endless ix \<longleftrightarrow> (\<forall>bs cursor w. length bs = 33 \<longrightarrow> (\<exists>page w' e c cs. ix_search ix bs cursor w = (Inr page, w', e) \<and>
     filter_cells (ix_bytes_from ix) bs (pg_cells page) = Inr (c # cs) \<and>
     pg_last_cursor page \<noteq> ''0x'' \<and> pg_last_cursor page \<noteq> []))"

lemma endless_scan:
  assumes ix: "endless (wd_indexer d)" and tag: "length tag = 32"
  shows "wp (scan_pages fuel d own tag cursor) (\<lambda>_ _. False) (\<lambda>e _. e = out_of_fuel) s"
proof (induction fuel arbitrary: cursor s)
  case (Suc fuel cursor s)
  obtain page w' e c cs where call: "ix_search (wd_indexer d) ([1] @ tag) cursor (env s) = (Inr page, w', e)"
    "filter_cells (ix_bytes_from (wd_indexer d)) ([1] @ tag) (pg_cells page) = Inr (c # cs)"
    "pg_last_cursor page \<noteq> ''0x''" "pg_last_cursor page \<noteq> []"
    using ix [unfolded endless_def, rule_format, of "[1] @ tag" cursor "env s"] tag by auto
  let ?s = "s\<lparr>db_clock := db_clock s + int e, env := w'\<rparr>"
  have "wp (for_each (discover_cell d own) (c # cs)) (\<lambda>_ t. wp (scan_pages fuel d own tag (Some (pg_last_cursor page)))
      (\<lambda>_ _. False) (\<lambda>e _. e = out_of_fuel) t) (\<lambda>e _. e = out_of_fuel) ?s"
    by (rule wp_mono [OF discover_cells_return]) (auto intro: Suc.IH)
  with call tag show ?case
    by (simp add: find_message_cells_def build_route_tag_prefix_def wp_andthen wp_on_env wp_ret)
qed (simp add: wp_throw)

section \<open>Properties\<close>

text \<open>
  C6. The background workers never lose or rewrite a message: through any sequence of runs of any of
  the workers, with any answers of node, indexer, gateway and pipelines, and whatever was decrypted
  from hostile cells, every stored message keeps its row, identity and text, and its state moves
  only along legal transitions.
\<close>

theorem workers_keep_conversations:
  assumes "messages_ok (db_messages s)"
  shows "history_kept (db_messages s) (db_messages (run_workers fuel d ws s))"
  by (rule run_workers_keep [OF history_contract]) (simp add: assms)

text \<open>
  C2. The journal rule holds for the whole device: if every transaction sent so far has a journal row,
  the same holds after any sequence of worker runs, that is after any interleaving of publishing
  responses, reclaiming messages and attachment groups, resuming and healing.
\<close>

theorem workers_journal_before_sending:
  assumes "honest_workers d txhash sent" and "all_journaled (wd_client d) txhash sent s"
  shows "all_journaled (wd_client d) txhash sent (run_workers fuel d ws s)"
  using run_workers_keep [OF journaled_contract [OF assms(1)] assms(2)] .

text \<open>
  A blocked sender leaves no trace: a message of a sender whose contact is blocked changes nothing
  at all, whatever it carries.
\<close>

theorem blocked_sender_leaves_no_trace:
  assumes "process_incoming_text (wd_suite d) (wd_codecs d) cell_data (wd_secret_key d) own = Inr m"
    and "worker_bytes hex = Inr cell_data"
    and "find_contact_by_profile (bytes_to_hex (in_sender m)) s = Some c" and "ct_blocked c"
  shows "ingest_incoming_cell_data d own hex source s = (Inr (), s)"
  using assms by (simp add: ingest_incoming_cell_data_def ingest_message_def is_blocked_by_profile_def
      lift_result_def map_error_def asks_def andthen_def ret_def Let_def)

text \<open>
  A message sent within the last 30 days, by the clocks of both devices, carries a route tag that
  the recipient's discovery scans for.
\<close>

theorem sent_message_is_scanned_for:
  assumes "assemble_text_message blake2b S W D p = Inr m"
    and "as_now p \<le> t" and "t < as_now p + 30 * 24 * 3600 * 1000"
  shows "am_route_tag m \<in> set (scanned_tags blake2b (as_recipient p) t)"
proof -
  have tag: "am_route_tag m = derive_route_tag blake2b (as_recipient p) (current_routing_epoch (as_now p))"
    using assms(1) by (auto simp: assemble_text_message_def sum_bind_def map_error_def Let_def
        split: sum.splits validation.splits)
  have "current_routing_epoch (as_now p) \<le> current_routing_epoch t"
    using assms(2) by (simp add: current_routing_epoch_def zdiv_mono1)
  moreover have "current_routing_epoch t \<le> current_routing_epoch (as_now p) + 1"
  proof -
    have "current_routing_epoch t \<le> (as_now p + 2592000000) div 2592000000"
      using assms(3) unfolding current_routing_epoch_def by (simp add: zdiv_mono1)
    then show ?thesis by (simp add: current_routing_epoch_def)
  qed
  ultimately have "current_routing_epoch (as_now p) \<in> {current_routing_epoch t, current_routing_epoch t - 1}"
    by auto
  then show ?thesis by (auto simp: tag scanned_tags_def Let_def)
qed

text \<open>
  C1. A sent message arrives: a text message that was assembled for this device by a known contact with
  a conversation, and that the limiter lets pass, is decrypted from its cell, stored in the state
  \<open>received\<close> under its text, and one acknowledgement that names the cell is queued; no step fails.
\<close>

theorem sent_text_arrives:
  assumes "assemble_text_message blake2b (wd_suite d) (wd_codecs d) D p = Inr m"
    and "key_pair (wd_suite d) (as_kem_public_key p) (wd_secret_key d)" "aead_ok (wd_suite d)"
      "decodes (wc_envelope (wd_codecs d))" "decodes (wc_payload (wd_codecs d))"
    and "length (as_recipient p) = 32" "\<forall>c \<in> set (as_text p). scalar c" "as_content_type p \<in> {None, Some 1, Some 3}"
    and "as_manifests p = []" "as_receipts p = []" "notifies d"
    and "find_contact_by_profile (bytes_to_hex (as_sender p)) s = Some c" "\<not> ct_blocked c"
      "find_conversation_of (ct_id c) s = Some conv"
    and "incoming_logical_message_id (am_message_id m) \<notin> set (logical_ids s)"
      "''response:'' @ incoming_logical_message_id (am_message_id m) \<notin> set (logical_ids s)"
    and "consume get_bucket set_bucket (wd_rate d) Incoming (Some (bytes_to_hex (as_sender p))) (db_clock s) s = (Inr True, s1)"
  shows "\<exists>s' i. ingest_incoming_cell_data d (as_recipient p) (bytes_to_hex (am_envelope m)) (Some (h, n)) s = (Inr (), s') \<and>
     received i (incoming_logical_message_id (am_message_id m)) (stored_text (drop_bom (as_text p))) (h, n) s'"
proof -
  obtain x where x: "process_incoming_text (wd_suite d) (wd_codecs d) (am_envelope m) (wd_secret_key d) (as_recipient p) = Inr x"
    and fields: "in_sender x = as_sender p" "in_message_id x = am_message_id m" "in_text x = drop_bom (as_text p)"
      "in_manifests x = []" "in_receipts x = []"
    using assembled_is_processed [OF assms(2,3,4,5,1,6,7,8)] assms(9,10) by simp
  have "ingest_incoming_cell_data d (as_recipient p) (bytes_to_hex (am_envelope m)) source s = ingest_message d x source s"
    for source by (simp add: ingest_incoming_cell_data_def worker_bytes_hex x map_error_def lift_result_def andthen_def ret_def)
  moreover have "\<exists>s' i. ingest_message d x (Some (h, n)) s = (Inr (), s') \<and>
      received i (incoming_logical_message_id (in_message_id x)) (stored_text (in_text x)) (h, n) s'"
    by (rule new_message_received) (use assms(11-) in \<open>simp_all add: fields\<close>)
  ultimately show ?thesis by (simp add: fields)
qed

text \<open>
  Scanning a cell again stores nothing new but is charged again: ingesting a text message that is
  already stored and received has exactly the effect of taking a token from the incoming limit of
  its sender and from the global one.
\<close>

theorem rescanned_message_is_charged:
  assumes "find_contact_by_profile (bytes_to_hex (in_sender m)) s = Some c" and "\<not> ct_blocked c"
    and "find_conversation_of (ct_id c) s = Some conv"
    and "find_by_logical_id (incoming_logical_message_id (in_message_id m)) s = Some r"
    and "\<not> strandable (m_state r)" and "in_manifests m = []" and "in_receipts m = []"
  shows "ingest_message d m source s = (Inr (),
     snd (consume get_bucket set_bucket (wd_rate d) Incoming (Some (bytes_to_hex (in_sender m))) (db_clock s) s))"
  using assms by (rule ingest_known)

text \<open>
  The charge starves new messages: when the sender has less than two tokens left, scanning an
  already received message of the sender leaves none for a new one, which is then not stored. The
  indexer lists cells in the order of their type args, so this happens in every run for the same
  cells as long as enough older ones are live.
\<close>

theorem rescan_starves_new_message:
  assumes "find_contact_by_profile (bytes_to_hex (in_sender m)) s = Some c" and "\<not> ct_blocked c"
    and "find_conversation_of (ct_id c) s = Some conv"
    and "find_by_logical_id (incoming_logical_message_id (in_message_id m)) s = Some r"
    and "\<not> strandable (m_state r)" and "in_manifests m = []" and "in_receipts m = []"
    and "db_buckets s (bucket_key Incoming (bytes_to_hex (in_sender m))) = Some (x, db_clock s)" and "x < 2"
    and "in_sender new = in_sender m" and "in_text new \<noteq> []"
  shows "db_messages (snd (ingest_message d new source' (snd (ingest_message d m source s)))) = db_messages s"
proof -
  let ?sender = "bytes_to_hex (in_sender m)"
  let ?consume = "consume get_bucket set_bucket (wd_rate d) Incoming (Some ?sender) (db_clock s)"
  obtain ok s1 where run: "?consume s = (Inr ok, s1)"
    using consume_returns [of "wd_rate d" Incoming "Some ?sender" "db_clock s" s]
    by (auto simp: wp_def split: prod.splits sum.splits)
  obtain b where s1: "s1 = s\<lparr>db_buckets := b\<rparr>" using consume_frame [OF run] by blast
  obtain s2 where run': "?consume s1 = (Inr False, s2)"
    using consume_exhausts [OF assms(8,9) sender_bucket_distinct run] by blast
  obtain b' where s2: "s2 = s1\<lparr>db_buckets := b'\<rparr>" using consume_frame [OF run'] by blast
  have "ingest_message d m source s = (Inr (), s1)"
    unfolding ingest_known [OF assms(1-7)] run by simp
  moreover have "ingest_message d new source' s1 = (Inr (), s2)"
    using run' assms(1,2,10,11)
    by (simp add: ingest_message_def is_blocked_by_profile_def find_contact_by_profile_def asks_def now_def
        andthen_def ret_def Let_def s1)
  ultimately show ?thesis by (simp add: s1 s2)
qed


text \<open>
  A page without a match ends the scan: when the filter drops every cell of a page that the
  indexer served, discovery stops there, whatever the cursor of the page, and never asks for the
  pages behind it.
\<close>

theorem filtered_page_ends_scan:
  assumes "length tag = 32" and "ix_search (wd_indexer d) ([1] @ tag) cursor (env s) = (Inr page, w, e)"
    and "filter_cells (ix_bytes_from (wd_indexer d)) ([1] @ tag) (pg_cells page) = Inr []"
  shows "scan_pages (Suc fuel) d own tag cursor s = (Inr (), s\<lparr>db_clock := db_clock s + int e, env := w\<rparr>)"
  using assms by (simp add: find_message_cells_def build_route_tag_prefix_def on_env_def prog_defs)

text \<open>
  The page loop has no bound of its own: against an indexer that always serves another page with
  a matching cell, discovery exhausts any amount of fuel, so the run of the worker never ends.
\<close>

theorem endless_indexer_never_ends:
  assumes "endless (wd_indexer d)" and "\<And>w. \<exists>w' e. wd_own_profile d w = (Inr (Some own), w', e)"
    and "\<And>epoch. length (derive_route_tag (wd_blake2b d) own epoch) = 32"
  shows "\<exists>s'. run_incoming_discovery fuel d s = (Inl out_of_fuel, s')"
proof -
  obtain w' e where own: "wd_own_profile d (env s) = (Inr (Some own), w', e)" using assms(2) by blast
  have "wp (for_each (\<lambda>tag. scan_pages fuel d own tag None) (scanned_tags (wd_blake2b d) own t))
      (\<lambda>_ _. False) (\<lambda>e _. e = out_of_fuel) s'" for t s'
    by (simp add: scanned_tags_def Let_def wp_andthen) (rule wp_mono [OF endless_scan [OF assms(1,3)]], auto)
  then have "wp (run_incoming_discovery fuel d) (\<lambda>_ _. False) (\<lambda>e _. e = out_of_fuel) s"
    using own by (simp add: run_incoming_discovery_def wp_andthen wp_on_env wp_now)
  then show ?thesis by (auto simp: wp_def split: prod.splits sum.splits)
qed

section \<open>A sample device\<close>

text \<open>The sample pipelines, an indexer that serves a matching cell and a cursor for ever, and a sender
  with the profile id \<open>03...03\<close> whose messages carry two characters of text. A type argument is
  written as its bytes.\<close>

definition sample_args :: "string \<Rightarrow> bytes" where
  "sample_args = map (\<lambda>c. word_of_nat (of_char c))"

definition sample_cell :: "bytes \<Rightarrow> indexed_cell" where
  "sample_cell route = \<lparr>ic_type_args = Some (map (\<lambda>b. char_of (unat b)) (route @ replicate 48 0)),
     ic_data = ''05'', ic_tx_hash = ''0x9'', ic_index = ''0x0''\<rparr>"

definition sample_indexer :: "string list indexer" where
  "sample_indexer = \<lparr>ix_bytes_from = Inr \<circ> sample_args,
     ix_search = (\<lambda>bs _ w. (Inr \<lparr>pg_cells = [sample_cell bs], pg_last_cursor = ''next''\<rparr>, w, 1))\<rparr>"

definition sample_workers :: "(string list, string, string, string) worker_deps" where
  "sample_workers = \<lparr>wd_client = sample_client,
     wd_indexer = sample_indexer,
     wd_lifecycle = sample_deps,
     wd_publisher = \<lparr>pd_client = sample_client, pd_store = Some 1, pd_sender_profile = (\<lambda>w. (Inr [], w, 0)),
       pd_assemble = (\<lambda>c _ w. (Inr (stored_text (mc_text c)), w, 0)), pd_message_id = (\<lambda>_. []),
       pd_build = (\<lambda>a w. (Inr a, w, 0)), pd_fee = (\<lambda>_. 1), pd_cell_capacity = (\<lambda>_. Some 61),
       pd_sign = (\<lambda>b w. (Inr b, w, 0)), pd_hash = (\<lambda>b. b), pd_wire = (\<lambda>b. b)\<rparr>,
     wd_attach = sample_attach, wd_blake2b = sample_hash, wd_suite = sample_suite, wd_codecs = sample_wire,
     wd_rate = default_rate_limits, wd_wallet_id = 1,
     wd_wallet = \<lparr>wr_find_cells = (\<lambda>_ _ _ w. (Inr \<lparr>wp_cells = [], wp_cursor = []\<rparr>, w, 1)),
       wr_find_transactions = (\<lambda>_ _ _ w. (Inr \<lparr>ip_transactions = [], ip_cursor = []\<rparr>, w, 1)),
       wr_transaction_body = (\<lambda>_ w. (Inr None, w, 1))\<rparr>,
     wd_wallet_lock = sample_lock, wd_message_type = (''0xaa'', ''type''), wd_notify = (\<lambda>_ w. (Inr (), w, 1)),
     wd_engine_id = ''phone'', wd_own_profile = (\<lambda>w. (Inr (Some (replicate 32 4)), w, 1)),
     wd_secret_key = replicate 2400 0, wd_lora_base_url = None, wd_fetch = None\<rparr>"

definition sample_sender :: contact where
  "sample_sender = \<lparr>ct_id = 1, ct_display_name = ''Alice'', ct_notes = [], ct_avatar = None,
     ct_profile_id = Some (bytes_to_hex (replicate 32 3)), ct_type_id = None, ct_ml_dsa_key = None,
     ct_ml_kem_key = None, ct_fingerprint = None, ct_trust_verdict = None, ct_blocked = False,
     ct_created_at = 0, ct_updated_at = 0\<rparr>"

definition sample_incoming :: "nat \<Rightarrow> incoming_message" where
  "sample_incoming n = \<lparr>in_content_type = 1, in_message_id = [word_of_nat n], in_conversation_id = [2],
     in_sender = replicate 32 3, in_text = [104, 105], in_manifests = [], in_reply_to_id = None,
     in_reply_to_outpoint = None, in_receipts = [], in_timestamp = 0, in_device = [], in_attachment_key = []\<rparr>"

text \<open>The first message of the sender, in a given state, in a world with one token left.\<close>

definition first_message :: "mstate \<Rightarrow> message" where
  "first_message st = \<lparr>m_id = 1, m_conversation_id = 1, m_direction = Incoming, m_state = st,
     m_body = Some ''hi'', m_logical_id = incoming_logical_message_id [1], m_envelope_id = Some ''01'',
     m_created_at = 0, m_updated_at = 0\<rparr>"

definition receiving_world :: "mstate \<Rightarrow> string list world" where
  "receiving_world st = db.extend (empty_db\<lparr>db_contacts := [sample_sender],
     db_conversations := [\<lparr>cv_id = 1, cv_contact_id = 1, cv_created_at = 0, cv_last_activity = 0\<rparr>],
     db_messages := [first_message st],
     db_chain_refs := [\<lparr>cr_message_id = 1, cr_tx_hash = Some ''0x9'', cr_outpoint_index = Some 0,
       cr_reply_tx_hash = None, cr_reply_outpoint_index = None\<rparr>],
     db_buckets := [bucket_key Incoming (bytes_to_hex (replicate 32 3)) \<mapsto> (1, 0)]\<rparr>) \<lparr>env = []\<rparr>"

lemma sample_workers_honest: "honest_workers sample_workers (\<lambda>tx. tx) set"
  using sample_attach_honest
  by (auto simp: honest_workers_def honest_deps_def honest_publisher_def logs_sends_def silent_def
      sample_workers_def sample_deps_def sample_client_def sample_attach_def
      sample_indexer_def)

lemma sample_notifies: "notifies sample_workers"
  by (simp add: notifies_def sample_workers_def)

lemma receiving_world_fields [simp]:
  "db_contacts (receiving_world st) = [sample_sender]"
  "db_conversations (receiving_world st) = [\<lparr>cv_id = 1, cv_contact_id = 1, cv_created_at = 0, cv_last_activity = 0\<rparr>]"
  "db_messages (receiving_world st) = [first_message st]" "db_clock (receiving_world st) = 0"
  "env (receiving_world st) = []"
  "db_buckets (receiving_world st) = [bucket_key Incoming (bytes_to_hex (replicate 32 3)) \<mapsto> (1, 0)]"
  "find_chain_ref 1 (receiving_world st) = Some \<lparr>cr_message_id = 1, cr_tx_hash = Some ''0x9'', cr_outpoint_index = Some 0,
     cr_reply_tx_hash = None, cr_reply_outpoint_index = None\<rparr>"
  by (simp_all add: receiving_world_def empty_db_def db.defs find_chain_ref_def)

lemma first_message_fields [simp]:
  "m_id (first_message st) = 1" "m_conversation_id (first_message st) = 1" "m_state (first_message st) = st"
  "m_direction (first_message st) = Incoming" "m_body (first_message st) = Some ''hi''"
  "m_logical_id (first_message st) = incoming_logical_message_id [1]"
  by (simp_all add: first_message_def)

lemma sample_incoming_fields [simp]:
  "in_message_id (sample_incoming n) = [word_of_nat n]" "in_sender (sample_incoming n) = replicate 32 3"
  "in_text (sample_incoming n) = [104, 105]" "in_manifests (sample_incoming n) = []"
  "in_receipts (sample_incoming n) = []"
  by (simp_all add: sample_incoming_def)

lemma sample_conversation:
  "find_contact_by_profile (bytes_to_hex (replicate 32 3)) (receiving_world st) = Some sample_sender"
  "find_conversation_of 1 (receiving_world st)
     = Some \<lparr>cv_id = 1, cv_contact_id = 1, cv_created_at = 0, cv_last_activity = 0\<rparr>"
  "find_message 1 (receiving_world st) = Some (first_message st)"
  "find_by_logical_id (incoming_logical_message_id [1]) (receiving_world st) = Some (first_message st)"
  by (simp_all add: find_contact_by_profile_def find_conversation_of_def find_by_logical_id_def
      find_message_def sample_sender_def)

lemma sample_sender_open [simp]: "ct_id sample_sender = 1" "\<not> ct_blocked sample_sender"
  by (simp_all add: sample_sender_def)

lemma sample_device: "wd_suite sample_workers = sample_suite" "wd_codecs sample_workers = sample_wire"
  "wd_secret_key sample_workers = replicate 2400 0"
  by (simp_all add: sample_workers_def)

lemma sample_processed:
  assumes "assemble_text_message sample_hash sample_suite sample_wire sample_draws sample_assemble = Inr m"
  shows "\<exists>x. process_incoming_text sample_suite sample_wire (am_envelope m) (replicate 2400 0) (replicate 32 4) = Inr x
    \<and> in_sender x = replicate 32 3"
  using assembled_is_processed [OF sample_suite_ok(2) sample_suite_ok(1) sample_wire_ok assms, of "replicate 2400 0"]
  by (simp add: sample_assemble_def scalar_def surrogate_def)

theorem workers_keep_conversations_witness:
  "history_kept [reclaimable_message] (db_messages (run_workers 3 sample_workers
     [ReclaimBatchWorker, IncomingDiscovery, PendingTransactions] sample_world))"
  using workers_keep_conversations [of sample_world 3 sample_workers
    "[ReclaimBatchWorker, IncomingDiscovery, PendingTransactions]"]
  by (simp add: sample_world_def messages_ok_def table_ok_def db.defs empty_db_def)

theorem workers_journal_before_sending_witness:
  "all_journaled sample_client (\<lambda>tx. tx) set (run_workers 3 sample_workers
     [ReclaimBatchWorker, IncomingDiscovery, PendingTransactions] sample_world)"
proof -
  have "all_journaled (wd_client sample_workers) (\<lambda>tx. tx) set sample_world"
    by (simp add: all_journaled_def journal_keys_def sample_world_def empty_db_def db.defs)
  from workers_journal_before_sending [OF sample_workers_honest this]
  show ?thesis by (simp add: sample_workers_def)
qed

theorem sent_message_is_scanned_for_witness:
  "\<exists>m. assemble_text_message sample_hash sample_suite sample_wire sample_draws sample_assemble = Inr m
     \<and> am_route_tag m \<in> set (scanned_tags sample_hash (replicate 32 4) 1700000000001)"
proof -
  obtain m where m: "assemble_text_message sample_hash sample_suite sample_wire sample_draws sample_assemble = Inr m"
    using sample_assembled by blast
  have "as_now sample_assemble = 1700000000000" "as_recipient sample_assemble = replicate 32 4"
    by (simp_all add: sample_assemble_def)
  with sent_message_is_scanned_for [OF m, of 1700000000001] m show ?thesis by auto
qed

theorem blocked_sender_leaves_no_trace_witness:
  "\<exists>m. assemble_text_message sample_hash sample_suite sample_wire sample_draws sample_assemble = Inr m \<and>
     (let s = receiving_world Received\<lparr>db_contacts := [sample_sender\<lparr>ct_blocked := True\<rparr>]\<rparr> in
      ingest_incoming_cell_data sample_workers (replicate 32 4) (bytes_to_hex (am_envelope m)) None s = (Inr (), s))"
proof -
  let ?s = "receiving_world Received\<lparr>db_contacts := [sample_sender\<lparr>ct_blocked := True\<rparr>]\<rparr>"
  obtain m where m: "assemble_text_message sample_hash sample_suite sample_wire sample_draws sample_assemble = Inr m"
    using sample_assembled by blast
  obtain x where x: "process_incoming_text sample_suite sample_wire (am_envelope m) (replicate 2400 0) (replicate 32 4) = Inr x"
      "in_sender x = replicate 32 3"
    using sample_processed [OF m] by auto
  have contact: "find_contact_by_profile (bytes_to_hex (in_sender x)) ?s = Some (sample_sender\<lparr>ct_blocked := True\<rparr>)"
    by (simp add: x find_contact_by_profile_def sample_sender_def)
  have "ingest_incoming_cell_data sample_workers (replicate 32 4) (bytes_to_hex (am_envelope m)) None ?s = (Inr (), ?s)"
    by (rule blocked_sender_leaves_no_trace [OF _ worker_bytes_hex contact]) (simp_all add: x(1) sample_device)
  with m show ?thesis by (auto simp: Let_def)
qed

theorem sent_text_arrives_witness:
  "\<exists>m s' i. assemble_text_message sample_hash sample_suite sample_wire sample_draws sample_assemble = Inr m \<and>
     ingest_incoming_cell_data sample_workers (replicate 32 4) (bytes_to_hex (am_envelope m)) (Some (''0xa'', 0))
       (receiving_world Received) = (Inr (), s') \<and>
     received i (incoming_logical_message_id (replicate 16 1)) (stored_text [104, 105, 0x1F600]) (''0xa'', 0) s'"
proof -
  obtain m where m: "assemble_text_message sample_hash sample_suite sample_wire sample_draws sample_assemble = Inr m"
    using sample_assembled by blast
  have id: "am_message_id m = replicate 16 1"
    using m by (auto simp: assemble_text_message_def sum_bind_def map_error_def Let_def payload_of_def
        sample_draws_def sample_assemble_def split: sum.splits validation.splits)
  have new: "incoming_logical_message_id (replicate 16 1) \<noteq> incoming_logical_message_id [1]"
    "''response:'' @ incoming_logical_message_id (replicate 16 1) \<noteq> incoming_logical_message_id [1]"
    by (rule notI, drule arg_cong [where f = length], simp add: incoming_logical_message_id_def)+
  let ?p = "bytes_to_hex (replicate 32 3)"
  have "bucket_key Incoming ?p \<noteq> bucket_key Incoming ''global''" by (rule sender_bucket_distinct)
  then obtain s1 where pass: "consume get_bucket set_bucket (wd_rate sample_workers) Incoming (Some ?p) 0
      (receiving_world Received) = (Inr True, s1)"
    by (simp add: consume_def refill_def get_bucket_def set_bucket_def prog_defs hour_ms_def
        sample_workers_def default_rate_limits_def Let_def)
  have sent: "as_recipient sample_assemble = replicate 32 4" "as_sender sample_assemble = replicate 32 3"
      "as_text sample_assemble = [104, 105, 0x1F600]" "as_manifests sample_assemble = []"
      "as_receipts sample_assemble = []" "as_content_type sample_assemble = None"
      "as_kem_public_key sample_assemble = replicate 1184 0"
    by (simp_all add: sample_assemble_def)
  have "\<exists>s' i. ingest_incoming_cell_data sample_workers (as_recipient sample_assemble) (bytes_to_hex (am_envelope m))
      (Some (''0xa'', 0)) (receiving_world Received) = (Inr (), s') \<and>
     received i (incoming_logical_message_id (am_message_id m)) (stored_text (drop_bom (as_text sample_assemble))) (''0xa'', 0) s'"
    by (rule sent_text_arrives [of sample_hash sample_workers sample_draws sample_assemble m _ sample_sender
        "\<lparr>cv_id = 1, cv_contact_id = 1, cv_created_at = 0, cv_last_activity = 0\<rparr>" s1])
      (use m new pass sample_conversation [of Received] sample_notifies sample_suite_ok sample_wire_ok in
        \<open>simp_all add: sample_device sent id scalar_def surrogate_def\<close>)
  with m show ?thesis by (auto simp: sent id drop_bom_def)
qed

theorem rescanned_message_is_charged_witness:
  "ingest_message sample_workers (sample_incoming 1) (Some (''0x9'', 0)) (receiving_world Received) = (Inr (),
     snd (consume get_bucket set_bucket default_rate_limits Incoming (Some (bytes_to_hex (replicate 32 3))) 0
       (receiving_world Received)))"
  using rescanned_message_is_charged [of "sample_incoming 1" "receiving_world Received" sample_sender _ "first_message Received"
      sample_workers "Some (''0x9'', 0)"] sample_conversation [of Received]
  by (simp add: sample_workers_def strandable_def)

theorem rescan_starves_new_message_witness:
  "db_messages (snd (ingest_message sample_workers (sample_incoming 2) None
     (snd (ingest_message sample_workers (sample_incoming 1) None (receiving_world Received))))) = [first_message Received]"
  using rescan_starves_new_message [of "sample_incoming 1" "receiving_world Received" sample_sender _ "first_message Received"
      1 "sample_incoming 2" sample_workers None None] sample_conversation [of Received]
  by (simp add: strandable_def)


text \<open>An indexer that ignores the prefix, as a page full of foreign cells would look like.\<close>

definition foreign_indexer :: "string list indexer" where
  "foreign_indexer = sample_indexer\<lparr>ix_search := (\<lambda>_ _ w.
     (Inr \<lparr>pg_cells = [sample_cell (1 # replicate 32 8)], pg_last_cursor = ''next''\<rparr>, w, 1))\<rparr>"

lemma sample_args_inverse [simp]: "sample_args (map (\<lambda>b. char_of (unat b)) bs) = bs"
proof -
  have "of_char (char_of (unat b) :: char) = unat b" for b :: byte
    using unsigned_less [of b, where ?'a = nat] by simp
  then show ?thesis by (simp add: sample_args_def o_def)
qed

lemma sample_cell_matches:
  assumes "length route = 33" and "length pre = 33"
  shows "is_message_cell (Inr \<circ> sample_args) pre (sample_cell route) = Inr (route = pre)"
  using assms sample_args_inverse [of "route @ replicate 48 0"]
  by (simp add: is_message_cell_def sample_cell_def sample_args_def V1_LIMITS_def del: sample_args_inverse)

theorem filtered_page_ends_scan_witness:
  "scan_pages (Suc 6) (sample_workers\<lparr>wd_indexer := foreign_indexer\<rparr>) [] (replicate 32 7) None (receiving_world Received)
     = (Inr (), receiving_world Received\<lparr>db_clock := 1\<rparr>)"
proof -
  let ?page = "\<lparr>pg_cells = [sample_cell (1 # replicate 32 8)], pg_last_cursor = ''next''\<rparr>"
  have "filter_cells (ix_bytes_from foreign_indexer) ([1] @ replicate 32 7) (pg_cells ?page) = Inr []"
    by (auto simp: foreign_indexer_def sample_indexer_def sample_cell_matches)
  moreover have "ix_search foreign_indexer bs cursor w = (Inr ?page, w, 1)" for bs cursor w
    by (simp add: foreign_indexer_def sample_indexer_def)
  ultimately show ?thesis
    using filtered_page_ends_scan [of "replicate 32 7" "sample_workers\<lparr>wd_indexer := foreign_indexer\<rparr>" None
        "receiving_world Received" ?page "[]" 1 6 "[]"]
    by (simp del: filter_cells.simps scan_pages.simps)
qed

theorem endless_indexer_never_ends_witness:
  "\<exists>s'. run_incoming_discovery 7 sample_workers (receiving_world Received) = (Inl out_of_fuel, s')"
proof -
  have "length (derive_route_tag (wd_blake2b sample_workers) (replicate 32 4) epoch) = 32" for epoch
    by (simp add: sample_workers_def derive_route_tag_def ckb_hash_def sample_hash_def)
  moreover have "endless (wd_indexer sample_workers)"
    by (auto simp: endless_def sample_workers_def sample_indexer_def sample_cell_matches)
  ultimately show ?thesis
    by (intro endless_indexer_never_ends [where own = "replicate 32 4"]) (auto simp: sample_workers_def)
qed

end
