(* ===== verification/Cemp_Trust.thy ===== *)
theory Cemp_Trust
  imports Cemp_Bytes
begin

text \<open>
  Contact profile trust (\<open>cemp-core/src/profile-trust.ts\<close>): the structural check of a rotation
  chain and the verdict a contact screen blocks on. The human-readable \<open>reason\<close> strings are
  constructors carrying the values the source interpolates.
\<close>

section \<open>Data\<close>

record profile_trust_view =
  ptv_profile_id :: bytes
  ptv_ml_dsa_public_key :: bytes
  ptv_ml_kem_public_key :: bytes
  ptv_rotation_sequence :: int
  ptv_previous_profile_id :: "bytes option"
  ptv_revoked :: bool

datatype chain_reason =
    EmptyChain
  | SequenceAt int nat
  | RootNamesPrevious
  | LinkNotNamingPredecessor nat

datatype rotation_chain_result = ChainValid | ChainInvalid chain_reason

record saved_contact_profile =
  scp_profile_id :: bytes
  scp_ml_dsa_public_key :: bytes
  scp_ml_kem_public_key :: bytes

datatype contact_trust_verdict = FirstUse | Trusted | RotationVerified | KeyChangedBlocking

section \<open>Rotation chains\<close>

fun chain_loop :: "profile_trust_view list \<Rightarrow> nat list \<Rightarrow> rotation_chain_result" where
  "chain_loop chain [] = ChainValid"
| "chain_loop chain (i # is) =
     (let link = chain ! i in
      if ptv_rotation_sequence link \<noteq> int i
      then ChainInvalid (SequenceAt (ptv_rotation_sequence link) i)
      else if i = 0 then
        (if ptv_previous_profile_id link \<noteq> None then ChainInvalid RootNamesPrevious
         else chain_loop chain is)
      else
        (case ptv_previous_profile_id link of
           None \<Rightarrow> ChainInvalid (LinkNotNamingPredecessor i)
         | Some previous_id \<Rightarrow>
             if \<not> bytes_equal previous_id (ptv_profile_id (chain ! (i - 1)))
             then ChainInvalid (LinkNotNamingPredecessor i)
             else chain_loop chain is))"

definition validate_rotation_chain :: "profile_trust_view list \<Rightarrow> rotation_chain_result" where
  "validate_rotation_chain chain =
     (if chain = [] then ChainInvalid EmptyChain else chain_loop chain [0..<length chain])"

definition keys_unchanged :: "saved_contact_profile \<Rightarrow> profile_trust_view \<Rightarrow> bool" where
  "keys_unchanged saved fetched =
     (bytes_equal (scp_ml_dsa_public_key saved) (ptv_ml_dsa_public_key fetched) \<and>
      bytes_equal (scp_ml_kem_public_key saved) (ptv_ml_kem_public_key fetched) \<and>
      bytes_equal (scp_profile_id saved) (ptv_profile_id fetched))"

definition evaluate_contact_profile ::
  "saved_contact_profile option \<Rightarrow> profile_trust_view \<Rightarrow> profile_trust_view list
     \<Rightarrow> contact_trust_verdict" where
  "evaluate_contact_profile saved fetched chain = (case saved of
       None \<Rightarrow> FirstUse
     | Some s \<Rightarrow>
         if keys_unchanged s fetched then Trusted
         else if validate_rotation_chain chain = ChainValid \<and> 0 < length chain
           \<and> bytes_equal (ptv_profile_id (hd chain)) (scp_profile_id s)
           \<and> bytes_equal (ptv_profile_id (last chain)) (ptv_profile_id fetched)
         then RotationVerified
         else KeyChangedBlocking)"

section \<open>Lemmas\<close>

text \<open>What a valid chain is, without the loop: the sequence numbers count up from 0 and each
  link names the profile id of the one before it.\<close>

definition rotation_lineage :: "profile_trust_view list \<Rightarrow> bool" where
  "rotation_lineage chain \<longleftrightarrow> chain \<noteq> [] \<and>
     map ptv_rotation_sequence chain = map int [0..<length chain] \<and>
     map ptv_previous_profile_id chain = None # map (Some \<circ> ptv_profile_id) (butlast chain)"

definition link_ok :: "profile_trust_view list \<Rightarrow> nat \<Rightarrow> bool" where
  "link_ok chain i \<longleftrightarrow> ptv_rotation_sequence (chain ! i) = int i \<and>
     ptv_previous_profile_id (chain ! i)
       = (if i = 0 then None else Some (ptv_profile_id (chain ! (i - 1))))"

lemma chain_loop_valid: "chain_loop chain is = ChainValid \<longleftrightarrow> list_all (link_ok chain) is"
  by (induction "is") (auto simp: link_ok_def Let_def split: option.splits)

lemma rotation_lineage_links:
  assumes "chain \<noteq> []"
  shows "rotation_lineage chain \<longleftrightarrow> list_all (link_ok chain) [0..<length chain]"
proof -
  let ?rhs = "None # map (Some \<circ> ptv_profile_id) (butlast chain)"
  have len: "length ?rhs = length chain" using assms by (cases chain) auto
  have nth: "?rhs ! i = (if i = 0 then None else Some (ptv_profile_id (chain ! (i - 1))))"
    if "i < length chain" for i
    using that by (simp add: nth_Cons' nth_butlast)
  have "map ptv_previous_profile_id chain = ?rhs \<longleftrightarrow>
      (\<forall>i < length chain. ptv_previous_profile_id (chain ! i) = ?rhs ! i)"
    using len by (subst list_eq_iff_nth_eq) simp
  moreover have "map ptv_rotation_sequence chain = map int [0..<length chain] \<longleftrightarrow>
      (\<forall>i < length chain. ptv_rotation_sequence (chain ! i) = int i)"
    by (subst list_eq_iff_nth_eq) simp
  ultimately show ?thesis
    using assms by (auto simp: rotation_lineage_def list_all_iff link_ok_def nth)
qed

lemma validate_iff: "validate_rotation_chain chain = ChainValid \<longleftrightarrow> rotation_lineage chain"
proof (cases "chain = []")
  case True
  then show ?thesis by (simp add: validate_rotation_chain_def rotation_lineage_def)
next
  case False
  then show ?thesis
    by (simp add: validate_rotation_chain_def chain_loop_valid rotation_lineage_links)
qed

section \<open>Properties\<close>

text \<open>
  The rotation-chain loop accepts exactly the lineages: non-empty chains whose sequence
  numbers are 0, 1, 2, \<open>\<dots>\<close>, whose root names no predecessor and whose every later link names
  the profile id of the link before it.
\<close>

theorem rotation_chain_check_exact:
  "(validate_rotation_chain chain = ChainValid) =
     (chain \<noteq> [] \<and>
      map ptv_rotation_sequence chain = map int [0..<length chain] \<and>
      map ptv_previous_profile_id chain = None # map (Some \<circ> ptv_profile_id) (butlast chain))"
  using validate_iff [of chain] by (simp add: rotation_lineage_def)

text \<open>
  A known contact is never shown as unblocked by accident: the verdict is the blocking one
  exactly when a saved profile exists, some key or the id differs, and no valid lineage leads
  from the saved profile id to the fetched one.
\<close>

theorem key_change_blocks_without_lineage:
  "(evaluate_contact_profile saved fetched chain = KeyChangedBlocking) =
     (\<exists>s. saved = Some s \<and>
        (scp_profile_id s, scp_ml_dsa_public_key s, scp_ml_kem_public_key s)
          \<noteq> (ptv_profile_id fetched, ptv_ml_dsa_public_key fetched, ptv_ml_kem_public_key fetched) \<and>
        \<not> (rotation_lineage chain \<and> ptv_profile_id (hd chain) = scp_profile_id s
           \<and> ptv_profile_id (last chain) = ptv_profile_id fetched))"
  by (auto simp: evaluate_contact_profile_def validate_iff keys_unchanged_def rotation_lineage_def
      split: option.splits if_splits)

text \<open>
  The lineage test compares profile ids only. A profile whose keys changed under an
  unchanged profile id is reported as \<open>rotation-verified\<close> from the one-link chain that holds
  just the fetched profile, although no rotation took place.
\<close>

theorem same_id_key_change_is_not_blocked:
  assumes "scp_profile_id s = ptv_profile_id fetched"
    and "scp_ml_dsa_public_key s \<noteq> ptv_ml_dsa_public_key fetched"
    and "ptv_rotation_sequence fetched = 0" and "ptv_previous_profile_id fetched = None"
  shows "evaluate_contact_profile (Some s) fetched [fetched] = RotationVerified"
  using assms by (simp add: evaluate_contact_profile_def keys_unchanged_def validate_rotation_chain_def)

theorem same_id_key_change_witness:
  "evaluate_contact_profile
     (Some \<lparr>scp_profile_id = [1], scp_ml_dsa_public_key = [2], scp_ml_kem_public_key = [3]\<rparr>)
     \<lparr>ptv_profile_id = [1], ptv_ml_dsa_public_key = [9], ptv_ml_kem_public_key = [9],
      ptv_rotation_sequence = 0, ptv_previous_profile_id = None, ptv_revoked = False\<rparr>
     [\<lparr>ptv_profile_id = [1], ptv_ml_dsa_public_key = [9], ptv_ml_kem_public_key = [9],
      ptv_rotation_sequence = 0, ptv_previous_profile_id = None, ptv_revoked = False\<rparr>]
   = RotationVerified"
  by (rule same_id_key_change_is_not_blocked) simp_all

end
