(* ===== verification/Cemp_Profiles.thy ===== *)
theory Cemp_Profiles
  imports Cemp_Db
begin

text \<open>
  packages/cemp-database/src/repositories/profiles.ts: the user's own profiles and their rotation
  lineage. The walk of \<open>getLineage\<close> is bounded by the number of rows; its cycle check makes the
  bound sufficient, so the error for exhausted fuel is never raised.
\<close>

section \<open>Operations\<close>

record profile_input =
  np_account_id :: nat
  np_profile_id :: string
  np_type_id :: "string option"
  np_tx_hash :: "string option"
  np_outpoint_index :: "nat option"
  np_previous :: "string option"
  np_state :: "profile_state option"

definition find_profile :: "string \<Rightarrow> 'x db_scheme \<Rightarrow> stored_profile option" where
  "find_profile p s = List.find (\<lambda>r. sp_profile_id r = p) (db_profiles s)"

definition get_profile :: "string \<Rightarrow> ('x db_scheme, failure, stored_profile option) prog" where
  "get_profile p = asks (find_profile p)"

definition new_profile :: "profile_input \<Rightarrow> int \<Rightarrow> stored_profile list \<Rightarrow> stored_profile" where
  "new_profile inp t rows =
     \<lparr>sp_id = next_id sp_id rows, sp_account_id = np_account_id inp, sp_profile_id = np_profile_id inp,
      sp_type_id = np_type_id inp, sp_tx_hash = np_tx_hash inp, sp_outpoint_index = np_outpoint_index inp,
      sp_state = (case np_state inp of None \<Rightarrow> ProfileActive | Some st \<Rightarrow> st),
      sp_previous = np_previous inp, sp_created_at = t, sp_updated_at = t\<rparr>"

definition create_profile :: "profile_input \<Rightarrow> ('x db_scheme, failure, stored_profile) prog" where
  "create_profile inp = andthen now (\<lambda>t. catching
     (andthen (asks (find_profile (np_profile_id inp))) (\<lambda>dup.
      if dup \<noteq> None then throw SqlError else
      andthen (references (\<lambda>s. np_account_id inp \<in> set (db_accounts s))) (\<lambda>_.
      andthen (asks (\<lambda>s. new_profile inp t (db_profiles s))) (\<lambda>r.
      andthen (modify (\<lambda>s. s\<lparr>db_profiles := db_profiles s @ [r]\<rparr>)) (\<lambda>_. ret r)))))
     (\<lambda>_. throw (Db ConstraintViolation)))"

definition get_active_by_account :: "nat \<Rightarrow> ('x db_scheme, failure, stored_profile option) prog" where
  "get_active_by_account a = asks (\<lambda>s. List.find
     (\<lambda>r. sp_account_id r = a \<and> sp_state r = ProfileActive) (rev (db_profiles s)))"

definition set_profile_state ::
  "(stored_profile \<Rightarrow> bool) \<Rightarrow> profile_state \<Rightarrow> int \<Rightarrow> ('x db_scheme, failure, unit) prog" where
  "set_profile_state p st t = modify (\<lambda>s. s\<lparr>db_profiles := update_where p
     (\<lambda>r. r\<lparr>sp_state := st, sp_updated_at := t\<rparr>) (db_profiles s)\<rparr>)"

record successor_input =
  su_profile_id :: string
  su_type_id :: "string option"
  su_tx_hash :: "string option"
  su_outpoint_index :: "nat option"

definition rotate_profile :: "string \<Rightarrow> successor_input \<Rightarrow> ('x db_scheme, failure, stored_profile) prog" where
  "rotate_profile p succ = atomically
     (andthen (demand (Db NotFound) (find_profile p)) (\<lambda>old.
      if sp_state old \<noteq> ProfileActive then throw (Db IllegalStateTransition)
      else andthen now (\<lambda>t. andthen (set_profile_state (\<lambda>r. sp_id r = sp_id old) ProfileRotated t) (\<lambda>_.
        create_profile \<lparr>np_account_id = sp_account_id old, np_profile_id = su_profile_id succ,
          np_type_id = su_type_id succ, np_tx_hash = su_tx_hash succ,
          np_outpoint_index = su_outpoint_index succ, np_previous = Some (sp_profile_id old),
          np_state = None\<rparr>))))"

definition mark_revoked :: "string \<Rightarrow> ('x db_scheme, failure, unit) prog" where
  "mark_revoked p = andthen now (\<lambda>t.
     andthen (asks (\<lambda>s. changes (\<lambda>r. sp_profile_id r = p) (db_profiles s))) (\<lambda>n.
     andthen (set_profile_state (\<lambda>r. sp_profile_id r = p) ProfileRevoked t) (\<lambda>_.
     when_do (n = 0) (throw (Db NotFound)))))"

definition lineage_fuel_error :: failure where
  "lineage_fuel_error = OtherError ''lineage fuel''"

fun lineage_loop ::
  "nat \<Rightarrow> string list \<Rightarrow> stored_profile list \<Rightarrow> string option \<Rightarrow>
     ('x db_scheme, failure, stored_profile list) prog" where
  "lineage_loop fuel seen lineage None = ret lineage"
| "lineage_loop 0 seen lineage (Some c) = throw lineage_fuel_error"
| "lineage_loop (Suc fuel) seen lineage (Some c) =
     (if c \<in> set seen then throw (Db ConstraintViolation)
      else andthen (get_profile c) (\<lambda>r. case r of
          None \<Rightarrow> throw (Db NotFound)
        | Some r \<Rightarrow> lineage_loop fuel (c # seen) (r # lineage) (sp_previous r)))"

definition get_lineage :: "string \<Rightarrow> ('x db_scheme, failure, stored_profile list) prog" where
  "get_lineage p = andthen (asks (\<lambda>s. Suc (length (db_profiles s)))) (\<lambda>fuel.
     lineage_loop fuel [] [] (Some p))"

section \<open>The walk\<close>

text \<open>Oldest first: every profile names the one before it, and the first names none.\<close>

fun linked_from :: "string option \<Rightarrow> stored_profile list \<Rightarrow> bool" where
  "linked_from prev [] \<longleftrightarrow> True"
| "linked_from prev (r # rs) \<longleftrightarrow> sp_previous r = prev \<and> linked_from (Some (sp_profile_id r)) rs"

lemma linked_from_snoc:
  "linked_from prev (rs @ [r]) \<longleftrightarrow> linked_from prev rs \<and>
     sp_previous r = (if rs = [] then prev else Some (sp_profile_id (last rs)))"
  by (induction rs arbitrary: prev) auto

lemma linked_from_append:
  "linked_from prev (rs @ ts) \<longleftrightarrow> linked_from prev rs \<and>
     linked_from (if rs = [] then prev else Some (sp_profile_id (last rs))) ts"
  by (induction rs arbitrary: prev) auto

lemma find_profile_mem: "find_profile c s = Some r \<Longrightarrow> r \<in> set (db_profiles s) \<and> sp_profile_id r = c"
  by (auto simp: find_profile_def dest: find_some_mem)

text \<open>What the loop has collected: a linked chain above the cursor of distinct stored profiles.\<close>

definition collected :: "'x db_scheme \<Rightarrow> string \<Rightarrow> string list \<Rightarrow> stored_profile list \<Rightarrow> string option \<Rightarrow> bool" where
  "collected s tip seen lineage cur \<longleftrightarrow> linked_from cur lineage \<and> seen = map sp_profile_id lineage \<and>
     distinct seen \<and> set lineage \<subseteq> set (db_profiles s) \<and>
     (if lineage = [] then cur = Some tip else sp_profile_id (last lineage) = tip)"

lemma collected_bound: "collected s tip seen lineage cur \<Longrightarrow> length lineage \<le> length (db_profiles s)"
proof -
  assume c: "collected s tip seen lineage cur"
  then have "distinct lineage" by (auto simp: collected_def simp: distinct_map)
  moreover have "set lineage \<subseteq> set (db_profiles s)" using c by (simp add: collected_def)
  ultimately show ?thesis
    by (metis distinct_card card_mono card_length le_trans List.finite_set)
qed

lemma lineage_loop_result:
  assumes "collected s tip seen lineage cur" and "length (db_profiles s) < fuel + length lineage"
  shows "snd (lineage_loop fuel seen lineage cur s) = s \<and>
    (case fst (lineage_loop fuel seen lineage cur s) of
       Inr rs \<Rightarrow> collected s tip (map sp_profile_id rs) rs None
     | Inl e \<Rightarrow> e = Db ConstraintViolation \<or> e = Db NotFound)"
  using assms
proof (induction fuel seen lineage cur rule: lineage_loop.induct)
  case (1 fuel seen lineage)
  then show ?case by (auto simp: ret_def collected_def)
next
  case (2 seen lineage c)
  then show ?case using collected_bound by fastforce
next
  case (3 fuel seen lineage c)
  show ?case
  proof (cases "c \<in> set seen \<or> find_profile c s = None")
    case True
    then show ?thesis by (auto simp: get_profile_def prog_defs)
  next
    case False
    then obtain r where r: "c \<notin> set seen" "find_profile c s = Some r" by auto
    have "collected s tip (c # seen) (r # lineage) (sp_previous r)"
      using 3(2) r find_profile_mem [OF r(2)] by (auto simp: collected_def split: if_splits)
    moreover have "length (db_profiles s) < fuel + length (r # lineage)" using 3(3) by simp
    ultimately show ?thesis
      using 3(1) [OF r(1), of r] r by (simp add: get_profile_def prog_defs)
  qed
qed

section \<open>Chains\<close>

text \<open>The lineage of a stored profile: the linked chain of distinct stored profiles from a root to it.\<close>

definition is_lineage :: "'x db_scheme \<Rightarrow> string \<Rightarrow> stored_profile list \<Rightarrow> bool" where
  "is_lineage s tip rs \<longleftrightarrow> rs \<noteq> [] \<and> linked_from None rs \<and> sp_profile_id (last rs) = tip \<and>
     set rs \<subseteq> set (db_profiles s) \<and> distinct (map sp_profile_id rs)"

abbreviation profiles_ok :: "'x db_scheme \<Rightarrow> bool" where
  "profiles_ok s \<equiv> table_ok sp_id sp_profile_id (db_profiles s)"

lemma get_lineage_result:
  "snd (get_lineage tip s) = s \<and> (case fst (get_lineage tip s) of
      Inr rs \<Rightarrow> is_lineage s tip rs
    | Inl e \<Rightarrow> e = Db ConstraintViolation \<or> e = Db NotFound)"
proof -
  have "collected s tip [] [] (Some tip)" by (simp add: collected_def)
  from lineage_loop_result [OF this, of "Suc (length (db_profiles s))"] show ?thesis
    by (simp add: get_lineage_def collected_def is_lineage_def prog_defs split: sum.splits if_splits)
qed

lemma find_profile_ok: "profiles_ok s \<Longrightarrow> find_profile c s = Some r \<longleftrightarrow> r \<in> set (db_profiles s) \<and> sp_profile_id r = c"
  by (simp add: find_profile_def table_ok_def find_key)

lemma lineage_loop_complete:
  assumes "profiles_ok s"
  shows "linked_from None (pre @ acc) \<Longrightarrow> distinct (map sp_profile_id (pre @ acc)) \<Longrightarrow>
    set (pre @ acc) \<subseteq> set (db_profiles s) \<Longrightarrow> length pre \<le> fuel \<Longrightarrow>
    lineage_loop fuel (map sp_profile_id acc) acc
      (if pre = [] then None else Some (sp_profile_id (last pre))) s = (Inr (pre @ acc), s)"
proof (induction pre arbitrary: acc fuel rule: rev_induct)
  case (snoc r pre)
  then obtain n where n: "fuel = Suc n" by (cases fuel) auto
  have r: "find_profile (sp_profile_id r) s = Some r" using snoc.prems(3) find_profile_ok [OF assms] by simp
  have "linked_from None pre \<and> sp_previous r = (if pre = [] then None else Some (sp_profile_id (last pre)))"
  proof -
    have "linked_from None (pre @ [r]) \<and> True"
      using snoc.prems(1) linked_from_append [of None "pre @ [r]" acc] by simp
    then show ?thesis by (simp add: linked_from_snoc)
  qed
  then show ?case
    using snoc.IH [of "r # acc" n] snoc.prems n r by (auto simp: get_profile_def prog_defs)
qed (simp add: ret_def)

lemma get_lineage_complete:
  assumes "profiles_ok s" and "is_lineage s tip rs"
  shows "get_lineage tip s = (Inr rs, s)"
proof -
  have "distinct rs" using assms(2) by (auto simp: is_lineage_def distinct_map)
  then have "length rs \<le> length (db_profiles s)"
    using assms(2) by (metis is_lineage_def distinct_card card_mono card_length le_trans List.finite_set)
  then show ?thesis
    using lineage_loop_complete [OF assms(1), of rs "[]" "Suc (length (db_profiles s))"] assms(2)
    by (auto simp: get_lineage_def is_lineage_def prog_defs)
qed

section \<open>Rotation\<close>

lemma wp_create_profile:
  "wp (create_profile inp) Q E s =
     (if find_profile (np_profile_id inp) s \<noteq> None \<or> (db_fk s \<and> np_account_id inp \<notin> set (db_accounts s))
      then E (Db ConstraintViolation) s
      else let r = new_profile inp (db_clock s) (db_profiles s) in Q r (s\<lparr>db_profiles := db_profiles s @ [r]\<rparr>))"
  by (auto simp: create_profile_def wp_rules Let_def)

lemma wp_set_profile_state [wp_rules]:
  "wp (set_profile_state p st t) Q E s = Q () (s\<lparr>db_profiles := update_where p
     (\<lambda>r. r\<lparr>sp_state := st, sp_updated_at := t\<rparr>) (db_profiles s)\<rparr>)"
  by (simp add: set_profile_state_def wp_rules)

abbreviation retire :: "int \<Rightarrow> stored_profile \<Rightarrow> stored_profile" where
  "retire t r \<equiv> r\<lparr>sp_state := ProfileRotated, sp_updated_at := t\<rparr>"

abbreviation retired_rows :: "stored_profile \<Rightarrow> int \<Rightarrow> stored_profile list \<Rightarrow> stored_profile list" where
  "retired_rows old t rows \<equiv> update_where (\<lambda>r. sp_id r = sp_id old) (retire t) rows"

lemma wp_rotate_profile:
  "wp (rotate_profile p succ) (\<lambda>r s'. \<exists>old. find_profile p s = Some old \<and> sp_state old = ProfileActive \<and>
      find_profile (su_profile_id succ) s = None \<and> s' = s\<lparr>db_profiles := retired_rows old (db_clock s) (db_profiles s) @ [r]\<rparr> \<and>
      sp_id r = next_id sp_id (retired_rows old (db_clock s) (db_profiles s)) \<and>
      sp_profile_id r = su_profile_id succ \<and> sp_previous r = Some p \<and> sp_state r = ProfileActive)
     (\<lambda>_ s'. s' = s) s"
proof -
  have find: "find_profile q (s\<lparr>db_profiles := update_where P (retire t) (db_profiles s)\<rparr>)
      = map_option (\<lambda>r. if P r then retire t r else r) (find_profile q s)" for q P t
    by (simp add: find_profile_def find_update_where)
  show ?thesis
    by (auto simp: rotate_profile_def wp_rules wp_create_profile Let_def find new_profile_def
        split: option.splits dest: find_profile_mem)
qed

lemma linked_from_update:
  assumes "\<And>r. sp_previous (f r) = sp_previous r" and "\<And>r. sp_profile_id (f r) = sp_profile_id r"
  shows "linked_from prev (map f rs) = linked_from prev rs"
  by (induction rs arbitrary: prev) (auto simp: assms)

lemma lineage_tip:
  assumes "profiles_ok s" and "is_lineage s p rs" and "find_profile p s = Some old"
  shows "last rs = old"
proof -
  have "last rs \<in> set (db_profiles s)" "sp_profile_id (last rs) = p"
    using assms(2) last_in_set [of rs] by (auto simp: is_lineage_def)
  then have "find_profile p s = Some (last rs)" using find_profile_ok [OF assms(1)] by blast
  then show ?thesis using assms(3) by simp
qed

lemma rotation_lineage:
  assumes ok: "profiles_ok s" and rs: "is_lineage s p rs" and old: "find_profile p s = Some old"
    and new: "find_profile q s = None" "sp_profile_id r = q" "sp_previous r = Some p"
  shows "is_lineage (s\<lparr>db_profiles := retired_rows old t (db_profiles s) @ [r]\<rparr>) q
     (butlast rs @ [retire t old, r])"
proof -
  let ?f = "\<lambda>r. if sp_id r = sp_id old then retire t r else r"
  have ids: "distinct (map sp_id (db_profiles s))" using ok by (rule table_ok_ids)
  have old': "old \<in> set (db_profiles s)" "sp_profile_id old = p" using old find_profile_mem by auto
  have last: "last rs = old" using ok rs old by (rule lineage_tip)
  have split: "rs = butlast rs @ [old]" using rs last by (auto simp: is_lineage_def)
  have "distinct rs" using rs by (auto simp: is_lineage_def distinct_map)
  then have apart: "old \<notin> set (butlast rs)" by (subst (asm) split) simp
  have "x \<in> set (butlast rs) \<Longrightarrow> ?f x = x" for x
  proof -
    assume x: "x \<in> set (butlast rs)"
    then have "x \<in> set (db_profiles s)" using rs in_set_butlastD [OF x] by (auto simp: is_lineage_def)
    moreover have "x \<noteq> old" using x apart by auto
    ultimately show "?f x = x" using ids old' by (auto simp: distinct_map inj_on_def)
  qed
  then have "map ?f (butlast rs) = butlast rs" by (simp add: map_idI)
  then have rows: "map ?f rs = butlast rs @ [retire t old]"
    by (subst split) simp
  have keys: "map sp_profile_id (map ?f rs) = map sp_profile_id rs"
    by simp
  have "q \<notin> sp_profile_id ` set rs"
    using new(1) rs by (auto simp: is_lineage_def find_profile_def find_None_iff)
  moreover have "linked_from None (map ?f rs)"
    using rs linked_from_update [of ?f None rs] by (simp add: is_lineage_def)
  moreover have "set (map ?f rs) \<subseteq> set (retired_rows old t (db_profiles s))"
    using rs by (auto simp: set_update_where is_lineage_def)
  ultimately have "is_lineage (s\<lparr>db_profiles := retired_rows old t (db_profiles s) @ [r]\<rparr>) q (map ?f rs @ [r])"
    using rs new(2,3) last old' keys unfolding is_lineage_def
    by (auto simp: linked_from_append last_map image_image simp del: map_map)
  then show ?thesis unfolding rows by simp
qed

section \<open>Sequences of operations\<close>

datatype profile_op =
    CreateProfile profile_input
  | RotateProfile string successor_input
  | RevokeProfile string

fun run_profile_op :: "profile_op \<Rightarrow> 'x db_scheme \<Rightarrow> 'x db_scheme" where
  "run_profile_op (CreateProfile inp) s = snd (create_profile inp s)"
| "run_profile_op (RotateProfile p succ) s = snd (rotate_profile p succ s)"
| "run_profile_op (RevokeProfile p) s = snd (mark_revoked p s)"

lemma create_keeps_profiles: "keeps profiles_ok (create_profile inp)"
  by (rule keepsI) (auto simp: wp_create_profile Let_def new_profile_def find_profile_def
      find_None_list_ex intro!: table_ok_append)

lemma set_state_keeps_profiles: "keeps profiles_ok (set_profile_state p st t)"
  by (auto simp: set_profile_state_def intro!: keeps_rules table_ok_update_where)

lemma profile_ops_keep: "keeps profiles_ok (rotate_profile p succ)" "keeps profiles_ok (mark_revoked p)"
  by (auto simp: rotate_profile_def mark_revoked_def
      intro!: keeps_rules create_keeps_profiles set_state_keeps_profiles)

lemma run_profile_ops_ok: "profiles_ok s \<Longrightarrow> profiles_ok (fold run_profile_op ops s)"
proof (induction ops arbitrary: s)
  case (Cons op ops)
  have "profiles_ok (run_profile_op op s)"
    using create_keeps_profiles [THEN keepsD, OF Cons.prems] profile_ops_keep(1) [THEN keepsD, OF Cons.prems]
      profile_ops_keep(2) [THEN keepsD, OF Cons.prems] by (cases op) auto
  with Cons.IH show ?case by simp
qed simp

section \<open>Properties\<close>

text \<open>
  The lineage walk always ends and is exact, whatever back-references the table holds: it
  returns the linked chain of distinct stored profiles from a root to the requested one, oldest
  first, if there is one, and otherwise fails with the cycle or the unknown-profile error.
\<close>

theorem lineage_walk_exact:
  assumes "profiles_ok s"
  shows "snd (get_lineage p s) = s \<and> (\<forall>rs. fst (get_lineage p s) = Inr rs \<longleftrightarrow> is_lineage s p rs) \<and>
    ((\<nexists>rs. is_lineage s p rs) \<longrightarrow>
       fst (get_lineage p s) \<in> {Inl (Db ConstraintViolation), Inl (Db NotFound)})"
proof -
  have "fst (get_lineage p s) = Inr rs" if "is_lineage s p rs" for rs
    using get_lineage_complete [OF assms that] by simp
  then show ?thesis
    using get_lineage_result [of p s] by (cases "fst (get_lineage p s)") auto
qed

text \<open>
  A rotation extends the lineage by one and loses nothing: after any sequence of repository
  calls, if an active profile with a lineage is rotated, the lineage of the successor is the same
  chain with the old tip marked as rotated, followed by the successor; if the rotation throws, nothing
  has changed.
\<close>

theorem rotation_extends_lineage:
  assumes "s = fold run_profile_op ops (empty_db\<lparr>db_accounts := accounts\<rparr>)" and "get_lineage p s = (Inr rs, s)"
  shows "case rotate_profile p succ s of
      (Inl e, t) \<Rightarrow> t = s
    | (Inr r, t) \<Rightarrow> get_lineage (su_profile_id succ) t
        = (Inr (butlast rs @ [retire (db_clock s) (last rs), r]), t)"
proof -
  have ok: "profiles_ok s" unfolding assms(1) by (rule run_profile_ops_ok) (simp add: empty_db_def)
  have chain: "is_lineage s p rs" using get_lineage_result [of p s] assms(2) by simp
  show ?thesis
  proof (cases "rotate_profile p succ s")
    case (Pair x t)
    show ?thesis
    proof (cases x)
      case (Inl e)
      with Pair wp_error [OF wp_rotate_profile, of p succ s e t] show ?thesis by simp
    next
      case (Inr r)
      from wp_result [OF wp_rotate_profile Pair [unfolded Inr]] obtain old where
        old: "find_profile p s = Some old" and new: "find_profile (su_profile_id succ) s = None"
          "sp_profile_id r = su_profile_id succ" "sp_previous r = Some p"
        and t: "t = s\<lparr>db_profiles := retired_rows old (db_clock s) (db_profiles s) @ [r]\<rparr>"
        by blast
      have "last rs = old" using ok chain old by (rule lineage_tip)
      moreover have "profiles_ok t"
        using keepsD [OF profile_ops_keep(1) ok, of p succ] Pair by simp
      ultimately show ?thesis
        using get_lineage_complete [of t] rotation_lineage [OF ok chain old new, of "db_clock s"] Pair Inr t
        by simp
    qed
  qed
qed

subsection \<open>A sample rotation\<close>

definition sample_profile :: profile_input where
  "sample_profile = \<lparr>np_account_id = 1, np_profile_id = ''a'', np_type_id = None, np_tx_hash = None,
     np_outpoint_index = None, np_previous = None, np_state = None\<rparr>"

definition sample_successor :: successor_input where
  "sample_successor = \<lparr>su_profile_id = ''b'', su_type_id = None, su_tx_hash = None, su_outpoint_index = None\<rparr>"

definition one_profile :: stored_profile where
  "one_profile = \<lparr>sp_id = 1, sp_account_id = 1, sp_profile_id = ''a'', sp_type_id = None, sp_tx_hash = None,
     sp_outpoint_index = None, sp_state = ProfileActive, sp_previous = None, sp_created_at = 0, sp_updated_at = 0\<rparr>"

lemma sample_profile_run:
  "fold run_profile_op [CreateProfile sample_profile] (empty_db\<lparr>db_accounts := [1]\<rparr>)
     = empty_db\<lparr>db_accounts := [1], db_profiles := [one_profile]\<rparr>"
  by (simp add: create_profile_def find_profile_def new_profile_def references_def now_def next_id_def
      sample_profile_def one_profile_def empty_db_def prog_defs)

lemma sample_lineage:
  "get_lineage ''a'' (empty_db\<lparr>db_accounts := [1], db_profiles := [one_profile]\<rparr>)
     = (Inr [one_profile], empty_db\<lparr>db_accounts := [1], db_profiles := [one_profile]\<rparr>)"
  by (simp add: get_lineage_def get_profile_def find_profile_def one_profile_def empty_db_def prog_defs)

theorem lineage_walk_exact_witness:
  "is_lineage (empty_db\<lparr>db_accounts := [1], db_profiles := [one_profile]\<rparr>) ''a'' [one_profile]"
  using lineage_walk_exact [of "empty_db\<lparr>db_accounts := [1], db_profiles := [one_profile]\<rparr>" "''a''"]
    sample_lineage by (auto simp: table_ok_def)

theorem rotation_extends_lineage_witness:
  "\<exists>r t. rotate_profile ''a'' sample_successor (empty_db\<lparr>db_accounts := [1], db_profiles := [one_profile]\<rparr>)
      = (Inr r, t) \<and> get_lineage ''b'' t = (Inr [retire 0 one_profile, r], t)"
proof -
  let ?s = "empty_db\<lparr>db_accounts := [1], db_profiles := [one_profile]\<rparr>"
  obtain r t where run: "rotate_profile ''a'' sample_successor ?s = (Inr r, t)"
    by (simp add: rotate_profile_def set_profile_state_def create_profile_def find_profile_def new_profile_def
        references_def demand_def now_def one_profile_def sample_successor_def empty_db_def update_where_def
        prog_defs)
  have "get_lineage (su_profile_id sample_successor) t = (Inr (butlast [one_profile]
      @ [retire (db_clock ?s) (last [one_profile]), r]), t)"
    using rotation_extends_lineage [OF sample_profile_run [symmetric] sample_lineage, of sample_successor] run
    by simp
  then show ?thesis using run by (auto simp: sample_successor_def empty_db_def)
qed

end
