(* ===== verification/Cemp_Json.thy ===== *)
theory Cemp_Json
  imports Cemp_Utf8 Cemp_Text "HOL-Library.AList" Complex_Main
begin

text \<open>
  \<open>JSON.parse\<close> and \<open>JSON.stringify\<close> of the platform, as ECMA-404 and ECMA-262 specify them and the
  code uses them. An object is the list of its members in the order of their insertion; a repeated
  key keeps its place and takes the last value. A number is the rational it denotes, \<open>None\<close> when it
  overflows to infinity; the rounding of the others to a double is not modelled. The printer is for
  integers below 10 to the 21st, the only numbers that the code prints.
\<close>

datatype jvalue =
    Jnull
  | Jbool bool
  | Jnum "rat option"
  | Jstr code_points
  | Jarr "jvalue list"
  | Jobj "(code_points \<times> jvalue) list"

section \<open>Strings\<close>

definition json_space :: "nat \<Rightarrow> bool" where
  "json_space c \<longleftrightarrow> c \<in> set [9, 10, 13, 32]"

definition skip_space :: "code_points \<Rightarrow> code_points" where
  "skip_space t = dropWhile json_space t"

definition hex_point :: "nat \<Rightarrow> nat option" where
  "hex_point c = (if 48 \<le> c \<and> c \<le> 57 then Some (c - 48)
     else if 97 \<le> c \<and> c \<le> 102 then Some (c - 87)
     else if 65 \<le> c \<and> c \<le> 70 then Some (c - 55) else None)"

definition hex_four :: "nat \<Rightarrow> nat \<Rightarrow> nat \<Rightarrow> nat \<Rightarrow> nat option" where
  "hex_four a b c d = (case (hex_point a, hex_point b, hex_point c, hex_point d) of
       (Some w, Some x, Some y, Some z) \<Rightarrow> Some (((16 * w + x) * 16 + y) * 16 + z)
     | _ \<Rightarrow> None)"

definition simple_escape :: "nat \<Rightarrow> nat option" where
  "simple_escape c = map_of [(34, 34), (92, 92), (47, 47), (98, 8), (102, 12), (110, 10), (114, 13), (116, 9)] c"

text \<open>The units of a string after its opening quote, up to the closing one.\<close>

fun json_units :: "code_points \<Rightarrow> (code_points \<times> code_points) option" where
  "json_units [] = None"
| "json_units (c # cs) =
     (if c = 34 then Some ([], cs)
      else if c = 92 then (case cs of
          [] \<Rightarrow> None
        | e # es \<Rightarrow>
            if e = 117 then (case es of
                a # b # x # y # ys \<Rightarrow> (case hex_four a b x y of
                    None \<Rightarrow> None
                  | Some u \<Rightarrow> map_option (\<lambda>(t, r). (u # t, r)) (json_units ys))
              | _ \<Rightarrow> None)
            else (case simple_escape e of
                None \<Rightarrow> None
              | Some u \<Rightarrow> map_option (\<lambda>(t, r). (u # t, r)) (json_units es)))
      else if c < 32 then None
      else map_option (\<lambda>(t, r). (c # t, r)) (json_units cs))"

text \<open>Two escapes that name a surrogate pair are one code point.\<close>

fun join_surrogates :: "code_points \<Rightarrow> code_points" where
  "join_surrogates (h # l # t) =
     (if 0xD800 \<le> h \<and> h \<le> 0xDBFF \<and> 0xDC00 \<le> l \<and> l \<le> 0xDFFF
      then (0x10000 + (h - 0xD800) * 0x400 + (l - 0xDC00)) # join_surrogates t
      else h # join_surrogates (l # t))"
| "join_surrogates t = t"

definition json_string :: "code_points \<Rightarrow> (code_points \<times> code_points) option" where
  "json_string t = map_option (\<lambda>(u, r). (join_surrogates u, r)) (json_units t)"

section \<open>Numbers\<close>

definition is_digit :: "nat \<Rightarrow> bool" where
  "is_digit c \<longleftrightarrow> 48 \<le> c \<and> c \<le> 57"

definition json_digits :: "code_points \<Rightarrow> nat" where
  "json_digits ds = foldl (\<lambda>n d. 10 * n + (d - 48)) 0 ds"

text \<open>The double limit: a number of at least 2 to the 1024th less 2 to the 970th rounds to infinity.\<close>

definition double_limit :: rat where
  "double_limit = 2 ^ 1024 - 2 ^ 970"

definition to_number :: "rat \<Rightarrow> rat option" where
  "to_number q = (if \<bar>q\<bar> \<ge> double_limit then None else Some q)"

definition number_fraction :: "code_points \<Rightarrow> (code_points \<times> code_points) option" where
  "number_fraction t = (case t of
       [] \<Rightarrow> Some ([], [])
     | c # r \<Rightarrow> if c \<noteq> 46 then Some ([], t)
         else (let ds = takeWhile is_digit r in if ds = [] then None else Some (ds, dropWhile is_digit r)))"

definition number_exponent :: "code_points \<Rightarrow> (int \<times> code_points) option" where
  "number_exponent t = (case t of
       [] \<Rightarrow> Some (0, [])
     | c # r \<Rightarrow> if c \<noteq> 69 \<and> c \<noteq> 101 then Some (0, t)
         else (let (sign, u) = (case r of
               [] \<Rightarrow> (1, [])
             | s # v \<Rightarrow> if s = 43 then (1, v) else if s = 45 then (-1, v) else (1, r));
             ds = takeWhile is_digit u in
           if ds = [] then None else Some (sign * int (json_digits ds), dropWhile is_digit u)))"

definition scale_ten :: "rat \<Rightarrow> int \<Rightarrow> rat" where
  "scale_ten q e = (if 0 \<le> e then q * 10 ^ nat e else q / 10 ^ nat (- e))"

definition json_number :: "code_points \<Rightarrow> (jvalue \<times> code_points) option" where
  "json_number t =
     (let (sign, u) = (case t of [] \<Rightarrow> (1, []) | c # r \<Rightarrow> if c = 45 then (-1, r) else (1, t));
          ds = takeWhile is_digit u in
      if ds = [] \<or> (hd ds = 48 \<and> 1 < length ds) then None
      else (case number_fraction (dropWhile is_digit u) of
          None \<Rightarrow> None
        | Some (fs, v) \<Rightarrow> (case number_exponent v of
            None \<Rightarrow> None
          | Some (e, w) \<Rightarrow> Some (Jnum (to_number (sign * scale_ten (of_nat (json_digits (ds @ fs))) (e - int (length fs)))), w))))"

section \<open>Values\<close>

definition json_word :: "string \<Rightarrow> jvalue \<Rightarrow> code_points \<Rightarrow> (jvalue \<times> code_points) option" where
  "json_word w v t = (if take (length w) t = points w then Some (v, drop (length w) t) else None)"

text \<open>The recursive descent, with fuel for its depth; \<open>json_parse\<close> starts it with enough, see
  \<open>json_fuel\<close>.\<close>

fun json_value :: "nat \<Rightarrow> code_points \<Rightarrow> (jvalue \<times> code_points) option"
  and json_items :: "nat \<Rightarrow> code_points \<Rightarrow> (jvalue list \<times> code_points) option"
  and json_members :: "nat \<Rightarrow> (code_points \<times> jvalue) list \<Rightarrow> code_points \<Rightarrow> ((code_points \<times> jvalue) list \<times> code_points) option"
where
  "json_value 0 t = None"
| "json_value (Suc n) t = (case skip_space t of
       [] \<Rightarrow> None
     | c # r \<Rightarrow>
         if c = 34 then map_option (\<lambda>(s, u). (Jstr s, u)) (json_string r)
         else if c = 91 then (case skip_space r of
             [] \<Rightarrow> None
           | d # u \<Rightarrow> if d = 93 then Some (Jarr [], u)
               else map_option (\<lambda>(vs, w). (Jarr vs, w)) (json_items n (d # u)))
         else if c = 123 then (case skip_space r of
             [] \<Rightarrow> None
           | d # u \<Rightarrow> if d = 125 then Some (Jobj [], u)
               else map_option (\<lambda>(ms, w). (Jobj ms, w)) (json_members n [] (d # u)))
         else if c = 116 then json_word ''true'' (Jbool True) (c # r)
         else if c = 102 then json_word ''false'' (Jbool False) (c # r)
         else if c = 110 then json_word ''null'' Jnull (c # r)
         else json_number (c # r))"
| "json_items 0 t = None"
| "json_items (Suc n) t = (case json_value n t of
       None \<Rightarrow> None
     | Some (v, r) \<Rightarrow> (case skip_space r of
         [] \<Rightarrow> None
       | d # u \<Rightarrow> if d = 44 then map_option (\<lambda>(vs, w). (v # vs, w)) (json_items n u)
           else if d = 93 then Some ([v], u) else None))"
| "json_members 0 acc t = None"
| "json_members (Suc n) acc t = (case skip_space t of
       [] \<Rightarrow> None
     | q # r \<Rightarrow> if q \<noteq> 34 then None
         else (case json_string r of
             None \<Rightarrow> None
           | Some (k, u) \<Rightarrow> (case skip_space u of
               [] \<Rightarrow> None
             | d # v \<Rightarrow> if d \<noteq> 58 then None
                 else (case json_value n v of
                     None \<Rightarrow> None
                   | Some (x, w) \<Rightarrow> (case skip_space w of
                       [] \<Rightarrow> None
                     | e # y \<Rightarrow> let acc' = AList.update k x acc in
                         if e = 44 then json_members n acc' y
                         else if e = 125 then Some (acc', y) else None)))))"

definition json_parse :: "code_points \<Rightarrow> jvalue option" where
  "json_parse t = (case json_value (Suc (2 * length t)) t of
       Some (v, r) \<Rightarrow> if skip_space r = [] then Some v else None
     | None \<Rightarrow> None)"

text \<open>The fuel suffices: more of it changes nothing. Every step consumes a character at every second
  level.\<close>

lemma skip_space_length: "length (skip_space t) \<le> length t"
  by (simp add: skip_space_def length_dropWhile_le)

lemma units_shrink: "json_units t = Some (u, r) \<Longrightarrow> length r < length t"
proof (induction t arbitrary: u r rule: json_units.induct)
  case (2 c cs)
  then show ?case
    by (fastforce split: if_splits list.splits option.splits)
qed simp

lemma string_shrinks: "json_string t = Some (u, r) \<Longrightarrow> length r < length t"
  using units_shrink by (auto simp: json_string_def)

lemma digits_shrink: "takeWhile is_digit t \<noteq> [] \<Longrightarrow> length (dropWhile is_digit t) < length t"
  by (cases t) (auto simp: length_dropWhile_le less_Suc_eq_le split: if_splits)

lemma fraction_shrinks: "number_fraction t = Some (u, r) \<Longrightarrow> length r \<le> length t"
  using length_dropWhile_le [of is_digit]
  by (auto simp: number_fraction_def Let_def le_Suc_eq split: list.splits if_splits)

lemma exponent_shrinks:
  assumes "number_exponent t = Some (e, r)"
  shows "length r \<le> length t"
proof (cases t)
  case (Cons c cs)
  define su where "su = (case cs of [] \<Rightarrow> (1, []) | s # v \<Rightarrow> if s = 43 then (1, v) else if s = 45 then (- 1 :: int, v) else (1, cs))"
  obtain g u where su: "su = (g, u)" by fastforce
  have "length u \<le> length cs" using su unfolding su_def by (auto split: list.splits if_splits)
  moreover have "r = t \<or> r = dropWhile is_digit u"
    using assms Cons su unfolding su_def by (auto simp: number_exponent_def Let_def split: if_splits)
  ultimately show ?thesis
    using length_dropWhile_le [of is_digit u] Cons by auto
qed (use assms in \<open>simp add: number_exponent_def\<close>)

lemma number_shrinks:
  assumes "json_number t = Some (v, r)"
  shows "length r < length t"
proof -
  define u where "u = (case t of [] \<Rightarrow> [] | c # w \<Rightarrow> if c = 45 then w else t)"
  have "length u \<le> length t" by (auto simp: u_def split: list.splits)
  moreover from assms obtain fs x e where "takeWhile is_digit u \<noteq> []"
      "number_fraction (dropWhile is_digit u) = Some (fs, x)" "number_exponent x = Some (e, r)"
    unfolding u_def by (cases t) (auto simp: json_number_def Let_def split: if_splits option.splits)
  ultimately show ?thesis
    using digits_shrink [of u] fraction_shrinks exponent_shrinks by (meson le_less_trans order.strict_trans2)
qed

lemma word_shrinks: "w \<noteq> [] \<Longrightarrow> json_word w x t = Some (v, r) \<Longrightarrow> length r < length t"
  by (cases t) (auto simp: json_word_def points_def split: if_splits)

lemma json_shrinks:
  "json_value n t = Some (v, r) \<Longrightarrow> length r < length t"
  "json_items n t = Some (vs, r) \<Longrightarrow> length r < length t"
  "json_members n acc t = Some (ms, r) \<Longrightarrow> length r < length t"
proof (induction n t and n t and n acc t arbitrary: v r and vs r and ms r
    rule: json_value_json_items_json_members.induct)
  case (2 n t)
  have space: "length (skip_space u) \<le> length u" for u by (rule skip_space_length)
  show ?case
  proof (cases "skip_space t")
    case (Cons c cs)
    have less: "length (c # cs) \<le> length t" using space [of t] Cons by simp
    have "length r < length (c # cs)"
      using 2 Cons space [of cs] string_shrinks number_shrinks [of "c # cs"] word_shrinks
      by (fastforce split: if_splits list.splits)
    with less show ?thesis by simp
  qed (use 2 in simp)
next
  case (4 n t)
  then obtain x y d u where "json_value n t = Some (x, y)" "skip_space y = d # u"
    by (auto split: option.splits list.splits)
  moreover have "length (d # u) \<le> length y" using skip_space_length [of y] \<open>skip_space y = d # u\<close> by simp
  moreover have "length y < length t" using 4 calculation(1) by blast
  ultimately show ?case using 4 by (fastforce split: if_splits)
next
  case (6 n acc t)
  then obtain q cs k u d x y z e f where step: "skip_space t = q # cs" "json_string cs = Some (k, u)" "skip_space u = d # x"
      "json_value n x = Some (y, z)" "skip_space z = e # f" "q = 34" "d = 58"
    by (auto split: option.splits list.splits if_splits)
  have "length (q # cs) \<le> length t" "length u < length cs" "length (d # x) \<le> length u" "length (e # f) \<le> length z"
    using skip_space_length [of t] skip_space_length [of u] skip_space_length [of z] step string_shrinks by auto
  moreover have "length z < length x" using 6 step by auto
  ultimately show ?case using 6 step by (fastforce simp: Let_def split: if_splits)
qed auto

lemma json_more_fuel:
  "2 * length t < n \<Longrightarrow> json_value (Suc n) t = json_value n t"
  "2 * length t + 1 < n \<Longrightarrow> json_items (Suc n) t = json_items n t"
  "2 * length t + 1 < n \<Longrightarrow> json_members (Suc n) acc t = json_members n acc t"
proof (induction n arbitrary: t acc)
  case (Suc n)
  have space: "length u \<le> length w" if "skip_space w = u" for u w
    using skip_space_length [of w] that by simp
  {
    case 1
    have "json_items (Suc n) u = json_items n u" "json_members (Suc n) [] u = json_members n [] u"
      if "skip_space t = c # cs" "skip_space cs = u" for c cs u
      using Suc.IH(2,3) space [OF that(1)] space [OF that(2)] 1 by auto
    then show ?case
      unfolding json_value.simps by (auto split: list.split)
  next
    case 2
    have "json_items (Suc n) u = json_items n u"
      if "json_value n t = Some (v, r)" "skip_space r = d # u" for v r d u
      using Suc.IH(2) json_shrinks(1) [OF that(1)] space [OF that(2)] 2 by auto
    moreover have "json_value (Suc n) t = json_value n t" using Suc.IH(1) 2 by simp
    ultimately show ?case
      unfolding json_items.simps by (auto split: list.split option.split)
  next
    case 3
    have rest: "json_members (Suc n) a y = json_members n a y"
      if "skip_space t = q # r" "json_string r = Some (k, u)" "skip_space u = d # v"
        "json_value n v = Some (x, w)" "skip_space w = e # y" for q r k u d v x w e y a
      using Suc.IH space [OF that(1)] string_shrinks [OF that(2)] space [OF that(3)] json_shrinks(1) [OF that(4)]
        space [OF that(5)] 3 by auto
    have "json_value (Suc n) v = json_value n v"
      if "skip_space t = q # r" "json_string r = Some (k, u)" "skip_space u = d # v" for q r k u d v
      using Suc.IH(1) space [OF that(1)] string_shrinks [OF that(2)] space [OF that(3)] 3 by auto
    with rest show ?case
      unfolding json_members.simps Let_def by (auto split: list.split option.split)
  }
qed simp_all

lemma json_fuel:
  assumes "2 * length t < n"
  shows "json_value n t = json_value (Suc (2 * length t)) t"
  using assms
proof (induction n)
  case (Suc n)
  then show ?case using json_more_fuel(1) [of t n] by (cases "n = 2 * length t") simp_all
qed simp

section \<open>Printing\<close>

definition hex_lower :: "nat \<Rightarrow> nat" where
  "hex_lower d = (if d < 10 then 48 + d else 87 + d)"

definition print_unit :: "nat \<Rightarrow> code_points" where
  "print_unit u = [92, 117, hex_lower (u div 4096), hex_lower (u div 256 mod 16), hex_lower (u div 16 mod 16), hex_lower (u mod 16)]"

definition print_char :: "nat \<Rightarrow> code_points" where
  "print_char c = (case map_of [(8, 98), (9, 116), (10, 110), (12, 102), (13, 114), (34, 34), (92, 92)] c of
       Some e \<Rightarrow> [92, e]
     | None \<Rightarrow> if c < 32 \<or> surrogate c then print_unit c else [c])"

definition print_string :: "code_points \<Rightarrow> code_points" where
  "print_string t = 34 # concat (map print_char t) @ [34]"

definition print_integer :: "int \<Rightarrow> code_points" where
  "print_integer i = (if i < 0 then 45 # points (decimal (nat (- i))) else points (decimal (nat i)))"

fun comma_join :: "code_points list \<Rightarrow> code_points" where
  "comma_join [] = []"
| "comma_join [t] = t"
| "comma_join (t # u # us) = t @ 44 # comma_join (u # us)"

fun json_print :: "jvalue \<Rightarrow> code_points" where
  "json_print Jnull = points ''null''"
| "json_print (Jbool b) = points (if b then ''true'' else ''false'')"
| "json_print (Jnum q) = (case q of None \<Rightarrow> points ''null'' | Some x \<Rightarrow> print_integer \<lfloor>x\<rfloor>)"
| "json_print (Jstr t) = print_string t"
| "json_print (Jarr vs) = 91 # comma_join (map json_print vs) @ [93]"
| "json_print (Jobj ms) = 123 # comma_join (map (\<lambda>(k, v). print_string k @ 58 # json_print v) ms) @ [125]"

section \<open>Strings come back\<close>

lemma surrogate_plain: "scalar c \<Longrightarrow> \<not> surrogate c"
  by (simp add: scalar_def)

lemma hex_point_lower: "d < 16 \<Longrightarrow> hex_point (hex_lower d) = Some d"
  by (auto simp: hex_point_def hex_lower_def)

lemma units_print_unit:
  assumes "u < 65536"
  shows "json_units (print_unit u @ r) = map_option (\<lambda>(t, w). (u # t, w)) (json_units r)"
proof -
  have "u div 256 = 16 * (u div 4096) + u div 256 mod 16"
    using div_mult2_eq [of u 256 16] by simp
  moreover have "u div 16 = 16 * (u div 256) + u div 16 mod 16"
    using div_mult2_eq [of u 16 16] by simp
  moreover have "u = 16 * (u div 16) + u mod 16" by simp
  ultimately have "((16 * (u div 4096) + u div 256 mod 16) * 16 + u div 16 mod 16) * 16 + u mod 16 = u"
    by (metis mult.commute)
  moreover have "u div 4096 < 16" using assms by (simp add: less_mult_imp_div_less)
  ultimately show ?thesis by (simp add: print_unit_def hex_four_def hex_point_lower)
qed

lemma units_print_char:
  assumes "scalar c"
  shows "json_units (print_char c @ r) = map_option (\<lambda>(t, w). (c # t, w)) (json_units r)"
proof (cases "c \<in> set [8, 9, 10, 12, 13, 34, 92]")
  case True
  then show ?thesis by (auto simp: print_char_def simple_escape_def)
next
  case False
  then have "print_char c = (if c < 32 then print_unit c else [c])"
    using surrogate_plain [OF assms] by (auto simp: print_char_def)
  with False show ?thesis using units_print_unit [of c r] by auto
qed

lemma units_print_chars:
  "\<forall>c \<in> set t. scalar c \<Longrightarrow> json_units (concat (map print_char t) @ 34 # r) = Some (t, r)"
  by (induction t) (simp_all add: units_print_char)

lemma join_scalars: "\<forall>c \<in> set t. scalar c \<Longrightarrow> join_surrogates t = t"
  by (induction t rule: join_surrogates.induct) (auto simp: scalar_def surrogate_def)

lemma string_print:
  "\<forall>c \<in> set t. scalar c \<Longrightarrow> json_string (concat (map print_char t) @ 34 # r) = Some (t, r)"
  by (simp add: json_string_def units_print_chars join_scalars)

section \<open>Integers come back\<close>

lemma point_digit: "d < 10 \<Longrightarrow> of_char (digit_char d) = 48 + d"
  by (simp add: digit_char_def)

lemma decimal_digits: "\<forall>c \<in> set (points (decimal n)). is_digit c"
proof (induction n rule: decimal.induct)
  case (1 n)
  then show ?case
    by (cases "n < 10") (auto simp: decimal.simps [of n] points_def point_digit is_digit_def)
qed

lemma json_digits_append: "json_digits (ds @ [d]) = 10 * json_digits ds + (d - 48)"
  by (simp add: json_digits_def)

lemma json_digits_decimal: "json_digits (points (decimal n)) = n"
proof (induction n rule: decimal.induct)
  case (1 n)
  show ?case
  proof (cases "n < 10")
    case True
    then show ?thesis by (simp add: decimal.simps [of n] points_def point_digit json_digits_def)
  next
    case False
    with 1 have "json_digits (points (decimal (n div 10))) = n div 10" by simp
    with False show ?thesis
      by (subst decimal.simps) (simp add: points_def point_digit json_digits_append)
  qed
qed

lemma decimal_leading_zero: "hd (points (decimal n)) = 48 \<Longrightarrow> length (points (decimal n)) \<le> 1"
proof (induction n rule: decimal.induct)
  case (1 n)
  show ?case
  proof (cases "n < 10")
    case False
    have ne: "points (decimal (n div 10)) \<noteq> []" by (simp add: points_def)
    with False "1.prems" have "hd (points (decimal (n div 10))) = 48"
      by (simp add: decimal.simps [of n] points_def)
    with 1 False have "length (points (decimal (n div 10))) = 1"
      using ne by (metis One_nat_def Suc_leI antisym length_greater_0_conv)
    then obtain c where c: "points (decimal (n div 10)) = [c]" by (auto simp: length_Suc_conv)
    with \<open>hd (points (decimal (n div 10))) = 48\<close> have "n div 10 = 0"
      using json_digits_decimal [of "n div 10"] by (simp add: json_digits_def)
    with False show ?thesis by simp
  qed (simp add: decimal.simps [of n] points_def)
qed

definition number_stops :: "code_points \<Rightarrow> bool" where
  "number_stops r \<longleftrightarrow> (case r of [] \<Rightarrow> True | c # _ \<Rightarrow> \<not> is_digit c \<and> c \<noteq> 46 \<and> c \<noteq> 69 \<and> c \<noteq> 101)"

lemma digits_span:
  "number_stops r \<Longrightarrow> takeWhile is_digit (points (decimal n) @ r) = points (decimal n) \<and>
     dropWhile is_digit (points (decimal n) @ r) = r"
  using decimal_digits [of n] by (cases r) (auto simp: number_stops_def takeWhile_append dropWhile_append)

lemma number_print:
  assumes "number_stops r"
  shows "json_number (print_integer i @ r) = Some (Jnum (to_number (of_int i)), r)"
proof -
  have frac: "number_fraction r = Some ([], r)" "number_exponent r = Some (0, r)"
    using assms by (auto simp: number_stops_def number_fraction_def number_exponent_def split: list.splits)
  have digits: "points (decimal n) \<noteq> []" "\<not> (hd (points (decimal n)) = 48 \<and> 1 < length (points (decimal n)))"
      "\<exists>c cs. points (decimal n) = c # cs \<and> c \<noteq> 45" for n
  proof -
    show ne: "points (decimal n) \<noteq> []" by (simp add: points_def)
    show "\<not> (hd (points (decimal n)) = 48 \<and> 1 < length (points (decimal n)))"
      using decimal_leading_zero [of n] by auto
    from ne decimal_digits [of n] show "\<exists>c cs. points (decimal n) = c # cs \<and> c \<noteq> 45"
      by (cases "points (decimal n)") (auto simp: is_digit_def)
  qed
  show ?thesis
  proof (cases "i < 0")
    case True
    then show ?thesis
      using digits [of "nat (- i)"] digits_span [OF assms, of "nat (- i)"] frac
      by (simp add: json_number_def print_integer_def json_digits_decimal scale_ten_def Let_def)
  next
    case False
    obtain c cs where c: "points (decimal (nat i)) = c # cs" "c \<noteq> 45" using digits(3) by blast
    have "json_number (print_integer i @ r) = Some (Jnum (to_number (1 * scale_ten (of_nat (nat i)) 0)), r)"
      using False digits [of "nat i"] digits_span [OF assms, of "nat i"] frac json_digits_decimal [of "nat i"]
      unfolding json_number_def print_integer_def by (simp add: c)
    with False show ?thesis by (simp add: scale_ten_def)
  qed
qed

section \<open>Values come back\<close>

text \<open>The values the code prints: texts of scalar values, integers, and objects without repeated keys.\<close>

fun printable :: "jvalue \<Rightarrow> bool" where
  "printable Jnull = True"
| "printable (Jbool b) = True"
| "printable (Jnum q) = (case q of None \<Rightarrow> False | Some x \<Rightarrow> x = of_int \<lfloor>x\<rfloor> \<and> \<bar>x\<bar> < double_limit)"
| "printable (Jstr t) = (\<forall>c \<in> set t. scalar c)"
| "printable (Jarr vs) = (\<forall>v \<in> set vs. printable v)"
| "printable (Jobj ms) = (distinct (map fst ms) \<and> (\<forall>(k, v) \<in> set ms. (\<forall>c \<in> set k. scalar c) \<and> printable v))"

abbreviation print_member :: "code_points \<times> jvalue \<Rightarrow> code_points" where
  "print_member \<equiv> \<lambda>(k, v). print_string k @ 58 # json_print v"

lemma print_integer_head: "\<exists>c cs. print_integer i = c # cs \<and> (c = 45 \<or> is_digit c)"
proof (cases "i < 0")
  case False
  then show ?thesis using decimal_digits [of "nat i"]
    by (cases "points (decimal (nat i))") (auto simp: print_integer_def points_def)
qed (simp add: print_integer_def)

lemma print_head:
  assumes "printable v"
  shows "\<exists>c cs. json_print v = c # cs \<and> \<not> json_space c \<and> c \<noteq> 93 \<and> c \<noteq> 125"
proof (cases v)
  case (Jnum q)
  with assms obtain x where "q = Some x" by (auto split: option.splits)
  with Jnum print_integer_head [of "\<lfloor>x\<rfloor>"] show ?thesis by (auto simp: json_space_def is_digit_def)
qed (auto simp: points_def print_string_def json_space_def)

lemma skip_space_head: "\<not> json_space c \<Longrightarrow> skip_space (c # t) = c # t"
  by (simp add: skip_space_def)

lemma skip_points [simp]:
  "skip_space (34 # t) = 34 # t" "skip_space (44 # t) = 44 # t" "skip_space (58 # t) = 58 # t"
  "skip_space (93 # t) = 93 # t" "skip_space (125 # t) = 125 # t" "skip_space (91 # t) = 91 # t"
  "skip_space (123 # t) = 123 # t" "skip_space [] = []"
  by (simp_all add: skip_space_def json_space_def)

lemma number_stops_points [simp]: "number_stops (44 # t)" "number_stops (93 # t)" "number_stops (125 # t)" "number_stops []"
  by (simp_all add: number_stops_def is_digit_def)

text \<open>What the parser does with the text of one value.\<close>

definition comes_back :: "jvalue \<Rightarrow> bool" where
  "comes_back v \<longleftrightarrow> (\<forall>n r. number_stops r \<longrightarrow> 2 * length (json_print v) < n \<longrightarrow>
     json_value n (json_print v @ r) = Some (v, r))"

lemma comes_backD:
  "comes_back v \<Longrightarrow> number_stops r \<Longrightarrow> 2 * length (json_print v) < n \<Longrightarrow> json_value n (json_print v @ r) = Some (v, r)"
  by (simp add: comes_back_def)

lemma items_come_back:
  assumes "vs \<noteq> []" and "\<forall>v \<in> set vs. comes_back v"
    and "2 * length (comma_join (map json_print vs)) + 1 < n"
  shows "json_items n (comma_join (map json_print vs) @ 93 # r) = Some (vs, r)"
  using assms
proof (induction vs arbitrary: n)
  case (Cons v vs)
  then obtain m where n: "n = Suc m" by (cases n) auto
  show ?case
  proof (cases vs)
    case Nil
    with Cons.prems n show ?thesis by (simp add: comes_backD)
  next
    case (Cons w ws)
    have "json_value m (json_print v @ 44 # comma_join (map json_print vs) @ 93 # r)
        = Some (v, 44 # comma_join (map json_print vs) @ 93 # r)"
      using Cons.prems n Cons by (intro comes_backD) auto
    moreover have "json_items m (comma_join (map json_print vs) @ 93 # r) = Some (vs, r)"
      using Cons.prems n Cons by (intro Cons.IH) auto
    ultimately show ?thesis using n Cons by simp
  qed
qed simp

lemma update_new: "k \<notin> fst ` set acc \<Longrightarrow> AList.update k x acc = acc @ [(k, x)]"
  by (induction acc) auto

lemma members_come_back:
  assumes "ms \<noteq> []" and "\<forall>(k, v) \<in> set ms. (\<forall>c \<in> set k. scalar c) \<and> comes_back v"
    and "distinct (map fst acc @ map fst ms)"
    and "2 * length (comma_join (map print_member ms)) + 1 < n"
  shows "json_members n acc (comma_join (map print_member ms) @ 125 # r) = Some (acc @ ms, r)"
  using assms
proof (induction ms arbitrary: n acc)
  case (Cons kv ms)
  obtain k v where kv: "kv = (k, v)" by fastforce
  from Cons.prems obtain m where n: "n = Suc m" by (cases n) auto
  have key: "json_string (concat (map print_char k) @ 34 # 58 # t) = Some (k, 58 # t)" for t
    using Cons.prems kv by (intro string_print) auto
  have new: "AList.update k v acc = acc @ [(k, v)]"
    using Cons.prems kv by (intro update_new) auto
  show ?case
  proof (cases ms)
    case Nil
    have "json_value m (json_print v @ 125 # r) = Some (v, 125 # r)"
      using Cons.prems n kv Nil by (intro comes_backD) auto
    with Nil n kv key new show ?thesis by (simp add: print_string_def)
  next
    case (Cons w ws)
    have "json_value m (json_print v @ 44 # comma_join (map print_member ms) @ 125 # r)
        = Some (v, 44 # comma_join (map print_member ms) @ 125 # r)"
      using Cons.prems n kv Cons by (intro comes_backD) auto
    moreover have "json_members m (acc @ [(k, v)]) (comma_join (map print_member ms) @ 125 # r) = Some ((acc @ [(k, v)]) @ ms, r)"
      using Cons.prems n kv Cons by (intro Cons.IH) auto
    ultimately show ?thesis using n kv Cons key new by (simp add: print_string_def)
  qed
qed simp

lemma word_comes_back: "comes_back Jnull" "comes_back (Jbool b)"
proof -
  have word: "json_value n (c # w @ r) = Some (v, r)"
    if "(c # w, v) \<in> set [(points ''null'', Jnull), (points ''true'', Jbool True), (points ''false'', Jbool False)]" "0 < n"
    for n c w v r
    using that by (cases n) (auto simp: points_def json_word_def skip_space_head json_space_def)
  show "comes_back Jnull" using word [of 110 "[117, 108, 108]" Jnull] by (simp add: comes_back_def points_def)
  show "comes_back (Jbool b)"
    using word [of 116 "[114, 117, 101]" "Jbool True"] word [of 102 "[97, 108, 115, 101]" "Jbool False"]
    by (cases b) (simp_all add: comes_back_def points_def)
qed

lemma value_comes_back: "printable v \<Longrightarrow> comes_back v"
proof (induction v)
  case (Jnum q)
  then obtain x where x: "q = Some x" "x = of_int \<lfloor>x\<rfloor>" "\<bar>x\<bar> < double_limit" by (auto split: option.splits)
  show ?case
    unfolding comes_back_def
  proof (intro allI impI)
    fix n r assume r: "number_stops r" "2 * length (json_print (Jnum q)) < n"
    obtain m where n: "n = Suc m" using r(2) by (cases n) auto
    obtain c cs where c: "print_integer \<lfloor>x\<rfloor> = c # cs" "c = 45 \<or> is_digit c" using print_integer_head by blast
    have "json_number (c # cs @ r) = Some (Jnum (Some x), r)"
      using number_print [OF r(1), of "\<lfloor>x\<rfloor>"] x by (simp add: c to_number_def not_le)
    moreover have "skip_space (c # cs @ r) = c # cs @ r"
      using c(2) by (intro skip_space_head) (auto simp: json_space_def is_digit_def)
    moreover have "c \<notin> {34, 91, 123, 116, 102, 110}" using c(2) by (auto simp: is_digit_def)
    ultimately show "json_value n (json_print (Jnum q) @ r) = Some (Jnum q, r)"
      using n x(1) c(1) by simp
  qed
next
  case (Jarr vs)
  show ?case
    unfolding comes_back_def
  proof (intro allI impI)
    fix n r assume r: "number_stops r" "2 * length (json_print (Jarr vs)) < n"
    obtain m where n: "n = Suc m" using r(2) by (cases n) auto
    show "json_value n (json_print (Jarr vs) @ r) = Some (Jarr vs, r)"
    proof (cases vs)
      case (Cons w ws)
      have "json_items m (comma_join (map json_print vs) @ 93 # r) = Some (vs, r)"
        using Jarr r n Cons by (intro items_come_back) auto
      moreover obtain c cs where "json_print w = c # cs" "\<not> json_space c" "c \<noteq> 93"
        using print_head [of w] Jarr Cons by auto
      then have "\<exists>d u. comma_join (map json_print vs) = d # u \<and> \<not> json_space d \<and> d \<noteq> 93"
        using Cons by (cases ws) auto
      ultimately show ?thesis using n by (auto simp: skip_space_head)
    qed (simp add: n)
  qed
next
  case (Jobj ms)
  have ih: "\<forall>(k, v) \<in> set ms. (\<forall>c \<in> set k. scalar c) \<and> comes_back v"
    using Jobj by fastforce
  show ?case
    unfolding comes_back_def
  proof (intro allI impI)
    fix n r assume r: "number_stops r" "2 * length (json_print (Jobj ms)) < n"
    obtain m where n: "n = Suc m" using r(2) by (cases n) auto
    show "json_value n (json_print (Jobj ms) @ r) = Some (Jobj ms, r)"
    proof (cases ms)
      case (Cons w ws)
      have "json_members m [] (comma_join (map print_member ms) @ 125 # r) = Some ([] @ ms, r)"
        using Jobj r n Cons ih by (intro members_come_back) auto
      moreover have "\<exists>u. comma_join (map print_member ms) = 34 # u"
        using Cons by (cases ws) (auto simp: print_string_def split: prod.splits)
      ultimately show ?thesis using n by auto
    qed (simp add: n)
  qed
next
  case (Jstr t)
  show ?case
    unfolding comes_back_def
  proof (intro allI impI)
    fix n r assume "2 * length (json_print (Jstr t)) < n"
    then show "json_value n (json_print (Jstr t) @ r) = Some (Jstr t, r)"
      using Jstr by (cases n) (simp_all add: print_string_def string_print)
  qed
qed (simp_all add: word_comes_back)

lemma parse_print: "printable v \<Longrightarrow> json_parse (json_print v) = Some v"
  using comes_backD [OF value_comes_back, of v "[]" "Suc (2 * length (json_print v))"]
  by (simp add: json_parse_def)

lemma print_inject: "printable v \<Longrightarrow> printable w \<Longrightarrow> json_print v = json_print w \<Longrightarrow> v = w"
  by (metis option.inject parse_print)

text \<open>Printed JSON is made of scalar values.\<close>

lemma scalar_ascii: "c < 128 \<Longrightarrow> scalar c"
  by (simp add: scalar_def surrogate_def)

lemma print_char_scalar: "scalar c \<Longrightarrow> d \<in> set (print_char c) \<Longrightarrow> scalar d"
proof -
  assume c: "scalar c" and d: "d \<in> set (print_char c)"
  have low: "hex_lower e < 128" if "e < 16" for e using that by (simp add: hex_lower_def)
  show "scalar d"
  proof (cases "map_of [(8, 98 :: nat), (9, 116), (10, 110), (12, 102), (13, 114), (34, 34), (92, 92)] c")
    case None
    show ?thesis
    proof (cases "c < 32")
      case True
      then have "d < 128" using d low unfolding print_char_def None option.case by (auto simp: print_unit_def)
      then show ?thesis by (rule scalar_ascii)
    next
      case False
      then show ?thesis using c d unfolding print_char_def None option.case by (auto simp: scalar_def)
    qed
  next
    case (Some e)
    from map_of_SomeD [OF this] have "e < 128" by auto
    with d have "d < 128" unfolding print_char_def Some option.case by auto
    then show ?thesis by (rule scalar_ascii)
  qed
qed

lemma print_string_scalar: "\<forall>c \<in> set t. scalar c \<Longrightarrow> \<forall>c \<in> set (print_string t). scalar c"
  using print_char_scalar by (auto simp: print_string_def scalar_ascii)

lemma comma_join_scalar: "\<forall>t \<in> set ts. \<forall>c \<in> set t. scalar c \<Longrightarrow> \<forall>c \<in> set (comma_join ts). scalar c"
  by (induction ts rule: comma_join.induct) (auto simp: scalar_ascii)

lemma print_scalar: "printable v \<Longrightarrow> \<forall>c \<in> set (json_print v). scalar c"
proof (induction v)
  case (Jnum q)
  then show ?case by (auto simp: print_integer_def scalar_ascii points_scalar split: option.splits)
next
  case (Jarr vs)
  then have "\<forall>c \<in> set (comma_join (map json_print vs)). scalar c" by (intro comma_join_scalar) auto
  then show ?case by (auto simp: scalar_ascii)
next
  case (Jobj ms)
  have "\<forall>c \<in> set (comma_join (map print_member ms)). scalar c"
  proof (intro comma_join_scalar ballI)
    fix t c assume "t \<in> set (map print_member ms)" and c: "c \<in> set t"
    then obtain k v where m: "(k, v) \<in> set ms" and t: "t = print_string k @ 58 # json_print v" by auto
    have "\<forall>c \<in> set (json_print v). scalar c" using Jobj m by (auto simp: split_beta)
    moreover have "\<forall>c \<in> set (print_string k). scalar c" using Jobj m by (intro print_string_scalar) auto
    ultimately show "scalar c" using c t by (auto simp: scalar_ascii)
  qed
  then show ?case by (auto simp: scalar_ascii json_print.simps(6))
qed (auto simp: points_scalar print_string_scalar)

end
