(* ===== verification/Cemp_VaultFormat.thy ===== *)
theory Cemp_VaultFormat
  imports Cemp_Envelope Cemp_Json
begin

text \<open>
  packages/cemp-secure-vault: the vault file (format.ts), the password key derivation (kdf.ts) and the
  error codes (errors.ts).

  A thrown \<open>VaultError\<close> is its code; the messages, which are fixed texts, are left out. Argon2id and
  scrypt are parameters. Cost parameters are integers, so the test \<open>Number.isInteger\<close> of the code has
  no counterpart where it is applied to them.
\<close>

section \<open>Errors\<close>

datatype vault_code =
    WrongPassword | VaultIsLocked | NotInitialized | AlreadyInitialized | CorruptVault | InvalidMnemonic
  | BiometricUnavailable | BiometricDenied | KdfParamsOutOfRange | KeystoreError

text \<open>The other errors that reach a caller: one of the crypto package, and one that storage or a
  platform interface throws.\<close>

datatype vault_error = VaultError vault_code | CryptoThrown crypto_error | PlatformThrown string

definition corrupt :: "vault_error + 'a" where
  "corrupt = Inl (VaultError CorruptVault)"

section \<open>Key derivation\<close>

datatype kdf_params =
    Argon2id (kp_m: int) (kp_t: int) (kp_p: int) (kp_salt: bytes)
  | Scrypt (kp_logn: int) (kp_r: int) (kp_p: int) (kp_salt: bytes)

definition validate_kdf_params :: "kdf_params \<Rightarrow> vault_error + unit" where
  "validate_kdf_params params =
     (let fail = Inl (VaultError KdfParamsOutOfRange); n = length (kp_salt params) in
      if n < 8 \<or> 64 < n then fail
      else case params of
          Argon2id m t p _ \<Rightarrow>
            if m < 8 \<or> 1048576 < m \<or> t < 1 \<or> 16 < t \<or> p < 1 \<or> 8 < p \<or> m < 8 * p then fail else Inr ()
        | Scrypt logn r p _ \<Rightarrow>
            if logn < 1 \<or> 20 < logn \<or> r < 1 \<or> 8 < r \<or> p < 1 \<or> 8 < p then fail else Inr ())"

record kdf_library =
  kl_argon2id :: "bytes \<Rightarrow> bytes \<Rightarrow> int \<Rightarrow> int \<Rightarrow> int \<Rightarrow> nat \<Rightarrow> bytes"
  kl_scrypt :: "bytes \<Rightarrow> bytes \<Rightarrow> int \<Rightarrow> int \<Rightarrow> int \<Rightarrow> nat \<Rightarrow> bytes"

definition kek_bytes :: nat where
  "kek_bytes = 32"

definition kdf_salt_bytes :: nat where
  "kdf_salt_bytes = 16"

definition derive_kek :: "kdf_library \<Rightarrow> code_points \<Rightarrow> kdf_params \<Rightarrow> bytes" where
  "derive_kek L password params = (case params of
       Argon2id m t p salt \<Rightarrow> kl_argon2id L (utf8_encode password) salt m t p kek_bytes
     | Scrypt logn r p salt \<Rightarrow> kl_scrypt L (utf8_encode password) salt (2 ^ nat logn) r p kek_bytes)"

definition default_kdf_params :: "bytes \<Rightarrow> kdf_params" where
  "default_kdf_params salt = Argon2id 65536 3 1 salt"

datatype kdf_options =
    Argon2idOptions "int option" "int option" "int option"
  | ScryptOptions "int option" "int option" "int option"

definition or_default :: "int \<Rightarrow> int option \<Rightarrow> int" where
  "or_default d v = (case v of None \<Rightarrow> d | Some x \<Rightarrow> x)"

definition resolve_kdf_params :: "kdf_options option \<Rightarrow> bytes \<Rightarrow> kdf_params" where
  "resolve_kdf_params options salt = (case options of
       Some (ScryptOptions logn r p) \<Rightarrow> Scrypt (or_default 17 logn) (or_default 8 r) (or_default 1 p) salt
     | Some (Argon2idOptions m t p) \<Rightarrow> Argon2id (or_default 65536 m) (or_default 3 t) (or_default 1 p) salt
     | None \<Rightarrow> Argon2id 65536 3 1 salt)"

section \<open>The secret payload\<close>

record secret_payload =
  sp_entropy :: bytes
  sp_seed :: bytes
  sp_has_passphrase :: bool

definition seed_bytes :: nat where
  "seed_bytes = 64"

definition encode_secret_payload :: "secret_payload \<Rightarrow> vault_error + bytes" where
  "encode_secret_payload p =
     (if length (sp_entropy p) \<noteq> 16 \<and> length (sp_entropy p) \<noteq> 32 then corrupt
      else if length (sp_seed p) \<noteq> seed_bytes then corrupt
      else Inr (word_of_nat (length (sp_entropy p)) # sp_entropy p @ sp_seed p
        @ [if sp_has_passphrase p then 1 else 0]))"

definition decode_secret_payload :: "bytes \<Rightarrow> vault_error + secret_payload" where
  "decode_secret_payload bs = (case bs of
       [] \<Rightarrow> corrupt
     | l # _ \<Rightarrow>
         let n = unat l; flag = last bs in
         if n \<noteq> 16 \<and> n \<noteq> 32 then corrupt
         else if length bs \<noteq> 1 + n + seed_bytes + 1 then corrupt
         else if flag \<noteq> 0 \<and> flag \<noteq> 1 then corrupt
         else Inr \<lparr>sp_entropy = take n (drop 1 bs), sp_seed = take seed_bytes (drop (1 + n) bs),
                   sp_has_passphrase = (flag = 1)\<rparr>)"

definition secret_payload_bytes :: "int \<Rightarrow> nat" where
  "secret_payload_bytes words = 1 + (if words = 12 then 16 else 32) + seed_bytes + 1"

section \<open>The vault file\<close>

record wrap_slot =
  ws_nonce :: bytes
  ws_wrapped :: bytes

record biometric_slot =
  bs_nonce :: "bytes option"
  bs_wrapped :: bytes

record vault_header =
  vh_kdf :: kdf_params
  vh_password :: wrap_slot
  vh_biometric :: "biometric_slot option"

record vault_meta =
  vm_created_at :: int
  vm_word_count :: int
  vm_has_passphrase :: bool
  vm_auto_lock :: int

record vault_file = vault_header +
  vf_nonce :: bytes
  vf_ct :: bytes
  vf_meta :: vault_meta

definition vault_format_version :: int where
  "vault_format_version = 1"

definition vault_file_max_bytes :: nat where
  "vault_file_max_bytes = 65536"

definition vek_bytes :: nat where
  "vek_bytes = 32"

subsection \<open>Writing\<close>

definition hex_text :: "bytes \<Rightarrow> jvalue" where
  "hex_text bs = Jstr (points (bytes_to_hex bs))"

definition integer :: "int \<Rightarrow> jvalue" where
  "integer i = Jnum (Some (of_int i))"

definition kdf_to_wire :: "kdf_params \<Rightarrow> jvalue" where
  "kdf_to_wire kdf = (case kdf of
       Argon2id m t p salt \<Rightarrow> Jobj [(points ''alg'', Jstr (points ''argon2id'')), (points ''m'', integer m),
         (points ''t'', integer t), (points ''p'', integer p), (points ''salt'', hex_text salt)]
     | Scrypt logn r p salt \<Rightarrow> Jobj [(points ''alg'', Jstr (points ''scrypt'')), (points ''logN'', integer logn),
         (points ''r'', integer r), (points ''p'', integer p), (points ''salt'', hex_text salt)])"

definition slot_to_wire :: "bytes option \<Rightarrow> bytes \<Rightarrow> jvalue" where
  "slot_to_wire nonce wrapped = (case nonce of
       Some n \<Rightarrow> Jobj [(points ''nonce'', hex_text n), (points ''wrappedVek'', hex_text wrapped)]
     | None \<Rightarrow> Jobj [(points ''wrappedVek'', hex_text wrapped)])"

definition header_to_wire :: "'a vault_header_scheme \<Rightarrow> (code_points \<times> jvalue) list" where
  "header_to_wire h =
     [(points ''version'', integer vault_format_version), (points ''kdf'', kdf_to_wire (vh_kdf h)),
      (points ''passwordSlot'', slot_to_wire (Some (ws_nonce (vh_password h))) (ws_wrapped (vh_password h))),
      (points ''biometricSlot'', case vh_biometric h of
         None \<Rightarrow> Jnull
       | Some b \<Rightarrow> slot_to_wire (bs_nonce b) (bs_wrapped b))]"

definition payload_aad :: "'a vault_header_scheme \<Rightarrow> bytes" where
  "payload_aad h = utf8_encode (json_print (Jobj (header_to_wire h)))"

definition file_to_wire :: "vault_file \<Rightarrow> jvalue" where
  "file_to_wire f = Jobj (header_to_wire f @
     [(points ''payload'', Jobj [(points ''nonce'', hex_text (vf_nonce f)), (points ''ct'', hex_text (vf_ct f))]),
      (points ''meta'', Jobj [(points ''createdAt'', integer (vm_created_at (vf_meta f))),
         (points ''wordCount'', integer (vm_word_count (vf_meta f))),
         (points ''hasPassphrase'', Jbool (vm_has_passphrase (vf_meta f))),
         (points ''autoLockSeconds'', integer (vm_auto_lock (vf_meta f)))])])"

definition serialize_vault_file :: "vault_file \<Rightarrow> bytes" where
  "serialize_vault_file f = utf8_encode (json_print (file_to_wire f))"

subsection \<open>Reading\<close>

definition expect_object :: "jvalue \<Rightarrow> vault_error + (code_points \<times> jvalue) list" where
  "expect_object v = (case v of Jobj ms \<Rightarrow> Inr ms | _ \<Rightarrow> corrupt)"

definition expect_object_field :: "(code_points \<times> jvalue) list \<Rightarrow> string \<Rightarrow> vault_error + jvalue" where
  "expect_object_field ms name = (case map_of ms (points name) of None \<Rightarrow> corrupt | Some v \<Rightarrow> Inr v)"

definition expect_uint :: "jvalue \<Rightarrow> int \<Rightarrow> int \<Rightarrow> vault_error + int" where
  "expect_uint v lo hi = (case v of
       Jnum (Some q) \<Rightarrow> if q \<noteq> of_int \<lfloor>q\<rfloor> \<or> \<lfloor>q\<rfloor> < lo \<or> hi < \<lfloor>q\<rfloor> then corrupt else Inr \<lfloor>q\<rfloor>
     | _ \<Rightarrow> corrupt)"

definition expect_bool :: "jvalue \<Rightarrow> vault_error + bool" where
  "expect_bool v = (case v of Jbool b \<Rightarrow> Inr b | _ \<Rightarrow> corrupt)"

definition vault_hex_to_bytes :: "jvalue \<Rightarrow> vault_error + bytes" where
  "vault_hex_to_bytes v = (case v of
       Jstr t \<Rightarrow>
         if \<not> (\<forall>c \<in> set t. c < 256) then corrupt
         else map_error (\<lambda>_. VaultError CorruptVault) (hex_to_bytes (map char_of t))
     | _ \<Rightarrow> corrupt)"

definition expect_hex_field :: "(code_points \<times> jvalue) list \<Rightarrow> string \<Rightarrow> vault_error + bytes" where
  "expect_hex_field ms name = sum_bind (expect_object_field ms name) vault_hex_to_bytes"

definition expect_uint_field ::
  "(code_points \<times> jvalue) list \<Rightarrow> string \<Rightarrow> int \<Rightarrow> int \<Rightarrow> vault_error + int" where
  "expect_uint_field ms name lo hi = sum_bind (expect_object_field ms name) (\<lambda>v. expect_uint v lo hi)"

definition max_safe_integer :: int where
  "max_safe_integer = 9007199254740991"

definition parse_kdf :: "jvalue \<Rightarrow> vault_error + kdf_params" where
  "parse_kdf v =
     sum_bind (expect_object v) (\<lambda>ms.
     sum_bind (expect_object_field ms ''alg'') (\<lambda>alg.
     sum_bind (expect_hex_field ms ''salt'') (\<lambda>salt.
     sum_bind
       (if alg = Jstr (points ''argon2id'') then
          sum_bind (expect_uint_field ms ''m'' 1 max_safe_integer) (\<lambda>m.
          sum_bind (expect_uint_field ms ''t'' 1 max_safe_integer) (\<lambda>t.
          sum_bind (expect_uint_field ms ''p'' 1 max_safe_integer) (\<lambda>p. Inr (Argon2id m t p salt))))
        else if alg = Jstr (points ''scrypt'') then
          sum_bind (expect_uint_field ms ''logN'' 1 63) (\<lambda>logn.
          sum_bind (expect_uint_field ms ''r'' 1 max_safe_integer) (\<lambda>r.
          sum_bind (expect_uint_field ms ''p'' 1 max_safe_integer) (\<lambda>p. Inr (Scrypt logn r p salt))))
        else corrupt) (\<lambda>params.
     sum_bind (validate_kdf_params params) (\<lambda>_. Inr params)))))"

definition parse_password_slot :: "jvalue \<Rightarrow> vault_error + wrap_slot" where
  "parse_password_slot v =
     sum_bind (expect_object v) (\<lambda>ms.
     sum_bind (expect_hex_field ms ''nonce'') (\<lambda>nonce.
     sum_bind (expect_hex_field ms ''wrappedVek'') (\<lambda>wrapped.
     if length nonce \<noteq> 12 then corrupt
     else if length wrapped \<noteq> vek_bytes + 16 then corrupt
     else Inr \<lparr>ws_nonce = nonce, ws_wrapped = wrapped\<rparr>)))"

definition parse_biometric_slot :: "jvalue \<Rightarrow> vault_error + biometric_slot option" where
  "parse_biometric_slot v =
     (if v = Jnull then Inr None
      else sum_bind (expect_object v) (\<lambda>ms.
        sum_bind (expect_hex_field ms ''wrappedVek'') (\<lambda>wrapped.
        if length wrapped < 16 \<or> 512 < length wrapped then corrupt
        else case map_of ms (points ''nonce'') of
            None \<Rightarrow> Inr (Some \<lparr>bs_nonce = None, bs_wrapped = wrapped\<rparr>)
          | Some n \<Rightarrow> sum_bind (vault_hex_to_bytes n) (\<lambda>nonce.
              if length nonce \<noteq> 12 then corrupt
              else Inr (Some \<lparr>bs_nonce = Some nonce, bs_wrapped = wrapped\<rparr>)))))"

definition parse_meta :: "(code_points \<times> jvalue) list \<Rightarrow> vault_error + vault_meta" where
  "parse_meta ms =
     sum_bind (expect_uint_field ms ''wordCount'' 12 24) (\<lambda>words.
     if words \<noteq> 12 \<and> words \<noteq> 24 then corrupt
     else
       sum_bind (expect_uint_field ms ''createdAt'' 0 max_safe_integer) (\<lambda>created.
       sum_bind (sum_bind (expect_object_field ms ''hasPassphrase'') expect_bool) (\<lambda>passphrase.
       sum_bind (expect_uint_field ms ''autoLockSeconds'' 1 2147483) (\<lambda>auto_lock.
       Inr \<lparr>vm_created_at = created, vm_word_count = words, vm_has_passphrase = passphrase,
            vm_auto_lock = auto_lock\<rparr>))))"

definition parse_vault_wire :: "jvalue \<Rightarrow> vault_error + vault_file" where
  "parse_vault_wire raw =
     sum_bind (expect_object raw) (\<lambda>obj.
     sum_bind (expect_uint_field obj ''version'' 1 1) (\<lambda>_.
     sum_bind (sum_bind (expect_object_field obj ''kdf'') parse_kdf) (\<lambda>kdf.
     sum_bind (sum_bind (expect_object_field obj ''passwordSlot'') parse_password_slot) (\<lambda>password.
     sum_bind (sum_bind (expect_object_field obj ''biometricSlot'') parse_biometric_slot) (\<lambda>biometric.
     sum_bind (sum_bind (expect_object_field obj ''payload'') expect_object) (\<lambda>payload.
     sum_bind (expect_hex_field payload ''nonce'') (\<lambda>nonce.
     sum_bind (expect_hex_field payload ''ct'') (\<lambda>ct.
     if length nonce \<noteq> 12 then corrupt
     else
       sum_bind (sum_bind (expect_object_field obj ''meta'') expect_object) (\<lambda>meta_obj.
       sum_bind (parse_meta meta_obj) (\<lambda>meta.
       if length ct \<noteq> secret_payload_bytes (vm_word_count meta) + 16 then corrupt
       else Inr \<lparr>vh_kdf = kdf, vh_password = password, vh_biometric = biometric, vf_nonce = nonce,
                 vf_ct = ct, vf_meta = meta\<rparr>))))))))))"

definition parse_vault_file :: "bytes \<Rightarrow> vault_error + vault_file" where
  "parse_vault_file bs =
     (if length bs > vault_file_max_bytes then corrupt
      else case json_parse (utf8_decode bs) of
          None \<Rightarrow> corrupt
        | Some raw \<Rightarrow> parse_vault_wire raw)"

section \<open>Lemmas\<close>

lemma corrupt_not_Inr [simp]: "corrupt \<noteq> Inr x" "Inr x \<noteq> corrupt"
  by (simp_all add: corrupt_def)

lemma hex_text_inject [simp]: "hex_text a = hex_text b \<longleftrightarrow> a = b"
  by (simp add: hex_text_def)

lemma integer_inject [simp]: "integer i = integer j \<longleftrightarrow> i = j"
  by (simp add: integer_def)

lemma read_hex_text [simp]: "vault_hex_to_bytes (hex_text bs) = Inr bs"
  by (simp add: vault_hex_to_bytes_def hex_text_def points_def char_code hex_to_bytes_iff o_def)

lemma hex_text_not_null [simp]: "hex_text bs \<noteq> Jnull"
  by (simp add: hex_text_def)

lemma read_integer [simp]: "expect_uint (integer i) lo hi = (if i < lo \<or> hi < i then corrupt else Inr i)"
  by (simp add: expect_uint_def integer_def)

lemma expect_object_Jobj [simp]: "expect_object (Jobj ms) = Inr ms"
  by (simp add: expect_object_def)

lemma sum_bind_simps [simp]: "sum_bind (Inr x) f = f x" "sum_bind corrupt f = corrupt"
  by (simp_all add: sum_bind_def corrupt_def)

lemmas field_readers = expect_object_field_def expect_hex_field_def expect_uint_field_def

definition wrap_slot_ok :: "wrap_slot \<Rightarrow> bool" where
  "wrap_slot_ok w \<longleftrightarrow> length (ws_nonce w) = 12 \<and> length (ws_wrapped w) = 48"

definition biometric_slot_ok :: "biometric_slot option \<Rightarrow> bool" where
  "biometric_slot_ok b \<longleftrightarrow> (case b of
       None \<Rightarrow> True
     | Some s \<Rightarrow> 16 \<le> length (bs_wrapped s) \<and> length (bs_wrapped s) \<le> 512
         \<and> (case bs_nonce s of None \<Rightarrow> True | Some n \<Rightarrow> length n = 12))"

definition meta_ok :: "vault_meta \<Rightarrow> bool" where
  "meta_ok m \<longleftrightarrow> 0 \<le> vm_created_at m \<and> vm_created_at m \<le> max_safe_integer
     \<and> (vm_word_count m = 12 \<or> vm_word_count m = 24) \<and> 1 \<le> vm_auto_lock m \<and> vm_auto_lock m \<le> 2147483"

text \<open>The files that the parser can return.\<close>

definition vault_file_ok :: "vault_file \<Rightarrow> bool" where
  "vault_file_ok f \<longleftrightarrow> validate_kdf_params (vh_kdf f) = Inr () \<and> wrap_slot_ok (vh_password f)
     \<and> biometric_slot_ok (vh_biometric f) \<and> length (vf_nonce f) = 12 \<and> meta_ok (vf_meta f)
     \<and> length (vf_ct f) = secret_payload_bytes (vm_word_count (vf_meta f)) + 16"

lemma validated_kdf:
  "validate_kdf_params k = Inr u \<longleftrightarrow> 8 \<le> length (kp_salt k) \<and> length (kp_salt k) \<le> 64 \<and> (case k of
       Argon2id m t p _ \<Rightarrow> 8 \<le> m \<and> m \<le> 1048576 \<and> 1 \<le> t \<and> t \<le> 16 \<and> 1 \<le> p \<and> p \<le> 8 \<and> 8 * p \<le> m
     | Scrypt logn r p _ \<Rightarrow> 1 \<le> logn \<and> logn \<le> 20 \<and> 1 \<le> r \<and> r \<le> 8 \<and> 1 \<le> p \<and> p \<le> 8)"
  by (cases k) (auto simp: validate_kdf_params_def Let_def)

lemma read_kdf:
  "parse_kdf (kdf_to_wire k) = Inr k' \<longleftrightarrow> validate_kdf_params k = Inr () \<and> k' = k"
  by (cases k)
    (auto simp: parse_kdf_def kdf_to_wire_def field_readers validated_kdf max_safe_integer_def split: if_splits)

lemma read_password_slot:
  "parse_password_slot (slot_to_wire (Some (ws_nonce w)) (ws_wrapped w)) = Inr w' \<longleftrightarrow> wrap_slot_ok w \<and> w' = w"
  by (auto simp: parse_password_slot_def slot_to_wire_def field_readers wrap_slot_ok_def vek_bytes_def)

lemma read_biometric_slot:
  "parse_biometric_slot (case b of None \<Rightarrow> Jnull | Some s \<Rightarrow> slot_to_wire (bs_nonce s) (bs_wrapped s)) = Inr b'
     \<longleftrightarrow> biometric_slot_ok b \<and> b' = b"
proof (cases b)
  case (Some s)
  then show ?thesis
    by (cases s; cases "bs_nonce s")
      (auto simp: parse_biometric_slot_def slot_to_wire_def field_readers biometric_slot_ok_def)
qed (auto simp: parse_biometric_slot_def biometric_slot_ok_def)

lemma read_file:
  "parse_vault_wire (file_to_wire f) = Inr g \<longleftrightarrow> vault_file_ok f \<and> g = f"
  by (cases f)
    (auto simp: parse_vault_wire_def file_to_wire_def header_to_wire_def field_readers read_kdf read_password_slot
      read_biometric_slot vault_file_ok_def meta_ok_def parse_meta_def vault_format_version_def expect_bool_def
      split: if_splits)

subsection \<open>Size\<close>

lemma utf8_encode_size: "length (utf8_encode t) \<le> 4 * length t"
proof (induction t)
  case (Cons c t)
  have "length (utf8_char c) \<le> 4" by (simp add: utf8_char_def)
  with Cons show ?case by (simp add: utf8_encode_def)
qed (simp add: utf8_encode_def)

lemma print_string_size: "length (print_string t) \<le> 6 * length t + 2"
proof -
  have "length (concat (map print_char t)) \<le> 6 * length t"
  proof (induction t)
    case (Cons c t)
    have "length (print_char c) \<le> 6" by (simp add: print_char_def print_unit_def split: option.splits)
    with Cons show ?case by simp
  qed simp
  then show ?thesis by (simp add: print_string_def)
qed

lemma decimal_size: "n < 10 ^ Suc k \<Longrightarrow> length (decimal n) \<le> Suc k"
proof (induction k arbitrary: n)
  case 0
  then show ?case by (simp add: decimal.simps [of n])
next
  case (Suc k)
  have "n div 10 < 10 ^ Suc k" using Suc.prems by (simp add: less_mult_imp_div_less)
  from Suc.IH [OF this] show ?case by (simp add: decimal.simps [of n])
qed

lemma print_integer_size:
  assumes "0 \<le> i" "i < 10 ^ 16"
  shows "length (json_print (integer i)) \<le> 16"
proof -
  have "nat i < 10 ^ Suc 15" using assms by (simp add: nat_less_iff)
  from decimal_size [OF this] show ?thesis using assms by (simp add: integer_def print_integer_def points_def)
qed

lemma print_hex_size: "length (json_print (hex_text bs)) \<le> 12 * length bs + 2"
  using print_string_size [of "points (bytes_to_hex bs)"] by (simp add: hex_text_def points_def)

lemma print_points_size: "length (print_string (points k)) \<le> 6 * length k + 2"
  using print_string_size [of "points k"] by (simp add: points_def)

text \<open>The size of the printed members of an object.\<close>

definition members_size :: "(code_points \<times> jvalue) list \<Rightarrow> nat" where
  "members_size ms = (\<Sum>(k, v) \<leftarrow> ms. length (print_string k) + length (json_print v) + 2)"

lemma members_size_simps [simp]:
  "members_size [] = 0"
  "members_size ((k, v) # ms) = length (print_string k) + length (json_print v) + 2 + members_size ms"
  "members_size (xs @ ys) = members_size xs + members_size ys"
  by (simp_all add: members_size_def)

lemma print_object_size: "length (json_print (Jobj ms)) \<le> members_size ms + 2"
proof -
  have "length (comma_join (map print_member ms)) \<le> members_size ms"
  proof (induction ms rule: induct_list012)
    case (3 x y zs)
    then show ?case by (cases x) simp
  qed auto
  then show ?thesis by simp
qed

lemmas print_sizes = print_object_size print_hex_size print_integer_size print_points_size

lemma print_object_bound: "members_size ms + 2 \<le> n \<Longrightarrow> length (json_print (Jobj ms)) \<le> n"
  using print_object_size [of ms] by linarith

declare json_print.simps(6) [simp del]

lemma kdf_size:
  assumes "validate_kdf_params k = Inr ()"
  shows "length (json_print (kdf_to_wire k)) \<le> 1200"
proof (cases k)
  case (Argon2id m t p salt)
  with assms show ?thesis
    using print_integer_size [of m] print_integer_size [of t] print_integer_size [of p]
      print_hex_size [of salt] print_points_size [of "''alg''"] print_points_size [of "''m''"]
      print_points_size [of "''t''"] print_points_size [of "''p''"] print_points_size [of "''salt''"]
      print_points_size [of "''argon2id''"]
    by (simp add: kdf_to_wire_def validated_kdf print_object_bound)
next
  case (Scrypt logn r p salt)
  with assms show ?thesis
    using print_integer_size [of logn] print_integer_size [of r] print_integer_size [of p]
      print_hex_size [of salt] print_points_size [of "''alg''"] print_points_size [of "''logN''"]
      print_points_size [of "''r''"] print_points_size [of "''p''"] print_points_size [of "''salt''"]
      print_points_size [of "''scrypt''"]
    by (simp add: kdf_to_wire_def validated_kdf print_object_bound)
qed

lemma slot_size:
  assumes "case nonce of None \<Rightarrow> True | Some n \<Rightarrow> length n = 12"
  shows "length (json_print (slot_to_wire nonce wrapped)) \<le> 12 * length wrapped + 300"
proof (cases nonce)
  case None
  with assms show ?thesis
    using print_hex_size [of wrapped] print_points_size [of "''wrappedVek''"]
    by (simp add: slot_to_wire_def print_object_bound)
next
  case (Some n)
  with assms show ?thesis
    using print_hex_size [of wrapped] print_hex_size [of n] print_points_size [of "''wrappedVek''"]
      print_points_size [of "''nonce''"]
    by (simp add: slot_to_wire_def print_object_bound)
qed

lemma header_size:
  assumes "validate_kdf_params (vh_kdf h) = Inr ()" "wrap_slot_ok (vh_password h)"
    "biometric_slot_ok (vh_biometric h)"
  shows "members_size (header_to_wire h) \<le> 9000"
proof -
  have "length (json_print (slot_to_wire (Some (ws_nonce (vh_password h))) (ws_wrapped (vh_password h)))) \<le> 900"
    using assms(2) slot_size [of "Some (ws_nonce (vh_password h))" "ws_wrapped (vh_password h)"]
    by (simp add: wrap_slot_ok_def)
  moreover have "length (json_print (case vh_biometric h of None \<Rightarrow> Jnull
      | Some b \<Rightarrow> slot_to_wire (bs_nonce b) (bs_wrapped b))) \<le> 6500"
    using assms(3) by (auto simp: biometric_slot_ok_def points_def split: option.splits intro: order_trans [OF slot_size])
  ultimately show ?thesis
    using kdf_size [OF assms(1)] print_integer_size [of vault_format_version]
      print_points_size [of "''version''"] print_points_size [of "''kdf''"]
      print_points_size [of "''passwordSlot''"] print_points_size [of "''biometricSlot''"]
    by (simp add: header_to_wire_def vault_format_version_def)
qed

lemma payload_size:
  assumes "length (vf_nonce f) = 12" "length (vf_ct f) \<le> 114"
  shows "length (json_print (Jobj [(points ''nonce'', hex_text (vf_nonce f)), (points ''ct'', hex_text (vf_ct f))])) \<le> 1600"
  using assms print_hex_size [of "vf_nonce f"] print_hex_size [of "vf_ct f"]
    print_points_size [of "''nonce''"] print_points_size [of "''ct''"]
  by (simp add: print_object_bound)

lemma meta_size:
  assumes "meta_ok m"
  shows "length (json_print (Jobj [(points ''createdAt'', integer (vm_created_at m)),
         (points ''wordCount'', integer (vm_word_count m)),
         (points ''hasPassphrase'', Jbool (vm_has_passphrase m)),
         (points ''autoLockSeconds'', integer (vm_auto_lock m))])) \<le> 260 + 200"
  using assms print_integer_size [of "vm_created_at m"] print_integer_size [of "vm_word_count m"]
    print_integer_size [of "vm_auto_lock m"] print_points_size [of "''createdAt''"]
    print_points_size [of "''wordCount''"] print_points_size [of "''hasPassphrase''"]
    print_points_size [of "''autoLockSeconds''"]
  by (auto simp: meta_ok_def max_safe_integer_def points_def intro!: print_object_bound)

lemma file_size:
  assumes "vault_file_ok f"
  shows "length (json_print (file_to_wire f)) \<le> 16384"
proof -
  have "members_size (header_to_wire f) \<le> 9000"
    using assms by (intro header_size) (simp_all add: vault_file_ok_def)
  moreover have "length (vf_ct f) \<le> 114" "length (vf_nonce f) = 12" "meta_ok (vf_meta f)"
    using assms by (auto simp: vault_file_ok_def secret_payload_bytes_def seed_bytes_def)
  ultimately show ?thesis
    using payload_size [of f] meta_size [of "vf_meta f"] print_points_size [of "''payload''"]
      print_points_size [of "''meta''"]
    by (simp add: file_to_wire_def print_object_bound)
qed

lemma serialized_size: "vault_file_ok f \<Longrightarrow> length (serialize_vault_file f) \<le> vault_file_max_bytes"
  using utf8_encode_size [of "json_print (file_to_wire f)"] file_size [of f]
  by (simp add: serialize_vault_file_def vault_file_max_bytes_def)

subsection \<open>Printing loses nothing\<close>

lemma printable_hex_text: "printable (hex_text bs)"
  using points_scalar by (simp add: hex_text_def)

lemma printable_points: "printable (Jstr (points k))" "\<forall>c \<in> set (points k). scalar c"
  using points_scalar by auto

lemma printable_integer: "0 \<le> i \<Longrightarrow> i \<le> max_safe_integer \<Longrightarrow> printable (integer i)"
proof -
  assume i: "0 \<le> i" "i \<le> max_safe_integer"
  have "\<bar>rat_of_int i\<bar> = rat_of_int i" using i(1) by simp
  moreover have "rat_of_int i \<le> rat_of_int max_safe_integer" using i(2) by (simp only: of_int_le_iff)
  moreover have "rat_of_int max_safe_integer < double_limit"
    by (simp add: max_safe_integer_def double_limit_def)
  ultimately show ?thesis by (simp add: integer_def)
qed

lemmas printables = printable_hex_text printable_points printable_integer

lemma kdf_printable: "validate_kdf_params k = Inr () \<Longrightarrow> printable (kdf_to_wire k)"
  by (cases k) (simp_all add: kdf_to_wire_def validated_kdf printables max_safe_integer_def)

lemma slot_printable: "printable (slot_to_wire nonce wrapped)"
  by (simp add: slot_to_wire_def printables split: option.splits)

lemma header_printable: "validate_kdf_params (vh_kdf h) = Inr () \<Longrightarrow> printable (Jobj (header_to_wire h))"
  by (auto simp: header_to_wire_def printables kdf_printable slot_printable vault_format_version_def
      max_safe_integer_def split: option.splits)

lemma file_printable:
  assumes "vault_file_ok f"
  shows "printable (file_to_wire f)"
proof -
  have "printable (Jobj (header_to_wire f))" using assms by (intro header_printable) (simp add: vault_file_ok_def)
  moreover have "meta_ok (vf_meta f)" using assms by (simp add: vault_file_ok_def)
  ultimately show ?thesis
    by (auto simp: file_to_wire_def printables meta_ok_def max_safe_integer_def header_to_wire_def)
qed

text \<open>What is printed is made of scalar values, so the bytes give it back.\<close>

lemma print_object_bytes:
  assumes "printable (Jobj ms)"
  shows "utf8_decode (utf8_encode (json_print (Jobj ms))) = json_print (Jobj ms)"
  using utf8_decode_encode [OF print_scalar [OF assms]]
  by (simp add: drop_bom_plain json_print.simps(6))

lemma parse_serialized:
  assumes "vault_file_ok f"
  shows "parse_vault_file (serialize_vault_file f) = Inr f"
proof -
  have p: "printable (file_to_wire f)" by (rule file_printable [OF assms])
  then have "json_parse (utf8_decode (serialize_vault_file f)) = Some (file_to_wire f)"
    unfolding serialize_vault_file_def file_to_wire_def
    by (simp only: print_object_bytes parse_print)
  then show ?thesis
    using serialized_size [OF assms] by (simp add: parse_vault_file_def read_file assms)
qed

subsection \<open>Hostile files\<close>

lemma parsed_kdf_ok: "parse_kdf v = Inr k \<Longrightarrow> validate_kdf_params k = Inr ()"
  by (auto simp: parse_kdf_def)

lemma parsed_password_ok: "parse_password_slot v = Inr w \<Longrightarrow> wrap_slot_ok w"
  by (auto simp: parse_password_slot_def wrap_slot_ok_def vek_bytes_def split: if_splits)

lemma parsed_biometric_ok: "parse_biometric_slot v = Inr b \<Longrightarrow> biometric_slot_ok b"
  by (auto simp: parse_biometric_slot_def biometric_slot_ok_def split: if_splits option.splits)

lemma expect_uint_Inr: "expect_uint v lo hi = Inr i \<Longrightarrow> lo \<le> i \<and> i \<le> hi"
  by (auto simp: expect_uint_def split: jvalue.splits option.splits if_splits)

lemma parsed_meta_ok: "parse_meta ms = Inr m \<Longrightarrow> meta_ok m"
  by (auto simp: parse_meta_def meta_ok_def expect_uint_field_def split: if_splits dest!: expect_uint_Inr)

lemma parsed_file_ok: "parse_vault_file bs = Inr f \<Longrightarrow> vault_file_ok f"
  by (auto simp: parse_vault_file_def parse_vault_wire_def vault_file_ok_def parsed_kdf_ok parsed_password_ok
      parsed_biometric_ok parsed_meta_ok split: if_splits option.splits)

subsection \<open>The header inside the authenticated data\<close>

lemma kdf_to_wire_inject: "kdf_to_wire a = kdf_to_wire b \<Longrightarrow> a = b"
  by (cases a; cases b) (auto simp: kdf_to_wire_def)

lemma slot_to_wire_inject: "slot_to_wire n w = slot_to_wire n' w' \<Longrightarrow> n = n' \<and> w = w'"
  by (auto simp: slot_to_wire_def split: option.splits)

lemma slot_not_null: "slot_to_wire n w \<noteq> Jnull"
  by (simp add: slot_to_wire_def split: option.splits)

lemma header_to_wire_inject:
  assumes "header_to_wire g = header_to_wire h"
  shows "vh_kdf g = vh_kdf h" "vh_password g = vh_password h" "vh_biometric g = vh_biometric h"
proof -
  show "vh_kdf g = vh_kdf h" using assms by (simp add: header_to_wire_def kdf_to_wire_inject)
  show "vh_password g = vh_password h"
    using assms by (auto simp: header_to_wire_def dest!: slot_to_wire_inject)
  have b: "(case vh_biometric g of None \<Rightarrow> Jnull | Some b \<Rightarrow> slot_to_wire (bs_nonce b) (bs_wrapped b))
      = (case vh_biometric h of None \<Rightarrow> Jnull | Some b \<Rightarrow> slot_to_wire (bs_nonce b) (bs_wrapped b))"
    using assms by (simp add: header_to_wire_def)
  show "vh_biometric g = vh_biometric h"
  proof (cases "vh_biometric g"; cases "vh_biometric h")
    fix x y assume xy: "vh_biometric g = Some x" "vh_biometric h = Some y"
    then have "bs_nonce x = bs_nonce y \<and> bs_wrapped x = bs_wrapped y"
      using b by (intro slot_to_wire_inject) simp
    with xy show ?thesis by simp
  qed (use b slot_not_null slot_not_null [symmetric] in simp_all)
qed

lemma payload_aad_inject:
  assumes "validate_kdf_params (vh_kdf g) = Inr ()" "validate_kdf_params (vh_kdf h) = Inr ()"
    and "payload_aad g = payload_aad h"
  shows "header_to_wire g = header_to_wire h"
proof -
  have "json_print (Jobj (header_to_wire g)) = json_print (Jobj (header_to_wire h))"
    using print_object_bytes [OF header_printable [OF assms(1)]]
      print_object_bytes [OF header_printable [OF assms(2)]] assms(3) [unfolded payload_aad_def]
    by metis
  then show ?thesis
    using print_inject [OF header_printable [OF assms(1)] header_printable [OF assms(2)]] by simp
qed

subsection \<open>The secret payload\<close>

lemma encode_secret_payload_Inr: "encode_secret_payload p = Inr b \<longleftrightarrow>
    (length (sp_entropy p) = 16 \<or> length (sp_entropy p) = 32) \<and> length (sp_seed p) = 64
    \<and> b = word_of_nat (length (sp_entropy p)) # sp_entropy p @ sp_seed p @ [if sp_has_passphrase p then 1 else 0]"
  by (auto simp: encode_secret_payload_def seed_bytes_def)

lemma decode_encoded_payload:
  assumes "encode_secret_payload p = Inr b"
  shows "decode_secret_payload b = Inr p"
  using assms by (auto simp: encode_secret_payload_Inr decode_secret_payload_def Let_def seed_bytes_def unat_of_nat)

lemma encode_decoded_payload:
  assumes d: "decode_secret_payload b = Inr p"
  shows "encode_secret_payload p = Inr b"
proof (cases b)
  case (Cons l r)
  let ?n = "unat l"
  have n: "?n = 16 \<or> ?n = 32" and len: "length r = ?n + 64 + 1" and flag: "last b = 0 \<or> last b = 1"
    and p: "p = \<lparr>sp_entropy = take ?n r, sp_seed = take 64 (drop ?n r), sp_has_passphrase = (last b = 1)\<rparr>"
    using d Cons by (auto simp: decode_secret_payload_def Let_def seed_bytes_def split: if_splits)
  have tail: "drop 64 (drop ?n r) = [last b]"
  proof -
    have "length (drop 64 (drop ?n r)) = 1" using len by simp
    then obtain x where x: "drop 64 (drop ?n r) = [x]" by (metis One_nat_def length_0_conv length_Suc_conv)
    then have "last (drop 64 (drop ?n r)) = x" by simp
    moreover have "last (drop 64 (drop ?n r)) = last b" using len n Cons by (cases r) (auto simp: last_drop)
    ultimately show ?thesis using x by simp
  qed
  have "r = take ?n r @ take 64 (drop ?n r) @ [last b]"
    using tail by (metis append_take_drop_id)
  moreover have "(if last b = 1 then 1 else 0) = last b" using flag by auto
  moreover have "length (take ?n r) = ?n" "length (take 64 (drop ?n r)) = 64" using len n by auto
  ultimately show ?thesis using n Cons by (simp add: encode_secret_payload_Inr p)
qed (use d in \<open>simp add: decode_secret_payload_def\<close>)

lemma secret_payload_length:
  "encode_secret_payload p = Inr b \<Longrightarrow> length b = 66 + length (sp_entropy p)"
  by (auto simp: encode_secret_payload_Inr)

section \<open>Properties\<close>

text \<open>
  The parser of vault files inverts the serializer on exactly the well-formed files: KDF
  parameters within the caps, slots, nonces and ciphertext of their fixed sizes, metadata in range;
  every such file also stays below the size cap of the parser.
\<close>

theorem vault_file_round_trip: "parse_vault_file (serialize_vault_file f) = Inr f \<longleftrightarrow> vault_file_ok f"
  using parse_serialized parsed_file_ok by blast

text \<open>The memory a derivation fills, in bytes.\<close>

definition kdf_memory :: "kdf_params \<Rightarrow> int" where
  "kdf_memory k = (case k of Argon2id m _ _ _ \<Rightarrow> 1024 * m | Scrypt logn r _ _ \<Rightarrow> 128 * r * 2 ^ nat logn)"

text \<open>
  A hostile vault file cannot make the app fill more than one gibibyte when it derives the
  password key: any bytes that the parser accepts carry capped cost parameters.
\<close>

theorem parsed_kdf_bounded:
  assumes "parse_vault_file bs = Inr f"
  shows "kdf_memory (vh_kdf f) \<le> 2 ^ 30"
proof (cases "vh_kdf f")
  case (Scrypt logn r p salt)
  have bounds: "1 \<le> logn" "logn \<le> 20" "1 \<le> r" "r \<le> 8"
    using parsed_file_ok [OF assms] Scrypt by (auto simp: vault_file_ok_def validated_kdf)
  have "(2 :: int) ^ nat logn \<le> 2 ^ 20" using bounds by (intro power_increasing) auto
  then have "128 * r * 2 ^ nat logn \<le> 1024 * 2 ^ 20" using bounds by (intro mult_mono) auto
  with Scrypt show ?thesis by (simp add: kdf_memory_def)
qed (use parsed_file_ok [OF assms] in \<open>auto simp: kdf_memory_def vault_file_ok_def validated_kdf\<close>)

text \<open>
  The authenticated data of the payload determines the header: two headers with capped
  parameters and the same bytes of authenticated data have the same parameters, salt and slots.
  So no edit of the header goes unnoticed by the authentication of the payload.
\<close>

theorem payload_aad_determines_header:
  assumes "validate_kdf_params (vh_kdf g) = Inr ()" "validate_kdf_params (vh_kdf h) = Inr ()"
    and "payload_aad g = payload_aad h"
  shows "vault_header.truncate g = vault_header.truncate h"
  using header_to_wire_inject [OF payload_aad_inject [OF assms]] by (simp add: vault_header.defs)

text \<open>
  Decoding and encoding of the secret payload are inverse to each other: bytes decode to a
  payload exactly when the payload encodes to those bytes, so there is one encoding of each secret.
\<close>

theorem secret_payload_round_trip: "decode_secret_payload b = Inr p \<longleftrightarrow> encode_secret_payload p = Inr b"
  using decode_encoded_payload encode_decoded_payload by blast

section \<open>Witnesses\<close>

definition sample_file :: vault_file where
  "sample_file = \<lparr>vh_kdf = default_kdf_params (replicate 16 1),
     vh_password = \<lparr>ws_nonce = replicate 12 2, ws_wrapped = replicate 48 3\<rparr>,
     vh_biometric = Some \<lparr>bs_nonce = None, bs_wrapped = replicate 77 4\<rparr>,
     vf_nonce = replicate 12 5, vf_ct = replicate 98 6,
     vf_meta = \<lparr>vm_created_at = 1700000000000, vm_word_count = 12, vm_has_passphrase = False, vm_auto_lock = 300\<rparr>\<rparr>"

lemma sample_file_ok: "vault_file_ok sample_file"
  by (simp add: sample_file_def vault_file_ok_def default_kdf_params_def validated_kdf wrap_slot_ok_def
      biometric_slot_ok_def meta_ok_def max_safe_integer_def secret_payload_bytes_def seed_bytes_def)

theorem parsed_kdf_bounded_witness: "kdf_memory (vh_kdf sample_file) \<le> 2 ^ 30"
  by (rule parsed_kdf_bounded [OF parse_serialized [OF sample_file_ok]])

theorem payload_aad_determines_header_witness:
  "vault_header.truncate sample_file
     = vault_header.truncate (sample_file \<lparr>vf_nonce := []\<rparr>)"
proof (rule payload_aad_determines_header)
  show "payload_aad sample_file = payload_aad (sample_file \<lparr>vf_nonce := []\<rparr>)"
    by (simp add: payload_aad_def header_to_wire_def)
qed (simp_all add: sample_file_def default_kdf_params_def validated_kdf)

end
