(* ===== verification/Cemp_Vault.thy ===== *)
theory Cemp_Vault
  imports Cemp_VaultFormat
begin

text \<open>
  packages/cemp-secure-vault/src/vault.ts: the vault, which holds the recovery phrase of the user.

  The vault runs over an environment \<open>'w\<close>: storage, the platform key store, the password derivation,
  the random generator and the clock are arbitrary functions of it, and while an operation waits for
  one of the asynchronous ones the vault may be locked under it, by the timer or by another caller
  (\<open>vd_interrupted\<close>). The timer is armed exactly when the deadline is set, both are written together.
  A buffer that is filled with zeros is one that nobody holds any more; the live buffers of the vault
  become \<open>None\<close>. The BIP39 functions come from the scure library.
\<close>

section \<open>What the vault runs on\<close>

record bip39_library =
  bl_from_entropy :: "bytes \<Rightarrow> code_points"
  bl_to_entropy :: "code_points \<Rightarrow> bytes option"
  bl_validate :: "code_points \<Rightarrow> bool"
  bl_seed :: "code_points \<Rightarrow> code_points option \<Rightarrow> bytes"

record 'w vault_deps =
  vd_suite :: crypto_suite
  vd_bip39 :: bip39_library
  vd_read :: "string \<Rightarrow> ('w, string, bytes option) prog"
  vd_write :: "string \<Rightarrow> bytes \<Rightarrow> ('w, string, unit) prog"
  vd_delete :: "string \<Rightarrow> ('w, string, unit) prog"
  vd_wrap :: "bytes \<Rightarrow> bool \<Rightarrow> ('w, string, bytes) prog"
  vd_unwrap :: "bytes \<Rightarrow> ('w, string, bytes) prog"
  vd_biometric_available :: "('w, string, bool) prog"
  vd_delete_key :: "('w, string, unit) prog"
  vd_derive_kek :: "code_points \<Rightarrow> kdf_params \<Rightarrow> ('w, string, bytes) prog"
  vd_random :: "nat \<Rightarrow> 'w \<Rightarrow> bytes \<times> 'w"
  vd_clock :: "'w \<Rightarrow> int \<times> 'w"
  vd_interrupted :: "'w \<Rightarrow> bool \<times> 'w"

datatype vault_state = Locked | Unlocked | Uninitialized

record 'w vault =
  va_state :: vault_state
  va_vek :: "bytes option"
  va_seed :: "bytes option"
  va_db_key :: "bytes option"
  va_auto_lock :: int
  va_deadline :: "int option"
  va_env :: 'w

type_synonym ('w, 'a) vault_prog = "('w vault, vault_error, 'a) prog"

definition vault_file_name :: string where
  "vault_file_name = ''cemp.vault.json''"

definition database_key_name :: string where
  "database_key_name = ''cemp.dbkey''"

definition default_auto_lock_seconds :: int where
  "default_auto_lock_seconds = 300"

definition max_auto_lock_seconds :: int where
  "max_auto_lock_seconds = 3600"

definition clamp_auto_lock_seconds :: "int \<Rightarrow> int" where
  "clamp_auto_lock_seconds seconds = min seconds max_auto_lock_seconds"

definition password_wrap_aad :: bytes where
  "password_wrap_aad = text_encode ''CEMP/VAULT/wrap/password/v1''"

definition derive_local_database_key :: "crypto_suite \<Rightarrow> bytes \<Rightarrow> crypto_error + bytes" where
  "derive_local_database_key S seed =
     (if length seed \<noteq> 64 then Inl (BadLength ''deriveLocalDatabaseKey: bip39Seed'' (length seed) 64)
      else Inr (derive_sub_seed S seed ''CEMP/LOCAL/database/v1'' 32))"

section \<open>Live state\<close>

definition lift_sum :: "('a \<Rightarrow> 'e) \<Rightarrow> 'a + 'b \<Rightarrow> ('s, 'e, 'b) prog" where
  "lift_sum h r = (case r of Inl e \<Rightarrow> throw (h e) | Inr x \<Rightarrow> ret x)"

definition clear_live_state :: "'w vault \<Rightarrow> 'w vault" where
  "clear_live_state v = v\<lparr>va_vek := None, va_seed := None, va_db_key := None\<rparr>"

definition clear_auto_lock_timer :: "'w vault \<Rightarrow> 'w vault" where
  "clear_auto_lock_timer v = v\<lparr>va_deadline := None\<rparr>"

definition lock_now :: "'w vault \<Rightarrow> 'w vault" where
  "lock_now v = (let v' = clear_live_state (clear_auto_lock_timer v) in
     if va_state v' = Unlocked then v'\<lparr>va_state := Locked\<rparr> else v')"

text \<open>A call of the environment that is awaited.\<close>

definition awaits :: "'w vault_deps \<Rightarrow> ('w, string, 'a) prog \<Rightarrow> ('w, 'a) vault_prog" where
  "awaits D m = (\<lambda>v. case m (va_env v) of (r, w) \<Rightarrow>
     (case vd_interrupted D w of (b, w') \<Rightarrow>
       (map_error PlatformThrown r, (if b then lock_now else id) (v\<lparr>va_env := w'\<rparr>))))"

definition draw :: "'w vault_deps \<Rightarrow> nat \<Rightarrow> ('w, bytes) vault_prog" where
  "draw D n = (\<lambda>v. case vd_random D n (va_env v) of (b, w) \<Rightarrow> (Inr b, v\<lparr>va_env := w\<rparr>))"

definition date_now :: "'w vault_deps \<Rightarrow> ('w, int) vault_prog" where
  "date_now D = (\<lambda>v. case vd_clock D (va_env v) of (t, w) \<Rightarrow> (Inr t, v\<lparr>va_env := w\<rparr>))"

definition fixed_or :: "'a option \<Rightarrow> ('s, 'e, 'a) prog \<Rightarrow> ('s, 'e, 'a) prog" where
  "fixed_or x m = (case x of Some y \<Rightarrow> ret y | None \<Rightarrow> m)"

definition start_auto_lock_timer :: "'w vault_deps \<Rightarrow> ('w, unit) vault_prog" where
  "start_auto_lock_timer D =
     andthen (modify clear_auto_lock_timer) (\<lambda>_.
     andthen (date_now D) (\<lambda>now.
     modify (\<lambda>v. v\<lparr>va_deadline := Some (now + va_auto_lock v * 1000)\<rparr>)))"

definition set_unlocked :: "'w vault_deps \<Rightarrow> bytes \<Rightarrow> bytes \<Rightarrow> int \<Rightarrow> ('w, unit) vault_prog" where
  "set_unlocked D vek seed seconds =
     andthen (modify (\<lambda>v. (clear_live_state v)\<lparr>va_vek := Some vek, va_seed := Some seed,
       va_auto_lock := seconds, va_state := Unlocked\<rparr>)) (\<lambda>_.
     start_auto_lock_timer D)"

definition assert_unlocked :: "('w, unit) vault_prog" where
  "assert_unlocked =
     andthen (asks va_state) (\<lambda>st.
     if st = Uninitialized then throw (VaultError NotInitialized)
     else if st = Locked then throw (VaultError VaultIsLocked)
     else ret ())"

text \<open>\<open>None\<close> is the null that the non-null assertion of the code lets through.\<close>

definition require_vek :: "('w, bytes option) vault_prog" where
  "require_vek = andthen assert_unlocked (\<lambda>_. asks va_vek)"

definition require_seed :: "('w, bytes option) vault_prog" where
  "require_seed = andthen assert_unlocked (\<lambda>_. asks va_seed)"

definition null_error :: vault_error where
  "null_error = PlatformThrown ''TypeError''"

section \<open>Reading the file\<close>

definition read_vault_file :: "'w vault_deps \<Rightarrow> ('w, vault_file) vault_prog" where
  "read_vault_file D =
     andthen (awaits D (vd_read D vault_file_name)) (\<lambda>found. case found of
         None \<Rightarrow> throw (VaultError NotInitialized)
       | Some bs \<Rightarrow> lift_sum id (parse_vault_file bs))"

definition decrypt_payload_bytes ::
  "'w vault_deps \<Rightarrow> vault_file \<Rightarrow> bytes option \<Rightarrow> vault_code \<Rightarrow> vault_error + bytes" where
  "decrypt_payload_bytes D file vek code = (case vek of
       None \<Rightarrow> Inl (VaultError code)
     | Some k \<Rightarrow> map_error (\<lambda>_. VaultError code)
         (aes256_gcm_decrypt (vd_suite D) k (vf_nonce file) (vf_ct file) (payload_aad file)))"

definition decrypt_payload ::
  "'w vault_deps \<Rightarrow> vault_file \<Rightarrow> bytes option \<Rightarrow> vault_code \<Rightarrow> vault_error + secret_payload" where
  "decrypt_payload D file vek code = sum_bind (decrypt_payload_bytes D file vek code) decode_secret_payload"

text \<open>The key from the password slot.\<close>

definition unwrap_password_slot :: "'w vault_deps \<Rightarrow> vault_file \<Rightarrow> bytes \<Rightarrow> vault_error + bytes" where
  "unwrap_password_slot D file kek = map_error (\<lambda>_. VaultError WrongPassword)
     (aes256_gcm_decrypt (vd_suite D) kek (ws_nonce (vh_password file)) (ws_wrapped (vh_password file))
       password_wrap_aad)"

section \<open>Creation\<close>

record fixed_inputs =
  fi_entropy :: "bytes option"
  fi_vek :: "bytes option"
  fi_kdf_salt :: "bytes option"
  fi_password_nonce :: "bytes option"
  fi_payload_nonce :: "bytes option"
  fi_created_at :: "int option"

definition no_fixed_inputs :: fixed_inputs where
  "no_fixed_inputs = \<lparr>fi_entropy = None, fi_vek = None, fi_kdf_salt = None, fi_password_nonce = None,
     fi_payload_nonce = None, fi_created_at = None\<rparr>"

record create_options =
  co_kdf :: "kdf_options option"
  co_auto_lock :: "int option"
  co_fixed :: "fixed_inputs option"

definition fixed_of :: "create_options \<Rightarrow> fixed_inputs" where
  "fixed_of opts = (case co_fixed opts of None \<Rightarrow> no_fixed_inputs | Some f \<Rightarrow> f)"

definition assert_can_initialize :: "'w vault_deps \<Rightarrow> ('w, unit) vault_prog" where
  "assert_can_initialize D =
     andthen (awaits D (vd_read D vault_file_name)) (\<lambda>existing.
     andthen (asks va_state) (\<lambda>st.
     if existing \<noteq> None \<or> st \<noteq> Uninitialized then throw (VaultError AlreadyInitialized) else ret ()))"

definition build_vault ::
  "'w vault_deps \<Rightarrow> secret_payload \<Rightarrow> int \<Rightarrow> code_points \<Rightarrow> create_options \<Rightarrow> ('w, unit) vault_prog" where
  "build_vault D payload words password opts = (let S = vd_suite D; fixed = fixed_of opts in
     andthen (fixed_or (fi_kdf_salt fixed) (draw D kdf_salt_bytes)) (\<lambda>salt.
     let kdf = resolve_kdf_params (co_kdf opts) salt in
     andthen (lift_sum id (validate_kdf_params kdf)) (\<lambda>_.
     andthen (awaits D (vd_derive_kek D password kdf)) (\<lambda>kek.
     andthen (fixed_or (fi_vek fixed) (draw D vek_bytes)) (\<lambda>vek.
     if length vek \<noteq> vek_bytes then throw (VaultError CorruptVault)
     else
       andthen (fixed_or (fi_password_nonce fixed) (draw D 12)) (\<lambda>slot_nonce.
       andthen (lift_sum CryptoThrown (aes256_gcm_encrypt S kek slot_nonce vek password_wrap_aad)) (\<lambda>wrapped.
       let header = \<lparr>vh_kdf = kdf, vh_password = \<lparr>ws_nonce = slot_nonce, ws_wrapped = wrapped\<rparr>,
         vh_biometric = None\<rparr> in
       andthen (fixed_or (fi_payload_nonce fixed) (draw D 12)) (\<lambda>payload_nonce.
       andthen (lift_sum id (encode_secret_payload payload)) (\<lambda>plaintext.
       andthen (lift_sum CryptoThrown
         (aes256_gcm_encrypt S vek payload_nonce plaintext (payload_aad header))) (\<lambda>ct.
       andthen (fixed_or (fi_created_at fixed) (date_now D)) (\<lambda>created.
       let file = vault_header.extend header \<lparr>vf_nonce = payload_nonce, vf_ct = ct,
         vf_meta = \<lparr>vm_created_at = created, vm_word_count = words,
           vm_has_passphrase = sp_has_passphrase payload,
           vm_auto_lock = or_default default_auto_lock_seconds (co_auto_lock opts)\<rparr>\<rparr> in
       andthen (lift_sum CryptoThrown (derive_local_database_key S (sp_seed payload))) (\<lambda>db_key.
       andthen (catching (awaits D (vd_wrap D db_key False)) (\<lambda>_. throw (VaultError KeystoreError))) (\<lambda>blob.
       andthen (awaits D (vd_write D vault_file_name (serialize_vault_file file))) (\<lambda>_.
       andthen (awaits D (vd_write D database_key_name blob)) (\<lambda>_.
       set_unlocked D vek (sp_seed payload) (vm_auto_lock (vf_meta file)))))))))))))))))"

definition split_spaces :: "code_points \<Rightarrow> code_points list" where
  "split_spaces t = foldr (\<lambda>c ws. if c = 32 then [] # ws else (c # hd ws) # tl ws) t [[]]"

fun join_spaces :: "code_points list \<Rightarrow> code_points" where
  "join_spaces [] = []"
| "join_spaces [w] = w"
| "join_spaces (w # v # ws) = w @ 32 # join_spaces (v # ws)"

definition create_with_new_mnemonic ::
  "'w vault_deps \<Rightarrow> int \<Rightarrow> code_points \<Rightarrow> create_options \<Rightarrow> ('w, code_points list) vault_prog" where
  "create_with_new_mnemonic D words password opts = (let n = (if words = 12 then 16 else 32) in
     andthen (assert_can_initialize D) (\<lambda>_.
     andthen (fixed_or (fi_entropy (fixed_of opts)) (draw D n)) (\<lambda>entropy.
     if length entropy \<noteq> n then throw (VaultError InvalidMnemonic)
     else (let phrase = split_spaces (bl_from_entropy (vd_bip39 D) entropy);
               seed = bl_seed (vd_bip39 D) (join_spaces phrase) None in
       andthen (build_vault D \<lparr>sp_entropy = entropy, sp_seed = seed, sp_has_passphrase = False\<rparr> words password opts)
         (\<lambda>_. ret phrase)))))"

definition import_mnemonic ::
  "'w vault_deps \<Rightarrow> code_points list \<Rightarrow> code_points \<Rightarrow> code_points option \<Rightarrow> create_options
     \<Rightarrow> ('w, unit) vault_prog" where
  "import_mnemonic D words password passphrase opts =
     andthen (assert_can_initialize D) (\<lambda>_.
     let joined = join_spaces words; B = vd_bip39 D in
     if \<not> bl_validate B joined then throw (VaultError InvalidMnemonic)
     else case bl_to_entropy B joined of
         None \<Rightarrow> throw (VaultError InvalidMnemonic)
       | Some entropy \<Rightarrow>
           let word_count = (if length entropy = 16 then 12 else 24);
               normalized = (if passphrase = Some [] then None else passphrase);
               seed = bl_seed B joined normalized in
           if length entropy \<noteq> 16 \<and> length entropy \<noteq> 32 then throw (VaultError InvalidMnemonic)
           else build_vault D \<lparr>sp_entropy = entropy, sp_seed = seed, sp_has_passphrase = (normalized \<noteq> None)\<rparr>
             word_count password opts)"

definition open_vault :: "'w vault_deps \<Rightarrow> ('w, string, 'w vault) prog" where
  "open_vault D = andthen (vd_read D vault_file_name) (\<lambda>existing.
     andthen (asks (\<lambda>w. w)) (\<lambda>w.
     ret \<lparr>va_state = (if existing = None then Uninitialized else Locked), va_vek = None, va_seed = None,
        va_db_key = None, va_auto_lock = default_auto_lock_seconds, va_deadline = None, va_env = w\<rparr>))"

section \<open>Unlocking and locking\<close>

definition unlock :: "'w vault_deps \<Rightarrow> code_points \<Rightarrow> ('w, unit) vault_prog" where
  "unlock D password =
     andthen (read_vault_file D) (\<lambda>file.
     andthen (awaits D (vd_derive_kek D password (vh_kdf file))) (\<lambda>kek.
     andthen (lift_sum id (unwrap_password_slot D file kek)) (\<lambda>vek.
     andthen (lift_sum id (decrypt_payload D file (Some vek) WrongPassword)) (\<lambda>payload.
     set_unlocked D vek (sp_seed payload) (clamp_auto_lock_seconds (vm_auto_lock (vf_meta file)))))))"

definition unlock_with_biometrics :: "'w vault_deps \<Rightarrow> ('w, unit) vault_prog" where
  "unlock_with_biometrics D =
     andthen (read_vault_file D) (\<lambda>file. case vh_biometric file of
         None \<Rightarrow> throw (VaultError BiometricUnavailable)
       | Some slot \<Rightarrow>
           andthen (catching (awaits D (vd_unwrap D (bs_wrapped slot)))
             (\<lambda>_. throw (VaultError BiometricDenied))) (\<lambda>vek.
           if length vek \<noteq> vek_bytes then throw (VaultError CorruptVault)
           else
             andthen (lift_sum id (decrypt_payload D file (Some vek) CorruptVault)) (\<lambda>payload.
             set_unlocked D vek (sp_seed payload) (clamp_auto_lock_seconds (vm_auto_lock (vf_meta file))))))"

definition lock :: "('w, unit) vault_prog" where
  "lock = modify lock_now"

definition touch :: "'w vault_deps \<Rightarrow> ('w, unit) vault_prog" where
  "touch D = andthen (asks va_state) (\<lambda>st. when_do (st = Unlocked) (start_auto_lock_timer D))"

section \<open>Flows behind the password\<close>

definition reveal_mnemonic :: "'w vault_deps \<Rightarrow> code_points \<Rightarrow> ('w, code_points list) vault_prog" where
  "reveal_mnemonic D password =
     andthen (read_vault_file D) (\<lambda>file.
     andthen (awaits D (vd_derive_kek D password (vh_kdf file))) (\<lambda>kek.
     andthen (lift_sum id (unwrap_password_slot D file kek)) (\<lambda>vek.
     andthen (lift_sum id (decrypt_payload D file (Some vek) WrongPassword)) (\<lambda>payload.
     ret (split_spaces (bl_from_entropy (vd_bip39 D) (sp_entropy payload)))))))"

fun with_salt :: "bytes \<Rightarrow> kdf_params \<Rightarrow> kdf_params" where
  "with_salt salt (Argon2id m t p _) = Argon2id m t p salt"
| "with_salt salt (Scrypt logn r p _) = Scrypt logn r p salt"

definition change_password :: "'w vault_deps \<Rightarrow> code_points \<Rightarrow> code_points \<Rightarrow> ('w, unit) vault_prog" where
  "change_password D old_password new_password = (let S = vd_suite D in
     andthen (read_vault_file D) (\<lambda>file.
     andthen (awaits D (vd_derive_kek D old_password (vh_kdf file))) (\<lambda>old_kek.
     andthen (lift_sum id (unwrap_password_slot D file old_kek)) (\<lambda>vek.
     andthen (draw D kdf_salt_bytes) (\<lambda>salt.
     let new_kdf = with_salt salt (vh_kdf file) in
     andthen (awaits D (vd_derive_kek D new_password new_kdf)) (\<lambda>new_kek.
     andthen (draw D 12) (\<lambda>slot_nonce.
     andthen (lift_sum CryptoThrown (aes256_gcm_encrypt S new_kek slot_nonce vek password_wrap_aad)) (\<lambda>wrapped.
     andthen (lift_sum id (decrypt_payload_bytes D file (Some vek) WrongPassword)) (\<lambda>plaintext.
     let header = \<lparr>vh_kdf = new_kdf, vh_password = \<lparr>ws_nonce = slot_nonce, ws_wrapped = wrapped\<rparr>,
       vh_biometric = vh_biometric file\<rparr> in
     andthen (draw D 12) (\<lambda>payload_nonce.
     andthen (lift_sum CryptoThrown (aes256_gcm_encrypt S vek payload_nonce plaintext (payload_aad header))) (\<lambda>ct.
     let updated = file\<lparr>vh_kdf := new_kdf, vh_password := vh_password header, vf_nonce := payload_nonce, vf_ct := ct\<rparr> in
     awaits D (vd_write D vault_file_name (serialize_vault_file updated)))))))))))))"

section \<open>Biometrics\<close>

definition rewrite_slots ::
  "'w vault_deps \<Rightarrow> vault_file \<Rightarrow> wrap_slot \<Rightarrow> biometric_slot option \<Rightarrow> ('w, unit) vault_prog" where
  "rewrite_slots D file password_slot biometric_slot =
     andthen require_vek (\<lambda>vek.
     andthen (lift_sum id (decrypt_payload_bytes D file vek CorruptVault)) (\<lambda>plaintext.
     let header = \<lparr>vh_kdf = vh_kdf file, vh_password = password_slot, vh_biometric = biometric_slot\<rparr> in
     andthen (draw D 12) (\<lambda>payload_nonce.
     andthen (lift_sum CryptoThrown
       (aes256_gcm_encrypt (vd_suite D) (the vek) payload_nonce plaintext (payload_aad header))) (\<lambda>ct.
     let updated = file\<lparr>vh_password := password_slot, vh_biometric := biometric_slot,
       vf_nonce := payload_nonce, vf_ct := ct\<rparr> in
     awaits D (vd_write D vault_file_name (serialize_vault_file updated))))))"

text \<open>Reading the live key is inside the \<open>try\<close>: a vault that was locked meanwhile reports a key
  store error.\<close>

definition enable_biometrics :: "'w vault_deps \<Rightarrow> ('w, unit) vault_prog" where
  "enable_biometrics D =
     andthen assert_unlocked (\<lambda>_.
     andthen (awaits D (vd_biometric_available D)) (\<lambda>available.
     if \<not> available then throw (VaultError BiometricUnavailable)
     else
       andthen (read_vault_file D) (\<lambda>file.
       if vh_biometric file \<noteq> None then ret ()
       else
         andthen (catching
           (andthen require_vek (\<lambda>vek. case vek of
               None \<Rightarrow> throw null_error
             | Some k \<Rightarrow> awaits D (vd_wrap D k True)))
           (\<lambda>_. throw (VaultError KeystoreError))) (\<lambda>blob.
         rewrite_slots D file (vh_password file) (Some \<lparr>bs_nonce = None, bs_wrapped = blob\<rparr>)))))"

definition disable_biometrics :: "'w vault_deps \<Rightarrow> ('w, unit) vault_prog" where
  "disable_biometrics D =
     andthen assert_unlocked (\<lambda>_.
     andthen (read_vault_file D) (\<lambda>file.
     if vh_biometric file = None then ret () else rewrite_slots D file (vh_password file) None))"

section \<open>Use of the keys\<close>

text \<open>The function of the caller is an asynchronous call; null is the seed of a vault whose wipe failed.\<close>

definition with_unlocked_seed ::
  "'w vault_deps \<Rightarrow> (bytes option \<Rightarrow> ('w, string, 'a) prog) \<Rightarrow> ('w, 'a) vault_prog" where
  "with_unlocked_seed D f =
     andthen assert_unlocked (\<lambda>_. andthen require_seed (\<lambda>seed. awaits D (f seed)))"

definition get_database_key :: "'w vault_deps \<Rightarrow> ('w, bytes) vault_prog" where
  "get_database_key D =
     andthen assert_unlocked (\<lambda>_.
     andthen (asks va_db_key) (\<lambda>cached. case cached of
         Some k \<Rightarrow> ret k
       | None \<Rightarrow>
           andthen require_seed (\<lambda>seed. case seed of
               None \<Rightarrow> throw null_error
             | Some sd \<Rightarrow>
                 andthen (lift_sum CryptoThrown (derive_local_database_key (vd_suite D) sd)) (\<lambda>k.
                 andthen (modify (\<lambda>v. v\<lparr>va_db_key := Some k\<rparr>)) (\<lambda>_. ret k)))))"

definition unwrap_database_key :: "'w vault_deps \<Rightarrow> ('w, bytes) vault_prog" where
  "unwrap_database_key D =
     andthen assert_unlocked (\<lambda>_.
     andthen (awaits D (vd_read D database_key_name)) (\<lambda>blob. case blob of
         None \<Rightarrow> throw (VaultError KeystoreError)
       | Some b \<Rightarrow> catching (awaits D (vd_unwrap D b)) (\<lambda>_. throw (VaultError KeystoreError))))"

section \<open>The confirmation quiz\<close>

definition mnemonic_words_while_unlocked :: "'w vault_deps \<Rightarrow> ('w, code_points list) vault_prog" where
  "mnemonic_words_while_unlocked D =
     andthen (read_vault_file D) (\<lambda>file.
     andthen require_vek (\<lambda>vek.
     andthen (lift_sum id (decrypt_payload D file vek CorruptVault)) (\<lambda>payload.
     ret (split_spaces (bl_from_entropy (vd_bip39 D) (sp_entropy payload))))))"

text \<open>The partial shuffle: step \<open>i\<close> swaps position \<open>i\<close> with one of the positions from it on, with one
  random byte.\<close>

definition swap_at :: "nat \<Rightarrow> nat \<Rightarrow> 'a list \<Rightarrow> 'a list" where
  "swap_at i j xs = xs[i := xs ! j, j := xs ! i]"

fun shuffle_pool :: "'w vault_deps \<Rightarrow> nat list \<Rightarrow> int list \<Rightarrow> ('w, int list) vault_prog" where
  "shuffle_pool D [] pool = ret pool"
| "shuffle_pool D (i # is) pool =
     andthen (draw D 1) (\<lambda>b.
     shuffle_pool D is (swap_at i (i + unat (hd b) mod (length pool - i)) pool))"

definition generate_mnemonic_quiz :: "'w vault_deps \<Rightarrow> int \<Rightarrow> ('w, int list) vault_prog" where
  "generate_mnemonic_quiz D word_count =
     andthen assert_unlocked (\<lambda>_.
     andthen (mnemonic_words_while_unlocked D) (\<lambda>words.
     let count = nat (min (max 1 word_count) (int (length words))) in
     andthen (shuffle_pool D [0..<count] (map int [0..<length words])) (\<lambda>pool.
     ret (sort (map (\<lambda>i. i + 1) (take count pool))))))"

definition verify_mnemonic_quiz :: "'w vault_deps \<Rightarrow> int list \<Rightarrow> code_points list \<Rightarrow> ('w, bool) vault_prog" where
  "verify_mnemonic_quiz D positions answers =
     andthen assert_unlocked (\<lambda>_.
     if length answers \<noteq> length positions then ret False
     else
       andthen (mnemonic_words_while_unlocked D) (\<lambda>words.
       ret (list_all (\<lambda>(position, answer). 1 \<le> position \<and> position \<le> int (length words)
         \<and> js_lower (js_trim answer) = words ! nat (position - 1)) (zip positions answers))))"

section \<open>Wipe and metadata\<close>

definition wipe :: "'w vault_deps \<Rightarrow> ('w, unit) vault_prog" where
  "wipe D =
     andthen (modify (\<lambda>v. clear_live_state (clear_auto_lock_timer v))) (\<lambda>_.
     andthen (awaits D (vd_delete D vault_file_name)) (\<lambda>_.
     andthen (awaits D (vd_delete D database_key_name)) (\<lambda>_.
     andthen (catching (awaits D (vd_delete_key D)) (\<lambda>_. throw (VaultError KeystoreError))) (\<lambda>_.
     modify (\<lambda>v. v\<lparr>va_state := Uninitialized\<rparr>)))))"

record vault_metadata =
  md_created_at :: int
  md_argon2id :: bool
  md_biometric :: bool
  md_auto_lock :: int
  md_word_count :: int
  md_has_passphrase :: bool

definition get_metadata :: "'w vault_deps \<Rightarrow> ('w, vault_metadata) vault_prog" where
  "get_metadata D = andthen (read_vault_file D) (\<lambda>file.
     ret \<lparr>md_created_at = vm_created_at (vf_meta file),
       md_argon2id = (case vh_kdf file of Argon2id _ _ _ _ \<Rightarrow> True | Scrypt _ _ _ _ \<Rightarrow> False),
       md_biometric = (vh_biometric file \<noteq> None),
       md_auto_lock = clamp_auto_lock_seconds (vm_auto_lock (vf_meta file)),
       md_word_count = vm_word_count (vf_meta file),
       md_has_passphrase = vm_has_passphrase (vf_meta file)\<rparr>)"

section \<open>Live secrets are guarded\<close>

text \<open>The typing of a vault: no secret and no timer unless it is unlocked, key and seed live together,
  of their sizes and with a deadline, and a cached database key is the one of the live seed.\<close>

definition vault_typed :: "crypto_suite \<Rightarrow> 'w vault \<Rightarrow> bool" where
  "vault_typed S v \<longleftrightarrow>
     (va_state v \<noteq> Unlocked \<longrightarrow> va_vek v = None \<and> va_deadline v = None) \<and>
     (case va_vek v of None \<Rightarrow> va_seed v = None
        | Some k \<Rightarrow> length k = 32 \<and> va_deadline v \<noteq> None \<and> (\<exists>sd. va_seed v = Some sd \<and> length sd = 64)) \<and>
     (case va_db_key v of None \<Rightarrow> True
        | Some k \<Rightarrow> (\<exists>sd. va_seed v = Some sd \<and> derive_local_database_key S sd = Inr k))"

definition yields :: "('s, 'e, 'a) prog \<Rightarrow> 'a \<Rightarrow> bool" where
  "yields m x \<longleftrightarrow> (\<exists>s s'. m s = (Inr x, s'))"

lemma keeps_then:
  "keeps I m \<Longrightarrow> (\<And>x. yields m x \<Longrightarrow> keeps I (f x)) \<Longrightarrow> keeps I (andthen m f)"
  by (auto simp: keeps_def andthen_def yields_def split: prod.splits sum.splits) (metis snd_conv)

lemma yields_lift_sum [simp]: "yields (lift_sum h r) x \<longleftrightarrow> r = Inr x"
  by (auto simp: yields_def lift_sum_def ret_def throw_def split: sum.splits)

lemma keeps_lift_sum [keeps_rules]: "keeps I (lift_sum h r)"
  by (cases r) (simp_all add: lift_sum_def keeps_ret keeps_throw)

lemma keeps_fixed_or [keeps_rules]: "keeps I m \<Longrightarrow> keeps I (fixed_or x m)"
  by (simp add: fixed_or_def keeps_ret split: option.splits)

lemma wp_lift_sum [wp_rules]:
  "wp (lift_sum h r) Q E s = (case r of Inl e \<Rightarrow> E (h e) s | Inr x \<Rightarrow> Q x s)"
  by (cases r) (simp_all add: lift_sum_def wp_ret wp_throw)

lemma vault_typed_env [simp]: "vault_typed S (v\<lparr>va_env := w\<rparr>) = vault_typed S v"
  by (simp add: vault_typed_def split: option.splits)

lemma lock_now_typed: "vault_typed S (lock_now v)"
  by (simp add: vault_typed_def lock_now_def clear_live_state_def clear_auto_lock_timer_def Let_def)

lemma cleared_typed: "vault_typed S (clear_live_state (clear_auto_lock_timer v))"
  by (simp add: vault_typed_def clear_live_state_def clear_auto_lock_timer_def)

lemma typed_awaits [keeps_rules]: "keeps (vault_typed S) (awaits D m)"
  by (auto simp: keeps_def awaits_def lock_now_typed split: prod.splits)

lemma typed_draw [keeps_rules]: "keeps (vault_typed S) (draw D n)"
  by (auto simp: keeps_def draw_def split: prod.splits)

lemma typed_date_now [keeps_rules]: "keeps (vault_typed S) (date_now D)"
  by (auto simp: keeps_def date_now_def split: prod.splits)

lemma typed_start_timer:
  assumes "vault_typed S v" "va_vek v \<noteq> None"
  shows "wp (start_auto_lock_timer D) (\<lambda>_. vault_typed S) (\<lambda>_. vault_typed S) v"
  using assms
  by (auto simp: start_auto_lock_timer_def prog_defs wp_def date_now_def clear_auto_lock_timer_def vault_typed_def
      split: prod.splits option.splits)

lemma typed_set_unlocked:
  assumes "length vek = 32" "length seed = 64"
  shows "keeps (vault_typed S) (set_unlocked D vek seed secs)"
  using assms
  by (auto simp: keeps_def set_unlocked_def start_auto_lock_timer_def prog_defs date_now_def
      clear_auto_lock_timer_def clear_live_state_def vault_typed_def split: prod.splits)

lemma decrypted_key_length:
  "aes256_gcm_decrypt S k n c a = Inr p \<Longrightarrow> length k = 32"
  by (simp add: aes256_gcm_decrypt_def)

lemma payload_key_length: "decrypt_payload D f (Some k) code = Inr p \<Longrightarrow> length k = 32"
  by (auto simp: decrypt_payload_def decrypt_payload_bytes_def dest: decrypted_key_length)

lemma payload_seed_length: "decrypt_payload D f k code = Inr p \<Longrightarrow> length (sp_seed p) = 64"
  by (auto simp: decrypt_payload_def encode_secret_payload_Inr dest!: encode_decoded_payload)

lemma typed_asserts [keeps_rules]:
  "keeps (vault_typed S) assert_unlocked" "keeps (vault_typed S) require_vek" "keeps (vault_typed S) require_seed"
  by (auto simp: assert_unlocked_def require_vek_def require_seed_def intro!: keeps_rules)

lemma typed_read_file [keeps_rules]: "keeps (vault_typed S) (read_vault_file D)"
  by (auto simp: read_vault_file_def intro!: keeps_rules)

lemma typed_catch_keystore [keeps_rules]: "keeps I m \<Longrightarrow> keeps I (catching m (\<lambda>_. throw e))"
  by (intro keeps_rules)

lemmas vault_keeps = keeps_ret keeps_throw keeps_asks keeps_if keeps_option keeps_catching keeps_when keeps_lift_sum
  keeps_fixed_or typed_awaits typed_draw typed_date_now typed_asserts typed_read_file typed_set_unlocked keeps_then

lemma typed_build [keeps_rules]: "keeps (vault_typed S) (build_vault D p words pw opts)"
  unfolding build_vault_def Let_def
  by (intro vault_keeps) (simp_all add: vek_bytes_def encode_secret_payload_Inr)

lemma typed_creation [keeps_rules]:
  "keeps (vault_typed S) (create_with_new_mnemonic D n pw opts)"
  "keeps (vault_typed S) (import_mnemonic D ws pw phrase opts)"
  unfolding create_with_new_mnemonic_def import_mnemonic_def assert_can_initialize_def Let_def
  by (intro vault_keeps typed_build)+

lemma typed_unlock [keeps_rules]:
  "keeps (vault_typed S) (unlock D pw)" "keeps (vault_typed S) (unlock_with_biometrics D)"
  unfolding unlock_def unlock_with_biometrics_def
  by (intro vault_keeps; simp add: payload_key_length payload_seed_length vek_bytes_def)+

lemma typed_lock [keeps_rules]: "keeps (vault_typed S) lock"
  by (simp add: keeps_def lock_def modify_def lock_now_typed)

lemma typed_touch [keeps_rules]: "keeps (vault_typed S) (touch D)"
  by (auto simp: keeps_def touch_def start_auto_lock_timer_def prog_defs date_now_def
      clear_auto_lock_timer_def vault_typed_def split: prod.splits option.splits)

lemma typed_password_flows [keeps_rules]:
  "keeps (vault_typed S) (reveal_mnemonic D pw)" "keeps (vault_typed S) (change_password D old new)"
  unfolding reveal_mnemonic_def change_password_def Let_def by (intro vault_keeps)+

lemma typed_biometrics [keeps_rules]:
  "keeps (vault_typed S) (enable_biometrics D)" "keeps (vault_typed S) (disable_biometrics D)"
  unfolding enable_biometrics_def disable_biometrics_def rewrite_slots_def Let_def by (intro vault_keeps)+

lemma typed_seed [keeps_rules]:
  "keeps (vault_typed S) (with_unlocked_seed D f)" "keeps (vault_typed S) (unwrap_database_key D)"
  unfolding with_unlocked_seed_def unwrap_database_key_def by (intro vault_keeps)+

lemma typed_database_key [keeps_rules]: "keeps (vault_typed (vd_suite D)) (get_database_key D)"
  by (auto simp: keeps_def get_database_key_def assert_unlocked_def require_seed_def prog_defs lift_sum_def
      vault_typed_def derive_local_database_key_def split: prod.splits option.splits sum.splits)

lemma typed_shuffle [keeps_rules]: "keeps (vault_typed S) (shuffle_pool D is pool)"
  by (induction "is" arbitrary: pool) (auto intro!: keeps_rules)

lemma typed_quiz [keeps_rules]:
  "keeps (vault_typed S) (generate_mnemonic_quiz D n)" "keeps (vault_typed S) (verify_mnemonic_quiz D ps ws)"
  unfolding generate_mnemonic_quiz_def verify_mnemonic_quiz_def mnemonic_words_while_unlocked_def Let_def
  by (intro vault_keeps typed_shuffle)+

text \<open>The wipe leaves the state as it is until the end; the secrets are gone from its first step on.\<close>

definition bare :: "'w vault \<Rightarrow> bool" where
  "bare v \<longleftrightarrow> va_vek v = None \<and> va_seed v = None \<and> va_db_key v = None \<and> va_deadline v = None"

lemma bare_typed: "bare v \<Longrightarrow> vault_typed S v"
  by (simp add: bare_def vault_typed_def)

lemma bare_awaits: "keeps bare (awaits D m)"
  by (auto simp: keeps_def awaits_def bare_def lock_now_def clear_live_state_def clear_auto_lock_timer_def Let_def
      split: prod.splits)

lemma andthen_modify: "andthen (modify f) g v = g () (f v)"
  by (simp add: andthen_def modify_def)

lemma wipe_bare: "bare (snd (wipe D v))"
proof -
  let ?rest = "andthen (awaits D (vd_delete D vault_file_name)) (\<lambda>_.
     andthen (awaits D (vd_delete D database_key_name)) (\<lambda>_.
     andthen (catching (awaits D (vd_delete_key D)) (\<lambda>_. throw (VaultError KeystoreError))) (\<lambda>_.
     modify (\<lambda>v. v\<lparr>va_state := Uninitialized\<rparr>))))"
  have "keeps bare (modify (\<lambda>v :: 'a vault. v\<lparr>va_state := Uninitialized\<rparr>))"
    by (simp add: keeps_def modify_def bare_def)
  then have "keeps bare ?rest" by (intro keeps_rules bare_awaits)
  moreover have "bare (clear_live_state (clear_auto_lock_timer v))"
    by (simp add: bare_def clear_live_state_def clear_auto_lock_timer_def)
  ultimately have "bare (snd (?rest (clear_live_state (clear_auto_lock_timer v))))" by (rule keepsD)
  then show ?thesis by (simp add: wipe_def andthen_modify)
qed

lemma typed_wipe [keeps_rules]: "keeps (vault_typed S) (wipe D)"
  by (simp add: keeps_def bare_typed wipe_bare)

lemma typed_metadata [keeps_rules]: "keeps (vault_typed S) (get_metadata D)"
  unfolding get_metadata_def by (intro vault_keeps)

section \<open>The vault as a state machine\<close>

datatype 'w vault_call =
    CreateCall int code_points create_options
  | ImportCall "code_points list" code_points "code_points option" create_options
  | UnlockCall code_points
  | BiometricUnlockCall
  | LockCall
  | TouchCall
  | RevealCall code_points
  | ChangePasswordCall code_points code_points
  | EnableBiometricsCall
  | DisableBiometricsCall
  | SeedCall "bytes option \<Rightarrow> ('w, string, unit) prog"
  | DatabaseKeyCall
  | UnwrapDatabaseKeyCall
  | QuizCall int
  | VerifyQuizCall "int list" "code_points list"
  | WipeCall
  | MetadataCall

fun run_call :: "'w vault_deps \<Rightarrow> 'w vault_call \<Rightarrow> 'w vault \<Rightarrow> 'w vault" where
  "run_call D (CreateCall n pw opts) v = snd (create_with_new_mnemonic D n pw opts v)"
| "run_call D (ImportCall ws pw phrase opts) v = snd (import_mnemonic D ws pw phrase opts v)"
| "run_call D (UnlockCall pw) v = snd (unlock D pw v)"
| "run_call D BiometricUnlockCall v = snd (unlock_with_biometrics D v)"
| "run_call D LockCall v = snd (lock v)"
| "run_call D TouchCall v = snd (touch D v)"
| "run_call D (RevealCall pw) v = snd (reveal_mnemonic D pw v)"
| "run_call D (ChangePasswordCall old new) v = snd (change_password D old new v)"
| "run_call D EnableBiometricsCall v = snd (enable_biometrics D v)"
| "run_call D DisableBiometricsCall v = snd (disable_biometrics D v)"
| "run_call D (SeedCall f) v = snd (with_unlocked_seed D f v)"
| "run_call D DatabaseKeyCall v = snd (get_database_key D v)"
| "run_call D UnwrapDatabaseKeyCall v = snd (unwrap_database_key D v)"
| "run_call D (QuizCall n) v = snd (generate_mnemonic_quiz D n v)"
| "run_call D (VerifyQuizCall ps ws) v = snd (verify_mnemonic_quiz D ps ws v)"
| "run_call D WipeCall v = snd (wipe D v)"
| "run_call D MetadataCall v = snd (get_metadata D v)"

text \<open>Between two calls the environment changes as it likes, and the timer locks the vault.\<close>

inductive reachable_vault :: "'w vault_deps \<Rightarrow> 'w vault \<Rightarrow> bool" for D where
  opened: "open_vault D w = (Inr v, w') \<Longrightarrow> reachable_vault D v"
| called: "reachable_vault D v \<Longrightarrow> reachable_vault D (run_call D c v)"
| timed: "reachable_vault D v \<Longrightarrow> va_deadline v \<noteq> None \<Longrightarrow> reachable_vault D (lock_now v)"
| elsewhere: "reachable_vault D v \<Longrightarrow> reachable_vault D (v\<lparr>va_env := w\<rparr>)"

lemma run_call_typed: "vault_typed (vd_suite D) v \<Longrightarrow> vault_typed (vd_suite D) (run_call D c v)"
  by (cases c) (simp_all add: keepsD [OF typed_creation(1)] keepsD [OF typed_creation(2)] keepsD [OF typed_unlock(1)]
      keepsD [OF typed_unlock(2)] keepsD [OF typed_lock] keepsD [OF typed_touch] keepsD [OF typed_password_flows(1)]
      keepsD [OF typed_password_flows(2)] keepsD [OF typed_biometrics(1)] keepsD [OF typed_biometrics(2)]
      keepsD [OF typed_seed(1)] keepsD [OF typed_seed(2)] keepsD [OF typed_database_key] keepsD [OF typed_quiz(1)]
      keepsD [OF typed_quiz(2)] keepsD [OF typed_wipe] keepsD [OF typed_metadata])

lemma reachable_typed: "reachable_vault D v \<Longrightarrow> vault_typed (vd_suite D) v"
proof (induction rule: reachable_vault.induct)
  case (opened w v w')
  then show ?case
    by (auto simp: open_vault_def prog_defs vault_typed_def split: prod.splits sum.splits)
qed (simp_all add: run_call_typed lock_now_typed)

end
