(* ===== verification/Cemp_VaultUse.thy ===== *)
theory Cemp_VaultUse
  imports Cemp_Vault "HOL-Library.Multiset"
begin

text \<open>
  What the vault promises over a platform that keeps its contracts: storage.ts, keystore.ts and the
  key derivation of kdf.ts as locales, the secret that a storage stores under a password as the
  abstract state, and each operation of the vault as an operation on it.
\<close>

section \<open>Interfaces\<close>

text \<open>A store of named byte objects. A call that throws has changed nothing.\<close>

locale vault_storage =
  fixes rd :: "string \<Rightarrow> ('w, string, bytes option) prog"
    and wr :: "string \<Rightarrow> bytes \<Rightarrow> ('w, string, unit) prog"
    and del :: "string \<Rightarrow> ('w, string, unit) prog"
    and objects :: "'w \<Rightarrow> string \<Rightarrow> bytes option"
  assumes read_law: "rd n w = (found, w') \<Longrightarrow> objects w' = objects w \<and> (\<forall>x. found = Inr x \<longrightarrow> x = objects w n)"
    and write_law: "wr n b w = (r, w') \<Longrightarrow>
      objects w' = (case r of Inl _ \<Rightarrow> objects w | Inr _ \<Rightarrow> (objects w)(n \<mapsto> b))"
    and delete_law: "del n w = (r, w') \<Longrightarrow>
      objects w' = (case r of Inl _ \<Rightarrow> objects w | Inr _ \<Rightarrow> (objects w)(n := None))"

text \<open>A key store: the blobs it can unwrap, and to what. The vault writes the blob of a 32-byte key into
  its file, whose parser bounds the size. What a key store does with encryption is that of the suite.\<close>

locale key_store =
  fixes S :: crypto_suite
    and wrap :: "bytes \<Rightarrow> bool \<Rightarrow> ('w, string, bytes) prog"
    and unwrap :: "bytes \<Rightarrow> ('w, string, bytes) prog"
    and unwrapped :: "'w \<Rightarrow> bytes \<Rightarrow> bytes option"
  assumes wrap_law: "aead_ok S \<Longrightarrow> wrap k b w = (r, w') \<Longrightarrow>
      unwrapped w' = (case r of Inl _ \<Rightarrow> unwrapped w | Inr blob \<Rightarrow> (unwrapped w)(blob \<mapsto> k))"
    and blob_size: "aead_ok S \<Longrightarrow> length k = 32 \<Longrightarrow> wrap k b w = (Inr blob, w') \<Longrightarrow> 16 \<le> length blob \<and> length blob \<le> 512"
    and unwrap_law: "unwrap blob w = (r, w') \<Longrightarrow>
      unwrapped w' = unwrapped w \<and> (\<forall>k. r = Inr k \<longrightarrow> unwrapped w blob = Some k)"

text \<open>The platform as a whole: the key derivation is the one of the library, the clock shows
  times after 1970, and nothing but the calls above changes what is stored.\<close>

definition leaves :: "('w \<Rightarrow> 'x) \<Rightarrow> ('w, 'e, 'a) prog \<Rightarrow> bool" where
  "leaves f m \<longleftrightarrow> (\<forall>w. f (snd (m w)) = f w)"

locale vault_platform =
  vault_storage "vd_read D" "vd_write D" "vd_delete D" objects
  + key_store "vd_suite D" "vd_wrap D" "vd_unwrap D" unwrapped
  for D :: "'w vault_deps" and objects :: "'w \<Rightarrow> string \<Rightarrow> bytes option" and unwrapped :: "'w \<Rightarrow> bytes \<Rightarrow> bytes option" +
  fixes L :: kdf_library
  assumes kek: "vd_derive_kek D pw k w = (r, w') \<Longrightarrow> objects w' = objects w \<and> unwrapped w' = unwrapped w
      \<and> (\<forall>x. r = Inr x \<longrightarrow> x = derive_kek L pw k)"
    and keystore_leaves: "leaves objects (vd_wrap D key b)" "leaves objects (vd_unwrap D blob)"
      "leaves objects (vd_biometric_available D)" "leaves objects (vd_delete_key D)"
    and storage_leaves: "leaves unwrapped (vd_read D n)" "leaves unwrapped (vd_write D n c)"
      "leaves unwrapped (vd_delete D n)" "leaves unwrapped (vd_biometric_available D)"
    and random: "objects (snd (vd_random D m w)) = objects w \<and> unwrapped (snd (vd_random D m w)) = unwrapped w
      \<and> length (fst (vd_random D m w)) = m"
    and clock: "objects (snd (vd_clock D w)) = objects w \<and> unwrapped (snd (vd_clock D w)) = unwrapped w
      \<and> 0 \<le> fst (vd_clock D w) \<and> fst (vd_clock D w) \<le> max_safe_integer"
    and waiting: "objects (snd (vd_interrupted D w)) = objects w \<and> unwrapped (snd (vd_interrupted D w)) = unwrapped w"

section \<open>The abstract state\<close>

text \<open>What a file gives to a password: the key of the vault and the secret, or the error.\<close>

definition open_file :: "'w vault_deps \<Rightarrow> kdf_library \<Rightarrow> vault_file \<Rightarrow> code_points \<Rightarrow> vault_error + bytes \<times> secret_payload" where
  "open_file D L file password =
     sum_bind (unwrap_password_slot D file (derive_kek L password (vh_kdf file))) (\<lambda>vek.
     sum_bind (decrypt_payload D file (Some vek) WrongPassword) (\<lambda>payload. Inr (vek, payload)))"

definition stored_file :: "(string \<Rightarrow> bytes option) \<Rightarrow> vault_error + vault_file" where
  "stored_file objs = (case objs vault_file_name of
       None \<Rightarrow> Inl (VaultError NotInitialized)
     | Some bs \<Rightarrow> parse_vault_file bs)"

definition stored_secret ::
  "'w vault_deps \<Rightarrow> kdf_library \<Rightarrow> (string \<Rightarrow> bytes option) \<Rightarrow> code_points \<Rightarrow> vault_error + bytes \<times> secret_payload" where
  "stored_secret D L objs password = sum_bind (stored_file objs) (\<lambda>f. open_file D L f password)"

definition platform_failed :: "vault_error \<Rightarrow> bool" where
  "platform_failed e \<longleftrightarrow> (\<exists>m. e = PlatformThrown m)"

lemma platform_failed_simps [simp]: "platform_failed (PlatformThrown m)" "\<not> platform_failed (VaultError c)"
    "\<not> platform_failed (CryptoThrown x)"
  by (simp_all add: platform_failed_def)

text \<open>An awaited call: what the call ensures of the environment stores afterwards.\<close>

lemma wp_awaits:
  assumes "\<And>r w. m (va_env v) = (r, w) \<Longrightarrow> (case r of Inl e \<Rightarrow> F e w | Inr x \<Rightarrow> P x w)"
    and "\<And>x w v'. P x w \<Longrightarrow> va_env v' = snd (vd_interrupted D w) \<Longrightarrow> Q x v'"
    and "\<And>e w v'. F e w \<Longrightarrow> va_env v' = snd (vd_interrupted D w) \<Longrightarrow> E (PlatformThrown e) v'"
  shows "wp (awaits D m) Q E v"
proof -
  obtain r w where m: "m (va_env v) = (r, w)" by fastforce
  have env: "va_env ((if b then lock_now else id) (v\<lparr>va_env := w'\<rparr>)) = w'" for b w'
    by (simp add: lock_now_def clear_live_state_def clear_auto_lock_timer_def Let_def)
  show ?thesis
    using assms(1) [OF m] assms(2) assms(3) env
    by (cases r) (auto simp: wp_def awaits_def m map_error_def split: prod.splits)
qed

section \<open>What was sealed opens\<close>

lemma gcm_round_trip:
  assumes "aead_ok S" "aes256_gcm_encrypt S k n p a = Inr c"
  shows "aes256_gcm_decrypt S k n c a = Inr p"
proof -
  have c: "length k = 32" "length n = 12" "c = cy_gcm_encrypt S k n a p"
    using assms(2) by (auto simp: aes256_gcm_encrypt_def)
  then show ?thesis
    using assms(1) by (simp add: aes256_gcm_decrypt_def aead_ok_def sum_bind_def check_key_and_nonce_def or_error_def)
qed

lemma gcm_length: "aead_ok S \<Longrightarrow> aes256_gcm_encrypt S k n p a = Inr c \<Longrightarrow> length c = length p + 16 \<and> length n = 12"
  by (auto simp: aes256_gcm_encrypt_def aead_ok_def)

lemma sealed_file_opens:
  assumes aead: "aead_ok (vd_suite D)"
    and slot: "aes256_gcm_encrypt (vd_suite D) (derive_kek L pw (vh_kdf f)) (ws_nonce (vh_password f)) vek
      password_wrap_aad = Inr (ws_wrapped (vh_password f))"
    and payload: "aes256_gcm_encrypt (vd_suite D) vek (vf_nonce f) plain (payload_aad f) = Inr (vf_ct f)"
    and plain: "encode_secret_payload p = Inr plain"
  shows "open_file D L f pw = Inr (vek, p)"
  using gcm_round_trip [OF aead slot] gcm_round_trip [OF aead payload] decode_encoded_payload [OF plain]
  by (simp add: open_file_def unwrap_password_slot_def decrypt_payload_def decrypt_payload_bytes_def map_error_def)

lemma payload_aad_cong:
  "vh_kdf g = vh_kdf h \<Longrightarrow> vh_password g = vh_password h \<Longrightarrow> vh_biometric g = vh_biometric h
    \<Longrightarrow> payload_aad g = payload_aad h"
  by (simp add: payload_aad_def header_to_wire_def)

text \<open>Decryption accepts the encryption of what it returns and nothing else, as in GCM.\<close>

definition aead_exact :: "crypto_suite \<Rightarrow> bool" where
  "aead_exact S \<longleftrightarrow> aead_ok S \<and> (\<forall>k n a c p. cy_gcm_decrypt S k n a c = Some p \<longrightarrow> c = cy_gcm_encrypt S k n a p)"

lemma decrypted_length:
  assumes "aead_exact (vd_suite D)" "decrypt_payload_bytes D f (Some vek) code = Inr plain"
  shows "length (vf_ct f) = length plain + 16"
proof -
  have "cy_gcm_decrypt (vd_suite D) vek (vf_nonce f) (payload_aad f) (vf_ct f) = Some plain"
    using assms(2) by (auto simp: decrypt_payload_bytes_def aes256_gcm_decrypt_def split: if_splits)
  then have "vf_ct f = cy_gcm_encrypt (vd_suite D) vek (vf_nonce f) (payload_aad f) plain"
    using assms(1) unfolding aead_exact_def by blast
  then show ?thesis using assms(1) by (simp add: aead_exact_def aead_ok_def)
qed

lemma resealed_payload:
  assumes aead: "aead_exact (vd_suite D)" and plain: "decrypt_payload_bytes D f (Some vek) code = Inr plain"
    and new: "aes256_gcm_encrypt (vd_suite D) vek (vf_nonce g) plain (payload_aad g) = Inr (vf_ct g)"
  shows "decrypt_payload D g (Some vek) c = decrypt_payload D f (Some vek) c"
    and "length (vf_ct g) = length (vf_ct f)" and "length (vf_nonce g) = 12"
proof -
  have ok: "aead_ok (vd_suite D)" using aead by (simp add: aead_exact_def)
  have "decrypt_payload_bytes D g (Some vek) c = Inr plain"
    using gcm_round_trip [OF ok new] by (simp add: decrypt_payload_bytes_def map_error_def)
  moreover have "decrypt_payload_bytes D f (Some vek) c = Inr plain"
    using plain by (simp add: decrypt_payload_bytes_def)
  ultimately show "decrypt_payload D g (Some vek) c = decrypt_payload D f (Some vek) c"
    by (simp add: decrypt_payload_def)
  show "length (vf_ct g) = length (vf_ct f)" "length (vf_nonce g) = 12"
    using gcm_length [OF ok new] decrypted_length [OF aead plain] by auto
qed

lemma with_salt_valid: "validate_kdf_params k = Inr () \<Longrightarrow> length salt = 16 \<Longrightarrow> validate_kdf_params (with_salt salt k) = Inr ()"
  by (cases k) (simp_all add: validated_kdf)

lemma stored_file_ok: "stored_file objs = Inr f \<Longrightarrow> vault_file_ok f"
  by (auto simp: stored_file_def dest: parsed_file_ok split: option.splits)

lemma stored_serialized: "vault_file_ok f \<Longrightarrow> stored_file (objs(vault_file_name \<mapsto> serialize_vault_file f)) = Inr f"
  by (simp add: stored_file_def parse_serialized)

text \<open>The creation options that give a file the parser accepts.\<close>

definition good_options :: "create_options \<Rightarrow> bool" where
  "good_options opts \<longleftrightarrow> (let a = or_default default_auto_lock_seconds (co_auto_lock opts) in 1 \<le> a \<and> a \<le> 2147483) \<and>
     (case fi_created_at (fixed_of opts) of None \<Rightarrow> True | Some t \<Rightarrow> 0 \<le> t \<and> t \<le> max_safe_integer)"

lemma built_file_ok:
  assumes aead: "aead_ok S" and kdf: "validate_kdf_params kdf = Inr ()" and vek: "length vek = 32"
    and slot: "aes256_gcm_encrypt S kek sn vek password_wrap_aad = Inr wrapped"
    and payload: "aes256_gcm_encrypt S vek pn plain aad = Inr ct"
    and plain: "encode_secret_payload p = Inr plain"
    and words: "words = 12 \<and> length (sp_entropy p) = 16 \<or> words = 24 \<and> length (sp_entropy p) = 32"
    and created: "0 \<le> created" "created \<le> max_safe_integer" and auto_lock: "1 \<le> secs" "secs \<le> 2147483"
  shows "vault_file_ok \<lparr>vh_kdf = kdf, vh_password = \<lparr>ws_nonce = sn, ws_wrapped = wrapped\<rparr>, vh_biometric = None,
     vf_nonce = pn, vf_ct = ct, vf_meta = \<lparr>vm_created_at = created, vm_word_count = words,
       vm_has_passphrase = pass, vm_auto_lock = secs\<rparr>\<rparr>"
  using gcm_length [OF aead slot] gcm_length [OF aead payload] secret_payload_length [OF plain] assms
  by (auto simp: vault_file_ok_def wrap_slot_ok_def biometric_slot_ok_def meta_ok_def secret_payload_bytes_def
      seed_bytes_def)

lemma wp_assert:
  assumes "va_state v = Unlocked \<Longrightarrow> Q () v" "\<And>e. E e v"
  shows "wp assert_unlocked Q E v"
  using assms by (auto simp: assert_unlocked_def wp_rules intro: vault_state.exhaust)

context vault_platform
begin

text \<open>The invariant of the flows: what is stored stays as it was.\<close>

definition stores :: "(string \<Rightarrow> bytes option) \<Rightarrow> (bytes \<Rightarrow> bytes option) \<Rightarrow> 'w vault \<Rightarrow> bool" where
  "stores objs keys v \<longleftrightarrow> objects (va_env v) = objs \<and> unwrapped (va_env v) = keys"

lemma wp_read_object:
  assumes "stores objs keys v"
  shows "wp (awaits D (vd_read D n)) (\<lambda>x v'. x = objs n \<and> stores objs keys v')
    (\<lambda>e v'. platform_failed e \<and> stores objs keys v') v"
proof (rule wp_awaits [where P = "\<lambda>x w. x = objs n \<and> objects w = objs \<and> unwrapped w = keys"
      and F = "\<lambda>_ w. objects w = objs \<and> unwrapped w = keys"])
  fix r w assume "vd_read D n (va_env v) = (r, w)"
  with read_law [OF this] storage_leaves(1) [of n] assms
  show "case r of Inl e \<Rightarrow> objects w = objs \<and> unwrapped w = keys
      | Inr x \<Rightarrow> x = objs n \<and> objects w = objs \<and> unwrapped w = keys"
    by (auto simp: leaves_def stores_def split: sum.splits) (metis snd_conv)+
qed (use waiting in \<open>auto simp: stores_def\<close>)

lemma wp_read_file:
  assumes "stores objs keys v"
  shows "wp (read_vault_file D) (\<lambda>f v'. stored_file objs = Inr f \<and> stores objs keys v')
    (\<lambda>e v'. (platform_failed e \<or> stored_file objs = Inl e) \<and> stores objs keys v') v"
  unfolding read_vault_file_def wp_andthen
  by (rule wp_mono [OF wp_read_object [OF assms]])
    (auto simp: stored_file_def wp_rules split: option.splits sum.splits)

lemma wp_kek:
  assumes "stores objs keys v"
  shows "wp (awaits D (vd_derive_kek D pw k)) (\<lambda>b v'. b = derive_kek L pw k \<and> stores objs keys v')
    (\<lambda>e v'. platform_failed e \<and> stores objs keys v') v"
  by (rule wp_awaits [where P = "\<lambda>x w. x = derive_kek L pw k \<and> objects w = objs \<and> unwrapped w = keys"
        and F = "\<lambda>_ w. objects w = objs \<and> unwrapped w = keys"])
    (use assms waiting in \<open>auto simp: stores_def dest!: kek split: sum.splits\<close>)

lemma wp_draw: "stores objs keys v \<Longrightarrow> wp (draw D n) (\<lambda>x v'. length x = n \<and> stores objs keys v') E v"
  using random by (auto simp: wp_def draw_def stores_def split: prod.splits) (metis fst_conv snd_conv)+

lemma wp_date: "stores objs keys v \<Longrightarrow>
    wp (date_now D) (\<lambda>t v'. stores objs keys v' \<and> 0 \<le> t \<and> t \<le> max_safe_integer) E v"
  using clock by (auto simp: wp_def date_now_def stores_def split: prod.splits) (metis fst_conv snd_conv)+

lemma wp_fixed: "wp m Q E v \<Longrightarrow> (\<And>y. x = Some y \<Longrightarrow> Q y v) \<Longrightarrow> wp (fixed_or x m) Q E v"
  by (auto simp: fixed_or_def wp_ret split: option.splits)

lemma wp_set_unlocked:
  assumes "stores objs keys v"
  shows "wp (set_unlocked D vek seed secs) (\<lambda>_ v'. va_state v' = Unlocked \<and> va_vek v' = Some vek
      \<and> va_seed v' = Some seed \<and> va_db_key v' = None \<and> stores objs keys v') E v"
  using assms clock
  by (auto simp: wp_def set_unlocked_def start_auto_lock_timer_def prog_defs date_now_def clear_live_state_def
      clear_auto_lock_timer_def stores_def split: prod.splits) (metis snd_conv)+

lemma wp_write:
  assumes "stores objs keys v"
  shows "wp (awaits D (vd_write D n b)) (\<lambda>_. stores (objs(n \<mapsto> b)) keys)
    (\<lambda>e v'. platform_failed e \<and> stores objs keys v') v"
proof (rule wp_awaits [where P = "\<lambda>_ w. objects w = objs(n \<mapsto> b) \<and> unwrapped w = keys"
      and F = "\<lambda>_ w. objects w = objs \<and> unwrapped w = keys"])
  fix r w assume "vd_write D n b (va_env v) = (r, w)"
  with write_law [OF this] storage_leaves(2) [of n b] assms
  show "case r of Inl e \<Rightarrow> objects w = objs \<and> unwrapped w = keys
      | Inr x \<Rightarrow> objects w = objs(n \<mapsto> b) \<and> unwrapped w = keys"
    by (auto simp: leaves_def stores_def split: sum.splits) (metis snd_conv)+
qed (use waiting in \<open>auto simp: stores_def\<close>)

lemma wp_wrap:
  assumes "aead_ok (vd_suite D)" "stores objs keys v"
  shows "wp (awaits D (vd_wrap D k bio)) (\<lambda>blob v'. stores objs (keys(blob \<mapsto> k)) v'
      \<and> (length k = 32 \<longrightarrow> 16 \<le> length blob \<and> length blob \<le> 512))
    (\<lambda>e v'. platform_failed e \<and> stores objs keys v') v"
proof (rule wp_awaits [where P = "\<lambda>blob w. objects w = objs \<and> unwrapped w = keys(blob \<mapsto> k)
        \<and> (length k = 32 \<longrightarrow> 16 \<le> length blob \<and> length blob \<le> 512)"
      and F = "\<lambda>_ w. objects w = objs \<and> unwrapped w = keys"])
  fix r w assume m: "vd_wrap D k bio (va_env v) = (r, w)"
  have "objects w = objs" using keystore_leaves(1) [of k bio] assms m
    by (simp add: leaves_def stores_def) (metis snd_conv)
  then show "case r of Inl e \<Rightarrow> objects w = objs \<and> unwrapped w = keys
      | Inr blob \<Rightarrow> objects w = objs \<and> unwrapped w = keys(blob \<mapsto> k)
          \<and> (length k = 32 \<longrightarrow> 16 \<le> length blob \<and> length blob \<le> 512)"
    using wrap_law [OF assms(1) m] blob_size [OF assms(1), of k bio "va_env v" _ w] m assms
    by (auto simp: stores_def split: sum.splits)
qed (use waiting in \<open>auto simp: stores_def\<close>)

text \<open>The part that unlocking and revealing share.\<close>

lemma wp_open:
  assumes "stores objs keys v"
    and ok: "\<And>f vek p u. stored_file objs = Inr f \<Longrightarrow> open_file D L f pw = Inr (vek, p) \<Longrightarrow> stores objs keys u \<Longrightarrow>
      wp (rest f vek p) Q E u"
    and bad: "\<And>e u. platform_failed e \<or> stored_secret D L objs pw = Inl e \<Longrightarrow> stores objs keys u \<Longrightarrow> E e u"
  shows "wp (andthen (read_vault_file D) (\<lambda>file.
     andthen (awaits D (vd_derive_kek D pw (vh_kdf file))) (\<lambda>kek.
     andthen (lift_sum id (unwrap_password_slot D file kek)) (\<lambda>vek.
     andthen (lift_sum id (decrypt_payload D file (Some vek) WrongPassword)) (\<lambda>payload.
     rest file vek payload))))) Q E v"
  unfolding wp_andthen
proof (rule wp_mono [OF wp_read_file [OF assms(1)]])
  fix f u assume "stored_file objs = Inr f \<and> stores objs keys u"
  then have f: "stored_file objs = Inr f" and u: "stores objs keys u" by auto
  show "wp (awaits D (vd_derive_kek D pw (vh_kdf f))) (\<lambda>kek s'. wp (lift_sum id (unwrap_password_slot D f kek))
      (\<lambda>vek s'. wp (lift_sum id (decrypt_payload D f (Some vek) WrongPassword)) (\<lambda>p s'. wp (rest f vek p) Q E s') E s')
      E s') E u"
  proof (rule wp_mono [OF wp_kek [OF u]])
    fix k t assume t: "k = derive_kek L pw (vh_kdf f) \<and> stores objs keys t"
    show "wp (lift_sum id (unwrap_password_slot D f k))
      (\<lambda>vek s'. wp (lift_sum id (decrypt_payload D f (Some vek) WrongPassword)) (\<lambda>p s'. wp (rest f vek p) Q E s') E s') E t"
      using t f ok [OF f] bad
      by (auto simp: wp_lift_sum open_file_def stored_secret_def sum_bind_def split: sum.splits)
  qed (use bad in auto)
qed (use bad in \<open>auto simp: stored_secret_def sum_bind_def split: sum.splits\<close>)

lemma wp_unlock:
  assumes "stores objs keys v"
  shows "wp (unlock D pw) (\<lambda>_ v'. \<exists>vek p. stored_secret D L objs pw = Inr (vek, p) \<and> va_state v' = Unlocked
      \<and> va_vek v' = Some vek \<and> va_seed v' = Some (sp_seed p) \<and> va_db_key v' = None \<and> stores objs keys v')
    (\<lambda>e v'. (platform_failed e \<or> stored_secret D L objs pw = Inl e) \<and> stores objs keys v') v"
  unfolding unlock_def
  by (rule wp_open [OF assms]; (rule wp_mono [OF wp_set_unlocked], assumption)?)
    (auto simp: stored_secret_def)

lemma wp_reveal:
  assumes "stores objs keys v"
  shows "wp (reveal_mnemonic D pw) (\<lambda>ws v'. \<exists>vek p. stored_secret D L objs pw = Inr (vek, p)
      \<and> ws = split_spaces (bl_from_entropy (vd_bip39 D) (sp_entropy p)) \<and> stores objs keys v')
    (\<lambda>e v'. (platform_failed e \<or> stored_secret D L objs pw = Inl e) \<and> stores objs keys v') v"
  unfolding reveal_mnemonic_def
  by (rule wp_open [OF assms]) (auto simp: stored_secret_def wp_ret)

text \<open>What a stored secret is, after creation.\<close>

definition sealed :: "(string \<Rightarrow> bytes option) \<Rightarrow> (bytes \<Rightarrow> bytes option) \<Rightarrow> code_points \<Rightarrow> secret_payload \<Rightarrow> 'w vault \<Rightarrow> bool" where
  "sealed objs keys pw p v \<longleftrightarrow> stores objs keys v \<and> va_state v = Unlocked \<and> va_seed v = Some (sp_seed p)
     \<and> (\<exists>vek. stored_secret D L objs pw = Inr (vek, p) \<and> va_vek v = Some vek)
     \<and> (\<exists>blob k. objs database_key_name = Some blob \<and> keys blob = Some k
          \<and> derive_local_database_key (vd_suite D) (sp_seed p) = Inr k)"

text \<open>Steps of an operation: what is stored stores through them, and is what an error leaves behind.\<close>

lemma step_lift:
  assumes "stores objs keys v" "\<And>x. r = Inr x \<Longrightarrow> wp (f x) Q E v" "\<And>e u. stores objs keys u \<Longrightarrow> E e u"
  shows "wp (andthen (lift_sum h r) f) Q E v"
  using assms by (simp add: wp_andthen wp_lift_sum split: sum.splits)

lemma step_if:
  assumes "stores objs keys v" "\<not> b \<Longrightarrow> wp m Q E v" "\<And>e u. stores objs keys u \<Longrightarrow> E e u"
  shows "wp (if b then throw e else m) Q E v"
  using assms by (simp add: wp_throw)

lemma step_draw:
  assumes "stores objs keys v" "\<And>x u. stores objs keys u \<Longrightarrow> length x = n \<Longrightarrow> wp (f x) Q E u"
  shows "wp (andthen (draw D n) f) Q E v"
  unfolding wp_andthen by (rule wp_mono [OF wp_draw [OF assms(1)]]) (use assms(2) in auto)

lemma step_fixed:
  assumes "stores objs keys v" "\<And>x u. stores objs keys u \<Longrightarrow> wp (f x) Q E u"
  shows "wp (andthen (fixed_or y (draw D n)) f) Q E v"
  using step_draw [OF assms(1), of n f Q] assms by (cases y) (simp_all add: fixed_or_def)

lemma step_read:
  assumes "stores objs keys v" "\<And>u. stores objs keys u \<Longrightarrow> wp (f (objs n)) Q E u" "\<And>e u. stores objs keys u \<Longrightarrow> E e u"
  shows "wp (andthen (awaits D (vd_read D n)) f) Q E v"
  unfolding wp_andthen by (rule wp_mono [OF wp_read_object [OF assms(1)]]) (use assms(2,3) in auto)

lemma step_file:
  assumes "stores objs keys v" "\<And>x u. stores objs keys u \<Longrightarrow> stored_file objs = Inr x \<Longrightarrow> wp (f x) Q E u"
    and "\<And>e u. stores objs keys u \<Longrightarrow> E e u"
  shows "wp (andthen (read_vault_file D) f) Q E v"
  unfolding wp_andthen by (rule wp_mono [OF wp_read_file [OF assms(1)]]) (use assms(2,3) in auto)

lemma step_kek:
  assumes "stores objs keys v" "\<And>u. stores objs keys u \<Longrightarrow> wp (f (derive_kek L pw k)) Q E u"
    and "\<And>e u. stores objs keys u \<Longrightarrow> E e u"
  shows "wp (andthen (awaits D (vd_derive_kek D pw k)) f) Q E v"
  unfolding wp_andthen by (rule wp_mono [OF wp_kek [OF assms(1)]]) (use assms(2,3) in auto)

lemma step_created:
  assumes "stores objs keys v" "\<And>t u. stores objs keys u \<Longrightarrow> 0 \<le> t \<Longrightarrow> t \<le> max_safe_integer \<Longrightarrow> wp (f t) Q E u"
    and "case y of None \<Rightarrow> True | Some t \<Rightarrow> 0 \<le> t \<and> t \<le> max_safe_integer"
  shows "wp (andthen (fixed_or y (date_now D)) f) Q E v"
proof (cases y)
  case None
  have "wp (andthen (date_now D) f) Q E v"
    unfolding wp_andthen by (rule wp_mono [OF wp_date [OF assms(1)]]) (use assms(2) in auto)
  with None show ?thesis by (simp add: fixed_or_def)
qed (use assms in \<open>simp add: fixed_or_def\<close>)

lemma step_wrap:
  assumes aead: "aead_ok (vd_suite D)" and "stores objs keys v" "\<And>blob u. stores objs (keys(blob \<mapsto> k)) u \<Longrightarrow> wp (f blob) Q E u"
    and "\<And>e u. stores objs keys u \<Longrightarrow> E e u"
  shows "wp (andthen (catching (awaits D (vd_wrap D k bio)) (\<lambda>_. throw e)) f) Q E v"
  unfolding wp_andthen wp_catching
  by (rule wp_mono [OF wp_wrap [OF assms(1,2)]]) (use assms(3,4) in \<open>auto simp: wp_throw\<close>)

lemma step_write:
  assumes "stores objs keys v" "\<And>u. stores (objs(n \<mapsto> b)) keys u \<Longrightarrow> wp (f ()) Q E u"
    and "\<And>e u. stores objs keys u \<Longrightarrow> E e u"
  shows "wp (andthen (awaits D (vd_write D n b)) f) Q E v"
  unfolding wp_andthen by (rule wp_mono [OF wp_write [OF assms(1)]]) (use assms(2,3) in auto)

lemma built_is_sealed:
  assumes ok: "vault_file_ok f" and opens: "open_file D L f pw = Inr (vek, p)"
    and key: "derive_local_database_key (vd_suite D) (sp_seed p) = Inr k"
    and u: "stores (objs(vault_file_name \<mapsto> serialize_vault_file f, database_key_name \<mapsto> blob)) (keys(blob \<mapsto> k)) u"
  shows "wp (set_unlocked D vek (sp_seed p) secs) (\<lambda>_ v'. \<exists>objs keys. sealed objs keys pw p v') (\<lambda>_ _. True) u"
proof (rule wp_mono [OF wp_set_unlocked [OF u]])
  let ?objs = "objs(vault_file_name \<mapsto> serialize_vault_file f, database_key_name \<mapsto> blob)"
  fix x and v' :: "'w vault"
  assume v': "va_state v' = Unlocked \<and> va_vek v' = Some vek \<and> va_seed v' = Some (sp_seed p) \<and> va_db_key v' = None
    \<and> stores ?objs (keys(blob \<mapsto> k)) v'"
  have "stored_file ?objs = Inr f"
    using parse_serialized [OF ok] by (simp add: stored_file_def vault_file_name_def database_key_name_def)
  then have "stored_secret D L ?objs pw = Inr (vek, p)" using opens by (simp add: stored_secret_def)
  then have "sealed ?objs (keys(blob \<mapsto> k)) pw p v'" using v' key by (simp add: sealed_def)
  then show "\<exists>objs keys. sealed objs keys pw p v'" by blast
qed

lemma wp_build:
  assumes v: "stores objs keys v" and aead: "aead_ok (vd_suite D)" and opts: "good_options opts"
    and words: "words = 12 \<and> length (sp_entropy p) = 16 \<or> words = 24 \<and> length (sp_entropy p) = 32"
  shows "wp (build_vault D p words pw opts) (\<lambda>_ v'. \<exists>objs keys. sealed objs keys pw p v') (\<lambda>_ _. True) v"
  unfolding build_vault_def Let_def vault_header.defs vault_header.select_convs
  apply (rule step_fixed [OF v])
  apply (rule step_lift, assumption)
  apply (rule step_kek, assumption)
  apply (rule step_fixed, assumption)
  apply (rule step_if, assumption)
  apply (rule step_fixed, assumption)
  apply (rule step_lift, assumption)
  apply (rule step_fixed, assumption)
  apply (rule step_lift, assumption)+
  apply (rule step_created, assumption)
   apply (rule step_lift, assumption)
   apply (rule step_wrap [OF aead], assumption)
   apply (rule step_write, assumption)+
   apply (rule built_is_sealed)
      prefer 4
      apply assumption
  subgoal using opts by (intro built_file_ok [OF aead _ _ _ _ _ words])
      (auto simp: good_options_def Let_def vek_bytes_def)
  subgoal using aead by (intro sealed_file_opens) (auto cong: payload_aad_cong simp: payload_aad_def header_to_wire_def)
  subgoal by simp
  by (use opts in \<open>simp_all add: good_options_def Let_def split: option.splits\<close>)

lemma step_can_initialize:
  assumes "stores objs keys v" "\<And>u. stores objs keys u \<Longrightarrow> wp (f ()) Q (\<lambda>_ _. True) u"
  shows "wp (andthen (assert_can_initialize D) f) Q (\<lambda>_ _. True) v"
  unfolding wp_andthen assert_can_initialize_def
  by (rule wp_mono [OF wp_read_object [OF assms(1)]]) (use assms(2) in \<open>auto simp: wp_rules\<close>)

lemma wp_create:
  assumes v: "stores objs keys v" and aead: "aead_ok (vd_suite D)" and opts: "good_options opts"
    and words: "words = 12 \<or> words = 24"
  shows "wp (create_with_new_mnemonic D words pw opts) (\<lambda>ws v'. \<exists>objs keys entropy.
      ws = split_spaces (bl_from_entropy (vd_bip39 D) entropy) \<and>
      sealed objs keys pw \<lparr>sp_entropy = entropy, sp_seed = bl_seed (vd_bip39 D) (join_spaces ws) None,
        sp_has_passphrase = False\<rparr> v') (\<lambda>_ _. True) v"
  unfolding create_with_new_mnemonic_def Let_def
  apply (rule step_can_initialize [OF v])
  apply (rule step_fixed, assumption)
  apply (rule step_if, assumption)
  unfolding wp_andthen
   apply (rule wp_mono [OF wp_build [OF _ aead opts]], assumption)
  using words by (auto simp: wp_ret split: if_splits)

lemma wp_import:
  assumes v: "stores objs keys v" and aead: "aead_ok (vd_suite D)" and opts: "good_options opts"
  shows "wp (import_mnemonic D ws pw phrase opts) (\<lambda>_ v'. \<exists>objs keys entropy passphrase.
      bl_to_entropy (vd_bip39 D) (join_spaces ws) = Some entropy \<and>
      passphrase = (if phrase = Some [] then None else phrase) \<and>
      sealed objs keys pw \<lparr>sp_entropy = entropy, sp_seed = bl_seed (vd_bip39 D) (join_spaces ws) passphrase,
        sp_has_passphrase = (passphrase \<noteq> None)\<rparr> v') (\<lambda>_ _. True) v"
  unfolding import_mnemonic_def Let_def
  apply (rule step_can_initialize [OF v])
  apply (rule step_if, assumption)
  apply (cases "bl_to_entropy (vd_bip39 D) (join_spaces ws)")
    apply (simp add: wp_throw)
  by (auto simp: wp_throw intro: wp_build [OF _ aead opts])

section \<open>Changing the password\<close>

definition password_changed ::
  "(string \<Rightarrow> bytes option) \<Rightarrow> (string \<Rightarrow> bytes option) \<Rightarrow> code_points \<Rightarrow> code_points \<Rightarrow> bool" where
  "password_changed objs objs' old new \<longleftrightarrow> stored_secret D L objs' new = stored_secret D L objs old
     \<and> (\<forall>n. n \<noteq> vault_file_name \<longrightarrow> objs' n = objs n)
     \<and> (\<exists>f g. stored_file objs = Inr f \<and> stored_file objs' = Inr g \<and> vh_biometric g = vh_biometric f
          \<and> vf_meta g = vf_meta f)"

lemma changed_file:
  assumes aead: "aead_exact (vd_suite D)" and f: "stored_file objs = Inr f"
    and vek: "unwrap_password_slot D f (derive_kek L old (vh_kdf f)) = Inr vek"
    and salt: "length salt = kdf_salt_bytes"
    and slot: "aes256_gcm_encrypt (vd_suite D) (derive_kek L new (with_salt salt (vh_kdf f))) sn vek password_wrap_aad = Inr wrapped"
    and plain: "decrypt_payload_bytes D f (Some vek) WrongPassword = Inr plain"
    and ct: "aes256_gcm_encrypt (vd_suite D) vek pn plain
      (payload_aad \<lparr>vh_kdf = with_salt salt (vh_kdf f), vh_password = \<lparr>ws_nonce = sn, ws_wrapped = wrapped\<rparr>,
        vh_biometric = vh_biometric f\<rparr>) = Inr ct"
    and g: "g = f\<lparr>vh_kdf := with_salt salt (vh_kdf f), vh_password := \<lparr>ws_nonce = sn, ws_wrapped = wrapped\<rparr>,
       vf_nonce := pn, vf_ct := ct\<rparr>"
  shows "password_changed objs (objs(vault_file_name \<mapsto> serialize_vault_file g)) old new"
proof -
  have ok: "aead_ok (vd_suite D)" using aead by (simp add: aead_exact_def)
  have aad: "payload_aad g = payload_aad \<lparr>vh_kdf = with_salt salt (vh_kdf f),
      vh_password = \<lparr>ws_nonce = sn, ws_wrapped = wrapped\<rparr>, vh_biometric = vh_biometric f\<rparr>"
    by (simp add: g payload_aad_def header_to_wire_def)
  have seal: "aes256_gcm_encrypt (vd_suite D) vek (vf_nonce g) plain (payload_aad g) = Inr (vf_ct g)"
    unfolding aad using ct by (simp add: g)
  have fok: "vault_file_ok f" by (rule stored_file_ok [OF f])
  have "length vek = 32" using plain by (auto simp: decrypt_payload_bytes_def dest: decrypted_key_length)
  then have "vault_file_ok g"
    using fok resealed_payload(2,3) [OF aead plain seal] gcm_length [OF ok slot] salt
    by (simp add: g vault_file_ok_def with_salt_valid kdf_salt_bytes_def wrap_slot_ok_def)
  then have stored: "stored_file (objs(vault_file_name \<mapsto> serialize_vault_file g)) = Inr g" by (rule stored_serialized)
  have "unwrap_password_slot D g (derive_kek L new (vh_kdf g)) = Inr vek"
    using gcm_round_trip [OF ok slot] by (simp add: unwrap_password_slot_def g map_error_def)
  then have "open_file D L g new = open_file D L f old"
    using vek resealed_payload(1) [OF aead plain seal] by (simp add: open_file_def)
  then show ?thesis using f stored by (simp add: password_changed_def stored_secret_def g)
qed

lemma wp_change:
  assumes v: "stores objs keys v" and aead: "aead_exact (vd_suite D)"
  shows "wp (change_password D old new) (\<lambda>_ v'. \<exists>objs'. stores objs' keys v' \<and> password_changed objs objs' old new)
    (\<lambda>_. stores objs keys) v"
  unfolding change_password_def Let_def vault_header.select_convs
  apply (rule step_file [OF v])
   apply (rule step_kek, assumption)
    apply (rule step_lift, assumption)
     apply (rule step_draw, assumption)
     apply (rule step_kek, assumption)
      apply (rule step_draw, assumption)
      apply (rule step_lift, assumption)
       apply (rule step_lift, assumption)
        apply (rule step_draw, assumption)
        apply (rule step_lift, assumption)
         apply (rule wp_mono [OF wp_write], assumption)
          apply (blast intro: changed_file [OF aead])
  by simp_all

section \<open>Biometrics\<close>

text \<open>The vault key stays what it is while the vault waits, unless it is locked.\<close>

lemma awaits_key: "wp (awaits D m) (\<lambda>_ v'. va_vek v' \<in> {va_vek v, None}) (\<lambda>_ v'. va_vek v' \<in> {va_vek v, None}) v"
  by (auto simp: wp_def awaits_def lock_now_def clear_live_state_def clear_auto_lock_timer_def Let_def
      split: prod.splits sum.splits)

text \<open>What an edit of the slots by an unlocked vault keeps: the secret of every password that gives the
  live key.\<close>

definition slots_changed :: "(string \<Rightarrow> bytes option) \<Rightarrow> (string \<Rightarrow> bytes option) \<Rightarrow> bytes \<Rightarrow> biometric_slot option \<Rightarrow> bool" where
  "slots_changed objs objs' vek bio \<longleftrightarrow>
     (\<forall>pw p. stored_secret D L objs pw = Inr (vek, p) \<longrightarrow> stored_secret D L objs' pw = Inr (vek, p))
     \<and> (\<forall>n. n \<noteq> vault_file_name \<longrightarrow> objs' n = objs n)
     \<and> (\<exists>f g. stored_file objs = Inr f \<and> stored_file objs' = Inr g \<and> vh_biometric g = bio
          \<and> (\<forall>c. decrypt_payload D g (Some vek) c = decrypt_payload D f (Some vek) c))"

lemma rewritten_file:
  assumes aead: "aead_exact (vd_suite D)" and f: "stored_file objs = Inr f" and bio: "biometric_slot_ok bio"
    and plain: "decrypt_payload_bytes D f (Some vek) CorruptVault = Inr plain"
    and ct: "aes256_gcm_encrypt (vd_suite D) vek pn plain
      (payload_aad \<lparr>vh_kdf = vh_kdf f, vh_password = vh_password f, vh_biometric = bio\<rparr>) = Inr ct"
    and g: "g = f\<lparr>vh_password := vh_password f, vh_biometric := bio, vf_nonce := pn, vf_ct := ct\<rparr>"
  shows "slots_changed objs (objs(vault_file_name \<mapsto> serialize_vault_file g)) vek bio"
proof -
  have aad: "payload_aad g = payload_aad \<lparr>vh_kdf = vh_kdf f, vh_password = vh_password f, vh_biometric = bio\<rparr>"
    by (simp add: g payload_aad_def header_to_wire_def)
  have seal: "aes256_gcm_encrypt (vd_suite D) vek (vf_nonce g) plain (payload_aad g) = Inr (vf_ct g)"
    unfolding aad using ct by (simp add: g)
  note same = resealed_payload [OF aead plain seal]
  have "vault_file_ok g" using stored_file_ok [OF f] same(2,3) bio by (simp add: g vault_file_ok_def)
  then have stored: "stored_file (objs(vault_file_name \<mapsto> serialize_vault_file g)) = Inr g" by (rule stored_serialized)
  have "open_file D L g pw = Inr (vek, p)" if "open_file D L f pw = Inr (vek, p)" for pw p
    using that same(1) by (auto simp: open_file_def unwrap_password_slot_def g)
  then show ?thesis using f stored same(1) by (simp add: slots_changed_def stored_secret_def g)
qed

lemma wp_require_vek:
  assumes "\<And>k. va_vek v = k \<Longrightarrow> Q k v" "\<And>e. E e v"
  shows "wp require_vek Q E v"
  using assms by (auto simp: require_vek_def assert_unlocked_def wp_rules)

lemma wp_rewrite:
  assumes v: "stores objs keys v" and aead: "aead_exact (vd_suite D)" and f: "stored_file objs = Inr f"
    and bio: "\<And>vek. va_vek v = Some vek \<Longrightarrow> length vek = 32 \<Longrightarrow> biometric_slot_ok bio"
  shows "wp (rewrite_slots D f (vh_password f) bio)
    (\<lambda>_ v'. \<exists>objs' vek. va_vek v = Some vek \<and> stores objs' keys v' \<and> slots_changed objs objs' vek bio)
    (\<lambda>_. stores objs keys) v"
  unfolding rewrite_slots_def Let_def
  apply (subst wp_andthen)
  apply (rule wp_require_vek)
  subgoal for k
    apply (cases k)
    subgoal using v by (simp add: decrypt_payload_bytes_def lift_sum_def wp_andthen wp_throw)
    subgoal for vek
      apply (simp only: option.sel)
      apply (rule step_lift [OF v])
       apply (rule step_draw [OF v])
       apply (rule step_lift, assumption)
        apply (rule wp_mono [OF wp_write], assumption)
         apply (rule exI, rule exI, rule conjI, simp, rule conjI, assumption)
         apply (rule rewritten_file [OF aead f])
             apply (rule bio)
      by (auto simp: decrypt_payload_bytes_def dest: decrypted_key_length)
    done
  using v by simp

lemma read_file_key: "wp (read_vault_file D) (\<lambda>_ v'. va_vek v' \<in> {va_vek v, None}) (\<lambda>_ _. True) v"
  unfolding read_vault_file_def wp_andthen
  by (rule wp_mono [OF awaits_key]) (auto simp: wp_rules split: option.splits sum.splits)

lemma wp_biometric_available:
  assumes "stores objs keys v"
  shows "wp (awaits D (vd_biometric_available D)) (\<lambda>_. stores objs keys) (\<lambda>_. stores objs keys) v"
proof (rule wp_awaits [where P = "\<lambda>_ w. objects w = objs \<and> unwrapped w = keys"
      and F = "\<lambda>_ w. objects w = objs \<and> unwrapped w = keys"])
  fix r w assume "vd_biometric_available D (va_env v) = (r, w)"
  with keystore_leaves(3) storage_leaves(4) assms
  show "case r of Inl e \<Rightarrow> objects w = objs \<and> unwrapped w = keys | Inr x \<Rightarrow> objects w = objs \<and> unwrapped w = keys"
    by (auto simp: leaves_def stores_def split: sum.splits) (metis snd_conv)+
qed (use waiting in \<open>auto simp: stores_def\<close>)

text \<open>The blob that enabling writes into the file is one the key store gives the vault key for.\<close>

lemma wp_enable:
  assumes v: "stores objs keys v" and aead: "aead_exact (vd_suite D)"
  shows "wp (enable_biometrics D)
    (\<lambda>_ v'. \<exists>f. stored_file objs = Inr f \<and> (if vh_biometric f \<noteq> None then stores objs keys v'
      else \<exists>objs' blob vek. va_vek v = Some vek \<and> stores objs' (keys(blob \<mapsto> vek)) v'
        \<and> slots_changed objs objs' vek (Some \<lparr>bs_nonce = None, bs_wrapped = blob\<rparr>)))
    (\<lambda>_ v'. \<exists>keys'. stores objs keys' v') v"
proof -
  let ?Q = "\<lambda>_ v'. \<exists>f. stored_file objs = Inr f \<and> (if vh_biometric f \<noteq> None then stores objs keys v'
      else \<exists>objs' blob vek. va_vek v = Some vek \<and> stores objs' (keys(blob \<mapsto> vek)) v'
        \<and> slots_changed objs objs' vek (Some \<lparr>bs_nonce = None, bs_wrapped = blob\<rparr>))"
  let ?E = "\<lambda>(e :: vault_error) (v' :: 'w vault). \<exists>keys'. stores objs keys' v'"
  have ok: "aead_ok (vd_suite D)" using aead by (simp add: aead_exact_def)
  have rewritten: "wp (rewrite_slots D f (vh_password f) (Some \<lparr>bs_nonce = None, bs_wrapped = blob\<rparr>)) ?Q ?E u"
    if f: "stored_file objs = Inr f" "vh_biometric f = None" and k: "va_vek v = Some k"
      and u: "stores objs (keys(blob \<mapsto> k)) u" "va_vek u \<in> {Some k, None}"
      and blob: "length k = 32 \<longrightarrow> 16 \<le> length blob \<and> length blob \<le> 512" for f blob k u
    by (rule wp_mono [OF wp_rewrite [OF u(1) aead f(1)]])
      (use f k u(2) blob in \<open>fastforce simp: biometric_slot_ok_def\<close>)+
  have wrapped: "wp (andthen (catching (andthen require_vek (\<lambda>vek. case vek of
               None \<Rightarrow> throw null_error | Some k \<Rightarrow> awaits D (vd_wrap D k True))) (\<lambda>_. throw (VaultError KeystoreError)))
         (\<lambda>blob. rewrite_slots D f (vh_password f) (Some \<lparr>bs_nonce = None, bs_wrapped = blob\<rparr>))) ?Q ?E u"
    if f: "stored_file objs = Inr f" "vh_biometric f = None"
      and u: "stores objs keys u" "va_vek u \<in> {va_vek v, None}" for f u
    unfolding wp_andthen wp_catching
  proof (rule wp_require_vek)
    fix k assume k: "va_vek u = k"
    show "wp (case k of None \<Rightarrow> throw null_error | Some k \<Rightarrow> awaits D (vd_wrap D k True))
        (\<lambda>blob. wp (rewrite_slots D f (vh_password f) (Some \<lparr>bs_nonce = None, bs_wrapped = blob\<rparr>)) ?Q ?E)
        (\<lambda>e. wp (throw (VaultError KeystoreError)) (\<lambda>blob. wp (rewrite_slots D f (vh_password f)
            (Some \<lparr>bs_nonce = None, bs_wrapped = blob\<rparr>)) ?Q ?E) ?E) u"
    proof (cases k)
      case (Some vek)
      have key: "va_vek v = Some vek" using k Some u(2) by auto
      show ?thesis
        unfolding Some option.case
      proof (rule wp_mono [OF wp_conj [OF wp_wrap [OF ok u(1)] awaits_key]])
        fix blob s'
        assume "(stores objs (keys(blob \<mapsto> vek)) s' \<and> (length vek = 32 \<longrightarrow> 16 \<le> length blob \<and> length blob \<le> 512))
          \<and> va_vek s' \<in> {va_vek u, None}"
        then show "wp (rewrite_slots D f (vh_password f) (Some \<lparr>bs_nonce = None, bs_wrapped = blob\<rparr>)) ?Q ?E s'"
          using k Some by (intro rewritten [OF f key]) auto
      qed (auto simp: wp_throw)
    qed (use u in \<open>auto simp: wp_throw\<close>)
  qed (use u in \<open>auto simp: wp_throw\<close>)
  have file_read: "wp (andthen (read_vault_file D) (\<lambda>file. if vh_biometric file \<noteq> None then ret () else
      andthen (catching (andthen require_vek (\<lambda>vek. case vek of
               None \<Rightarrow> throw null_error | Some k \<Rightarrow> awaits D (vd_wrap D k True))) (\<lambda>_. throw (VaultError KeystoreError)))
         (\<lambda>blob. rewrite_slots D file (vh_password file) (Some \<lparr>bs_nonce = None, bs_wrapped = blob\<rparr>)))) ?Q ?E u"
    if u: "stores objs keys u" "va_vek u \<in> {va_vek v, None}" for u
    unfolding wp_andthen [of "read_vault_file D"]
    by (rule wp_mono [OF wp_conj [OF wp_read_file [OF u(1)] read_file_key]])
      (use u wrapped in \<open>auto simp: wp_ret wp_if\<close>)
  show ?thesis
    unfolding enable_biometrics_def wp_andthen [of assert_unlocked]
  proof (rule wp_assert)
    show "wp (andthen (awaits D (vd_biometric_available D)) (\<lambda>available.
      if \<not> available then throw (VaultError BiometricUnavailable) else
      andthen (read_vault_file D) (\<lambda>file. if vh_biometric file \<noteq> None then ret () else
      andthen (catching (andthen require_vek (\<lambda>vek. case vek of
               None \<Rightarrow> throw null_error | Some k \<Rightarrow> awaits D (vd_wrap D k True))) (\<lambda>_. throw (VaultError KeystoreError)))
         (\<lambda>blob. rewrite_slots D file (vh_password file) (Some \<lparr>bs_nonce = None, bs_wrapped = blob\<rparr>))))) ?Q ?E v"
      unfolding wp_andthen [of "awaits D (vd_biometric_available D)"]
      by (rule wp_mono [OF wp_conj [OF wp_biometric_available [OF v] awaits_key]])
        (use file_read in \<open>auto simp: wp_throw\<close>)
  qed (use v in blast)
qed

lemma wp_unwrap:
  assumes "stores objs keys v"
  shows "wp (awaits D (vd_unwrap D blob)) (\<lambda>k v'. keys blob = Some k \<and> stores objs keys v') (\<lambda>_. stores objs keys) v"
proof (rule wp_awaits [where P = "\<lambda>k w. keys blob = Some k \<and> objects w = objs \<and> unwrapped w = keys"
      and F = "\<lambda>_ w. objects w = objs \<and> unwrapped w = keys"])
  fix r w assume "vd_unwrap D blob (va_env v) = (r, w)"
  with unwrap_law [OF this] keystore_leaves(2) [of blob] assms
  show "case r of Inl e \<Rightarrow> objects w = objs \<and> unwrapped w = keys
      | Inr k \<Rightarrow> keys blob = Some k \<and> objects w = objs \<and> unwrapped w = keys"
    by (auto simp: leaves_def stores_def split: sum.splits) (metis snd_conv)+
qed (use waiting in \<open>auto simp: stores_def\<close>)

lemma step_unwrap:
  assumes "stores objs keys v" "\<And>k u. stores objs keys u \<Longrightarrow> keys blob = Some k \<Longrightarrow> wp (f k) Q E u"
    and "\<And>e u. stores objs keys u \<Longrightarrow> E e u"
  shows "wp (andthen (catching (awaits D (vd_unwrap D blob)) (\<lambda>_. throw e)) f) Q E v"
  unfolding wp_andthen wp_catching
  by (rule wp_mono [OF wp_unwrap [OF assms(1)]]) (use assms(2,3) in \<open>auto simp: wp_throw\<close>)

lemma wp_biometric_unlock:
  assumes v: "stores objs keys v"
  shows "wp (unlock_with_biometrics D) (\<lambda>_ v'. \<exists>f slot vek p. stored_file objs = Inr f \<and> vh_biometric f = Some slot
      \<and> keys (bs_wrapped slot) = Some vek \<and> decrypt_payload D f (Some vek) CorruptVault = Inr p
      \<and> va_state v' = Unlocked \<and> va_vek v' = Some vek \<and> va_seed v' = Some (sp_seed p) \<and> stores objs keys v')
    (\<lambda>_. stores objs keys) v"
  unfolding unlock_with_biometrics_def
proof (rule step_file [OF v])
  fix f u assume u: "stores objs keys u" and f: "stored_file objs = Inr f"
  show "wp (case vh_biometric f of
         None \<Rightarrow> throw (VaultError BiometricUnavailable)
       | Some slot \<Rightarrow>
           andthen (catching (awaits D (vd_unwrap D (bs_wrapped slot)))
             (\<lambda>_. throw (VaultError BiometricDenied))) (\<lambda>vek.
           if length vek \<noteq> vek_bytes then throw (VaultError CorruptVault)
           else
             andthen (lift_sum id (decrypt_payload D f (Some vek) CorruptVault)) (\<lambda>payload.
             set_unlocked D vek (sp_seed payload) (clamp_auto_lock_seconds (vm_auto_lock (vf_meta f))))))
     (\<lambda>_ v'. \<exists>f slot vek p. stored_file objs = Inr f \<and> vh_biometric f = Some slot
      \<and> keys (bs_wrapped slot) = Some vek \<and> decrypt_payload D f (Some vek) CorruptVault = Inr p
      \<and> va_state v' = Unlocked \<and> va_vek v' = Some vek \<and> va_seed v' = Some (sp_seed p) \<and> stores objs keys v')
    (\<lambda>_. stores objs keys) u"
  proof (cases "vh_biometric f")
    case (Some slot)
    show ?thesis
      unfolding Some option.case
      apply (rule step_unwrap [OF u])
       apply (rule step_if, assumption)
        apply (rule step_lift, assumption)
         apply (rule wp_mono [OF wp_set_unlocked], assumption)
          apply (use f Some in blast)
      by simp_all
  qed (use u in \<open>simp add: wp_throw\<close>)
qed

lemma decrypt_payload_code: "decrypt_payload D f k c = Inr p \<Longrightarrow> decrypt_payload D f k c' = Inr p"
  by (auto simp: decrypt_payload_def decrypt_payload_bytes_def split: option.splits)

lemma biometric_agrees:
  assumes changed: "slots_changed objs objs' vek (Some \<lparr>bs_nonce = None, bs_wrapped = blob\<rparr>)"
    and keys: "keys blob = Some vek" and secret: "stored_secret D L objs pw = Inr (vek, p)" and u: "stores objs' keys u"
  shows "wp (unlock_with_biometrics D) (\<lambda>_ u'. va_state u' = Unlocked \<and> va_seed u' = Some (sp_seed p)) (\<lambda>_ _. True) u"
proof (rule wp_mono [OF wp_biometric_unlock [OF u]])
  fix x and u' :: "'w vault"
  assume "\<exists>f slot vek p. stored_file objs' = Inr f \<and> vh_biometric f = Some slot
      \<and> keys (bs_wrapped slot) = Some vek \<and> decrypt_payload D f (Some vek) CorruptVault = Inr p
      \<and> va_state u' = Unlocked \<and> va_vek u' = Some vek \<and> va_seed u' = Some (sp_seed p) \<and> stores objs' keys u'"
  then obtain f slot vek' q where f: "stored_file objs' = Inr f" "vh_biometric f = Some slot"
      "keys (bs_wrapped slot) = Some vek'" "decrypt_payload D f (Some vek') CorruptVault = Inr q"
      and u': "va_state u' = Unlocked" "va_seed u' = Some (sp_seed q)" by blast
  then have v: "vek' = vek" using changed keys by (auto simp: slots_changed_def)
  have "stored_secret D L objs' pw = Inr (vek, p)" using changed secret by (simp add: slots_changed_def)
  then have "decrypt_payload D f (Some vek) WrongPassword = Inr p"
    using f(1) by (auto simp: stored_secret_def open_file_def)
  then have "q = p" using f(4) v decrypt_payload_code [of f "Some vek" WrongPassword p CorruptVault] by simp
  then show "va_state u' = Unlocked \<and> va_seed u' = Some (sp_seed p)" using u' by simp
qed simp

lemma wp_unwrap_database_key:
  assumes v: "stores objs keys v"
  shows "wp (unwrap_database_key D) (\<lambda>k _. \<exists>blob. objs database_key_name = Some blob \<and> keys blob = Some k) (\<lambda>_ _. True) v"
  unfolding unwrap_database_key_def wp_andthen [of assert_unlocked]
proof (rule wp_assert)
  show "wp (andthen (awaits D (vd_read D database_key_name)) (\<lambda>blob. case blob of None \<Rightarrow> throw (VaultError KeystoreError)
      | Some b \<Rightarrow> catching (awaits D (vd_unwrap D b)) (\<lambda>_. throw (VaultError KeystoreError))))
    (\<lambda>k _. \<exists>blob. objs database_key_name = Some blob \<and> keys blob = Some k) (\<lambda>_ _. True) v"
  proof (rule step_read [OF v])
    fix u assume u: "stores objs keys u"
    show "wp (case objs database_key_name of None \<Rightarrow> throw (VaultError KeystoreError)
        | Some b \<Rightarrow> catching (awaits D (vd_unwrap D b)) (\<lambda>_. throw (VaultError KeystoreError)))
      (\<lambda>k _. \<exists>blob. objs database_key_name = Some blob \<and> keys blob = Some k) (\<lambda>_ _. True) u"
      using wp_mono [OF wp_unwrap [OF u]]
      by (auto simp: wp_throw wp_catching split: option.splits)
  qed simp
qed simp

lemma unlock_needs_authentic_header:
  assumes ok: "validate_kdf_params (vh_kdf f) = Inr ()" and stored: "stored_file objs = Inr g"
    and edited: "vault_header.truncate g \<noteq> vault_header.truncate f" "vf_nonce g = vf_nonce f" "vf_ct g = vf_ct f"
    and authentic: "\<forall>k a. a \<noteq> payload_aad f \<longrightarrow> cy_gcm_decrypt (vd_suite D) k (vf_nonce f) a (vf_ct f) = None"
  shows "stored_secret D L objs pw \<noteq> Inr (vek, p)" and "decrypt_payload D g k c \<noteq> Inr q"
proof -
  have g: "validate_kdf_params (vh_kdf g) = Inr ()" using stored_file_ok [OF stored] by (simp add: vault_file_ok_def)
  have "payload_aad g \<noteq> payload_aad f"
    using header_to_wire_inject [OF payload_aad_inject [OF g ok]] edited(1) by (auto simp: vault_header.defs)
  then have "cy_gcm_decrypt (vd_suite D) k (vf_nonce g) (payload_aad g) (vf_ct g) = None" for k
    using authentic edited by simp
  then show no: "decrypt_payload D g k c \<noteq> Inr q" for k c q
    by (auto simp: decrypt_payload_def decrypt_payload_bytes_def aes256_gcm_decrypt_def split: option.splits if_splits)
  show "stored_secret D L objs pw \<noteq> Inr (vek, p)"
    using stored no by (auto simp: stored_secret_def open_file_def)
qed

end

section \<open>The database key of a live vault\<close>

lemma wp_get_database_key:
  assumes "vault_typed (vd_suite D) v"
  shows "wp (get_database_key D) (\<lambda>k v'. \<exists>sd. va_seed v = Some sd \<and> derive_local_database_key (vd_suite D) sd = Inr k
      \<and> va_env v' = va_env v) (\<lambda>_ _. True) v"
  using assms
  by (auto simp: wp_def get_database_key_def assert_unlocked_def require_seed_def prog_defs lift_sum_def vault_typed_def
      split: prod.splits option.splits sum.splits)

section \<open>A wipe that fails\<close>

lemma awaits_initialized:
  "keeps (\<lambda>v. va_state v \<noteq> Uninitialized) (awaits D m)"
  by (auto simp: keeps_def awaits_def lock_now_def clear_live_state_def clear_auto_lock_timer_def Let_def
      split: prod.splits)

lemma failed_wipe_state:
  assumes "va_state v \<noteq> Uninitialized"
  shows "wp (wipe D) (\<lambda>_ v'. va_state v' = Uninitialized) (\<lambda>_ v'. va_state v' \<noteq> Uninitialized) v"
proof -
  have step: "wp (awaits D m) Q (\<lambda>_ v'. va_state v' \<noteq> Uninitialized) u"
    if "va_state u \<noteq> Uninitialized" "\<And>x u'. va_state u' \<noteq> Uninitialized \<Longrightarrow> Q x u'"
    for m :: "('a, string, 'b) prog" and Q :: "'b \<Rightarrow> 'a vault \<Rightarrow> bool" and u
    using awaits_initialized [of D m] that by (fastforce simp: keeps_wp intro: wp_mono)
  show ?thesis
    using assms unfolding wipe_def wp_andthen wp_catching wp_modify wp_throw
    by (intro step) (auto simp: clear_live_state_def clear_auto_lock_timer_def)
qed

lemma creation_needs_uninitialized:
  assumes "va_state v \<noteq> Uninitialized"
  shows "wp (create_with_new_mnemonic D n pw opts) (\<lambda>_ _. False)
    (\<lambda>e _. e = VaultError AlreadyInitialized \<or> platform_failed e) v"
proof -
  have "wp (awaits D (vd_read D vault_file_name)) (\<lambda>_ u. va_state u \<noteq> Uninitialized)
      (\<lambda>e _. platform_failed e) v"
    using assms by (auto simp: wp_def awaits_def lock_now_def clear_live_state_def clear_auto_lock_timer_def Let_def
        map_error_def split: prod.splits sum.splits)
  then show ?thesis
    unfolding create_with_new_mnemonic_def assert_can_initialize_def Let_def wp_andthen
    by (rule wp_mono) (auto simp: wp_rules)
qed

section \<open>The quiz\<close>

lemma swap_at_mset: "i < length xs \<Longrightarrow> j < length xs \<Longrightarrow> mset (swap_at i j xs) = mset xs"
  unfolding swap_at_def by (rule mset_swap)

lemma wp_shuffle:
  assumes "\<forall>i \<in> set is. i < length pool"
  shows "wp (shuffle_pool D is pool) (\<lambda>p _. mset p = mset pool) E v"
  using assms
proof (induction "is" arbitrary: pool v)
  case (Cons i "is" pool v)
  obtain b w where draw: "vd_random D 1 (va_env v) = (b, w)" by fastforce
  define j where "j = i + unat (hd b) mod (length pool - i)"
  have j: "j < length pool" proof -
    have "unat (hd b) mod (length pool - i) < length pool - i" using Cons.prems by simp
    then show ?thesis by (simp add: j_def less_diff_conv)
  qed
  have len: "length (swap_at i j pool) = length pool" by (simp add: swap_at_def)
  have "wp (shuffle_pool D is (swap_at i j pool)) (\<lambda>p _. mset p = mset (swap_at i j pool)) E (v\<lparr>va_env := w\<rparr>)"
    using Cons.prems by (intro Cons.IH) (simp add: len)
  moreover have "mset (swap_at i j pool) = mset pool" using Cons.prems j by (intro swap_at_mset) auto
  ultimately have "wp (shuffle_pool D is (swap_at i j pool)) (\<lambda>p _. mset p = mset pool) E (v\<lparr>va_env := w\<rparr>)"
    by simp
  then show ?case using draw by (simp add: wp_def andthen_def draw_def j_def)
qed (simp add: wp_ret)

definition quiz_for :: "nat \<Rightarrow> int \<Rightarrow> int list \<Rightarrow> bool" where
  "quiz_for words n positions \<longleftrightarrow> sorted_wrt (<) positions \<and> set positions \<subseteq> {1..int words}
     \<and> length positions = nat (min (max 1 n) (int words))"

lemma shuffled_quiz:
  assumes pool: "mset pool = mset (map int [0..<words])" and m: "m \<le> words"
    and n: "m = nat (min (max 1 n) (int words))"
  shows "quiz_for words n (sort (map (\<lambda>i. i + 1) (take m pool)))"
proof -
  have d: "distinct pool" and s: "set pool = int ` {0..<words}" and l: "length pool = words"
    using mset_eq_imp_distinct_iff [OF pool] mset_eq_setD [OF pool] mset_eq_length [OF pool]
    by (auto simp: distinct_map)
  have "distinct (map (\<lambda>i. i + 1) (take m pool))" using d by (simp add: distinct_map inj_on_def)
  then have "sorted_wrt (<) (sort (map (\<lambda>i. i + 1) (take m pool)))" by (simp add: strict_sorted_iff)
  moreover have "set (take m pool) \<subseteq> int ` {0..<words}" using s set_take_subset by fastforce
  ultimately show ?thesis using l m n by (auto simp: quiz_for_def)
qed

lemma wp_quiz:
  "wp (generate_mnemonic_quiz D n) (\<lambda>ps _. \<exists>entropy. quiz_for (length (split_spaces (bl_from_entropy (vd_bip39 D) entropy))) n ps)
     (\<lambda>_ _. True) v"
proof -
  have words: "wp (mnemonic_words_while_unlocked D) (\<lambda>ws _. \<exists>entropy. ws = split_spaces (bl_from_entropy (vd_bip39 D) entropy))
      (\<lambda>_ _. True) u" for u
    by (auto simp: wp_def mnemonic_words_while_unlocked_def prog_defs split: prod.splits sum.splits)
  have quiz: "quiz_for (length ws) n (sort (map (\<lambda>i. i + 1) (take (nat (min (max 1 n) (int (length ws)))) pool)))"
    if "mset pool = mset (map int [0..<length ws])" for pool and ws :: "code_points list"
    by (rule shuffled_quiz [OF that]) auto
  show ?thesis
    unfolding generate_mnemonic_quiz_def wp_andthen Let_def wp_ret
    by (rule wp_assert, rule wp_mono [OF words], rule wp_mono [OF wp_shuffle]) (force, blast intro: quiz, simp_all)
qed

end
