(* ===== verification/Cemp_Keystore.thy ===== *)
theory Cemp_Keystore
  imports Cemp_VaultUse
begin

text \<open>
  The platform of the vault in packages/cemp-secure-vault: \<open>MemoryVaultStorage\<close> (storage.ts), the
  reference key store \<open>EphemeralSoftwareKeyStore\<close> (keystore.ts) and \<open>NobleKdfEngine\<close> (kdf.ts), the
  interpretation of the interfaces on them, and what the vault promises over any such platform.

  A device has what these objects hold, and the rest of the world as streams: the random bytes, the
  clock, the answers to the biometric prompt, and whether a wait is interrupted. \<open>Date.now\<close> is bounded
  by the time value range of ECMAScript, and the device is not set before 1970.
\<close>

unbundle bit_operations_syntax

section \<open>The device\<close>

record device =
  dv_objects :: "string \<Rightarrow> bytes option"
  dv_key :: "bytes option"
  dv_entropy :: "nat \<Rightarrow> byte"
  dv_used :: nat
  dv_times :: "nat \<Rightarrow> nat"
  dv_prompts :: "nat \<Rightarrow> string + bool"
  dv_interrupts :: "nat \<Rightarrow> bool"
  dv_steps :: nat

definition device_random :: "nat \<Rightarrow> device \<Rightarrow> bytes \<times> device" where
  "device_random n d = (map (dv_entropy d) [dv_used d..<dv_used d + n], d\<lparr>dv_used := dv_used d + n\<rparr>)"

definition device_clock :: "device \<Rightarrow> int \<times> device" where
  "device_clock d = (int (min (dv_times d (dv_steps d)) 8640000000000000), d\<lparr>dv_steps := dv_steps d + 1\<rparr>)"

definition device_interrupted :: "device \<Rightarrow> bool \<times> device" where
  "device_interrupted d = (dv_interrupts d (dv_steps d), d\<lparr>dv_steps := dv_steps d + 1\<rparr>)"

definition biometric_prompt :: "(device, string, bool) prog" where
  "biometric_prompt d = (dv_prompts d (dv_steps d), d\<lparr>dv_steps := dv_steps d + 1\<rparr>)"

section \<open>storage.ts\<close>

definition memory_read :: "string \<Rightarrow> (device, string, bytes option) prog" where
  "memory_read name = asks (\<lambda>d. dv_objects d name)"

definition memory_write :: "string \<Rightarrow> bytes \<Rightarrow> (device, string, unit) prog" where
  "memory_write name bs = modify (\<lambda>d. d\<lparr>dv_objects := (dv_objects d)(name \<mapsto> bs)\<rparr>)"

definition memory_delete :: "string \<Rightarrow> (device, string, unit) prog" where
  "memory_delete name = modify (\<lambda>d. d\<lparr>dv_objects := (dv_objects d)(name := None)\<rparr>)"

section \<open>keystore.ts\<close>

text \<open>The options of the constructor: whether biometrics are available, and whether a prompt is given.\<close>

record keystore_options =
  ko_biometric :: bool
  ko_prompt :: bool

definition wrap_aad_prefix :: string where
  "wrap_aad_prefix = ''CEMP/KEYSTORE/wrap/v1''"

definition ephemeral_keystore :: "device \<Rightarrow> device" where
  "ephemeral_keystore d = (case device_random 32 d of (k, d') \<Rightarrow> d'\<lparr>dv_key := Some k\<rparr>)"

definition ephemeral_available :: "(device, string, bool) prog" where
  "ephemeral_available = asks (\<lambda>d. dv_key d \<noteq> None)"

definition ephemeral_biometric_available :: "keystore_options \<Rightarrow> (device, string, bool) prog" where
  "ephemeral_biometric_available opts = asks (\<lambda>d. dv_key d \<noteq> None \<and> ko_biometric opts)"

definition ephemeral_wrap ::
  "crypto_suite \<Rightarrow> keystore_options \<Rightarrow> bytes \<Rightarrow> bool \<Rightarrow> (device, string, bytes) prog" where
  "ephemeral_wrap S opts key biometric =
     andthen (asks dv_key) (\<lambda>wrap_key. case wrap_key of
         None \<Rightarrow> throw ''ephemeral keystore: key has been deleted''
       | Some wk \<Rightarrow>
           if biometric \<and> \<not> ko_biometric opts then throw ''ephemeral keystore: biometrics not available''
           else (let flags = [if biometric then 1 else 0] in
             andthen (\<lambda>d. case device_random 12 d of (n, d') \<Rightarrow> (Inr n, d')) (\<lambda>nonce.
             andthen (lift_sum (\<lambda>_. ''CempCryptoError'')
               (aes256_gcm_encrypt S wk nonce key (text_encode wrap_aad_prefix @ flags))) (\<lambda>ct.
             ret (flags @ nonce @ ct)))))"

definition ephemeral_unwrap ::
  "crypto_suite \<Rightarrow> keystore_options \<Rightarrow> bytes \<Rightarrow> (device, string, bytes) prog" where
  "ephemeral_unwrap S opts blob =
     andthen (asks dv_key) (\<lambda>wrap_key. case wrap_key of
         None \<Rightarrow> throw ''ephemeral keystore: key has been deleted''
       | Some wk \<Rightarrow>
           if length blob < 1 + 12 + 16 then throw ''ephemeral keystore: malformed blob''
           else (let flags = hd blob; nonce = take 12 (drop 1 blob); ct = drop 13 blob in
             andthen (if flags AND 1 = 1
                      then andthen (if ko_prompt opts then biometric_prompt else ret False) (\<lambda>accepted.
                        when_do (\<not> accepted) (throw ''ephemeral keystore: biometric prompt rejected''))
                      else ret ()) (\<lambda>_.
             lift_sum (\<lambda>_. ''ephemeral keystore: blob cannot be unwrapped by this instance'')
               (aes256_gcm_decrypt S wk nonce ct (text_encode wrap_aad_prefix @ [flags])))))"

definition ephemeral_delete_key :: "(device, string, unit) prog" where
  "ephemeral_delete_key = modify (\<lambda>d. d\<lparr>dv_key := None\<rparr>)"

section \<open>The reference platform\<close>

definition noble_derive_kek :: "kdf_library \<Rightarrow> code_points \<Rightarrow> kdf_params \<Rightarrow> (device, string, bytes) prog" where
  "noble_derive_kek L password params = ret (derive_kek L password params)"

definition reference_deps ::
  "crypto_suite \<Rightarrow> bip39_library \<Rightarrow> kdf_library \<Rightarrow> keystore_options \<Rightarrow> device vault_deps" where
  "reference_deps S B L opts = \<lparr>vd_suite = S, vd_bip39 = B, vd_read = memory_read, vd_write = memory_write,
     vd_delete = memory_delete, vd_wrap = ephemeral_wrap S opts, vd_unwrap = ephemeral_unwrap S opts,
     vd_biometric_available = ephemeral_biometric_available opts, vd_delete_key = ephemeral_delete_key,
     vd_derive_kek = noble_derive_kek L, vd_random = device_random, vd_clock = device_clock,
     vd_interrupted = device_interrupted\<rparr>"

text \<open>What the key store can unwrap, whatever the prompt answers.\<close>

definition ephemeral_unwrapped :: "crypto_suite \<Rightarrow> device \<Rightarrow> bytes \<Rightarrow> bytes option" where
  "ephemeral_unwrapped S d blob = (case dv_key d of
       None \<Rightarrow> None
     | Some wk \<Rightarrow> if length blob < 29 then None
         else (case aes256_gcm_decrypt S wk (take 12 (drop 1 blob)) (drop 13 blob) (text_encode wrap_aad_prefix @ [hd blob]) of
             Inl _ \<Rightarrow> None | Inr k \<Rightarrow> Some k))"

interpretation memory: vault_storage memory_read memory_write memory_delete dv_objects
  by unfold_locales (auto simp: memory_read_def memory_write_def memory_delete_def prog_defs)

lemma unwrapped_cong: "dv_key d = dv_key e \<Longrightarrow> ephemeral_unwrapped S d = ephemeral_unwrapped S e"
  by (simp add: ephemeral_unwrapped_def fun_eq_iff)

lemma ephemeral_wrap_cases:
  assumes "ephemeral_wrap S opts key bio d = (r, d')"
  shows "dv_key d' = dv_key d \<and> dv_objects d' = dv_objects d \<and> (\<forall>blob. r = Inr blob \<longrightarrow>
    (\<exists>wk ct. let nonce = map (dv_entropy d) [dv_used d..<dv_used d + 12] in
      dv_key d = Some wk \<and> blob = [if bio then 1 else 0] @ nonce @ ct \<and>
      aes256_gcm_encrypt S wk nonce key (text_encode wrap_aad_prefix @ [if bio then 1 else 0]) = Inr ct))"
  using assms
  by (auto simp: ephemeral_wrap_def prog_defs device_random_def lift_sum_def Let_def
      split: option.splits if_splits sum.splits)

lemma ephemeral_unwrap_cases:
  assumes "ephemeral_unwrap S opts blob d = (r, d')"
  shows "dv_key d' = dv_key d \<and> dv_objects d' = dv_objects d \<and> (\<forall>k. r = Inr k \<longrightarrow> ephemeral_unwrapped S d blob = Some k)"
  using assms
  by (auto simp: ephemeral_unwrap_def prog_defs biometric_prompt_def when_do_def lift_sum_def Let_def
      ephemeral_unwrapped_def split: option.splits if_splits sum.splits)

lemma wrapped_blob:
  assumes "aead_ok S" "ephemeral_wrap S opts key bio d = (Inr blob, d')"
  shows "ephemeral_unwrapped S d blob = Some key" and "length blob = 29 + length key"
proof -
  obtain wk nonce ct where *: "dv_key d = Some wk" "length nonce = 12" "blob = [if bio then 1 else 0] @ nonce @ ct"
      "aes256_gcm_encrypt S wk nonce key (text_encode wrap_aad_prefix @ [if bio then 1 else 0]) = Inr ct"
    using ephemeral_wrap_cases [OF assms(2)] unfolding Let_def by fastforce
  have l: "length ct = length key + 16" using gcm_length [OF assms(1) *(4)] by simp
  then show "length blob = 29 + length key" using * by simp
  show "ephemeral_unwrapped S d blob = Some key"
    using gcm_round_trip [OF assms(1) *(4)] * l by (simp add: ephemeral_unwrapped_def)
qed

interpretation ephemeral: key_store S "ephemeral_wrap S opts" "ephemeral_unwrap S opts" "ephemeral_unwrapped S"
  for S opts
proof unfold_locales
  fix k b w w' and r :: "string + bytes"
  assume aead: "aead_ok S" and run: "ephemeral_wrap S opts k b w = (r, w')"
  have same: "ephemeral_unwrapped S w' = ephemeral_unwrapped S w"
    using ephemeral_wrap_cases [OF run] by (intro unwrapped_cong) simp
  show "ephemeral_unwrapped S w' = (case r of Inl _ \<Rightarrow> ephemeral_unwrapped S w
      | Inr blob \<Rightarrow> (ephemeral_unwrapped S w)(blob \<mapsto> k))"
  proof (cases r)
    case (Inr blob)
    then have "ephemeral_unwrapped S w blob = Some k" using wrapped_blob(1) [OF aead] run by simp
    then show ?thesis using same Inr by (simp add: fun_upd_idem)
  qed (simp add: same)
next
  fix k b w blob w' assume "aead_ok S" "length k = 32" "ephemeral_wrap S opts k b w = (Inr blob, w')"
  then show "16 \<le> length blob \<and> length blob \<le> 512" using wrapped_blob(2) by fastforce
next
  fix blob w r w' assume "ephemeral_unwrap S opts blob w = (r, w')"
  note ephemeral_unwrap_cases [OF this]
  then show "ephemeral_unwrapped S w' = ephemeral_unwrapped S w \<and> (\<forall>k. r = Inr k \<longrightarrow> ephemeral_unwrapped S w blob = Some k)"
    using unwrapped_cong by blast
qed

lemma ephemeral_leaves:
  "leaves dv_objects (ephemeral_wrap S opts k b)" "leaves dv_objects (ephemeral_unwrap S opts blob)"
  using ephemeral_wrap_cases ephemeral_unwrap_cases by (auto simp: leaves_def) (metis prod.collapse)+

text \<open>No assumption on the libraries is needed: what the reference classes do with encryption is that
  of the suite.\<close>

interpretation reference: vault_platform "reference_deps S B L opts" dv_objects "ephemeral_unwrapped S" L
  for S B L opts
proof unfold_locales
  fix n w found w' assume "vd_read (reference_deps S B L opts) n w = (found, w')"
  then show "dv_objects w' = dv_objects w \<and> (\<forall>x. found = Inr x \<longrightarrow> x = dv_objects w n)"
    by (intro memory.read_law) (simp add: reference_deps_def)
next
  fix n b w r w' assume "vd_write (reference_deps S B L opts) n b w = (r, w')"
  then show "dv_objects w' = (case r of Inl _ \<Rightarrow> dv_objects w | Inr _ \<Rightarrow> (dv_objects w)(n \<mapsto> b))"
    by (intro memory.write_law) (simp add: reference_deps_def)
next
  fix n w r w' assume "vd_delete (reference_deps S B L opts) n w = (r, w')"
  then show "dv_objects w' = (case r of Inl _ \<Rightarrow> dv_objects w | Inr _ \<Rightarrow> (dv_objects w)(n := None))"
    by (intro memory.delete_law) (simp add: reference_deps_def)
next
  fix k b w r w' assume "aead_ok (vd_suite (reference_deps S B L opts))" "vd_wrap (reference_deps S B L opts) k b w = (r, w')"
  then show "ephemeral_unwrapped S w' = (case r of Inl _ \<Rightarrow> ephemeral_unwrapped S w
      | Inr blob \<Rightarrow> (ephemeral_unwrapped S w)(blob \<mapsto> k))"
    by (intro ephemeral.wrap_law) (simp_all add: reference_deps_def)
next
  fix k b w blob w' assume "aead_ok (vd_suite (reference_deps S B L opts))" "length k = 32"
    "vd_wrap (reference_deps S B L opts) k b w = (Inr blob, w')"
  then show "16 \<le> length blob \<and> length blob \<le> 512"
    by (intro ephemeral.blob_size [of S k opts b w blob w']) (simp_all add: reference_deps_def)
next
  fix blob w r w' assume "vd_unwrap (reference_deps S B L opts) blob w = (r, w')"
  then show "ephemeral_unwrapped S w' = ephemeral_unwrapped S w \<and> (\<forall>k. r = Inr k \<longrightarrow> ephemeral_unwrapped S w blob = Some k)"
    by (intro ephemeral.unwrap_law) (simp add: reference_deps_def)
qed (auto simp: reference_deps_def noble_derive_kek_def prog_defs ephemeral_leaves [unfolded leaves_def] leaves_def memory_read_def
    memory_write_def memory_delete_def ephemeral_biometric_available_def ephemeral_delete_key_def device_random_def
    device_clock_def device_interrupted_def max_safe_integer_def intro: unwrapped_cong)

section \<open>Properties\<close>


text \<open>
  C22. Unlocking implements the abstract vault, a function from passwords to secrets that the storage
  determines: over any platform that keeps its contracts it ends unlocked with the key and the seed
  that the stored file gives to the password, and otherwise throws exactly the error of that
  function or the one that the platform threw.
\<close>

theorem unlock_refines_stored_secret:
  assumes platform: "vault_platform D objects unwrapped L"
  shows "wp (unlock D pw)
    (\<lambda>_ v'. \<exists>vek p. stored_secret D L (objects (va_env v)) pw = Inr (vek, p) \<and> va_state v' = Unlocked
      \<and> va_vek v' = Some vek \<and> va_seed v' = Some (sp_seed p) \<and> objects (va_env v') = objects (va_env v))
    (\<lambda>e _. platform_failed e \<or> stored_secret D L (objects (va_env v)) pw = Inl e) v"
proof -
  have h: "vault_platform.stores objects unwrapped (objects (va_env v)) (unwrapped (va_env v)) v"
    by (simp add: vault_platform.stores_def [OF platform])
  show ?thesis
    by (rule wp_mono [OF vault_platform.wp_unlock [OF platform h]])
      (auto simp: vault_platform.stores_def [OF platform])
qed

text \<open>
  C23. A new vault gives its recovery phrase back: after a creation that succeeded, as long as storage
  keeps its objects, revealing with the same password returns exactly the words shown at creation,
  or the platform failed.
\<close>

theorem stored_phrase_comes_back:
  assumes platform: "vault_platform D objects unwrapped L" and aead: "aead_ok (vd_suite D)"
    and opts: "good_options opts" and words: "words = 12 \<or> words = 24"
    and created: "create_with_new_mnemonic D words pw opts v = (Inr phrase, v')"
    and kept: "objects (va_env u) = objects (va_env v')"
  shows "wp (reveal_mnemonic D pw) (\<lambda>revealed _. revealed = phrase) (\<lambda>e _. platform_failed e) u"
proof -
  note P = vault_platform.stores_def [OF platform]
  have v: "vault_platform.stores objects unwrapped (objects (va_env v)) (unwrapped (va_env v)) v" by (simp add: P)
  obtain objs keys entropy where phrase: "phrase = split_spaces (bl_from_entropy (vd_bip39 D) entropy)"
    and sealed: "vault_platform.sealed D objects unwrapped L objs keys pw \<lparr>sp_entropy = entropy,
      sp_seed = bl_seed (vd_bip39 D) (join_spaces phrase) None, sp_has_passphrase = False\<rparr> v'"
    using wp_result [OF vault_platform.wp_create [OF platform v aead opts words] created] by blast
  have u: "vault_platform.stores objects unwrapped objs (unwrapped (va_env u)) u"
    using sealed kept by (simp add: P vault_platform.sealed_def [OF platform])
  show ?thesis
    by (rule wp_mono [OF vault_platform.wp_reveal [OF platform u]])
      (use sealed in \<open>auto simp: vault_platform.sealed_def [OF platform] phrase\<close>)
qed

text \<open>
  An imported phrase is kept whole: after an import that succeeded, as long as storage keeps its
  objects, unlocking with the same password makes live the seed of the imported words with the
  passphrase that was typed (an empty one counts as none), or the platform failed.
\<close>

theorem imported_seed_comes_back:
  assumes platform: "vault_platform D objects unwrapped L" and aead: "aead_ok (vd_suite D)"
    and opts: "good_options opts"
    and imported: "import_mnemonic D ws pw passphrase opts v = (Inr (), v')"
    and kept: "objects (va_env u) = objects (va_env v')"
  shows "wp (unlock D pw) (\<lambda>_ u'. va_seed u' = Some (bl_seed (vd_bip39 D) (join_spaces ws)
      (if passphrase = Some [] then None else passphrase))) (\<lambda>e _. platform_failed e) u"
proof -
  note P = vault_platform.stores_def [OF platform]
  have v: "vault_platform.stores objects unwrapped (objects (va_env v)) (unwrapped (va_env v)) v" by (simp add: P)
  obtain objs keys entropy where sealed: "vault_platform.sealed D objects unwrapped L objs keys pw \<lparr>sp_entropy = entropy,
      sp_seed = bl_seed (vd_bip39 D) (join_spaces ws) (if passphrase = Some [] then None else passphrase),
      sp_has_passphrase = ((if passphrase = Some [] then None else passphrase) \<noteq> None)\<rparr> v'"
    using wp_result [OF vault_platform.wp_import [OF platform v aead opts] imported] by blast
  have u: "vault_platform.stores objects unwrapped objs (unwrapped (va_env u)) u"
    using sealed kept by (simp add: P vault_platform.sealed_def [OF platform])
  show ?thesis
    by (rule wp_mono [OF vault_platform.wp_unlock [OF platform u]])
      (use sealed in \<open>auto simp: vault_platform.sealed_def [OF platform]\<close>)
qed

text \<open>
  C24. Changing the password changes only the password: once it succeeded, the new password opens the
  same key and the same secret that the old one opened before, with the salt, nonces and wrapping
  all fresh.
\<close>

theorem password_change_keeps_secret:
  assumes platform: "vault_platform D objects unwrapped L" and aead: "aead_exact (vd_suite D)"
    and changed: "change_password D old new v = (Inr (), v')"
  shows "stored_secret D L (objects (va_env v')) new = stored_secret D L (objects (va_env v)) old"
proof -
  note P = vault_platform.stores_def [OF platform]
  have v: "vault_platform.stores objects unwrapped (objects (va_env v)) (unwrapped (va_env v)) v" by (simp add: P)
  show ?thesis
    using wp_result [OF vault_platform.wp_change [OF platform v aead] changed]
    by (auto simp: P vault_platform.password_changed_def [OF platform])
qed

text \<open>
  A password change that throws, at whatever step and for whatever reason, has left every stored
  object as it was.
\<close>

theorem failed_password_change_changes_nothing:
  assumes platform: "vault_platform D objects unwrapped L" and aead: "aead_exact (vd_suite D)"
    and failed: "change_password D old new v = (Inl e, v')"
  shows "objects (va_env v') = objects (va_env v)"
proof -
  note P = vault_platform.stores_def [OF platform]
  have v: "vault_platform.stores objects unwrapped (objects (va_env v)) (unwrapped (va_env v)) v" by (simp add: P)
  show ?thesis using wp_error [OF vault_platform.wp_change [OF platform v aead] failed] by (simp add: P)
qed

text \<open>
  Biometric unlock opens the same vault as the password: once biometrics were enabled by a vault
  that the password \<open>pw\<close> opens with the live key, then as long as storage and key store keep what
  they hold, a biometric unlock that succeeds makes the same seed live.
\<close>

theorem biometric_unlock_agrees:
  assumes platform: "vault_platform D objects unwrapped L" and aead: "aead_exact (vd_suite D)"
    and secret: "stored_secret D L (objects (va_env v)) pw = Inr (vek, p)" and live: "va_vek v = Some vek"
    and off: "\<And>f. stored_file (objects (va_env v)) = Inr f \<Longrightarrow> vh_biometric f = None"
    and enabled: "enable_biometrics D v = (Inr (), v')"
    and kept: "objects (va_env u) = objects (va_env v')" "unwrapped (va_env u) = unwrapped (va_env v')"
  shows "wp (unlock_with_biometrics D) (\<lambda>_ u'. va_state u' = Unlocked \<and> va_seed u' = Some (sp_seed p)) (\<lambda>_ _. True) u"
proof -
  note P = vault_platform.stores_def [OF platform]
  have v: "vault_platform.stores objects unwrapped (objects (va_env v)) (unwrapped (va_env v)) v" by (simp add: P)
  obtain objs' blob where u: "vault_platform.stores objects unwrapped objs' ((unwrapped (va_env v))(blob \<mapsto> vek)) v'"
    and changed: "vault_platform.slots_changed D L (objects (va_env v)) objs' vek (Some \<lparr>bs_nonce = None, bs_wrapped = blob\<rparr>)"
    using wp_result [OF vault_platform.wp_enable [OF platform v aead] enabled] off live by auto
  show ?thesis
    by (rule vault_platform.biometric_agrees [OF platform changed, where keys = "unwrapped (va_env u)" and pw = pw])
      (use u kept secret in \<open>auto simp: P\<close>)
qed

text \<open>
  The two ways to the database key agree: after a creation that succeeded, the key that the vault
  derives from the live seed and the one that it unwraps from storage are equal, as long as storage
  and key store keep what they hold.
\<close>

theorem database_keys_agree:
  assumes platform: "vault_platform D objects unwrapped L" and aead: "aead_ok (vd_suite D)"
    and opts: "good_options opts" and words: "words = 12 \<or> words = 24"
    and created: "create_with_new_mnemonic D words pw opts v = (Inr phrase, u)" and typed: "vault_typed (vd_suite D) u"
  shows "wp (get_database_key D) (\<lambda>k u'. wp (unwrap_database_key D) (\<lambda>k' _. k' = k) (\<lambda>_ _. True) u') (\<lambda>_ _. True) u"
proof -
  note P = vault_platform.stores_def [OF platform]
  have v: "vault_platform.stores objects unwrapped (objects (va_env v)) (unwrapped (va_env v)) v" by (simp add: P)
  obtain objs keys p where sealed: "vault_platform.sealed D objects unwrapped L objs keys pw p u"
    using wp_result [OF vault_platform.wp_create [OF platform v aead opts words] created] by blast
  show ?thesis
  proof (rule wp_mono [OF wp_get_database_key [OF typed]])
    fix k and u' :: "'a vault"
    assume "\<exists>sd. va_seed u = Some sd \<and> derive_local_database_key (vd_suite D) sd = Inr k \<and> va_env u' = va_env u"
    then have u': "vault_platform.stores objects unwrapped objs keys u'"
      and k: "derive_local_database_key (vd_suite D) (sp_seed p) = Inr k"
      using sealed by (auto simp: P vault_platform.sealed_def [OF platform])
    show "wp (unwrap_database_key D) (\<lambda>k' _. k' = k) (\<lambda>_ _. True) u'"
      by (rule wp_mono [OF vault_platform.wp_unwrap_database_key [OF platform u']])
        (use sealed k in \<open>auto simp: vault_platform.sealed_def [OF platform]\<close>)
  qed simp
qed

text \<open>
  An edited header opens nothing: if the stored file has the payload of a file \<open>f\<close> under another
  header (another salt, cost, nonce or slot), and the payload authenticates under no data but that of
  \<open>f\<close>, then no password unlocks the vault.
\<close>

theorem edited_header_is_refused:
  assumes platform: "vault_platform D objects unwrapped L"
    and f: "validate_kdf_params (vh_kdf f) = Inr ()" and stored: "stored_file (objects (va_env v)) = Inr g"
    and edited: "vault_header.truncate g \<noteq> vault_header.truncate f" "vf_nonce g = vf_nonce f" "vf_ct g = vf_ct f"
    and authentic: "\<forall>k a. a \<noteq> payload_aad f \<longrightarrow> cy_gcm_decrypt (vd_suite D) k (vf_nonce f) a (vf_ct f) = None"
  shows "wp (unlock D pw) (\<lambda>_ _. False) (\<lambda>_ _. True) v"
proof -
  note P = vault_platform.stores_def [OF platform]
  have v: "vault_platform.stores objects unwrapped (objects (va_env v)) (unwrapped (va_env v)) v" by (simp add: P)
  show ?thesis
    by (rule wp_mono [OF vault_platform.wp_unlock [OF platform v]])
      (use vault_platform.unlock_needs_authentic_header(1) [OF platform f stored edited authentic] in auto)
qed

text \<open>
  A wipe that fails leaves a vault that can neither be used nor set up again: if any step of the
  wipe of an initialized vault throws, every later creation is refused as already initialized,
  although the stored objects may be gone and the secrets are.
\<close>

theorem failed_wipe_blocks_creation:
  assumes initialized: "va_state v \<noteq> Uninitialized" and failed: "wipe D v = (Inl e, v')"
  shows "wp (create_with_new_mnemonic D words pw opts) (\<lambda>_ _. False)
    (\<lambda>e _. e = VaultError AlreadyInitialized \<or> platform_failed e) v'"
  by (rule creation_needs_uninitialized) (rule wp_error [OF failed_wipe_state [OF initialized] failed])

text \<open>
  The confirmation quiz asks well-formed questions: the positions are ascending and distinct, lie
  within the phrase, and there are as many as were asked for, at least one and at most one per word,
  whatever the random generator yields.
\<close>

theorem quiz_positions_well_formed:
  "wp (generate_mnemonic_quiz D n)
     (\<lambda>ps _. \<exists>entropy. quiz_for (length (split_spaces (bl_from_entropy (vd_bip39 D) entropy))) n ps) (\<lambda>_ _. True) v"
  by (rule wp_quiz)

section \<open>Witnesses\<close>

text \<open>A suite that is exact, with the tag as a function of the authenticated data.\<close>

definition tagged_suite :: "(bytes \<Rightarrow> bytes) \<Rightarrow> crypto_suite" where
  "tagged_suite tag = sample_suite \<lparr>cy_gcm_encrypt := (\<lambda>k n a p. p @ tag a),
     cy_gcm_decrypt := (\<lambda>k n a c. if 16 \<le> length c \<and> drop (length c - 16) c = tag a
       then Some (take (length c - 16) c) else None)\<rparr>"

lemma tagged_suite_exact: "\<forall>a. length (tag a) = 16 \<Longrightarrow> aead_exact (tagged_suite tag)"
  unfolding aead_exact_def aead_ok_def tagged_suite_def by (auto split: if_splits) (metis append_take_drop_id)

definition plain_suite :: crypto_suite where
  "plain_suite = tagged_suite (\<lambda>_. replicate 16 0)"

lemma plain_suite_exact: "aead_exact plain_suite"
  by (simp add: plain_suite_def tagged_suite_exact)

lemma plain_suite_ok: "aead_ok plain_suite"
  using plain_suite_exact by (simp add: aead_exact_def)

lemma plain_encrypt [simp]:
  "length k = 32 \<Longrightarrow> length n = 12 \<Longrightarrow> aes256_gcm_encrypt plain_suite k n p a = Inr (p @ replicate 16 0)"
  by (simp add: aes256_gcm_encrypt_def plain_suite_def tagged_suite_def sum_bind_def check_key_and_nonce_def)

lemma plain_decrypt [simp]:
  "length k = 32 \<Longrightarrow> length n = 12 \<Longrightarrow> aes256_gcm_decrypt plain_suite k n (p @ replicate 16 0) a = Inr p"
  by (rule gcm_round_trip [OF plain_suite_ok]) simp

definition sample_bip39 :: bip39_library where
  "sample_bip39 = \<lparr>bl_from_entropy = (\<lambda>e. [97, 32, 98]), bl_to_entropy = (\<lambda>w. Some (replicate 16 1)),
     bl_validate = (\<lambda>w. w \<noteq> []), bl_seed = (\<lambda>w p. replicate 64 7)\<rparr>"

definition sample_kdf :: kdf_library where
  "sample_kdf = \<lparr>kl_argon2id = (\<lambda>pw salt m t p n. replicate n 2), kl_scrypt = (\<lambda>pw salt nn r p n. replicate n 3)\<rparr>"

definition sample_keystore :: keystore_options where
  "sample_keystore = \<lparr>ko_biometric = True, ko_prompt = True\<rparr>"

definition vault_sample_deps :: "device vault_deps" where
  "vault_sample_deps = reference_deps plain_suite sample_bip39 sample_kdf sample_keystore"

definition sample_options :: create_options where
  "sample_options = \<lparr>co_kdf = None, co_auto_lock = None, co_fixed = None\<rparr>"

definition vault_sample_device :: "(string \<Rightarrow> bytes option) \<Rightarrow> device" where
  "vault_sample_device objs = \<lparr>dv_objects = objs, dv_key = Some (replicate 32 9), dv_entropy = (\<lambda>_. 4), dv_used = 0,
     dv_times = (\<lambda>_. 1000), dv_prompts = (\<lambda>_. Inr True), dv_interrupts = (\<lambda>_. False), dv_steps = 0\<rparr>"

definition sample_vault :: "vault_state \<Rightarrow> (string \<Rightarrow> bytes option) \<Rightarrow> device vault" where
  "sample_vault st objs = \<lparr>va_state = st, va_vek = (if st = Unlocked then Some (replicate 32 5) else None),
     va_seed = (if st = Unlocked then Some (replicate 64 7) else None), va_db_key = None, va_auto_lock = 300,
     va_deadline = (if st = Unlocked then Some 0 else None), va_env = vault_sample_device objs\<rparr>"

lemma sample_platform: "vault_platform vault_sample_deps dv_objects (ephemeral_unwrapped plain_suite) sample_kdf"
  unfolding vault_sample_deps_def by (rule reference.vault_platform_axioms)

lemma vault_sample_sel [simp]:
  "vd_suite vault_sample_deps = plain_suite" "vd_bip39 vault_sample_deps = sample_bip39" "vd_read vault_sample_deps = memory_read"
  "vd_write vault_sample_deps = memory_write" "vd_delete vault_sample_deps = memory_delete"
  "vd_wrap vault_sample_deps = ephemeral_wrap plain_suite sample_keystore"
  "vd_unwrap vault_sample_deps = ephemeral_unwrap plain_suite sample_keystore"
  "vd_biometric_available vault_sample_deps = ephemeral_biometric_available sample_keystore"
  "vd_derive_kek vault_sample_deps = noble_derive_kek sample_kdf" "vd_random vault_sample_deps = device_random"
  "vd_clock vault_sample_deps = device_clock" "vd_interrupted vault_sample_deps = device_interrupted"
  by (simp_all add: vault_sample_deps_def reference_deps_def)

lemma sample_options_good: "good_options sample_options"
  by (simp add: good_options_def sample_options_def or_default_def default_auto_lock_seconds_def fixed_of_def
      no_fixed_inputs_def Let_def)

lemmas vault_calls = memory_read_def memory_write_def ephemeral_wrap_def
  ephemeral_unwrap_def ephemeral_biometric_available_def noble_derive_kek_def device_random_def device_clock_def
  device_interrupted_def biometric_prompt_def prog_defs lift_sum_def fixed_or_def map_error_def

text \<open>Evaluation of a program from its first step on.\<close>

lemma first_step_cong: "m = m' \<Longrightarrow> andthen m f = andthen m' f" "m = m' \<Longrightarrow> catching m h = catching m' h"
  by simp_all

lemma sample_creation:
  "\<exists>v'. create_with_new_mnemonic vault_sample_deps 12 [112] sample_options (sample_vault Uninitialized (\<lambda>_. None))
     = (Inr [[97], [98]], v')"
  by (simp add: create_with_new_mnemonic_def assert_can_initialize_def build_vault_def awaits_def draw_def date_now_def
      vault_calls sample_keystore_def sample_bip39_def sample_options_def sample_vault_def vault_sample_device_def Let_def
      fixed_of_def no_fixed_inputs_def kdf_salt_bytes_def resolve_kdf_params_def validate_kdf_params_def derive_kek_def
      sample_kdf_def kek_bytes_def vek_bytes_def encode_secret_payload_def seed_bytes_def derive_local_database_key_def
      set_unlocked_def start_auto_lock_timer_def split_spaces_def map_replicate_const
      del: upt_rec_numeral cong: first_step_cong)

lemmas vault_run = awaits_def draw_def date_now_def vault_calls sample_keystore_def sample_vault_def vault_sample_device_def
  Let_def kdf_salt_bytes_def vek_bytes_def map_replicate_const

text \<open>A stored vault: its payload, its file and the objects that hold it.\<close>

definition sample_secret :: secret_payload where
  "sample_secret = \<lparr>sp_entropy = replicate 16 1, sp_seed = replicate 64 7, sp_has_passphrase = False\<rparr>"

definition sample_plain :: bytes where
  "sample_plain = word_of_nat 16 # replicate 16 1 @ replicate 64 7 @ [0]"

definition sealed_sample :: vault_file where
  "sealed_sample = \<lparr>vh_kdf = default_kdf_params (replicate 16 0),
     vh_password = \<lparr>ws_nonce = replicate 12 0, ws_wrapped = replicate 32 5 @ replicate 16 0\<rparr>,
     vh_biometric = None, vf_nonce = replicate 12 0, vf_ct = sample_plain @ replicate 16 0,
     vf_meta = \<lparr>vm_created_at = 0, vm_word_count = 12, vm_has_passphrase = False, vm_auto_lock = 300\<rparr>\<rparr>"

definition sample_objects :: "string \<Rightarrow> bytes option" where
  "sample_objects = (\<lambda>_. None)(vault_file_name \<mapsto> serialize_vault_file sealed_sample)"

lemma sealed_sample_parses: "parse_vault_file (serialize_vault_file sealed_sample) = Inr sealed_sample"
  by (rule parse_serialized)
    (simp add: sealed_sample_def sample_plain_def vault_file_ok_def default_kdf_params_def validated_kdf wrap_slot_ok_def
      biometric_slot_ok_def meta_ok_def max_safe_integer_def secret_payload_bytes_def seed_bytes_def)

lemma sample_stored: "stored_file sample_objects = Inr sealed_sample"
  by (simp add: stored_file_def sample_objects_def sealed_sample_parses)

lemma sample_plain_encodes: "encode_secret_payload sample_secret = Inr sample_plain"
  by (simp add: encode_secret_payload_Inr sample_secret_def sample_plain_def)

lemma sample_opens: "stored_secret vault_sample_deps sample_kdf sample_objects pw = Inr (replicate 32 5, sample_secret)"
proof -
  have "open_file vault_sample_deps sample_kdf sealed_sample pw = Inr (replicate 32 5, sample_secret)"
    by (rule sealed_file_opens [OF _ _ _ sample_plain_encodes])
      (simp_all add: plain_suite_ok sealed_sample_def default_kdf_params_def derive_kek_def sample_kdf_def kek_bytes_def)
  then show ?thesis by (simp add: stored_secret_def sample_stored)
qed

lemma sample_reads: "dv_objects (va_env v) = sample_objects \<Longrightarrow> dv_interrupts (va_env v) = (\<lambda>_. False) \<Longrightarrow>
    read_vault_file vault_sample_deps v = (Inr sealed_sample, v\<lparr>va_env := (va_env v)\<lparr>dv_steps := dv_steps (va_env v) + 1\<rparr>\<rparr>)"
  by (simp add: read_vault_file_def vault_run sealed_sample_parses vault_file_name_def sample_objects_def
      cong: first_step_cong)

lemma sample_change: "\<exists>v'. change_password vault_sample_deps old new (sample_vault Locked sample_objects) = (Inr (), v')"
proof -
  have slot: "unwrap_password_slot vault_sample_deps sealed_sample (replicate 32 2) = Inr (replicate 32 5)"
    by (simp add: unwrap_password_slot_def sealed_sample_def map_error_def)
  have plain: "decrypt_payload_bytes vault_sample_deps sealed_sample (Some (replicate 32 5)) WrongPassword = Inr sample_plain"
    by (simp add: decrypt_payload_bytes_def sealed_sample_def map_error_def)
  have kdf: "vh_kdf sealed_sample = default_kdf_params (replicate 16 0)" by (simp add: sealed_sample_def)
  show ?thesis
    unfolding change_password_def
    by (simp add: vault_run sample_reads slot plain kdf derive_kek_def default_kdf_params_def
        sample_kdf_def kek_bytes_def cong: first_step_cong del: upt_rec_numeral)
qed

lemma sample_import:
  "\<exists>v'. import_mnemonic vault_sample_deps [[97], [98]] [112] (Some []) sample_options (sample_vault Uninitialized (\<lambda>_. None))
     = (Inr (), v')"
  by (simp add: import_mnemonic_def assert_can_initialize_def build_vault_def vault_run sample_bip39_def
      sample_options_def fixed_of_def no_fixed_inputs_def resolve_kdf_params_def validate_kdf_params_def derive_kek_def
      sample_kdf_def kek_bytes_def encode_secret_payload_def seed_bytes_def derive_local_database_key_def
      set_unlocked_def start_auto_lock_timer_def del: upt_rec_numeral cong: first_step_cong)

lemma sample_enable:
  "\<exists>v'. enable_biometrics vault_sample_deps (sample_vault Unlocked sample_objects) = (Inr (), v')"
proof -
  have plain: "decrypt_payload_bytes vault_sample_deps sealed_sample (Some (replicate 32 5)) CorruptVault = Inr sample_plain"
    by (simp add: decrypt_payload_bytes_def sealed_sample_def map_error_def)
  have off: "vh_biometric sealed_sample = None" by (simp add: sealed_sample_def)
  show ?thesis
    by (simp add: enable_biometrics_def assert_unlocked_def require_vek_def rewrite_slots_def vault_run sample_reads
        plain off del: upt_rec_numeral cong: first_step_cong)
qed

lemma failing_wipe:
  "\<exists>v'. wipe (vault_sample_deps \<lparr>vd_delete_key := throw ''busy''\<rparr>) (sample_vault Unlocked sample_objects)
     = (Inl (VaultError KeystoreError), v')"
  by (simp add: wipe_def vault_run memory_delete_def del: upt_rec_numeral cong: first_step_cong)

text \<open>Every operation starts from a vault that was opened over the storage.\<close>

lemma sample_opened: "reachable_vault vault_sample_deps (sample_vault Locked sample_objects)"
proof (rule reachable_vault.opened)
  show "open_vault vault_sample_deps (vault_sample_device sample_objects) = (Inr (sample_vault Locked sample_objects), vault_sample_device sample_objects)"
    by (simp add: open_vault_def vault_run sample_objects_def default_auto_lock_seconds_def vault_file_name_def
        cong: first_step_cong)
qed


theorem unlock_refines_stored_secret_witness:
  "wp (unlock vault_sample_deps [112])
    (\<lambda>_ v'. \<exists>vek p. stored_secret vault_sample_deps sample_kdf sample_objects [112] = Inr (vek, p) \<and> va_state v' = Unlocked
      \<and> va_vek v' = Some vek \<and> va_seed v' = Some (sp_seed p) \<and> dv_objects (va_env v') = sample_objects)
    (\<lambda>e _. platform_failed e \<or> stored_secret vault_sample_deps sample_kdf sample_objects [112] = Inl e)
    (sample_vault Locked sample_objects)"
  using unlock_refines_stored_secret [OF sample_platform, of "[112]" "sample_vault Locked sample_objects"]
  by (simp add: sample_vault_def vault_sample_device_def)

theorem stored_phrase_comes_back_witness:
  "\<exists>v'. create_with_new_mnemonic vault_sample_deps 12 [112] sample_options (sample_vault Uninitialized (\<lambda>_. None)) = (Inr [[97], [98]], v')
     \<and> wp (reveal_mnemonic vault_sample_deps [112]) (\<lambda>revealed _. revealed = [[97], [98]]) (\<lambda>e _. platform_failed e) v'"
proof -
  obtain v' where run: "create_with_new_mnemonic vault_sample_deps 12 [112] sample_options (sample_vault Uninitialized (\<lambda>_. None)) = (Inr [[97], [98]], v')"
    using sample_creation by blast
  moreover have "wp (reveal_mnemonic vault_sample_deps [112]) (\<lambda>revealed _. revealed = [[97], [98]]) (\<lambda>e _. platform_failed e) v'"
    by (rule stored_phrase_comes_back [OF sample_platform _ sample_options_good _ run]) (simp_all add: plain_suite_ok)
  ultimately show ?thesis by blast
qed

theorem imported_seed_comes_back_witness:
  "\<exists>v'. wp (unlock vault_sample_deps [112]) (\<lambda>_ u'. va_seed u' = Some (replicate 64 7)) (\<lambda>e _. platform_failed e) v'"
proof -
  obtain v' where "import_mnemonic vault_sample_deps [[97], [98]] [112] (Some []) sample_options (sample_vault Uninitialized (\<lambda>_. None)) = (Inr (), v')"
    using sample_import by blast
  from imported_seed_comes_back [OF sample_platform _ sample_options_good this, of v']
  show ?thesis by (auto simp: plain_suite_ok sample_bip39_def)
qed

theorem password_change_keeps_secret_witness:
  "\<exists>v'. change_password vault_sample_deps [112] [113] (sample_vault Locked sample_objects) = (Inr (), v')
     \<and> stored_secret vault_sample_deps sample_kdf (dv_objects (va_env v')) [113] = Inr (replicate 32 5, sample_secret)"
proof -
  obtain v' where run: "change_password vault_sample_deps [112] [113] (sample_vault Locked sample_objects) = (Inr (), v')"
    using sample_change by blast
  from password_change_keeps_secret [OF sample_platform _ run] run
  show ?thesis by (auto simp: plain_suite_exact sample_vault_def vault_sample_device_def sample_opens)
qed

theorem failed_password_change_changes_nothing_witness:
  "\<exists>e v'. change_password vault_sample_deps [112] [113] (sample_vault Uninitialized (\<lambda>_. None)) = (Inl e, v')
     \<and> dv_objects (va_env v') = (\<lambda>_. None)"
proof -
  obtain e v' where run: "change_password vault_sample_deps [112] [113] (sample_vault Uninitialized (\<lambda>_. None)) = (Inl e, v')"
    by (auto simp: change_password_def read_vault_file_def vault_run cong: first_step_cong)
  from failed_password_change_changes_nothing [OF sample_platform _ run] run
  show ?thesis by (auto simp: plain_suite_exact sample_vault_def vault_sample_device_def)
qed

theorem biometric_unlock_agrees_witness:
  "\<exists>v'. enable_biometrics vault_sample_deps (sample_vault Unlocked sample_objects) = (Inr (), v')
     \<and> wp (unlock_with_biometrics vault_sample_deps) (\<lambda>_ u'. va_state u' = Unlocked \<and> va_seed u' = Some (replicate 64 7)) (\<lambda>_ _. True) v'"
proof -
  obtain v' where run: "enable_biometrics vault_sample_deps (sample_vault Unlocked sample_objects) = (Inr (), v')"
    using sample_enable by blast
  have "wp (unlock_with_biometrics vault_sample_deps) (\<lambda>_ u'. va_state u' = Unlocked \<and> va_seed u' = Some (sp_seed sample_secret)) (\<lambda>_ _. True) v'"
    by (rule biometric_unlock_agrees [OF sample_platform _ _ _ _ run, where vek = "replicate 32 5" and pw = "[112]"])
      (auto simp: plain_suite_exact sample_vault_def vault_sample_device_def sample_opens sample_stored sealed_sample_def)
  with run show ?thesis by (simp add: sample_secret_def)
qed

theorem database_keys_agree_witness:
  "\<exists>u. wp (get_database_key vault_sample_deps) (\<lambda>k u'. wp (unwrap_database_key vault_sample_deps) (\<lambda>k' _. k' = k) (\<lambda>_ _. True) u') (\<lambda>_ _. True) u"
proof -
  obtain u where run: "create_with_new_mnemonic vault_sample_deps 12 [112] sample_options (sample_vault Uninitialized (\<lambda>_. None)) = (Inr [[97], [98]], u)"
    using sample_creation by blast
  have "vault_typed (vd_suite vault_sample_deps) (sample_vault Uninitialized (\<lambda>_. None))"
    by (simp add: vault_typed_def sample_vault_def)
  then have "vault_typed (vd_suite vault_sample_deps) u" using keepsD [OF typed_creation(1)] run by (metis snd_conv)
  from database_keys_agree [OF sample_platform _ sample_options_good _ run this]
  show ?thesis by (auto simp: plain_suite_ok)
qed

theorem failed_wipe_blocks_creation_witness:
  "\<exists>v'. wp (create_with_new_mnemonic (vault_sample_deps \<lparr>vd_delete_key := throw ''busy''\<rparr>) 12 [112] sample_options) (\<lambda>_ _. False)
     (\<lambda>e _. e = VaultError AlreadyInitialized \<or> platform_failed e) v'"
proof -
  obtain v' where run: "wipe (vault_sample_deps \<lparr>vd_delete_key := throw ''busy''\<rparr>) (sample_vault Unlocked sample_objects)
      = (Inl (VaultError KeystoreError), v')"
    using failing_wipe by blast
  show ?thesis by (rule exI, rule failed_wipe_blocks_creation [OF _ run]) (simp add: sample_vault_def)
qed

text \<open>A file sealed under the tag of its own header, and the same file with another salt.\<close>

definition genuine_file :: vault_file where
  "genuine_file = sealed_sample \<lparr>vf_ct := sample_plain @ replicate 16 1\<rparr>"

definition edited_file :: vault_file where
  "edited_file = genuine_file \<lparr>vh_kdf := default_kdf_params (replicate 16 1)\<rparr>"

definition tag_of_genuine :: "bytes \<Rightarrow> bytes" where
  "tag_of_genuine a = (if a = payload_aad genuine_file then replicate 16 1 else replicate 16 0)"

theorem edited_header_is_refused_witness:
  "wp (unlock (reference_deps (tagged_suite tag_of_genuine) sample_bip39 sample_kdf sample_keystore) [112]) (\<lambda>_ _. False) (\<lambda>_ _. True)
    (sample_vault Locked ((\<lambda>_. None)(vault_file_name \<mapsto> serialize_vault_file edited_file)))"
proof (rule edited_header_is_refused [where f = genuine_file and g = edited_file])
  show "vault_platform (reference_deps (tagged_suite tag_of_genuine) sample_bip39 sample_kdf sample_keystore) dv_objects
      (ephemeral_unwrapped (tagged_suite tag_of_genuine)) sample_kdf"
    by (rule reference.vault_platform_axioms)
  show "validate_kdf_params (vh_kdf genuine_file) = Inr ()"
    by (simp add: genuine_file_def sealed_sample_def default_kdf_params_def validated_kdf)
  have "vault_file_ok edited_file"
    by (simp add: edited_file_def genuine_file_def sealed_sample_def sample_plain_def vault_file_ok_def
        default_kdf_params_def validated_kdf wrap_slot_ok_def biometric_slot_ok_def meta_ok_def max_safe_integer_def
        secret_payload_bytes_def seed_bytes_def)
  from stored_serialized [OF this, of "\<lambda>_. None"]
  show "stored_file (dv_objects (va_env (sample_vault Locked ((\<lambda>_. None)(vault_file_name \<mapsto> serialize_vault_file edited_file)))))
      = Inr edited_file"
    by (simp add: sample_vault_def vault_sample_device_def)
  show "vault_header.truncate edited_file \<noteq> vault_header.truncate genuine_file"
    by (simp add: vault_header.defs edited_file_def genuine_file_def sealed_sample_def default_kdf_params_def
        replicate_eq_replicate)
  show "\<forall>k a. a \<noteq> payload_aad genuine_file \<longrightarrow> cy_gcm_decrypt (vd_suite (reference_deps (tagged_suite tag_of_genuine)
      sample_bip39 sample_kdf sample_keystore)) k (vf_nonce genuine_file) a (vf_ct genuine_file) = None"
    by (simp add: reference_deps_def tagged_suite_def tag_of_genuine_def genuine_file_def replicate_eq_replicate)
qed (simp_all add: edited_file_def)

end
