(* ===== verification/Cemp_Client.thy ===== *)
theory Cemp_Client
  imports Cemp_Wallet Cemp_Incoming Cemp_Json
begin

text \<open>
  packages/cemp-ckb/src/client.ts with types.ts and providers.ts: the JSON-RPC client. Every answer
  of a node or an indexer is a JSON value of which nothing is known; the parsers turn it into the
  records of types.ts or throw a \<open>CempCkbError\<close>.

  An expression of type \<open>unknown\<close> is a JSON value or undefined (\<open>None\<close>). The contexts of the errors
  are those of the code; their details leave out the clipped preview of the offending value. Free
  texts (cursors, reasons) are code points until they reach the records of the other theories,
  which hold them as the characters of their UTF-8 bytes.
\<close>

section \<open>Shape guards\<close>

type_synonym unknown = "jvalue option"
type_synonym members = "(code_points \<times> jvalue) list"

definition shape :: "string \<Rightarrow> string \<Rightarrow> failure + 'a" where
  "shape ctx detail = Inl (CkbError ctx detail)"

definition prop_of :: "members \<Rightarrow> string \<Rightarrow> unknown" where
  "prop_of ms name = map_of ms (points name)"

definition as_record :: "unknown \<Rightarrow> string \<Rightarrow> failure + members" where
  "as_record v ctx = (case v of Some (Jobj ms) \<Rightarrow> Inr ms | _ \<Rightarrow> shape ctx ''expected an object'')"

definition as_array :: "unknown \<Rightarrow> string \<Rightarrow> failure + jvalue list" where
  "as_array v ctx = (case v of Some (Jarr vs) \<Rightarrow> Inr vs | _ \<Rightarrow> shape ctx ''expected an array'')"

definition as_text :: "unknown \<Rightarrow> string \<Rightarrow> failure + code_points" where
  "as_text v ctx = (case v of Some (Jstr t) \<Rightarrow> Inr t | _ \<Rightarrow> shape ctx ''expected a string'')"

text \<open>The regular expressions of the code match ASCII texts only.\<close>

definition ascii :: "code_points \<Rightarrow> string option" where
  "ascii t = (if \<forall>c \<in> set t. c < 128 then Some (map char_of t) else None)"

definition hex_bytes :: "string \<Rightarrow> bool" where
  "hex_bytes s \<longleftrightarrow> take 2 s = ''0x'' \<and> length s mod 2 = 0 \<and> list_all is_hex (drop 2 s)"

definition hex_quantity :: "string \<Rightarrow> bool" where
  "hex_quantity s \<longleftrightarrow> take 2 s = ''0x'' \<and> 2 < length s \<and> list_all is_hex (drop 2 s)"

definition as_matching :: "(string \<Rightarrow> bool) \<Rightarrow> string \<Rightarrow> unknown \<Rightarrow> string \<Rightarrow> failure + string" where
  "as_matching matches detail v ctx =
     sum_bind (as_text v ctx) (\<lambda>t. case ascii t of
       Some s \<Rightarrow> if matches s then Inr s else shape ctx detail
     | None \<Rightarrow> shape ctx detail)"

definition as_hex :: "unknown \<Rightarrow> string \<Rightarrow> failure + string" where
  "as_hex = as_matching hex_bytes ''expected 0x-prefixed even-length hex''"

definition as_quantity_hex :: "unknown \<Rightarrow> string \<Rightarrow> failure + string" where
  "as_quantity_hex = as_matching hex_quantity ''expected a 0x-prefixed hex quantity''"

definition as_hash :: "unknown \<Rightarrow> string \<Rightarrow> failure + string" where
  "as_hash v ctx = sum_bind (as_hex v ctx) (\<lambda>s.
     if length s \<noteq> 66 then shape ctx ''expected a 32-byte hash'' else Inr s)"

text \<open>\<open>BigInt\<close> on a hex quantity.\<close>

definition big_int :: "string \<Rightarrow> nat" where
  "big_int s = foldl (\<lambda>n c. 16 * n + the (hex_value c)) 0 (drop 2 s)"

definition u64_max :: nat where
  "u64_max = 0xffffffffffffffff"

definition u32_max :: nat where
  "u32_max = 0xffffffff"

definition as_u64_hex :: "unknown \<Rightarrow> string \<Rightarrow> failure + string \<times> nat" where
  "as_u64_hex v ctx = sum_bind (as_quantity_hex v ctx) (\<lambda>s.
     if big_int s > u64_max then shape ctx ''hex quantity exceeds uint64'' else Inr (s, big_int s))"

definition u64_text :: "unknown \<Rightarrow> string \<Rightarrow> failure + string" where
  "u64_text v ctx = sum_bind (as_u64_hex v ctx) (\<lambda>(s, n). Inr s)"

definition hash_types :: "string list" where
  "hash_types = [''type'', ''data'', ''data1'', ''data2'']"

definition as_hash_type :: "unknown \<Rightarrow> string \<Rightarrow> failure + string" where
  "as_hash_type = as_matching (\<lambda>s. s \<in> set hash_types) ''unknown hash_type''"

section \<open>Records of the wire\<close>

record out_point =
  op_tx_hash :: string
  op_index :: string

datatype dep_type = DepCode | DepGroup

record cell_dep =
  cd_out_point :: out_point
  cd_dep_type :: dep_type

record cell_input =
  in_previous :: out_point
  in_since :: string

record wire_output =
  wo_capacity :: string
  wo_lock :: script
  wo_type :: "script option"

record wire_cell =
  ce_out_point :: out_point
  ce_output :: wire_output
  ce_data :: string
  ce_block_number :: "string option"

record transaction =
  tx_version :: string
  tx_cell_deps :: "cell_dep list"
  tx_header_deps :: "string list"
  tx_inputs :: "cell_input list"
  tx_outputs :: "wire_output list"
  tx_outputs_data :: "string list"
  tx_witnesses :: "string list"

record chain_header =
  he_number :: string
  he_epoch :: string
  he_timestamp :: string
  he_hash :: string

record wire_page =
  pa_cells :: "wire_cell list"
  pa_cursor :: code_points

record wire_indexed_tx =
  wx_tx_hash :: string
  wx_block_number :: string
  wx_tx_index :: string
  wx_is_input :: bool
  wx_io_index :: string

record wire_tx_page =
  wq_transactions :: "wire_indexed_tx list"
  wq_cursor :: code_points

datatype live_cell_status = CellLive wire_cell | CellDead out_point | CellUnknown out_point

section \<open>Parsers\<close>

definition parse_script :: "unknown \<Rightarrow> string \<Rightarrow> failure + script" where
  "parse_script v ctx =
     sum_bind (as_record v ctx) (\<lambda>r.
     sum_bind (as_hash (prop_of r ''code_hash'') (ctx @ ''.code_hash'')) (\<lambda>code.
     sum_bind (as_hash_type (prop_of r ''hash_type'') (ctx @ ''.hash_type'')) (\<lambda>ht.
     sum_bind (as_hex (prop_of r ''args'') (ctx @ ''.args'')) (\<lambda>args.
     Inr \<lparr>sc_code_hash = code, sc_hash_type = ht, sc_args = args\<rparr>))))"

text \<open>A quantity that has to fit 32 bits, and the fields of an out point: its index is read first.\<close>

definition u32_index_hex :: "unknown \<Rightarrow> string \<Rightarrow> failure + string" where
  "u32_index_hex v ctx = sum_bind (as_u64_hex v ctx) (\<lambda>(s, n).
     if n > u32_max then shape ctx ''out-point index exceeds uint32'' else Inr s)"

definition parse_out_point :: "unknown \<Rightarrow> string \<Rightarrow> failure + out_point" where
  "parse_out_point v ctx =
     sum_bind (as_record v ctx) (\<lambda>r.
     sum_bind (u32_index_hex (prop_of r ''index'') (ctx @ ''.index'')) (\<lambda>i.
     sum_bind (as_hash (prop_of r ''tx_hash'') (ctx @ ''.tx_hash'')) (\<lambda>h.
     Inr \<lparr>op_tx_hash = h, op_index = i\<rparr>)))"

text \<open>A field that is a script, null or missing.\<close>

definition optional_script ::
  "(unknown \<Rightarrow> string \<Rightarrow> failure + script) \<Rightarrow> unknown \<Rightarrow> string \<Rightarrow> failure + script option" where
  "optional_script parse v ctx =
     (if v = None \<or> v = Some Jnull then Inr None
      else sum_bind (parse v ctx) (\<lambda>s. Inr (Some s)))"

definition parse_cell_output :: "unknown \<Rightarrow> string \<Rightarrow> failure + wire_output" where
  "parse_cell_output v ctx =
     sum_bind (as_record v ctx) (\<lambda>r.
     sum_bind (u64_text (prop_of r ''capacity'') (ctx @ ''.capacity'')) (\<lambda>capacity.
     sum_bind (optional_script parse_script (prop_of r ''type'') (ctx @ ''.type'')) (\<lambda>ty.
     sum_bind (parse_script (prop_of r ''lock'') (ctx @ ''.lock'')) (\<lambda>lock.
     Inr \<lparr>wo_capacity = capacity, wo_lock = lock, wo_type = ty\<rparr>))))"

definition parse_indexer_cell :: "unknown \<Rightarrow> string \<Rightarrow> failure + wire_cell" where
  "parse_indexer_cell v ctx =
     sum_bind (as_record v ctx) (\<lambda>r.
     sum_bind
       (if prop_of r ''output_data'' \<in> {None, Some Jnull} then Inr ''0x''
        else as_hex (prop_of r ''output_data'') (ctx @ ''.output_data'')) (\<lambda>data.
     sum_bind (parse_out_point (prop_of r ''out_point'') (ctx @ ''.out_point'')) (\<lambda>op.
     sum_bind (parse_cell_output (prop_of r ''output'') (ctx @ ''.output'')) (\<lambda>output.
     sum_bind (u64_text (prop_of r ''block_number'') (ctx @ ''.block_number'')) (\<lambda>number.
     Inr \<lparr>ce_out_point = op, ce_output = output, ce_data = data, ce_block_number = Some number\<rparr>)))))"

text \<open>\<open>items.map((item, i) => f(item, ctx[i]))\<close>: the first throw ends it.\<close>

fun parse_each ::
  "(unknown \<Rightarrow> string \<Rightarrow> failure + 'b) \<Rightarrow> string \<Rightarrow> nat \<Rightarrow> jvalue list \<Rightarrow> failure + 'b list" where
  "parse_each f ctx i [] = Inr []"
| "parse_each f ctx i (v # vs) =
     sum_bind (f (Some v) (ctx @ ''['' @ decimal i @ '']'')) (\<lambda>x.
     sum_bind (parse_each f ctx (Suc i) vs) (\<lambda>xs. Inr (x # xs)))"

definition parse_cells_page :: "unknown \<Rightarrow> failure + wire_page" where
  "parse_cells_page v =
     sum_bind (as_record v ''get_cells result'') (\<lambda>r.
     sum_bind (as_text (prop_of r ''last_cursor'') ''get_cells result.last_cursor'') (\<lambda>cursor.
     sum_bind (as_array (prop_of r ''objects'') ''get_cells result.objects'') (\<lambda>objects.
     sum_bind (parse_each parse_indexer_cell ''get_cells objects'' 0 objects) (\<lambda>cells.
     Inr \<lparr>pa_cells = cells, pa_cursor = cursor\<rparr>))))"

definition parse_indexed_tx :: "unknown \<Rightarrow> string \<Rightarrow> failure + wire_indexed_tx" where
  "parse_indexed_tx v ctx =
     sum_bind (as_record v ctx) (\<lambda>tx.
     sum_bind (as_text (prop_of tx ''io_type'') (ctx @ ''.io_type'')) (\<lambda>io.
     if io \<noteq> points ''input'' \<and> io \<noteq> points ''output''
     then shape (ctx @ ''.io_type'') ''expected input or output''
     else
       sum_bind (as_hash (prop_of tx ''tx_hash'') (ctx @ ''.tx_hash'')) (\<lambda>h.
       sum_bind (u64_text (prop_of tx ''block_number'') (ctx @ ''.block_number'')) (\<lambda>number.
       sum_bind (u64_text (prop_of tx ''tx_index'') (ctx @ ''.tx_index'')) (\<lambda>tx_index.
       sum_bind (u64_text (prop_of tx ''io_index'') (ctx @ ''.io_index'')) (\<lambda>io_index.
       Inr \<lparr>wx_tx_hash = h, wx_block_number = number, wx_tx_index = tx_index,
            wx_is_input = (io = points ''input''), wx_io_index = io_index\<rparr>))))))"

definition parse_transactions_page :: "unknown \<Rightarrow> failure + wire_tx_page" where
  "parse_transactions_page v =
     sum_bind (as_record v ''get_transactions result'') (\<lambda>r.
     sum_bind (as_text (prop_of r ''last_cursor'') ''get_transactions result.last_cursor'') (\<lambda>cursor.
     sum_bind (as_array (prop_of r ''objects'') ''get_transactions result.objects'') (\<lambda>objects.
     sum_bind (parse_each parse_indexed_tx ''get_transactions objects'' 0 objects) (\<lambda>txs.
     Inr \<lparr>wq_transactions = txs, wq_cursor = cursor\<rparr>))))"

definition parse_tip_header :: "unknown \<Rightarrow> failure + chain_header" where
  "parse_tip_header v =
     (let ctx = ''get_tip_header result'' in
     sum_bind (as_record v ctx) (\<lambda>r.
     sum_bind (u64_text (prop_of r ''number'') (ctx @ ''.number'')) (\<lambda>number.
     sum_bind (u64_text (prop_of r ''epoch'') (ctx @ ''.epoch'')) (\<lambda>epoch.
     sum_bind (u64_text (prop_of r ''timestamp'') (ctx @ ''.timestamp'')) (\<lambda>timestamp.
     sum_bind (as_hash (prop_of r ''hash'') (ctx @ ''.hash'')) (\<lambda>h.
     Inr \<lparr>he_number = number, he_epoch = epoch, he_timestamp = timestamp, he_hash = h\<rparr>))))))"

definition parse_live_cell_status :: "unknown \<Rightarrow> out_point \<Rightarrow> failure + live_cell_status" where
  "parse_live_cell_status v op =
     sum_bind (as_record v ''get_live_cell result'') (\<lambda>r.
     sum_bind (as_text (prop_of r ''status'') ''get_live_cell result.status'') (\<lambda>status.
     if status = points ''live'' then
       sum_bind (as_record (prop_of r ''cell'') ''get_live_cell result.cell'') (\<lambda>c.
       sum_bind (as_record (prop_of c ''data'') ''get_live_cell result.cell.data'') (\<lambda>d.
       sum_bind (parse_cell_output (prop_of c ''output'') ''get_live_cell result.cell.output'') (\<lambda>output.
       sum_bind (as_hex (prop_of d ''content'') ''get_live_cell result.cell.data.content'') (\<lambda>data.
       Inr (CellLive \<lparr>ce_out_point = op, ce_output = output, ce_data = data, ce_block_number = None\<rparr>)))))
     else if status = points ''dead'' then Inr (CellDead op)
     else if status = points ''unknown'' then Inr (CellUnknown op)
     else shape ''get_live_cell result.status'' ''unknown status''))"

datatype raw_status =
    RawSent | RawPending | RawProposed | RawUnknown
  | RawRejected "code_points option"
  | RawCommitted string

definition parse_transaction_status :: "unknown \<Rightarrow> failure + raw_status" where
  "parse_transaction_status v =
     (if v = Some Jnull then Inr RawUnknown
      else
        sum_bind (as_record v ''get_transaction result'') (\<lambda>r.
        sum_bind (as_record (prop_of r ''tx_status'') ''get_transaction result.tx_status'') (\<lambda>ts.
        sum_bind (as_text (prop_of ts ''status'') ''get_transaction result.tx_status.status'') (\<lambda>status.
        sum_bind
          (if prop_of ts ''reason'' \<in> {None, Some Jnull} then Inr None
           else sum_bind (as_text (prop_of ts ''reason'') ''get_transaction result.tx_status.reason'') (Inr \<circ> Some))
          (\<lambda>reason.
        if status = points ''pending'' then Inr RawPending
        else if status = points ''proposed'' then Inr RawProposed
        else if status = points ''sent'' then Inr RawSent
        else if status = points ''unknown'' then Inr RawUnknown
        else if status = points ''rejected'' then Inr (RawRejected reason)
        else if status = points ''committed'' then
          sum_bind (as_hash (prop_of ts ''block_hash'') ''get_transaction result.tx_status.block_hash'') (Inr \<circ> RawCommitted)
        else shape ''get_transaction result.tx_status.status'' ''unknown status'')))))"

section \<open>Transactions\<close>

definition parse_dep_type :: "unknown \<Rightarrow> string \<Rightarrow> failure + dep_type" where
  "parse_dep_type v ctx = sum_bind (as_text v ctx) (\<lambda>t.
     if t = points ''code'' then Inr DepCode
     else if t = points ''depGroup'' then Inr DepGroup
     else shape ctx ''unknown dep_type'')"

definition parse_wire_output :: "unknown \<Rightarrow> string \<Rightarrow> failure + wire_output" where
  "parse_wire_output v ctx =
     sum_bind (as_record v ctx) (\<lambda>r.
     sum_bind (u64_text (prop_of r ''capacity'') (ctx @ ''.capacity'')) (\<lambda>capacity.
     sum_bind (parse_script (prop_of r ''lock'') (ctx @ ''.lock'')) (\<lambda>lock.
     sum_bind (optional_script parse_script (prop_of r ''type'') (ctx @ ''.type'')) (\<lambda>ty.
     Inr \<lparr>wo_capacity = capacity, wo_lock = lock, wo_type = ty\<rparr>))))"

text \<open>An out point inside a transaction; an index beyond 32 bits is reported in the context of the
  whole transaction.\<close>

definition parse_body_out_point :: "string \<Rightarrow> unknown \<Rightarrow> string \<Rightarrow> failure + out_point" where
  "parse_body_out_point body_ctx v ctx =
     sum_bind (as_record v ctx) (\<lambda>r.
     sum_bind (as_u64_hex (prop_of r ''index'') (ctx @ ''.index'')) (\<lambda>(i, n).
     if n > u32_max then shape body_ctx ''index exceeds uint32''
     else
       sum_bind (as_hash (prop_of r ''tx_hash'') (ctx @ ''.tx_hash'')) (\<lambda>h.
       Inr \<lparr>op_tx_hash = h, op_index = i\<rparr>)))"

definition parse_cell_dep :: "string \<Rightarrow> unknown \<Rightarrow> string \<Rightarrow> failure + cell_dep" where
  "parse_cell_dep body_ctx v ctx =
     sum_bind (as_record v ctx) (\<lambda>r.
     sum_bind (parse_body_out_point body_ctx (prop_of r ''out_point'') (ctx @ ''.out_point'')) (\<lambda>op.
     sum_bind (parse_dep_type (prop_of r ''dep_type'') (ctx @ ''.dep_type'')) (\<lambda>dt.
     Inr \<lparr>cd_out_point = op, cd_dep_type = dt\<rparr>)))"

definition parse_cell_input :: "string \<Rightarrow> unknown \<Rightarrow> string \<Rightarrow> failure + cell_input" where
  "parse_cell_input body_ctx v ctx =
     sum_bind (as_record v ctx) (\<lambda>r.
     sum_bind (parse_body_out_point body_ctx (prop_of r ''previous_output'') (ctx @ ''.previous_output'')) (\<lambda>op.
     sum_bind (u64_text (prop_of r ''since'') (ctx @ ''.since'')) (\<lambda>since.
     Inr \<lparr>in_previous = op, in_since = since\<rparr>)))"

text \<open>An array member of an object, parsed item by item.\<close>

definition parse_list ::
  "(unknown \<Rightarrow> string \<Rightarrow> failure + 'b) \<Rightarrow> unknown \<Rightarrow> string \<Rightarrow> failure + 'b list" where
  "parse_list f v ctx = sum_bind (as_array v ctx) (parse_each f ctx 0)"

definition parse_transaction_body :: "unknown \<Rightarrow> string \<Rightarrow> failure + transaction" where
  "parse_transaction_body v ctx =
     sum_bind (as_record v ctx) (\<lambda>r.
     sum_bind (parse_list parse_wire_output (prop_of r ''outputs'') (ctx @ ''.outputs'')) (\<lambda>outputs.
     sum_bind (parse_list as_hex (prop_of r ''outputs_data'') (ctx @ ''.outputs_data'')) (\<lambda>outputs_data.
     if length outputs \<noteq> length outputs_data then shape ctx ''outputs/outputs_data length mismatch''
     else
       sum_bind (u64_text (prop_of r ''version'') (ctx @ ''.version'')) (\<lambda>version.
       sum_bind (parse_list (parse_cell_dep ctx) (prop_of r ''cell_deps'') (ctx @ ''.cell_deps'')) (\<lambda>deps.
       sum_bind (parse_list as_hash (prop_of r ''header_deps'') (ctx @ ''.header_deps'')) (\<lambda>headers.
       sum_bind (parse_list (parse_cell_input ctx) (prop_of r ''inputs'') (ctx @ ''.inputs'')) (\<lambda>inputs.
       sum_bind (parse_list as_hex (prop_of r ''witnesses'') (ctx @ ''.witnesses'')) (\<lambda>witnesses.
       Inr \<lparr>tx_version = version, tx_cell_deps = deps, tx_header_deps = headers, tx_inputs = inputs,
            tx_outputs = outputs, tx_outputs_data = outputs_data, tx_witnesses = witnesses\<rparr>))))))))"

text \<open>\<open>transactionToRpc\<close>. Its argument is what \<open>JSON.parse\<close> of a journaled body gives, so it is a JSON
  value here too, with the camelCase members of types.ts; the result is the body of the request.\<close>

definition jtext :: "string \<Rightarrow> jvalue" where
  "jtext s = Jstr (points s)"

definition script_to_rpc :: "script \<Rightarrow> jvalue" where
  "script_to_rpc sc = Jobj [(points ''code_hash'', jtext (sc_code_hash sc)),
     (points ''hash_type'', jtext (sc_hash_type sc)), (points ''args'', jtext (sc_args sc))]"

definition parse_outgoing_script :: "unknown \<Rightarrow> string \<Rightarrow> failure + script" where
  "parse_outgoing_script v ctx =
     sum_bind (as_record v ctx) (\<lambda>r.
     sum_bind (as_hash (prop_of r ''codeHash'') (ctx @ ''.codeHash'')) (\<lambda>code.
     sum_bind (as_hash_type (prop_of r ''hashType'') (ctx @ ''.hashType'')) (\<lambda>ht.
     sum_bind (as_hex (prop_of r ''args'') (ctx @ ''.args'')) (\<lambda>args.
     Inr \<lparr>sc_code_hash = code, sc_hash_type = ht, sc_args = args\<rparr>))))"

definition dep_type_name :: "dep_type \<Rightarrow> string" where
  "dep_type_name d = (case d of DepCode \<Rightarrow> ''code'' | DepGroup \<Rightarrow> ''depGroup'')"

definition rpc_out_point :: "string \<Rightarrow> string \<Rightarrow> jvalue" where
  "rpc_out_point h i = Jobj [(points ''tx_hash'', jtext h), (points ''index'', jtext i)]"

definition cell_dep_to_rpc :: "unknown \<Rightarrow> string \<Rightarrow> failure + jvalue" where
  "cell_dep_to_rpc v ctx =
     sum_bind (as_record v ctx) (\<lambda>r.
     sum_bind (as_record (prop_of r ''outPoint'') (ctx @ ''.out_point'')) (\<lambda>op.
     sum_bind (as_hash (prop_of op ''txHash'') (ctx @ ''.out_point.tx_hash'')) (\<lambda>h.
     sum_bind (u32_index_hex (prop_of op ''index'') (ctx @ ''.out_point.index'')) (\<lambda>i.
     sum_bind (parse_dep_type (prop_of r ''depType'') (ctx @ ''.dep_type'')) (\<lambda>d.
     Inr (Jobj [(points ''out_point'', rpc_out_point h i), (points ''dep_type'', jtext (dep_type_name d))]))))))"

definition input_to_rpc :: "unknown \<Rightarrow> string \<Rightarrow> failure + jvalue" where
  "input_to_rpc v ctx =
     sum_bind (as_record v ctx) (\<lambda>r.
     sum_bind (as_record (prop_of r ''previousOutput'') (ctx @ ''.previous_output'')) (\<lambda>op.
     sum_bind (as_hash (prop_of op ''txHash'') (ctx @ ''.previous_output.tx_hash'')) (\<lambda>h.
     sum_bind (u32_index_hex (prop_of op ''index'') (ctx @ ''.previous_output.index'')) (\<lambda>i.
     sum_bind (u64_text (prop_of r ''since'') (ctx @ ''.since'')) (\<lambda>since.
     Inr (Jobj [(points ''previous_output'', rpc_out_point h i), (points ''since'', jtext since)]))))))"

definition type_to_rpc :: "script option \<Rightarrow> jvalue" where
  "type_to_rpc ty = (case ty of None \<Rightarrow> Jnull | Some sc \<Rightarrow> script_to_rpc sc)"

definition rpc_output :: "wire_output \<Rightarrow> jvalue" where
  "rpc_output w = Jobj [(points ''capacity'', jtext (wo_capacity w)), (points ''lock'', script_to_rpc (wo_lock w)),
     (points ''type'', type_to_rpc (wo_type w))]"

definition output_to_rpc :: "unknown \<Rightarrow> string \<Rightarrow> failure + jvalue" where
  "output_to_rpc v ctx =
     sum_bind (as_record v ctx) (\<lambda>r.
     sum_bind (u64_text (prop_of r ''capacity'') (ctx @ ''.capacity'')) (\<lambda>capacity.
     sum_bind (parse_outgoing_script (prop_of r ''lock'') (ctx @ ''.lock'')) (\<lambda>lock.
     sum_bind (optional_script parse_outgoing_script (prop_of r ''type'') (ctx @ ''.type'')) (\<lambda>ty.
     Inr (rpc_output \<lparr>wo_capacity = capacity, wo_lock = lock, wo_type = ty\<rparr>)))))"

definition text_to_rpc ::
  "(unknown \<Rightarrow> string \<Rightarrow> failure + string) \<Rightarrow> unknown \<Rightarrow> string \<Rightarrow> failure + jvalue" where
  "text_to_rpc f v ctx = sum_bind (f v ctx) (Inr \<circ> jtext)"

definition transaction_to_rpc :: "jvalue \<Rightarrow> failure + jvalue" where
  "transaction_to_rpc tx =
     sum_bind (as_record (Some tx) ''transaction'') (\<lambda>r.
     sum_bind (parse_list cell_dep_to_rpc (prop_of r ''cellDeps'') ''transaction.cell_deps'') (\<lambda>deps.
     sum_bind (parse_list (text_to_rpc as_hash) (prop_of r ''headerDeps'') ''transaction.header_deps'') (\<lambda>headers.
     sum_bind (parse_list input_to_rpc (prop_of r ''inputs'') ''transaction.inputs'') (\<lambda>inputs.
     sum_bind (parse_list output_to_rpc (prop_of r ''outputs'') ''transaction.outputs'') (\<lambda>outputs.
     sum_bind (parse_list (text_to_rpc as_hex) (prop_of r ''outputsData'') ''transaction.outputs_data'') (\<lambda>outputs_data.
     if length outputs_data \<noteq> length outputs then shape ''transaction'' ''length mismatch''
     else
       sum_bind (parse_list (text_to_rpc as_hex) (prop_of r ''witnesses'') ''transaction.witnesses'') (\<lambda>witnesses.
       sum_bind (as_quantity_hex (prop_of r ''version'') ''transaction.version'') (\<lambda>version.
       Inr (Jobj [(points ''version'', jtext version), (points ''cell_deps'', Jarr deps),
         (points ''header_deps'', Jarr headers), (points ''inputs'', Jarr inputs),
         (points ''outputs'', Jarr outputs), (points ''outputs_data'', Jarr outputs_data),
         (points ''witnesses'', Jarr witnesses)])))))))))"

text \<open>The JSON of a \<open>Transaction\<close>, in the order in which wire.ts creates its members.\<close>

definition out_point_json :: "out_point \<Rightarrow> jvalue" where
  "out_point_json op = Jobj [(points ''txHash'', jtext (op_tx_hash op)), (points ''index'', jtext (op_index op))]"

definition script_json :: "script \<Rightarrow> jvalue" where
  "script_json sc = Jobj [(points ''codeHash'', jtext (sc_code_hash sc)),
     (points ''hashType'', jtext (sc_hash_type sc)), (points ''args'', jtext (sc_args sc))]"

definition cell_dep_json :: "cell_dep \<Rightarrow> jvalue" where
  "cell_dep_json d = Jobj [(points ''outPoint'', out_point_json (cd_out_point d)),
     (points ''depType'', jtext (dep_type_name (cd_dep_type d)))]"

definition input_json :: "cell_input \<Rightarrow> jvalue" where
  "input_json i = Jobj [(points ''previousOutput'', out_point_json (in_previous i)), (points ''since'', jtext (in_since i))]"

definition output_json :: "wire_output \<Rightarrow> jvalue" where
  "output_json w = Jobj [(points ''capacity'', jtext (wo_capacity w)), (points ''lock'', script_json (wo_lock w)),
     (points ''type'', case wo_type w of None \<Rightarrow> Jnull | Some sc \<Rightarrow> script_json sc)]"

definition transaction_json :: "transaction \<Rightarrow> jvalue" where
  "transaction_json t = Jobj [(points ''version'', jtext (tx_version t)),
     (points ''cellDeps'', Jarr (map cell_dep_json (tx_cell_deps t))),
     (points ''headerDeps'', Jarr (map jtext (tx_header_deps t))),
     (points ''inputs'', Jarr (map input_json (tx_inputs t))),
     (points ''outputs'', Jarr (map output_json (tx_outputs t))),
     (points ''outputsData'', Jarr (map jtext (tx_outputs_data t))),
     (points ''witnesses'', Jarr (map jtext (tx_witnesses t)))]"

section \<open>The client\<close>

text \<open>A call takes the url, the method and its parameters. The operations run on the environment
  and the milliseconds that have passed.\<close>

type_synonym 'w transport = "string \<Rightarrow> string \<Rightarrow> jvalue list \<Rightarrow> ('w, unknown) env_call"

record endpoints =
  ep_rpc :: string
  ep_indexer :: string

record 'w client =
  cc_endpoints :: endpoints
  cc_transport :: "'w transport"

definition new_client ::
  "string \<Rightarrow> endpoints list \<Rightarrow> endpoints option \<Rightarrow> 'w transport \<Rightarrow> failure + 'w client" where
  "new_client network defaults chosen transport = (case defaults of
       [] \<Rightarrow> shape ''CempClient'' (''network '' @ network @ '' has no endpoints'')
     | first # _ \<Rightarrow> Inr \<lparr>cc_endpoints = (case chosen of None \<Rightarrow> first | Some e \<Rightarrow> e), cc_transport = transport\<rparr>)"

type_synonym ('w, 'a) timed = "('w \<times> nat, failure, 'a) prog"

definition request :: "'w transport \<Rightarrow> string \<Rightarrow> string \<Rightarrow> jvalue list \<Rightarrow> ('w, unknown) timed" where
  "request T url method params = (\<lambda>(w, n). case T url method params w of (r, w', k) \<Rightarrow> (r, w', n + k))"

definition env_call_of :: "('w, 'a) timed \<Rightarrow> ('w, 'a) env_call" where
  "env_call_of m = (\<lambda>w. case m (w, 0) of (r, w', n) \<Rightarrow> (r, w', n))"

text \<open>The default transport: one POST, whose answer is a status and a body. The number of the request
  is state of the transport.\<close>

record rpc_response =
  rr_ok :: bool
  rr_status :: nat
  rr_body :: bytes

definition rpc_answer :: "string \<Rightarrow> string \<Rightarrow> rpc_response \<Rightarrow> failure + unknown" where
  "rpc_answer method url response =
     (let ctx = method @ '' '' @ url in
      if \<not> rr_ok response then shape ctx (''HTTP '' @ decimal (rr_status response))
      else case json_parse (utf8_decode (rr_body response)) of
          None \<Rightarrow> shape ctx ''response is not JSON''
        | Some body \<Rightarrow>
            sum_bind (as_record (Some body) (ctx @ '' response'')) (\<lambda>r.
            if prop_of r ''error'' \<notin> {None, Some Jnull} then
              sum_bind (as_record (prop_of r ''error'') (ctx @ '' response.error'')) (\<lambda>e.
              sum_bind (as_text (prop_of e ''message'') (ctx @ '' response.error.message'')) (\<lambda>m.
              shape ctx ''RPC error''))
            else if prop_of r ''result'' = None then shape (ctx @ '' response'') ''missing result field''
            else Inr (prop_of r ''result'')))"

definition fetch_transport ::
  "(string \<Rightarrow> code_points \<Rightarrow> ('w, rpc_response) env_call) \<Rightarrow> ('w \<times> nat) transport" where
  "fetch_transport post url method params = (\<lambda>(w, next_id).
     let body = json_print (Jobj [(points ''jsonrpc'', jtext ''2.0''), (points ''id'', Jnum (Some (of_nat next_id))),
       (points ''method'', jtext method), (points ''params'', Jarr params)]) in
     case post url body w of
       (Inl e, w', k) \<Rightarrow> (shape (method @ '' '' @ url) ''request failed'', (w', Suc next_id), k)
     | (Inr response, w', k) \<Rightarrow> (rpc_answer method url response, (w', Suc next_id), k))"

definition call_node :: "'w client \<Rightarrow> string \<Rightarrow> jvalue list \<Rightarrow> ('w, unknown) timed" where
  "call_node C = request (cc_transport C) (ep_rpc (cc_endpoints C))"

definition call_indexer :: "'w client \<Rightarrow> string \<Rightarrow> jvalue list \<Rightarrow> ('w, unknown) timed" where
  "call_indexer C = request (cc_transport C) (ep_indexer (cc_endpoints C))"

definition get_tip_header :: "'w client \<Rightarrow> ('w, chain_header) timed" where
  "get_tip_header C = andthen (call_node C ''get_tip_header'' []) (\<lambda>v. lift_result (parse_tip_header v))"

definition passthrough :: string where
  "passthrough = ''passthrough''"

definition send_transaction :: "'w client \<Rightarrow> jvalue \<Rightarrow> string \<Rightarrow> ('w, string) timed" where
  "send_transaction C tx validator =
     andthen (lift_result (transaction_to_rpc tx)) (\<lambda>body.
     andthen (call_node C ''send_transaction'' [body, jtext validator]) (\<lambda>v.
     lift_result (as_hash v ''send_transaction result'')))"

definition dry_run_transaction :: "'w client \<Rightarrow> jvalue \<Rightarrow> string \<Rightarrow> ('w, string) timed" where
  "dry_run_transaction C tx validator =
     andthen (lift_result (transaction_to_rpc tx)) (\<lambda>body.
     andthen (call_node C ''dry_run_transaction'' [body, jtext validator]) (\<lambda>v.
     andthen (lift_result (as_record v ''dry_run_transaction result'')) (\<lambda>r.
     lift_result (u64_text (prop_of r ''cycles'') ''dry_run_transaction result.cycles''))))"

definition get_live_cell :: "'w client \<Rightarrow> out_point \<Rightarrow> ('w, live_cell_status) timed" where
  "get_live_cell C op =
     andthen (call_node C ''get_live_cell'' [rpc_out_point (op_tx_hash op) (op_index op), Jbool True]) (\<lambda>v.
     lift_result (parse_live_cell_status v op))"

text \<open>The records of the other theories hold a free text as the characters of its UTF-8 bytes.\<close>

definition js_text :: "code_points \<Rightarrow> string" where
  "js_text t = map (char_of \<circ> unat) (utf8_encode t)"

definition js_points :: "string \<Rightarrow> code_points" where
  "js_points s = utf8_run None (map unat (text_encode s))"

definition get_transaction :: "'w client \<Rightarrow> string \<Rightarrow> ('w, tx_status) timed" where
  "get_transaction C h =
     andthen (call_node C ''get_transaction'' [jtext h]) (\<lambda>v.
     andthen (lift_result (parse_transaction_status v)) (\<lambda>status. case status of
       RawCommitted block \<Rightarrow>
         andthen (call_node C ''get_header'' [jtext block]) (\<lambda>w.
         andthen (lift_result (parse_tip_header w)) (\<lambda>header.
         ret (TxCommitted block (he_number header))))
     | RawRejected reason \<Rightarrow> ret (TxRejected (map_option js_text reason))
     | RawSent \<Rightarrow> ret TxSent
     | RawPending \<Rightarrow> ret TxPending
     | RawProposed \<Rightarrow> ret TxProposed
     | RawUnknown \<Rightarrow> ret TxUnknown))"

definition get_transaction_body :: "'w client \<Rightarrow> string \<Rightarrow> ('w, transaction option) timed" where
  "get_transaction_body C h =
     andthen (call_node C ''get_transaction'' [jtext h]) (\<lambda>v.
     if v = Some Jnull then ret None
     else
       andthen (lift_result (as_record v ''get_transaction result'')) (\<lambda>r.
       andthen (lift_result (parse_transaction_body (prop_of r ''transaction'') ''get_transaction result.transaction''))
         (\<lambda>t. ret (Some t))))"

subsection \<open>Searches\<close>

datatype script_type = LockScript | TypeScript
datatype search_mode = ExactArgs | PrefixArgs
datatype search_order = Ascending | Descending

record cell_filter =
  cf_script :: "script option"
  cf_data_len :: "(string \<times> string) option"
  cf_capacity :: "(string \<times> string) option"
  cf_block :: "(string \<times> string) option"

record cell_query =
  cq_script :: script
  cq_script_type :: script_type
  cq_mode :: "search_mode option"
  cq_filter :: "cell_filter option"
  cq_after :: "code_points option"
  cq_limit :: "int option"
  cq_order :: "search_order option"

definition script_type_name :: "script_type \<Rightarrow> string" where
  "script_type_name t = (case t of LockScript \<Rightarrow> ''lock'' | TypeScript \<Rightarrow> ''type'')"

definition search_mode_name :: "search_mode option \<Rightarrow> string" where
  "search_mode_name m = (case m of Some PrefixArgs \<Rightarrow> ''prefix'' | _ \<Rightarrow> ''exact'')"

definition search_order_name :: "search_order option \<Rightarrow> string" where
  "search_order_name m = (case m of Some Descending \<Rightarrow> ''desc'' | _ \<Rightarrow> ''asc'')"

definition optional_member :: "string \<Rightarrow> ('a \<Rightarrow> jvalue) \<Rightarrow> 'a option \<Rightarrow> members" where
  "optional_member name f x = (case x of None \<Rightarrow> [] | Some y \<Rightarrow> [(points name, f y)])"

definition range_json :: "string \<times> string \<Rightarrow> jvalue" where
  "range_json r = Jarr [jtext (fst r), jtext (snd r)]"

definition filter_to_rpc :: "cell_filter \<Rightarrow> jvalue" where
  "filter_to_rpc f = Jobj (optional_member ''script'' script_to_rpc (cf_script f)
     @ optional_member ''output_data_len_range'' range_json (cf_data_len f)
     @ optional_member ''output_capacity_range'' range_json (cf_capacity f)
     @ optional_member ''block_range'' range_json (cf_block f))"

fun hex_of :: "nat \<Rightarrow> string" where
  "hex_of n = (if n < 16 then [hex_digits ! n] else hex_of (n div 16) @ [hex_digits ! (n mod 16)])"

declare hex_of.simps [simp del]

definition quantity :: "nat \<Rightarrow> string" where
  "quantity n = ''0x'' @ hex_of n"

definition to_hex_quantity :: "int \<Rightarrow> failure + string" where
  "to_hex_quantity n = (if n > 9007199254740991 \<or> n \<le> 0
     then shape ''findCells'' ''limit must be a positive safe integer'' else Inr (quantity (nat n)))"

definition default_find_limit :: int where
  "default_find_limit = 64"

text \<open>The parameters that both searches share; only \<open>findCells\<close> asks for the data of the cells.\<close>

definition search_params :: "members \<Rightarrow> cell_query \<Rightarrow> failure + jvalue list" where
  "search_params extra q =
     (let search_key = Jobj ([(points ''script'', script_to_rpc (cq_script q)),
        (points ''script_type'', jtext (script_type_name (cq_script_type q))),
        (points ''script_search_mode'', jtext (search_mode_name (cq_mode q)))]
        @ extra @ optional_member ''filter'' filter_to_rpc (cq_filter q)) in
      sum_bind (to_hex_quantity (case cq_limit q of None \<Rightarrow> default_find_limit | Some l \<Rightarrow> l)) (\<lambda>l.
      Inr ([search_key, jtext (search_order_name (cq_order q)), jtext l]
        @ (case cq_after q of None \<Rightarrow> [] | Some c \<Rightarrow> [Jstr c]))))"

definition find_cells :: "'w client \<Rightarrow> cell_query \<Rightarrow> ('w, wire_page) timed" where
  "find_cells C q =
     andthen (lift_result (search_params [(points ''with_data'', Jbool True)] q)) (\<lambda>params.
     andthen (call_indexer C ''get_cells'' params) (\<lambda>v. lift_result (parse_cells_page v)))"

definition find_transactions :: "'w client \<Rightarrow> cell_query \<Rightarrow> ('w, wire_tx_page) timed" where
  "find_transactions C q =
     andthen (lift_result (search_params [] q)) (\<lambda>params.
     andthen (call_indexer C ''get_transactions'' params) (\<lambda>v. lift_result (parse_transactions_page v)))"

section \<open>What the guards accept\<close>

definition hash_ok :: "string \<Rightarrow> bool" where
  "hash_ok s \<longleftrightarrow> hex_bytes s \<and> length s = 66"

definition u64_ok :: "string \<Rightarrow> bool" where
  "u64_ok s \<longleftrightarrow> hex_quantity s \<and> big_int s \<le> u64_max"

definition u32_ok :: "string \<Rightarrow> bool" where
  "u32_ok s \<longleftrightarrow> hex_quantity s \<and> big_int s \<le> u32_max"

definition script_ok :: "script \<Rightarrow> bool" where
  "script_ok sc \<longleftrightarrow> hash_ok (sc_code_hash sc) \<and> sc_hash_type sc \<in> set hash_types \<and> hex_bytes (sc_args sc)"

definition type_ok :: "script option \<Rightarrow> bool" where
  "type_ok ty \<longleftrightarrow> (case ty of None \<Rightarrow> True | Some sc \<Rightarrow> script_ok sc)"

definition out_point_ok :: "out_point \<Rightarrow> bool" where
  "out_point_ok op \<longleftrightarrow> hash_ok (op_tx_hash op) \<and> u32_ok (op_index op)"

definition output_ok :: "wire_output \<Rightarrow> bool" where
  "output_ok w \<longleftrightarrow> u64_ok (wo_capacity w) \<and> script_ok (wo_lock w) \<and> type_ok (wo_type w)"

definition cell_ok :: "wire_cell \<Rightarrow> bool" where
  "cell_ok c \<longleftrightarrow> out_point_ok (ce_out_point c) \<and> output_ok (ce_output c) \<and> hex_bytes (ce_data c)
     \<and> (\<exists>n. ce_block_number c = Some n \<and> u64_ok n)"

definition cell_dep_ok :: "cell_dep \<Rightarrow> bool" where
  "cell_dep_ok d \<longleftrightarrow> out_point_ok (cd_out_point d)"

definition input_ok :: "cell_input \<Rightarrow> bool" where
  "input_ok i \<longleftrightarrow> out_point_ok (in_previous i) \<and> u64_ok (in_since i)"

text \<open>All of a transaction but its version.\<close>

definition parts_ok :: "transaction \<Rightarrow> bool" where
  "parts_ok t \<longleftrightarrow> list_all cell_dep_ok (tx_cell_deps t) \<and> list_all hash_ok (tx_header_deps t)
     \<and> list_all input_ok (tx_inputs t) \<and> list_all output_ok (tx_outputs t)
     \<and> list_all hex_bytes (tx_outputs_data t) \<and> length (tx_outputs_data t) = length (tx_outputs t)
     \<and> list_all hex_bytes (tx_witnesses t)"

definition transaction_ok :: "transaction \<Rightarrow> bool" where
  "transaction_ok t \<longleftrightarrow> parts_ok t \<and> u64_ok (tx_version t)"

definition sendable :: "transaction \<Rightarrow> bool" where
  "sendable t \<longleftrightarrow> parts_ok t \<and> hex_quantity (tx_version t)"

named_theorems wire_defs "the JSON of the records of the wire"

lemma hex_char_small: "is_hex c \<Longrightarrow> (of_char c :: nat) < 128"
proof -
  have "list_all (\<lambda>c. (of_char c :: nat) < 128) (hex_digits @ upper_hex_digits)" by code_simp
  moreover assume "is_hex c"
  ultimately show ?thesis by (auto simp: is_hex_def list_all_iff)
qed

definition plain_text :: "string \<Rightarrow> bool" where
  "plain_text s \<longleftrightarrow> list_all (\<lambda>c. (of_char c :: nat) < 128) s"

lemma ascii_plain: "ascii t = Some s \<longleftrightarrow> t = points s \<and> plain_text s"
proof
  assume "ascii t = Some s"
  then have t: "\<forall>c \<in> set t. c < 128" and s: "s = map char_of t" by (auto simp: ascii_def split: if_splits)
  have "c mod 256 = c" if "c \<in> set t" for c using t that by (auto intro: mod_less)
  with s have "points s = t" by (simp add: points_def o_def map_idI)
  moreover have "plain_text s" using s t \<open>\<And>c. c \<in> set t \<Longrightarrow> c mod 256 = c\<close> by (auto simp: plain_text_def list_all_iff)
  ultimately show "t = points s \<and> plain_text s" by simp
qed (auto simp: ascii_def points_def plain_text_def list_all_iff o_def)

lemma hex_text_plain:
  assumes "take 2 s = ''0x''" "list_all is_hex (drop 2 s)"
  shows "plain_text s"
proof -
  have "plain_text (drop 2 s)"
    using assms(2) hex_char_small by (auto simp: plain_text_def list_all_iff)
  then have "plain_text (take 2 s @ drop 2 s)" unfolding assms(1) by (simp add: plain_text_def)
  then show ?thesis by simp
qed

lemma hex_bytes_plain: "hex_bytes s \<Longrightarrow> plain_text s"
  by (simp add: hex_bytes_def hex_text_plain)

lemma hex_quantity_plain: "hex_quantity s \<Longrightarrow> plain_text s"
  by (simp add: hex_quantity_def hex_text_plain)

lemma as_text_iff [simp]: "as_text v ctx = Inr t \<longleftrightarrow> v = Some (Jstr t)"
  by (auto simp: as_text_def shape_def split: option.splits jvalue.splits)

lemma as_record_iff [simp]: "as_record v ctx = Inr r \<longleftrightarrow> v = Some (Jobj r)"
  by (auto simp: as_record_def shape_def split: option.splits jvalue.splits)

lemma as_array_iff [simp]: "as_array v ctx = Inr vs \<longleftrightarrow> v = Some (Jarr vs)"
  by (auto simp: as_array_def shape_def split: option.splits jvalue.splits)

lemma shape_error [simp]: "shape ctx d \<noteq> Inr x" "Inr x \<noteq> shape ctx d"
  by (simp_all add: shape_def)

lemma guard_Inr [simp]:
  "(if b then shape ctx d else Inr y) = Inr x \<longleftrightarrow> \<not> b \<and> y = x"
  "(if b then Inr y else shape ctx d) = Inr x \<longleftrightarrow> b \<and> y = x"
  "(if b then shape ctx d else r) = Inr x \<longleftrightarrow> \<not> b \<and> r = Inr x"
  by auto

lemma jtext_inject [simp]: "jtext a = jtext b \<longleftrightarrow> a = b"
  by (simp add: jtext_def)

lemma as_matching_iff:
  assumes "\<And>s. matches s \<Longrightarrow> plain_text s"
  shows "as_matching matches detail v ctx = Inr s \<longleftrightarrow> v = Some (jtext s) \<and> matches s"
proof -
  have "(case ascii t of Some s \<Rightarrow> if matches s then Inr s else shape ctx detail | None \<Rightarrow> shape ctx detail) = Inr s
      \<longleftrightarrow> t = points s \<and> matches s" for t
  proof (cases "ascii t")
    case None
    then show ?thesis using assms [of s] ascii_plain [of t s] by auto
  next
    case (Some a)
    then have "t = points a" by (simp add: ascii_plain)
    with Some show ?thesis by (auto split: if_splits)
  qed
  then show ?thesis by (auto simp: as_matching_def jtext_def)
qed

lemma as_hex_iff [simp]: "as_hex v ctx = Inr s \<longleftrightarrow> v = Some (jtext s) \<and> hex_bytes s"
  by (simp add: as_hex_def as_matching_iff hex_bytes_plain)

lemma as_quantity_hex_iff [simp]: "as_quantity_hex v ctx = Inr s \<longleftrightarrow> v = Some (jtext s) \<and> hex_quantity s"
  by (simp add: as_quantity_hex_def as_matching_iff hex_quantity_plain)

lemma as_hash_iff [simp]: "as_hash v ctx = Inr s \<longleftrightarrow> v = Some (jtext s) \<and> hash_ok s"
  by (auto simp: as_hash_def hash_ok_def)

lemma as_u64_hex_iff [simp]:
  "as_u64_hex v ctx = Inr (s, n) \<longleftrightarrow> v = Some (jtext s) \<and> u64_ok s \<and> n = big_int s"
  by (auto simp: as_u64_hex_def u64_ok_def split: if_splits)

lemma u64_text_iff [simp]: "u64_text v ctx = Inr s \<longleftrightarrow> v = Some (jtext s) \<and> u64_ok s"
  by (auto simp: u64_text_def)

lemma u32_u64: "u32_ok s \<longleftrightarrow> u64_ok s \<and> big_int s \<le> u32_max"
  by (auto simp: u32_ok_def u64_ok_def u32_max_def u64_max_def)

lemma u32_index_hex_iff [simp]: "u32_index_hex v ctx = Inr s \<longleftrightarrow> v = Some (jtext s) \<and> u32_ok s"
  by (auto simp: u32_index_hex_def u32_u64 split: if_splits)

lemma hash_types_plain: "s \<in> set hash_types \<Longrightarrow> plain_text s"
  by (auto simp: hash_types_def plain_text_def)

lemma as_hash_type_iff [simp]:
  "as_hash_type v ctx = Inr s \<longleftrightarrow> v = Some (jtext s) \<and> s \<in> set hash_types"
  by (simp add: as_hash_type_def as_matching_iff hash_types_plain)

lemma parse_dep_type_iff [simp]: "parse_dep_type v ctx = Inr d \<longleftrightarrow> v = Some (jtext (dep_type_name d))"
proof -
  have "(if t = points ''code'' then Inr DepCode else if t = points ''depGroup'' then Inr DepGroup
      else shape ctx ''unknown dep_type'') = Inr d \<longleftrightarrow> t = points (dep_type_name d)" for t
    by (cases d) (auto simp: dep_type_name_def)
  then show ?thesis by (auto simp: parse_dep_type_def jtext_def)
qed

lemma dep_type_name_inject [simp]: "dep_type_name a = dep_type_name b \<longleftrightarrow> a = b"
  by (cases a; cases b) (simp_all add: dep_type_name_def)

subsection \<open>Everything that is parsed is well formed\<close>

lemma parsed_script: "parse_script v ctx = Inr sc \<Longrightarrow> script_ok sc"
  by (auto simp: parse_script_def script_ok_def)

lemma parsed_outgoing_script: "parse_outgoing_script v ctx = Inr sc \<Longrightarrow> script_ok sc"
  by (auto simp: parse_outgoing_script_def script_ok_def)

lemma parsed_type:
  assumes "optional_script parse v ctx = Inr ty" and "\<And>v ctx sc. parse v ctx = Inr sc \<Longrightarrow> script_ok sc"
  shows "type_ok ty"
  using assms by (auto simp: optional_script_def type_ok_def split: if_splits)

lemma parsed_out_point: "parse_out_point v ctx = Inr op \<Longrightarrow> out_point_ok op"
  by (auto simp: parse_out_point_def out_point_ok_def)

lemma parsed_body_out_point: "parse_body_out_point body v ctx = Inr op \<Longrightarrow> out_point_ok op"
  by (auto simp: parse_body_out_point_def out_point_ok_def u32_u64 split: if_splits)

lemma parsed_cell_output: "parse_cell_output v ctx = Inr w \<Longrightarrow> output_ok w"
  by (auto simp: parse_cell_output_def output_ok_def intro: parsed_script parsed_type)

lemma parsed_wire_output: "parse_wire_output v ctx = Inr w \<Longrightarrow> output_ok w"
  by (auto simp: parse_wire_output_def output_ok_def intro: parsed_script parsed_type)

lemma parsed_indexer_cell: "parse_indexer_cell v ctx = Inr c \<Longrightarrow> cell_ok c"
  by (auto simp: parse_indexer_cell_def cell_ok_def hex_bytes_def intro: parsed_out_point parsed_cell_output
    split: if_splits)

lemma parsed_each:
  assumes "parse_each f ctx i vs = Inr xs" and "\<And>v ctx x. f v ctx = Inr x \<Longrightarrow> ok x"
  shows "list_all ok xs"
  using assms(1) by (induction vs arbitrary: i xs) (auto intro: assms(2))

lemma parsed_list:
  "parse_list f v ctx = Inr xs \<Longrightarrow> (\<And>v ctx x. f v ctx = Inr x \<Longrightarrow> ok x) \<Longrightarrow> list_all ok xs"
  by (auto simp: parse_list_def intro: parsed_each)

lemma parsed_page: "parse_cells_page v = Inr p \<Longrightarrow> list_all cell_ok (pa_cells p)"
  by (auto simp: parse_cells_page_def intro: parsed_each parsed_indexer_cell)

lemma parsed_cell_dep: "parse_cell_dep body v ctx = Inr d \<Longrightarrow> cell_dep_ok d"
  by (auto simp: parse_cell_dep_def cell_dep_ok_def intro: parsed_body_out_point)

lemma parsed_cell_input: "parse_cell_input body v ctx = Inr i \<Longrightarrow> input_ok i"
  by (auto simp: parse_cell_input_def input_ok_def intro: parsed_body_out_point)

lemma parsed_body: "parse_transaction_body v ctx = Inr t \<Longrightarrow> transaction_ok t"
  by (auto simp: parse_transaction_body_def transaction_ok_def parts_ok_def
    intro: parsed_list parsed_cell_dep parsed_cell_input parsed_wire_output split: if_splits)

subsection \<open>What is sent is read back\<close>

text \<open>The body of the request, with the members that the node gives back.\<close>

definition rpc_cell_dep :: "cell_dep \<Rightarrow> jvalue" where
  "rpc_cell_dep d = Jobj [(points ''out_point'', rpc_out_point (op_tx_hash (cd_out_point d)) (op_index (cd_out_point d))),
     (points ''dep_type'', jtext (dep_type_name (cd_dep_type d)))]"

definition rpc_input :: "cell_input \<Rightarrow> jvalue" where
  "rpc_input i = Jobj [(points ''previous_output'', rpc_out_point (op_tx_hash (in_previous i)) (op_index (in_previous i))),
     (points ''since'', jtext (in_since i))]"

definition rpc_body :: "transaction \<Rightarrow> jvalue" where
  "rpc_body t = Jobj [(points ''version'', jtext (tx_version t)),
     (points ''cell_deps'', Jarr (map rpc_cell_dep (tx_cell_deps t))),
     (points ''header_deps'', Jarr (map jtext (tx_header_deps t))),
     (points ''inputs'', Jarr (map rpc_input (tx_inputs t))),
     (points ''outputs'', Jarr (map rpc_output (tx_outputs t))),
     (points ''outputs_data'', Jarr (map jtext (tx_outputs_data t))),
     (points ''witnesses'', Jarr (map jtext (tx_witnesses t)))]"

lemma each_iff:
  assumes "\<And>x ctx y. x \<in> set xs \<Longrightarrow> f (Some (g x)) ctx = Inr y \<longleftrightarrow> ok x \<and> y = h x"
  shows "parse_each f ctx i (map g xs) = Inr ys \<longleftrightarrow> list_all ok xs \<and> ys = map h xs"
  using assms by (induction xs arbitrary: i ys) auto

lemma list_iff:
  assumes "\<And>x ctx y. f (Some (g x)) ctx = Inr y \<longleftrightarrow> ok x \<and> y = h x"
  shows "parse_list f (Some (Jarr (map g xs))) ctx = Inr ys \<longleftrightarrow> list_all ok xs \<and> ys = map h xs"
  by (simp add: parse_list_def each_iff [of xs f g ok h] assms)

text \<open>The converse, for items read from arbitrary values.\<close>

lemma each_read:
  assumes "parse_each f ctx i vs = Inr ys"
    and "\<forall>v ctx y. f (Some v) ctx = Inr y \<longrightarrow> (\<exists>x. ok x \<and> y = h x)"
  shows "\<exists>xs. list_all ok xs \<and> ys = map h xs"
  using assms(1)
proof (induction vs arbitrary: i ys)
  case (Cons v vs)
  then obtain y zs where y: "f (Some v) (ctx @ ''['' @ decimal i @ '']'') = Inr y"
      and zs: "parse_each f ctx (Suc i) vs = Inr zs" and ys: "ys = y # zs"
    by auto
  obtain x where "ok x" "y = h x" using assms(2) y by blast
  moreover obtain xs where "list_all ok xs" "zs = map h xs" using Cons.IH [OF zs] by blast
  ultimately have "list_all ok (x # xs) \<and> ys = map h (x # xs)" using ys by simp
  then show ?case by blast
qed simp

lemma list_read:
  assumes "parse_list f v ctx = Inr ys"
    and "\<forall>v ctx y. f (Some v) ctx = Inr y \<longrightarrow> (\<exists>x. ok x \<and> y = h x)"
  shows "\<exists>xs. list_all ok xs \<and> ys = map h xs"
  using assms(1) each_read [OF _ assms(2)] by (auto simp: parse_list_def)

lemmas script_readers = parse_script_def parse_outgoing_script_def script_to_rpc_def script_json_def prop_of_def script_ok_def

lemma read_script [simp]:
  "parse_script (Some (script_to_rpc sc)) ctx = Inr sc' \<longleftrightarrow> script_ok sc \<and> sc' = sc"
  "parse_outgoing_script (Some (script_json sc)) ctx = Inr sc' \<longleftrightarrow> script_ok sc \<and> sc' = sc"
  by (cases sc; cases sc'; auto simp: script_readers)+

lemma read_type [simp]:
  "optional_script parse_script (Some (type_to_rpc ty)) ctx = Inr ty' \<longleftrightarrow> type_ok ty \<and> ty' = ty"
  "optional_script parse_outgoing_script (Some (case ty of None \<Rightarrow> Jnull | Some sc \<Rightarrow> script_json sc)) ctx = Inr ty'
     \<longleftrightarrow> type_ok ty \<and> ty' = ty"
  by (cases ty; auto simp: optional_script_def type_to_rpc_def type_ok_def; simp add: script_to_rpc_def script_json_def)+

lemma read_output [simp]: "parse_wire_output (Some (rpc_output w)) ctx = Inr w' \<longleftrightarrow> output_ok w \<and> w' = w"
  by (cases w; cases w') (auto simp: parse_wire_output_def rpc_output_def prop_of_def output_ok_def)

lemma write_output: "output_to_rpc (Some (output_json w)) ctx = Inr j \<longleftrightarrow> output_ok w \<and> j = rpc_output w"
  by (cases w) (auto simp: output_to_rpc_def output_json_def prop_of_def output_ok_def)

lemma read_cell_dep [simp]: "parse_cell_dep body (Some (rpc_cell_dep d)) ctx = Inr d' \<longleftrightarrow> cell_dep_ok d \<and> d' = d"
  by (cases d; cases d'; cases "cd_out_point d")
    (auto simp: parse_cell_dep_def parse_body_out_point_def rpc_cell_dep_def rpc_out_point_def prop_of_def cell_dep_ok_def
      out_point_ok_def u32_u64)

lemma write_cell_dep: "cell_dep_to_rpc (Some (cell_dep_json d)) ctx = Inr j \<longleftrightarrow> cell_dep_ok d \<and> j = rpc_cell_dep d"
  by (auto simp: cell_dep_to_rpc_def cell_dep_json_def out_point_json_def rpc_cell_dep_def prop_of_def cell_dep_ok_def
      out_point_ok_def)

lemma read_input [simp]: "parse_cell_input body (Some (rpc_input i)) ctx = Inr i' \<longleftrightarrow> input_ok i \<and> i' = i"
  by (cases i; cases i'; cases "in_previous i")
    (auto simp: parse_cell_input_def parse_body_out_point_def rpc_input_def rpc_out_point_def prop_of_def input_ok_def
      out_point_ok_def u32_u64)

lemma write_input: "input_to_rpc (Some (input_json i)) ctx = Inr j \<longleftrightarrow> input_ok i \<and> j = rpc_input i"
  by (auto simp: input_to_rpc_def input_json_def out_point_json_def rpc_input_def prop_of_def input_ok_def out_point_ok_def)

lemma read_texts [simp]:
  "parse_list as_hex (Some (Jarr (map jtext xs))) ctx = Inr ys \<longleftrightarrow> list_all hex_bytes xs \<and> ys = xs"
  "parse_list as_hash (Some (Jarr (map jtext xs))) ctx = Inr ys \<longleftrightarrow> list_all hash_ok xs \<and> ys = xs"
  using list_iff [of as_hex jtext hex_bytes id xs ctx ys] list_iff [of as_hash jtext hash_ok id xs ctx ys] by auto

lemma write_texts [simp]:
  "parse_list (text_to_rpc as_hex) (Some (Jarr (map jtext xs))) ctx = Inr ys \<longleftrightarrow> list_all hex_bytes xs \<and> ys = map jtext xs"
  "parse_list (text_to_rpc as_hash) (Some (Jarr (map jtext xs))) ctx = Inr ys \<longleftrightarrow> list_all hash_ok xs \<and> ys = map jtext xs"
  using list_iff [of "text_to_rpc as_hex" jtext hex_bytes jtext xs ctx ys]
    list_iff [of "text_to_rpc as_hash" jtext hash_ok jtext xs ctx ys]
  by (auto simp: text_to_rpc_def)

lemma read_items [simp]:
  "parse_list parse_wire_output (Some (Jarr (map rpc_output ws))) ctx = Inr ws' \<longleftrightarrow> list_all output_ok ws \<and> ws' = ws"
  "parse_list (parse_cell_dep body) (Some (Jarr (map rpc_cell_dep ds))) ctx = Inr ds' \<longleftrightarrow> list_all cell_dep_ok ds \<and> ds' = ds"
  "parse_list (parse_cell_input body) (Some (Jarr (map rpc_input is))) ctx = Inr is' \<longleftrightarrow> list_all input_ok is \<and> is' = is"
  using list_iff [of parse_wire_output rpc_output output_ok id] list_iff [of "parse_cell_dep body" rpc_cell_dep cell_dep_ok id]
    list_iff [of "parse_cell_input body" rpc_input input_ok id]
  by simp_all

lemmas write_items [simp] =
  list_iff [of output_to_rpc output_json output_ok rpc_output, OF write_output]
  list_iff [of cell_dep_to_rpc cell_dep_json cell_dep_ok rpc_cell_dep, OF write_cell_dep]
  list_iff [of input_to_rpc input_json input_ok rpc_input, OF write_input]

lemma read_body:
  "parse_transaction_body (Some (rpc_body t)) ctx = Inr t' \<longleftrightarrow> transaction_ok t \<and> t' = t"
  by (cases t; cases t')
    (auto simp: parse_transaction_body_def rpc_body_def prop_of_def transaction_ok_def parts_ok_def)

lemma write_body:
  "transaction_to_rpc (transaction_json t) = Inr j \<longleftrightarrow> sendable t \<and> j = rpc_body t"
  by (auto simp: transaction_to_rpc_def transaction_json_def rpc_body_def prop_of_def sendable_def parts_ok_def)

section \<open>The journal of a transaction\<close>

text \<open>wire.ts: the records of the transaction of the CCC library, as far as \<open>cccTransactionToWire\<close>
  reads them; its hashes and byte strings are normalised hex texts, its numbers bigints.\<close>

record ccc_out_point =
  po_tx_hash :: string
  po_index :: nat

record ccc_dep =
  de_out_point :: ccc_out_point
  de_dep_type :: dep_type

record ccc_input =
  ci_previous :: ccc_out_point
  ci_since :: nat

record ccc_transaction =
  ct_version :: nat
  ct_deps :: "ccc_dep list"
  ct_headers :: "string list"
  ct_inputs :: "ccc_input list"
  ct_outputs :: "cell_output list"
  ct_data :: "string list"
  ct_witnesses :: "string list"

definition wire_out_point :: "ccc_out_point \<Rightarrow> out_point" where
  "wire_out_point op = \<lparr>op_tx_hash = po_tx_hash op, op_index = quantity (po_index op)\<rparr>"

definition ccc_transaction_to_wire :: "ccc_transaction \<Rightarrow> transaction" where
  "ccc_transaction_to_wire tx = \<lparr>tx_version = quantity (ct_version tx),
     tx_cell_deps = map (\<lambda>d. \<lparr>cd_out_point = wire_out_point (de_out_point d), cd_dep_type = de_dep_type d\<rparr>) (ct_deps tx),
     tx_header_deps = ct_headers tx,
     tx_inputs = map (\<lambda>i. \<lparr>in_previous = wire_out_point (ci_previous i), in_since = quantity (ci_since i)\<rparr>) (ct_inputs tx),
     tx_outputs = map (\<lambda>w. \<lparr>wo_capacity = quantity (ou_capacity w), wo_lock = ou_lock w, wo_type = ou_type w\<rparr>) (ct_outputs tx),
     tx_outputs_data = ct_data tx, tx_witnesses = ct_witnesses tx\<rparr>"

definition journal_text :: "jvalue \<Rightarrow> string" where
  "journal_text v = js_text (json_print v)"

definition parse_journal :: "string \<Rightarrow> failure + jvalue" where
  "parse_journal s = (case json_parse (js_points s) of
       None \<Rightarrow> Inl (OtherError ''SyntaxError'')
     | Some v \<Rightarrow> Inr v)"

subsection \<open>Quantities\<close>

lemma hex_digit_small: "d < 16 \<Longrightarrow> is_hex (hex_digits ! d) \<and> hex_value (hex_digits ! d) = Some d"
  by (simp add: hex_value_digit lower_hex_is_hex hex_digit_lower)

lemma hex_of_digits: "list_all is_hex (hex_of n) \<and> hex_of n \<noteq> []"
proof (induction n rule: hex_of.induct)
  case (1 n)
  then show ?case by (subst (1 2) hex_of.simps) (auto simp: hex_digit_small)
qed

lemma hex_of_value: "foldl (\<lambda>n c. 16 * n + the (hex_value c)) 0 (hex_of n) = n"
proof (induction n rule: hex_of.induct)
  case (1 n)
  then show ?case by (subst hex_of.simps) (auto simp: hex_digit_small)
qed

lemma quantity_ok [simp]: "hex_quantity (quantity n)" "big_int (quantity n) = n"
  using hex_of_digits [of n] by (auto simp: hex_quantity_def quantity_def big_int_def hex_of_value)

lemma quantity_u64 [simp]: "u64_ok (quantity n) \<longleftrightarrow> n \<le> u64_max" "u32_ok (quantity n) \<longleftrightarrow> n \<le> u32_max"
  by (simp_all add: u64_ok_def u32_ok_def)

subsection \<open>Texts\<close>

lemma text_encode_js_text: "text_encode (js_text t) = utf8_encode t"
proof -
  have "word_of_nat (unat b mod 256) = b" for b :: byte by (simp add: byte_lt)
  then show ?thesis by (simp add: text_encode_def js_text_def o_def)
qed

lemma js_points_text: "\<forall>c \<in> set t. scalar c \<Longrightarrow> js_points (js_text t) = t"
  by (simp add: js_points_def text_encode_js_text utf8_run_encode)

lemma scalar_points: "\<forall>c \<in> set (points s). scalar c"
  using points_scalar by blast

lemma journal_read_back: "printable v \<Longrightarrow> parse_journal (journal_text v) = Inr v"
  by (simp add: parse_journal_def journal_text_def js_points_text print_scalar parse_print)

lemma printable_jtext [simp]: "printable (jtext s)"
  using scalar_points by (simp add: jtext_def)

lemma printable_member [simp]:
  "printable (Jobj ms) \<longleftrightarrow> distinct (map fst ms) \<and> (\<forall>(k, v) \<in> set ms. (\<forall>c \<in> set k. scalar c) \<and> printable v)"
  by simp

lemma transaction_printable: "printable (transaction_json t)"
proof -
  have script: "printable (script_json sc)" for sc
    using scalar_points by (simp add: script_json_def)
  have point: "printable (out_point_json op)" for op
    using scalar_points by (simp add: out_point_json_def)
  have dep: "printable (cell_dep_json d)" for d
    using scalar_points point by (simp add: cell_dep_json_def)
  have input: "printable (input_json i)" for i
    using scalar_points point by (simp add: input_json_def)
  have out: "printable (output_json w)" for w
    using scalar_points script by (simp add: output_json_def split: option.splits)
  show ?thesis
    using scalar_points dep input out by (simp add: transaction_json_def)
qed

section \<open>Results of the operations\<close>

lemma env_call_result:
  "fst (env_call_of m w) = Inr x \<Longrightarrow> wp m (\<lambda>a _. P a) (\<lambda>_ _. True) (w, 0) \<Longrightarrow> P x"
  by (auto simp: env_call_of_def wp_def split: prod.splits)

lemma wp_request: "(\<And>v t. Q v t) \<Longrightarrow> wp (request T url method ps) Q (\<lambda>_ _. True) s"
  by (auto simp: wp_def request_def split: prod.splits sum.splits)

lemma found_cells:
  assumes "fst (env_call_of (find_cells C q) w) = Inr page"
  shows "list_all cell_ok (pa_cells page)"
proof (rule env_call_result [OF assms])
  show "wp (find_cells C q) (\<lambda>a _. list_all cell_ok (pa_cells a)) (\<lambda>_ _. True) (w, 0)"
    unfolding find_cells_def call_indexer_def
    by (auto simp: wp_andthen wp_lift_result parsed_page intro!: wp_request split: sum.splits)
qed

lemma found_body:
  assumes "fst (env_call_of (get_transaction_body C h) w) = Inr (Some t)"
  shows "transaction_ok t"
proof -
  have "case r of None \<Rightarrow> True | Some t \<Rightarrow> transaction_ok t"
    if "fst (env_call_of (get_transaction_body C h) w) = Inr r" for r
  proof (rule env_call_result [OF that])
    show "wp (get_transaction_body C h) (\<lambda>a _. case a of None \<Rightarrow> True | Some t \<Rightarrow> transaction_ok t) (\<lambda>_ _. True) (w, 0)"
      unfolding get_transaction_body_def call_node_def
      by (auto simp: wp_andthen wp_lift_result wp_ret parsed_body intro!: wp_request split: sum.splits)
  qed
  from this [OF assms] show ?thesis by simp
qed

lemma committed_status:
  assumes "fst (env_call_of (get_transaction C h) w) = Inr (TxCommitted block number)"
  shows "hash_ok block \<and> u64_ok number"
proof -
  let ?P = "\<lambda>st. \<forall>b n. st = TxCommitted b n \<longrightarrow> hash_ok b \<and> u64_ok n"
  have header: "parse_tip_header v = Inr x \<Longrightarrow> u64_ok (he_number x)" for v x
    by (auto simp: parse_tip_header_def)
  have raw: "parse_transaction_status v = Inr (RawCommitted b) \<Longrightarrow> hash_ok b" for v b
    by (auto simp: parse_transaction_status_def split: if_splits)
  have "?P r" if "fst (env_call_of (get_transaction C h) w) = Inr r" for r
  proof (rule env_call_result [OF that])
    show "wp (get_transaction C h) (\<lambda>a _. ?P a) (\<lambda>_ _. True) (w, 0)"
      unfolding get_transaction_def call_node_def
      by (auto simp: wp_andthen wp_lift_result wp_ret header raw intro!: wp_request split: sum.splits raw_status.splits)
  qed
  from this [OF assms] show ?thesis by simp
qed

subsection \<open>What can leave the process\<close>

lemma sent_cell_dep: "cell_dep_to_rpc (Some v) ctx = Inr j \<Longrightarrow> \<exists>d. cell_dep_ok d \<and> j = rpc_cell_dep d"
proof -
  assume "cell_dep_to_rpc (Some v) ctx = Inr j"
  then obtain h i d where "hash_ok h" "u32_ok i" and j: "j = Jobj [(points ''out_point'', rpc_out_point h i), (points ''dep_type'', jtext (dep_type_name d))]"
    by (auto simp: cell_dep_to_rpc_def)
  then have "cell_dep_ok \<lparr>cd_out_point = \<lparr>op_tx_hash = h, op_index = i\<rparr>, cd_dep_type = d\<rparr> \<and>
      j = rpc_cell_dep \<lparr>cd_out_point = \<lparr>op_tx_hash = h, op_index = i\<rparr>, cd_dep_type = d\<rparr>"
    by (simp add: cell_dep_ok_def out_point_ok_def rpc_cell_dep_def)
  then show ?thesis by blast
qed

lemma sent_input: "input_to_rpc (Some v) ctx = Inr j \<Longrightarrow> \<exists>i. input_ok i \<and> j = rpc_input i"
proof -
  assume "input_to_rpc (Some v) ctx = Inr j"
  then obtain h i n where "hash_ok h" "u32_ok i" "u64_ok n" and j: "j = Jobj [(points ''previous_output'', rpc_out_point h i), (points ''since'', jtext n)]"
    by (auto simp: input_to_rpc_def)
  then have "input_ok \<lparr>in_previous = \<lparr>op_tx_hash = h, op_index = i\<rparr>, in_since = n\<rparr> \<and>
      j = rpc_input \<lparr>in_previous = \<lparr>op_tx_hash = h, op_index = i\<rparr>, in_since = n\<rparr>"
    by (simp add: input_ok_def out_point_ok_def rpc_input_def)
  then show ?thesis by blast
qed

lemma sent_output: "output_to_rpc (Some v) ctx = Inr j \<Longrightarrow> \<exists>w. output_ok w \<and> j = rpc_output w"
proof -
  assume "output_to_rpc (Some v) ctx = Inr j"
  then obtain c l ty ty' v' where "u64_ok c" "script_ok l" and ty: "optional_script parse_outgoing_script ty' v' = Inr ty"
      and j: "j = rpc_output \<lparr>wo_capacity = c, wo_lock = l, wo_type = ty\<rparr>"
    by (auto simp: output_to_rpc_def dest: parsed_outgoing_script)
  then have "output_ok \<lparr>wo_capacity = c, wo_lock = l, wo_type = ty\<rparr>"
    using parsed_type [OF ty] parsed_outgoing_script by (simp add: output_ok_def)
  with j show ?thesis by blast
qed

lemma sent_text:
  "text_to_rpc as_hash (Some v) ctx = Inr j \<Longrightarrow> \<exists>s. hash_ok s \<and> j = jtext s"
  "text_to_rpc as_hex (Some v) ctx = Inr j \<Longrightarrow> \<exists>s. hex_bytes s \<and> j = jtext s"
  by (auto simp: text_to_rpc_def)

lemma sent_body:
  assumes "transaction_to_rpc v = Inr b"
  shows "\<exists>t. sendable t \<and> b = rpc_body t"
proof -
  obtain ms ds hs ins ws xs ys n where parts:
      "parse_list cell_dep_to_rpc (prop_of ms ''cellDeps'') ''transaction.cell_deps'' = Inr ds"
      "parse_list (text_to_rpc as_hash) (prop_of ms ''headerDeps'') ''transaction.header_deps'' = Inr hs"
      "parse_list input_to_rpc (prop_of ms ''inputs'') ''transaction.inputs'' = Inr ins"
      "parse_list output_to_rpc (prop_of ms ''outputs'') ''transaction.outputs'' = Inr ws"
      "parse_list (text_to_rpc as_hex) (prop_of ms ''outputsData'') ''transaction.outputs_data'' = Inr xs"
      "parse_list (text_to_rpc as_hex) (prop_of ms ''witnesses'') ''transaction.witnesses'' = Inr ys"
      and n: "hex_quantity n" "length xs = length ws"
      and b: "b = Jobj [(points ''version'', jtext n), (points ''cell_deps'', Jarr ds), (points ''header_deps'', Jarr hs),
        (points ''inputs'', Jarr ins), (points ''outputs'', Jarr ws), (points ''outputs_data'', Jarr xs), (points ''witnesses'', Jarr ys)]"
    using assms by (auto simp: transaction_to_rpc_def)
  obtain ds' where d: "list_all cell_dep_ok ds'" "ds = map rpc_cell_dep ds'"
    using list_read [OF parts(1)] sent_cell_dep by blast
  obtain hs' where h: "list_all hash_ok hs'" "hs = map jtext hs'"
    using list_read [OF parts(2)] sent_text(1) by blast
  obtain ins' where i: "list_all input_ok ins'" "ins = map rpc_input ins'"
    using list_read [OF parts(3)] sent_input by blast
  obtain ws' where w: "list_all output_ok ws'" "ws = map rpc_output ws'"
    using list_read [OF parts(4)] sent_output by blast
  obtain xs' where x: "list_all hex_bytes xs'" "xs = map jtext xs'"
    using list_read [OF parts(5)] sent_text(2) by blast
  obtain ys' where y: "list_all hex_bytes ys'" "ys = map jtext ys'"
    using list_read [OF parts(6)] sent_text(2) by blast
  from d h i w x y n b have "sendable \<lparr>tx_version = n, tx_cell_deps = ds', tx_header_deps = hs', tx_inputs = ins', tx_outputs = ws',
      tx_outputs_data = xs', tx_witnesses = ys'\<rparr> \<and>
    b = rpc_body \<lparr>tx_version = n, tx_cell_deps = ds', tx_header_deps = hs', tx_inputs = ins', tx_outputs = ws',
      tx_outputs_data = xs', tx_witnesses = ys'\<rparr>"
    by (simp add: sendable_def parts_ok_def rpc_body_def)
  then show ?thesis by blast
qed

section \<open>The client behind the other theories\<close>

text \<open>The records of \<open>Cemp_Monitor\<close>, \<open>Cemp_Wallet\<close> and \<open>Cemp_Incoming\<close> filled with this client: the
  queries are those of wallet.ts and discovery.ts.\<close>

definition rpc_chain_client ::
  "'w client \<Rightarrow> (jvalue \<Rightarrow> ('w, unit) env_call) \<Rightarrow> ('w, jvalue) chain_client" where
  "rpc_chain_client C track_spend = \<lparr>
     cl_get_transaction = (\<lambda>h. env_call_of (get_transaction C h)),
     cl_get_live_cell = (\<lambda>h i. env_call_of (andthen (get_live_cell C \<lparr>op_tx_hash = h, op_index = quantity i\<rparr>)
       (\<lambda>st. ret (case st of
           CellLive c \<Rightarrow> LiveCell \<lparr>cell_tx_hash = h, cell_index = i, cell_capacity = int (big_int (wo_capacity (ce_output c)))\<rparr>
         | CellDead _ \<Rightarrow> DeadCell
         | CellUnknown _ \<Rightarrow> UnknownCell)))),
     cl_send_transaction = (\<lambda>tx. env_call_of (send_transaction C tx passthrough)),
     cl_track_spend = track_spend,
     cl_parse_tx = parse_journal,
     cl_stringify_tx = journal_text\<rparr>"

definition lock_query :: "script \<Rightarrow> search_order \<Rightarrow> nat \<Rightarrow> string option \<Rightarrow> cell_query" where
  "lock_query lock order limit cursor = \<lparr>cq_script = lock, cq_script_type = LockScript, cq_mode = Some ExactArgs,
     cq_filter = None, cq_after = map_option js_points cursor, cq_limit = Some (int limit), cq_order = Some order\<rparr>"

definition output_view :: "wire_output \<Rightarrow> cell_output" where
  "output_view w = \<lparr>ou_capacity = big_int (wo_capacity w), ou_lock = wo_lock w, ou_type = wo_type w\<rparr>"

definition rpc_wallet_provider :: "'w client \<Rightarrow> 'w wallet_provider" where
  "rpc_wallet_provider C = \<lparr>
     wr_find_cells = (\<lambda>lock limit cursor. env_call_of (andthen (find_cells C (lock_query lock Ascending limit cursor))
       (\<lambda>p. ret \<lparr>wp_cells = map (\<lambda>c. \<lparr>wc_output = output_view (ce_output c), wc_data = ce_data c\<rparr>) (pa_cells p),
         wp_cursor = js_text (pa_cursor p)\<rparr>))),
     wr_find_transactions = (\<lambda>lock limit cursor. env_call_of (andthen (find_transactions C (lock_query lock Descending limit cursor))
       (\<lambda>p. ret \<lparr>ip_transactions = map (\<lambda>x. \<lparr>it_tx_hash = wx_tx_hash x, it_block_number = wx_block_number x,
           it_is_input = wx_is_input x\<rparr>) (wq_transactions p),
         ip_cursor = js_text (wq_cursor p)\<rparr>))),
     wr_transaction_body = (\<lambda>h. env_call_of (andthen (get_transaction_body C h) (\<lambda>b. ret (map_option (\<lambda>t.
       \<lparr>tb_inputs = map (\<lambda>i. (op_tx_hash (in_previous i), big_int (op_index (in_previous i)))) (tx_inputs t),
        tb_outputs = map output_view (tx_outputs t)\<rparr>) b))))\<rparr>"

definition rpc_indexer :: "'w client \<Rightarrow> string \<Rightarrow> string \<Rightarrow> (string \<Rightarrow> failure + bytes) \<Rightarrow> 'w indexer" where
  "rpc_indexer C code_hash hash_type bytes_from = \<lparr>
     ix_bytes_from = bytes_from,
     ix_search = (\<lambda>prefix cursor. env_call_of (andthen (find_cells C
         \<lparr>cq_script = \<lparr>sc_code_hash = code_hash, sc_hash_type = hash_type, sc_args = ''0x'' @ bytes_to_hex prefix\<rparr>,
          cq_script_type = TypeScript, cq_mode = Some PrefixArgs, cq_filter = None,
          cq_after = map_option js_points cursor, cq_limit = None, cq_order = Some Ascending\<rparr>)
       (\<lambda>p. ret \<lparr>pg_cells = map (\<lambda>c. \<lparr>ic_type_args = map_option sc_args (wo_type (ce_output c)), ic_data = ce_data c,
           ic_tx_hash = op_tx_hash (ce_out_point c), ic_index = op_index (ce_out_point c)\<rparr>) (pa_cells p),
         pg_last_cursor = js_text (pa_cursor p)\<rparr>)))\<rparr>"

text \<open>An honest indexer prints a page so that the client reads it back; with an abstract search behind
  the transport the client is that search.\<close>

definition rpc_cell :: "wire_cell \<Rightarrow> jvalue" where
  "rpc_cell c = Jobj [(points ''out_point'', rpc_out_point (op_tx_hash (ce_out_point c)) (op_index (ce_out_point c))),
     (points ''output'', rpc_output (ce_output c)), (points ''output_data'', jtext (ce_data c)),
     (points ''block_number'', case ce_block_number c of None \<Rightarrow> Jnull | Some n \<Rightarrow> jtext n)]"

definition rpc_page :: "wire_page \<Rightarrow> jvalue" where
  "rpc_page p = Jobj [(points ''last_cursor'', Jstr (pa_cursor p)), (points ''objects'', Jarr (map rpc_cell (pa_cells p)))]"

lemma read_cell_output [simp]: "parse_cell_output (Some (rpc_output w)) ctx = Inr w' \<longleftrightarrow> output_ok w \<and> w' = w"
  by (cases w; cases w') (auto simp: parse_cell_output_def rpc_output_def prop_of_def output_ok_def)

lemma read_out_point [simp]:
  "parse_out_point (Some (rpc_out_point h i)) ctx = Inr op \<longleftrightarrow> hash_ok h \<and> u32_ok i \<and> op = \<lparr>op_tx_hash = h, op_index = i\<rparr>"
  by (auto simp: parse_out_point_def rpc_out_point_def prop_of_def)

lemma read_cell: "parse_indexer_cell (Some (rpc_cell c)) ctx = Inr c' \<longleftrightarrow> cell_ok c \<and> c' = c"
proof (cases "ce_block_number c")
  case None
  then show ?thesis by (auto simp: parse_indexer_cell_def rpc_cell_def prop_of_def cell_ok_def jtext_def)
next
  case (Some n)
  then show ?thesis
    by (cases c; cases c'; cases "ce_out_point c")
      (auto simp: parse_indexer_cell_def rpc_cell_def prop_of_def cell_ok_def out_point_ok_def; simp add: jtext_def)
qed

lemma read_page: "parse_cells_page (Some (rpc_page p)) = Inr p' \<longleftrightarrow> list_all cell_ok (pa_cells p) \<and> p' = p"
  using each_iff [of "pa_cells p" parse_indexer_cell rpc_cell cell_ok id] read_cell
  by (cases p; cases p') (auto simp: parse_cells_page_def rpc_page_def prop_of_def)

text \<open>The transactions that the library can build.\<close>

definition ccc_point_ok :: "ccc_out_point \<Rightarrow> bool" where
  "ccc_point_ok op \<longleftrightarrow> hash_ok (po_tx_hash op) \<and> po_index op \<le> u32_max"

definition ccc_ok :: "ccc_transaction \<Rightarrow> bool" where
  "ccc_ok tx \<longleftrightarrow> ct_version tx \<le> u64_max \<and> list_all (\<lambda>d. ccc_point_ok (de_out_point d)) (ct_deps tx)
     \<and> list_all hash_ok (ct_headers tx)
     \<and> list_all (\<lambda>i. ccc_point_ok (ci_previous i) \<and> ci_since i \<le> u64_max) (ct_inputs tx)
     \<and> list_all (\<lambda>w. ou_capacity w \<le> u64_max \<and> script_ok (ou_lock w) \<and> type_ok (ou_type w)) (ct_outputs tx)
     \<and> list_all hex_bytes (ct_data tx) \<and> length (ct_data tx) = length (ct_outputs tx)
     \<and> list_all hex_bytes (ct_witnesses tx)"

lemma wire_ok: "transaction_ok (ccc_transaction_to_wire tx) \<longleftrightarrow> ccc_ok tx"
  by (auto simp: transaction_ok_def parts_ok_def ccc_ok_def ccc_transaction_to_wire_def list.pred_map o_def cell_dep_ok_def
    out_point_ok_def wire_out_point_def ccc_point_ok_def input_ok_def output_ok_def)

lemma ok_sendable: "transaction_ok t \<Longrightarrow> sendable t"
  by (simp add: transaction_ok_def sendable_def u64_ok_def)

lemma broadcast_text:
  assumes "transaction_ok t"
  shows "sum_bind (parse_journal (journal_text (transaction_json t))) transaction_to_rpc = Inr (rpc_body t)"
proof -
  have "parse_journal (journal_text (transaction_json t)) = Inr (transaction_json t)"
    by (rule journal_read_back) (rule transaction_printable)
  moreover have "transaction_to_rpc (transaction_json t) = Inr (rpc_body t)"
    by (simp add: write_body ok_sendable assms)
  ultimately show ?thesis by (simp add: sum_bind_def)
qed

section \<open>Properties\<close>

text \<open>
  C16. The journaled text of a transaction is its broadcast: for every transaction whose numbers fit
  their widths, the text written before the first send, read back after a crash, is accepted by
  the checks of the sender, and the body they produce is, for a node that echoes it, exactly the
  transaction that was serialised.
\<close>

theorem journaled_body_is_broadcast:
  assumes "ccc_ok tx"
  shows "sum_bind (sum_bind (parse_journal (journal_text (transaction_json (ccc_transaction_to_wire tx)))) transaction_to_rpc)
      (\<lambda>body. parse_transaction_body (Some body) ctx)
    = Inr (ccc_transaction_to_wire tx)"
proof -
  have ok: "transaction_ok (ccc_transaction_to_wire tx)" using assms by (simp add: wire_ok)
  show ?thesis
    unfolding broadcast_text [OF ok] by (simp add: read_body ok)
qed

definition example_hash :: string where
  "example_hash = ''0x'' @ replicate 64 (CHR ''a'')"

definition example_lock :: script where
  "example_lock = \<lparr>sc_code_hash = example_hash, sc_hash_type = ''type'', sc_args = ''0xAb''\<rparr>"

definition example_transaction :: ccc_transaction where
  "example_transaction = \<lparr>ct_version = 0,
     ct_deps = [\<lparr>de_out_point = \<lparr>po_tx_hash = example_hash, po_index = 3\<rparr>, de_dep_type = DepGroup\<rparr>],
     ct_headers = [], ct_inputs = [\<lparr>ci_previous = \<lparr>po_tx_hash = example_hash, po_index = 4294967295\<rparr>, ci_since = 0\<rparr>],
     ct_outputs = [\<lparr>ou_capacity = 18446744073709551615, ou_lock = example_lock, ou_type = Some example_lock\<rparr>],
     ct_data = [''0xdead''], ct_witnesses = [''0x'']\<rparr>"

lemma example_hash_ok: "hash_ok example_hash"
  by (simp add: hash_ok_def hex_bytes_def example_hash_def is_hex_def hex_digits_def list_all_iff)

lemma example_ok: "ccc_ok example_transaction"
  using example_hash_ok
  by (simp add: ccc_ok_def example_transaction_def ccc_point_ok_def script_ok_def type_ok_def example_lock_def u64_max_def u32_max_def
    hash_types_def hex_bytes_def is_hex_def hex_digits_def upper_hex_digits_def)

theorem journaled_body_witness:
  "sum_bind (sum_bind (parse_journal (journal_text (transaction_json (ccc_transaction_to_wire example_transaction)))) transaction_to_rpc)
      (\<lambda>body. parse_transaction_body (Some body) ''t'')
    = Inr (ccc_transaction_to_wire example_transaction)"
  by (rule journaled_body_is_broadcast [OF example_ok])

text \<open>
  Only well-formed transactions leave the process: whatever JSON value a journal holds, the body
  that the sender makes of it, if it makes one, is that of a transaction whose every hash, script,
  index, capacity and byte string has the shape and the width that the chain requires.
\<close>

theorem only_well_formed_is_sent:
  "transaction_to_rpc v = Inr body \<Longrightarrow> \<exists>t. sendable t \<and> body = rpc_body t"
  by (rule sent_body)

theorem only_well_formed_witness:
  "\<exists>t. sendable t \<and> rpc_body (ccc_transaction_to_wire example_transaction) = rpc_body t"
proof (rule only_well_formed_is_sent)
  show "transaction_to_rpc (transaction_json (ccc_transaction_to_wire example_transaction))
      = Inr (rpc_body (ccc_transaction_to_wire example_transaction))"
    using example_ok by (simp add: write_body ok_sendable wire_ok)
qed

text \<open>
  The cells of a search are well formed whatever the indexer answers: over every transport, a page
  that the client returns holds only cells whose hashes, scripts, capacities, block numbers and data
  passed the checks.
\<close>

theorem searched_cells_are_checked:
  "fst (env_call_of (find_cells C q) w) = Inr page \<Longrightarrow> list_all cell_ok (pa_cells page)"
  by (rule found_cells)

definition example_cell :: wire_cell where
  "example_cell = \<lparr>ce_out_point = \<lparr>op_tx_hash = example_hash, op_index = ''0x0''\<rparr>,
     ce_output = \<lparr>wo_capacity = ''0x10'', wo_lock = example_lock, wo_type = None\<rparr>, ce_data = ''0x00'', ce_block_number = Some ''0x7''\<rparr>"

lemma example_cell_ok: "cell_ok example_cell"
  using example_hash_ok
  by (simp add: cell_ok_def example_cell_def out_point_ok_def output_ok_def script_ok_def type_ok_def example_lock_def u64_ok_def
    u32_ok_def u64_max_def u32_max_def hash_types_def hex_bytes_def hex_quantity_def is_hex_def hex_digits_def upper_hex_digits_def
    big_int_def hex_value_def)

definition honest_client :: "wire_page \<Rightarrow> nat client" where
  "honest_client p = \<lparr>cc_endpoints = \<lparr>ep_rpc = ''rpc'', ep_indexer = ''indexer''\<rparr>,
     cc_transport = (\<lambda>url method params n. (Inr (Some (rpc_page p)), Suc n, 5))\<rparr>"

theorem searched_cells_witness:
  "list_all cell_ok (pa_cells \<lparr>pa_cells = [example_cell], pa_cursor = [120]\<rparr>)"
proof (rule searched_cells_are_checked)
  let ?p = "\<lparr>pa_cells = [example_cell], pa_cursor = [120]\<rparr>"
  let ?q = "lock_query example_lock Ascending 64 None"
  have "parse_cells_page (Some (rpc_page ?p)) = Inr ?p" by (simp add: read_page example_cell_ok)
  moreover have "\<exists>ps. search_params [(points ''with_data'', Jbool True)] ?q = Inr ps"
    by (simp add: search_params_def lock_query_def to_hex_quantity_def Let_def)
  ultimately show "fst (env_call_of (find_cells (honest_client ?p) ?q) 0) = Inr ?p"
    by (auto simp: env_call_of_def find_cells_def call_indexer_def request_def andthen_def lift_result_def ret_def honest_client_def)
qed

text \<open>
  A transaction that uses a dependency group cannot be read from a node: a node names such a
  dependency dep_group, the parser accepts only the spelling depGroup, and so every body that
  lists one is refused, whatever else it holds.
\<close>

theorem node_dep_group_is_refused:
  assumes "prop_of r ''cell_deps'' = Some (Jarr deps)" and "Jobj d \<in> set deps"
    and "prop_of d ''dep_type'' = Some (jtext ''dep_group'')"
  shows "parse_transaction_body (Some (Jobj r)) ctx \<noteq> Inr t"
proof
  assume "parse_transaction_body (Some (Jobj r)) ctx = Inr t"
  then obtain ds where "parse_list (parse_cell_dep ctx) (Some (Jarr deps)) (ctx @ ''.cell_deps'') = Inr ds"
    using assms(1) by (auto simp: parse_transaction_body_def)
  then have "parse_each (parse_cell_dep ctx) (ctx @ ''.cell_deps'') 0 deps = Inr ds" by (simp add: parse_list_def)
  moreover have "parse_each (parse_cell_dep ctx) c i vs \<noteq> Inr ds" if "Jobj d \<in> set vs" for c i vs ds
    using that
  proof (induction vs arbitrary: i ds)
    case (Cons v vs)
    have "parse_cell_dep ctx (Some (Jobj d)) x \<noteq> Inr y" for x y
      using assms(3) by (cases "cd_dep_type y") (auto simp: parse_cell_dep_def dep_type_name_def split: dep_type.splits)
    with Cons show ?case by auto
  qed simp
  ultimately show False using assms(2) by blast
qed

theorem node_dep_group_witness:
  "parse_transaction_body (Some (Jobj [(points ''cell_deps'', Jarr [Jobj [(points ''dep_type'', jtext ''dep_group'')]])])) ctx \<noteq> Inr t"
  by (rule node_dep_group_is_refused [where deps = "[Jobj [(points ''dep_type'', jtext ''dep_group'')]]" and
    d = "[(points ''dep_type'', jtext ''dep_group'')]"]) (simp_all add: prop_of_def)

end
