(* ===== verification/Cemp_Card.thy ===== *)
theory Cemp_Card
  imports Cemp_Client Cemp_Contacts
begin

text \<open>
  Contact cards: packages/cemp-core/src/contact-bundle.ts (the JSON of a card and its strict decoder),
  contact-import.ts (what a scanned text is) and the flow of
  apps/android/src/screens/scan-contact-screen.tsx that looks it up and saves it.

  A text is a list of code points; the hex fields of a card, which the decoder restricts to ASCII,
  are strings. A scanned value that is no string, which the native bridge can hand over, is \<open>None\<close>.
\<close>

section \<open>The card\<close>

record contact_bundle =
  cb_profile_type_id :: string
  cb_lock_script_hash :: string
  cb_address :: code_points
  cb_fingerprint :: string
  cb_network :: code_points

definition ckb_testnet :: string where
  "ckb_testnet = ''ckb_testnet''"

definition contact_bundle_protocol :: string where
  "contact_bundle_protocol = ''cemp-contact''"

definition contact_bundle_version :: int where
  "contact_bundle_version = 1"

definition bundle_json :: "contact_bundle \<Rightarrow> jvalue" where
  "bundle_json b = Jobj [(points ''protocol'', jtext contact_bundle_protocol),
     (points ''version'', Jnum (Some (of_int contact_bundle_version))), (points ''network'', Jstr (cb_network b)),
     (points ''profileTypeId'', jtext (cb_profile_type_id b)), (points ''lockScriptHash'', jtext (cb_lock_script_hash b)),
     (points ''address'', Jstr (cb_address b)), (points ''fingerprint'', jtext (cb_fingerprint b))]"

definition encode_contact_bundle :: "contact_bundle \<Rightarrow> code_points" where
  "encode_contact_bundle b = json_print (bundle_json b)"

datatype bundle_error =
    BundleNotJson | BundleNotObject | BundleProtocol | BundleVersion unknown | BundleNetwork unknown
  | BundleHash string | BundleAddress | BundleNotTestnet | BundleFingerprint

definition lower_hash32 :: "string \<Rightarrow> bool" where
  "lower_hash32 s \<longleftrightarrow> take 2 s = ''0x'' \<and> length s = 66 \<and> list_all is_lower_hex (drop 2 s)"

definition expect_hash32 :: "unknown \<Rightarrow> string \<Rightarrow> bundle_error + string" where
  "expect_hash32 v name = (case v of
       Some (Jstr t) \<Rightarrow> (case ascii t of
           Some s \<Rightarrow> if lower_hash32 s then Inr s else Inl (BundleHash name)
         | None \<Rightarrow> Inl (BundleHash name))
     | _ \<Rightarrow> Inl (BundleHash name))"

text \<open>\<open>length\<close> of a JavaScript string: its UTF-16 units.\<close>

definition utf16_length :: "code_points \<Rightarrow> nat" where
  "utf16_length t = (\<Sum>c \<leftarrow> t. if c < 0x10000 then 1 else 2)"

definition expect_address :: "unknown \<Rightarrow> string \<Rightarrow> bundle_error + code_points" where
  "expect_address v network = (case v of
       Some (Jstr a) \<Rightarrow>
         if utf16_length a = 0 \<or> utf16_length a > 128 then Inl BundleAddress
         else if network = ckb_testnet \<and> take 4 a \<noteq> points ''ckt1'' then Inl BundleNotTestnet
         else Inr a
     | _ \<Rightarrow> Inl BundleAddress)"

definition expect_fingerprint :: "unknown \<Rightarrow> bundle_error + string" where
  "expect_fingerprint v = (case v of
       Some (Jstr t) \<Rightarrow> (case ascii t of
           Some s \<Rightarrow> map_error (\<lambda>_. BundleFingerprint) (parse_fingerprint s)
         | None \<Rightarrow> Inl BundleFingerprint)
     | _ \<Rightarrow> Inl BundleFingerprint)"

definition decode_bundle_json :: "jvalue \<Rightarrow> string \<Rightarrow> bundle_error + contact_bundle" where
  "decode_bundle_json raw network = (case raw of
       Jobj obj \<Rightarrow>
         if prop_of obj ''protocol'' \<noteq> Some (jtext contact_bundle_protocol) then Inl BundleProtocol
         else if prop_of obj ''version'' \<noteq> Some (Jnum (Some (of_int contact_bundle_version)))
         then Inl (BundleVersion (prop_of obj ''version''))
         else if prop_of obj ''network'' \<noteq> Some (jtext network) then Inl (BundleNetwork (prop_of obj ''network''))
         else
           sum_bind (expect_hash32 (prop_of obj ''profileTypeId'') ''profileTypeId'') (\<lambda>profile.
           sum_bind (expect_hash32 (prop_of obj ''lockScriptHash'') ''lockScriptHash'') (\<lambda>lock.
           sum_bind (expect_address (prop_of obj ''address'') network) (\<lambda>address.
           sum_bind (expect_fingerprint (prop_of obj ''fingerprint'')) (\<lambda>fingerprint.
           Inr \<lparr>cb_profile_type_id = profile, cb_lock_script_hash = lock, cb_address = address,
                cb_fingerprint = fingerprint, cb_network = points network\<rparr>))))
     | _ \<Rightarrow> Inl BundleNotObject)"

definition decode_contact_bundle :: "code_points \<Rightarrow> string \<Rightarrow> bundle_error + contact_bundle" where
  "decode_contact_bundle t network = (case json_parse t of
       None \<Rightarrow> Inl BundleNotJson
     | Some raw \<Rightarrow> decode_bundle_json raw network)"

section \<open>What a scanned text is\<close>

datatype unreadable_reason = NotACard | UnsupportedVersion | WrongNetwork | Damaged

datatype scan_outcome =
    Addable contact_bundle
  | SelfCard contact_bundle
  | Duplicate contact_bundle nat
  | Unreadable unreadable_reason

definition classify_unreadable :: "code_points \<Rightarrow> unreadable_reason" where
  "classify_unreadable t = (case json_parse t of
       Some (Jobj obj) \<Rightarrow>
         if prop_of obj ''protocol'' \<noteq> Some (jtext contact_bundle_protocol) then NotACard
         else if prop_of obj ''version'' \<noteq> Some (Jnum (Some (of_int contact_bundle_version))) then UnsupportedVersion
         else if prop_of obj ''network'' \<noteq> Some (jtext ckb_testnet) then WrongNetwork
         else Damaged
     | _ \<Rightarrow> NotACard)"

definition normalize_profile_id :: "string \<Rightarrow> string" where
  "normalize_profile_id v = (let low = map ascii_lower v in
     if starts_with low ''0x'' then drop 2 low else low)"

definition classify_scanned_card ::
  "code_points option \<Rightarrow> string option \<Rightarrow> (string \<Rightarrow> nat option) \<Rightarrow> scan_outcome" where
  "classify_scanned_card input mine find_existing = (case input of
       None \<Rightarrow> Unreadable NotACard
     | Some raw \<Rightarrow>
         let trimmed = js_trim raw in
         case decode_contact_bundle trimmed ckb_testnet of
           Inl _ \<Rightarrow> Unreadable (classify_unreadable trimmed)
         | Inr bundle \<Rightarrow>
             let scanned = normalize_profile_id (cb_profile_type_id bundle) in
             if map_option normalize_profile_id mine = Some scanned then SelfCard bundle
             else case find_existing scanned of
                 Some i \<Rightarrow> Duplicate bundle i
               | None \<Rightarrow> Addable bundle)"

text \<open>The screen classifies first and asks the contact table, whose lookup is asynchronous, afterwards.\<close>

definition scan_card ::
  "code_points option \<Rightarrow> string option \<Rightarrow> ('x db_scheme, failure, scan_outcome) prog" where
  "scan_card input mine =
     (case classify_scanned_card input mine (\<lambda>_. None) of
       Addable b \<Rightarrow> andthen (get_contact_by_profile (normalize_profile_id (cb_profile_type_id b))) (\<lambda>c.
         ret (case c of Some r \<Rightarrow> Duplicate b (ct_id r) | None \<Rightarrow> Addable b))
     | other \<Rightarrow> ret other)"

definition save_card :: "string \<Rightarrow> contact_bundle \<Rightarrow> ('x db_scheme, failure, contact) prog" where
  "save_card name b = create_contact \<lparr>nc_display_name = name, nc_notes = None, nc_avatar = None,
     nc_profile_id = Some (normalize_profile_id (cb_profile_type_id b))\<rparr>"

section \<open>Lemmas\<close>

text \<open>The cards that the decoder returns for a network.\<close>

definition bundle_ok :: "string \<Rightarrow> contact_bundle \<Rightarrow> bool" where
  "bundle_ok network b \<longleftrightarrow> lower_hash32 (cb_profile_type_id b) \<and> lower_hash32 (cb_lock_script_hash b)
     \<and> 0 < utf16_length (cb_address b) \<and> utf16_length (cb_address b) \<le> 128
     \<and> (network = ckb_testnet \<longrightarrow> take 4 (cb_address b) = points ''ckt1'')
     \<and> parse_fingerprint (cb_fingerprint b) = Inr (cb_fingerprint b) \<and> cb_network b = points network"

lemma lower_hash32_plain: "lower_hash32 s \<Longrightarrow> plain_text s"
  using lower_hex_is_hex by (auto simp: lower_hash32_def list_all_iff intro!: hex_text_plain)

lemma expect_hash32_iff: "expect_hash32 v name = Inr s \<longleftrightarrow> v = Some (jtext s) \<and> lower_hash32 s"
proof
  assume "v = Some (jtext s) \<and> lower_hash32 s"
  moreover from this have "ascii (points s) = Some s" by (simp add: ascii_plain lower_hash32_plain)
  ultimately show "expect_hash32 v name = Inr s" by (simp add: expect_hash32_def jtext_def)
qed (auto simp: expect_hash32_def jtext_def ascii_plain split: option.splits jvalue.splits if_splits)

lemma expect_address_iff:
  "expect_address v network = Inr a \<longleftrightarrow> v = Some (Jstr a) \<and> 0 < utf16_length a \<and> utf16_length a \<le> 128
     \<and> (network = ckb_testnet \<longrightarrow> take 4 a = points ''ckt1'')"
  by (auto simp: expect_address_def split: option.splits jvalue.splits if_splits)

lemma parsed_fingerprint_stable: "parse_fingerprint t = Inr u \<Longrightarrow> parse_fingerprint u = Inr u"
  using fingerprint_parser_canonical [of t u] by (simp add: Let_def)

lemma canonical_fingerprint_plain:
  assumes "parse_fingerprint u = Inr u"
  shows "plain_text u"
proof -
  have hex: "list_all is_hex (filter (\<lambda>c. c \<noteq> CHR ''-'') u)"
    using assms fingerprint_parser_canonical [of u u] by (simp add: Let_def)
  have "(of_char c :: nat) < 128" if "c \<in> set u" for c
  proof (cases "c = CHR ''-''")
    case False
    with hex that have "is_hex c" by (auto simp: list_all_iff)
    then show ?thesis by (rule hex_char_small)
  qed simp
  then show ?thesis by (simp add: plain_text_def list_all_iff)
qed

lemma expect_fingerprint_sound: "expect_fingerprint v = Inr u \<Longrightarrow> parse_fingerprint u = Inr u"
  by (auto simp: expect_fingerprint_def map_error_def parsed_fingerprint_stable
    split: option.splits jvalue.splits sum.splits)

lemma expect_fingerprint_canonical:
  assumes "parse_fingerprint u = Inr u"
  shows "expect_fingerprint (Some (jtext u)) = Inr u"
proof -
  have "ascii (points u) = Some u" by (simp add: ascii_plain canonical_fingerprint_plain assms)
  then show ?thesis by (simp add: expect_fingerprint_def jtext_def map_error_def assms)
qed

lemma decoded_ok: "decode_contact_bundle t network = Inr b \<Longrightarrow> bundle_ok network b"
  by (auto simp: decode_contact_bundle_def decode_bundle_json_def bundle_ok_def expect_hash32_iff expect_address_iff
    expect_fingerprint_sound split: option.splits jvalue.splits if_splits)

lemma decode_json_ok: "bundle_ok network b \<Longrightarrow> decode_bundle_json (bundle_json b) network = Inr b"
  by (cases b) (simp add: decode_bundle_json_def bundle_json_def prop_of_def bundle_ok_def jtext_def [of network, symmetric]
    expect_hash32_iff expect_address_iff expect_fingerprint_canonical)

lemma bundle_printable: "\<forall>c \<in> set (cb_address b). scalar c \<Longrightarrow> cb_network b = points n \<Longrightarrow> printable (bundle_json b)"
  using scalar_points by (simp add: bundle_json_def contact_bundle_version_def double_limit_def)

lemma decode_encode:
  assumes "bundle_ok network b" and "\<forall>c \<in> set (cb_address b). scalar c"
  shows "decode_contact_bundle (encode_contact_bundle b) network = Inr b"
  using assms bundle_printable [of b network]
  by (simp add: decode_contact_bundle_def encode_contact_bundle_def parse_print decode_json_ok bundle_ok_def)

text \<open>A printed card begins with a brace and ends with one, so trimming leaves it alone.\<close>

lemma encoded_braces: "\<exists>t. encode_contact_bundle b = 123 # t @ [125]"
  unfolding encode_contact_bundle_def bundle_json_def json_print.simps by blast

lemma trim_encoded: "js_trim (encode_contact_bundle b) = encode_contact_bundle b"
proof -
  have "js_trim (123 # t @ [125]) = 123 # t @ [125]" for t
    by (simp add: js_trim_def js_space_def)
  then show ?thesis using encoded_braces [of b] by auto
qed

lemma classify_found:
  assumes "classify_scanned_card input mine (\<lambda>_. None) = Addable b"
  shows "classify_scanned_card input mine f = (case f (normalize_profile_id (cb_profile_type_id b)) of
      Some i \<Rightarrow> Duplicate b i | None \<Rightarrow> Addable b)"
  using assms by (auto simp: classify_scanned_card_def Let_def split: option.splits sum.splits if_splits)

lemma scan_addable:
  "scan_card input mine s = (Inr (Addable b), t) \<longleftrightarrow>
     classify_scanned_card input mine (\<lambda>_. None) = Addable b \<and> t = s \<and>
     find_contact_by_profile (normalize_profile_id (cb_profile_type_id b)) s = None"
  by (auto simp: scan_card_def get_contact_by_profile_def prog_defs split: scan_outcome.splits option.splits)

lemma find_by_profile_none:
  "find_contact_by_profile p s = None \<longleftrightarrow> \<not> list_ex (\<lambda>c. ct_profile_id c = Some p) (db_contacts s)"
  by (auto simp: find_contact_by_profile_def find_None_iff list_ex_iff)

lemma find_append_none: "List.find P xs = None \<Longrightarrow> List.find P (xs @ [x]) = (if P x then Some x else None)"
  by (induction xs) (auto split: if_splits)

lemma save_found:
  assumes "find_contact_by_profile (normalize_profile_id (cb_profile_type_id b)) s = None"
  shows "\<exists>c t. save_card name b s = (Inr c, t) \<and>
    find_contact_by_profile (normalize_profile_id (cb_profile_type_id b)) t = Some c"
proof -
  define inp where "inp = \<lparr>nc_display_name = name, nc_notes = None, nc_avatar = None,
     nc_profile_id = Some (normalize_profile_id (cb_profile_type_id b))\<rparr>"
  define c where "c = new_contact inp (db_clock s) (db_contacts s)"
  have "save_card name b s = (Inr c, s\<lparr>db_contacts := db_contacts s @ [c]\<rparr>)"
    using assms by (simp add: save_card_def create_contact_def now_def prog_defs profile_id_free_def find_by_profile_none
      inp_def c_def)
  moreover have "ct_profile_id c = Some (normalize_profile_id (cb_profile_type_id b))"
    by (simp add: c_def inp_def new_contact_def)
  then have "find_contact_by_profile (normalize_profile_id (cb_profile_type_id b)) (s\<lparr>db_contacts := db_contacts s @ [c]\<rparr>) = Some c"
    using assms by (simp add: find_contact_by_profile_def find_append_none)
  ultimately show ?thesis by blast
qed

lemma saved_then_scanned:
  assumes "scan_card input mine s = (Inr (Addable b), s)"
  shows "\<exists>c t. save_card name b s = (Inr c, t) \<and> scan_card input mine t = (Inr (Duplicate b (ct_id c)), t)"
proof -
  have addable: "classify_scanned_card input mine (\<lambda>_. None) = Addable b"
      and none: "find_contact_by_profile (normalize_profile_id (cb_profile_type_id b)) s = None"
    using assms by (simp_all add: scan_addable)
  obtain c t where "save_card name b s = (Inr c, t)"
      and found: "find_contact_by_profile (normalize_profile_id (cb_profile_type_id b)) t = Some c"
    using save_found [OF none] by blast
  moreover have "scan_card input mine t = (Inr (Duplicate b (ct_id c)), t)"
    by (simp add: scan_card_def addable get_contact_by_profile_def prog_defs found)
  ultimately show ?thesis by blast
qed

section \<open>Properties\<close>

text \<open>
  A card survives its code: the JSON of a valid card, whatever blanks surround it, is decoded to the
  same card, so that its owner scans it as his own and everybody else is offered exactly it.
\<close>

theorem card_round_trip:
  assumes "bundle_ok ckb_testnet b" and "\<forall>c \<in> set (cb_address b). scalar c"
    and "\<forall>c \<in> set (before @ behind). js_space c"
  shows "classify_scanned_card (Some (before @ encode_contact_bundle b @ behind)) mine (\<lambda>_. None)
    = (if map_option normalize_profile_id mine = Some (normalize_profile_id (cb_profile_type_id b)) then SelfCard b
       else Addable b)"
proof -
  have drop: "dropWhile js_space (xs @ c # t) = c # t" if "\<forall>x \<in> set xs. js_space x" "\<not> js_space c" for xs c t
    using that by (simp add: dropWhile_append2)
  obtain t where t: "encode_contact_bundle b = 123 # t @ [125]" using encoded_braces [of b] by blast
  have "js_trim (before @ 123 # t @ 125 # behind) = 123 # t @ [125]"
    using assms(3) by (simp add: js_trim_def drop) (simp add: js_space_def drop dropWhile_append2)
  then have "js_trim (before @ encode_contact_bundle b @ behind) = encode_contact_bundle b" by (simp add: t)
  then show ?thesis
    by (simp add: classify_scanned_card_def Let_def decode_encode [OF assms(1,2)])
qed

definition example_card :: contact_bundle where
  "example_card = \<lparr>cb_profile_type_id = ''0x'' @ replicate 64 (CHR ''1''), cb_lock_script_hash = ''0x'' @ replicate 64 (CHR ''2''),
     cb_address = points ''ckt1q'', cb_fingerprint = ''AAAA-AAAA-AAAA-AAAA-AAAA-AAAA-AAAA-AAAA'', cb_network = points ''ckb_testnet''\<rparr>"

lemma example_card_ok: "bundle_ok ckb_testnet example_card"
proof -
  have "parse_fingerprint ''AAAA-AAAA-AAAA-AAAA-AAAA-AAAA-AAAA-AAAA'' = Inr ''AAAA-AAAA-AAAA-AAAA-AAAA-AAAA-AAAA-AAAA''"
    by code_simp
  then show ?thesis
    by (simp add: bundle_ok_def example_card_def lower_hash32_def is_lower_hex_def hex_digits_def utf16_length_def points_def
      ckb_testnet_def list_all_iff)
qed

theorem card_round_trip_witness:
  "classify_scanned_card (Some ([10] @ encode_contact_bundle example_card @ [32])) None (\<lambda>_. None) = Addable example_card"
  using card_round_trip [OF example_card_ok, of "[10]" "[32]" None]
  by (simp add: example_card_def points_def scalar_def surrogate_def js_space_def)

text \<open>
  A saved card is recognised: whenever a scan offers a card as new, saving it succeeds, and scanning
  the same text again reports the contact that was saved, whatever the text looks like.
\<close>

theorem saved_card_is_recognised:
  assumes "scan_card input mine s = (Inr (Addable b), s)"
  shows "\<exists>c t. save_card name b s = (Inr c, t) \<and> scan_card input mine t = (Inr (Duplicate b (ct_id c)), t)"
  using assms by (rule saved_then_scanned)

theorem saved_card_witness:
  "\<exists>c t. save_card ''Bob'' example_card empty_db = (Inr c, t) \<and>
     scan_card (Some (encode_contact_bundle example_card)) None t = (Inr (Duplicate example_card (ct_id c)), t)"
proof (rule saved_card_is_recognised)
  have "\<forall>c \<in> set (cb_address example_card). scalar c"
    by (simp add: example_card_def points_def scalar_def surrogate_def)
  then have "decode_contact_bundle (js_trim (encode_contact_bundle example_card)) ckb_testnet = Inr example_card"
    by (simp add: trim_encoded decode_encode example_card_ok)
  then show "scan_card (Some (encode_contact_bundle example_card)) None empty_db = (Inr (Addable example_card), empty_db)"
    by (simp add: scan_card_def classify_scanned_card_def get_contact_by_profile_def find_contact_by_profile_def prog_defs
      empty_db_def)
qed

end
