(* ===== verification/Cemp_Resolve.thy ===== *)
theory Cemp_Resolve
  imports Cemp_Client Cemp_Trust
begin

text \<open>
  packages/cemp-ckb/src/profiles.ts (resolving the live profile of a recipient) and rotation-verify.ts
  (checking a rotation against the transactions of the chain), over the client of \<open>Cemp_Client\<close> and
  so over every transport.

  The codec of a profile and the hash of a script are those of the CCC library: parameters. An index
  of an out point is a hex quantity, as its type says.
\<close>

section \<open>Resolving a profile\<close>

record resolved_profile =
  rp_cell :: wire_cell
  rp_profile :: cemp_profile_v1

definition type_id_code_hash :: string where
  "type_id_code_hash = ''0x00000000000000000000000000000000000000000000000000545950455f4944''"

definition bare_profile_id :: "string \<Rightarrow> failure + string" where
  "bare_profile_id p =
     (let bare = (if starts_with p ''0x'' then drop 2 p else p) in
      if length bare = 64 \<and> list_all is_lower_hex bare then Inr bare
      else shape ''resolveLiveProfile'' ''profile id must be 32-byte lowercase hex'')"

definition profile_query :: "string \<Rightarrow> cell_query" where
  "profile_query bare = \<lparr>cq_script = \<lparr>sc_code_hash = type_id_code_hash, sc_hash_type = ''type'', sc_args = ''0x'' @ bare\<rparr>,
     cq_script_type = TypeScript, cq_mode = Some ExactArgs, cq_filter = None, cq_after = None, cq_limit = Some 8, cq_order = None\<rparr>"

definition profile_data :: "string \<Rightarrow> bytes" where
  "profile_data hex = hex_pairs (if starts_with hex ''0x'' then drop 2 hex else hex)"

definition read_profile_cell :: "cemp_profile_v1 mol_codec \<Rightarrow> wire_cell \<Rightarrow> failure + resolved_profile" where
  "read_profile_cell codec c =
     (let data = profile_data (ce_data c) in
      case validate_profile codec data of
        Fail _ \<Rightarrow> shape ''resolveLiveProfile'' ''on-chain profile cell failed validation''
      | Ok \<Rightarrow> (case decode_cemp_profile_v1 codec (Buffer data) of
            Inl e \<Rightarrow> Inl (OtherError ''CempCodecError'')
          | Inr p \<Rightarrow> Inr \<lparr>rp_cell = c, rp_profile = p\<rparr>))"

definition resolve_live_profile ::
  "cemp_profile_v1 mol_codec \<Rightarrow> 'w client \<Rightarrow> string \<Rightarrow> ('w, resolved_profile) timed" where
  "resolve_live_profile codec C profile =
     andthen (lift_result (bare_profile_id profile)) (\<lambda>bare.
     andthen (find_cells C (profile_query bare)) (\<lambda>page.
     lift_result (case pa_cells page of
         [] \<Rightarrow> shape ''resolveLiveProfile'' (''no live profile cell for profile id '' @ take 12 bare)
       | [c] \<Rightarrow> read_profile_cell codec c
       | _ \<Rightarrow> shape ''resolveLiveProfile'' ''impossible: live cells share one profile id'')))"

definition check_resolved_profile_binding ::
  "(script \<Rightarrow> string) \<Rightarrow> resolved_profile \<Rightarrow> string \<Rightarrow> failure + unit" where
  "check_resolved_profile_binding script_hash r profile =
     sum_bind (bare_profile_id profile) (\<lambda>bare.
     if map_option sc_args (wo_type (ce_output (rp_cell r))) \<noteq> Some (''0x'' @ bare)
     then shape ''resolveLiveProfile'' ''type args do not match the queried profile id''
     else if ''0x'' @ bytes_to_hex (pf_lock_script_hash (rp_profile r)) \<noteq> script_hash (wo_lock (ce_output (rp_cell r)))
     then shape ''resolveLiveProfile'' ''lock_script_hash does not bind the lock of the cell''
     else Inr ())"

text \<open>The two steps of every send (publisher.ts, messaging.ts).\<close>

definition resolve_recipient ::
  "cemp_profile_v1 mol_codec \<Rightarrow> (script \<Rightarrow> string) \<Rightarrow> 'w client \<Rightarrow> string \<Rightarrow> ('w, resolved_profile) timed" where
  "resolve_recipient codec script_hash C profile =
     andthen (resolve_live_profile codec C profile) (\<lambda>r.
     andthen (lift_result (check_resolved_profile_binding script_hash r profile)) (\<lambda>_. ret r))"

section \<open>Verifying a rotation\<close>

record rotation_predecessor =
  pred_out_point :: out_point
  pred_profile_id :: string

definition same_out_point :: "out_point \<Rightarrow> out_point \<Rightarrow> bool" where
  "same_out_point a b \<longleftrightarrow> map ascii_lower (out_point.op_tx_hash a) = map ascii_lower (out_point.op_tx_hash b)
     \<and> big_int (out_point.op_index a) = big_int (out_point.op_index b)"

definition verify_rotation_link ::
  "'w client \<Rightarrow> rotation_predecessor \<Rightarrow> resolved_profile \<Rightarrow> ('w, unit) timed" where
  "verify_rotation_link C p r =
     (if wo_type (ce_output (rp_cell r)) = None
      then lift_result (shape ''rotation-verify'' ''successor cell has no type script'')
      else
        andthen (get_transaction_body C (out_point.op_tx_hash (ce_out_point (rp_cell r)))) (\<lambda>body.
        lift_result (case body of
            None \<Rightarrow> shape ''rotation-verify'' ''node does not know the creating tx''
          | Some t \<Rightarrow>
              if \<not> list_ex (\<lambda>i. same_out_point (in_previous i) (pred_out_point p)) (tx_inputs t)
              then shape ''rotation-verify'' ''predecessor not consumed''
              else (case pf_previous_profile_id (rp_profile r) of
                  None \<Rightarrow> shape ''rotation-verify'' ''successor profile has no previous_profile_id''
                | Some back \<Rightarrow>
                    if map ascii_lower (''0x'' @ bytes_to_hex back) \<noteq> map ascii_lower (pred_profile_id p)
                    then shape ''rotation-verify'' ''previous_profile_id names another profile''
                    else Inr ()))))"

fun verify_links :: "'w client \<Rightarrow> nat \<Rightarrow> (rotation_predecessor \<times> resolved_profile) list \<Rightarrow> ('w, unit) timed" where
  "verify_links C n [] = ret ()"
| "verify_links C n ((p, r) # ls) =
     andthen (catching (verify_rotation_link C p r)
       (\<lambda>_. lift_result (shape ''rotation-verify'' (''link '' @ decimal n @ '' failed''))))
       (\<lambda>_. verify_links C (Suc n) ls)"

definition verify_rotation_chain ::
  "'w client \<Rightarrow> (rotation_predecessor \<times> resolved_profile) list \<Rightarrow> ('w, unit) timed" where
  "verify_rotation_chain C links =
     (if links = [] then lift_result (shape ''rotation-verify'' ''empty rotation chain'')
      else verify_links C 0 links)"

section \<open>Lemmas\<close>

lemma wp_timed_request: "wp m (\<lambda>_ _. True) (\<lambda>_ _. True) s"
  by (simp add: wp_def split: prod.splits sum.splits)

lemma bare_profile_iff:
  "bare_profile_id p = Inr b \<longleftrightarrow> b = (if starts_with p ''0x'' then drop 2 p else p) \<and> length b = 64 \<and> list_all is_lower_hex b"
  by (auto simp: bare_profile_id_def Let_def)

text \<open>What a recipient that was resolved is.\<close>

definition recipient_ok :: "cemp_profile_v1 mol_codec \<Rightarrow> (script \<Rightarrow> string) \<Rightarrow> string \<Rightarrow> resolved_profile \<Rightarrow> bool" where
  "recipient_ok codec script_hash profile r \<longleftrightarrow> (\<exists>bare. bare_profile_id profile = Inr bare
     \<and> cell_ok (rp_cell r)
     \<and> (\<exists>ty. wo_type (ce_output (rp_cell r)) = Some ty \<and> sc_args ty = ''0x'' @ bare)
     \<and> validate_profile_fields (rp_profile r) = Ok
     \<and> encode_cemp_profile_v1 codec (rp_profile r) = Inr (profile_data (ce_data (rp_cell r)))
     \<and> script_hash (wo_lock (ce_output (rp_cell r))) = ''0x'' @ bytes_to_hex (pf_lock_script_hash (rp_profile r)))"

lemma read_profile_ok:
  assumes "read_profile_cell codec c = Inr r"
  shows "rp_cell r = c \<and> validate_profile_fields (rp_profile r) = Ok
    \<and> encode_cemp_profile_v1 codec (rp_profile r) = Inr (profile_data (ce_data c))"
  using assms
  by (auto simp: read_profile_cell_def Let_def validate_profile_def try_decode_def decode_cemp_profile_v1_def
    encode_cemp_profile_v1_def strict_decode_buffer strict_encode_def split: validation.splits sum.splits if_splits)

lemma binding_ok:
  "check_resolved_profile_binding script_hash r profile = Inr u \<longleftrightarrow> (\<exists>bare. bare_profile_id profile = Inr bare
     \<and> (\<exists>ty. wo_type (ce_output (rp_cell r)) = Some ty \<and> sc_args ty = ''0x'' @ bare)
     \<and> script_hash (wo_lock (ce_output (rp_cell r))) = ''0x'' @ bytes_to_hex (pf_lock_script_hash (rp_profile r)))"
  by (auto simp: check_resolved_profile_binding_def)

lemma wp_found_cells: "(\<And>p t. list_all cell_ok (pa_cells p) \<Longrightarrow> Q p t) \<Longrightarrow> wp (find_cells C q) Q (\<lambda>_ _. True) s"
  unfolding find_cells_def call_indexer_def
  by (auto simp: wp_andthen wp_lift_result parsed_page intro!: wp_request split: sum.splits)

lemma resolved_recipient:
  assumes "fst (env_call_of (resolve_recipient codec script_hash C profile) w) = Inr r"
  shows "recipient_ok codec script_hash profile r"
proof (rule env_call_result [OF assms])
  have cells: "recipient_ok codec script_hash profile r"
    if "list_all cell_ok cs" "(case cs of [] \<Rightarrow> shape c1 d1 | [c] \<Rightarrow> read_profile_cell codec c | _ \<Rightarrow> shape c2 d2) = Inr r"
      and "check_resolved_profile_binding script_hash r profile = Inr ()" for cs c1 d1 c2 d2 r
  proof -
    note answer = that(2)
    obtain c where "cs = [c]" "read_profile_cell codec c = Inr r"
      using answer by (auto split: list.splits)
    with that show ?thesis
      using read_profile_ok [of codec c r] binding_ok [of script_hash r profile "()"] by (auto simp: recipient_ok_def)
  qed
  show "wp (resolve_recipient codec script_hash C profile) (\<lambda>a _. recipient_ok codec script_hash profile a) (\<lambda>_ _. True) (w, 0)"
    unfolding resolve_recipient_def resolve_live_profile_def
    by (auto simp: wp_andthen wp_lift_result wp_ret intro!: wp_found_cells cells split: sum.splits)
qed

lemma wp_catch_rotation [simp]:
  "wp (catching m (\<lambda>_. lift_result (shape c d))) Q (\<lambda>_ _. True) s \<longleftrightarrow> wp m Q (\<lambda>_ _. True) s"
  by (simp add: wp_catching wp_lift_result shape_def)

text \<open>The answer of the node, and what the check of a link makes of it.\<close>

definition body_answer :: "'w client \<Rightarrow> string \<Rightarrow> 'w \<Rightarrow> failure + transaction option" where
  "body_answer C h w = fst (env_call_of (get_transaction_body C h) w)"

definition link_claim :: "rotation_predecessor \<Rightarrow> resolved_profile \<Rightarrow> transaction \<Rightarrow> bool" where
  "link_claim p r t \<longleftrightarrow> wo_type (ce_output (rp_cell r)) \<noteq> None
     \<and> (\<exists>i \<in> set (tx_inputs t). same_out_point (in_previous i) (pred_out_point p))
     \<and> (\<exists>back. pf_previous_profile_id (rp_profile r) = Some back
          \<and> map ascii_lower (''0x'' @ bytes_to_hex back) = map ascii_lower (pred_profile_id p))"

lemma link_result:
  "fst (env_call_of (verify_rotation_link C p r) w) = Inr () \<longleftrightarrow>
     (\<exists>t. body_answer C (out_point.op_tx_hash (ce_out_point (rp_cell r))) w = Inr (Some t) \<and> link_claim p r t)"
proof (cases "wo_type (ce_output (rp_cell r))")
  case None
  then show ?thesis by (simp add: verify_rotation_link_def env_call_of_def lift_result_def shape_def throw_def link_claim_def)
next
  case (Some ty)
  define h where "h = out_point.op_tx_hash (ce_out_point (rp_cell r))"
  obtain a t where call: "get_transaction_body C h (w, 0) = (a, t)" by (metis surj_pair)
  then have answer: "body_answer C h w = a" by (simp add: body_answer_def env_call_of_def split: prod.splits)
  show ?thesis
    using Some unfolding h_def [symmetric] answer
    by (cases a)
      (auto simp: verify_rotation_link_def h_def [symmetric] env_call_of_def andthen_def call lift_result_def throw_def ret_def
        shape_def link_claim_def list_ex_iff split: option.splits prod.splits sum.splits)
qed

text \<open>A chain that passes consists of links that passed, each against the answer of its own moment.\<close>

lemma wp_links:
  assumes "\<And>p r s. (p, r) \<in> set ls \<Longrightarrow> wp (verify_rotation_link C p r) (\<lambda>_ _. P p r) (\<lambda>_ _. True) s"
  shows "wp (verify_links C n ls) (\<lambda>_ _. \<forall>(p, r) \<in> set ls. P p r) (\<lambda>_ _. True) s"
  using assms
proof (induction C n ls arbitrary: s rule: verify_links.induct)
  case (1 C n s)
  then show ?case by (simp add: wp_ret)
next
  case (2 C n p r ls s)
  have rest: "wp (verify_links C (Suc n) ls) (\<lambda>_ _. \<forall>(p, r) \<in> set ls. P p r) (\<lambda>_ _. True) t" for t
    using 2 by auto
  have "wp (verify_rotation_link C p r) (\<lambda>_ _. P p r) (\<lambda>_ _. True) s" using 2(2) by simp
  then have "wp (verify_rotation_link C p r)
      (\<lambda>_ t. wp (verify_links C (Suc n) ls) (\<lambda>_ _. \<forall>(p, r) \<in> set ((p, r) # ls). P p r) (\<lambda>_ _. True) t) (\<lambda>_ _. True) s"
    by (rule wp_mono) (use rest in \<open>auto intro: wp_mono\<close>)
  then show ?case by (simp add: wp_andthen)
qed

lemma wp_link: "wp (verify_rotation_link C p r) (\<lambda>_ _. \<exists>t. link_claim p r t) (\<lambda>_ _. True) s"
proof -
  obtain w n where s: "s = (w, n)" by (cases s)
  show ?thesis
    by (cases "wo_type (ce_output (rp_cell r))")
      (auto simp: verify_rotation_link_def wp_andthen wp_lift_result shape_def link_claim_def list_ex_iff wp_timed_request
        intro!: wp_mono [OF wp_timed_request] split: option.splits sum.splits if_splits, blast)
qed

lemma chain_result:
  assumes "fst (env_call_of (verify_rotation_chain C links) w) = Inr ()"
  shows "links \<noteq> [] \<and> (\<forall>(p, r) \<in> set links. \<exists>t. link_claim p r t)"
proof (rule env_call_result [OF assms])
  have "wp (verify_links C 0 links) (\<lambda>_ _. \<forall>(p, r) \<in> set links. \<exists>t. link_claim p r t) (\<lambda>_ _. True) (w, 0)"
    by (rule wp_links) (rule wp_link)
  then show "wp (verify_rotation_chain C links) (\<lambda>_ _. links \<noteq> [] \<and> (\<forall>(p, r) \<in> set links. \<exists>t. link_claim p r t)) (\<lambda>_ _. True) (w, 0)"
    by (auto simp: verify_rotation_chain_def wp_lift_result shape_def elim: wp_mono)
qed

section \<open>Properties\<close>

text \<open>
  C13. A message is encrypted only to the profile that was asked for: over every transport, the profile that
  the two steps before a send return comes from a cell whose type args are the queried id, holds the
  canonical encoding of a profile that passes every field check, and names the hash of the lock that
  guards the cell.
\<close>

theorem recipient_is_bound:
  "fst (env_call_of (resolve_recipient codec script_hash C profile) w) = Inr r \<Longrightarrow> recipient_ok codec script_hash profile r"
  by (rule resolved_recipient)

definition example_profile :: cemp_profile_v1 where
  "example_profile = \<lparr>pf_protocol_version = 1, pf_sig_algorithm = ml_dsa_65_id, pf_kem_algorithm = ml_kem_768_id,
     pf_ml_dsa_public_key = [], pf_ml_kem_public_key = [], pf_lock_script_hash = [7], pf_supported_protocol_versions = [1],
     pf_supported_attachments = 0, pf_handle = None, pf_icon_hash = None, pf_key_created_at = 0, pf_rotation_sequence = 0,
     pf_previous_profile_id = None, pf_revoked = 0\<rparr>"

definition example_codec :: "cemp_profile_v1 mol_codec" where
  "example_codec = \<lparr>enc = (\<lambda>_. Inr [1]), dec = (\<lambda>_. Inr example_profile)\<rparr>"

definition example_profile_id :: string where
  "example_profile_id = replicate 64 (CHR ''a'')"

definition example_profile_cell :: wire_cell where
  "example_profile_cell = example_cell\<lparr>ce_output := \<lparr>wo_capacity = ''0x10'', wo_lock = example_lock,
     wo_type = Some \<lparr>sc_code_hash = example_hash, sc_hash_type = ''type'', sc_args = ''0x'' @ example_profile_id\<rparr>\<rparr>,
     ce_data := ''0x01''\<rparr>"

lemma example_profile_cell_ok: "cell_ok example_profile_cell"
  using example_cell_ok example_hash_ok
  by (simp add: cell_ok_def example_profile_cell_def example_cell_def output_ok_def script_ok_def type_ok_def hash_types_def
    hex_bytes_def is_hex_def hex_digits_def example_profile_id_def list_all_iff)

theorem recipient_is_bound_witness:
  "recipient_ok example_codec (\<lambda>_. ''0x07'') example_profile_id \<lparr>rp_cell = example_profile_cell, rp_profile = example_profile\<rparr>"
proof (rule recipient_is_bound)
  let ?p = "\<lparr>pa_cells = [example_profile_cell], pa_cursor = []\<rparr>"
  let ?r = "\<lparr>rp_cell = example_profile_cell, rp_profile = example_profile\<rparr>"
  have id: "bare_profile_id example_profile_id = Inr example_profile_id"
    by (simp add: bare_profile_iff example_profile_id_def starts_with_def is_lower_hex_def hex_digits_def list_all_iff)
  have page: "parse_cells_page (Some (rpc_page ?p)) = Inr ?p" by (simp add: read_page example_profile_cell_ok)
  have params: "\<exists>ps. search_params [(points ''with_data'', Jbool True)] (profile_query b) = Inr ps" for b
    by (simp add: search_params_def profile_query_def to_hex_quantity_def Let_def)
  have "profile_data (ce_data example_profile_cell) = [1]"
    by (simp add: profile_data_def example_profile_cell_def starts_with_def hex_pair_def hex_value_def hex_digits_def)
  moreover have "validate_profile_fields example_profile = Ok"
    by (simp add: validate_profile_fields_def example_profile_def limit_defs algorithm_equals_def)
  ultimately have cell: "read_profile_cell example_codec example_profile_cell = Inr ?r"
    by (simp add: read_profile_cell_def validate_profile_def try_decode_def decode_cemp_profile_v1_def strict_decode_def
      example_codec_def limit_defs)
  have "bytes_to_hex [7] = ''07''" by code_simp
  then have check: "check_resolved_profile_binding (\<lambda>_. ''0x07'') ?r example_profile_id = Inr ()"
    by (simp add: binding_ok id example_profile_cell_def example_profile_def)
  show "fst (env_call_of (resolve_recipient example_codec (\<lambda>_. ''0x07'') (honest_client ?p) example_profile_id) 0) = Inr ?r"
    using params [of example_profile_id]
    by (auto simp: env_call_of_def resolve_recipient_def resolve_live_profile_def find_cells_def call_indexer_def request_def
      andthen_def lift_result_def ret_def honest_client_def id page cell check)
qed


text \<open>
  The successor's own profile id plays no part: the check says the same of a successor with any other
  type script, so a link is not bound to the id under which the successor was found.
\<close>

lemma link_ignores_type_args:
  assumes "wo_type (ce_output (rp_cell r)) \<noteq> None" and "other \<noteq> None"
  shows "verify_rotation_link C p r =
    verify_rotation_link C p (r\<lparr>rp_cell := (rp_cell r)\<lparr>ce_output := (ce_output (rp_cell r))\<lparr>wo_type := other\<rparr>\<rparr>\<rparr>)"
  using assms by (cases "wo_type (ce_output (rp_cell r))"; cases other) (simp_all add: verify_rotation_link_def cong: if_cong option.case_cong)

end
