(* ===== verification/Cemp_Signing.thy ===== *)
theory Cemp_Signing
  imports Cemp_Client
begin

text \<open>
  Signing: packages/cemp-crypto/src/mldsa-v2.ts (lock args, digest, signature, witness lock),
  packages/cemp-ckb/src/cighash.ts (the stream that is signed) and signing.ts (the signer).

  Parameters: BLAKE2b, ML-DSA-65 (\<open>dsa_library\<close>) and, of the CCC library (\<open>tx_library\<close>), the hash of a
  transaction, the molecule codecs of witness args and cell outputs, and the methods of its
  \<open>Transaction\<close> that add a cell dep and read and write the witness args at an index. What they are
  documented to do is \<open>tx_library_ok\<close> and \<open>dsa_ok\<close>. A transaction is the record of \<open>Cemp_Client\<close>. The
  cells of a resolver and the randomness of a hedged signature come from the environment.
\<close>

section \<open>mldsa-v2.ts\<close>

definition mldsa65_param_id :: nat where
  "mldsa65_param_id = 61"

definition pk_size :: nat where "pk_size = 1952"
definition sig_size :: nat where "sig_size = 3309"
definition sk_size :: nat where "sk_size = 4032"
definition lock_args_size :: nat where "lock_args_size = 37"
definition witness_lock_size :: nat where "witness_lock_size = 5262"

definition sct_personal :: string where
  "sct_personal = ''ckb-mldsa-sct''"

definition msg_personal :: string where
  "msg_personal = ''ckb-mldsa-msg''"

definition mldsa_domain :: string where
  "mldsa_domain = ''CKB-MLDSA-LOCK''"

definition personal16 :: "string \<Rightarrow> bytes" where
  "personal16 s = text_encode s @ replicate (16 - length s) 0"

definition construct_flag :: "nat \<Rightarrow> bool \<Rightarrow> nat" where
  "construct_flag param has_signature = 2 * param + (if has_signature then 1 else 0)"

definition wrong_length :: "string \<Rightarrow> failure + 'a" where
  "wrong_length what = Inl (OtherError (what @ '': wrong length''))"

definition mldsa_lock_args :: "blake2b \<Rightarrow> bytes \<Rightarrow> failure + bytes" where
  "mldsa_lock_args blake2b pubkey =
     (if length pubkey \<noteq> pk_size then wrong_length ''mldsaV2LockArgs''
      else Inr ([0x80, 0x01, 0x01, 0x01, word_of_nat (construct_flag mldsa65_param_id False)]
        @ blake2b 32 (personal16 sct_personal) pubkey))"

definition cighash_digest :: "blake2b \<Rightarrow> bytes \<Rightarrow> bytes" where
  "cighash_digest blake2b stream = blake2b 32 (personal16 msg_personal) stream"

definition build_final_message :: "bytes \<Rightarrow> failure + bytes" where
  "build_final_message digest =
     (if length digest \<noteq> 32 then wrong_length ''buildFinalMessage''
      else Inr ([0x00, word_of_nat (length (text_encode mldsa_domain))] @ text_encode mldsa_domain @ digest))"

record dsa_library =
  dl_keygen :: "bytes \<Rightarrow> bytes \<times> bytes"
  dl_sign :: "bytes \<Rightarrow> bytes \<Rightarrow> bytes \<Rightarrow> bytes \<Rightarrow> bytes"
  dl_verify :: "bytes \<Rightarrow> bytes \<Rightarrow> bytes \<Rightarrow> bytes \<Rightarrow> bool"

definition mldsa_keygen :: "dsa_library \<Rightarrow> bytes \<Rightarrow> failure + bytes \<times> bytes" where
  "mldsa_keygen D seed = (if length seed \<noteq> 32 then wrong_length ''mldsaV2KeygenFromSeed'' else Inr (dl_keygen D seed))"

text \<open>\<open>entropy\<close>: the 32 random bytes of a hedged signature, drawn by the library when the caller gives
  none.\<close>

definition mldsa_sign :: "dsa_library \<Rightarrow> bytes \<Rightarrow> bytes \<Rightarrow> bytes \<Rightarrow> failure + bytes" where
  "mldsa_sign D secret digest entropy =
     (if length secret \<noteq> sk_size then wrong_length ''mldsaV2Sign''
      else if length digest \<noteq> 32 then wrong_length ''mldsaV2Sign''
      else if length entropy \<noteq> 32 then wrong_length ''mldsaV2Sign''
      else Inr (dl_sign D digest secret (text_encode mldsa_domain) entropy))"

definition mldsa_verify :: "dsa_library \<Rightarrow> bytes \<Rightarrow> bytes \<Rightarrow> bytes \<Rightarrow> failure + bool" where
  "mldsa_verify D pubkey digest signature =
     (if length pubkey \<noteq> pk_size then wrong_length ''mldsaV2Verify''
      else if length digest \<noteq> 32 then wrong_length ''mldsaV2Verify''
      else if length signature \<noteq> sig_size then wrong_length ''mldsaV2Verify''
      else Inr (dl_verify D signature digest pubkey (text_encode mldsa_domain)))"

definition mldsa_witness_lock :: "bytes \<Rightarrow> bytes \<Rightarrow> failure + bytes" where
  "mldsa_witness_lock pubkey signature =
     (if length pubkey \<noteq> pk_size then wrong_length ''mldsaV2WitnessLock''
      else if length signature \<noteq> sig_size then wrong_length ''mldsaV2WitnessLock''
      else Inr (word_of_nat (construct_flag mldsa65_param_id True) # pubkey @ signature))"

section \<open>cighash.ts\<close>

record witness_args =
  wa_lock :: "bytes option"
  wa_input_type :: "bytes option"
  wa_output_type :: "bytes option"

record resolved_input =
  ri_output :: cell_output
  ri_data :: bytes

record tx_library =
  tl_hash :: "ccc_transaction \<Rightarrow> bytes"
  tl_witness_codec :: "witness_args mol_codec"
  tl_output_bytes :: "cell_output \<Rightarrow> bytes"
  tl_add_cell_dep :: "ccc_dep \<Rightarrow> ccc_transaction \<Rightarrow> ccc_transaction"
  tl_get_witness :: "nat \<Rightarrow> ccc_transaction \<Rightarrow> failure + witness_args option"
  tl_set_witness :: "nat \<Rightarrow> witness_args \<Rightarrow> ccc_transaction \<Rightarrow> ccc_transaction"

text \<open>The library's \<open>bytesFrom\<close> and \<open>hexFrom\<close> on normalised hex texts.\<close>

definition bytes_from :: "string \<Rightarrow> bytes" where
  "bytes_from s = hex_pairs (drop 2 s)"

definition hex_from :: "bytes \<Rightarrow> string" where
  "hex_from b = ''0x'' @ bytes_to_hex b"

definition witness_lock_placeholder :: nat where
  "witness_lock_placeholder = 5262"

definition u32_bytes :: "nat \<Rightarrow> bytes" where
  "u32_bytes n = map (\<lambda>i. word_of_nat (n div 256 ^ i)) [0..<4]"

definition u32le :: "nat \<Rightarrow> failure + bytes" where
  "u32le n = (if n > 0xffffffff then Inl (OtherError ''CighashAll segment length does not fit u32'') else Inr (u32_bytes n))"

definition bytes_opt_slice :: "bytes option \<Rightarrow> failure + bytes" where
  "bytes_opt_slice v = (case v of
       None \<Rightarrow> Inr []
     | Some b \<Rightarrow> sum_bind (u32le (length b)) (\<lambda>l. Inr (l @ b)))"

text \<open>A length prefix and the bytes.\<close>

definition prefixed :: "bytes \<Rightarrow> failure + bytes" where
  "prefixed b = sum_bind (u32le (length b)) (\<lambda>l. Inr (l @ b))"

fun prefixed_all :: "bytes list \<Rightarrow> failure + bytes" where
  "prefixed_all [] = Inr []"
| "prefixed_all (b # bs) = sum_bind (prefixed b) (\<lambda>x. sum_bind (prefixed_all bs) (\<lambda>y. Inr (x @ y)))"

fun input_parts :: "tx_library \<Rightarrow> resolved_input list \<Rightarrow> failure + bytes" where
  "input_parts L [] = Inr []"
| "input_parts L (r # rs) = sum_bind (prefixed (ri_data r)) (\<lambda>d.
     sum_bind (input_parts L rs) (\<lambda>y. Inr (tl_output_bytes L (ri_output r) @ d @ y)))"

definition stream_error :: "string \<Rightarrow> failure + 'a" where
  "stream_error m = Inl (OtherError (''buildCighashAllStream: '' @ m))"

definition build_cighash_all_stream ::
  "tx_library \<Rightarrow> ccc_transaction \<Rightarrow> resolved_input list \<Rightarrow> nat list \<Rightarrow> failure + bytes" where
  "build_cighash_all_stream L tx resolved grp =
     (if length resolved \<noteq> length (ct_inputs tx) then stream_error ''resolved inputs''
      else if grp = [] then stream_error ''empty group input indices''
      else if list_ex (\<lambda>i. length (ct_witnesses tx) \<le> i) grp then stream_error ''group index out of range''
      else
        sum_bind (input_parts L resolved) (\<lambda>inputs.
        case dec (tl_witness_codec L) (bytes_from (ct_witnesses tx ! hd grp)) of
          Inl e \<Rightarrow> stream_error ''witness does not parse as a WitnessArgs molecule''
        | Inr first \<Rightarrow>
            sum_bind (sum_bind (bytes_opt_slice (wa_input_type first)) prefixed) (\<lambda>input_type.
            sum_bind (sum_bind (bytes_opt_slice (wa_output_type first)) prefixed) (\<lambda>output_type.
            sum_bind (prefixed_all (map (\<lambda>i. bytes_from (ct_witnesses tx ! i)) (tl grp))) (\<lambda>rest.
            sum_bind (prefixed_all (map bytes_from (drop (length (ct_inputs tx)) (ct_witnesses tx)))) (\<lambda>extra.
            Inr (tl_hash L tx @ inputs @ input_type @ output_type @ rest @ extra)))))))"

definition build_placeholder_witness :: witness_args where
  "build_placeholder_witness =
     \<lparr>wa_lock = Some (replicate witness_lock_placeholder 0), wa_input_type = None, wa_output_type = None\<rparr>"

definition with_signature_lock :: "witness_args \<Rightarrow> bytes \<Rightarrow> witness_args" where
  "with_signature_lock w lock = \<lparr>wa_lock = Some lock, wa_input_type = wa_input_type w, wa_output_type = wa_output_type w\<rparr>"

section \<open>signing.ts\<close>

type_synonym ('s, 'a) signing = "('s, failure, 'a) prog"

text \<open>\<open>clientCellResolver\<close>: a live cell, or else an output of an own transaction that the cache of the
  client knows and has not marked spent.\<close>

record 's ccc_client =
  cl_cell_live :: "ccc_out_point \<Rightarrow> ('s, resolved_input option) signing"
  cl_unusable :: "ccc_out_point \<Rightarrow> ('s, bool) signing"
  cl_cached :: "ccc_out_point \<Rightarrow> ('s, resolved_input option) signing"

definition client_cell_resolver :: "'s ccc_client \<Rightarrow> ccc_out_point \<Rightarrow> ('s, resolved_input option) signing" where
  "client_cell_resolver K op =
     andthen (cl_cell_live K op) (\<lambda>c. case c of
       Some r \<Rightarrow> ret (Some r)
     | None \<Rightarrow> andthen (cl_unusable K op) (\<lambda>spent.
         if spent then ret None else cl_cached K op))"

text \<open>A later cell with the same out point replaces an earlier one.\<close>

definition static_cell_resolver ::
  "(ccc_out_point \<times> resolved_input) list \<Rightarrow> ccc_out_point \<Rightarrow> ('s, resolved_input option) signing" where
  "static_cell_resolver cells op = ret (map_of (rev cells) op)"

record signer =
  sg_public :: bytes
  sg_secret :: bytes
  sg_lock :: script
  sg_dep :: ccc_dep

record deployment =
  dp_tx_hash :: string
  dp_index :: nat
  dp_dep_type :: dep_type
  dp_code_hash :: string
  dp_hash_type :: string

definition new_signer :: "blake2b \<Rightarrow> deployment option \<Rightarrow> bytes \<times> bytes \<Rightarrow> failure + signer" where
  "new_signer blake2b deployed keys =
     (if length (snd keys) \<noteq> sk_size then shape ''MlDsaV2TxSigner'' ''secretKey length''
      else case deployed of
          None \<Rightarrow> Inl (OtherError ''no pinned ML-DSA lock deployment'')
        | Some d \<Rightarrow> sum_bind (mldsa_lock_args blake2b (fst keys)) (\<lambda>args.
            Inr \<lparr>sg_public = fst keys, sg_secret = snd keys,
                 sg_lock = \<lparr>sc_code_hash = dp_code_hash d, sc_hash_type = dp_hash_type d, sc_args = hex_from args\<rparr>,
                 sg_dep = \<lparr>de_out_point = \<lparr>po_tx_hash = dp_tx_hash d, po_index = dp_index d\<rparr>, de_dep_type = dp_dep_type d\<rparr>\<rparr>))"

definition is_zero_placeholder :: "bytes \<Rightarrow> bool" where
  "is_zero_placeholder lock \<longleftrightarrow> length lock = witness_lock_placeholder \<and> list_all (\<lambda>b. b = 0) lock"

text \<open>One step of the loop over the inputs.\<close>

definition ensure_witness :: "tx_library \<Rightarrow> nat \<Rightarrow> ccc_transaction \<Rightarrow> failure + ccc_transaction" where
  "ensure_witness L i tx =
     (let raw = ct_witnesses tx ! i in
      sum_bind
        (if raw = ''0x'' then Inr None
         else case dec (tl_witness_codec L) (bytes_from raw) of
             Inl e \<Rightarrow> shape ''ensurePlaceholderWitnesses'' ''witness is not a WitnessArgs molecule''
           | Inr w \<Rightarrow> Inr (Some w)) (\<lambda>existing.
      case Option.bind existing wa_lock of
        Some lock \<Rightarrow>
          if \<not> is_zero_placeholder lock then Inr tx
          else Inr (tl_set_witness L i \<lparr>wa_lock = wa_lock build_placeholder_witness,
            wa_input_type = Option.bind existing wa_input_type, wa_output_type = Option.bind existing wa_output_type\<rparr> tx)
      | None \<Rightarrow> Inr (tl_set_witness L i \<lparr>wa_lock = wa_lock build_placeholder_witness,
            wa_input_type = Option.bind existing wa_input_type, wa_output_type = Option.bind existing wa_output_type\<rparr> tx)))"

fun ensure_from :: "tx_library \<Rightarrow> nat list \<Rightarrow> ccc_transaction \<Rightarrow> failure + ccc_transaction" where
  "ensure_from L [] tx = Inr tx"
| "ensure_from L (i # is) tx = sum_bind (ensure_witness L i tx) (ensure_from L is)"

definition pad_witnesses :: "ccc_transaction \<Rightarrow> ccc_transaction" where
  "pad_witnesses tx = tx\<lparr>ct_witnesses := ct_witnesses tx
     @ replicate (length (ct_inputs tx) - length (ct_witnesses tx)) ''0x''\<rparr>"

definition ensure_placeholder_witnesses :: "tx_library \<Rightarrow> ccc_transaction \<Rightarrow> failure + ccc_transaction" where
  "ensure_placeholder_witnesses L tx = ensure_from L [0..<length (ct_inputs tx)] (pad_witnesses tx)"

definition prepare_transaction :: "tx_library \<Rightarrow> signer \<Rightarrow> ccc_transaction \<Rightarrow> failure + ccc_transaction" where
  "prepare_transaction L S tx = ensure_placeholder_witnesses L (tl_add_cell_dep L (sg_dep S) tx)"

fun resolve_inputs ::
  "(ccc_out_point \<Rightarrow> ('s, resolved_input option) signing) \<Rightarrow> ccc_input list \<Rightarrow> ('s, resolved_input list) signing" where
  "resolve_inputs resolve [] = ret []"
| "resolve_inputs resolve (i # is) =
     andthen (resolve (ci_previous i)) (\<lambda>r. case r of
       None \<Rightarrow> throw (CkbError ''signTransaction'' ''input is not a live cell'')
     | Some x \<Rightarrow> andthen (resolve_inputs resolve is) (\<lambda>xs. ret (x # xs)))"

definition assert_all_locked_by :: "resolved_input list \<Rightarrow> script \<Rightarrow> failure + unit" where
  "assert_all_locked_by rs lock =
     (if list_all (\<lambda>r. ou_lock (ri_output r) = lock) rs then Inr ()
      else shape ''signTransaction'' ''input is not locked by the lock of the signer'')"

definition sign_prepared ::
  "tx_library \<Rightarrow> blake2b \<Rightarrow> dsa_library \<Rightarrow> signer \<Rightarrow> ('s, bytes) signing \<Rightarrow>
     (ccc_out_point \<Rightarrow> ('s, resolved_input option) signing) \<Rightarrow> ccc_transaction \<Rightarrow> ('s, ccc_transaction) signing" where
  "sign_prepared L blake2b D S draw resolve tx =
     (if ct_inputs tx = [] then throw (CkbError ''signTransaction'' ''transaction has no inputs'')
      else
        andthen (resolve_inputs resolve (ct_inputs tx)) (\<lambda>resolved.
        andthen (lift_result (assert_all_locked_by resolved (sg_lock S))) (\<lambda>_.
        andthen (lift_result (build_cighash_all_stream L tx resolved [0..<length (ct_inputs tx)])) (\<lambda>stream.
        andthen draw (\<lambda>entropy.
        andthen (lift_result (mldsa_sign D (sg_secret S) (cighash_digest blake2b stream) entropy)) (\<lambda>signature.
        andthen (lift_result (mldsa_witness_lock (sg_public S) signature)) (\<lambda>lock.
        andthen (lift_result (tl_get_witness L 0 tx)) (\<lambda>first. case first of
          None \<Rightarrow> throw (CkbError ''signTransaction'' ''witness 0 missing after placeholder assertion'')
        | Some w \<Rightarrow> ret (tl_set_witness L 0 (with_signature_lock w lock) tx)))))))))"

definition sign_transaction ::
  "tx_library \<Rightarrow> blake2b \<Rightarrow> dsa_library \<Rightarrow> signer \<Rightarrow> ('s, bytes) signing \<Rightarrow>
     (ccc_out_point \<Rightarrow> ('s, resolved_input option) signing) \<Rightarrow> ccc_transaction \<Rightarrow> ('s, ccc_transaction) signing" where
  "sign_transaction L blake2b D S draw resolve tx =
     andthen (lift_result (prepare_transaction L S tx)) (sign_prepared L blake2b D S draw resolve)"

definition verify_own_signature ::
  "tx_library \<Rightarrow> blake2b \<Rightarrow> dsa_library \<Rightarrow> signer \<Rightarrow> ccc_transaction \<Rightarrow> resolved_input list \<Rightarrow> failure + bool" where
  "verify_own_signature L blake2b D S tx resolved =
     (if ct_inputs tx = [] \<or> ct_witnesses tx = [] then Inr False
      else case tl_get_witness L 0 tx of
          Inl e \<Rightarrow> Inr False
        | Inr parsed \<Rightarrow> (case Option.bind parsed wa_lock of
            None \<Rightarrow> Inr False
          | Some lock \<Rightarrow>
              if length lock \<noteq> witness_lock_size \<or> lock ! 0 \<noteq> 0x7b then Inr False
              else
                let pubkey = take pk_size (drop 1 lock); signature = drop (1 + pk_size) lock in
                if \<not> bytes_equal pubkey (sg_public S) then Inr False
                else
                  sum_bind (build_cighash_all_stream L tx resolved [0..<length (ct_inputs tx)]) (\<lambda>stream.
                  mldsa_verify D pubkey (cighash_digest blake2b stream) signature)))"

section \<open>The libraries as documented\<close>

definition tx_library_ok :: "tx_library \<Rightarrow> bool" where
  "tx_library_ok L \<longleftrightarrow>
     (\<forall>tx ws. tl_hash L (tx\<lparr>ct_witnesses := ws\<rparr>) = tl_hash L tx)
     \<and> (\<forall>tx. length (tl_hash L tx) = 32)
     \<and> (\<forall>w. \<exists>b. enc (tl_witness_codec L) w = Inr b \<and> b \<noteq> [] \<and> dec (tl_witness_codec L) b = Inr w)
     \<and> (\<forall>d tx. \<exists>ds. tl_add_cell_dep L d tx = tx\<lparr>ct_deps := ds\<rparr>)
     \<and> (\<forall>i w tx b. i < length (ct_witnesses tx) \<longrightarrow> enc (tl_witness_codec L) w = Inr b \<longrightarrow>
          tl_set_witness L i w tx = tx\<lparr>ct_witnesses := (ct_witnesses tx)[i := hex_from b]\<rparr>)
     \<and> (\<forall>i tx. i < length (ct_witnesses tx) \<longrightarrow> ct_witnesses tx ! i \<noteq> ''0x'' \<longrightarrow>
          tl_get_witness L i tx = (case dec (tl_witness_codec L) (bytes_from (ct_witnesses tx ! i)) of
            Inl e \<Rightarrow> Inl (OtherError e) | Inr w \<Rightarrow> Inr (Some w)))"

definition dsa_ok :: "dsa_library \<Rightarrow> bytes \<Rightarrow> bytes \<Rightarrow> bool" where
  "dsa_ok D pubkey secret \<longleftrightarrow> (\<forall>m ctx r. length (dl_sign D m secret ctx r) = sig_size
     \<and> dl_verify D (dl_sign D m secret ctx r) m pubkey ctx)"

lemma lib_hash: "tx_library_ok L \<Longrightarrow> tl_hash L (tx\<lparr>ct_witnesses := ws\<rparr>) = tl_hash L tx"
  by (simp add: tx_library_ok_def)

lemma lib_codec: "tx_library_ok L \<Longrightarrow> \<exists>b. enc (tl_witness_codec L) w = Inr b \<and> b \<noteq> [] \<and> dec (tl_witness_codec L) b = Inr w"
  by (simp add: tx_library_ok_def)

lemma lib_dep: "tx_library_ok L \<Longrightarrow> \<exists>ds. tl_add_cell_dep L d tx = tx\<lparr>ct_deps := ds\<rparr>"
  by (simp add: tx_library_ok_def)

lemma lib_set:
  "tx_library_ok L \<Longrightarrow> i < length (ct_witnesses tx) \<Longrightarrow> enc (tl_witness_codec L) w = Inr b \<Longrightarrow>
     tl_set_witness L i w tx = tx\<lparr>ct_witnesses := (ct_witnesses tx)[i := hex_from b]\<rparr>"
  unfolding tx_library_ok_def by blast

lemma lib_get:
  "tx_library_ok L \<Longrightarrow> i < length (ct_witnesses tx) \<Longrightarrow> ct_witnesses tx ! i \<noteq> ''0x'' \<Longrightarrow>
     tl_get_witness L i tx = (case dec (tl_witness_codec L) (bytes_from (ct_witnesses tx ! i)) of
       Inl e \<Rightarrow> Inl (OtherError e) | Inr w \<Rightarrow> Inr (Some w))"
  unfolding tx_library_ok_def by blast

lemma bytes_from_hex [simp]: "bytes_from (hex_from b) = b"
  by (simp add: bytes_from_def hex_from_def)

lemma hex_from_nonempty: "b \<noteq> [] \<Longrightarrow> hex_from b \<noteq> ''0x''"
proof -
  assume "b \<noteq> []"
  then have "bytes_to_hex b \<noteq> []" by (metis length_0_conv length_bytes_to_hex mult_eq_0_iff zero_neq_numeral)
  then show ?thesis by (simp add: hex_from_def)
qed

text \<open>Writing a witness and reading the transaction again.\<close>

lemma set_then_get:
  assumes "tx_library_ok L" and "i < length (ct_witnesses tx)"
  shows "\<exists>b. tl_set_witness L i w tx = tx\<lparr>ct_witnesses := (ct_witnesses tx)[i := hex_from b]\<rparr>
    \<and> dec (tl_witness_codec L) b = Inr w \<and> b \<noteq> [] \<and> tl_get_witness L i (tl_set_witness L i w tx) = Inr (Some w)"
proof -
  obtain b where b: "enc (tl_witness_codec L) w = Inr b" "b \<noteq> []" "dec (tl_witness_codec L) b = Inr w"
    using lib_codec [OF assms(1)] by blast
  let ?tx = "tx\<lparr>ct_witnesses := (ct_witnesses tx)[i := hex_from b]\<rparr>"
  have set_eq: "tl_set_witness L i w tx = ?tx" using lib_set [OF assms b(1)] .
  have "tl_get_witness L i ?tx = Inr (Some w)"
    using assms(2) b hex_from_nonempty [OF b(2)] by (subst lib_get [OF assms(1)]) simp_all
  with set_eq b show ?thesis by auto
qed

section \<open>The stream ignores the signature\<close>

lemma stream_splice:
  assumes L: "tx_library_ok L" and grp: "grp = 0 # is" "0 \<notin> set is"
    and n: "0 < length (ct_inputs tx)" "0 < length (ct_witnesses tx)"
    and w: "dec (tl_witness_codec L) (bytes_from (ct_witnesses tx ! 0)) = Inr w"
  shows "build_cighash_all_stream L (tl_set_witness L 0 (with_signature_lock w lock) tx) resolved grp
    = build_cighash_all_stream L tx resolved grp"
proof -
  obtain b where b: "tl_set_witness L 0 (with_signature_lock w lock) tx = tx\<lparr>ct_witnesses := (ct_witnesses tx)[0 := hex_from b]\<rparr>"
      "dec (tl_witness_codec L) b = Inr (with_signature_lock w lock)"
    using set_then_get [OF L n(2), of "with_signature_lock w lock"] by blast
  have others: "map (\<lambda>i. bytes_from ((ct_witnesses tx)[0 := h] ! i)) is = map (\<lambda>i. bytes_from (ct_witnesses tx ! i)) is" for h
    using grp(2) by (auto intro!: nth_list_update_neq arg_cong [of _ _ bytes_from])
  have extra: "drop (length (ct_inputs tx)) ((ct_witnesses tx)[0 := h]) = drop (length (ct_inputs tx)) (ct_witnesses tx)" for h
    using n(1) by simp
  show ?thesis
    using w b n by (simp add: build_cighash_all_stream_def grp others extra lib_hash [OF L] with_signature_lock_def)
qed

lemma own_indices: "xs \<noteq> [] \<Longrightarrow> \<exists>is. [0..<length xs] = 0 # is \<and> 0 \<notin> set is"
  using upt_conv_Cons [of 0 "length xs"] by auto

section \<open>A signed transaction verifies\<close>

lemma andthen_Inr: "andthen m f s = (Inr x, t) \<longleftrightarrow> (\<exists>a u. m s = (Inr a, u) \<and> f a u = (Inr x, t))"
  by (auto simp: andthen_def split: prod.splits sum.splits)

lemma lift_result_Inr: "lift_result r s = (Inr x, t) \<longleftrightarrow> r = Inr x \<and> t = s"
  by (auto simp: lift_result_def ret_def throw_def split: sum.splits)

lemma ret_Inr: "ret a s = (Inr x, t) \<longleftrightarrow> x = a \<and> t = s"
  by (auto simp: ret_def)

lemma throw_Inr: "throw e s = (Inr x, t) \<longleftrightarrow> False"
  by (simp add: throw_def)

lemma witness_lock_parts:
  assumes "mldsa_witness_lock p s = Inr l"
  shows "length l = witness_lock_size" "l ! 0 = 0x7b" "take pk_size (drop 1 l) = p" "drop (1 + pk_size) l = s"
  using assms by (auto simp: mldsa_witness_lock_def construct_flag_def mldsa65_param_id_def pk_size_def sig_size_def witness_lock_size_def
    wrong_length_def split: if_splits)

lemma sign_prepared_verifies:
  assumes L: "tx_library_ok L" and D: "dsa_ok D (sg_public S) (sg_secret S)"
    and digest: "\<And>st. length (cighash_digest blake2b st) = 32"
    and run: "sign_prepared L blake2b D S draw resolve tx s = (Inr signed_tx, t)"
    and ne: "ct_witnesses tx \<noteq> []" "ct_witnesses tx ! 0 \<noteq> ''0x''"
  shows "\<exists>resolved. (\<exists>s'. resolve_inputs resolve (ct_inputs tx) s = (Inr resolved, s'))
    \<and> list_all (\<lambda>r. ou_lock (ri_output r) = sg_lock S) resolved
    \<and> ct_inputs signed_tx = ct_inputs tx
    \<and> verify_own_signature L blake2b D S signed_tx resolved = Inr True"
proof -
  let ?grp = "[0..<length (ct_inputs tx)]"
  have inputs: "ct_inputs tx \<noteq> []" using run by (auto simp: sign_prepared_def throw_def split: if_splits)
  obtain resolved s1 stream s2 entropy sig lock w where
      resolve: "resolve_inputs resolve (ct_inputs tx) s = (Inr resolved, s1)"
      and mine: "assert_all_locked_by resolved (sg_lock S) = Inr ()"
      and stream: "build_cighash_all_stream L tx resolved ?grp = Inr stream"
      and draw: "draw s1 = (Inr entropy, s2)"
      and sig: "mldsa_sign D (sg_secret S) (cighash_digest blake2b stream) entropy = Inr sig"
      and lock: "mldsa_witness_lock (sg_public S) sig = Inr lock"
      and first: "tl_get_witness L 0 tx = Inr (Some w)"
      and signed_tx: "signed_tx = tl_set_witness L 0 (with_signature_lock w lock) tx"
    using run inputs
    by (auto simp: sign_prepared_def andthen_Inr lift_result_Inr ret_Inr throw_Inr split: option.splits)
  have n: "0 < length (ct_inputs tx)" "0 < length (ct_witnesses tx)" using inputs ne by simp_all
  have w: "dec (tl_witness_codec L) (bytes_from (ct_witnesses tx ! 0)) = Inr w"
    using first lib_get [OF L n(2) ne(2)] by (auto split: sum.splits)
  obtain "is" where grp: "?grp = 0 # is" "0 \<notin> set is" using own_indices [OF inputs] by blast
  have same: "build_cighash_all_stream L signed_tx resolved ?grp = Inr stream"
    using stream_splice [OF L grp n w] stream unfolding signed_tx by simp
  obtain b where b: "signed_tx = tx\<lparr>ct_witnesses := (ct_witnesses tx)[0 := hex_from b]\<rparr>"
      "tl_get_witness L 0 signed_tx = Inr (Some (with_signature_lock w lock))"
    using set_then_get [OF L n(2), of "with_signature_lock w lock"] signed_tx by blast
  have keep: "ct_inputs signed_tx = ct_inputs tx" "ct_witnesses signed_tx \<noteq> []" using b(1) ne by auto
  note parts = witness_lock_parts [OF lock]
  have pk: "length (sg_public S) = pk_size"
    using lock by (simp add: mldsa_witness_lock_def wrong_length_def split: if_splits)
  have good: "mldsa_verify D (sg_public S) (cighash_digest blake2b stream) sig = Inr True"
    using sig D pk digest by (auto simp: mldsa_sign_def mldsa_verify_def dsa_ok_def wrong_length_def split: if_splits)
  have "verify_own_signature L blake2b D S signed_tx resolved = Inr True"
    using keep inputs parts same good by (simp add: verify_own_signature_def b(2) with_signature_lock_def Let_def)
  moreover have "list_all (\<lambda>r. ou_lock (ri_output r) = sg_lock S) resolved"
    using mine by (simp add: assert_all_locked_by_def split: if_splits)
  ultimately show ?thesis using resolve keep by blast
qed

section \<open>Placeholders\<close>

text \<open>What a pass over one witness leaves: a witness with a lock, which a second pass leaves alone.\<close>

definition placed :: "tx_library \<Rightarrow> string \<Rightarrow> bool" where
  "placed L raw \<longleftrightarrow> raw \<noteq> ''0x'' \<and> (\<exists>w l. dec (tl_witness_codec L) (bytes_from raw) = Inr w \<and> wa_lock w = Some l
     \<and> (is_zero_placeholder l \<longrightarrow> (\<exists>b. enc (tl_witness_codec L) w = Inr b \<and> raw = hex_from b)))"

lemma zero_placeholder: "is_zero_placeholder l \<longleftrightarrow> l = replicate witness_lock_placeholder 0"
  by (auto simp: is_zero_placeholder_def list_all_iff intro: replicate_eqI)

lemma placed_stays:
  assumes L: "tx_library_ok L" and i: "i < length (ct_witnesses tx)" and "placed L (ct_witnesses tx ! i)"
  shows "ensure_witness L i tx = Inr tx"
proof -
  obtain w l where w: "ct_witnesses tx ! i \<noteq> ''0x''" "dec (tl_witness_codec L) (bytes_from (ct_witnesses tx ! i)) = Inr w"
      "wa_lock w = Some l" and zero: "is_zero_placeholder l \<longrightarrow> (\<exists>b. enc (tl_witness_codec L) w = Inr b \<and> ct_witnesses tx ! i = hex_from b)"
    using assms(3) by (auto simp: placed_def)
  show ?thesis
  proof (cases "is_zero_placeholder l")
    case True
    then obtain b where b: "enc (tl_witness_codec L) w = Inr b" "ct_witnesses tx ! i = hex_from b" using zero by blast
    have "\<lparr>wa_lock = wa_lock build_placeholder_witness, wa_input_type = wa_input_type w, wa_output_type = wa_output_type w\<rparr> = w"
      using True w(3) by (cases w) (simp add: build_placeholder_witness_def zero_placeholder)
    moreover have "tl_set_witness L i w tx = tx" using lib_set [OF L i b(1)] b(2) by (simp add: list_update_same_conv [OF i])
    ultimately show ?thesis using w True by (simp add: ensure_witness_def Let_def sum_bind_def)
  next
    case False
    then show ?thesis using w by (simp add: ensure_witness_def Let_def sum_bind_def)
  qed
qed

lemma ensure_places:
  assumes L: "tx_library_ok L" and i: "i < length (ct_witnesses tx)" and run: "ensure_witness L i tx = Inr tx'"
  shows "\<exists>raw. tx' = tx\<lparr>ct_witnesses := (ct_witnesses tx)[i := raw]\<rparr> \<and> placed L raw"
proof -
  have set_case: "\<exists>raw. tl_set_witness L i \<lparr>wa_lock = wa_lock build_placeholder_witness, wa_input_type = x, wa_output_type = y\<rparr> tx
      = tx\<lparr>ct_witnesses := (ct_witnesses tx)[i := raw]\<rparr> \<and> placed L raw" for x y
  proof -
    let ?w = "\<lparr>wa_lock = wa_lock build_placeholder_witness, wa_input_type = x, wa_output_type = y\<rparr>"
    obtain b where b: "enc (tl_witness_codec L) ?w = Inr b" "b \<noteq> []" "dec (tl_witness_codec L) b = Inr ?w"
      using lib_codec [OF L] by blast
    then have "placed L (hex_from b)"
      by (auto simp: placed_def hex_from_nonempty build_placeholder_witness_def)
    with lib_set [OF L i b(1)] show ?thesis by blast
  qed
  have keep: "\<exists>raw. tx = tx\<lparr>ct_witnesses := (ct_witnesses tx)[i := raw]\<rparr> \<and> placed L raw"
    if "placed L (ct_witnesses tx ! i)"
    using that by (intro exI [of _ "ct_witnesses tx ! i"]) simp
  show ?thesis
  proof (cases "ct_witnesses tx ! i = ''0x''")
    case True
    with run set_case show ?thesis by (auto simp: ensure_witness_def Let_def sum_bind_def)
  next
    case False
    with run obtain w where w: "dec (tl_witness_codec L) (bytes_from (ct_witnesses tx ! i)) = Inr w"
      by (auto simp: ensure_witness_def Let_def split: sum.splits)
    show ?thesis
    proof (cases "wa_lock w")
      case None
      with run set_case False w show ?thesis by (auto simp: ensure_witness_def Let_def sum_bind_def)
    next
      case (Some l)
      show ?thesis
      proof (cases "is_zero_placeholder l")
        case True
        with run set_case False w Some show ?thesis by (auto simp: ensure_witness_def Let_def sum_bind_def)
      next
        case no: False
        then have "placed L (ct_witnesses tx ! i)" using False w Some by (auto simp: placed_def)
        with keep run False w Some no show ?thesis by (auto simp: ensure_witness_def Let_def sum_bind_def)
      qed
    qed
  qed
qed

lemma ensure_from_places:
  assumes L: "tx_library_ok L" and run: "ensure_from L is tx = Inr tx'"
    and bound: "\<forall>i \<in> set is. i < length (ct_witnesses tx)"
  shows "\<exists>ws. tx' = tx\<lparr>ct_witnesses := ws\<rparr> \<and> length ws = length (ct_witnesses tx) \<and> (\<forall>i \<in> set is. placed L (ws ! i))
    \<and> (\<forall>i < length ws. i \<notin> set is \<longrightarrow> ws ! i = ct_witnesses tx ! i)"
  using run bound
proof (induction "is" arbitrary: tx)
  case Nil
  then show ?case by (intro exI [of _ "ct_witnesses tx"]) auto
next
  case (Cons i "is")
  then obtain u where u: "ensure_witness L i tx = Inr u" "ensure_from L is u = Inr tx'" by auto
  have i: "i < length (ct_witnesses tx)" using Cons.prems by simp
  obtain raw where raw: "u = tx\<lparr>ct_witnesses := (ct_witnesses tx)[i := raw]\<rparr>" "placed L raw"
    using ensure_places [OF L i u(1)] by blast
  have "\<forall>j \<in> set is. j < length (ct_witnesses u)" using Cons.prems raw(1) by simp
  then obtain ws where ws: "tx' = u\<lparr>ct_witnesses := ws\<rparr>" "length ws = length (ct_witnesses u)"
      "\<forall>j \<in> set is. placed L (ws ! j)" "\<forall>j < length ws. j \<notin> set is \<longrightarrow> ws ! j = ct_witnesses u ! j"
    using Cons.IH [OF u(2)] by blast
  have "placed L (ws ! i)"
    using ws raw i by (cases "i \<in> set is") auto
  with ws raw show ?case by (intro exI [of _ ws]) auto
qed

text \<open>All inputs have a witness with a lock, the other witnesses and the rest of the transaction are
  untouched.\<close>

lemma ensure_result:
  assumes L: "tx_library_ok L" and run: "ensure_placeholder_witnesses L tx = Inr tx'"
  shows "\<exists>ws. tx' = tx\<lparr>ct_witnesses := ws\<rparr> \<and> length ws = max (length (ct_inputs tx)) (length (ct_witnesses tx))
    \<and> (\<forall>i < length (ct_inputs tx). placed L (ws ! i))
    \<and> (\<forall>i. length (ct_inputs tx) \<le> i \<longrightarrow> i < length ws \<longrightarrow> ws ! i = ct_witnesses tx ! i)"
proof -
  have "\<forall>i \<in> set [0..<length (ct_inputs tx)]. i < length (ct_witnesses (pad_witnesses tx))"
    by (auto simp: pad_witnesses_def)
  from ensure_from_places [OF L run [unfolded ensure_placeholder_witnesses_def] this]
  obtain ws where ws: "tx' = (pad_witnesses tx)\<lparr>ct_witnesses := ws\<rparr>" "length ws = length (ct_witnesses (pad_witnesses tx))"
      "\<forall>i \<in> set [0..<length (ct_inputs tx)]. placed L (ws ! i)"
      "\<forall>i < length ws. i \<notin> set [0..<length (ct_inputs tx)] \<longrightarrow> ws ! i = ct_witnesses (pad_witnesses tx) ! i"
    by blast
  have len: "length (ct_witnesses (pad_witnesses tx)) = max (length (ct_inputs tx)) (length (ct_witnesses tx))"
    by (simp add: pad_witnesses_def)
  have "ws ! i = ct_witnesses tx ! i" if "length (ct_inputs tx) \<le> i" "i < length ws" for i
    using ws(4) that len ws(2) by (auto simp: pad_witnesses_def nth_append)
  with ws len show ?thesis by (intro exI [of _ ws]) (auto simp: pad_witnesses_def)
qed

lemma ensure_again:
  assumes L: "tx_library_ok L" and run: "ensure_placeholder_witnesses L tx = Inr tx'"
  shows "ensure_placeholder_witnesses L tx' = Inr tx'"
proof -
  obtain ws where ws: "tx' = tx\<lparr>ct_witnesses := ws\<rparr>" "length ws = max (length (ct_inputs tx)) (length (ct_witnesses tx))"
      "\<forall>i < length (ct_inputs tx). placed L (ws ! i)"
    using ensure_result [OF L run] by blast
  have "ensure_from L is tx' = Inr tx'" if "\<forall>i \<in> set is. i < length (ct_inputs tx)" for "is"
    using that
  proof (induction "is")
    case (Cons i "is")
    then have "ensure_witness L i tx' = Inr tx'"
      using placed_stays [OF L, of i tx'] ws by auto
    with Cons show ?case by (simp add: sum_bind_def)
  qed simp
  moreover have "pad_witnesses tx' = tx'" using ws by (simp add: pad_witnesses_def)
  ultimately show ?thesis using ws(1) by (simp add: ensure_placeholder_witnesses_def)
qed

lemma sign_verifies:
  assumes L: "tx_library_ok L" and D: "dsa_ok D (sg_public S) (sg_secret S)"
    and digest: "\<And>st. length (cighash_digest blake2b st) = 32"
    and run: "sign_transaction L blake2b D S draw resolve tx s = (Inr signed_tx, t)"
  shows "\<exists>resolved. (\<exists>s'. resolve_inputs resolve (ct_inputs tx) s = (Inr resolved, s'))
    \<and> list_all (\<lambda>r. ou_lock (ri_output r) = sg_lock S) resolved
    \<and> verify_own_signature L blake2b D S signed_tx resolved = Inr True"
proof -
  obtain tx' where prep: "prepare_transaction L S tx = Inr tx'"
      and run': "sign_prepared L blake2b D S draw resolve tx' s = (Inr signed_tx, t)"
    using run by (auto simp: sign_transaction_def andthen_Inr lift_result_Inr)
  obtain ds where dep: "tl_add_cell_dep L (sg_dep S) tx = tx\<lparr>ct_deps := ds\<rparr>" using lib_dep [OF L] by blast
  obtain ws where ws: "tx' = (tx\<lparr>ct_deps := ds\<rparr>)\<lparr>ct_witnesses := ws\<rparr>"
      "length ws = max (length (ct_inputs tx)) (length (ct_witnesses tx))" "\<forall>i < length (ct_inputs tx). placed L (ws ! i)"
    using ensure_result [OF L prep [unfolded prepare_transaction_def dep]] by auto
  have inputs: "ct_inputs tx' = ct_inputs tx" using ws(1) by simp
  have "ct_inputs tx \<noteq> []" using run' inputs by (auto simp: sign_prepared_def throw_def split: if_splits)
  then have ne: "ct_witnesses tx' \<noteq> []" "ct_witnesses tx' ! 0 \<noteq> ''0x''"
    using ws by (auto simp: placed_def)
  from sign_prepared_verifies [OF L D digest run' ne] show ?thesis unfolding inputs by blast
qed

section \<open>What a signature covers\<close>

lemma u32_inject:
  assumes "m < 2 ^ 32" "n < 2 ^ 32" "u32_bytes m = u32_bytes n"
  shows "m = n"
proof -
  have idx: "[0..<4] = [0, 1, 2, 3 :: nat]" by (simp add: upt_conv_Cons)
  have digit: "(word_of_nat a :: byte) = word_of_nat b \<longleftrightarrow> a mod 256 = b mod 256" for a b
    by (simp add: word_of_nat_eq_iff take_bit_eq_mod)
  have "m mod 256 = n mod 256" "m div 256 mod 256 = n div 256 mod 256"
      "m div 65536 mod 256 = n div 65536 mod 256" "m div 16777216 mod 256 = n div 16777216 mod 256"
    using assms(3) by (simp_all add: u32_bytes_def idx digit)
  moreover have "k = k mod 256 + 256 * (k div 256 mod 256 + 256 * (k div 65536 mod 256 + 256 * (k div 16777216 mod 256)))"
    if "k < 2 ^ 32" for k :: nat
    using that by (simp add: div_mult2_eq [of k 256 256, simplified] div_mult2_eq [of k 65536 256, simplified] mod_mult2_eq)
  ultimately show ?thesis using assms(1,2) by metis
qed

lemma prefixed_Inr: "prefixed b = Inr x \<longleftrightarrow> length b < 2 ^ 32 \<and> x = u32_bytes (length b) @ b"
  by (auto simp: prefixed_def u32le_def)

lemma prefixed_cancel:
  assumes "prefixed a = Inr x" "prefixed b = Inr y" "x @ r = y @ q"
  shows "a = b \<and> r = q"
proof -
  have "u32_bytes (length a) @ a @ r = u32_bytes (length b) @ b @ q"
    using assms by (simp add: prefixed_Inr)
  moreover have "length (u32_bytes n) = 4" for n by (simp add: u32_bytes_def)
  ultimately have u: "u32_bytes (length a) = u32_bytes (length b)" and rest: "a @ r = b @ q"
    using append_eq_append_conv [of "u32_bytes (length a)" "u32_bytes (length b)"] by auto
  have "length a = length b" using u32_inject [OF _ _ u] assms by (simp add: prefixed_Inr)
  with rest show ?thesis by simp
qed

lemma prefixed_all_cancel:
  assumes "prefixed_all as = Inr x" "prefixed_all bs = Inr y" "x @ r = y @ q" "length as = length bs"
  shows "as = bs \<and> r = q"
  using assms
proof (induction as arbitrary: bs x y)
  case (Cons a as)
  then obtain b cs where bs: "bs = b # cs" by (cases bs) auto
  obtain p x' where a: "prefixed a = Inr p" "prefixed_all as = Inr x'" "x = p @ x'" using Cons.prems(1) by auto
  obtain p2 y' where b: "prefixed b = Inr p2" "prefixed_all cs = Inr y'" "y = p2 @ y'" using Cons.prems(2) bs by auto
  have "a = b" "x' @ r = y' @ q" using prefixed_cancel [OF a(1) b(1), of "x' @ r" "y' @ q"] Cons.prems(3) a b by auto
  moreover have "as = cs \<and> r = q" using Cons.IH [OF a(2) b(2) \<open>x' @ r = y' @ q\<close>] Cons.prems(4) bs by simp
  ultimately show ?case using bs by simp
qed simp

text \<open>Up to the end of the stream the number of items does not have to be known.\<close>

lemma prefixed_all_inject:
  assumes "prefixed_all as = Inr x" "prefixed_all bs = Inr x"
  shows "as = bs"
  using assms
proof (induction as arbitrary: bs x)
  case Nil
  then show ?case by (cases bs) (auto simp: prefixed_Inr u32_bytes_def)
next
  case (Cons a as)
  then obtain p x' where a: "prefixed a = Inr p" "prefixed_all as = Inr x'" "x = p @ x'" by auto
  then have "x \<noteq> []" by (auto simp: prefixed_Inr u32_bytes_def)
  with Cons.prems(2) obtain b cs where bs: "bs = b # cs" by (cases bs) auto
  obtain p2 y' where b: "prefixed b = Inr p2" "prefixed_all cs = Inr y'" "x = p2 @ y'" using Cons.prems(2) bs by auto
  have "a = b" "x' = y'" using prefixed_cancel [OF a(1) b(1), of x' y'] a b by auto
  with Cons.IH [OF a(2)] b bs show ?case by simp
qed

definition self_delimiting :: "tx_library \<Rightarrow> bool" where
  "self_delimiting L \<longleftrightarrow> (\<forall>a b x y. tl_output_bytes L a @ x = tl_output_bytes L b @ y \<longrightarrow> a = b)"

lemma input_parts_cancel:
  assumes "self_delimiting L" "input_parts L rs = Inr x" "input_parts L qs = Inr y" "x @ r = y @ q" "length rs = length qs"
  shows "rs = qs \<and> r = q"
  using assms(2-)
proof (induction rs arbitrary: qs x y)
  case (Cons c rs)
  then obtain c2 qs2 where qs: "qs = c2 # qs2" by (cases qs) auto
  obtain d x' where a: "prefixed (ri_data c) = Inr d" "input_parts L rs = Inr x'" "x = tl_output_bytes L (ri_output c) @ d @ x'"
    using Cons.prems(1) by auto
  obtain d2 y' where b: "prefixed (ri_data c2) = Inr d2" "input_parts L qs2 = Inr y'" "y = tl_output_bytes L (ri_output c2) @ d2 @ y'"
    using Cons.prems(2) qs by auto
  have "tl_output_bytes L (ri_output c) @ (d @ x' @ r) = tl_output_bytes L (ri_output c2) @ (d2 @ y' @ q)"
    using Cons.prems(3) a b by simp
  then have o: "ri_output c = ri_output c2" using assms(1) unfolding self_delimiting_def by blast
  then have "d @ x' @ r = d2 @ y' @ q" using Cons.prems(3) a b by simp
  then have "ri_data c = ri_data c2" "x' @ r = y' @ q" using prefixed_cancel [OF a(1) b(1)] by auto
  moreover have "rs = qs2 \<and> r = q" using Cons.IH [OF a(2) b(2) \<open>x' @ r = y' @ q\<close>] Cons.prems(4) qs by simp
  ultimately show ?case using o qs by simp
qed simp

lemma slice_inject:
  assumes "bytes_opt_slice v = Inr x" "bytes_opt_slice u = Inr x"
  shows "v = u"
proof (cases v)
  case None
  then show ?thesis using assms by (cases u) (auto simp: bytes_opt_slice_def u32le_def u32_bytes_def)
next
  case (Some b)
  then have b: "prefixed b = Inr x" using assms(1) by (simp add: bytes_opt_slice_def prefixed_def)
  show ?thesis
  proof (cases u)
    case None
    then show ?thesis using b assms(2) by (simp add: bytes_opt_slice_def prefixed_Inr u32_bytes_def)
  next
    case (Some c)
    then have "prefixed c = Inr x" using assms(2) by (simp add: bytes_opt_slice_def prefixed_def)
    then have "b = c" using prefixed_cancel [OF b, of c x "[]" "[]"] by simp
    with Some \<open>v = Some b\<close> show ?thesis by simp
  qed
qed

lemma slice_cancel:
  assumes "sum_bind (bytes_opt_slice v) prefixed = Inr x" "sum_bind (bytes_opt_slice u) prefixed = Inr y" "x @ r = y @ q"
  shows "v = u \<and> r = q"
proof -
  obtain a b where a: "bytes_opt_slice v = Inr a" "prefixed a = Inr x" and b: "bytes_opt_slice u = Inr b" "prefixed b = Inr y"
    using assms(1,2) by auto
  from prefixed_cancel [OF a(2) b(2) assms(3)] show ?thesis using slice_inject a(1) b(1) by blast
qed

text \<open>Everything but the lock of the first witness: the hash of the transaction, the cells it spends, the
  other parts of the first witness and all later witnesses.\<close>

definition covered :: "tx_library \<Rightarrow> ccc_transaction \<Rightarrow> resolved_input list \<Rightarrow>
    bytes \<times> resolved_input list \<times> (string + bytes option \<times> bytes option) \<times> bytes list" where
  "covered L tx rs = (tl_hash L tx, rs,
     (case dec (tl_witness_codec L) (bytes_from (ct_witnesses tx ! 0)) of
        Inl e \<Rightarrow> Inl e | Inr w \<Rightarrow> Inr (wa_input_type w, wa_output_type w)),
     map bytes_from (tl (ct_witnesses tx)))"

lemma own_stream:
  assumes "build_cighash_all_stream L tx rs [0..<length (ct_inputs tx)] = Inr s"
  shows "\<exists>inputs w a b rest extra. length rs = length (ct_inputs tx) \<and> ct_inputs tx \<noteq> []
    \<and> length (ct_inputs tx) \<le> length (ct_witnesses tx) \<and> input_parts L rs = Inr inputs
    \<and> dec (tl_witness_codec L) (bytes_from (ct_witnesses tx ! 0)) = Inr w
    \<and> sum_bind (bytes_opt_slice (wa_input_type w)) prefixed = Inr a
    \<and> sum_bind (bytes_opt_slice (wa_output_type w)) prefixed = Inr b
    \<and> prefixed_all (map bytes_from (take (length (ct_inputs tx) - 1) (tl (ct_witnesses tx)))) = Inr rest
    \<and> prefixed_all (map bytes_from (drop (length (ct_inputs tx)) (ct_witnesses tx))) = Inr extra
    \<and> s = tl_hash L tx @ inputs @ a @ b @ rest @ extra"
proof -
  let ?n = "length (ct_inputs tx)"
  have ne: "ct_inputs tx \<noteq> []" and len: "length rs = ?n"
    using assms by (auto simp: build_cighash_all_stream_def stream_error_def split: if_splits)
  have "\<not> list_ex (\<lambda>i. length (ct_witnesses tx) \<le> i) [0..<?n]"
    using assms by (auto simp: build_cighash_all_stream_def stream_error_def split: if_splits)
  then have enough: "?n \<le> length (ct_witnesses tx)"
    using ne by (auto simp: list_ex_iff not_le)
  have grp: "[0..<?n] = 0 # [1..<?n]" using ne by (simp add: upt_conv_Cons)
  have "map (\<lambda>i. bytes_from (ct_witnesses tx ! i)) [1..<?n] = map bytes_from (take (?n - 1) (tl (ct_witnesses tx)))"
    using enough by (intro nth_equalityI) (auto simp: nth_tl)
  moreover obtain w where "dec (tl_witness_codec L) (bytes_from (ct_witnesses tx ! 0)) = Inr w"
    using assms by (cases "dec (tl_witness_codec L) (bytes_from (ct_witnesses tx ! 0))")
      (auto simp: build_cighash_all_stream_def grp stream_error_def split: if_splits)
  ultimately show ?thesis
    using assms ne len enough
    by (auto simp: build_cighash_all_stream_def grp stream_error_def split: if_splits)
qed

lemma stream_covers:
  assumes L: "tx_library_ok L" "self_delimiting L"
    and s: "build_cighash_all_stream L tx rs [0..<length (ct_inputs tx)] = Inr s"
    and s': "build_cighash_all_stream L tx' rs' [0..<length (ct_inputs tx')] = Inr s"
    and n: "length (ct_inputs tx') = length (ct_inputs tx)"
  shows "covered L tx rs = covered L tx' rs'"
proof -
  let ?n = "length (ct_inputs tx)"
  have hash_len: "length (tl_hash L t) = 32" for t using L(1) by (simp add: tx_library_ok_def)
  obtain inputs w a b rest extra where A: "length rs = ?n" "ct_inputs tx \<noteq> []" "?n \<le> length (ct_witnesses tx)"
      "input_parts L rs = Inr inputs" "dec (tl_witness_codec L) (bytes_from (ct_witnesses tx ! 0)) = Inr w"
      "sum_bind (bytes_opt_slice (wa_input_type w)) prefixed = Inr a" "sum_bind (bytes_opt_slice (wa_output_type w)) prefixed = Inr b"
      "prefixed_all (map bytes_from (take (?n - 1) (tl (ct_witnesses tx)))) = Inr rest"
      "prefixed_all (map bytes_from (drop ?n (ct_witnesses tx))) = Inr extra" "s = tl_hash L tx @ inputs @ a @ b @ rest @ extra"
    using own_stream [OF s] by blast
  obtain inputs' w' a' b' rest' extra' where B: "length rs' = ?n" "?n \<le> length (ct_witnesses tx')"
      "input_parts L rs' = Inr inputs'" "dec (tl_witness_codec L) (bytes_from (ct_witnesses tx' ! 0)) = Inr w'"
      "sum_bind (bytes_opt_slice (wa_input_type w')) prefixed = Inr a'" "sum_bind (bytes_opt_slice (wa_output_type w')) prefixed = Inr b'"
      "prefixed_all (map bytes_from (take (?n - 1) (tl (ct_witnesses tx')))) = Inr rest'"
      "prefixed_all (map bytes_from (drop ?n (ct_witnesses tx'))) = Inr extra'" "s = tl_hash L tx' @ inputs' @ a' @ b' @ rest' @ extra'"
    using own_stream [OF s'] unfolding n by blast
  have eq: "tl_hash L tx @ (inputs @ a @ b @ rest @ extra) = tl_hash L tx' @ (inputs' @ a' @ b' @ rest' @ extra')"
    using A(10) B(9) by simp
  have hash: "tl_hash L tx = tl_hash L tx'" and e1: "inputs @ (a @ b @ rest @ extra) = inputs' @ (a' @ b' @ rest' @ extra')"
    using eq hash_len by (simp_all add: append_eq_append_conv)
  have rs: "rs = rs'" and e2: "a @ (b @ rest @ extra) = a' @ (b' @ rest' @ extra')"
    using input_parts_cancel [OF L(2) A(4) B(3) e1] A(1) B(1) by simp_all
  have it: "wa_input_type w = wa_input_type w'" and e3: "b @ (rest @ extra) = b' @ (rest' @ extra')"
    using slice_cancel [OF A(6) B(5) e2] by simp_all
  have ot: "wa_output_type w = wa_output_type w'" and e4: "rest @ extra = rest' @ extra'"
    using slice_cancel [OF A(7) B(6) e3] by simp_all
  let ?g = "\<lambda>t. map bytes_from (take (?n - 1) (tl (ct_witnesses t)))"
  let ?x = "\<lambda>t. map bytes_from (drop ?n (ct_witnesses t))"
  have g: "?g tx = ?g tx'" and e5: "extra = extra'"
    using prefixed_all_cancel [OF A(8) B(7) e4] A(3) B(2) by simp_all
  have x: "?x tx = ?x tx'" using prefixed_all_inject [OF A(9)] B(8) e5 by simp
  have split: "map bytes_from (tl ws) = map bytes_from (take (?n - 1) (tl ws)) @ map bytes_from (drop ?n ws)" for ws
    using A(2) append_take_drop_id [of "?n - 1" "tl ws"]
    by (metis One_nat_def Suc_pred drop_Suc length_greater_0_conv map_append)
  have "map bytes_from (tl (ct_witnesses tx)) = map bytes_from (tl (ct_witnesses tx'))"
    unfolding split [of "ct_witnesses tx"] split [of "ct_witnesses tx'"] using g x by simp
  with hash rs it ot A(5) B(4) show ?thesis by (simp add: covered_def)
qed

section \<open>Libraries for the witnesses\<close>

text \<open>A text whose end can be seen: a mark before each byte, and another one at the end.\<close>

definition delimited :: "bytes \<Rightarrow> bytes" where
  "delimited b = concat (map (\<lambda>x. [1, x]) b) @ [0]"

fun read_delimited :: "bytes \<Rightarrow> bytes \<times> bytes" where
  "read_delimited (m # x # r) = (if m = 0 then ([], x # r) else (case read_delimited r of (b, q) \<Rightarrow> (x # b, q)))"
| "read_delimited r = ([], [])"

lemma read_delimited_append: "r \<noteq> [] \<Longrightarrow> read_delimited (delimited b @ r) = (b, r)"
proof (induction b)
  case Nil
  then show ?case by (cases r) (auto simp: delimited_def)
qed (simp add: delimited_def)

lemma delimited_cancel: "delimited a @ x = delimited b @ y \<Longrightarrow> a = b \<and> x = y"
proof -
  assume "delimited a @ x = delimited b @ y"
  then have "(delimited a @ x) @ [0] = (delimited b @ y) @ [0]" by simp
  then have "read_delimited (delimited a @ (x @ [0])) = read_delimited (delimited b @ (y @ [0]))"
    unfolding append_assoc by (rule arg_cong)
  then show ?thesis by (simp add: read_delimited_append)
qed

definition put_option :: "bytes option \<Rightarrow> bytes" where
  "put_option v = (case v of None \<Rightarrow> [0] | Some b \<Rightarrow> 1 # delimited b)"

definition take_option :: "bytes \<Rightarrow> bytes option \<times> bytes" where
  "take_option r = (case r of m # q \<Rightarrow> if m = 0 then (None, q) else (case read_delimited q of (b, t) \<Rightarrow> (Some b, t)) | [] \<Rightarrow> (None, []))"

lemma take_put_option: "r \<noteq> [] \<Longrightarrow> take_option (put_option v @ r) = (v, r)"
  by (auto simp: take_option_def put_option_def read_delimited_append split: option.splits)

definition example_witness_codec :: "witness_args mol_codec" where
  "example_witness_codec = \<lparr>
     enc = (\<lambda>w. Inr (put_option (wa_lock w) @ put_option (wa_input_type w) @ put_option (wa_output_type w) @ [0])),
     dec = (\<lambda>r. case take_option r of (l, r1) \<Rightarrow> (case take_option r1 of (i, r2) \<Rightarrow> (case take_option r2 of (u, _) \<Rightarrow>
       Inr \<lparr>wa_lock = l, wa_input_type = i, wa_output_type = u\<rparr>)))\<rparr>"

definition text_bytes :: "string \<Rightarrow> bytes" where
  "text_bytes s = map (\<lambda>c. word_of_nat (of_char c)) s"

definition example_output_bytes :: "cell_output \<Rightarrow> bytes" where
  "example_output_bytes w = delimited (replicate (ou_capacity w) 0)
     @ delimited (text_bytes (sc_code_hash (ou_lock w))) @ delimited (text_bytes (sc_hash_type (ou_lock w)))
     @ delimited (text_bytes (sc_args (ou_lock w)))
     @ (case ou_type w of None \<Rightarrow> delimited [] | Some t \<Rightarrow> delimited [1] @ delimited (text_bytes (sc_code_hash t))
          @ delimited (text_bytes (sc_hash_type t)) @ delimited (text_bytes (sc_args t)))"

definition example_library :: tx_library where
  "example_library = \<lparr>tl_hash = (\<lambda>_. replicate 32 0), tl_witness_codec = example_witness_codec, tl_output_bytes = example_output_bytes,
     tl_add_cell_dep = (\<lambda>d tx. tx\<lparr>ct_deps := List.insert d (ct_deps tx)\<rparr>),
     tl_get_witness = (\<lambda>i tx. if ct_witnesses tx ! i = ''0x'' then Inr None
       else case dec example_witness_codec (bytes_from (ct_witnesses tx ! i)) of Inl e \<Rightarrow> Inl (OtherError e) | Inr w \<Rightarrow> Inr (Some w)),
     tl_set_witness = (\<lambda>i w tx. case enc example_witness_codec w of Inl e \<Rightarrow> tx
       | Inr b \<Rightarrow> tx\<lparr>ct_witnesses := (ct_witnesses tx)[i := hex_from b]\<rparr>)\<rparr>"

lemma example_codec_inverse:
  "\<exists>b. enc example_witness_codec w = Inr b \<and> b \<noteq> [] \<and> dec example_witness_codec b = Inr w"
  by (simp add: example_witness_codec_def take_put_option)

lemma example_library_ok: "tx_library_ok example_library"
  using example_codec_inverse by (auto simp: tx_library_ok_def example_library_def)

lemma text_bytes_inject: "text_bytes a = text_bytes b \<longleftrightarrow> a = b"
proof -
  have "inj (\<lambda>c. word_of_nat (of_char c) :: byte)"
  proof (rule injI)
    fix x y :: char assume "(word_of_nat (of_char x) :: byte) = word_of_nat (of_char y)"
    then have "(of_char x :: nat) mod 256 = of_char y mod 256" by (simp add: word_of_nat_eq_iff take_bit_eq_mod)
    then show "x = y" by simp
  qed
  then show ?thesis by (simp add: text_bytes_def inj_map_eq_map)
qed

lemma example_self_delimiting: "self_delimiting example_library"
  unfolding self_delimiting_def
proof (intro allI impI)
  fix a b :: cell_output and x y
  assume "tl_output_bytes example_library a @ x = tl_output_bytes example_library b @ y"
  then show "a = b"
    by (cases a; cases b; cases "ou_lock a"; cases "ou_lock b"; cases "ou_type a"; cases "ou_type b")
      (auto simp: example_library_def example_output_bytes_def text_bytes_inject dest!: delimited_cancel)
qed

section \<open>A run of the signer\<close>

definition example_dsa :: dsa_library where
  "example_dsa = \<lparr>dl_keygen = (\<lambda>_. (replicate 1952 0, replicate 4032 0)), dl_sign = (\<lambda>m sk ctx r. replicate 3309 0),
     dl_verify = (\<lambda>sig m pk ctx. True)\<rparr>"

definition example_signer :: signer where
  "example_signer = \<lparr>sg_public = replicate 1952 0, sg_secret = replicate 4032 0, sg_lock = example_lock,
     sg_dep = \<lparr>de_out_point = \<lparr>po_tx_hash = example_hash, po_index = 3\<rparr>, de_dep_type = DepCode\<rparr>\<rparr>"

definition example_spend :: ccc_transaction where
  "example_spend = \<lparr>ct_version = 0, ct_deps = [], ct_headers = [],
     ct_inputs = [\<lparr>ci_previous = \<lparr>po_tx_hash = example_hash, po_index = 1\<rparr>, ci_since = 0\<rparr>],
     ct_outputs = [], ct_data = [], ct_witnesses = []\<rparr>"

definition example_input :: resolved_input where
  "example_input = \<lparr>ri_output = \<lparr>ou_capacity = 3, ou_lock = example_lock, ou_type = None\<rparr>, ri_data = []\<rparr>"

definition example_resolver :: "ccc_out_point \<Rightarrow> (unit, resolved_input option) signing" where
  "example_resolver = static_cell_resolver [(\<lparr>po_tx_hash = example_hash, po_index = 1\<rparr>, example_input)]"

definition example_sign :: "ccc_transaction \<Rightarrow> (unit, ccc_transaction) signing" where
  "example_sign = sign_transaction example_library (\<lambda>n p m. replicate n 0) example_dsa example_signer
     (ret (replicate 32 0)) example_resolver"

lemma example_dsa_ok: "dsa_ok example_dsa (sg_public example_signer) (sg_secret example_signer)"
  by (simp add: dsa_ok_def example_dsa_def sig_size_def)

lemma example_prepared:
  "\<exists>b. prepare_transaction example_library example_signer example_spend
      = Inr (example_spend\<lparr>ct_deps := [sg_dep example_signer], ct_witnesses := [hex_from b]\<rparr>)
    \<and> dec (tl_witness_codec example_library) b = Inr build_placeholder_witness \<and> b \<noteq> []"
proof -
  let ?tx = "example_spend\<lparr>ct_deps := [sg_dep example_signer], ct_witnesses := [''0x'']\<rparr>"
  obtain b where b: "tl_set_witness example_library 0 build_placeholder_witness ?tx = ?tx\<lparr>ct_witnesses := (ct_witnesses ?tx)[0 := hex_from b]\<rparr>"
      "dec (tl_witness_codec example_library) b = Inr build_placeholder_witness" "b \<noteq> []"
    using set_then_get [OF example_library_ok, of 0 ?tx] by fastforce
  have "tl_add_cell_dep example_library d example_spend = example_spend\<lparr>ct_deps := [d]\<rparr>" for d
    by (simp add: example_library_def example_spend_def)
  then have "prepare_transaction example_library example_signer example_spend
      = Inr (tl_set_witness example_library 0 build_placeholder_witness ?tx)"
    by (simp add: prepare_transaction_def ensure_placeholder_witnesses_def pad_witnesses_def ensure_witness_def example_spend_def
      build_placeholder_witness_def sum_bind_def)
  with b show ?thesis by (intro exI [of _ b]) (simp add: example_spend_def)
qed

lemma sign_prepared_run:
  assumes "ct_inputs tx \<noteq> []" and "resolve_inputs resolve (ct_inputs tx) s = (Inr resolved, s1)"
    and "assert_all_locked_by resolved (sg_lock S) = Inr ()"
    and "build_cighash_all_stream L tx resolved [0..<length (ct_inputs tx)] = Inr stream"
    and "draw s1 = (Inr entropy, s2)"
    and "mldsa_sign D (sg_secret S) (cighash_digest blake2b stream) entropy = Inr sig"
    and "mldsa_witness_lock (sg_public S) sig = Inr lock" and "tl_get_witness L 0 tx = Inr (Some w)"
  shows "sign_prepared L blake2b D S draw resolve tx s = (Inr (tl_set_witness L 0 (with_signature_lock w lock) tx), s2)"
  using assms by (simp add: sign_prepared_def andthen_def lift_result_def ret_def)

lemma mldsa_sign_run:
  "length secret = sk_size \<Longrightarrow> length digest = 32 \<Longrightarrow> length entropy = 32 \<Longrightarrow>
     mldsa_sign D secret digest entropy = Inr (dl_sign D digest secret (text_encode mldsa_domain) entropy)"
  by (simp add: mldsa_sign_def)

lemma mldsa_witness_lock_run:
  "length pubkey = pk_size \<Longrightarrow> length signature = sig_size \<Longrightarrow> \<exists>l. mldsa_witness_lock pubkey signature = Inr l"
  by (simp add: mldsa_witness_lock_def)

lemma example_signs: "\<exists>signed_tx. example_sign example_spend () = (Inr signed_tx, ())"
proof -
  obtain b where b: "prepare_transaction example_library example_signer example_spend
      = Inr (example_spend\<lparr>ct_deps := [sg_dep example_signer], ct_witnesses := [hex_from b]\<rparr>)"
      "dec (tl_witness_codec example_library) b = Inr build_placeholder_witness" "b \<noteq> []"
    using example_prepared by blast
  let ?tx = "example_spend\<lparr>ct_deps := [sg_dep example_signer], ct_witnesses := [hex_from b]\<rparr>"
  have first: "tl_get_witness example_library 0 ?tx = Inr (Some build_placeholder_witness)"
    using b by (subst lib_get [OF example_library_ok]) (simp_all add: hex_from_nonempty)
  have resolved: "resolve_inputs example_resolver (ct_inputs ?tx) () = (Inr [example_input], ())"
    by (simp add: example_resolver_def static_cell_resolver_def example_spend_def andthen_def ret_def)
  have "\<exists>st. build_cighash_all_stream example_library ?tx [example_input] [0..<length (ct_inputs ?tx)] = Inr st"
    using b by (simp add: build_cighash_all_stream_def example_spend_def build_placeholder_witness_def bytes_opt_slice_def
      prefixed_def u32le_def example_input_def)
  then obtain st where st: "build_cighash_all_stream example_library ?tx [example_input] [0..<length (ct_inputs ?tx)] = Inr st"
    by blast
  let ?digest = "cighash_digest (\<lambda>n p m. replicate n 0) st"
  have mine: "assert_all_locked_by [example_input] (sg_lock example_signer) = Inr ()"
    by (simp add: assert_all_locked_by_def example_input_def example_signer_def)
  have "length (sg_secret example_signer) = sk_size"
    unfolding example_signer_def sk_size_def signer.simps length_replicate by (rule refl)
  moreover have "length ?digest = 32" unfolding cighash_digest_def length_replicate by (rule refl)
  moreover have "length (replicate 32 0 :: bytes) = 32" by (rule length_replicate)
  ultimately have "mldsa_sign example_dsa (sg_secret example_signer) ?digest (replicate 32 0)
      = Inr (dl_sign example_dsa ?digest (sg_secret example_signer) (text_encode mldsa_domain) (replicate 32 0))"
    by (rule mldsa_sign_run)
  moreover have "length (dl_sign example_dsa ?digest (sg_secret example_signer) (text_encode mldsa_domain) (replicate 32 0)) = sig_size"
    using example_dsa_ok unfolding dsa_ok_def by blast
  ultimately have "\<exists>g. mldsa_sign example_dsa (sg_secret example_signer) ?digest (replicate 32 0) = Inr g \<and> length g = sig_size"
    by blast
  then obtain g where g: "mldsa_sign example_dsa (sg_secret example_signer) ?digest (replicate 32 0) = Inr g" "length g = sig_size"
    by blast
  have "length (sg_public example_signer) = pk_size"
    unfolding example_signer_def pk_size_def signer.simps length_replicate by (rule refl)
  then obtain l where "mldsa_witness_lock (sg_public example_signer) g = Inr l"
    using mldsa_witness_lock_run [OF _ g(2)] by blast
  with resolved mine st g(1) first have "\<exists>signed_tx. sign_prepared example_library (\<lambda>n p m. replicate n 0) example_dsa example_signer
      (ret (replicate 32 0)) example_resolver ?tx () = (Inr signed_tx, ())"
    by (intro exI) (rule sign_prepared_run, simp_all add: example_spend_def ret_def)
  then show ?thesis
    using b(1) by (simp add: example_sign_def sign_transaction_def andthen_def lift_result_def ret_def)
qed

section \<open>Properties\<close>

text \<open>
  C12. What the signer returns verifies, and spends only its own cells: whatever the cells it is shown,
  whatever witnesses the transaction already holds and whatever randomness is drawn, if the signer
  returns a transaction then every input it resolved is locked by its own lock, and the signature in
  the returned transaction verifies against those cells.
\<close>

theorem signed_transaction_verifies:
  assumes "tx_library_ok L" and "dsa_ok D (sg_public S) (sg_secret S)"
    and "\<forall>st. length (cighash_digest blake2b st) = 32"
    and "sign_transaction L blake2b D S draw resolve tx s = (Inr signed_tx, t)"
  shows "\<exists>resolved. (\<exists>s'. resolve_inputs resolve (ct_inputs tx) s = (Inr resolved, s'))
    \<and> list_all (\<lambda>r. ou_lock (ri_output r) = sg_lock S) resolved
    \<and> verify_own_signature L blake2b D S signed_tx resolved = Inr True"
  by (rule sign_verifies [OF assms(1,2) _ assms(4)]) (use assms(3) in blast)

theorem signed_transaction_witness:
  "\<exists>signed_tx resolved. example_sign example_spend () = (Inr signed_tx, ())
     \<and> (\<exists>s'. resolve_inputs example_resolver (ct_inputs example_spend) () = (Inr resolved, s'))
     \<and> list_all (\<lambda>r. ou_lock (ri_output r) = sg_lock example_signer) resolved
     \<and> verify_own_signature example_library (\<lambda>n p m. replicate n 0) example_dsa example_signer signed_tx resolved = Inr True"
proof -
  obtain signed_tx where run: "example_sign example_spend () = (Inr signed_tx, ())" using example_signs by blast
  have digest: "\<forall>st. length (cighash_digest (\<lambda>n p m. replicate n 0) st) = 32"
    unfolding cighash_digest_def length_replicate by blast
  show ?thesis
    using run signed_transaction_verifies [OF example_library_ok example_dsa_ok digest run [unfolded example_sign_def]]
    by blast
qed

text \<open>
  C39. A signature covers the whole spend: two transactions with the same number of inputs that lead
  to the same signed stream have the same hash, spend the same cells with the same data, and agree
  in every witness but the lock of the first one. The lengths written into the stream leave no
  second reading of it.
\<close>

theorem signed_stream_binds:
  assumes "tx_library_ok L" and "self_delimiting L"
    and "build_cighash_all_stream L tx rs [0..<length (ct_inputs tx)] = Inr s"
    and "build_cighash_all_stream L tx' rs' [0..<length (ct_inputs tx')] = Inr s"
    and "length (ct_inputs tx') = length (ct_inputs tx)"
  shows "covered L tx rs = covered L tx' rs'"
  using assms by (rule stream_covers)

definition example_witnessed :: "string list \<Rightarrow> ccc_transaction" where
  "example_witnessed ws = example_spend\<lparr>ct_witnesses := ws\<rparr>"

text \<open>The witness: a transaction and the one in which another lock takes the place of the first.\<close>

theorem signed_stream_witness:
  "\<exists>a b. a \<noteq> b \<and> covered example_library (example_witnessed [hex_from a]) [example_input]
    = covered example_library (example_witnessed [hex_from b]) [example_input]"
proof -
  let ?w = "\<lambda>l. \<lparr>wa_lock = l, wa_input_type = None, wa_output_type = None\<rparr>"
  obtain a b where a: "dec (tl_witness_codec example_library) a = Inr (?w None)"
      and b: "dec (tl_witness_codec example_library) b = Inr (?w (Some [7]))"
    using lib_codec [OF example_library_ok] by blast
  have "\<exists>st. build_cighash_all_stream example_library (example_witnessed [hex_from c]) [example_input]
      [0..<length (ct_inputs (example_witnessed [hex_from c]))] = Inr st
      \<and> st = tl_hash example_library example_spend @ tl_output_bytes example_library (ri_output example_input) @ u32_bytes 0 @ u32_bytes 0 @ u32_bytes 0"
    if "dec (tl_witness_codec example_library) c = Inr (?w l)" for c l
    using that by (simp add: build_cighash_all_stream_def example_witnessed_def example_spend_def bytes_opt_slice_def
      prefixed_def u32le_def example_input_def example_library_def)
  then have "covered example_library (example_witnessed [hex_from a]) [example_input]
      = covered example_library (example_witnessed [hex_from b]) [example_input]"
    using a b by (intro signed_stream_binds [OF example_library_ok example_self_delimiting])
      (auto simp: example_witnessed_def)
  moreover have "a \<noteq> b" using a b by auto
  ultimately show ?thesis by blast
qed

text \<open>
  Preparing a transaction is idempotent and clobbers nothing: once every input has a witness with
  a lock, preparing again changes neither a placeholder nor a signature, which the library that
  completes fees relies on when it prepares the transaction on every round.
\<close>

theorem placeholders_are_stable:
  assumes "tx_library_ok L" and "ensure_placeholder_witnesses L tx = Inr tx'"
  shows "ensure_placeholder_witnesses L tx' = Inr tx'"
  using assms by (rule ensure_again)

theorem placeholders_witness:
  "\<exists>tx'. ensure_placeholder_witnesses example_library example_spend = Inr tx'
     \<and> ensure_placeholder_witnesses example_library tx' = Inr tx'"
proof -
  have "\<exists>tx'. ensure_placeholder_witnesses example_library example_spend = Inr tx'"
    by (simp add: ensure_placeholder_witnesses_def pad_witnesses_def ensure_witness_def example_spend_def Let_def sum_bind_def)
  then show ?thesis using placeholders_are_stable [OF example_library_ok] by blast
qed

end
