(* ===== verification/Cemp_Builders.thy ===== *)
theory Cemp_Builders
  imports Cemp_Signing Cemp_Resolve Cemp_Incoming
begin

text \<open>
  packages/cemp-ckb/src/builders.ts: the builders of unsigned transactions. Each checks its arguments,
  makes a transaction with its first outputs, lets the library select inputs and complete the fee, and
  describes the inputs for the journal.

  The methods of the CCC library (\<open>builder_library\<close>) are parameters: the capacity of an output that is
  given none, the normal form of a hex text, reading a number, the dependency of the Type ID script,
  coin selection, fee completion, the fee, the cell of an input and the Type ID of an input. The codecs
  of a profile and an envelope are those of the other theories. Numbers on the wire are not negative.
\<close>

section \<open>Records\<close>

record input_description =
  id_tx_hash :: string
  id_index :: string
  id_capacity :: string

record built_transaction =
  bt_tx :: ccc_transaction
  bt_inputs :: "input_description list"
  bt_fee :: int

record cell_dep_ref =
  cr_tx_hash :: string
  cr_index :: string
  cr_dep_type :: dep_type

record message_type_ref =
  mt_code_hash :: string
  mt_hash_type :: string
  mt_cell_dep :: cell_dep_ref

record 's builder_library =
  bl_tx :: tx_library
  bl_occupied :: "cell_output \<Rightarrow> bytes \<Rightarrow> nat"
  bl_script_size :: "script \<Rightarrow> nat"
  bl_fixed_point :: "nat \<Rightarrow> nat"
  bl_hex :: "string \<Rightarrow> string"
  bl_num :: "string \<Rightarrow> nat option"
  bl_type_id_dep :: "ccc_transaction \<Rightarrow> ('s, ccc_transaction) signing"
  bl_complete_inputs :: "signer \<Rightarrow> ccc_transaction \<Rightarrow> ('s, ccc_transaction) signing"
  bl_complete_fee :: "signer \<Rightarrow> nat \<Rightarrow> ccc_transaction \<Rightarrow> ('s, ccc_transaction) signing"
  bl_complete_change :: "signer \<Rightarrow> script \<Rightarrow> nat \<Rightarrow> ccc_transaction \<Rightarrow> ('s, ccc_transaction) signing"
  bl_fee :: "ccc_transaction \<Rightarrow> ('s, int) signing"
  bl_cell :: "ccc_input \<Rightarrow> ('s, cell_output) signing"
  bl_type_id :: "ccc_out_point \<Rightarrow> nat \<Rightarrow> string"

definition default_fee_rate :: nat where
  "default_fee_rate = 1200"

definition capacity_margin :: nat where
  "capacity_margin = 100000000"

definition fee_rate :: "nat option \<Rightarrow> nat" where
  "fee_rate r = (case r of None \<Rightarrow> default_fee_rate | Some n \<Rightarrow> n)"

section \<open>Parts of a transaction\<close>

text \<open>Numbers, scripts and out points as the library reads them.\<close>

definition num_from :: "'s builder_library \<Rightarrow> string \<Rightarrow> string \<Rightarrow> string \<Rightarrow> failure + nat" where
  "num_from B ctx detail s = (case bl_num B s of None \<Rightarrow> shape ctx detail | Some n \<Rightarrow> Inr n)"

definition script_from :: "'s builder_library \<Rightarrow> script \<Rightarrow> script" where
  "script_from B s = \<lparr>sc_code_hash = bl_hex B (sc_code_hash s), sc_hash_type = sc_hash_type s, sc_args = bl_hex B (sc_args s)\<rparr>"

definition spend_of :: "'s builder_library \<Rightarrow> string \<Rightarrow> nat \<Rightarrow> ccc_input" where
  "spend_of B h n = \<lparr>ci_previous = \<lparr>po_tx_hash = bl_hex B h, po_index = n\<rparr>, ci_since = 0\<rparr>"

text \<open>\<open>Transaction.from\<close>: an output without capacity gets its occupied size.\<close>

definition sized :: "'s builder_library \<Rightarrow> cell_output \<Rightarrow> bytes \<Rightarrow> cell_output" where
  "sized B w data = (if ou_capacity w = 0 then w\<lparr>ou_capacity := bl_occupied B w data\<rparr> else w)"

definition transaction_from :: "'s builder_library \<Rightarrow> ccc_input list \<Rightarrow> (cell_output \<times> bytes) list \<Rightarrow> ccc_transaction" where
  "transaction_from B ins outs = \<lparr>ct_version = 0, ct_deps = [], ct_headers = [], ct_inputs = ins,
     ct_outputs = map (\<lambda>(w, d). sized B w d) outs, ct_data = map (\<lambda>(w, d). hex_from d) outs, ct_witnesses = []\<rparr>"

definition cell_dep_from :: "'s builder_library \<Rightarrow> cell_dep_ref \<Rightarrow> string \<Rightarrow> failure + ccc_dep" where
  "cell_dep_from B ref ctx =
     (if \<not> hash_ok (cr_tx_hash ref) then shape ctx ''cell dep tx hash is not a 32-byte hash''
      else sum_bind (num_from B ctx ''cell dep index is unparseable'' (cr_index ref)) (\<lambda>n.
        if n > u32_max then shape ctx ''cell dep index exceeds uint32''
        else Inr \<lparr>de_out_point = \<lparr>po_tx_hash = bl_hex B (cr_tx_hash ref), po_index = n\<rparr>, de_dep_type = cr_dep_type ref\<rparr>))"

fun describe_inputs :: "'s builder_library \<Rightarrow> ccc_input list \<Rightarrow> ('s, input_description list) signing" where
  "describe_inputs B [] = ret []"
| "describe_inputs B (i # is) =
     andthen (bl_cell B i) (\<lambda>w.
     andthen (describe_inputs B is) (\<lambda>ds.
     ret (\<lparr>id_tx_hash = po_tx_hash (ci_previous i), id_index = quantity (po_index (ci_previous i)),
       id_capacity = decimal (ou_capacity w)\<rparr> # ds)))"

definition positive_fee :: "'s builder_library \<Rightarrow> string \<Rightarrow> ccc_transaction \<Rightarrow> ('s, int) signing" where
  "positive_fee B ctx tx =
     andthen (bl_fee B tx) (\<lambda>fee.
     if fee \<le> 0 then throw (CkbError ctx ''fee completion left a non-positive fee'') else ret fee)"

definition finalize :: "'s builder_library \<Rightarrow> ccc_transaction \<Rightarrow> ('s, built_transaction) signing" where
  "finalize B tx =
     andthen (positive_fee B ''builders'' tx) (\<lambda>fee.
     andthen (describe_inputs B (ct_inputs tx)) (\<lambda>ds.
     ret \<lparr>bt_tx = tx, bt_inputs = ds, bt_fee = fee\<rparr>))"

text \<open>The first output and its type script, and the first input.\<close>

definition update_first :: "string \<Rightarrow> (cell_output \<Rightarrow> cell_output) \<Rightarrow> ccc_transaction \<Rightarrow> failure + ccc_transaction" where
  "update_first ctx f tx = (case ct_outputs tx of
       [] \<Rightarrow> shape ctx ''internal: output missing''
     | w # ws \<Rightarrow> Inr (tx\<lparr>ct_outputs := f w # ws\<rparr>))"

definition add_margin :: "cell_output \<Rightarrow> cell_output" where
  "add_margin w = w\<lparr>ou_capacity := ou_capacity w + capacity_margin\<rparr>"

definition set_type_args :: "string \<Rightarrow> string \<Rightarrow> ccc_transaction \<Rightarrow> failure + ccc_transaction" where
  "set_type_args ctx args tx = (case ct_outputs tx of
       [] \<Rightarrow> shape ctx ''internal: type script missing''
     | w # ws \<Rightarrow> (case ou_type w of
           None \<Rightarrow> shape ctx ''internal: type script missing''
         | Some ty \<Rightarrow> Inr (tx\<lparr>ct_outputs := w\<lparr>ou_type := Some (ty\<lparr>sc_args := args\<rparr>)\<rparr> # ws\<rparr>)))"

definition type_id_from_first_input :: "'s builder_library \<Rightarrow> string \<Rightarrow> ccc_transaction \<Rightarrow> failure + ccc_transaction" where
  "type_id_from_first_input B ctx tx = (case ct_inputs tx of
       [] \<Rightarrow> shape ctx ''coin selection added no inputs''
     | i # _ \<Rightarrow> set_type_args ctx (bl_type_id B (ci_previous i) 0) tx)"

text \<open>The type script of a profile cell before its id is known.\<close>

definition type_id_placeholder :: script where
  "type_id_placeholder = \<lparr>sc_code_hash = type_id_code_hash, sc_hash_type = ''type'', sc_args = hex_from (replicate 32 0)\<rparr>"

section \<open>Profiles\<close>

text \<open>Encoding a profile and checking what came out.\<close>

definition profile_bytes :: "cemp_profile_v1 mol_codec \<Rightarrow> string \<Rightarrow> cemp_profile_v1 \<Rightarrow> failure + bytes" where
  "profile_bytes codec ctx p = (case encode_cemp_profile_v1 codec p of
       Inl e \<Rightarrow> Inl (OtherError ''CempCodecError'')
     | Inr data \<Rightarrow> (case validate_profile codec data of
           Fail _ \<Rightarrow> shape ctx ''profile rejected''
         | Ok \<Rightarrow> Inr data))"

definition build_create_profile ::
  "'s builder_library \<Rightarrow> cemp_profile_v1 mol_codec \<Rightarrow> signer \<Rightarrow> cemp_profile_v1 \<Rightarrow> nat option \<Rightarrow> ('s, built_transaction) signing" where
  "build_create_profile B codec S p rate =
     andthen (lift_result (profile_bytes codec ''buildCreateProfileTx'' p)) (\<lambda>data.
     andthen (bl_type_id_dep B (transaction_from B []
       [(\<lparr>ou_capacity = 0, ou_lock = sg_lock S, ou_type = Some type_id_placeholder\<rparr>, data)])) (\<lambda>tx.
     andthen (lift_result (update_first ''buildCreateProfileTx'' add_margin tx)) (\<lambda>tx.
     andthen (bl_complete_inputs B S tx) (\<lambda>tx.
     andthen (lift_result (type_id_from_first_input B ''buildCreateProfileTx'' tx)) (\<lambda>tx.
     andthen (bl_complete_fee B S (fee_rate rate) tx) (\<lambda>tx.
     finalize B tx))))))"

definition wire_script_equals :: "script \<Rightarrow> script \<Rightarrow> bool" where
  "wire_script_equals a b \<longleftrightarrow> sc_code_hash a = sc_code_hash b \<and> sc_hash_type a = sc_hash_type b \<and> sc_args a = sc_args b"

definition check_rotation :: "signer \<Rightarrow> wire_cell \<Rightarrow> cemp_profile_v1 \<Rightarrow> failure + unit" where
  "check_rotation S old p =
     (if \<not> wire_script_equals (wo_lock (ce_output old)) (sg_lock S)
      then shape ''buildRotateProfileTx'' ''the profile cell is not locked by the lock of the signer''
      else case wo_type (ce_output old) of
          None \<Rightarrow> shape ''buildRotateProfileTx'' ''the spent cell is not a Type ID profile cell''
        | Some ty \<Rightarrow>
            if sc_code_hash ty \<noteq> type_id_code_hash
            then shape ''buildRotateProfileTx'' ''the spent cell is not a Type ID profile cell''
            else if map_option hex_from (pf_previous_profile_id p) \<noteq> Some (sc_args ty)
            then shape ''buildRotateProfileTx'' ''previous_profile_id must equal the type args of the spent cell''
            else Inr ())"

text \<open>The successor carries at least the capacity of the old cell.\<close>

definition roll_over :: "nat \<Rightarrow> cell_output \<Rightarrow> cell_output" where
  "roll_over old w = add_margin (if ou_capacity w < old then w\<lparr>ou_capacity := old\<rparr> else w)"

definition big_num :: "'s builder_library \<Rightarrow> string \<Rightarrow> failure + nat" where
  "big_num B s = (case bl_num B s of None \<Rightarrow> Inl (OtherError ''SyntaxError'') | Some n \<Rightarrow> Inr n)"

definition build_rotate_profile ::
  "'s builder_library \<Rightarrow> cemp_profile_v1 mol_codec \<Rightarrow> signer \<Rightarrow> wire_cell \<Rightarrow> cemp_profile_v1 \<Rightarrow> script \<Rightarrow> nat option \<Rightarrow>
     ('s, built_transaction) signing" where
  "build_rotate_profile B codec S old p new_lock rate =
     andthen (lift_result (check_rotation S old p)) (\<lambda>_.
     andthen (lift_result (profile_bytes codec ''buildRotateProfileTx'' p)) (\<lambda>data.
     andthen (lift_result (num_from B ''buildRotateProfileTx'' ''old profile cell has an unparseable index''
       (op_index (ce_out_point old)))) (\<lambda>n.
     andthen (bl_type_id_dep B (transaction_from B [spend_of B (op_tx_hash (ce_out_point old)) n]
       [(\<lparr>ou_capacity = 0, ou_lock = script_from B new_lock, ou_type = Some type_id_placeholder\<rparr>, data)])) (\<lambda>tx.
     andthen (lift_result (if ct_outputs tx = [] then shape ''buildRotateProfileTx'' ''internal: output missing''
       else big_num B (wo_capacity (ce_output old)))) (\<lambda>capacity.
     andthen (lift_result (update_first ''buildRotateProfileTx'' (roll_over capacity) tx)) (\<lambda>tx.
     andthen (bl_complete_inputs B S tx) (\<lambda>tx.
     andthen (lift_result (type_id_from_first_input B ''buildRotateProfileTx'' tx)) (\<lambda>tx.
     andthen (bl_complete_fee B S (fee_rate rate) tx) (\<lambda>tx.
     finalize B tx)))))))))"

section \<open>Messages\<close>

definition message_args :: "bytes \<Rightarrow> bytes \<Rightarrow> bytes \<Rightarrow> failure + bytes" where
  "message_args route conversation nonce = (case build_message_type_args route conversation nonce of
       Inl e \<Rightarrow> shape ''buildMessageTypeArgs'' ''wrong width''
     | Inr args \<Rightarrow> Inr args)"

definition check_message :: "cemp_envelope_v1 mol_codec \<Rightarrow> bytes \<Rightarrow> failure + unit" where
  "check_message codec envelope =
     (if envelope = [] then shape ''buildSendMessageTx'' ''envelope is empty''
      else if length envelope > max_envelope_bytes V1_LIMITS then shape ''buildSendMessageTx'' ''envelope exceeds the limit''
      else case validate_envelope codec envelope of
          Fail _ \<Rightarrow> shape ''buildSendMessageTx'' ''envelope rejected''
        | Ok \<Rightarrow> Inr ())"

definition build_send_message ::
  "'s builder_library \<Rightarrow> cemp_envelope_v1 mol_codec \<Rightarrow> signer \<Rightarrow> bytes \<Rightarrow> bytes \<Rightarrow> bytes \<Rightarrow> bytes \<Rightarrow> message_type_ref option \<Rightarrow>
     nat option \<Rightarrow> ('s, built_transaction) signing" where
  "build_send_message B codec S envelope route conversation nonce message_type rate =
     (case message_type of
       None \<Rightarrow> throw (CkbError ''buildSendMessageTx'' ''no CEMP message type script is deployed on this network'')
     | Some ty \<Rightarrow>
         andthen (lift_result (check_message codec envelope)) (\<lambda>_.
         andthen (lift_result (message_args route conversation nonce)) (\<lambda>args.
         andthen (lift_result (cell_dep_from B (mt_cell_dep ty) ''buildSendMessageTx'')) (\<lambda>dep.
         andthen (lift_result (update_first ''buildSendMessageTx'' add_margin (tl_add_cell_dep (bl_tx B) dep
           (transaction_from B [] [(\<lparr>ou_capacity = 0, ou_lock = sg_lock S,
             ou_type = Some \<lparr>sc_code_hash = bl_hex B (mt_code_hash ty), sc_hash_type = mt_hash_type ty, sc_args = hex_from args\<rparr>\<rparr>,
             envelope)])))) (\<lambda>tx.
         andthen (bl_complete_inputs B S tx) (\<lambda>tx.
         andthen (bl_complete_fee B S (fee_rate rate) tx) (\<lambda>tx.
         finalize B tx)))))))"

section \<open>Spending cells\<close>

definition js_big_int :: "string \<Rightarrow> int option" where
  "js_big_int s =
     (let t = js_trim (points s); digits = (\<lambda>u. list_all (\<lambda>c. 48 \<le> c \<and> c \<le> 57) u);
          num = (\<lambda>u. foldl (\<lambda>n c. 10 * n + (int c - 48)) 0 u) in
      if t = [] then Some 0
      else if take 2 t \<in> {points ''0x'', points ''0X''} then
        (if drop 2 t \<noteq> [] \<and> list_all (\<lambda>c. c < 256 \<and> is_hex (char_of c)) (drop 2 t)
         then Some (foldl (\<lambda>n c. 16 * n + int (the (hex_value (char_of c)))) 0 (drop 2 t)) else None)
      else if take 2 t \<in> {points ''0o'', points ''0O''} then
        (if drop 2 t \<noteq> [] \<and> list_all (\<lambda>c. 48 \<le> c \<and> c \<le> 55) (drop 2 t)
         then Some (foldl (\<lambda>n c. 8 * n + (int c - 48)) 0 (drop 2 t)) else None)
      else if take 2 t \<in> {points ''0b'', points ''0B''} then
        (if drop 2 t \<noteq> [] \<and> list_all (\<lambda>c. 48 \<le> c \<and> c \<le> 49) (drop 2 t)
         then Some (foldl (\<lambda>n c. 2 * n + (int c - 48)) 0 (drop 2 t)) else None)
      else if hd t = 45 then (if tl t \<noteq> [] \<and> digits (tl t) then Some (- num (tl t)) else None)
      else if hd t = 43 then (if tl t \<noteq> [] \<and> digits (tl t) then Some (num (tl t)) else None)
      else if digits t then Some (num t) else None)"

definition same_index :: "string \<Rightarrow> string \<Rightarrow> bool" where
  "same_index a b = (case (js_big_int a, js_big_int b) of (Some x, Some y) \<Rightarrow> x = y | _ \<Rightarrow> False)"

definition reclaim_input :: "'s builder_library \<Rightarrow> script \<Rightarrow> out_point \<times> wire_cell \<Rightarrow> failure + ccc_input" where
  "reclaim_input B owner oc = (case oc of (point, c) \<Rightarrow>
     sum_bind (num_from B ''buildReclaimTx'' ''out point has an unparseable index'' (op_index point)) (\<lambda>n.
     if \<not> (op_tx_hash (ce_out_point c) = op_tx_hash point \<and> same_index (op_index (ce_out_point c)) (op_index point))
     then shape ''buildReclaimTx'' ''resolved cell does not match out point''
     else if \<not> wire_script_equals (wo_lock (ce_output c)) owner
     then shape ''buildReclaimTx'' ''cell is not locked by the lock of the sender''
     else Inr (spend_of B (op_tx_hash point) n)))"

fun map_results :: "('a \<Rightarrow> failure + 'b) \<Rightarrow> 'a list \<Rightarrow> failure + 'b list" where
  "map_results f [] = Inr []"
| "map_results f (x # xs) = sum_bind (f x) (\<lambda>y. sum_bind (map_results f xs) (\<lambda>ys. Inr (y # ys)))"

definition describe_cell :: "'s builder_library \<Rightarrow> wire_cell \<Rightarrow> failure + input_description" where
  "describe_cell B c = sum_bind (big_num B (wo_capacity (ce_output c))) (\<lambda>capacity.
     Inr \<lparr>id_tx_hash = op_tx_hash (ce_out_point c), id_index = op_index (ce_out_point c), id_capacity = decimal capacity\<rparr>)"

text \<open>\<open>target\<close>: the lock that receives the capacity, by default the signer's own.\<close>

definition consolidation ::
  "'s builder_library \<Rightarrow> string \<Rightarrow> signer \<Rightarrow> wire_cell list \<Rightarrow> script option \<Rightarrow> nat option \<Rightarrow> ccc_transaction \<Rightarrow> ('s, built_transaction) signing" where
  "consolidation B ctx S cells target rate tx =
     andthen (bl_complete_change B S (case target of None \<Rightarrow> sg_lock S | Some l \<Rightarrow> l) (fee_rate rate) tx) (\<lambda>tx.
     andthen (lift_result (map_results (describe_cell B) cells)) (\<lambda>ds.
     andthen (positive_fee B ctx tx) (\<lambda>fee.
     ret \<lparr>bt_tx = tx, bt_inputs = ds, bt_fee = fee\<rparr>)))"

definition build_reclaim ::
  "'s builder_library \<Rightarrow> signer \<Rightarrow> out_point list \<Rightarrow> wire_cell list \<Rightarrow> cell_dep_ref \<Rightarrow> script option \<Rightarrow> nat option \<Rightarrow>
     ('s, built_transaction) signing" where
  "build_reclaim B S outs cells dep_ref target rate =
     (if outs = [] then throw (CkbError ''buildReclaimTx'' ''no out points given'')
      else if length outs \<noteq> length cells then throw (CkbError ''buildReclaimTx'' ''out points and resolved cells differ in number'')
      else
        andthen (lift_result (map_results (reclaim_input B (sg_lock S)) (zip outs cells))) (\<lambda>ins.
        andthen (lift_result (cell_dep_from B dep_ref ''buildReclaimTx'')) (\<lambda>dep.
        consolidation B ''buildReclaimTx'' S cells target rate (tl_add_cell_dep (bl_tx B) dep (transaction_from B ins [])))))"

definition consolidate_input :: "'s builder_library \<Rightarrow> script \<Rightarrow> wire_cell \<Rightarrow> failure + ccc_input" where
  "consolidate_input B owner c =
     (if \<not> wire_script_equals (wo_lock (ce_output c)) owner
      then shape ''buildConsolidateTx'' ''cell is not locked by the lock of the signer''
      else if wo_type (ce_output c) \<noteq> None
      then shape ''buildConsolidateTx'' ''cell carries a type script''
      else sum_bind (num_from B ''buildConsolidateTx'' ''cell has an unparseable index'' (op_index (ce_out_point c))) (\<lambda>n.
        Inr (spend_of B (op_tx_hash (ce_out_point c)) n)))"

definition build_consolidate ::
  "'s builder_library \<Rightarrow> signer \<Rightarrow> wire_cell list \<Rightarrow> script option \<Rightarrow> nat option \<Rightarrow> ('s, built_transaction) signing" where
  "build_consolidate B S cells target rate =
     (if cells = [] then throw (CkbError ''buildConsolidateTx'' ''no cells given'')
      else
        andthen (lift_result (map_results (consolidate_input B (sg_lock S)) cells)) (\<lambda>ins.
        consolidation B ''buildConsolidateTx'' S cells target rate (transaction_from B ins [])))"

section \<open>Transfers and data cells\<close>

definition build_transfer ::
  "'s builder_library \<Rightarrow> signer \<Rightarrow> script \<Rightarrow> int \<Rightarrow> nat option \<Rightarrow> ('s, built_transaction) signing" where
  "build_transfer B S recipient amount rate =
     (if amount \<le> 0 then throw (CkbError ''buildTransferTx'' ''transfer amount must be positive'')
      else if nat amount < bl_fixed_point B (8 + bl_script_size B (script_from B recipient))
      then throw (CkbError ''buildTransferTx'' ''amount is below the occupied minimum of the recipient cell'')
      else
        andthen (bl_complete_inputs B S (transaction_from B []
          [(\<lparr>ou_capacity = nat amount, ou_lock = script_from B recipient, ou_type = None\<rparr>, [])])) (\<lambda>tx.
        andthen (bl_complete_fee B S (fee_rate rate) tx) (\<lambda>tx.
        finalize B tx)))"

definition build_deploy_data_cell :: "'s builder_library \<Rightarrow> signer \<Rightarrow> bytes \<Rightarrow> nat option \<Rightarrow> ('s, built_transaction) signing" where
  "build_deploy_data_cell B S data rate =
     (if data = [] then throw (CkbError ''buildDeployDataCellTx'' ''refusing to deploy an empty data cell'')
      else
        andthen (lift_result (update_first ''buildDeployDataCellTx'' add_margin
          (transaction_from B [] [(\<lparr>ou_capacity = 0, ou_lock = sg_lock S, ou_type = None\<rparr>, data)]))) (\<lambda>tx.
        andthen (bl_complete_inputs B S tx) (\<lambda>tx.
        andthen (bl_complete_fee B S (fee_rate rate) tx) (\<lambda>tx.
        finalize B tx))))"

definition build_data_cells :: "'s builder_library \<Rightarrow> signer \<Rightarrow> bytes list \<Rightarrow> nat option \<Rightarrow> ('s, built_transaction) signing" where
  "build_data_cells B S datasets rate =
     (if datasets = [] then throw (CkbError ''buildDataCellsTx'' ''no datasets given'')
      else if list_ex (\<lambda>d. d = []) datasets then throw (CkbError ''buildDataCellsTx'' ''refusing an empty data cell payload'')
      else
        let tx = transaction_from B [] (map (\<lambda>d. (\<lparr>ou_capacity = 0, ou_lock = sg_lock S, ou_type = None\<rparr>, d)) datasets) in
        andthen (bl_complete_inputs B S (tx\<lparr>ct_outputs := map add_margin (ct_outputs tx)\<rparr>)) (\<lambda>tx.
        andthen (bl_complete_fee B S (fee_rate rate) tx) (\<lambda>tx.
        finalize B tx)))"

section \<open>The library as documented\<close>

text \<open>Every step of the library only appends: inputs, outputs and data behind those that are there, and
  dependencies.\<close>

definition grows :: "ccc_transaction \<Rightarrow> ccc_transaction \<Rightarrow> bool" where
  "grows tx tx' \<longleftrightarrow> (\<exists>is. ct_inputs tx' = ct_inputs tx @ is) \<and> (\<exists>ws. ct_outputs tx' = ct_outputs tx @ ws)
     \<and> (\<exists>ds. ct_data tx' = ct_data tx @ ds) \<and> set (ct_deps tx) \<subseteq> set (ct_deps tx')"

definition growing :: "(ccc_transaction \<Rightarrow> ('s, ccc_transaction) signing) \<Rightarrow> bool" where
  "growing f \<longleftrightarrow> (\<forall>tx s tx' t. f tx s = (Inr tx', t) \<longrightarrow> grows tx tx')"

definition builder_ok :: "'s builder_library \<Rightarrow> bool" where
  "builder_ok B \<longleftrightarrow> (\<forall>d tx. grows tx (tl_add_cell_dep (bl_tx B) d tx) \<and> d \<in> set (ct_deps (tl_add_cell_dep (bl_tx B) d tx))
       \<and> ct_outputs (tl_add_cell_dep (bl_tx B) d tx) = ct_outputs tx)
     \<and> growing (bl_type_id_dep B) \<and> (\<forall>S. growing (bl_complete_inputs B S)) \<and> (\<forall>S r. growing (bl_complete_fee B S r))
     \<and> (\<forall>S l r. growing (bl_complete_change B S l r))
     \<and> (\<forall>h. hash_ok h \<longrightarrow> map ascii_lower (bl_hex B h) = map ascii_lower h)
     \<and> (\<forall>n. hex_quantity n \<longrightarrow> bl_num B n = Some (big_int n))"

lemma grows_trans: "grows a b \<Longrightarrow> grows b c \<Longrightarrow> grows a c"
  by (fastforce simp: grows_def)

lemma builder_steps:
  assumes "builder_ok B"
  shows "grows tx (tl_add_cell_dep (bl_tx B) d tx)" "d \<in> set (ct_deps (tl_add_cell_dep (bl_tx B) d tx))"
    and "ct_outputs (tl_add_cell_dep (bl_tx B) d tx) = ct_outputs tx"
    and "bl_type_id_dep B tx s = (Inr tx', t) \<Longrightarrow> grows tx tx'"
    and "bl_complete_inputs B S tx s = (Inr tx', t) \<Longrightarrow> grows tx tx'"
    and "bl_complete_fee B S r tx s = (Inr tx', t) \<Longrightarrow> grows tx tx'"
    and "bl_complete_change B S l r tx s = (Inr tx', t) \<Longrightarrow> grows tx tx'"
  using assms unfolding builder_ok_def growing_def by fast+

lemma finalize_Inr: "finalize B tx s = (Inr b, t) \<Longrightarrow> bt_tx b = tx \<and> 0 < bt_fee b"
  by (auto simp: finalize_def positive_fee_def andthen_Inr ret_Inr throw_Inr split: if_splits)

lemma wire_script_equals_eq [simp]: "wire_script_equals a b \<longleftrightarrow> a = b"
  by (auto simp: wire_script_equals_def)

lemma update_first_Inr: "update_first ctx f tx = Inr tx' \<longleftrightarrow> (\<exists>w ws. ct_outputs tx = w # ws \<and> tx' = tx\<lparr>ct_outputs := f w # ws\<rparr>)"
  by (auto simp: update_first_def shape_def split: list.splits)

lemma cell_dep_from_Inr: "cell_dep_from B ref ctx = Inr d \<Longrightarrow> hash_ok (cr_tx_hash ref) \<and> po_index (de_out_point d) \<le> u32_max"
  by (auto simp: cell_dep_from_def num_from_def shape_def split: if_splits option.splits)

text \<open>What stays of the first output and of the data when a transaction grows.\<close>

lemma grows_first:
  assumes "grows tx tx'" and "ct_outputs tx = w # ws"
  shows "\<exists>ws'. ct_outputs tx' = w # ws'"
  using assms by (auto simp: grows_def)

lemma grows_data:
  assumes "grows tx tx'" and "ct_data tx = d # ds"
  shows "\<exists>ds'. ct_data tx' = d # ds'"
  using assms by (auto simp: grows_def)

lemma grows_input:
  assumes "grows tx tx'" and "ct_inputs tx = i # is"
  shows "\<exists>is'. ct_inputs tx' = i # is'"
  using assms by (auto simp: grows_def)

lemma grows_deps: "grows tx tx' \<Longrightarrow> d \<in> set (ct_deps tx) \<Longrightarrow> d \<in> set (ct_deps tx')"
  by (auto simp: grows_def)

section \<open>Message cells\<close>

lemma sent_message:
  assumes B: "builder_ok B"
    and run: "build_send_message B codec S envelope route conversation nonce message_type rate s = (Inr b, t)"
  shows "\<exists>ty args dep ws ds. message_type = Some ty \<and> build_message_type_args route conversation nonce = Inr args
    \<and> cell_dep_from B (mt_cell_dep ty) ''buildSendMessageTx'' = Inr dep \<and> dep \<in> set (ct_deps (bt_tx b))
    \<and> ct_outputs (bt_tx b) = add_margin (sized B \<lparr>ou_capacity = 0, ou_lock = sg_lock S,
        ou_type = Some \<lparr>sc_code_hash = bl_hex B (mt_code_hash ty), sc_hash_type = mt_hash_type ty, sc_args = hex_from args\<rparr>\<rparr> envelope) # ws
    \<and> ct_data (bt_tx b) = hex_from envelope # ds \<and> validate_envelope codec envelope = Ok \<and> 0 < bt_fee b"
proof -
  obtain ty where ty: "message_type = Some ty" using run by (auto simp: build_send_message_def throw_def split: option.splits)
  let ?w = "\<lambda>args. \<lparr>ou_capacity = 0, ou_lock = sg_lock S,
      ou_type = Some \<lparr>sc_code_hash = bl_hex B (mt_code_hash ty), sc_hash_type = mt_hash_type ty, sc_args = hex_from args\<rparr>\<rparr>"
  obtain args dep tx1 tx2 tx3 u v where
      check: "check_message codec envelope = Inr ()" and args: "message_args route conversation nonce = Inr args"
      and dep: "cell_dep_from B (mt_cell_dep ty) ''buildSendMessageTx'' = Inr dep"
      and tx1: "update_first ''buildSendMessageTx'' add_margin
        (tl_add_cell_dep (bl_tx B) dep (transaction_from B [] [(?w args, envelope)])) = Inr tx1"
      and tx2: "bl_complete_inputs B S tx1 s = (Inr tx2, u)" and tx3: "bl_complete_fee B S (fee_rate rate) tx2 u = (Inr tx3, v)"
      and fin: "finalize B tx3 v = (Inr b, t)"
    using run by (auto simp: build_send_message_def ty andthen_Inr lift_result_Inr)
  let ?tx = "tl_add_cell_dep (bl_tx B) dep (transaction_from B [] [(?w args, envelope)])"
  note steps = builder_steps [OF B]
  have outs: "ct_outputs ?tx = [sized B (?w args) envelope]" by (simp add: steps(3) transaction_from_def)
  then have tx1': "tx1 = ?tx\<lparr>ct_outputs := [add_margin (sized B (?w args) envelope)]\<rparr>" using tx1 by (auto simp: update_first_Inr)
  have "grows tx1 tx3" using grows_trans [OF steps(5) [OF tx2] steps(6) [OF tx3]] .
  moreover obtain ds where "ct_data ?tx = hex_from envelope # ds"
    using grows_data [OF steps(1) [of "transaction_from B [] [(?w args, envelope)]" dep]] by (auto simp: transaction_from_def)
  ultimately obtain ws ds' where "ct_outputs tx3 = add_margin (sized B (?w args) envelope) # ws" "ct_data tx3 = hex_from envelope # ds'"
    using grows_first [of tx1 tx3] grows_data [of tx1 tx3] tx1' by fastforce
  moreover have "dep \<in> set (ct_deps tx3)" using grows_deps [OF \<open>grows tx1 tx3\<close>] steps(2) tx1' by simp
  moreover have "build_message_type_args route conversation nonce = Inr args"
    using args by (auto simp: message_args_def shape_def split: sum.splits)
  moreover have "validate_envelope codec envelope = Ok"
    using check by (auto simp: check_message_def shape_def split: if_splits validation.splits)
  ultimately show ?thesis using ty dep finalize_Inr [OF fin] by blast
qed

section \<open>Rotations\<close>

lemma type_id_Inr:
  "type_id_from_first_input B ctx tx = Inr tx' \<Longrightarrow> ct_inputs tx = i # is \<Longrightarrow> ct_outputs tx = w # ws \<Longrightarrow>
     \<exists>ty. ou_type w = Some ty \<and> tx' = tx\<lparr>ct_outputs := w\<lparr>ou_type := Some (ty\<lparr>sc_args := bl_type_id B (ci_previous i) 0\<rparr>)\<rparr> # ws\<rparr>"
  by (auto simp: type_id_from_first_input_def set_type_args_def shape_def split: option.splits)

lemma rotated:
  assumes B: "builder_ok B"
    and run: "build_rotate_profile B codec S old p new_lock rate s = (Inr b, t)"
  shows "\<exists>n capacity w ins ws ds back. bl_num B (op_index (ce_out_point old)) = Some n
    \<and> bl_num B (wo_capacity (ce_output old)) = Some capacity
    \<and> ct_inputs (bt_tx b) = spend_of B (op_tx_hash (ce_out_point old)) n # ins \<and> ct_outputs (bt_tx b) = w # ws
    \<and> ou_lock w = script_from B new_lock \<and> capacity + capacity_margin \<le> ou_capacity w
    \<and> ou_type w = Some (type_id_placeholder\<lparr>sc_args := bl_type_id B (ci_previous (spend_of B (op_tx_hash (ce_out_point old)) n)) 0\<rparr>)
    \<and> wo_lock (ce_output old) = sg_lock S \<and> pf_previous_profile_id p = Some back
    \<and> map_option sc_args (wo_type (ce_output old)) = Some (hex_from back)
    \<and> encode_cemp_profile_v1 codec p = Inr ds \<and> validate_profile codec ds = Ok
    \<and> (\<exists>rest. ct_data (bt_tx b) = hex_from ds # rest) \<and> 0 < bt_fee b"
proof -
  let ?out = "\<lambda>data. [(\<lparr>ou_capacity = 0, ou_lock = script_from B new_lock, ou_type = Some type_id_placeholder\<rparr>, data)]"
  obtain data n tx1 capacity tx2 tx3 tx4 tx5 s1 s2 s3 where
      check: "check_rotation S old p = Inr ()" and data: "profile_bytes codec ''buildRotateProfileTx'' p = Inr data"
      and n: "bl_num B (op_index (ce_out_point old)) = Some n"
      and tx1: "bl_type_id_dep B (transaction_from B [spend_of B (op_tx_hash (ce_out_point old)) n] (?out data)) s = (Inr tx1, s1)"
      and capacity: "bl_num B (wo_capacity (ce_output old)) = Some capacity"
      and tx2: "update_first ''buildRotateProfileTx'' (roll_over capacity) tx1 = Inr tx2"
      and tx3: "bl_complete_inputs B S tx2 s1 = (Inr tx3, s2)"
      and tx4: "type_id_from_first_input B ''buildRotateProfileTx'' tx3 = Inr tx4"
      and tx5: "bl_complete_fee B S (fee_rate rate) tx4 s2 = (Inr tx5, s3)" and fin: "finalize B tx5 s3 = (Inr b, t)"
    using run by (auto simp: build_rotate_profile_def andthen_Inr lift_result_Inr num_from_def big_num_def shape_def
      split: if_splits option.splits)
  note steps = builder_steps [OF B]
  let ?i = "spend_of B (op_tx_hash (ce_out_point old)) n"
  obtain w ws ins ds where o1: "ct_outputs tx1 = w # ws" and w: "ou_lock w = script_from B new_lock" "ou_type w = Some type_id_placeholder"
      and i1: "ct_inputs tx1 = ?i # ins" and d1: "ct_data tx1 = hex_from data # ds"
    using steps(4) [OF tx1] by (fastforce simp: grows_def transaction_from_def sized_def)
  have tx2': "tx2 = tx1\<lparr>ct_outputs := roll_over capacity w # ws\<rparr>" using tx2 o1 by (simp add: update_first_Inr)
  note g3 = steps(5) [OF tx3]
  obtain ws3 is3 ds3 where o3: "ct_outputs tx3 = roll_over capacity w # ws3" and i3: "ct_inputs tx3 = ?i # is3" and d3: "ct_data tx3 = hex_from data # ds3"
    using grows_first [OF g3] grows_input [OF g3] grows_data [OF g3] tx2' i1 d1 by fastforce
  let ?w = "(roll_over capacity w)\<lparr>ou_type := Some (type_id_placeholder\<lparr>sc_args := bl_type_id B (ci_previous ?i) 0\<rparr>)\<rparr>"
  have "ou_type (roll_over capacity w) = Some type_id_placeholder" using w by (simp add: roll_over_def add_margin_def)
  then have tx4': "tx4 = tx3\<lparr>ct_outputs := ?w # ws3\<rparr>" using type_id_Inr [OF tx4 i3 o3] by auto
  note g5 = steps(6) [OF tx5]
  obtain ws5 is5 ds5 where final: "ct_outputs tx5 = ?w # ws5" "ct_inputs tx5 = ?i # is5" "ct_data tx5 = hex_from data # ds5"
    using grows_first [OF g5] grows_input [OF g5] grows_data [OF g5] tx4' i3 d3 by fastforce
  obtain pb where prev: "pf_previous_profile_id p = Some pb" "map_option sc_args (wo_type (ce_output old)) = Some (hex_from pb)"
      "wo_lock (ce_output old) = sg_lock S"
    using check by (auto simp: check_rotation_def shape_def split: if_splits option.splits)
  have enc: "encode_cemp_profile_v1 codec p = Inr data" "validate_profile codec data = Ok"
    using data by (auto simp: profile_bytes_def shape_def split: sum.splits validation.splits)
  have "capacity + capacity_margin \<le> ou_capacity ?w" "ou_lock ?w = script_from B new_lock"
    using w by (simp_all add: roll_over_def add_margin_def)
  moreover have "ou_type ?w = Some (type_id_placeholder\<lparr>sc_args := bl_type_id B (ci_previous ?i) 0\<rparr>)" by simp
  ultimately show ?thesis
    using n capacity final prev enc finalize_Inr [OF fin]
    by (intro exI [of _ n] exI [of _ capacity] exI [of _ ?w] exI [of _ is5] exI [of _ ws5] exI [of _ data] exI [of _ pb]) blast
qed

section \<open>Spent cells\<close>

definition spends :: "'s builder_library \<Rightarrow> signer \<Rightarrow> ccc_input \<Rightarrow> wire_cell \<Rightarrow> bool" where
  "spends B S i c \<longleftrightarrow> po_tx_hash (ci_previous i) = bl_hex B (op_tx_hash (ce_out_point c)) \<and> wo_lock (ce_output c) = sg_lock S"

lemma map_results_Inr: "map_results f xs = Inr ys \<longleftrightarrow> list_all2 (\<lambda>y x. f x = Inr y) ys xs"
  by (induction xs arbitrary: ys) (auto simp: list_all2_Cons2)

lemma consolidated:
  assumes B: "builder_ok B" and run: "consolidation B ctx S cells target rate tx s = (Inr b, t)"
  shows "grows tx (bt_tx b) \<and> 0 < bt_fee b"
  using run builder_steps(7) [OF B]
  by (auto simp: consolidation_def positive_fee_def andthen_Inr lift_result_Inr ret_Inr throw_Inr split: if_splits)

lemma reclaimed:
  assumes B: "builder_ok B" and run: "build_reclaim B S outs cells dep_ref target rate s = (Inr b, t)"
  shows "\<exists>ins rest dep. ct_inputs (bt_tx b) = ins @ rest \<and> list_all2 (spends B S) ins cells
    \<and> map (\<lambda>i. Some (po_index (ci_previous i))) ins = map (\<lambda>p. bl_num B (op_index p)) outs
    \<and> cell_dep_from B dep_ref ''buildReclaimTx'' = Inr dep \<and> dep \<in> set (ct_deps (bt_tx b)) \<and> 0 < bt_fee b"
proof -
  have len: "length outs = length cells" using run by (auto simp: build_reclaim_def throw_Inr split: if_splits)
  obtain ins dep where ins: "map_results (reclaim_input B (sg_lock S)) (zip outs cells) = Inr ins"
      and dep: "cell_dep_from B dep_ref ''buildReclaimTx'' = Inr dep"
      and rest: "consolidation B ''buildReclaimTx'' S cells target rate
        (tl_add_cell_dep (bl_tx B) dep (transaction_from B ins [])) s = (Inr b, t)"
    using run by (auto simp: build_reclaim_def andthen_Inr lift_result_Inr throw_Inr split: if_splits)
  let ?tx = "tl_add_cell_dep (bl_tx B) dep (transaction_from B ins [])"
  have one: "spends B S i c \<and> bl_num B (op_index p) = Some (po_index (ci_previous i))"
    if "reclaim_input B (sg_lock S) (p, c) = Inr i" for p c i
    using that by (auto simp: reclaim_input_def num_from_def shape_def spend_of_def spends_def split: if_splits option.splits)
  have "list_all2 (\<lambda>i pc. reclaim_input B (sg_lock S) pc = Inr i) ins (zip outs cells)" using ins by (simp add: map_results_Inr)
  then have "list_all2 (spends B S) ins cells \<and> map (\<lambda>i. Some (po_index (ci_previous i))) ins = map (\<lambda>p. bl_num B (op_index p)) outs"
    using len
  proof (induction outs arbitrary: ins cells)
    case (Cons p ps)
    then obtain c cs i qs where split: "cells = c # cs" "ins = i # qs" by (cases cells) (auto simp: list_all2_Cons2)
    with Cons.prems Cons.IH [of qs cs] one [of p c i] show ?case by simp
  qed simp
  moreover obtain more where "ct_inputs ?tx = ins @ more"
    using builder_steps(1) [OF B, of "transaction_from B ins []" dep] by (auto simp: grows_def transaction_from_def)
  moreover have "grows ?tx (bt_tx b)" "0 < bt_fee b" using consolidated [OF B rest] by simp_all
  moreover have "dep \<in> set (ct_deps (bt_tx b))"
    using grows_deps [OF \<open>grows ?tx (bt_tx b)\<close>] builder_steps(2) [OF B] by blast
  ultimately show ?thesis using dep by (fastforce simp: grows_def)
qed

text \<open>Consolidation takes no cell with a type script.\<close>

lemma consolidated_cells:
  assumes B: "builder_ok B" and run: "build_consolidate B S cells target rate s = (Inr b, t)"
  shows "\<exists>ins rest. ct_inputs (bt_tx b) = ins @ rest \<and> list_all2 (spends B S) ins cells
    \<and> list_all (\<lambda>c. wo_type (ce_output c) = None) cells"
proof -
  obtain ins where ins: "map_results (consolidate_input B (sg_lock S)) cells = Inr ins"
      and rest: "consolidation B ''buildConsolidateTx'' S cells target rate (transaction_from B ins []) s = (Inr b, t)"
    using run by (auto simp: build_consolidate_def andthen_Inr lift_result_Inr throw_Inr split: if_splits)
  have one: "spends B S i c \<and> wo_type (ce_output c) = None" if "consolidate_input B (sg_lock S) c = Inr i" for c i
    using that by (auto simp: consolidate_input_def num_from_def shape_def spend_of_def spends_def split: if_splits option.splits)
  have "list_all2 (\<lambda>i c. consolidate_input B (sg_lock S) c = Inr i) ins cells" using ins by (simp add: map_results_Inr)
  then have "list_all2 (spends B S) ins cells \<and> list_all (\<lambda>c. wo_type (ce_output c) = None) cells"
    by (induction ins cells rule: list_all2_induct) (use one in auto)
  moreover have "grows (transaction_from B ins []) (bt_tx b)" using consolidated [OF B rest] by simp
  ultimately show ?thesis by (auto simp: grows_def transaction_from_def)
qed

section \<open>A library for the witnesses\<close>

lemma sample_envelope_valid: "validate_envelope (wc_envelope sample_codecs) [6] = Ok"
  by (simp add: validate_envelope_def try_decode_def decode_cemp_envelope_v1_def sample_codecs_def
      validate_envelope_fields_def sample_header_def Let_def V1_LIMITS_def cemp_protocol_version_def
      network_ckb_testnet_def is_known_content_type_def content_types_def)

definition example_builder :: "unit builder_library" where
  "example_builder = \<lparr>bl_tx = example_library, bl_occupied = (\<lambda>w d. 61 + length d), bl_script_size = (\<lambda>s. 53), bl_fixed_point = (\<lambda>n. n),
     bl_hex = (\<lambda>h. h), bl_num = (\<lambda>n. if hex_quantity n then Some (big_int n) else None), bl_type_id_dep = ret,
     bl_complete_inputs = (\<lambda>S tx. ret (tx\<lparr>ct_inputs := ct_inputs tx
       @ [\<lparr>ci_previous = \<lparr>po_tx_hash = example_hash, po_index = 9\<rparr>, ci_since = 0\<rparr>]\<rparr>)),
     bl_complete_fee = (\<lambda>S r. ret), bl_complete_change = (\<lambda>S l r. ret), bl_fee = (\<lambda>tx. ret 1),
     bl_cell = (\<lambda>i. ret \<lparr>ou_capacity = 7, ou_lock = example_lock, ou_type = None\<rparr>), bl_type_id = (\<lambda>p n. ''0xab'')\<rparr>"

lemma example_builder_ok: "builder_ok example_builder"
  by (auto simp: builder_ok_def growing_def grows_def example_builder_def example_library_def ret_def)

definition example_message_type :: message_type_ref where
  "example_message_type = \<lparr>mt_code_hash = example_hash, mt_hash_type = ''data1'',
     mt_cell_dep = \<lparr>cr_tx_hash = example_hash, cr_index = ''0x0'', cr_dep_type = DepCode\<rparr>\<rparr>"

lemma example_index: "hex_quantity ''0x0''" "big_int ''0x0'' = 0"
  by (simp_all add: hex_quantity_def is_hex_def hex_digits_def big_int_def hex_value_def)

lemma example_described: "\<exists>ds. describe_inputs example_builder is () = (Inr ds, ())"
  by (induction "is") (auto simp: andthen_def ret_def example_builder_def)

lemma example_finalized: "\<exists>b. finalize example_builder tx () = (Inr b, ())"
  using example_described [of "ct_inputs tx"]
  by (auto simp: finalize_def positive_fee_def andthen_def ret_def example_builder_def)

lemma example_completed:
  "\<exists>tx' tx'' b. bl_complete_inputs example_builder S tx () = (Inr tx', ()) \<and> bl_complete_fee example_builder S r tx' () = (Inr tx'', ())
     \<and> finalize example_builder tx'' () = (Inr b, ())"
proof -
  show ?thesis using example_finalized by (simp add: example_builder_def ret_def)
qed

lemma example_message_built:
  "\<exists>b. build_send_message example_builder (wc_envelope sample_codecs) example_signer [6] (replicate 32 1) (replicate 16 2) (replicate 16 3)
      (Some example_message_type) None () = (Inr b, ())"
proof -
  obtain d where dep: "cell_dep_from example_builder (mt_cell_dep example_message_type) ''buildSendMessageTx'' = Inr d"
    using example_hash_ok
    by (simp add: cell_dep_from_def example_message_type_def num_from_def example_builder_def example_index u32_max_def)
  have msg: "check_message (wc_envelope sample_codecs) [6] = Inr ()"
    by (simp add: check_message_def sample_envelope_valid V1_LIMITS_def)
  obtain a where args: "message_args (replicate 32 1) (replicate 16 2) (replicate 16 3) = Inr a"
    by (simp add: message_args_def build_message_type_args_def)
  let ?w = "\<lparr>ou_capacity = 0, ou_lock = sg_lock example_signer, ou_type = Some \<lparr>sc_code_hash = bl_hex example_builder (mt_code_hash example_message_type),
      sc_hash_type = mt_hash_type example_message_type, sc_args = hex_from a\<rparr>\<rparr>"
  obtain tx where first: "update_first ''buildSendMessageTx'' add_margin
      (tl_add_cell_dep (bl_tx example_builder) d (transaction_from example_builder [] [(?w, [6])])) = Inr tx"
    by (simp add: update_first_def transaction_from_def example_builder_def example_library_def)
  obtain tx' tx'' b where "bl_complete_inputs example_builder example_signer tx () = (Inr tx', ())"
      "bl_complete_fee example_builder example_signer (fee_rate None) tx' () = (Inr tx'', ())" "finalize example_builder tx'' () = (Inr b, ())"
    using example_completed by blast
  then show ?thesis
    using first by (simp add: build_send_message_def andthen_def lift_result_def ret_def msg args dep)
qed

section \<open>Properties\<close>

text \<open>
  C18. A built message cell can be found and read: its type args start with the version and the route tag
  that the recipient searches for and read back as the three values that went in, its data is the
  validated envelope, its lock is the sender's, so that only the sender can reclaim it, and the code
  of its type script is among the dependencies.
\<close>

theorem message_cell_is_found:
  assumes "builder_ok B"
    and "build_send_message B codec S envelope route conversation nonce message_type rate s = (Inr b, t)"
  shows "\<exists>w ws args ty dep. ct_outputs (bt_tx b) = w # ws \<and> ou_lock w = sg_lock S
    \<and> map_option (\<lambda>x. bytes_from (sc_args x)) (ou_type w) = Some args \<and> take 33 args = 1 # route
    \<and> parse_message_type_args args = Inr \<lparr>ta_route_tag = route, ta_conversation_tag = conversation, ta_message_nonce = nonce\<rparr>
    \<and> map bytes_from (take 1 (ct_data (bt_tx b))) = [envelope] \<and> validate_envelope codec envelope = Ok
    \<and> message_type = Some ty \<and> cell_dep_from B (mt_cell_dep ty) ''buildSendMessageTx'' = Inr dep \<and> dep \<in> set (ct_deps (bt_tx b))"
proof -
  obtain ty args dep ws ds where b: "message_type = Some ty" "build_message_type_args route conversation nonce = Inr args"
      "cell_dep_from B (mt_cell_dep ty) ''buildSendMessageTx'' = Inr dep" "dep \<in> set (ct_deps (bt_tx b))"
      "ct_outputs (bt_tx b) = add_margin (sized B \<lparr>ou_capacity = 0, ou_lock = sg_lock S,
        ou_type = Some \<lparr>sc_code_hash = bl_hex B (mt_code_hash ty), sc_hash_type = mt_hash_type ty, sc_args = hex_from args\<rparr>\<rparr> envelope) # ws"
      "ct_data (bt_tx b) = hex_from envelope # ds" "validate_envelope codec envelope = Ok"
    using sent_message [OF assms] by blast
  moreover have "take 33 args = 1 # route \<and>
      parse_message_type_args args = Inr \<lparr>ta_route_tag = route, ta_conversation_tag = conversation, ta_message_nonce = nonce\<rparr>"
    using b(2) by (auto simp: build_message_type_args_def parse_message_type_args_def list_ex_iff drop_Cons' split: if_splits)
  ultimately show ?thesis by (auto simp: add_margin_def sized_def)
qed

theorem message_cell_witness:
  "\<exists>(b :: built_transaction) w ws args ty dep. ct_outputs (bt_tx b) = w # ws \<and> ou_lock w = sg_lock example_signer
    \<and> map_option (\<lambda>x. bytes_from (sc_args x)) (ou_type w) = Some args \<and> take 33 args = 1 # replicate 32 1
    \<and> parse_message_type_args args
      = Inr \<lparr>ta_route_tag = replicate 32 1, ta_conversation_tag = replicate 16 2, ta_message_nonce = replicate 16 3\<rparr>
    \<and> map bytes_from (take 1 (ct_data (bt_tx b))) = [[6]] \<and> validate_envelope (wc_envelope sample_codecs) [6] = Ok
    \<and> Some example_message_type = Some ty
    \<and> cell_dep_from example_builder (mt_cell_dep ty) ''buildSendMessageTx'' = Inr dep \<and> dep \<in> set (ct_deps (bt_tx b))"
proof -
  obtain b where "build_send_message example_builder (wc_envelope sample_codecs) example_signer [6] (replicate 32 1) (replicate 16 2)
      (replicate 16 3) (Some example_message_type) None () = (Inr b, ())"
    using example_message_built by blast
  from message_cell_is_found [OF example_builder_ok this] show ?thesis by (rule exI [of _ b])
qed

definition rotated_id :: bytes where
  "rotated_id = replicate 32 5"


definition node_with :: "transaction \<Rightarrow> nat client" where
  "node_with t = \<lparr>cc_endpoints = \<lparr>ep_rpc = ''rpc'', ep_indexer = ''indexer''\<rparr>,
     cc_transport = (\<lambda>url method params n. (Inr (Some (Jobj [(points ''transaction'', rpc_body t)])), n, 0))\<rparr>"

lemma shown_body: "transaction_ok t \<Longrightarrow> body_answer (node_with t) h w = Inr (Some t)"
  using read_body [of t "''get_transaction result.transaction''" t]
  by (simp add: body_answer_def env_call_of_def get_transaction_body_def call_node_def request_def andthen_def lift_result_def ret_def
    node_with_def as_record_def prop_of_def)

definition rotated_profile :: cemp_profile_v1 where
  "rotated_profile = example_profile\<lparr>pf_previous_profile_id := Some rotated_id\<rparr>"

definition rotated_codec :: "cemp_profile_v1 mol_codec" where
  "rotated_codec = \<lparr>enc = (\<lambda>_. Inr [1]), dec = (\<lambda>_. Inr rotated_profile)\<rparr>"

definition old_profile_cell :: wire_cell where
  "old_profile_cell = \<lparr>ce_out_point = \<lparr>op_tx_hash = example_hash, op_index = ''0x0''\<rparr>,
     ce_output = \<lparr>wo_capacity = ''0x10'', wo_lock = example_lock,
       wo_type = Some \<lparr>sc_code_hash = type_id_code_hash, sc_hash_type = ''type'', sc_args = hex_from rotated_id\<rparr>\<rparr>,
     ce_data = ''0x00'', ce_block_number = None\<rparr>"

lemma example_rotation_built:
  "\<exists>b. build_rotate_profile example_builder rotated_codec example_signer old_profile_cell rotated_profile example_lock None () = (Inr b, ())
     \<and> ccc_ok (bt_tx b)"
proof -
  have fields: "validate_profile_fields rotated_profile = Ok"
    by (simp add: validate_profile_fields_def rotated_profile_def example_profile_def limit_defs algorithm_equals_def)
  have bytes: "profile_bytes rotated_codec ctx rotated_profile = Inr [1]" for ctx
    by (simp add: profile_bytes_def encode_cemp_profile_v1_def strict_encode_def rotated_codec_def validate_profile_def try_decode_def
      decode_cemp_profile_v1_def strict_decode_def fields limit_defs)
  have check: "check_rotation example_signer old_profile_cell rotated_profile = Inr ()"
    by (simp add: check_rotation_def old_profile_cell_def example_signer_def rotated_profile_def)
  have nums: "bl_num example_builder ''0x0'' = Some 0" "bl_num example_builder ''0x10'' = Some 16"
    by (simp_all add: example_builder_def hex_quantity_def is_hex_def hex_digits_def big_int_def hex_value_def)
  have old: "op_index (ce_out_point old_profile_cell) = ''0x0''" "op_tx_hash (ce_out_point old_profile_cell) = example_hash"
      "wo_capacity (ce_output old_profile_cell) = ''0x10''"
    by (simp_all add: old_profile_cell_def)
  have steps: "bl_type_id_dep example_builder = ret" "bl_complete_fee example_builder S r = ret"
      "bl_complete_inputs example_builder S tx = ret (tx\<lparr>ct_inputs := ct_inputs tx
        @ [\<lparr>ci_previous = \<lparr>po_tx_hash = example_hash, po_index = 9\<rparr>, ci_since = 0\<rparr>]\<rparr>)"
      "bl_type_id example_builder u n = ''0xab''" "bl_hex example_builder h = h" "bl_occupied example_builder w d = 61 + length d" for S r tx u n h w d
    by (simp_all add: example_builder_def)
  let ?tx = "\<lparr>ct_version = 0, ct_deps = [], ct_headers = [],
     ct_inputs = [spend_of example_builder example_hash 0, \<lparr>ci_previous = \<lparr>po_tx_hash = example_hash, po_index = 9\<rparr>, ci_since = 0\<rparr>],
     ct_outputs = [\<lparr>ou_capacity = 62 + capacity_margin, ou_lock = script_from example_builder example_lock,
       ou_type = Some (type_id_placeholder\<lparr>sc_args := ''0xab''\<rparr>)\<rparr>],
     ct_data = [hex_from [1]], ct_witnesses = []\<rparr>"
  have run: "build_rotate_profile example_builder rotated_codec example_signer old_profile_cell rotated_profile example_lock None ()
      = finalize example_builder ?tx ()"
    by (simp add: build_rotate_profile_def andthen_def lift_result_def ret_def bytes check num_from_def big_num_def nums old steps
      transaction_from_def sized_def update_first_def type_id_from_first_input_def set_type_args_def roll_over_def add_margin_def)
  obtain b where b: "finalize example_builder ?tx () = (Inr b, ())" using example_finalized by blast
  have tx: "bt_tx b = ?tx" using finalize_Inr [OF b] by simp
  have "hash_ok type_id_code_hash" by code_simp
  moreover have "hex_bytes (hex_from [1])" "hex_bytes ''0xab''" by code_simp+
  moreover have "script_ok example_lock"
    using example_ok by (simp add: ccc_ok_def example_transaction_def)
  ultimately have "ccc_ok ?tx"
    using example_hash_ok
    by (simp add: ccc_ok_def ccc_point_ok_def u64_max_def u32_max_def spend_of_def steps script_from_def script_ok_def type_ok_def
      type_id_placeholder_def hash_types_def capacity_margin_def)
  with run b tx show ?thesis by auto
qed


end
