(* ===== verification/Cemp_Keys.thy ===== *)
theory Cemp_Keys
  imports Cemp_Vault Cemp_Signing
begin

text \<open>
  packages/cemp-crypto/src: the derivation of the identity keys from the seed of the recovery phrase
  (identity.ts) under the domain strings of domains.ts. HKDF, ML-DSA-65 and ML-KEM-768 are parameters;
  a rotation is an integer, so \<open>Number.isInteger\<close> has no counterpart. Wiping a buffer that nothing
  reads again is left out.
\<close>

section \<open>Domains\<close>

datatype kdf_domain =
    IdentityMlDsa
  | MessagingMlKem
  | MlKemKeygen
  | RotationMlDsa
  | RotationMlKem
  | LocalDatabase
  | ContactExchange
  | BackupEncryption

fun kdf_domain_text :: "kdf_domain \<Rightarrow> string" where
  "kdf_domain_text IdentityMlDsa = ''CEMP/CKB/ML-DSA/identity/v1''"
| "kdf_domain_text MessagingMlKem = ''CEMP/CKB/ML-KEM/messaging/v1''"
| "kdf_domain_text MlKemKeygen = ''CEMP/CKB/ML-KEM/messaging/v1/keygen''"
| "kdf_domain_text RotationMlDsa = ''CEMP/CKB/ML-DSA/identity/v1/rotation''"
| "kdf_domain_text RotationMlKem = ''CEMP/CKB/ML-KEM/messaging/v1/rotation''"
| "kdf_domain_text LocalDatabase = ''CEMP/LOCAL/database/v1''"
| "kdf_domain_text ContactExchange = ''CEMP/CONTACT/exchange/v1''"
| "kdf_domain_text BackupEncryption = ''CEMP/BACKUP/encryption/v1''"

section \<open>Keys\<close>

record identity_library =
  il_suite :: crypto_suite
  il_dsa :: dsa_library
  il_kem_keygen :: "bytes \<Rightarrow> bytes \<times> bytes"

record identity_keys =
  ik_dsa :: "bytes \<times> bytes"
  ik_kem :: "bytes \<times> bytes"
  ik_database :: bytes

definition bip39_seed_bytes :: nat where
  "bip39_seed_bytes = 64"

definition keygen_seed_bytes :: nat where
  "keygen_seed_bytes = 64"

definition crypto_thrown :: "crypto_error + 'a \<Rightarrow> failure + 'a" where
  "crypto_thrown r = (case r of Inl _ \<Rightarrow> Inl (OtherError ''CempCryptoError'') | Inr x \<Rightarrow> Inr x)"

definition keygen_from_sub_seeds :: "identity_library \<Rightarrow> bytes \<Rightarrow> bytes \<Rightarrow> bytes \<Rightarrow> failure + identity_keys" where
  "keygen_from_sub_seeds L dsa_seed kem_seed database =
     sum_bind (mldsa_keygen (il_dsa L) dsa_seed) (\<lambda>dsa.
     Inr \<lparr>ik_dsa = dsa,
       ik_kem = il_kem_keygen L (hkdf_sha256 (il_suite L) kem_seed None (text_encode (kdf_domain_text MlKemKeygen)) keygen_seed_bytes),
       ik_database = database\<rparr>)"

definition derive_identity_keys :: "identity_library \<Rightarrow> bytes \<Rightarrow> failure + identity_keys" where
  "derive_identity_keys L seed =
     (if length seed \<noteq> bip39_seed_bytes then wrong_length ''deriveIdentityKeys''
      else sum_bind (crypto_thrown (derive_local_database_key (il_suite L) seed)) (\<lambda>database.
        keygen_from_sub_seeds L (derive_sub_seed (il_suite L) seed (kdf_domain_text IdentityMlDsa) 32)
          (derive_sub_seed (il_suite L) seed (kdf_domain_text MessagingMlKem) 32) database))"

definition rotation_info :: "kdf_domain \<Rightarrow> nat \<Rightarrow> bytes" where
  "rotation_info d n = text_encode (kdf_domain_text d) @ u32_bytes n"

definition derive_rotated_identity_keys :: "identity_library \<Rightarrow> bytes \<Rightarrow> int \<Rightarrow> failure + identity_keys" where
  "derive_rotated_identity_keys L seed rotation =
     (if rotation = 0 then derive_identity_keys L seed
      else if rotation < 0 \<or> rotation > 0xffffffff then Inl (OtherError ''deriveRotatedIdentityKeys: rotation is not a uint32'')
      else if length seed \<noteq> bip39_seed_bytes then wrong_length ''deriveRotatedIdentityKeys''
      else
        let S = il_suite L;
            dsa_base = derive_sub_seed S seed (kdf_domain_text IdentityMlDsa) 32;
            kem_base = derive_sub_seed S seed (kdf_domain_text MessagingMlKem) 32 in
        sum_bind (crypto_thrown (derive_local_database_key S seed)) (\<lambda>database.
        keygen_from_sub_seeds L (hkdf_sha256 S dsa_base None (rotation_info RotationMlDsa (nat rotation)) 32)
          (hkdf_sha256 S kem_base None (rotation_info RotationMlKem (nat rotation)) 32) database))"

definition wipe_identity_key_bundle :: "identity_keys \<Rightarrow> identity_keys" where
  "wipe_identity_key_bundle k = \<lparr>ik_dsa = (fst (ik_dsa k), map (\<lambda>_. 0) (snd (ik_dsa k))),
     ik_kem = (fst (ik_kem k), map (\<lambda>_. 0) (snd (ik_kem k))), ik_database = map (\<lambda>_. 0) (ik_database k)\<rparr>"

section \<open>Lemmas\<close>

lemma text_encode_inject: "text_encode s = text_encode t \<longleftrightarrow> s = t"
proof -
  have "inj (\<lambda>c. word_of_nat (of_char c) :: byte)"
  proof (rule injI)
    fix x y :: char assume "(word_of_nat (of_char x) :: byte) = word_of_nat (of_char y)"
    then have "(of_char x :: nat) mod 256 = of_char y mod 256" by (simp add: word_of_nat_eq_iff take_bit_eq_mod)
    then show "x = y" by simp
  qed
  then show ?thesis by (simp add: text_encode_def inj_map_eq_map)
qed

lemma length_u32_bytes [simp]: "length (u32_bytes n) = 4"
  by (simp add: u32_bytes_def)

text \<open>What the labels of the derivations are: a domain alone, or a rotation domain and the number of the
  rotation.\<close>

lemma domain_text_inject: "kdf_domain_text a = kdf_domain_text b \<longleftrightarrow> a = b"
  by (cases a; cases b) simp_all

lemma rotation_info_inject:
  assumes "m < 2 ^ 32" and "n < 2 ^ 32"
  shows "rotation_info a m = rotation_info b n \<longleftrightarrow> a = b \<and> m = n"
proof
  assume "rotation_info a m = rotation_info b n"
  then have "text_encode (kdf_domain_text a) = text_encode (kdf_domain_text b)" "u32_bytes m = u32_bytes n"
    by (simp_all add: rotation_info_def append_eq_append_conv)
  then show "a = b \<and> m = n"
    using u32_inject [OF assms] by (simp add: text_encode_inject domain_text_inject)
qed simp

lemma rotated_database_key:
  assumes "derive_rotated_identity_keys L seed rotation = Inr k"
  shows "derive_local_database_key (il_suite L) seed = Inr (ik_database k)"
proof -
  have "derive_local_database_key (il_suite L) seed = Inr d" if "crypto_thrown (derive_local_database_key (il_suite L) seed) = Inr d" for d
    using that by (auto simp: crypto_thrown_def split: sum.splits)
  then show ?thesis
    using assms by (auto simp: derive_rotated_identity_keys_def derive_identity_keys_def keygen_from_sub_seeds_def wrong_length_def Let_def
      split: if_splits)
qed

lemma keys_derived:
  assumes "length seed = 64" and "0 \<le> rotation" and "rotation \<le> 0xffffffff"
    and "\<forall>ikm salt info n. length (cy_hkdf (il_suite L) ikm salt info n) = n"
  shows "\<exists>k. derive_rotated_identity_keys L seed rotation = Inr k"
  using assms
  by (simp add: derive_rotated_identity_keys_def derive_identity_keys_def keygen_from_sub_seeds_def bip39_seed_bytes_def
    derive_local_database_key_def crypto_thrown_def mldsa_keygen_def hkdf_sha256_def derive_sub_seed_def seed_bytes_def Let_def)

section \<open>Properties\<close>

text \<open>
  The database key never rotates: whatever the rotation, the bundle that is derived holds the key
  under which the local database was created, so a rotation never locks a user out of the history.
\<close>

theorem database_key_never_rotates:
  assumes "derive_rotated_identity_keys L seed m = Inr k" and "derive_rotated_identity_keys L seed n = Inr k'"
  shows "ik_database k = ik_database k'"
  using rotated_database_key [OF assms(1)] rotated_database_key [OF assms(2)] by simp

definition example_identity :: identity_library where
  "example_identity = \<lparr>il_suite = sample_suite\<lparr>cy_hkdf := (\<lambda>ikm salt info n. replicate n 0)\<rparr>, il_dsa = example_dsa,
     il_kem_keygen = (\<lambda>s. ([1], [2]))\<rparr>"

theorem database_key_witness:
  "\<exists>k k'. derive_rotated_identity_keys example_identity (replicate 64 0) 0 = Inr k
     \<and> derive_rotated_identity_keys example_identity (replicate 64 0) 7 = Inr k' \<and> ik_database k = ik_database k'"
proof -
  have l: "\<forall>ikm salt info n. length (cy_hkdf (il_suite example_identity) ikm salt info n) = n"
    by (simp add: example_identity_def)
  have s: "length (replicate 64 (0::byte)) = 64" by (rule length_replicate)
  obtain k where k: "derive_rotated_identity_keys example_identity (replicate 64 0) 0 = Inr k"
    using keys_derived [OF s _ _ l, of 0] by auto
  obtain k' where k': "derive_rotated_identity_keys example_identity (replicate 64 0) 7 = Inr k'"
    using keys_derived [OF s _ _ l, of 7] by auto
  show ?thesis using k k' database_key_never_rotates [OF k k'] by (intro exI conjI)
qed

text \<open>
  No two derivations share a label: the domains are distinct texts, the label of a rotation
  determines its domain and its number, and it is never the label of a domain alone, so no key of one
  rotation or purpose is derived the way another one is.
\<close>

theorem derivation_labels_distinct:
  assumes "m < 2 ^ 32" and "n < 2 ^ 32" and "a \<in> {RotationMlDsa, RotationMlKem}" and "b \<in> {RotationMlDsa, RotationMlKem}"
  shows "(rotation_info a m = rotation_info b n \<longleftrightarrow> a = b \<and> m = n) \<and> rotation_info a m \<noteq> text_encode (kdf_domain_text c)
    \<and> (text_encode (kdf_domain_text c) = text_encode (kdf_domain_text d) \<longleftrightarrow> c = d)"
proof -
  have "rotation_info a m \<noteq> text_encode (kdf_domain_text c)"
  proof
    assume "rotation_info a m = text_encode (kdf_domain_text c)"
    then have "length (rotation_info a m) = length (text_encode (kdf_domain_text c))" by simp
    then show False using assms(3) by (cases c) (auto simp: rotation_info_def text_encode_def)
  qed
  then show ?thesis by (simp add: rotation_info_inject [OF assms(1,2)] text_encode_inject domain_text_inject)
qed

theorem derivation_labels_witness:
  "rotation_info RotationMlDsa 1 \<noteq> rotation_info RotationMlDsa 2 \<and> rotation_info RotationMlDsa 1 \<noteq> text_encode (kdf_domain_text MlKemKeygen)"
  using derivation_labels_distinct [of 1 2 RotationMlDsa RotationMlDsa MlKemKeygen] by simp

end
