(* ===== verification/Cemp_Background.thy ===== *)
theory Cemp_Background
  imports Cemp_Client
begin

text \<open>
  apps/android/src: the background tick (background-sync-core.ts) with what it decides on: the cache of
  route tags (platform/route-tag-cache-codec.ts, platform/route-tag-cache-core.ts, platform/hex.ts),
  the chain query of a locked device (platform/locked-probe.ts), whether the vault is usable
  (vault-liveness.ts) and the single periodic request for all workers (platform/scheduler-coalesce.ts).

  Key store, storage, indexer, notifications and the full sync are arguments; route tags and
  out points are texts of code points. The log lines are left out.
\<close>

section \<open>Whether the vault is usable\<close>

record vault_liveness =
  vl_ready :: bool
  vl_unlocked :: bool
  vl_deadline :: "int option"
  vl_now :: int

definition is_vault_usable :: "vault_liveness \<Rightarrow> bool" where
  "is_vault_usable l \<longleftrightarrow> vl_ready l \<and> vl_unlocked l \<and> (case vl_deadline l of None \<Rightarrow> True | Some d \<Rightarrow> vl_now l < d)"

section \<open>The tag cache\<close>

record tag_cache =
  tc_tags :: "code_points list"
  tc_seen :: "code_points list"

definition texts :: "code_points list \<Rightarrow> jvalue" where
  "texts ts = Jarr (map Jstr ts)"

definition encode_tag_cache :: "tag_cache \<Rightarrow> bytes" where
  "encode_tag_cache c = utf8_encode (json_print (Jobj [(points ''tags'', texts (tc_tags c)), (points ''lastSeen'', texts (tc_seen c))]))"

fun all_texts :: "jvalue list \<Rightarrow> code_points list option" where
  "all_texts [] = Some []"
| "all_texts (Jstr t # vs) = map_option ((#) t) (all_texts vs)"
| "all_texts (v # vs) = None"

definition text_array :: "unknown \<Rightarrow> code_points list option" where
  "text_array v = (case v of Some (Jarr vs) \<Rightarrow> all_texts vs | _ \<Rightarrow> None)"

definition decode_tag_cache :: "bytes \<Rightarrow> failure + tag_cache" where
  "decode_tag_cache b = (case json_parse (utf8_decode b) of
       None \<Rightarrow> Inl (OtherError ''SyntaxError'')
     | Some (Jobj ms) \<Rightarrow> (case (text_array (prop_of ms ''tags''), text_array (prop_of ms ''lastSeen'')) of
           (Some ts, Some seen) \<Rightarrow> Inr \<lparr>tc_tags = ts, tc_seen = seen\<rparr>
         | _ \<Rightarrow> Inl (OtherError ''route-tag-cache: tags and lastSeen must be string arrays''))
     | Some (Jarr vs) \<Rightarrow> Inl (OtherError ''route-tag-cache: tags and lastSeen must be string arrays'')
     | Some v \<Rightarrow> Inl (OtherError ''route-tag-cache: blob is not an object''))"

definition new_outpoints :: "code_points list \<Rightarrow> code_points list \<Rightarrow> code_points list" where
  "new_outpoints seen current = filter (\<lambda>x. x \<notin> set seen) current"

text \<open>\<open>Number.parseInt\<close> of two characters in base 16, as the byte that the array stores.\<close>

definition parse_two :: "char \<Rightarrow> char \<Rightarrow> byte" where
  "parse_two c d = (case (hex_value c, hex_value d) of
       (Some x, Some y) \<Rightarrow> word_of_nat (16 * x + y)
     | (Some x, None) \<Rightarrow> word_of_nat x
     | (None, Some y) \<Rightarrow>
         if c = CHR ''-'' then - word_of_nat y
         else if c = CHR ''+'' \<or> js_space (of_char c) then word_of_nat y else 0
     | (None, None) \<Rightarrow> 0)"

fun lenient_pairs :: "string \<Rightarrow> bytes" where
  "lenient_pairs (c # d # r) = parse_two c d # lenient_pairs r"
| "lenient_pairs r = []"

definition lenient_hex_to_bytes :: "string \<Rightarrow> bytes" where
  "lenient_hex_to_bytes hex = lenient_pairs (if starts_with hex ''0x'' then drop 2 hex else hex)"

record 's tag_platform =
  tp_wrap :: "bytes \<Rightarrow> ('s, failure, bytes) prog"
  tp_unwrap :: "bytes \<Rightarrow> ('s, failure, bytes) prog"
  tp_clear :: "('s, failure, unit) prog"
  tp_get :: "('s, failure, string option) prog"
  tp_set :: "string \<Rightarrow> ('s, failure, unit) prog"
  tp_remove :: "('s, failure, unit) prog"

definition read_tags :: "'s tag_platform \<Rightarrow> ('s, failure, tag_cache option) prog" where
  "read_tags P = andthen (tp_get P) (\<lambda>stored. case stored of
       None \<Rightarrow> ret None
     | Some hex \<Rightarrow> catching
         (andthen (tp_unwrap P (lenient_hex_to_bytes hex)) (\<lambda>b.
          andthen (lift_result (decode_tag_cache b)) (\<lambda>c. ret (Some c))))
         (\<lambda>_. ret None))"

definition write_cache :: "'s tag_platform \<Rightarrow> tag_cache \<Rightarrow> ('s, failure, unit) prog" where
  "write_cache P c = andthen (tp_wrap P (encode_tag_cache c)) (\<lambda>blob. tp_set P (bytes_to_hex blob))"

definition write_tags :: "'s tag_platform \<Rightarrow> code_points list \<Rightarrow> ('s, failure, unit) prog" where
  "write_tags P tags = andthen (read_tags P) (\<lambda>existing.
     write_cache P \<lparr>tc_tags = tags, tc_seen = (case existing of None \<Rightarrow> [] | Some c \<Rightarrow> tc_seen c)\<rparr>)"

definition clear_cache :: "'s tag_platform \<Rightarrow> ('s, failure, unit) prog" where
  "clear_cache P = andthen (tp_remove P) (\<lambda>_. tp_clear P)"

section \<open>The query of a locked device\<close>

text \<open>The pages of one scan; \<open>None\<close> when the fuel is used up, since nothing bounds the pages of an
  indexer.\<close>

fun outpoint_pages ::
  "nat \<Rightarrow> 'w indexer \<Rightarrow> bytes \<Rightarrow> string option \<Rightarrow> code_points list \<Rightarrow> ('w world, failure, code_points list option) prog" where
  "outpoint_pages 0 ix tag cursor acc = ret None"
| "outpoint_pages (Suc k) ix tag cursor acc =
     andthen (find_message_cells ix tag cursor) (\<lambda>page.
     let acc' = acc @ map (\<lambda>c. points (ic_tx_hash c) @ [58] @ points (decimal (big_int (ic_index c)))) (pg_cells page) in
     if pg_cells page = [] \<or> pg_last_cursor page = ''0x'' \<or> pg_last_cursor page = '''' then ret (Some acc')
     else outpoint_pages k ix tag (Some (pg_last_cursor page)) acc')"

definition outpoints_for_tag ::
  "nat \<Rightarrow> 'w indexer option \<Rightarrow> string \<Rightarrow> ('w world, failure, code_points list option) prog" where
  "outpoints_for_tag fuel ix tag = (case ix of
       None \<Rightarrow> ret (Some [])
     | Some x \<Rightarrow> andthen (lift_result (ix_bytes_from x (''0x'' @ tag))) (\<lambda>route. outpoint_pages fuel x route None []))"

section \<open>The tick\<close>

datatype tick_outcome = Full | Notified | Quiet | Idle

record 's tick_deps =
  td_unlocked :: "('s, failure, bool) prog"
  td_full_sync :: "('s, failure, unit) prog"
  td_refresh :: "('s, failure, unit) prog"
  td_read :: "('s, failure, tag_cache option) prog"
  td_write :: "tag_cache \<Rightarrow> ('s, failure, unit) prog"
  td_list :: "code_points \<Rightarrow> ('s, failure, code_points list) prog"
  td_notify :: "nat \<Rightarrow> ('s, failure, unit) prog"

fun probe_tags :: "'s tick_deps \<Rightarrow> code_points list \<Rightarrow> code_points list \<times> nat \<Rightarrow> ('s, failure, code_points list \<times> nat) prog" where
  "probe_tags D [] a = ret a"
| "probe_tags D (t # ts) a =
     andthen (catching (andthen (td_list D t) (\<lambda>xs. ret (fst a @ xs, Suc (snd a)))) (\<lambda>_. ret a)) (probe_tags D ts)"

definition remember :: "tag_cache \<Rightarrow> code_points list \<Rightarrow> nat \<Rightarrow> tag_cache" where
  "remember c current answered = \<lparr>tc_tags = tc_tags c,
     tc_seen = (if answered = length (tc_tags c) then current
       else rev (remdups (rev (tc_seen c @ current))))\<rparr>"

definition locked_tick :: "'s tick_deps \<Rightarrow> tag_cache \<Rightarrow> ('s, failure, tick_outcome) prog" where
  "locked_tick D c =
     andthen (probe_tags D (tc_tags c) ([], 0)) (\<lambda>(current, answered).
     if answered = 0 then ret Quiet
     else
       let unseen = new_outpoints (tc_seen c) current in
       andthen
         (if unseen = [] then ret True
          else catching (andthen (td_notify D (length unseen)) (\<lambda>_. ret True)) (\<lambda>_. ret False)) (\<lambda>told.
       if \<not> told then ret Quiet
       else
         andthen (td_write D (remember c current answered)) (\<lambda>_.
         ret (if unseen = [] then Quiet else Notified))))"

definition run_background_sync :: "'s tick_deps \<Rightarrow> ('s, failure, tick_outcome) prog" where
  "run_background_sync D =
     andthen (td_unlocked D) (\<lambda>unlocked.
     if unlocked then andthen (td_full_sync D) (\<lambda>_. andthen (td_refresh D) (\<lambda>_. ret Full))
     else andthen (td_read D) (\<lambda>cache. case cache of
         None \<Rightarrow> ret Idle
       | Some c \<Rightarrow> if tc_tags c = [] then ret Idle else locked_tick D c))"

section \<open>One periodic request\<close>

record periodic_spec =
  ps_id :: string
  ps_interval :: int
  ps_network :: bool

record coalesced_tick =
  ck_interval :: int
  ck_network :: bool

definition min_interval :: int where
  "min_interval = 15 * 60000"

definition coalesce :: "periodic_spec list \<Rightarrow> coalesced_tick option" where
  "coalesce specs = (case specs of
       [] \<Rightarrow> None
     | s # ss \<Rightarrow> Some \<lparr>ck_interval = max (foldl min (ps_interval s) (map ps_interval ss)) min_interval,
         ck_network = list_ex ps_network specs\<rparr>)"

text \<open>The map of the specifications in the order of insertion; a new value keeps the place of its key.\<close>

record spec_registry =
  sr_specs :: "(string \<times> periodic_spec) list"
  sr_scheduled :: "coalesced_tick option"

definition recompute :: "spec_registry \<Rightarrow> (coalesced_tick \<times> bool) option \<times> spec_registry" where
  "recompute r = (case coalesce (map snd (sr_specs r)) of
       None \<Rightarrow> (None, r)
     | Some tick \<Rightarrow>
         if sr_scheduled r = Some tick then (None, r)
         else (Some (tick, sr_scheduled r \<noteq> None), r\<lparr>sr_scheduled := Some tick\<rparr>))"

definition add_spec :: "periodic_spec \<Rightarrow> spec_registry \<Rightarrow> (coalesced_tick \<times> bool) option \<times> spec_registry" where
  "add_spec s r = recompute (r\<lparr>sr_specs := AList.update (ps_id s) s (sr_specs r)\<rparr>)"

definition remove_spec :: "string \<Rightarrow> spec_registry \<Rightarrow> (coalesced_tick \<times> bool) option \<times> spec_registry" where
  "remove_spec i r = recompute (r\<lparr>sr_specs := AList.delete i (sr_specs r)\<rparr>)"

section \<open>The cache comes back\<close>

lemma all_texts_map: "all_texts (map Jstr ts) = Some ts"
  by (induction ts) auto

definition scalar_texts :: "code_points list \<Rightarrow> bool" where
  "scalar_texts ts \<longleftrightarrow> (\<forall>t \<in> set ts. \<forall>c \<in> set t. scalar c)"

lemma cache_comes_back:
  assumes "scalar_texts (tc_tags c)" and "scalar_texts (tc_seen c)"
  shows "decode_tag_cache (encode_tag_cache c) = Inr c"
proof -
  let ?v = "Jobj [(points ''tags'', texts (tc_tags c)), (points ''lastSeen'', texts (tc_seen c))]"
  have "points ''tags'' \<noteq> points ''lastSeen''" by (simp add: points_inject)
  then have p: "printable ?v"
    using assms by (auto simp: texts_def scalar_texts_def points_scalar)
  have "utf8_decode (utf8_encode (json_print ?v)) = json_print ?v"
    using utf8_decode_encode [OF print_scalar [OF p]] by (simp add: drop_bom_plain)
  then show ?thesis
    using parse_print [OF p]
    by (simp add: decode_tag_cache_def encode_tag_cache_def prop_of_def texts_def text_array_def all_texts_map points_inject)
qed

text \<open>The bytes of the blob come back from their hex text.\<close>

lemma parse_two_hex: "parse_two (hex_digits ! (unat b div 16)) (hex_digits ! (unat b mod 16)) = b"
proof -
  have "unat b < 256" by (rule byte_lt)
  then have "hex_value (hex_digits ! (unat b div 16)) = Some (unat b div 16)" "hex_value (hex_digits ! (unat b mod 16)) = Some (unat b mod 16)"
    by (simp_all add: hex_digit_small)
  then show ?thesis by (simp add: parse_two_def)
qed

lemma lenient_hex: "lenient_pairs (bytes_to_hex bs) = bs"
  by (induction bs) (simp_all add: byte_hex_eq parse_two_hex)

section \<open>What a locked tick does\<close>

text \<open>The environment of one tick: what each tag is answered, if it is, and whether notifications and
  writes succeed.\<close>

record probe_env =
  pe_answers :: "code_points \<Rightarrow> code_points list option"
  pe_notify :: bool
  pe_write :: bool

record probe_world = probe_env +
  pw_cache :: "tag_cache option"
  pw_told :: "nat list"

definition probe_deps :: "probe_world tick_deps" where
  "probe_deps = \<lparr>td_unlocked = ret False, td_full_sync = ret (), td_refresh = ret (), td_read = (\<lambda>w. (Inr (pw_cache w), w)),
     td_write = (\<lambda>c w. if pe_write w then (Inr (), w\<lparr>pw_cache := Some c\<rparr>) else (Inl (OtherError ''write''), w)),
     td_list = (\<lambda>t w. (case pe_answers w t of None \<Rightarrow> Inl (OtherError ''list'') | Some xs \<Rightarrow> Inr xs, w)),
     td_notify = (\<lambda>n w. if pe_notify w then (Inr (), w\<lparr>pw_told := pw_told w @ [n]\<rparr>) else (Inl (OtherError ''notify''), w))\<rparr>"

lemma probe_fields:
  "td_unlocked probe_deps = ret False" "td_read probe_deps w = (Inr (pw_cache w), w)"
  "td_write probe_deps c w = (if pe_write w then (Inr (), w\<lparr>pw_cache := Some c\<rparr>) else (Inl (OtherError ''write''), w))"
  "td_list probe_deps t w = (case pe_answers w t of None \<Rightarrow> Inl (OtherError ''list'') | Some xs \<Rightarrow> Inr xs, w)"
  "td_notify probe_deps n w = (if pe_notify w then (Inr (), w\<lparr>pw_told := pw_told w @ [n]\<rparr>) else (Inl (OtherError ''notify''), w))"
  by (simp_all add: probe_deps_def)

definition listed :: "(code_points \<Rightarrow> code_points list option) \<Rightarrow> code_points list \<Rightarrow> code_points list" where
  "listed f ts = concat (map (\<lambda>t. case f t of None \<Rightarrow> [] | Some xs \<Rightarrow> xs) ts)"

definition answered :: "(code_points \<Rightarrow> code_points list option) \<Rightarrow> code_points list \<Rightarrow> nat" where
  "answered f ts = length (filter (\<lambda>t. f t \<noteq> None) ts)"

lemma probe_tags_run:
  "probe_tags probe_deps ts a w = (Inr (fst a @ listed (pe_answers w) ts, snd a + answered (pe_answers w) ts), w)"
  by (induction ts arbitrary: a)
    (auto simp: listed_def answered_def prog_defs probe_deps_def split: option.splits)

lemma answered_all: "answered f ts = length ts \<longleftrightarrow> (\<forall>t \<in> set ts. f t \<noteq> None)"
proof (induction ts)
  case (Cons a ts)
  have "length (filter (\<lambda>t. f t \<noteq> None) ts) \<noteq> Suc (length ts)" using length_filter_le [of "\<lambda>t. f t \<noteq> None" ts] by linarith
  with Cons show ?case by (auto simp: answered_def)
qed (simp add: answered_def)

text \<open>One tick as a function of the cache: the new cache and the counts of the notifications shown.\<close>

definition tick_of :: "probe_env \<Rightarrow> tag_cache \<Rightarrow> tag_cache \<times> nat list" where
  "tick_of e c = (case run_background_sync probe_deps (probe_env.extend e \<lparr>pw_cache = Some c, pw_told = []\<rparr>) of
     (_, w) \<Rightarrow> (case pw_cache w of None \<Rightarrow> c | Some c' \<Rightarrow> c', pw_told w))"

lemma tick_of_eq:
  "tick_of e c =
     (let current = listed (pe_answers e) (tc_tags c); n = answered (pe_answers e) (tc_tags c); unseen = new_outpoints (tc_seen c) current in
      if n = 0 then (c, [])
      else if unseen \<noteq> [] \<and> \<not> pe_notify e then (c, [])
      else (if pe_write e then remember c current n else c, if unseen = [] then [] else [length unseen]))"
proof -
  have none: "answered (pe_answers e) [] = 0" by (simp add: answered_def)
  let ?w = "probe_env.extend e \<lparr>pw_cache = Some c, pw_told = []\<rparr>"
  have fields: "pe_answers ?w = pe_answers e" "pe_notify ?w = pe_notify e" "pe_write ?w = pe_write e" "pw_cache ?w = Some c" "pw_told ?w = []"
    by (simp_all add: probe_env.defs)
  have run: "run_background_sync probe_deps ?w = (if tc_tags c = [] then ret Idle else locked_tick probe_deps c) ?w"
    by (simp add: run_background_sync_def andthen_def ret_def probe_fields fields)
  show ?thesis
    by (cases "tc_tags c = []")
      (auto simp: tick_of_def run locked_tick_def andthen_def ret_def catching_def probe_tags_run probe_fields fields none Let_def)
qed

text \<open>A tick announces an out point when it shows a notification that counts it.\<close>

definition announces :: "probe_env \<Rightarrow> tag_cache \<Rightarrow> code_points \<Rightarrow> bool" where
  "announces e c x \<longleftrightarrow> snd (tick_of e c) \<noteq> [] \<and> x \<in> set (new_outpoints (tc_seen c) (listed (pe_answers e) (tc_tags c)))"

fun announcements :: "probe_env list \<Rightarrow> tag_cache \<Rightarrow> code_points \<Rightarrow> nat" where
  "announcements [] c x = 0"
| "announcements (e # es) c x = (if announces e c x then 1 else 0) + announcements es (fst (tick_of e c)) x"

definition lists :: "code_points \<Rightarrow> code_points \<Rightarrow> probe_env \<Rightarrow> bool" where
  "lists t x e \<longleftrightarrow> pe_write e \<and> (case pe_answers e t of None \<Rightarrow> True | Some xs \<Rightarrow> x \<in> set xs)"

lemma tick_keeps_tags: "tc_tags (fst (tick_of e c)) = tc_tags c"
  by (simp add: tick_of_eq Let_def remember_def)

lemma seen_not_announced: "x \<in> set (tc_seen c) \<Longrightarrow> \<not> announces e c x"
  by (simp add: announces_def new_outpoints_def)

lemma listed_mem: "x \<in> set (listed f ts) \<longleftrightarrow> (\<exists>t \<in> set ts. \<exists>xs. f t = Some xs \<and> x \<in> set xs)"
proof -
  have "x \<in> set (case r of None \<Rightarrow> [] | Some xs \<Rightarrow> xs) \<longleftrightarrow> (\<exists>xs. r = Some xs \<and> x \<in> set xs)" for r
    by (cases r) simp_all
  then show ?thesis by (simp add: listed_def)
qed

lemma seen_stays:
  assumes "lists t x e" and "t \<in> set (tc_tags c)" and "x \<in> set (tc_seen c)"
  shows "x \<in> set (tc_seen (fst (tick_of e c)))"
proof -
  have "x \<in> set (listed (pe_answers e) (tc_tags c))" if "answered (pe_answers e) (tc_tags c) = length (tc_tags c)"
    using that assms unfolding answered_all listed_mem lists_def by (auto split: option.splits)
  then show ?thesis using assms(3) by (auto simp: tick_of_eq Let_def remember_def)
qed

lemma unseen_step:
  assumes "lists t x e" and "t \<in> set (tc_tags c)" and "x \<notin> set (tc_seen c)"
  shows "announces e c x \<longleftrightarrow> x \<in> set (tc_seen (fst (tick_of e c)))"
    and "pe_answers e t \<noteq> None \<Longrightarrow> pe_notify e \<Longrightarrow> announces e c x"
proof -
  let ?cur = "listed (pe_answers e) (tc_tags c)"
  have some: "answered (pe_answers e) (tc_tags c) \<noteq> 0" if "x \<in> set ?cur"
    using that by (auto simp: listed_mem answered_def filter_empty_conv)
  have new: "x \<in> set (new_outpoints (tc_seen c) ?cur) \<longleftrightarrow> x \<in> set ?cur" using assms(3) by (simp add: new_outpoints_def)
  then have ne: "x \<in> set ?cur \<Longrightarrow> new_outpoints (tc_seen c) ?cur \<noteq> []" by auto
  have wr: "pe_write e" using assms(1) by (simp add: lists_def)
  show "announces e c x \<longleftrightarrow> x \<in> set (tc_seen (fst (tick_of e c)))"
    using assms(3) some ne wr by (auto simp: announces_def new tick_of_eq Let_def remember_def)
  show "announces e c x" if "pe_answers e t \<noteq> None" "pe_notify e"
  proof -
    have "x \<in> set ?cur" using assms(1,2) that(1) by (auto simp: listed_mem lists_def split: option.splits)
    then show ?thesis using some ne that(2) by (simp add: announces_def new tick_of_eq Let_def)
  qed
qed

lemma announced_no_more:
  "\<forall>e \<in> set es. lists t x e \<Longrightarrow> t \<in> set (tc_tags c) \<Longrightarrow> x \<in> set (tc_seen c) \<Longrightarrow> announcements es c x = 0"
proof (induction es arbitrary: c)
  case (Cons e es)
  then have "x \<in> set (tc_seen (fst (tick_of e c)))" using seen_stays [of t x e c] by simp
  with Cons show ?case by (simp add: seen_not_announced tick_keeps_tags)
qed simp

lemma announced_once:
  assumes "\<forall>e \<in> set es. lists t x e" and "t \<in> set (tc_tags c)" and "x \<notin> set (tc_seen c)"
    and "\<exists>e \<in> set es. pe_answers e t \<noteq> None \<and> pe_notify e"
  shows "announcements es c x = 1"
  using assms
proof (induction es arbitrary: c)
  case (Cons e es)
  have e: "lists t x e" using Cons.prems by simp
  show ?case
  proof (cases "announces e c x")
    case True
    then have "x \<in> set (tc_seen (fst (tick_of e c)))" using unseen_step(1) [OF e Cons.prems(2,3)] by simp
    then show ?thesis using True Cons.prems announced_no_more [of es t x "fst (tick_of e c)"] by (simp add: tick_keeps_tags)
  next
    case False
    then have "\<not> (pe_answers e t \<noteq> None \<and> pe_notify e)" using unseen_step(2) [OF e Cons.prems(2,3)] by blast
    moreover have "x \<notin> set (tc_seen (fst (tick_of e c)))" using False unseen_step(1) [OF e Cons.prems(2,3)] by simp
    moreover have "\<exists>e \<in> set es. pe_answers e t \<noteq> None \<and> pe_notify e" using calculation(1) Cons.prems(4) by auto
    ultimately show ?thesis using False Cons.IH [of "fst (tick_of e c)"] Cons.prems by (simp add: tick_keeps_tags)
  qed
qed simp

section \<open>Restarts keep the schedule\<close>

definition registry_ok :: "spec_registry \<Rightarrow> bool" where
  "registry_ok r \<longleftrightarrow> sr_specs r = [] \<or> sr_scheduled r = coalesce (map snd (sr_specs r))"

lemma coalesce_some: "coalesce ss = None \<longleftrightarrow> ss = []"
  by (auto simp: coalesce_def split: list.splits)

lemma recompute_ok: "registry_ok (snd (recompute r))"
  by (auto simp: recompute_def registry_ok_def coalesce_some split: option.splits)

lemma registry_kept: "registry_ok (snd (add_spec s r))" "registry_ok (snd (remove_spec i r))"
  by (simp_all add: add_spec_def remove_spec_def recompute_ok)

text \<open>A worker that registers again with the same request causes no call of the scheduler.\<close>

lemma same_spec_is_quiet:
  assumes "registry_ok r" and "map_of (sr_specs r) (ps_id s) = Some s"
  shows "add_spec s r = (None, r)"
proof -
  have same: "AList.update k v xs = xs" if "map_of xs k = Some v" for k :: string and v :: periodic_spec and xs
    using that by (induction xs) (auto split: if_splits)
  have "sr_specs r \<noteq> []" using assms(2) by auto
  then have "coalesce (map snd (sr_specs r)) = sr_scheduled r" "coalesce (map snd (sr_specs r)) \<noteq> None"
    using assms(1) by (auto simp: registry_ok_def coalesce_some)
  then show ?thesis by (auto simp: add_spec_def recompute_def same [OF assms(2)])
qed

section \<open>Properties\<close>

text \<open>
  C30. A waiting message is announced once: over any sequence of ticks of a locked device in which the
  query of its tag may fail, but lists its cell when it does not, other tags answer anything,
  notifications may fail and the cache can be written, the message is counted in exactly one shown
  notification as soon as one tick gets an answer and can notify. Failed notifications and
  unanswered tags neither lose it nor repeat it.
\<close>

theorem waiting_message_is_announced_once:
  assumes "\<forall>e \<in> set es. lists t x e" and "t \<in> set (tc_tags c)" and "x \<notin> set (tc_seen c)"
    and "\<exists>e \<in> set es. pe_answers e t \<noteq> None \<and> pe_notify e"
  shows "announcements es c x = 1"
  using assms by (rule announced_once)

theorem waiting_message_witness:
  "announcements
     [\<lparr>pe_answers = (\<lambda>t. None), pe_notify = True, pe_write = True\<rparr>,
      \<lparr>pe_answers = (\<lambda>t. Some [[7], [8]]), pe_notify = False, pe_write = True\<rparr>,
      \<lparr>pe_answers = (\<lambda>t. Some [[7]]), pe_notify = True, pe_write = True\<rparr>,
      \<lparr>pe_answers = (\<lambda>t. Some [[7], [9]]), pe_notify = True, pe_write = True\<rparr>]
     \<lparr>tc_tags = [[1]], tc_seen = []\<rparr> [7] = 1"
  by (rule waiting_message_is_announced_once [where t = "[1]"]) (simp_all add: lists_def)

text \<open>
  A full sync does not count as an announcement: refreshing the tags keeps exactly the out points
  that were announced before, so a message that an unlocked device has received, and whose cell is
  still on chain, is announced as new by the next tick of the locked device.
\<close>

lemma received_message_is_announced_again:
  assumes "tags \<noteq> []" and "x \<notin> set (tc_seen c)" and "t \<in> set tags"
    and "pe_answers e t = Some xs" and "x \<in> set xs" and "pe_notify e"
  shows "announces e (c\<lparr>tc_tags := tags\<rparr>) x"
proof -
  have "x \<in> set (listed (pe_answers e) tags)" using assms by (auto simp: listed_mem)
  moreover have "answered (pe_answers e) tags \<noteq> 0" using assms by (auto simp: answered_def filter_empty_conv)
  ultimately show ?thesis
    using assms(2,6) by (auto simp: announces_def tick_of_eq Let_def new_outpoints_def filter_empty_conv)
qed

end
