(* ===== verification/Cemp_Foreground.thy ===== *)
theory Cemp_Foreground
  imports Cemp_Prelude
begin

text \<open>
  apps/android/src/foreground-sync.ts: the scheduler of the syncs of an open app. A call of a method runs
  to its end before another one starts; a sync that was started goes on while other methods are called
  and the timer fires, until it settles. The timers that are armed in the runtime and the syncs that
  are running there are counted beside the fields of the scheduler: nothing in the code reads them.
\<close>

section \<open>The scheduler\<close>

definition chat_cadence :: nat where
  "chat_cadence = 10000"

definition idle_cadence :: nat where
  "idle_cadence = 30000"

record scheduler =
  fs_handle :: "nat option"
  fs_cadence :: nat
  fs_started :: bool
  fs_paused :: bool
  fs_in_flight :: bool
  fs_timers :: "(nat \<times> nat) list"
  fs_next :: nat
  fs_syncs :: nat

text \<open>\<open>setTimer\<close> arms a timer under a fresh handle, \<open>clearTimer\<close> disarms it.\<close>

definition set_timer :: "nat \<Rightarrow> scheduler \<Rightarrow> nat \<times> scheduler" where
  "set_timer ms s = (fs_next s, s\<lparr>fs_timers := (fs_next s, ms) # fs_timers s, fs_next := Suc (fs_next s)\<rparr>)"

definition clear_timer :: "nat \<Rightarrow> scheduler \<Rightarrow> scheduler" where
  "clear_timer h s = s\<lparr>fs_timers := filter (\<lambda>t. fst t \<noteq> h) (fs_timers s)\<rparr>"

definition new_scheduler :: scheduler where
  "new_scheduler = \<lparr>fs_handle = None, fs_cadence = idle_cadence, fs_started = False, fs_paused = False, fs_in_flight = False,
     fs_timers = [], fs_next = 0, fs_syncs = 0\<rparr>"

definition is_running :: "scheduler \<Rightarrow> bool" where
  "is_running s \<longleftrightarrow> fs_started s \<and> \<not> fs_paused s"

definition cancel_timer :: "scheduler \<Rightarrow> scheduler" where
  "cancel_timer s = (case fs_handle s of None \<Rightarrow> s | Some h \<Rightarrow> (clear_timer h s)\<lparr>fs_handle := None\<rparr>)"

definition rearm :: "scheduler \<Rightarrow> scheduler" where
  "rearm s = (let u = cancel_timer s in case set_timer (fs_cadence u) u of (h, v) \<Rightarrow> v\<lparr>fs_handle := Some h\<rparr>)"

text \<open>The part of \<open>#run\<close> and \<open>#sweep\<close> up to the sync, and the part after it, whether it failed or not.\<close>

definition run_sweep :: "scheduler \<Rightarrow> scheduler" where
  "run_sweep s =
     (if \<not> fs_started s \<or> fs_paused s \<or> fs_in_flight s then s
      else s\<lparr>fs_in_flight := True, fs_syncs := Suc (fs_syncs s)\<rparr>)"

definition sweep_settled :: "scheduler \<Rightarrow> scheduler" where
  "sweep_settled s =
     (let u = s\<lparr>fs_in_flight := False, fs_syncs := fs_syncs s - 1\<rparr> in
      if fs_started u \<and> \<not> fs_paused u then rearm u else u)"

definition set_cadence :: "nat \<Rightarrow> scheduler \<Rightarrow> scheduler" where
  "set_cadence ms s =
     (let tightening = ms < fs_cadence s; u = s\<lparr>fs_cadence := ms\<rparr> in
      if tightening \<and> fs_started u \<and> \<not> fs_paused u \<and> \<not> fs_in_flight u then rearm u else u)"

definition start :: "nat \<Rightarrow> scheduler \<Rightarrow> scheduler" where
  "start ms s =
     (if fs_started s then set_cadence ms s
      else run_sweep (s\<lparr>fs_started := True, fs_paused := False, fs_cadence := ms\<rparr>))"

text \<open>A call during a sweep waits for that sweep.\<close>

definition run_now :: "scheduler \<Rightarrow> scheduler" where
  "run_now s = (if fs_in_flight s then s else run_sweep s)"

definition pause :: "scheduler \<Rightarrow> scheduler" where
  "pause s = (if \<not> fs_started s \<or> fs_paused s then s else cancel_timer (s\<lparr>fs_paused := True\<rparr>))"

definition resume :: "scheduler \<Rightarrow> scheduler" where
  "resume s =
     (if \<not> fs_started s \<or> \<not> fs_paused s then s
      else let u = s\<lparr>fs_paused := False\<rparr> in if \<not> fs_in_flight u then run_sweep u else u)"

definition stop :: "scheduler \<Rightarrow> scheduler" where
  "stop s = cancel_timer (s\<lparr>fs_started := False, fs_paused := False\<rparr>)"

text \<open>The callback of a timer.\<close>

definition timer_fired :: "nat \<Rightarrow> scheduler \<Rightarrow> scheduler" where
  "timer_fired h s = run_sweep ((clear_timer h s)\<lparr>fs_handle := None\<rparr>)"

section \<open>Its runs\<close>

datatype event = Start nat | SetCadence nat | RunNow | Pause | Resume | Stop | Fire nat | Settle

inductive sync_step :: "scheduler \<Rightarrow> event \<Rightarrow> scheduler \<Rightarrow> bool" where
  "sync_step s (Start ms) (start ms s)"
| "sync_step s (SetCadence ms) (set_cadence ms s)"
| "sync_step s RunNow (run_now s)"
| "sync_step s Pause (pause s)"
| "sync_step s Resume (resume s)"
| "sync_step s Stop (stop s)"
| "(h, ms) \<in> set (fs_timers s) \<Longrightarrow> sync_step s (Fire h) (timer_fired h s)"
| "0 < fs_syncs s \<Longrightarrow> sync_step s Settle (sweep_settled s)"

inductive_cases sync_stepE: "sync_step s e t"

inductive sync_reachable :: "scheduler \<Rightarrow> bool" where
  initial: "sync_reachable new_scheduler"
| after: "sync_reachable s \<Longrightarrow> sync_step s e t \<Longrightarrow> sync_reachable t"

text \<open>What holds between the events: at most one sync runs, at most one timer is armed and it is the
  one the scheduler knows, none while it does not run, and a running scheduler always has a sync or a
  timer that will wake it.\<close>

definition sync_ok :: "scheduler \<Rightarrow> bool" where
  "sync_ok s \<longleftrightarrow> fs_syncs s = (if fs_in_flight s then 1 else 0)
     \<and> map fst (fs_timers s) = (case fs_handle s of None \<Rightarrow> [] | Some h \<Rightarrow> [h])
     \<and> (\<forall>h. fs_handle s = Some h \<longrightarrow> h < fs_next s)
     \<and> (\<not> is_running s \<longrightarrow> fs_handle s = None)
     \<and> (is_running s \<longrightarrow> fs_in_flight s \<or> fs_handle s \<noteq> None)"

lemma cancel_timer_eq:
  assumes "map fst (fs_timers s) = (case fs_handle s of None \<Rightarrow> [] | Some h \<Rightarrow> [h])"
  shows "cancel_timer s = s\<lparr>fs_handle := None, fs_timers := []\<rparr>"
proof (cases "fs_handle s")
  case None
  with assms show ?thesis by (cases s) (simp add: cancel_timer_def)
next
  case (Some h)
  with assms obtain ms where "fs_timers s = [(h, ms)]" by (cases "fs_timers s") auto
  with Some show ?thesis by (simp add: cancel_timer_def clear_timer_def)
qed

lemma rearm_eq:
  assumes "map fst (fs_timers s) = (case fs_handle s of None \<Rightarrow> [] | Some h \<Rightarrow> [h])"
  shows "rearm s = s\<lparr>fs_handle := Some (fs_next s), fs_timers := [(fs_next s, fs_cadence s)], fs_next := Suc (fs_next s)\<rparr>"
  by (simp add: rearm_def Let_def cancel_timer_eq [OF assms] set_timer_def)

lemma step_ok: "sync_step s e t \<Longrightarrow> sync_ok s \<Longrightarrow> sync_ok t"
proof (erule sync_stepE)
  assume ok: "sync_ok s"
  have t: "map fst (fs_timers s) = (case fs_handle s of None \<Rightarrow> [] | Some h \<Rightarrow> [h])" using ok by (simp add: sync_ok_def)
  note defs = sync_ok_def is_running_def Let_def
  have cadence: "sync_ok (set_cadence ms s)" for ms
    using ok t by (auto simp: set_cadence_def rearm_eq defs)
  show "sync_ok t" if "t = set_cadence ms s" for ms using that cadence by simp
  show "sync_ok t" if "t = start ms s" for ms
    using that ok t cadence by (auto simp: start_def run_sweep_def defs)
  show "sync_ok t" if "t = run_now s" using that ok by (auto simp: run_now_def run_sweep_def defs)
  show "sync_ok t" if "t = pause s" using that ok t by (auto simp: pause_def cancel_timer_eq defs)
  show "sync_ok t" if "t = resume s" using that ok by (auto simp: resume_def run_sweep_def defs)
  show "sync_ok t" if "t = stop s" using that ok t by (auto simp: stop_def cancel_timer_eq defs)
  show "sync_ok t" if "t = timer_fired h s" "(h, ms) \<in> set (fs_timers s)" for h ms
  proof -
    have "fs_handle s = Some h" "fs_timers s = [(h, ms)]"
      using t that(2) by (auto split: option.splits)
    then show ?thesis using that(1) ok by (auto simp: timer_fired_def clear_timer_def run_sweep_def defs)
  qed
  show "sync_ok t" if "t = sweep_settled s" "0 < fs_syncs s"
    using that ok t by (auto simp: sweep_settled_def rearm_eq defs split: if_splits)
qed

lemma reachable_ok: "sync_reachable s \<Longrightarrow> sync_ok s"
proof (induction rule: sync_reachable.induct)
  case initial
  then show ?case by (simp add: sync_ok_def is_running_def new_scheduler_def)
next
  case (after s e t)
  then show ?case using step_ok by blast
qed

section \<open>Properties\<close>



end
