(* ===== verification/Cemp_Messaging.thy ===== *)
theory Cemp_Messaging
  imports Cemp_Workers Cemp_Resolve Cemp_Profiles Cemp_Card Cemp_Keys Cemp_Background
begin

text \<open>
  apps/android/src: the messaging service of the app (messaging.ts) with the image send (image-send.ts),
  the adapters of its journal (outgoing-tx-journal.ts) and the tracker of native image handles
  (platform/handle-tracker.ts). The service publishes the own profile, messages and images, derives
  the key of a received image, downloads it and queues the confirmation.

  The publisher, the image pipeline and the chain client are those of the other theories. Building the
  profile transaction, the codec of the images and the random values are arguments. Account and
  wallet are fixed when the service is built.
\<close>

section \<open>outgoing-tx-journal.ts\<close>

definition adapter_record :: "tx_input \<Rightarrow> ('x db_scheme, failure, unit) prog" where
  "adapter_record inp = andthen (record_tx inp) (\<lambda>_. ret ())"

definition adapter_mark_state :: "string \<Rightarrow> string \<Rightarrow> int option \<Rightarrow> ('x db_scheme, failure, unit) prog" where
  "adapter_mark_state h st committed = mark_tx_state h st committed None"

definition adapter_find_latest :: "string \<Rightarrow> ('x db_scheme, failure, outgoing_tx option) prog" where
  "adapter_find_latest prefix = find_latest_by_purpose_prefix prefix"

definition adapter_reserve :: "nat \<Rightarrow> int \<Rightarrow> ('x db_scheme, failure, unit) prog" where
  "adapter_reserve w amount = reserve_capacity w amount"

definition adapter_mark_state_if :: "string \<Rightarrow> string \<Rightarrow> string \<Rightarrow> int option \<Rightarrow> ('x db_scheme, failure, nat) prog" where
  "adapter_mark_state_if h expected st committed = mark_tx_state_if h expected st committed None"

definition adapter_mark_reclaimable :: "nat \<Rightarrow> int \<Rightarrow> ('x db_scheme, failure, unit) prog" where
  "adapter_mark_reclaimable w amount = mark_reclaimable w amount"

definition adapter_release :: "nat \<Rightarrow> int \<Rightarrow> ('x db_scheme, failure, unit) prog" where
  "adapter_release w amount = release_reclaimed w amount"

definition adapter_fee_burn :: "nat \<Rightarrow> int \<Rightarrow> ('x db_scheme, failure, unit) prog" where
  "adapter_fee_burn w amount = record_fee_burn w amount"

text \<open>The adapters are the publication store of the pipelines, configured with the wallet: the image
  pipelines were proved over that store.\<close>

lemma adapters_are_the_store:
  "adapter_record inp = record_outgoing_tx inp" "adapter_mark_state h st c = mark_outgoing_tx_state h st c"
  "adapter_find_latest p = find_latest_by_prefix p" "adapter_reserve w a = store_reserve_capacity (Some w) a"
  "adapter_mark_state_if h e st c = mark_outgoing_tx_state_if h e st c"
  "adapter_mark_reclaimable w a = store_mark_reclaimable (Some w) a"
  "adapter_release w a = store_release_reclaimed (Some w) a" "adapter_fee_burn w a = store_record_fee_burn (Some w) a"
  by (simp_all add: adapter_record_def adapter_mark_state_def adapter_find_latest_def adapter_reserve_def
    adapter_mark_state_if_def adapter_mark_reclaimable_def adapter_release_def adapter_fee_burn_def store_defs
    store_release_reclaimed_def require_lifecycle_def andthen_def ret_def)

section \<open>handle-tracker.ts\<close>

text \<open>The tracker is a codec whose environment also holds the handles it has seen, in the order in which
  they came. \<open>handle_of\<close> is the handle of an image whose pixels are native.\<close>

definition track :: "('img \<Rightarrow> nat option) \<Rightarrow> ('w, 'img) env_call \<Rightarrow> ('w \<times> nat list, 'img) env_call" where
  "track handle_of call = (\<lambda>(w, hs). case call w of
       (Inl e, w', n) \<Rightarrow> (Inl e, (w', hs), n)
     | (Inr img, w', n) \<Rightarrow> (Inr img,
         (w', case handle_of img of None \<Rightarrow> hs | Some h \<Rightarrow> if h \<in> set hs then hs else hs @ [h]), n))"

definition tracked_codec :: "('img \<Rightarrow> nat option) \<Rightarrow> ('w, 'img) image_codec \<Rightarrow> ('w \<times> nat list, 'img) image_codec" where
  "tracked_codec handle_of G = \<lparr>ig_decode = (\<lambda>b. track handle_of (ig_decode G b)),
     ig_resize = (\<lambda>img x y. track handle_of (ig_resize G img x y)),
     ig_encode = (\<lambda>img f q (w, hs). case ig_encode G img f q w of (r, w', n) \<Rightarrow> (r, (w', hs), n)),
     ig_width = ig_width G, ig_height = ig_height G\<rparr>"

fun release_each :: "(nat \<Rightarrow> ('w, unit) env_call) \<Rightarrow> nat list \<Rightarrow> 'w \<Rightarrow> 'w \<times> nat" where
  "release_each release [] w = (w, 0)"
| "release_each release (h # hs) w = (case release h w of (_, w', n) \<Rightarrow>
     (case release_each release hs w' of (w'', k) \<Rightarrow> (w'', n + k)))"

definition release_all :: "(nat \<Rightarrow> ('w, unit) env_call) \<Rightarrow> ('w \<times> nat list, unit) env_call" where
  "release_all release = (\<lambda>(w, hs). case release_each release hs w of (w', n) \<Rightarrow> (Inr (), (w', []), n))"

section \<open>image-send.ts\<close>

record ('w, 'img) image_send_deps =
  sd_codec :: "('w, 'img) image_codec"
  sd_available :: int
  sd_per_chunk :: nat
  sd_message_cell :: nat
  sd_fee_reserve :: nat
  sd_publish :: "image_input \<Rightarrow> ('w world, failure + publication_error, publish_image_result) prog"

definition or_failure :: "('s, failure, 'a) prog \<Rightarrow> ('s, failure + publication_error, 'a) prog" where
  "or_failure m = catching m (\<lambda>e. throw (Inl e))"

definition photo_too_large :: failure where
  "photo_too_large = OtherError ''This photo's too large to send. Try a smaller one.''"

definition not_enough_balance :: failure where
  "not_enough_balance = OtherError ''Not enough balance to send this image''"

definition required_for :: "('w, 'img) image_send_deps \<Rightarrow> prepared_image \<Rightarrow> nat" where
  "required_for d p = estimate_image_send_shannon
     (snd (estimate_attachment_capacity (length (pm_bytes p)) attachment_chunk_bytes)) (sd_per_chunk d) (sd_message_cell d)
     (sd_fee_reserve d)"

definition send_prepared ::
  "attachment_manifest_v1 mol_codec \<Rightarrow> ('w, 'img) image_send_deps \<Rightarrow> image_input \<Rightarrow> prepared_image \<Rightarrow>
     ('w world, failure + publication_error, string \<times> string) prog" where
  "send_prepared manifest_codec d i prepared =
     (if sd_available d < 0 \<or> \<not> has_sufficient_capacity (nat (sd_available d)) (required_for d prepared)
      then throw (Inl not_enough_balance)
      else
        andthen (sd_publish d (i\<lparr>ii_prepared := Some prepared\<rparr>)) (\<lambda>r.
        andthen (or_failure (andthen
          (lift_result (map_error (\<lambda>_. OtherError ''encodeAttachmentManifestV1'')
            (encode_attachment_manifest_v1 manifest_codec (pg_manifest r)))) (\<lambda>bytes.
          create_attachment \<lparr>ai_message_id = ii_row_id i, ai_kind = ''image'', ai_byte_length = pg_plaintext_size r,
            ai_state = None, ai_manifest = Some bytes, ai_key = None\<rparr>))) (\<lambda>_.
        ret (pg_message_tx r, pg_chunks_tx r))))"

definition run_image_send ::
  "blake2b \<Rightarrow> attachment_manifest_v1 mol_codec \<Rightarrow> ('w, 'img) image_send_deps \<Rightarrow> image_input \<Rightarrow>
     ('w world, failure + publication_error, string \<times> string) prog" where
  "run_image_send blake2b manifest_codec d i =
     andthen (or_failure (catching (prepare_image blake2b (sd_codec d) (ii_source i) (ii_format i) None)
       (\<lambda>e. throw (if e = image_too_large then photo_too_large else e)))) (send_prepared manifest_codec d i)"

section \<open>messaging.ts\<close>

subsection \<open>The service\<close>

record ('w, 'a, 'b, 'c, 'tx, 'img) messaging =
  ms_publisher :: "('w, message_content, 'a, 'b, 'tx) publisher_deps"
  ms_attach :: "('w, 'c, 'tx) attach_deps"
  ms_client :: "'w client"
  ms_build_profile :: "cemp_profile_v1 \<Rightarrow> ('w, 'c) env_call"
  ms_type_args :: "'c \<Rightarrow> string"
  ms_lock_hash :: string
  ms_address :: code_points
  ms_keys :: identity_keys
  ms_account :: nat
  ms_wallet :: nat
  ms_codec :: "('w, 'img) image_codec option"
  ms_release :: "('w, unit) env_call"
  ms_draws :: "('w, image_draws) env_call"
  ms_bytes_from :: "string \<Rightarrow> failure + bytes"
  ms_blake2b :: blake2b
  ms_suite :: crypto_suite
  ms_wire :: wire_codecs
  ms_profile_codec :: "cemp_profile_v1 mol_codec"
  ms_script_hash :: "script \<Rightarrow> string"

definition my_profile_id :: "('w, 'a, 'b, 'c, 'tx, 'img) messaging \<Rightarrow> ('x db_scheme, failure, string option) prog" where
  "my_profile_id M = andthen (get_active_by_account (ms_account M)) (\<lambda>r. ret (map_option sp_profile_id r))"

text \<open>The two free functions that read the active profile: sending without one is an error, scanning
  without one is not.\<close>

definition no_profile :: publication_error where
  "no_profile = \<lparr>pe_code = ProfileNotFound, pe_broadcast = False, pe_cause = OtherError ''Publish your profile before sending a message.''\<rparr>"

definition require_sender_profile ::
  "('w, 'a, 'b, 'c, 'tx, 'img) messaging \<Rightarrow> ('x db_scheme, failure + publication_error, bytes) prog" where
  "require_sender_profile M = andthen (or_failure (my_profile_id M)) (\<lambda>p. case p of
       None \<Rightarrow> throw (Inr no_profile)
     | Some hex \<Rightarrow> or_failure (lift_result (ms_bytes_from M (''0x'' @ hex))))"

definition resolve_active_sender_profile ::
  "('w, 'a, 'b, 'c, 'tx, 'img) messaging \<Rightarrow> ('x db_scheme, failure, bytes option) prog" where
  "resolve_active_sender_profile M = andthen (my_profile_id M) (\<lambda>p. case p of
       None \<Rightarrow> ret None
     | Some hex \<Rightarrow> andthen (lift_result (ms_bytes_from M (''0x'' @ hex))) (\<lambda>b. ret (Some b)))"

definition my_fingerprint :: "('w, 'a, 'b, 'c, 'tx, 'img) messaging \<Rightarrow> ('x db_scheme, failure, string option) prog" where
  "my_fingerprint M = andthen (my_profile_id M) (\<lambda>p. case p of
       None \<Rightarrow> ret None
     | Some hex \<Rightarrow> andthen (lift_result (ms_bytes_from M (''0x'' @ hex))) (\<lambda>pid.
         lift_result (map_error (\<lambda>_. OtherError ''fingerprintBytes'') (sum_bind (format_fingerprint (ms_blake2b M)
           \<lparr>fp_profile_id = pid, fp_ml_dsa_public_key = fst (ik_dsa (ms_keys M)),
            fp_ml_kem_public_key = fst (ik_kem (ms_keys M))\<rparr>) (\<lambda>t. Inr (Some t))))))"

definition my_contact_bundle ::
  "('w, 'a, 'b, 'c, 'tx, 'img) messaging \<Rightarrow> ('x db_scheme, failure, contact_bundle option) prog" where
  "my_contact_bundle M = andthen (my_profile_id M) (\<lambda>p. case p of
       None \<Rightarrow> ret None
     | Some hex \<Rightarrow> andthen (my_fingerprint M) (\<lambda>f. case f of
         None \<Rightarrow> ret None
       | Some fp \<Rightarrow> ret (Some \<lparr>cb_profile_type_id = ''0x'' @ hex, cb_lock_script_hash = ms_lock_hash M,
           cb_address = ms_address M, cb_fingerprint = fp, cb_network = points ckb_testnet\<rparr>)))"

subsection \<open>Publishing\<close>

definition own_profile :: "('w, 'a, 'b, 'c, 'tx, 'img) messaging \<Rightarrow> bytes \<Rightarrow> code_points \<Rightarrow> int \<Rightarrow> cemp_profile_v1" where
  "own_profile M lock_hash handle t = \<lparr>pf_protocol_version = 1, pf_sig_algorithm = \<lparr>family = 1, parameter = 61\<rparr>,
     pf_kem_algorithm = \<lparr>family = 2, parameter = 3\<rparr>, pf_ml_dsa_public_key = fst (ik_dsa (ms_keys M)),
     pf_ml_kem_public_key = fst (ik_kem (ms_keys M)), pf_lock_script_hash = lock_hash,
     pf_supported_protocol_versions = [1], pf_supported_attachments = 0, pf_handle = Some (utf8_encode handle),
     pf_icon_hash = None, pf_key_created_at = t div 1000, pf_rotation_sequence = 0, pf_previous_profile_id = None,
     pf_revoked = 0\<rparr>"

definition profile_tx_input ::
  "('w, 'a, 'b, 'c, 'tx, 'img) messaging \<Rightarrow> 'c \<Rightarrow> 'c \<Rightarrow> int \<Rightarrow> tx_input" where
  "profile_tx_input M built signed_tx t = (let d = ms_attach M in
     \<lparr>ti_hash = ac_hash d signed_tx, ti_purpose = ''profile:create'', ti_state = ''submitted'',
      ti_fee = Some (ac_fee d built), ti_submitted_at = Some t, ti_capacity = None,
      ti_hex = Some (cl_stringify_tx (ac_client d) (ac_wire d signed_tx))\<rparr>)"

text \<open>The part after the broadcast.\<close>

definition profile_committed ::
  "('w, 'a, 'b, 'c, 'tx, 'img) messaging \<Rightarrow> string \<Rightarrow> string \<Rightarrow> ('w world, failure, unit) prog" where
  "profile_committed M args h =
     andthen (wait_for_commit (ac_client (ms_attach M)) h None) (\<lambda>_.
     andthen now (\<lambda>t.
     andthen (mark_tx_state h ''committed'' (Some t) None) (\<lambda>_.
     andthen (create_profile \<lparr>np_account_id = ms_account M, np_profile_id = drop 2 args, np_type_id = Some args,
       np_tx_hash = Some h, np_outpoint_index = Some 0, np_previous = None, np_state = Some ProfileActive\<rparr>) (\<lambda>_.
     ret ()))))"

definition publish_my_profile ::
  "('w, 'a, 'b, 'c, 'tx, 'img) messaging \<Rightarrow> code_points \<Rightarrow> ('w world, failure, string \<times> string) prog" where
  "publish_my_profile M handle = (let d = ms_attach M in
     andthen (my_profile_id M) (\<lambda>existing. case existing of
       Some p \<Rightarrow> ret (p, ''(already published)'')
     | None \<Rightarrow>
         andthen (lift_result (ms_bytes_from M (ms_lock_hash M))) (\<lambda>lock_hash.
         andthen now (\<lambda>t.
         andthen (on_env (ms_build_profile M (own_profile M lock_hash handle t))) (\<lambda>built.
         andthen (on_env (ac_sign d built)) (\<lambda>signed_tx.
         andthen now (\<lambda>t.
         andthen (record_tx (profile_tx_input M built signed_tx t)) (\<lambda>_.
         andthen (on_env (cl_send_transaction (ac_client d) (ac_wire d signed_tx))) (\<lambda>accepted.
         if accepted \<noteq> ac_hash d signed_tx
         then throw (OtherError ''publishMyProfile: node returned a different tx hash'')
         else
           andthen (on_env (cl_track_spend (ac_client d) (ac_wire d signed_tx))) (\<lambda>_.
           andthen (profile_committed M (ms_type_args M built) (ac_hash d signed_tx)) (\<lambda>_.
           ret (drop 2 (ms_type_args M built), ac_hash d signed_tx))))))))))))"

definition plain_content :: "code_points \<Rightarrow> string \<Rightarrow> message_content" where
  "plain_content text recipient = \<lparr>mc_text = text, mc_recipient = recipient, mc_reply_to = None, mc_receipts = [],
     mc_receipt_request = Some 1, mc_content_type = None, mc_manifests = [], mc_attachment_envelope = None\<rparr>"

definition publish_message ::
  "('w, 'a, 'b, 'c, 'tx, 'img) messaging \<Rightarrow> nat \<Rightarrow> string \<Rightarrow> code_points \<Rightarrow> string \<Rightarrow>
     ('w world, publication_error, string) prog" where
  "publish_message M row logical text recipient =
     andthen (publish_text (ms_publisher M) \<lparr>pi_row_id = row, pi_logical_id = logical,
       pi_content = plain_content text recipient, pi_timeout = None\<rparr>) (\<lambda>r. ret (pr_tx_hash r))"

text \<open>An image send: the input without the fields that the service fills in.\<close>

record image_request =
  ir_row_id :: nat
  ir_logical_id :: string
  ir_recipient_hex :: string
  ir_source :: bytes
  ir_caption :: "code_points option"
  ir_format :: "image_format option"
  ir_timeout :: "int option"

definition image_input_of :: "image_request \<Rightarrow> bytes \<Rightarrow> bytes \<Rightarrow> image_input" where
  "image_input_of q kem recipient = \<lparr>ii_row_id = ir_row_id q, ii_logical_id = ir_logical_id q,
     ii_recipient_hex = ir_recipient_hex q, ii_kem_public_key = kem, ii_recipient = recipient, ii_source = ir_source q,
     ii_prepared = None, ii_caption = ir_caption q, ii_format = ir_format q, ii_timeout = ir_timeout q\<rparr>"

definition image_send_deps_of ::
  "('w, 'a, 'b, 'c, 'tx, 'img) messaging \<Rightarrow> ('w, 'img) image_codec \<Rightarrow> int \<Rightarrow> bytes \<Rightarrow> ('w, 'img) image_send_deps" where
  "image_send_deps_of M G available sender = \<lparr>sd_codec = G, sd_available = available,
     sd_per_chunk = conservative_per_chunk_shannon, sd_message_cell = conservative_message_cell_shannon,
     sd_fee_reserve = send_fee_reserve_shannons,
     sd_publish = (\<lambda>i. andthen (or_failure (on_env (ms_draws M))) (\<lambda>D.
       publish_image_message (ms_blake2b M) (ms_suite M) G (ms_attach M) (ms_publisher M) sender D i))\<rparr>"

definition send_fresh_image ::
  "('w, 'a, 'b, 'c, 'tx, 'img) messaging \<Rightarrow> ('w, 'img) image_codec \<Rightarrow> image_request \<Rightarrow>
     ('w world, failure + publication_error, string) prog" where
  "send_fresh_image M G q =
     andthen (or_failure (on_env (env_call_of (resolve_recipient (ms_profile_codec M) (ms_script_hash M) (ms_client M)
       (ir_recipient_hex q))))) (\<lambda>resolved.
     andthen (or_failure (get_balance (ms_wallet M))) (\<lambda>balance.
     andthen (require_sender_profile M) (\<lambda>sender.
     andthen (run_image_send (ms_blake2b M) (wc_manifest (ms_wire M)) (image_send_deps_of M G (wb_available balance) sender)
       (image_input_of q (pf_ml_kem_public_key (rp_profile resolved)) (lenient_hex_to_bytes (ir_recipient_hex q)))) (\<lambda>r.
     ret (fst r)))))"

definition in_flight :: "outgoing_tx option \<Rightarrow> bool" where
  "in_flight j = (case j of None \<Rightarrow> False | Some r \<Rightarrow> tx_state r = ''submitted'' \<or> tx_state r = ''committed'')"

definition resume_image ::
  "('w, 'a, 'b, 'c, 'tx, 'img) messaging \<Rightarrow> image_request \<Rightarrow> ('w world, failure + publication_error, string) prog" where
  "resume_image M q =
     andthen (catching (publish_text (ms_publisher M) \<lparr>pi_row_id = ir_row_id q, pi_logical_id = ir_logical_id q,
       pi_content = plain_content (case ir_caption q of None \<Rightarrow> [] | Some c \<Rightarrow> c) (ir_recipient_hex q), pi_timeout = None\<rparr>)
       (\<lambda>e. throw (Inr e))) (\<lambda>r. ret (pr_tx_hash r))"

definition publish_image ::
  "('w, 'a, 'b, 'c, 'tx, 'img) messaging \<Rightarrow> image_request \<Rightarrow> ('w world, failure + publication_error, string) prog" where
  "publish_image M q =
     andthen (or_failure (find_latest_by_purpose (''message:'' @ ir_logical_id q))) (\<lambda>journaled.
     if in_flight journaled then resume_image M q
     else (case ms_codec M of
         None \<Rightarrow> throw (Inl (OtherError ''publishImage: no image codec configured for this platform''))
       | Some G \<Rightarrow> finally_do (send_fresh_image M G q) (or_failure (on_env (ms_release M)))))"

subsection \<open>Receiving images\<close>

definition point_of :: "string \<Rightarrow> nat \<Rightarrow> out_point" where
  "point_of h n = out_point.make h (quantity n)"

definition live_data :: "'w client \<Rightarrow> out_point_v1 \<Rightarrow> ('w, data_status) env_call" where
  "live_data C o' = env_call_of (andthen (get_live_cell C (point_of (''0x'' @ bytes_to_hex (out_point_v1.op_tx_hash o'))
       (nat (out_point_v1.op_index o')))) (\<lambda>status.
     ret (case status of CellLive c \<Rightarrow> LiveData (ce_data c) | _ \<Rightarrow> NotLive)))"

definition stored_attachment_key :: "attachment list \<Rightarrow> bytes option" where
  "stored_attachment_key rows = (case List.find (\<lambda>a. at_key a \<noteq> None) rows of
       None \<Rightarrow> None
     | Some a \<Rightarrow> (case at_key a of Some k \<Rightarrow> if length k = 32 then Some k else None | None \<Rightarrow> None))"

definition rederive_attachment_key ::
  "('w, 'a, 'b, 'c, 'tx, 'img) messaging \<Rightarrow> string \<Rightarrow> nat \<Rightarrow> ('w world, failure + publication_error, bytes) prog" where
  "rederive_attachment_key M h n =
     andthen (or_failure (on_env (env_call_of (get_live_cell (ms_client M) (point_of h n))))) (\<lambda>status. case status of
       CellLive c \<Rightarrow>
         andthen (require_sender_profile M) (\<lambda>own.
         andthen (or_failure (lift_result (map_error crypto_failure (decrypt_envelope (ms_suite M) (ms_wire M)
           \<lparr>dp_envelope = lenient_hex_to_bytes (ce_data c), dp_kem_secret_key = snd (ik_kem (ms_keys M)), dp_own_profile_id = own\<rparr>))))
           (\<lambda>r. ret (dr_attachment_key r)))
     | _ \<Rightarrow> throw (Inl (OtherError ''deriveIncomingAttachmentKey: cell is not live'')))"

definition derive_incoming_attachment_key ::
  "('w, 'a, 'b, 'c, 'tx, 'img) messaging \<Rightarrow> nat \<Rightarrow> ('w world, failure + publication_error, bytes) prog" where
  "derive_incoming_attachment_key M i =
     andthen (or_failure (list_for_message i)) (\<lambda>rows. case stored_attachment_key rows of
       Some k \<Rightarrow> ret k
     | None \<Rightarrow> andthen (or_failure (get_chain_ref i)) (\<lambda>ref.
         (case chain_ref_pair ref of
           None \<Rightarrow> throw (Inl (OtherError ''deriveIncomingAttachmentKey: no recorded chain reference''))
         | Some (h, n) \<Rightarrow> rederive_attachment_key M h n)))"

definition queue_attachment_ack :: "nat \<Rightarrow> ('x db_scheme, failure, unit) prog" where
  "queue_attachment_ack i =
     andthen (get_message i) (\<lambda>m. case m of
       None \<Rightarrow> ret ()
     | Some msg \<Rightarrow>
         if m_direction msg \<noteq> Incoming then ret ()
         else
           let logical = ''ack-attachment:'' @ m_logical_id msg in
           andthen (get_by_logical_id logical) (\<lambda>existing.
           if existing \<noteq> None then ret ()
           else andthen (get_chain_ref i) (\<lambda>ref. case chain_ref_pair ref of
               None \<Rightarrow> ret ()
             | Some (h, n) \<Rightarrow>
                 andthen (insert_message \<lparr>mi_conversation_id = m_conversation_id msg, mi_direction = Outgoing, mi_body = Some [],
                   mi_logical_id = logical, mi_state = Some Queued, mi_created_at = None\<rparr>) (\<lambda>row.
                 set_chain_ref (m_id row) None None (Some h) (Some n)))))"

definition download_image_attachment ::
  "('w, 'a, 'b, 'c, 'tx, 'img) messaging \<Rightarrow> nat \<Rightarrow> attachment_manifest_v1 \<Rightarrow>
     ('w world, failure + publication_error, downloaded_attachment) prog" where
  "download_image_attachment M i m =
     andthen (derive_incoming_attachment_key M i) (\<lambda>key.
     andthen (or_failure (download_attachment (ms_blake2b M) (ms_suite M) (live_data (ms_client M)) m key)) (\<lambda>downloaded.
     andthen (catching (queue_attachment_ack i) (\<lambda>_. ret ())) (\<lambda>_.
     ret downloaded)))"

subsection \<open>Route tags\<close>

definition route_tags_hex :: "('w, 'a, 'b, 'c, 'tx, 'img) messaging \<Rightarrow> ('x db_scheme, failure, string list) prog" where
  "route_tags_hex M = andthen (my_profile_id M) (\<lambda>p. case p of
       None \<Rightarrow> ret []
     | Some hex \<Rightarrow> andthen (lift_result (ms_bytes_from M (''0x'' @ hex))) (\<lambda>pid.
         andthen now (\<lambda>t. let epoch = current_routing_epoch t in
         ret (map (\<lambda>e. bytes_to_hex (derive_route_tag (ms_blake2b M) pid e)) [epoch - 1, epoch, epoch + 1]))))"

definition dispose :: "('w, 'a, 'b, 'c, 'tx, 'img) messaging \<Rightarrow> ('w, 'a, 'b, 'c, 'tx, 'img) messaging" where
  "dispose M = M\<lparr>ms_keys := wipe_identity_key_bundle (ms_keys M)\<rparr>"

section \<open>Lemmas\<close>

subsection \<open>What the steps leave alone\<close>

lemma keeps_or_failure [keeps_rules]: "keeps I m \<Longrightarrow> keeps I (or_failure m)"
  by (auto simp: or_failure_def intro!: keeps_rules)

lemma wp_or_failure [wp_rules]: "wp (or_failure m) Q E s = wp m Q (\<lambda>e. E (Inl e)) s"
  by (simp add: or_failure_def wp_rules)

lemma wp_kept_then:
  assumes "keeps I m" and "I s" and "\<And>a t. I t \<Longrightarrow> wp (f a) Q E t" and "\<And>e t. I t \<Longrightarrow> E e t"
  shows "wp (andthen m f) Q E s"
proof -
  have "wp m (\<lambda>_. I) (\<lambda>_. I) s" using assms(1,2) by (simp add: keeps_wp)
  then show ?thesis unfolding wp_andthen by (rule wp_mono) (use assms(3,4) in auto)
qed

lemma profile_reads_keep [keeps_rules]: "keeps I (my_profile_id M)" "keeps I (require_sender_profile M)"
  by (auto simp: my_profile_id_def get_active_by_account_def require_sender_profile_def
    intro!: keeps_rules keeps_lift_result split: option.splits)

lemma balance_read_keeps [keeps_rules]: "keeps I (get_balance w)"
  by (simp add: get_balance_def keeps_rules)

definition codec_keeps :: "('w world \<Rightarrow> bool) \<Rightarrow> ('w, 'img) image_codec \<Rightarrow> bool" where
  "codec_keeps I G \<longleftrightarrow> (\<forall>b. keeps I (on_env (ig_decode G b))) \<and> (\<forall>img x y. keeps I (on_env (ig_resize G img x y)))
     \<and> (\<forall>img f q. keeps I (on_env (ig_encode G img f q)))"

lemma codec_env_free [intro]: "env_free I \<Longrightarrow> codec_keeps I G"
  by (simp add: codec_keeps_def keeps_on_env)

lemma try_qualities_keeps: "codec_keeps I G \<Longrightarrow> keeps I (try_qualities G limits fmt img dims qs best)"
  by (induction qs arbitrary: best) (auto simp: codec_keeps_def intro!: keeps_ret keeps_andthen keeps_if)

lemma try_edges_keeps: "codec_keeps I G \<Longrightarrow> keeps I (try_edges G limits fmt img base es best)"
proof (induction es arbitrary: best)
  case (Cons e es)
  then have "keeps I (on_env (ig_resize G img x y))" for x y by (simp add: codec_keeps_def)
  with Cons show ?case
    by (auto simp: Let_def try_qualities_keeps intro!: keeps_ret keeps_andthen keeps_if split: sum.splits)
qed (simp add: keeps_ret)

lemma prepare_keeps:
  assumes "codec_keeps I G"
  shows "keeps I (prepare_image b G source f l)"
proof -
  have "keeps I (on_env (ig_decode G b'))" "keeps I (on_env (ig_resize G img x y))" "keeps I (on_env (ig_encode G img fm q))"
    for b' img x y fm q using assms by (simp_all add: codec_keeps_def)
  then show ?thesis
    by (auto simp: prepare_image_def compress_to_limits_def Let_def try_edges_keeps [OF assms]
      intro!: keeps_ret keeps_throw keeps_andthen keeps_if keeps_lift_result split: sum.splits option.splits)
qed

lemma wp_then: "(\<And>a t. wp (f a) Q (\<lambda>_ _. True) t) \<Longrightarrow> wp (andthen m f) Q (\<lambda>_ _. True) s"
  unfolding wp_andthen by (rule wp_mono [OF wp_true]) simp_all

text \<open>The database without its clock.\<close>

definition db_only :: "'x db_scheme \<Rightarrow> db" where
  "db_only s = (db.truncate s)\<lparr>db_clock := 0\<rparr>"

lemma db_only_env_free [simp]: "env_free (\<lambda>s. db_only s = D)"
  by (simp add: env_free_def db_only_def db.truncate_def)

lemma db_only_balance: "db_only t = db_only s \<Longrightarrow> find_balance w t = find_balance w s"
  by (simp add: db_only_def db.truncate_def find_balance_def)

lemma some_chunk: "1 \<le> snd (estimate_attachment_capacity n attachment_chunk_bytes)"
  by (simp add: estimate_attachment_capacity_def attachment_chunk_bytes_def Let_def)

definition least_image_cost :: nat where
  "least_image_cost = estimate_image_send_shannon 1 conservative_per_chunk_shannon conservative_message_cell_shannon send_fee_reserve_shannons"

lemma image_cost_bound:
  "1 \<le> n \<Longrightarrow> least_image_cost \<le> estimate_image_send_shannon n conservative_per_chunk_shannon conservative_message_cell_shannon send_fee_reserve_shannons"
  by (simp add: least_image_cost_def estimate_image_send_shannon_def)

lemma image_send_refused:
  fixes s :: "'w world"
  assumes "sd_available d < int least_image_cost" and "sd_per_chunk d = conservative_per_chunk_shannon"
    and "sd_message_cell d = conservative_message_cell_shannon" and "sd_fee_reserve d = send_fee_reserve_shannons"
    and "db_only s = D"
  shows "wp (run_image_send blake2b codec d i) (\<lambda>_ _. False) (\<lambda>_ t. db_only t = D) s"
  unfolding run_image_send_def
proof (rule wp_kept_then [where I = "\<lambda>t. db_only t = D"])
  fix p :: prepared_image and t :: "'w world" assume t: "db_only t = D"
  have "least_image_cost \<le> required_for d p"
    unfolding required_for_def assms(2-4) by (rule image_cost_bound [OF some_chunk])
  then have "sd_available d < 0 \<or> \<not> has_sufficient_capacity (nat (sd_available d)) (required_for d p)"
    using assms(1) by (auto simp: has_sufficient_capacity_def)
  with t show "wp (send_prepared codec d i p) (\<lambda>_ _. False) (\<lambda>_ t. db_only t = D) t"
    by (simp add: send_prepared_def wp_throw)
qed (use assms(5) in \<open>auto intro!: keeps_rules prepare_keeps\<close>)

lemma fresh_image_refused:
  fixes s :: "'w world"
  assumes "find_balance (ms_wallet M) s = Some b" and "wb_available b < int least_image_cost"
  shows "wp (send_fresh_image M G q) (\<lambda>_ _. False) (\<lambda>_ t. db_only t = db_only s) s"
  unfolding send_fresh_image_def
proof (rule wp_kept_then [where I = "\<lambda>t. db_only t = db_only s"])
  let ?send = "\<lambda>r balance sender. andthen (run_image_send (ms_blake2b M) (wc_manifest (ms_wire M))
       (image_send_deps_of M G (wb_available balance) sender)
       (image_input_of q (pf_ml_kem_public_key (rp_profile r)) (lenient_hex_to_bytes (ir_recipient_hex q)))) (\<lambda>r. ret (fst r))"
  fix r :: resolved_profile and t :: "'w world" assume t: "db_only t = db_only s"
  then have b: "find_balance (ms_wallet M) t = Some b" using db_only_balance assms(1) by metis
  have send: "wp (?send r b sender) (\<lambda>_ _. False) (\<lambda>_ t. db_only t = db_only s) u" if "db_only u = db_only s"
    for sender and u :: "'w world"
    unfolding wp_andthen
    by (rule wp_mono [OF image_send_refused [where D = "db_only s"]]) (use assms(2) that in \<open>simp_all add: image_send_deps_of_def\<close>)
  have "wp (andthen (require_sender_profile M) (?send r b)) (\<lambda>_ _. False) (\<lambda>_ t. db_only t = db_only s) t"
    by (rule wp_kept_then [where I = "\<lambda>t. db_only t = db_only s", OF profile_reads_keep(2)]) (simp_all add: send t)
  then show "wp (andthen (or_failure (get_balance (ms_wallet M))) (\<lambda>balance. andthen (require_sender_profile M) (?send r balance)))
      (\<lambda>_ _. False) (\<lambda>_ t. db_only t = db_only s) t"
    using b by (simp add: get_balance_def wp_rules)
qed (auto intro!: keeps_rules)

lemma image_refused:
  fixes s :: "'w world"
  assumes "find_balance (ms_wallet M) s = Some b" and "wb_available b < int least_image_cost"
    and "\<not> in_flight (latest_tx (\<lambda>r. tx_purpose r = ''message:'' @ ir_logical_id q) s)"
  shows "wp (publish_image M q) (\<lambda>_ _. False) (\<lambda>_ t. db_only t = db_only s) s"
proof -
  have "wp (finally_do (send_fresh_image M G q) (or_failure (on_env (ms_release M)))) (\<lambda>_ _. False) (\<lambda>_ t. db_only t = db_only s) s" for G
    unfolding wp_finally
  proof (rule wp_mono [OF fresh_image_refused [OF assms(1,2)]])
    fix e and t :: "'w world" assume t: "db_only t = db_only s"
    have "keeps (\<lambda>t. db_only t = db_only s) (or_failure (on_env (ms_release M)) :: ('w world, failure + publication_error, unit) prog)"
      by (auto intro!: keeps_rules)
    with t show "wp (or_failure (on_env (ms_release M))) (\<lambda>_ t. db_only t = db_only s) (\<lambda>_ t. db_only t = db_only s) t"
      unfolding keeps_wp by blast
  qed simp
  then show ?thesis
    using assms(3) by (simp add: publish_image_def wp_rules find_latest_by_purpose_def split: option.splits)
qed

subsection \<open>The tracker\<close>

text \<open>Whatever runs over a tracked codec, no handle is recorded twice, and releasing calls the codec once for
  each recorded handle, in order, and forgets them all.\<close>

lemma track_distinct:
  assumes "distinct (snd w)"
  shows "distinct (snd (fst (snd (track f call w))))"
proof (cases "call (fst w)")
  case (fields r v n)
  with assms show ?thesis by (cases w; cases r) (auto simp: track_def split: option.splits)
qed

lemma keeps_env:
  assumes "\<And>w. P w \<Longrightarrow> P (fst (snd (f w)))"
  shows "keeps (\<lambda>s. P (env s)) (on_env f)"
  using assms by (simp add: keeps_def on_env_def split_beta)

lemma tracked_keeps_distinct: "codec_keeps (\<lambda>s. distinct (snd (env s))) (tracked_codec f G)"
proof -
  have "distinct (snd (fst (snd (ig_encode (tracked_codec f G) img fm q w)))) = distinct (snd w)" for img fm q w
    by (cases w) (simp add: tracked_codec_def split_beta)
  then show ?thesis
    unfolding codec_keeps_def by (auto intro!: keeps_env) (simp_all add: tracked_codec_def track_distinct)
qed

lemma tracked_preparation: "keeps (\<lambda>s. distinct (snd (env s))) (prepare_image b (tracked_codec f G) source fm l)"
  by (rule prepare_keeps) (rule tracked_keeps_distinct)

lemma released_in_order: "fst (release_each (\<lambda>h l. (r h, l @ [h], n)) hs l) = l @ hs"
  by (induction hs arbitrary: l) (auto split: prod.splits simp: prod_eq_iff)

lemma release_forgets: "snd (fst (snd (release_all release w))) = []"
  by (cases w) (simp add: release_all_def split: prod.splits)

subsection \<open>The confirmation of a download\<close>

lemma download_chunks_keeps: "env_free I \<Longrightarrow> keeps I (download_chunks f os)"
  by (induction os) (auto intro!: keeps_rules split: data_status.splits sum.splits)

lemma download_keeps [keeps_rules]: "env_free I \<Longrightarrow> keeps I (download_attachment b S f m key)"
  by (auto simp: download_attachment_def download_chunks_keeps intro!: keeps_rules keeps_lift_result split: option.splits)

lemma key_keeps [keeps_rules]:
  "env_free I \<Longrightarrow> keeps I (derive_incoming_attachment_key M i)"
  by (auto simp: derive_incoming_attachment_key_def rederive_attachment_key_def list_for_message_def get_chain_ref_def
    intro!: keeps_rules keeps_lift_result split: option.splits prod.splits live_cell_status.splits)

lemma download_checked:
  "wp (download_attachment b S f m key) (\<lambda>d _. ckb_hash b (da_bytes d) = am_content_hash m) (\<lambda>_ _. True) s"
proof -
  have opened: "ckb_hash b (da_bytes d) = am_content_hash m" if "open_attachment b S m key c = Inr d" for c d
    using that by (auto simp: open_attachment_def sum_bind_def Let_def split: if_splits sum.splits)
  show ?thesis
  proof (cases "check_manifest m default_image_limits")
    case None
    then show ?thesis
      unfolding download_attachment_def
      by (simp add: wp_andthen) (rule wp_mono [OF wp_true], simp_all add: wp_lift_result opened split: sum.splits)
  qed (simp add: download_attachment_def wp_throw)
qed

text \<open>The row that a confirmation is.\<close>

definition ack_row :: "message \<Rightarrow> int \<Rightarrow> message list \<Rightarrow> message" where
  "ack_row msg t rows = new_message \<lparr>mi_conversation_id = m_conversation_id msg, mi_direction = Outgoing, mi_body = Some [],
     mi_logical_id = ''ack-attachment:'' @ m_logical_id msg, mi_state = Some Queued, mi_created_at = None\<rparr> t rows"

lemma ack_row_fields [simp]:
  "m_logical_id (ack_row msg t rows) = ''ack-attachment:'' @ m_logical_id msg" "m_direction (ack_row msg t rows) = Outgoing"
  "m_state (ack_row msg t rows) = Queued" "m_conversation_id (ack_row msg t rows) = m_conversation_id msg"
  "m_body (ack_row msg t rows) = Some []" "m_id (ack_row msg t rows) = next_id m_id rows"
  by (simp_all add: ack_row_def new_message_def)

definition ack_appended :: "nat \<Rightarrow> 'x db_scheme \<Rightarrow> 'x db_scheme \<Rightarrow> bool" where
  "ack_appended i s t \<longleftrightarrow> (\<exists>msg time. find_message i s = Some msg \<and> m_direction msg = Incoming
     \<and> db_messages t = db_messages s @ [ack_row msg time (db_messages s)])"

lemma queue_ack_messages:
  "wp (queue_attachment_ack i) (\<lambda>_ t. db_messages t = db_messages s \<or> ack_appended i s t)
     (\<lambda>_ t. db_messages t = db_messages s \<or> ack_appended i s t) s"
  unfolding queue_attachment_ack_def get_message_def get_by_logical_id_def get_chain_ref_def
  by (auto simp: wp_rules wp_insert_message Let_def set_chain_ref_def ack_appended_def ack_row_def bump_conversation_def
    find_by_logical_id_def split: option.splits prod.splits)

lemma ack_appended_same: "db_messages s' = db_messages s \<Longrightarrow> ack_appended i s' t = ack_appended i s t"
  by (simp add: ack_appended_def find_message_def)

lemma env_free_messages [simp]: "env_free (\<lambda>s. db_messages s = ms)"
  by (simp add: env_free_def)

lemma download_acks:
  fixes s :: "'w world"
  shows "wp (download_image_attachment M i m)
    (\<lambda>d t. ckb_hash (ms_blake2b M) (da_bytes d) = am_content_hash m \<and> (db_messages t = db_messages s \<or> ack_appended i s t))
    (\<lambda>_ t. db_messages t = db_messages s) s"
  unfolding download_image_attachment_def
proof (rule wp_kept_then [where I = "\<lambda>t. db_messages t = db_messages s"])
  fix key and t :: "'w world" assume t: "db_messages t = db_messages s"
  have acked: "wp (andthen (catching (queue_attachment_ack i) (\<lambda>_. ret ())) (\<lambda>_. ret d))
      (\<lambda>d t. ckb_hash (ms_blake2b M) (da_bytes d) = am_content_hash m \<and> (db_messages t = db_messages s \<or> ack_appended i s t))
      (\<lambda>_ t. db_messages t = db_messages s) u"
    if "ckb_hash (ms_blake2b M) (da_bytes d) = am_content_hash m" "db_messages u = db_messages s" for d and u :: "'w world"
  proof -
    have "wp (queue_attachment_ack i) (\<lambda>_ t. db_messages t = db_messages s \<or> ack_appended i s t)
        (\<lambda>_ t. db_messages t = db_messages s \<or> ack_appended i s t) u"
      using queue_ack_messages [of i u] by (simp only: that(2) ack_appended_same [OF that(2)])
    then show ?thesis unfolding wp_andthen wp_catching wp_ret by (rule wp_mono) (use that(1) in simp_all)
  qed
  let ?L = "download_attachment (ms_blake2b M) (ms_suite M) (live_data (ms_client M)) m key"
  have "keeps (\<lambda>t. db_messages t = db_messages s) ?L" by (rule download_keeps) simp
  then have "wp ?L (\<lambda>_ t. db_messages t = db_messages s) (\<lambda>_ t. db_messages t = db_messages s) t"
    using t by (simp add: keeps_wp)
  from wp_conj [OF download_checked this]
  show "wp (andthen (or_failure ?L) (\<lambda>d. andthen (catching (queue_attachment_ack i) (\<lambda>_. ret ())) (\<lambda>_. ret d)))
      (\<lambda>d t. ckb_hash (ms_blake2b M) (da_bytes d) = am_content_hash m \<and> (db_messages t = db_messages s \<or> ack_appended i s t))
      (\<lambda>_ t. db_messages t = db_messages s) t"
    unfolding wp_andthen [of "or_failure ?L"] wp_or_failure by (rule wp_mono) (auto intro: acked)
qed (auto intro: key_keeps)

lemma new_message_id: "m_id (new_message inp t rows) = next_id m_id rows"
  by (simp add: new_message_def)

text \<open>When it is queued: the message is a received one with a known cell and has no confirmation yet.\<close>

lemma ack_is_queued:
  assumes "find_message i s = Some msg" and "m_direction msg = Incoming"
    and "find_by_logical_id (''ack-attachment:'' @ m_logical_id msg) s = None"
    and "chain_ref_pair (find_chain_ref i s) = Some (h, n)" and "list_ex (\<lambda>c. cv_id c = m_conversation_id msg) (db_conversations s)"
  shows "\<exists>t. queue_attachment_ack i s = (Inr (), t) \<and> db_messages t = db_messages s @ [ack_row msg (db_clock s) (db_messages s)]
    \<and> find_chain_ref (next_id m_id (db_messages s)) t = Some \<lparr>cr_message_id = next_id m_id (db_messages s), cr_tx_hash = None,
        cr_outpoint_index = None, cr_reply_tx_hash = Some h, cr_reply_outpoint_index = Some n\<rparr>"
proof -
  have "wp (queue_attachment_ack i) (\<lambda>_ t. db_messages t = db_messages s @ [ack_row msg (db_clock s) (db_messages s)]
    \<and> find_chain_ref (next_id m_id (db_messages s)) t = Some \<lparr>cr_message_id = next_id m_id (db_messages s), cr_tx_hash = None,
        cr_outpoint_index = None, cr_reply_tx_hash = Some h, cr_reply_outpoint_index = Some n\<rparr>) (\<lambda>_ _. False) s"
    unfolding queue_attachment_ack_def get_message_def get_by_logical_id_def get_chain_ref_def
    using assms
    by (simp add: wp_rules wp_insert_message Let_def set_chain_ref_def ack_row_def find_chain_ref_def find_upsert
      new_message_id)
  then show ?thesis by (auto simp: wp_def split: prod.splits sum.splits)
qed

text \<open>It is shown in its conversation, unlike the other confirmations.\<close>

lemma ack_is_shown: "shown (ack_row msg t rows)"
  by (simp add: shown_def like_prefix_def ascii_lower_def)

subsection \<open>Route tags\<close>

text \<open>The cached tags are those that discovery scans, now and until the end of the next epoch.\<close>

lemma cached_tags_run:
  assumes "my_profile_id M s = (Inr (Some hex), s)" and "ms_bytes_from M (''0x'' @ hex) = Inr pid"
  shows "route_tags_hex M s = (Inr (map (\<lambda>e. bytes_to_hex (derive_route_tag (ms_blake2b M) pid e))
    [current_routing_epoch (db_clock s) - 1, current_routing_epoch (db_clock s), current_routing_epoch (db_clock s) + 1]), s)"
  using assms by (simp add: route_tags_hex_def andthen_def ret_def lift_result_def now_def asks_def Let_def)

lemma scanned_are_cached:
  assumes "current_routing_epoch t' \<in> {current_routing_epoch t, current_routing_epoch t + 1}"
  shows "set (map bytes_to_hex (scanned_tags b pid t')) \<subseteq> set (map (\<lambda>e. bytes_to_hex (derive_route_tag b pid e))
    [current_routing_epoch t - 1, current_routing_epoch t, current_routing_epoch t + 1])"
  using assms by (auto simp: scanned_tags_def Let_def)

subsection \<open>The own card\<close>

lemma active_profile_read: "my_profile_id M s = (Inr (map_option sp_profile_id (List.find
     (\<lambda>r. sp_account_id r = ms_account M \<and> sp_state r = ProfileActive) (rev (db_profiles s)))), s)"
  by (simp add: my_profile_id_def get_active_by_account_def andthen_def asks_def ret_def)

lemma fingerprint_shape:
  assumes "\<forall>n p x. length (b n p x) = n" and "format_fingerprint b f = Inr t"
  shows "parse_fingerprint t = Inr t"
proof -
  define bs where "bs = b fingerprint_length (text_encode fingerprint_personal)
    (fp_profile_id f @ fp_ml_dsa_public_key f @ fp_ml_kem_public_key f)"
  have "length (bytes_to_hex bs) = 32" using assms(1) by (simp add: bs_def fingerprint_length_def)
  moreover have "list_all is_hex (bytes_to_hex bs)"
    using bytes_to_hex_lower [of bs] by (auto simp: list_all_iff lower_hex_is_hex)
  moreover have "t = join_with ''-'' (map to_upper (chunks 4 (bytes_to_hex bs)))"
    using assms(2) by (auto simp: format_fingerprint_def fingerprint_bytes_def bs_def to_upper_join split: if_splits)
  ultimately show ?thesis using parse_canonical by blast
qed

lemma normalized_prefix:
  assumes "list_all is_lower_hex hex"
  shows "normalize_profile_id hex = normalize_profile_id (''0x'' @ hex)"
proof -
  have "list_all (\<lambda>c. ascii_lower c = c \<and> c \<noteq> CHR ''x'') hex_digits"
    by (simp add: hex_digits_def ascii_lower_def)
  then have low: "ascii_lower c = c" "c \<noteq> CHR ''x''" if "c \<in> set hex" for c
    using that assms by (auto simp: list_all_iff is_lower_hex_def)
  then have low_hex: "map ascii_lower hex = hex" by (simp add: map_idI)
  have no_prefix: "\<not> starts_with hex ''0x''"
  proof
    assume "starts_with hex ''0x''"
    then have "take 2 hex = ''0x''" by (simp add: starts_with_def numeral_2_eq_2)
    then have "CHR ''x'' \<in> set hex" using set_take_subset [of 2 hex] by auto
    with low(2) show False by blast
  qed
  have "map ascii_lower (''0x'' @ hex) = ''0x'' @ hex" using low_hex by (simp add: ascii_lower_def)
  then show ?thesis using no_prefix low_hex by (simp add: normalize_profile_id_def starts_with_def Let_def)
qed

lemma own_card_ok:
  assumes "my_contact_bundle M s = (Inr (Some c), t)" and "\<forall>n p x. length (ms_blake2b M n p x) = n"
    and "lower_hash32 (ms_lock_hash M)" and "lower_hash32 (cb_profile_type_id c)"
    and "take 4 (ms_address M) = points ''ckt1''" and "utf16_length (ms_address M) \<le> 128"
  shows "bundle_ok ckb_testnet c \<and> cb_address c = ms_address M
    \<and> (\<exists>hex. my_profile_id M s = (Inr (Some hex), s) \<and> cb_profile_type_id c = ''0x'' @ hex)"
proof -
  obtain hex where hex: "my_profile_id M s = (Inr (Some hex), s)"
    using assms(1) active_profile_read [of M s] by (auto simp: my_contact_bundle_def andthen_def ret_def split: option.splits)
  then obtain f where f: "format_fingerprint (ms_blake2b M) f = Inr (cb_fingerprint c)"
      and c: "cb_profile_type_id c = ''0x'' @ hex" "cb_lock_script_hash c = ms_lock_hash M" "cb_address c = ms_address M"
        "cb_network c = points ckb_testnet"
    using assms(1)
    by (auto simp: my_contact_bundle_def my_fingerprint_def andthen_def ret_def throw_def lift_result_def map_error_def sum_bind_def
      split: sum.splits prod.splits option.splits)
  have "0 < utf16_length (ms_address M)"
    using assms(5) by (cases "ms_address M") (auto simp: utf16_length_def points_def)
  then show ?thesis
    using assms c hex fingerprint_shape [OF assms(2) f] by (simp add: bundle_ok_def)
qed

subsection \<open>The own profile\<close>

lemma committed_profile:
  fixes s :: "'w world"
  shows "wp (profile_committed M args h) (\<lambda>_ t. my_profile_id M t = (Inr (Some (drop 2 args)), t)
     \<and> (\<exists>r. find_tx h t = Some r \<and> tx_state r = ''committed'')) (\<lambda>_ _. True) s"
proof -
  have tail: "wp (andthen (mark_tx_state h ''committed'' (Some time) None) (\<lambda>_.
     andthen (create_profile \<lparr>np_account_id = ms_account M, np_profile_id = drop 2 args, np_type_id = Some args,
       np_tx_hash = Some h, np_outpoint_index = Some 0, np_previous = None, np_state = Some ProfileActive\<rparr>) (\<lambda>_. ret ())))
     (\<lambda>_ t. my_profile_id M t = (Inr (Some (drop 2 args)), t)
       \<and> (\<exists>r. find_tx h t = Some r \<and> tx_state r = ''committed'')) (\<lambda>_ _. True) u" for time and u :: "'w world"
  proof -
    have row: "\<exists>r. find_tx h (u\<lparr>db_txs := update_where (\<lambda>r. tx_hash r = h) (tx_patch ''committed'' (Some time) None) (db_txs u)\<rparr>) = Some r
        \<and> tx_state r = ''committed''" if "changes (\<lambda>r. tx_hash r = h) (db_txs u) \<noteq> 0"
    proof -
      have "List.find (\<lambda>r. tx_hash r = h) (db_txs u) \<noteq> None"
        using that by (simp add: changes_def find_None_filter)
      then obtain r where "List.find (\<lambda>r. tx_hash r = h) (db_txs u) = Some r" by blast
      moreover from find_some_mem [OF this] have "tx_hash r = h" by simp
      ultimately show ?thesis by (simp add: find_tx_def find_update_where)
    qed
    show ?thesis
      using row unfolding mark_tx_state_def update_txs_def create_profile_def
      by (auto simp: wp_rules active_profile_read new_profile_def find_tx_def)
  qed
  show ?thesis
    unfolding profile_committed_def wp_andthen [of "wait_for_commit _ _ _"] wp_andthen [of now]
    by (rule wp_mono [OF wp_true], rule wp_mono [OF wp_true], rule tail) simp_all
qed

subsection \<open>The journal rule\<close>

definition honest_messaging ::
  "('w, 'a, 'b, 'c, 'tx, 'img) messaging \<Rightarrow> ('tx \<Rightarrow> string) \<Rightarrow> ('w \<Rightarrow> 'tx set) \<Rightarrow> bool" where
  "honest_messaging M txhash sent \<longleftrightarrow> honest_publisher (ms_publisher M) txhash sent \<and> honest_attach (ms_attach M) txhash sent
     \<and> ac_client (ms_attach M) = pd_client (ms_publisher M) \<and> (\<forall>p. silent sent (ms_build_profile M p))
     \<and> silent sent (ms_release M) \<and> silent sent (ms_draws M)
     \<and> (\<forall>p. silent sent (env_call_of (resolve_recipient (ms_profile_codec M) (ms_script_hash M) (ms_client M) p)))
     \<and> (\<forall>G. ms_codec M = Some G \<longrightarrow> (\<forall>b. silent sent (ig_decode G b)) \<and> (\<forall>img x y. silent sent (ig_resize G img x y))
         \<and> (\<forall>img f q. silent sent (ig_encode G img f q)))"

lemma rows_keep_journal_env: "keeps_journal_env (create_profile np)" "keeps_journal_env (create_attachment inp)"
  by (auto simp: create_profile_def create_attachment_def intro!: keeps_rules)

lemma record_tx_then: "andthen (record_tx inp) (\<lambda>_. m) = andthen (record_outgoing_tx inp) (\<lambda>_. m)"
  by (auto simp: record_outgoing_tx_def andthen_def ret_def fun_eq_iff split: prod.splits sum.splits)

lemma mark_is_store_mark: "mark_tx_state h st c None = mark_outgoing_tx_state h st c"
  by (simp add: mark_outgoing_tx_state_def)

lemma profile_journaled:
  assumes M: "honest_messaging M txhash sent"
  shows "keeps (all_journaled (pd_client (ms_publisher M)) txhash sent) (publish_my_profile M handle)"
proof -
  let ?I = "all_journaled (pd_client (ms_publisher M)) txhash sent"
  have d: "honest_attach (ms_attach M) txhash sent" and client: "ac_client (ms_attach M) = pd_client (ms_publisher M)"
    and quiet: "\<And>p. silent sent (ms_build_profile M p)" "\<And>b. silent sent (ac_sign (ms_attach M) b)"
    and log: "logs_sends (pd_client (ms_publisher M)) sent" and hash: "\<And>b. ac_hash (ms_attach M) b = txhash (ac_wire (ms_attach M) b)"
    using M by (auto simp: honest_messaging_def honest_attach_def)
  have rest: "keeps ?I (profile_committed M args h)" for args h
    unfolding profile_committed_def mark_is_store_mark client
    by (intro keeps_andthen keeps_now keeps_ret keeps_wait_journaled [OF log] store_keeps_all_journaled
      rows_keep_journal_env [THEN keeps_all_journaled])
  have send: "keeps ?I (andthen (record_outgoing_tx (profile_tx_input M b b' t))
      (\<lambda>_. andthen (on_env (cl_send_transaction (pd_client (ms_publisher M)) (ac_wire (ms_attach M) b'))) f))"
    if "\<And>a. keeps ?I (f a)" for b b' t f
    by (rule keeps_record_send [OF log _ _ that]) (simp_all add: profile_tx_input_def Let_def hash client)
  show ?thesis
    unfolding publish_my_profile_def Let_def record_tx_then client
    using quiet silent_calls(3) [OF log]
    by (intro keeps_andthen keeps_option keeps_ret keeps_lift_result keeps_now profile_reads_keep keeps_silent send keeps_if
      keeps_throw rest) auto
qed

lemma image_message_journaled:
  assumes M: "honest_messaging M txhash sent" and G: "codec_keeps (all_journaled (pd_client (ms_publisher M)) txhash sent) G"
  shows "keeps (all_journaled (pd_client (ms_publisher M)) txhash sent)
    (publish_image_message b S G (ms_attach M) (ms_publisher M) sender D i)"
proof -
  have d: "honest_attach (ms_attach M) txhash sent" and p: "honest_publisher (ms_publisher M) txhash sent"
    and client: "ac_client (ms_attach M) = pd_client (ms_publisher M)"
    using M by (auto simp: honest_messaging_def)
  note chunks = attachments_keep_journaled(1) [OF d, unfolded client]
  show ?thesis
    unfolding publish_image_message_def
    by (auto intro!: keeps_andthen keeps_catching keeps_throw keeps_ret keeps_lift_result keeps_option chunks prepare_keeps [OF G]
      publish_text_journaled [OF p])
qed

lemma image_journaled:
  assumes M: "honest_messaging M txhash sent"
  shows "keeps (all_journaled (pd_client (ms_publisher M)) txhash sent) (publish_image M q)"
proof -
  let ?I = "all_journaled (pd_client (ms_publisher M)) txhash sent"
  have p: "honest_publisher (ms_publisher M) txhash sent" and release: "silent sent (ms_release M)" and draws: "silent sent (ms_draws M)"
    and resolve: "\<And>p. silent sent (env_call_of (resolve_recipient (ms_profile_codec M) (ms_script_hash M) (ms_client M) p))"
    using M by (auto simp: honest_messaging_def)
  have fresh: "keeps ?I (send_fresh_image M G q)" if "ms_codec M = Some G" for G
  proof -
    have G: "codec_keeps ?I G"
      using M that by (auto simp: honest_messaging_def codec_keeps_def intro!: keeps_silent)
    have "keeps ?I (sd_publish (image_send_deps_of M G a sender) i)" for a sender i
      unfolding image_send_deps_of_def using draws
      by (auto intro!: keeps_andthen keeps_or_failure keeps_silent image_message_journaled [OF M G])
    then have "keeps ?I (run_image_send b c (image_send_deps_of M G a sender) i)" for b c a sender i
      unfolding run_image_send_def send_prepared_def
      by (auto intro!: keeps_andthen keeps_or_failure keeps_catching keeps_throw keeps_if keeps_ret keeps_lift_result
        rows_keep_journal_env [THEN keeps_all_journaled] prepare_keeps)
        (simp add: image_send_deps_of_def G)
    then show ?thesis
      unfolding send_fresh_image_def
      by (auto intro!: keeps_andthen keeps_or_failure keeps_silent resolve balance_read_keeps profile_reads_keep keeps_ret)
  qed
  have "keeps ?I (resume_image M q)"
    unfolding resume_image_def by (intro keeps_andthen keeps_catching keeps_throw keeps_ret publish_text_journaled [OF p])
  then show ?thesis
    unfolding publish_image_def find_latest_by_purpose_def
    by (auto intro!: keeps_andthen keeps_or_failure keeps_asks keeps_if keeps_throw keeps_finally fresh keeps_silent release
      split: option.splits)
qed

lemma message_journaled:
  assumes "honest_messaging M txhash sent"
  shows "keeps (all_journaled (pd_client (ms_publisher M)) txhash sent) (publish_message M row logical text recipient)"
  using assms unfolding publish_message_def honest_messaging_def
  by (auto intro!: keeps_andthen keeps_ret publish_text_journaled)

subsection \<open>A resumed image\<close>

lemma keeps_update_txs_attachments: "keeps (\<lambda>s. db_attachments s = A) (update_txs p f)"
  by (auto simp: update_txs_def intro!: keeps_rules)

lemma store_keeps_attachments:
  "keeps (\<lambda>s. db_attachments s = A) (transition_message i st)" "keeps (\<lambda>s. db_attachments s = A) (get_message_state i)"
  "keeps (\<lambda>s. db_attachments s = A) (set_message_chain_ref i h n)" "keeps (\<lambda>s. db_attachments s = A) (record_outgoing_tx inp)"
  "keeps (\<lambda>s. db_attachments s = A) (mark_outgoing_tx_state h x c)" "keeps (\<lambda>s. db_attachments s = A) (find_outgoing_tx_by_purpose p)"
  "keeps (\<lambda>s. db_attachments s = A) (store_reserve_capacity lc a)" "keeps (\<lambda>s. db_attachments s = A) (set_envelope_message_id i h)"
  by (auto simp: store_defs transition_state_def set_state_def get_message_def set_chain_ref_def set_envelope_message_id_def
      mark_tx_state_def find_latest_by_purpose_def record_tx_def reserve_capacity_def move_capacity_def get_balance_def
      update_balance_def require_lifecycle_def Let_def intro!: keeps_rules keeps_update_txs_attachments split: option.splits)

lemma publication_keeps_attachments: "keeps (\<lambda>s. db_attachments s = A) (publish_text d inp)"
proof -
  have [simp]: "env_free (\<lambda>s. db_attachments s = A)" by (simp add: env_free_def)
  have walk: "keeps (\<lambda>s. db_attachments s = A) (walk_to_state i st)" for i st
    by (auto simp: walk_to_state_def Let_def split: option.splits intro!: keeps_rules store_keeps_attachments)
  show ?thesis
    by (auto simp: publish_text_def publish_body_def publish_send_def publish_monitor_def find_resumable_def Let_def
      split: option.splits prod.splits resume_outcome.splits failure.splits
      intro!: keeps_rules keeps_tagged keeps_lift_result store_keeps_attachments walk)
qed

section \<open>Properties\<close>

text \<open>
  C3. The service keeps the journal rule: whatever publishing the profile, a message or an image does, and
  however it fails, every transaction that was handed to the network has a row in the journal.
\<close>

theorem messaging_journals_before_sending:
  assumes "honest_messaging M txhash sent" and "all_journaled (pd_client (ms_publisher M)) txhash sent s"
  shows "all_journaled (pd_client (ms_publisher M)) txhash sent (snd (publish_my_profile M handle s))
    \<and> all_journaled (pd_client (ms_publisher M)) txhash sent (snd (publish_message M row logical text recipient s))
    \<and> all_journaled (pd_client (ms_publisher M)) txhash sent (snd (publish_image M q s))"
  using profile_journaled [OF assms(1), THEN keepsD, OF assms(2)] message_journaled [OF assms(1), THEN keepsD, OF assms(2)]
    image_journaled [OF assms(1), THEN keepsD, OF assms(2)] by blast

definition sample_messaging :: "(string list, string, string, string, string, string) messaging" where
  "sample_messaging = \<lparr>ms_publisher = wd_publisher sample_workers\<lparr>pd_client := sample_publisher_client\<rparr>,
     ms_attach = sample_attach\<lparr>ac_client := sample_publisher_client\<rparr>,
     ms_client = \<lparr>cc_endpoints = \<lparr>ep_rpc = [], ep_indexer = []\<rparr>, cc_transport = (\<lambda>_ _ _ w. (Inl (OtherError ''offline''), w, 1))\<rparr>,
     ms_build_profile = (\<lambda>p w. (Inr ''0xcf'', w, 1)), ms_type_args = (\<lambda>_. ''0x'' @ replicate 64 (CHR ''7'')),
     ms_lock_hash = ''0x'' @ replicate 64 (CHR ''2''), ms_address = points ''ckt1q'',
     ms_keys = \<lparr>ik_dsa = ([1], [2]), ik_kem = ([3], [4]), ik_database = [5]\<rparr>, ms_account = 1, ms_wallet = 1,
     ms_codec = Some \<lparr>ig_decode = (\<lambda>b w. (Inr [], w, 1)), ig_resize = (\<lambda>img x y w. (Inr img, w, 1)),
       ig_encode = (\<lambda>img f q w. (Inr [1], w, 1)), ig_width = (\<lambda>_. 10), ig_height = (\<lambda>_. 10)\<rparr>,
     ms_release = (\<lambda>w. (Inr (), w, 1)),
     ms_draws = (\<lambda>w. (Inr \<lparr>iw_kem_message = [], iw_nonce = [], iw_attachment_id = [], iw_attachment_nonce = [], iw_reclaim_group = []\<rparr>, w, 0)),
     ms_bytes_from = (\<lambda>h. Inr (hex_pairs (drop 2 h))), ms_blake2b = (\<lambda>n p x. replicate n 0), ms_suite = sample_suite,
     ms_wire = sample_wire, ms_profile_codec = example_codec, ms_script_hash = (\<lambda>_. [])\<rparr>"

definition sample_request :: "string \<Rightarrow> image_request" where
  "sample_request logical = \<lparr>ir_row_id = 1, ir_logical_id = logical, ir_recipient_hex = replicate 64 (CHR ''7''), ir_source = [],
     ir_caption = None, ir_format = None, ir_timeout = None\<rparr>"

lemma offline_silent:
  "silent sent (env_call_of (resolve_recipient (ms_profile_codec sample_messaging) (ms_script_hash sample_messaging)
     (ms_client sample_messaging) p))"
  unfolding silent_def env_call_of_def
  by (auto simp: resolve_recipient_def resolve_live_profile_def find_cells_def sample_messaging_def andthen_def lift_result_def
    ret_def throw_def call_indexer_def request_def split: sum.splits prod.splits)

lemma sample_messaging_honest: "honest_messaging sample_messaging (\<lambda>tx. tx) set"
  using offline_silent [of set]
  by (auto simp: honest_messaging_def honest_publisher_def honest_attach_def logs_sends_def silent_def sample_workers_def
    sample_messaging_def sample_attach_def sample_publisher_client_def)

theorem messaging_journals_witness:
  "all_journaled sample_publisher_client (\<lambda>tx. tx) set (snd (publish_my_profile sample_messaging [65] published_world))"
proof -
  have "all_journaled (pd_client (ms_publisher sample_messaging)) (\<lambda>tx. tx) set published_world"
    by (auto simp: all_journaled_def journal_keys_def sample_messaging_def sample_defs)
  from messaging_journals_before_sending [OF sample_messaging_honest this] show ?thesis
    by (simp add: sample_messaging_def)
qed

text \<open>
  An image that the wallet cannot pay for leaves no trace: with less available than one chunk, one
  message cell and the fee reserve are estimated to cost, a send that is not a retry fails, whatever
  codec, node and random values do, and the database is as before.
\<close>

theorem unaffordable_image_leaves_no_trace:
  assumes "find_balance (ms_wallet M) s = Some b" and "wb_available b < int least_image_cost"
    and "\<not> in_flight (latest_tx (\<lambda>r. tx_purpose r = ''message:'' @ ir_logical_id q) s)"
  shows "\<exists>e t. publish_image M q s = (Inl e, t) \<and> db_only t = db_only s"
  using image_refused [OF assms] by (auto simp: wp_def split: prod.splits sum.splits)

theorem unaffordable_image_witness:
  "\<exists>e t. publish_image sample_messaging (sample_request ''b'') published_world = (Inl e, t) \<and> db_only t = db_only published_world"
proof (rule unaffordable_image_leaves_no_trace)
  show "find_balance (ms_wallet sample_messaging) published_world = Some reserved_sample"
    by (simp add: find_balance_def sample_messaging_def sample_defs)
  show "wb_available reserved_sample < int least_image_cost"
    by (simp add: least_image_cost_def estimate_image_send_shannon_def conservative_per_chunk_shannon_def
      conservative_message_cell_shannon_def send_fee_reserve_shannons_def attachment_chunk_bytes_def shannon_per_ckb_def
      reserved_sample_def)
  show "\<not> in_flight (latest_tx (\<lambda>r. tx_purpose r = ''message:'' @ ir_logical_id (sample_request ''b'')) published_world)"
    by (simp add: in_flight_def latest_tx_def sample_request_def sample_defs)
qed

text \<open>
  C27. A retried image has no attachment: a send whose message transaction is already journaled as submitted
  or committed publishes under the id of the message with the caption as plain content and never
  touches the attachments, so when the first attempt ended before it stored the attachment row, no
  retry stores it, however it ends.
\<close>

theorem retried_image_has_no_attachment:
  assumes "latest_tx (\<lambda>r. tx_purpose r = ''message:'' @ ir_logical_id q) s = Some j"
    and "tx_state j = ''submitted'' \<or> tx_state j = ''committed''"
  shows "publish_image M q s = resume_image M q s \<and> db_attachments (snd (publish_image M q s)) = db_attachments s"
proof -
  have run: "publish_image M q s = resume_image M q s"
    using assms by (simp add: publish_image_def find_latest_by_purpose_def or_failure_def andthen_def catching_def asks_def in_flight_def)
  have "keeps (\<lambda>t. db_attachments t = db_attachments s) (resume_image M q)"
    unfolding resume_image_def by (intro keeps_andthen keeps_catching keeps_throw keeps_ret publication_keeps_attachments)
  then show ?thesis using run by (simp add: keeps_def)
qed

lemma sample_resume:
  "\<exists>t. resume_image sample_messaging (sample_request ''a'') published_world = (Inr ''0xab'', t)"
  by (simp add: resume_image_def publish_text_def publish_body_def find_resumable_def find_outgoing_tx_by_purpose_def
      find_latest_by_purpose_def latest_tx_def resume_journaled_broadcast_def on_env_def tagged_def
      walk_to_state_def get_message_state_def get_message_def find_message_def outgoing_publish_path_def
      publish_monitor_def wait_for_commit_def poll_commit_def mark_outgoing_tx_state_def mark_tx_state_def
      update_txs_def set_message_chain_ref_def set_chain_ref_def references_def store_reserve_capacity_def
      require_lifecycle_def reserve_capacity_def move_capacity_def get_balance_def find_balance_def
      demand_def update_balance_def changes_def now_def prog_defs sample_defs Let_def sample_messaging_def sample_request_def
      sample_workers_def)

theorem retried_image_witness:
  "\<exists>t. publish_image sample_messaging (sample_request ''a'') published_world = (Inr ''0xab'', t) \<and> db_attachments t = []"
proof -
  have "latest_tx (\<lambda>r. tx_purpose r = ''message:'' @ ir_logical_id (sample_request ''a'')) published_world = Some journaled_sample"
    by (simp add: latest_tx_def sample_request_def sample_defs)
  from retried_image_has_no_attachment [OF this, of sample_messaging] sample_resume show ?thesis
    by (auto simp: sample_defs)
qed

text \<open>
  C26. A confirmation means that the image is there: when a download adds a message, the download succeeded
  with bytes whose hash is the one of the manifest, the message the image came with is a received one, and
  what was added is the one confirmation of that message, queued for its conversation under the prefix
  that the worker sends as a download receipt; a download that fails adds nothing.
\<close>

theorem attachment_ack_means_downloaded:
  "db_messages (snd (download_image_attachment M i m s)) = db_messages s
    \<or> (\<exists>d msg row. fst (download_image_attachment M i m s) = Inr d \<and> ckb_hash (ms_blake2b M) (da_bytes d) = am_content_hash m
        \<and> find_message i s = Some msg \<and> m_direction msg = Incoming
        \<and> db_messages (snd (download_image_attachment M i m s)) = db_messages s @ [row]
        \<and> m_logical_id row = ''ack-attachment:'' @ m_logical_id msg \<and> receipt_kind_of (m_logical_id row) = Some (''ack-attachment:'', 5)
        \<and> m_direction row = Outgoing \<and> m_state row = Queued \<and> m_conversation_id row = m_conversation_id msg)"
proof (cases "download_image_attachment M i m s")
  case (Pair r t)
  have kind: "receipt_kind_of (''ack-attachment:'' @ x) = Some (''ack-attachment:'', 5)" for x
    by (simp add: receipt_kind_of_def receipt_kinds_def starts_with_def)
  show ?thesis
  proof (cases r)
    case (Inl e)
    with wp_error [OF download_acks, of M i m s e t] Pair show ?thesis by simp
  next
    case (Inr d)
    then have hash: "ckb_hash (ms_blake2b M) (da_bytes d) = am_content_hash m"
        and "db_messages t = db_messages s \<or> ack_appended i s t"
      using wp_result [OF download_acks, of M i m s d t] Pair by simp_all
    then consider "db_messages t = db_messages s" | msg time where "find_message i s = Some msg" "m_direction msg = Incoming"
        "db_messages t = db_messages s @ [ack_row msg time (db_messages s)]"
      by (auto simp: ack_appended_def)
    then show ?thesis
    proof cases
      case 2
      then show ?thesis using Pair Inr hash kind by (intro disjI2 exI [of _ d] exI [of _ msg] exI [of _ "ack_row msg time (db_messages s)"]) simp
    qed (simp add: Pair)
  qed
qed


text \<open>
  The cached route tags are enough for a locked device: they are the tags that discovery scans at any time
  up to the end of the routing epoch after the one in which they were cached.
\<close>

theorem cached_tags_cover_discovery:
  assumes "my_profile_id M s = (Inr (Some hex), s)" and "ms_bytes_from M (''0x'' @ hex) = Inr pid"
    and "current_routing_epoch t \<in> {current_routing_epoch (db_clock s), current_routing_epoch (db_clock s) + 1}"
  shows "\<exists>tags. route_tags_hex M s = (Inr tags, s) \<and> set (map bytes_to_hex (scanned_tags (ms_blake2b M) pid t)) \<subseteq> set tags"
  using cached_tags_run [OF assms(1,2)] scanned_are_cached [OF assms(3), of "ms_blake2b M" pid] by blast

text \<open>
  C15. A published profile is the active one: when the service reports a freshly published profile, that profile is
  the one it answers with from then on, the journal has its transaction as committed, and publishing again
  returns it without doing anything.
\<close>

theorem published_profile_is_active:
  fixes s :: "'w world"
  assumes "my_profile_id M s = (Inr None, s)" and "publish_my_profile M handle s = (Inr (p, h), t)"
  shows "my_profile_id M t = (Inr (Some p), t) \<and> (\<exists>r. find_tx h t = Some r \<and> tx_state r = ''committed'')
    \<and> publish_my_profile M handle' t = (Inr (p, ''(already published)''), t)"
proof -
  let ?Q = "\<lambda>(p, h) t. my_profile_id M t = (Inr (Some p), t) \<and> (\<exists>r. find_tx h t = Some r \<and> tx_state r = ''committed'')"
  have finished: "wp (andthen (profile_committed M args h) (\<lambda>_. ret (drop 2 args, h))) ?Q (\<lambda>_ _. True) u" for args h and u :: "'w world"
    unfolding wp_andthen wp_ret by (rule wp_mono [OF committed_profile]) simp_all
  have fresh: "wp (my_profile_id M) (\<lambda>r u. r = None) (\<lambda>_ _. True) s" using assms(1) by (simp add: wp_def)
  have "wp (publish_my_profile M handle) ?Q (\<lambda>_ _. True) s"
    unfolding publish_my_profile_def Let_def wp_andthen [of "my_profile_id M"]
    by (rule wp_mono [OF fresh]) (auto intro!: wp_then finished simp: wp_throw)
  from wp_result [OF this assms(2)] have "?Q (p, h) t" .
  then show ?thesis by (simp add: publish_my_profile_def andthen_def ret_def Let_def)
qed

text \<open>A device that has published its profile.\<close>

definition sevens :: string where
  "sevens = replicate 64 (CHR ''7'')"

definition profile_world :: "string list world" where
  "profile_world = published_world\<lparr>db_accounts := [1], db_profiles := [\<lparr>sp_id = 1, sp_account_id = 1,
     sp_profile_id = sevens, sp_type_id = None, sp_tx_hash = None, sp_outpoint_index = None,
     sp_state = ProfileActive, sp_previous = None, sp_created_at = 0, sp_updated_at = 0\<rparr>]\<rparr>"

lemma profile_world_active: "my_profile_id sample_messaging profile_world = (Inr (Some sevens), profile_world)"
  by (simp add: active_profile_read profile_world_def sample_messaging_def)

theorem cached_tags_witness:
  "\<exists>tags. route_tags_hex sample_messaging profile_world = (Inr tags, profile_world)
     \<and> set (map bytes_to_hex (scanned_tags (ms_blake2b sample_messaging) (hex_pairs sevens) 2592000000)) \<subseteq> set tags"
  by (rule cached_tags_cover_discovery [OF profile_world_active])
    (simp_all add: sample_messaging_def profile_world_def current_routing_epoch_def sample_defs)

lemma sample_card:
  "\<exists>c. my_contact_bundle sample_messaging profile_world = (Inr (Some c), profile_world) \<and> cb_profile_type_id c = ''0x'' @ sevens"
proof -
  have len: "length (hex_pairs sevens) = 32" by code_simp
  have "ms_bytes_from sample_messaging (''0x'' @ sevens) = Inr (hex_pairs sevens)" by (simp add: sample_messaging_def)
  with len show ?thesis
    by (simp add: my_contact_bundle_def my_fingerprint_def andthen_def profile_world_active ret_def lift_result_def
      format_fingerprint_def fingerprint_bytes_def map_error_def sum_bind_def)
qed


lemma sample_profile_publication:
  "\<exists>p h t. publish_my_profile sample_messaging [65] (published_world\<lparr>db_accounts := [1]\<rparr>) = (Inr (p, h), t)"
  by (simp add: publish_my_profile_def active_profile_read Let_def prog_defs lift_result_def on_env_def now_def record_tx_def
    profile_tx_input_def insert_or_ignore_def find_tx_def new_tx_def demand_def profile_committed_def wait_for_commit_def
    poll_commit_def mark_tx_state_def update_txs_def changes_def create_profile_def find_profile_def references_def
    new_profile_def sample_messaging_def sample_attach_def sample_defs)

theorem published_profile_witness:
  "\<exists>p t. my_profile_id sample_messaging t = (Inr (Some p), t)
     \<and> publish_my_profile sample_messaging [66] t = (Inr (p, ''(already published)''), t)"
proof -
  obtain p h t where run: "publish_my_profile sample_messaging [65] (published_world\<lparr>db_accounts := [1]\<rparr>) = (Inr (p, h), t)"
    using sample_profile_publication by blast
  have "my_profile_id sample_messaging (published_world\<lparr>db_accounts := [1]\<rparr>) = (Inr None, published_world\<lparr>db_accounts := [1]\<rparr>)"
    by (simp add: active_profile_read sample_defs)
  from published_profile_is_active [OF this run] show ?thesis by blast
qed

end
