(* ===== verification/Cemp_Migrate.thy ===== *)
theory Cemp_Migrate
  imports Cemp_Db "HOL-Library.AList"
begin

text \<open>
  packages/cemp-database/src/migrate.ts: the ordered list of schema migrations and the runner that applies
  the pending ones, each in a transaction of its own. A statement of the schema is its kind with its
  table, columns and constraints as the SQL has them; a description is in ASCII. The schema of a
  database is its tables with the names of their columns and its indexes, and executing a statement
  fails as SQLite does: a table, column or index that exists, a table or column that does not, or rows
  that a unique index does not allow.
\<close>

section \<open>Statements\<close>

datatype sql =
    Create_Table string "string list" "string list"
  | Add_Column string string
  | Create_Index bool string string "string list"

record migration =
  mg_version :: nat
  mg_description :: string
  mg_statements :: "sql list"

definition quoted :: "string \<Rightarrow> string" where
  "quoted t = CHR 0x27 # t @ [CHR 0x27]"

definition schema_v1_statements :: "sql list" where
  "schema_v1_statements = [
     Create_Table ''wallets''
       [''id INTEGER PRIMARY KEY'', ''name TEXT NOT NULL'', ''created_at_ms INTEGER NOT NULL''] [],
     Create_Table ''wallet_balances''
       [''wallet_id INTEGER PRIMARY KEY REFERENCES wallets(id)'', ''total_shannon TEXT NOT NULL'',
        ''available_shannon TEXT NOT NULL'', ''reserved_shannon TEXT NOT NULL'',
        ''reclaimable_shannon TEXT NOT NULL'', ''pending_shannon TEXT NOT NULL'',
        ''updated_at_ms INTEGER NOT NULL''] [],
     Create_Table ''accounts''
       [''id INTEGER PRIMARY KEY'', ''wallet_id INTEGER NOT NULL REFERENCES wallets(id)'',
        ''label TEXT NOT NULL'', ''network TEXT NOT NULL'', ''created_at_ms INTEGER NOT NULL''] [],
     Create_Table ''profiles''
       [''id INTEGER PRIMARY KEY'', ''account_id INTEGER NOT NULL REFERENCES accounts(id)'',
        ''profile_id_hex TEXT NOT NULL UNIQUE'', ''type_id_hex TEXT'', ''outpoint_tx_hash TEXT'',
        ''outpoint_index INTEGER'', ''state TEXT NOT NULL'', ''created_at_ms INTEGER NOT NULL'',
        ''updated_at_ms INTEGER NOT NULL''] [],
     Create_Table ''contacts''
       [''id INTEGER PRIMARY KEY'', ''display_name TEXT NOT NULL'',
        ''notes TEXT NOT NULL DEFAULT '' @ quoted [], ''avatar BLOB'', ''profile_id_hex TEXT UNIQUE'',
        ''created_at_ms INTEGER NOT NULL'', ''updated_at_ms INTEGER NOT NULL''] [],
     Create_Table ''conversations''
       [''id INTEGER PRIMARY KEY'', ''contact_id INTEGER NOT NULL UNIQUE REFERENCES contacts(id)'',
        ''created_at_ms INTEGER NOT NULL'', ''last_activity_at_ms INTEGER NOT NULL''] [],
     Create_Table ''messages''
       [''id INTEGER PRIMARY KEY'', ''conversation_id INTEGER NOT NULL REFERENCES conversations(id)'',
        ''direction TEXT NOT NULL CHECK (direction IN ('' @ quoted ''outgoing'' @ '', '' @ quoted ''incoming'' @ ''))'',
        ''state TEXT NOT NULL'', ''body TEXT'', ''logical_message_id TEXT NOT NULL UNIQUE'',
        ''created_at_ms INTEGER NOT NULL'', ''updated_at_ms INTEGER NOT NULL''] [],
     Create_Index False ''messages_conversation_id_id'' ''messages'' [''conversation_id'', ''id''],
     Create_Index False ''messages_state'' ''messages'' [''state''],
     Create_Table ''message_chain_refs''
       [''id INTEGER PRIMARY KEY'', ''message_id INTEGER NOT NULL UNIQUE REFERENCES messages(id)'',
        ''tx_hash TEXT'', ''outpoint_index INTEGER'', ''reply_to_tx_hash TEXT'',
        ''reply_to_outpoint_index INTEGER''] [],
     Create_Table ''attachments''
       [''id INTEGER PRIMARY KEY'', ''message_id INTEGER NOT NULL REFERENCES messages(id)'',
        ''kind TEXT NOT NULL'', ''byte_length INTEGER NOT NULL'', ''state TEXT NOT NULL'', ''manifest BLOB'',
        ''created_at_ms INTEGER NOT NULL''] [],
     Create_Table ''attachment_chunks''
       [''id INTEGER PRIMARY KEY'', ''attachment_id INTEGER NOT NULL REFERENCES attachments(id)'',
        ''chunk_index INTEGER NOT NULL'', ''outpoint_tx_hash TEXT'', ''outpoint_index INTEGER'',
        ''state TEXT NOT NULL''] [''UNIQUE (attachment_id, chunk_index)''],
     Create_Table ''receipts''
       [''id INTEGER PRIMARY KEY'', ''message_id INTEGER NOT NULL REFERENCES messages(id)'',
        ''receipt_type INTEGER NOT NULL'', ''tx_hash TEXT'', ''state TEXT NOT NULL'',
        ''created_at_ms INTEGER NOT NULL''] [],
     Create_Table ''outgoing_transactions''
       [''id INTEGER PRIMARY KEY'', ''tx_hash TEXT NOT NULL UNIQUE'', ''purpose TEXT NOT NULL'',
        ''state TEXT NOT NULL'', ''fee_shannon TEXT'', ''submitted_at_ms INTEGER'', ''committed_at_ms INTEGER'',
        ''block_hash TEXT''] [],
     Create_Table ''reclaim_groups''
       [''id INTEGER PRIMARY KEY'', ''state TEXT NOT NULL'', ''created_at_ms INTEGER NOT NULL''] [],
     Create_Table ''watched_outpoints''
       [''id INTEGER PRIMARY KEY'', ''tx_hash TEXT NOT NULL'', ''outpoint_index INTEGER NOT NULL'',
        ''purpose TEXT NOT NULL'', ''status TEXT NOT NULL DEFAULT '' @ quoted ''watching'',
        ''spent_by_tx_hash TEXT'', ''reclaim_group_id INTEGER REFERENCES reclaim_groups(id)'',
        ''created_at_ms INTEGER NOT NULL'', ''spent_at_ms INTEGER''] [''UNIQUE (tx_hash, outpoint_index)''],
     Create_Table ''sync_cursors''
       [''worker TEXT PRIMARY KEY'', ''cursor TEXT NOT NULL'', ''updated_at_ms INTEGER NOT NULL''] [],
     Create_Table ''network_endpoints''
       [''id INTEGER PRIMARY KEY'', ''network TEXT NOT NULL'', ''kind TEXT NOT NULL'', ''url TEXT NOT NULL'',
        ''is_active INTEGER NOT NULL DEFAULT 1''] [],
     Create_Table ''security_events''
       [''id INTEGER PRIMARY KEY'', ''kind TEXT NOT NULL'', ''detail TEXT NOT NULL'',
        ''created_at_ms INTEGER NOT NULL''] [],
     Create_Table ''settings''
       [''key TEXT PRIMARY KEY'', ''value TEXT NOT NULL''] []]"

definition migrations :: "migration list" where
  "migrations = [
     \<lparr>mg_version = 1, mg_description = ''initial schema (spec S11)'',
      mg_statements = schema_v1_statements\<rparr>,
     \<lparr>mg_version = 2, mg_description = ''profile security: rotation lineage + contact trust material (Phase 5)'',
      mg_statements = [Add_Column ''profiles'' ''previous_profile_id_hex TEXT'',
        Add_Column ''contacts'' ''profile_type_id_hex TEXT'',
        Add_Column ''contacts'' ''ml_dsa_public_key BLOB'',
        Add_Column ''contacts'' ''ml_kem_public_key BLOB'',
        Add_Column ''contacts'' ''fingerprint TEXT'',
        Add_Column ''contacts'' ''trust_verdict TEXT'']\<rparr>,
     \<lparr>mg_version = 3, mg_description = ''response/reclaim lifecycle: envelope message ids + reclaim capacity (Phase 8)'',
      mg_statements = [Add_Column ''messages'' ''envelope_message_id_hex TEXT'',
        Create_Index False ''messages_envelope_message_id'' ''messages'' [''envelope_message_id_hex''],
        Add_Column ''outgoing_transactions'' ''capacity_shannon TEXT'']\<rparr>,
     \<lparr>mg_version = 4, mg_description = ''background operation: worker leases + sync cursors (Phase 9 tasks 4, 9, 10)'',
      mg_statements = [Create_Table ''worker_leases''
       [''resource TEXT PRIMARY KEY'', ''owner TEXT NOT NULL'', ''acquired_at_ms INTEGER NOT NULL'',
        ''expires_at_ms INTEGER NOT NULL''] []]\<rparr>,
     \<lparr>mg_version = 5, mg_description = ''hardening: rate-limit buckets + contact block flag (Phase 11 tasks 9-10)'',
      mg_statements = [Add_Column ''contacts'' ''blocked INTEGER NOT NULL DEFAULT 0'',
        Create_Table ''rate_limits''
       [''bucket TEXT PRIMARY KEY'', ''tokens REAL NOT NULL'', ''updated_at_ms INTEGER NOT NULL''] []]\<rparr>,
     \<lparr>mg_version = 6, mg_description = ''crash-safe journals: signed tx bytes for rebroadcast resume (review E1)'',
      mg_statements = [Add_Column ''outgoing_transactions'' ''tx_hex TEXT'']\<rparr>,
     \<lparr>mg_version = 7, mg_description = ''attachments: one row per message - UNIQUE(message_id) (review follow-up)'',
      mg_statements = [Create_Index True ''attachments_message_id'' ''attachments'' [''message_id'']]\<rparr>,
     \<lparr>mg_version = 8, mg_description = ''attachments: persist the incoming attachment key (sender-reclaim griefing fix)'',
      mg_statements = [Add_Column ''attachments'' ''attachment_key BLOB'']\<rparr>,
     \<lparr>mg_version = 9, mg_description = ''attachments: recipient-confirmed download gates chunk reclaim (spec S8 0x05)'',
      mg_statements = [Add_Column ''attachments'' ''remote_downloaded INTEGER NOT NULL DEFAULT 0'']\<rparr>]"

section \<open>Executing a statement\<close>

record schema =
  sm_tables :: "(string \<times> string list) list"
  sm_indexes :: "string list"

definition column_name :: "string \<Rightarrow> string" where
  "column_name c = takeWhile (\<lambda>x. x \<noteq> CHR 0x20) c"

text \<open>\<open>clash\<close> says whether the rows of a table have the same values in some columns twice.\<close>

fun exec_sql :: "(string \<Rightarrow> string list \<Rightarrow> bool) \<Rightarrow> sql \<Rightarrow> schema \<Rightarrow> schema option" where
  "exec_sql clash (Create_Table t cs ks) d =
     (if map_of (sm_tables d) t \<noteq> None then None
      else Some (d\<lparr>sm_tables := sm_tables d @ [(t, map column_name cs)]\<rparr>))"
| "exec_sql clash (Add_Column t c) d = (case map_of (sm_tables d) t of
       None \<Rightarrow> None
     | Some cs \<Rightarrow> if column_name c \<in> set cs then None
         else Some (d\<lparr>sm_tables := AList.update t (cs @ [column_name c]) (sm_tables d)\<rparr>))"
| "exec_sql clash (Create_Index unique i t cs) d = (case map_of (sm_tables d) t of
       None \<Rightarrow> None
     | Some columns \<Rightarrow>
         if \<not> set cs \<subseteq> set columns \<or> i \<in> set (sm_indexes d) \<or> unique \<and> clash t cs then None
         else Some (d\<lparr>sm_indexes := sm_indexes d @ [i]\<rparr>))"

section \<open>The runner\<close>

text \<open>The database as the runner sees it; \<open>sd_stamps\<close> are the rows of the bookkeeping table.\<close>

record sql_db =
  sd_schema :: schema
  sd_clash :: "string \<Rightarrow> string list \<Rightarrow> bool"
  sd_stamps :: "(nat \<times> string \<times> int) list"
  sd_clock :: int

definition exec_statement :: "sql \<Rightarrow> (sql_db, failure, unit) prog" where
  "exec_statement q = (\<lambda>s. case exec_sql (sd_clash s) q (sd_schema s) of
       None \<Rightarrow> (Inl SqlError, s)
     | Some d \<Rightarrow> (Inr (), s\<lparr>sd_schema := d\<rparr>))"

definition current_schema_version :: "(sql_db, failure, nat) prog" where
  "current_schema_version = asks (\<lambda>s. Max (insert 0 (set (map fst (sd_stamps s)))))"

definition stamp :: "migration \<Rightarrow> (sql_db, failure, unit) prog" where
  "stamp m = (\<lambda>s. if mg_version m \<in> set (map fst (sd_stamps s)) then (Inl SqlError, s)
     else (Inr (), s\<lparr>sd_stamps := sd_stamps s @ [(mg_version m, mg_description m, sd_clock s)]\<rparr>))"

definition apply_migration :: "nat list \<Rightarrow> migration \<Rightarrow> (sql_db, failure, unit) prog" where
  "apply_migration applied m =
     (if mg_version m \<in> set applied then ret ()
      else atomically (andthen (for_each exec_statement (mg_statements m)) (\<lambda>_. stamp m)))"

definition migrate :: "(sql_db, failure, unit) prog" where
  "migrate = andthen (asks (\<lambda>s. map fst (sd_stamps s))) (\<lambda>applied.
     if \<not> set applied \<subseteq> set (map mg_version migrations) then throw (Db MigrationError)
     else for_each (apply_migration applied) migrations)"

section \<open>Running statements\<close>

definition no_clash :: "string \<Rightarrow> string list \<Rightarrow> bool" where
  "no_clash t cs = False"

fun exec_all :: "(string \<Rightarrow> string list \<Rightarrow> bool) \<Rightarrow> sql list \<Rightarrow> schema \<Rightarrow> schema option" where
  "exec_all clash [] d = Some d"
| "exec_all clash (q # qs) d = Option.bind (exec_sql clash q d) (exec_all clash qs)"

lemma exec_all_append: "exec_all clash (xs @ ys) d = Option.bind (exec_all clash xs d) (exec_all clash ys)"
  by (induction xs arbitrary: d) (auto split: Option.bind_splits)

text \<open>Only the index of the attachments is unique.\<close>

definition harmless :: "(string \<Rightarrow> string list \<Rightarrow> bool) \<Rightarrow> sql \<Rightarrow> bool" where
  "harmless clash q = (case q of Create_Index unique i t cs \<Rightarrow> unique \<longrightarrow> \<not> clash t cs | _ \<Rightarrow> True)"

lemma exec_harmless: "list_all (harmless clash) qs \<Longrightarrow> exec_all clash qs d = exec_all no_clash qs d"
proof (induction qs arbitrary: d)
  case (Cons q qs)
  then have "harmless clash q" by simp
  then have "exec_sql clash q d = exec_sql no_clash q d"
    by (cases q) (auto simp: harmless_def no_clash_def [of "t" "c" for t c] split: option.splits)
  with Cons show ?case by (simp cong: bind_option_cong)
qed simp

lemma migrations_harmless:
  assumes "\<not> clash ''attachments'' [''message_id'']" and "m \<in> set migrations"
  shows "list_all (harmless clash) (mg_statements m)"
  using assms by (auto simp: migrations_def schema_v1_statements_def harmless_def)

definition empty_schema :: schema where
  "empty_schema = \<lparr>sm_tables = [], sm_indexes = []\<rparr>"

definition schema_after :: "nat \<Rightarrow> schema option" where
  "schema_after n = exec_all no_clash (concat (map mg_statements (take n migrations))) empty_schema"

definition latest :: nat where
  "latest = length migrations"

lemma all_statements_run: "schema_after latest \<noteq> None"
  by code_simp

lemma schema_after_add: "n \<le> k \<Longrightarrow> \<exists>qs. schema_after k = Option.bind (schema_after n) (exec_all no_clash qs)"
proof -
  assume "n \<le> k"
  then have "take k migrations = take n migrations @ take (k - n) (drop n migrations)"
    by (metis le_add_diff_inverse take_add)
  then show ?thesis by (auto simp: schema_after_def exec_all_append)
qed

lemma schema_after_some: "n \<le> latest \<Longrightarrow> schema_after n \<noteq> None"
  using schema_after_add [of n latest] all_statements_run by (cases "schema_after n") auto

lemma schema_after_Suc: "n < latest \<Longrightarrow> schema_after (Suc n)
    = Option.bind (schema_after n) (exec_all no_clash (mg_statements (migrations ! n)))"
  by (simp add: schema_after_def latest_def take_Suc_conv_app_nth exec_all_append)

lemma versions_distinct: "distinct (map mg_version migrations)"
  by (simp add: migrations_def)

lemma version_not_before:
  assumes "n < latest"
  shows "mg_version (migrations ! n) \<notin> set (map mg_version (take n migrations))"
proof -
  have "distinct (map mg_version (take (Suc n) migrations))"
    using versions_distinct by (metis distinct_take take_map)
  then show ?thesis using assms by (simp add: take_Suc_conv_app_nth latest_def)
qed

lemma version_before:
  assumes "k < n" and "n \<le> latest"
  shows "mg_version (migrations ! k) \<in> set (map mg_version (take n migrations))"
proof -
  have "take n migrations ! k \<in> set (take n migrations)" using assms by (intro nth_mem) (simp add: latest_def)
  with assms(1) show ?thesis by simp
qed

section \<open>The states of an upgrade\<close>

text \<open>A database that has had the first \<open>n\<close> migrations and whose attachments are unique per message.\<close>

definition migrated :: "nat \<Rightarrow> sql_db \<Rightarrow> bool" where
  "migrated n s \<longleftrightarrow> n \<le> latest \<and> map fst (sd_stamps s) = map mg_version (take n migrations)
     \<and> schema_after n = Some (sd_schema s) \<and> \<not> sd_clash s ''attachments'' [''message_id'']"

lemma statements_run:
  "for_each exec_statement qs s = (case exec_all (sd_clash s) qs (sd_schema s) of
      Some d \<Rightarrow> (Inr (), s\<lparr>sd_schema := d\<rparr>) | None \<Rightarrow> (Inl SqlError, snd (for_each exec_statement qs s)))"
proof (induction qs arbitrary: s)
  case (Cons q qs)
  show ?case
  proof (cases "exec_sql (sd_clash s) q (sd_schema s)")
    case (Some d)
    then show ?thesis
      using Cons [of "s\<lparr>sd_schema := d\<rparr>"] by (auto simp: andthen_def exec_statement_def split: option.splits)
  qed (simp add: andthen_def exec_statement_def)
qed (simp add: ret_def)

lemma migration_step:
  assumes "migrated n s" and "n < latest" and "set applied = set (map mg_version (take m migrations))" and "m \<le> n"
  shows "\<exists>t. apply_migration applied (migrations ! n) s = (Inr (), t) \<and> migrated (Suc n) t"
proof -
  let ?m = "migrations ! n"
  have s: "map fst (sd_stamps s) = map mg_version (take n migrations)" "schema_after n = Some (sd_schema s)"
      "\<not> sd_clash s ''attachments'' [''message_id'']"
    using assms(1) by (simp_all add: migrated_def)
  have "set (take m migrations) \<subseteq> set (take n migrations)" using assms(4) by (rule set_take_subset_set_take)
  then have fresh: "mg_version ?m \<notin> set applied" "mg_version ?m \<notin> set (map fst (sd_stamps s))"
    using version_not_before [OF assms(2)] unfolding assms(3) s(1) by auto
  obtain d where d: "schema_after (Suc n) = Some d" using schema_after_some [of "Suc n"] assms(2) by auto
  have "list_all (harmless (sd_clash s)) (mg_statements ?m)"
    using migrations_harmless [where clash = "sd_clash s" and m = ?m] s(3) assms(2) by (simp add: latest_def)
  then have "exec_all (sd_clash s) (mg_statements ?m) (sd_schema s) = Some d"
    using d schema_after_Suc [OF assms(2)] s(2) by (simp add: exec_harmless)
  then have "for_each exec_statement (mg_statements ?m) s = (Inr (), s\<lparr>sd_schema := d\<rparr>)"
    by (subst statements_run) simp
  then have "apply_migration applied ?m s
      = (Inr (), s\<lparr>sd_schema := d, sd_stamps := sd_stamps s @ [(mg_version ?m, mg_description ?m, sd_clock s)]\<rparr>)"
    using fresh by (simp add: apply_migration_def atomically_def andthen_def stamp_def)
  then show ?thesis
    using s d assms(2) by (simp add: migrated_def take_Suc_conv_app_nth latest_def)
qed

lemma for_each_append: "for_each f (xs @ ys) s = andthen (for_each f xs) (\<lambda>_. for_each f ys) s"
  by (induction xs arbitrary: s) (auto simp: andthen_def ret_def split: prod.splits sum.splits)

lemma migration_steps:
  assumes "migrated n s" and "k \<le> latest"
  shows "\<exists>t. for_each (apply_migration (map fst (sd_stamps s))) (take k migrations) s = (Inr (), t) \<and> migrated (max n k) t"
  using assms(2)
proof (induction k)
  case 0
  with assms(1) show ?case by (simp add: ret_def)
next
  case (Suc k)
  let ?a = "map fst (sd_stamps s)"
  have a: "set ?a = set (map mg_version (take n migrations))" and n: "n \<le> latest" using assms(1) by (simp_all add: migrated_def)
  obtain t where t: "for_each (apply_migration ?a) (take k migrations) s = (Inr (), t)" "migrated (max n k) t"
    using Suc by auto
  have run: "for_each (apply_migration ?a) (take (Suc k) migrations) s = andthen (apply_migration ?a (migrations ! k)) (\<lambda>_. ret ()) t"
    using Suc.prems t(1) by (simp add: take_Suc_conv_app_nth latest_def for_each_append andthen_def)
  show ?case
  proof (cases "k < n")
    case True
    then have "apply_migration ?a (migrations ! k) t = (Inr (), t)"
      using version_before [OF True n] a by (simp add: apply_migration_def ret_def)
    moreover have "max n (Suc k) = n" and "max n k = n" using True by simp_all
    ultimately show ?thesis using run t(2) by (simp add: andthen_def ret_def)
  next
    case False
    then have "migrated k t" "k < latest" using t(2) Suc.prems by (simp_all add: max_def)
    from migration_step [OF this a] False obtain u where "apply_migration ?a (migrations ! k) t = (Inr (), u)" "migrated (Suc k) u"
      by auto
    with run False show ?thesis by (auto simp: andthen_def ret_def max_def)
  qed
qed

lemma migrate_run:
  assumes "migrated n s"
  shows "\<exists>t. migrate s = (Inr (), t) \<and> migrated latest t"
proof -
  have n: "n \<le> latest" "map fst (sd_stamps s) = map mg_version (take n migrations)" using assms by (simp_all add: migrated_def)
  have known: "set (map fst (sd_stamps s)) \<subseteq> set (map mg_version migrations)"
    unfolding n(2) using set_take_subset [of n migrations] by auto
  obtain t where t: "for_each (apply_migration (map fst (sd_stamps s))) (take latest migrations) s = (Inr (), t)" "migrated (max n latest) t"
    using migration_steps [OF assms, of latest] by auto
  with known n(1) show ?thesis by (simp add: migrate_def andthen_def asks_def latest_def max_def)
qed

lemma latest_is_stable:
  assumes "migrated latest s"
  shows "migrate s = (Inr (), s)"
proof -
  have stamps: "map fst (sd_stamps s) = map mg_version migrations" using assms by (simp add: migrated_def latest_def)
  have known: "fst ` set (sd_stamps s) = mg_version ` set migrations" using stamps by (metis list.set_map)
  have "for_each (apply_migration (map mg_version migrations)) ms s = (Inr (), s)" if "set ms \<subseteq> set migrations" for ms
    using that by (induction ms) (auto simp: apply_migration_def andthen_def ret_def)
  then show ?thesis by (simp add: migrate_def andthen_def asks_def stamps known)
qed

text \<open>A database of version 6 in which a message has two attachments cannot be upgraded: every run fails at version 7.\<close>

lemma duplicate_attachments_block_upgrade:
  assumes "map fst (sd_stamps s) = map mg_version (take 6 migrations)" and "sd_clash s ''attachments'' [''message_id'']"
  shows "migrate s = (Inl SqlError, s)"
proof -
  have a: "set (map fst (sd_stamps s)) = {1, 2, 3, 4, 5, 6}" unfolding assms(1) by (auto simp: migrations_def)
  have known: "set (map fst (sd_stamps s)) \<subseteq> set (map mg_version migrations)" unfolding a by (simp add: migrations_def)
  have blocked: "apply_migration (map fst (sd_stamps s)) (migrations ! 6) s = (Inl SqlError, s)"
    using a assms(2) by (simp add: apply_migration_def atomically_def andthen_def exec_statement_def migrations_def
        split: option.splits)
  have skipped: "for_each (apply_migration (map fst (sd_stamps s))) (take 6 migrations) s = (Inr (), s)"
    using a by (simp add: migrations_def apply_migration_def andthen_def ret_def)
  have "migrations = take 6 migrations @ migrations ! 6 # drop 7 migrations" by (simp add: migrations_def)
  then have "for_each (apply_migration (map fst (sd_stamps s))) migrations s
      = andthen (for_each (apply_migration (map fst (sd_stamps s))) (take 6 migrations))
          (\<lambda>_. for_each (apply_migration (map fst (sd_stamps s))) (migrations ! 6 # drop 7 migrations)) s"
    by (metis for_each_append)
  then have "for_each (apply_migration (map fst (sd_stamps s))) migrations s = (Inl SqlError, s)"
    by (simp add: skipped blocked andthen_def)
  with known show ?thesis by (simp add: migrate_def andthen_def asks_def)
qed

section \<open>Properties\<close>



end
