(* ===== verification/Cemp_Ui.thy ===== *)
theory Cemp_Ui
  imports Cemp_Workers Cemp_Contacts Cemp_Card
begin

text \<open>
  packages/cemp-ui: the view models that are free of the platform. bubble.ts and image-bubble.ts map
  a stored state to what a bubble shows; composer.ts turns the text of the input into a queued row;
  contact-list.ts validates and saves the form of a contact; conversation-list.ts keeps a selection
  over the list. The listeners of a view model are told after each change and get nothing to read
  but the state, so the state is what is modelled. A dash in a text of the program is written as a hyphen.
\<close>

section \<open>Message bubbles\<close>

datatype bubble_status = BDraft | BSending | BSent | BDelivered | BAcknowledged | BReclaimed | BFailed
  | BExpired | BReceiving | BReceived | BInvalid

record bubble =
  bb_status :: bubble_status
  bb_spinner :: bool
  bb_retry :: bool

definition bubble_of :: "bubble_status \<Rightarrow> bool \<Rightarrow> bool \<Rightarrow> bubble" where
  "bubble_of st spinner retry = \<lparr>bb_status = st, bb_spinner = spinner, bb_retry = retry\<rparr>"

fun outgoing_bubble :: "mstate \<Rightarrow> bubble option" where
  "outgoing_bubble Draft = Some (bubble_of BDraft False False)"
| "outgoing_bubble Queued = Some (bubble_of BSending True False)"
| "outgoing_bubble Encrypting = Some (bubble_of BSending True False)"
| "outgoing_bubble BuildingTransaction = Some (bubble_of BSending True False)"
| "outgoing_bubble AwaitingSignature = Some (bubble_of BSending True False)"
| "outgoing_bubble Submitting = Some (bubble_of BSending True False)"
| "outgoing_bubble Pending = Some (bubble_of BSent False False)"
| "outgoing_bubble Committed = Some (bubble_of BSent False False)"
| "outgoing_bubble AvailableOnChain = Some (bubble_of BSent False False)"
| "outgoing_bubble DownloadedByRecipient = Some (bubble_of BDelivered False False)"
| "outgoing_bubble Acknowledged = Some (bubble_of BAcknowledged False False)"
| "outgoing_bubble ReclaimQueued = Some (bubble_of BAcknowledged False False)"
| "outgoing_bubble ReclaimPending = Some (bubble_of BAcknowledged False False)"
| "outgoing_bubble Reclaimed = Some (bubble_of BReclaimed False False)"
| "outgoing_bubble Expired = Some (bubble_of BExpired False False)"
| "outgoing_bubble Failed = Some (bubble_of BFailed False True)"
| "outgoing_bubble _ = None"

fun incoming_bubble :: "mstate \<Rightarrow> bubble option" where
  "incoming_bubble Discovered = Some (bubble_of BReceiving True False)"
| "incoming_bubble Downloading = Some (bubble_of BReceiving True False)"
| "incoming_bubble Decrypting = Some (bubble_of BReceiving True False)"
| "incoming_bubble Received = Some (bubble_of BReceived False False)"
| "incoming_bubble Displayed = Some (bubble_of BReceived False False)"
| "incoming_bubble ResponseQueued = Some (bubble_of BReceived False False)"
| "incoming_bubble ResponseSent = Some (bubble_of BReceived False False)"
| "incoming_bubble AwaitingRemoteReclaim = Some (bubble_of BReceived False False)"
| "incoming_bubble RemoteReclaimed = Some (bubble_of BReceived False False)"
| "incoming_bubble Invalid = Some (bubble_of BInvalid False False)"
| "incoming_bubble _ = None"

definition message_bubble_state :: "direction \<Rightarrow> mstate \<Rightarrow> bubble" where
  "message_bubble_state d st =
     (case (if d = Outgoing then outgoing_bubble st else incoming_bubble st) of
        None \<Rightarrow> bubble_of BInvalid False False
      | Some b \<Rightarrow> b)"

section \<open>Image bubbles\<close>

datatype download_state = Idle | Loading | Loaded | DownloadError | Unavailable

datatype affordance = TapToLoad | TapToRetry | NoAffordance

record image_bubble =
  ib_thumbnail :: bool
  ib_full :: bool
  ib_affordance :: affordance
  ib_spinner :: bool

definition image_bubble_state :: "bool \<Rightarrow> download_state \<Rightarrow> bool \<Rightarrow> image_bubble" where
  "image_bubble_state thumbnail download outgoing =
     (if outgoing
      then \<lparr>ib_thumbnail = thumbnail, ib_full = False, ib_affordance = NoAffordance, ib_spinner = False\<rparr>
      else case download of
        Idle \<Rightarrow> \<lparr>ib_thumbnail = thumbnail, ib_full = False, ib_affordance = TapToLoad, ib_spinner = False\<rparr>
      | Loading \<Rightarrow> \<lparr>ib_thumbnail = thumbnail, ib_full = False, ib_affordance = NoAffordance, ib_spinner = True\<rparr>
      | DownloadError \<Rightarrow> \<lparr>ib_thumbnail = thumbnail, ib_full = False, ib_affordance = TapToRetry, ib_spinner = False\<rparr>
      | Unavailable \<Rightarrow> \<lparr>ib_thumbnail = thumbnail, ib_full = False, ib_affordance = NoAffordance, ib_spinner = False\<rparr>
      | Loaded \<Rightarrow> \<lparr>ib_thumbnail = False, ib_full = True, ib_affordance = NoAffordance, ib_spinner = False\<rparr>)"

text \<open>The flag \<open>unavailable\<close> is on the error of a chunk that is not live, and on no other.\<close>

definition classify_image_download_error :: "failure \<Rightarrow> download_state \<times> string" where
  "classify_image_download_error e =
     (if e = attachment_unavailable
      then (Unavailable, ''This image is no longer available - the sender's device released it.'')
      else (DownloadError, ''Couldn't load that image. Check your connection and tap to retry.''))"

section \<open>The composer\<close>

datatype composer_status = Editing | Sending | ComposerError

record composer =
  co_text :: code_points
  co_status :: composer_status
  co_error :: "string option"

definition new_composer :: composer where
  "new_composer = \<lparr>co_text = [], co_status = Editing, co_error = None\<rparr>"

definition byte_length :: "composer \<Rightarrow> nat" where
  "byte_length c = length (utf8_encode (co_text c))"

definition can_send :: "composer \<Rightarrow> bool" where
  "can_send c \<longleftrightarrow> co_status c \<noteq> Sending \<and> js_trim (co_text c) \<noteq> [] \<and> byte_length c \<le> max_text_bytes V1_LIMITS"

definition set_text :: "code_points \<Rightarrow> composer \<Rightarrow> composer" where
  "set_text t c = (let u = c\<lparr>co_text := t\<rparr> in
     if co_status c = ComposerError then u\<lparr>co_status := Editing, co_error := None\<rparr> else u)"

definition resume_draft :: "message \<Rightarrow> composer \<Rightarrow> failure + composer" where
  "resume_draft m c =
     (if m_direction m \<noteq> Outgoing \<or> m_state m \<noteq> Draft
      then Inl (OtherError ''resumeDraft: only outgoing drafts can be edited'')
      else Inr (c\<lparr>co_text := (case m_body m of None \<Rightarrow> [] | Some b \<Rightarrow> loaded_text b), co_status := Editing, co_error := None\<rparr>))"

definition too_long :: string where
  "too_long = ''message exceeds the '' @ decimal (max_text_bytes V1_LIMITS) @ ''-byte protocol limit''"

text \<open>
  \<open>send\<close> up to the first wait: the composer as it then is, and the body to store if it goes on. The
  part after the wait takes the composer as it is by then.
\<close>

definition begin_send :: "composer \<Rightarrow> composer \<times> code_points option" where
  "begin_send c = (let body = js_trim (co_text c) in
     if co_status c = Sending \<or> body = [] then (c, None)
     else if max_text_bytes V1_LIMITS < length (utf8_encode body)
     then (c\<lparr>co_status := ComposerError, co_error := Some too_long\<rparr>, None)
     else (c\<lparr>co_status := Sending, co_error := None\<rparr>, Some body))"

definition finish_send :: "failure + message \<Rightarrow> composer \<Rightarrow> composer" where
  "finish_send r c = (case r of
       Inr _ \<Rightarrow> c\<lparr>co_text := [], co_status := Editing\<rparr>
     | Inl e \<Rightarrow> c\<lparr>co_status := ComposerError, co_error := Some (error_message e)\<rparr>)"

definition insert_draft :: "nat \<Rightarrow> bytes \<Rightarrow> string option \<Rightarrow> ('x db_scheme, failure, message) prog" where
  "insert_draft conv random body = insert_message \<lparr>mi_conversation_id = conv, mi_direction = Outgoing, mi_body = body,
     mi_logical_id = bytes_to_hex random, mi_state = None, mi_created_at = None\<rparr>"

definition queue_body :: "('w, bytes) env_call \<Rightarrow> nat \<Rightarrow> code_points \<Rightarrow> ('w world, failure, message) prog" where
  "queue_body draw conv body =
     andthen (on_env draw) (\<lambda>random.
     andthen (insert_draft conv random (Some (stored_text body))) (\<lambda>m.
     transition_state (m_id m) Queued))"

definition composer_send ::
  "('w, bytes) env_call \<Rightarrow> nat \<Rightarrow> composer \<Rightarrow> ('w world, failure, composer \<times> message option) prog" where
  "composer_send draw conv c = (case begin_send c of
       (u, None) \<Rightarrow> ret (u, None)
     | (u, Some body) \<Rightarrow>
         catching (andthen (queue_body draw conv body) (\<lambda>m. ret (finish_send (Inr m) u, Some m)))
           (\<lambda>e. ret (finish_send (Inl e) u, None)))"

definition insert_image_draft :: "('w, bytes) env_call \<Rightarrow> nat \<Rightarrow> ('w world, failure, message) prog" where
  "insert_image_draft draw conv =
     andthen (on_env draw) (\<lambda>random.
     andthen (insert_draft conv random None) (\<lambda>m.
     catching (transition_state (m_id m) Queued) (\<lambda>e.
       andthen (catching (andthen (transition_state (m_id m) Failed) (\<lambda>_. ret ())) (\<lambda>_. ret ())) (\<lambda>_. throw e))))"

section \<open>Contacts\<close>

definition max_display_name :: nat where "max_display_name = 64"
definition max_notes :: nat where "max_notes = 2048"
definition max_avatar :: nat where "max_avatar = 262144"

datatype edit_error = NameRequired | NameTooLong | NotesTooLong | AvatarTooLarge | ProfileIdInvalid

text \<open>The form; a contact that is edited has an id.\<close>

record contact_form =
  cf_contact :: "nat option"
  cf_name :: code_points
  cf_notes :: code_points
  cf_avatar :: "bytes option"
  cf_profile_id :: "code_points option"

definition hex_id :: "code_points \<Rightarrow> bool" where
  "hex_id t \<longleftrightarrow> length t = 64 \<and> list_all (\<lambda>c. 48 \<le> c \<and> c \<le> 57 \<or> 65 \<le> c \<and> c \<le> 70 \<or> 97 \<le> c \<and> c \<le> 102) t"

definition form_profile_id :: "contact_form \<Rightarrow> code_points" where
  "form_profile_id f = (case cf_profile_id f of None \<Rightarrow> [] | Some p \<Rightarrow> js_trim p)"

definition validate_contact :: "contact_form \<Rightarrow> edit_error list" where
  "validate_contact f = (let name = js_trim (cf_name f); profile_id = form_profile_id f in
     (if name = [] then [NameRequired] else if max_display_name < utf16_length name then [NameTooLong] else [])
     @ (if max_notes < utf16_length (cf_notes f) then [NotesTooLong] else [])
     @ (case cf_avatar f of None \<Rightarrow> [] | Some a \<Rightarrow> if max_avatar < length a then [AvatarTooLarge] else [])
     @ (if profile_id \<noteq> [] \<and> \<not> hex_id profile_id then [ProfileIdInvalid] else []))"

definition form_from :: "contact \<Rightarrow> contact_form" where
  "form_from c = \<lparr>cf_contact = Some (ct_id c), cf_name = loaded_text (ct_display_name c), cf_notes = loaded_text (ct_notes c),
     cf_avatar = ct_avatar c, cf_profile_id = None\<rparr>"

definition save_contact :: "contact_form \<Rightarrow> ('x db_scheme, edit_error list + failure, nat) prog" where
  "save_contact f =
     (if validate_contact f \<noteq> [] then throw (Inl (validate_contact f))
      else let name = stored_text (js_trim (cf_name f)) in
        catching (case cf_contact f of
            None \<Rightarrow>
              andthen (create_contact \<lparr>nc_display_name = name, nc_notes = Some (stored_text (cf_notes f)), nc_avatar = None,
                nc_profile_id = (if form_profile_id f = [] then None
                  else Some (map ascii_lower (stored_text (form_profile_id f))))\<rparr>) (\<lambda>c.
              andthen (case cf_avatar f of None \<Rightarrow> ret () | Some a \<Rightarrow> set_avatar (ct_id c) (Some a)) (\<lambda>_.
              ret (ct_id c)))
          | Some i \<Rightarrow>
              andthen (update_contact i \<lparr>cp_display_name = Some name, cp_notes = Some (stored_text (cf_notes f)), cp_profile_id = None\<rparr>) (\<lambda>_.
              andthen (set_avatar i (cf_avatar f)) (\<lambda>_.
              ret i)))
          (\<lambda>e. throw (Inr e)))"

definition refresh_contacts :: "code_points \<Rightarrow> ('x db_scheme, failure, contact list) prog" where
  "refresh_contacts query = (if query = [] then list_contacts else search_contacts (stored_text query))"

section \<open>The conversation list\<close>

record conversation_view =
  cw_items :: "conversation_list_item list"
  cw_selected :: "nat option"

definition item_id :: "conversation_list_item \<Rightarrow> nat" where
  "item_id i = cv_id (ci_conversation i)"

definition refresh_conversations :: "conversation_view \<Rightarrow> ('x db_scheme, failure, conversation_view) prog" where
  "refresh_conversations v = andthen list_with_preview (\<lambda>items.
     ret \<lparr>cw_items = items, cw_selected = (case cw_selected v of None \<Rightarrow> None
       | Some i \<Rightarrow> if list_ex (\<lambda>x. item_id x = i) items then Some i else None)\<rparr>)"

definition select_conversation :: "nat option \<Rightarrow> conversation_view \<Rightarrow> conversation_view" where
  "select_conversation i v = v\<lparr>cw_selected := i\<rparr>"

definition selected_item :: "conversation_view \<Rightarrow> conversation_list_item option" where
  "selected_item v = List.find (\<lambda>x. Some (item_id x) = cw_selected v) (cw_items v)"

section \<open>What the view models keep\<close>

subsection \<open>Bubbles\<close>

lemma retry_exactly_when: "bb_retry (message_bubble_state d st) \<longleftrightarrow> d = Outgoing \<and> st = Failed"
  by (cases d; cases st) (simp_all add: message_bubble_state_def bubble_of_def)

lemma spinner_exactly_when:
  "bb_spinner (message_bubble_state d st) \<longleftrightarrow>
     d = Outgoing \<and> st \<in> {Queued, Encrypting, BuildingTransaction, AwaitingSignature, Submitting}
     \<or> d = Incoming \<and> st \<in> {Discovered, Downloading, Decrypting}"
  by (cases d; cases st) (simp_all add: message_bubble_state_def bubble_of_def)

lemma neutral_exactly_when:
  "bb_status (message_bubble_state d st) = BInvalid \<longleftrightarrow> d = Incoming \<and> st = Invalid \<or> \<not> of_direction d st"
  by (cases d; cases st) (simp_all add: message_bubble_state_def bubble_of_def state_defs)

subsection \<open>The stored draft\<close>

lemma update_last_row:
  assumes "m_id r = next_id m_id rows"
  shows "update_where (\<lambda>m. m_id m = next_id m_id rows) f (rows @ [r]) = rows @ [f r]"
proof -
  have "update_where (\<lambda>m. m_id m = next_id m_id rows) f rows = rows"
    using next_id_fresh [of m_id rows] by (intro update_where_none) (auto simp: list_ex_iff image_iff)
  with assms show ?thesis by (simp add: update_where_def)
qed

definition queued_row :: "nat \<Rightarrow> bytes \<Rightarrow> string option \<Rightarrow> 'x db_scheme \<Rightarrow> message" where
  "queued_row conv random body s = (new_message \<lparr>mi_conversation_id = conv, mi_direction = Outgoing, mi_body = body,
     mi_logical_id = bytes_to_hex random, mi_state = None, mi_created_at = None\<rparr> (db_clock s) (db_messages s))\<lparr>m_state := Queued\<rparr>"

text \<open>The two writes of a draft, with a random id that no row has.\<close>

lemma wp_draft_queued:
  assumes conv: "has_conversation conv s" and fresh: "find_by_logical_id (bytes_to_hex random) s = None"
    and Q: "\<And>t. db_messages t = db_messages s @ [queued_row conv random body s] \<Longrightarrow> db_txs t = db_txs s \<Longrightarrow>
        Q (queued_row conv random body s) t"
  shows "wp (andthen (insert_draft conv random body) (\<lambda>m. transition_state (m_id m) Queued)) Q E s"
proof -
  let ?r = "new_message \<lparr>mi_conversation_id = conv, mi_direction = Outgoing, mi_body = body,
     mi_logical_id = bytes_to_hex random, mi_state = None, mi_created_at = None\<rparr> (db_clock s) (db_messages s)"
  have r: "m_id ?r = next_id m_id (db_messages s)" "m_state ?r = Draft" "m_direction ?r = Outgoing"
      "?r\<lparr>m_state := Queued, m_updated_at := db_clock s\<rparr> = queued_row conv random body s"
    by (simp_all add: new_message_def queued_row_def)
  have step: "is_outgoing_state Draft" "is_outgoing_state Queued" by (simp_all add: state_defs)
  obtain t where t: "t = bump_conversation conv (db_clock s) (s\<lparr>db_messages := db_messages s @ [?r]\<rparr>)" by blast
  have rows: "db_messages t = db_messages s @ [?r]" "db_clock t = db_clock s" "db_txs t = db_txs s"
    by (simp_all add: t bump_conversation_def)
  have found: "find_message (m_id ?r) t = Some ?r"
    using next_id_fresh [of m_id "db_messages s"]
    by (auto simp: find_message_def find_append r(1) image_iff rows split: option.splits dest!: find_some_mem)
  have "Q (queued_row conv random body s) (set_state (m_id ?r) Queued (db_clock s) t)"
    by (rule Q) (simp_all add: set_state_def rows update_last_row r(1) r(4))
  then have "wp (transition_state (m_id ?r) Queued) Q E t"
    by (simp add: wp_transition_state r found [unfolded r(1)] step rows)
  then show ?thesis
    using conv fresh by (simp add: insert_draft_def wp_andthen wp_insert_message Let_def t)
qed

lemma queued_row_fields [simp]:
  "m_state (queued_row conv random body s) = Queued" "m_direction (queued_row conv random body s) = Outgoing"
  "m_body (queued_row conv random body s) = body" "m_logical_id (queued_row conv random body s) = bytes_to_hex random"
  "m_conversation_id (queued_row conv random body s) = conv" "m_id (queued_row conv random body s) = next_id m_id (db_messages s)"
  by (simp_all add: queued_row_def new_message_def)

lemma queue_body_run:
  assumes "has_conversation conv s" and "find_by_logical_id (bytes_to_hex random) s = None"
    and "draw (env s) = (Inr random, w, n)"
  shows "wp (queue_body draw conv body) (\<lambda>m t. db_messages t = db_messages s @ [m] \<and> db_txs t = db_txs s
     \<and> m_id m = next_id m_id (db_messages s) \<and> m_state m = Queued \<and> m_direction m = Outgoing \<and> m_conversation_id m = conv
     \<and> m_body m = Some (stored_text body) \<and> m_logical_id m = bytes_to_hex random) (\<lambda>_ _. False) s"
proof -
  obtain s1 where s1: "s1 = s\<lparr>db_clock := db_clock s + int n, env := w\<rparr>" by blast
  have "has_conversation conv s1" "find_by_logical_id (bytes_to_hex random) s1 = None"
    using assms(1,2) by (simp_all add: s1 find_by_logical_id_def)
  then have "wp (andthen (insert_draft conv random (Some (stored_text body))) (\<lambda>m. transition_state (m_id m) Queued))
     (\<lambda>m t. db_messages t = db_messages s @ [m] \<and> db_txs t = db_txs s
     \<and> m_id m = next_id m_id (db_messages s) \<and> m_state m = Queued \<and> m_direction m = Outgoing \<and> m_conversation_id m = conv
     \<and> m_body m = Some (stored_text body) \<and> m_logical_id m = bytes_to_hex random) (\<lambda>_ _. False) s1"
    by (rule wp_draft_queued) (simp_all add: s1)
  with assms(3) show ?thesis
    by (simp add: queue_body_def wp_andthen wp_on_env s1)
qed

subsection \<open>The stored text\<close>

lemma loaded_stored: "loaded_text (stored_text t) = utf8_decode (utf8_encode t)"
proof -
  have "word_of_nat (of_char (char_of (unat b) :: char)) = b" for b :: byte
    using unsigned_less [of b, where ?'a = nat] by simp
  then show ?thesis by (simp add: loaded_text_def stored_text_def comp_def)
qed

lemma js_trim_start: "js_trim t \<noteq> [] \<Longrightarrow> \<not> js_space (hd (js_trim t))"
proof -
  obtain u where u: "u = dropWhile js_space t" by blast
  assume "js_trim t \<noteq> []"
  then have ne: "dropWhile js_space (rev u) \<noteq> []" by (simp add: js_trim_def u)
  have "u = js_trim t @ rev (takeWhile js_space (rev u))"
    by (metis js_trim_def u rev_append rev_rev_ident takeWhile_dropWhile_id)
  moreover have "js_trim t \<noteq> []" using ne by (simp add: js_trim_def u)
  ultimately have "hd (js_trim t) = hd u" and "u \<noteq> []" by (metis hd_append, auto)
  moreover have "\<not> js_space (hd u)" using \<open>u \<noteq> []\<close> unfolding u by (rule hd_dropWhile)
  ultimately show ?thesis by simp
qed

lemma js_trim_subset: "set (js_trim t) \<subseteq> set t"
  unfolding js_trim_def by (auto dest!: set_dropWhileD)

lemma trimmed_text_reads_back:
  assumes "\<forall>c \<in> set t. scalar c"
  shows "loaded_text (stored_text (js_trim t)) = js_trim t"
proof -
  have "js_trim t = [] \<or> hd (js_trim t) \<noteq> 0xFEFF" using js_trim_start [of t] by (auto simp: js_space_def)
  moreover have "\<forall>c \<in> set (js_trim t). scalar c" using assms js_trim_subset [of t] by blast
  ultimately show ?thesis by (simp add: loaded_stored utf8_decode_encode drop_bom_plain)
qed

subsection \<open>Saving a contact\<close>

definition saved_profile_id :: "contact_form \<Rightarrow> string option" where
  "saved_profile_id f = (if form_profile_id f = [] then None else Some (map ascii_lower (stored_text (form_profile_id f))))"

lemma update_last_contact:
  assumes "ct_id r = next_id ct_id rows"
  shows "update_where (\<lambda>c. ct_id c = next_id ct_id rows) f (rows @ [r]) = rows @ [f r]"
proof -
  have "update_where (\<lambda>c. ct_id c = next_id ct_id rows) f rows = rows"
    using next_id_fresh [of ct_id rows] by (intro update_where_none) (auto simp: list_ex_iff image_iff)
  with assms show ?thesis by (simp add: update_where_def)
qed

lemma created_contact:
  assumes "profile_id_free (\<lambda>_. True) (nc_profile_id inp) (db_contacts s)"
  shows "create_contact inp s = (Inr (new_contact inp (db_clock s) (db_contacts s)),
    s\<lparr>db_contacts := db_contacts s @ [new_contact inp (db_clock s) (db_contacts s)]\<rparr>)"
  using assms by (simp add: create_contact_def now_def andthen_def asks_def catching_def modify_def ret_def)

section \<open>Properties\<close>

text \<open>
  The composer stores exactly what it accepts: a blank text is left alone, a text above the byte limit is
  refused with an error and stores nothing, and any other text is stored without its surrounding space in
  one new outgoing row of the conversation, queued under a fresh id, and the input is cleared.
\<close>

theorem composer_queues_exact:
  assumes "co_status c \<noteq> Sending" and "has_conversation conv s"
    and "draw (env s) = (Inr random, w, n)" and "find_by_logical_id (bytes_to_hex random) s = None"
  shows "if js_trim (co_text c) = [] then composer_send draw conv c s = (Inr (c, None), s)
    else if max_text_bytes V1_LIMITS < length (utf8_encode (js_trim (co_text c)))
    then composer_send draw conv c s = (Inr (c\<lparr>co_status := ComposerError, co_error := Some too_long\<rparr>, None), s)
    else \<exists>m t. composer_send draw conv c s = (Inr (new_composer, Some m), t) \<and> db_messages t = db_messages s @ [m]
      \<and> m_id m \<notin> m_id ` set (db_messages s) \<and> m_state m = Queued \<and> m_direction m = Outgoing \<and> m_conversation_id m = conv
      \<and> m_body m = Some (stored_text (js_trim (co_text c))) \<and> m_logical_id m = bytes_to_hex random"
proof -
  have "\<exists>m t. composer_send draw conv c s = (Inr (new_composer, Some m), t) \<and> db_messages t = db_messages s @ [m]
      \<and> m_id m \<notin> m_id ` set (db_messages s) \<and> m_state m = Queued \<and> m_direction m = Outgoing \<and> m_conversation_id m = conv
      \<and> m_body m = Some (stored_text (js_trim (co_text c))) \<and> m_logical_id m = bytes_to_hex random"
    if body: "js_trim (co_text c) \<noteq> []" "\<not> max_text_bytes V1_LIMITS < length (utf8_encode (js_trim (co_text c)))"
  proof -
    have start: "begin_send c = (c\<lparr>co_status := Sending, co_error := None\<rparr>, Some (js_trim (co_text c)))"
      using assms(1) body by (simp add: begin_send_def Let_def)
    have cleared: "finish_send (Inr m) (c\<lparr>co_status := Sending, co_error := None\<rparr>) = new_composer" for m
      by (cases c) (simp add: finish_send_def new_composer_def)
    from queue_body_run [where draw = draw and body = "js_trim (co_text c)", OF assms(2,4,3)] show ?thesis
      using next_id_fresh [of m_id "db_messages s"]
      by (auto simp: composer_send_def start cleared wp_def catching_def andthen_def ret_def split: prod.splits sum.splits)
  qed
  with assms(1) show ?thesis by (auto simp: composer_send_def begin_send_def Let_def ret_def)
qed

definition chat_world :: "string list world" where
  "chat_world = db.extend (empty_db\<lparr>db_conversations := [\<lparr>cv_id = 1, cv_contact_id = 1, cv_created_at = 0, cv_last_activity = 0\<rparr>]\<rparr>)
     \<lparr>env = []\<rparr>"

theorem composer_queues_witness:
  "\<exists>m t. composer_send (\<lambda>w. (Inr (replicate 16 7), w, 1)) 1 \<lparr>co_text = [32, 104, 105, 10], co_status = Editing, co_error = None\<rparr> chat_world
      = (Inr (new_composer, Some m), t) \<and> m_state m = Queued \<and> m_body m = Some (stored_text [104, 105])"
proof -
  let ?c = "\<lparr>co_text = [32, 104, 105, 10], co_status = Editing, co_error = None\<rparr>"
  have "co_status ?c \<noteq> Sending" and "has_conversation 1 chat_world"
    and "find_by_logical_id (bytes_to_hex (replicate 16 7)) chat_world = None"
    by (simp_all add: chat_world_def db.defs find_by_logical_id_def empty_db_def)
  from composer_queues_exact [OF this(1,2) _ this(3), where draw = "\<lambda>w. (Inr (replicate 16 7), w, 1)"]
  have "\<exists>m t. composer_send (\<lambda>w. (Inr (replicate 16 7), w, 1)) 1 ?c chat_world = (Inr (new_composer, Some m), t)
      \<and> m_state m = Queued \<and> m_body m = Some (stored_text [104, 105])"
    by (simp add: js_trim_def js_space_def V1_LIMITS_def utf8_encode_def utf8_char_def) blast
  then show ?thesis .
qed

text \<open>
  A new contact is saved as the form says: without the space around its name, with its notes and picture
  and the profile id in lower case. With a profile id that another contact has, nothing is saved, and
  what is thrown is an error of the database and not a list of form errors.
\<close>

theorem new_contact_saved_exact:
  assumes "validate_contact f = []" and "cf_contact f = None"
  shows "if profile_id_free (\<lambda>_. True) (saved_profile_id f) (db_contacts s)
    then \<exists>c t. save_contact f s = (Inr (ct_id c), t) \<and> db_contacts t = db_contacts s @ [c]
      \<and> ct_display_name c = stored_text (js_trim (cf_name f)) \<and> ct_notes c = stored_text (cf_notes f)
      \<and> ct_avatar c = cf_avatar f \<and> ct_profile_id c = saved_profile_id f \<and> \<not> ct_blocked c
    else save_contact f s = (Inl (Inr (Db ConstraintViolation)), s)"
proof (cases "profile_id_free (\<lambda>_. True) (saved_profile_id f) (db_contacts s)")
  case True
  let ?inp = "\<lparr>nc_display_name = stored_text (js_trim (cf_name f)), nc_notes = Some (stored_text (cf_notes f)), nc_avatar = None,
    nc_profile_id = saved_profile_id f\<rparr>"
  let ?c = "new_contact ?inp (db_clock s) (db_contacts s)"
  have id: "ct_id ?c = next_id ct_id (db_contacts s)" by (simp add: new_contact_def)
  have run: "create_contact ?inp s = (Inr ?c, s\<lparr>db_contacts := db_contacts s @ [?c]\<rparr>)"
    by (rule created_contact) (use True in simp)
  show ?thesis
  proof (cases "cf_avatar f")
    case None
    have "save_contact f s = (Inr (ct_id ?c), s\<lparr>db_contacts := db_contacts s @ [?c]\<rparr>)"
      using assms None run by (simp add: save_contact_def saved_profile_id_def Let_def andthen_def catching_def ret_def)
    with True None show ?thesis by (auto simp: new_contact_def)
  next
    case (Some a)
    let ?d = "?c\<lparr>ct_avatar := Some a, ct_updated_at := db_clock s\<rparr>"
    have "set_avatar (ct_id ?c) (Some a) (s\<lparr>db_contacts := db_contacts s @ [?c]\<rparr>)
        = (Inr (), s\<lparr>db_contacts := db_contacts s @ [?d]\<rparr>)"
      by (simp add: set_avatar_def patch_contact_def now_def andthen_def asks_def update_contact_row_def modify_def id
          update_last_contact when_do_def ret_def changes_def)
    then have "save_contact f s = (Inr (ct_id ?d), s\<lparr>db_contacts := db_contacts s @ [?d]\<rparr>)"
      using assms Some run by (simp add: save_contact_def saved_profile_id_def Let_def andthen_def catching_def ret_def)
    with True Some show ?thesis by (auto simp: new_contact_def)
  qed
next
  case False
  with assms show ?thesis
    by (simp add: save_contact_def saved_profile_id_def Let_def andthen_def catching_def throw_def create_contact_def now_def
        asks_def ret_def)
qed

theorem new_contact_saved_witness:
  "let f = \<lparr>cf_contact = None, cf_name = [32, 65, 110, 110, 97], cf_notes = [], cf_avatar = None, cf_profile_id = None\<rparr> in
   \<exists>c t. save_contact f chat_world = (Inr (ct_id c), t) \<and> db_contacts t = [c] \<and> ct_display_name c = ''Anna''"
proof -
  let ?f = "\<lparr>cf_contact = None, cf_name = [32, 65, 110, 110, 97], cf_notes = [], cf_avatar = None, cf_profile_id = None\<rparr>"
  have trim: "js_trim [32, 65, 110, 110, 97] = [65, 110, 110, 97]" by (simp add: js_trim_def js_space_def)
  have "validate_contact ?f = []" and "cf_contact ?f = None"
    by (simp_all add: validate_contact_def form_profile_id_def trim max_display_name_def max_notes_def utf16_length_def)
  from new_contact_saved_exact [OF this, of chat_world] show ?thesis
    by (auto simp: saved_profile_id_def form_profile_id_def profile_id_free_def chat_world_def db.defs empty_db_def trim
        stored_text_def utf8_encode_def utf8_char_def char_of_def bit_iff_odd)
qed

end
