(* ===== verification/Cemp_Chat.thy ===== *)
theory Cemp_Chat
  imports Cemp_Ui Cemp_Messaging
begin

text \<open>
  apps/android/src/screens/chat-screen.tsx: what the conversation screen does with a tap on send, on
  attach, on a failed bubble and on an image. The screen joins the composer of cemp-ui, the message table
  and the messaging service. The flag \<open>publishBusy\<close> that drops a tap during another publication is an
  argument; the rest of the React state is the part that the handlers write. What a handler returns is
  the text of the error banner, if any; what it throws is a rejection that nothing handles. A dash in a text of the program is written as a hyphen.
\<close>

section \<open>The screen\<close>

record ('w, 'a, 'b, 'c, 'tx, 'img) chat =
  ch_service :: "('w, 'a, 'b, 'c, 'tx, 'img) messaging option"
  ch_conversation :: nat
  ch_profile :: "string option"
  ch_pick :: "('w, bytes option) env_call"
  ch_draw :: "('w, bytes) env_call"

type_synonym ('w, 'a) chat_prog = "('w world, failure + publication_error, 'a) prog"

definition user_message :: "publication_code \<Rightarrow> string" where
  "user_message code = (case code of
       ProfileNotFound \<Rightarrow> ''This contact's profile could not be found. Ask them to check their profile is still active.''
     | InsufficientCapacity \<Rightarrow> ''Not enough balance to cover this message. Top up your messaging capacity and try again.''
     | CommitTimeout \<Rightarrow> ''Still waiting for network confirmation. The message is saved - check back shortly.''
     | NetworkUnavailable \<Rightarrow> ''Can't reach the network right now. The message is saved and can be retried.''
     | RejectedByNode \<Rightarrow> ''The network rejected this message. It has been saved - try again in a moment.''
     | InternalError \<Rightarrow> ''Something went wrong while sending. The message is saved.'')"

definition is_post_broadcast_error :: "failure + publication_error \<Rightarrow> bool" where
  "is_post_broadcast_error e = (case e of Inl _ \<Rightarrow> False | Inr p \<Rightarrow> pe_broadcast p)"

definition publish_error_text :: "failure + publication_error \<Rightarrow> string" where
  "publish_error_text e = (case e of Inl f \<Rightarrow> error_message f | Inr p \<Rightarrow> user_message (pe_code p))"

text \<open>\<open>container.hasMessaging\<close> and \<open>contact.profileIdHex\<close>.\<close>

definition sendable :: "('w, 'a, 'b, 'c, 'tx, 'img) chat \<Rightarrow> (('w, 'a, 'b, 'c, 'tx, 'img) messaging \<times> string) option" where
  "sendable C = (case (ch_service C, ch_profile C) of (Some M, Some p) \<Rightarrow> Some (M, p) | _ \<Rightarrow> None)"

text \<open>The end of both handlers: an error before the broadcast marks the row as failed.\<close>

definition or_mark_failed :: "nat \<Rightarrow> ('w, string option) chat_prog \<Rightarrow> ('w, string option) chat_prog" where
  "or_mark_failed i m = catching m (\<lambda>e.
     andthen (when_do (\<not> is_post_broadcast_error e) (or_failure (andthen (transition_state i Failed) (\<lambda>_. ret ())))) (\<lambda>_.
     ret (Some (publish_error_text e))))"

definition image_request_of :: "nat \<Rightarrow> string \<Rightarrow> string \<Rightarrow> bytes \<Rightarrow> image_request" where
  "image_request_of row logical recipient source = \<lparr>ir_row_id = row, ir_logical_id = logical, ir_recipient_hex = recipient,
     ir_source = source, ir_caption = None, ir_format = None, ir_timeout = None\<rparr>"

section \<open>Sending\<close>

record chat_view =
  vw_composer :: composer
  vw_draft :: code_points
  vw_error :: "string option"

definition publish_sent ::
  "('w, 'a, 'b, 'c, 'tx, 'img) chat \<Rightarrow> message \<Rightarrow> ('w, string option) chat_prog" where
  "publish_sent C m = (case sendable C of
       None \<Rightarrow> ret None
     | Some (M, p) \<Rightarrow>
         catching (andthen (publish_message M (m_id m) (m_logical_id m)
             (case m_body m of None \<Rightarrow> [] | Some b \<Rightarrow> loaded_text b) p) (\<lambda>_. ret None))
           (\<lambda>e. ret (Some (user_message (pe_code e)))))"

definition chat_send :: "('w, 'a, 'b, 'c, 'tx, 'img) chat \<Rightarrow> bool \<Rightarrow> chat_view \<Rightarrow> ('w, chat_view) chat_prog" where
  "chat_send C busy v = (if busy then ret v else
     andthen (or_failure (composer_send (ch_draw C) (ch_conversation C) (set_text (vw_draft v) (vw_composer v)))) (\<lambda>(c, sent).
     case sent of
       None \<Rightarrow> ret \<lparr>vw_composer = c, vw_draft = vw_draft v, vw_error = None\<rparr>
     | Some m \<Rightarrow>
         andthen (publish_sent C m) (\<lambda>banner.
         ret \<lparr>vw_composer = c, vw_draft = [], vw_error = banner\<rparr>)))"

section \<open>Images\<close>

text \<open>The steps before the row is there; \<open>Inl\<close> is a banner, or nothing after a cancelled picker.\<close>

definition attach_row ::
  "('w, 'a, 'b, 'c, 'tx, 'img) chat \<Rightarrow>
     ('w, string option + ('w, 'a, 'b, 'c, 'tx, 'img) messaging \<times> string \<times> bytes \<times> message) chat_prog" where
  "attach_row C =
     andthen (or_failure (on_env (ch_pick C))) (\<lambda>picked. case picked of
       None \<Rightarrow> ret (Inl None)
     | Some source \<Rightarrow> (case sendable C of
         None \<Rightarrow> ret (Inl (Some ''Can't send an image to this contact right now.''))
       | Some (M, p) \<Rightarrow>
           andthen (or_failure (insert_image_draft (ch_draw C) (ch_conversation C))) (\<lambda>row. ret (Inr (M, p, source, row)))))"

definition attach_image :: "('w, 'a, 'b, 'c, 'tx, 'img) chat \<Rightarrow> bool \<Rightarrow> ('w, string option) chat_prog" where
  "attach_image C busy = (if busy then ret None else
     andthen (catching (attach_row C) (\<lambda>e. ret (Inl (Some (publish_error_text e))))) (\<lambda>r. case r of
       Inl banner \<Rightarrow> ret banner
     | Inr (M, p, source, row) \<Rightarrow>
         or_mark_failed (m_id row)
           (andthen (publish_image M (image_request_of (m_id row) (m_logical_id row) p source)) (\<lambda>_. ret None))))"

definition retry_body ::
  "('w, 'a, 'b, 'c, 'tx, 'img) chat \<Rightarrow> message \<Rightarrow> ('w, string option) chat_prog" where
  "retry_body C item =
     andthen (if m_body item = None then or_failure (on_env (ch_pick C)) else ret None) (\<lambda>picked.
     if m_body item = None \<and> picked = None then ret None
     else case sendable C of
         None \<Rightarrow> ret (Some ''Can't send to this contact right now.'')
       | Some (M, p) \<Rightarrow>
           andthen (or_failure (transition_state (m_id item) Queued)) (\<lambda>_.
           case picked of
             Some source \<Rightarrow>
               andthen (publish_image M (image_request_of (m_id item) (m_logical_id item) p source)) (\<lambda>_. ret None)
           | None \<Rightarrow>
               andthen (catching (publish_message M (m_id item) (m_logical_id item)
                 (case m_body item of None \<Rightarrow> [] | Some b \<Rightarrow> loaded_text b) p) (\<lambda>e. throw (Inr e))) (\<lambda>_. ret None)))"

definition retry_message :: "('w, 'a, 'b, 'c, 'tx, 'img) chat \<Rightarrow> bool \<Rightarrow> message \<Rightarrow> ('w, string option) chat_prog" where
  "retry_message C busy item =
     (if m_direction item \<noteq> Outgoing \<or> m_state item \<noteq> Failed \<or> busy then ret None
      else or_mark_failed (m_id item) (retry_body C item))"

text \<open>The state of the download of an image after a tap, with the words to show; \<open>in_flight\<close> is a running download.\<close>

definition load_full ::
  "('w, 'a, 'b, 'c, 'tx, 'img) messaging \<Rightarrow> bool \<Rightarrow> nat \<Rightarrow> attachment_manifest_v1 \<Rightarrow> download_state \<Rightarrow>
     ('w, download_state \<times> string option \<times> downloaded_attachment option) chat_prog" where
  "load_full M running i m state = (if running then ret (state, None, None) else
     catching (andthen (download_image_attachment M i m) (\<lambda>full. ret (Loaded, None, Some full)))
       (\<lambda>e. let (st, words) = (case e of Inl f \<Rightarrow> classify_image_download_error f
              | Inr _ \<Rightarrow> classify_image_download_error (OtherError [])) in
          ret (st, Some words, None)))"

section \<open>What the handlers keep\<close>

subsection \<open>The rows\<close>

text \<open>The message table without the states, envelope ids and times.\<close>

definition rows_of :: "'x db_scheme \<Rightarrow> (nat \<times> nat \<times> direction \<times> string option \<times> string) list" where
  "rows_of s = map (\<lambda>m. (m_id m, m_conversation_id m, m_direction m, m_body m, m_logical_id m)) (db_messages s)"

lemma rows_env_free [simp]: "env_free (\<lambda>s. rows_of s = K)"
  by (simp add: env_free_def rows_of_def)

lemma rows_of_update [simp]:
  "(\<And>m. (m_id (f m), m_conversation_id (f m), m_direction (f m), m_body (f m), m_logical_id (f m))
       = (m_id m, m_conversation_id m, m_direction m, m_body m, m_logical_id m)) \<Longrightarrow>
   rows_of (s\<lparr>db_messages := update_where p f (db_messages s)\<rparr>) = rows_of s"
  by (simp add: rows_of_def update_where_def comp_def)

lemma rows_of_other [simp]:
  "rows_of (s\<lparr>db_txs := a\<rparr>) = rows_of s" "rows_of (s\<lparr>db_chain_refs := b\<rparr>) = rows_of s"
  "rows_of (s\<lparr>db_balances := c\<rparr>) = rows_of s" "rows_of (s\<lparr>db_attachments := d\<rparr>) = rows_of s"
  by (simp_all add: rows_of_def)

lemma transition_keeps_rows: "keeps (\<lambda>s. rows_of s = K) (transition_state i st)"
  by (auto simp: transition_state_def set_state_def intro!: keeps_rules)

lemma mark_keeps_rows: "keeps (\<lambda>s. rows_of s = K) (mark_outgoing_tx_state h x c)"
  by (auto simp: mark_outgoing_tx_state_def mark_tx_state_def update_txs_def intro!: keeps_rules)

lemma store_keeps_rows:
  "keeps (\<lambda>s. rows_of s = K) (transition_message i st)" "keeps (\<lambda>s. rows_of s = K) (get_message_state i)"
  "keeps (\<lambda>s. rows_of s = K) (set_message_chain_ref i h n)" "keeps (\<lambda>s. rows_of s = K) (record_outgoing_tx inp)"
  "keeps (\<lambda>s. rows_of s = K) (find_outgoing_tx_by_purpose p)" "keeps (\<lambda>s. rows_of s = K) (find_latest_by_prefix p)"
  "keeps (\<lambda>s. rows_of s = K) (store_reserve_capacity lc a)" "keeps (\<lambda>s. rows_of s = K) (set_envelope_message_id i e)"
  by (auto simp: store_defs get_message_def set_chain_ref_def set_envelope_message_id_def find_latest_by_prefix_def
      find_latest_by_purpose_prefix_def find_latest_by_purpose_def record_tx_def reserve_capacity_def move_capacity_def
      get_balance_def update_balance_def require_lifecycle_def Let_def intro!: keeps_rules transition_keeps_rows split: option.splits)

lemmas row_rules = keeps_rules transition_keeps_rows mark_keeps_rows store_keeps_rows

lemma publication_keeps_rows: "keeps (\<lambda>s. rows_of s = K) (publish_text d inp)"
proof -
  have walk: "keeps (\<lambda>s. rows_of s = K) (walk_to_state i st)" for i st
    by (auto simp: walk_to_state_def Let_def split: option.splits intro!: row_rules)
  show ?thesis
    by (auto simp: publish_text_def publish_body_def publish_send_def publish_monitor_def find_resumable_def Let_def
      split: option.splits prod.splits resume_outcome.splits failure.splits intro!: row_rules keeps_tagged walk)
qed

lemma chunks_keep_rows: "keeps (\<lambda>s. rows_of s = K) (publish_attachment_chunks d pk timeout)"
  by (auto simp: attach_defs Let_def split: option.splits prod.splits resume_outcome.splits failure.splits intro!: row_rules)

lemma image_keeps_rows: "keeps (\<lambda>s. rows_of s = K) (publish_image M q)"
proof -
  have prepare: "keeps (\<lambda>s. rows_of s = K) (prepare_image b G source f l)" for b G source f l
    by (rule prepare_keeps) auto
  have message: "keeps (\<lambda>s. rows_of s = K) (publish_image_message b S G d p sender D i)" for b S G d p sender D i
    unfolding publish_image_message_def
    by (auto intro!: row_rules chunks_keep_rows publication_keeps_rows prepare split: option.splits)
  have send: "keeps (\<lambda>s. rows_of s = K) (run_image_send b c (image_send_deps_of M G a sender) i)" for b c G a sender i
    unfolding run_image_send_def send_prepared_def image_send_deps_of_def
    by (auto simp: create_attachment_def intro!: row_rules keeps_or_failure message prepare)
  show ?thesis
    unfolding publish_image_def resume_image_def send_fresh_image_def
    by (auto simp: find_latest_by_purpose_def intro!: row_rules keeps_or_failure publication_keeps_rows send profile_reads_keep balance_read_keeps split: option.splits)
qed

subsection \<open>The transaction of a message\<close>

text \<open>A journaled transaction has the purpose \<open>P\<close>, or is the one that the chain reference of row \<open>i\<close> names.\<close>

definition keys_of :: "outgoing_tx list \<Rightarrow> (string \<times> string) set" where
  "keys_of txs = (\<lambda>r. (tx_purpose r, tx_hash r)) ` set txs"

definition traces :: "nat \<Rightarrow> string \<Rightarrow> outgoing_tx list \<Rightarrow> chain_ref list \<Rightarrow> bool" where
  "traces i P txs refs \<longleftrightarrow> (\<exists>(p, h) \<in> keys_of txs. p = P
     \<or> (\<exists>n. chain_ref_pair (List.find (\<lambda>x. cr_message_id x = i) refs) = Some (h, n)))"

definition traced :: "nat \<Rightarrow> string \<Rightarrow> 'x db_scheme \<Rightarrow> bool" where
  "traced i P s = traces i P (db_txs s) (db_chain_refs s)"

lemma traced_env_free [simp]: "env_free (traced i P)"
  by (simp add: env_free_def traced_def)

lemma keys_of_patch [simp]: "keys_of (update_where p (tx_patch st c b) txs) = keys_of txs"
proof -
  have "map (\<lambda>r. (tx_purpose r, tx_hash r)) (update_where p (tx_patch st c b) txs) = map (\<lambda>r. (tx_purpose r, tx_hash r)) txs"
    by (rule map_update_where) simp
  then show ?thesis unfolding keys_of_def by (metis list.set_map)
qed

lemma mark_traced [keeps_rules]: "keeps (traced i P) (mark_outgoing_tx_state h st c)"
  by (auto simp: mark_outgoing_tx_state_def mark_tx_state_def traced_def traces_def intro!: keeps_rules keeps_update_txs)

lemma message_calls_traced [keeps_rules]:
  "keeps (traced i P) (transition_message j st)" "keeps (traced i P) (find_outgoing_tx_by_purpose p)"
  "keeps (traced i P) (set_envelope_message_id j e)"
  by (auto simp: store_defs transition_state_def set_state_def set_envelope_message_id_def find_latest_by_purpose_def traced_def
      intro!: keeps_rules)

lemma walk_traced [keeps_rules]: "keeps (traced i P) (walk_to_state j st)"
  using walk_keeps_rest [of "\<lambda>txs refs _. traces i P txs refs" j st] by (simp add: traced_def [abs_def])

lemma reserve_traced [keeps_rules]: "keeps (traced i P) (store_reserve_capacity lc a)"
  using reserve_keeps_rest [of "\<lambda>_ txs refs. traces i P txs refs" lc a] by (simp add: traced_def [abs_def])

definition hashed :: "string \<Rightarrow> 'x db_scheme \<Rightarrow> bool" where
  "hashed h s \<longleftrightarrow> h \<in> snd ` keys_of (db_txs s)"

lemma wp_reference_traced:
  assumes "hashed h s"
  shows "wp (set_message_chain_ref i h n) (\<lambda>_. traced i P) (\<lambda>_ t. traced i P s \<longrightarrow> traced i P t) s"
  using assms
  by (auto simp: set_message_chain_ref_def set_chain_ref_def references_def wp_rules Let_def traced_def traces_def hashed_def
      find_chain_ref_upsert [unfolded find_chain_ref_def, simplified] chain_ref_pair_def)

lemma wp_mark_hashed:
  "wp (mark_outgoing_tx_state h st c) (\<lambda>_. hashed h) (\<lambda>_ _. True) s"
  by (rule wp_mono [OF wp_mark_committed [where st = st]])
    (auto simp: hashed_def keys_of_def find_tx_def image_iff split: option.splits dest!: find_some_mem)

lemma monitor_traced: "keeps (traced i P) (publish_monitor d i h resumed timeout reserve)"
proof -
  have link: "wp (andthen (mark_outgoing_tx_state h st c) (\<lambda>_. andthen (set_message_chain_ref i h 0) f))
      (\<lambda>_. traced i P) (\<lambda>_. traced i P) s"
    if "traced i P s" "\<And>x. keeps (traced i P) (f x)" for s st c and f :: "unit \<Rightarrow> ('a world, failure, publish_result) prog"
    unfolding wp_andthen
  proof (rule wp_mono [OF wp_conj [OF wp_mark_hashed mark_traced [unfolded keeps_wp, rule_format, OF that(1)]]])
    fix t :: "'a world" assume t: "hashed h t \<and> traced i P t"
    show "wp (set_message_chain_ref i h 0) (\<lambda>a t. wp (f a) (\<lambda>_. traced i P) (\<lambda>_. traced i P) t) (\<lambda>_. traced i P) t"
      by (rule wp_mono [OF wp_reference_traced [where P = P]]) (use t that(2) in \<open>auto simp: keeps_wp\<close>)
  qed auto
  have link: "keeps (traced i P) (andthen (mark_outgoing_tx_state h st c) (\<lambda>_. andthen (set_message_chain_ref i h 0) f))"
    if "\<And>x. keeps (traced i P) (f x)" for st c and f :: "unit \<Rightarrow> ('a world, failure, publish_result) prog"
    using link that by (simp add: keeps_wp)
  show ?thesis
    unfolding publish_monitor_def by (auto intro!: keeps_rules link split: option.splits)
qed

lemma wp_record_hashed: "wp (record_outgoing_tx inp) (\<lambda>_. hashed (ti_hash inp)) (\<lambda>_ _. True) s"
  by (auto simp: record_outgoing_tx_def wp_rules hashed_def keys_of_def find_tx_def new_tx_def Let_def image_iff
      split: option.splits dest!: find_some_mem) metis

lemma send_traced:
  "wp (publish_send d inp p) (\<lambda>_. traced (pi_row_id inp) P) (\<lambda>_ _. True) s"
proof -
  let ?T = "traced (pi_row_id inp) P"
  have rest: "wp m (\<lambda>_. ?T) (\<lambda>_ _. True) t" if "keeps ?T m" "?T t" for m :: "('a world, failure, 'z) prog" and t
    using that by (auto simp: keeps_wp elim!: allE intro: wp_mono)
  have link: "wp (andthen (set_message_chain_ref (pi_row_id inp) h 0) f) (\<lambda>_. ?T) (\<lambda>_ _. True) t"
    if "hashed h t" "\<And>x. keeps ?T (f x)" for h t and f :: "unit \<Rightarrow> ('a world, failure, 'z) prog"
    unfolding wp_andthen by (rule wp_mono [OF wp_reference_traced [OF that(1)]]) (auto intro: rest that(2))
  have recorded: "wp (andthen (record_outgoing_tx x) (\<lambda>_. andthen (set_message_chain_ref (pi_row_id inp) h 0) f)) (\<lambda>_. ?T) (\<lambda>_ _. True) t"
    if "ti_hash x = h" "\<And>x. keeps ?T (f x)" for x h t and f :: "unit \<Rightarrow> ('a world, failure, 'z) prog"
    unfolding wp_andthen [of "record_outgoing_tx x"]
    by (rule wp_mono [OF wp_record_hashed]) (use that link in auto)
  show ?thesis
    unfolding publish_send_def
    by (rule wp_then, rule wp_then, rule wp_then, rule wp_then, rule wp_then, rule wp_then, rule wp_then, rule wp_then,
        rule wp_then, rule recorded) (auto simp: publish_tx_input_def intro!: keeps_rules)
qed

lemma resumable_traced: "wp (find_resumable d P timeout) (\<lambda>r t. r \<noteq> None \<longrightarrow> traced i P t) (\<lambda>_ _. True) s"
proof (cases "latest_tx (\<lambda>r. tx_purpose r = P) s")
  case None
  then show ?thesis
    by (simp add: find_resumable_def find_outgoing_tx_by_purpose_def find_latest_by_purpose_def wp_rules)
next
  case (Some j)
  then have "j \<in> set (db_txs s)" "tx_purpose j = P" by (auto simp: latest_tx_def dest: find_some_mem)
  then have "traced i P s" by (force simp: traced_def traces_def keys_of_def)
  moreover have "keeps (traced i P) (find_resumable d P timeout)"
    by (auto simp: find_resumable_def split: option.splits prod.splits resume_outcome.splits failure.splits intro!: keeps_rules)
  ultimately show ?thesis by (auto simp: keeps_wp elim!: allE intro: wp_mono)
qed

text \<open>A publication that returned, or failed after the broadcast, has its transaction in the journal.\<close>

lemma text_traced:
  "wp (publish_text d inp) (\<lambda>_. traced (pi_row_id inp) (''message:'' @ pi_logical_id inp))
     (\<lambda>e t. pe_broadcast e \<longrightarrow> traced (pi_row_id inp) (''message:'' @ pi_logical_id inp) t) s"
proof -
  obtain P where P: "''message:'' @ pi_logical_id inp = P" by blast
  let ?T = "traced (pi_row_id inp) P"
  have after: "wp (tagged True m) (\<lambda>_. ?T) (\<lambda>(b, _) t. b \<longrightarrow> ?T t) t" if "keeps ?T m" "?T t"
    for m :: "('a world, failure, publish_result) prog" and t
    using that by (auto simp: wp_tagged keeps_wp)
  have fresh: "wp (andthen (tagged False (publish_send d inp P)) f) (\<lambda>_. ?T) (\<lambda>(b, _) t. b \<longrightarrow> ?T t) t"
    if "\<And>x u. ?T u \<Longrightarrow> wp (f x) (\<lambda>_. ?T) (\<lambda>(b, _) t. b \<longrightarrow> ?T t) u"
    for f :: "_ \<Rightarrow> ('a world, bool \<times> failure, publish_result) prog" and t
    unfolding wp_andthen wp_tagged by (rule wp_mono [OF send_traced [where P = P]]) (use that in auto)
  have "wp (publish_body d inp) (\<lambda>_. ?T) (\<lambda>(b, _) t. b \<longrightarrow> ?T t) s"
    unfolding publish_body_def Let_def P wp_andthen [of "tagged False (find_resumable _ _ _)"] wp_tagged
  proof (rule wp_mono [OF resumable_traced [where i = "pi_row_id inp"]])
    fix r :: "outgoing_tx option" and t :: "'a world" assume r: "r \<noteq> None \<longrightarrow> ?T t"
    show "wp (case r of
        None \<Rightarrow> andthen (tagged False (publish_send d inp P)) (\<lambda>(built, signed_tx).
          tagged True (andthen (on_env (cl_track_spend (pd_client d) (pd_wire d signed_tx))) (\<lambda>_.
             andthen (transition_message (pi_row_id inp) Pending) (\<lambda>_.
             publish_monitor d (pi_row_id inp) (pd_hash d signed_tx) False (pi_timeout inp)
               (Some (case pd_cell_capacity d built of None \<Rightarrow> 0 | Some c \<Rightarrow> c))))))
      | Some j \<Rightarrow> tagged True (andthen (walk_to_state (pi_row_id inp) Pending) (\<lambda>_.
           publish_monitor d (pi_row_id inp) (tx_hash j) True (pi_timeout inp) (tx_capacity j))))
      (\<lambda>_. ?T) (\<lambda>(b, _) t. b \<longrightarrow> ?T t) t"
    proof (cases r)
      case None
      then show ?thesis
        by simp (rule fresh, auto split: prod.splits intro!: after keeps_rules monitor_traced)
    next
      case (Some j)
      with r show ?thesis by (auto intro!: after keeps_rules monitor_traced)
    qed
  qed simp
  then have "wp (publish_text d inp) (\<lambda>_. ?T) (\<lambda>e t. pe_broadcast e \<longrightarrow> ?T t) s"
    unfolding publish_text_def wp_catching
    by (rule wp_mono) (auto simp: wp_andthen wp_when wp_throw wp_catching wp_ret classify_publish_error_def split: prod.splits)
  then show ?thesis unfolding P .
qed

lemma post_broadcast_simps [simp]:
  "\<not> is_post_broadcast_error (Inl e)" "is_post_broadcast_error (Inr p) \<longleftrightarrow> pe_broadcast p"
  by (simp_all add: is_post_broadcast_error_def)

lemma wp_inl: "(\<And>e t. E (Inl e) t) \<Longrightarrow> (\<And>a t. wp (f a) Q E t) \<Longrightarrow> wp (andthen (or_failure m) f) Q E s"
  unfolding wp_andthen or_failure_def wp_catching wp_throw
  by (rule wp_mono [OF wp_true]) auto

text \<open>The same for an image.\<close>

lemma image_traced:
  "wp (publish_image M q) (\<lambda>_. traced (ir_row_id q) (''message:'' @ ir_logical_id q))
     (\<lambda>e t. is_post_broadcast_error e \<longrightarrow> traced (ir_row_id q) (''message:'' @ ir_logical_id q) t) s"
proof -
  obtain P where P: "''message:'' @ ir_logical_id q = P" by blast
  let ?T = "traced (ir_row_id q) P" and ?E = "\<lambda>e t. is_post_broadcast_error e \<longrightarrow> traced (ir_row_id q) P t"
  have text_part: "wp (andthen (catching (publish_text d \<lparr>pi_row_id = ir_row_id q, pi_logical_id = ir_logical_id q,
      pi_content = c, pi_timeout = x\<rparr>) (\<lambda>e. throw (Inr e))) (\<lambda>r. ret (f r))) (\<lambda>_. ?T) ?E s"
    for d c x s and f :: "publish_result \<Rightarrow> 'z"
    unfolding wp_andthen wp_catching
    by (rule wp_mono [OF text_traced]) (simp_all add: P [simplified] wp_ret wp_throw)
  have message: "wp (publish_image_message b S G d p sender D i) (\<lambda>_. ?T) ?E s"
    if "ii_row_id i = ir_row_id q" "ii_logical_id i = ir_logical_id q" for b S G d p sender D i s
    unfolding publish_image_message_def that
    by (subst wp_andthen, subst wp_catching, rule wp_mono [OF wp_true])
      (auto simp: wp_throw text_part split: prod.splits)
  have publish: "wp (sd_publish (image_send_deps_of M G a sender) i) (\<lambda>_. ?T) ?E s"
    if "ii_row_id i = ir_row_id q" "ii_logical_id i = ir_logical_id q" for G a sender i s
    unfolding image_send_deps_of_def image_send_deps.simps
    by (rule wp_inl) (simp_all add: message that)
  have store: "keeps ?T (create_attachment x)" for x
    by (auto simp: create_attachment_def traced_def intro!: keeps_rules)
  have prepared: "wp (send_prepared mc (image_send_deps_of M G a sender) i p) (\<lambda>_. ?T) ?E s"
    if "ii_row_id i = ir_row_id q" "ii_logical_id i = ir_logical_id q" for mc G a sender i p s
  proof -
    have rest: "wp (andthen (or_failure m) (\<lambda>_. ret x)) (\<lambda>_. ?T) ?E t" if "keeps ?T m" "?T t"
      for m :: "('a world, failure, 'z) prog" and x :: "string \<times> string" and t
      using that by (auto simp: wp_andthen wp_or_failure wp_ret keeps_wp elim!: allE intro: wp_mono)
    have "wp (andthen (sd_publish (image_send_deps_of M G a sender) (i\<lparr>ii_prepared := Some p\<rparr>)) (\<lambda>r.
        andthen (or_failure (andthen
          (lift_result (map_error (\<lambda>_. OtherError ''encodeAttachmentManifestV1'')
            (encode_attachment_manifest_v1 mc (pg_manifest r)))) (\<lambda>bytes.
          create_attachment \<lparr>ai_message_id = ii_row_id i, ai_kind = ''image'', ai_byte_length = pg_plaintext_size r,
            ai_state = None, ai_manifest = Some bytes, ai_key = None\<rparr>))) (\<lambda>_.
        ret (pg_message_tx r, pg_chunks_tx r)))) (\<lambda>_. ?T) ?E s"
      by (subst wp_andthen, rule wp_mono [OF publish]) (use that store in \<open>auto intro!: rest keeps_rules\<close>)
    then show ?thesis
      by (auto simp: send_prepared_def wp_throw)
  qed
  have fresh: "wp (send_fresh_image M G q) (\<lambda>_. ?T) ?E s" for G s
  proof -
    have sender: "wp (andthen (require_sender_profile M) f) (\<lambda>_. ?T) ?E t" if "\<And>x u. wp (f x) (\<lambda>_. ?T) ?E u"
      for f :: "bytes \<Rightarrow> ('a, string) chat_prog" and t
    proof -
      have "wp (require_sender_profile M) (\<lambda>_ _. True) (\<lambda>e _. \<not> is_post_broadcast_error e) t"
        unfolding require_sender_profile_def
        by (rule wp_inl) (auto simp: wp_throw no_profile_def wp_or_failure wp_lift_result
          split: option.splits sum.splits)
      then show ?thesis unfolding wp_andthen by (rule wp_mono) (use that in auto)
    qed
    show ?thesis
      unfolding send_fresh_image_def run_image_send_def
      by (auto intro!: wp_inl sender prepared simp: image_input_of_def wp_andthen [where m = "andthen _ _"] wp_ret)
  qed
  have "wp (finally_do (send_fresh_image M G q) (or_failure (on_env (ms_release M)))) (\<lambda>_. ?T) ?E s" for G s
    unfolding wp_finally
  proof (rule wp_mono [OF fresh])
    have release: "wp (or_failure (on_env (ms_release M))) (\<lambda>_. ?T) ?E t" if "?T t" for t
      using that by (auto simp: wp_or_failure wp_on_env traced_def split: prod.splits sum.splits)
    then show "wp (or_failure (on_env (ms_release M))) (\<lambda>_. ?T) ?E t" if "?T t" for t using that .
    show "wp (or_failure (on_env (ms_release M))) (\<lambda>_. ?E e) ?E t" if "?E e t" for e t
      using that by (auto simp: wp_or_failure wp_on_env traced_def split: prod.splits sum.splits)
  qed
  then have "wp (publish_image M q) (\<lambda>_. ?T) ?E s"
    by (auto simp: publish_image_def resume_image_def text_part wp_throw intro!: wp_inl split: option.splits)
  then show ?thesis unfolding P .
qed

subsection \<open>A new row\<close>

abbreviation ids_of :: "'x db_scheme \<Rightarrow> nat list" where
  "ids_of s \<equiv> map m_id (db_messages s)"

text \<open>After \<open>s\<close> one outgoing row was appended, with the id and logical id of \<open>m\<close>.\<close>

definition appended :: "'x db_scheme \<Rightarrow> message \<Rightarrow> 'y db_scheme \<Rightarrow> bool" where
  "appended s m t \<longleftrightarrow> m_id m \<notin> set (ids_of s)
     \<and> (\<exists>c b. rows_of t = rows_of s @ [(m_id m, c, Outgoing, b, m_logical_id m)])"

lemma appendedE:
  assumes "appended s m t"
  obtains ms l where "db_messages t = ms @ [l]" "map m_id ms = ids_of s" "m_id l = m_id m" "m_logical_id l = m_logical_id m"
    "m_direction l = Outgoing" "find_message (m_id m) t = Some l" "\<And>x. x \<in> set ms \<Longrightarrow> m_id x \<in> m_id ` set (db_messages s)"
proof -
  obtain c b where rows: "rows_of t = rows_of s @ [(m_id m, c, Outgoing, b, m_logical_id m)]" and new: "m_id m \<notin> set (ids_of s)"
    using assms by (auto simp: appended_def)
  then obtain ms l where ms: "db_messages t = ms @ [l]"
      "map (\<lambda>m. (m_id m, m_conversation_id m, m_direction m, m_body m, m_logical_id m)) ms = rows_of s"
      "(m_id l, m_conversation_id l, m_direction l, m_body l, m_logical_id l) = (m_id m, c, Outgoing, b, m_logical_id m)"
    unfolding rows_of_def by (auto simp: map_eq_append_conv)
  have "map fst (map (\<lambda>m. (m_id m, m_conversation_id m, m_direction m, m_body m, m_logical_id m)) ms) = map fst (rows_of s)"
    using ms(2) by simp
  then have ids: "map m_id ms = ids_of s" by (simp add: rows_of_def comp_def)
  then have "m_id m \<notin> m_id ` set ms" using new by (metis list.set_map)
  then have "find_message (m_id m) t = Some l"
    using ms(1,3) by (auto simp: find_message_def find_append image_iff split: option.splits dest!: find_some_mem)
  moreover have "m_id x \<in> m_id ` set (db_messages s)" if "x \<in> set ms" for x
    using that ids by (metis image_eqI list.set_map)
  ultimately show ?thesis using ms ids that by blast
qed

lemma rows_same_ids: "rows_of t = rows_of s \<Longrightarrow> ids_of t = ids_of s"
proof -
  assume "rows_of t = rows_of s"
  then have "map fst (rows_of t) = map fst (rows_of s)" by simp
  then show ?thesis by (simp add: rows_of_def comp_def)
qed

lemma wp_insert_draft:
  "wp (insert_draft conv random body) (\<lambda>m t. ids_of t = ids_of s \<or> appended s m t \<and> m_state m = Draft \<and> find_message (m_id m) t = Some m)
     (\<lambda>_ t. ids_of t = ids_of s) s"
  using next_id_fresh [of m_id "db_messages s"]
  by (auto simp: insert_draft_def wp_insert_message Let_def appended_def rows_of_def new_message_def find_message_def find_append image_iff
      split: option.splits dest!: find_some_mem)

lemma wp_image_draft:
  "wp (insert_image_draft dr conv) (\<lambda>m t. ids_of t = ids_of s \<or> appended s m t) (\<lambda>_ t. ids_of t = ids_of s) s"
proof -
  have queue: "wp (catching (transition_state (m_id m) Queued) (\<lambda>e.
       andthen (catching (andthen (transition_state (m_id m) Failed) (\<lambda>_. ret ())) (\<lambda>_. ret ())) (\<lambda>_. throw e)))
      (\<lambda>m t. ids_of t = ids_of s \<or> appended s m t) (\<lambda>_ t. ids_of t = ids_of s) t"
    if "ids_of t = ids_of s \<or> appended s m t \<and> m_state m = Draft \<and> find_message (m_id m) t = Some m" for m t
    using that
  proof
    assume same: "ids_of t = ids_of s"
    have keep: "keeps (\<lambda>u. ids_of u = ids_of s) (transition_state i st)" for i st
      by (auto simp: transition_state_def set_state_def map_update_where intro!: keeps_rules)
    then have "keeps (\<lambda>u. ids_of u = ids_of s) (catching (transition_state (m_id m) Queued) (\<lambda>e.
       andthen (catching (andthen (transition_state (m_id m) Failed) (\<lambda>_. ret ())) (\<lambda>_. ret ())) (\<lambda>_. throw e)))"
      by (intro keeps_catching keeps_andthen keeps_ret keeps_throw)
    with same show ?thesis unfolding keeps_wp by (blast intro: wp_mono)
  next
    assume new: "appended s m t \<and> m_state m = Draft \<and> find_message (m_id m) t = Some m"
    then obtain l where "find_message (m_id m) t = Some l" "m_direction l = Outgoing" by (metis appendedE)
    with new have m: "m_direction m = Outgoing" by simp
    have step: "can_transition_message Outgoing Draft Queued" by (simp add: state_defs)
    have "rows_of (set_state (m_id m) Queued x t) = rows_of t" for x by (simp add: set_state_def)
    with new m step show ?thesis
      by (simp add: wp_catching wp_transition_state appended_def del: can_transition_message.simps)
  qed
  show ?thesis
    unfolding insert_image_draft_def wp_andthen
  proof (rule wp_on_env_all)
    fix w n x
    let ?u = "s\<lparr>db_clock := db_clock s + int n, env := w\<rparr>"
    have u: "ids_of ?u = ids_of s" "appended ?u = (appended s :: message \<Rightarrow> 'a world \<Rightarrow> bool)"
      by (simp_all add: appended_def rows_of_def fun_eq_iff)
    show "wp (insert_draft conv x None) (\<lambda>m. wp (catching (transition_state (m_id m) Queued) (\<lambda>e.
         andthen (catching (andthen (transition_state (m_id m) Failed) (\<lambda>_. ret ())) (\<lambda>_. ret ())) (\<lambda>_. throw e)))
        (\<lambda>m t. ids_of t = ids_of s \<or> appended s m t) (\<lambda>_ t. ids_of t = ids_of s)) (\<lambda>_ t. ids_of t = ids_of s) ?u"
      by (rule wp_mono [OF wp_insert_draft [of conv x None ?u, unfolded u]]) (simp_all add: queue)
  qed simp
qed

text \<open>Every row that was not there in \<open>s\<close> has an end: it does not spin, or its transaction is in the journal.\<close>

definition settled :: "'x db_scheme \<Rightarrow> 'y db_scheme \<Rightarrow> bool" where
  "settled s t \<longleftrightarrow> (\<forall>m \<in> set (db_messages t). m_id m \<notin> set (ids_of s) \<longrightarrow>
     bb_spinner (message_bubble_state (m_direction m) (m_state m)) \<longrightarrow> traced (m_id m) (''message:'' @ m_logical_id m) t)"

lemma settled_same: "ids_of t = ids_of s \<Longrightarrow> settled s t"
  by (metis (no_types, lifting) settled_def image_eqI list.set_map)

lemma settled_traced: "appended s m t \<Longrightarrow> traced (m_id m) (''message:'' @ m_logical_id m) t \<Longrightarrow> settled s t"
  by (elim appendedE) (auto simp: settled_def)

lemma settled_quiet:
  assumes "appended s m t" and "find_message (m_id m) t = Some l" and "\<not> bb_spinner (message_bubble_state Outgoing (m_state l))"
  shows "settled s t"
  using assms by (elim appendedE) (auto simp: settled_def)

lemma spinner_can_fail: "bb_spinner (message_bubble_state Outgoing st) \<Longrightarrow> can_transition_message Outgoing st Failed"
  by (auto simp: spinner_exactly_when state_defs)

lemma wp_mark_failed:
  assumes "appended s m t"
  shows "wp (transition_state (m_id m) Failed) (\<lambda>_. settled s) (\<lambda>_. settled s) t"
proof -
  obtain l where l: "find_message (m_id m) t = Some l" "m_direction l = Outgoing" using assms by (metis appendedE)
  have "appended s m (set_state (m_id m) Failed x t)" for x using assms by (simp add: appended_def set_state_def)
  then have "settled s (set_state (m_id m) Failed x t)" for x
    by (rule settled_quiet [where l = "l\<lparr>m_state := Failed, m_updated_at := x\<rparr>"]) (simp_all add: l spinner_exactly_when)
  moreover have "settled s t" if "m_state l = Failed \<or> \<not> can_transition_message Outgoing (m_state l) Failed"
  proof (rule settled_quiet [OF assms l(1)])
    have "\<not> bb_spinner (message_bubble_state Outgoing Failed)" by (simp add: spinner_exactly_when)
    with that show "\<not> bb_spinner (message_bubble_state Outgoing (m_state l))" using spinner_can_fail by metis
  qed
  ultimately show ?thesis unfolding wp_transition_state l(1) option.case l(2) by simp
qed

lemma attach_settled: "wp (attach_image C busy) (\<lambda>_. settled s) (\<lambda>_. settled s) s"
proof -
  have same: "settled s t" if "rows_of t = rows_of s" for t
    using rows_same_ids [OF that] by (rule settled_same)
  have row: "wp (attach_row C) (\<lambda>r t. case r of Inl _ \<Rightarrow> settled s t
      | Inr (_, _, _, m) \<Rightarrow> ids_of t = ids_of s \<or> appended s m t) (\<lambda>_. settled s) s"
    unfolding attach_row_def wp_andthen wp_or_failure
  proof (rule wp_on_env_all)
    fix w n picked
    let ?u = "s\<lparr>db_clock := db_clock s + int n, env := w\<rparr>"
    have u: "ids_of ?u = ids_of s" "appended ?u = (appended s :: message \<Rightarrow> 'a world \<Rightarrow> bool)" "rows_of ?u = rows_of s"
      by (simp_all add: appended_def rows_of_def fun_eq_iff)
    have draft: "wp (insert_image_draft (ch_draw C) (ch_conversation C)) (\<lambda>m t. ids_of t = ids_of s \<or> appended s m t)
        (\<lambda>_. settled s) ?u"
      by (rule wp_mono [OF wp_image_draft [of _ _ ?u, unfolded u]]) (simp_all add: settled_same)
    then show "wp (case picked of None \<Rightarrow> ret (Inl None)
        | Some source \<Rightarrow> (case sendable C of
            None \<Rightarrow> ret (Inl (Some ''Can't send an image to this contact right now.''))
          | Some (M, p) \<Rightarrow> andthen (or_failure (insert_image_draft (ch_draw C) (ch_conversation C)))
              (\<lambda>row. ret (Inr (M, p, source, row)))))
        (\<lambda>r t. case r of Inl _ \<Rightarrow> settled s t | Inr (_, _, _, m) \<Rightarrow> ids_of t = ids_of s \<or> appended s m t) (\<lambda>_. settled s) ?u"
      using same [OF u(3)] by (auto simp: wp_ret wp_andthen wp_or_failure split: option.splits)
  qed (auto intro!: same simp: rows_of_def)
  have publication: "wp (or_mark_failed (m_id m) (andthen (publish_image M (image_request_of (m_id m) (m_logical_id m) p b)) (\<lambda>_. ret None)))
      (\<lambda>_. settled s) (\<lambda>_. settled s) t" if t: "ids_of t = ids_of s \<or> appended s m t" for M m p b and t :: "'a world"
  proof -
    let ?q = "image_request_of (m_id m) (m_logical_id m) p b"
    have q: "ir_row_id ?q = m_id m" "ir_logical_id ?q = m_logical_id m" by (simp_all add: image_request_of_def)
    have kept: "wp (publish_image M ?q) (\<lambda>_ u. rows_of u = rows_of t) (\<lambda>_ u. rows_of u = rows_of t) t"
      using image_keeps_rows [where K = "rows_of t", unfolded keeps_wp] by blast
    have move: "ids_of u = ids_of s \<or> appended s m u" if "rows_of u = rows_of t" for u
      using t that rows_same_ids [OF that] by (auto simp: appended_def)
    have fail: "wp (transition_state (m_id m) Failed) (\<lambda>_. settled s) (\<lambda>_. settled s) u"
      if "ids_of u = ids_of s \<or> appended s m u" for u :: "'a world"
      using that
    proof
      assume u: "ids_of u = ids_of s"
      have "keeps (\<lambda>u. ids_of u = ids_of s) (transition_state (m_id m) Failed)"
        by (auto simp: transition_state_def set_state_def map_update_where intro!: keeps_rules)
      with u show ?thesis unfolding keeps_wp by (blast intro: wp_mono settled_same)
    qed (rule wp_mark_failed)
    show ?thesis
      unfolding or_mark_failed_def wp_catching wp_andthen
      by (rule wp_mono [OF wp_conj [OF kept image_traced [of M ?q, unfolded q]]])
        (auto simp: wp_ret wp_when wp_or_failure wp_andthen dest!: move intro: settled_same settled_traced fail)
  qed
  show ?thesis
    using same [of s]
    by (auto simp: attach_image_def wp_ret wp_andthen wp_catching split: sum.splits prod.splits intro!: wp_mono [OF row] publication)
qed

subsection \<open>A text that cannot be sent\<close>

lemma hex_is_no_receipt: "receipt_kind_of (bytes_to_hex b) = None"
proof -
  have "set (bytes_to_hex b) \<subseteq> {c. is_lower_hex c}" using bytes_to_hex_lower [of b] by (auto simp: list_all_iff)
  then have plain: "CHR ''r'' \<notin> set (bytes_to_hex b)" "CHR ''k'' \<notin> set (bytes_to_hex b)" by (auto simp: is_lower_hex_def hex_digits_def)
  have "\<not> starts_with (bytes_to_hex b) p" if "CHR ''r'' \<in> set p \<or> CHR ''k'' \<in> set p" for p
    using that plain unfolding starts_with_def by (metis in_set_takeD)
  then show ?thesis by (auto simp: receipt_kind_of_def receipt_kinds_def find_None_iff)
qed

lemma nothing_to_respond:
  assumes "\<And>m. m \<in> set (db_messages t) \<Longrightarrow> m_state m = Queued \<Longrightarrow> receipt_kind_of (m_logical_id m) = None"
  shows "run_response_sender d t = (Inr (), t)"
proof -
  have "filter (\<lambda>m. m_direction m = Outgoing \<and> receipt_kind_of (m_logical_id m) \<noteq> None)
      (take 500 (filter (\<lambda>m. m_state m \<in> set [Queued]) (db_messages t))) = []"
    using assms by (auto simp: filter_empty_conv dest!: in_set_takeD)
  then show ?thesis
    by (simp add: run_response_sender_def list_by_state_def andthen_def asks_def ret_def)
qed

section \<open>Properties\<close>

text \<open>
  C4. No image is left spinning: whatever the picker, the wallet, the node and the codec do, each row that
  attaching an image adds to the conversation either stops spinning (it is marked as failed and can be tried
  again, or its publication went on), or its transaction is in the journal, from where the workers drive it.
\<close>

theorem no_stranded_image: "settled s (snd (attach_image C busy s))"
  using attach_settled [of C busy s] by (auto simp: wp_def split: prod.splits sum.splits)

text \<open>
  A retry is the same message: retrying a failed bubble never adds, removes or edits a message row, so
  the message keeps its id, its logical id, its text and its conversation, and a tap on a bubble that is not
  a failed outgoing one, or during another publication, does nothing at all.
\<close>

theorem retry_is_same_message:
  "rows_of (snd (retry_message C busy item s)) = rows_of s
    \<and> (if bb_retry (message_bubble_state (m_direction item) (m_state item)) \<and> \<not> busy then True
       else retry_message C busy item s = (Inr None, s))"
proof
  have message: "keeps (\<lambda>t. rows_of t = rows_of s) (publish_message M i l x p)" for M i l x p
    unfolding publish_message_def by (intro keeps_andthen keeps_ret publication_keeps_rows)
  have "keeps (\<lambda>t. rows_of t = rows_of s) (retry_message C busy item)"
    unfolding retry_message_def or_mark_failed_def retry_body_def
    by (auto intro!: row_rules keeps_or_failure image_keeps_rows message split: option.splits)
  then show "rows_of (snd (retry_message C busy item s)) = rows_of s" by (simp add: keeps_def)
  show "if bb_retry (message_bubble_state (m_direction item) (m_state item)) \<and> \<not> busy then True
       else retry_message C busy item s = (Inr None, s)"
    by (auto simp: retry_exactly_when retry_message_def ret_def)
qed

text \<open>
  C5. A text that is sent while messaging is not there, or to a contact without a profile, is never sent: it is stored
  as queued, its bubble spins and offers no retry, a tap on it does nothing, no banner is shown, and the
  worker that reads queued rows leaves it alone, although the screen counts on the workers to send it later.
\<close>

theorem unsent_text_is_never_retried:
  assumes "sendable C = None" and "co_status (vw_composer v) \<noteq> Sending" and "js_trim (vw_draft v) \<noteq> []"
    and "length (utf8_encode (js_trim (vw_draft v))) \<le> max_text_bytes V1_LIMITS"
    and "has_conversation (ch_conversation C) s" and "ch_draw C (env s) = (Inr random, w, n)"
    and "find_by_logical_id (bytes_to_hex random) s = None"
    and "\<forall>m \<in> set (db_messages s). m_state m \<noteq> Queued"
  shows "\<exists>u t m. chat_send C False v s = (Inr u, t) \<and> vw_draft u = [] \<and> vw_error u = None
    \<and> db_messages t = db_messages s @ [m] \<and> m_body m = Some (stored_text (js_trim (vw_draft v)))
    \<and> message_bubble_state (m_direction m) (m_state m) = bubble_of BSending True False
    \<and> retry_message C False m t = (Inr None, t) \<and> run_response_sender d t = (Inr (), t)"
proof -
  let ?c = "set_text (vw_draft v) (vw_composer v)"
  have c: "co_text ?c = vw_draft v" "co_status ?c \<noteq> Sending"
    using assms(2) by (simp_all add: set_text_def Let_def)
  have start: "begin_send ?c = (?c\<lparr>co_status := Sending, co_error := None\<rparr>, Some (js_trim (vw_draft v)))"
    using c assms(3,4) by (simp add: begin_send_def Let_def)
  obtain m t where run: "composer_send (ch_draw C) (ch_conversation C) ?c s = (Inr (finish_send (Inr m) (?c\<lparr>co_status := Sending, co_error := None\<rparr>), Some m), t)"
    and m: "db_messages t = db_messages s @ [m]" "m_state m = Queued" "m_direction m = Outgoing"
      "m_body m = Some (stored_text (js_trim (vw_draft v)))" "m_logical_id m = bytes_to_hex random"
    using queue_body_run [where draw = "ch_draw C" and body = "js_trim (vw_draft v)", OF assms(5,7,6)]
    by (auto simp: composer_send_def start wp_def catching_def andthen_def ret_def split: prod.splits sum.splits)
  have "run_response_sender d t = (Inr (), t)"
    by (rule nothing_to_respond) (use assms(8) m in \<open>auto simp: hex_is_no_receipt\<close>)
  moreover have "retry_message C False m t = (Inr None, t)" using m(2) by (simp add: retry_message_def ret_def)
  moreover have "chat_send C False v s
      = (Inr \<lparr>vw_composer = finish_send (Inr m) (?c\<lparr>co_status := Sending, co_error := None\<rparr>), vw_draft = [], vw_error = None\<rparr>, t)"
    using assms(1) run by (simp add: chat_send_def or_failure_def catching_def andthen_def ret_def publish_sent_def)
  ultimately show ?thesis using m by (auto simp: message_bubble_state_def)
qed

definition offline_chat :: "(string list, string, string, string, string, string) chat" where
  "offline_chat = \<lparr>ch_service = None, ch_conversation = 1, ch_profile = Some [], ch_pick = (\<lambda>w. (Inr None, w, 1)),
     ch_draw = (\<lambda>w. (Inr (replicate 16 7), w, 1))\<rparr>"

theorem unsent_text_witness:
  "\<exists>u t m. chat_send offline_chat False \<lparr>vw_composer = new_composer, vw_draft = [104, 105], vw_error = None\<rparr> chat_world = (Inr u, t)
    \<and> db_messages t = [m] \<and> m_body m = Some (stored_text [104, 105]) \<and> run_response_sender sample_workers t = (Inr (), t)"
proof -
  let ?v = "\<lparr>vw_composer = new_composer, vw_draft = [104, 105], vw_error = None\<rparr>"
  have trim: "js_trim [104, 105] = [104, 105]" by (simp add: js_trim_def js_space_def)
  have "sendable offline_chat = None" and "co_status (vw_composer ?v) \<noteq> Sending" and "js_trim (vw_draft ?v) \<noteq> []"
    and "length (utf8_encode (js_trim (vw_draft ?v))) \<le> max_text_bytes V1_LIMITS"
    and "has_conversation (ch_conversation offline_chat) chat_world"
    and "ch_draw offline_chat (env chat_world) = (Inr (replicate 16 7), env chat_world, 1)"
    and "find_by_logical_id (bytes_to_hex (replicate 16 7)) chat_world = None"
    and "\<forall>m \<in> set (db_messages chat_world). m_state m \<noteq> Queued"
    by (simp_all add: sendable_def offline_chat_def new_composer_def trim utf8_encode_def utf8_char_def V1_LIMITS_def chat_world_def
        db.defs find_by_logical_id_def empty_db_def)
  from unsent_text_is_never_retried [OF this, where d = sample_workers] show ?thesis
    by (auto simp: trim chat_world_def db.defs empty_db_def)
qed

end
