(* ===== verification/Cemp_Container.thy ===== *)
theory Cemp_Container
  imports Cemp_Background Cemp_Foreground Cemp_Vault
begin

text \<open>
  apps/android/src/app-container.ts and background-sync.ts: the composition root of the app, which opens and
  closes the database, the messaging service and the foreground scheduler with the vault, and the
  task that runs it in the background. The native parts (the database driver, the service's
  construction, the caches) are arbitrary calls of the environment of the vault; while one is awaited the vault
  may be locked by its timer. Calls of other methods of the container during an await are not
  interleaved. The refresh of the route tags that an unlock starts without awaiting it runs at its end.
\<close>

section \<open>The container\<close>

datatype app_state = Loading | NotInitialized_App | LockedApp | Ready

record ('w, 'h, 'm) container =
  ap_state :: app_state
  ap_db :: "'h option"
  ap_repos :: bool
  ap_messaging :: "'m option"
  ap_poll :: bool
  ap_sync :: "scheduler option"
  ap_vault :: "'w vault"

record ('w, 'h, 'm) app_deps =
  ad_vault :: "'w vault_deps"
  ad_open :: "string \<Rightarrow> ('w, string, 'h) prog"
  ad_migrate :: "'h \<Rightarrow> ('w, string, unit) prog"
  ad_close :: "'h \<Rightarrow> ('w, string, unit) prog"
  ad_destroy :: "'h \<Rightarrow> ('w, string, unit) prog"
  ad_messaging :: "'h \<Rightarrow> ('w, string, 'm) prog"
  ad_sync_now :: "'m \<Rightarrow> ('w, string, unit) prog"
  ad_route_tags :: "'m \<Rightarrow> ('w, string, code_points list) prog"
  ad_write_tags :: "code_points list \<Rightarrow> ('w, string, unit) prog"
  ad_clear_tags :: "('w, string, unit) prog"
  ad_cancel_periodic :: "('w, string, unit) prog"

type_synonym ('w, 'h, 'm, 'a) app = "(('w, 'h, 'm) container, vault_error, 'a) prog"

definition on_vault :: "('w, 'a) vault_prog \<Rightarrow> ('w, 'h, 'm, 'a) app" where
  "on_vault m = (\<lambda>c. case m (ap_vault c) of (r, v) \<Rightarrow> (r, c\<lparr>ap_vault := v\<rparr>))"

text \<open>An awaited call of the environment, and one that returns at once.\<close>

definition native :: "('w, 'h, 'm) app_deps \<Rightarrow> ('w, string, 'a) prog \<Rightarrow> ('w, 'h, 'm, 'a) app" where
  "native D m = on_vault (awaits (ad_vault D) m)"

definition at_once :: "('w, string, 'a) prog \<Rightarrow> ('w, 'h, 'm, 'a) app" where
  "at_once m = on_vault (\<lambda>v. case m (va_env v) of (r, w) \<Rightarrow> (map_error PlatformThrown r, v\<lparr>va_env := w\<rparr>))"

definition set_app_state :: "app_state \<Rightarrow> ('w, 'h, 'm, unit) app" where
  "set_app_state st = modify (\<lambda>c. c\<lparr>ap_state := st\<rparr>)"

text \<open>What an outside lock leaves: the state of the vault decides.\<close>

definition state_of_vault :: "vault_state \<Rightarrow> app_state" where
  "state_of_vault st = (if st = Uninitialized then NotInitialized_App else LockedApp)"

definition init_container :: "'w vault \<Rightarrow> ('w, 'h, 'm) container" where
  "init_container v = \<lparr>ap_state = state_of_vault (va_state v), ap_db = None, ap_repos = False, ap_messaging = None,
     ap_poll = False, ap_sync = None, ap_vault = v\<rparr>"

definition vault_usable :: "('w, 'h, 'm) app_deps \<Rightarrow> ('w, 'h, 'm, bool) app" where
  "vault_usable D =
     andthen (on_vault (date_now (ad_vault D))) (\<lambda>now.
     asks (\<lambda>c. is_vault_usable \<lparr>vl_ready = (ap_state c = Ready), vl_unlocked = (va_state (ap_vault c) = Unlocked),
       vl_deadline = va_deadline (ap_vault c), vl_now = now\<rparr>))"

section \<open>The poll and the foreground scheduler\<close>

definition stop_poll :: "('w, 'h, 'm) container \<Rightarrow> ('w, 'h, 'm) container" where
  "stop_poll c = c\<lparr>ap_poll := False, ap_sync := None\<rparr>"

definition start_poll :: "('w, 'h, 'm) container \<Rightarrow> ('w, 'h, 'm) container" where
  "start_poll c = (stop_poll c)\<lparr>ap_poll := True, ap_sync := Some (start idle_cadence new_scheduler)\<rparr>"

definition app_state_changed :: "bool \<Rightarrow> ('w, 'h, 'm) container \<Rightarrow> ('w, 'h, 'm) container" where
  "app_state_changed active c = c\<lparr>ap_sync := map_option (if active then resume else pause) (ap_sync c)\<rparr>"

definition set_sync_cadence :: "nat \<Rightarrow> ('w, 'h, 'm) container \<Rightarrow> ('w, 'h, 'm) container" where
  "set_sync_cadence ms c = c\<lparr>ap_sync := map_option (set_cadence ms) (ap_sync c)\<rparr>"

definition sync_now :: "('w, 'h, 'm) container \<Rightarrow> ('w, 'h, 'm) container" where
  "sync_now c = c\<lparr>ap_sync := map_option run_now (ap_sync c)\<rparr>"

definition touch_container :: "('w, 'h, 'm) app_deps \<Rightarrow> ('w, 'h, 'm, unit) app" where
  "touch_container D = andthen (asks (\<lambda>c. va_state (ap_vault c))) (\<lambda>st.
     when_do (st = Unlocked) (on_vault (touch (ad_vault D))))"

section \<open>Opening and closing\<close>

definition open_database :: "('w, 'h, 'm) app_deps \<Rightarrow> ('w, 'h, 'm, unit) app" where
  "open_database D = andthen (asks ap_db) (\<lambda>db.
     if db \<noteq> None then ret ()
     else
       andthen (on_vault (get_database_key (ad_vault D))) (\<lambda>key.
       andthen (at_once (ad_open D (bytes_to_hex key))) (\<lambda>h.
       andthen (modify (\<lambda>c. c\<lparr>ap_db := Some h\<rparr>)) (\<lambda>_.
       andthen (native D (ad_migrate D h)) (\<lambda>_.
       modify (\<lambda>c. c\<lparr>ap_repos := True\<rparr>))))))"

definition close_database :: "('w, 'h, 'm) app_deps \<Rightarrow> ('w, 'h, 'm, unit) app" where
  "close_database D =
     andthen (modify (\<lambda>c. c\<lparr>ap_messaging := None, ap_repos := False\<rparr>)) (\<lambda>_.
     andthen (asks ap_db) (\<lambda>db. case db of
       None \<Rightarrow> ret ()
     | Some h \<Rightarrow> andthen (native D (ad_close D h)) (\<lambda>_. modify (\<lambda>c. c\<lparr>ap_db := None\<rparr>))))"

definition reset_local_data :: "('w, 'h, 'm) app_deps \<Rightarrow> ('w, 'h, 'm, unit) app" where
  "reset_local_data D =
     andthen (asks ap_db) (\<lambda>db.
     andthen (modify (\<lambda>c. c\<lparr>ap_messaging := None, ap_repos := False, ap_db := None\<rparr>)) (\<lambda>_. case db of
       Some h \<Rightarrow> native D (ad_destroy D h)
     | None \<Rightarrow>
         andthen (at_once (ad_open D (concat (replicate 32 ''00'')))) (\<lambda>h. native D (ad_destroy D h))))"

definition init_messaging :: "('w, 'h, 'm) app_deps \<Rightarrow> ('w, 'h, 'm, unit) app" where
  "init_messaging D = andthen (asks (\<lambda>c. (ap_messaging c, ap_db c))) (\<lambda>(m, db). case (m, db) of
       (None, Some h) \<Rightarrow> andthen (native D (ad_messaging D h)) (\<lambda>x. modify (\<lambda>c. c\<lparr>ap_messaging := Some x\<rparr>))
     | _ \<Rightarrow> ret ())"

definition refresh_route_tags :: "('w, 'h, 'm) app_deps \<Rightarrow> ('w, 'h, 'm, unit) app" where
  "refresh_route_tags D = andthen (asks ap_messaging) (\<lambda>m. case m of
       None \<Rightarrow> ret ()
     | Some x \<Rightarrow> catching (andthen (native D (ad_route_tags D x)) (\<lambda>tags. native D (ad_write_tags D tags))) (\<lambda>_. ret ()))"

definition after_vault_unlock :: "('w, 'h, 'm) app_deps \<Rightarrow> ('w, 'h, 'm, unit) app" where
  "after_vault_unlock D = andthen (asks (\<lambda>c. va_state (ap_vault c))) (\<lambda>st.
     if st \<noteq> Unlocked then set_app_state (state_of_vault st)
     else
       andthen (open_database D) (\<lambda>_.
       andthen (init_messaging D) (\<lambda>_.
       andthen (set_app_state Ready) (\<lambda>_.
       andthen (modify start_poll) (\<lambda>_.
       refresh_route_tags D)))))"

definition lock_container :: "('w, 'h, 'm) app_deps \<Rightarrow> ('w, 'h, 'm, unit) app" where
  "lock_container D =
     andthen (modify stop_poll) (\<lambda>_.
     andthen (on_vault lock) (\<lambda>_.
     andthen (close_database D) (\<lambda>_.
     set_app_state LockedApp)))"

definition handle_external_lock :: "('w, 'h, 'm) app_deps \<Rightarrow> ('w, 'h, 'm, unit) app" where
  "handle_external_lock D =
     andthen (modify stop_poll) (\<lambda>_.
     andthen (close_database D) (\<lambda>_.
     andthen (asks (\<lambda>c. va_state (ap_vault c))) (\<lambda>st.
     set_app_state (state_of_vault st))))"

definition poll_tick :: "('w, 'h, 'm) app_deps \<Rightarrow> ('w, 'h, 'm, unit) app" where
  "poll_tick D = andthen (asks (\<lambda>c. va_state (ap_vault c))) (\<lambda>st.
     if st \<noteq> Unlocked then handle_external_lock D else ret ())"

definition reconcile_vault_state :: "('w, 'h, 'm) app_deps \<Rightarrow> ('w, 'h, 'm, unit) app" where
  "reconcile_vault_state D = andthen (asks ap_state) (\<lambda>st.
     if st \<noteq> Ready then ret ()
     else andthen (vault_usable D) (\<lambda>usable.
       if usable then ret ()
       else
         andthen (asks (\<lambda>c. va_state (ap_vault c))) (\<lambda>v.
         andthen (when_do (v = Unlocked) (on_vault lock)) (\<lambda>_.
         handle_external_lock D))))"

definition wipe_container :: "('w, 'h, 'm) app_deps \<Rightarrow> ('w, 'h, 'm, unit) app" where
  "wipe_container D =
     andthen (modify stop_poll) (\<lambda>_.
     andthen (reset_local_data D) (\<lambda>_.
     andthen (native D (ad_cancel_periodic D)) (\<lambda>_.
     andthen (catching (native D (ad_clear_tags D)) (\<lambda>_. ret ())) (\<lambda>_.
     andthen (on_vault (wipe (ad_vault D))) (\<lambda>_.
     set_app_state NotInitialized_App)))))"

section \<open>A contact from a photo\<close>

datatype scan_result = ScanCancelled | ScanNoCode | ScanText code_points

definition scan_contact_from_photo ::
  "('w, string, bytes option) prog \<Rightarrow> (bytes \<Rightarrow> ('w, string, code_points option) prog) \<Rightarrow> ('w, string, scan_result) prog" where
  "scan_contact_from_photo pick scan = andthen pick (\<lambda>picked. case picked of
       None \<Rightarrow> ret ScanCancelled
     | Some b \<Rightarrow> andthen (scan b) (\<lambda>found. ret (case found of None \<Rightarrow> ScanNoCode | Some t \<Rightarrow> ScanText t)))"

section \<open>The background task\<close>

text \<open>The parts of a tick that do not need the container; the tick runs over failures of the platform.\<close>

record 'w tick_platform =
  tp_read :: "('w, string, tag_cache option) prog"
  tp_write :: "tag_cache \<Rightarrow> ('w, string, unit) prog"
  tp_list :: "code_points \<Rightarrow> ('w, string, code_points list) prog"
  tp_notify :: "nat \<Rightarrow> ('w, string, unit) prog"

definition tick_error :: "vault_error \<Rightarrow> failure" where
  "tick_error e = (case e of PlatformThrown t \<Rightarrow> OtherError t | _ \<Rightarrow> OtherError ''VaultError'')"

definition in_tick :: "('w, 'h, 'm, 'a) app \<Rightarrow> (('w, 'h, 'm) container, failure, 'a) prog" where
  "in_tick m = catching m (\<lambda>e. throw (tick_error e))"

definition require_messaging :: "(('w, 'h, 'm) container, failure, 'm) prog" where
  "require_messaging = andthen (asks ap_messaging) (\<lambda>m. case m of
       None \<Rightarrow> throw (OtherError ''backgroundSyncTask: the vault reports unlocked but messaging is unavailable'')
     | Some x \<Rightarrow> ret x)"

definition tick_deps_of ::
  "('w, 'h, 'm) app_deps \<Rightarrow> 'w tick_platform \<Rightarrow> ('w, 'h, 'm) container tick_deps" where
  "tick_deps_of D P = \<lparr>
     td_unlocked = in_tick (vault_usable D),
     td_full_sync = andthen require_messaging (\<lambda>m. in_tick (native D (ad_sync_now D m))),
     td_refresh = andthen require_messaging (\<lambda>m. in_tick (andthen (native D (ad_route_tags D m))
       (\<lambda>tags. native D (ad_write_tags D tags)))),
     td_read = in_tick (native D (tp_read P)),
     td_write = (\<lambda>c. in_tick (native D (tp_write P c))),
     td_list = (\<lambda>t. in_tick (native D (tp_list P t))),
     td_notify = (\<lambda>n. in_tick (native D (tp_notify P n)))\<rparr>"

text \<open>The first reading of the vault and the outcome are only logged; an error inside the tick is, too.\<close>

definition run_tick :: "('w, 'h, 'm) app_deps \<Rightarrow> 'w tick_platform \<Rightarrow> (('w, 'h, 'm) container, failure, unit) prog" where
  "run_tick D P =
     andthen (in_tick (reconcile_vault_state D)) (\<lambda>_.
     andthen (in_tick (vault_usable D)) (\<lambda>_.
     catching (andthen (run_background_sync (tick_deps_of D P)) (\<lambda>_. ret ())) (\<lambda>_. ret ())))"

text \<open>A tick of a process that has no container.\<close>

definition cold_tick :: "'w tick_platform \<Rightarrow> ('w, failure, unit) prog" where
  "cold_tick P = (let plain = (\<lambda>e. throw (OtherError e)) in
     catching (andthen (run_background_sync \<lparr>td_unlocked = ret False, td_full_sync = throw (OtherError []),
       td_refresh = throw (OtherError []), td_read = catching (tp_read P) plain,
       td_write = (\<lambda>c. catching (tp_write P c) (\<lambda>e. throw (OtherError e))),
       td_list = (\<lambda>t. catching (tp_list P t) (\<lambda>e. throw (OtherError e))),
       td_notify = (\<lambda>n. catching (tp_notify P n) (\<lambda>e. throw (OtherError e)))\<rparr>) (\<lambda>_. ret ())) (\<lambda>_. ret ()))"

section \<open>A locked vault stays locked\<close>

definition sealed :: "'w vault \<Rightarrow> bool" where
  "sealed v \<longleftrightarrow> va_state v \<noteq> Unlocked \<and> va_vek v = None \<and> va_seed v = None \<and> va_db_key v = None"

lemma sealed_lock [simp]: "sealed (lock_now v)"
  by (simp add: sealed_def lock_now_def clear_live_state_def clear_auto_lock_timer_def Let_def)

lemma sealed_env [simp]: "sealed (v\<lparr>va_env := w\<rparr>) = sealed v"
  by (simp add: sealed_def)

abbreviation closed :: "('w, 'h, 'm) container \<Rightarrow> bool" where
  "closed c \<equiv> sealed (ap_vault c)"

lemma native_sealed [keeps_rules]: "keeps closed (native D m)"
  by (auto simp: keeps_def native_def on_vault_def awaits_def split: prod.splits)

lemma at_once_sealed [keeps_rules]: "keeps closed (at_once m)"
  by (auto simp: keeps_def at_once_def on_vault_def split: prod.splits)

lemma clock_sealed [keeps_rules]: "keeps closed (vault_usable D)"
  by (auto simp: keeps_def vault_usable_def on_vault_def date_now_def andthen_def asks_def split: prod.splits)

lemma modify_sealed [keeps_rules]: "(\<And>c. ap_vault (f c) = ap_vault c) \<Longrightarrow> keeps closed (modify f)"
  by (simp add: keeps_def modify_def)

lemma close_sealed [keeps_rules]: "keeps closed (close_database D)"
  by (auto simp: close_database_def intro!: keeps_andthen keeps_asks keeps_ret keeps_option native_sealed modify_sealed)

lemma external_sealed [keeps_rules]: "keeps closed (handle_external_lock D)"
  by (auto simp: handle_external_lock_def stop_poll_def set_app_state_def
      intro!: keeps_andthen keeps_asks close_sealed modify_sealed)

lemma in_tick_keeps: "keeps I m \<Longrightarrow> keeps I (in_tick m)"
  by (auto simp: in_tick_def intro!: keeps_catching keeps_throw)

lemma probe_sealed: "keeps closed (probe_tags (tick_deps_of D P) ts a)"
  by (induction ts arbitrary: a) (auto simp: tick_deps_of_def intro!: keeps_ret keeps_andthen keeps_catching in_tick_keeps native_sealed)

lemma locked_tick_sealed: "keeps closed (locked_tick (tick_deps_of D P) c)"
  by (auto simp: locked_tick_def Let_def split: prod.splits
      intro!: keeps_andthen keeps_catching keeps_ret keeps_if probe_sealed)
    (auto simp: tick_deps_of_def intro!: in_tick_keeps native_sealed)

section \<open>The tick without the sync\<close>

lemma probe_same: "probe_tags (T\<lparr>td_full_sync := x, td_refresh := y\<rparr>) ts = probe_tags T ts"
proof (induction ts)
  case (Cons t ts)
  show ?case by (rule ext) (simp add: Cons.IH)
qed (rule ext, simp)

lemma locked_tick_same: "locked_tick (T\<lparr>td_full_sync := x, td_refresh := y\<rparr>) c = locked_tick T c"
  by (simp add: locked_tick_def probe_same Let_def cong: if_cong)

lemma usable_sealed: "closed c \<Longrightarrow> \<exists>v. vault_usable D c = (Inr False, c\<lparr>ap_vault := v\<rparr>) \<and> sealed v"
  by (auto simp: vault_usable_def on_vault_def date_now_def andthen_def asks_def is_vault_usable_def sealed_def split: prod.splits)

definition probe_only :: "'s tick_deps \<Rightarrow> ('s, failure, tick_outcome) prog" where
  "probe_only T = andthen (td_read T) (\<lambda>cache. case cache of
       None \<Rightarrow> ret Idle
     | Some c \<Rightarrow> if tc_tags c = [] then ret Idle else locked_tick T c)"

lemma background_sealed:
  assumes "closed c"
  shows "\<exists>v. sealed v \<and> run_background_sync (tick_deps_of D P) c = probe_only (tick_deps_of D P) (c\<lparr>ap_vault := v\<rparr>)"
proof -
  obtain v where "vault_usable D c = (Inr False, c\<lparr>ap_vault := v\<rparr>)" "sealed v" using usable_sealed [OF assms] by blast
  then show ?thesis
    by (intro exI [of _ v]) (simp add: run_background_sync_def probe_only_def tick_deps_of_def in_tick_def catching_def andthen_def)
qed

lemma tick_deps_other:
  "tick_deps_of (D\<lparr>ad_sync_now := f\<rparr>) P = (tick_deps_of D P)
     \<lparr>td_full_sync := td_full_sync (tick_deps_of (D\<lparr>ad_sync_now := f\<rparr>) P), td_refresh := td_refresh (tick_deps_of D P)\<rparr>"
  by (simp add: tick_deps_of_def native_def vault_usable_def)

lemma probe_only_same: "probe_only (T\<lparr>td_full_sync := x, td_refresh := y\<rparr>) = probe_only T"
  by (simp add: probe_only_def locked_tick_same cong: if_cong option.case_cong)

lemma background_same:
  assumes "closed c"
  shows "run_background_sync (tick_deps_of (D\<lparr>ad_sync_now := f\<rparr>) P) c = run_background_sync (tick_deps_of D P) c"
proof -
  obtain v where v: "vault_usable D c = (Inr False, c\<lparr>ap_vault := v\<rparr>)" using usable_sealed [OF assms] by blast
  have other: "run_background_sync T c = probe_only T (c\<lparr>ap_vault := v\<rparr>)" if "td_unlocked T = in_tick (vault_usable D)"
    for T :: "('a, 'b, 'c) container tick_deps"
    using v that by (simp add: run_background_sync_def probe_only_def in_tick_def catching_def andthen_def)
  have same: "td_unlocked (tick_deps_of (D\<lparr>ad_sync_now := f\<rparr>) P) = in_tick (vault_usable D)"
      "td_unlocked (tick_deps_of D P) = in_tick (vault_usable D)"
    by (simp_all add: tick_deps_of_def vault_usable_def)
  show ?thesis unfolding other [OF same(1)] other [OF same(2)] by (subst tick_deps_other) (simp only: probe_only_same)
qed

lemma background_keeps_sealed: "closed c \<Longrightarrow> closed (snd (run_background_sync (tick_deps_of D P) c))"
proof -
  assume "closed c"
  then obtain v where v: "sealed v" "run_background_sync (tick_deps_of D P) c = probe_only (tick_deps_of D P) (c\<lparr>ap_vault := v\<rparr>)"
    using background_sealed by blast
  have "keeps closed (probe_only (tick_deps_of D P))"
    unfolding probe_only_def
    by (auto intro!: keeps_andthen keeps_option keeps_if keeps_ret locked_tick_sealed) (auto simp: tick_deps_of_def intro!: in_tick_keeps native_sealed)
  with v show ?thesis by (simp add: keeps_def)
qed

text \<open>An unusable vault is sealed by the reconciliation, which does not sync.\<close>

lemma usable_same: "vault_usable (D\<lparr>ad_sync_now := f\<rparr>) = vault_usable D"
  by (simp add: vault_usable_def)

lemma reconcile_same: "reconcile_vault_state (D\<lparr>ad_sync_now := f\<rparr>) = reconcile_vault_state D"
  by (simp add: reconcile_vault_state_def vault_usable_def handle_external_lock_def close_database_def native_def cong: if_cong option.case_cong)

lemma reconcile_seals:
  assumes "ap_state c = Ready" and "va_state (ap_vault c) \<noteq> Unlocked \<longrightarrow> closed c"
    and "va_state (ap_vault c) \<noteq> Unlocked \<or> (\<exists>d. va_deadline (ap_vault c) = Some d \<and> d \<le> fst (vd_clock (ad_vault D) (va_env (ap_vault c))))"
  shows "closed (snd (reconcile_vault_state D c))"
proof -
  obtain now w where clock: "vd_clock (ad_vault D) (va_env (ap_vault c)) = (now, w)" by fastforce
  let ?c = "c\<lparr>ap_vault := ap_vault c\<lparr>va_env := w\<rparr>\<rparr>"
  have usable: "vault_usable D c = (Inr False, ?c)"
    using assms(3) clock
    by (auto simp: vault_usable_def on_vault_def date_now_def andthen_def asks_def is_vault_usable_def)
  have run: "reconcile_vault_state D c = andthen (when_do (va_state (ap_vault ?c) = Unlocked) (on_vault lock)) (\<lambda>_. handle_external_lock D) ?c"
    using assms(1) usable by (simp add: reconcile_vault_state_def andthen_def asks_def)
  obtain u where u: "when_do (va_state (ap_vault ?c) = Unlocked) (on_vault lock) ?c = (Inr (), u)" "closed u"
    using assms(2) by (cases "va_state (ap_vault c) = Unlocked")
      (auto simp: when_do_def on_vault_def lock_def modify_def ret_def)
  have "closed (snd (handle_external_lock D u))" using external_sealed u(2) by (rule keepsD)
  then show ?thesis unfolding run using u by (simp add: andthen_def)
qed

section \<open>The states of the app\<close>

text \<open>
  One operation of the container, of the scheduler in it, or anything the screens and the timer do to the
  vault.
\<close>

inductive app_step :: "('w, 'h, 'm) app_deps \<Rightarrow> ('w, 'h, 'm) container \<Rightarrow> ('w, 'h, 'm) container \<Rightarrow> bool" for D where
  "app_step D c (snd (after_vault_unlock D c))"
| "app_step D c (snd (lock_container D c))"
| "ap_poll c \<Longrightarrow> app_step D c (snd (poll_tick D c))"
| "app_step D c (snd (reconcile_vault_state D c))"
| "app_step D c (snd (reset_local_data D c))"
| "app_step D c (snd (wipe_container D c))"
| "app_step D c (snd (run_tick D P c))"
| "app_step D c (app_state_changed active c)"
| "app_step D c (set_sync_cadence ms c)"
| "app_step D c (sync_now c)"
| "ap_sync c = Some s \<Longrightarrow> sync_step s e s' \<Longrightarrow> app_step D c (c\<lparr>ap_sync := Some s'\<rparr>)"
| "app_step D c (c\<lparr>ap_vault := v\<rparr>)"

inductive_cases app_stepE: "app_step D c c'"

inductive app_reachable :: "('w, 'h, 'm) app_deps \<Rightarrow> ('w, 'h, 'm) container \<Rightarrow> bool" for D where
  opened: "app_reachable D (init_container v)"
| stepped: "app_reachable D c \<Longrightarrow> app_step D c c' \<Longrightarrow> app_reachable D c'"

definition app_ok :: "('w, 'h, 'm) container \<Rightarrow> bool" where
  "app_ok c \<longleftrightarrow> ((ap_messaging c \<noteq> None \<or> ap_repos c) \<longrightarrow> ap_db c \<noteq> None)
     \<and> (ap_sync c \<noteq> None \<longleftrightarrow> ap_poll c) \<and> (case ap_sync c of None \<Rightarrow> True | Some s \<Rightarrow> sync_reachable s)"

lemma on_vault_ok [keeps_rules]: "keeps app_ok (on_vault m)"
  by (auto simp: keeps_def on_vault_def app_ok_def split: prod.splits)

lemma native_ok [keeps_rules]: "keeps app_ok (native D m)" "keeps app_ok (at_once m)" "keeps app_ok (vault_usable D)"
  by (auto simp: native_def at_once_def vault_usable_def intro!: keeps_andthen keeps_asks on_vault_ok)

lemma state_ok [keeps_rules]: "keeps app_ok (set_app_state st)"
  by (simp add: set_app_state_def keeps_def modify_def app_ok_def)

lemma stop_poll_ok: "app_ok c \<Longrightarrow> app_ok (stop_poll c)"
  by (simp add: app_ok_def stop_poll_def)

lemma start_poll_ok: "app_ok c \<Longrightarrow> app_ok (start_poll c)"
proof -
  have "sync_reachable (start idle_cadence new_scheduler)"
    using sync_reachable.after [OF sync_reachable.initial sync_step.intros(1)] .
  then show "app_ok c \<Longrightarrow> app_ok (start_poll c)" by (simp add: app_ok_def start_poll_def stop_poll_def)
qed

lemma modify_ok: "(\<And>c. app_ok c \<Longrightarrow> app_ok (f c)) \<Longrightarrow> keeps app_ok (modify f)"
  by (simp add: keeps_def modify_def)

lemma clear_ok: "app_ok c \<Longrightarrow> app_ok (c\<lparr>ap_messaging := None, ap_repos := False\<rparr>)"
  "app_ok c \<Longrightarrow> app_ok (c\<lparr>ap_messaging := None, ap_repos := False, ap_db := None\<rparr>)"
  by (simp_all add: app_ok_def)

text \<open>Writing a field that needs the database while the database is there.\<close>

lemma keeps_with_db:
  assumes "keeps (\<lambda>c. ap_db c = Some h) m" and "keeps app_ok m"
    and "\<And>x c. ap_db c = Some h \<Longrightarrow> app_ok c \<Longrightarrow> app_ok (snd (f x c))"
  shows "ap_db c = Some h \<Longrightarrow> app_ok c \<Longrightarrow> app_ok (snd (andthen m f c))"
proof -
  assume c: "ap_db c = Some h" "app_ok c"
  obtain r u where run: "m c = (r, u)" by fastforce
  have "ap_db (snd (m c)) = Some h" "app_ok (snd (m c))"
    using assms(1) [THEN keepsD, of c] assms(2) [THEN keepsD, of c] c by simp_all
  then have "ap_db u = Some h" "app_ok u" using run by simp_all
  then show ?thesis using run assms(3) by (cases r) (simp_all add: andthen_def)
qed

lemma native_keeps_db: "keeps (\<lambda>c. ap_db c = x) (native D m)"
  by (auto simp: keeps_def native_def on_vault_def split: prod.splits)

lemma close_ok [keeps_rules]: "keeps app_ok (close_database D)"
  unfolding keeps_def
proof (intro allI impI)
  fix c :: "('a, 'b, 'c) container" assume ok: "app_ok c"
  let ?c = "c\<lparr>ap_messaging := None, ap_repos := False\<rparr>"
  have c: "app_ok ?c" using clear_ok(1) [OF ok] .
  show "app_ok (snd (close_database D c))"
  proof (cases "ap_db c")
    case None
    with c show ?thesis by (simp add: close_database_def andthen_def modify_def asks_def ret_def)
  next
    case (Some h)
    obtain r u where u: "native D (ad_close D h) ?c = (r, u)" by fastforce
    have "snd (native D (ad_close D h) ?c) = u" using u by simp
    then obtain v where "u = ?c\<lparr>ap_vault := v\<rparr>" by (auto simp: native_def on_vault_def split: prod.splits)
    with Some u c show ?thesis
      by (cases r) (auto simp: close_database_def andthen_def modify_def asks_def app_ok_def split: option.splits)
  qed
qed

lemma asks_then: "andthen (asks f) g c = g (f c) c"
  by (simp add: andthen_def asks_def)

lemma modify_then: "andthen (modify f) g c = g () (f c)"
  by (simp add: andthen_def modify_def)

lemma open_ok [keeps_rules]: "keeps app_ok (open_database D)"
proof -
  have migrated: "app_ok (snd (andthen (native D (ad_migrate D h)) (\<lambda>_. modify (\<lambda>c. c\<lparr>ap_repos := True\<rparr>)) c))"
    if "ap_db c = Some h" "app_ok c" for h c
    by (rule keeps_with_db [OF native_keeps_db native_ok(1) _ that]) (simp add: modify_def app_ok_def)
  have opened_ok: "app_ok (c\<lparr>ap_db := Some h\<rparr>)" if "app_ok c" for h c
    using that by (simp add: app_ok_def)
  have inner: "keeps app_ok (andthen (modify (\<lambda>c. c\<lparr>ap_db := Some h\<rparr>)) (\<lambda>_.
       andthen (native D (ad_migrate D h)) (\<lambda>_. modify (\<lambda>c. c\<lparr>ap_repos := True\<rparr>))))" for h
    unfolding keeps_def by (auto simp: modify_then intro!: migrated opened_ok)
  show ?thesis unfolding open_database_def
    by (rule keeps_asks keeps_if keeps_ret on_vault_ok native_ok inner keeps_andthen)+
qed

lemma init_messaging_ok [keeps_rules]: "keeps app_ok (init_messaging D)"
  unfolding keeps_def
proof (intro allI impI)
  fix c :: "('a, 'b, 'c) container" assume ok: "app_ok c"
  have built: "app_ok (snd (andthen (native D (ad_messaging D h)) (\<lambda>x. modify (\<lambda>c. c\<lparr>ap_messaging := Some x\<rparr>)) c))"
    if "ap_db c = Some h" for h
    by (rule keeps_with_db [OF native_keeps_db native_ok(1) _ that ok]) (simp add: modify_def app_ok_def)
  show "app_ok (snd (init_messaging D c))"
    using ok by (cases "ap_messaging c"; cases "ap_db c") (simp_all add: init_messaging_def asks_then ret_def built)
qed

lemma container_ok:
  "keeps app_ok (after_vault_unlock D)" "keeps app_ok (lock_container D)" "keeps app_ok (poll_tick D)"
  "keeps app_ok (reconcile_vault_state D)" "keeps app_ok (reset_local_data D)" "keeps app_ok (wipe_container D)"
  by (auto simp: after_vault_unlock_def lock_container_def poll_tick_def reconcile_vault_state_def handle_external_lock_def
      reset_local_data_def wipe_container_def refresh_route_tags_def
      intro!: keeps_andthen keeps_asks keeps_if keeps_ret keeps_catching keeps_when keeps_option on_vault_ok native_ok state_ok
        close_ok open_ok init_messaging_ok modify_ok stop_poll_ok start_poll_ok clear_ok)

lemma tick_ok: "keeps app_ok (run_tick D P)"
proof -
  have probe: "keeps app_ok (probe_tags (tick_deps_of D P) ts a)" for ts a
    by (induction ts arbitrary: a) (auto simp: tick_deps_of_def intro!: keeps_ret keeps_andthen keeps_catching in_tick_keeps native_ok)
  have locked: "keeps app_ok (locked_tick (tick_deps_of D P) c)" for c
    by (auto simp: locked_tick_def Let_def split: prod.splits intro!: keeps_andthen keeps_catching keeps_ret keeps_if probe)
      (auto simp: tick_deps_of_def intro!: in_tick_keeps native_ok)
  have "keeps app_ok (run_background_sync (tick_deps_of D P))"
    unfolding run_background_sync_def
    by (auto intro!: keeps_andthen keeps_if keeps_ret keeps_option locked)
      (auto simp: tick_deps_of_def require_messaging_def intro!: in_tick_keeps native_ok keeps_andthen keeps_asks keeps_option keeps_throw keeps_ret)
  then show ?thesis
    unfolding run_tick_def by (intro keeps_andthen keeps_catching keeps_ret in_tick_keeps container_ok native_ok)
qed

lemma step_keeps_ok: "app_step D c c' \<Longrightarrow> app_ok c \<Longrightarrow> app_ok c'"
proof (erule app_stepE)
  assume ok: "app_ok c"
  have moved: "app_ok (c\<lparr>ap_sync := map_option f (ap_sync c)\<rparr>)" if "\<And>s. sync_reachable s \<Longrightarrow> sync_reachable (f s)" for f
    using ok that by (cases "ap_sync c") (simp_all add: app_ok_def)
  have steps: "sync_reachable s \<Longrightarrow> sync_reachable (resume s)" "sync_reachable s \<Longrightarrow> sync_reachable (pause s)"
    "sync_reachable s \<Longrightarrow> sync_reachable (set_cadence ms s)" "sync_reachable s \<Longrightarrow> sync_reachable (run_now s)" for s ms
    by (blast intro: sync_reachable.after sync_step.intros)+
  show "app_ok c'" if "c' = app_state_changed active c" for active
    using moved steps that by (simp add: app_state_changed_def)
  show "app_ok c'" if "c' = set_sync_cadence ms c" for ms using moved steps that by (simp add: set_sync_cadence_def)
  show "app_ok c'" if "c' = sync_now c" using moved steps that by (simp add: sync_now_def)
  show "app_ok c'" if "c' = c\<lparr>ap_sync := Some s'\<rparr>" "ap_sync c = Some s" "sync_step s e s'" for s e s'
    using ok that by (auto simp: app_ok_def intro: sync_reachable.after)
  show "app_ok c'" if "c' = c\<lparr>ap_vault := v\<rparr>" for v using ok that by (simp add: app_ok_def)
qed (auto dest: container_ok [THEN keepsD] tick_ok [THEN keepsD])

lemma reachable_app_ok: "app_reachable D c \<Longrightarrow> app_ok c"
proof (induction rule: app_reachable.induct)
  case (opened v)
  then show ?case by (simp add: app_ok_def init_container_def)
next
  case (stepped c c')
  then show ?case by (simp add: step_keeps_ok)
qed

lemma scheduler_bounds: "sync_reachable s \<Longrightarrow> fs_syncs s \<le> 1 \<and> length (fs_timers s) \<le> 1"
  by (drule reachable_ok) (auto simp: sync_ok_def split: option.splits if_splits)

section \<open>An unlock after a failed migration\<close>

text \<open>What an awaited call leaves of a container when the vault is not locked under it.\<close>

lemma native_uninterrupted:
  assumes "\<And>w. vd_interrupted (ad_vault D) w = (False, w)"
  shows "native D m c = (map_error PlatformThrown (fst (m (va_env (ap_vault c)))),
    c\<lparr>ap_vault := ap_vault c\<lparr>va_env := snd (m (va_env (ap_vault c)))\<rparr>\<rparr>)"
  using assms by (simp add: native_def on_vault_def awaits_def split: prod.splits)

lemma key_cached:
  "va_state (ap_vault c) = Unlocked \<Longrightarrow> va_db_key (ap_vault c) = Some k \<Longrightarrow> on_vault (get_database_key V) c = (Inr k, c)"
  by (simp add: on_vault_def get_database_key_def assert_unlocked_def prog_defs)

lemma opened_at_once:
  "(\<And>w. ad_open D k w = (Inr h, w)) \<Longrightarrow> at_once (ad_open D k) c = (Inr h, c)"
  by (simp add: at_once_def on_vault_def)

text \<open>The first unlock stops in the migration, with the handle kept.\<close>

lemma migration_fails:
  assumes "\<And>w. vd_interrupted (ad_vault D) w = (False, w)" and "\<And>w. ad_open D (bytes_to_hex k) w = (Inr h, w)"
    and "\<And>w. isl (fst (ad_migrate D h w))"
    and "va_state (ap_vault c) = Unlocked" and "va_db_key (ap_vault c) = Some k" and "ap_db c = None"
  shows "\<exists>e w. after_vault_unlock D c = (Inl e, c\<lparr>ap_db := Some h, ap_vault := ap_vault c\<lparr>va_env := w\<rparr>\<rparr>)"
proof -
  obtain e w where run: "ad_migrate D h (va_env (ap_vault c)) = (Inl e, w)"
    using assms(3) [of "va_env (ap_vault c)"] by (cases "ad_migrate D h (va_env (ap_vault c))") (auto simp: isl_def)
  have "open_database D c = (Inl (PlatformThrown e), c\<lparr>ap_db := Some h, ap_vault := ap_vault c\<lparr>va_env := w\<rparr>\<rparr>)"
    using key_cached [OF assms(4,5)] assms(6) run
    by (simp add: open_database_def asks_then modify_then andthen_def [of "on_vault _"] andthen_def [of "at_once _"] andthen_def [of "native _ _"]
        opened_at_once [OF assms(2)] native_uninterrupted [OF assms(1)] map_error_def)
  then show ?thesis using assms(4) by (simp add: after_vault_unlock_def asks_then) (auto simp: andthen_def [of "open_database _"])
qed

lemma tags_leave_container: "\<exists>v. refresh_route_tags D c = (Inr (), c\<lparr>ap_vault := v\<rparr>)"
proof (cases "ap_messaging c")
  case None
  then show ?thesis by (auto simp: refresh_route_tags_def asks_then ret_def intro: exI [of _ "ap_vault c"])
next
  case (Some m)
  then show ?thesis
    by (auto simp: refresh_route_tags_def catching_def ret_def andthen_def asks_def native_def on_vault_def split: prod.splits sum.splits)
qed

lemma second_unlock:
  assumes "\<And>w. vd_interrupted (ad_vault D) w = (False, w)" and "\<And>w. \<not> isl (fst (ad_messaging D h w))"
    and "va_state (ap_vault c) = Unlocked" and "ap_db c = Some h" and "ap_messaging c = None"
  shows "\<exists>m v. after_vault_unlock D c = (Inr (), (start_poll (c\<lparr>ap_messaging := Some m, ap_state := Ready\<rparr>))\<lparr>ap_vault := v\<rparr>)"
proof -
  obtain m w where run: "ad_messaging D h (va_env (ap_vault c)) = (Inr m, w)"
    using assms(2) [of "va_env (ap_vault c)"] by (cases "ad_messaging D h (va_env (ap_vault c))") (metis fst_conv isl_def sum.exhaust)
  let ?c = "c\<lparr>ap_messaging := Some m, ap_vault := ap_vault c\<lparr>va_env := w\<rparr>\<rparr>"
  have built: "open_database D c = (Inr (), c)" "init_messaging D c = (Inr (), ?c)"
    using assms(4,5) run
    by (simp_all add: open_database_def init_messaging_def asks_then ret_def andthen_def [of "native _ _"] native_uninterrupted [OF assms(1)] modify_def map_error_def)
  obtain v where "refresh_route_tags D (start_poll (?c\<lparr>ap_state := Ready\<rparr>)) = (Inr (), (start_poll (?c\<lparr>ap_state := Ready\<rparr>))\<lparr>ap_vault := v\<rparr>)"
    using tags_leave_container by blast
  then have "after_vault_unlock D c = (Inr (), (start_poll (?c\<lparr>ap_state := Ready\<rparr>))\<lparr>ap_vault := v\<rparr>)"
    using assms(3) built by (simp add: after_vault_unlock_def asks_then andthen_def [of "open_database _"] andthen_def [of "init_messaging _"] set_app_state_def modify_then)
  then show ?thesis by (auto simp: start_poll_def stop_poll_def)
qed

section \<open>A device for the examples\<close>

definition plain_vault_deps :: "unit vault_deps" where
  "plain_vault_deps = \<lparr>vd_suite = sample_suite,
     vd_bip39 = \<lparr>bl_from_entropy = (\<lambda>_. []), bl_to_entropy = (\<lambda>_. None), bl_validate = (\<lambda>_. False), bl_seed = (\<lambda>_ _. [])\<rparr>,
     vd_read = (\<lambda>_. ret None), vd_write = (\<lambda>_ _. ret ()), vd_delete = (\<lambda>_. ret ()), vd_wrap = (\<lambda>b _. ret b), vd_unwrap = ret,
     vd_biometric_available = ret False, vd_delete_key = ret (), vd_derive_kek = (\<lambda>_ _. ret []), vd_random = (\<lambda>n w. (replicate n 0, w)),
     vd_clock = (\<lambda>w. (1000, w)), vd_interrupted = (\<lambda>w. (False, w))\<rparr>"

definition broken_migration :: "(unit, nat, nat) app_deps" where
  "broken_migration = \<lparr>ad_vault = plain_vault_deps, ad_open = (\<lambda>_. ret 7), ad_migrate = (\<lambda>_. throw ''DatabaseError''), ad_close = (\<lambda>_. ret ()),
     ad_destroy = (\<lambda>_. ret ()), ad_messaging = (\<lambda>_. ret 1), ad_sync_now = (\<lambda>_. ret ()), ad_route_tags = (\<lambda>_. ret []),
     ad_write_tags = (\<lambda>_. ret ()), ad_clear_tags = ret (), ad_cancel_periodic = ret ()\<rparr>"

definition idle_platform :: "unit tick_platform" where
  "idle_platform = \<lparr>tp_read = ret None, tp_write = (\<lambda>_. ret ()), tp_list = (\<lambda>_. ret []), tp_notify = (\<lambda>_. ret ())\<rparr>"

definition unlocked_at :: "int \<Rightarrow> unit vault" where
  "unlocked_at d = \<lparr>va_state = Unlocked, va_vek = Some [1], va_seed = Some [2], va_db_key = Some [3], va_auto_lock = 300,
     va_deadline = Some d, va_env = ()\<rparr>"

section \<open>Properties\<close>

text \<open>
  C9. A background tick never works on a vault that should be locked: when the runtime wakes with a container that still
  believes to be ready, but the vault is locked or its inactivity deadline has passed, the tick does the same
  whatever a full sync would do, so it does not run one, and after it the vault is locked and holds no secret.
\<close>

theorem overdue_vault_is_not_synced:
  assumes "ap_state c = Ready" and "va_state (ap_vault c) \<noteq> Unlocked \<longrightarrow> sealed (ap_vault c)"
    and "va_state (ap_vault c) \<noteq> Unlocked \<or> (\<exists>d. va_deadline (ap_vault c) = Some d \<and> d \<le> fst (vd_clock (ad_vault D) (va_env (ap_vault c))))"
  shows "run_tick (D\<lparr>ad_sync_now := f\<rparr>) P c = run_tick D P c \<and> sealed (ap_vault (snd (run_tick D P c)))"
proof (cases "reconcile_vault_state D c")
  case (Pair r u)
  then have u: "closed u" using reconcile_seals [OF assms] by simp
  show ?thesis
  proof (cases r)
    case (Inl e)
    with Pair u show ?thesis by (simp add: run_tick_def in_tick_def reconcile_same catching_def andthen_def throw_def)
  next
    case (Inr x)
    obtain b w where b: "vault_usable D u = (Inr b, w)"
      by (cases "vd_clock (ad_vault D) (va_env (ap_vault u))") (simp add: vault_usable_def on_vault_def date_now_def andthen_def asks_def)
    then have w: "closed w" using keepsD [OF clock_sealed, where D1 = D and s = u] u by simp
    obtain q t where q: "run_background_sync (tick_deps_of D P) w = (q, t)" by fastforce
    then have "closed t" using background_keeps_sealed [OF w, where D = D and P = P] by simp
    with Pair Inr b q background_same [OF w, where D = D and f = f and P = P] show ?thesis
      by (cases q) (simp_all add: run_tick_def in_tick_def reconcile_same usable_same catching_def andthen_def ret_def)
  qed
qed


theorem overdue_vault_witness:
  "\<exists>c. c = (init_container (unlocked_at 900) :: (unit, nat, nat) container)\<lparr>ap_state := Ready\<rparr>
     \<and> run_tick (broken_migration\<lparr>ad_sync_now := \<lambda>_. throw ''sync''\<rparr>) idle_platform c = run_tick broken_migration idle_platform c
     \<and> sealed (ap_vault (snd (run_tick broken_migration idle_platform c)))"
  using overdue_vault_is_not_synced [of "(init_container (unlocked_at 900) :: (unit, nat, nat) container)\<lparr>ap_state := Ready\<rparr>"
      broken_migration "\<lambda>_. throw ''sync''" idle_platform]
  by (simp add: init_container_def unlocked_at_def broken_migration_def plain_vault_deps_def)

text \<open>
  C10. Whatever sequence of unlocks, locks, resets, wipes, ticks of the poll and of the background, lifecycle events and
  changes of the vault the app goes through, and wherever one of them fails, the messaging service and the
  repositories exist only over an open database, the foreground scheduler exists exactly while the
  poll of the vault runs, and it never runs two syncs or two timers.
\<close>

theorem app_services_need_the_database:
  assumes "app_reachable D c"
  shows "((ap_messaging c \<noteq> None \<or> ap_repos c) \<longrightarrow> ap_db c \<noteq> None) \<and> (ap_sync c \<noteq> None \<longleftrightarrow> ap_poll c)
     \<and> (\<forall>s. ap_sync c = Some s \<longrightarrow> fs_syncs s \<le> 1 \<and> length (fs_timers s) \<le> 1)"
  using reachable_app_ok [OF assms] scheduler_bounds by (auto simp: app_ok_def)

theorem app_services_witness:
  "\<exists>c. c = snd (after_vault_unlock (broken_migration\<lparr>ad_migrate := \<lambda>_. ret ()\<rparr>) (init_container (unlocked_at 5000)))
     \<and> ap_messaging c = Some 1 \<and> ap_repos c \<and> ap_poll c \<and> ap_db c \<noteq> None \<and> ap_sync c \<noteq> None"
proof -
  let ?D = "broken_migration\<lparr>ad_migrate := \<lambda>_. ret ()\<rparr>"
  let ?c = "snd (after_vault_unlock ?D (init_container (unlocked_at 5000)))"
  have "app_reachable ?D ?c" by (rule stepped [OF opened app_step.intros(1)])
  moreover have "ap_messaging ?c = Some 1" "ap_repos ?c" "ap_poll ?c"
    by (simp_all add: after_vault_unlock_def open_database_def init_messaging_def asks_then modify_then key_cached native_def at_once_def on_vault_def
      awaits_def andthen_def ret_def modify_def set_app_state_def refresh_route_tags_def catching_def start_poll_def stop_poll_def
      init_container_def unlocked_at_def broken_migration_def plain_vault_deps_def get_database_key_def assert_unlocked_def asks_def map_error_def)
  ultimately show ?thesis using app_services_need_the_database [of ?D ?c] by blast
qed

text \<open>
  A lock of the app locks the vault first: whether or not the database can be closed, afterwards the vault holds no
  secret, the messaging service and the repositories are gone, and no poll and no sync is left; the
  database stays open only when closing it failed, and then the state is not set.
\<close>

theorem lock_seals_the_app:
  "case lock_container D c of (r, t) \<Rightarrow> sealed (ap_vault t) \<and> ap_messaging t = None \<and> \<not> ap_repos t \<and> \<not> ap_poll t \<and> ap_sync t = None
     \<and> (if isl r then ap_db t = ap_db c \<and> ap_state t = ap_state c else ap_db t = None \<and> ap_state t = LockedApp)"
proof -
  let ?c = "(stop_poll c)\<lparr>ap_vault := lock_now (ap_vault c), ap_messaging := None, ap_repos := False\<rparr>"
  have run: "lock_container D c = andthen (case ap_db c of None \<Rightarrow> ret ()
      | Some h \<Rightarrow> andthen (native D (ad_close D h)) (\<lambda>_. modify (\<lambda>c. c\<lparr>ap_db := None\<rparr>))) (\<lambda>_. set_app_state LockedApp) ?c"
    by (cases "ap_db c") (simp_all add: lock_container_def close_database_def on_vault_def lock_def modify_def andthen_def asks_def ret_def stop_poll_def)
  show ?thesis
  proof (cases "ap_db c")
    case None
    then show ?thesis unfolding run by (simp add: set_app_state_def andthen_def ret_def modify_def stop_poll_def)
  next
    case (Some h)
    obtain r v where n: "native D (ad_close D h) ?c = (r, ?c\<lparr>ap_vault := v\<rparr>)"
      by (cases "awaits (ad_vault D) (ad_close D h) (ap_vault ?c)") (simp add: native_def on_vault_def)
    have "closed (snd (native D (ad_close D h) ?c))" by (rule keepsD [OF native_sealed]) simp
    then have "sealed v" using n by simp
    then show ?thesis unfolding run using Some n by (cases r) (simp_all add: set_app_state_def andthen_def modify_def stop_poll_def)
  qed
qed



end
