(* ===== verification/Spec2Isabelle.thy ===== *)
theory Spec2Isabelle
  imports Cemp_Workers Cemp_Trust Cemp_Profiles Cemp_Sync Cemp_Keystore Cemp_Card Cemp_Resolve Cemp_Signing Cemp_Builders Cemp_Keys Cemp_Background Cemp_Foreground Cemp_Messaging Cemp_Migrate Cemp_Chat Cemp_Container
begin

text \<open>
  CEMP is an end-to-end encrypted messenger on the CKB chain (a pnpm workspace in TypeScript:
  packages/* and apps/*). A message is a cell whose data is an encrypted envelope and whose type args
  hold a route tag; the recipient finds it by scanning for the tag and answers with a receipt, after
  which the sender reclaims the capacity of the cell. The state of a device is an SQLite database;
  everything that talks to the chain first writes a journal there, so that a crash never loses or
  repeats a transaction.

  \<^bold>\<open>Conventions\<close> (\<open>Cemp_Prelude\<close>, \<open>Cemp_Db\<close>). A method that reads or writes state is a \<open>prog\<close>: a
  function from the state to a result (\<open>Inl\<close> an error, \<open>Inr\<close> a value) and the state it leaves
  behind, also when it throws. \<open>wp\<close> is its weakest precondition with an exceptional postcondition, and
  \<open>keeps I\<close> says that it preserves \<open>I\<close> on every path. A table is the list of its rows. A \<open>world\<close> is a
  database with an environment \<open>'w\<close>; a call of node, indexer, gateway, image codec or signer is an
  arbitrary function of the environment that answers, fails and takes time as it likes. Bytes are
  8-bit words. Cryptographic primitives and the Molecule codecs of the CCC library are parameters,
  and where a theorem needs their documented behaviour it is a named hypothesis (\<open>aead_ok\<close>,
  \<open>key_pair\<close>, \<open>decodes\<close>, \<open>vault_platform\<close>) that a witness instantiates. JSON values are a
  datatype; its numbers are those the program writes and reads, without the rounding of doubles
  above 2 to the power 53, which the code refuses where it matters.

  \<^bold>\<open>The theories\<close>, from the bottom up.

  \<^item> Data: \<open>Cemp_States\<close> (message-states.ts), \<open>Cemp_Bytes\<close>, \<open>Cemp_Text\<close>, \<open>Cemp_Utf8\<close> (hex, decimal
    and UTF-8 text), \<open>Cemp_Identity\<close> (identity.ts, fingerprint.ts), \<open>Cemp_Trust\<close> (profile-trust.ts).
  \<^item> Wire: \<open>Cemp_Codec\<close> (codecs.ts, strict canonical decoding), \<open>Cemp_Validate\<close> (validate.ts, the
    gates of untrusted input), \<open>Cemp_Envelope\<close> (packages/cemp-crypto: sealing and opening).
    \<open>Cemp_Card\<close> holds contact cards (contact-bundle.ts, contact-import.ts) with the flow of the scan
    screen, \<open>Cemp_Keys\<close> the derivation of the identity keys (packages/cemp-crypto).
  \<^item> Secrets (packages/cemp-secure-vault): \<open>Cemp_Json\<close> (JSON.parse and JSON.stringify),
    \<open>Cemp_VaultFormat\<close> (errors.ts, kdf.ts, format.ts: the file, its authenticated header and its
    strict parser), \<open>Cemp_Vault\<close> (vault.ts: every operation, as programs over storage, key store,
    clock and random generator, with a lock that can come in at every wait), \<open>Cemp_VaultUse\<close> (the
    contracts of storage and key store, and what each operation does to the stored secret) and
    \<open>Cemp_Keystore\<close> (storage.ts, keystore.ts, node.ts: the providers and the properties).
  \<^item> Database repositories (packages/cemp-database): \<open>Cemp_Messages\<close>, \<open>Cemp_Journal\<close>,
    \<open>Cemp_Balances\<close>, \<open>Cemp_Leases\<close>, \<open>Cemp_Attachments\<close>, \<open>Cemp_Contacts\<close>, \<open>Cemp_Profiles\<close>, the
    key-value tables with the rate limiter in \<open>Cemp_RateLimit\<close>, and the publication store in
    \<open>Cemp_Store\<close>. \<open>Cemp_Migrate\<close> (migrate.ts) has the schema itself: the list of migrations, statement
    by statement, and the runner that applies them.
  \<^item> Chain access (packages/cemp-ckb): \<open>Cemp_Client\<close> (client.ts: the parsers of every answer, the
    transport, the operations and the journaled transactions), \<open>Cemp_Builders\<close> (builders.ts),
    \<open>Cemp_Signing\<close> (mldsa-v2.ts, cighash.ts, signing.ts) and \<open>Cemp_Resolve\<close> (profiles.ts,
    rotation-verify.ts).
  \<^item> Pipelines (packages/cemp-ckb, packages/cemp-images): \<open>Cemp_Monitor\<close> (commit and resume),
    \<open>Cemp_Broadcast\<close> (the journal rule), \<open>Cemp_Lifecycle\<close> (receipts and reclaim), \<open>Cemp_Publisher\<close>,
    \<open>Cemp_Incoming\<close> (assembly, discovery, incoming processing), \<open>Cemp_Images\<close>,
    \<open>Cemp_AttachmentChain\<close>, \<open>Cemp_Wallet\<close>, and \<open>Cemp_Lora\<close> (packages/cemp-lora).
  \<^item> Composition (packages/cemp-sync): \<open>Cemp_Sync\<close> (engine, retry, endpoints) and \<open>Cemp_Workers\<close>, in
    which every worker runs the definitions of the theories below it.
  \<^item> The app (apps/android, packages/cemp-ui): \<open>Cemp_Ui\<close> (the view models), \<open>Cemp_Messaging\<close>
    (messaging.ts: publishing profile, text and images, attachments, blocking), \<open>Cemp_Chat\<close> (the
    handlers of the conversation screen), \<open>Cemp_Foreground\<close> (foreground-sync.ts), \<open>Cemp_Background\<close>
    (the tick of a background task and its cache of route tags) and \<open>Cemp_Container\<close> (app-container.ts,
    background-sync.ts: database, messaging, poll and scheduler opened and closed with the vault).

  \<^bold>\<open>Interfaces.\<close> \<open>capacity_ledger\<close> is the contract of the balance row that the reclaim arithmetic relies
  on, \<open>kv_store\<close> and \<open>limiter_store\<close> that of the key-value tables, and \<open>worker_contract\<close> collects what
  every repository, pipeline and call must preserve for the workers to preserve it. \<open>vault_storage\<close>,
  \<open>key_store\<close> and \<open>vault_platform\<close> are the promises of the three interfaces the vault is built on:
  a written file is read back, a wrapped key is unwrapped only by the store that wrapped it, a
  derived key opens what it sealed and nothing else. Each is
  interpreted on the definitions of the model in the theory that provides them.

  \<^bold>\<open>What is shown.\<close> Message histories: no operation loses or rewrites a message, states move along
  legal transitions only. Journal rule: every transaction ever sent has a journal row, for each
  pipeline and for any interleaving of the workers. Exactly-once effects: one winner of each commit,
  capacity released once, a committed message never sent again. Ledger: no category turns negative,
  and a message costs its fee. End to end: an assembled text is found, decrypted, stored and
  acknowledged; an image survives encryption, chunking and download. Hostile input: exact
  characterisations of the gates, the poll of the gateway and the rotation checks. Liveness and
  termination: waits end, stranded messages are healed, collection ends. Secrets: every state the
  vault reaches holds well-formed secrets; unlocking with a password gives exactly the secret the
  file stores for it (\<open>stored_secret\<close>, the abstract contents of a file); creation, import, the
  change of the password and the rewrite of the derivation keep that secret; an edited header is
  refused; a failed operation changes nothing. Chain access: a signature verifies against the lock of the
  signer and binds inputs, outputs and witnesses; a journaled body is the one that is broadcast; a resolved
  recipient is bound to the requested profile; a rotation that the builders make is the one the
  verification accepts; a message cell is the one its recipient looks for. The app: a profile, a
  text or an image is journaled before it is sent; an attachment is confirmed only after its download;
  no image row is left spinning without a transaction; an interrupted migration is completed by the
  next start, without statements run twice; syncs neither overlap nor stall; a waiting message
  is announced once; a tick on an overdue vault seals it and runs no sync; services exist only over an
  open database. Some theorems state what
  the code does against its intention; the manifest lists them as findings.

  \<^bold>\<open>Bounds.\<close> Loops without a bound of their own take fuel and throw \<open>out_of_fuel\<close>:
  \<open>collect_loop\<close> (enough is one more than the number of pages, \<open>collect_cells_complete\<close>) and
  \<open>scan_pages\<close> (no amount is enough against an indexer that never stops,
  \<open>endless_indexer_never_ends\<close>); \<open>outpoint_pages\<close> returns \<open>None\<close> instead. The loops that wait count rounds from the time left, which suffices
  for every environment (\<open>waiting_ends\<close>, \<open>outpoint_watch_ends\<close>). Numbers that are doubles in the code
  (retry delays, tokens, image scales) are rationals.

  \<^bold>\<open>Not modelled.\<close> The recovery phrase (calls of the BIP39 library, a parameter) and the redaction of
  logs, QR images, the adapter of the SQLite driver, the screens other than the conversation and
  the scan (layout and navigation), the native bridges of Android and iOS, the command-line clients and
  tools, and the on-chain type script, which is Rust. Of the wire codec the Molecule layouts are the
  library's; of the messaging service the construction of its objects and the methods that only
  delegate are left out. Zeroing of
  secrets in memory, timers and callbacks that only report progress are left out of the parts that
  are modelled. Two operations interleave only at the granularity of whole worker runs; within one
  operation the environment may do anything at each call, but the database changes only by the
  operation itself. The container of the app is finer: the vault may be locked at any wait.
\<close>

end
